(* ===== verification/Prelude.thy ===== *)
theory Prelude
  imports Main "HOL-Library.Word" "HOL-Library.Monad_Syntax"
begin

text \<open>
  Shared vocabulary of the development: machine integers and C strings as the models use
  them, the small part of the C library the sources call on strings, the collections of
  simplification rules the component theories extend, and the interface locales that more
  than one component implements.
\<close>

section \<open>Collections\<close>

named_theorems sm_defs \<open>handlers of the resource state machines\<close>
named_theorems hdr_defs \<open>operations on header sections and message headers\<close>

section \<open>Machine integers\<close>

type_synonym u8 = "8 word"
type_synonym i16 = "16 word"
type_synonym u16 = "16 word"
type_synonym u32 = "32 word"

text \<open>\<open>apr_size_t\<close> values are natural numbers below \<open>2 ^ 64\<close>.\<close>

definition size_t :: "int \<Rightarrow> nat" where
  "size_t i = nat (i mod 2 ^ 64)"

lemma size_t_bound [simp]: "size_t i < 2 ^ 64"
  by (simp add: size_t_def nat_less_iff)

lemma size_t_id [simp]: "n < 2 ^ 64 \<Longrightarrow> size_t (int n) = n"
  by (simp add: size_t_def)

text \<open>Two positions of a window of \<open>c\<close> in a cyclic array have different indices.\<close>

lemma window_mod:
  assumes "r \<le> s" "s < r + c" "r \<le> t" "t < r + c" "s mod c = t mod (c :: nat)"
  shows "s = t"
proof -
  have d: "s \<le> t \<Longrightarrow> c dvd t - s" "t \<le> s \<Longrightarrow> c dvd s - t"
    using mod_eq_dvd_iff_nat[of s t c] mod_eq_dvd_iff_nat[of t s c] unfolding assms(5) by blast+
  have "t - s < c" "s - t < c" using assms(1-4) by linarith+
  then have "\<not> s < t" "\<not> t < s" using nat_dvd_not_less[of "t - s" c] nat_dvd_not_less[of "s - t" c] d by auto
  then show ?thesis by simp
qed

section \<open>Characters and C strings\<close>

text \<open>
  An \<open>apt_str_t\<close> is a pointer and a length; its contents are a \<open>string\<close>. A null buffer is
  the empty string: every operation of the sources that tests for null treats the two alike.
  The end of the list stands for the terminating zero the pool allocator appends.
\<close>

definition nul :: char where "nul = CHR 0x00"
definition sp :: char where "sp = CHR 0x20"
definition htab :: char where "htab = CHR 0x09"
definition cr :: char where "cr = CHR 0x0D"
definition lf :: char where "lf = CHR 0x0A"

definition tolower :: "char \<Rightarrow> char" where
  "tolower c = (let n = (of_char c :: nat) in if 65 \<le> n \<and> n \<le> 90 then char_of (n + 32) else c)"

text \<open>\<open>strncasecmp(a, b, n) == 0\<close>.\<close>

fun strncaseeq :: "nat \<Rightarrow> string \<Rightarrow> string \<Rightarrow> bool" where
  "strncaseeq 0 a b = True"
| "strncaseeq (Suc n) [] [] = True"
| "strncaseeq (Suc n) [] (d # ds) = (d = nul)"
| "strncaseeq (Suc n) (c # cs) [] = (c = nul)"
| "strncaseeq (Suc n) (c # cs) (d # ds) =
     (tolower c = tolower d \<and> (c = nul \<or> strncaseeq n cs ds))"

lemma strncaseeq_refl [simp]: "strncaseeq n a a"
  by (induction n arbitrary: a) (case_tac a; simp)+

definition is_digit :: "char \<Rightarrow> bool" where
  "is_digit c \<longleftrightarrow> 48 \<le> (of_char c :: nat) \<and> (of_char c :: nat) \<le> 57"

definition digit_val :: "char \<Rightarrow> nat" where
  "digit_val c = of_char c - 48"

definition digit_char :: "nat \<Rightarrow> char" where
  "digit_char d = char_of (48 + d)"

text \<open>\<open>isspace\<close> in the C locale.\<close>

definition is_space :: "char \<Rightarrow> bool" where
  "is_space c \<longleftrightarrow> c = sp \<or> (9 \<le> (of_char c :: nat) \<and> (of_char c :: nat) \<le> 13)"

lemma of_char_digit_char [simp]: "d < 10 \<Longrightarrow> of_char (digit_char d) = (48 + d :: nat)"
  by (simp add: digit_char_def)

lemma is_digit_digit_char [simp]: "d < 10 \<Longrightarrow> is_digit (digit_char d)"
  by (simp add: is_digit_def)

lemma digit_val_digit_char [simp]: "d < 10 \<Longrightarrow> digit_val (digit_char d) = d"
  by (simp add: digit_val_def)

lemma digit_chars:
  "digit_char 0 = CHR ''0''" "digit_char 1 = CHR ''1''" "digit_char (Suc 0) = CHR ''1''" "digit_char 2 = CHR ''2''"
  "digit_char 3 = CHR ''3''" "digit_char 4 = CHR ''4''" "digit_char 5 = CHR ''5''" "digit_char 6 = CHR ''6''"
  "digit_char 7 = CHR ''7''" "digit_char 8 = CHR ''8''" "digit_char 9 = CHR ''9''"
  by code_simp+

text \<open>Splitting a text at a separator.\<close>

lemma find_SomeD: "find P xs = Some x \<Longrightarrow> x \<in> set xs \<and> P x"
  by (induction xs) (auto split: if_splits)

lemma find_append: "find P (xs @ ys) = (case find P xs of Some x \<Rightarrow> Some x | None \<Rightarrow> find P ys)"
  by (induction xs) auto

lemma takeWhile_sep [simp]:
  "c \<notin> set xs \<Longrightarrow> takeWhile (\<lambda>x. x \<noteq> c) (xs @ c # ys) = xs"
  "c \<notin> set xs \<Longrightarrow> takeWhile (\<lambda>x. x \<noteq> c) xs = xs"
  by (induction xs) auto

section \<open>Decimal numbers: printf and atol\<close>

fun show_nat :: "nat \<Rightarrow> string" where
  "show_nat n = (if n < 10 then [digit_char n] else show_nat (n div 10) @ [digit_char (n mod 10)])"

declare show_nat.simps [simp del]

definition show_int :: "int \<Rightarrow> string" where
  "show_int i = (if i < 0 then CHR ''-'' # show_nat (nat (- i)) else show_nat (nat i))"

text \<open>The value of the leading digits, most significant first.\<close>

definition digits_val :: "string \<Rightarrow> nat" where
  "digits_val ds = foldl (\<lambda>v c. 10 * v + digit_val c) 0 ds"

text \<open>
  \<open>atol\<close>: leading white space, an optional sign, then digits up to the first other
  character. Values out of the range of \<open>long\<close> saturate, as the C library's \<open>strtol\<close> does.
\<close>

definition clamp_long :: "int \<Rightarrow> int" where
  "clamp_long i = max (- (2 ^ 63)) (min (2 ^ 63 - 1) i)"

definition atol :: "string \<Rightarrow> int" where
  "atol s = (let t = dropWhile is_space s in
     case t of
       [] \<Rightarrow> 0
     | c # cs \<Rightarrow>
         if c = CHR ''-'' then clamp_long (- int (digits_val (takeWhile is_digit cs)))
         else if c = CHR ''+'' then clamp_long (int (digits_val (takeWhile is_digit cs)))
         else clamp_long (int (digits_val (takeWhile is_digit t))))"

lemma show_nat_nonempty [simp]: "show_nat n \<noteq> []"
  by (subst show_nat.simps) simp

lemma length_show_nat_pos [simp]: "0 < length (show_nat n)"
  by simp

lemma show_nat_digits: "c \<in> set (show_nat n) \<Longrightarrow> is_digit c"
proof (induction n rule: show_nat.induct)
  case (1 n)
  then show ?case by (cases "n < 10") (auto simp: show_nat.simps[of n])
qed

lemma digits_val_snoc [simp]: "digits_val (ds @ [c]) = 10 * digits_val ds + digit_val c"
  by (simp add: digits_val_def)

lemma digits_val_Nil [simp]: "digits_val [] = 0"
  by (simp add: digits_val_def)

lemma digits_val_show_nat [simp]: "digits_val (show_nat n) = n"
proof (induction n rule: show_nat.induct)
  case (1 n)
  show ?case
  proof (cases "n < 10")
    case True
    then show ?thesis using digits_val_snoc[of "[]" "digit_char n"]
      by (subst show_nat.simps) simp
  next
    case False
    then show ?thesis using "1.IH" by (subst show_nat.simps) simp
  qed
qed

lemma is_digit_not_special:
  assumes "is_digit c"
  shows "\<not> is_space c" "c \<noteq> CHR ''-''" "c \<noteq> CHR ''+''" "c \<noteq> CHR '',''" "c \<noteq> sp"
  using assms by (auto simp: is_digit_def is_space_def sp_def)

text \<open>Reading back what was printed, up to the first character that is not a digit.\<close>

lemma takeWhile_show_nat:
  assumes "rest = [] \<or> \<not> is_digit (hd rest)"
  shows "takeWhile is_digit (show_nat n @ rest) = show_nat n"
proof -
  have "\<forall>c \<in> set (show_nat n). is_digit c" by (simp add: show_nat_digits)
  then have "takeWhile is_digit (show_nat n @ rest) = show_nat n @ takeWhile is_digit rest"
    by (simp add: takeWhile_append2)
  with assms show ?thesis by (cases rest) auto
qed

lemma atol_show_nat_append:
  assumes "rest = [] \<or> \<not> is_digit (hd rest)" and "n < 2 ^ 63"
  shows "atol (show_nat n @ rest) = int n"
proof -
  obtain c cs where ccs: "show_nat n = c # cs" by (cases "show_nat n") auto
  then have "is_digit c" using show_nat_digits[of c n] by simp
  note nc = is_digit_not_special[OF this]
  have drop: "dropWhile is_space (show_nat n @ rest) = show_nat n @ rest"
    using ccs nc by simp
  have "atol (show_nat n @ rest) = clamp_long (int (digits_val (takeWhile is_digit (show_nat n @ rest))))"
    unfolding atol_def Let_def drop using ccs nc by simp
  also have "\<dots> = clamp_long (int n)"
    by (simp only: takeWhile_show_nat[OF assms(1)] digits_val_show_nat)
  finally show ?thesis using assms(2) by (simp add: clamp_long_def)
qed

lemma length_show_nat_le:
  "0 < k \<Longrightarrow> (length (show_nat n) \<le> k) = (n < 10 ^ k)"
proof (induction n arbitrary: k rule: show_nat.induct)
  case (1 n)
  show ?case
  proof (cases "n < 10")
    case True
    have "(10::nat) ^ 1 \<le> 10 ^ k" using 1(2) by (intro power_increasing) auto
    with True 1(2) show ?thesis by (subst show_nat.simps) simp
  next
    case False
    obtain j where j: "k = Suc j" using 1(2) by (cases k) auto
    show ?thesis
    proof (cases "j = 0")
      case True
      with False j show ?thesis by (subst show_nat.simps) simp
    next
      case j0: False
      have "(length (show_nat n) \<le> k) = (length (show_nat (n div 10)) \<le> j)"
        using False j by (subst show_nat.simps) simp
      also have "\<dots> = (n div 10 < 10 ^ j)" using 1(1)[OF False, of j] j0 by simp
      also have "\<dots> = (n < 10 ^ k)" using j by (simp add: div_less_iff_less_mult mult.commute)
      finally show ?thesis .
    qed
  qed
qed

section \<open>First-in first-out containers\<close>

text \<open>
  What a user of a queue relies on. \<open>qpush\<close> may fail to return (a memory fault of the
  model); on well-formed queues the law says that it does not.
\<close>

datatype 'a qop = Push 'a | Pop

locale fifo =
  fixes qpush :: "'q \<Rightarrow> 'a \<Rightarrow> 'q option"
    and qpop :: "'q \<Rightarrow> 'a option \<times> 'q"
    and qlist :: "'q \<Rightarrow> 'a list"
    and qinv :: "'q \<Rightarrow> bool"
  assumes push_ok: "qinv q \<Longrightarrow> \<exists>q'. qpush q x = Some q' \<and> qinv q' \<and> qlist q' = qlist q @ [x]"
    and pop_empty: "qinv q \<Longrightarrow> qlist q = [] \<Longrightarrow> fst (qpop q) = None"
    and pop_first: "qinv q \<Longrightarrow> qlist q = x # xs \<Longrightarrow> fst (qpop q) = Some x"
    and pop_list: "qinv q \<Longrightarrow> qlist (snd (qpop q)) = tl (qlist q)"
    and pop_inv: "qinv q \<Longrightarrow> qinv (snd (qpop q))"
begin

fun qrun :: "'q \<Rightarrow> 'a qop list \<Rightarrow> ('a option list \<times> 'q) option" where
  "qrun q [] = Some ([], q)"
| "qrun q (Push x # ops) = (case qpush q x of None \<Rightarrow> None | Some q' \<Rightarrow> qrun q' ops)"
| "qrun q (Pop # ops) =
     (case qrun (snd (qpop q)) ops of None \<Rightarrow> None | Some (os, q') \<Rightarrow> Some (fst (qpop q) # os, q'))"

end

text \<open>The abstract queue: a list, new elements at the end.\<close>

fun list_qrun :: "'a list \<Rightarrow> 'a qop list \<Rightarrow> 'a option list \<times> 'a list" where
  "list_qrun xs [] = ([], xs)"
| "list_qrun xs (Push x # ops) = list_qrun (xs @ [x]) ops"
| "list_qrun [] (Pop # ops) = (let (os, ys) = list_qrun [] ops in (None # os, ys))"
| "list_qrun (x # xs) (Pop # ops) = (let (os, ys) = list_qrun xs ops in (Some x # os, ys))"

lemma list_qrun_pushes: "list_qrun xs (map Push ys @ ops) = list_qrun (xs @ ys) ops"
  by (induction ys arbitrary: xs) auto

lemma list_qrun_pops: "list_qrun xs (replicate (length xs) Pop) = (map Some xs, [])"
  by (induction xs) auto

context fifo begin

lemma run_refines_list:
  assumes "qinv q"
  shows "\<exists>q'. qrun q ops = Some (fst (list_qrun (qlist q) ops), q')
            \<and> qinv q' \<and> qlist q' = snd (list_qrun (qlist q) ops)"
  using assms
proof (induction ops arbitrary: q)
  case Nil
  then show ?case by simp
next
  case (Cons op ops)
  show ?case
  proof (cases op)
    case (Push x)
    from push_ok[OF Cons.prems, of x] obtain q1 where
      q1: "qpush q x = Some q1" "qinv q1" "qlist q1 = qlist q @ [x]" by auto
    from Cons.IH[OF q1(2)] show ?thesis by (simp add: Push q1)
  next
    case Pop
    have i: "qinv (snd (qpop q))" using pop_inv[OF Cons.prems] .
    note ih = Cons.IH[OF i]
    show ?thesis
    proof (cases "qlist q")
      case Nil
      then show ?thesis
        using ih pop_empty[OF Cons.prems] pop_list[OF Cons.prems] by (auto simp: Pop split_beta)
    next
      case (Cons y ys)
      then show ?thesis
        using ih pop_first[OF \<open>qinv q\<close>] pop_list[OF \<open>qinv q\<close>] by (auto simp: Pop split_beta)
    qed
  qed
qed

lemma pushed_in_order:
  assumes "qinv q" and "qlist q = []"
  shows "\<exists>q'. qrun q (map Push xs @ replicate (length xs) Pop) = Some (map Some xs, q')
            \<and> qinv q' \<and> qlist q' = []"
  using run_refines_list[OF assms(1), of "map Push xs @ replicate (length xs) Pop"]
  by (simp add: assms(2) list_qrun_pushes list_qrun_pops)

end

end
