(* ===== verification/Cyclic_Queue.thy ===== *)
theory Cyclic_Queue
  imports Prelude
begin

text \<open>
  \<open>libs/apr-toolkit/src/apt_cyclic_queue.c\<close>: the growing ring buffer behind the task
  message queues. The allocated array is a list of slots; a slot nothing was written to is
  \<open>None\<close>. Access outside the array, and the remainder by a zero capacity, is a memory
  fault: the operation returns \<open>None\<close>.
\<close>

record 'a cyclic_queue =
  cq_data :: "'a option list"
  cq_max_size :: nat
  cq_actual_size :: nat
  cq_head :: nat
  cq_tail :: nat

definition apt_cyclic_queue_create :: "nat \<Rightarrow> 'a cyclic_queue" where
  "apt_cyclic_queue_create n =
     \<lparr>cq_data = replicate n None, cq_max_size = n, cq_actual_size = 0, cq_head = 0, cq_tail = 0\<rparr>"

definition apt_cyclic_queue_resize :: "'a cyclic_queue \<Rightarrow> 'a cyclic_queue" where
  "apt_cyclic_queue_resize q =
     (let new_size = cq_max_size q + cq_max_size q div 2;
          offset = cq_max_size q - cq_head q;
          copied = take offset (drop (cq_head q) (cq_data q)) @ take (cq_head q) (cq_data q)
      in q\<lparr>cq_tail := 0, cq_head := cq_max_size q, cq_max_size := new_size,
           cq_data := copied @ replicate (new_size - length copied) None\<rparr>)"

definition apt_cyclic_queue_push :: "'a cyclic_queue \<Rightarrow> 'a \<Rightarrow> 'a cyclic_queue option" where
  "apt_cyclic_queue_push q0 x =
     (let q = (if cq_max_size q0 \<le> cq_actual_size q0 then apt_cyclic_queue_resize q0 else q0)
      in if cq_head q < length (cq_data q) \<and> cq_max_size q \<noteq> 0
         then Some (q\<lparr>cq_data := (cq_data q)[cq_head q := Some x],
                      cq_head := (cq_head q + 1) mod cq_max_size q,
                      cq_actual_size := cq_actual_size q + 1\<rparr>)
         else None)"

definition apt_cyclic_queue_pop :: "'a cyclic_queue \<Rightarrow> 'a option \<times> 'a cyclic_queue" where
  "apt_cyclic_queue_pop q =
     (if cq_actual_size q \<noteq> 0
      then (cq_data q ! cq_tail q,
            q\<lparr>cq_tail := (cq_tail q + 1) mod cq_max_size q, cq_actual_size := cq_actual_size q - 1\<rparr>)
      else (None, q))"

definition apt_cyclic_queue_clear :: "'a cyclic_queue \<Rightarrow> 'a cyclic_queue" where
  "apt_cyclic_queue_clear q = q\<lparr>cq_actual_size := 0, cq_head := 0, cq_tail := 0\<rparr>"

definition apt_cyclic_queue_is_empty :: "'a cyclic_queue \<Rightarrow> bool" where
  "apt_cyclic_queue_is_empty q = (if cq_actual_size q \<noteq> 0 then True else False)"

section \<open>Well-formed queues and their contents\<close>

definition cq_slot :: "'a cyclic_queue \<Rightarrow> nat \<Rightarrow> nat" where
  "cq_slot q i = (cq_tail q + i) mod cq_max_size q"

definition cq_wf :: "'a cyclic_queue \<Rightarrow> bool" where
  "cq_wf q \<longleftrightarrow> 2 \<le> cq_max_size q \<and> length (cq_data q) = cq_max_size q
     \<and> cq_actual_size q \<le> cq_max_size q \<and> cq_tail q < cq_max_size q
     \<and> cq_head q = cq_slot q (cq_actual_size q)
     \<and> (\<forall>i < cq_actual_size q. cq_data q ! cq_slot q i \<noteq> None)"

definition cq_list :: "'a cyclic_queue \<Rightarrow> 'a list" where
  "cq_list q = map (\<lambda>i. the (cq_data q ! cq_slot q i)) [0..<cq_actual_size q]"

lemma cq_slot_upd [simp]:
  "cq_slot (q\<lparr>cq_data := d\<rparr>) = cq_slot q"
  "cq_slot (q\<lparr>cq_head := h\<rparr>) = cq_slot q"
  "cq_slot (q\<lparr>cq_actual_size := n\<rparr>) = cq_slot q"
  by (simp_all add: cq_slot_def fun_eq_iff)

lemma length_cq_list [simp]: "length (cq_list q) = cq_actual_size q"
  by (simp add: cq_list_def)

lemma cq_create_wf: "2 \<le> n \<Longrightarrow> cq_wf (apt_cyclic_queue_create n)"
  by (simp add: cq_wf_def apt_cyclic_queue_create_def cq_slot_def)

lemma cq_create_list [simp]: "cq_list (apt_cyclic_queue_create n) = []"
  by (simp add: cq_list_def apt_cyclic_queue_create_def)

lemma mod_slot_less:
  fixes t m i j :: nat
  assumes "t < m" "i < j" "j < m"
  shows "(t + i) mod m \<noteq> (t + j) mod m"
  using assms by (auto simp: mod_if)

lemma mod_slot_inj:
  fixes t m i j :: nat
  assumes "(t + i) mod m = (t + j) mod m" "t < m" "i < m" "j < m"
  shows "i = j"
  using assms mod_slot_less[of t m i j] mod_slot_less[of t m j i] by (metis nat_neq_iff)

text \<open>Growing a full queue keeps its contents and leaves room.\<close>

lemma resize_full:
  assumes wf: "cq_wf q" and full: "cq_actual_size q = cq_max_size q"
  shows "length (cq_data (apt_cyclic_queue_resize q)) = cq_max_size q + cq_max_size q div 2"
    and "i < cq_max_size q \<Longrightarrow> cq_data (apt_cyclic_queue_resize q) ! i = cq_data q ! cq_slot q i"
proof -
  let ?m = "cq_max_size q" and ?h = "cq_head q"
  have h: "?h = cq_tail q" "?h < ?m" "length (cq_data q) = ?m"
    using wf full by (auto simp: cq_wf_def cq_slot_def)
  have len: "length (take (?m - ?h) (drop ?h (cq_data q)) @ take ?h (cq_data q)) = ?m"
    using h by simp
  show "length (cq_data (apt_cyclic_queue_resize q)) = ?m + ?m div 2"
    using len by (simp add: apt_cyclic_queue_resize_def Let_def)
  assume i: "i < ?m"
  show "cq_data (apt_cyclic_queue_resize q) ! i = cq_data q ! cq_slot q i"
  proof (cases "i < ?m - ?h")
    case True
    then have "cq_slot q i = ?h + i" using h by (simp add: cq_slot_def)
    then show ?thesis using True h i
      by (simp add: apt_cyclic_queue_resize_def Let_def nth_append)
  next
    case False
    have "(cq_tail q + i) mod ?m = cq_tail q + i - ?m"
    proof -
      have "?m \<le> cq_tail q + i" "cq_tail q + i - ?m < ?m" using False h i by linarith+
      then show ?thesis by (simp add: le_mod_geq)
    qed
    then have "cq_slot q i = i - (?m - ?h)"
      using False h i by (simp add: cq_slot_def)
    moreover have "i - (?m - ?h) < ?h" using False h i by linarith
    ultimately show ?thesis using False h i
      by (simp add: apt_cyclic_queue_resize_def Let_def nth_append)
  qed
qed

lemma resize_wf:
  assumes wf: "cq_wf q" and full: "cq_actual_size q = cq_max_size q"
  shows "cq_wf (apt_cyclic_queue_resize q)" "cq_list (apt_cyclic_queue_resize q) = cq_list q"
    "cq_actual_size (apt_cyclic_queue_resize q) < cq_max_size (apt_cyclic_queue_resize q)"
proof -
  let ?r = "apt_cyclic_queue_resize q"
  have f: "cq_max_size ?r = cq_max_size q + cq_max_size q div 2" "cq_tail ?r = 0"
    "cq_head ?r = cq_max_size q" "cq_actual_size ?r = cq_max_size q"
    using full by (simp_all add: apt_cyclic_queue_resize_def Let_def)
  have m: "2 \<le> cq_max_size q" using wf by (simp add: cq_wf_def)
  then have slot: "i \<le> cq_max_size q \<Longrightarrow> cq_slot ?r i = i" for i by (simp add: cq_slot_def f)
  show "cq_actual_size ?r < cq_max_size ?r" using m f by simp
  show "cq_wf ?r" using wf full m f slot resize_full[OF wf full]
    by (simp add: cq_wf_def)
  show "cq_list ?r = cq_list q"
    using full f slot resize_full(2)[OF wf full] by (simp add: cq_list_def)
qed

lemma push_room:
  assumes wf: "cq_wf q" and room: "cq_actual_size q < cq_max_size q"
  shows "\<exists>q'. apt_cyclic_queue_push q x = Some q' \<and> cq_wf q' \<and> cq_list q' = cq_list q @ [x]"
proof -
  let ?m = "cq_max_size q" and ?n = "cq_actual_size q"
  let ?q = "q\<lparr>cq_data := (cq_data q)[cq_head q := Some x],
       cq_head := (cq_head q + 1) mod ?m, cq_actual_size := ?n + 1\<rparr>"
  have h: "cq_head q = cq_slot q ?n" "cq_head q < ?m" "length (cq_data q) = ?m" "2 \<le> ?m"
    using wf by (auto simp: cq_wf_def cq_slot_def)
  have p: "apt_cyclic_queue_push q x = Some ?q"
    using room h by (simp add: apt_cyclic_queue_push_def)
  have other: "i < ?n \<Longrightarrow> cq_slot q i \<noteq> cq_head q" for i
    using h room wf mod_slot_inj[of "cq_tail q" i ?m ?n] by (auto simp: cq_slot_def cq_wf_def)
  have "cq_wf ?q"
    using wf room h other unfolding cq_wf_def
    by (auto simp: nth_list_update less_Suc_eq) (simp add: cq_slot_def mod_Suc_eq)
  moreover have "cq_list ?q = cq_list q @ [x]"
    using h other other[symmetric] by (auto simp: cq_list_def nth_list_update)
  ultimately show ?thesis using p by blast
qed

lemma push_wf:
  assumes wf: "cq_wf q"
  shows "\<exists>q'. apt_cyclic_queue_push q x = Some q' \<and> cq_wf q' \<and> cq_list q' = cq_list q @ [x]"
proof (cases "cq_actual_size q < cq_max_size q")
  case True
  then show ?thesis by (rule push_room[OF wf])
next
  case False
  with wf have full: "cq_actual_size q = cq_max_size q" by (simp add: cq_wf_def)
  note r = resize_wf[OF wf full]
  have "apt_cyclic_queue_push q x = apt_cyclic_queue_push (apt_cyclic_queue_resize q) x"
    using full r(3) by (simp add: apt_cyclic_queue_push_def)
  with push_room[OF r(1,3), of x] r(2) show ?thesis by simp
qed

lemma cq_list_nonempty:
  assumes "cq_wf q" "cq_actual_size q \<noteq> 0"
  shows "cq_list q = the (cq_data q ! cq_tail q) # tl (cq_list q)" "cq_data q ! cq_tail q \<noteq> None"
proof -
  have t: "cq_slot q 0 = cq_tail q" using assms(1) by (simp add: cq_wf_def cq_slot_def)
  show "cq_data q ! cq_tail q \<noteq> None" using assms t by (metis cq_wf_def gr0I)
  show "cq_list q = the (cq_data q ! cq_tail q) # tl (cq_list q)"
    using assms(2) t by (simp add: cq_list_def upt_conv_Cons)
qed

lemma pop_wf:
  assumes wf: "cq_wf q"
  shows "cq_wf (snd (apt_cyclic_queue_pop q)) \<and> cq_list (snd (apt_cyclic_queue_pop q)) = tl (cq_list q)"
proof (cases "cq_actual_size q")
  case 0
  then show ?thesis using wf by (simp add: apt_cyclic_queue_pop_def cq_list_def)
next
  case (Suc n)
  let ?q = "q\<lparr>cq_tail := (cq_tail q + 1) mod cq_max_size q, cq_actual_size := n\<rparr>"
  have slot: "cq_slot ?q i = cq_slot q (Suc i)" for i
    by (simp add: cq_slot_def mod_simps)
  have slot': "cq_slot (q\<lparr>cq_tail := Suc (cq_tail q) mod cq_max_size q\<rparr>) i = cq_slot q (Suc i)" for i
    by (simp add: cq_slot_def mod_simps)
  have "cq_wf ?q" using wf Suc unfolding cq_wf_def slot by auto
  moreover have "cq_list ?q = tl (cq_list q)"
    using Suc by (simp add: cq_list_def slot' upt_conv_Cons map_Suc_upt[symmetric] del: map_Suc_upt upt_Suc)
  ultimately show ?thesis using Suc by (simp add: apt_cyclic_queue_pop_def)
qed

interpretation cyc: fifo apt_cyclic_queue_push apt_cyclic_queue_pop cq_list cq_wf
proof unfold_locales
  fix q :: "'a cyclic_queue" and x xs
  assume wf: "cq_wf q"
  show "\<exists>q'. apt_cyclic_queue_push q x = Some q' \<and> cq_wf q' \<and> cq_list q' = cq_list q @ [x]"
    by (rule push_wf[OF wf])
  show "cq_list (snd (apt_cyclic_queue_pop q)) = tl (cq_list q)" "cq_wf (snd (apt_cyclic_queue_pop q))"
    using pop_wf[OF wf] by auto
  show "fst (apt_cyclic_queue_pop q) = None" if "cq_list q = []"
    using that length_cq_list[of q] by (simp add: apt_cyclic_queue_pop_def)
  show "fst (apt_cyclic_queue_pop q) = Some x" if c: "cq_list q = x # xs"
  proof -
    have "cq_actual_size q \<noteq> 0" using c length_cq_list[of q] by auto
    with cq_list_nonempty[OF wf this] c show ?thesis by (auto simp: apt_cyclic_queue_pop_def)
  qed
qed

section \<open>Properties\<close>

text \<open>
  C34: A queue created with room for two or more elements behaves as a list, however often it
  grows and wraps: any sequence of push and pop operations runs without a memory fault and
  returns what the same operations on a list return, the oldest element first.
\<close>

theorem cyclic_queue_refines_list:
  assumes "2 \<le> n"
  shows "\<exists>q'. cyc.qrun (apt_cyclic_queue_create n) ops = Some (fst (list_qrun [] ops), q')
    \<and> cq_wf q' \<and> cq_list q' = snd (list_qrun [] ops)"
  using cyc.run_refines_list[OF cq_create_wf[OF assms], of ops] by simp

lemma cyclic_queue_refines_list_witness:
  "\<exists>q'. cyc.qrun (apt_cyclic_queue_create 2) [Push (1 :: nat), Push 2, Push 3, Pop, Pop, Push 4, Pop]
    = Some ([Some 1, Some 2, Some 3], q') \<and> cq_list q' = [4]"
  using cyclic_queue_refines_list[of 2 "[Push (1 :: nat), Push 2, Push 3, Pop, Pop, Push 4, Pop]"]
  by (simp del: cyc.qrun.simps) blast

text \<open>
  \<open>apt_cyclic_queue_is_empty\<close> answers the opposite of its name and of its comment: it is
  true exactly when the queue holds an element.
\<close>

theorem cyclic_queue_is_empty_inverted:
  "apt_cyclic_queue_is_empty q \<longleftrightarrow> cq_list q \<noteq> []"
proof -
  have "cq_list q = [] \<longleftrightarrow> cq_actual_size q = 0" using length_cq_list[of q] by (metis length_0_conv)
  then show ?thesis by (simp add: apt_cyclic_queue_is_empty_def)
qed

text \<open>
  A queue created with room for one element does not grow: half of its capacity rounds to
  zero, and the second push writes behind the end of the array.
\<close>

theorem cyclic_queue_capacity_one_fault:
  "\<exists>q. apt_cyclic_queue_push (apt_cyclic_queue_create 1) x = Some q \<and> cq_list q = [x]
    \<and> apt_cyclic_queue_push q y = None"
  by (simp add: apt_cyclic_queue_push_def apt_cyclic_queue_create_def apt_cyclic_queue_resize_def
      cq_list_def cq_slot_def Let_def)

end
