(* ===== verification/Timer_Queue.thy ===== *)
theory Timer_Queue
  imports Prelude
begin

text \<open>
  \<open>libs/apr-toolkit/src/apt_timer_queue.c\<close>: one-shot timers in a ring sorted by the time
  they are due. A timer is a number; the ring is the list of the timers in it, the
  \<open>scheduled_time\<close> members are a map. Times are 32-bit and wrap. A timer's procedure is a
  parameter: it may change the queue through the same operations.
\<close>

record timer_queue =
  tq_ring :: "nat list"
  tq_sched :: "nat \<Rightarrow> u32"
  tq_elapsed :: u32
  tq_reset :: bool

definition apt_timer_queue_create :: timer_queue where
  "apt_timer_queue_create = \<lparr>tq_ring = [], tq_sched = (\<lambda>_. 0), tq_elapsed = 0, tq_reset = False\<rparr>"

definition apt_timer_queue_is_empty :: "timer_queue \<Rightarrow> bool" where
  "apt_timer_queue_is_empty q \<longleftrightarrow> tq_ring q = []"

text \<open>
  The insertion walks the ring from its tail and inserts after the first timer that is not
  due later; the lists here run from the tail to the head.
\<close>

fun timer_insert_rev :: "(nat \<Rightarrow> u32) \<Rightarrow> nat \<Rightarrow> nat list \<Rightarrow> nat list" where
  "timer_insert_rev sched t [] = [t]"
| "timer_insert_rev sched t (it # rest) =
     (if sched it \<le> sched t then t # it # rest else it # timer_insert_rev sched t rest)"

definition apt_timer_insert :: "timer_queue \<Rightarrow> nat \<Rightarrow> timer_queue" where
  "apt_timer_insert q t = q\<lparr>tq_ring := rev (timer_insert_rev (tq_sched q) t (rev (tq_ring q)))\<rparr>"

definition apt_timer_remove :: "timer_queue \<Rightarrow> nat \<Rightarrow> timer_queue" where
  "apt_timer_remove q t =
     (let q1 = q\<lparr>tq_ring := remove1 t (tq_ring q), tq_sched := (tq_sched q)(t := 0)\<rparr>
      in if tq_ring q1 = [] then q1\<lparr>tq_elapsed := 0, tq_reset := True\<rparr> else q1)"

definition apt_timers_reschedule :: "timer_queue \<Rightarrow> timer_queue" where
  "apt_timers_reschedule q =
     q\<lparr>tq_sched := (\<lambda>t. if t \<in> set (tq_ring q) then tq_sched q t - tq_elapsed q else tq_sched q t),
       tq_elapsed := 0\<rparr>"

text \<open>\<open>has_proc\<close>: the timer was created with a procedure.\<close>

definition apt_timer_set :: "bool \<Rightarrow> timer_queue \<Rightarrow> nat \<Rightarrow> u32 \<Rightarrow> bool \<times> timer_queue" where
  "apt_timer_set has_proc q t timeout =
     (if timeout \<le> 0 \<or> \<not> has_proc then (False, q)
      else let q1 = (if tq_sched q t \<noteq> 0 then apt_timer_remove q t else q);
               q2 = q1\<lparr>tq_sched := (tq_sched q1)(t := tq_elapsed q1 + timeout)\<rparr>
           in if tq_ring q2 = [] then (True, q2\<lparr>tq_ring := [t]\<rparr>)
              else (True, apt_timer_insert q2 t))"

definition apt_timer_kill :: "timer_queue \<Rightarrow> nat \<Rightarrow> bool \<times> timer_queue" where
  "apt_timer_kill q t =
     (if tq_sched q t = 0 then (False, q) else (True, apt_timer_remove q t))"

definition apt_timer_queue_timeout_get :: "timer_queue \<Rightarrow> u32 option \<times> timer_queue" where
  "apt_timer_queue_timeout_get q =
     (let q1 = q\<lparr>tq_reset := False\<rparr> in
      case tq_ring q1 of
        [] \<Rightarrow> (None, q1)
      | t # _ \<Rightarrow> (Some (tq_sched q1 t - tq_elapsed q1), q1))"

text \<open>
  The loop of \<open>apt_timer_queue_advance\<close>. The log holds the timers whose procedures ran, in
  order. Each iteration spends one unit of \<open>fuel\<close>; \<open>None\<close> when it runs out.
\<close>

fun timers_process ::
  "nat \<Rightarrow> (nat \<Rightarrow> timer_queue \<Rightarrow> timer_queue) \<Rightarrow> timer_queue \<Rightarrow> nat list \<Rightarrow> (nat list \<times> timer_queue) option"
where
  "timers_process 0 proc q log = None"
| "timers_process (Suc fuel) proc q log =
     (case tq_ring q of
        [] \<Rightarrow> Some (log, q)
      | t # ts \<Rightarrow>
          if tq_elapsed q < tq_sched q t then Some (log, q)
          else timers_process fuel proc
                 (proc t (q\<lparr>tq_ring := ts, tq_sched := (tq_sched q)(t := 0)\<rparr>)) (log @ [t]))"

definition apt_timer_queue_advance ::
  "nat \<Rightarrow> (nat \<Rightarrow> timer_queue \<Rightarrow> timer_queue) \<Rightarrow> timer_queue \<Rightarrow> u32 \<Rightarrow> (nat list \<times> timer_queue) option"
where
  "apt_timer_queue_advance fuel proc q d =
     (if tq_ring q = [] then Some ([], q)
      else if tq_reset q then Some ([], q)
      else let q1 = q\<lparr>tq_elapsed := tq_elapsed q + d\<rparr>;
               q2 = (if 0xFFFF \<le> tq_elapsed q1 then apt_timers_reschedule q1 else q1)
           in timers_process fuel proc q2 [])"

section \<open>Well-formed queues\<close>

text \<open>
  The ring is sorted, holds each timer once, and holds exactly the timers with a scheduled
  time: the test \<open>scheduled_time != 0\<close> that \<open>apt_timer_set\<close> and \<open>apt_timer_kill\<close> make
  decides membership in the ring.
\<close>

definition tq_sorted :: "timer_queue \<Rightarrow> bool" where
  "tq_sorted q \<longleftrightarrow> sorted_wrt (\<lambda>s t. tq_sched q s \<le> tq_sched q t) (tq_ring q)"

definition tq_wf :: "timer_queue \<Rightarrow> bool" where
  "tq_wf q \<longleftrightarrow> distinct (tq_ring q) \<and> tq_sorted q \<and> (\<forall>t. t \<in> set (tq_ring q) \<longleftrightarrow> tq_sched q t \<noteq> 0)"

lemma sorted_wrt_remove1: "sorted_wrt P xs \<Longrightarrow> sorted_wrt P (remove1 x xs)"
  by (induction xs) (auto dest: set_remove1_subset[THEN subsetD])

lemma sorted_wrt_cong_set:
  "sorted_wrt P xs \<Longrightarrow> (\<And>x y. x \<in> set xs \<Longrightarrow> y \<in> set xs \<Longrightarrow> P x y \<Longrightarrow> Q x y) \<Longrightarrow> sorted_wrt Q xs"
  by (induction xs) auto

lemma set_timer_insert_rev [simp]: "set (timer_insert_rev f t xs) = insert t (set xs)"
  by (induction xs) auto

lemma distinct_timer_insert_rev [simp]:
  "t \<notin> set xs \<Longrightarrow> distinct (timer_insert_rev f t xs) = distinct xs"
  by (induction xs) auto

lemma sorted_timer_insert_rev:
  "sorted_wrt (\<lambda>s t. f t \<le> f s) xs \<Longrightarrow> sorted_wrt (\<lambda>s t. f t \<le> f s) (timer_insert_rev f t xs)"
proof (induction xs)
  case Nil
  then show ?case by simp
next
  case (Cons a xs)
  have "f y \<le> f t" if "f a \<le> f t" "y \<in> set xs" for y
    using Cons.prems that by (auto intro: order.trans)
  with Cons show ?case by (auto simp: not_le intro: less_imp_le)
qed

lemma remove1_Nil_iff: "remove1 x xs = [] \<longleftrightarrow> xs = [] \<or> xs = [x]"
  by (cases xs) auto

lemma timer_remove_wf: "tq_wf q \<Longrightarrow> tq_wf (apt_timer_remove q t)"
  unfolding tq_wf_def tq_sorted_def apt_timer_remove_def Let_def
  by (auto intro!: sorted_wrt_cong_set[OF sorted_wrt_remove1] simp: remove1_Nil_iff)

lemma timer_remove_facts:
  assumes "tq_wf q"
  shows "set (tq_ring (apt_timer_remove q t)) = set (tq_ring q) - {t}"
    and "tq_sched (apt_timer_remove q t) = (tq_sched q)(t := 0)"
  using assms by (auto simp: apt_timer_remove_def Let_def tq_wf_def remove1_Nil_iff)

lemma timer_insert_wf:
  assumes wf: "tq_wf q" and t: "t \<notin> set (tq_ring q)" and s: "s \<noteq> 0"
  shows "tq_wf (apt_timer_insert (q\<lparr>tq_sched := (tq_sched q)(t := s)\<rparr>) t)"
proof -
  let ?f = "(tq_sched q)(t := s)"
  have "sorted_wrt (\<lambda>x y. ?f x \<le> ?f y) (tq_ring q)"
    using wf t by (auto simp: tq_wf_def tq_sorted_def intro: sorted_wrt_cong_set)
  then have "sorted_wrt (\<lambda>x y. ?f y \<le> ?f x) (rev (tq_ring q))"
    by (simp add: sorted_wrt_rev)
  then have "sorted_wrt (\<lambda>x y. ?f y \<le> ?f x) (timer_insert_rev ?f t (rev (tq_ring q)))"
    by (rule sorted_timer_insert_rev)
  then show ?thesis
    using wf t s by (auto simp: tq_wf_def tq_sorted_def apt_timer_insert_def sorted_wrt_rev)
qed

text \<open>A timer set before the clock wraps goes to its place; the queue stays well formed.\<close>

lemma timer_set_wf:
  assumes wf: "tq_wf q" and nz: "tq_elapsed q + d \<noteq> 0"
  shows "tq_wf (snd (apt_timer_set hp q t d))"
proof (cases "d \<le> 0 \<or> \<not> hp")
  case True
  then show ?thesis using wf by (simp add: apt_timer_set_def)
next
  case False
  define q1 where "q1 = (if tq_sched q t \<noteq> 0 then apt_timer_remove q t else q)"
  have wf1: "tq_wf q1" using wf by (simp add: q1_def timer_remove_wf)
  have t1: "t \<notin> set (tq_ring q1)"
    using wf by (auto simp: q1_def timer_remove_facts tq_wf_def)
  have nz1: "tq_elapsed q1 + d \<noteq> 0"
    using nz False by (auto simp: q1_def apt_timer_remove_def Let_def)
  show ?thesis
  proof (cases "tq_ring q1 = []")
    case True
    have "\<forall>u. tq_sched q1 u = 0" using True wf1 by (auto simp: tq_wf_def)
    with True False nz1 show ?thesis
      by (auto simp: apt_timer_set_def q1_def[symmetric] Let_def tq_wf_def tq_sorted_def)
  next
    case ne: False
    show ?thesis
      using timer_insert_wf[OF wf1 t1 nz1] False ne
      by (simp add: apt_timer_set_def q1_def[symmetric] Let_def)
  qed
qed

lemma timer_kill_wf: "tq_wf q \<Longrightarrow> tq_wf (snd (apt_timer_kill q t))"
  by (simp add: apt_timer_kill_def timer_remove_wf)

lemma timeout_get_wf: "tq_wf q \<Longrightarrow> tq_wf (snd (apt_timer_queue_timeout_get q))"
  by (cases "tq_ring q") (simp_all add: apt_timer_queue_timeout_get_def tq_wf_def tq_sorted_def Let_def)

section \<open>Advancing time\<close>

text \<open>The procedures of a plain client: they do not touch the queue.\<close>

definition idle_proc :: "nat \<Rightarrow> timer_queue \<Rightarrow> timer_queue" where
  "idle_proc t q = q"

lemma idle_proc_id: "idle_proc t q = q"
  by (simp add: idle_proc_def)

definition due :: "timer_queue \<Rightarrow> nat \<Rightarrow> bool" where
  "due q t \<longleftrightarrow> tq_sched q t \<le> tq_elapsed q"

lemma timers_process_idle:
  assumes "distinct (tq_ring q)" and "length (tq_ring q) < fuel"
  shows "timers_process fuel idle_proc q log =
    Some (log @ takeWhile (due q) (tq_ring q),
          q\<lparr>tq_ring := dropWhile (due q) (tq_ring q),
            tq_sched := (\<lambda>t. if t \<in> set (takeWhile (due q) (tq_ring q)) then 0 else tq_sched q t)\<rparr>)"
  using assms
proof (induction fuel arbitrary: q log)
  case 0
  then show ?case by simp
next
  case (Suc fuel)
  show ?case
  proof (cases "tq_ring q")
    case Nil
    then show ?thesis by simp
  next
    case (Cons t ts)
    show ?thesis
    proof (cases "due q t")
      case False
      with Cons have "q\<lparr>tq_ring := t # ts, tq_sched := tq_sched q\<rparr> = q" by simp
      moreover have "tq_elapsed q < tq_sched q t" using False by (simp add: due_def not_le)
      ultimately show ?thesis using False Cons by simp
    next
      case True
      let ?q = "q\<lparr>tq_ring := ts, tq_sched := (tq_sched q)(t := 0)\<rparr>"
      have tn: "t \<notin> set ts" using Suc.prems Cons by simp
      have eqd: "u \<in> set ts \<Longrightarrow> due ?q u = due q u" for u
        using tn by (auto simp: due_def)
      have tw: "takeWhile (due ?q) ts = takeWhile (due q) ts" "dropWhile (due ?q) ts = dropWhile (due q) ts"
        by (auto intro!: takeWhile_cong dropWhile_cong simp: eqd)
      have "timers_process fuel idle_proc ?q (log @ [t]) =
        Some ((log @ [t]) @ takeWhile (due ?q) ts,
          ?q\<lparr>tq_ring := dropWhile (due ?q) ts,
             tq_sched := (\<lambda>u. if u \<in> set (takeWhile (due ?q) ts) then 0 else tq_sched ?q u)\<rparr>)"
        using Suc.IH[of ?q "log @ [t]"] Suc.prems Cons by simp
      moreover have "\<not> tq_elapsed q < tq_sched q t" using True by (simp add: due_def not_less)
      moreover have "(\<lambda>u. if u \<in> set (takeWhile (due q) ts) then 0 else tq_sched ?q u)
          = (\<lambda>u. if u \<in> set (t # takeWhile (due q) ts) then 0 else tq_sched q u)"
        by auto
      ultimately show ?thesis using True Cons idle_proc_id[of t ?q] unfolding tw by simp
    qed
  qed
qed

lemma sorted_takeWhile_set:
  "sorted_wrt (\<lambda>x y. P y \<longrightarrow> P x) xs \<Longrightarrow> takeWhile P xs = filter P xs"
  by (induction xs) (auto simp: filter_empty_conv)

lemma sorted_dropWhile_set:
  "sorted_wrt (\<lambda>x y. P y \<longrightarrow> P x) xs \<Longrightarrow> dropWhile P xs = filter (\<lambda>x. \<not> P x) xs"
  by (induction xs) (auto intro!: filter_True[symmetric])

lemma sorted_due:
  assumes "tq_sorted q"
  shows "sorted_wrt (\<lambda>s t. due q t \<longrightarrow> due q s) (tq_ring q)"
  using assms unfolding tq_sorted_def due_def by (rule sorted_wrt_cong_set) auto

lemma takeWhile_due: "tq_sorted q \<Longrightarrow> takeWhile (due q) (tq_ring q) = filter (due q) (tq_ring q)"
  by (rule sorted_takeWhile_set[OF sorted_due])

lemma dropWhile_due:
  "tq_sorted q \<Longrightarrow> dropWhile (due q) (tq_ring q) = filter (\<lambda>t. \<not> due q t) (tq_ring q)"
  by (rule sorted_dropWhile_set[OF sorted_due])

text \<open>The time a timer still has to run.\<close>

definition remaining :: "timer_queue \<Rightarrow> nat \<Rightarrow> int" where
  "remaining q t = uint (tq_sched q t) - uint (tq_elapsed q)"

lemma due_remaining: "due q t \<longleftrightarrow> remaining q t \<le> 0"
  by (simp add: due_def remaining_def word_le_def)

text \<open>
  The clock does not wrap in this advance, and where the advance restarts the clock no timer
  of the queue is overdue.
\<close>

definition advance_ok :: "timer_queue \<Rightarrow> u32 \<Rightarrow> bool" where
  "advance_ok q d \<longleftrightarrow> uint (tq_elapsed q) + uint d < 2 ^ 32
     \<and> (uint (tq_elapsed q) + uint d < 0xFFFF
        \<or> list_all (\<lambda>t. uint (tq_elapsed q) + uint d \<le> uint (tq_sched q t)) (tq_ring q))"

lemma uint_plus_nowrap:
  fixes a b :: u32
  assumes "uint a + uint b < 2 ^ 32"
  shows "uint (a + b) = uint a + uint b"
  using assms by (simp add: uint_word_ariths)

lemma uint_minus_nowrap:
  fixes a b :: u32
  assumes "uint b \<le> uint a"
  shows "uint (a - b) = uint a - uint b"
  using assms uint_minus_simple_alt[of b a] by (simp add: word_le_def)

text \<open>The queue after the clock moved, and was restarted if it had to be.\<close>

definition clocked :: "timer_queue \<Rightarrow> u32 \<Rightarrow> timer_queue" where
  "clocked q d =
     (let q1 = q\<lparr>tq_elapsed := tq_elapsed q + d\<rparr>
      in if 0xFFFF \<le> tq_elapsed q1 then apt_timers_reschedule q1 else q1)"

lemma clocked_ring [simp]: "tq_ring (clocked q d) = tq_ring q"
  by (simp add: clocked_def Let_def apt_timers_reschedule_def)

lemma clocked_remaining:
  assumes ok: "advance_ok q d" and t: "t \<in> set (tq_ring q)"
  shows "remaining (clocked q d) t = remaining q t - uint d"
proof -
  have e: "uint (tq_elapsed q + d) = uint (tq_elapsed q) + uint d"
    using ok by (simp add: advance_ok_def uint_plus_nowrap)
  show ?thesis
  proof (cases "0xFFFF \<le> tq_elapsed q + d")
    case False
    then show ?thesis using e by (simp add: clocked_def Let_def remaining_def)
  next
    case True
    then have "65535 \<le> uint (tq_elapsed q) + uint d" using e by (simp add: word_le_def)
    then have "uint (tq_elapsed q + d) \<le> uint (tq_sched q t)"
      using ok t e by (auto simp: advance_ok_def list_all_iff)
    then show ?thesis using True t e
      by (simp add: clocked_def Let_def apt_timers_reschedule_def remaining_def uint_minus_nowrap)
  qed
qed

lemma clocked_sorted:
  assumes "tq_sorted q" and ok: "advance_ok q d"
  shows "tq_sorted (clocked q d)"
  unfolding tq_sorted_def clocked_ring
proof (rule sorted_wrt_cong_set[OF assms(1)[unfolded tq_sorted_def]])
  fix x y assume "x \<in> set (tq_ring q)" "y \<in> set (tq_ring q)" "tq_sched q x \<le> tq_sched q y"
  then have "remaining (clocked q d) x \<le> remaining (clocked q d) y"
    by (simp add: clocked_remaining[OF ok]) (simp add: remaining_def word_le_def)
  then show "tq_sched (clocked q d) x \<le> tq_sched (clocked q d) y"
    by (simp add: remaining_def word_le_def)
qed

lemma advance_clocked:
  assumes "tq_ring q \<noteq> []" "\<not> tq_reset q"
  shows "apt_timer_queue_advance fuel proc q d = timers_process fuel proc (clocked q d) []"
  using assms by (simp add: apt_timer_queue_advance_def clocked_def Let_def)

text \<open>
  Advancing a queue runs the timers whose time is up, in the order of the ring, and keeps the
  others with the elapsed time taken off; it needs as many iterations as there are timers.
\<close>

lemma advance_spec:
  assumes wf: "tq_wf q" and r: "\<not> tq_reset q" and ok: "advance_ok q d"
    and fuel: "length (tq_ring q) < fuel"
  shows "\<exists>q'. apt_timer_queue_advance fuel idle_proc q d
           = Some (filter (\<lambda>t. remaining q t \<le> uint d) (tq_ring q), q')
         \<and> tq_ring q' = filter (\<lambda>t. \<not> remaining q t \<le> uint d) (tq_ring q)
         \<and> list_all (\<lambda>t. remaining q' t = remaining q t - uint d) (tq_ring q')
         \<and> list_all (\<lambda>t. tq_sched q' t = 0) (filter (\<lambda>t. remaining q t \<le> uint d) (tq_ring q))"
proof (cases "tq_ring q = []")
  case True
  then show ?thesis by (simp add: apt_timer_queue_advance_def)
next
  case False
  let ?c = "clocked q d"
  have dist: "distinct (tq_ring ?c)" and srt: "tq_sorted ?c"
    using wf clocked_sorted[OF _ ok] by (auto simp: tq_wf_def)
  have due: "t \<in> set (tq_ring q) \<Longrightarrow> due ?c t = (remaining q t \<le> uint d)" for t
    by (simp add: due_remaining clocked_remaining[OF ok])
  have tw: "takeWhile (due ?c) (tq_ring ?c) = filter (\<lambda>t. remaining q t \<le> uint d) (tq_ring q)"
    using takeWhile_due[OF srt] due by (auto cong: filter_cong)
  have dw: "dropWhile (due ?c) (tq_ring ?c) = filter (\<lambda>t. \<not> remaining q t \<le> uint d) (tq_ring q)"
    using dropWhile_due[OF srt] due by (auto cong: filter_cong)
  have "apt_timer_queue_advance fuel idle_proc q d = timers_process fuel idle_proc ?c []"
    by (rule advance_clocked[OF False r])
  also have "\<dots> = Some (filter (\<lambda>t. remaining q t \<le> uint d) (tq_ring q),
      ?c\<lparr>tq_ring := filter (\<lambda>t. \<not> remaining q t \<le> uint d) (tq_ring q),
         tq_sched := (\<lambda>t. if t \<in> set (filter (\<lambda>t. remaining q t \<le> uint d) (tq_ring q)) then 0
                          else tq_sched ?c t)\<rparr>)"
    using timers_process_idle[OF dist, of fuel "[]"] fuel tw dw by simp
  finally have run: "apt_timer_queue_advance fuel idle_proc q d = \<dots>" .
  have "remaining (?c\<lparr>tq_ring := r, tq_sched := f\<rparr>) t = remaining ?c t" if "f t = tq_sched ?c t" for r f t
    using that by (simp add: remaining_def)
  with run show ?thesis
    by (auto simp: list_all_iff clocked_remaining[OF ok])
qed

text \<open>A restart of the clock turns an overdue timer into one that is due in the far future.\<close>

lemma reschedule_overdue:
  assumes "t \<in> set (tq_ring q)" and "tq_sched q t < tq_elapsed q"
  shows "remaining (apt_timers_reschedule q) t = 2 ^ 32 + remaining q t"
    and "\<not> due (apt_timers_reschedule q) t"
proof -
  have lt: "uint (tq_sched q t) < uint (tq_elapsed q)" using assms(2) by (simp add: word_less_def)
  have "uint (tq_sched q t - tq_elapsed q) = (uint (tq_sched q t) - uint (tq_elapsed q)) mod 2 ^ 32"
    by (simp add: uint_word_ariths)
  also have "\<dots> = 2 ^ 32 + uint (tq_sched q t) - uint (tq_elapsed q)"
  proof -
    have "0 \<le> uint (tq_sched q t)" "uint (tq_elapsed q) < 2 ^ 32"
      using uint_lt2p[of "tq_elapsed q"] by simp_all
    with lt have "(uint (tq_sched q t) - uint (tq_elapsed q) + 2 ^ 32) mod 2 ^ 32
        = uint (tq_sched q t) - uint (tq_elapsed q) + 2 ^ 32" by (intro mod_pos_pos_trivial) linarith+
    then show ?thesis by simp
  qed
  finally show r: "remaining (apt_timers_reschedule q) t = 2 ^ 32 + remaining q t"
    using assms(1) by (simp add: remaining_def apt_timers_reschedule_def)
  have a: "uint (tq_elapsed q) < 4294967296" using uint_lt2p[of "tq_elapsed q"] by simp
  have b: "0 \<le> uint (tq_sched q t)" by simp
  have "0 < 4294967296 + (uint (tq_sched q t) - uint (tq_elapsed q))" using a b by linarith
  then have "0 < remaining (apt_timers_reschedule q) t" unfolding r by (simp add: remaining_def)
  then show "\<not> due (apt_timers_reschedule q) t" by (simp add: due_remaining)
qed

section \<open>Properties\<close>

lemma timers_process_not_due:
  "tq_ring q = t # ts \<Longrightarrow> \<not> due q t \<Longrightarrow> timers_process (Suc fuel) proc q log = Some (log, q)"
  by (simp add: due_def not_le)

text \<open>The queue a timer is inserted into: without the timer, the others as they were.\<close>

definition timer_unset :: "timer_queue \<Rightarrow> nat \<Rightarrow> timer_queue" where
  "timer_unset q t = (if tq_sched q t \<noteq> 0 then apt_timer_remove q t else q)"

lemma timer_unset_facts:
  assumes wf: "tq_wf q"
  shows "tq_wf (timer_unset q t)" "set (tq_ring (timer_unset q t)) = set (tq_ring q) - {t}"
    "u \<noteq> t \<Longrightarrow> tq_sched (timer_unset q t) u = tq_sched q u"
    "u \<noteq> t \<Longrightarrow> u \<in> set (tq_ring q) \<Longrightarrow> tq_elapsed (timer_unset q t) = tq_elapsed q"
    "uint (tq_elapsed (timer_unset q t)) \<le> uint (tq_elapsed q)"
proof -
  have t: "tq_sched q t = 0 \<Longrightarrow> t \<notin> set (tq_ring q)" using wf by (simp add: tq_wf_def)
  show "tq_wf (timer_unset q t)" using wf by (simp add: timer_unset_def timer_remove_wf)
  show "set (tq_ring (timer_unset q t)) = set (tq_ring q) - {t}"
    using t timer_remove_facts(1)[OF wf, of t] by (auto simp: timer_unset_def)
  show "u \<noteq> t \<Longrightarrow> tq_sched (timer_unset q t) u = tq_sched q u"
    using timer_remove_facts(2)[OF wf, of t] by (simp add: timer_unset_def)
  show "u \<noteq> t \<Longrightarrow> u \<in> set (tq_ring q) \<Longrightarrow> tq_elapsed (timer_unset q t) = tq_elapsed q"
    by (auto simp: timer_unset_def apt_timer_remove_def Let_def remove1_Nil_iff)
  show "uint (tq_elapsed (timer_unset q t)) \<le> uint (tq_elapsed q)"
    by (simp add: timer_unset_def apt_timer_remove_def Let_def)
qed

lemma timer_set_ring:
  assumes "0 < d" "hp"
  shows "set (tq_ring (snd (apt_timer_set hp q t d))) = insert t (set (tq_ring (timer_unset q t)))"
    "tq_sched (snd (apt_timer_set hp q t d)) = (tq_sched (timer_unset q t))(t := tq_elapsed (timer_unset q t) + d)"
    "tq_elapsed (snd (apt_timer_set hp q t d)) = tq_elapsed (timer_unset q t)"
    "fst (apt_timer_set hp q t d)"
  using assms by (auto simp: apt_timer_set_def timer_unset_def[symmetric] Let_def apt_timer_insert_def)

text \<open>
  C39: Setting a timer makes it due exactly \<open>d\<close> milliseconds from now and leaves the time every
  other timer has to run as it was; the queue stays sorted and holds each timer once. The same
  holds for a timer that is already running: it is moved.
\<close>

theorem timer_set_schedules:
  assumes "tq_wf q" and "hp" and "0 < d" and "uint (tq_elapsed q) + uint d < 2 ^ 32"
  shows "fst (apt_timer_set hp q t d) \<and> tq_wf (snd (apt_timer_set hp q t d))
    \<and> t \<in> set (tq_ring (snd (apt_timer_set hp q t d)))
    \<and> remaining (snd (apt_timer_set hp q t d)) t = uint d
    \<and> (u \<noteq> t \<longrightarrow> (u \<in> set (tq_ring (snd (apt_timer_set hp q t d))) \<longleftrightarrow> u \<in> set (tq_ring q))
         \<and> (u \<in> set (tq_ring q) \<longrightarrow> remaining (snd (apt_timer_set hp q t d)) u = remaining q u))"
proof -
  note r = timer_set_ring[OF assms(3,2), of q t] and f = timer_unset_facts(2)[OF assms(1), of t]
    timer_unset_facts(3,4)[OF assms(1), of u t] timer_unset_facts(5)[OF assms(1), of t]
  have nw: "uint (tq_elapsed (timer_unset q t) + d) = uint (tq_elapsed (timer_unset q t)) + uint d"
    using f(4) assms(4) by (intro uint_plus_nowrap) linarith
  have d: "0 < uint d" using assms(3) by (simp add: word_less_def)
  have "tq_elapsed q + d \<noteq> 0"
    using uint_plus_nowrap[OF assms(4)] d uint_ge_0[of "tq_elapsed q"] by (metis add_nonneg_pos less_irrefl unsigned_0)
  then have "tq_wf (snd (apt_timer_set hp q t d))" by (rule timer_set_wf[OF assms(1)])
  then show ?thesis using r f(1-3) nw by (auto simp: remaining_def)
qed

lemma timer_set_schedules_witness:
  "remaining (snd (apt_timer_set True (snd (apt_timer_set True apt_timer_queue_create 1 500)) 2 300)) 2 = 300"
proof -
  have "tq_wf (snd (apt_timer_set True apt_timer_queue_create 1 500))"
    by (simp add: apt_timer_set_def apt_timer_queue_create_def tq_wf_def tq_sorted_def Let_def)
  moreover have "tq_elapsed (snd (apt_timer_set True apt_timer_queue_create 1 500)) = 0"
    by (simp add: apt_timer_set_def apt_timer_queue_create_def Let_def)
  ultimately show ?thesis
    using timer_set_schedules[of "snd (apt_timer_set True apt_timer_queue_create 1 500)" True 300 2] by simp
qed

text \<open>
  C40: Advancing a queue by \<open>d\<close> milliseconds runs exactly the timers that have at most \<open>d\<close> left,
  in the order of the queue, takes \<open>d\<close> off the time the others have left, and ends after at
  most as many iterations as there are timers. This holds for timer procedures that do not touch
  the queue (\<open>idle_proc\<close>), when no reset of the clock is asked for, and while \<open>advance_ok\<close>
  holds: the clock does not wrap, and no timer is overdue where it restarts at 65535 (one that is
  overdue there is lost, see \<open>timer_lost_at_restart\<close>).
\<close>

theorem timer_advance_fires:
  assumes "tq_wf q" and "\<not> tq_reset q" and "advance_ok q d" and "length (tq_ring q) < fuel"
  shows "\<exists>q'. apt_timer_queue_advance fuel idle_proc q d
      = Some (filter (\<lambda>t. remaining q t \<le> uint d) (tq_ring q), q')
    \<and> tq_ring q' = filter (\<lambda>t. \<not> remaining q t \<le> uint d) (tq_ring q)
    \<and> list_all (\<lambda>t. remaining q' t = remaining q t - uint d) (tq_ring q')
    \<and> list_all (\<lambda>t. tq_sched q' t = 0) (filter (\<lambda>t. remaining q t \<le> uint d) (tq_ring q))"
  by (rule advance_spec[OF assms])

lemma timer_advance_fires_witness:
  "\<exists>q'. apt_timer_queue_advance 3 idle_proc
      \<lparr>tq_ring = [2, 1], tq_sched = (\<lambda>t. if t = 1 then 500 else if t = 2 then 300 else 0),
       tq_elapsed = 0, tq_reset = False\<rparr> 400 = Some ([2], q')
    \<and> tq_ring q' = [1]"
proof -
  let ?q = "\<lparr>tq_ring = [2, 1], tq_sched = (\<lambda>t. if t = 1 then 500 else if t = 2 then 300 else 0),
       tq_elapsed = 0, tq_reset = False\<rparr>"
  have "tq_wf ?q" by (simp add: tq_wf_def tq_sorted_def)
  moreover have "advance_ok ?q 400" by (simp add: advance_ok_def)
  ultimately show ?thesis using timer_advance_fires[of ?q 400 3] by (auto simp: remaining_def)
qed

text \<open>
  A timer that is overdue when the clock restarts is lost: the restart takes the elapsed time
  off its scheduled time below zero, which makes it due in the far future, and the advance runs
  neither it nor any timer behind it.
\<close>

theorem timer_lost_at_restart:
  assumes "tq_ring q = t # ts" and "\<not> tq_reset q"
    and "0xFFFF \<le> tq_elapsed q + d" and "tq_sched q t < tq_elapsed q + d"
  shows "\<exists>q'. apt_timer_queue_advance (Suc fuel) proc q d = Some ([], q') \<and> tq_ring q' = t # ts
    \<and> remaining q' t = 2 ^ 32 + uint (tq_sched q t) - uint (tq_elapsed q + d)"
proof -
  let ?q = "q\<lparr>tq_elapsed := tq_elapsed q + d\<rparr>"
  have m: "t \<in> set (tq_ring ?q)" "tq_sched ?q t < tq_elapsed ?q" using assms by simp_all
  note r = reschedule_overdue[OF m]
  have "tq_ring (apt_timers_reschedule ?q) = t # ts" using assms(1) by (simp add: apt_timers_reschedule_def)
  moreover from timers_process_not_due[OF this r(2)]
  have "timers_process (Suc fuel) proc (apt_timers_reschedule ?q) [] = Some ([], apt_timers_reschedule ?q)" .
  moreover have "remaining (apt_timers_reschedule ?q) t = 2 ^ 32 + uint (tq_sched q t) - uint (tq_elapsed q + d)"
    using r(1) by (simp add: remaining_def)
  ultimately show ?thesis using assms(1-3) by (simp add: apt_timer_queue_advance_def Let_def del: timers_process.simps)
qed

lemma timer_lost_at_restart_witness:
  "\<exists>q'. apt_timer_queue_advance (Suc 9) idle_proc
      \<lparr>tq_ring = [1], tq_sched = (\<lambda>t. if t = 1 then 65500 else 0), tq_elapsed = 65490, tq_reset = False\<rparr> 50 = Some ([], q')
    \<and> tq_ring q' = [1] \<and> remaining q' 1 = 4294967256"
  using timer_lost_at_restart[of "\<lparr>tq_ring = [1], tq_sched = (\<lambda>t. if t = 1 then 65500 else 0),
      tq_elapsed = 65490, tq_reset = False\<rparr>" 1 "[]" 50 9 idle_proc]
  by simp

end
