(* ===== verification/String_Table.thy ===== *)
theory String_Table
  imports Prelude
begin

text \<open>
  The string comparison of \<open>libs/apr-toolkit/include/apt_string.h\<close> and the string tables of
  \<open>libs/apr-toolkit/src/apt_string_table.c\<close>, which map the names of header fields, methods,
  events and causes to ids. Each entry carries a key: the index of a character that tells it
  from the other entries of its length.
\<close>

definition apt_string_compare :: "string \<Rightarrow> string \<Rightarrow> bool" where
  "apt_string_compare a b =
     (if length a \<noteq> length b \<or> length a = 0 then False else strncaseeq (length a) a b)"

definition apt_strings_compare :: "string \<Rightarrow> string \<Rightarrow> bool" where
  "apt_strings_compare a b =
     (if length a \<noteq> length b then False
      else if length a = 0 then True
      else strncaseeq (length a) a b)"

record str_table_item =
  st_value :: string
  st_key :: nat

type_synonym str_table = "str_table_item list"

definition apt_string_table_str_get :: "str_table \<Rightarrow> nat \<Rightarrow> string option" where
  "apt_string_table_str_get table i = (if i < length table then Some (st_value (table ! i)) else None)"

text \<open>One iteration of the search: does the item match?\<close>

definition str_table_item_match :: "str_table_item \<Rightarrow> string \<Rightarrow> bool" where
  "str_table_item_match item v =
     (if length (st_value item) \<noteq> length v then False
      else if st_key item < length v then
        (if length v = length (st_value item)
            \<and> tolower (st_value item ! st_key item) = tolower (v ! st_key item)
         then apt_string_compare (st_value item) v else False)
      else apt_string_compare (st_value item) v)"

fun string_table_find_from :: "nat \<Rightarrow> str_table \<Rightarrow> string \<Rightarrow> nat" where
  "string_table_find_from i [] v = i"
| "string_table_find_from i (item # items) v =
     (if str_table_item_match item v then i else string_table_find_from (Suc i) items v)"

definition apt_string_table_id_find :: "str_table \<Rightarrow> string \<Rightarrow> nat" where
  "apt_string_table_id_find table v = string_table_find_from 0 table v"

section \<open>Comparison\<close>

lemma tolower_nul [simp]: "tolower nul = nul"
  by (simp add: tolower_def nul_def)

lemma tolower_eq_nul [simp]: "tolower c = nul \<longleftrightarrow> c = nul"
proof -
  have "of_char (tolower c) = (0 :: nat) \<longleftrightarrow> of_char c = (0 :: nat)"
    by (auto simp: tolower_def Let_def)
  then show ?thesis by (simp only: nul_def of_char_eq_iff[where 'a = nat, symmetric]) simp
qed

lemma tolower_eq_nul' [simp]: "nul = tolower c \<longleftrightarrow> c = nul"
  using tolower_eq_nul[of c] by metis

lemma strncaseeq_sym: "strncaseeq n a b \<longleftrightarrow> strncaseeq n b a"
  by (induction n a b rule: strncaseeq.induct) auto

lemma strncaseeq_nth:
  "strncaseeq n a b \<Longrightarrow> nul \<notin> set a \<Longrightarrow> k < n \<Longrightarrow> k < length a \<Longrightarrow> k < length b
    \<Longrightarrow> tolower (a ! k) = tolower (b ! k)"
  by (induction n a b arbitrary: k rule: strncaseeq.induct) (auto simp: nth_Cons split: nat.splits)

lemma strncaseeq_map_tolower:
  "nul \<notin> set a \<Longrightarrow> nul \<notin> set b \<Longrightarrow> length a = length b \<Longrightarrow>
    strncaseeq (length a) a b \<longleftrightarrow> map tolower a = map tolower b"
proof (induction a arbitrary: b)
  case Nil
  then show ?case by simp
next
  case (Cons c cs)
  then show ?case by (cases b) auto
qed

lemma apt_string_compare_iff:
  assumes "nul \<notin> set a" "nul \<notin> set b"
  shows "apt_string_compare a b \<longleftrightarrow> a \<noteq> [] \<and> map tolower a = map tolower b"
  using strncaseeq_map_tolower[OF assms] map_eq_imp_length_eq[of tolower a tolower b]
  by (auto simp: apt_string_compare_def)

lemma apt_string_compare_refl [simp]: "apt_string_compare a a \<longleftrightarrow> a \<noteq> []"
  by (simp add: apt_string_compare_def)

lemma apt_string_compare_sym: "apt_string_compare a b \<longleftrightarrow> apt_string_compare b a"
  by (auto simp: apt_string_compare_def strncaseeq_sym)

section \<open>Search\<close>

text \<open>The key only saves work: the keyed comparison is the comparison of whole strings.\<close>

lemma item_match_compare:
  assumes "nul \<notin> set (st_value item)"
  shows "str_table_item_match item v \<longleftrightarrow> apt_string_compare (st_value item) v"
  using assms strncaseeq_nth[of "length v" "st_value item" v "st_key item"]
  by (auto simp: str_table_item_match_def apt_string_compare_def)

lemma find_from_bounds: "i \<le> string_table_find_from i t v \<and> string_table_find_from i t v \<le> i + length t"
proof (induction t arbitrary: i)
  case Nil
  then show ?case by simp
next
  case (Cons a t)
  from this[of "Suc i"] show ?case by auto
qed

lemma find_from_found:
  "string_table_find_from i t v < i + length t \<Longrightarrow>
    str_table_item_match (t ! (string_table_find_from i t v - i)) v"
proof (induction t arbitrary: i)
  case Nil
  then show ?case by simp
next
  case (Cons a t)
  then show ?case
    using find_from_bounds[of "Suc i" t v] Cons.IH[of "Suc i"] by (auto simp: nth_Cons' split: if_splits)
qed

lemma find_from_first:
  "i + j < string_table_find_from i t v \<Longrightarrow> \<not> str_table_item_match (t ! j) v"
proof (induction t arbitrary: i j)
  case Nil
  then show ?case by simp
next
  case (Cons a t)
  show ?case
  proof (cases j)
    case 0
    then show ?thesis using Cons.prems by (auto split: if_splits)
  next
    case (Suc k)
    then show ?thesis using Cons.prems Cons.IH[of "Suc i" k] by (auto split: if_splits)
  qed
qed

text \<open>
  No two entries of a table have the same name: the table is a bijection between the ids and
  the names, up to case.
\<close>

definition table_wf :: "str_table \<Rightarrow> bool" where
  "table_wf t \<longleftrightarrow> list_all (\<lambda>it. nul \<notin> set (st_value it) \<and> st_value it \<noteq> []) t
     \<and> distinct (map (\<lambda>it. map tolower (st_value it)) t)"

lemma id_find_found:
  assumes "apt_string_table_id_find t v < length t" "list_all (\<lambda>it. nul \<notin> set (st_value it)) t"
  shows "apt_string_compare (st_value (t ! apt_string_table_id_find t v)) v"
  using find_from_found[of 0 t v] assms item_match_compare
  by (auto simp: apt_string_table_id_find_def list_all_length)

lemma id_find_bound: "apt_string_table_id_find t v \<le> length t"
  using find_from_bounds[of 0 t v] by (simp add: apt_string_table_id_find_def)

lemma id_find_name:
  assumes wf: "table_wf t" and i: "i < length t"
  shows "apt_string_table_id_find t (st_value (t ! i)) = i"
proof -
  let ?v = "st_value (t ! i)" and ?r = "apt_string_table_id_find t (st_value (t ! i))"
  have nn: "j < length t \<Longrightarrow> nul \<notin> set (st_value (t ! j)) \<and> st_value (t ! j) \<noteq> []" for j
    using wf by (auto simp: table_wf_def list_all_length)
  have m: "str_table_item_match (t ! i) ?v" using item_match_compare nn[OF i] by simp
  have "?r \<le> i"
    using find_from_first[of 0 i t ?v] m by (auto simp: apt_string_table_id_find_def not_less[symmetric])
  moreover have "?r = i" if "?r < length t"
  proof -
    have "apt_string_compare (st_value (t ! ?r)) ?v"
      using id_find_found[OF that] wf by (auto simp: table_wf_def list_all_iff)
    then have "map tolower (st_value (t ! ?r)) = map tolower ?v"
      using apt_string_compare_iff nn[OF that] nn[OF i] by auto
    then show ?thesis
      using wf that i by (auto simp: table_wf_def distinct_conv_nth)
  qed
  ultimately show ?thesis using i by simp
qed

text \<open>Case does not matter.\<close>

lemma match_case:
  assumes "map tolower v = map tolower w" "nul \<notin> set v" "nul \<notin> set w" "nul \<notin> set (st_value it)"
  shows "str_table_item_match it v = str_table_item_match it w"
  using assms item_match_compare[OF assms(4)] apt_string_compare_iff by auto

lemma id_find_case:
  assumes "list_all (\<lambda>it. nul \<notin> set (st_value it)) t"
    and "map tolower v = map tolower w" "nul \<notin> set v" "nul \<notin> set w"
  shows "apt_string_table_id_find t v = apt_string_table_id_find t w"
proof -
  have "string_table_find_from i t v = string_table_find_from i t w" for i
    using assms(1) match_case[OF assms(2-4)] by (induction t arbitrary: i) auto
  then show ?thesis by (simp add: apt_string_table_id_find_def)
qed

section \<open>Properties\<close>

text \<open>
  In a table whose names differ in more than case, the search finds exactly the entry with
  the given name, whatever the case of its letters; the key character only saves comparisons.
\<close>

theorem table_id_find_iff:
  assumes wf: "table_wf t" and i: "i < length t" and v: "nul \<notin> set v"
  shows "apt_string_table_id_find t v = i \<longleftrightarrow> map tolower (st_value (t ! i)) = map tolower v"
proof
  assume r: "apt_string_table_id_find t v = i"
  then have "apt_string_compare (st_value (t ! i)) v"
    using id_find_found[of t v] i wf by (auto simp: table_wf_def list_all_iff)
  then show "map tolower (st_value (t ! i)) = map tolower v"
    using apt_string_compare_iff[of "st_value (t ! i)" v] v i wf by (auto simp: table_wf_def list_all_length)
next
  assume m: "map tolower (st_value (t ! i)) = map tolower v"
  have n: "list_all (\<lambda>it. nul \<notin> set (st_value it)) t" using wf by (auto simp: table_wf_def list_all_iff)
  then have "nul \<notin> set (st_value (t ! i))" using i by (simp add: list_all_length)
  then show "apt_string_table_id_find t v = i"
    using id_find_case[OF n m _ v] id_find_name[OF wf i] by simp
qed

lemma table_id_find_iff_witness:
  "apt_string_table_id_find [\<lparr>st_value = ''SPEAK'', st_key = 2\<rparr>, \<lparr>st_value = ''STOP'', st_key = 1\<rparr>] ''Stop'' = 1"
proof (rule table_id_find_iff[THEN iffD2])
  show "map tolower (st_value ([\<lparr>st_value = ''SPEAK'', st_key = 2\<rparr>, \<lparr>st_value = ''STOP'', st_key = 1\<rparr>] ! 1))
      = map tolower ''Stop''" by code_simp
qed (simp_all add: table_wf_def nul_def tolower_def)

end
