(* ===== verification/Text_Stream.thy ===== *)
theory Text_Stream
  imports String_Table
begin

text \<open>
  \<open>libs/apr-toolkit/src/apt_text_stream.c\<close> and the inline functions of
  \<open>include/apt_text_stream.h\<close>: reading and writing the text of a message.

  A stream that is read is split at its position: \<open>ts_done\<close> lies before it and \<open>ts_rest\<close>
  from it to the end. A stream that is written holds the bytes from its start to its position
  and the size of its buffer, so that \<open>pos + n >= end\<close> reads
  \<open>length text + n >= size\<close>. A write that would leave the buffer is a fault: \<open>None\<close>.
\<close>

record text_stream =
  ts_done :: string
  ts_rest :: string
  ts_eos :: bool

definition apt_text_stream_of :: "string \<Rightarrow> text_stream" where
  "apt_text_stream_of s = \<lparr>ts_done = [], ts_rest = s, ts_eos = False\<rparr>"

definition apt_text_stream_reset :: "text_stream \<Rightarrow> text_stream" where
  "apt_text_stream_reset s = \<lparr>ts_done = [], ts_rest = ts_done s @ ts_rest s, ts_eos = False\<rparr>"

text \<open>Moving the position forward by \<open>n\<close> characters.\<close>

definition ts_advance :: "nat \<Rightarrow> text_stream \<Rightarrow> text_stream" where
  "ts_advance n s = s\<lparr>ts_done := ts_done s @ take n (ts_rest s), ts_rest := drop n (ts_rest s)\<rparr>"

definition apt_text_is_eos :: "text_stream \<Rightarrow> bool" where
  "apt_text_is_eos s \<longleftrightarrow> ts_rest s = [] \<or> ts_eos s"

definition apt_text_is_wsp :: "char \<Rightarrow> bool" where
  "apt_text_is_wsp c \<longleftrightarrow> c = sp \<or> c = htab"

definition apt_text_spaces_skip :: "text_stream \<Rightarrow> text_stream" where
  "apt_text_spaces_skip s = ts_advance (length (takeWhile (\<lambda>c. c = sp) (ts_rest s))) s"

definition apt_text_white_spaces_skip :: "text_stream \<Rightarrow> text_stream" where
  "apt_text_white_spaces_skip s = ts_advance (length (takeWhile apt_text_is_wsp (ts_rest s))) s"

definition apt_text_char_skip :: "text_stream \<Rightarrow> char \<Rightarrow> text_stream" where
  "apt_text_char_skip s ch =
     (case ts_rest s of c # _ \<Rightarrow> if c = ch then ts_advance 1 s else s | [] \<Rightarrow> s)"

definition apt_text_chars_skip :: "text_stream \<Rightarrow> char \<Rightarrow> text_stream" where
  "apt_text_chars_skip s ch = ts_advance (length (takeWhile (\<lambda>c. c = ch) (ts_rest s))) s"

definition apt_text_skip_to_char :: "text_stream \<Rightarrow> char \<Rightarrow> text_stream" where
  "apt_text_skip_to_char s ch = ts_advance (length (takeWhile (\<lambda>c. c \<noteq> ch) (ts_rest s))) s"

section \<open>Reading\<close>

text \<open>
  The scan of \<open>apt_text_line_read\<close>: the line so far, and on an end of line the number of
  characters consumed.
\<close>

fun line_scan :: "string \<Rightarrow> string \<Rightarrow> string \<times> nat option" where
  "line_scan [] acc = (acc, None)"
| "line_scan (c # cs) acc =
     (if c = cr then
        (case cs of d # _ \<Rightarrow> if d = lf then (acc, Some (length acc + 2)) else (acc, Some (length acc + 1))
                  | [] \<Rightarrow> (acc, Some (length acc + 1)))
      else if c = lf then (acc, Some (length acc + 1))
      else line_scan cs (acc @ [c]))"

definition apt_text_line_read :: "text_stream \<Rightarrow> bool \<times> string \<times> text_stream" where
  "apt_text_line_read s =
     (case line_scan (ts_rest s) [] of
        (line, Some n) \<Rightarrow> (True, line, ts_advance n s)
      | (line, None) \<Rightarrow> (False, line, s\<lparr>ts_eos := True\<rparr>))"

record apt_pair =
  pair_name :: string
  pair_value :: string

text \<open>
  The scan of \<open>apt_text_header_read\<close>. \<open>nb\<close> and \<open>vb\<close> are the characters from \<open>name.buf\<close>
  and \<open>value.buf\<close> to the position (\<open>None\<close> while the pointer is null); \<open>nl\<close> is
  \<open>name.length\<close>, and \<open>nb\<close> stops growing once it is set. \<open>value.length\<close> stays zero until
  the end of the line. \<open>k\<close> counts the characters consumed.
\<close>

record header_scan_state =
  hs_nb :: "string option"
  hs_nl :: nat
  hs_vb :: "string option"

definition header_scan_char :: "char \<Rightarrow> header_scan_state \<Rightarrow> header_scan_state" where
  "header_scan_char c h =
     (if hs_nl h = 0 then
        let nb = (if hs_nb h = None \<and> \<not> apt_text_is_wsp c then Some [] else hs_nb h)
        in if c = CHR '':'' then
             (if the nb = [] then h\<lparr>hs_nb := Some [c]\<rparr> else h\<lparr>hs_nl := length (the nb)\<rparr>)
           else h\<lparr>hs_nb := map_option (\<lambda>s. s @ [c]) nb\<rparr>
      else
        let vb = (if hs_vb h = None \<and> \<not> apt_text_is_wsp c then Some [] else hs_vb h)
        in h\<lparr>hs_vb := map_option (\<lambda>s. s @ [c]) vb\<rparr>)"

fun header_scan :: "string \<Rightarrow> nat \<Rightarrow> header_scan_state \<Rightarrow> header_scan_state \<times> nat option" where
  "header_scan [] k h = (h, None)"
| "header_scan (c # cs) k h =
     (if c = cr then
        (case cs of d # _ \<Rightarrow> if d = lf then (h, Some (k + 2)) else (h, Some (k + 1))
                  | [] \<Rightarrow> (h, Some (k + 1)))
      else if c = lf then (h, Some (k + 1))
      else header_scan cs (k + 1) (header_scan_char c h))"

definition header_scan_name :: "header_scan_state \<Rightarrow> string" where
  "header_scan_name h = (if hs_nl h = 0 then [] else take (hs_nl h) (the (hs_nb h)))"

definition header_scan_value :: "header_scan_state \<Rightarrow> string" where
  "header_scan_value h = (case hs_vb h of None \<Rightarrow> [] | Some v \<Rightarrow> v)"

definition apt_text_header_read :: "text_stream \<Rightarrow> bool \<times> apt_pair \<times> text_stream" where
  "apt_text_header_read s =
     (case header_scan (ts_rest s) 0 \<lparr>hs_nb = None, hs_nl = 0, hs_vb = None\<rparr> of
        (h, Some n) \<Rightarrow>
          (\<not> (hs_nl h = 0 \<and> hs_nb h \<noteq> None),
           \<lparr>pair_name = header_scan_name h, pair_value = header_scan_value h\<rparr>, ts_advance n s)
      | (h, None) \<Rightarrow>
          (False, \<lparr>pair_name = header_scan_name h, pair_value = []\<rparr>, s\<lparr>ts_eos := True\<rparr>))"

text \<open>
  The field, and the buffer it starts in: \<open>field->buf\<close> is not terminated at the end of the
  field, and callers that pass it to \<open>atol\<close> read on.
\<close>

definition apt_text_field_read ::
  "text_stream \<Rightarrow> char \<Rightarrow> bool \<Rightarrow> bool \<times> string \<times> string \<times> text_stream" where
  "apt_text_field_read s sep skip_spaces =
     (let s1 = (if skip_spaces then apt_text_spaces_skip s else s);
          field = takeWhile (\<lambda>c. c \<noteq> sep) (ts_rest s1);
          n = length field;
          s2 = ts_advance (if n < length (ts_rest s1) then n + 1 else n) s1
      in (n \<noteq> 0, field, ts_rest s1, s2))"

text \<open>
  Scrolling moves the unread bytes to the start of the buffer and the position behind them.
  The result is the status, the bytes of \<open>text\<close> and the position in them; the zero written at
  the position is one of these bytes only when the whole text was read.
\<close>

definition apt_text_stream_scroll :: "text_stream \<Rightarrow> bool \<times> string \<times> nat" where
  "apt_text_stream_scroll s =
     (if ts_rest s = [] then (True, (case ts_done s of [] \<Rightarrow> [] | _ # cs \<Rightarrow> nul # cs), 0)
      else
        let remaining_length = length (ts_rest s) in
        if remaining_length = length (ts_done s @ ts_rest s)
        then (False, ts_done s @ ts_rest s, remaining_length)
        else (True, ts_rest s, remaining_length))"

text \<open>\<open>buf\<close> is the C string at \<open>str->buf\<close>, which may go on behind the \<open>len\<close> characters.\<close>

definition apt_id_resource_parse :: "string \<Rightarrow> nat \<Rightarrow> char \<Rightarrow> (string \<times> string) option" where
  "apt_id_resource_parse buf len sep =
     (let n = length (takeWhile (\<lambda>c. c \<noteq> sep) buf) in
      if n = length buf then None
      else if len \<le> n then None
      else Some (take n buf, take (len - (n + 1)) (drop (n + 1) buf)))"

definition apt_id_resource_generate :: "string \<Rightarrow> string \<Rightarrow> char \<Rightarrow> string" where
  "apt_id_resource_generate i resource sep = i @ [sep] @ resource"

definition apt_pair_parse :: "string \<Rightarrow> apt_pair \<Rightarrow> bool \<times> apt_pair" where
  "apt_pair_parse field pair =
     (let (ok, item, _, s1) = apt_text_field_read (apt_text_stream_of field) (CHR ''='') True in
      if \<not> ok then (False, pair)
      else let (ok2, item2, _, _) = apt_text_field_read s1 (CHR '';'') True in
           (True, pair\<lparr>pair_name := item, pair_value := (if ok2 then item2 else [])\<rparr>))"

definition apt_boolean_value_parse :: "string \<Rightarrow> bool option" where
  "apt_boolean_value_parse str =
     (if str = [] then None
      else if strncaseeq 4 str ''true'' then Some True
      else if strncaseeq 5 str ''false'' then Some False
      else None)"

definition apt_boolean_value_generate :: "bool \<Rightarrow> string" where
  "apt_boolean_value_generate b = (if b then ''true'' else ''false'')"

text \<open>The argument is the C string at \<open>str->buf\<close>.\<close>

definition apt_size_value_parse :: "string \<Rightarrow> nat" where
  "apt_size_value_parse buf = (if buf = [] then 0 else size_t (atol buf))"

definition apt_size_value_generate :: "nat \<Rightarrow> string" where
  "apt_size_value_generate n = show_nat n"

text \<open>The loop of \<open>apt_pair_array_parse\<close>; it ends because every field read is not empty.\<close>

lemma field_read_shorter:
  "apt_text_field_read s sep sk = (True, f, b, s') \<Longrightarrow> length (ts_rest s') < length (ts_rest s)"
  by (auto simp: apt_text_field_read_def Let_def ts_advance_def apt_text_spaces_skip_def
      dest: arg_cong[where f = length] split: if_splits)

function pair_array_loop :: "text_stream \<Rightarrow> apt_pair list \<Rightarrow> apt_pair list" where
  "pair_array_loop s arr =
     (case apt_text_field_read s (CHR '';'') True of
        (True, field, _, s') \<Rightarrow>
          pair_array_loop s' (arr @ [snd (apt_pair_parse field \<lparr>pair_name = [], pair_value = []\<rparr>)])
      | (False, _, _, _) \<Rightarrow> arr)"
  by auto
termination
  by (relation "measure (\<lambda>(s, arr). length (ts_rest s))") (auto dest!: field_read_shorter[OF sym])

declare pair_array_loop.simps [simp del]

definition apt_pair_array_parse :: "apt_pair list \<Rightarrow> string \<Rightarrow> apt_pair list" where
  "apt_pair_array_parse arr v = pair_array_loop (apt_text_stream_of v) arr"

text \<open>
  \<open>apt_pair_array_generate\<close> computes the length first and then copies the pairs: the result
  is \<open>str->length\<close> and the bytes written.
\<close>

fun pair_array_copy :: "nat \<Rightarrow> apt_pair list \<Rightarrow> string" where
  "pair_array_copy i [] = []"
| "pair_array_copy i (p # ps) =
     (if i \<noteq> 0 then [CHR '';''] else []) @
     (if length (pair_name p) \<noteq> 0 then
        pair_name p @ (if length (pair_value p) \<noteq> 0 then CHR ''='' # pair_value p else [])
      else []) @
     pair_array_copy (Suc i) ps"

definition apt_pair_array_generate :: "apt_pair list \<Rightarrow> nat \<times> string" where
  "apt_pair_array_generate arr =
     (sum_list (map (\<lambda>p. length (pair_name p) +
         (if length (pair_value p) \<noteq> 0 then 1 + length (pair_value p) else 0)) arr)
        + (if arr \<noteq> [] then length arr - 1 else 0),
      pair_array_copy 0 arr)"

section \<open>Writing\<close>

record out_stream =
  os_text :: string
  os_size :: nat

definition apt_text_stream_init :: "nat \<Rightarrow> out_stream" where
  "apt_text_stream_init n = \<lparr>os_text = [], os_size = n\<rparr>"

definition os_write :: "string \<Rightarrow> out_stream \<Rightarrow> out_stream" where
  "os_write bytes s = s\<lparr>os_text := os_text s @ bytes\<rparr>"

definition apt_text_eol_insert :: "out_stream \<Rightarrow> bool \<times> out_stream" where
  "apt_text_eol_insert s =
     (if length (os_text s) + 2 < os_size s then (True, os_write [cr, lf] s) else (False, s))"

definition apt_text_char_insert :: "out_stream \<Rightarrow> char \<Rightarrow> bool \<times> out_stream" where
  "apt_text_char_insert s ch =
     (if length (os_text s) + 1 < os_size s then (True, os_write [ch] s) else (False, s))"

definition apt_text_space_insert :: "out_stream \<Rightarrow> bool \<times> out_stream" where
  "apt_text_space_insert s = apt_text_char_insert s sp"

definition apt_text_string_insert :: "out_stream \<Rightarrow> string \<Rightarrow> bool \<times> out_stream" where
  "apt_text_string_insert s str =
     (if os_size s \<le> length (os_text s) + length str then (False, s)
      else if length str \<noteq> 0 then (True, os_write str s) else (True, s))"

definition apt_text_name_value_insert :: "out_stream \<Rightarrow> string \<Rightarrow> string \<Rightarrow> bool \<times> out_stream" where
  "apt_text_name_value_insert s name v =
     (if os_size s \<le> length (os_text s) + length name + length v + 2 then (False, s)
      else let s1 = os_write (name @ [CHR '':'', sp]) s;
               s2 = (if v \<noteq> [] then os_write v s1 else s1)
           in apt_text_eol_insert s2)"

definition apt_text_header_name_insert :: "out_stream \<Rightarrow> string \<Rightarrow> bool \<times> out_stream" where
  "apt_text_header_name_insert s name =
     (if os_size s \<le> length (os_text s) + length name + 2 then (False, s)
      else (True, os_write (name @ [CHR '':'', sp]) s))"

text \<open>
  \<open>apr_snprintf\<close> into \<open>len\<close> bytes: the bytes written before the terminating zero, and the
  value returned. With \<open>len = 0\<close> nothing is written and the full length is returned.
\<close>

definition apr_snprintf :: "nat \<Rightarrow> string \<Rightarrow> string \<times> nat" where
  "apr_snprintf len s =
     (if len = 0 then ([], length s) else (take (len - 1) s, min (length s) (len - 1)))"

text \<open>Writes without a check: \<open>None\<close> when the position leaves the buffer.\<close>

definition os_put :: "string \<Rightarrow> out_stream \<Rightarrow> out_stream option" where
  "os_put bytes s =
     (if length (os_text s) + length bytes \<le> os_size s then Some (os_write bytes s) else None)"

definition os_snprintf :: "string \<Rightarrow> out_stream \<Rightarrow> (bool \<times> out_stream) option" where
  "os_snprintf str s =
     (let (bytes, len) = apr_snprintf (os_size s - length (os_text s)) str in
      if len = 0 then Some (False, s)
      else if length bytes = len then Some (True, os_write bytes s)
      else None)"

definition apt_text_size_value_insert :: "out_stream \<Rightarrow> nat \<Rightarrow> (bool \<times> out_stream) option" where
  "apt_text_size_value_insert s n = os_snprintf (show_nat n) s"

text \<open>
  A number plus the number of its own digits. The arithmetic is on \<open>apr_size_t\<close>: it wraps.
  The results are the status, the new value and, on success, the digits.
\<close>

fun digit_count :: "nat \<Rightarrow> nat" where
  "digit_count temp = (if temp div 10 = 0 then 1 else Suc (digit_count (temp div 10)))"

declare digit_count.simps [simp del]

definition wrap64 :: "nat \<Rightarrow> nat" where
  "wrap64 n = n mod 2 ^ 64"

fun bounds_loop :: "nat \<Rightarrow> nat \<Rightarrow> nat" where
  "bounds_loop 0 bounds = bounds"
| "bounds_loop (Suc temp) bounds = bounds_loop temp (wrap64 (bounds * 10))"

definition apt_var_length_value_generate :: "nat \<Rightarrow> nat \<Rightarrow> bool \<times> nat \<times> string option" where
  "apt_var_length_value_generate v max_count =
     (let count0 = digit_count v;
          bounds = bounds_loop count0 1;
          count = (if size_t (int bounds - int count0) \<le> v then count0 + 1 else count0);
          v' = wrap64 (v + count)
      in if max_count < count then (False, v', None)
         else (True, v', Some (show_nat v')))"

text \<open>\<open>%03\<close> pads to three digits; the call fails when the cause has more.\<close>

definition pad3 :: "nat \<Rightarrow> string" where
  "pad3 n = replicate (3 - length (show_nat n)) (CHR ''0'') @ show_nat n"

definition apt_completion_cause_generate :: "str_table \<Rightarrow> nat \<Rightarrow> string option" where
  "apt_completion_cause_generate table cause =
     (case apt_string_table_str_get table cause of
        None \<Rightarrow> None
      | Some name \<Rightarrow>
          if length (pad3 cause @ [sp]) \<noteq> 4 then None else Some (pad3 cause @ [sp] @ name))"

section \<open>Lines and header fields\<close>

definition no_eol :: "string \<Rightarrow> bool" where
  "no_eol s \<longleftrightarrow> cr \<notin> set s \<and> lf \<notin> set s"

lemma no_eol_simps [simp]:
  "no_eol []"
  "no_eol (c # s) \<longleftrightarrow> c \<noteq> cr \<and> c \<noteq> lf \<and> no_eol s"
  "no_eol (s @ t) \<longleftrightarrow> no_eol s \<and> no_eol t"
  by (auto simp: no_eol_def)

lemma eol_distinct [simp]: "cr \<noteq> lf" "lf \<noteq> cr" "sp \<noteq> cr" "sp \<noteq> lf" "htab \<noteq> cr" "htab \<noteq> lf"
  by (simp_all add: cr_def lf_def sp_def htab_def)

lemma token_distinct [simp]:
  "CHR '':'' \<noteq> cr" "CHR '':'' \<noteq> lf" "CHR '':'' \<noteq> sp" "\<not> apt_text_is_wsp (CHR '':'')" "apt_text_is_wsp sp"
  by (simp_all add: cr_def lf_def sp_def htab_def apt_text_is_wsp_def)

lemma ts_advance_simps [simp]:
  "ts_rest (ts_advance n s) = drop n (ts_rest s)"
  "ts_done (ts_advance n s) = ts_done s @ take n (ts_rest s)"
  "ts_eos (ts_advance n s) = ts_eos s"
  by (simp_all add: ts_advance_def)

lemma line_scan_text:
  "no_eol line \<Longrightarrow> line_scan (line @ cr # lf # rest) acc = (acc @ line, Some (length acc + length line + 2))"
  "no_eol line \<Longrightarrow> line_scan (line @ lf # rest) acc = (acc @ line, Some (length acc + length line + 1))"
  "no_eol line \<Longrightarrow> line_scan line acc = (acc @ line, None)"
  by (induction line arbitrary: acc) auto

lemma line_read_crlf:
  assumes "no_eol line" "ts_rest s = line @ [cr, lf] @ rest"
  shows "apt_text_line_read s = (True, line, ts_advance (length line + 2) s)"
  using assms by (simp add: apt_text_line_read_def line_scan_text)

lemma line_read_advance:
  "apt_text_line_read s = (True, line, s') \<Longrightarrow> length (ts_rest s') < length (ts_rest s)"
proof -
  have scan: "line_scan cs acc = (l, Some n) \<Longrightarrow> length acc < n \<and> n \<le> length acc + length cs" for cs acc l n
    by (induction cs acc rule: line_scan.induct) (fastforce split: if_splits list.splits)+
  assume "apt_text_line_read s = (True, line, s')"
  then show ?thesis
    using scan[of "ts_rest s" "[]"] by (auto simp: apt_text_line_read_def split: prod.splits option.splits)
qed

text \<open>What the scan does with a name and with a value.\<close>

lemma header_scan_name_chars:
  "no_eol n \<Longrightarrow> CHR '':'' \<notin> set n \<Longrightarrow>
    header_scan (n @ rest) k \<lparr>hs_nb = Some s, hs_nl = 0, hs_vb = None\<rparr>
      = header_scan rest (k + length n) \<lparr>hs_nb = Some (s @ n), hs_nl = 0, hs_vb = None\<rparr>"
  by (induction n arbitrary: s k) (auto simp: header_scan_char_def)

lemma header_scan_value_chars:
  "no_eol v \<Longrightarrow> 0 < nl \<Longrightarrow>
    header_scan (v @ rest) k \<lparr>hs_nb = Some s, hs_nl = nl, hs_vb = Some w\<rparr>
      = header_scan rest (k + length v) \<lparr>hs_nb = Some s, hs_nl = nl, hs_vb = Some (w @ v)\<rparr>"
  by (induction v arbitrary: w k) (auto simp: header_scan_char_def)

lemma header_scan_value_start:
  "no_eol v \<Longrightarrow> 0 < nl \<Longrightarrow>
    header_scan (v @ rest) k \<lparr>hs_nb = Some s, hs_nl = nl, hs_vb = None\<rparr>
      = header_scan rest (k + length v)
          \<lparr>hs_nb = Some s, hs_nl = nl,
           hs_vb = (case dropWhile apt_text_is_wsp v of [] \<Rightarrow> None | w \<Rightarrow> Some w)\<rparr>"
proof (induction v arbitrary: k)
  case Nil
  then show ?case by simp
next
  case (Cons c cs)
  show ?case
  proof (cases "apt_text_is_wsp c")
    case True
    then show ?thesis using Cons by (auto simp: header_scan_char_def)
  next
    case False
    then show ?thesis using Cons.prems
      by (auto simp: header_scan_char_def header_scan_value_chars)
  qed
qed

lemma header_scan_name_start:
  assumes "no_eol n" "CHR '':'' \<notin> set n" "n \<noteq> []" "\<not> apt_text_is_wsp (hd n)"
  shows "header_scan (n @ CHR '':'' # rest) k \<lparr>hs_nb = None, hs_nl = 0, hs_vb = None\<rparr>
      = header_scan rest (k + length n + 1) \<lparr>hs_nb = Some n, hs_nl = length n, hs_vb = None\<rparr>"
proof -
  obtain c cs where n: "n = c # cs" using assms(3) by (cases n) auto
  have "header_scan (n @ CHR '':'' # rest) k \<lparr>hs_nb = None, hs_nl = 0, hs_vb = None\<rparr>
      = header_scan (cs @ CHR '':'' # rest) (k + 1) \<lparr>hs_nb = Some [c], hs_nl = 0, hs_vb = None\<rparr>"
    using assms n by (auto simp: header_scan_char_def Let_def)
  also have "\<dots> = header_scan (CHR '':'' # rest) (k + length n) \<lparr>hs_nb = Some n, hs_nl = 0, hs_vb = None\<rparr>"
    using assms n header_scan_name_chars[of cs "CHR '':'' # rest" "k + 1" "[c]"] by simp
  also have "\<dots> = header_scan rest (k + length n + 1) \<lparr>hs_nb = Some n, hs_nl = length n, hs_vb = None\<rparr>"
    using n by (simp add: header_scan_char_def)
  finally show ?thesis .
qed

text \<open>
  A name that a header field can have: it is not empty, does not start with white space, and
  contains neither a colon nor an end of line.
\<close>

definition header_name_ok :: "string \<Rightarrow> bool" where
  "header_name_ok n \<longleftrightarrow> no_eol n \<and> CHR '':'' \<notin> set n \<and> n \<noteq> [] \<and> \<not> apt_text_is_wsp (hd n)"

lemma header_read_field:
  assumes n: "header_name_ok n" and v: "no_eol v" and s: "ts_rest s = n @ [CHR '':''] @ v @ [cr, lf] @ rest"
  shows "apt_text_header_read s =
    (True, \<lparr>pair_name = n, pair_value = dropWhile apt_text_is_wsp v\<rparr>, ts_advance (length n + length v + 3) s)"
proof -
  have "header_scan (ts_rest s) 0 \<lparr>hs_nb = None, hs_nl = 0, hs_vb = None\<rparr>
    = header_scan (v @ cr # lf # rest) (length n + 1) \<lparr>hs_nb = Some n, hs_nl = length n, hs_vb = None\<rparr>"
    using header_scan_name_start[of n "v @ cr # lf # rest" 0] n by (simp add: s header_name_ok_def)
  also have "\<dots> = (\<lparr>hs_nb = Some n, hs_nl = length n,
       hs_vb = (case dropWhile apt_text_is_wsp v of [] \<Rightarrow> None | w \<Rightarrow> Some w)\<rparr>, Some (length n + length v + 3))"
    using header_scan_value_start[OF v, of "length n" "cr # lf # rest" "length n + 1" n] n
    by (simp add: header_name_ok_def)
  finally show ?thesis using n
    by (cases "dropWhile apt_text_is_wsp v")
      (simp_all add: apt_text_header_read_def header_scan_name_def header_scan_value_def header_name_ok_def
        del: dropWhile_eq_Nil_conv)
qed

text \<open>An empty line ends the header: success, with an empty name.\<close>

lemma header_read_empty_line:
  "ts_rest s = cr # lf # rest \<Longrightarrow>
    apt_text_header_read s = (True, \<lparr>pair_name = [], pair_value = []\<rparr>, ts_advance 2 s)"
  by (simp add: apt_text_header_read_def header_scan_name_def header_scan_value_def)

lemma header_scan_advance:
  "header_scan cs k h = (h', Some n) \<Longrightarrow> k < n \<and> n \<le> k + length cs"
  by (induction cs k h rule: header_scan.induct) (fastforce split: if_splits list.splits)+

text \<open>What \<open>apt_text_name_value_insert\<close> writes, \<open>apt_text_header_read\<close> reads back.\<close>

lemma name_value_insert_text:
  assumes "length (os_text s) + length n + length v + 4 < os_size s"
  shows "apt_text_name_value_insert s n v = (True, os_write (n @ [CHR '':'', sp] @ v @ [cr, lf]) s)"
  using assms by (auto simp: apt_text_name_value_insert_def apt_text_eol_insert_def os_write_def Let_def)

lemma name_value_roundtrip:
  assumes "header_name_ok n" "no_eol v" "v = [] \<or> \<not> apt_text_is_wsp (hd v)"
    and "ts_rest t = n @ [CHR '':'', sp] @ v @ [cr, lf] @ rest"
  shows "apt_text_header_read t =
    (True, \<lparr>pair_name = n, pair_value = v\<rparr>, ts_advance (length n + length v + 4) t)"
proof -
  have "dropWhile apt_text_is_wsp (sp # v) = v" using assms(3) by (cases v) auto
  with header_read_field[of n "sp # v" t rest] assms show ?thesis
    by (simp add: add.commute)
qed

section \<open>Lists of name=value pairs\<close>

lemma field_read_takeWhile:
  assumes "\<not> (\<exists>cs. ts_rest s = sp # cs)"
  shows "apt_text_field_read s sep True =
    (takeWhile (\<lambda>c. c \<noteq> sep) (ts_rest s) \<noteq> [], takeWhile (\<lambda>c. c \<noteq> sep) (ts_rest s), ts_rest s,
     ts_advance (length (takeWhile (\<lambda>c. c \<noteq> sep) (ts_rest s))
       + (if length (takeWhile (\<lambda>c. c \<noteq> sep) (ts_rest s)) < length (ts_rest s) then 1 else 0)) s)"
proof -
  have "takeWhile (\<lambda>c. c = sp) (ts_rest s) = []" using assms by (cases "ts_rest s") auto
  then have "apt_text_spaces_skip s = s" by (simp add: apt_text_spaces_skip_def ts_advance_def)
  then show ?thesis by (simp add: apt_text_field_read_def Let_def)
qed

text \<open>Pairs that survive printing: non-empty names, no separators and no leading spaces.\<close>

definition pair_ok :: "apt_pair \<Rightarrow> bool" where
  "pair_ok p \<longleftrightarrow> pair_name p \<noteq> [] \<and> hd (pair_name p) \<noteq> sp \<and> (pair_value p \<noteq> [] \<longrightarrow> hd (pair_value p) \<noteq> sp)
     \<and> CHR ''='' \<notin> set (pair_name p) \<and> CHR '';'' \<notin> set (pair_name p) \<and> CHR '';'' \<notin> set (pair_value p)"

definition pair_text :: "apt_pair \<Rightarrow> string" where
  "pair_text p = pair_name p @ (if pair_value p = [] then [] else CHR ''='' # pair_value p)"

lemma pair_text_parse:
  assumes "pair_ok p"
  shows "apt_pair_parse (pair_text p) q = (True, q\<lparr>pair_name := pair_name p, pair_value := pair_value p\<rparr>)"
proof -
  let ?s = "apt_text_stream_of (pair_text p)"
  have tw: "takeWhile (\<lambda>c. c \<noteq> CHR ''='') (pair_text p) = pair_name p"
    using assms by (auto simp: pair_text_def pair_ok_def)
  have s1: "\<not> (\<exists>cs. ts_rest ?s = sp # cs)"
    using assms by (cases "pair_name p") (auto simp: apt_text_stream_of_def pair_text_def pair_ok_def)
  let ?s2 = "ts_advance (length (pair_name p) + (if pair_value p = [] then 0 else 1)) ?s"
  have r1: "apt_text_field_read ?s (CHR ''='') True = (True, pair_name p, pair_text p, ?s2)"
    using field_read_takeWhile[OF s1, of "CHR ''=''"] tw assms
    by (auto simp: apt_text_stream_of_def pair_text_def pair_ok_def)
  have rest: "ts_rest ?s2 = pair_value p" by (simp add: apt_text_stream_of_def pair_text_def)
  have s2: "\<not> (\<exists>cs. ts_rest ?s2 = sp # cs)" unfolding rest using assms by (auto simp: pair_ok_def)
  have tw2: "takeWhile (\<lambda>c. c \<noteq> CHR '';'') (pair_value p) = pair_value p"
    using assms by (auto simp: pair_ok_def takeWhile_eq_all_conv)
  obtain b s' where r2: "apt_text_field_read ?s2 (CHR '';'') True = (pair_value p \<noteq> [], pair_value p, b, s')"
    using field_read_takeWhile[OF s2, of "CHR '';''"] unfolding rest tw2 by blast
  show ?thesis unfolding apt_pair_parse_def r1 by (simp add: r2)
qed

text \<open>The text of a list of pairs, separated by semicolons.\<close>

fun pairs_text :: "apt_pair list \<Rightarrow> string" where
  "pairs_text [] = []"
| "pairs_text [p] = pair_text p"
| "pairs_text (p # q # ps) = pair_text p @ CHR '';'' # pairs_text (q # ps)"

lemma pair_array_copy_text:
  assumes "list_all (\<lambda>p. pair_name p \<noteq> []) ps"
  shows "pair_array_copy i ps = (if i = 0 \<or> ps = [] then [] else [CHR '';'']) @ pairs_text ps"
  using assms by (induction ps arbitrary: i rule: pairs_text.induct) (auto simp: pair_text_def)

lemma pairs_text_length:
  "length (pairs_text ps) = sum_list (map (length \<circ> pair_text) ps) + (length ps - 1)"
  by (induction ps rule: pairs_text.induct) auto

lemma pair_array_generate_text:
  assumes "list_all (\<lambda>p. pair_name p \<noteq> []) ps"
  shows "apt_pair_array_generate ps = (length (pairs_text ps), pairs_text ps)"
proof -
  have eq: "length (pair_name p) + (if length (pair_value p) \<noteq> 0 then 1 + length (pair_value p) else 0)
      = length (pair_text p)" for p
    by (simp add: pair_text_def)
  show ?thesis using pair_array_copy_text[OF assms, of 0]
    unfolding apt_pair_array_generate_def eq by (simp add: pairs_text_length comp_def)
qed

lemma pair_text_parse_snd:
  assumes "pair_ok p"
  shows "snd (apt_pair_parse (pair_text p) \<lparr>pair_name = [], pair_value = []\<rparr>) = p"
  using pair_text_parse[OF assms] by simp

lemma pair_text_ok:
  assumes "pair_ok p"
  shows "CHR '';'' \<notin> set (pair_text p)" "pair_text p \<noteq> []" "hd (pair_text p @ x) \<noteq> sp"
  using assms by (auto simp: pair_text_def pair_ok_def)

lemma pair_array_loop_text:
  assumes "list_all pair_ok ps" "ts_rest s = pairs_text ps"
  shows "pair_array_loop s arr = arr @ ps"
  using assms
proof (induction ps arbitrary: s arr rule: pairs_text.induct)
  case 1
  then show ?case
    by (subst pair_array_loop.simps) (simp add: apt_text_field_read_def apt_text_spaces_skip_def)
next
  case (2 p)
  have ok: "pair_ok p" and r: "ts_rest s = pair_text p" using 2 by auto
  have nsp: "\<not> (\<exists>cs. ts_rest s = sp # cs)" using pair_text_ok(3)[OF ok, of "[]"] r by auto
  have rd: "apt_text_field_read s (CHR '';'') True = (True, pair_text p, ts_rest s, ts_advance (length (pair_text p)) s)"
    using field_read_takeWhile[OF nsp, of "CHR '';''"] pair_text_ok[OF ok] r by simp
  have "pair_array_loop (ts_advance (length (pair_text p)) s) (arr @ [p]) = arr @ [p]"
    using r by (subst pair_array_loop.simps) (simp add: apt_text_field_read_def apt_text_spaces_skip_def)
  then show ?case
    by (subst pair_array_loop.simps) (simp add: rd pair_text_parse_snd[OF ok])
next
  case (3 p q ps)
  have ok: "pair_ok p" and r: "ts_rest s = pair_text p @ CHR '';'' # pairs_text (q # ps)" using 3 by auto
  have nsp: "\<not> (\<exists>cs. ts_rest s = sp # cs)" using pair_text_ok(3)[OF ok] r by (metis list.sel(1))
  let ?s = "ts_advance (length (pair_text p) + 1) s"
  have rd: "apt_text_field_read s (CHR '';'') True = (True, pair_text p, ts_rest s, ?s)"
    using field_read_takeWhile[OF nsp, of "CHR '';''"] pair_text_ok[OF ok] r by simp
  have "pair_array_loop ?s (arr @ [p]) = (arr @ [p]) @ q # ps"
    using 3 r by (intro "3.IH") auto
  then show ?case
    by (subst pair_array_loop.simps) (simp add: rd pair_text_parse_snd[OF ok])
qed

lemma pair_array_roundtrip:
  assumes "list_all pair_ok ps"
  shows "apt_pair_array_parse arr (snd (apt_pair_array_generate ps)) = arr @ ps"
proof -
  have "list_all (\<lambda>p. pair_name p \<noteq> []) ps" using assms by (auto simp: list_all_iff pair_ok_def)
  then show ?thesis
    using pair_array_loop_text[OF assms, of "apt_text_stream_of (pairs_text ps)" arr]
    by (simp add: apt_pair_array_parse_def pair_array_generate_text apt_text_stream_of_def)
qed

section \<open>A number plus the number of its digits\<close>

lemma digit_count_show: "digit_count n = length (show_nat n)"
proof (induction n rule: digit_count.induct)
  case (1 n)
  then show ?case
    by (subst digit_count.simps, subst show_nat.simps) (auto simp: div_eq_0_iff)
qed

lemma bounds_loop_pow:
  "b * 10 ^ k < 2 ^ 64 \<Longrightarrow> bounds_loop k b = b * 10 ^ k"
proof (induction k arbitrary: b)
  case 0
  then show ?case by simp
next
  case (Suc k)
  have "b * 10 * 1 \<le> b * 10 * 10 ^ k" by (intro mult_le_mono) auto
  also have "\<dots> < 2 ^ 64" using Suc.prems by (simp add: mult.assoc)
  finally have "wrap64 (b * 10) = b * 10" by (simp add: wrap64_def)
  with Suc show ?case by (simp add: mult.assoc)
qed

lemma length_show_nat_eq:
  assumes "10 ^ k \<le> n" "n < 10 ^ Suc k"
  shows "length (show_nat n) = Suc k"
proof -
  have "length (show_nat n) \<le> Suc k" using length_show_nat_le[of "Suc k" n] assms by simp
  moreover have "\<not> length (show_nat n) \<le> k"
    using length_show_nat_le[of k n] assms by (cases "k = 0") auto
  ultimately show ?thesis by simp
qed

lemma small_pow: "(10 :: nat) ^ k + k + 2 \<le> 10 ^ Suc k" if "0 < k"
  using that by (induction k rule: nat_induct_non_zero) auto

lemma var_length_spec:
  assumes v: "v < 10 ^ 19"
  shows "apt_var_length_value_generate v m =
    (let v' = fst (snd (apt_var_length_value_generate v m)) in
     (length (show_nat v') \<le> m, v', if length (show_nat v') \<le> m then Some (show_nat v') else None))
   \<and> fst (snd (apt_var_length_value_generate v m))
       = v + length (show_nat (fst (snd (apt_var_length_value_generate v m))))"
proof -
  define c where "c = length (show_nat v)"
  have c0: "0 < c" by (simp add: c_def)
  then obtain d where d: "c = Suc d" by (cases c) auto
  have c19: "c \<le> 19" using v length_show_nat_le[of 19 v] by (simp add: c_def)
  have vc: "v < 10 ^ c" using length_show_nat_le[of c v] c0 by (simp add: c_def)
  have vd: "d = 0 \<or> 10 ^ d \<le> v" using length_show_nat_le[of d v] d by (auto simp: c_def simp flip: not_less)
  have pc: "(10::nat) ^ c \<le> 10 ^ 19" using c19 by (intro power_increasing) auto
  then have "(10::nat) ^ c < 2 ^ 64" by (rule le_less_trans) simp
  then have b: "bounds_loop c 1 = 10 ^ c" using bounds_loop_pow[of 1 c] by simp
  have dc: "digit_count v = c" by (simp add: digit_count_show c_def)
  have cle: "c \<le> 10 ^ c" using small_pow[OF c0] power_gt_expt[of 10 c] by simp
  have sz: "size_t (int (10 ^ c) - int c) = 10 ^ c - c"
    using size_t_id[of "10 ^ c - c"] cle \<open>(10::nat) ^ c < 2 ^ 64\<close> by (simp add: of_nat_diff)
  define k where "k = (if 10 ^ c - c \<le> v then c + 1 else c)"
  have w: "wrap64 (v + k) = v + k"
    using vc pc c19 by (auto simp: wrap64_def k_def intro!: mod_less)
  have len: "length (show_nat (v + k)) = k"
  proof (cases "10 ^ c - c \<le> v")
    case True
    then have "10 ^ c \<le> v + k" "v + k < 10 ^ Suc c"
      using vc small_pow[OF c0] by (auto simp: k_def)
    then show ?thesis using length_show_nat_eq True by (simp add: k_def)
  next
    case False
    then have "v + k < 10 ^ Suc d" using d by (simp add: k_def)
    moreover have "10 ^ d \<le> v + k" using vd d by (auto simp: k_def)
    ultimately show ?thesis using length_show_nat_eq[of d "v + k"] False d by (simp add: k_def)
  qed
  have "apt_var_length_value_generate v m =
      (if m < k then (False, v + k, None) else (True, v + k, Some (show_nat (v + k))))"
    unfolding apt_var_length_value_generate_def Let_def dc b sz k_def[symmetric] w by (rule refl)
  then show ?thesis using len by (auto simp: Let_def)
qed

section \<open>Identifiers and values\<close>

lemma id_resource_roundtrip:
  assumes "sep \<notin> set i"
  shows "apt_id_resource_parse (apt_id_resource_generate i r sep @ t)
      (length (apt_id_resource_generate i r sep)) sep = Some (i, r)"
  using assms by (simp add: apt_id_resource_parse_def apt_id_resource_generate_def Let_def)

lemma boolean_roundtrip: "apt_boolean_value_parse (apt_boolean_value_generate b) = Some b"
  by (cases b) (simp_all add: apt_boolean_value_parse_def apt_boolean_value_generate_def
      eval_nat_numeral nul_def tolower_def)

lemma size_roundtrip: "n < 2 ^ 63 \<Longrightarrow> apt_size_value_parse (apt_size_value_generate n) = n"
  using atol_show_nat_append[of "[]" n] by (simp add: apt_size_value_parse_def apt_size_value_generate_def)

text \<open>With room for the digits and the terminating zero, a number is written whole.\<close>

lemma os_snprintf_ok:
  assumes "length (os_text s) + length str < os_size s" "str \<noteq> []"
  shows "os_snprintf str s = Some (True, os_write str s)"
  using assms by (auto simp: os_snprintf_def apr_snprintf_def)

lemma os_put_ok:
  "length (os_text s) + length bytes \<le> os_size s \<Longrightarrow> os_put bytes s = Some (os_write bytes s)"
  by (simp add: os_put_def)

lemma os_write_simps [simp]:
  "os_text (os_write b s) = os_text s @ b"
  "os_size (os_write b s) = os_size s"
  "os_write c (os_write b s) = os_write (b @ c) s"
  by (simp_all add: os_write_def)

lemma size_value_insert_ok:
  assumes "length (os_text s) + length (show_nat n) < os_size s"
  shows "apt_text_size_value_insert s n = Some (True, os_write (show_nat n) s)"
  using assms by (simp add: apt_text_size_value_insert_def os_snprintf_ok)

text \<open>A field up to the next space, and the last field.\<close>

lemma field_read_sp:
  assumes "ts_rest s = f @ sp # rest" "f \<noteq> []" "sp \<notin> set f"
  shows "apt_text_field_read s sp True = (True, f, f @ sp # rest, ts_advance (length f + 1) s)"
  using field_read_takeWhile[of s sp] assms by (cases f) auto

lemma field_read_last:
  assumes "ts_rest s = f" "f \<noteq> []" "sp \<notin> set f"
  shows "apt_text_field_read s sp True = (True, f, f, ts_advance (length f) s)"
  using field_read_takeWhile[of s sp] assms by (cases f) auto

lemma field_read_empty: "ts_rest s = [] \<Longrightarrow> apt_text_field_read s c b = (False, [], [], ts_advance 0 s)"
  by (simp add: apt_text_field_read_def apt_text_spaces_skip_def ts_advance_def)

lemma pad3_length: "length (pad3 n) = max 3 (length (show_nat n))"
  by (simp add: pad3_def)

lemma completion_cause_text:
  assumes "length t \<le> 1000" "c < length t"
  shows "apt_completion_cause_generate t c = Some (pad3 c @ [sp] @ st_value (t ! c))"
proof -
  have "c < 10 ^ 3" using assms by simp
  then have "length (show_nat c) \<le> 3" using length_show_nat_le[of 3 c] by simp
  then show ?thesis using assms
    by (simp add: apt_completion_cause_generate_def apt_string_table_str_get_def pad3_length)
qed

section \<open>Properties\<close>

text \<open>
  A header line that was written is read back: \<open>apt_text_name_value_insert\<close> appends
  exactly one line to a buffer with room for it, and \<open>apt_text_header_read\<close> gets the name and
  the value from that line and stops behind it.
\<close>

theorem header_line_roundtrip:
  assumes "header_name_ok n" and "no_eol v" and "v = [] \<or> \<not> apt_text_is_wsp (hd v)"
    and "length (os_text s) + length n + length v + 4 < os_size s"
    and "ts_rest t = drop (length (os_text s)) (os_text s') @ rest"
    and "apt_text_name_value_insert s n v = (ok, s')"
  shows "ok \<and> apt_text_header_read t = (True, \<lparr>pair_name = n, pair_value = v\<rparr>,
      ts_advance (length (os_text s') - length (os_text s)) t)"
proof -
  have s': "ok" "os_text s' = os_text s @ n @ [CHR '':'', sp] @ v @ [cr, lf]"
    using name_value_insert_text[OF assms(4)] assms(6) by auto
  then have "ts_rest t = n @ [CHR '':'', sp] @ v @ [cr, lf] @ rest" using assms(5) by simp
  from name_value_roundtrip[OF assms(1,2,3) this] s' show ?thesis by (simp add: add.commute)
qed

lemma header_line_roundtrip_witness:
  "apt_text_header_read (apt_text_stream_of (''Accept: text'' @ [cr, lf, cr, lf]))
    = (True, \<lparr>pair_name = ''Accept'', pair_value = ''text''\<rparr>,
       ts_advance 14 (apt_text_stream_of (''Accept: text'' @ [cr, lf, cr, lf])))"
  using header_line_roundtrip[of "''Accept''" "''text''" "apt_text_stream_init 100"
      "apt_text_stream_of (''Accept: text'' @ [cr, lf, cr, lf])" "\<lparr>os_text = ''Accept: text'' @ [cr, lf], os_size = 100\<rparr>"
      "[cr, lf]" True]
  by (simp add: header_name_ok_def no_eol_def cr_def lf_def sp_def htab_def apt_text_is_wsp_def apt_text_stream_init_def
      apt_text_name_value_insert_def apt_text_eol_insert_def os_write_def apt_text_stream_of_def)

text \<open>
  A list of name=value pairs that was generated is parsed back pair by pair, behind the
  pairs the list already has, when the names are not empty and no name or value contains a
  separator or starts with a space.
\<close>

theorem pair_array_generate_parse:
  assumes "list_all pair_ok ps"
  shows "apt_pair_array_parse arr (snd (apt_pair_array_generate ps)) = arr @ ps
    \<and> fst (apt_pair_array_generate ps) = length (snd (apt_pair_array_generate ps))"
proof -
  have "list_all (\<lambda>p. pair_name p \<noteq> []) ps" using assms by (auto simp: list_all_iff pair_ok_def)
  then show ?thesis using pair_array_roundtrip[OF assms] by (simp add: pair_array_generate_text)
qed

lemma pair_array_generate_parse_witness:
  "apt_pair_array_parse [] (snd (apt_pair_array_generate
      [\<lparr>pair_name = ''a'', pair_value = ''1''\<rparr>, \<lparr>pair_name = ''b'', pair_value = ''''\<rparr>]))
    = [\<lparr>pair_name = ''a'', pair_value = ''1''\<rparr>, \<lparr>pair_name = ''b'', pair_value = ''''\<rparr>]"
  using pair_array_generate_parse[of "[\<lparr>pair_name = ''a'', pair_value = ''1''\<rparr>, \<lparr>pair_name = ''b'', pair_value = ''''\<rparr>]" "[]"]
  by (simp add: pair_ok_def sp_def)

end
