(* ===== verification/Header_Section.thy ===== *)
theory Header_Section
  imports Text_Stream
begin

text \<open>
  \<open>libs/apr-toolkit/src/apt_header_field.c\<close>: the header section of a message, a ring of
  header fields and an array of pointers to those with a numeric identifier. Both refer to
  the same field, so the ring holds each field with its address and the array holds
  addresses; a field that enters the section gets the next unused address.
\<close>

record header_field =
  hf_name :: string
  hf_value :: string
  hf_id :: nat

record header_section =
  sec_ring :: "(nat \<times> header_field) list"
  sec_arr :: "nat option list"
  sec_next :: nat

definition UNKNOWN_HEADER_FIELD_ID :: nat where
  "UNKNOWN_HEADER_FIELD_ID = 2 ^ 64 - 1"

definition apt_header_field_alloc :: header_field where
  "apt_header_field_alloc = \<lparr>hf_name = [], hf_value = [], hf_id = UNKNOWN_HEADER_FIELD_ID\<rparr>"

definition apt_header_field_create :: "string \<Rightarrow> string \<Rightarrow> header_field" where
  "apt_header_field_create name v = \<lparr>hf_name = name, hf_value = v, hf_id = UNKNOWN_HEADER_FIELD_ID\<rparr>"

definition apt_header_field_create_from_line :: "string \<Rightarrow> char \<Rightarrow> header_field option" where
  "apt_header_field_create_from_line line sep =
     (let (ok, name, _, s) = apt_text_field_read (apt_text_stream_of line) sep True in
      if \<not> ok then None
      else let (ok2, v, _, _) = apt_text_field_read s nul True in
           Some \<lparr>hf_name = name, hf_value = (if ok2 then v else []), hf_id = UNKNOWN_HEADER_FIELD_ID\<rparr>)"

definition apt_header_field_copy :: "header_field \<Rightarrow> header_field" where
  "apt_header_field_copy f = \<lparr>hf_name = hf_name f, hf_value = hf_value f, hf_id = hf_id f\<rparr>"

definition apt_header_section_init :: header_section where
  "apt_header_section_init = \<lparr>sec_ring = [], sec_arr = [], sec_next = 0\<rparr>"

definition apt_header_section_array_alloc :: "header_section \<Rightarrow> nat \<Rightarrow> bool \<times> header_section" where
  "apt_header_section_array_alloc h n =
     (if n = 0 then (False, h) else (True, h\<lparr>sec_arr := replicate n None\<rparr>))"

definition ring_insert_tail :: "header_section \<Rightarrow> header_field \<Rightarrow> header_section" where
  "ring_insert_tail h f = h\<lparr>sec_ring := sec_ring h @ [(sec_next h, f)], sec_next := Suc (sec_next h)\<rparr>"

definition apt_header_section_field_add :: "header_section \<Rightarrow> header_field \<Rightarrow> bool \<times> header_section" where
  "apt_header_section_field_add h f =
     (if hf_id f < length (sec_arr h) then
        if sec_arr h ! hf_id f \<noteq> None then (False, h)
        else (True, ring_insert_tail (h\<lparr>sec_arr := (sec_arr h)[hf_id f := Some (sec_next h)]\<rparr>) f)
      else (True, ring_insert_tail h f))"

text \<open>The place of a field in a ring ordered by id: before the first field with a greater id.\<close>

fun ring_insert_ordered :: "nat \<times> header_field \<Rightarrow> (nat \<times> header_field) list \<Rightarrow> (nat \<times> header_field) list" where
  "ring_insert_ordered e [] = [e]"
| "ring_insert_ordered e (it # rest) =
     (if hf_id (snd e) < hf_id (snd it) then e # it # rest else it # ring_insert_ordered e rest)"

definition apt_header_section_field_insert :: "header_section \<Rightarrow> header_field \<Rightarrow> bool \<times> header_section" where
  "apt_header_section_field_insert h f =
     (if hf_id f < length (sec_arr h) then
        if sec_arr h ! hf_id f \<noteq> None then (False, h)
        else (True, h\<lparr>sec_arr := (sec_arr h)[hf_id f := Some (sec_next h)],
                      sec_ring := ring_insert_ordered (sec_next h, f) (sec_ring h),
                      sec_next := Suc (sec_next h)\<rparr>)
      else (True, ring_insert_tail h f))"

text \<open>The field set or removed is one of the ring: an address and a field.\<close>

definition apt_header_section_field_set :: "header_section \<Rightarrow> nat \<times> header_field \<Rightarrow> bool \<times> header_section" where
  "apt_header_section_field_set h e =
     (if length (sec_arr h) \<le> hf_id (snd e) then (False, h)
      else if sec_arr h ! hf_id (snd e) \<noteq> None then (False, h)
      else (True, h\<lparr>sec_arr := (sec_arr h)[hf_id (snd e) := Some (fst e)]\<rparr>))"

definition apt_header_section_field_remove :: "header_section \<Rightarrow> nat \<times> header_field \<Rightarrow> header_section" where
  "apt_header_section_field_remove h e =
     (let h1 = (if hf_id (snd e) < length (sec_arr h)
                then h\<lparr>sec_arr := (sec_arr h)[hf_id (snd e) := None]\<rparr> else h)
      in h1\<lparr>sec_ring := filter (\<lambda>x. fst x \<noteq> fst e) (sec_ring h1)\<rparr>)"

definition apt_header_section_field_check :: "header_section \<Rightarrow> nat \<Rightarrow> bool" where
  "apt_header_section_field_check h i =
     (if i < length (sec_arr h) then sec_arr h ! i \<noteq> None else False)"

text \<open>The address in the array, and the field at an address.\<close>

definition apt_header_section_field_get :: "header_section \<Rightarrow> nat \<Rightarrow> nat option" where
  "apt_header_section_field_get h i = (if i < length (sec_arr h) then sec_arr h ! i else None)"

definition section_field_at :: "header_section \<Rightarrow> nat \<Rightarrow> header_field option" where
  "section_field_at h a = map_of (sec_ring h) a"

section \<open>Well-formed sections\<close>

text \<open>
  The array points into the ring, to fields that carry the identifier of their slot.
\<close>

definition section_wf :: "header_section \<Rightarrow> bool" where
  "section_wf h \<longleftrightarrow> distinct (map fst (sec_ring h)) \<and> (\<forall>e \<in> set (sec_ring h). fst e < sec_next h)
     \<and> (\<forall>i < length (sec_arr h). \<forall>a. sec_arr h ! i = Some a \<longrightarrow>
          (\<exists>f. (a, f) \<in> set (sec_ring h) \<and> hf_id f = i))"

lemma section_wf_arr:
  "section_wf h \<Longrightarrow> i < length (sec_arr h) \<Longrightarrow> sec_arr h ! i = Some a \<Longrightarrow>
    \<exists>f. (a, f) \<in> set (sec_ring h) \<and> hf_id f = i"
  by (simp add: section_wf_def)

text \<open>What a section holds: the fields in the order of the ring.\<close>

definition section_fields :: "header_section \<Rightarrow> header_field list" where
  "section_fields h = map snd (sec_ring h)"

lemma section_init_wf [simp]: "section_wf apt_header_section_init"
  by (simp add: section_wf_def apt_header_section_init_def)

lemma array_alloc_wf:
  "section_wf h \<Longrightarrow> section_wf (snd (apt_header_section_array_alloc h n))"
  by (simp add: section_wf_def apt_header_section_array_alloc_def)

lemma field_add_wf:
  assumes "section_wf h"
  shows "section_wf (snd (apt_header_section_field_add h f))"
  using assms unfolding section_wf_def apt_header_section_field_add_def ring_insert_tail_def
  by (auto simp: nth_list_update less_Suc_eq split: if_splits; blast?)

lemma set_ring_insert_ordered [simp]: "set (ring_insert_ordered e r) = insert e (set r)"
  by (induction r) auto

lemma distinct_ring_insert_ordered [simp]:
  "fst e \<notin> fst ` set r \<Longrightarrow> distinct (map fst (ring_insert_ordered e r)) = distinct (map fst r)"
  by (induction r) auto

lemma field_insert_wf:
  assumes "section_wf h"
  shows "section_wf (snd (apt_header_section_field_insert h f))"
proof -
  have "sec_next h \<notin> fst ` set (sec_ring h)" using assms by (auto simp: section_wf_def)
  then show ?thesis
    using assms unfolding section_wf_def apt_header_section_field_insert_def ring_insert_tail_def
    by (auto simp: nth_list_update less_Suc_eq split: if_splits; blast?)
qed

lemma field_set_wf:
  assumes "section_wf h" "e \<in> set (sec_ring h)"
  shows "section_wf (snd (apt_header_section_field_set h e))"
  using assms unfolding section_wf_def apt_header_section_field_set_def
  by (cases e) (auto simp: nth_list_update split: if_splits)

text \<open>Removing the field the array refers to, or one without an identifier, keeps the section.\<close>

lemma field_remove_wf:
  assumes wf: "section_wf h" and e: "e \<in> set (sec_ring h)"
  shows "section_wf (apt_header_section_field_remove h e)"
proof -
  have "\<exists>f. (a, f) \<in> set (sec_ring h) \<and> hf_id f = i \<and> a \<noteq> fst e"
    if q: "i < length (sec_arr h)" "sec_arr h ! i = Some a" "i \<noteq> hf_id (snd e)" for i a
  proof -
    obtain f where f: "(a, f) \<in> set (sec_ring h)" "hf_id f = i"
      using section_wf_arr[OF wf q(1,2)] by blast
    moreover have "a \<noteq> fst e"
      using wf e f q eq_key_imp_eq_value[of "sec_ring h" a f "snd e"] by (auto simp: section_wf_def)
    ultimately show ?thesis by auto
  qed
  then show ?thesis
    using wf unfolding section_wf_def apt_header_section_field_remove_def Let_def
    by (auto simp: nth_list_update distinct_map_filter split: if_splits)
qed

section \<open>Fields by identifier\<close>

definition section_lookup :: "header_section \<Rightarrow> nat \<Rightarrow> header_field option" where
  "section_lookup h i = Option.bind (apt_header_section_field_get h i) (section_field_at h)"

lemma lookup_wf:
  assumes "section_wf h" "apt_header_section_field_get h i = Some a"
  shows "\<exists>f. section_field_at h a = Some f \<and> hf_id f = i"
  using assms section_wf_arr[OF assms(1), of i a]
  by (auto simp: section_wf_def apt_header_section_field_get_def section_field_at_def split: if_splits)

lemma map_of_snoc_old: "a \<noteq> b \<Longrightarrow> ([b \<mapsto> y] ++ map_of xs) a = map_of xs a"
  by (simp add: map_add_def split: option.splits)

lemma map_of_snoc_new: "b \<notin> fst ` set xs \<Longrightarrow> ([b \<mapsto> y] ++ map_of xs) b = Some y"
  using map_of_eq_None_iff[of xs b] by (simp add: map_add_def)

lemma field_add_lookup:
  assumes wf: "section_wf h" and new: "apt_header_section_field_get h (hf_id f) = None"
    and i: "i < length (sec_arr h)"
  shows "fst (apt_header_section_field_add h f)"
    and "section_lookup (snd (apt_header_section_field_add h f)) i
      = (if i = hf_id f then Some f else section_lookup h i)"
    and "section_fields (snd (apt_header_section_field_add h f)) = section_fields h @ [f]"
proof -
  have fresh: "sec_next h \<notin> fst ` set (sec_ring h)" using wf by (auto simp: section_wf_def)
  have old: "sec_arr h ! i = Some a \<Longrightarrow> a \<noteq> sec_next h" for a
    using section_wf_arr[OF wf i] fresh by force
  show "fst (apt_header_section_field_add h f)"
    using new by (simp add: apt_header_section_field_add_def apt_header_section_field_get_def split: if_splits)
  show "section_fields (snd (apt_header_section_field_add h f)) = section_fields h @ [f]"
    using new by (simp add: apt_header_section_field_add_def apt_header_section_field_get_def
        section_fields_def ring_insert_tail_def split: if_splits)
  show "section_lookup (snd (apt_header_section_field_add h f)) i
      = (if i = hf_id f then Some f else section_lookup h i)"
    using new i fresh old
    by (cases "sec_arr h ! i") (auto simp: section_lookup_def apt_header_section_field_add_def
        apt_header_section_field_get_def section_field_at_def ring_insert_tail_def nth_list_update
        map_of_snoc_new map_of_snoc_old split: if_splits)
qed

text \<open>A field whose identifier is taken is refused, and the section stays as it is.\<close>

lemma field_add_taken:
  assumes "apt_header_section_field_get h (hf_id f) = Some a"
  shows "apt_header_section_field_add h f = (False, h)"
  using assms by (simp add: apt_header_section_field_add_def apt_header_section_field_get_def split: if_splits)

lemma field_remove_get:
  assumes "hf_id (snd e) < length (sec_arr h)"
  shows "apt_header_section_field_get (apt_header_section_field_remove h e) (hf_id (snd e)) = None"
  using assms by (simp add: apt_header_section_field_remove_def apt_header_section_field_get_def Let_def)

text \<open>Insertion keeps a ring that is ordered by identifier ordered.\<close>

definition ring_ordered :: "header_section \<Rightarrow> bool" where
  "ring_ordered h \<longleftrightarrow> sorted (map (hf_id \<circ> snd) (sec_ring h))"

lemma sorted_ring_insert_ordered:
  "sorted (map (hf_id \<circ> snd) r) \<Longrightarrow> sorted (map (hf_id \<circ> snd) (ring_insert_ordered e r))"
  by (induction r) (auto dest: order.strict_implies_order intro: order.trans[OF less_imp_le])

lemma field_insert_ordered:
  assumes "ring_ordered h" "hf_id f < length (sec_arr h)"
  shows "ring_ordered (snd (apt_header_section_field_insert h f))"
  using assms sorted_ring_insert_ordered[of "sec_ring h" "(sec_next h, f)"]
  by (auto simp: apt_header_section_field_insert_def ring_ordered_def)

section \<open>Values of fields\<close>

definition set_field_value :: "nat \<Rightarrow> string \<Rightarrow> header_section \<Rightarrow> header_section" where
  "set_field_value a v sec =
     sec\<lparr>sec_ring := map (\<lambda>(b, f). if b = a then (b, f\<lparr>hf_value := v\<rparr>) else (b, f)) (sec_ring sec)\<rparr>"

lemma copy_same [simp]: "apt_header_field_copy (f :: header_field) = f"
  by (simp add: apt_header_field_copy_def)

lemma add_arr_length [simp]: "length (sec_arr (snd (apt_header_section_field_add h f))) = length (sec_arr h)"
  by (simp add: apt_header_section_field_add_def ring_insert_tail_def)

lemma set_field_value_arr [simp]: "sec_arr (set_field_value a v h) = sec_arr h"
  by (simp add: set_field_value_def)

lemma set_field_value_wf:
  assumes "section_wf h"
  shows "section_wf (set_field_value a v h)"
proof -
  have k: "map fst (sec_ring (set_field_value a v h)) = map fst (sec_ring h)"
    by (auto simp: set_field_value_def)
  have m: "(b, f) \<in> set (sec_ring h) \<Longrightarrow> \<exists>g. (b, g) \<in> set (sec_ring (set_field_value a v h)) \<and> hf_id g = hf_id f" for b f
    by (cases "b = a") (force simp: set_field_value_def)+
  have n: "sec_next (set_field_value a v h) = sec_next h" by (simp add: set_field_value_def)
  have s: "\<forall>e \<in> set (sec_ring (set_field_value a v h)). fst e < sec_next h"
    using assms by (auto simp: set_field_value_def section_wf_def)
  show ?thesis
    unfolding section_wf_def k n set_field_value_arr
    using assms s m unfolding section_wf_def by metis
qed

lemma map_of_set_value:
  "map_of (map (\<lambda>(b, f). if b = a then (b, f\<lparr>hf_value := v\<rparr>) else (b, f)) xs) c
    = (if c = a then map_option (\<lambda>f. f\<lparr>hf_value := v\<rparr>) (map_of xs c) else map_of xs c)"
  by (induction xs) auto

lemma set_field_value_at:
  "section_field_at (set_field_value a v h) c
    = (if c = a then map_option (\<lambda>f. f\<lparr>hf_value := v\<rparr>) (section_field_at h c) else section_field_at h c)"
  by (simp add: set_field_value_def section_field_at_def map_of_set_value)

text \<open>The value of the field with an identifier.\<close>

definition section_value :: "header_section \<Rightarrow> nat \<Rightarrow> string option" where
  "section_value h i = map_option hf_value (section_lookup h i)"

lemma set_field_value_lookup:
  assumes wf: "section_wf h" and a: "apt_header_section_field_get h i = Some a"
  shows "section_value (set_field_value a v h) j = (if j = i then Some v else section_value h j)"
proof (cases "apt_header_section_field_get h j")
  case None
  then show ?thesis using a by (auto simp: section_value_def section_lookup_def apt_header_section_field_get_def)
next
  case (Some b)
  then obtain g where g: "section_field_at h b = Some g" "hf_id g = j" using lookup_wf[OF wf] by blast
  obtain f where f: "section_field_at h a = Some f" "hf_id f = i" using lookup_wf[OF wf a] by blast
  have "b = a \<longleftrightarrow> j = i" using f g Some a by auto
  moreover have "apt_header_section_field_get (set_field_value a v h) j = Some b"
    using Some by (simp add: apt_header_section_field_get_def split: if_splits)
  ultimately show ?thesis using g Some
    by (simp add: section_value_def section_lookup_def set_field_value_at)
qed

lemma lookup_none_get:
  assumes "section_wf h"
  shows "section_value h i = None \<longleftrightarrow> apt_header_section_field_get h i = None"
  using lookup_wf[OF assms, of i]
  by (cases "apt_header_section_field_get h i") (auto simp: section_value_def section_lookup_def)

lemma add_value:
  assumes wf: "section_wf h" and new: "apt_header_section_field_get h (hf_id f) = None"
    and j: "j < length (sec_arr h)"
  shows "section_value (snd (apt_header_section_field_add h f)) j
    = (if j = hf_id f then Some (hf_value f) else section_value h j)"
  using field_add_lookup(2)[OF assms] by (simp add: section_value_def)

section \<open>Properties\<close>

text \<open>
  C32: Every operation on a header section keeps the array of identified fields and the ring of
  fields consistent: a slot of the array refers to a field of the ring that carries the
  identifier of the slot, and no two fields share an address.
\<close>

theorem section_operations_wf:
  assumes "section_wf h" and "(a, g) \<in> set (sec_ring h)"
  shows "section_wf (snd (apt_header_section_field_add h f))
    \<and> section_wf (snd (apt_header_section_field_insert h f))
    \<and> section_wf (snd (apt_header_section_field_set h (a, g)))
    \<and> section_wf (apt_header_section_field_remove h (a, g))"
  using assms by (auto intro: field_add_wf field_insert_wf field_set_wf field_remove_wf)

lemma section_operations_wf_witness:
  "section_wf (apt_header_section_field_remove
      \<lparr>sec_ring = [(0, \<lparr>hf_name = ''Accept'', hf_value = ''text'', hf_id = 1\<rparr>)], sec_arr = [None, Some 0], sec_next = 1\<rparr>
      (0, \<lparr>hf_name = ''Accept'', hf_value = ''text'', hf_id = 1\<rparr>))"
  using section_operations_wf[of
      "\<lparr>sec_ring = [(0, \<lparr>hf_name = ''Accept'', hf_value = ''text'', hf_id = 1\<rparr>)], sec_arr = [None, Some 0], sec_next = 1\<rparr>"
      0 "\<lparr>hf_name = ''Accept'', hf_value = ''text'', hf_id = 1\<rparr>" apt_header_field_alloc]
  by (simp add: section_wf_def less_Suc_eq)

text \<open>
  C33: Adding a field to a section is an insertion into a map: the field is found under its
  identifier afterwards, the fields under other identifiers stay, and the order of the fields is
  kept; a field whose identifier is taken is refused, and the section stays as it is.
\<close>

theorem section_add_lookup:
  assumes "section_wf h" and "i < length (sec_arr h)" and "hf_id f < length (sec_arr h)"
  shows "(case section_lookup h (hf_id f) of
      Some _ \<Rightarrow> apt_header_section_field_add h f = (False, h)
    | None \<Rightarrow> fst (apt_header_section_field_add h f)
        \<and> section_lookup (snd (apt_header_section_field_add h f)) i = (if i = hf_id f then Some f else section_lookup h i)
        \<and> section_fields (snd (apt_header_section_field_add h f)) = section_fields h @ [f])"
proof (cases "apt_header_section_field_get h (hf_id f)")
  case None
  then show ?thesis
    using field_add_lookup[OF assms(1) None assms(2)] by (simp add: section_lookup_def)
next
  case (Some a)
  then obtain g where "section_lookup h (hf_id f) = Some g"
    using lookup_wf[OF assms(1) Some] by (auto simp: section_lookup_def)
  then show ?thesis using field_add_taken[OF Some] by simp
qed

lemma section_add_lookup_witness:
  "section_lookup (snd (apt_header_section_field_add \<lparr>sec_ring = [], sec_arr = [None, None], sec_next = 0\<rparr>
      \<lparr>hf_name = ''Accept'', hf_value = ''text'', hf_id = 1\<rparr>)) 1
    = Some \<lparr>hf_name = ''Accept'', hf_value = ''text'', hf_id = 1\<rparr>"
proof -
  let ?h = "\<lparr>sec_ring = [], sec_arr = [None, None], sec_next = 0\<rparr>"
  let ?f = "\<lparr>hf_name = ''Accept'', hf_value = ''text'', hf_id = 1\<rparr>"
  have "section_wf ?h" by (simp add: section_wf_def nth_Cons')
  moreover have "section_lookup ?h 1 = None" by (simp add: section_lookup_def apt_header_section_field_get_def)
  ultimately show ?thesis using section_add_lookup[of ?h 1 ?f] by (simp only: option.case) simp
qed

end
