(* ===== verification/Start_Line.thy ===== *)
theory Start_Line
  imports Text_Stream
begin

text \<open>
  \<open>libs/mrcp/message/src/mrcp_start_line.c\<close>: the first line of an MRCP message in both
  versions of the protocol, parsed, generated, and completed with the length of the message.
  Generation writes without checks in places; such a write outside the buffer is \<open>None\<close>.
\<close>

datatype mrcp_version = MRCP_VERSION_UNKNOWN | MRCP_VERSION_1 | MRCP_VERSION_2

datatype mrcp_message_type =
    MRCP_MESSAGE_TYPE_UNKNOWN
  | MRCP_MESSAGE_TYPE_REQUEST
  | MRCP_MESSAGE_TYPE_RESPONSE
  | MRCP_MESSAGE_TYPE_EVENT

datatype mrcp_request_state =
    MRCP_REQUEST_STATE_COMPLETE
  | MRCP_REQUEST_STATE_INPROGRESS
  | MRCP_REQUEST_STATE_PENDING
  | MRCP_REQUEST_STATE_UNKNOWN

abbreviation (input) MRCP_STATUS_CODE_UNKNOWN :: nat where "MRCP_STATUS_CODE_UNKNOWN \<equiv> 0"
abbreviation (input) MRCP_STATUS_CODE_SUCCESS :: nat where "MRCP_STATUS_CODE_SUCCESS \<equiv> 200"
abbreviation (input) MRCP_STATUS_CODE_METHOD_NOT_ALLOWED :: nat where "MRCP_STATUS_CODE_METHOD_NOT_ALLOWED \<equiv> 401"
abbreviation (input) MRCP_STATUS_CODE_METHOD_NOT_VALID :: nat where "MRCP_STATUS_CODE_METHOD_NOT_VALID \<equiv> 402"
abbreviation (input) MRCP_STATUS_CODE_MISSING_PARAM :: nat where "MRCP_STATUS_CODE_MISSING_PARAM \<equiv> 406"
abbreviation (input) MRCP_STATUS_CODE_METHOD_FAILED :: nat where "MRCP_STATUS_CODE_METHOD_FAILED \<equiv> 407"

record mrcp_start_line =
  sl_message_type :: mrcp_message_type
  sl_version :: mrcp_version
  sl_length :: nat
  sl_request_id :: u32
  sl_method_name :: string
  sl_method_id :: nat
  sl_status_code :: nat
  sl_request_state :: mrcp_request_state

text \<open>The initialiser leaves \<open>method_id\<close> alone; a message from the pool starts with \<open>m\<close> there.\<close>

definition mrcp_start_line_init :: "nat \<Rightarrow> mrcp_start_line" where
  "mrcp_start_line_init m =
     \<lparr>sl_message_type = MRCP_MESSAGE_TYPE_UNKNOWN, sl_version = MRCP_VERSION_UNKNOWN,
      sl_length = 0, sl_request_id = 0, sl_method_name = [], sl_method_id = m,
      sl_status_code = MRCP_STATUS_CODE_UNKNOWN, sl_request_state = MRCP_REQUEST_STATE_UNKNOWN\<rparr>"

definition MRCP_NAME :: string where "MRCP_NAME = ''MRCP''"
definition MAX_DIGIT_COUNT :: nat where "MAX_DIGIT_COUNT = 6"

definition mrcp_request_state_string_table :: str_table where
  "mrcp_request_state_string_table =
     [\<lparr>st_value = ''COMPLETE'', st_key = 0\<rparr>,
      \<lparr>st_value = ''IN-PROGRESS'', st_key = 0\<rparr>,
      \<lparr>st_value = ''PENDING'', st_key = 0\<rparr>]"

definition request_state_of_index :: "nat \<Rightarrow> mrcp_request_state" where
  "request_state_of_index i =
     (if i = 0 then MRCP_REQUEST_STATE_COMPLETE
      else if i = 1 then MRCP_REQUEST_STATE_INPROGRESS
      else if i = 2 then MRCP_REQUEST_STATE_PENDING
      else MRCP_REQUEST_STATE_UNKNOWN)"

fun request_state_index :: "mrcp_request_state \<Rightarrow> nat" where
  "request_state_index MRCP_REQUEST_STATE_COMPLETE = 0"
| "request_state_index MRCP_REQUEST_STATE_INPROGRESS = 1"
| "request_state_index MRCP_REQUEST_STATE_PENDING = 2"
| "request_state_index MRCP_REQUEST_STATE_UNKNOWN = 3"

fun version_number :: "mrcp_version \<Rightarrow> nat" where
  "version_number MRCP_VERSION_UNKNOWN = 0"
| "version_number MRCP_VERSION_1 = 1"
| "version_number MRCP_VERSION_2 = 2"

section \<open>Parsing\<close>

text \<open>
  The parsers of single fields get the field, or the C string it starts where the code reads
  on behind the field.
\<close>

definition mrcp_version_parse :: "string \<Rightarrow> string \<Rightarrow> mrcp_version" where
  "mrcp_version_parse field buf =
     (if length field \<le> length MRCP_NAME \<or> \<not> strncaseeq (length MRCP_NAME) buf MRCP_NAME
      then MRCP_VERSION_UNKNOWN
      else case drop (length MRCP_NAME) buf of
             c # d # _ \<Rightarrow>
               if c = CHR ''/'' then
                 (if d = CHR ''1'' then MRCP_VERSION_1
                  else if d = CHR ''2'' then MRCP_VERSION_2
                  else MRCP_VERSION_UNKNOWN)
               else MRCP_VERSION_UNKNOWN
           | _ \<Rightarrow> MRCP_VERSION_UNKNOWN)"

definition mrcp_request_state_parse :: "string \<Rightarrow> mrcp_request_state" where
  "mrcp_request_state_parse field =
     request_state_of_index (apt_string_table_id_find mrcp_request_state_string_table field)"

definition mrcp_status_code_parse :: "string \<Rightarrow> nat" where
  "mrcp_status_code_parse buf = apt_size_value_parse buf mod 2 ^ 32"

definition mrcp_request_id_parse :: "string \<Rightarrow> u32" where
  "mrcp_request_id_parse buf = word_of_int (atol buf)"

definition mrcp_request_line_parse :: "mrcp_start_line \<Rightarrow> text_stream \<Rightarrow> bool \<times> mrcp_start_line" where
  "mrcp_request_line_parse sl s =
     (case apt_text_field_read s sp True of
        (False, _, _, _) \<Rightarrow> (False, sl)
      | (True, field, buf, s1) \<Rightarrow>
          (let sl1 = sl\<lparr>sl_request_id := mrcp_request_id_parse buf\<rparr> in
           case apt_text_field_read s1 sp True of
             (False, _, _, _) \<Rightarrow> (False, sl1)
           | (True, field2, buf2, s2) \<Rightarrow>
               (let sl2 = sl1\<lparr>sl_request_state := mrcp_request_state_parse field2\<rparr>;
                    finish = (\<lambda>sl field buf.
                      let sl' = sl\<lparr>sl_version := mrcp_version_parse field buf\<rparr>
                      in (sl_version sl' \<noteq> MRCP_VERSION_UNKNOWN, sl'))
                in if sl_request_state sl2 = MRCP_REQUEST_STATE_UNKNOWN then
                     finish (sl2\<lparr>sl_message_type := MRCP_MESSAGE_TYPE_REQUEST\<rparr>) field2 buf2
                   else
                     let sl3 = sl2\<lparr>sl_message_type := MRCP_MESSAGE_TYPE_EVENT\<rparr> in
                     case apt_text_field_read s2 sp True of
                       (False, _, _, _) \<Rightarrow> (False, sl3)
                     | (True, field3, buf3, _) \<Rightarrow> finish sl3 field3 buf3)))"

text \<open>The request-id, status code and request state at the end of a response line.\<close>

definition mrcp_response_tail_parse :: "mrcp_start_line \<Rightarrow> text_stream \<Rightarrow> bool \<times> mrcp_start_line" where
  "mrcp_response_tail_parse sl s =
     (case apt_text_field_read s sp True of
        (False, _, _, _) \<Rightarrow> (False, sl)
      | (True, _, buf, s1) \<Rightarrow>
          (let sl1 = sl\<lparr>sl_status_code := mrcp_status_code_parse buf\<rparr> in
           case apt_text_field_read s1 sp True of
             (False, _, _, _) \<Rightarrow> (False, sl1)
           | (True, field2, _, _) \<Rightarrow>
               (True, sl1\<lparr>sl_request_state := mrcp_request_state_parse field2\<rparr>)))"

definition mrcp_response_line_parse :: "mrcp_start_line \<Rightarrow> text_stream \<Rightarrow> bool \<times> mrcp_start_line" where
  "mrcp_response_line_parse sl0 s0 =
     (let sl = sl0\<lparr>sl_length := 0\<rparr>;
          ids = (\<lambda>sl s. case apt_text_field_read s sp True of
                   (False, _, _, _) \<Rightarrow> (False, sl)
                 | (True, _, buf, s1) \<Rightarrow>
                     mrcp_response_tail_parse (sl\<lparr>sl_request_id := mrcp_request_id_parse buf\<rparr>) s1)
      in if sl_version sl = MRCP_VERSION_2 then
           (case apt_text_field_read s0 sp True of
              (False, _, _, _) \<Rightarrow> (False, sl)
            | (True, _, buf, s1) \<Rightarrow> ids (sl\<lparr>sl_length := apt_size_value_parse buf\<rparr>) s1)
         else ids sl s0)"

definition mrcp_v2_start_line_parse :: "mrcp_start_line \<Rightarrow> text_stream \<Rightarrow> bool \<times> mrcp_start_line" where
  "mrcp_v2_start_line_parse sl s =
     (case apt_text_field_read s sp True of
        (False, _, _, _) \<Rightarrow> (False, sl)
      | (True, _, buf, s1) \<Rightarrow>
          (let sl1 = sl\<lparr>sl_length := apt_size_value_parse buf\<rparr> in
           case apt_text_field_read s1 sp True of
             (False, _, _, _) \<Rightarrow> (False, sl1)
           | (True, field2, buf2, s2) \<Rightarrow>
               (let sl2 = sl1\<lparr>sl_request_id := mrcp_request_id_parse buf2\<rparr> in
                if sl_request_id sl2 = 0 \<and> hd field2 \<noteq> CHR ''0'' then
                  let sl3 = sl2\<lparr>sl_message_type := MRCP_MESSAGE_TYPE_REQUEST, sl_method_name := field2\<rparr> in
                  case apt_text_field_read s2 sp True of
                    (False, _, _, _) \<Rightarrow> (False, sl3)
                  | (True, _, buf3, s3) \<Rightarrow>
                      (let sl4 = sl3\<lparr>sl_request_id := mrcp_request_id_parse buf3\<rparr> in
                       case apt_text_field_read s3 sp True of
                         (True, field4, _, _) \<Rightarrow>
                           (True, sl4\<lparr>sl_request_state := mrcp_request_state_parse field4,
                                      sl_message_type := MRCP_MESSAGE_TYPE_EVENT\<rparr>)
                       | (False, _, _, _) \<Rightarrow> (True, sl4))
                else
                  mrcp_response_tail_parse (sl2\<lparr>sl_message_type := MRCP_MESSAGE_TYPE_RESPONSE\<rparr>) s2)))"

text \<open>The first field is the protocol version when the line starts with the protocol name.\<close>

definition mrcp_start_line_parse :: "mrcp_start_line \<Rightarrow> string \<Rightarrow> bool \<times> mrcp_start_line" where
  "mrcp_start_line_parse sl0 str =
     (let sl = sl0\<lparr>sl_message_type := MRCP_MESSAGE_TYPE_UNKNOWN\<rparr> in
      case apt_text_field_read (apt_text_stream_of str) sp True of
        (False, _, _, _) \<Rightarrow> (False, sl)
      | (True, field, buf, line) \<Rightarrow>
          if take (length MRCP_NAME) buf = MRCP_NAME then
            let sl1 = sl\<lparr>sl_version := mrcp_version_parse field buf\<rparr> in
            if sl_version sl1 = MRCP_VERSION_1 then
              mrcp_response_line_parse (sl1\<lparr>sl_message_type := MRCP_MESSAGE_TYPE_RESPONSE\<rparr>) line
            else if sl_version sl1 = MRCP_VERSION_2 then mrcp_v2_start_line_parse sl1 line
            else (False, sl1)
          else mrcp_request_line_parse (sl\<lparr>sl_method_name := field\<rparr>) line)"

section \<open>Generation\<close>

definition mrcp_version_generate :: "mrcp_version \<Rightarrow> out_stream \<Rightarrow> (bool \<times> out_stream) option" where
  "mrcp_version_generate v s =
     (if os_size s \<le> length (os_text s) + length MRCP_NAME + 1 then Some (False, s)
      else do {
        (ok, s1) \<leftarrow> apt_text_size_value_insert (os_write (MRCP_NAME @ [CHR ''/'']) s) (version_number v);
        if \<not> ok then Some (False, s1)
        else if os_size s1 \<le> length (os_text s1) + 2 then Some (False, s1)
        else Some (True, os_write [CHR ''.'', CHR ''0''] s1)
      })"

definition mrcp_request_state_generate :: "mrcp_request_state \<Rightarrow> out_stream \<Rightarrow> out_stream option" where
  "mrcp_request_state_generate st s =
     (case apt_string_table_str_get mrcp_request_state_string_table (request_state_index st) of
        Some name \<Rightarrow> os_put name s
      | None \<Rightarrow> Some s)"

definition mrcp_status_code_generate :: "nat \<Rightarrow> out_stream \<Rightarrow> (bool \<times> out_stream) option" where
  "mrcp_status_code_generate c s = apt_text_size_value_insert s c"

text \<open>The format is \<open>%d\<close>: the 32-bit identifier is printed as a signed number.\<close>

definition mrcp_request_id_generate :: "u32 \<Rightarrow> out_stream \<Rightarrow> (bool \<times> out_stream) option" where
  "mrcp_request_id_generate i s = os_snprintf (show_int (sint i)) s"

definition mrcp_request_line_generate :: "mrcp_start_line \<Rightarrow> out_stream \<Rightarrow> out_stream option" where
  "mrcp_request_line_generate sl s0 = do {
     s1 \<leftarrow> os_put (sl_method_name sl) s0;
     s2 \<leftarrow> os_put [sp] s1;
     (_, s3) \<leftarrow> mrcp_request_id_generate (sl_request_id sl) s2;
     s4 \<leftarrow> os_put [sp] s3;
     s5 \<leftarrow> (if sl_message_type sl = MRCP_MESSAGE_TYPE_REQUEST then
              if sl_status_code sl \<noteq> MRCP_STATUS_CODE_UNKNOWN then do {
                (_, t) \<leftarrow> mrcp_status_code_generate (sl_status_code sl) s4;
                os_put [sp] t
              } else Some s4
            else if sl_message_type sl = MRCP_MESSAGE_TYPE_EVENT then do {
              t \<leftarrow> mrcp_request_state_generate (sl_request_state sl) s4;
              os_put [sp] t
            } else Some s4);
     (_, s6) \<leftarrow> mrcp_version_generate (sl_version sl) s5;
     Some s6
   }"

definition mrcp_response_line_generate :: "mrcp_start_line \<Rightarrow> out_stream \<Rightarrow> out_stream option" where
  "mrcp_response_line_generate sl s0 = do {
     (_, s1) \<leftarrow> mrcp_version_generate (sl_version sl) s0;
     s2 \<leftarrow> os_put [sp] s1;
     (_, s3) \<leftarrow> mrcp_request_id_generate (sl_request_id sl) s2;
     s4 \<leftarrow> os_put [sp] s3;
     (_, s5) \<leftarrow> mrcp_status_code_generate (sl_status_code sl) s4;
     s6 \<leftarrow> os_put [sp] s5;
     mrcp_request_state_generate (sl_request_state sl) s6
   }"

text \<open>\<open>length\<close> keeps the offset of the place reserved for the message length.\<close>

definition mrcp_v2_start_line_generate ::
  "mrcp_start_line \<Rightarrow> out_stream \<Rightarrow> (mrcp_start_line \<times> out_stream) option" where
  "mrcp_v2_start_line_generate sl0 s0 = do {
     (_, s1) \<leftarrow> mrcp_version_generate (sl_version sl0) s0;
     s2 \<leftarrow> os_put [sp] s1;
     let sl = sl0\<lparr>sl_length := length (os_text s2) - length (os_text s0)\<rparr>;
     s3 \<leftarrow> os_put (replicate (MAX_DIGIT_COUNT + 1) sp) s2;
     if sl_message_type sl = MRCP_MESSAGE_TYPE_RESPONSE then do {
       (_, s4) \<leftarrow> mrcp_request_id_generate (sl_request_id sl) s3;
       s5 \<leftarrow> os_put [sp] s4;
       (_, s6) \<leftarrow> mrcp_status_code_generate (sl_status_code sl) s5;
       s7 \<leftarrow> os_put [sp] s6;
       s8 \<leftarrow> mrcp_request_state_generate (sl_request_state sl) s7;
       Some (sl, s8)
     } else do {
       s4 \<leftarrow> os_put (sl_method_name sl) s3;
       s5 \<leftarrow> os_put [sp] s4;
       (_, s6) \<leftarrow> mrcp_request_id_generate (sl_request_id sl) s5;
       if sl_message_type sl = MRCP_MESSAGE_TYPE_EVENT then do {
         s7 \<leftarrow> os_put [sp] s6;
         s8 \<leftarrow> mrcp_request_state_generate (sl_request_state sl) s7;
         Some (sl, s8)
       } else Some (sl, s6)
     }
   }"

definition mrcp_start_line_generate ::
  "mrcp_start_line \<Rightarrow> out_stream \<Rightarrow> (bool \<times> mrcp_start_line \<times> out_stream) option" where
  "mrcp_start_line_generate sl s = do {
     (status, sl1, s1) \<leftarrow>
       (if sl_version sl = MRCP_VERSION_1 then
          (case sl_message_type sl of
             MRCP_MESSAGE_TYPE_REQUEST \<Rightarrow>
               do { t \<leftarrow> mrcp_request_line_generate sl s; Some (True, sl, t) }
           | MRCP_MESSAGE_TYPE_RESPONSE \<Rightarrow>
               do { t \<leftarrow> mrcp_response_line_generate sl s; Some (True, sl, t) }
           | MRCP_MESSAGE_TYPE_EVENT \<Rightarrow>
               do { t \<leftarrow> mrcp_request_line_generate sl s; Some (True, sl, t) }
           | MRCP_MESSAGE_TYPE_UNKNOWN \<Rightarrow> Some (False, sl, s))
        else if sl_version sl = MRCP_VERSION_2 then
          do { (sl', t) \<leftarrow> mrcp_v2_start_line_generate sl s; Some (True, sl', t) }
        else Some (False, sl, s));
     if \<not> status then Some (False, sl1, s1)
     else let (ok, s2) = apt_text_eol_insert s1 in Some (ok, sl1, s2)
   }"

text \<open>Writing over bytes that are already in the buffer.\<close>

definition overwrite :: "nat \<Rightarrow> string \<Rightarrow> string \<Rightarrow> string" where
  "overwrite i bs text = take i text @ bs @ drop (i + length bs) text"

text \<open>
  Completing a version 2 line: the number goes to the reserved place, a space after it, and
  the bytes before it move up against the rest; the text then starts as many bytes later.
\<close>

definition mrcp_start_line_finalize ::
  "mrcp_start_line \<Rightarrow> nat \<Rightarrow> out_stream \<Rightarrow> bool \<times> mrcp_start_line \<times> out_stream" where
  "mrcp_start_line_finalize sl content_length s =
     (let len = length (os_text s) + content_length in
      if sl_version sl = MRCP_VERSION_2 then
        (case apt_var_length_value_generate (size_t (int len - int MAX_DIGIT_COUNT)) MAX_DIGIT_COUNT of
           (_, _, None) \<Rightarrow> (False, sl, s)
         | (_, v, Some digits) \<Rightarrow>
             (let text1 = overwrite (sl_length sl) (digits @ [sp]) (os_text s);
                  offset = sl_length sl + length digits;
                  n = MAX_DIGIT_COUNT - length digits;
                  s1 = (if n \<noteq> 0
                        then s\<lparr>os_text := drop n (overwrite n (take offset text1) text1),
                               os_size := os_size s - n\<rparr>
                        else s\<lparr>os_text := text1\<rparr>)
              in (True, sl\<lparr>sl_length := v\<rparr>, s1)))
      else (True, sl\<lparr>sl_length := len\<rparr>, s))"

section \<open>Fields that were printed are read back\<close>

lemma request_state_roundtrip:
  "st \<noteq> MRCP_REQUEST_STATE_UNKNOWN \<Longrightarrow>
    mrcp_request_state_parse (st_value (mrcp_request_state_string_table ! request_state_index st)) = st"
proof -
  have "table_wf mrcp_request_state_string_table"
    by (simp add: table_wf_def mrcp_request_state_string_table_def nul_def tolower_def)
  then show "st \<noteq> MRCP_REQUEST_STATE_UNKNOWN \<Longrightarrow> ?thesis"
    using id_find_name[of mrcp_request_state_string_table "request_state_index st"]
    by (cases st) (simp_all add: mrcp_request_state_parse_def request_state_of_index_def
        mrcp_request_state_string_table_def)
qed

text \<open>The identifiers that survive printing are those below \<open>2 ^ 31\<close>.\<close>

lemma sint_small:
  assumes "(i :: u32) < 2 ^ 31"
  shows "sint i = int (unat i)"
proof -
  have "uint i < 2 ^ 31" using assms by (simp add: word_less_def)
  moreover have "- (2 ^ 31) \<le> uint i" by (rule order.trans[of _ 0]) simp_all
  ultimately have "signed_take_bit 31 (uint i) = uint i" by (rule signed_take_bit_int_eq_self[rotated])
  then show ?thesis by (simp add: sint_uint)
qed

lemma unat_small: "(i :: u32) < 2 ^ 31 \<Longrightarrow> unat i < 2 ^ 31"
  by (simp add: word_less_nat_alt)

lemma show_request_id: "(i :: u32) < 2 ^ 31 \<Longrightarrow> show_int (sint i) = show_nat (unat i)"
  by (simp add: sint_small show_int_def)

lemma show_nat_no_sep [simp]: "sp \<notin> set (show_nat n)" "cr \<notin> set (show_nat n)" "lf \<notin> set (show_nat n)"
  using show_nat_digits[of _ n] by (auto simp: is_digit_def sp_def cr_def lf_def dest!: show_nat_digits)

lemma not_digit_sp [simp]: "\<not> is_digit sp"
  by (simp add: is_digit_def sp_def)

lemma request_id_parse_show:
  assumes "i < 2 ^ 31" "rest = [] \<or> hd rest = sp"
  shows "mrcp_request_id_parse (show_nat (unat i) @ rest) = i"
proof -
  have "unat i < 2 ^ 63" using unat_small[OF assms(1)] by simp
  then have "atol (show_nat (unat i) @ rest) = int (unat i)"
    using assms(2) by (intro atol_show_nat_append) auto
  then show ?thesis by (simp add: mrcp_request_id_parse_def)
qed

lemma size_value_parse_show:
  assumes "n < 2 ^ 63" "rest = [] \<or> hd rest = sp"
  shows "apt_size_value_parse (show_nat n @ rest) = n"
proof -
  have "atol (show_nat n @ rest) = int n" using assms by (intro atol_show_nat_append) auto
  then show ?thesis using assms(1) by (simp add: apt_size_value_parse_def)
qed

lemma status_code_parse_show:
  assumes "c < 2 ^ 32" "rest = [] \<or> hd rest = sp"
  shows "mrcp_status_code_parse (show_nat c @ rest) = c"
  using size_value_parse_show[of c rest] assms by (simp add: mrcp_status_code_parse_def)

definition version_text :: "mrcp_version \<Rightarrow> string" where
  "version_text v = ''MRCP/'' @ show_nat (version_number v) @ ''.0''"

definition state_text :: "mrcp_request_state \<Rightarrow> string" where
  "state_text st = st_value (mrcp_request_state_string_table ! request_state_index st)"

lemma version_text_eval [simp]:
  "version_text MRCP_VERSION_1 = ''MRCP/1.0''" "version_text MRCP_VERSION_2 = ''MRCP/2.0''"
  by code_simp+

lemma state_text_eval [simp]:
  "state_text MRCP_REQUEST_STATE_COMPLETE = ''COMPLETE''"
  "state_text MRCP_REQUEST_STATE_INPROGRESS = ''IN-PROGRESS''"
  "state_text MRCP_REQUEST_STATE_PENDING = ''PENDING''"
  by (simp_all add: state_text_def mrcp_request_state_string_table_def)

lemma state_text_parse [simp]:
  "st \<noteq> MRCP_REQUEST_STATE_UNKNOWN \<Longrightarrow> mrcp_request_state_parse (state_text st) = st"
  unfolding state_text_def by (rule request_state_roundtrip)

lemma state_text_facts:
  "st \<noteq> MRCP_REQUEST_STATE_UNKNOWN \<Longrightarrow>
    state_text st \<noteq> [] \<and> sp \<notin> set (state_text st) \<and> length (state_text st) \<le> 11"
  by (cases st) (simp_all add: sp_def)

lemma version_parse_text [simp]:
  "v \<noteq> MRCP_VERSION_UNKNOWN \<Longrightarrow> mrcp_version_parse (version_text v) (version_text v @ rest) = v"
  by (cases v) (simp_all add: mrcp_version_parse_def MRCP_NAME_def eval_nat_numeral)

lemma version_text_facts:
  "v \<noteq> MRCP_VERSION_UNKNOWN \<Longrightarrow>
    version_text v \<noteq> [] \<and> sp \<notin> set (version_text v) \<and> length (version_text v) = 8"
  by (cases v) (simp_all add: sp_def)

lemma version_not_state [simp]:
  "v \<noteq> MRCP_VERSION_UNKNOWN \<Longrightarrow>
    mrcp_request_state_parse (version_text v) = MRCP_REQUEST_STATE_UNKNOWN"
  by (cases v) (simp_all add: mrcp_request_state_parse_def apt_string_table_id_find_def
      mrcp_request_state_string_table_def str_table_item_match_def request_state_of_index_def tolower_def)

section \<open>The text of a start line\<close>

text \<open>
  Start lines whose text determines them: the protocol version is known, the request state is
  one of the three where the line has one, a request or an event has a method name without a
  space, and the numbers fit their formats. \<open>n\<close> is the text of the message length.
\<close>

definition method_name_ok :: "string \<Rightarrow> bool" where
  "method_name_ok m \<longleftrightarrow> m \<noteq> [] \<and> sp \<notin> set m \<and> take 4 m \<noteq> MRCP_NAME
     \<and> \<not> is_digit (hd m) \<and> \<not> is_space (hd m) \<and> hd m \<noteq> CHR ''-'' \<and> hd m \<noteq> CHR ''+''"

definition start_line_ok :: "mrcp_start_line \<Rightarrow> bool" where
  "start_line_ok sl \<longleftrightarrow> sl_version sl \<noteq> MRCP_VERSION_UNKNOWN \<and> sl_request_id sl < 2 ^ 31
     \<and> (case sl_message_type sl of
          MRCP_MESSAGE_TYPE_UNKNOWN \<Rightarrow> False
        | MRCP_MESSAGE_TYPE_REQUEST \<Rightarrow>
            method_name_ok (sl_method_name sl) \<and> sl_status_code sl = MRCP_STATUS_CODE_UNKNOWN
        | MRCP_MESSAGE_TYPE_RESPONSE \<Rightarrow>
            sl_request_state sl \<noteq> MRCP_REQUEST_STATE_UNKNOWN \<and> sl_status_code sl < 2 ^ 32
        | MRCP_MESSAGE_TYPE_EVENT \<Rightarrow>
            method_name_ok (sl_method_name sl) \<and> sl_request_state sl \<noteq> MRCP_REQUEST_STATE_UNKNOWN)"

fun join_sp :: "string list \<Rightarrow> string" where
  "join_sp [] = []"
| "join_sp [f] = f"
| "join_sp (f # fs) = f @ sp # join_sp fs"

definition start_line_fields :: "string \<Rightarrow> mrcp_start_line \<Rightarrow> string list" where
  "start_line_fields n sl =
     (let i = show_nat (unat (sl_request_id sl)) in
      if sl_version sl = MRCP_VERSION_1 then
        (case sl_message_type sl of
           MRCP_MESSAGE_TYPE_REQUEST \<Rightarrow> [sl_method_name sl, i, version_text MRCP_VERSION_1]
         | MRCP_MESSAGE_TYPE_EVENT \<Rightarrow>
             [sl_method_name sl, i, state_text (sl_request_state sl), version_text MRCP_VERSION_1]
         | _ \<Rightarrow> [version_text MRCP_VERSION_1, i, show_nat (sl_status_code sl), state_text (sl_request_state sl)])
      else
        (case sl_message_type sl of
           MRCP_MESSAGE_TYPE_REQUEST \<Rightarrow> [version_text MRCP_VERSION_2, n, sl_method_name sl, i]
         | MRCP_MESSAGE_TYPE_EVENT \<Rightarrow>
             [version_text MRCP_VERSION_2, n, sl_method_name sl, i, state_text (sl_request_state sl)]
         | _ \<Rightarrow> [version_text MRCP_VERSION_2, n, i, show_nat (sl_status_code sl),
                 state_text (sl_request_state sl)]))"

lemma version_generate_ok:
  assumes "v \<noteq> MRCP_VERSION_UNKNOWN" "length (os_text s) + 8 < os_size s"
  shows "mrcp_version_generate v s = Some (True, os_write (version_text v) s)"
proof -
  have one: "length (show_nat (version_number v)) = 1"
    using assms(1) by (cases v) (simp_all add: show_nat.simps)
  show ?thesis using assms(2) one
    by (simp add: mrcp_version_generate_def MRCP_NAME_def size_value_insert_ok version_text_def)
qed

lemma state_generate_ok:
  assumes "st \<noteq> MRCP_REQUEST_STATE_UNKNOWN" "length (os_text s) + 11 \<le> os_size s"
  shows "mrcp_request_state_generate st s = Some (os_write (state_text st) s)"
  using assms(2) state_text_facts[OF assms(1)] assms(1) os_put_ok[of s "state_text st"]
  by (cases st) (simp_all add: mrcp_request_state_generate_def apt_string_table_str_get_def
      mrcp_request_state_string_table_def state_text_def)

lemma length_show_u32: "length (show_nat (unat (i :: u32))) \<le> 10"
proof -
  have "unat i < 10 ^ 10" using unsigned_less[of i, where 'a = nat] by simp
  then show ?thesis using length_show_nat_le[of 10 "unat i"] by simp
qed

lemma request_id_generate_ok:
  assumes "i < 2 ^ 31" "length (os_text s) + 10 < os_size s"
  shows "mrcp_request_id_generate i s = Some (True, os_write (show_nat (unat i)) s)"
  using assms length_show_u32[of i]
  by (simp add: mrcp_request_id_generate_def show_request_id os_snprintf_ok)

lemma status_code_generate_ok:
  assumes "c < 2 ^ 32" "length (os_text s) + 10 < os_size s"
  shows "mrcp_status_code_generate c s = Some (True, os_write (show_nat c) s)"
proof -
  have "c < 10 ^ 10" using assms(1) by simp
  then have "length (show_nat c) \<le> 10" using length_show_nat_le[of 10 c] by simp
  then show ?thesis using assms(2) by (simp add: mrcp_status_code_generate_def size_value_insert_ok)
qed

lemma status_len: "c < 2 ^ 32 \<Longrightarrow> length (show_nat c) \<le> 10"
  using length_show_nat_le[of 10 c] by simp

text \<open>
  What \<open>mrcp_start_line_generate\<close> writes. In version 2 the message length is seven spaces,
  and \<open>length\<close> is the offset of these.
\<close>

lemmas generate_steps = version_generate_ok state_generate_ok request_id_generate_ok
  status_code_generate_ok os_put_ok

definition start_line_room :: "mrcp_start_line \<Rightarrow> out_stream \<Rightarrow> bool" where
  "start_line_room sl s \<longleftrightarrow> length (os_text s) + length (sl_method_name sl) + 64 < os_size s"

lemma start_line_generate_v1:
  assumes ok: "start_line_ok sl" and v: "sl_version sl = MRCP_VERSION_1" and room: "start_line_room sl s"
  shows "mrcp_start_line_generate sl s
    = Some (True, sl, os_write (join_sp (start_line_fields [] sl) @ [cr, lf]) s)"
proof -
  note len = length_show_u32[of "sl_request_id sl"] version_text_facts[of MRCP_VERSION_1]
    state_text_facts[of "sl_request_state sl"] status_len[of "sl_status_code sl"]
  show ?thesis
    using ok room v len
    by (cases "sl_message_type sl")
      (simp_all add: mrcp_start_line_generate_def mrcp_request_line_generate_def
        mrcp_response_line_generate_def start_line_ok_def start_line_room_def start_line_fields_def
        generate_steps apt_text_eol_insert_def Let_def)
qed

lemma start_line_generate_v2:
  assumes ok: "start_line_ok sl" and v: "sl_version sl = MRCP_VERSION_2" and room: "start_line_room sl s"
  shows "mrcp_start_line_generate sl s
    = Some (True, sl\<lparr>sl_length := 9\<rparr>,
        os_write (version_text MRCP_VERSION_2 @ sp # replicate 7 sp
          @ join_sp (drop 2 (start_line_fields [] sl)) @ [cr, lf]) s)"
proof -
  note len = length_show_u32[of "sl_request_id sl"] version_text_facts[of MRCP_VERSION_2]
    state_text_facts[of "sl_request_state sl"] status_len[of "sl_status_code sl"]
  show ?thesis
    using ok room v len
    by (cases "sl_message_type sl")
      (simp_all add: mrcp_start_line_generate_def mrcp_v2_start_line_generate_def MAX_DIGIT_COUNT_def
        start_line_ok_def start_line_room_def start_line_fields_def
        generate_steps apt_text_eol_insert_def Let_def)
qed

lemma overwrite_at: "length bs = length b \<Longrightarrow> overwrite (length a) bs (a @ b @ c) = a @ bs @ c"
  by (simp add: overwrite_def)

lemma drop_overwrite: "n \<le> length t \<Longrightarrow> drop n (overwrite n bs t) = bs @ drop (n + length bs) t"
  by (simp add: overwrite_def)

lemma seven_digits: "999984 + (7 + j) < (10::nat) ^ (6 + j)"
proof (induction j)
  case 0
  then show ?case by simp
next
  case (Suc j)
  have "(10::nat) ^ (6 + Suc j) = 10 * 10 ^ (6 + j)" by (simp only: add_Suc_right power_Suc)
  with Suc show ?case by linarith
qed

text \<open>
  The length written is the length of the whole message, its own digits included.
\<close>

lemma finalize_v2:
  assumes v: "sl_version sl = MRCP_VERSION_2" and off: "sl_length sl = length p"
    and tx: "os_text s = p @ replicate 7 sp @ rest" and size: "length (os_text s) + c < 999990"
    and fits: "length (os_text s) \<le> os_size s"
  shows "\<exists>l s'. mrcp_start_line_finalize sl c s = (True, sl\<lparr>sl_length := l\<rparr>, s')
    \<and> os_text s' = p @ show_nat l @ sp # rest \<and> l = length (os_text s') + c
    \<and> os_size s = os_size s' + (6 - length (show_nat l)) \<and> length (show_nat l) \<le> 6"
proof -
  let ?len = "length (os_text s) + c" and ?m = MAX_DIGIT_COUNT
  have ge: "6 \<le> ?len" using tx by simp
  have sz: "size_t (int ?len - int ?m) = ?len - 6"
  proof -
    have "int ?len - int ?m = int (?len - 6)" using ge by (simp add: MAX_DIGIT_COUNT_def of_nat_diff)
    moreover have "?len - 6 < 2 ^ 64" using size by simp
    ultimately show ?thesis by (simp only: size_t_id)
  qed
  define l where "l = fst (snd (apt_var_length_value_generate (?len - 6) ?m))"
  have small: "?len - 6 < 10 ^ 19" using size by simp
  note spec = var_length_spec[OF small, of ?m]
  have lval: "l = ?len - 6 + length (show_nat l)" by (rule spec[THEN conjunct2, folded l_def])
  define k where "k = length (show_nat l)"
  have k6: "k \<le> 6"
  proof (rule ccontr)
    assume "\<not> k \<le> 6"
    then obtain j where j: "k = 7 + j" using le_Suc_ex[of 7 k] by auto
    have "\<not> l < 10 ^ (6 + j)" using length_show_nat_le[of "6 + j" l] j by (simp add: k_def)
    then show False using lval j size seven_digits[of j] by (simp add: k_def)
  qed
  have gen: "apt_var_length_value_generate (?len - 6) ?m = (True, l, Some (show_nat l))"
    using k6 by (subst spec[THEN conjunct1, unfolded Let_def, folded l_def]) (simp add: k_def MAX_DIGIT_COUNT_def)
  have seven: "replicate 7 sp = replicate (k + 1) sp @ replicate (6 - k) sp"
  proof -
    have "7 = (k + 1) + (6 - k)" using k6 by linarith
    then show ?thesis by (metis replicate_add)
  qed
  let ?t1 = "p @ show_nat l @ sp # replicate (6 - k) sp @ rest"
  have t1: "overwrite (length p) (show_nat l @ [sp]) (os_text s) = ?t1"
    using overwrite_at[of "show_nat l @ [sp]" "replicate (k + 1) sp" p "replicate (6 - k) sp @ rest"]
    by (simp add: tx seven k_def)
  have pre: "take (length p + k) ?t1 = p @ show_nat l" by (simp add: k_def)
  have t2: "drop (6 - k) (overwrite (6 - k) (p @ show_nat l) ?t1) = p @ show_nat l @ sp # rest"
  proof -
    have rep: "sp # replicate (6 - k) sp = replicate (6 - k) sp @ [sp]"
      by (rule replicate_app_Cons_same[of _ _ "[]", simplified, symmetric])
    have "drop (6 - k + length (p @ show_nat l)) ?t1 = drop (6 - k) (drop (length (p @ show_nat l)) ?t1)"
      by (simp only: drop_drop)
    also have "\<dots> = drop (6 - k) (replicate (6 - k) sp @ sp # rest)"
      using rep by (simp add: replicate_app_Cons_same)
    also have "\<dots> = sp # rest" by simp
    finally have tail: "drop (6 - k + length (p @ show_nat l)) ?t1 = sp # rest" .
    have "6 - k \<le> length ?t1" by simp
    then show ?thesis by (simp only: drop_overwrite tail append_assoc)
  qed
  have tot: "l = length (p @ show_nat l @ sp # rest) + c"
    using lval by (simp add: tx k_def)
  have fin: "mrcp_start_line_finalize sl c s = (True, sl\<lparr>sl_length := l\<rparr>,
      if 6 - k \<noteq> 0
      then s\<lparr>os_text := drop (6 - k) (overwrite (6 - k) (take (length p + k) ?t1) ?t1), os_size := os_size s - (6 - k)\<rparr>
      else s\<lparr>os_text := ?t1\<rparr>)"
    unfolding mrcp_start_line_finalize_def Let_def v sz gen off
    by (simp only: refl if_True prod.case option.case t1 k_def[symmetric] MAX_DIGIT_COUNT_def)
  have size6: "6 - k \<le> os_size s" using fits tx by simp
  show ?thesis
  proof (cases "k = 6")
    case True
    then show ?thesis unfolding fin using tot k6 by (simp add: k_def)
  next
    case False
    then have n: "6 - k \<noteq> 0" using k6 by simp
    show ?thesis unfolding fin pre t2 if_P[OF n] using tot size6 k6 by (simp add: k_def)
  qed
qed

section \<open>Parsing what was generated\<close>

text \<open>The fields a parser takes from a line, one after the other.\<close>

definition sp_field :: "string \<Rightarrow> bool" where
  "sp_field f \<longleftrightarrow> f \<noteq> [] \<and> sp \<notin> set f"

lemma read_join_more:
  assumes "ts_rest s = join_sp (f # g # fs)" "sp_field f"
  shows "\<exists>s'. apt_text_field_read s sp True = (True, f, f @ sp # join_sp (g # fs), s')
    \<and> ts_rest s' = join_sp (g # fs)"
  using field_read_sp[of s f "join_sp (g # fs)"] assms by (simp add: sp_field_def)

lemma read_join_last:
  assumes "ts_rest s = join_sp [f]" "sp_field f"
  shows "\<exists>s'. apt_text_field_read s sp True = (True, f, f, s') \<and> ts_rest s' = []"
  using field_read_last[of s f] assms by (simp add: sp_field_def)

lemma sp_field_show [simp]: "sp_field (show_nat n)"
  by (simp add: sp_field_def)

lemma sp_field_version: "v \<noteq> MRCP_VERSION_UNKNOWN \<Longrightarrow> sp_field (version_text v)"
  using version_text_facts by (simp add: sp_field_def)

lemma sp_field_state: "st \<noteq> MRCP_REQUEST_STATE_UNKNOWN \<Longrightarrow> sp_field (state_text st)"
  using state_text_facts by (simp add: sp_field_def)

lemma sp_field_method: "method_name_ok m \<Longrightarrow> sp_field m"
  by (simp add: sp_field_def method_name_ok_def)

text \<open>A method name is not taken for a request-id.\<close>

lemma atol_method:
  assumes "method_name_ok m"
  shows "atol (m @ rest) = 0"
  using assms by (cases m) (auto simp: atol_def method_name_ok_def clamp_long_def)

lemma request_id_method: "method_name_ok m \<Longrightarrow> mrcp_request_id_parse (m @ rest) = 0"
  by (simp add: mrcp_request_id_parse_def atol_method)

lemma method_not_zero: "method_name_ok m \<Longrightarrow> hd m \<noteq> CHR ''0''"
  by (auto simp: method_name_ok_def is_digit_def)

lemma MRCP_NAME_length: "length MRCP_NAME = 4"
  by (simp add: MRCP_NAME_def)

lemma method_not_name:
  assumes "method_name_ok m"
  shows "take (length MRCP_NAME) (m @ sp # rest) \<noteq> MRCP_NAME"
proof (cases "4 \<le> length m")
  case True
  then show ?thesis using assms by (simp add: MRCP_NAME_length method_name_ok_def)
next
  case False
  then obtain d where "4 - length m = Suc d" by (cases "4 - length m") auto
  then have "sp \<in> set (take (length MRCP_NAME) (m @ sp # rest))" by (simp add: MRCP_NAME_length)
  moreover have "sp \<notin> set MRCP_NAME" by (simp add: MRCP_NAME_def sp_def)
  ultimately show ?thesis by metis
qed

lemma response_tail_join:
  assumes "ts_rest s = join_sp [show_nat c, state_text st]" "c < 2 ^ 32" "st \<noteq> MRCP_REQUEST_STATE_UNKNOWN"
  shows "mrcp_response_tail_parse sl s = (True, sl\<lparr>sl_status_code := c, sl_request_state := st\<rparr>)"
proof -
  obtain s1 where r1: "apt_text_field_read s sp True = (True, show_nat c, show_nat c @ sp # state_text st, s1)"
    "ts_rest s1 = join_sp [state_text st]"
    using read_join_more[of s "show_nat c" "state_text st" "[]"] assms(1) by auto
  obtain s2 where r2: "apt_text_field_read s1 sp True = (True, state_text st, state_text st, s2)"
    using read_join_last[OF r1(2) sp_field_state[OF assms(3)]] by auto
  show ?thesis using assms by (simp add: mrcp_response_tail_parse_def r1(1) r2 status_code_parse_show)
qed

text \<open>The start line a parser returns: what the text determines, the rest as it was.\<close>

definition parsed_line :: "nat \<Rightarrow> mrcp_start_line \<Rightarrow> mrcp_start_line \<Rightarrow> mrcp_start_line" where
  "parsed_line l sl sl0 =
     (let v2 = (sl_version sl = MRCP_VERSION_2); resp = (sl_message_type sl = MRCP_MESSAGE_TYPE_RESPONSE);
          req = (sl_message_type sl = MRCP_MESSAGE_TYPE_REQUEST)
      in sl0\<lparr>sl_message_type := sl_message_type sl, sl_version := sl_version sl,
             sl_length := (if v2 then l else if resp then 0 else sl_length sl0),
             sl_request_id := sl_request_id sl,
             sl_method_name := (if resp then sl_method_name sl0 else sl_method_name sl),
             sl_status_code := (if resp then sl_status_code sl else sl_status_code sl0),
             sl_request_state := (if req then (if v2 then sl_request_state sl0 else MRCP_REQUEST_STATE_UNKNOWN)
                                  else sl_request_state sl)\<rparr>)"

lemma parse_v1_request:
  assumes ok: "start_line_ok sl" and v: "sl_version sl = MRCP_VERSION_1"
    and t: "sl_message_type sl = MRCP_MESSAGE_TYPE_REQUEST"
  shows "mrcp_start_line_parse sl0 (join_sp (start_line_fields n sl)) = (True, parsed_line l sl sl0)"
proof -
  let ?m = "sl_method_name sl" and ?i = "show_nat (unat (sl_request_id sl))" and ?v = "version_text MRCP_VERSION_1"
  have m: "method_name_ok ?m" and i: "sl_request_id sl < 2 ^ 31" using ok t by (simp_all add: start_line_ok_def)
  have f: "start_line_fields n sl = [?m, ?i, ?v]" by (simp add: start_line_fields_def v t)
  obtain s1 where r1: "apt_text_field_read (apt_text_stream_of (join_sp [?m, ?i, ?v])) sp True
      = (True, ?m, ?m @ sp # join_sp [?i, ?v], s1)" "ts_rest s1 = join_sp [?i, ?v]"
    using read_join_more[of "apt_text_stream_of (join_sp [?m, ?i, ?v])" ?m ?i "[?v]"] sp_field_method[OF m]
    by (auto simp: apt_text_stream_of_def simp del: version_text_eval)
  obtain s2 where r2: "apt_text_field_read s1 sp True = (True, ?i, ?i @ sp # join_sp [?v], s2)"
      "ts_rest s2 = join_sp [?v]"
    using read_join_more[OF r1(2)] by auto
  obtain s3 where r3: "apt_text_field_read s2 sp True = (True, ?v, ?v, s3)"
    using read_join_last[OF r2(2) sp_field_version] by auto
  show ?thesis
    unfolding f mrcp_start_line_parse_def Let_def r1(1) prod.case bool.case
      if_not_P[OF method_not_name[OF m]] mrcp_request_line_parse_def r2(1) r3
    using version_parse_text[of MRCP_VERSION_1 "[]"] request_id_parse_show[OF i, of "sp # join_sp [?v]"]
    by (simp add: parsed_line_def v t Let_def del: version_text_eval)
qed

lemma parse_v1_event:
  assumes ok: "start_line_ok sl" and v: "sl_version sl = MRCP_VERSION_1"
    and t: "sl_message_type sl = MRCP_MESSAGE_TYPE_EVENT"
  shows "mrcp_start_line_parse sl0 (join_sp (start_line_fields n sl)) = (True, parsed_line l sl sl0)"
proof -
  let ?m = "sl_method_name sl" and ?i = "show_nat (unat (sl_request_id sl))" and ?v = "version_text MRCP_VERSION_1"
    and ?s = "state_text (sl_request_state sl)"
  have m: "method_name_ok ?m" and i: "sl_request_id sl < 2 ^ 31"
    and st: "sl_request_state sl \<noteq> MRCP_REQUEST_STATE_UNKNOWN" using ok t by (simp_all add: start_line_ok_def)
  have f: "start_line_fields n sl = [?m, ?i, ?s, ?v]" by (simp add: start_line_fields_def v t)
  obtain s1 where r1: "apt_text_field_read (apt_text_stream_of (join_sp [?m, ?i, ?s, ?v])) sp True
      = (True, ?m, ?m @ sp # join_sp [?i, ?s, ?v], s1)" "ts_rest s1 = join_sp [?i, ?s, ?v]"
    using read_join_more[of "apt_text_stream_of (join_sp [?m, ?i, ?s, ?v])" ?m ?i "[?s, ?v]"] sp_field_method[OF m]
    by (auto simp: apt_text_stream_of_def simp del: version_text_eval)
  obtain s2 where r2: "apt_text_field_read s1 sp True = (True, ?i, ?i @ sp # join_sp [?s, ?v], s2)"
      "ts_rest s2 = join_sp [?s, ?v]"
    using read_join_more[OF r1(2)] by auto
  obtain s3 where r3: "apt_text_field_read s2 sp True = (True, ?s, ?s @ sp # join_sp [?v], s3)"
      "ts_rest s3 = join_sp [?v]"
    using read_join_more[OF r2(2) sp_field_state[OF st]] by auto
  obtain s4 where r4: "apt_text_field_read s3 sp True = (True, ?v, ?v, s4)"
    using read_join_last[OF r3(2) sp_field_version] by auto
  show ?thesis
    unfolding f mrcp_start_line_parse_def Let_def r1(1) prod.case bool.case
      if_not_P[OF method_not_name[OF m]] mrcp_request_line_parse_def r2(1) r3(1) r4
    using version_parse_text[of MRCP_VERSION_1 "[]"] request_id_parse_show[OF i, of "sp # join_sp [?s, ?v]"] st
    by (simp add: parsed_line_def v t Let_def del: version_text_eval)
qed

lemma read_first:
  assumes "sp_field f"
  shows "\<exists>s'. apt_text_field_read (apt_text_stream_of (join_sp (f # g # fs))) sp True
      = (True, f, f @ sp # join_sp (g # fs), s') \<and> ts_rest s' = join_sp (g # fs)"
  using read_join_more[of "apt_text_stream_of (join_sp (f # g # fs))" f g fs] assms
  by (simp add: apt_text_stream_of_def)

lemma name_prefix: "v \<noteq> MRCP_VERSION_UNKNOWN \<Longrightarrow> take (length MRCP_NAME) (version_text v @ rest) = MRCP_NAME"
  by (cases v) (simp_all add: MRCP_NAME_def)

lemma parse_v1_response:
  assumes ok: "start_line_ok sl" and v: "sl_version sl = MRCP_VERSION_1"
    and t: "sl_message_type sl = MRCP_MESSAGE_TYPE_RESPONSE"
  shows "mrcp_start_line_parse sl0 (join_sp (start_line_fields n sl)) = (True, parsed_line l sl sl0)"
proof -
  let ?i = "show_nat (unat (sl_request_id sl))" and ?v = "version_text MRCP_VERSION_1"
    and ?c = "show_nat (sl_status_code sl)" and ?s = "state_text (sl_request_state sl)"
  have i: "sl_request_id sl < 2 ^ 31" and st: "sl_request_state sl \<noteq> MRCP_REQUEST_STATE_UNKNOWN"
    and c: "sl_status_code sl < 2 ^ 32" using ok t by (simp_all add: start_line_ok_def)
  have f: "start_line_fields n sl = [?v, ?i, ?c, ?s]" by (simp add: start_line_fields_def v t)
  obtain s1 where r1: "apt_text_field_read (apt_text_stream_of (join_sp [?v, ?i, ?c, ?s])) sp True
      = (True, ?v, ?v @ sp # join_sp [?i, ?c, ?s], s1)" "ts_rest s1 = join_sp [?i, ?c, ?s]"
    using read_first[OF sp_field_version] by blast
  obtain s2 where r2: "apt_text_field_read s1 sp True = (True, ?i, ?i @ sp # join_sp [?c, ?s], s2)"
      "ts_rest s2 = join_sp [?c, ?s]"
    using read_join_more[OF r1(2)] by auto
  show ?thesis
    unfolding f mrcp_start_line_parse_def Let_def r1(1) prod.case bool.case
      if_P[OF name_prefix[of MRCP_VERSION_1, simplified version_text_eval, simplified]]
    using version_parse_text[of MRCP_VERSION_1] name_prefix[of MRCP_VERSION_1]
      request_id_parse_show[OF i, of "sp # join_sp [?c, ?s]"] response_tail_join[OF r2(2) c st]
    by (simp add: mrcp_response_line_parse_def r2(1) parsed_line_def v t Let_def del: version_text_eval)
qed

lemma parse_v2_head:
  assumes v: "sl_version sl = MRCP_VERSION_2" and l: "l < 2 ^ 63"
    and f: "start_line_fields (show_nat l) sl = version_text MRCP_VERSION_2 # show_nat l # g # fs"
  shows "\<exists>s. mrcp_start_line_parse sl0 (join_sp (start_line_fields (show_nat l) sl))
      = mrcp_v2_start_line_parse (sl0\<lparr>sl_message_type := MRCP_MESSAGE_TYPE_UNKNOWN, sl_version := MRCP_VERSION_2\<rparr>) s
    \<and> ts_rest s = join_sp (show_nat l # g # fs)"
proof -
  obtain s1 where r1: "apt_text_field_read (apt_text_stream_of (join_sp (start_line_fields (show_nat l) sl))) sp True
      = (True, version_text MRCP_VERSION_2, version_text MRCP_VERSION_2 @ sp # join_sp (show_nat l # g # fs), s1)"
      "ts_rest s1 = join_sp (show_nat l # g # fs)"
    unfolding f using read_first[OF sp_field_version] by blast
  have "mrcp_start_line_parse sl0 (join_sp (start_line_fields (show_nat l) sl))
      = mrcp_v2_start_line_parse (sl0\<lparr>sl_message_type := MRCP_MESSAGE_TYPE_UNKNOWN, sl_version := MRCP_VERSION_2\<rparr>) s1"
    unfolding mrcp_start_line_parse_def Let_def r1(1) prod.case bool.case
    using version_parse_text[of MRCP_VERSION_2] name_prefix[of MRCP_VERSION_2]
    by (simp del: version_text_eval)
  with r1(2) show ?thesis by blast
qed

lemma v2_read_length:
  assumes "ts_rest s = join_sp (show_nat l # g # fs)" "l < 2 ^ 63"
  shows "\<exists>b s'. apt_text_field_read s sp True = (True, show_nat l, b, s') \<and> apt_size_value_parse b = l
    \<and> ts_rest s' = join_sp (g # fs)"
  using read_join_more[OF assms(1)] size_value_parse_show[OF assms(2), of "sp # join_sp (g # fs)"] by auto

lemma parse_v2_response:
  assumes ok: "start_line_ok sl" and v: "sl_version sl = MRCP_VERSION_2" and l: "l < 2 ^ 63"
    and t: "sl_message_type sl = MRCP_MESSAGE_TYPE_RESPONSE"
  shows "mrcp_start_line_parse sl0 (join_sp (start_line_fields (show_nat l) sl)) = (True, parsed_line l sl sl0)"
proof -
  let ?i = "show_nat (unat (sl_request_id sl))"
    and ?c = "show_nat (sl_status_code sl)" and ?s = "state_text (sl_request_state sl)"
  have i: "sl_request_id sl < 2 ^ 31" and st: "sl_request_state sl \<noteq> MRCP_REQUEST_STATE_UNKNOWN"
    and c: "sl_status_code sl < 2 ^ 32" using ok t by (simp_all add: start_line_ok_def)
  have f: "start_line_fields (show_nat l) sl = [version_text MRCP_VERSION_2, show_nat l, ?i, ?c, ?s]"
    by (simp add: start_line_fields_def v t)
  obtain s where hd: "mrcp_start_line_parse sl0 (join_sp (start_line_fields (show_nat l) sl))
      = mrcp_v2_start_line_parse (sl0\<lparr>sl_message_type := MRCP_MESSAGE_TYPE_UNKNOWN, sl_version := MRCP_VERSION_2\<rparr>) s"
      "ts_rest s = join_sp [show_nat l, ?i, ?c, ?s]"
    using parse_v2_head[OF v l f] by blast
  obtain b s1 where r1: "apt_text_field_read s sp True = (True, show_nat l, b, s1)" "apt_size_value_parse b = l"
      "ts_rest s1 = join_sp [?i, ?c, ?s]"
    using v2_read_length[OF hd(2) l] by blast
  obtain s2 where r2: "apt_text_field_read s1 sp True = (True, ?i, ?i @ sp # join_sp [?c, ?s], s2)"
      "ts_rest s2 = join_sp [?c, ?s]"
    using read_join_more[OF r1(3)] by auto
  have id: "mrcp_request_id_parse (?i @ sp # join_sp [?c, ?s]) = sl_request_id sl"
    using request_id_parse_show[OF i, of "sp # join_sp [?c, ?s]"] by simp
  have zero: "sl_request_id sl = 0 \<Longrightarrow> hd ?i = CHR ''0''"
    by (simp add: show_nat.simps digit_char_def) code_simp
  show ?thesis
    unfolding hd(1) mrcp_v2_start_line_parse_def r1(1,2) prod.case bool.case Let_def r2(1) id
    using zero response_tail_join[OF r2(2) c st] by (auto simp: parsed_line_def v t Let_def)
qed

lemma v2_method_fields:
  assumes ok: "start_line_ok sl" and v: "sl_version sl = MRCP_VERSION_2"
    and t: "sl_message_type sl \<noteq> MRCP_MESSAGE_TYPE_RESPONSE"
  shows "\<exists>fs. start_line_fields n sl = version_text MRCP_VERSION_2 # n # sl_method_name sl
      # show_nat (unat (sl_request_id sl)) # fs
    \<and> fs = (if sl_message_type sl = MRCP_MESSAGE_TYPE_EVENT then [state_text (sl_request_state sl)] else [])
    \<and> method_name_ok (sl_method_name sl)"
  using assms by (cases "sl_message_type sl") (simp_all add: start_line_fields_def start_line_ok_def)

lemma parse_v2_method:
  assumes ok: "start_line_ok sl" and v: "sl_version sl = MRCP_VERSION_2" and l: "l < 2 ^ 63"
    and t: "sl_message_type sl \<noteq> MRCP_MESSAGE_TYPE_RESPONSE"
  shows "mrcp_start_line_parse sl0 (join_sp (start_line_fields (show_nat l) sl)) = (True, parsed_line l sl sl0)"
proof -
  let ?i = "show_nat (unat (sl_request_id sl))" and ?m = "sl_method_name sl"
  have i: "sl_request_id sl < 2 ^ 31" using ok by (simp add: start_line_ok_def)
  obtain fs where f: "start_line_fields (show_nat l) sl = version_text MRCP_VERSION_2 # show_nat l # ?m # ?i # fs"
      "fs = (if sl_message_type sl = MRCP_MESSAGE_TYPE_EVENT then [state_text (sl_request_state sl)] else [])"
    and m: "method_name_ok ?m"
    using v2_method_fields[OF ok v t] by blast
  obtain s where hd: "mrcp_start_line_parse sl0 (join_sp (start_line_fields (show_nat l) sl))
      = mrcp_v2_start_line_parse (sl0\<lparr>sl_message_type := MRCP_MESSAGE_TYPE_UNKNOWN, sl_version := MRCP_VERSION_2\<rparr>) s"
      "ts_rest s = join_sp (show_nat l # ?m # ?i # fs)"
    using parse_v2_head[OF v l f(1)] by blast
  obtain b s1 where r1: "apt_text_field_read s sp True = (True, show_nat l, b, s1)" "apt_size_value_parse b = l"
      "ts_rest s1 = join_sp (?m # ?i # fs)"
    using v2_read_length[OF hd(2) l] by blast
  obtain s2 where r2: "apt_text_field_read s1 sp True = (True, ?m, ?m @ sp # join_sp (?i # fs), s2)"
      "ts_rest s2 = join_sp (?i # fs)"
    using read_join_more[OF r1(3) sp_field_method[OF m]] by blast
  show ?thesis
  proof (cases "sl_message_type sl = MRCP_MESSAGE_TYPE_EVENT")
    case True
    have st: "sl_request_state sl \<noteq> MRCP_REQUEST_STATE_UNKNOWN" using ok True by (simp add: start_line_ok_def)
    let ?s = "state_text (sl_request_state sl)"
    obtain s3 where r3: "apt_text_field_read s2 sp True = (True, ?i, ?i @ sp # join_sp [?s], s3)"
        "ts_rest s3 = join_sp [?s]"
      using read_join_more[of s2 ?i ?s "[]"] r2(2) f(2) True by auto
    obtain s4 where r4: "apt_text_field_read s3 sp True = (True, ?s, ?s, s4)"
      using read_join_last[OF r3(2) sp_field_state[OF st]] by blast
    show ?thesis
      unfolding hd(1) mrcp_v2_start_line_parse_def r1(1,2) prod.case bool.case Let_def r2(1) request_id_method[OF m]
      using method_not_zero[OF m] request_id_parse_show[OF i, of "sp # join_sp [?s]"] True st
      by (simp add: r3(1) r4 parsed_line_def v Let_def)
  next
    case False
    then have req: "sl_message_type sl = MRCP_MESSAGE_TYPE_REQUEST"
      using t ok by (cases "sl_message_type sl") (auto simp: start_line_ok_def)
    obtain s3 where r3: "apt_text_field_read s2 sp True = (True, ?i, ?i, s3)" "ts_rest s3 = []"
      using read_join_last[of s2 ?i] r2(2) f(2) False by auto
    show ?thesis
      unfolding hd(1) mrcp_v2_start_line_parse_def r1(1,2) prod.case bool.case Let_def r2(1) request_id_method[OF m]
      using method_not_zero[OF m] request_id_parse_show[OF i, of "[]"] req
      by (simp add: r3(1) field_read_empty[OF r3(2)] parsed_line_def v Let_def)
  qed
qed

lemma start_line_parse_fields:
  assumes "start_line_ok sl" "l < 2 ^ 63"
  shows "mrcp_start_line_parse sl0 (join_sp (start_line_fields (show_nat l) sl)) = (True, parsed_line l sl sl0)"
proof (cases "sl_version sl")
  case MRCP_VERSION_UNKNOWN
  then show ?thesis using assms by (simp add: start_line_ok_def)
next
  case MRCP_VERSION_1
  then show ?thesis using assms parse_v1_request parse_v1_event parse_v1_response
    by (cases "sl_message_type sl") (auto simp: start_line_ok_def)
next
  case MRCP_VERSION_2
  then show ?thesis using assms parse_v2_method parse_v2_response by blast
qed

text \<open>The fields after the message length do not depend on it.\<close>

lemma fields_v2_split:
  assumes "sl_version sl = MRCP_VERSION_2"
  shows "join_sp (start_line_fields n sl)
    = version_text MRCP_VERSION_2 @ sp # n @ sp # join_sp (drop 2 (start_line_fields m sl))"
  using assms by (cases "sl_message_type sl") (simp_all add: start_line_fields_def Let_def)

section \<open>Properties\<close>

lemma no_eol_show_nat [simp]: "no_eol (show_nat n)"
  by (simp add: no_eol_def)

lemma no_eol_texts [simp]:
  "v \<noteq> MRCP_VERSION_UNKNOWN \<Longrightarrow> no_eol (version_text v)"
  "st \<noteq> MRCP_REQUEST_STATE_UNKNOWN \<Longrightarrow> no_eol (state_text st)"
  by (cases v; simp add: cr_def lf_def; fail) (cases st; simp add: cr_def lf_def)

lemma no_eol_fields:
  assumes "start_line_ok sl" "no_eol (sl_method_name sl)" "no_eol n"
  shows "no_eol (join_sp (start_line_fields n sl))"
  using assms by (cases "sl_message_type sl")
    (simp_all add: start_line_fields_def start_line_ok_def Let_def del: version_text_eval state_text_eval)

lemma length_show_nat_div: "length (show_nat n) \<le> 1 + n div 10"
proof (induction n rule: show_nat.induct)
  case (1 n)
  show ?case
  proof (cases "n < 10")
    case True
    then show ?thesis by (subst show_nat.simps) simp
  next
    case False
    then have "1 + n div 10 div 10 \<le> n div 10" by simp
    with 1 False show ?thesis by (subst show_nat.simps) simp
  qed
qed

text \<open>
  A version 2 line, generated at the start of a buffer and completed when the header \<open>h\<close> is
  written: the text of the buffer.
\<close>

lemma start_line_v2_written:
  assumes ok: "start_line_ok sl" and v: "sl_version sl = MRCP_VERSION_2" and m: "no_eol (sl_method_name sl)"
    and s: "os_text s = []" and room: "start_line_room sl s"
    and size: "length (sl_method_name sl) + length h + c < 999900"
      "length (sl_method_name sl) + length h + 64 < os_size s"
  shows "\<exists>w l s2. mrcp_start_line_generate sl s = Some (True, sl\<lparr>sl_length := 9\<rparr>, os_write w s)
    \<and> length w \<le> length (sl_method_name sl) + 52
    \<and> mrcp_start_line_finalize (sl\<lparr>sl_length := 9\<rparr>) c (os_write h (os_write w s)) = (True, sl\<lparr>sl_length := l\<rparr>, s2)
    \<and> os_text s2 = join_sp (start_line_fields (show_nat l) sl) @ [cr, lf] @ h
    \<and> l = length (os_text s2) + c \<and> l < 2 ^ 63
    \<and> os_size s \<le> os_size s2 + 6 \<and> length (os_text s2) + os_size s \<le> length w + length h + os_size s2"
proof -
  let ?p = "version_text MRCP_VERSION_2 @ [sp]" and ?r = "join_sp (drop 2 (start_line_fields [] sl))"
  let ?sl1 = "sl\<lparr>sl_length := 9\<rparr>" and ?w = "?p @ replicate 7 sp @ ?r @ [cr, lf]"
  have gen: "mrcp_start_line_generate sl s = Some (True, ?sl1, os_write ?w s)"
    using start_line_generate_v2[OF ok v room] by (simp del: version_text_eval)
  have tx: "os_text (os_write h (os_write ?w s)) = ?p @ replicate 7 sp @ (?r @ [cr, lf] @ h)" using s by simp
  have len: "length ?r \<le> length (sl_method_name sl) + 33"
    using ok v length_show_u32[of "sl_request_id sl"] state_text_facts[of "sl_request_state sl"]
      status_len[of "sl_status_code sl"]
    by (cases "sl_message_type sl") (simp_all add: start_line_fields_def start_line_ok_def Let_def)
  have fits: "length (os_text (os_write h (os_write ?w s))) + c < 999990"
    "length (os_text (os_write h (os_write ?w s))) \<le> os_size (os_write h (os_write ?w s))"
    unfolding tx using size len by simp_all
  have v1: "sl_version ?sl1 = MRCP_VERSION_2" and off: "sl_length ?sl1 = length ?p" using v by simp_all
  obtain l s2 where
    fin: "mrcp_start_line_finalize ?sl1 c (os_write h (os_write ?w s)) = (True, ?sl1\<lparr>sl_length := l\<rparr>, s2)"
      "os_text s2 = ?p @ show_nat l @ sp # ?r @ [cr, lf] @ h" "l = length (os_text s2) + c"
      "os_size (os_write h (os_write ?w s)) = os_size s2 + (6 - length (show_nat l))" "length (show_nat l) \<le> 6"
    using finalize_v2[OF v1 off tx fits] by blast
  let ?line = "join_sp (start_line_fields (show_nat l) sl)"
  have line: "os_text s2 = ?line @ [cr, lf] @ h"
    using fin(2) fields_v2_split[OF v, of "show_nat l" "[]"] by simp
  have tot: "length (os_text s2) = 12 + length (show_nat l) + length ?r + length h" unfolding fin(2) by simp
  have l: "l < 2 ^ 63"
  proof -
    have "l \<le> 18 + length ?r + length h + c" using fin(3,5) tot by linarith
    also have "\<dots> < 2 ^ 63" using size(1) len by simp
    finally show ?thesis .
  qed
  have w: "length ?w = 18 + length ?r" by simp
  show ?thesis
  proof (intro exI conjI)
    show "mrcp_start_line_generate sl s = Some (True, ?sl1, os_write ?w s)" by (rule gen)
    show "length ?w \<le> length (sl_method_name sl) + 52" using len w by linarith
    show "mrcp_start_line_finalize ?sl1 c (os_write h (os_write ?w s)) = (True, sl\<lparr>sl_length := l\<rparr>, s2)"
      using fin(1) by simp
    show "os_size s \<le> os_size s2 + 6" using fin(4) by simp
    show "length (os_text s2) + os_size s \<le> length ?w + length h + os_size s2"
      using fin(4,5) tot w by simp
  qed (rule line fin(3) l)+
qed

text \<open>
  A version 2 start line survives the trip over the wire. It is generated at the start of a
  message with a place kept for the length; when the header \<open>h\<close> is written and the length of the
  body is known, it is completed. The line read from the result is parsed to the same type,
  version, request identifier, method, status and request state, the length in it is the length
  of the whole message, its own digits included, and reading goes on at the header.
\<close>

theorem start_line_v2_roundtrip:
  assumes ok: "start_line_ok sl" and v: "sl_version sl = MRCP_VERSION_2" and m: "no_eol (sl_method_name sl)"
    and s: "os_text s = []" and room: "start_line_room sl s"
    and size: "length (sl_method_name sl) + length h + c < 999900"
      "length (sl_method_name sl) + length h + 64 < os_size s"
  shows "\<exists>sl1 s1 l s2 line t. mrcp_start_line_generate sl s = Some (True, sl1, s1)
    \<and> mrcp_start_line_finalize sl1 c (os_write h s1) = (True, sl1\<lparr>sl_length := l\<rparr>, s2)
    \<and> l = length (os_text s2) + c
    \<and> apt_text_line_read (apt_text_stream_of (os_text s2)) = (True, line, t) \<and> ts_rest t = h
    \<and> mrcp_start_line_parse sl0 line = (True, parsed_line l sl sl0)"
proof -
  obtain w l s2 where w: "mrcp_start_line_generate sl s = Some (True, sl\<lparr>sl_length := 9\<rparr>, os_write w s)"
      "mrcp_start_line_finalize (sl\<lparr>sl_length := 9\<rparr>) c (os_write h (os_write w s)) = (True, sl\<lparr>sl_length := l\<rparr>, s2)"
      "os_text s2 = join_sp (start_line_fields (show_nat l) sl) @ [cr, lf] @ h" "l = length (os_text s2) + c" "l < 2 ^ 63"
    using start_line_v2_written[OF ok v m s room size] by blast
  let ?line = "join_sp (start_line_fields (show_nat l) sl)" and ?t = "apt_text_stream_of (os_text s2)"
  have rest: "ts_rest ?t = ?line @ [cr, lf] @ h" using w(3) by (simp add: apt_text_stream_of_def)
  have rd: "apt_text_line_read ?t = (True, ?line, ts_advance (length ?line + 2) ?t)"
    by (rule line_read_crlf[OF no_eol_fields[OF ok m] rest]) simp
  show ?thesis
  proof (intro exI conjI)
    show "mrcp_start_line_finalize (sl\<lparr>sl_length := 9\<rparr>) c (os_write h (os_write w s))
        = (True, sl\<lparr>sl_length := 9, sl_length := l\<rparr>, s2)"
      using w(2) by simp
    show "ts_rest (ts_advance (length ?line + 2) ?t) = h" using rest by simp
  qed (rule w(1,4) rd start_line_parse_fields[OF ok w(5), of sl0])+
qed

definition sample_line :: "mrcp_version \<Rightarrow> mrcp_start_line" where
  "sample_line v = (mrcp_start_line_init 2)\<lparr>sl_message_type := MRCP_MESSAGE_TYPE_EVENT, sl_version := v,
     sl_request_id := 543257, sl_method_name := ''SPEAK-COMPLETE'', sl_request_state := MRCP_REQUEST_STATE_COMPLETE\<rparr>"

lemma sample_line_ok:
  "v \<noteq> MRCP_VERSION_UNKNOWN \<Longrightarrow> start_line_ok (sample_line v) \<and> no_eol (sl_method_name (sample_line v))
    \<and> start_line_room (sample_line v) (apt_text_stream_init 1000)"
  by (simp add: sample_line_def mrcp_start_line_init_def start_line_ok_def method_name_ok_def start_line_room_def
      apt_text_stream_init_def sp_def cr_def lf_def MRCP_NAME_def is_digit_def is_space_def)

lemma start_line_v2_roundtrip_witness:
  "\<exists>sl1 s1 l s2 line t. mrcp_start_line_generate (sample_line MRCP_VERSION_2) (apt_text_stream_init 1000) = Some (True, sl1, s1)
    \<and> mrcp_start_line_finalize sl1 0 (os_write [cr, lf] s1) = (True, sl1\<lparr>sl_length := l\<rparr>, s2)
    \<and> apt_text_line_read (apt_text_stream_of (os_text s2)) = (True, line, t) \<and> ts_rest t = [cr, lf]
    \<and> mrcp_start_line_parse (mrcp_start_line_init 0) line
      = (True, parsed_line l (sample_line MRCP_VERSION_2) (mrcp_start_line_init 0))"
proof -
  have v: "sl_version (sample_line MRCP_VERSION_2) = MRCP_VERSION_2" "os_text (apt_text_stream_init 1000) = []"
    "length (sl_method_name (sample_line MRCP_VERSION_2)) + length [cr, lf] + 0 < 999900"
    "length (sl_method_name (sample_line MRCP_VERSION_2)) + length [cr, lf] + 64 < os_size (apt_text_stream_init 1000)"
    by (simp_all add: sample_line_def apt_text_stream_init_def)
  from start_line_v2_roundtrip[of "sample_line MRCP_VERSION_2" "apt_text_stream_init 1000" "[cr, lf]" 0 "mrcp_start_line_init 0",
      OF _ v(1) _ v(2) _ v(3,4)] sample_line_ok[of MRCP_VERSION_2]
  show ?thesis by blast
qed

text \<open>
  A version 1 start line is read back as well: the line is written behind what the buffer
  holds, and parsed to the same type, version, request identifier, method, status and request
  state; the length of a version 1 line is set by the sender and not part of the text.
\<close>

theorem start_line_v1_roundtrip:
  assumes "start_line_ok sl" and "sl_version sl = MRCP_VERSION_1" and "no_eol (sl_method_name sl)"
    and "start_line_room sl s" and "l < 2 ^ 63"
  shows "\<exists>s1 line t. mrcp_start_line_generate sl s = Some (True, sl, s1)
    \<and> mrcp_start_line_finalize sl c s1 = (True, sl\<lparr>sl_length := length (os_text s1) + c\<rparr>, s1)
    \<and> apt_text_line_read (apt_text_stream_of (drop (length (os_text s)) (os_text s1) @ h)) = (True, line, t)
    \<and> ts_rest t = h \<and> mrcp_start_line_parse sl0 line = (True, parsed_line l sl sl0)"
proof -
  let ?line = "join_sp (start_line_fields [] sl)" and ?s1 = "os_write (join_sp (start_line_fields [] sl) @ [cr, lf]) s"
  have eq: "start_line_fields [] sl = start_line_fields (show_nat l) sl"
    using assms(2) by (simp add: start_line_fields_def Let_def)
  have gen: "mrcp_start_line_generate sl s = Some (True, sl, ?s1)" by (rule start_line_generate_v1[OF assms(1,2,4)])
  have rest: "ts_rest (apt_text_stream_of (drop (length (os_text s)) (os_text ?s1) @ h)) = ?line @ [cr, lf] @ h"
    by (simp add: apt_text_stream_of_def)
  have rd: "apt_text_line_read (apt_text_stream_of (drop (length (os_text s)) (os_text ?s1) @ h)) = (True, ?line,
      ts_advance (length ?line + 2) (apt_text_stream_of (drop (length (os_text s)) (os_text ?s1) @ h)))"
    by (rule line_read_crlf[OF no_eol_fields[OF assms(1,3)] rest]) simp
  have fin: "mrcp_start_line_finalize sl c ?s1 = (True, sl\<lparr>sl_length := length (os_text ?s1) + c\<rparr>, ?s1)"
    using assms(2) by (simp add: mrcp_start_line_finalize_def Let_def)
  show ?thesis
    using gen fin rd rest start_line_parse_fields[OF assms(1,5), of sl0, folded eq]
    by (intro exI[of _ ?s1] exI[of _ ?line]) auto
qed

lemma start_line_v1_roundtrip_witness:
  "\<exists>s1 line t. mrcp_start_line_generate (sample_line MRCP_VERSION_1) (apt_text_stream_init 1000) = Some (True, sample_line MRCP_VERSION_1, s1)
    \<and> apt_text_line_read (apt_text_stream_of (drop (length (os_text (apt_text_stream_init 1000))) (os_text s1) @ [])) = (True, line, t)
    \<and> mrcp_start_line_parse (mrcp_start_line_init 0) line
      = (True, parsed_line 0 (sample_line MRCP_VERSION_1) (mrcp_start_line_init 0))"
proof -
  have v: "sl_version (sample_line MRCP_VERSION_1) = MRCP_VERSION_1" "(0 :: nat) < 2 ^ 63"
    by (simp_all add: sample_line_def)
  from start_line_v1_roundtrip[of "sample_line MRCP_VERSION_1" "apt_text_stream_init 1000" 0 0 "[]" "mrcp_start_line_init 0",
      OF _ v(1) _ _ v(2)] sample_line_ok[of MRCP_VERSION_1]
  show ?thesis by blast
qed

text \<open>
  A version 1 request whose status code is set gets a line the parser refuses: the status is
  written where the parser expects the request state or the version.
\<close>

theorem start_line_v1_status_unparsable:
  "\<exists>s1 line t. mrcp_start_line_generate (mrcp_start_line_init 0\<lparr>sl_message_type := MRCP_MESSAGE_TYPE_REQUEST,
      sl_version := MRCP_VERSION_1, sl_request_id := 1, sl_method_name := ''SPEAK'', sl_status_code := 200\<rparr>)
      (apt_text_stream_init 100) = Some (True, mrcp_start_line_init 0\<lparr>sl_message_type := MRCP_MESSAGE_TYPE_REQUEST,
      sl_version := MRCP_VERSION_1, sl_request_id := 1, sl_method_name := ''SPEAK'', sl_status_code := 200\<rparr>, s1)
    \<and> apt_text_line_read (apt_text_stream_of (os_text s1)) = (True, line, t)
    \<and> line = ''SPEAK 1 200 MRCP/1.0'' \<and> \<not> fst (mrcp_start_line_parse (mrcp_start_line_init 0) line)"
proof -
  let ?sl = "mrcp_start_line_init 0\<lparr>sl_message_type := MRCP_MESSAGE_TYPE_REQUEST,
      sl_version := MRCP_VERSION_1, sl_request_id := 1, sl_method_name := ''SPEAK'', sl_status_code := 200\<rparr>"
  have "mrcp_start_line_generate ?sl (apt_text_stream_init 100)
      = Some (True, ?sl, \<lparr>os_text = ''SPEAK 1 200 MRCP/1.0'' @ [cr, lf], os_size = 100\<rparr>)"
    by code_simp
  moreover have "apt_text_line_read (apt_text_stream_of (''SPEAK 1 200 MRCP/1.0'' @ [cr, lf]))
      = (True, ''SPEAK 1 200 MRCP/1.0'', ts_advance 22 (apt_text_stream_of (''SPEAK 1 200 MRCP/1.0'' @ [cr, lf])))"
    by code_simp
  moreover have "\<not> fst (mrcp_start_line_parse (mrcp_start_line_init 0) ''SPEAK 1 200 MRCP/1.0'')"
    by code_simp
  ultimately show ?thesis by fastforce
qed

end
