(* ===== verification/Mrcp_Header.thy ===== *)
theory Mrcp_Header
  imports Header_Section Start_Line
begin

text \<open>
  The header of an MRCP message: \<open>libs/mrcp/message/src/mrcp_header_accessor.c\<close> (the interface
  through which the generic and the resource headers are parsed, generated and copied),
  \<open>mrcp_generic_header.c\<close> and \<open>mrcp_header.c\<close>. An accessor is a table of functions and the data
  they work on; \<open>mrcp_message_header_data_alloc\<close> sets the two together, so an accessor is
  \<open>None\<close> or both. The resource headers are a parameter \<open>'r\<close>.
\<close>

record 'd header_vtable =
  vt_allocate :: 'd
  vt_parse_field :: "'d \<Rightarrow> nat \<Rightarrow> string \<Rightarrow> bool \<times> 'd"
  vt_generate_field :: "'d \<Rightarrow> nat \<Rightarrow> string option"
  vt_duplicate_field :: "'d \<Rightarrow> 'd option \<Rightarrow> nat \<Rightarrow> string \<Rightarrow> bool \<times> 'd"
  vt_field_table :: str_table

type_synonym 'd header_accessor = "('d header_vtable \<times> 'd) option"

definition mrcp_header_field_value_parse ::
  "'d header_accessor \<Rightarrow> header_field \<Rightarrow> bool \<times> 'd header_accessor \<times> header_field" where
  "mrcp_header_field_value_parse acc f =
     (case acc of
        None \<Rightarrow> (False, acc, f)
      | Some (vt, d) \<Rightarrow>
          (let i = apt_string_table_id_find (vt_field_table vt) (hf_name f) in
           if length (vt_field_table vt) \<le> i then (False, acc, f)
           else
             let f1 = f\<lparr>hf_id := i\<rparr> in
             if hf_value f1 \<noteq> [] then
               (let (ok, d') = vt_parse_field vt d (hf_id f1) (hf_value f1)
                in (ok, Some (vt, d'), f1))
             else (True, acc, f1)))"

definition mrcp_header_field_value_generate ::
  "'d header_accessor \<Rightarrow> nat \<Rightarrow> bool \<Rightarrow> header_field option" where
  "mrcp_header_field_value_generate acc i empty_value =
     (case acc of
        None \<Rightarrow> None
      | Some (vt, d) \<Rightarrow>
          (let f = apt_header_field_alloc;
               f1 = (case apt_string_table_str_get (vt_field_table vt) i of
                       Some name \<Rightarrow> f\<lparr>hf_name := name\<rparr> | None \<Rightarrow> f)
           in if empty_value then Some f1
              else case vt_generate_field vt d i of
                     None \<Rightarrow> None
                   | Some v \<Rightarrow> Some (f1\<lparr>hf_value := v\<rparr>)))"

definition mrcp_header_field_value_duplicate ::
  "'d header_accessor \<Rightarrow> 'd header_accessor \<Rightarrow> nat \<Rightarrow> string \<Rightarrow> bool \<times> 'd header_accessor" where
  "mrcp_header_field_value_duplicate acc src i v =
     (case acc of
        None \<Rightarrow> (False, acc)
      | Some (vt, d) \<Rightarrow>
          if v \<noteq> [] then
            (let (ok, d') = vt_duplicate_field vt d (map_option snd src) i v in (ok, Some (vt, d')))
          else (True, acc))"

section \<open>The generic header\<close>

abbreviation (input) GENERIC_HEADER_ACTIVE_REQUEST_ID_LIST :: nat where "GENERIC_HEADER_ACTIVE_REQUEST_ID_LIST \<equiv> 0"
abbreviation (input) GENERIC_HEADER_PROXY_SYNC_ID :: nat where "GENERIC_HEADER_PROXY_SYNC_ID \<equiv> 1"
abbreviation (input) GENERIC_HEADER_ACCEPT_CHARSET :: nat where "GENERIC_HEADER_ACCEPT_CHARSET \<equiv> 2"
abbreviation (input) GENERIC_HEADER_CONTENT_TYPE :: nat where "GENERIC_HEADER_CONTENT_TYPE \<equiv> 3"
abbreviation (input) GENERIC_HEADER_CONTENT_ID :: nat where "GENERIC_HEADER_CONTENT_ID \<equiv> 4"
abbreviation (input) GENERIC_HEADER_CONTENT_BASE :: nat where "GENERIC_HEADER_CONTENT_BASE \<equiv> 5"
abbreviation (input) GENERIC_HEADER_CONTENT_ENCODING :: nat where "GENERIC_HEADER_CONTENT_ENCODING \<equiv> 6"
abbreviation (input) GENERIC_HEADER_CONTENT_LOCATION :: nat where "GENERIC_HEADER_CONTENT_LOCATION \<equiv> 7"
abbreviation (input) GENERIC_HEADER_CONTENT_LENGTH :: nat where "GENERIC_HEADER_CONTENT_LENGTH \<equiv> 8"
abbreviation (input) GENERIC_HEADER_CACHE_CONTROL :: nat where "GENERIC_HEADER_CACHE_CONTROL \<equiv> 9"
abbreviation (input) GENERIC_HEADER_LOGGING_TAG :: nat where "GENERIC_HEADER_LOGGING_TAG \<equiv> 10"
abbreviation (input) GENERIC_HEADER_VENDOR_SPECIFIC_PARAMS :: nat where "GENERIC_HEADER_VENDOR_SPECIFIC_PARAMS \<equiv> 11"
abbreviation (input) GENERIC_HEADER_ACCEPT :: nat where "GENERIC_HEADER_ACCEPT \<equiv> 12"
abbreviation (input) GENERIC_HEADER_FETCH_TIMEOUT :: nat where "GENERIC_HEADER_FETCH_TIMEOUT \<equiv> 13"
abbreviation (input) GENERIC_HEADER_SET_COOKIE :: nat where "GENERIC_HEADER_SET_COOKIE \<equiv> 14"
abbreviation (input) GENERIC_HEADER_SET_COOKIE2 :: nat where "GENERIC_HEADER_SET_COOKIE2 \<equiv> 15"
definition GENERIC_HEADER_COUNT :: nat where "GENERIC_HEADER_COUNT = 16"
definition MAX_ACTIVE_REQUEST_ID_COUNT :: nat where "MAX_ACTIVE_REQUEST_ID_COUNT = 5"

text \<open>The active request-id list is its first \<open>count\<close> entries.\<close>

record mrcp_generic_header =
  active_request_id_list :: "u32 list"
  proxy_sync_id :: string
  accept_charset :: string
  content_type :: string
  content_id :: string
  content_base :: string
  content_encoding :: string
  content_location :: string
  content_length :: nat
  cache_control :: string
  logging_tag :: string
  vendor_specific_params :: "apt_pair list option"
  accept_types :: string
  fetch_timeout :: nat
  set_cookie :: string
  set_cookie2 :: string

definition generic_header_string_table :: str_table where
  "generic_header_string_table =
     [\<lparr>st_value = ''Active-Request-Id-List'', st_key = 3\<rparr>,
      \<lparr>st_value = ''Proxy-Sync-Id'', st_key = 0\<rparr>,
      \<lparr>st_value = ''Accept-Charset'', st_key = 7\<rparr>,
      \<lparr>st_value = ''Content-Type'', st_key = 9\<rparr>,
      \<lparr>st_value = ''Content-Id'', st_key = 9\<rparr>,
      \<lparr>st_value = ''Content-Base'', st_key = 8\<rparr>,
      \<lparr>st_value = ''Content-Encoding'', st_key = 9\<rparr>,
      \<lparr>st_value = ''Content-Location'', st_key = 9\<rparr>,
      \<lparr>st_value = ''Content-Length'', st_key = 10\<rparr>,
      \<lparr>st_value = ''Cache-Control'', st_key = 1\<rparr>,
      \<lparr>st_value = ''Logging-Tag'', st_key = 0\<rparr>,
      \<lparr>st_value = ''Vendor-Specific-Parameters'', st_key = 0\<rparr>,
      \<lparr>st_value = ''Accept'', st_key = 6\<rparr>,
      \<lparr>st_value = ''Fetch-Timeout'', st_key = 0\<rparr>,
      \<lparr>st_value = ''Set-Cookie'', st_key = 10\<rparr>,
      \<lparr>st_value = ''Set-Cookie2'', st_key = 10\<rparr>]"

text \<open>\<open>n\<close> entries can still be read; the loop also ends at an empty field.\<close>

fun request_id_list_read :: "nat \<Rightarrow> text_stream \<Rightarrow> u32 list \<Rightarrow> u32 list" where
  "request_id_list_read 0 s ids = ids"
| "request_id_list_read (Suc n) s ids =
     (case apt_text_field_read s (CHR '','') True of
        (False, _, _, _) \<Rightarrow> ids
      | (True, _, buf, s') \<Rightarrow> request_id_list_read n s' (ids @ [mrcp_request_id_parse buf]))"

definition mrcp_request_id_list_parse :: "string \<Rightarrow> u32 list" where
  "mrcp_request_id_list_parse v =
     request_id_list_read MAX_ACTIVE_REQUEST_ID_COUNT (apt_text_stream_of v) []"

text \<open>
  The buffer has the estimated length and one byte more. Each identifier gets what is left of
  the estimated length, the terminating zero of \<open>apr_snprintf\<close> included. \<open>None\<close>: a write
  outside the buffer.
\<close>

fun request_id_list_write :: "nat \<Rightarrow> nat \<Rightarrow> u32 list \<Rightarrow> string \<Rightarrow> string option" where
  "request_id_list_write len i [] text = (if length text \<le> len then Some text else None)"
| "request_id_list_write len i (x # xs) text =
     (let text1 = (if i \<noteq> 0 then text @ [CHR '',''] else text) in
      if len + 1 < length text1 then None
      else let (bytes, n) = apr_snprintf (len - length text1) (show_int (sint x)) in
           if length bytes = n then request_id_list_write len (Suc i) xs (text1 @ bytes)
           else None)"

definition mrcp_request_id_list_generate :: "u32 list \<Rightarrow> string option" where
  "mrcp_request_id_list_generate ids =
     (let len = 10 * length ids + (if 1 < length ids then length ids - 1 else 0)
      in request_id_list_write len 0 ids [])"

definition mrcp_generic_header_init :: mrcp_generic_header where
  "mrcp_generic_header_init =
     \<lparr>active_request_id_list = [], proxy_sync_id = [], accept_charset = [], content_type = [],
      content_id = [], content_base = [], content_encoding = [], content_location = [],
      content_length = 0, cache_control = [], logging_tag = [], vendor_specific_params = None,
      accept_types = [], fetch_timeout = 0, set_cookie = [], set_cookie2 = []\<rparr>"

definition mrcp_generic_header_parse ::
  "mrcp_generic_header \<Rightarrow> nat \<Rightarrow> string \<Rightarrow> bool \<times> mrcp_generic_header" where
  "mrcp_generic_header_parse h i v =
     (if i = GENERIC_HEADER_ACTIVE_REQUEST_ID_LIST then
        (True, h\<lparr>active_request_id_list := mrcp_request_id_list_parse v\<rparr>)
      else if i = GENERIC_HEADER_PROXY_SYNC_ID then (True, h\<lparr>proxy_sync_id := v\<rparr>)
      else if i = GENERIC_HEADER_ACCEPT_CHARSET then (True, h\<lparr>accept_charset := v\<rparr>)
      else if i = GENERIC_HEADER_CONTENT_TYPE then (True, h\<lparr>content_type := v\<rparr>)
      else if i = GENERIC_HEADER_CONTENT_ID then (True, h\<lparr>content_id := v\<rparr>)
      else if i = GENERIC_HEADER_CONTENT_BASE then (True, h\<lparr>content_base := v\<rparr>)
      else if i = GENERIC_HEADER_CONTENT_ENCODING then (True, h\<lparr>content_encoding := v\<rparr>)
      else if i = GENERIC_HEADER_CONTENT_LOCATION then (True, h\<lparr>content_location := v\<rparr>)
      else if i = GENERIC_HEADER_CONTENT_LENGTH then (True, h\<lparr>content_length := apt_size_value_parse v\<rparr>)
      else if i = GENERIC_HEADER_CACHE_CONTROL then (True, h\<lparr>cache_control := v\<rparr>)
      else if i = GENERIC_HEADER_LOGGING_TAG then (True, h\<lparr>logging_tag := v\<rparr>)
      else if i = GENERIC_HEADER_VENDOR_SPECIFIC_PARAMS then
        (let arr = (case vendor_specific_params h of None \<Rightarrow> [] | Some arr \<Rightarrow> arr)
         in (True, h\<lparr>vendor_specific_params := Some (apt_pair_array_parse arr v)\<rparr>))
      else if i = GENERIC_HEADER_ACCEPT then (True, h\<lparr>accept_types := v\<rparr>)
      else if i = GENERIC_HEADER_FETCH_TIMEOUT then (True, h\<lparr>fetch_timeout := apt_size_value_parse v\<rparr>)
      else if i = GENERIC_HEADER_SET_COOKIE then (True, h\<lparr>set_cookie := v\<rparr>)
      else if i = GENERIC_HEADER_SET_COOKIE2 then (True, h\<lparr>set_cookie2 := v\<rparr>)
      else (False, h))"

text \<open>
  \<open>mrcp_generic_header_generate\<close> always returns success; the value of a list of pairs that is
  null and of an unknown field stays empty. A list of identifiers has five at most, and what is
  generated of it stays within its buffer (\<open>ids_generate_total\<close> below), so that the fault the
  other branch would hide does not occur. The bytes of a pair list behind those written, up to its length, are shown as zeros.
\<close>

definition mrcp_generic_header_generate :: "mrcp_generic_header \<Rightarrow> nat \<Rightarrow> string option" where
  "mrcp_generic_header_generate h i =
     (if i = GENERIC_HEADER_ACTIVE_REQUEST_ID_LIST then
        (case mrcp_request_id_list_generate (active_request_id_list h) of
           None \<Rightarrow> Some [] | Some v \<Rightarrow> Some v)
      else if i = GENERIC_HEADER_PROXY_SYNC_ID then Some (proxy_sync_id h)
      else if i = GENERIC_HEADER_ACCEPT_CHARSET then Some (accept_charset h)
      else if i = GENERIC_HEADER_CONTENT_TYPE then Some (content_type h)
      else if i = GENERIC_HEADER_CONTENT_ID then Some (content_id h)
      else if i = GENERIC_HEADER_CONTENT_BASE then Some (content_base h)
      else if i = GENERIC_HEADER_CONTENT_ENCODING then Some (content_encoding h)
      else if i = GENERIC_HEADER_CONTENT_LOCATION then Some (content_location h)
      else if i = GENERIC_HEADER_CONTENT_LENGTH then Some (apt_size_value_generate (content_length h))
      else if i = GENERIC_HEADER_CACHE_CONTROL then Some (cache_control h)
      else if i = GENERIC_HEADER_LOGGING_TAG then Some (logging_tag h)
      else if i = GENERIC_HEADER_VENDOR_SPECIFIC_PARAMS then
        (case vendor_specific_params h of
           None \<Rightarrow> Some []
         | Some arr \<Rightarrow> (let (len, bytes) = apt_pair_array_generate arr
                       in Some (bytes @ replicate (len - length bytes) nul)))
      else if i = GENERIC_HEADER_ACCEPT then Some (accept_types h)
      else if i = GENERIC_HEADER_FETCH_TIMEOUT then Some (apt_size_value_generate (fetch_timeout h))
      else if i = GENERIC_HEADER_SET_COOKIE then Some (set_cookie h)
      else if i = GENERIC_HEADER_SET_COOKIE2 then Some (set_cookie2 h)
      else Some [])"

text \<open>\<open>apt_pair_array_copy\<close> returns null for a null array, and a copy of its pairs otherwise.\<close>

definition mrcp_generic_header_duplicate ::
  "mrcp_generic_header \<Rightarrow> mrcp_generic_header option \<Rightarrow> nat \<Rightarrow> string \<Rightarrow> bool \<times> mrcp_generic_header" where
  "mrcp_generic_header_duplicate h src0 i v =
     (case src0 of
        None \<Rightarrow> (False, h)
      | Some src \<Rightarrow>
         if i = GENERIC_HEADER_ACTIVE_REQUEST_ID_LIST then (True, h)
         else if i = GENERIC_HEADER_PROXY_SYNC_ID then (True, h\<lparr>proxy_sync_id := v\<rparr>)
         else if i = GENERIC_HEADER_ACCEPT_CHARSET then (True, h\<lparr>accept_charset := v\<rparr>)
         else if i = GENERIC_HEADER_CONTENT_TYPE then (True, h\<lparr>content_type := v\<rparr>)
         else if i = GENERIC_HEADER_CONTENT_ID then (True, h\<lparr>content_id := v\<rparr>)
         else if i = GENERIC_HEADER_CONTENT_BASE then (True, h\<lparr>content_base := v\<rparr>)
         else if i = GENERIC_HEADER_CONTENT_ENCODING then (True, h\<lparr>content_encoding := v\<rparr>)
         else if i = GENERIC_HEADER_CONTENT_LOCATION then (True, h\<lparr>content_location := v\<rparr>)
         else if i = GENERIC_HEADER_CONTENT_LENGTH then (True, h\<lparr>content_length := content_length src\<rparr>)
         else if i = GENERIC_HEADER_CACHE_CONTROL then (True, h\<lparr>cache_control := v\<rparr>)
         else if i = GENERIC_HEADER_LOGGING_TAG then (True, h\<lparr>logging_tag := v\<rparr>)
         else if i = GENERIC_HEADER_VENDOR_SPECIFIC_PARAMS then
           (True, h\<lparr>vendor_specific_params := vendor_specific_params src\<rparr>)
         else if i = GENERIC_HEADER_ACCEPT then (True, h\<lparr>accept_types := v\<rparr>)
         else if i = GENERIC_HEADER_FETCH_TIMEOUT then (True, h\<lparr>fetch_timeout := fetch_timeout src\<rparr>)
         else if i = GENERIC_HEADER_SET_COOKIE then (True, h\<lparr>set_cookie := v\<rparr>)
         else if i = GENERIC_HEADER_SET_COOKIE2 then (True, h\<lparr>set_cookie2 := v\<rparr>)
         else (False, h))"

definition generic_header_vtable :: "mrcp_generic_header header_vtable" where
  "generic_header_vtable =
     \<lparr>vt_allocate = mrcp_generic_header_init,
      vt_parse_field = mrcp_generic_header_parse,
      vt_generate_field = mrcp_generic_header_generate,
      vt_duplicate_field = mrcp_generic_header_duplicate,
      vt_field_table = generic_header_string_table\<rparr>"

definition active_request_id_list_append :: "mrcp_generic_header \<Rightarrow> u32 \<Rightarrow> bool \<times> mrcp_generic_header" where
  "active_request_id_list_append h i =
     (if MAX_ACTIVE_REQUEST_ID_COUNT \<le> length (active_request_id_list h) then (False, h)
      else (True, h\<lparr>active_request_id_list := active_request_id_list h @ [i]\<rparr>))"

fun request_id_list_find :: "u32 list \<Rightarrow> u32 \<Rightarrow> bool" where
  "request_id_list_find [] i = False"
| "request_id_list_find (x # xs) i = (if x = i then True else request_id_list_find xs i)"

definition active_request_id_list_find :: "mrcp_generic_header \<Rightarrow> u32 \<Rightarrow> bool" where
  "active_request_id_list_find h i = request_id_list_find (active_request_id_list h) i"

section \<open>The message header\<close>

record 'r mrcp_message_header =
  mh_generic :: "mrcp_generic_header header_accessor"
  mh_resource :: "'r header_accessor"
  mh_section :: header_section

definition mrcp_message_header_init :: "'r mrcp_message_header" where
  "mrcp_message_header_init =
     \<lparr>mh_generic = None, mh_resource = None, mh_section = apt_header_section_init\<rparr>"

definition mrcp_message_header_data_alloc ::
  "'r mrcp_message_header \<Rightarrow> mrcp_generic_header header_vtable option \<Rightarrow> 'r header_vtable option
    \<Rightarrow> bool \<times> 'r mrcp_message_header" where
  "mrcp_message_header_data_alloc h generic resource =
     (case (generic, resource) of
        (Some g, Some r) \<Rightarrow>
          (True, h\<lparr>mh_generic := Some (g, vt_allocate g), mh_resource := Some (r, vt_allocate r),
                   mh_section := snd (apt_header_section_array_alloc (mh_section h)
                     (length (vt_field_table g) + length (vt_field_table r)))\<rparr>)
      | _ \<Rightarrow> (False, h))"

definition mrcp_message_header_create ::
  "mrcp_generic_header header_vtable option \<Rightarrow> 'r header_vtable option \<Rightarrow> 'r mrcp_message_header" where
  "mrcp_message_header_create g r = snd (mrcp_message_header_data_alloc mrcp_message_header_init g r)"

text \<open>
  Parsing one field: the resource header first, then the generic one. The identifier of the
  resource field is moved behind the generic ones.
\<close>

definition header_field_parse ::
  "'r mrcp_message_header \<Rightarrow> header_field \<Rightarrow> bool \<times> 'r mrcp_message_header \<times> header_field" where
  "header_field_parse h f =
     (let (ok, racc, f1) = mrcp_header_field_value_parse (mh_resource h) f;
          h1 = h\<lparr>mh_resource := racc\<rparr>
      in if ok then (True, h1, f1\<lparr>hf_id := hf_id f1 + GENERIC_HEADER_COUNT\<rparr>)
         else let (ok2, gacc, f2) = mrcp_header_field_value_parse (mh_generic h1) f1
              in (ok2, h1\<lparr>mh_generic := gacc\<rparr>, f2))"

definition mrcp_header_field_add ::
  "'r mrcp_message_header \<Rightarrow> header_field \<Rightarrow> bool \<times> 'r mrcp_message_header" where
  "mrcp_header_field_add h f =
     (if hf_name f \<noteq> [] then
        (let (_, h1, f1) = header_field_parse h f;
             (status, sec) = apt_header_section_field_add (mh_section h1) f1
         in (status, h1\<lparr>mh_section := sec\<rparr>))
      else (False, h))"

text \<open>The loop over the ring; the fields of the ring are updated in place.\<close>

fun header_fields_parse_loop ::
  "'r mrcp_message_header \<Rightarrow> (nat \<times> header_field) list \<Rightarrow> 'r mrcp_message_header \<times> (nat \<times> header_field) list" where
  "header_fields_parse_loop h [] = (h, [])"
| "header_fields_parse_loop h ((a, f) # rest) =
     (let (ok, h1, f1) = header_field_parse h f;
          h2 = (if ok then h1\<lparr>mh_section := snd (apt_header_section_field_set (mh_section h1) (a, f1))\<rparr> else h1);
          (h3, rest') = header_fields_parse_loop h2 rest
      in (h3, (a, f1) # rest'))"

definition mrcp_header_fields_parse :: "'r mrcp_message_header \<Rightarrow> 'r mrcp_message_header" where
  "mrcp_header_fields_parse h =
     (let (h', ring) = header_fields_parse_loop h (sec_ring (mh_section h))
      in h'\<lparr>mh_section := (mh_section h')\<lparr>sec_ring := ring\<rparr>\<rparr>)"

definition mrcp_header_accessor_value_duplicate ::
  "'r mrcp_message_header \<Rightarrow> header_field \<Rightarrow> 'r mrcp_message_header \<Rightarrow> bool \<times> 'r mrcp_message_header" where
  "mrcp_header_accessor_value_duplicate h f src =
     (if hf_id f < GENERIC_HEADER_COUNT then
        (let (ok, acc) = mrcp_header_field_value_duplicate (mh_generic h) (mh_generic src) (hf_id f) (hf_value f)
         in (ok, h\<lparr>mh_generic := acc\<rparr>))
      else
        (let (ok, acc) = mrcp_header_field_value_duplicate (mh_resource h) (mh_resource src)
               (hf_id f - GENERIC_HEADER_COUNT) (hf_value f)
         in (ok, h\<lparr>mh_resource := acc\<rparr>)))"

text \<open>
  Copying fields between headers: \<open>set\<close> overwrites, \<open>inherit\<close> keeps what is there, \<open>get\<close> copies
  the fields a mask names, with an empty value where the source has none. The field found in
  the array is the one of the ring at that address.
\<close>

definition header_field_set_one ::
  "'r mrcp_message_header \<Rightarrow> header_field \<Rightarrow> 'r mrcp_message_header \<Rightarrow> 'r mrcp_message_header" where
  "header_field_set_one src sf h =
     (case apt_header_section_field_get (mh_section h) (hf_id sf) of
        Some a \<Rightarrow>
          (let f = (case section_field_at (mh_section h) a of
                      Some f \<Rightarrow> f\<lparr>hf_value := hf_value sf\<rparr> | None \<Rightarrow> sf);
               h1 = h\<lparr>mh_section := set_field_value a (hf_value sf) (mh_section h)\<rparr>
           in snd (mrcp_header_accessor_value_duplicate h1 f src))
      | None \<Rightarrow>
          (let f = apt_header_field_copy sf;
               h1 = h\<lparr>mh_section := snd (apt_header_section_field_add (mh_section h) f)\<rparr>
           in snd (mrcp_header_accessor_value_duplicate h1 f src)))"

definition mrcp_header_fields_set ::
  "'r mrcp_message_header \<Rightarrow> 'r mrcp_message_header \<Rightarrow> 'r mrcp_message_header" where
  "mrcp_header_fields_set h src = fold (header_field_set_one src) (section_fields (mh_section src)) h"

definition header_field_get_one ::
  "'r mrcp_message_header \<Rightarrow> header_field \<Rightarrow> 'r mrcp_message_header \<Rightarrow> 'r mrcp_message_header" where
  "header_field_get_one src mf h =
     (case apt_header_section_field_get (mh_section h) (hf_id mf) of
        Some _ \<Rightarrow> h
      | None \<Rightarrow>
          (case section_lookup (mh_section src) (hf_id mf) of
             Some sf \<Rightarrow>
               (let f = apt_header_field_copy sf;
                    h1 = snd (mrcp_header_accessor_value_duplicate h f src)
                in h1\<lparr>mh_section := snd (apt_header_section_field_add (mh_section h1) f)\<rparr>)
           | None \<Rightarrow>
               h\<lparr>mh_section := snd (apt_header_section_field_add (mh_section h) (apt_header_field_copy mf))\<rparr>))"

definition mrcp_header_fields_get ::
  "'r mrcp_message_header \<Rightarrow> 'r mrcp_message_header \<Rightarrow> 'r mrcp_message_header \<Rightarrow> 'r mrcp_message_header" where
  "mrcp_header_fields_get h src msk = fold (header_field_get_one src) (section_fields (mh_section msk)) h"

definition header_field_inherit_one ::
  "'r mrcp_message_header \<Rightarrow> header_field \<Rightarrow> 'r mrcp_message_header \<Rightarrow> 'r mrcp_message_header" where
  "header_field_inherit_one src sf h =
     (case apt_header_section_field_get (mh_section h) (hf_id sf) of
        Some _ \<Rightarrow> h
      | None \<Rightarrow>
          (let f = apt_header_field_copy sf;
               h1 = snd (mrcp_header_accessor_value_duplicate h f src)
           in h1\<lparr>mh_section := snd (apt_header_section_field_add (mh_section h1) f)\<rparr>))"

definition mrcp_header_fields_inherit ::
  "'r mrcp_message_header \<Rightarrow> 'r mrcp_message_header \<Rightarrow> 'r mrcp_message_header" where
  "mrcp_header_fields_inherit h src = fold (header_field_inherit_one src) (section_fields (mh_section src)) h"

section \<open>The channel identifier\<close>

record mrcp_channel_id =
  ch_session_id :: string
  ch_resource_name :: string

definition mrcp_channel_id_init :: mrcp_channel_id where
  "mrcp_channel_id_init = \<lparr>ch_session_id = [], ch_resource_name = []\<rparr>"

definition MRCP_CHANNEL_ID :: string where "MRCP_CHANNEL_ID = ''Channel-Identifier''"

fun channel_id_field :: "(nat \<times> header_field) list \<Rightarrow> (nat \<times> header_field) option" where
  "channel_id_field [] = None"
| "channel_id_field (e # rest) =
     (if hf_value (snd e) \<noteq> [] \<and> strncaseeq (length MRCP_CHANNEL_ID) (hf_name (snd e)) MRCP_CHANNEL_ID
      then Some e else channel_id_field rest)"

definition mrcp_channel_id_parse ::
  "mrcp_channel_id \<Rightarrow> 'r mrcp_message_header \<Rightarrow> bool \<times> mrcp_channel_id \<times> 'r mrcp_message_header" where
  "mrcp_channel_id_parse ch h =
     (case channel_id_field (sec_ring (mh_section h)) of
        None \<Rightarrow> (False, ch, h)
      | Some e \<Rightarrow>
          (let v = hf_value (snd e);
               ch1 = (case apt_id_resource_parse v (length v) (CHR ''@'') of
                        Some (sid, res) \<Rightarrow> \<lparr>ch_session_id = sid, ch_resource_name = res\<rparr>
                      | None \<Rightarrow> ch)
           in (True, ch1, h\<lparr>mh_section := apt_header_section_field_remove (mh_section h) e\<rparr>)))"

definition mrcp_channel_id_generate :: "mrcp_channel_id \<Rightarrow> out_stream \<Rightarrow> bool \<times> out_stream" where
  "mrcp_channel_id_generate ch s =
     (if os_size s \<le> length (os_text s) + length MRCP_CHANNEL_ID + 2
           + length (ch_session_id ch) + 1 + length (ch_resource_name ch) then (False, s)
      else apt_text_eol_insert (os_write (MRCP_CHANNEL_ID @ [CHR '':'', sp] @ ch_session_id ch
             @ [CHR ''@''] @ ch_resource_name ch) s))"

section \<open>The interface of a header\<close>

text \<open>
  What the message header relies on: the names of the table are distinct, and parsing and
  copying succeed for the identifiers of the table.
\<close>

locale header_iface =
  fixes vt :: "'d header_vtable"
  assumes table: "table_wf (vt_field_table vt)"
    and parse_known: "i < length (vt_field_table vt) \<Longrightarrow> fst (vt_parse_field vt d i v)"
    and duplicate_known: "i < length (vt_field_table vt) \<Longrightarrow> fst (vt_duplicate_field vt d (Some e) i v)"
begin

lemma value_parse_known:
  assumes "apt_string_table_id_find (vt_field_table vt) (hf_name f) < length (vt_field_table vt)"
  shows "\<exists>d'. mrcp_header_field_value_parse (Some (vt, d)) f
    = (True, Some (vt, d'), f\<lparr>hf_id := apt_string_table_id_find (vt_field_table vt) (hf_name f)\<rparr>)"
  using assms parse_known[of _ d "hf_value f"]
  by (auto simp: mrcp_header_field_value_parse_def Let_def split_beta prod_eq_iff)

lemma value_generate_parse:
  assumes i: "i < length (vt_field_table vt)"
    and g: "mrcp_header_field_value_generate (Some (vt, d)) i e = Some f"
  shows "\<exists>d''. mrcp_header_field_value_parse (Some (vt, d')) f = (True, Some (vt, d''), f\<lparr>hf_id := i\<rparr>)"
proof -
  have "hf_name f = st_value (vt_field_table vt ! i)"
    using i g by (auto simp: mrcp_header_field_value_generate_def apt_string_table_str_get_def Let_def
        split: if_splits option.splits)
  then show ?thesis using value_parse_known[of f d'] id_find_name[OF table i] i by simp
qed

lemma value_parse_unknown:
  assumes "length (vt_field_table vt) \<le> apt_string_table_id_find (vt_field_table vt) (hf_name f)"
  shows "mrcp_header_field_value_parse (Some (vt, d)) f = (False, Some (vt, d), f)"
  using assms by (simp add: mrcp_header_field_value_parse_def Let_def)

lemma value_duplicate_known:
  assumes "i < length (vt_field_table vt)"
  shows "fst (mrcp_header_field_value_duplicate (Some (vt, d)) (Some (vt', e)) i v)"
  using assms duplicate_known by (simp add: mrcp_header_field_value_duplicate_def split_beta)

end

lemma generic_table_wf: "table_wf generic_header_string_table"
  by (simp add: table_wf_def generic_header_string_table_def nul_def tolower_def)

lemma generic_table_length [simp]: "length generic_header_string_table = 16"
  by (simp add: generic_header_string_table_def)

lemma generic_parse_known: "i < 16 \<Longrightarrow> fst (mrcp_generic_header_parse h i v)"
  by (simp add: mrcp_generic_header_parse_def Let_def) arith

lemma generic_duplicate_known: "i < 16 \<Longrightarrow> fst (mrcp_generic_header_duplicate h (Some e) i v)"
  by (simp add: mrcp_generic_header_duplicate_def) arith

interpretation generic: header_iface generic_header_vtable
  by unfold_locales
    (auto simp: generic_header_vtable_def generic_table_wf generic_parse_known generic_duplicate_known)

section \<open>Copying fields\<close>

lemma duplicate_section [simp]:
  "mh_section (snd (mrcp_header_accessor_value_duplicate h f src)) = mh_section h"
  by (simp add: mrcp_header_accessor_value_duplicate_def Let_def split_beta)

lemma inherit_one_section:
  "mh_section (header_field_inherit_one src sf h) =
    (case apt_header_section_field_get (mh_section h) (hf_id sf) of
       Some _ \<Rightarrow> mh_section h
     | None \<Rightarrow> snd (apt_header_section_field_add (mh_section h) (apt_header_field_copy sf)))"
  by (simp add: header_field_inherit_one_def Let_def split: option.split)

lemma set_one_section:
  "mh_section (header_field_set_one src sf h) =
    (case apt_header_section_field_get (mh_section h) (hf_id sf) of
       Some a \<Rightarrow> set_field_value a (hf_value sf) (mh_section h)
     | None \<Rightarrow> snd (apt_header_section_field_add (mh_section h) (apt_header_field_copy sf)))"
  by (simp add: header_field_set_one_def Let_def split: option.split)

lemma set_one_wf: "section_wf (mh_section h) \<Longrightarrow> section_wf (mh_section (header_field_set_one src f h))"
  by (simp add: set_one_section field_add_wf set_field_value_wf split: option.split)

lemma set_one_arr [simp]:
  "length (sec_arr (mh_section (header_field_set_one src f h))) = length (sec_arr (mh_section h))"
  by (simp add: set_one_section split: option.split)

lemma set_one_value:
  assumes "section_wf (mh_section h)" "j < length (sec_arr (mh_section h))"
  shows "section_value (mh_section (header_field_set_one src f h)) j
    = (if j = hf_id f then Some (hf_value f) else section_value (mh_section h) j)"
  using assms by (auto simp: set_one_section set_field_value_lookup add_value split: option.split)

lemma inherit_one_wf:
  "section_wf (mh_section h) \<Longrightarrow> section_wf (mh_section (header_field_inherit_one src f h))"
  by (simp add: inherit_one_section field_add_wf split: option.split)

lemma inherit_one_arr [simp]:
  "length (sec_arr (mh_section (header_field_inherit_one src f h))) = length (sec_arr (mh_section h))"
  by (simp add: inherit_one_section split: option.split)

lemma inherit_one_value:
  assumes wf: "section_wf (mh_section h)" and j: "j < length (sec_arr (mh_section h))"
  shows "section_value (mh_section (header_field_inherit_one src f h)) j
    = (case section_value (mh_section h) j of
         Some v \<Rightarrow> Some v | None \<Rightarrow> if j = hf_id f then Some (hf_value f) else None)"
  using lookup_none_get[OF wf, of j] add_value[OF wf _ j]
  by (auto simp: inherit_one_section split: option.split)

text \<open>
  The last field of a list with an identifier, and the first one: what \<open>set\<close> and
  \<open>inherit\<close> copy.
\<close>

definition last_value :: "nat \<Rightarrow> header_field list \<Rightarrow> string option" where
  "last_value i fs = map_option hf_value (find (\<lambda>f. hf_id f = i) (rev fs))"

definition first_value :: "nat \<Rightarrow> header_field list \<Rightarrow> string option" where
  "first_value i fs = map_option hf_value (find (\<lambda>f. hf_id f = i) fs)"

lemma fields_set_fold:
  assumes "section_wf (mh_section h)" "j < length (sec_arr (mh_section h))"
  shows "section_wf (mh_section (fold (header_field_set_one src) fs h))
    \<and> section_value (mh_section (fold (header_field_set_one src) fs h)) j
      = (case last_value j fs of Some v \<Rightarrow> Some v | None \<Rightarrow> section_value (mh_section h) j)"
  using assms
proof (induction fs arbitrary: h)
  case Nil
  then show ?case by (simp add: last_value_def)
next
  case (Cons f fs)
  have ih: "section_wf (mh_section (fold (header_field_set_one src) fs (header_field_set_one src f h)))
    \<and> section_value (mh_section (fold (header_field_set_one src) fs (header_field_set_one src f h))) j
      = (case last_value j fs of Some v \<Rightarrow> Some v
         | None \<Rightarrow> section_value (mh_section (header_field_set_one src f h)) j)"
    using Cons.prems by (intro Cons.IH) (auto simp: set_one_wf)
  then show ?case using set_one_value[OF Cons.prems, of src f]
    by (auto simp: last_value_def find_append split: option.splits)
qed

lemma fields_inherit_fold:
  assumes "section_wf (mh_section h)" "j < length (sec_arr (mh_section h))"
  shows "section_wf (mh_section (fold (header_field_inherit_one src) fs h))
    \<and> section_value (mh_section (fold (header_field_inherit_one src) fs h)) j
      = (case section_value (mh_section h) j of Some v \<Rightarrow> Some v | None \<Rightarrow> first_value j fs)"
  using assms
proof (induction fs arbitrary: h)
  case Nil
  then show ?case by (simp add: first_value_def split: option.split)
next
  case (Cons f fs)
  have ih: "section_wf (mh_section (fold (header_field_inherit_one src) fs (header_field_inherit_one src f h)))
    \<and> section_value (mh_section (fold (header_field_inherit_one src) fs (header_field_inherit_one src f h))) j
      = (case section_value (mh_section (header_field_inherit_one src f h)) j of
           Some v \<Rightarrow> Some v | None \<Rightarrow> first_value j fs)"
    using Cons.prems by (intro Cons.IH) (auto simp: inherit_one_wf)
  then show ?case using inherit_one_value[OF Cons.prems, of src f]
    by (auto simp: first_value_def split: option.splits if_splits)
qed

section \<open>Headers whose fields are all indexed\<close>

text \<open>
  The array refers to every field of the ring whose identifier it has a slot for. The headers
  the state machines keep for SET-PARAMS are of this kind.
\<close>

definition header_wf :: "'r mrcp_message_header \<Rightarrow> bool" where
  "header_wf h \<longleftrightarrow> section_wf (mh_section h)
     \<and> list_all (\<lambda>e. hf_id (snd e) < length (sec_arr (mh_section h)) \<longrightarrow>
         sec_arr (mh_section h) ! hf_id (snd e) = Some (fst e)) (sec_ring (mh_section h))"

lemma header_create_wf [simp]: "header_wf (mrcp_message_header_create g r)"
  by (simp add: header_wf_def mrcp_message_header_create_def mrcp_message_header_data_alloc_def
      mrcp_message_header_init_def apt_header_section_init_def apt_header_section_array_alloc_def section_wf_def
      split: option.split)

lemma set_one_header_wf:
  assumes "header_wf h"
  shows "header_wf (header_field_set_one src f h)"
proof (cases "apt_header_section_field_get (mh_section h) (hf_id f)")
  case None
  have "section_wf (mh_section (header_field_set_one src f h))" using assms by (simp add: header_wf_def set_one_wf)
  then show ?thesis using assms None
    by (auto simp: header_wf_def set_one_section apt_header_section_field_add_def ring_insert_tail_def
        list_all_iff nth_list_update apt_header_section_field_get_def split: if_splits)
next
  case (Some a)
  have "section_wf (mh_section (header_field_set_one src f h))" using assms by (simp add: header_wf_def set_one_wf)
  then show ?thesis using assms Some
    by (force simp: header_wf_def set_one_section set_field_value_def list_all_iff)
qed

lemma fields_set_header_wf [simp]: "header_wf h \<Longrightarrow> header_wf (mrcp_header_fields_set h src)"
proof -
  have "header_wf h \<Longrightarrow> header_wf (fold (header_field_set_one src) fs h)" for fs
    by (induction fs arbitrary: h) (simp_all add: set_one_header_wf)
  then show "header_wf h \<Longrightarrow> header_wf (mrcp_header_fields_set h src)" by (simp add: mrcp_header_fields_set_def)
qed

text \<open>The values of the fields of a header, by identifier.\<close>

definition field_values :: "'r mrcp_message_header \<Rightarrow> nat \<Rightarrow> string option" where
  "field_values h = map_of (map (\<lambda>f. (hf_id f, hf_value f)) (section_fields (mh_section h)))"

lemma first_value_map_of: "first_value j fs = map_of (map (\<lambda>f. (hf_id f, hf_value f)) fs) j"
  by (induction fs) (auto simp: first_value_def)

lemma field_values_indexed:
  assumes h: "header_wf h" and j: "j < length (sec_arr (mh_section h))"
  shows "field_values h j = section_value (mh_section h) j"
proof -
  let ?r = "sec_ring (mh_section h)" and ?arr = "sec_arr (mh_section h)"
  have dist: "distinct (map fst ?r)" using h by (simp add: header_wf_def section_wf_def)
  have ix: "(a, f) \<in> set ?r \<Longrightarrow> hf_id f = j \<Longrightarrow> ?arr ! j = Some a" for a f
    using h j by (auto simp: header_wf_def list_all_iff)
  have fv: "field_values h j = map_option hf_value (find (\<lambda>f. hf_id f = j) (map snd ?r))"
    using first_value_map_of[of j "section_fields (mh_section h)"]
    by (simp add: field_values_def first_value_def section_fields_def)
  show ?thesis
  proof (cases "?arr ! j")
    case None
    then have "\<forall>f \<in> set (map snd ?r). hf_id f \<noteq> j" using ix by force
    then have "find (\<lambda>f. hf_id f = j) (map snd ?r) = None" by (simp add: find_None_iff)
    then show ?thesis using None j
      by (simp add: fv section_value_def section_lookup_def apt_header_section_field_get_def)
  next
    case (Some a)
    then obtain f where f: "(a, f) \<in> set ?r" "hf_id f = j"
      using section_wf_arr[of "mh_section h" j a] h j by (auto simp: header_wf_def)
    have uniq: "g = f" if "g \<in> set (map snd ?r)" "hf_id g = j" for g
    proof -
      from that(1) obtain b where b: "(b, g) \<in> set ?r" by auto
      then have "b = a" using ix[OF b that(2)] Some by simp
      with b f(1) dist show "g = f" by (metis eq_key_imp_eq_value)
    qed
    have "find (\<lambda>f. hf_id f = j) (map snd ?r) \<noteq> None" unfolding find_None_iff using f by force
    then obtain g where g: "find (\<lambda>f. hf_id f = j) (map snd ?r) = Some g" by auto
    then have "g = f" using uniq find_SomeD[OF g] by simp
    moreover have "section_field_at (mh_section h) a = Some f" using f(1) dist by (simp add: section_field_at_def)
    ultimately show ?thesis using Some j g
      by (simp add: fv section_value_def section_lookup_def apt_header_section_field_get_def)
  qed
qed

lemma last_value_map_of:
  "distinct (map hf_id fs) \<Longrightarrow> last_value j fs = map_of (map (\<lambda>f. (hf_id f, hf_value f)) fs) j"
proof (induction fs)
  case Nil
  then show ?case by (simp add: last_value_def)
next
  case (Cons f fs)
  have ih: "map_option hf_value (find (\<lambda>g. hf_id g = j) (rev fs)) = map_of (map (\<lambda>f. (hf_id f, hf_value f)) fs) j"
    using Cons by (simp add: last_value_def)
  show ?case
  proof (cases "find (\<lambda>g. hf_id g = j) (rev fs)")
    case None
    then show ?thesis using ih[symmetric] by (simp add: last_value_def find_append)
  next
    case (Some g)
    then have "hf_id f \<noteq> j" using Cons.prems find_SomeD[OF Some] by auto
    then show ?thesis using Some ih[symmetric] by (simp add: last_value_def find_append)
  qed
qed

text \<open>Copying the fields of a header, as an update of the map of its values.\<close>

lemma fields_set_value:
  assumes "section_wf (mh_section h)" "j < length (sec_arr (mh_section h))"
    and "distinct (map hf_id (section_fields (mh_section src)))"
  shows "section_value (mh_section (mrcp_header_fields_set h src)) j
    = (case field_values src j of Some v \<Rightarrow> Some v | None \<Rightarrow> section_value (mh_section h) j)"
proof -
  have e: "last_value j (section_fields (mh_section src)) = field_values src j"
    using last_value_map_of[OF assms(3)] by (simp add: field_values_def)
  show ?thesis
    using fields_set_fold[OF assms(1,2), of src "section_fields (mh_section src)", unfolded e]
    unfolding mrcp_header_fields_set_def by blast
qed

lemma fields_inherit_value:
  assumes "section_wf (mh_section h)" "j < length (sec_arr (mh_section h))"
  shows "section_value (mh_section (mrcp_header_fields_inherit h src)) j
    = (case section_value (mh_section h) j of Some v \<Rightarrow> Some v | None \<Rightarrow> field_values src j)"
proof -
  have e: "first_value j (section_fields (mh_section src)) = field_values src j"
    using first_value_map_of[of j] by (simp add: field_values_def)
  show ?thesis
    using fields_inherit_fold[OF assms(1,2), of src "section_fields (mh_section src)", unfolded e]
    unfolding mrcp_header_fields_inherit_def by blast
qed

lemma fields_set_arr:
  "length (sec_arr (mh_section (mrcp_header_fields_set h src))) = length (sec_arr (mh_section h))"
proof -
  have "length (sec_arr (mh_section (fold (header_field_set_one src) fs h))) = length (sec_arr (mh_section h))" for fs
    by (induction fs arbitrary: h) simp_all
  then show ?thesis by (simp add: mrcp_header_fields_set_def)
qed

section \<open>Parsing the fields of a header\<close>

lemma value_parse_name [simp]:
  "hf_name (snd (snd (mrcp_header_field_value_parse acc f))) = hf_name f"
  "hf_value (snd (snd (mrcp_header_field_value_parse acc f))) = hf_value f"
  by (auto simp: mrcp_header_field_value_parse_def Let_def split_beta split: option.split)

lemma field_parse_facts [simp]:
  "mh_section (fst (snd (header_field_parse h f))) = mh_section h"
  "hf_name (snd (snd (header_field_parse h f))) = hf_name f"
  "hf_value (snd (snd (header_field_parse h f))) = hf_value f"
  by (auto simp: header_field_parse_def Let_def split_beta)

lemma field_add_header_wf:
  "section_wf (mh_section h) \<Longrightarrow> section_wf (mh_section (snd (mrcp_header_field_add h f)))"
  by (simp add: mrcp_header_field_add_def split_beta field_add_wf)

definition arr_refers :: "header_section \<Rightarrow> (nat \<times> header_field) list \<Rightarrow> bool" where
  "arr_refers sec ring \<longleftrightarrow> (\<forall>i < length (sec_arr sec). \<forall>a. sec_arr sec ! i = Some a \<longrightarrow>
     (\<exists>f. (a, f) \<in> set ring \<and> hf_id f = i))"

lemma arr_refers_set:
  "arr_refers sec ring \<Longrightarrow> arr_refers (snd (apt_header_section_field_set sec (a, f))) (ring @ [(a, f)])"
  by (auto simp: arr_refers_def apt_header_section_field_set_def nth_list_update; blast)

lemma arr_refers_mono: "arr_refers sec r \<Longrightarrow> set r \<subseteq> set r' \<Longrightarrow> arr_refers sec r'"
  unfolding arr_refers_def by blast

text \<open>The text of a field: its address, name and value.\<close>

definition field_text :: "nat \<times> header_field \<Rightarrow> nat \<times> string \<times> string" where
  "field_text e = (fst e, hf_name (snd e), hf_value (snd e))"

lemma set_ring_next [simp]:
  "sec_ring (snd (apt_header_section_field_set sec e)) = sec_ring sec"
  "sec_next (snd (apt_header_section_field_set sec e)) = sec_next sec"
  by (simp_all add: apt_header_section_field_set_def)

lemma fields_parse_loop:
  assumes "arr_refers (mh_section h) pre"
  shows "map field_text (snd (header_fields_parse_loop h rest)) = map field_text rest
    \<and> arr_refers (mh_section (fst (header_fields_parse_loop h rest))) (pre @ snd (header_fields_parse_loop h rest))
    \<and> sec_next (mh_section (fst (header_fields_parse_loop h rest))) = sec_next (mh_section h)"
  using assms
proof (induction h rest arbitrary: pre rule: header_fields_parse_loop.induct)
  case (1 h)
  then show ?case by simp
next
  case (2 h a f rest)
  obtain ok h1 f1 where p: "header_field_parse h f = (ok, h1, f1)" by (metis prod_cases3)
  have f1: "hf_name f1 = hf_name f" "hf_value f1 = hf_value f" "mh_section h1 = mh_section h"
    using field_parse_facts[of h f] p by simp_all
  define h2 where "h2 = (if ok then h1\<lparr>mh_section := snd (apt_header_section_field_set (mh_section h1) (a, f1))\<rparr> else h1)"
  have ar: "arr_refers (mh_section h2) (pre @ [(a, f1)])"
    using "2.prems" arr_refers_set[of "mh_section h" pre a f1] arr_refers_mono[of "mh_section h" pre "pre @ [(a, f1)]"]
    by (auto simp: h2_def f1)
  have nx: "sec_next (mh_section h2) = sec_next (mh_section h)" by (simp add: h2_def f1)
  have ih: "map field_text (snd (header_fields_parse_loop h2 rest)) = map field_text rest
    \<and> arr_refers (mh_section (fst (header_fields_parse_loop h2 rest))) ((pre @ [(a, f1)]) @ snd (header_fields_parse_loop h2 rest))
    \<and> sec_next (mh_section (fst (header_fields_parse_loop h2 rest))) = sec_next (mh_section h2)"
    using "2.IH"[OF p[symmetric] refl refl h2_def ar] by simp
  have step: "header_fields_parse_loop h ((a, f) # rest)
      = (fst (header_fields_parse_loop h2 rest), (a, f1) # snd (header_fields_parse_loop h2 rest))"
    by (simp add: p h2_def split_beta Let_def)
  have tx: "field_text (a, f1) = field_text (a, f)" by (simp add: field_text_def f1)
  show ?case unfolding step using ih nx tx by simp
qed

lemma fields_parse_wf:
  assumes wf: "section_wf (mh_section h)" and e: "list_all (\<lambda>x. x = None) (sec_arr (mh_section h))"
  shows "section_wf (mh_section (mrcp_header_fields_parse h))
    \<and> map field_text (sec_ring (mh_section (mrcp_header_fields_parse h))) = map field_text (sec_ring (mh_section h))"
proof -
  let ?l = "header_fields_parse_loop h (sec_ring (mh_section h))"
  have "arr_refers (mh_section h) []" using e by (simp add: arr_refers_def list_all_length)
  then have l: "map field_text (snd ?l) = map field_text (sec_ring (mh_section h))"
    "arr_refers (mh_section (fst ?l)) (snd ?l)" "sec_next (mh_section (fst ?l)) = sec_next (mh_section h)"
    using fields_parse_loop[of h "[]" "sec_ring (mh_section h)"] by auto
  have fst: "map fst (snd ?l) = map fst (sec_ring (mh_section h))"
  proof -
    have "map fst xs = map fst (map field_text xs)" for xs :: "(nat \<times> header_field) list"
      by (simp add: field_text_def)
    then show ?thesis using l(1) by metis
  qed
  have nx: "\<forall>a \<in> set (map fst (snd ?l)). a < sec_next (mh_section h)"
    unfolding fst using wf by (auto simp: section_wf_def)
  have dist: "distinct (map fst (snd ?l))" unfolding fst using wf by (simp add: section_wf_def)
  show ?thesis
    using l nx dist by (auto simp: mrcp_header_fields_parse_def split_beta section_wf_def arr_refers_def)
qed

text \<open>What parsing the fields finds about the length of the body.\<close>

definition is_content_length :: "header_field \<Rightarrow> bool" where
  "is_content_length f \<longleftrightarrow>
     apt_string_table_id_find generic_header_string_table (hf_name f) = GENERIC_HEADER_CONTENT_LENGTH"

definition vtable_knows :: "'d header_vtable \<Rightarrow> string \<Rightarrow> bool" where
  "vtable_knows vt name \<longleftrightarrow> apt_string_table_id_find (vt_field_table vt) name < length (vt_field_table vt)"

lemma generic_parse_content_length:
  "content_length (snd (mrcp_generic_header_parse g i v)) = (if i = 8 then apt_size_value_parse v else content_length g)"
  by (simp add: mrcp_generic_header_parse_def Let_def)

lemma field_parse_content_length:
  assumes g: "mh_generic h = Some (generic_header_vtable, g)" and r: "mh_resource h = Some (vt, d)"
    and cl: "is_content_length f \<longrightarrow> \<not> vtable_knows vt (hf_name f)"
  shows "\<exists>ok h1 f1 g1 d1. header_field_parse h f = (ok, h1, f1) \<and> mh_generic h1 = Some (generic_header_vtable, g1)
    \<and> mh_resource h1 = Some (vt, d1) \<and> mh_section h1 = mh_section h
    \<and> content_length g1 = (if is_content_length f \<and> hf_value f \<noteq> [] then apt_size_value_parse (hf_value f) else content_length g)
    \<and> (if is_content_length f then ok \<and> hf_id f1 = GENERIC_HEADER_CONTENT_LENGTH
       else ok \<longrightarrow> hf_id f1 \<noteq> GENERIC_HEADER_CONTENT_LENGTH)"
proof -
  let ?i = "apt_string_table_id_find generic_header_string_table (hf_name f)"
  have gp: "\<exists>ok g1 f2. mrcp_header_field_value_parse (Some (generic_header_vtable, g)) f1 = (ok, Some (generic_header_vtable, g1), f2)
    \<and> content_length g1 = (if ?i = 8 \<and> hf_value f \<noteq> [] then apt_size_value_parse (hf_value f) else content_length g)
    \<and> (if ?i = 8 then ok \<and> hf_id f2 = 8 else ok \<longrightarrow> hf_id f2 \<noteq> 8)"
    if "hf_name f1 = hf_name f" "hf_value f1 = hf_value f" for f1
    using that generic_parse_content_length[of g ?i "hf_value f"] generic_parse_known[of ?i g "hf_value f"]
    by (auto simp: mrcp_header_field_value_parse_def generic_header_vtable_def Let_def split: prod.split)
  obtain ok racc f1 where rp: "mrcp_header_field_value_parse (Some (vt, d)) f = (ok, racc, f1)" by (metis prod_cases3)
  obtain d1 where d1: "racc = Some (vt, d1)"
    using rp by (auto simp: mrcp_header_field_value_parse_def Let_def split: if_splits prod.splits)
  have f1: "hf_name f1 = hf_name f" "hf_value f1 = hf_value f"
    using value_parse_name[of "Some (vt, d)" f] rp by simp_all
  have unknown: "\<not> ok" if "is_content_length f"
    using rp cl that by (auto simp: mrcp_header_field_value_parse_def vtable_knows_def Let_def split: if_splits)
  show ?thesis
  proof (cases ok)
    case True
    then have u: "\<not> is_content_length f" using unknown by blast
    have "header_field_parse h f = (True, h\<lparr>mh_resource := Some (vt, d1)\<rparr>, f1\<lparr>hf_id := hf_id f1 + 16\<rparr>)"
      using True rp d1 r by (simp add: header_field_parse_def Let_def GENERIC_HEADER_COUNT_def)
    then show ?thesis using u g by auto
  next
    case False
    obtain ok2 g1 f2 where "mrcp_header_field_value_parse (Some (generic_header_vtable, g)) f1
        = (ok2, Some (generic_header_vtable, g1), f2)"
      "content_length g1 = (if ?i = 8 \<and> hf_value f \<noteq> [] then apt_size_value_parse (hf_value f) else content_length g)"
      "if ?i = 8 then ok2 \<and> hf_id f2 = 8 else ok2 \<longrightarrow> hf_id f2 \<noteq> 8"
      using gp[OF f1] by blast
    then show ?thesis using False rp d1 g r by (simp add: header_field_parse_def Let_def is_content_length_def)
  qed
qed

lemma parse_loop_content_length:
  assumes "mh_generic h = Some (generic_header_vtable, g)" "mh_resource h = Some (vt, d)"
    and "\<And>f. f \<in> set (map snd rest) \<Longrightarrow> is_content_length f \<Longrightarrow> \<not> vtable_knows vt (hf_name f)"
    and "8 < length (sec_arr (mh_section h))"
  shows "\<exists>g' d'. mh_generic (fst (header_fields_parse_loop h rest)) = Some (generic_header_vtable, g')
    \<and> mh_resource (fst (header_fields_parse_loop h rest)) = Some (vt, d')
    \<and> content_length g' = fold (\<lambda>f c. if is_content_length f \<and> hf_value f \<noteq> [] then apt_size_value_parse (hf_value f) else c)
        (map snd rest) (content_length g)
    \<and> apt_header_section_field_check (mh_section (fst (header_fields_parse_loop h rest))) GENERIC_HEADER_CONTENT_LENGTH
        = (apt_header_section_field_check (mh_section h) GENERIC_HEADER_CONTENT_LENGTH
           \<or> list_ex is_content_length (map snd rest))"
  using assms
proof (induction h rest arbitrary: g d rule: header_fields_parse_loop.induct)
  case (1 h)
  then show ?case by simp
next
  case (2 h a f rest)
  obtain ok h1 f1 g1 d1 where p: "header_field_parse h f = (ok, h1, f1)" "mh_generic h1 = Some (generic_header_vtable, g1)"
    "mh_resource h1 = Some (vt, d1)" "mh_section h1 = mh_section h"
    "content_length g1 = (if is_content_length f \<and> hf_value f \<noteq> [] then apt_size_value_parse (hf_value f) else content_length g)"
    "if is_content_length f then ok \<and> hf_id f1 = 8 else ok \<longrightarrow> hf_id f1 \<noteq> 8"
    using field_parse_content_length[OF "2.prems"(1,2), of f] "2.prems"(3) by auto
  define h2 where "h2 = (if ok then h1\<lparr>mh_section := snd (apt_header_section_field_set (mh_section h1) (a, f1))\<rparr> else h1)"
  have h2: "mh_generic h2 = Some (generic_header_vtable, g1)" "mh_resource h2 = Some (vt, d1)"
    "length (sec_arr (mh_section h2)) = length (sec_arr (mh_section h))"
    using p by (simp_all add: h2_def apt_header_section_field_set_def)
  have chk: "apt_header_section_field_check (mh_section h2) 8
      = (apt_header_section_field_check (mh_section h) 8 \<or> is_content_length f)"
    using p(4,6) "2.prems"(4) by (auto simp: h2_def apt_header_section_field_check_def apt_header_section_field_set_def
        nth_list_update split: if_splits)
  have step: "header_fields_parse_loop h ((a, f) # rest)
      = (fst (header_fields_parse_loop h2 rest), (a, f1) # snd (header_fields_parse_loop h2 rest))"
    by (simp add: p h2_def split_beta Let_def)
  obtain g' d' where "mh_generic (fst (header_fields_parse_loop h2 rest)) = Some (generic_header_vtable, g')"
    "mh_resource (fst (header_fields_parse_loop h2 rest)) = Some (vt, d')"
    "content_length g' = fold (\<lambda>f c. if is_content_length f \<and> hf_value f \<noteq> [] then apt_size_value_parse (hf_value f) else c)
        (map snd rest) (content_length g1)"
    "apt_header_section_field_check (mh_section (fst (header_fields_parse_loop h2 rest))) 8
        = (apt_header_section_field_check (mh_section h2) 8 \<or> list_ex is_content_length (map snd rest))"
    using "2.IH"[OF p(1)[symmetric] refl refl h2_def h2(1,2)] "2.prems"(3,4) h2(3) by auto
  then show ?case unfolding step using chk p(5) by auto
qed

section \<open>Lists of request identifiers\<close>

fun ids_text :: "u32 list \<Rightarrow> string" where
  "ids_text [] = []"
| "ids_text [x] = show_nat (unat x)"
| "ids_text (x # y # xs) = show_nat (unat x) @ CHR '','' # ids_text (y # xs)"

lemma show_small_id:
  assumes "(x :: u32) < 10 ^ 9"
  shows "show_int (sint x) = show_nat (unat x)" "length (show_nat (unat x)) \<le> 9"
proof -
  have "x < 2 ^ 31" using assms by (rule order.strict_trans) simp
  then show "show_int (sint x) = show_nat (unat x)" by (rule show_request_id)
  have "unat x < 10 ^ 9" using assms by (simp add: word_less_nat_alt)
  then show "length (show_nat (unat x)) \<le> 9" using length_show_nat_le[of 9 "unat x"] by simp
qed

lemma ids_write:
  assumes "list_all (\<lambda>x. x < 10 ^ 9) xs" "length tx + (if i = 0 then 0 else 1) \<le> 10 * i"
    "len = 11 * (i + length xs) - 1"
  shows "request_id_list_write len i xs tx
    = Some (tx @ (if i = 0 \<or> xs = [] then [] else [CHR '','']) @ ids_text xs)"
  using assms
proof (induction xs arbitrary: i tx rule: ids_text.induct)
  case 1
  then show ?case by (auto split: if_splits)
next
  case (2 x)
  then show ?case using show_small_id[of x] by (auto simp: apr_snprintf_def Let_def split: if_splits)
next
  case (3 x y xs)
  have s: "show_int (sint x) = show_nat (unat x)" "length (show_nat (unat x)) \<le> 9"
    using show_small_id[of x] "3.prems" by auto
  let ?t = "if i \<noteq> 0 then tx @ [CHR '',''] else tx"
  have room: "length ?t + 9 < len" "length ?t \<le> 10 * i" using "3.prems" by (auto split: if_splits)
  have "request_id_list_write len i (x # y # xs) tx
      = request_id_list_write len (Suc i) (y # xs) (?t @ show_nat (unat x))"
    using room s by (auto simp: apr_snprintf_def Let_def)
  also have "\<dots> = Some ((?t @ show_nat (unat x)) @ [CHR '',''] @ ids_text (y # xs))"
    using "3.IH"[of "?t @ show_nat (unat x)" "Suc i"] "3.prems" room s by auto
  finally show ?case by auto
qed

text \<open>A list of identifiers that the array holds is written without a fault, whatever they are.\<close>

lemma show_id_length: "length (show_int (sint (x :: u32))) \<le> 11"
proof -
  have "sint x < 2 ^ 31" "- (2 ^ 31) \<le> sint x"
    using sint_lt[of x] sint_ge[of x] by simp_all
  then have "nat (sint x) < 10 ^ 10" "nat (- sint x) < 10 ^ 10" by simp_all
  then show ?thesis using length_show_nat_le[of 10 "nat (sint x)"] length_show_nat_le[of 10 "nat (- sint x)"]
    by (simp add: show_int_def)
qed

lemma ids_write_total:
  assumes "length tx + 1 \<le> 12 * i \<or> i = 0 \<and> tx = []" and "length tx \<le> len"
    and "12 * (i + length xs) < len + 12"
  shows "\<exists>v. request_id_list_write len i xs tx = Some v"
  using assms
proof (induction xs arbitrary: i tx)
  case Nil
  then show ?case by simp
next
  case (Cons x xs)
  let ?t = "if i \<noteq> 0 then tx @ [CHR '',''] else tx"
  let ?b = "take (len - length ?t - 1) (show_int (sint x))"
  have t: "length ?t \<le> 12 * i" "length ?t < len" using Cons.prems by auto
  have b: "length ?b \<le> 11" "length ?t + length ?b < len" using show_id_length[of x] t(2) by auto
  have "request_id_list_write len i (x # xs) tx = request_id_list_write len (Suc i) xs (?t @ ?b)"
    using t(2) by (auto simp: Let_def apr_snprintf_def)
  moreover have "\<exists>v. request_id_list_write len (Suc i) xs (?t @ ?b) = Some v"
    using t b Cons.prems(3) by (intro Cons.IH) auto
  ultimately show ?case by simp
qed

lemma ids_generate_total:
  assumes "length ids \<le> MAX_ACTIVE_REQUEST_ID_COUNT"
  shows "\<exists>v. mrcp_request_id_list_generate ids = Some v"
proof (cases ids)
  case Nil
  then show ?thesis by (simp add: mrcp_request_id_list_generate_def)
next
  case (Cons x xs)
  then show ?thesis unfolding mrcp_request_id_list_generate_def Let_def
    using assms by (intro ids_write_total) (auto simp: MAX_ACTIVE_REQUEST_ID_COUNT_def)
qed

lemma ids_generate:
  assumes "list_all (\<lambda>x. x < 10 ^ 9) xs"
  shows "mrcp_request_id_list_generate xs = Some (ids_text xs)"
proof (cases xs)
  case Nil
  then show ?thesis by (simp add: mrcp_request_id_list_generate_def)
next
  case (Cons y ys)
  then have "10 * length xs + (if 1 < length xs then length xs - 1 else 0) = 11 * (0 + length xs) - 1"
    by (cases ys) auto
  then show ?thesis using ids_write[OF assms, of "[]" 0] by (simp add: mrcp_request_id_list_generate_def)
qed

lemma ids_text_no_space: "ids_text xs \<noteq> sp # cs"
proof (cases xs)
  case (Cons y ys)
  obtain c ds where "show_nat (unat y) = c # ds" by (cases "show_nat (unat y)") auto
  moreover from this have "c \<noteq> sp" using show_nat_no_sep(1)[of "unat y"] by auto
  ultimately show ?thesis using Cons by (cases ys) auto
qed simp

lemma show_nat_no_comma [simp]: "CHR '','' \<notin> set (show_nat n)"
  by (auto simp: is_digit_def dest!: show_nat_digits)

lemma ids_read:
  assumes "list_all (\<lambda>x. x < 2 ^ 31) xs" "length xs \<le> n" "ts_rest s = ids_text xs"
  shows "request_id_list_read n s acc = acc @ xs"
  using assms
proof (induction xs arbitrary: n s acc rule: ids_text.induct)
  case 1
  then show ?case by (cases n) (simp_all add: field_read_empty)
next
  case (2 x)
  then obtain m where n: "n = Suc m" by (cases n) auto
  have nsp: "\<not> (\<exists>cs. ts_rest s = sp # cs)" using ids_text_no_space[of "[x]"] "2.prems"(3) by auto
  have rd: "apt_text_field_read s (CHR '','') True
      = (True, show_nat (unat x), show_nat (unat x), ts_advance (length (show_nat (unat x))) s)"
    using field_read_takeWhile[OF nsp, of "CHR '',''"] "2.prems"(3) by simp
  have "request_id_list_read m (ts_advance (length (show_nat (unat x))) s) (acc @ [x]) = acc @ [x]"
    using "2.prems"(3) by (cases m) (simp_all add: field_read_empty)
  then show ?case
    using request_id_parse_show[of x "[]"] "2.prems"(1) by (simp add: n rd)
next
  case (3 x y xs)
  then obtain m where n: "n = Suc m" by (cases n) auto
  have nsp: "\<not> (\<exists>cs. ts_rest s = sp # cs)" using ids_text_no_space[of "x # y # xs"] "3.prems"(3) by auto
  let ?s = "ts_advance (length (show_nat (unat x)) + 1) s"
  have rd: "apt_text_field_read s (CHR '','') True
      = (True, show_nat (unat x), show_nat (unat x) @ CHR '','' # ids_text (y # xs), ?s)"
    using field_read_takeWhile[OF nsp, of "CHR '',''"] "3.prems"(3) by simp
  have "unat x < 2 ^ 63" using unat_small[of x] "3.prems"(1) by simp
  then have "atol (show_nat (unat x) @ CHR '','' # ids_text (y # xs)) = int (unat x)"
    by (intro atol_show_nat_append) (auto simp: is_digit_def)
  then have x: "mrcp_request_id_parse (show_nat (unat x) @ CHR '','' # ids_text (y # xs)) = x"
    by (simp add: mrcp_request_id_parse_def)
  have "request_id_list_read m ?s (acc @ [x]) = (acc @ [x]) @ y # xs"
    using "3.prems" n by (intro "3.IH") auto
  then show ?case by (simp add: n rd x)
qed

lemma small_id_31:
  assumes "(x :: u32) < 10 ^ 9"
  shows "x < 2 ^ 31"
  using assms by (rule order.strict_trans) simp

lemma ids_roundtrip:
  assumes "list_all (\<lambda>x. x < 10 ^ 9) xs" "length xs \<le> MAX_ACTIVE_REQUEST_ID_COUNT"
  shows "map_option mrcp_request_id_list_parse (mrcp_request_id_list_generate xs) = Some xs"
proof -
  have "list_all (\<lambda>x. x < 2 ^ 31) xs" using assms(1) small_id_31 by (simp add: list_all_iff)
  then show ?thesis
    using ids_generate[OF assms(1)] ids_read[of xs MAX_ACTIVE_REQUEST_ID_COUNT "apt_text_stream_of (ids_text xs)" "[]"]
      assms(2) by (simp add: mrcp_request_id_list_parse_def apt_text_stream_of_def)
qed

text \<open>A channel identifier that was generated is found and read back.\<close>

lemma channel_id_text:
  assumes "length (os_text s) + length (ch_session_id ch) + length (ch_resource_name ch) + 24 < os_size s"
  shows "mrcp_channel_id_generate ch s
    = (True, os_write (MRCP_CHANNEL_ID @ [CHR '':'', sp]
        @ apt_id_resource_generate (ch_session_id ch) (ch_resource_name ch) (CHR ''@'') @ [cr, lf]) s)"
proof -
  have "length MRCP_CHANNEL_ID = 18" by (simp add: MRCP_CHANNEL_ID_def)
  then show ?thesis
    using assms by (simp add: mrcp_channel_id_generate_def apt_text_eol_insert_def apt_id_resource_generate_def)
qed

section \<open>Properties\<close>

text \<open>
  A list of up to five request identifiers below a thousand million is read back as it was
  written.
\<close>

theorem request_id_list_roundtrip:
  assumes "list_all (\<lambda>x. x < 10 ^ 9) ids" and "length ids \<le> MAX_ACTIVE_REQUEST_ID_COUNT"
  shows "\<exists>v. mrcp_request_id_list_generate ids = Some v \<and> mrcp_request_id_list_parse v = ids"
  using ids_roundtrip[OF assms] by auto

lemma request_id_list_roundtrip_witness:
  "\<exists>v. mrcp_request_id_list_generate [543257, 543258] = Some v \<and> mrcp_request_id_list_parse v = [543257, 543258]"
  by (rule request_id_list_roundtrip) (simp_all add: MAX_ACTIVE_REQUEST_ID_COUNT_def)

text \<open>
  The buffer for a list of request identifiers counts ten digits for each but forgets the
  terminating zero \<open>apr_snprintf\<close> writes: the last digit of a ten-digit identifier at the end of
  the list is cut off, and another request is named.
\<close>

theorem request_id_list_truncated:
  "mrcp_request_id_list_generate [1234567890] = Some ''123456789''
    \<and> mrcp_request_id_list_parse ''123456789'' = [123456789]"
proof
  have d: "show_int 1234567890 = ''1234567890''"
    by (simp add: show_int_def show_nat.simps digit_chars)
  show "mrcp_request_id_list_generate [1234567890] = Some ''123456789''"
    by (simp add: mrcp_request_id_list_generate_def d apr_snprintf_def)
  have "ids_text [123456789] = ''123456789''" by (simp add: show_nat.simps digit_chars)
  then show "mrcp_request_id_list_parse ''123456789'' = [123456789]"
    using ids_read[of "[123456789]" MAX_ACTIVE_REQUEST_ID_COUNT "apt_text_stream_of ''123456789''" "[]"]
    by (simp add: mrcp_request_id_list_parse_def apt_text_stream_of_def MAX_ACTIVE_REQUEST_ID_COUNT_def)
qed

text \<open>
  C31: \<open>mrcp_header_fields_set\<close> and \<open>mrcp_header_fields_inherit\<close> merge two headers as maps from
  field identifiers to values: \<open>set\<close> gives the source precedence, \<open>inherit\<close> the target.
\<close>

theorem header_fields_merge:
  assumes "section_wf (mh_section h)" and "j < length (sec_arr (mh_section h))"
    and "distinct (map hf_id (section_fields (mh_section src)))"
  shows "section_value (mh_section (mrcp_header_fields_set h src)) j
      = (case field_values src j of Some v \<Rightarrow> Some v | None \<Rightarrow> section_value (mh_section h) j)
    \<and> section_value (mh_section (mrcp_header_fields_inherit h src)) j
      = (case section_value (mh_section h) j of Some v \<Rightarrow> Some v | None \<Rightarrow> field_values src j)"
  using fields_set_value[OF assms] fields_inherit_value[OF assms(1,2)] by blast

definition sample_header :: "(nat \<times> string) list \<Rightarrow> unit mrcp_message_header" where
  "sample_header fs = \<lparr>mh_generic = Some (generic_header_vtable, mrcp_generic_header_init), mh_resource = None,
     mh_section = fold (\<lambda>(i, v) sec. snd (apt_header_section_field_add sec \<lparr>hf_name = ''x'', hf_value = v, hf_id = i\<rparr>)) fs
       \<lparr>sec_ring = [], sec_arr = replicate 16 None, sec_next = 0\<rparr>\<rparr>"

lemma sample_header_wf: "section_wf (mh_section (sample_header fs))"
proof -
  have "section_wf (fold (\<lambda>(i, v) sec. snd (apt_header_section_field_add sec \<lparr>hf_name = ''x'', hf_value = v, hf_id = i\<rparr>)) fs sec)"
    if "section_wf sec" for sec
    using that by (induction fs arbitrary: sec) (auto simp: field_add_wf)
  then show ?thesis by (simp add: sample_header_def section_wf_def)
qed

lemma header_fields_merge_witness:
  "section_value (mh_section (mrcp_header_fields_set (sample_header [(10, ''a''), (12, ''b'')]) (sample_header [(12, ''c'')]))) 12
    = Some ''c''"
proof -
  have a: "12 < length (sec_arr (mh_section (sample_header [(10, ''a''), (12, ''b'')])))"
    "distinct (map hf_id (section_fields (mh_section (sample_header [(12, ''c'')]))))"
    "field_values (sample_header [(12, ''c'')]) 12 = Some ''c''"
    by (simp_all add: sample_header_def section_fields_def apt_header_section_field_add_def ring_insert_tail_def field_values_def)
  show ?thesis using header_fields_merge[OF sample_header_wf a(1,2)] a(3) by simp
qed

text \<open>
  Parsing the fields of a header keeps their order, names and values, whatever a resource's
  parser does, and leaves a consistent section: each identified field is found in the slot of
  its identifier.
\<close>

theorem header_fields_parse_consistent:
  assumes "section_wf (mh_section h)" and "list_all (\<lambda>x. x = None) (sec_arr (mh_section h))"
  shows "section_wf (mh_section (mrcp_header_fields_parse h))
    \<and> map field_text (sec_ring (mh_section (mrcp_header_fields_parse h))) = map field_text (sec_ring (mh_section h))"
  by (rule fields_parse_wf[OF assms])

lemma header_fields_parse_consistent_witness:
  "section_wf (mh_section (mrcp_header_fields_parse (sample_header [(100, ''a''), (101, ''b'')])))"
  using header_fields_parse_consistent[OF sample_header_wf, of "[(100, ''a''), (101, ''b'')]"]
  by (simp add: sample_header_def apt_header_section_field_add_def ring_insert_tail_def list_all_iff)

text \<open>The generic headers whose numbers and lists fit their texts.\<close>

definition generic_header_ok :: "mrcp_generic_header \<Rightarrow> bool" where
  "generic_header_ok h \<longleftrightarrow> list_all (\<lambda>x. x < 10 ^ 9) (active_request_id_list h)
     \<and> length (active_request_id_list h) \<le> MAX_ACTIVE_REQUEST_ID_COUNT
     \<and> content_length h < 2 ^ 63 \<and> fetch_timeout h < 2 ^ 63
     \<and> (case vendor_specific_params h of None \<Rightarrow> True | Some ps \<Rightarrow> list_all pair_ok ps)"

lemma vendor_params_generate:
  assumes "vendor_specific_params h = Some ps" "list_all pair_ok ps"
  shows "mrcp_generic_header_generate h GENERIC_HEADER_VENDOR_SPECIFIC_PARAMS
    = Some (snd (apt_pair_array_generate ps))"
proof -
  have "list_all (\<lambda>p. pair_name p \<noteq> []) ps" using assms(2) by (auto simp: list_all_iff pair_ok_def)
  then show ?thesis using assms(1) by (simp add: mrcp_generic_header_generate_def pair_array_generate_text)
qed

text \<open>
  C30: Every field of a generic header that was generated is parsed back: parsing the text into
  another header succeeds and that header generates the same text for the field.
\<close>

theorem generic_header_roundtrip:
  assumes ok: "generic_header_ok h" and i: "i < GENERIC_HEADER_COUNT" and n: "vendor_specific_params h' = None"
  shows "\<exists>v. mrcp_generic_header_generate h i = Some v \<and> fst (mrcp_generic_header_parse h' i v)
    \<and> mrcp_generic_header_generate (snd (mrcp_generic_header_parse h' i v)) i = Some v"
proof -
  have "i \<in> {0, 1, 2, 3, 4, 5, 6, 7, 8, 9, 10, 11, 12, 13, 14, 15}"
    using i by (simp add: GENERIC_HEADER_COUNT_def) arith
  then consider (ids) "i = GENERIC_HEADER_ACTIVE_REQUEST_ID_LIST" | (params) "i = GENERIC_HEADER_VENDOR_SPECIFIC_PARAMS"
    | (size) "i \<in> {GENERIC_HEADER_CONTENT_LENGTH, GENERIC_HEADER_FETCH_TIMEOUT}"
    | (str) "i \<in> {1, 2, 3, 4, 5, 6, 7, 9, 10, 12, 14, 15}"
    by auto
  then show ?thesis
  proof cases
    case ids
    obtain v where "mrcp_request_id_list_generate (active_request_id_list h) = Some v"
      "mrcp_request_id_list_parse v = active_request_id_list h"
      using ids_roundtrip[of "active_request_id_list h"] ok by (auto simp: generic_header_ok_def)
    then show ?thesis using ids by (simp add: mrcp_generic_header_generate_def mrcp_generic_header_parse_def)
  next
    case params
    show ?thesis
    proof (cases "vendor_specific_params h")
      case None
      then show ?thesis using params n
        by (simp add: mrcp_generic_header_generate_def mrcp_generic_header_parse_def apt_pair_array_parse_def
            pair_array_loop.simps apt_text_field_read_def apt_text_spaces_skip_def apt_text_stream_of_def
            apt_pair_array_generate_def)
    next
      case (Some ps)
      then have g: "mrcp_generic_header_generate h i = Some (snd (apt_pair_array_generate ps))"
        using vendor_params_generate[OF Some] ok params by (simp add: generic_header_ok_def)
      have "snd (mrcp_generic_header_parse h' i (snd (apt_pair_array_generate ps))) = h'\<lparr>vendor_specific_params := Some ps\<rparr>"
        "fst (mrcp_generic_header_parse h' i (snd (apt_pair_array_generate ps)))"
        using params n pair_array_roundtrip[of ps "[]"] ok Some
        by (simp_all add: mrcp_generic_header_parse_def generic_header_ok_def)
      then show ?thesis using g vendor_params_generate[of "h'\<lparr>vendor_specific_params := Some ps\<rparr>" ps] ok Some params by (simp add: generic_header_ok_def)
    qed
  next
    case size
    then show ?thesis using ok size_roundtrip[of "content_length h"] size_roundtrip[of "fetch_timeout h"]
      by (auto simp: mrcp_generic_header_generate_def mrcp_generic_header_parse_def generic_header_ok_def)
  next
    case str
    then show ?thesis by (auto simp: mrcp_generic_header_generate_def mrcp_generic_header_parse_def)
  qed
qed

lemma generic_header_roundtrip_witness:
  "\<exists>v. mrcp_generic_header_generate (mrcp_generic_header_init\<lparr>content_length := 42\<rparr>) 8 = Some v
    \<and> fst (mrcp_generic_header_parse mrcp_generic_header_init 8 v)"
  using generic_header_roundtrip[of "mrcp_generic_header_init\<lparr>content_length := 42\<rparr>" 8 mrcp_generic_header_init]
  by (auto simp: generic_header_ok_def mrcp_generic_header_init_def GENERIC_HEADER_COUNT_def)

end
