(* ===== verification/Mrcp_Message.thy ===== *)
theory Mrcp_Message
  imports Mrcp_Header
begin

text \<open>
  \<open>libs/mrcp/message/src/mrcp_message.c\<close> and the inline functions of \<open>mrcp_message.h\<close>: MRCP
  messages, how responses and events are made from a request, and the header fields of a
  message by identifier.
\<close>

record 'r mrcp_resource =
  res_id :: nat
  res_name :: string
  res_method_count :: nat
  res_event_count :: nat
  res_method_table :: "mrcp_version \<Rightarrow> str_table"
  res_event_table :: "mrcp_version \<Rightarrow> str_table"
  res_header_vtable :: "mrcp_version \<Rightarrow> 'r header_vtable option"

record 'r mrcp_message =
  msg_start_line :: mrcp_start_line
  msg_channel_id :: mrcp_channel_id
  msg_header :: "'r mrcp_message_header"
  msg_body :: string
  msg_resource :: "'r mrcp_resource option"

definition mrcp_generic_header_vtable_get :: "mrcp_version \<Rightarrow> mrcp_generic_header header_vtable option" where
  "mrcp_generic_header_vtable_get version = Some generic_header_vtable"

definition set_start_line :: "(mrcp_start_line \<Rightarrow> mrcp_start_line) \<Rightarrow> 'r mrcp_message \<Rightarrow> 'r mrcp_message" where
  "set_start_line f m = m\<lparr>msg_start_line := f (msg_start_line m)\<rparr>"

definition msg_header_alloc :: "'r mrcp_resource \<Rightarrow> 'r mrcp_message \<Rightarrow> 'r mrcp_message" where
  "msg_header_alloc r m =
     m\<lparr>msg_header := snd (mrcp_message_header_data_alloc (msg_header m)
         (mrcp_generic_header_vtable_get (sl_version (msg_start_line m)))
         (res_header_vtable r (sl_version (msg_start_line m))))\<rparr>"

text \<open>By resource: the method name from the method id.\<close>

definition mrcp_message_resource_set_by_id ::
  "'r mrcp_message \<Rightarrow> 'r mrcp_resource option \<Rightarrow> bool \<times> 'r mrcp_message" where
  "mrcp_message_resource_set_by_id m resource =
     (case resource of
        None \<Rightarrow> (False, m)
      | Some r \<Rightarrow>
          (let m1 = m\<lparr>msg_resource := Some r,
                      msg_channel_id := (msg_channel_id m)\<lparr>ch_resource_name := res_name r\<rparr>\<rparr>;
               m2 = msg_header_alloc r m1;
               sl = msg_start_line m2;
               from_table = (\<lambda>table count.
                 case apt_string_table_str_get (take count table) (sl_method_id sl) of
                   None \<Rightarrow> (False, m2)
                 | Some name \<Rightarrow> (True, set_start_line (\<lambda>sl. sl\<lparr>sl_method_name := name\<rparr>) m2))
           in if sl_message_type sl = MRCP_MESSAGE_TYPE_REQUEST
              then from_table (res_method_table r (sl_version sl)) (res_method_count r)
              else if sl_message_type sl = MRCP_MESSAGE_TYPE_EVENT
              then from_table (res_event_table r (sl_version sl)) (res_event_count r)
              else (True, m2)))"

text \<open>By resource: the method id from the method name.\<close>

definition mrcp_message_resource_set ::
  "'r mrcp_message \<Rightarrow> 'r mrcp_resource option \<Rightarrow> bool \<times> 'r mrcp_message" where
  "mrcp_message_resource_set m resource =
     (case resource of
        None \<Rightarrow> (False, m)
      | Some r \<Rightarrow>
          (let m1 = msg_header_alloc r (m\<lparr>msg_resource := Some r\<rparr>);
               sl = msg_start_line m1;
               from_table = (\<lambda>table count.
                 let i = apt_string_table_id_find (take count table) (sl_method_name sl);
                     m2 = set_start_line (\<lambda>sl. sl\<lparr>sl_method_id := i\<rparr>) m1
                 in (i < count, m2))
           in if sl_message_type sl = MRCP_MESSAGE_TYPE_REQUEST
              then from_table (res_method_table r (sl_version sl)) (res_method_count r)
              else if sl_message_type sl = MRCP_MESSAGE_TYPE_EVENT
              then from_table (res_event_table r (sl_version sl)) (res_event_count r)
              else (True, m1)))"

text \<open>\<open>m\<close> is what the pool's memory holds in the method id, which is not initialised.\<close>

definition mrcp_message_create :: "nat \<Rightarrow> 'r mrcp_message" where
  "mrcp_message_create m =
     \<lparr>msg_start_line = mrcp_start_line_init m, msg_channel_id = mrcp_channel_id_init,
      msg_header = mrcp_message_header_init, msg_body = [], msg_resource = None\<rparr>"

definition mrcp_request_create ::
  "'r mrcp_resource option \<Rightarrow> mrcp_version \<Rightarrow> nat \<Rightarrow> 'r mrcp_message" where
  "mrcp_request_create resource version method_id =
     (let m = set_start_line (\<lambda>sl. sl\<lparr>sl_message_type := MRCP_MESSAGE_TYPE_REQUEST,
                sl_version := version, sl_method_id := method_id\<rparr>) (mrcp_message_create 0)
      in snd (mrcp_message_resource_set_by_id m resource))"

definition mrcp_response_create :: "'r mrcp_message option \<Rightarrow> 'r mrcp_message" where
  "mrcp_response_create request =
     (let m = set_start_line (\<lambda>sl. sl\<lparr>sl_message_type := MRCP_MESSAGE_TYPE_RESPONSE,
                sl_request_state := MRCP_REQUEST_STATE_COMPLETE,
                sl_status_code := MRCP_STATUS_CODE_SUCCESS\<rparr>) (mrcp_message_create 0)
      in case request of
           None \<Rightarrow> m
         | Some req \<Rightarrow>
             (let rsl = msg_start_line req;
                  m1 = m\<lparr>msg_channel_id := msg_channel_id req\<rparr>;
                  m2 = set_start_line (\<lambda>sl. sl\<lparr>sl_request_id := sl_request_id rsl,
                         sl_version := sl_version rsl, sl_method_id := sl_method_id rsl,
                         sl_method_name := sl_method_name rsl\<rparr>) m1
              in snd (mrcp_message_resource_set_by_id m2 (msg_resource req))))"

definition mrcp_event_create :: "'r mrcp_message option \<Rightarrow> nat \<Rightarrow> 'r mrcp_message" where
  "mrcp_event_create request event_id =
     (let m = set_start_line (\<lambda>sl. sl\<lparr>sl_message_type := MRCP_MESSAGE_TYPE_EVENT,
                sl_method_id := event_id\<rparr>) (mrcp_message_create 0)
      in case request of
           None \<Rightarrow> m
         | Some req \<Rightarrow>
             (let rsl = msg_start_line req;
                  m1 = m\<lparr>msg_channel_id := msg_channel_id req\<rparr>;
                  m2 = set_start_line (\<lambda>sl. sl\<lparr>sl_request_id := sl_request_id rsl,
                         sl_version := sl_version rsl\<rparr>) m1
              in snd (mrcp_message_resource_set_by_id m2 (msg_resource req))))"

section \<open>Header fields of a message\<close>

definition mrcp_generic_header_get :: "'r mrcp_message \<Rightarrow> mrcp_generic_header option" where
  "mrcp_generic_header_get m = map_option snd (mh_generic (msg_header m))"

definition mrcp_resource_header_get :: "'r mrcp_message \<Rightarrow> 'r option" where
  "mrcp_resource_header_get m = map_option snd (mh_resource (msg_header m))"

text \<open>
  \<open>mrcp_generic_header_prepare\<close> and \<open>mrcp_resource_header_prepare\<close> return the data the accessor
  has, null without a table of functions; the callers write to the data they get.
\<close>

definition mrcp_generic_header_prepare :: "'r mrcp_message \<Rightarrow> mrcp_generic_header option" where
  "mrcp_generic_header_prepare m = mrcp_generic_header_get m"

definition mrcp_resource_header_prepare :: "'r mrcp_message \<Rightarrow> 'r option" where
  "mrcp_resource_header_prepare m = mrcp_resource_header_get m"

definition generic_header_write ::
  "(mrcp_generic_header \<Rightarrow> mrcp_generic_header) \<Rightarrow> 'r mrcp_message \<Rightarrow> 'r mrcp_message" where
  "generic_header_write f m =
     m\<lparr>msg_header := (msg_header m)\<lparr>mh_generic := map_option (\<lambda>(vt, d). (vt, f d)) (mh_generic (msg_header m))\<rparr>\<rparr>"

definition resource_header_write :: "('r \<Rightarrow> 'r) \<Rightarrow> 'r mrcp_message \<Rightarrow> 'r mrcp_message" where
  "resource_header_write f m =
     m\<lparr>msg_header := (msg_header m)\<lparr>mh_resource := map_option (\<lambda>(vt, d). (vt, f d)) (mh_resource (msg_header m))\<rparr>\<rparr>"

definition header_property_add ::
  "'r mrcp_message \<Rightarrow> header_field option \<Rightarrow> nat \<Rightarrow> bool \<times> 'r mrcp_message" where
  "header_property_add m field i =
     (case field of
        None \<Rightarrow> (False, m)
      | Some f \<Rightarrow>
          (let (ok, sec) = apt_header_section_field_add (mh_section (msg_header m)) (f\<lparr>hf_id := i\<rparr>)
           in (ok, m\<lparr>msg_header := (msg_header m)\<lparr>mh_section := sec\<rparr>\<rparr>)))"

definition mrcp_generic_header_property_add :: "'r mrcp_message \<Rightarrow> nat \<Rightarrow> bool \<times> 'r mrcp_message" where
  "mrcp_generic_header_property_add m i =
     header_property_add m (mrcp_header_field_value_generate (mh_generic (msg_header m)) i False) i"

definition mrcp_generic_header_name_property_add :: "'r mrcp_message \<Rightarrow> nat \<Rightarrow> bool \<times> 'r mrcp_message" where
  "mrcp_generic_header_name_property_add m i =
     header_property_add m (mrcp_header_field_value_generate (mh_generic (msg_header m)) i True) i"

definition mrcp_resource_header_property_add :: "'r mrcp_message \<Rightarrow> nat \<Rightarrow> bool \<times> 'r mrcp_message" where
  "mrcp_resource_header_property_add m i =
     header_property_add m (mrcp_header_field_value_generate (mh_resource (msg_header m)) i False)
       (i + GENERIC_HEADER_COUNT)"

definition mrcp_resource_header_name_property_add :: "'r mrcp_message \<Rightarrow> nat \<Rightarrow> bool \<times> 'r mrcp_message" where
  "mrcp_resource_header_name_property_add m i =
     header_property_add m (mrcp_header_field_value_generate (mh_resource (msg_header m)) i True)
       (i + GENERIC_HEADER_COUNT)"

definition mrcp_generic_header_property_remove :: "'r mrcp_message \<Rightarrow> nat \<Rightarrow> bool \<times> 'r mrcp_message" where
  "mrcp_generic_header_property_remove m i =
     (let sec = mh_section (msg_header m) in
      case apt_header_section_field_get sec i of
        None \<Rightarrow> (False, m)
      | Some a \<Rightarrow>
          (case section_field_at sec a of
             None \<Rightarrow> (False, m)
           | Some f \<Rightarrow>
               (True, m\<lparr>msg_header := (msg_header m)\<lparr>mh_section := apt_header_section_field_remove sec (a, f)\<rparr>\<rparr>)))"

definition mrcp_generic_header_property_check :: "'r mrcp_message \<Rightarrow> nat \<Rightarrow> bool" where
  "mrcp_generic_header_property_check m i = apt_header_section_field_check (mh_section (msg_header m)) i"

definition mrcp_resource_header_property_check :: "'r mrcp_message \<Rightarrow> nat \<Rightarrow> bool" where
  "mrcp_resource_header_property_check m i =
     apt_header_section_field_check (mh_section (msg_header m)) (i + GENERIC_HEADER_COUNT)"

definition mrcp_message_validate :: "'r mrcp_message \<Rightarrow> bool \<times> 'r mrcp_message" where
  "mrcp_message_validate m =
     (if msg_body m \<noteq> [] then
        (case mrcp_generic_header_prepare m of
           None \<Rightarrow> (False, m)
         | Some gh \<Rightarrow>
             if \<not> mrcp_generic_header_property_check m GENERIC_HEADER_CONTENT_LENGTH
                \<or> content_length gh = 0
             then (True, snd (mrcp_generic_header_property_add
                    (generic_header_write (\<lambda>h. h\<lparr>content_length := length (msg_body m)\<rparr>) m)
                    GENERIC_HEADER_CONTENT_LENGTH))
             else (True, m))
      else (True, m))"

definition mrcp_resource_header_property_remove :: "'r mrcp_message \<Rightarrow> nat \<Rightarrow> bool \<times> 'r mrcp_message" where
  "mrcp_resource_header_property_remove m i =
     mrcp_generic_header_property_remove m (i + GENERIC_HEADER_COUNT)"

definition mrcp_message_header_field_add :: "'r mrcp_message \<Rightarrow> header_field \<Rightarrow> bool \<times> 'r mrcp_message" where
  "mrcp_message_header_field_add m f =
     (let (ok, h) = mrcp_header_field_add (msg_header m) f in (ok, m\<lparr>msg_header := h\<rparr>))"

section \<open>Start lines of the messages created\<close>

text \<open>The parts of a start line the state machines look at.\<close>

abbreviation msg_request_id :: "'r mrcp_message \<Rightarrow> u32" where
  "msg_request_id m \<equiv> sl_request_id (msg_start_line m)"

abbreviation msg_method_id :: "'r mrcp_message \<Rightarrow> nat" where
  "msg_method_id m \<equiv> sl_method_id (msg_start_line m)"

abbreviation msg_type :: "'r mrcp_message \<Rightarrow> mrcp_message_type" where
  "msg_type m \<equiv> sl_message_type (msg_start_line m)"

abbreviation msg_request_state :: "'r mrcp_message \<Rightarrow> mrcp_request_state" where
  "msg_request_state m \<equiv> sl_request_state (msg_start_line m)"

abbreviation msg_status_code :: "'r mrcp_message \<Rightarrow> nat" where
  "msg_status_code m \<equiv> sl_status_code (msg_start_line m)"

lemma set_by_id_start_line:
  "\<exists>n. msg_start_line (snd (mrcp_message_resource_set_by_id m r)) = (msg_start_line m)\<lparr>sl_method_name := n\<rparr>"
proof -
  have self: "sl = sl\<lparr>sl_method_name := sl_method_name sl\<rparr>" for sl :: mrcp_start_line by simp
  show ?thesis
    by (auto simp: mrcp_message_resource_set_by_id_def msg_header_alloc_def set_start_line_def Let_def
        split: option.split intro: self exI[of _ "sl_method_name (msg_start_line m)"])
qed

lemma set_by_id_facts [simp]:
  "msg_request_id (snd (mrcp_message_resource_set_by_id m r)) = msg_request_id m"
  "msg_method_id (snd (mrcp_message_resource_set_by_id m r)) = msg_method_id m"
  "msg_type (snd (mrcp_message_resource_set_by_id m r)) = msg_type m"
  "msg_request_state (snd (mrcp_message_resource_set_by_id m r)) = msg_request_state m"
  "msg_status_code (snd (mrcp_message_resource_set_by_id m r)) = msg_status_code m"
  "sl_version (msg_start_line (snd (mrcp_message_resource_set_by_id m r))) = sl_version (msg_start_line m)"
  using set_by_id_start_line[of m r] by auto

lemma response_create_facts [simp]:
  "msg_request_id (mrcp_response_create (Some req)) = msg_request_id req"
  "msg_method_id (mrcp_response_create (Some req)) = msg_method_id req"
  "msg_type (mrcp_response_create (Some req)) = MRCP_MESSAGE_TYPE_RESPONSE"
  "msg_request_state (mrcp_response_create (Some req)) = MRCP_REQUEST_STATE_COMPLETE"
  "msg_status_code (mrcp_response_create (Some req)) = MRCP_STATUS_CODE_SUCCESS"
  "sl_version (msg_start_line (mrcp_response_create (Some req))) = sl_version (msg_start_line req)"
  by (simp_all add: mrcp_response_create_def set_start_line_def Let_def)

lemma event_create_facts [simp]:
  "msg_request_id (mrcp_event_create (Some req) e) = msg_request_id req"
  "msg_method_id (mrcp_event_create (Some req) e) = e"
  "msg_type (mrcp_event_create (Some req) e) = MRCP_MESSAGE_TYPE_EVENT"
  "sl_version (msg_start_line (mrcp_event_create (Some req) e)) = sl_version (msg_start_line req)"
  by (simp_all add: mrcp_event_create_def set_start_line_def Let_def)

lemma request_create_facts [simp]:
  "msg_method_id (mrcp_request_create r v i) = i"
  "msg_type (mrcp_request_create r v i) = MRCP_MESSAGE_TYPE_REQUEST"
  "sl_version (msg_start_line (mrcp_request_create r v i)) = v"
  by (simp_all add: mrcp_request_create_def set_start_line_def Let_def)

lemma write_start_line [simp]:
  "msg_start_line (generic_header_write f m) = msg_start_line m"
  "msg_start_line (resource_header_write g m) = msg_start_line m"
  "msg_resource (generic_header_write f m) = msg_resource m"
  "msg_resource (resource_header_write g m) = msg_resource m"
  by (simp_all add: generic_header_write_def resource_header_write_def)

lemma property_add_start_line [simp]:
  "msg_start_line (snd (header_property_add m f i)) = msg_start_line m"
  "msg_start_line (snd (mrcp_generic_header_property_add m i)) = msg_start_line m"
  "msg_start_line (snd (mrcp_resource_header_property_add m i)) = msg_start_line m"
  by (simp_all add: header_property_add_def mrcp_generic_header_property_add_def
      mrcp_resource_header_property_add_def split_beta split: option.split)

text \<open>A message created for a resource knows its method and event names.\<close>

lemma request_create_name:
  assumes "i < length (res_method_table r v)" "i < res_method_count r"
  shows "sl_method_name (msg_start_line (mrcp_request_create (Some r) v i)) = st_value (res_method_table r v ! i)"
  using assms by (simp add: mrcp_request_create_def mrcp_message_resource_set_by_id_def set_start_line_def
      msg_header_alloc_def apt_string_table_str_get_def Let_def)

section \<open>Fields that were added are there\<close>

definition msg_wf :: "'r mrcp_message \<Rightarrow> bool" where
  "msg_wf m \<longleftrightarrow> section_wf (mh_section (msg_header m))"

definition msg_field :: "'r mrcp_message \<Rightarrow> nat \<Rightarrow> header_field option" where
  "msg_field m i = section_lookup (mh_section (msg_header m)) i"

lemma property_add_new:
  assumes wf: "msg_wf m" and new: "\<not> mrcp_generic_header_property_check m i"
    and i: "i < length (sec_arr (mh_section (msg_header m)))"
  shows "fst (header_property_add m (Some f) i)"
    and "msg_wf (snd (header_property_add m (Some f) i))"
    and "msg_field (snd (header_property_add m (Some f) i)) i = Some (f\<lparr>hf_id := i\<rparr>)"
proof -
  let ?sec = "mh_section (msg_header m)"
  have g: "apt_header_section_field_get ?sec (hf_id (f\<lparr>hf_id := i\<rparr>)) = None"
    using new i by (simp add: mrcp_generic_header_property_check_def apt_header_section_field_check_def
        apt_header_section_field_get_def)
  have w: "section_wf ?sec" using wf by (simp add: msg_wf_def)
  show "fst (header_property_add m (Some f) i)" "msg_wf (snd (header_property_add m (Some f) i))"
    "msg_field (snd (header_property_add m (Some f) i)) i = Some (f\<lparr>hf_id := i\<rparr>)"
    using field_add_lookup[OF w g i] field_add_wf[OF w]
    by (simp_all add: header_property_add_def split_beta msg_wf_def msg_field_def)
qed

lemma property_add_taken:
  assumes "mrcp_generic_header_property_check m i"
  shows "header_property_add m f i = (False, m)"
  using assms field_add_taken[of "mh_section (msg_header m)" "(the f)\<lparr>hf_id := i\<rparr>"]
  by (cases f) (auto simp: header_property_add_def mrcp_generic_header_property_check_def
      apt_header_section_field_check_def apt_header_section_field_get_def split: if_splits)

lemma msg_field_check: "msg_field m i = Some f \<Longrightarrow> mrcp_generic_header_property_check m i"
  by (auto simp: msg_field_def section_lookup_def bind_eq_Some_conv apt_header_section_field_get_def
      mrcp_generic_header_property_check_def apt_header_section_field_check_def split: if_splits)

section \<open>Properties\<close>

text \<open>
  Validating a message with a body and without a Content-Length field adds one, whose value
  is the length of the body and is read back as such.
\<close>

theorem validate_content_length:
  assumes "msg_wf m" and "msg_body m \<noteq> []" and "length (msg_body m) < 2 ^ 63"
    and "mh_generic (msg_header m) = Some (generic_header_vtable, h)"
    and "\<not> mrcp_generic_header_property_check m GENERIC_HEADER_CONTENT_LENGTH"
    and "GENERIC_HEADER_CONTENT_LENGTH < length (sec_arr (mh_section (msg_header m)))"
  shows "\<exists>m' f. mrcp_message_validate m = (True, m') \<and> msg_wf m'
    \<and> msg_field m' GENERIC_HEADER_CONTENT_LENGTH = Some f \<and> hf_name f = ''Content-Length''
    \<and> apt_size_value_parse (hf_value f) = length (msg_body m) \<and> msg_body m' = msg_body m"
proof -
  let ?m = "generic_header_write (\<lambda>h. h\<lparr>content_length := length (msg_body m)\<rparr>) m"
  let ?f = "apt_header_field_alloc\<lparr>hf_name := ''Content-Length'', hf_value := apt_size_value_generate (length (msg_body m))\<rparr>"
  have g: "mh_generic (msg_header ?m) = Some (generic_header_vtable, h\<lparr>content_length := length (msg_body m)\<rparr>)"
    using assms(4) by (simp add: generic_header_write_def)
  have sec: "mh_section (msg_header ?m) = mh_section (msg_header m)" "msg_body ?m = msg_body m"
    by (simp_all add: generic_header_write_def)
  have gen: "mrcp_header_field_value_generate (mh_generic (msg_header ?m)) GENERIC_HEADER_CONTENT_LENGTH False = Some ?f"
    unfolding g by (simp add: mrcp_header_field_value_generate_def generic_header_vtable_def
        apt_string_table_str_get_def generic_header_string_table_def mrcp_generic_header_generate_def)
  have wf: "msg_wf ?m" "\<not> mrcp_generic_header_property_check ?m GENERIC_HEADER_CONTENT_LENGTH"
    "GENERIC_HEADER_CONTENT_LENGTH < length (sec_arr (mh_section (msg_header ?m)))"
    using assms sec by (simp_all add: msg_wf_def mrcp_generic_header_property_check_def)
  let ?m' = "snd (header_property_add ?m (Some ?f) GENERIC_HEADER_CONTENT_LENGTH)"
  have "mrcp_message_validate m = (True, ?m')"
    using assms(2,4,5) gen by (simp add: mrcp_message_validate_def mrcp_generic_header_prepare_def
        mrcp_generic_header_get_def mrcp_generic_header_property_add_def)
  moreover have "msg_body ?m' = msg_body m"
    using sec(2) by (simp add: header_property_add_def split_beta)
  ultimately show ?thesis
    using property_add_new[OF wf, of ?f] size_roundtrip[OF assms(3)] by simp
qed

definition sample_message :: "string \<Rightarrow> unit mrcp_message" where
  "sample_message body = (mrcp_message_create 0)\<lparr>msg_body := body,
     msg_header := \<lparr>mh_generic = Some (generic_header_vtable, mrcp_generic_header_init), mh_resource = None,
       mh_section = \<lparr>sec_ring = [], sec_arr = replicate 16 None, sec_next = 0\<rparr>\<rparr>\<rparr>"

lemma validate_content_length_witness:
  "\<exists>m' f. mrcp_message_validate (sample_message ''hello'') = (True, m')
    \<and> msg_field m' GENERIC_HEADER_CONTENT_LENGTH = Some f \<and> apt_size_value_parse (hf_value f) = 5"
proof -
  have c: "msg_wf (sample_message ''hello'')" "msg_body (sample_message ''hello'') \<noteq> []"
    "length (msg_body (sample_message ''hello'')) < 2 ^ 63"
    "mh_generic (msg_header (sample_message ''hello'')) = Some (generic_header_vtable, mrcp_generic_header_init)"
    "\<not> mrcp_generic_header_property_check (sample_message ''hello'') GENERIC_HEADER_CONTENT_LENGTH"
    "GENERIC_HEADER_CONTENT_LENGTH < length (sec_arr (mh_section (msg_header (sample_message ''hello''))))"
    "length (msg_body (sample_message ''hello'')) = 5"
    by (simp_all add: sample_message_def msg_wf_def section_wf_def mrcp_generic_header_property_check_def
        apt_header_section_field_check_def)
  show ?thesis using validate_content_length[OF c(1-6)] unfolding c(7) by blast
qed

text \<open>
  A Content-Length field that says zero is not corrected: validation writes the length to
  the header data, but the field that exists is refused to be added again and keeps its text,
  so the message is sent with a length of zero and its body is not read.
\<close>

theorem validate_keeps_zero_field:
  assumes "mrcp_generic_header_property_check m GENERIC_HEADER_CONTENT_LENGTH"
    and "mrcp_generic_header_get m = Some h" and "content_length h = 0" and "msg_body m \<noteq> []"
  shows "\<exists>m'. mrcp_message_validate m = (True, m')
    \<and> mh_section (msg_header m') = mh_section (msg_header m)
    \<and> map_option content_length (mrcp_generic_header_get m') = Some (length (msg_body m))"
proof -
  let ?m = "generic_header_write (\<lambda>h. h\<lparr>content_length := length (msg_body m)\<rparr>) m"
  have sec: "mh_section (msg_header ?m) = mh_section (msg_header m)" by (simp add: generic_header_write_def)
  have "mrcp_generic_header_property_check ?m GENERIC_HEADER_CONTENT_LENGTH"
    using assms(1) sec by (simp add: mrcp_generic_header_property_check_def)
  then have "mrcp_generic_header_property_add ?m GENERIC_HEADER_CONTENT_LENGTH = (False, ?m)"
    by (simp add: mrcp_generic_header_property_add_def property_add_taken)
  moreover have "map_option content_length (mrcp_generic_header_get ?m) = Some (length (msg_body m))"
    using assms(2) by (auto simp: mrcp_generic_header_get_def generic_header_write_def)
  ultimately show ?thesis
    using assms(2-4) sec by (simp add: mrcp_message_validate_def mrcp_generic_header_prepare_def)
qed

lemma validate_keeps_zero_field_witness:
  "\<exists>m'. mrcp_message_validate (snd (mrcp_generic_header_property_add (sample_message ''hello'') GENERIC_HEADER_CONTENT_LENGTH)) = (True, m')
    \<and> map_option content_length (mrcp_generic_header_get m') = Some 5"
proof -
  let ?m = "snd (mrcp_generic_header_property_add (sample_message ''hello'') GENERIC_HEADER_CONTENT_LENGTH)"
  have g: "mh_generic (msg_header (sample_message ''hello'')) = Some (generic_header_vtable, mrcp_generic_header_init)"
    by (simp add: sample_message_def)
  have gen: "mrcp_header_field_value_generate (mh_generic (msg_header (sample_message ''hello''))) GENERIC_HEADER_CONTENT_LENGTH False
      = Some (apt_header_field_alloc\<lparr>hf_name := ''Content-Length'', hf_value := apt_size_value_generate 0\<rparr>)"
    unfolding g by (simp add: mrcp_header_field_value_generate_def generic_header_vtable_def apt_string_table_str_get_def
        generic_header_string_table_def mrcp_generic_header_generate_def mrcp_generic_header_init_def)
  have c: "mrcp_generic_header_property_check ?m GENERIC_HEADER_CONTENT_LENGTH"
    "mrcp_generic_header_get ?m = Some mrcp_generic_header_init" "length (msg_body ?m) = 5"
    unfolding mrcp_generic_header_property_add_def gen
    by (simp_all add: header_property_add_def sample_message_def apt_header_section_field_add_def ring_insert_tail_def
        mrcp_generic_header_property_check_def apt_header_section_field_check_def mrcp_generic_header_get_def
        apt_header_field_alloc_def Let_def)
  have z: "content_length mrcp_generic_header_init = 0" "msg_body ?m \<noteq> []"
    using c(3) by (auto simp: mrcp_generic_header_init_def)
  show ?thesis using validate_keeps_zero_field[OF c(1,2) z] unfolding c(3) by blast
qed

end
