(* ===== verification/Obj_List.thy ===== *)
theory Obj_List
  imports Prelude
begin

text \<open>
  \<open>libs/apr-toolkit/src/apt_obj_list.c\<close>: the object list, a ring of elements that hold
  object pointers. The ring is the list of its elements in order; an element is identified
  by its position, and \<open>None\<close> stands for the null element and the null object. The
  resource state machines keep their pending requests in such a list.
\<close>

type_synonym 'a obj_list = "'a list"

definition apt_list_create :: "'a obj_list" where
  "apt_list_create = []"

definition apt_list_push_back :: "'a obj_list \<Rightarrow> 'a \<Rightarrow> 'a obj_list" where
  "apt_list_push_back l x = l @ [x]"

definition apt_list_pop_front :: "'a obj_list \<Rightarrow> 'a option \<times> 'a obj_list" where
  "apt_list_pop_front l = (case l of [] \<Rightarrow> (None, l) | x # xs \<Rightarrow> (Some x, xs))"

definition apt_list_head :: "'a obj_list \<Rightarrow> 'a option" where
  "apt_list_head l = (case l of [] \<Rightarrow> None | x # xs \<Rightarrow> Some x)"

definition apt_obj_list_tail :: "'a obj_list \<Rightarrow> 'a option" where
  "apt_obj_list_tail l = (if l = [] then None else Some (last l))"

definition apt_list_first_elem_get :: "'a obj_list \<Rightarrow> nat option" where
  "apt_list_first_elem_get l = (if l = [] then None else Some 0)"

definition apt_list_last_elem_get :: "'a obj_list \<Rightarrow> nat option" where
  "apt_list_last_elem_get l = (if l = [] then None else Some (length l - 1))"

definition apt_list_next_elem_get :: "'a obj_list \<Rightarrow> nat \<Rightarrow> nat option" where
  "apt_list_next_elem_get l e = (if Suc e < length l then Some (Suc e) else None)"

definition apt_list_prev_elem_get :: "'a obj_list \<Rightarrow> nat \<Rightarrow> nat option" where
  "apt_list_prev_elem_get l e = (if e = 0 then None else Some (e - 1))"

definition apt_list_elem_insert :: "'a obj_list \<Rightarrow> nat \<Rightarrow> 'a \<Rightarrow> 'a obj_list" where
  "apt_list_elem_insert l e x = take e l @ [x] @ drop e l"

text \<open>Removing an element returns the element after it, which takes its position.\<close>

definition apt_list_elem_remove :: "'a obj_list \<Rightarrow> nat \<Rightarrow> nat option \<times> 'a obj_list" where
  "apt_list_elem_remove l e =
     (let l' = take e l @ drop (Suc e) l in (if e < length l' then Some e else None, l'))"

definition apt_list_is_empty :: "'a obj_list \<Rightarrow> bool" where
  "apt_list_is_empty l \<longleftrightarrow> l = []"

definition apt_list_elem_object_get :: "'a obj_list \<Rightarrow> nat \<Rightarrow> 'a" where
  "apt_list_elem_object_get l e = l ! e"

lemma apt_list_create_Nil [simp]: "apt_list_create = []"
  by (simp add: apt_list_create_def)

lemma apt_list_pop_front_simps [simp]:
  "apt_list_pop_front [] = (None, [])"
  "apt_list_pop_front (x # xs) = (Some x, xs)"
  by (simp_all add: apt_list_pop_front_def)

lemma apt_list_push_back_append [simp]: "apt_list_push_back l x = l @ [x]"
  by (simp add: apt_list_push_back_def)

interpretation obj_fifo: fifo "\<lambda>l x. Some (apt_list_push_back l x)" apt_list_pop_front
    "\<lambda>l. l" "\<lambda>l. True"
  by unfold_locales (auto simp: apt_list_pop_front_def split: list.splits)

section \<open>The removal loop\<close>

text \<open>
  The loop the state machines run over their queues: visit each element, remove it when the
  condition holds and hand the removed object to an accumulating action, step to the next
  element otherwise. \<open>fuel\<close> is the length of the list: every iteration either removes the
  visited element or advances past it.
\<close>

fun list_remove_loop ::
  "nat \<Rightarrow> ('a \<Rightarrow> bool) \<Rightarrow> ('a \<Rightarrow> 'b \<Rightarrow> 'b) \<Rightarrow> nat option \<Rightarrow> 'a obj_list \<Rightarrow> 'b \<Rightarrow> ('a obj_list \<times> 'b) option"
where
  "list_remove_loop fuel p act None l acc = Some (l, acc)"
| "list_remove_loop 0 p act (Some e) l acc = None"
| "list_remove_loop (Suc fuel) p act (Some e) l acc =
     (let x = apt_list_elem_object_get l e in
      if p x then
        let (e', l') = apt_list_elem_remove l e in list_remove_loop fuel p act e' l' (act x acc)
      else list_remove_loop fuel p act (apt_list_next_elem_get l e) l acc)"

lemma list_remove_loop_from:
  assumes "e \<le> length l" and "length l - e \<le> fuel"
  shows "list_remove_loop fuel p act (if e < length l then Some e else None) l acc
    = Some (take e l @ filter (\<lambda>x. \<not> p x) (drop e l), fold act (filter p (drop e l)) acc)"
  using assms
proof (induction fuel arbitrary: e l acc)
  case 0
  then show ?case by auto
next
  case (Suc fuel)
  show ?case
  proof (cases "e < length l")
    case False
    then show ?thesis using Suc.prems by simp
  next
    case True
    then have d: "drop e l = l ! e # drop (Suc e) l" by (simp add: Cons_nth_drop_Suc)
    show ?thesis
    proof (cases "p (l ! e)")
      case rem: True
      let ?l = "take e l @ drop (Suc e) l"
      have "list_remove_loop fuel p act (if e < length ?l then Some e else None) ?l (act (l ! e) acc)
        = Some (take e ?l @ filter (\<lambda>x. \<not> p x) (drop e ?l), fold act (filter p (drop e ?l)) (act (l ! e) acc))"
        using Suc.prems True by (intro Suc.IH) auto
      then show ?thesis
        using True rem d by (simp add: apt_list_elem_remove_def apt_list_elem_object_get_def Let_def)
    next
      case keep: False
      have "list_remove_loop fuel p act (if Suc e < length l then Some (Suc e) else None) l acc
        = Some (take (Suc e) l @ filter (\<lambda>x. \<not> p x) (drop (Suc e) l), fold act (filter p (drop (Suc e) l)) acc)"
        using Suc.prems True by (intro Suc.IH) auto
      then show ?thesis
        using True keep d
        by (simp add: apt_list_next_elem_get_def apt_list_elem_object_get_def take_Suc_conv_app_nth)
    qed
  qed
qed

text \<open>The loop terminates, and keeps exactly the objects the condition does not select.\<close>

lemma list_remove_loop_filter:
  "list_remove_loop (length l) p act (apt_list_first_elem_get l) l acc
    = Some (filter (\<lambda>x. \<not> p x) l, fold act (filter p l) acc)"
  using list_remove_loop_from[of 0 l "length l" p act acc]
  by (auto simp: apt_list_first_elem_get_def)

end
