(* ===== verification/State_Machine.thy ===== *)
theory State_Machine
  imports Mrcp_Message Obj_List
begin

text \<open>
  \<open>libs/mrcp-engine/include/mrcp_state_machine.h\<close>: the base of the resource state machines. A
  state machine hands messages to its owner through \<open>on_dispatch\<close> (requests towards the
  engine, responses and events towards the client) and reports the end of a deactivation
  through \<open>on_deactivate\<close>. The model appends both to a list of outputs; what the callbacks
  return is a parameter kept in the state. The two procedures the recognizer and the
  synthesizer share word for word, reading the list of a STOP request and removing pending
  requests, are here as well.
\<close>

datatype 'r sm_output = Dispatched "'r mrcp_message" | Deactivated

record 'r state_machine =
  sm_active :: bool
  sm_active_request :: "'r mrcp_message option"
  sm_properties :: "'r mrcp_message_header"
  sm_out :: "'r sm_output list"
  sm_on_dispatch :: "'r mrcp_message \<Rightarrow> bool"
  sm_on_deactivate :: bool

text \<open>The outcome of a handler: \<open>None\<close> is the dereference of a null pointer.\<close>

type_synonym 's outcome = "(bool \<times> 's) option"

section \<open>STOP requests and pending requests\<close>

text \<open>The identifiers a selective STOP request lists; \<open>None\<close> when it is not selective.\<close>

definition stop_request_ids :: "'r mrcp_message \<Rightarrow> u32 list option" where
  "stop_request_ids m =
     (case mrcp_generic_header_get m of
        None \<Rightarrow> None
      | Some h \<Rightarrow>
          if mrcp_generic_header_property_check m GENERIC_HEADER_ACTIVE_REQUEST_ID_LIST
             \<and> active_request_id_list h \<noteq> []
          then Some (active_request_id_list h) else None)"

definition stop_selects :: "'r mrcp_message \<Rightarrow> u32 \<Rightarrow> bool" where
  "stop_selects m i =
     (case stop_request_ids m of None \<Rightarrow> True | Some ids \<Rightarrow> request_id_list_find ids i)"

definition response_id_append :: "u32 \<Rightarrow> 'r mrcp_message \<Rightarrow> 'r mrcp_message" where
  "response_id_append i m = generic_header_write (\<lambda>h. snd (active_request_id_list_append h i)) m"

text \<open>The response's generic header is read at the end, whether or not a request was removed.\<close>

definition pending_requests_remove ::
  "'r mrcp_message list \<Rightarrow> 'r mrcp_message \<Rightarrow> 'r mrcp_message
    \<Rightarrow> ('r mrcp_message list \<times> 'r mrcp_message) option" where
  "pending_requests_remove q request response = do {
     _ \<leftarrow> mrcp_generic_header_prepare response;
     (q', response1) \<leftarrow> list_remove_loop (length q) (\<lambda>m. stop_selects request (msg_request_id m))
       (\<lambda>m resp. response_id_append (msg_request_id m) resp) (apt_list_first_elem_get q) q response;
     h \<leftarrow> mrcp_generic_header_prepare response1;
     Some (q', if active_request_id_list h \<noteq> []
               then snd (mrcp_generic_header_property_add response1 GENERIC_HEADER_ACTIVE_REQUEST_ID_LIST)
               else response1)
   }"

text \<open>The list of identifiers of a response starts with the request that was in progress.\<close>

definition response_id_report :: "u32 \<Rightarrow> 'r mrcp_message \<Rightarrow> 'r mrcp_message option" where
  "response_id_report i m = do {
     _ \<leftarrow> mrcp_generic_header_prepare m;
     Some (snd (mrcp_generic_header_property_add (response_id_append i m) GENERIC_HEADER_ACTIVE_REQUEST_ID_LIST))
   }"

section \<open>Messages the handlers make\<close>

text \<open>The failure response of several handlers.\<close>

definition method_not_valid :: "'r mrcp_message \<Rightarrow> 'r mrcp_message" where
  "method_not_valid m =
     set_start_line (\<lambda>sl. sl\<lparr>sl_status_code := MRCP_STATUS_CODE_METHOD_NOT_VALID\<rparr>)
       (mrcp_response_create (Some m))"

definition inherit_properties :: "'r mrcp_message_header \<Rightarrow> 'r mrcp_message \<Rightarrow> 'r mrcp_message" where
  "inherit_properties props m = m\<lparr>msg_header := mrcp_header_fields_inherit (msg_header m) props\<rparr>"

text \<open>
  The internal STOP request of a deactivation: a request of the resource of \<open>source\<close>, on its
  channel and with its header, under the next request identifier.
\<close>

definition deactivate_request :: "'r mrcp_message \<Rightarrow> nat \<Rightarrow> 'r mrcp_message" where
  "deactivate_request src stop_id =
     (let m = mrcp_request_create (msg_resource src) (sl_version (msg_start_line src)) stop_id;
          m1 = m\<lparr>msg_channel_id := msg_channel_id src\<rparr>;
          m2 = set_start_line (\<lambda>sl. sl\<lparr>sl_request_id := sl_request_id (msg_start_line src) + 1,
                 sl_method_name := ''DEACTIVATE''\<rparr>) m1
      in m2\<lparr>msg_header := msg_header src\<rparr>)"

section \<open>What the procedures do\<close>

text \<open>A message that has both headers allocated, as every message made for a resource.\<close>

definition msg_ready :: "'r mrcp_message \<Rightarrow> bool" where
  "msg_ready m \<longleftrightarrow> mh_generic (msg_header m) \<noteq> None \<and> mh_resource (msg_header m) \<noteq> None"

lemma request_id_list_find_iff: "request_id_list_find ids i \<longleftrightarrow> i \<in> set ids"
  by (induction ids) auto

lemma stop_selects_iff:
  "stop_selects m i \<longleftrightarrow> (\<forall>ids. stop_request_ids m = Some ids \<longrightarrow> i \<in> set ids)"
  by (auto simp: stop_selects_def request_id_list_find_iff split: option.split)

lemma write_ready [simp]:
  "msg_ready (generic_header_write f m) = msg_ready m"
  "msg_ready (resource_header_write g m) = msg_ready m"
  by (auto simp: msg_ready_def generic_header_write_def resource_header_write_def)

lemma property_add_headers [simp]:
  "mh_generic (msg_header (snd (header_property_add m f i))) = mh_generic (msg_header m)"
  "mh_resource (msg_header (snd (header_property_add m f i))) = mh_resource (msg_header m)"
  by (simp_all add: header_property_add_def split_beta split: option.split)

lemma property_add_ready [simp]:
  "msg_ready (snd (mrcp_generic_header_property_add m i)) = msg_ready m"
  "msg_ready (snd (mrcp_resource_header_property_add m i)) = msg_ready m"
  by (simp_all add: msg_ready_def mrcp_generic_header_property_add_def mrcp_resource_header_property_add_def)

lemma id_append_facts [simp]:
  "msg_ready (response_id_append i m) = msg_ready m"
  "msg_start_line (response_id_append i m) = msg_start_line m"
  by (simp_all add: response_id_append_def)

lemma ready_prepare [simp]: "msg_ready m \<Longrightarrow> \<exists>h. mrcp_generic_header_prepare m = Some h"
  "msg_ready m \<Longrightarrow> \<exists>h. mrcp_resource_header_prepare m = Some h"
  by (auto simp: msg_ready_def mrcp_generic_header_prepare_def mrcp_generic_header_get_def
      mrcp_resource_header_prepare_def mrcp_resource_header_get_def)

lemma id_report_ready:
  assumes "msg_ready m"
  shows "\<exists>m'. response_id_report i m = Some m' \<and> msg_ready m' \<and> msg_start_line m' = msg_start_line m"
proof -
  obtain h where "mrcp_generic_header_prepare m = Some h" using ready_prepare(1)[OF assms] by blast
  then show ?thesis using assms by (simp add: response_id_report_def)
qed

lemma fold_append_ready:
  "msg_ready (fold (\<lambda>x. response_id_append (msg_request_id x)) ms m) = msg_ready m"
  "msg_start_line (fold (\<lambda>x. response_id_append (msg_request_id x)) ms m) = msg_start_line m"
  by (induction ms arbitrary: m) auto

text \<open>Removing pending requests keeps exactly those the STOP request does not select.\<close>

lemma pending_remove_ready:
  assumes "msg_ready response"
  shows "\<exists>r'. pending_requests_remove q request response
      = Some (filter (\<lambda>m. \<not> stop_selects request (msg_request_id m)) q, r')
    \<and> msg_ready r' \<and> msg_start_line r' = msg_start_line response"
proof -
  let ?sel = "\<lambda>m. stop_selects request (msg_request_id m)"
  let ?act = "\<lambda>m resp. response_id_append (msg_request_id m) resp"
  let ?r = "fold ?act (filter ?sel q) response"
  have r: "msg_ready ?r" "msg_start_line ?r = msg_start_line response"
    using assms fold_append_ready[of "filter ?sel q" response] by auto
  obtain h where h: "mrcp_generic_header_prepare ?r = Some h" using ready_prepare(1)[OF r(1)] by blast
  obtain g where g: "mrcp_generic_header_prepare response = Some g" using ready_prepare(1)[OF assms] by blast
  show ?thesis
    using list_remove_loop_filter[of q ?sel ?act response] h g r
    by (auto simp: pending_requests_remove_def)
qed

lemma set_start_line_simps [simp]:
  "msg_start_line (set_start_line f m) = f (msg_start_line m)"
  "msg_ready (set_start_line f m) = msg_ready m"
  "msg_resource (set_start_line f m) = msg_resource m"
  by (simp_all add: set_start_line_def msg_ready_def)

lemma inherit_simps [simp]:
  "msg_start_line (inherit_properties p m) = msg_start_line m"
  "msg_resource (inherit_properties p m) = msg_resource m"
  by (simp_all add: inherit_properties_def)

text \<open>Messages made from a message with a resource that has headers are ready.\<close>

definition msg_has_resource :: "'r mrcp_message \<Rightarrow> bool" where
  "msg_has_resource m \<longleftrightarrow>
     (case msg_resource m of None \<Rightarrow> False
      | Some r \<Rightarrow> res_header_vtable r (sl_version (msg_start_line m)) \<noteq> None)"

lemma response_create_ready: "msg_has_resource m \<Longrightarrow> msg_ready (mrcp_response_create (Some m))"
  by (auto simp: msg_has_resource_def mrcp_response_create_def set_start_line_def
      mrcp_message_resource_set_by_id_def msg_header_alloc_def mrcp_message_create_def
      mrcp_message_header_data_alloc_def mrcp_generic_header_vtable_get_def msg_ready_def Let_def
      split: option.splits)

text \<open>
  How a machine answers a request: it hands the request on and waits for its response, or it
  responds at once.
\<close>

definition answered :: "'r mrcp_message \<Rightarrow> 'r mrcp_message option \<Rightarrow> 'r sm_output \<Rightarrow> bool" where
  "answered m act out \<longleftrightarrow>
     (\<exists>r. out = Dispatched r \<and> msg_request_id r = msg_request_id m
        \<and> (msg_type r = MRCP_MESSAGE_TYPE_REQUEST \<and> act = Some r
           \<or> msg_type r = MRCP_MESSAGE_TYPE_RESPONSE \<and> act = None))"

lemma answered_dispatched:
  "answered m act (Dispatched r) \<longleftrightarrow> msg_request_id r = msg_request_id m
     \<and> (msg_type r = MRCP_MESSAGE_TYPE_REQUEST \<and> act = Some r
        \<or> msg_type r = MRCP_MESSAGE_TYPE_RESPONSE \<and> act = None)"
  by (auto simp: answered_def)

lemma stop_request_ids_header:
  assumes "msg_header m = msg_header x"
  shows "stop_request_ids m = stop_request_ids x"
proof -
  have "mrcp_generic_header_property_check m i = mrcp_generic_header_property_check x i" for i
    using assms by (simp add: mrcp_generic_header_property_check_def)
  then show ?thesis using assms
    by (cases "mh_generic (msg_header x)") (simp_all add: stop_request_ids_def mrcp_generic_header_get_def)
qed

lemma deactivate_request_facts [simp]:
  "msg_method_id (deactivate_request x i) = i"
  "msg_request_id (deactivate_request x i) = msg_request_id x + 1"
  "msg_type (deactivate_request x i) = MRCP_MESSAGE_TYPE_REQUEST"
  "msg_channel_id (deactivate_request x i) = msg_channel_id x"
  "stop_request_ids (deactivate_request x i) = stop_request_ids x"
proof -
  show "stop_request_ids (deactivate_request x i) = stop_request_ids x"
    by (rule stop_request_ids_header) (simp add: deactivate_request_def Let_def)
  show "msg_method_id (deactivate_request x i) = i"
    "msg_type (deactivate_request x i) = MRCP_MESSAGE_TYPE_REQUEST"
    "msg_request_id (deactivate_request x i) = msg_request_id x + 1"
    "msg_channel_id (deactivate_request x i) = msg_channel_id x"
    by (simp_all add: deactivate_request_def Let_def set_start_line_def mrcp_request_create_def)
qed

section \<open>Request identifiers in a response\<close>

text \<open>A response fresh from the engine: no list of identifiers yet, and a place for it.\<close>

definition response_fresh :: "'r mrcp_message \<Rightarrow> bool" where
  "response_fresh m \<longleftrightarrow> msg_wf m \<and> \<not> mrcp_generic_header_property_check m GENERIC_HEADER_ACTIVE_REQUEST_ID_LIST
     \<and> sec_arr (mh_section (msg_header m)) \<noteq> []
     \<and> (\<exists>h. mh_generic (msg_header m) = Some (generic_header_vtable, h) \<and> active_request_id_list h = [])"

lemma write_section [simp]:
  "mh_section (msg_header (generic_header_write f m)) = mh_section (msg_header m)"
  "mh_section (msg_header (response_id_append i m)) = mh_section (msg_header m)"
  by (simp_all add: generic_header_write_def response_id_append_def)

lemma fold_append_section [simp]:
  "mh_section (msg_header (fold (\<lambda>x. response_id_append (msg_request_id x)) ms m)) = mh_section (msg_header m)"
  by (induction ms arbitrary: m) auto

lemma generate_id_list:
  assumes "mh_generic (msg_header m) = Some (generic_header_vtable, h)"
    "active_request_id_list h = [i]" "i < 10 ^ 9"
  shows "mrcp_header_field_value_generate (mh_generic (msg_header m)) GENERIC_HEADER_ACTIVE_REQUEST_ID_LIST False
    = Some (apt_header_field_alloc\<lparr>hf_name := ''Active-Request-Id-List'', hf_value := show_nat (unat i)\<rparr>)"
  using assms ids_generate[of "[i]"]
  by (simp add: mrcp_header_field_value_generate_def generic_header_vtable_def apt_string_table_str_get_def
      generic_header_string_table_def mrcp_generic_header_generate_def)

lemma id_report_fresh:
  assumes f: "response_fresh m" and i: "i < 10 ^ 9"
  shows "\<exists>m'. response_id_report i m = Some m'
    \<and> map_option hf_value (msg_field m' GENERIC_HEADER_ACTIVE_REQUEST_ID_LIST) = Some (show_nat (unat i))
    \<and> mrcp_generic_header_property_check m' GENERIC_HEADER_ACTIVE_REQUEST_ID_LIST"
proof -
  obtain h where h: "mh_generic (msg_header m) = Some (generic_header_vtable, h)" "active_request_id_list h = []"
    using f by (auto simp: response_fresh_def)
  let ?m = "response_id_append i m"
  let ?h = "h\<lparr>active_request_id_list := [i]\<rparr>"
  have g: "mh_generic (msg_header ?m) = Some (generic_header_vtable, ?h)"
    using h by (simp add: response_id_append_def generic_header_write_def active_request_id_list_append_def
        MAX_ACTIVE_REQUEST_ID_COUNT_def)
  let ?f = "apt_header_field_alloc\<lparr>hf_name := ''Active-Request-Id-List'', hf_value := show_nat (unat i)\<rparr>"
  have gen: "mrcp_header_field_value_generate (mh_generic (msg_header ?m)) GENERIC_HEADER_ACTIVE_REQUEST_ID_LIST False = Some ?f"
    using generate_id_list[OF g _ i] by simp
  have wf: "msg_wf ?m" "\<not> mrcp_generic_header_property_check ?m GENERIC_HEADER_ACTIVE_REQUEST_ID_LIST"
    "GENERIC_HEADER_ACTIVE_REQUEST_ID_LIST < length (sec_arr (mh_section (msg_header ?m)))"
    using f by (auto simp: response_fresh_def msg_wf_def mrcp_generic_header_property_check_def)
  let ?m' = "snd (header_property_add ?m (Some ?f) GENERIC_HEADER_ACTIVE_REQUEST_ID_LIST)"
  have fld: "msg_field ?m' GENERIC_HEADER_ACTIVE_REQUEST_ID_LIST = Some (?f\<lparr>hf_id := GENERIC_HEADER_ACTIVE_REQUEST_ID_LIST\<rparr>)"
    by (rule property_add_new(3)[OF wf])
  have chk: "mrcp_generic_header_property_check ?m' GENERIC_HEADER_ACTIVE_REQUEST_ID_LIST"
    by (rule msg_field_check[OF fld])
  have "response_id_report i m = Some ?m'"
    using h gen by (simp add: response_id_report_def mrcp_generic_header_prepare_def mrcp_generic_header_get_def
        mrcp_generic_header_property_add_def)
  then show ?thesis using fld chk by simp
qed

text \<open>Once the field is there, removing pending requests does not change it.\<close>

lemma pending_remove_field:
  assumes "mrcp_generic_header_property_check m GENERIC_HEADER_ACTIVE_REQUEST_ID_LIST"
    and "pending_requests_remove q req m = Some (q', m')"
  shows "mh_section (msg_header m') = mh_section (msg_header m)"
proof -
  let ?sel = "\<lambda>x. stop_selects req (msg_request_id x)"
  let ?r = "fold (\<lambda>x resp. response_id_append (msg_request_id x) resp) (filter ?sel q) m"
  have "mrcp_generic_header_property_check ?r GENERIC_HEADER_ACTIVE_REQUEST_ID_LIST"
    using assms(1) by (simp add: mrcp_generic_header_property_check_def)
  then have "mrcp_generic_header_property_add ?r GENERIC_HEADER_ACTIVE_REQUEST_ID_LIST = (False, ?r)"
    by (simp add: mrcp_generic_header_property_add_def property_add_taken)
  then show ?thesis
    using assms(2) list_remove_loop_filter[of q ?sel "\<lambda>x resp. response_id_append (msg_request_id x) resp" m]
    by (auto simp: pending_requests_remove_def bind_eq_Some_conv split: if_splits)
qed

text \<open>The list in the header data has the removed requests too, five identifiers at most.\<close>

definition msg_active_ids :: "'r mrcp_message \<Rightarrow> u32 list option" where
  "msg_active_ids m = map_option active_request_id_list (mrcp_generic_header_get m)"

lemma id_append_ids:
  "msg_active_ids m = Some ids \<Longrightarrow> length ids \<le> 5 \<Longrightarrow> msg_active_ids (response_id_append i m) = Some (take 5 (ids @ [i]))"
  by (cases "mh_generic (msg_header m)")
    (auto simp: msg_active_ids_def mrcp_generic_header_get_def response_id_append_def generic_header_write_def
      active_request_id_list_append_def MAX_ACTIVE_REQUEST_ID_COUNT_def)

lemma fold_append_ids:
  "msg_active_ids m = Some ids \<Longrightarrow> length ids \<le> 5 \<Longrightarrow>
    msg_active_ids (fold (\<lambda>x. response_id_append (msg_request_id x)) ms m) = Some (take 5 (ids @ map msg_request_id ms))"
proof (induction ms arbitrary: m ids)
  case Nil
  then show ?case by simp
next
  case (Cons x ms)
  have "msg_active_ids (fold (\<lambda>x. response_id_append (msg_request_id x)) ms (response_id_append (msg_request_id x) m))
      = Some (take 5 (take 5 (ids @ [msg_request_id x]) @ map msg_request_id ms))"
    using id_append_ids[OF Cons.prems] by (intro Cons.IH) auto
  also have "take 5 (take 5 (ids @ [msg_request_id x]) @ map msg_request_id ms)
      = take 5 (ids @ map msg_request_id (x # ms))"
    using Cons.prems(2) by (cases "length ids = 5") auto
  finally show ?case by simp
qed

lemma property_add_ids [simp]:
  "msg_active_ids (snd (mrcp_generic_header_property_add m i)) = msg_active_ids m"
  by (simp add: msg_active_ids_def mrcp_generic_header_get_def mrcp_generic_header_property_add_def)

lemma id_report_ids:
  assumes "response_fresh m" "response_id_report i m = Some m'"
  shows "msg_active_ids m' = Some [i]"
proof -
  have "msg_active_ids m = Some []"
    using assms(1) by (auto simp: response_fresh_def msg_active_ids_def mrcp_generic_header_get_def)
  then show ?thesis using assms(2) id_append_ids[of m "[]" i]
    by (auto simp: response_id_report_def bind_eq_Some_conv)
qed

lemma pending_remove_ids:
  assumes "msg_active_ids m = Some ids" "length ids \<le> 5" "pending_requests_remove q req m = Some (q', m')"
  shows "msg_active_ids m'
    = Some (take 5 (ids @ map msg_request_id (filter (\<lambda>x. stop_selects req (msg_request_id x)) q)))"
  using assms(3) fold_append_ids[OF assms(1,2)]
    list_remove_loop_filter[of q "\<lambda>x. stop_selects req (msg_request_id x)" "\<lambda>x resp. response_id_append (msg_request_id x) resp" m]
  by (auto simp: pending_requests_remove_def bind_eq_Some_conv split: if_splits)

section \<open>Sample messages\<close>

text \<open>A resource with an empty table of header fields, and requests and replies for it.\<close>

definition plain_vtable :: "'r \<Rightarrow> 'r header_vtable" where
  "plain_vtable d =
     \<lparr>vt_allocate = d, vt_parse_field = (\<lambda>d i v. (True, d)), vt_generate_field = (\<lambda>d i. Some []),
      vt_duplicate_field = (\<lambda>d src i v. (True, d)), vt_field_table = []\<rparr>"

definition plain_resource :: "'r \<Rightarrow> 'r mrcp_resource" where
  "plain_resource d =
     \<lparr>res_id = 0, res_name = ''sample'', res_method_count = 0, res_event_count = 0, res_method_table = (\<lambda>_. []), res_event_table = (\<lambda>_. []),
      res_header_vtable = (\<lambda>_. Some (plain_vtable d))\<rparr>"

definition plain_request :: "'r \<Rightarrow> nat \<Rightarrow> u32 \<Rightarrow> 'r mrcp_message" where
  "plain_request d method i =
     set_start_line (\<lambda>sl. sl\<lparr>sl_request_id := i\<rparr>) (mrcp_request_create (Some (plain_resource d)) MRCP_VERSION_2 method)"

definition plain_pending :: "'r \<Rightarrow> nat \<Rightarrow> u32 \<Rightarrow> 'r mrcp_message" where
  "plain_pending d method i =
     set_start_line (\<lambda>sl. sl\<lparr>sl_request_state := MRCP_REQUEST_STATE_PENDING\<rparr>) (plain_request d method i)"

definition plain_response :: "'r \<Rightarrow> nat \<Rightarrow> u32 \<Rightarrow> 'r mrcp_message" where
  "plain_response d method i = mrcp_response_create (Some (plain_request d method i))"

text \<open>The response of the engine that has started on a request.\<close>

definition plain_started :: "'r \<Rightarrow> nat \<Rightarrow> u32 \<Rightarrow> 'r mrcp_message" where
  "plain_started d method i =
     set_start_line (\<lambda>sl. sl\<lparr>sl_request_state := MRCP_REQUEST_STATE_INPROGRESS\<rparr>) (plain_response d method i)"

definition plain_event :: "'r \<Rightarrow> nat \<Rightarrow> u32 \<Rightarrow> 'r mrcp_message" where
  "plain_event d event i = mrcp_event_create (Some (plain_request d 0 i)) event"

lemmas plain_defs = plain_vtable_def plain_resource_def plain_request_def plain_pending_def plain_response_def
  plain_started_def
  plain_event_def

lemma plain_facts [simp]:
  "msg_request_id (plain_request d k i) = i" "msg_method_id (plain_request d k i) = k"
  "msg_type (plain_request d k i) = MRCP_MESSAGE_TYPE_REQUEST" "msg_has_resource (plain_request d k i)"
  "msg_request_id (plain_pending d k i) = i" "msg_method_id (plain_pending d k i) = k"
  "msg_request_state (plain_pending d k i) = MRCP_REQUEST_STATE_PENDING"
  "msg_request_id (plain_response d k i) = i" "msg_method_id (plain_response d k i) = k"
  "msg_type (plain_response d k i) = MRCP_MESSAGE_TYPE_RESPONSE"
  "msg_request_id (plain_started d k i) = i" "msg_method_id (plain_started d k i) = k"
  "msg_type (plain_started d k i) = MRCP_MESSAGE_TYPE_RESPONSE"
  "msg_request_state (plain_started d k i) = MRCP_REQUEST_STATE_INPROGRESS"
  "msg_request_id (plain_event d k i) = i" "msg_method_id (plain_event d k i) = k"
  "msg_type (plain_event d k i) = MRCP_MESSAGE_TYPE_EVENT"
  by (simp_all add: plain_defs set_start_line_def msg_has_resource_def mrcp_request_create_def
      mrcp_message_resource_set_by_id_def msg_header_alloc_def Let_def apt_string_table_str_get_def mrcp_message_create_def)

lemma plain_response_ready [simp]:
  "msg_ready (plain_response d k i)" "response_fresh (plain_response d k i)" "msg_ready (plain_event d k i)"
  by (simp_all add: plain_defs set_start_line_def msg_ready_def response_fresh_def msg_wf_def mrcp_request_create_def
      mrcp_response_create_def mrcp_event_create_def mrcp_message_resource_set_by_id_def msg_header_alloc_def Let_def
      apt_string_table_str_get_def mrcp_message_create_def mrcp_message_header_data_alloc_def
      mrcp_generic_header_vtable_get_def mrcp_message_header_init_def apt_header_section_array_alloc_def
      apt_header_section_init_def generic_header_vtable_def mrcp_generic_header_init_def section_wf_def
      mrcp_generic_header_property_check_def apt_header_section_field_check_def)

lemma plain_request_not_selective [simp]: "stop_request_ids (plain_request d k i) = None"
  by (simp add: stop_request_ids_def plain_defs set_start_line_def mrcp_request_create_def
      mrcp_message_resource_set_by_id_def msg_header_alloc_def Let_def mrcp_generic_header_get_def
      apt_string_table_str_get_def mrcp_message_create_def mrcp_message_header_data_alloc_def
      mrcp_generic_header_vtable_get_def mrcp_message_header_init_def generic_header_vtable_def
      mrcp_generic_header_init_def)

section \<open>Method identifiers\<close>

text \<open>The method identifiers of a resource as a list, for the case analysis over a method array.\<close>

lemma method_below_5: "i < 5 \<Longrightarrow> i \<in> {0, 1, 2, 3, 4 :: nat}"
  by simp arith

lemma method_below_9: "i < 9 \<Longrightarrow> i \<in> {0, 1, 2, 3, 4, 5, 6, 7, 8 :: nat}"
  by simp arith

lemma method_below_13: "i < 13 \<Longrightarrow> i \<in> {0, 1, 2, 3, 4, 5, 6, 7, 8, 9, 10, 11, 12 :: nat}"
  by simp arith

section \<open>The contract of a state machine\<close>

text \<open>
  What the owner of a state machine relies on, and what it has to provide. \<open>env\<close> is the
  owner's part: the messages are complete, and the response to a request carries its method.
  Under it no handler dereferences a null pointer, the invariant is kept, outputs are only
  added, and every request with a known method leads to exactly one output.
\<close>

locale resource_sm =
  fixes update :: "'s \<Rightarrow> 'm \<Rightarrow> (bool \<times> 's) option"
    and deactivate :: "'s \<Rightarrow> bool \<times> 's"
    and outputs :: "'s \<Rightarrow> 'o list"
    and inv :: "'s \<Rightarrow> bool"
    and env :: "'s \<Rightarrow> 'm \<Rightarrow> bool"
    and known_request :: "'m \<Rightarrow> bool"
  assumes update_safe: "inv s \<Longrightarrow> env s m \<Longrightarrow>
      \<exists>b s'. update s m = Some (b, s') \<and> inv s' \<and> (\<exists>out. outputs s' = outputs s @ out)"
    and request_output: "inv s \<Longrightarrow> env s m \<Longrightarrow> known_request m \<Longrightarrow> update s m = Some (b, s') \<Longrightarrow>
      length (outputs s') = Suc (length (outputs s))"
    and deactivate_safe: "inv s \<Longrightarrow> inv (snd (deactivate s)) \<and> (\<exists>out. outputs (snd (deactivate s)) = outputs s @ out)"
begin

text \<open>A run: messages and deactivations in sequence; \<open>env\<close> holds where a message is handled.\<close>

fun run :: "'s \<Rightarrow> 'm option list \<Rightarrow> 's option" where
  "run s [] = Some s"
| "run s (None # as) = run (snd (deactivate s)) as"
| "run s (Some m # as) = (case update s m of None \<Rightarrow> None | Some (b, s') \<Rightarrow> run s' as)"

fun env_run :: "'s \<Rightarrow> 'm option list \<Rightarrow> bool" where
  "env_run s [] = True"
| "env_run s (None # as) = env_run (snd (deactivate s)) as"
| "env_run s (Some m # as) \<longleftrightarrow> env s m \<and> (case update s m of None \<Rightarrow> True | Some (b, s') \<Rightarrow> env_run s' as)"

lemma run_safe:
  assumes "inv s" "env_run s as"
  shows "\<exists>s'. run s as = Some s' \<and> inv s' \<and> (\<exists>out. outputs s' = outputs s @ out)"
  using assms
proof (induction s as rule: run.induct)
  case (1 s)
  then show ?case by simp
next
  case (2 s as)
  then obtain s' out where "run (snd (deactivate s)) as = Some s'" "inv s'"
      "outputs s' = outputs (snd (deactivate s)) @ out"
    using deactivate_safe[of s] by fastforce
  moreover obtain out' where "outputs (snd (deactivate s)) = outputs s @ out'"
    using deactivate_safe[of s] 2 by blast
  ultimately show ?case by simp
next
  case (3 s m as)
  then obtain b s1 out where u: "update s m = Some (b, s1)" "inv s1" "outputs s1 = outputs s @ out"
    using update_safe[of s m] by fastforce
  then obtain s' out' where "run s1 as = Some s'" "inv s'" "outputs s' = outputs s1 @ out'"
    using 3 by fastforce
  with u show ?case by simp
qed

text \<open>As many outputs as requests, when only known requests are handled.\<close>

lemma requests_outputs:
  assumes "inv s" "env_run s (map Some ms)" "list_all known_request ms"
  shows "\<exists>s'. run s (map Some ms) = Some s' \<and> length (outputs s') = length (outputs s) + length ms"
  using assms
proof (induction ms arbitrary: s)
  case Nil
  then show ?case by simp
next
  case (Cons m ms)
  then obtain b s1 where u: "update s m = Some (b, s1)" "inv s1"
    using update_safe[of s m] by fastforce
  then show ?case using Cons request_output[of s m b s1] by fastforce
qed

end

section \<open>Serving pending requests\<close>

text \<open>
  What happens to a machine that works on a request while others wait: one more request is made,
  or the request in progress is completed by an event of the engine and the engine answers the
  request it is handed next.
\<close>

datatype 'm pending_job = Ask 'm | Serve 'm 'm

fun job_messages :: "'m pending_job \<Rightarrow> 'm list" where
  "job_messages (Ask m) = [m]"
| "job_messages (Serve e r) = [e, r]"

fun asked :: "'m pending_job list \<Rightarrow> 'm list" where
  "asked [] = []"
| "asked (Ask m # js) = m # asked js"
| "asked (Serve e r # js) = asked js"

fun served :: "'m pending_job list \<Rightarrow> nat" where
  "served [] = 0"
| "served (Ask m # js) = served js"
| "served (Serve e r # js) = Suc (served js)"

fun messages_run :: "('s \<Rightarrow> 'm \<Rightarrow> (bool \<times> 's) option) \<Rightarrow> 's \<Rightarrow> 'm list \<Rightarrow> 's option" where
  "messages_run update s [] = Some s"
| "messages_run update s (m # ms) =
     (case update s m of None \<Rightarrow> None | Some (b, s') \<Rightarrow> messages_run update s' ms)"

fun jobs_fit :: "('s \<Rightarrow> 'm \<Rightarrow> (bool \<times> 's) option) \<Rightarrow> ('s \<Rightarrow> 'm pending_job \<Rightarrow> bool) \<Rightarrow> 's
    \<Rightarrow> 'm pending_job list \<Rightarrow> bool" where
  "jobs_fit update fits s [] = True"
| "jobs_fit update fits s (j # js) \<longleftrightarrow> fits s j
     \<and> (case messages_run update s (job_messages j) of None \<Rightarrow> True | Some s' \<Rightarrow> jobs_fit update fits s' js)"

text \<open>The requests among the outputs go to the engine, the rest to the client.\<close>

fun to_engine :: "'r sm_output list \<Rightarrow> 'r mrcp_message list" where
  "to_engine [] = []"
| "to_engine (Dispatched m # os) =
     (if msg_type m = MRCP_MESSAGE_TYPE_REQUEST then m # to_engine os else to_engine os)"
| "to_engine (Deactivated # os) = to_engine os"

type_synonym client_view = "mrcp_message_type \<times> nat \<times> u32 \<times> mrcp_request_state"

fun to_client :: "'r sm_output list \<Rightarrow> client_view list" where
  "to_client [] = []"
| "to_client (Dispatched m # os) =
     (if msg_type m = MRCP_MESSAGE_TYPE_REQUEST then to_client os
      else (msg_type m, msg_method_id m, msg_request_id m, msg_request_state m) # to_client os)"
| "to_client (Deactivated # os) = to_client os"

lemma outputs_append [simp]:
  "to_engine (a @ b) = to_engine a @ to_engine b" "to_client (a @ b) = to_client a @ to_client b"
  by (induction a rule: to_engine.induct) auto

lemma messages_run_append [simp]:
  "messages_run update s (a @ b)
    = (case messages_run update s a of None \<Rightarrow> None | Some s' \<Rightarrow> messages_run update s' b)"
  by (induction a arbitrary: s) (auto split: option.split)

text \<open>
  The contract of a machine that keeps the order of its requests: a request made while it is busy
  is put behind the queue and the engine is told nothing; the completion of the request in
  progress takes the request at the front, which alone is handed to the engine.
\<close>

locale pending_server =
  fixes update :: "'s \<Rightarrow> 'r mrcp_message \<Rightarrow> (bool \<times> 's) option"
    and busy :: "'s \<Rightarrow> bool"
    and waiting :: "'s \<Rightarrow> 'r mrcp_message list"
    and current :: "'s \<Rightarrow> 'r mrcp_message option"
    and outputs :: "'s \<Rightarrow> 'r sm_output list"
    and queued :: "'s \<Rightarrow> 'r mrcp_message \<Rightarrow> 'r mrcp_message"
    and fits :: "'s \<Rightarrow> 'r mrcp_message pending_job \<Rightarrow> bool"
    and view :: "'r mrcp_message pending_job \<Rightarrow> client_view list"
  assumes ask: "busy s \<Longrightarrow> fits s (Ask m) \<Longrightarrow> \<exists>s' out. messages_run update s [m] = Some s' \<and> busy s'
      \<and> waiting s' = waiting s @ [queued s m] \<and> current s' = current s \<and> queued s' = queued s
      \<and> outputs s' = outputs s @ out \<and> to_engine out = [] \<and> to_client out = view (Ask m)"
    and serve: "busy s \<Longrightarrow> fits s (Serve e r) \<Longrightarrow> \<exists>s' out p. messages_run update s [e, r] = Some s' \<and> busy s'
      \<and> waiting s = p # waiting s' \<and> current s' = Some p \<and> queued s' = queued s
      \<and> outputs s' = outputs s @ out \<and> to_engine out = [p] \<and> to_client out = view (Serve e r)"
begin

lemma fifo:
  assumes "busy s" and "current s = Some x" and "jobs_fit update fits s js"
  shows "\<exists>s' out. messages_run update s (concat (map job_messages js)) = Some s' \<and> busy s'
    \<and> outputs s' = outputs s @ out
    \<and> waiting s @ map (queued s) (asked js) = to_engine out @ waiting s'
    \<and> length (to_engine out) = served js
    \<and> current s' = Some (last (x # to_engine out))
    \<and> to_client out = concat (map view js)"
  using assms
proof (induction js arbitrary: s x)
  case Nil
  then show ?case by simp
next
  case (Cons j js)
  show ?case
  proof (cases j)
    case (Ask m)
    obtain s1 out1 where 1: "messages_run update s [m] = Some s1" "busy s1"
      "waiting s1 = waiting s @ [queued s m]" "current s1 = current s" "queued s1 = queued s"
      "outputs s1 = outputs s @ out1" "to_engine out1 = []" "to_client out1 = view (Ask m)"
      using ask[of s m] Cons.prems Ask by auto
    obtain s2 out2 where 2: "messages_run update s1 (concat (map job_messages js)) = Some s2" "busy s2"
      "outputs s2 = outputs s1 @ out2"
      "waiting s1 @ map (queued s1) (asked js) = to_engine out2 @ waiting s2"
      "length (to_engine out2) = served js" "current s2 = Some (last (x # to_engine out2))"
      "to_client out2 = concat (map view js)"
      using Cons.IH[OF 1(2), of x] Cons.prems 1(1,4) Ask by auto
    have "messages_run update s (concat (map job_messages (j # js))) = Some s2"
      using 1(1) 2(1) Ask messages_run_append[of update s "[m]"] by simp
    then show ?thesis using 1 2 Ask by (intro exI[of _ s2] exI[of _ "out1 @ out2"]) simp
  next
    case (Serve e r)
    obtain s1 out1 p where 1: "messages_run update s [e, r] = Some s1" "busy s1"
      "waiting s = p # waiting s1" "current s1 = Some p" "queued s1 = queued s"
      "outputs s1 = outputs s @ out1" "to_engine out1 = [p]" "to_client out1 = view (Serve e r)"
      using serve[of s e r] Cons.prems Serve by auto
    obtain s2 out2 where 2: "messages_run update s1 (concat (map job_messages js)) = Some s2" "busy s2"
      "outputs s2 = outputs s1 @ out2"
      "waiting s1 @ map (queued s1) (asked js) = to_engine out2 @ waiting s2"
      "length (to_engine out2) = served js" "current s2 = Some (last (p # to_engine out2))"
      "to_client out2 = concat (map view js)"
      using Cons.IH[OF 1(2), of p] Cons.prems 1(1,4) Serve by auto
    have "messages_run update s (concat (map job_messages (j # js))) = Some s2"
      using 1(1) 2(1) Serve messages_run_append[of update s "[e, r]"] by simp
    then show ?thesis using 1 2 Serve by (intro exI[of _ s2] exI[of _ "out1 @ out2"]) simp
  qed
qed

end

end
