(* ===== verification/Recog_SM.thy ===== *)
theory Recog_SM
  imports State_Machine
begin

text \<open>
  \<open>libs/mrcp-engine/src/mrcp_recog_state_machine.c\<close>: the state machine of the recognizer
  resource, one definition per handler. Of the recognizer header the machine touches the
  completion cause only; the other members are the extension \<open>'x\<close> of the record.
\<close>

record recog_header =
  recog_completion_cause :: nat

type_synonym 'x recog_message = "'x recog_header_scheme mrcp_message"

abbreviation (input) RECOGNIZER_SET_PARAMS :: nat where "RECOGNIZER_SET_PARAMS \<equiv> 0"
abbreviation (input) RECOGNIZER_GET_PARAMS :: nat where "RECOGNIZER_GET_PARAMS \<equiv> 1"
abbreviation (input) RECOGNIZER_DEFINE_GRAMMAR :: nat where "RECOGNIZER_DEFINE_GRAMMAR \<equiv> 2"
abbreviation (input) RECOGNIZER_RECOGNIZE :: nat where "RECOGNIZER_RECOGNIZE \<equiv> 3"
abbreviation (input) RECOGNIZER_STOP :: nat where "RECOGNIZER_STOP \<equiv> 7"
abbreviation (input) RECOGNIZER_START_OF_INPUT :: nat where "RECOGNIZER_START_OF_INPUT \<equiv> 0"
abbreviation (input) RECOGNIZER_RECOGNITION_COMPLETE :: nat where "RECOGNIZER_RECOGNITION_COMPLETE \<equiv> 1"
abbreviation (input) RECOGNIZER_INTERPRETATION_COMPLETE :: nat where "RECOGNIZER_INTERPRETATION_COMPLETE \<equiv> 2"
abbreviation (input) RECOGNIZER_HEADER_COMPLETION_CAUSE :: nat where "RECOGNIZER_HEADER_COMPLETION_CAUSE \<equiv> 7"
abbreviation (input) RECOGNIZER_COMPLETION_CAUSE_SUCCESS :: nat where "RECOGNIZER_COMPLETION_CAUSE_SUCCESS \<equiv> 0"
definition RECOGNIZER_METHOD_COUNT :: nat where "RECOGNIZER_METHOD_COUNT = 13"
definition RECOGNIZER_EVENT_COUNT :: nat where "RECOGNIZER_EVENT_COUNT = 3"

datatype recog_state = RECOGNIZER_STATE_IDLE | RECOGNIZER_STATE_RECOGNIZING | RECOGNIZER_STATE_RECOGNIZED

record 'x recog_sm = "'x recog_header_scheme state_machine" +
  rs_state :: recog_state
  rs_is_pending :: bool
  rs_recog :: "'x recog_header_scheme mrcp_message option"
  rs_queue :: "'x recog_header_scheme mrcp_message list"

definition recog_request_dispatch :: "'x recog_sm \<Rightarrow> 'x recog_message \<Rightarrow> bool \<times> 'x recog_sm" where
  "recog_request_dispatch s m =
     (sm_on_dispatch s m, s\<lparr>sm_active_request := Some m, sm_out := sm_out s @ [Dispatched m]\<rparr>)"

definition recog_response_dispatch :: "'x recog_sm \<Rightarrow> 'x recog_message \<Rightarrow> bool \<times> 'x recog_sm" where
  "recog_response_dispatch s m =
     (let s1 = s\<lparr>sm_active_request := None\<rparr> in
      if \<not> sm_active s1 then (sm_on_deactivate s1, s1\<lparr>sm_out := sm_out s1 @ [Deactivated]\<rparr>)
      else (sm_on_dispatch s1 m, s1\<lparr>sm_out := sm_out s1 @ [Dispatched m]\<rparr>))"

definition recog_event_dispatch :: "'x recog_sm \<Rightarrow> 'x recog_message \<Rightarrow> bool \<times> 'x recog_sm" where
  "recog_event_dispatch s m =
     (if \<not> sm_active s then (False, s)
      else (sm_on_dispatch s m, s\<lparr>sm_out := sm_out s @ [Dispatched m]\<rparr>))"

definition recog_state_change :: "'x recog_sm \<Rightarrow> recog_state \<Rightarrow> 'x recog_sm" where
  "recog_state_change s st =
     (let s1 = s\<lparr>rs_state := st\<rparr> in
      if st = RECOGNIZER_STATE_IDLE then s1\<lparr>rs_recog := None\<rparr> else s1)"

definition recog_request_set_params :: "'x recog_sm \<Rightarrow> 'x recog_message \<Rightarrow> ('x recog_sm) outcome" where
  "recog_request_set_params s m =
     Some (recog_request_dispatch
       (s\<lparr>sm_properties := mrcp_header_fields_set (sm_properties s) (msg_header m)\<rparr>) m)"

definition recog_response_set_params :: "'x recog_sm \<Rightarrow> 'x recog_message \<Rightarrow> ('x recog_sm) outcome" where
  "recog_response_set_params s m = Some (recog_response_dispatch s m)"

definition recog_request_get_params :: "'x recog_sm \<Rightarrow> 'x recog_message \<Rightarrow> ('x recog_sm) outcome" where
  "recog_request_get_params s m = Some (recog_request_dispatch s m)"

definition recog_response_get_params :: "'x recog_sm \<Rightarrow> 'x recog_message \<Rightarrow> ('x recog_sm) outcome" where
  "recog_response_get_params s m =
     (case sm_active_request s of
        None \<Rightarrow> None
      | Some req \<Rightarrow>
          Some (recog_response_dispatch s
            (m\<lparr>msg_header := mrcp_header_fields_get (msg_header m) (sm_properties s) (msg_header req)\<rparr>)))"

definition recog_request_define_grammar :: "'x recog_sm \<Rightarrow> 'x recog_message \<Rightarrow> ('x recog_sm) outcome" where
  "recog_request_define_grammar s m =
     (if rs_state s = RECOGNIZER_STATE_RECOGNIZING then Some (recog_response_dispatch s (method_not_valid m))
      else let s1 = (if rs_state s = RECOGNIZER_STATE_RECOGNIZED
                     then recog_state_change s RECOGNIZER_STATE_IDLE else s)
           in Some (recog_request_dispatch s1 m))"

text \<open>The completion cause is set to success where the engine did not set one.\<close>

definition recog_default_cause :: "'x recog_message \<Rightarrow> 'x recog_message option" where
  "recog_default_cause m =
     (if \<not> mrcp_resource_header_property_check m RECOGNIZER_HEADER_COMPLETION_CAUSE then do {
        _ \<leftarrow> mrcp_resource_header_prepare m;
        Some (snd (mrcp_resource_header_property_add
          (resource_header_write (\<lambda>h. h\<lparr>recog_completion_cause := RECOGNIZER_COMPLETION_CAUSE_SUCCESS\<rparr>) m)
          RECOGNIZER_HEADER_COMPLETION_CAUSE))
      } else Some m)"

definition recog_response_define_grammar :: "'x recog_sm \<Rightarrow> 'x recog_message \<Rightarrow> ('x recog_sm) outcome" where
  "recog_response_define_grammar s m = do {
     m1 \<leftarrow> recog_default_cause m;
     Some (recog_response_dispatch s m1)
   }"

definition recog_request_recognize :: "'x recog_sm \<Rightarrow> 'x recog_message \<Rightarrow> ('x recog_sm) outcome" where
  "recog_request_recognize s m0 =
     (let m = inherit_properties (sm_properties s) m0 in
      if rs_state s = RECOGNIZER_STATE_RECOGNIZING then
        (let m1 = set_start_line (\<lambda>sl. sl\<lparr>sl_request_state := MRCP_REQUEST_STATE_PENDING\<rparr>) m;
             s1 = s\<lparr>rs_queue := apt_list_push_back (rs_queue s) m1\<rparr>;
             response = set_start_line (\<lambda>sl. sl\<lparr>sl_request_state := MRCP_REQUEST_STATE_PENDING\<rparr>)
               (mrcp_response_create (Some m1))
         in Some (recog_response_dispatch s1 response))
      else Some (recog_request_dispatch s m))"

definition recog_response_recognize :: "'x recog_sm \<Rightarrow> 'x recog_message \<Rightarrow> ('x recog_sm) outcome" where
  "recog_response_recognize s m =
     (let s1 = (if msg_request_state m = MRCP_REQUEST_STATE_INPROGRESS
                then recog_state_change (s\<lparr>rs_recog := sm_active_request s\<rparr>) RECOGNIZER_STATE_RECOGNIZING
                else s)
      in if rs_is_pending s1 then Some (True, s1\<lparr>rs_is_pending := False\<rparr>)
         else Some (recog_response_dispatch s1 m))"

definition recog_request_interpret :: "'x recog_sm \<Rightarrow> 'x recog_message \<Rightarrow> ('x recog_sm) outcome" where
  "recog_request_interpret s m = Some (recog_request_dispatch s (inherit_properties (sm_properties s) m))"

definition recog_response_interpret :: "'x recog_sm \<Rightarrow> 'x recog_message \<Rightarrow> ('x recog_sm) outcome" where
  "recog_response_interpret s m = Some (recog_response_dispatch s m)"

definition recog_request_get_result :: "'x recog_sm \<Rightarrow> 'x recog_message \<Rightarrow> ('x recog_sm) outcome" where
  "recog_request_get_result s m =
     (if rs_state s = RECOGNIZER_STATE_RECOGNIZED then Some (recog_request_dispatch s m)
      else Some (recog_response_dispatch s (method_not_valid m)))"

definition recog_response_get_result :: "'x recog_sm \<Rightarrow> 'x recog_message \<Rightarrow> ('x recog_sm) outcome" where
  "recog_response_get_result s m = Some (recog_response_dispatch s m)"

definition recog_request_recognition_start_timers ::
  "'x recog_sm \<Rightarrow> 'x recog_message \<Rightarrow> ('x recog_sm) outcome" where
  "recog_request_recognition_start_timers s m =
     (if rs_state s = RECOGNIZER_STATE_RECOGNIZING then Some (recog_request_dispatch s m)
      else Some (recog_response_dispatch s (method_not_valid m)))"

definition recog_response_recognition_start_timers ::
  "'x recog_sm \<Rightarrow> 'x recog_message \<Rightarrow> ('x recog_sm) outcome" where
  "recog_response_recognition_start_timers s m = Some (recog_response_dispatch s m)"

definition recog_pending_requests_remove ::
  "'x recog_sm \<Rightarrow> 'x recog_message \<Rightarrow> 'x recog_message \<Rightarrow> ('x recog_sm \<times> 'x recog_message) option" where
  "recog_pending_requests_remove s request response = do {
     (q, response1) \<leftarrow> pending_requests_remove (rs_queue s) request response;
     Some (s\<lparr>rs_queue := q\<rparr>, response1)
   }"

text \<open>The immediate response to a STOP request.\<close>

definition recog_stop_immediate :: "'x recog_sm \<Rightarrow> 'x recog_message \<Rightarrow> ('x recog_sm) outcome" where
  "recog_stop_immediate s m = do {
     (s1, response) \<leftarrow> recog_pending_requests_remove s m (mrcp_response_create (Some m));
     Some (recog_response_dispatch s1 response)
   }"

definition recog_request_stop :: "'x recog_sm \<Rightarrow> 'x recog_message \<Rightarrow> ('x recog_sm) outcome" where
  "recog_request_stop s m =
     (if rs_state s = RECOGNIZER_STATE_RECOGNIZING then
        (case stop_request_ids m of
           None \<Rightarrow> Some (recog_request_dispatch s m)
         | Some ids \<Rightarrow> do {
             recog \<leftarrow> rs_recog s;
             if request_id_list_find ids (msg_request_id recog) then Some (recog_request_dispatch s m)
             else recog_stop_immediate s m
           })
      else if rs_state s = RECOGNIZER_STATE_RECOGNIZED then
        recog_stop_immediate (recog_state_change s RECOGNIZER_STATE_IDLE) m
      else recog_stop_immediate s m)"

text \<open>Processing the first pending request, if any.\<close>

definition recog_pending_process :: "'x recog_sm \<Rightarrow> 'x recog_message option \<Rightarrow> bool \<times> 'x recog_sm" where
  "recog_pending_process s pending =
     (case pending of
        None \<Rightarrow> (True, s)
      | Some m \<Rightarrow> (True, snd (recog_request_dispatch (s\<lparr>rs_is_pending := True\<rparr>) m)))"

definition recog_response_stop :: "'x recog_sm \<Rightarrow> 'x recog_message \<Rightarrow> ('x recog_sm) outcome" where
  "recog_response_stop s m = do {
     recog \<leftarrow> rs_recog s;
     m1 \<leftarrow> response_id_report (msg_request_id recog) m;
     request \<leftarrow> sm_active_request s;
     (s1, m2) \<leftarrow> recog_pending_requests_remove s request m1;
     let s2 = recog_state_change s1 RECOGNIZER_STATE_IDLE;
     let (pending, q) = apt_list_pop_front (rs_queue s2);
     let s3 = snd (recog_response_dispatch (s2\<lparr>rs_queue := q\<rparr>) m2);
     Some (recog_pending_process s3 pending)
   }"

definition recog_event_start_of_input :: "'x recog_sm \<Rightarrow> 'x recog_message \<Rightarrow> ('x recog_sm) outcome" where
  "recog_event_start_of_input s m =
     (case rs_recog s of
        None \<Rightarrow> Some (False, s)
      | Some recog \<Rightarrow>
          if msg_request_id recog \<noteq> msg_request_id m then Some (False, s)
          else Some (recog_event_dispatch s
            (set_start_line (\<lambda>sl. sl\<lparr>sl_request_state := MRCP_REQUEST_STATE_INPROGRESS\<rparr>) m)))"

definition recog_event_recognition_complete ::
  "'x recog_sm \<Rightarrow> 'x recog_message \<Rightarrow> ('x recog_sm) outcome" where
  "recog_event_recognition_complete s m =
     (case rs_recog s of
        None \<Rightarrow> Some (False, s)
      | Some recog \<Rightarrow>
          if msg_request_id recog \<noteq> msg_request_id m then Some (False, s)
          else if (case sm_active_request s of
                     Some req \<Rightarrow> msg_method_id req = RECOGNIZER_STOP | None \<Rightarrow> False)
          then Some (False, s)
          else do {
            m1 \<leftarrow> recog_default_cause m;
            let s1 = recog_state_change s RECOGNIZER_STATE_RECOGNIZED;
            let s2 = snd (recog_event_dispatch s1 m1);
            let (pending, q) = apt_list_pop_front (rs_queue s2);
            Some (recog_pending_process (s2\<lparr>rs_queue := q\<rparr>) pending)
          })"

definition recog_event_interpretation_complete ::
  "'x recog_sm \<Rightarrow> 'x recog_message \<Rightarrow> ('x recog_sm) outcome" where
  "recog_event_interpretation_complete s m = do {
     m1 \<leftarrow> recog_default_cause m;
     Some (recog_event_dispatch s m1)
   }"

type_synonym 'x recog_method = "'x recog_sm \<Rightarrow> 'x recog_message \<Rightarrow> ('x recog_sm) outcome"

text \<open>The method arrays; the entries after the last initialiser are null.\<close>

definition recog_request_method_array :: "'x recog_method option list" where
  "recog_request_method_array =
     [Some recog_request_set_params, Some recog_request_get_params, Some recog_request_define_grammar,
      Some recog_request_recognize, Some recog_request_interpret, Some recog_request_get_result,
      Some recog_request_recognition_start_timers, Some recog_request_stop,
      None, None, None, None, None]"

definition recog_response_method_array :: "'x recog_method option list" where
  "recog_response_method_array =
     [Some recog_response_set_params, Some recog_response_get_params, Some recog_response_define_grammar,
      Some recog_response_recognize, Some recog_response_interpret, Some recog_response_get_result,
      Some recog_response_recognition_start_timers, Some recog_response_stop,
      None, None, None, None, None]"

definition recog_event_method_array :: "'x recog_method option list" where
  "recog_event_method_array =
     [Some recog_event_start_of_input, Some recog_event_recognition_complete,
      Some recog_event_interpretation_complete]"

definition recog_request_state_update :: "'x recog_method" where
  "recog_request_state_update s m =
     (if RECOGNIZER_METHOD_COUNT \<le> msg_method_id m then Some (False, s)
      else case recog_request_method_array ! msg_method_id m of
             Some f \<Rightarrow> f s m
           | None \<Rightarrow> Some (recog_request_dispatch s m))"

definition recog_response_state_update :: "'x recog_method" where
  "recog_response_state_update s m =
     (case sm_active_request s of
        None \<Rightarrow> Some (False, s)
      | Some req \<Rightarrow>
          if msg_request_id req \<noteq> msg_request_id m then Some (False, s)
          else if RECOGNIZER_METHOD_COUNT \<le> msg_method_id m then Some (False, s)
          else case recog_response_method_array ! msg_method_id m of
                 Some f \<Rightarrow> f s m
               | None \<Rightarrow> Some (recog_response_dispatch s m))"

definition recog_event_state_update :: "'x recog_method" where
  "recog_event_state_update s m =
     (if RECOGNIZER_EVENT_COUNT \<le> msg_method_id m then Some (False, s)
      else case recog_event_method_array ! msg_method_id m of
             Some f \<Rightarrow> f s m
           | None \<Rightarrow> Some (recog_event_dispatch s m))"

definition recog_state_update :: "'x recog_method" where
  "recog_state_update s m =
     (case msg_type m of
        MRCP_MESSAGE_TYPE_REQUEST \<Rightarrow> recog_request_state_update s m
      | MRCP_MESSAGE_TYPE_RESPONSE \<Rightarrow> recog_response_state_update s m
      | MRCP_MESSAGE_TYPE_EVENT \<Rightarrow> recog_event_state_update s m
      | MRCP_MESSAGE_TYPE_UNKNOWN \<Rightarrow> Some (False, s))"

definition recog_state_deactivate :: "'x recog_sm \<Rightarrow> bool \<times> 'x recog_sm" where
  "recog_state_deactivate s =
     (if rs_state s \<noteq> RECOGNIZER_STATE_RECOGNIZING then (False, s)
      else case rs_recog s of
             None \<Rightarrow> (False, s)
           | Some src \<Rightarrow> recog_request_dispatch s (deactivate_request src RECOGNIZER_STOP))"

text \<open>\<open>mrcp_state_machine_deactivate\<close> on a recognizer.\<close>

definition recog_deactivate :: "'x recog_sm \<Rightarrow> bool \<times> 'x recog_sm" where
  "recog_deactivate s = recog_state_deactivate (s\<lparr>sm_active := False\<rparr>)"

definition mrcp_recog_state_machine_create ::
  "('x recog_message \<Rightarrow> bool) \<Rightarrow> bool \<Rightarrow> 'x recog_header_scheme header_vtable \<Rightarrow> 'x recog_sm" where
  "mrcp_recog_state_machine_create on_dispatch on_deactivate vt =
     \<lparr>sm_active = True, sm_active_request = None,
      sm_properties = mrcp_message_header_create (Some generic_header_vtable) (Some vt),
      sm_out = [], sm_on_dispatch = on_dispatch, sm_on_deactivate = on_deactivate,
      rs_state = RECOGNIZER_STATE_IDLE, rs_is_pending = False, rs_recog = None,
      rs_queue = apt_list_create\<rparr>"

section \<open>The invariant\<close>

text \<open>
  There is an in-progress or a recognized request exactly outside the idle state; a STOP
  request waits for its response only while a recognition is in progress; the queue holds
  RECOGNIZE requests marked pending; the fields of the parameters kept are all indexed.
\<close>

definition recog_inv :: "'x recog_sm \<Rightarrow> bool" where
  "recog_inv s \<longleftrightarrow>
     (rs_state s = RECOGNIZER_STATE_IDLE \<longleftrightarrow> rs_recog s = None)
     \<and> (\<forall>req. sm_active_request s = Some req \<and> msg_method_id req = RECOGNIZER_STOP \<longrightarrow>
            rs_state s = RECOGNIZER_STATE_RECOGNIZING)
     \<and> list_all (\<lambda>m. msg_method_id m = RECOGNIZER_RECOGNIZE
            \<and> msg_request_state m = MRCP_REQUEST_STATE_PENDING) (rs_queue s)
     \<and> header_wf (sm_properties s)"

definition recog_env :: "'x recog_sm \<Rightarrow> 'x recog_message \<Rightarrow> bool" where
  "recog_env s m \<longleftrightarrow>
     (case msg_type m of
        MRCP_MESSAGE_TYPE_REQUEST \<Rightarrow> msg_has_resource m
      | MRCP_MESSAGE_TYPE_RESPONSE \<Rightarrow> msg_ready m
          \<and> (\<forall>req. sm_active_request s = Some req \<and> msg_request_id req = msg_request_id m \<longrightarrow>
                 msg_method_id req = msg_method_id m)
      | MRCP_MESSAGE_TYPE_EVENT \<Rightarrow> msg_ready m
      | MRCP_MESSAGE_TYPE_UNKNOWN \<Rightarrow> True)"

definition recog_known_request :: "'x recog_message \<Rightarrow> bool" where
  "recog_known_request m \<longleftrightarrow> msg_type m = MRCP_MESSAGE_TYPE_REQUEST \<and> msg_method_id m < RECOGNIZER_METHOD_COUNT"

lemma default_cause_ready:
  assumes "msg_ready m"
  shows "\<exists>m'. recog_default_cause m = Some m' \<and> msg_ready m' \<and> msg_start_line m' = msg_start_line m"
proof -
  obtain h where "mrcp_resource_header_prepare m = Some h" using ready_prepare(2)[OF assms] by blast
  then show ?thesis using assms by (simp add: recog_default_cause_def)
qed

lemmas recog_dispatch_defs = recog_request_dispatch_def recog_response_dispatch_def
  recog_event_dispatch_def recog_state_change_def Let_def

lemma recog_stop_immediate_ok:
  assumes "msg_has_resource m"
  shows "\<exists>b s' o'. recog_stop_immediate s m = Some (b, s') \<and> sm_properties s' = sm_properties s
    \<and> sm_active_request s' = None \<and> rs_state s' = rs_state s \<and> rs_recog s' = rs_recog s
    \<and> rs_queue s' = filter (\<lambda>x. \<not> stop_selects m (msg_request_id x)) (rs_queue s)
    \<and> sm_out s' = sm_out s @ [o'] \<and> (sm_active s \<longrightarrow> answered m None o')"
proof -
  obtain r where "pending_requests_remove (rs_queue s) m (mrcp_response_create (Some m))
      = Some (filter (\<lambda>x. \<not> stop_selects m (msg_request_id x)) (rs_queue s), r)"
    "msg_start_line r = msg_start_line (mrcp_response_create (Some m))"
    using pending_remove_ready[OF response_create_ready[OF assms]] by blast
  then show ?thesis
    by (simp add: recog_stop_immediate_def recog_pending_requests_remove_def recog_dispatch_defs answered_dispatched)
qed

lemma recog_request_ok:
  assumes inv: "recog_inv s" and env: "recog_env s m" and t: "msg_type m = MRCP_MESSAGE_TYPE_REQUEST"
    and c: "msg_method_id m < RECOGNIZER_METHOD_COUNT"
  shows "\<exists>b s' o'. recog_state_update s m = Some (b, s') \<and> recog_inv s' \<and> sm_out s' = sm_out s @ [o']
    \<and> (sm_active s \<longrightarrow> answered m (sm_active_request s') o')"
proof -
  have r: "msg_has_resource m" using env t by (simp add: recog_env_def)
  have i: "msg_method_id m \<in> {0, 1, 2, 3, 4, 5, 6, 7, 8, 9, 10, 11, 12}"
    using c by (intro method_below_13) (simp add: RECOGNIZER_METHOD_COUNT_def)
  show ?thesis
  proof (cases "msg_method_id m = RECOGNIZER_STOP")
    case False
    then show ?thesis
      using i inv t
      by (auto simp: recog_state_update_def recog_request_state_update_def RECOGNIZER_METHOD_COUNT_def
          recog_request_method_array_def recog_request_set_params_def recog_request_get_params_def
          recog_request_define_grammar_def recog_request_recognize_def recog_request_interpret_def
          recog_request_get_result_def recog_request_recognition_start_timers_def
          recog_dispatch_defs recog_inv_def answered_dispatched method_not_valid_def)
  next
    case True
    let ?s = "if rs_state s = RECOGNIZER_STATE_RECOGNIZED then recog_state_change s RECOGNIZER_STATE_IDLE else s"
    have u: "recog_state_update s m = recog_request_stop s m"
      using t True by (simp add: recog_state_update_def recog_request_state_update_def
          RECOGNIZER_METHOD_COUNT_def recog_request_method_array_def)
    have inv': "recog_inv ?s" using inv by (auto simp: recog_inv_def recog_state_change_def)
    obtain b s' o' where imm: "recog_stop_immediate ?s m = Some (b, s')" "sm_properties s' = sm_properties ?s" "sm_active_request s' = None"
      "rs_state s' = rs_state ?s" "rs_recog s' = rs_recog ?s"
      "rs_queue s' = filter (\<lambda>x. \<not> stop_selects m (msg_request_id x)) (rs_queue ?s)"
      "sm_out s' = sm_out ?s @ [o']" "sm_active ?s \<longrightarrow> answered m None o'"
      using recog_stop_immediate_ok[OF r] by blast
    have invs: "recog_inv s'" using inv' imm by (auto simp: recog_inv_def list_all_iff)
    have out: "sm_out ?s = sm_out s" "sm_active ?s = sm_active s" by (simp_all add: recog_state_change_def)
    show ?thesis
    proof (cases "rs_state s = RECOGNIZER_STATE_RECOGNIZING")
      case rec: True
      then obtain x where x: "rs_recog s = Some x" using inv by (auto simp: recog_inv_def)
      have d: "recog_inv (snd (recog_request_dispatch s m))"
        using inv rec by (auto simp: recog_inv_def recog_request_dispatch_def)
      show ?thesis
        using u rec x d imm invs t
        by (auto simp: recog_request_stop_def recog_request_dispatch_def answered_dispatched split: option.split)
    next
      case False
      then have "recog_request_stop s m = recog_stop_immediate ?s m" by (simp add: recog_request_stop_def)
      then show ?thesis using u imm invs out by auto
    qed
  qed
qed

text \<open>Handing the first pending request to the engine.\<close>

lemma recog_pending_process_simps [simp]:
  "rs_state (snd (recog_pending_process s p)) = rs_state s"
  "rs_recog (snd (recog_pending_process s p)) = rs_recog s"
  "rs_queue (snd (recog_pending_process s p)) = rs_queue s"
  "sm_active_request (snd (recog_pending_process s (Some m))) = Some m"
  "recog_pending_process s None = (True, s)"
  "sm_out (snd (recog_pending_process s (Some m))) = sm_out s @ [Dispatched m]"
  "sm_properties (snd (recog_pending_process s p)) = sm_properties s"
  "fst (recog_pending_process s p) = True"
  by (simp_all add: recog_pending_process_def recog_request_dispatch_def split: option.split)

lemma recog_pop_inv:
  assumes inv: "recog_inv s" and pop: "apt_list_pop_front (rs_queue s) = (p, q)"
  shows "recog_inv (snd (recog_pending_process (s\<lparr>rs_queue := q\<rparr>) p))"
proof (cases "rs_queue s")
  case Nil
  then have "p = None" "q = []" using pop by simp_all
  then show ?thesis using inv by (simp add: recog_inv_def)
next
  case (Cons m ms)
  then have "p = Some m" "q = ms" using pop by simp_all
  then show ?thesis using inv Cons by (auto simp: recog_inv_def)
qed

lemma recog_pending_process_out:
  "\<exists>out. sm_out (snd (recog_pending_process s p)) = sm_out s @ out"
  by (cases p) simp_all

lemma recog_response_stop_ok:
  assumes inv: "recog_inv s" and r: "msg_ready m" and req: "sm_active_request s = Some req"
    and stop: "msg_method_id req = RECOGNIZER_STOP"
  shows "\<exists>b s'. recog_response_stop s m = Some (b, s') \<and> recog_inv s' \<and> (\<exists>out. sm_out s' = sm_out s @ out)"
proof -
  obtain x where x: "rs_recog s = Some x" using inv req stop by (auto simp: recog_inv_def)
  obtain m1 where m1: "response_id_report (msg_request_id x) m = Some m1" "msg_ready m1"
    using id_report_ready[OF r] by blast
  obtain m2 where m2: "pending_requests_remove (rs_queue s) req m1
      = Some (filter (\<lambda>y. \<not> stop_selects req (msg_request_id y)) (rs_queue s), m2)"
    using pending_remove_ready[OF m1(2)] by blast
  let ?q = "filter (\<lambda>y. \<not> stop_selects req (msg_request_id y)) (rs_queue s)"
  obtain p q where pq: "apt_list_pop_front ?q = (p, q)" by (cases "apt_list_pop_front ?q")
  define s2 where "s2 = recog_state_change (s\<lparr>rs_queue := ?q\<rparr>) RECOGNIZER_STATE_IDLE"
  define s3 where "s3 = snd (recog_response_dispatch (s2\<lparr>rs_queue := q\<rparr>) m2)"
  have run: "recog_response_stop s m = Some (recog_pending_process s3 p)"
    using x m1(1) req m2 pq
    by (simp add: recog_response_stop_def recog_pending_requests_remove_def s2_def s3_def recog_state_change_def Let_def)
  have q2: "rs_queue s2 = ?q" "sm_out s2 = sm_out s" by (simp_all add: s2_def recog_state_change_def)
  have s3: "s3 = (snd (recog_response_dispatch s2 m2))\<lparr>rs_queue := q\<rparr>"
    by (simp add: s3_def recog_response_dispatch_def Let_def)
  have inv2: "recog_inv (snd (recog_response_dispatch s2 m2))"
    using inv by (auto simp: s2_def recog_inv_def recog_dispatch_defs list_all_iff)
  have "recog_inv (snd (recog_pending_process s3 p))"
    unfolding s3 by (rule recog_pop_inv[OF inv2]) (simp add: recog_response_dispatch_def Let_def q2 pq)
  moreover have "\<exists>out. sm_out s3 = sm_out s @ out" by (simp add: s3_def recog_response_dispatch_def Let_def q2)
  ultimately show ?thesis
    using run recog_pending_process_out[of s3 p] by (cases "recog_pending_process s3 p") fastforce
qed

lemma recog_response_ok:
  assumes inv: "recog_inv s" and env: "recog_env s m" and t: "msg_type m = MRCP_MESSAGE_TYPE_RESPONSE"
  shows "\<exists>b s'. recog_state_update s m = Some (b, s') \<and> recog_inv s' \<and> (\<exists>out. sm_out s' = sm_out s @ out)"
proof (cases "\<exists>req. sm_active_request s = Some req \<and> msg_request_id req = msg_request_id m
    \<and> msg_method_id m < RECOGNIZER_METHOD_COUNT")
  case False
  then show ?thesis using t inv
    by (auto simp: recog_state_update_def recog_response_state_update_def not_less split: option.split)
next
  case True
  then obtain req where req: "sm_active_request s = Some req" "msg_request_id req = msg_request_id m"
    and c: "msg_method_id m < RECOGNIZER_METHOD_COUNT" by blast
  have r: "msg_ready m" and meth: "msg_method_id req = msg_method_id m"
    using env t req by (simp_all add: recog_env_def)
  obtain m1 where m1: "recog_default_cause m = Some m1" using default_cause_ready[OF r] by blast
  have i: "msg_method_id m \<in> {0, 1, 2, 3, 4, 5, 6, 7, 8, 9, 10, 11, 12}"
    using c by (intro method_below_13) (simp add: RECOGNIZER_METHOD_COUNT_def)
  show ?thesis
  proof (cases "msg_method_id m = RECOGNIZER_STOP")
    case True
    then show ?thesis
      using recog_response_stop_ok[OF inv r req(1)] meth t req
      by (simp add: recog_state_update_def recog_response_state_update_def RECOGNIZER_METHOD_COUNT_def
          recog_response_method_array_def)
  next
    case False
    then show ?thesis
      using i inv t req meth m1
      by (auto simp: recog_state_update_def recog_response_state_update_def RECOGNIZER_METHOD_COUNT_def
          recog_response_method_array_def recog_response_set_params_def recog_response_get_params_def
          recog_response_define_grammar_def recog_response_recognize_def recog_response_interpret_def
          recog_response_get_result_def recog_response_recognition_start_timers_def
          recog_dispatch_defs recog_inv_def)
  qed
qed

lemma recog_complete_ok:
  assumes inv: "recog_inv s" and r: "msg_ready m"
  shows "\<exists>b s'. recog_event_recognition_complete s m = Some (b, s') \<and> recog_inv s'
    \<and> (\<exists>out. sm_out s' = sm_out s @ out)"
proof -
  obtain m1 where m1: "recog_default_cause m = Some m1" using default_cause_ready[OF r] by blast
  define s2 where "s2 = snd (recog_event_dispatch (recog_state_change s RECOGNIZER_STATE_RECOGNIZED) m1)"
  obtain p q where pq: "apt_list_pop_front (rs_queue s2) = (p, q)" by (cases "apt_list_pop_front (rs_queue s2)")
  let ?fin = "recog_pending_process (s2\<lparr>rs_queue := q\<rparr>) p"
  have main: "recog_inv (snd ?fin) \<and> (\<exists>out. sm_out (snd ?fin) = sm_out s @ out)"
    if x: "rs_recog s = Some x" and ns: "\<not> (case sm_active_request s of
      Some req \<Rightarrow> msg_method_id req = RECOGNIZER_STOP | None \<Rightarrow> False)" for x
  proof -
    have "recog_inv s2" using inv x ns
      by (auto simp: s2_def recog_inv_def recog_dispatch_defs split: option.splits)
    then have "recog_inv (snd ?fin)" by (rule recog_pop_inv[OF _ pq])
    moreover have "\<exists>out. sm_out s2 = sm_out s @ out" by (simp add: s2_def recog_dispatch_defs)
    ultimately show ?thesis using recog_pending_process_out[of "s2\<lparr>rs_queue := q\<rparr>" p] by fastforce
  qed
  show ?thesis
  proof (cases "rs_recog s")
    case None
    then show ?thesis using inv by (auto simp: recog_event_recognition_complete_def)
  next
    case (Some x)
    let ?stop = "case sm_active_request s of Some req \<Rightarrow> msg_method_id req = RECOGNIZER_STOP | None \<Rightarrow> False"
    show ?thesis
    proof (cases "msg_request_id x \<noteq> msg_request_id m \<or> ?stop")
      case True
      then show ?thesis using inv Some by (auto simp: recog_event_recognition_complete_def)
    next
      case False
      then have "recog_event_recognition_complete s m = Some ?fin"
        using Some m1 pq by (simp add: recog_event_recognition_complete_def s2_def[symmetric] Let_def)
      then show ?thesis using main[OF Some] False by (cases ?fin) auto
    qed
  qed
qed

lemma recog_event_ok:
  assumes inv: "recog_inv s" and env: "recog_env s m" and t: "msg_type m = MRCP_MESSAGE_TYPE_EVENT"
  shows "\<exists>b s'. recog_state_update s m = Some (b, s') \<and> recog_inv s' \<and> (\<exists>out. sm_out s' = sm_out s @ out)"
proof -
  have r: "msg_ready m" using env t by (simp add: recog_env_def)
  obtain m1 where m1: "recog_default_cause m = Some m1" using default_cause_ready[OF r] by blast
  have upd: "recog_state_update s m = recog_event_state_update s m" using t by (simp add: recog_state_update_def)
  consider "3 \<le> msg_method_id m" | "msg_method_id m = 0" | "msg_method_id m = 1" | "msg_method_id m = 2"
    by linarith
  then show ?thesis
  proof cases
    case 1
    then show ?thesis using inv by (auto simp: upd recog_event_state_update_def RECOGNIZER_EVENT_COUNT_def)
  next
    case 2
    then show ?thesis using inv
      by (auto simp: upd recog_event_state_update_def RECOGNIZER_EVENT_COUNT_def recog_event_method_array_def
          recog_event_start_of_input_def recog_event_dispatch_def recog_inv_def split: option.split)
  next
    case 3
    then show ?thesis using recog_complete_ok[OF inv r]
      by (simp add: upd recog_event_state_update_def RECOGNIZER_EVENT_COUNT_def recog_event_method_array_def)
  next
    case 4
    then show ?thesis using inv m1
      by (auto simp: upd recog_event_state_update_def RECOGNIZER_EVENT_COUNT_def recog_event_method_array_def
          recog_event_interpretation_complete_def recog_event_dispatch_def recog_inv_def)
  qed
qed

lemma recog_update_ok:
  assumes "recog_inv s" "recog_env s m"
  shows "\<exists>b s'. recog_state_update s m = Some (b, s') \<and> recog_inv s' \<and> (\<exists>out. sm_out s' = sm_out s @ out)"
proof (cases "msg_type m")
  case MRCP_MESSAGE_TYPE_UNKNOWN
  then show ?thesis using assms by (auto simp: recog_state_update_def)
next
  case MRCP_MESSAGE_TYPE_REQUEST
  show ?thesis
  proof (cases "msg_method_id m < RECOGNIZER_METHOD_COUNT")
    case True
    then show ?thesis using recog_request_ok[OF assms MRCP_MESSAGE_TYPE_REQUEST] by blast
  next
    case False
    then show ?thesis using assms MRCP_MESSAGE_TYPE_REQUEST
      by (auto simp: recog_state_update_def recog_request_state_update_def)
  qed
next
  case MRCP_MESSAGE_TYPE_RESPONSE
  then show ?thesis using recog_response_ok[OF assms] by blast
next
  case MRCP_MESSAGE_TYPE_EVENT
  then show ?thesis using recog_event_ok[OF assms] by blast
qed

lemma recog_deactivate_ok:
  "recog_inv s \<Longrightarrow> recog_inv (snd (recog_deactivate s)) \<and> (\<exists>out. sm_out (snd (recog_deactivate s)) = sm_out s @ out)"
  by (auto simp: recog_deactivate_def recog_state_deactivate_def recog_request_dispatch_def recog_inv_def
      split: option.split)

interpretation recog: resource_sm recog_state_update recog_deactivate sm_out recog_inv recog_env recog_known_request
proof unfold_locales
  fix s :: "'x recog_sm" and m :: "'x recog_message" and b s'
  assume inv: "recog_inv s"
  show "recog_inv (snd (recog_deactivate s)) \<and> (\<exists>out. sm_out (snd (recog_deactivate s)) = sm_out s @ out)"
    by (rule recog_deactivate_ok[OF inv])
  assume env: "recog_env s m"
  show "\<exists>b s'. recog_state_update s m = Some (b, s') \<and> recog_inv s' \<and> (\<exists>out. sm_out s' = sm_out s @ out)"
    by (rule recog_update_ok[OF inv env])
  assume "recog_known_request m" and u: "recog_state_update s m = Some (b, s')"
  then show "length (sm_out s') = Suc (length (sm_out s))"
    using recog_request_ok[OF inv env] by (auto simp: recog_known_request_def)
qed

lemma recog_create_inv: "recog_inv (mrcp_recog_state_machine_create d e vt)"
  by (simp add: recog_inv_def mrcp_recog_state_machine_create_def)

section \<open>Reachable states\<close>

text \<open>
  The states of a recognizer whose owner keeps its part: messages as \<open>recog_env\<close> asks for, and
  deactivation at any time.
\<close>

inductive recog_reach :: "'x recog_sm \<Rightarrow> bool" where
  recog_reach_create: "recog_reach (mrcp_recog_state_machine_create d e vt)"
| recog_reach_update: "recog_reach s \<Longrightarrow> recog_env s m \<Longrightarrow> recog_state_update s m = Some (b, s') \<Longrightarrow> recog_reach s'"
| recog_reach_deactivate: "recog_reach s \<Longrightarrow> recog_reach (snd (recog_deactivate s))"

lemma recog_reach_inv: "recog_reach s \<Longrightarrow> recog_inv s"
proof (induction rule: recog_reach.induct)
  case (recog_reach_update s m b s')
  then show ?case using recog.update_safe[of s m] by auto
qed (auto simp: recog_create_inv recog.deactivate_safe)

text \<open>After the completion of a recognition, the first pending request goes to the engine.\<close>

lemma recog_complete_next_aux:
  assumes inv: "recog_inv s" and r: "msg_ready m" and act: "sm_active s"
    and x: "rs_recog s = Some x" and i: "msg_request_id x = msg_request_id m"
    and ns: "\<not> (case sm_active_request s of Some req \<Rightarrow> msg_method_id req = RECOGNIZER_STOP | None \<Rightarrow> False)"
  shows "\<exists>m' s'. recog_event_recognition_complete s m = Some (True, s')
    \<and> msg_start_line m' = msg_start_line m
    \<and> rs_state s' = RECOGNIZER_STATE_RECOGNIZED \<and> rs_queue s' = tl (rs_queue s)
    \<and> sm_out s' = sm_out s @ Dispatched m' # map Dispatched (take 1 (rs_queue s))
    \<and> sm_properties s' = sm_properties s \<and> sm_active s'
    \<and> (rs_queue s \<noteq> [] \<longrightarrow> sm_active_request s' = Some (hd (rs_queue s)) \<and> rs_is_pending s')"
proof -
  obtain m1 where m1: "recog_default_cause m = Some m1" "msg_start_line m1 = msg_start_line m"
    using default_cause_ready[OF r] by blast
  show ?thesis
    using x i ns act m1
    by (cases "rs_queue s") (auto simp: recog_event_recognition_complete_def recog_pending_process_def
        recog_dispatch_defs split: option.splits intro!: exI[of _ m1])
qed

lemma recog_response_stop_fresh:
  assumes inv: "recog_inv s" and act: "sm_active s" and req: "sm_active_request s = Some req"
    and stop: "msg_method_id req = RECOGNIZER_STOP"
    and x: "rs_recog s = Some x" and i: "msg_request_id x < 10 ^ 9"
    and r: "msg_ready m" and f: "response_fresh m"
  shows "\<exists>b s' m'. recog_response_stop s m = Some (b, s')
    \<and> sm_out s' = sm_out s @ Dispatched m' # map Dispatched (take 1 (filter (\<lambda>y. \<not> stop_selects req (msg_request_id y)) (rs_queue s)))
    \<and> rs_queue s' = tl (filter (\<lambda>y. \<not> stop_selects req (msg_request_id y)) (rs_queue s))
    \<and> rs_state s' = RECOGNIZER_STATE_IDLE
    \<and> map_option hf_value (msg_field m' GENERIC_HEADER_ACTIVE_REQUEST_ID_LIST) = Some (show_nat (unat (msg_request_id x)))
    \<and> msg_active_ids m' = Some (take 5 (msg_request_id x
        # map msg_request_id (filter (\<lambda>y. stop_selects req (msg_request_id y)) (rs_queue s))))"
proof -
  let ?q = "filter (\<lambda>y. \<not> stop_selects req (msg_request_id y)) (rs_queue s)"
  obtain m1 where m1: "response_id_report (msg_request_id x) m = Some m1"
    "map_option hf_value (msg_field m1 GENERIC_HEADER_ACTIVE_REQUEST_ID_LIST) = Some (show_nat (unat (msg_request_id x)))"
    "mrcp_generic_header_property_check m1 GENERIC_HEADER_ACTIVE_REQUEST_ID_LIST"
    using id_report_fresh[OF f i] by blast
  have m1r: "msg_ready m1" using id_report_ready[OF r, of "msg_request_id x"] m1(1) by auto
  obtain m2 where m2: "pending_requests_remove (rs_queue s) req m1 = Some (?q, m2)"
    using pending_remove_ready[OF m1r] by blast
  have ids: "msg_active_ids m2 = Some (take 5 (msg_request_id x
        # map msg_request_id (filter (\<lambda>y. stop_selects req (msg_request_id y)) (rs_queue s))))"
    using pending_remove_ids[OF id_report_ids[OF f m1(1)] _ m2] by simp
  have fld: "msg_field m2 i = msg_field m1 i" for i
    using pending_remove_field[OF m1(3) m2] by (simp add: msg_field_def)
  show ?thesis
    using x m1(1,2) req m2 act ids fld
    by (cases ?q) (auto simp: recog_response_stop_def recog_pending_requests_remove_def recog_pending_process_def
        recog_dispatch_defs intro!: exI[of _ m2])
qed

section \<open>The parameters that are kept\<close>

definition recog_sets_params :: "'x recog_message \<Rightarrow> bool" where
  "recog_sets_params m \<longleftrightarrow> msg_type m = MRCP_MESSAGE_TYPE_REQUEST \<and> msg_method_id m = RECOGNIZER_SET_PARAMS"

lemma recog_set_params_update:
  assumes "msg_type m = MRCP_MESSAGE_TYPE_REQUEST" "msg_method_id m = RECOGNIZER_SET_PARAMS"
  shows "recog_state_update s m = Some (recog_request_dispatch
    (s\<lparr>sm_properties := mrcp_header_fields_set (sm_properties s) (msg_header m)\<rparr>) m)"
  using assms by (simp add: recog_state_update_def recog_request_state_update_def RECOGNIZER_METHOD_COUNT_def
      recog_request_method_array_def recog_request_set_params_def)

lemma recog_recognize_update:
  assumes "msg_type m = MRCP_MESSAGE_TYPE_REQUEST" "msg_method_id m = RECOGNIZER_RECOGNIZE"
    and "rs_state s \<noteq> RECOGNIZER_STATE_RECOGNIZING"
  shows "recog_state_update s m = Some (recog_request_dispatch s (inherit_properties (sm_properties s) m))"
  using assms by (simp add: recog_state_update_def recog_request_state_update_def RECOGNIZER_METHOD_COUNT_def
      recog_request_method_array_def recog_request_recognize_def Let_def)

lemma recog_recognize_queued:
  assumes "msg_type m = MRCP_MESSAGE_TYPE_REQUEST" "msg_method_id m = RECOGNIZER_RECOGNIZE"
    and "rs_state s = RECOGNIZER_STATE_RECOGNIZING"
  shows "\<exists>b s'. recog_state_update s m = Some (b, s') \<and> rs_queue s' = rs_queue s
    @ [set_start_line (\<lambda>sl. sl\<lparr>sl_request_state := MRCP_REQUEST_STATE_PENDING\<rparr>) (inherit_properties (sm_properties s) m)]"
  using assms by (simp add: recog_state_update_def recog_request_state_update_def RECOGNIZER_METHOD_COUNT_def
      recog_request_method_array_def recog_request_recognize_def recog_response_dispatch_def Let_def)

text \<open>No message but SET-PARAMS changes them.\<close>

lemma recog_dispatch_properties [simp]:
  "sm_properties (snd (recog_request_dispatch s m)) = sm_properties s"
  "sm_properties (snd (recog_response_dispatch s m)) = sm_properties s"
  "sm_properties (snd (recog_event_dispatch s m)) = sm_properties s"
  "sm_properties (recog_state_change s st) = sm_properties s"
  by (simp_all add: recog_dispatch_defs)

lemma recog_request_properties:
  assumes "recog_request_state_update s m = Some (b, s')" "msg_method_id m \<noteq> RECOGNIZER_SET_PARAMS"
  shows "sm_properties s' = sm_properties s"
proof (cases "msg_method_id m < RECOGNIZER_METHOD_COUNT")
  case False
  then show ?thesis using assms by (simp add: recog_request_state_update_def)
next
  case True
  have *: "d = (b, s') \<Longrightarrow> sm_properties s' = sm_properties (snd d)" for d by simp
  have i: "msg_method_id m \<in> {0, 1, 2, 3, 4, 5, 6, 7, 8, 9, 10, 11, 12}"
    using True by (intro method_below_13) (simp add: RECOGNIZER_METHOD_COUNT_def)
  show ?thesis
    using i assms
    by (auto simp: recog_request_state_update_def RECOGNIZER_METHOD_COUNT_def
          recog_request_method_array_def recog_request_get_params_def
          recog_request_define_grammar_def recog_request_recognize_def recog_request_interpret_def
          recog_request_get_result_def recog_request_recognition_start_timers_def recog_request_stop_def
          recog_stop_immediate_def recog_pending_requests_remove_def bind_eq_Some_conv Let_def
        dest!: * split: if_splits option.splits)
qed

lemma recog_response_properties:
  assumes "recog_response_state_update s m = Some (b, s')"
  shows "sm_properties s' = sm_properties s"
proof (cases "msg_method_id m < RECOGNIZER_METHOD_COUNT")
  case False
  then show ?thesis using assms by (auto simp: recog_response_state_update_def split: option.splits if_splits)
next
  case True
  have *: "d = (b, s') \<Longrightarrow> sm_properties s' = sm_properties (snd d)" for d by simp
  have i: "msg_method_id m \<in> {0, 1, 2, 3, 4, 5, 6, 7, 8, 9, 10, 11, 12}"
    using True by (intro method_below_13) (simp add: RECOGNIZER_METHOD_COUNT_def)
  show ?thesis
    using i assms
    by (auto simp: recog_response_state_update_def RECOGNIZER_METHOD_COUNT_def
          recog_response_method_array_def recog_response_set_params_def recog_response_get_params_def
          recog_response_define_grammar_def recog_response_recognize_def recog_response_interpret_def
          recog_response_get_result_def recog_response_recognition_start_timers_def recog_response_stop_def
          recog_pending_requests_remove_def bind_eq_Some_conv Let_def split_beta
        dest!: * split: if_splits option.splits)
qed

lemma recog_event_properties:
  assumes "recog_event_state_update s m = Some (b, s')"
  shows "sm_properties s' = sm_properties s"
proof -
  have *: "d = (b, s') \<Longrightarrow> sm_properties s' = sm_properties (snd d)" for d by simp
  consider "3 \<le> msg_method_id m" | "msg_method_id m = 0" | "msg_method_id m = 1" | "msg_method_id m = 2"
    by linarith
  then show ?thesis
    using assms
    by cases (auto simp: recog_event_state_update_def RECOGNIZER_EVENT_COUNT_def recog_event_method_array_def
        recog_event_start_of_input_def recog_event_recognition_complete_def recog_event_interpretation_complete_def
        bind_eq_Some_conv Let_def split_beta dest!: * split: if_splits option.splits)
qed

lemma recog_update_properties:
  assumes "recog_state_update s m = Some (b, s')" "\<not> recog_sets_params m"
  shows "sm_properties s' = sm_properties s"
  using assms recog_request_properties recog_response_properties recog_event_properties
  by (cases "msg_type m") (auto simp: recog_state_update_def recog_sets_params_def)

lemma recog_deactivate_properties: "sm_properties (snd (recog_deactivate s)) = sm_properties s"
  by (simp add: recog_deactivate_def recog_state_deactivate_def split: option.split)

lemma recog_run_properties:
  assumes "recog.run s as = Some s'" "\<forall>m. Some m \<in> set as \<longrightarrow> \<not> recog_sets_params m"
  shows "sm_properties s' = sm_properties s"
  using assms
proof (induction s as rule: recog.run.induct)
  case (1 s)
  then show ?case by simp
next
  case (2 s as)
  then show ?case by (simp add: recog_deactivate_properties)
next
  case (3 s m as)
  then obtain b s1 where u: "recog_state_update s m = Some (b, s1)" by (auto split: option.splits)
  then have "sm_properties s' = sm_properties s1" using 3 by simp
  then show ?case using recog_update_properties[OF u] 3(3) by simp
qed

section \<open>The queue of pending requests\<close>

text \<open>
  A recognizer at work on a recognition that the engine has started. A RECOGNIZE request is then
  kept with the parameters it inherits and answered with PENDING.
\<close>

definition recog_busy :: "'x recog_sm \<Rightarrow> bool" where
  "recog_busy s \<longleftrightarrow> recog_inv s \<and> sm_active s \<and> rs_state s = RECOGNIZER_STATE_RECOGNIZING \<and> \<not> rs_is_pending s
     \<and> \<not> (case sm_active_request s of Some req \<Rightarrow> msg_method_id req = RECOGNIZER_STOP | None \<Rightarrow> False)
     \<and> list_all (\<lambda>q. msg_type q = MRCP_MESSAGE_TYPE_REQUEST) (rs_queue s)"

definition recog_queued :: "'x recog_sm \<Rightarrow> 'x recog_message \<Rightarrow> 'x recog_message" where
  "recog_queued s m =
     set_start_line (\<lambda>sl. sl\<lparr>sl_request_state := MRCP_REQUEST_STATE_PENDING\<rparr>) (inherit_properties (sm_properties s) m)"

text \<open>
  The messages of a job: a RECOGNIZE request, or the RECOGNITION-COMPLETE event of the request in
  progress and the response of the engine to whatever request it is handed then, before anything
  else is asked for.
\<close>

fun recog_fits :: "'x recog_sm \<Rightarrow> 'x recog_message pending_job \<Rightarrow> bool" where
  "recog_fits s (Ask m) \<longleftrightarrow> msg_type m = MRCP_MESSAGE_TYPE_REQUEST \<and> msg_method_id m = RECOGNIZER_RECOGNIZE"
| "recog_fits s (Serve e r) \<longleftrightarrow> rs_queue s \<noteq> []
     \<and> msg_ready e \<and> msg_type e = MRCP_MESSAGE_TYPE_EVENT \<and> msg_method_id e = RECOGNIZER_RECOGNITION_COMPLETE
     \<and> map_option (\<lambda>x. msg_request_id x) (rs_recog s) = Some (msg_request_id e)
     \<and> msg_type r = MRCP_MESSAGE_TYPE_RESPONSE \<and> msg_method_id r = RECOGNIZER_RECOGNIZE
     \<and> msg_request_state r = MRCP_REQUEST_STATE_INPROGRESS
     \<and> (case recog_state_update s e of None \<Rightarrow> True
        | Some (b, s') \<Rightarrow> map_option (\<lambda>q. msg_request_id q) (sm_active_request s') = Some (msg_request_id r))"

text \<open>What the client is sent: the PENDING response, or the event; not the response that follows it.\<close>

fun recog_view :: "'x recog_message pending_job \<Rightarrow> client_view list" where
  "recog_view (Ask m) = [(MRCP_MESSAGE_TYPE_RESPONSE, RECOGNIZER_RECOGNIZE, msg_request_id m, MRCP_REQUEST_STATE_PENDING)]"
| "recog_view (Serve e r) = [(MRCP_MESSAGE_TYPE_EVENT, RECOGNIZER_RECOGNITION_COMPLETE, msg_request_id e, msg_request_state e)]"

lemma recog_ask:
  assumes "recog_busy s" and "recog_fits s (Ask m)"
  shows "\<exists>s' out. messages_run recog_state_update s [m] = Some s' \<and> recog_busy s'
    \<and> rs_queue s' = rs_queue s @ [recog_queued s m] \<and> rs_recog s' = rs_recog s \<and> recog_queued s' = recog_queued s
    \<and> sm_out s' = sm_out s @ out \<and> to_engine out = [] \<and> to_client out = recog_view (Ask m)"
proof -
  let ?r = "set_start_line (\<lambda>sl. sl\<lparr>sl_request_state := MRCP_REQUEST_STATE_PENDING\<rparr>)
    (mrcp_response_create (Some (recog_queued s m)))"
  let ?s = "snd (recog_response_dispatch (s\<lparr>rs_queue := rs_queue s @ [recog_queued s m]\<rparr>) ?r)"
  have 1: "messages_run recog_state_update s [m] = Some ?s"
    using assms by (simp add: recog_busy_def recog_state_update_def recog_request_state_update_def
        RECOGNIZER_METHOD_COUNT_def recog_request_method_array_def recog_request_recognize_def recog_queued_def
        recog_dispatch_defs)
  have "msg_type (recog_queued s m) = MRCP_MESSAGE_TYPE_REQUEST \<and> msg_method_id (recog_queued s m) = RECOGNIZER_RECOGNIZE"
    using assms(2) by (simp add: recog_queued_def)
  then have 2: "recog_busy ?s"
    using assms(1) by (auto simp: recog_busy_def recog_inv_def recog_dispatch_defs recog_queued_def)
  have q: "recog_queued ?s = recog_queued s"
    by (rule ext) (simp add: recog_queued_def recog_response_dispatch_def Let_def)
  show ?thesis
    using assms 2 q by (intro exI[of _ ?s] exI[of _ "[Dispatched ?r]"] conjI 1)
      (simp_all add: recog_busy_def recog_response_dispatch_def Let_def recog_queued_def)
qed

lemma recog_serve:
  assumes busy: "recog_busy s" and fits: "recog_fits s (Serve e r)"
  shows "\<exists>s' out p. messages_run recog_state_update s [e, r] = Some s' \<and> recog_busy s'
    \<and> rs_queue s = p # rs_queue s' \<and> rs_recog s' = Some p \<and> recog_queued s' = recog_queued s
    \<and> sm_out s' = sm_out s @ out \<and> to_engine out = [p] \<and> to_client out = recog_view (Serve e r)"
proof -
  obtain p ps where q: "rs_queue s = p # ps" using fits by (cases "rs_queue s") auto
  obtain x where x: "rs_recog s = Some x" "msg_request_id x = msg_request_id e" using fits by auto
  obtain e' s1 where s1: "recog_event_recognition_complete s e = Some (True, s1)"
    "msg_start_line e' = msg_start_line e" "rs_queue s1 = ps" "sm_out s1 = sm_out s @ [Dispatched e', Dispatched p]"
    "sm_active_request s1 = Some p" "rs_is_pending s1" "sm_properties s1 = sm_properties s" "sm_active s1"
    using recog_complete_next_aux[of s e x] busy fits x q by (auto simp: recog_busy_def)
  have u1: "recog_state_update s e = Some (True, s1)"
    using fits s1(1) by (simp add: recog_state_update_def recog_event_state_update_def
        RECOGNIZER_EVENT_COUNT_def recog_event_method_array_def)
  have r: "msg_request_id p = msg_request_id r" "msg_type r = MRCP_MESSAGE_TYPE_RESPONSE"
    "msg_method_id r = RECOGNIZER_RECOGNIZE" "msg_request_state r = MRCP_REQUEST_STATE_INPROGRESS"
    using fits u1 s1(5) by simp_all
  let ?s = "s1\<lparr>rs_recog := Some p, rs_state := RECOGNIZER_STATE_RECOGNIZING, rs_is_pending := False\<rparr>"
  have u2: "recog_state_update s1 r = Some (True, ?s)"
    using r s1(5,6) by (simp add: recog_state_update_def recog_response_state_update_def
        RECOGNIZER_METHOD_COUNT_def recog_response_method_array_def recog_response_recognize_def
        recog_state_change_def Let_def)
  have p: "msg_type p = MRCP_MESSAGE_TYPE_REQUEST" "msg_method_id p = RECOGNIZER_RECOGNIZE"
    using busy q by (simp_all add: recog_busy_def recog_inv_def)
  have "recog_busy ?s"
    using busy q s1 p by (simp add: recog_busy_def recog_inv_def)
  moreover have "recog_queued ?s = recog_queued s"
    by (rule ext) (simp add: recog_queued_def s1(7))
  ultimately show ?thesis
    using u1 u2 q s1 p fits
    by (intro exI[of _ ?s] exI[of _ "[Dispatched e', Dispatched p]"] exI[of _ p]) simp
qed

interpretation recog_pending: pending_server recog_state_update recog_busy rs_queue rs_recog sm_out recog_queued
    recog_fits recog_view
  by unfold_locales (fact recog_ask recog_serve)+

section \<open>Properties\<close>

definition sample_recog :: "recog_state \<Rightarrow> (recog_header mrcp_message) option \<Rightarrow> (recog_header mrcp_message) option
    \<Rightarrow> (recog_header mrcp_message) list \<Rightarrow> unit recog_sm" where
  "sample_recog st act x q =
     (mrcp_recog_state_machine_create (\<lambda>_. True) True (plain_vtable \<lparr>recog_completion_cause = 0\<rparr>))
       \<lparr>rs_state := st, sm_active_request := act, rs_recog := x, rs_queue := q\<rparr>"

lemma sample_recog_simps [simp]:
  "rs_state (sample_recog st act x q) = st" "sm_active_request (sample_recog st act x q) = act"
  "rs_recog (sample_recog st act x q) = x" "rs_queue (sample_recog st act x q) = q"
  "sm_active (sample_recog st act x q)" "sm_out (sample_recog st act x q) = []"
  "header_wf (sm_properties (sample_recog st act x q))"
  "\<not> rs_is_pending (sample_recog st act x q)"
  by (simp_all add: sample_recog_def mrcp_recog_state_machine_create_def)

abbreviation (input) "sample_head \<equiv> \<lparr>recog_completion_cause = 0\<rparr>"

text \<open>
  C1: A recognizer never dereferences a null pointer and keeps its invariant, whatever requests,
  responses, events and deactivations arrive in whatever order, as long as every message has
  its headers and a response carries the method of the request it answers.
\<close>

theorem recog_no_fault:
  assumes "recog_reach s" and "recog_env s m"
  shows "\<exists>b s'. recog_state_update s m = Some (b, s') \<and> recog_reach s'
    \<and> (rs_state s' = RECOGNIZER_STATE_IDLE \<longleftrightarrow> rs_recog s' = None)
    \<and> list_all (\<lambda>q. msg_method_id q = RECOGNIZER_RECOGNIZE
        \<and> msg_request_state q = MRCP_REQUEST_STATE_PENDING) (rs_queue s')"
  using recog.update_safe[OF recog_reach_inv[OF assms(1)] assms(2)] recog_reach_update[OF assms]
  by (auto simp: recog_inv_def)

lemma recog_no_fault_witness:
  "\<exists>b s'. recog_state_update (mrcp_recog_state_machine_create (\<lambda>_. True) True (plain_vtable sample_head))
      (plain_request sample_head RECOGNIZER_RECOGNIZE 1) = Some (b, s') \<and> recog_reach s'"
  using recog_no_fault[OF recog_reach_create, of "\<lambda>_. True" True "plain_vtable sample_head"
      "plain_request sample_head RECOGNIZER_RECOGNIZE 1"]
  by (auto simp: recog_env_def)

text \<open>
  C2: While the machine is active, every request with a known method is answered by exactly one
  message under its request identifier: it is handed to the engine and becomes the request whose
  response is awaited, or a response is sent at once. (Once the machine is being deactivated, an
  immediate response becomes the end of the deactivation instead.)
\<close>

theorem recog_request_answered:
  assumes "recog_reach s" and "recog_env s m" and "recog_known_request m" and "sm_active s"
  shows "\<exists>b s' out. recog_state_update s m = Some (b, s') \<and> sm_out s' = sm_out s @ [out]
    \<and> answered m (sm_active_request s') out"
  using recog_request_ok[OF recog_reach_inv[OF assms(1)] assms(2)] assms(3,4)
  by (auto simp: recog_known_request_def)

lemma recog_request_answered_witness:
  "\<exists>b s' out. recog_state_update (mrcp_recog_state_machine_create (\<lambda>_. True) True (plain_vtable sample_head))
      (plain_request sample_head RECOGNIZER_STOP 4) = Some (b, s') \<and> sm_out s' = [out]
    \<and> answered (plain_request sample_head RECOGNIZER_STOP 4) (sm_active_request s') out"
  using recog_request_answered[OF recog_reach_create, of "\<lambda>_. True" True "plain_vtable sample_head"
      "plain_request sample_head RECOGNIZER_STOP 4"]
  by (simp add: recog_env_def recog_known_request_def RECOGNIZER_METHOD_COUNT_def mrcp_recog_state_machine_create_def)

text \<open>
  C3: Pending RECOGNIZE requests are served first in, first out. While a recognition runs every
  further RECOGNIZE is answered with PENDING and put behind the queue. RECOGNITION-COMPLETE hands
  the oldest pending request to the engine, and the response of the engine that starts it is not
  sent to the client again. For any sequence of such requests and completions, each of the latter
  with its response before the next request (one made in between overtakes the queue, see
  \<open>recog_pending_overtaken\<close>), the requests that waited at first followed by those
  made since are the requests handed to the engine followed by those that still wait, in order;
  the client is sent one PENDING response a request and one event a completion.
\<close>

theorem recog_pending_fifo:
  assumes "recog_busy s" and "rs_recog s = Some x" and "jobs_fit recog_state_update recog_fits s js"
  shows "\<exists>s' out. messages_run recog_state_update s (concat (map job_messages js)) = Some s' \<and> recog_busy s'
    \<and> sm_out s' = sm_out s @ out
    \<and> rs_queue s @ map (recog_queued s) (asked js) = to_engine out @ rs_queue s'
    \<and> length (to_engine out) = served js
    \<and> rs_recog s' = Some (last (x # to_engine out))
    \<and> to_client out = concat (map recog_view js)"
  using assms by (rule recog_pending.fifo)

lemma recog_pending_fifo_witness:
  "\<exists>s' out. messages_run recog_state_update (sample_recog RECOGNIZER_STATE_RECOGNIZING None
        (Some (plain_request sample_head RECOGNIZER_RECOGNIZE 1)) [])
      [plain_request sample_head RECOGNIZER_RECOGNIZE 2, plain_request sample_head RECOGNIZER_RECOGNIZE 3,
       plain_event sample_head RECOGNIZER_RECOGNITION_COMPLETE 1, plain_started sample_head RECOGNIZER_RECOGNIZE 2]
      = Some s' \<and> sm_out s' = out \<and> map (\<lambda>m. msg_request_id m) (to_engine out) = [2]
    \<and> map (\<lambda>m. msg_request_id m) (rs_queue s') = [3]"
proof -
  let ?s = "sample_recog RECOGNIZER_STATE_RECOGNIZING None (Some (plain_request sample_head RECOGNIZER_RECOGNIZE 1)) []"
  let ?js = "[Ask (plain_request sample_head RECOGNIZER_RECOGNIZE 2), Ask (plain_request sample_head RECOGNIZER_RECOGNIZE 3),
    Serve (plain_event sample_head RECOGNIZER_RECOGNITION_COMPLETE 1) (plain_started sample_head RECOGNIZER_RECOGNIZE 2)]"
  have busy: "recog_busy ?s" by (simp add: recog_busy_def recog_inv_def)
  obtain h where "mrcp_resource_header_prepare (plain_event sample_head RECOGNIZER_RECOGNITION_COMPLETE 1) = Some h"
    using ready_prepare(2)[OF plain_response_ready(3), of sample_head RECOGNIZER_RECOGNITION_COMPLETE 1] by blast
  then have fit: "jobs_fit recog_state_update recog_fits ?s ?js"
    by (simp add: recog_state_update_def recog_request_state_update_def recog_event_state_update_def
        recog_event_recognition_complete_def recog_request_method_array_def recog_event_method_array_def
        recog_request_recognize_def RECOGNIZER_METHOD_COUNT_def RECOGNIZER_EVENT_COUNT_def recog_default_cause_def
        recog_dispatch_defs recog_pending_process_def recog_response_state_update_def recog_response_method_array_def
        recog_response_recognize_def)
  obtain s' out where 1: "messages_run recog_state_update ?s (concat (map job_messages ?js)) = Some s'"
    "sm_out s' = sm_out ?s @ out" "rs_queue ?s @ map (recog_queued ?s) (asked ?js) = to_engine out @ rs_queue s'"
    "length (to_engine out) = served ?js"
    using recog_pending_fifo[OF busy _ fit, of "plain_request sample_head RECOGNIZER_RECOGNIZE 1"] by auto
  then obtain p where p: "to_engine out = [p]" by (auto simp: length_Suc_conv)
  then have "p = recog_queued ?s (plain_request sample_head RECOGNIZER_RECOGNIZE 2)"
    "rs_queue s' = [recog_queued ?s (plain_request sample_head RECOGNIZER_RECOGNIZE 3)]"
    using 1(3) by simp_all
  then show ?thesis using 1(1,2) p by (intro exI[of _ s'] exI[of _ out]) (simp add: recog_queued_def)
qed

text \<open>
  A RECOGNIZE request that arrives before the engine has answered the pending request it was handed
  overtakes the queue: the machine is not recognizing then, and hands it to the engine at once.
  The response to the pending request is refused from then on, and the response to the
  request that overtook it is taken for one the client must not be sent.
\<close>

theorem recog_pending_overtaken:
  assumes "rs_state s = RECOGNIZER_STATE_RECOGNIZED" and "rs_is_pending s" and "sm_active_request s = Some p"
    and "msg_type m = MRCP_MESSAGE_TYPE_REQUEST" and "msg_method_id m = RECOGNIZER_RECOGNIZE"
    and "msg_request_id m \<noteq> msg_request_id p"
    and "msg_type r = MRCP_MESSAGE_TYPE_RESPONSE" and "msg_method_id r = RECOGNIZER_RECOGNIZE"
    and "msg_type q = MRCP_MESSAGE_TYPE_RESPONSE" and "msg_method_id q = RECOGNIZER_RECOGNIZE"
    and "msg_request_id r = msg_request_id p" and "msg_request_id q = msg_request_id m"
  shows "\<exists>b s1 s2. recog_state_update s m = Some (b, s1)
    \<and> sm_out s1 = sm_out s @ [Dispatched (inherit_properties (sm_properties s) m)] \<and> rs_queue s1 = rs_queue s
    \<and> recog_state_update s1 r = Some (False, s1)
    \<and> recog_state_update s1 q = Some (True, s2) \<and> sm_out s2 = sm_out s1"
proof -
  let ?s1 = "snd (recog_request_dispatch s (inherit_properties (sm_properties s) m))"
  have "recog_state_update s m = Some (sm_on_dispatch s (inherit_properties (sm_properties s) m), ?s1)"
    using recog_recognize_update[OF assms(4,5)] assms(1) by (simp add: recog_request_dispatch_def)
  moreover have "recog_state_update ?s1 r = Some (False, ?s1)"
    using assms(6,7,11) by (simp add: recog_state_update_def recog_response_state_update_def recog_request_dispatch_def)
  moreover have "\<exists>s2. recog_state_update ?s1 q = Some (True, s2) \<and> sm_out s2 = sm_out ?s1"
    using assms(2,9,10,12) by (simp add: recog_state_update_def recog_response_state_update_def recog_request_dispatch_def
        RECOGNIZER_METHOD_COUNT_def recog_response_method_array_def recog_response_recognize_def recog_state_change_def Let_def)
  ultimately show ?thesis by (auto simp: recog_request_dispatch_def)
qed

lemma recog_pending_overtaken_witness:
  "\<exists>b s1 s2. recog_state_update ((sample_recog RECOGNIZER_STATE_RECOGNIZED (Some (plain_pending sample_head RECOGNIZER_RECOGNIZE 2))
        (Some (plain_request sample_head RECOGNIZER_RECOGNIZE 1)) [])\<lparr>rs_is_pending := True\<rparr>)
      (plain_request sample_head RECOGNIZER_RECOGNIZE 3) = Some (b, s1)
    \<and> recog_state_update s1 (plain_started sample_head RECOGNIZER_RECOGNIZE 3) = Some (True, s2) \<and> sm_out s2 = sm_out s1"
  using recog_pending_overtaken[of "(sample_recog RECOGNIZER_STATE_RECOGNIZED (Some (plain_pending sample_head RECOGNIZER_RECOGNIZE 2))
        (Some (plain_request sample_head RECOGNIZER_RECOGNIZE 1)) [])\<lparr>rs_is_pending := True\<rparr>"
      "plain_pending sample_head RECOGNIZER_RECOGNIZE 2" "plain_request sample_head RECOGNIZER_RECOGNIZE 3"
      "plain_started sample_head RECOGNIZER_RECOGNIZE 2" "plain_started sample_head RECOGNIZER_RECOGNIZE 3"]
  by simp blast

text \<open>
  C21: The response to a STOP request that stops a recognition ends it, removes the pending
  requests it selects and hands the first of the others to the engine. The header data of the
  response lists the stopped and the removed requests, but the header field was generated
  before the removal: the list the client receives names the request in progress only.
\<close>

theorem recog_stop_response:
  assumes "recog_inv s" and "sm_active s" and "sm_active_request s = Some req"
    and "msg_method_id req = RECOGNIZER_STOP" and "rs_recog s = Some x" and "msg_request_id x < 10 ^ 9"
    and "msg_ready m" and "response_fresh m"
  shows "\<exists>b s' m'. recog_response_stop s m = Some (b, s')
    \<and> sm_out s' = sm_out s @ Dispatched m' # map Dispatched (take 1 (filter (\<lambda>y. \<not> stop_selects req (msg_request_id y)) (rs_queue s)))
    \<and> rs_queue s' = tl (filter (\<lambda>y. \<not> stop_selects req (msg_request_id y)) (rs_queue s))
    \<and> rs_state s' = RECOGNIZER_STATE_IDLE
    \<and> msg_active_ids m' = Some (take 5 (msg_request_id x
        # map msg_request_id (filter (\<lambda>y. stop_selects req (msg_request_id y)) (rs_queue s))))
    \<and> map_option hf_value (msg_field m' GENERIC_HEADER_ACTIVE_REQUEST_ID_LIST) = Some (show_nat (unat (msg_request_id x)))"
  using recog_response_stop_fresh[OF assms] by blast

lemma recog_stop_response_witness:
  "\<exists>b s' m'. recog_response_stop (sample_recog RECOGNIZER_STATE_RECOGNIZING (Some (plain_request sample_head RECOGNIZER_STOP 9))
        (Some (plain_request sample_head RECOGNIZER_RECOGNIZE 1)) [plain_pending sample_head RECOGNIZER_RECOGNIZE 2])
      (plain_response sample_head RECOGNIZER_STOP 9) = Some (b, s') \<and> sm_out s' = [Dispatched m']
    \<and> msg_active_ids m' = Some [1, 2]
    \<and> map_option hf_value (msg_field m' GENERIC_HEADER_ACTIVE_REQUEST_ID_LIST) = Some ''1''"
proof -
  have one: "show_nat (Suc 0) = ''1''" by code_simp
  show ?thesis
  using recog_stop_response[of "sample_recog RECOGNIZER_STATE_RECOGNIZING (Some (plain_request sample_head RECOGNIZER_STOP 9))
        (Some (plain_request sample_head RECOGNIZER_RECOGNIZE 1)) [plain_pending sample_head RECOGNIZER_RECOGNIZE 2]"
      "plain_request sample_head RECOGNIZER_STOP 9" "plain_request sample_head RECOGNIZER_RECOGNIZE 1"
      "plain_response sample_head RECOGNIZER_STOP 9"]
  by (simp add: recog_inv_def stop_selects_def one) blast
qed

text \<open>
  A request that is answered at once makes the machine forget the request the engine is
  working on: the engine's response to it is then ignored and the client never gets one.
\<close>

theorem recog_response_lost:
  assumes "sm_active s" and "rs_state s = RECOGNIZER_STATE_RECOGNIZING"
    and "sm_active_request s = Some req"
    and "msg_type m = MRCP_MESSAGE_TYPE_REQUEST" and "msg_method_id m = RECOGNIZER_DEFINE_GRAMMAR"
    and "msg_type r = MRCP_MESSAGE_TYPE_RESPONSE" and "msg_request_id r = msg_request_id req"
  shows "\<exists>b s'. recog_state_update s m = Some (b, s') \<and> recog_state_update s' r = Some (False, s')"
  using assms by (simp add: recog_state_update_def recog_request_state_update_def RECOGNIZER_METHOD_COUNT_def
      recog_request_method_array_def recog_request_define_grammar_def recog_response_dispatch_def
      recog_response_state_update_def Let_def)

lemma recog_response_lost_witness:
  "\<exists>b s'. recog_state_update (sample_recog RECOGNIZER_STATE_RECOGNIZING (Some (plain_request sample_head RECOGNIZER_STOP 2))
        (Some (plain_request sample_head RECOGNIZER_RECOGNIZE 1)) [])
      (plain_request sample_head RECOGNIZER_DEFINE_GRAMMAR 3) = Some (b, s')
    \<and> recog_state_update s' (plain_response sample_head RECOGNIZER_STOP 2) = Some (False, s')"
  by (rule recog_response_lost[of _ "plain_request sample_head RECOGNIZER_STOP 2"]) simp_all

text \<open>
  C22: Deactivating a recognizer in the middle of a recognition hands an internal STOP request to
  the engine, under the identifier that follows the recognition's. When its response arrives the
  owner is told that the machine is deactivated; the response is not sent to the client, and the
  pending requests are dropped.
\<close>

theorem recog_deactivate_cycle:
  assumes "rs_state s = RECOGNIZER_STATE_RECOGNIZING" and "rs_recog s = Some x"
    and "stop_request_ids x = None" and "msg_ready r" and "msg_type r = MRCP_MESSAGE_TYPE_RESPONSE"
    and "msg_method_id r = RECOGNIZER_STOP" and "msg_request_id r = msg_request_id x + 1"
  shows "\<exists>b1 s1 d b2 s2. recog_deactivate s = (b1, s1) \<and> sm_out s1 = sm_out s @ [Dispatched d]
    \<and> msg_method_id d = RECOGNIZER_STOP \<and> msg_request_id d = msg_request_id x + 1
    \<and> msg_channel_id d = msg_channel_id x
    \<and> recog_state_update s1 r = Some (b2, s2) \<and> sm_out s2 = sm_out s1 @ [Deactivated]
    \<and> rs_state s2 = RECOGNIZER_STATE_IDLE \<and> rs_recog s2 = None \<and> rs_queue s2 = []"
proof -
  let ?d = "deactivate_request x RECOGNIZER_STOP"
  define s1 where "s1 = snd (recog_request_dispatch (s\<lparr>sm_active := False\<rparr>) ?d)"
  have d: "msg_method_id ?d = RECOGNIZER_STOP" "msg_request_id ?d = msg_request_id x + 1"
    "msg_channel_id ?d = msg_channel_id x" "stop_request_ids ?d = None"
    using assms(3) by simp_all
  have 1: "recog_deactivate s = (fst (recog_request_dispatch (s\<lparr>sm_active := False\<rparr>) ?d), s1)"
    using assms(1,2) by (simp add: recog_deactivate_def recog_state_deactivate_def recog_request_dispatch_def s1_def)
  have s1: "sm_out s1 = sm_out s @ [Dispatched ?d]" "rs_recog s1 = Some x" "\<not> sm_active s1"
    "sm_active_request s1 = Some ?d" "rs_queue s1 = rs_queue s"
    using assms(2) by (simp_all add: recog_request_dispatch_def s1_def)
  obtain m1 where m1: "response_id_report (msg_request_id x) r = Some m1" "msg_ready m1"
    using id_report_ready[OF assms(4)] by blast
  have none: "filter (\<lambda>y. \<not> stop_selects ?d (msg_request_id y)) (rs_queue s) = []"
    using d(4) by (simp add: stop_selects_def)
  obtain m2 where m2: "pending_requests_remove (rs_queue s) ?d m1 = Some ([], m2)"
    using pending_remove_ready[OF m1(2), of "rs_queue s" ?d] none by auto
  have "\<exists>b2 s2. recog_response_stop s1 r = Some (b2, s2) \<and> sm_out s2 = sm_out s1 @ [Deactivated]
      \<and> rs_state s2 = RECOGNIZER_STATE_IDLE \<and> rs_recog s2 = None \<and> rs_queue s2 = []"
    using s1(2-5) m1(1) m2 by (simp add: recog_response_stop_def recog_pending_requests_remove_def
        recog_response_dispatch_def recog_state_change_def Let_def) blast
  moreover have "recog_state_update s1 r = recog_response_stop s1 r"
    using s1(4) d(2) assms(5-7) by (simp add: recog_state_update_def recog_response_state_update_def
        RECOGNIZER_METHOD_COUNT_def recog_response_method_array_def)
  ultimately show ?thesis using 1 s1(1) d(1-3) by metis
qed

lemma recog_deactivate_cycle_witness:
  "\<exists>b1 s1 b2 s2. recog_deactivate (sample_recog RECOGNIZER_STATE_RECOGNIZING None
        (Some (plain_request sample_head RECOGNIZER_RECOGNIZE 1)) [plain_pending sample_head RECOGNIZER_RECOGNIZE 2]) = (b1, s1)
    \<and> recog_state_update s1 (plain_response sample_head RECOGNIZER_STOP 2) = Some (b2, s2)
    \<and> rs_queue s2 = []"
  using recog_deactivate_cycle[of "sample_recog RECOGNIZER_STATE_RECOGNIZING None
        (Some (plain_request sample_head RECOGNIZER_RECOGNIZE 1)) [plain_pending sample_head RECOGNIZER_RECOGNIZE 2]"
      "plain_request sample_head RECOGNIZER_RECOGNIZE 1" "plain_response sample_head RECOGNIZER_STOP 2"]
  by simp blast

end
