(* ===== verification/Synth_SM.thy ===== *)
theory Synth_SM
  imports State_Machine
begin

text \<open>
  \<open>libs/mrcp-engine/src/mrcp_synth_state_machine.c\<close>: the state machine of the synthesizer
  resource. Of the synthesizer header the machine touches the completion cause and the
  kill-on-barge-in flag; the other members are the extension \<open>'x\<close> of the record.
\<close>

record synth_header =
  synth_completion_cause :: nat
  synth_kill_on_barge_in :: bool

type_synonym 'x synth_message = "'x synth_header_scheme mrcp_message"

abbreviation (input) SYNTHESIZER_SET_PARAMS :: nat where "SYNTHESIZER_SET_PARAMS \<equiv> 0"
abbreviation (input) SYNTHESIZER_GET_PARAMS :: nat where "SYNTHESIZER_GET_PARAMS \<equiv> 1"
abbreviation (input) SYNTHESIZER_SPEAK :: nat where "SYNTHESIZER_SPEAK \<equiv> 2"
abbreviation (input) SYNTHESIZER_STOP :: nat where "SYNTHESIZER_STOP \<equiv> 3"
abbreviation (input) SYNTHESIZER_PAUSE :: nat where "SYNTHESIZER_PAUSE \<equiv> 4"
abbreviation (input) SYNTHESIZER_RESUME :: nat where "SYNTHESIZER_RESUME \<equiv> 5"
abbreviation (input) SYNTHESIZER_BARGE_IN_OCCURRED :: nat where "SYNTHESIZER_BARGE_IN_OCCURRED \<equiv> 6"
abbreviation (input) SYNTHESIZER_CONTROL :: nat where "SYNTHESIZER_CONTROL \<equiv> 7"
abbreviation (input) SYNTHESIZER_SPEECH_MARKER :: nat where "SYNTHESIZER_SPEECH_MARKER \<equiv> 0"
abbreviation (input) SYNTHESIZER_SPEAK_COMPLETE :: nat where "SYNTHESIZER_SPEAK_COMPLETE \<equiv> 1"
abbreviation (input) SYNTHESIZER_HEADER_KILL_ON_BARGE_IN :: nat where "SYNTHESIZER_HEADER_KILL_ON_BARGE_IN \<equiv> 1"
abbreviation (input) SYNTHESIZER_HEADER_COMPLETION_CAUSE :: nat where "SYNTHESIZER_HEADER_COMPLETION_CAUSE \<equiv> 3"
abbreviation (input) SYNTHESIZER_COMPLETION_CAUSE_NORMAL :: nat where "SYNTHESIZER_COMPLETION_CAUSE_NORMAL \<equiv> 0"
definition SYNTHESIZER_METHOD_COUNT :: nat where "SYNTHESIZER_METHOD_COUNT = 9"
definition SYNTHESIZER_EVENT_COUNT :: nat where "SYNTHESIZER_EVENT_COUNT = 2"

datatype synth_state = SYNTHESIZER_STATE_IDLE | SYNTHESIZER_STATE_SPEAKING | SYNTHESIZER_STATE_PAUSED

record 'x synth_sm = "'x synth_header_scheme state_machine" +
  ss_state :: synth_state
  ss_is_pending :: bool
  ss_speaker :: "'x synth_header_scheme mrcp_message option"
  ss_queue :: "'x synth_header_scheme mrcp_message list"

type_synonym 'x synth_method = "'x synth_sm \<Rightarrow> 'x synth_message \<Rightarrow> ('x synth_sm) outcome"

definition synth_request_dispatch :: "'x synth_sm \<Rightarrow> 'x synth_message \<Rightarrow> bool \<times> 'x synth_sm" where
  "synth_request_dispatch s m =
     (sm_on_dispatch s m, s\<lparr>sm_active_request := Some m, sm_out := sm_out s @ [Dispatched m]\<rparr>)"

definition synth_response_dispatch :: "'x synth_sm \<Rightarrow> 'x synth_message \<Rightarrow> bool \<times> 'x synth_sm" where
  "synth_response_dispatch s m =
     (let s1 = s\<lparr>sm_active_request := None\<rparr> in
      if \<not> sm_active s1 then (sm_on_deactivate s1, s1\<lparr>sm_out := sm_out s1 @ [Deactivated]\<rparr>)
      else (sm_on_dispatch s1 m, s1\<lparr>sm_out := sm_out s1 @ [Dispatched m]\<rparr>))"

definition synth_event_dispatch :: "'x synth_sm \<Rightarrow> 'x synth_message \<Rightarrow> bool \<times> 'x synth_sm" where
  "synth_event_dispatch s m =
     (if \<not> sm_active s then (False, s)
      else (sm_on_dispatch s m, s\<lparr>sm_out := sm_out s @ [Dispatched m]\<rparr>))"

definition synth_state_change :: "'x synth_sm \<Rightarrow> synth_state \<Rightarrow> 'x synth_sm" where
  "synth_state_change s st =
     (let s1 = s\<lparr>ss_state := st\<rparr> in
      if st = SYNTHESIZER_STATE_IDLE then s1\<lparr>ss_speaker := None\<rparr> else s1)"

definition synth_request_set_params :: "'x synth_method" where
  "synth_request_set_params s m =
     Some (synth_request_dispatch
       (s\<lparr>sm_properties := mrcp_header_fields_set (sm_properties s) (msg_header m)\<rparr>) m)"

definition synth_response_set_params :: "'x synth_method" where
  "synth_response_set_params s m = Some (synth_response_dispatch s m)"

definition synth_request_get_params :: "'x synth_method" where
  "synth_request_get_params s m = Some (synth_request_dispatch s m)"

definition synth_response_get_params :: "'x synth_method" where
  "synth_response_get_params s m =
     (case sm_active_request s of
        None \<Rightarrow> None
      | Some req \<Rightarrow>
          Some (synth_response_dispatch s
            (m\<lparr>msg_header := mrcp_header_fields_get (msg_header m) (sm_properties s) (msg_header req)\<rparr>)))"

definition synth_request_speak :: "'x synth_method" where
  "synth_request_speak s m0 =
     (let m = inherit_properties (sm_properties s) m0 in
      if ss_speaker s \<noteq> None then
        (let m1 = set_start_line (\<lambda>sl. sl\<lparr>sl_request_state := MRCP_REQUEST_STATE_PENDING\<rparr>) m;
             s1 = s\<lparr>ss_queue := apt_list_push_back (ss_queue s) m1\<rparr>;
             response = set_start_line (\<lambda>sl. sl\<lparr>sl_request_state := MRCP_REQUEST_STATE_PENDING\<rparr>)
               (mrcp_response_create (Some m1))
         in Some (synth_response_dispatch s1 response))
      else Some (synth_request_dispatch s m))"

text \<open>The response to a pending request becomes a SPEECH-MARKER event.\<close>

definition synth_response_speak :: "'x synth_method" where
  "synth_response_speak s m =
     (let s1 = (if msg_request_state m = MRCP_REQUEST_STATE_INPROGRESS
                then synth_state_change (s\<lparr>ss_speaker := sm_active_request s\<rparr>) SYNTHESIZER_STATE_SPEAKING
                else s)
      in if ss_is_pending s1 then
           (case sm_active_request s1 of
              None \<Rightarrow> None
            | Some req \<Rightarrow>
                (let event = set_start_line (\<lambda>sl. sl\<lparr>sl_request_state := MRCP_REQUEST_STATE_INPROGRESS\<rparr>)
                       (mrcp_event_create (Some req) SYNTHESIZER_SPEECH_MARKER)
                 in Some (synth_event_dispatch (s1\<lparr>ss_is_pending := False\<rparr>) event)))
         else Some (synth_response_dispatch s1 m))"

definition synth_pending_requests_remove ::
  "'x synth_sm \<Rightarrow> 'x synth_message \<Rightarrow> 'x synth_message \<Rightarrow> ('x synth_sm \<times> 'x synth_message) option" where
  "synth_pending_requests_remove s request response = do {
     (q, response1) \<leftarrow> pending_requests_remove (ss_queue s) request response;
     Some (s\<lparr>ss_queue := q\<rparr>, response1)
   }"

definition synth_stop_immediate :: "'x synth_method" where
  "synth_stop_immediate s m = do {
     (s1, response) \<leftarrow> synth_pending_requests_remove s m (mrcp_response_create (Some m));
     Some (synth_response_dispatch s1 response)
   }"

definition synth_request_stop :: "'x synth_method" where
  "synth_request_stop s m =
     (case ss_speaker s of
        Some speaker \<Rightarrow>
          (case stop_request_ids m of
             None \<Rightarrow> Some (synth_request_dispatch s m)
           | Some ids \<Rightarrow>
               if request_id_list_find ids (msg_request_id speaker) then Some (synth_request_dispatch s m)
               else synth_stop_immediate s m)
      | None \<Rightarrow> synth_stop_immediate s m)"

definition synth_pending_process :: "'x synth_sm \<Rightarrow> 'x synth_message option \<Rightarrow> bool \<times> 'x synth_sm" where
  "synth_pending_process s pending =
     (case pending of
        None \<Rightarrow> (True, s)
      | Some m \<Rightarrow> (True, snd (synth_request_dispatch (s\<lparr>ss_is_pending := True\<rparr>) m)))"

definition synth_response_stop :: "'x synth_method" where
  "synth_response_stop s m = do {
     speaker \<leftarrow> ss_speaker s;
     m1 \<leftarrow> response_id_report (msg_request_id speaker) m;
     request \<leftarrow> sm_active_request s;
     (s1, m2) \<leftarrow> synth_pending_requests_remove s request m1;
     let s2 = synth_state_change s1 SYNTHESIZER_STATE_IDLE;
     let (pending, q) = apt_list_pop_front (ss_queue s2);
     let s3 = snd (synth_response_dispatch (s2\<lparr>ss_queue := q\<rparr>) m2);
     Some (synth_pending_process s3 pending)
   }"

definition synth_request_pause :: "'x synth_method" where
  "synth_request_pause s m =
     (if ss_speaker s \<noteq> None then
        if ss_state s = SYNTHESIZER_STATE_SPEAKING then Some (True, snd (synth_request_dispatch s m))
        else Some (True, snd (synth_response_dispatch s (mrcp_response_create (Some m))))
      else Some (True, snd (synth_response_dispatch s (method_not_valid m))))"

text \<open>The response to PAUSE and to RESUME; the speaker's identifier is read without a test.\<close>

definition synth_response_pause :: "'x synth_method" where
  "synth_response_pause s m =
     (if msg_status_code m = MRCP_STATUS_CODE_SUCCESS then do {
        speaker \<leftarrow> ss_speaker s;
        m1 \<leftarrow> response_id_report (msg_request_id speaker) m;
        Some (True, snd (synth_response_dispatch (synth_state_change s SYNTHESIZER_STATE_PAUSED) m1))
      } else Some (True, snd (synth_response_dispatch s m)))"

definition synth_request_resume :: "'x synth_method" where
  "synth_request_resume s m =
     (if ss_speaker s \<noteq> None then
        if ss_state s = SYNTHESIZER_STATE_PAUSED then Some (True, snd (synth_request_dispatch s m))
        else Some (True, snd (synth_response_dispatch s (mrcp_response_create (Some m))))
      else Some (True, snd (synth_response_dispatch s (method_not_valid m))))"

definition synth_response_resume :: "'x synth_method" where
  "synth_response_resume s m =
     (if msg_status_code m = MRCP_STATUS_CODE_SUCCESS then do {
        speaker \<leftarrow> ss_speaker s;
        m1 \<leftarrow> response_id_report (msg_request_id speaker) m;
        Some (True, snd (synth_response_dispatch (synth_state_change s SYNTHESIZER_STATE_SPEAKING) m1))
      } else Some (True, snd (synth_response_dispatch s m)))"

definition synth_request_barge_in_occurred :: "'x synth_method" where
  "synth_request_barge_in_occurred s m =
     (if ss_speaker s \<noteq> None then
        (let kill = (case mrcp_resource_header_get m of
                       Some h \<Rightarrow> if mrcp_resource_header_property_check m SYNTHESIZER_HEADER_KILL_ON_BARGE_IN
                                 then synth_kill_on_barge_in h else True
                     | None \<Rightarrow> True)
         in if kill then Some (synth_request_dispatch s m)
            else Some (synth_response_dispatch s (mrcp_response_create (Some m))))
      else Some (synth_response_dispatch s (mrcp_response_create (Some m))))"

definition synth_response_barge_in_occurred :: "'x synth_method" where
  "synth_response_barge_in_occurred s m = do {
     speaker \<leftarrow> ss_speaker s;
     m1 \<leftarrow> response_id_report (msg_request_id speaker) m;
     request \<leftarrow> sm_active_request s;
     (s1, m2) \<leftarrow> synth_pending_requests_remove s request m1;
     Some (synth_response_dispatch (synth_state_change s1 SYNTHESIZER_STATE_IDLE) m2)
   }"

definition synth_request_control :: "'x synth_method" where
  "synth_request_control s m =
     (if ss_state s = SYNTHESIZER_STATE_SPEAKING then Some (synth_request_dispatch s m)
      else Some (synth_response_dispatch s (mrcp_response_create (Some m))))"

definition synth_response_control :: "'x synth_method" where
  "synth_response_control s m = do {
     speaker \<leftarrow> ss_speaker s;
     m1 \<leftarrow> response_id_report (msg_request_id speaker) m;
     Some (synth_response_dispatch s m1)
   }"

definition synth_request_define_lexicon :: "'x synth_method" where
  "synth_request_define_lexicon s m =
     (if ss_state s = SYNTHESIZER_STATE_IDLE then Some (synth_request_dispatch s m)
      else Some (synth_response_dispatch s (method_not_valid m)))"

definition synth_response_define_lexicon :: "'x synth_method" where
  "synth_response_define_lexicon s m = Some (synth_response_dispatch s m)"

definition synth_event_speech_marker :: "'x synth_method" where
  "synth_event_speech_marker s m =
     (case ss_speaker s of
        None \<Rightarrow> Some (False, s)
      | Some speaker \<Rightarrow>
          if msg_request_id speaker \<noteq> msg_request_id m then Some (False, s)
          else Some (synth_event_dispatch s
            (set_start_line (\<lambda>sl. sl\<lparr>sl_request_state := MRCP_REQUEST_STATE_INPROGRESS\<rparr>) m)))"

definition synth_default_cause :: "'x synth_message \<Rightarrow> 'x synth_message option" where
  "synth_default_cause m =
     (if \<not> mrcp_resource_header_property_check m SYNTHESIZER_HEADER_COMPLETION_CAUSE then do {
        _ \<leftarrow> mrcp_resource_header_prepare m;
        Some (snd (mrcp_resource_header_property_add
          (resource_header_write (\<lambda>h. h\<lparr>synth_completion_cause := SYNTHESIZER_COMPLETION_CAUSE_NORMAL\<rparr>) m)
          SYNTHESIZER_HEADER_COMPLETION_CAUSE))
      } else Some m)"

definition synth_event_speak_complete :: "'x synth_method" where
  "synth_event_speak_complete s m =
     (case ss_speaker s of
        None \<Rightarrow> Some (False, s)
      | Some speaker \<Rightarrow>
          if msg_request_id speaker \<noteq> msg_request_id m then Some (False, s)
          else if (case sm_active_request s of
                     Some req \<Rightarrow> msg_method_id req = SYNTHESIZER_STOP
                       \<or> msg_method_id req = SYNTHESIZER_BARGE_IN_OCCURRED
                   | None \<Rightarrow> False)
          then Some (False, s)
          else do {
            m1 \<leftarrow> synth_default_cause m;
            let s1 = synth_state_change s SYNTHESIZER_STATE_IDLE;
            let s2 = snd (synth_event_dispatch s1 m1);
            let (pending, q) = apt_list_pop_front (ss_queue s2);
            Some (synth_pending_process (s2\<lparr>ss_queue := q\<rparr>) pending)
          })"

definition synth_request_method_array :: "'x synth_method option list" where
  "synth_request_method_array =
     [Some synth_request_set_params, Some synth_request_get_params, Some synth_request_speak,
      Some synth_request_stop, Some synth_request_pause, Some synth_request_resume,
      Some synth_request_barge_in_occurred, Some synth_request_control, Some synth_request_define_lexicon]"

definition synth_response_method_array :: "'x synth_method option list" where
  "synth_response_method_array =
     [Some synth_response_set_params, Some synth_response_get_params, Some synth_response_speak,
      Some synth_response_stop, Some synth_response_pause, Some synth_response_resume,
      Some synth_response_barge_in_occurred, Some synth_response_control, Some synth_response_define_lexicon]"

definition synth_event_method_array :: "'x synth_method option list" where
  "synth_event_method_array = [Some synth_event_speech_marker, Some synth_event_speak_complete]"

definition synth_request_state_update :: "'x synth_method" where
  "synth_request_state_update s m =
     (if SYNTHESIZER_METHOD_COUNT \<le> msg_method_id m then Some (False, s)
      else case synth_request_method_array ! msg_method_id m of
             Some f \<Rightarrow> f s m
           | None \<Rightarrow> Some (synth_request_dispatch s m))"

definition synth_response_state_update :: "'x synth_method" where
  "synth_response_state_update s m =
     (case sm_active_request s of
        None \<Rightarrow> Some (False, s)
      | Some req \<Rightarrow>
          if msg_request_id req \<noteq> msg_request_id m then Some (False, s)
          else if SYNTHESIZER_METHOD_COUNT \<le> msg_method_id m then Some (False, s)
          else case synth_response_method_array ! msg_method_id m of
                 Some f \<Rightarrow> f s m
               | None \<Rightarrow> Some (synth_response_dispatch s m))"

definition synth_event_state_update :: "'x synth_method" where
  "synth_event_state_update s m =
     (if SYNTHESIZER_EVENT_COUNT \<le> msg_method_id m then Some (False, s)
      else case synth_event_method_array ! msg_method_id m of
             Some f \<Rightarrow> f s m
           | None \<Rightarrow> Some (synth_event_dispatch s m))"

definition synth_state_update :: "'x synth_method" where
  "synth_state_update s m =
     (case msg_type m of
        MRCP_MESSAGE_TYPE_REQUEST \<Rightarrow> synth_request_state_update s m
      | MRCP_MESSAGE_TYPE_RESPONSE \<Rightarrow> synth_response_state_update s m
      | MRCP_MESSAGE_TYPE_EVENT \<Rightarrow> synth_event_state_update s m
      | MRCP_MESSAGE_TYPE_UNKNOWN \<Rightarrow> Some (False, s))"

definition synth_state_deactivate :: "'x synth_sm \<Rightarrow> bool \<times> 'x synth_sm" where
  "synth_state_deactivate s =
     (case ss_speaker s of
        None \<Rightarrow> (False, s)
      | Some src \<Rightarrow> synth_request_dispatch s (deactivate_request src SYNTHESIZER_STOP))"

definition synth_deactivate :: "'x synth_sm \<Rightarrow> bool \<times> 'x synth_sm" where
  "synth_deactivate s = synth_state_deactivate (s\<lparr>sm_active := False\<rparr>)"

definition mrcp_synth_state_machine_create ::
  "('x synth_message \<Rightarrow> bool) \<Rightarrow> bool \<Rightarrow> 'x synth_header_scheme header_vtable \<Rightarrow> 'x synth_sm" where
  "mrcp_synth_state_machine_create on_dispatch on_deactivate vt =
     \<lparr>sm_active = True, sm_active_request = None,
      sm_properties = mrcp_message_header_create (Some generic_header_vtable) (Some vt),
      sm_out = [], sm_on_dispatch = on_dispatch, sm_on_deactivate = on_deactivate,
      ss_state = SYNTHESIZER_STATE_IDLE, ss_is_pending = False, ss_speaker = None,
      ss_queue = apt_list_create\<rparr>"

section \<open>The invariant\<close>

text \<open>
  There is a speaker exactly outside the idle state; a STOP or BARGE-IN-OCCURRED request waits
  for its response only while there is one; the queue holds SPEAK requests marked pending.
\<close>

definition synth_inv :: "'x synth_sm \<Rightarrow> bool" where
  "synth_inv s \<longleftrightarrow>
     (ss_state s = SYNTHESIZER_STATE_IDLE \<longleftrightarrow> ss_speaker s = None)
     \<and> (\<forall>req. sm_active_request s = Some req
          \<and> (msg_method_id req = SYNTHESIZER_STOP \<or> msg_method_id req = SYNTHESIZER_BARGE_IN_OCCURRED) \<longrightarrow>
            ss_speaker s \<noteq> None)
     \<and> list_all (\<lambda>m. msg_method_id m = SYNTHESIZER_SPEAK
            \<and> msg_request_state m = MRCP_REQUEST_STATE_PENDING) (ss_queue s)"

text \<open>
  The owner's part. The engine does not answer PAUSE, RESUME or CONTROL after it reported the
  end of the speech: no handler tests for the speaker there.
\<close>

definition synth_env :: "'x synth_sm \<Rightarrow> 'x synth_message \<Rightarrow> bool" where
  "synth_env s m \<longleftrightarrow>
     (case msg_type m of
        MRCP_MESSAGE_TYPE_REQUEST \<Rightarrow> msg_has_resource m
      | MRCP_MESSAGE_TYPE_RESPONSE \<Rightarrow> msg_ready m
          \<and> (\<forall>req. sm_active_request s = Some req \<and> msg_request_id req = msg_request_id m \<longrightarrow>
                 msg_method_id req = msg_method_id m)
          \<and> (msg_method_id m \<in> {SYNTHESIZER_PAUSE, SYNTHESIZER_RESUME, SYNTHESIZER_CONTROL} \<longrightarrow> ss_speaker s \<noteq> None)
      | MRCP_MESSAGE_TYPE_EVENT \<Rightarrow> msg_ready m
      | MRCP_MESSAGE_TYPE_UNKNOWN \<Rightarrow> True)"

definition synth_known_request :: "'x synth_message \<Rightarrow> bool" where
  "synth_known_request m \<longleftrightarrow> msg_type m = MRCP_MESSAGE_TYPE_REQUEST \<and> msg_method_id m < SYNTHESIZER_METHOD_COUNT"

lemma synth_default_cause_ready:
  assumes "msg_ready m"
  shows "\<exists>m'. synth_default_cause m = Some m' \<and> msg_ready m' \<and> msg_start_line m' = msg_start_line m"
proof -
  obtain h where "mrcp_resource_header_prepare m = Some h" using ready_prepare(2)[OF assms] by blast
  then show ?thesis using assms by (simp add: synth_default_cause_def)
qed

lemmas synth_dispatch_defs = synth_request_dispatch_def synth_response_dispatch_def
  synth_event_dispatch_def synth_state_change_def Let_def

lemmas synth_request_defs = synth_state_update_def synth_request_state_update_def SYNTHESIZER_METHOD_COUNT_def
  synth_request_method_array_def synth_request_set_params_def synth_request_get_params_def
  synth_request_speak_def synth_request_pause_def synth_request_resume_def
  synth_request_barge_in_occurred_def synth_request_control_def synth_request_define_lexicon_def

lemma synth_stop_immediate_ok:
  assumes "msg_has_resource m"
  shows "\<exists>b s' o'. synth_stop_immediate s m = Some (b, s')
    \<and> sm_active_request s' = None \<and> ss_state s' = ss_state s \<and> ss_speaker s' = ss_speaker s
    \<and> ss_queue s' = filter (\<lambda>x. \<not> stop_selects m (msg_request_id x)) (ss_queue s)
    \<and> sm_out s' = sm_out s @ [o'] \<and> (sm_active s \<longrightarrow> answered m None o')"
proof -
  obtain r where "pending_requests_remove (ss_queue s) m (mrcp_response_create (Some m))
      = Some (filter (\<lambda>x. \<not> stop_selects m (msg_request_id x)) (ss_queue s), r)"
    "msg_start_line r = msg_start_line (mrcp_response_create (Some m))"
    using pending_remove_ready[OF response_create_ready[OF assms]] by blast
  then show ?thesis
    by (simp add: synth_stop_immediate_def synth_pending_requests_remove_def synth_dispatch_defs answered_dispatched)
qed

lemma synth_request_ok:
  assumes inv: "synth_inv s" and env: "synth_env s m" and t: "msg_type m = MRCP_MESSAGE_TYPE_REQUEST"
    and c: "msg_method_id m < SYNTHESIZER_METHOD_COUNT"
  shows "\<exists>b s' o'. synth_state_update s m = Some (b, s') \<and> synth_inv s' \<and> sm_out s' = sm_out s @ [o']
    \<and> (sm_active s \<longrightarrow> answered m (sm_active_request s') o')"
proof -
  have r: "msg_has_resource m" using env t by (simp add: synth_env_def)
  have i: "msg_method_id m \<in> {0, 1, 2, 3, 4, 5, 6, 7, 8}"
    using c by (intro method_below_9) (simp add: SYNTHESIZER_METHOD_COUNT_def)
  show ?thesis
  proof (cases "msg_method_id m = SYNTHESIZER_STOP")
    case False
    then show ?thesis
      using i inv t
      by (auto simp: synth_request_defs synth_dispatch_defs synth_inv_def answered_dispatched method_not_valid_def)
  next
    case True
    have u: "synth_state_update s m = synth_request_stop s m" using t True by (simp add: synth_request_defs)
    obtain b s' o' where imm: "synth_stop_immediate s m = Some (b, s')" "sm_active_request s' = None"
      "ss_state s' = ss_state s" "ss_speaker s' = ss_speaker s"
      "ss_queue s' = filter (\<lambda>x. \<not> stop_selects m (msg_request_id x)) (ss_queue s)"
      "sm_out s' = sm_out s @ [o']" "sm_active s \<longrightarrow> answered m None o'"
      using synth_stop_immediate_ok[OF r] by blast
    have invs: "synth_inv s'" using inv imm by (auto simp: synth_inv_def list_all_iff)
    have d: "ss_speaker s \<noteq> None \<Longrightarrow> synth_inv (snd (synth_request_dispatch s m))"
      using inv by (auto simp: synth_inv_def synth_request_dispatch_def)
    show ?thesis
      using u imm invs d t
      by (auto simp: synth_request_stop_def synth_request_dispatch_def answered_dispatched split: option.split)
  qed
qed

text \<open>Handing the first pending request to the engine.\<close>

lemma synth_pending_process_simps [simp]:
  "ss_state (snd (synth_pending_process s p)) = ss_state s"
  "ss_speaker (snd (synth_pending_process s p)) = ss_speaker s"
  "ss_queue (snd (synth_pending_process s p)) = ss_queue s"
  "sm_active_request (snd (synth_pending_process s (Some m))) = Some m"
  "synth_pending_process s None = (True, s)"
  "sm_out (snd (synth_pending_process s (Some m))) = sm_out s @ [Dispatched m]"
  "fst (synth_pending_process s p) = True"
  by (simp_all add: synth_pending_process_def synth_request_dispatch_def split: option.split)

lemma synth_pop_inv:
  assumes inv: "synth_inv s" and pop: "apt_list_pop_front (ss_queue s) = (p, q)"
  shows "synth_inv (snd (synth_pending_process (s\<lparr>ss_queue := q\<rparr>) p))"
proof (cases "ss_queue s")
  case Nil
  then have "p = None" "q = []" using pop by simp_all
  then show ?thesis using inv by (simp add: synth_inv_def)
next
  case (Cons m ms)
  then have "p = Some m" "q = ms" using pop by simp_all
  then show ?thesis using inv Cons by (auto simp: synth_inv_def)
qed

lemma synth_pending_process_out:
  "\<exists>out. sm_out (snd (synth_pending_process s p)) = sm_out s @ out"
  by (cases p) simp_all

text \<open>The responses that read the list of a STOP or a BARGE-IN-OCCURRED request.\<close>

lemma synth_removed:
  assumes "msg_ready m"
  shows "\<exists>m1 m2. response_id_report i m = Some m1
    \<and> pending_requests_remove q req m1 = Some (filter (\<lambda>y. \<not> stop_selects req (msg_request_id y)) q, m2)"
proof -
  obtain m1 where m1: "response_id_report i m = Some m1" "msg_ready m1"
    using id_report_ready[OF assms] by blast
  then show ?thesis using pending_remove_ready[OF m1(2)] by blast
qed

lemma synth_response_stop_ok:
  assumes inv: "synth_inv s" and r: "msg_ready m" and req: "sm_active_request s = Some req"
    and stop: "msg_method_id req = SYNTHESIZER_STOP"
  shows "\<exists>b s'. synth_response_stop s m = Some (b, s') \<and> synth_inv s' \<and> (\<exists>out. sm_out s' = sm_out s @ out)"
proof -
  let ?q = "filter (\<lambda>y. \<not> stop_selects req (msg_request_id y)) (ss_queue s)"
  obtain x where x: "ss_speaker s = Some x" using inv req stop by (auto simp: synth_inv_def)
  obtain m1 m2 where m: "response_id_report (msg_request_id x) m = Some m1"
    "pending_requests_remove (ss_queue s) req m1 = Some (?q, m2)"
    using synth_removed[OF r] by blast
  obtain p q where pq: "apt_list_pop_front ?q = (p, q)" by (cases "apt_list_pop_front ?q")
  define s2 where "s2 = synth_state_change (s\<lparr>ss_queue := ?q\<rparr>) SYNTHESIZER_STATE_IDLE"
  define s3 where "s3 = snd (synth_response_dispatch (s2\<lparr>ss_queue := q\<rparr>) m2)"
  have run: "synth_response_stop s m = Some (synth_pending_process s3 p)"
    using x m req pq
    by (simp add: synth_response_stop_def synth_pending_requests_remove_def s2_def s3_def synth_state_change_def Let_def)
  have q2: "ss_queue s2 = ?q" "sm_out s2 = sm_out s" by (simp_all add: s2_def synth_state_change_def)
  have s3: "s3 = (snd (synth_response_dispatch s2 m2))\<lparr>ss_queue := q\<rparr>"
    by (simp add: s3_def synth_response_dispatch_def Let_def)
  have inv2: "synth_inv (snd (synth_response_dispatch s2 m2))"
    using inv by (auto simp: s2_def synth_inv_def synth_dispatch_defs list_all_iff)
  have "synth_inv (snd (synth_pending_process s3 p))"
    unfolding s3 by (rule synth_pop_inv[OF inv2]) (simp add: synth_response_dispatch_def Let_def q2 pq)
  moreover have "\<exists>out. sm_out s3 = sm_out s @ out" by (simp add: s3_def synth_response_dispatch_def Let_def q2)
  ultimately show ?thesis
    using run synth_pending_process_out[of s3 p] by (cases "synth_pending_process s3 p") fastforce
qed

lemma synth_response_barge_ok:
  assumes inv: "synth_inv s" and r: "msg_ready m" and req: "sm_active_request s = Some req"
    and barge: "msg_method_id req = SYNTHESIZER_BARGE_IN_OCCURRED"
  shows "\<exists>b s'. synth_response_barge_in_occurred s m = Some (b, s') \<and> synth_inv s'
    \<and> (\<exists>out. sm_out s' = sm_out s @ out)"
proof -
  obtain x where x: "ss_speaker s = Some x" using inv req barge by (auto simp: synth_inv_def)
  obtain m1 m2 where m: "response_id_report (msg_request_id x) m = Some m1"
    "pending_requests_remove (ss_queue s) req m1
       = Some (filter (\<lambda>y. \<not> stop_selects req (msg_request_id y)) (ss_queue s), m2)"
    using synth_removed[OF r] by blast
  then show ?thesis
    using x req inv by (auto simp: synth_response_barge_in_occurred_def synth_pending_requests_remove_def
        synth_dispatch_defs synth_inv_def list_all_iff)
qed

lemma synth_response_ok:
  assumes inv: "synth_inv s" and env: "synth_env s m" and t: "msg_type m = MRCP_MESSAGE_TYPE_RESPONSE"
  shows "\<exists>b s'. synth_state_update s m = Some (b, s') \<and> synth_inv s' \<and> (\<exists>out. sm_out s' = sm_out s @ out)"
proof (cases "\<exists>req. sm_active_request s = Some req \<and> msg_request_id req = msg_request_id m
    \<and> msg_method_id m < SYNTHESIZER_METHOD_COUNT")
  case False
  then show ?thesis using t inv
    by (auto simp: synth_state_update_def synth_response_state_update_def not_less split: option.split)
next
  case True
  then obtain req where req: "sm_active_request s = Some req" "msg_request_id req = msg_request_id m"
    and c: "msg_method_id m < SYNTHESIZER_METHOD_COUNT" by blast
  have r: "msg_ready m" and meth: "msg_method_id req = msg_method_id m"
    and sp: "msg_method_id m \<in> {SYNTHESIZER_PAUSE, SYNTHESIZER_RESUME, SYNTHESIZER_CONTROL} \<Longrightarrow> ss_speaker s \<noteq> None"
    using env t req by (simp_all add: synth_env_def)
  have rep: "\<exists>m1. response_id_report i m = Some m1" for i using id_report_ready[OF r, of i] by blast
  have i: "msg_method_id m \<in> {0, 1, 2, 3, 4, 5, 6, 7, 8}"
    using c by (intro method_below_9) (simp add: SYNTHESIZER_METHOD_COUNT_def)
  have upd: "synth_state_update s m = (case synth_response_method_array ! msg_method_id m of
      Some f \<Rightarrow> f s m | None \<Rightarrow> Some (synth_response_dispatch s m))"
    using t req c by (simp add: synth_state_update_def synth_response_state_update_def)
  show ?thesis
  proof (cases "msg_method_id m \<in> {SYNTHESIZER_STOP, SYNTHESIZER_BARGE_IN_OCCURRED}")
    case True
    then show ?thesis
      using synth_response_stop_ok[OF inv r req(1)] synth_response_barge_ok[OF inv r req(1)] meth
      by (auto simp: upd synth_response_method_array_def)
  next
    case stop: False
    show ?thesis
    proof (cases "msg_method_id m \<in> {SYNTHESIZER_PAUSE, SYNTHESIZER_RESUME, SYNTHESIZER_CONTROL}")
      case True
      then obtain x m1 where "ss_speaker s = Some x" "response_id_report (msg_request_id x) m = Some m1"
        using sp rep by blast
      then show ?thesis using True inv
        by (auto simp: upd synth_response_method_array_def synth_response_pause_def synth_response_resume_def
            synth_response_control_def synth_dispatch_defs synth_inv_def)
    next
      case False
      then show ?thesis
        using i stop inv req meth
        by (auto simp: upd synth_response_method_array_def synth_response_set_params_def
            synth_response_get_params_def synth_response_speak_def synth_response_define_lexicon_def
            synth_dispatch_defs synth_inv_def)
    qed
  qed
qed

lemma synth_complete_ok:
  assumes inv: "synth_inv s" and r: "msg_ready m"
  shows "\<exists>b s'. synth_event_speak_complete s m = Some (b, s') \<and> synth_inv s'
    \<and> (\<exists>out. sm_out s' = sm_out s @ out)"
proof -
  let ?stop = "case sm_active_request s of Some req \<Rightarrow> msg_method_id req = SYNTHESIZER_STOP
      \<or> msg_method_id req = SYNTHESIZER_BARGE_IN_OCCURRED | None \<Rightarrow> False"
  obtain m1 where m1: "synth_default_cause m = Some m1" using synth_default_cause_ready[OF r] by blast
  define s2 where "s2 = snd (synth_event_dispatch (synth_state_change s SYNTHESIZER_STATE_IDLE) m1)"
  obtain p q where pq: "apt_list_pop_front (ss_queue s2) = (p, q)" by (cases "apt_list_pop_front (ss_queue s2)")
  let ?fin = "synth_pending_process (s2\<lparr>ss_queue := q\<rparr>) p"
  have main: "synth_inv (snd ?fin) \<and> (\<exists>out. sm_out (snd ?fin) = sm_out s @ out)"
    if ns: "\<not> ?stop"
  proof -
    have "synth_inv s2" using inv ns
      by (auto simp: s2_def synth_inv_def synth_dispatch_defs split: option.splits)
    then have "synth_inv (snd ?fin)" by (rule synth_pop_inv[OF _ pq])
    moreover have "\<exists>out. sm_out s2 = sm_out s @ out" by (simp add: s2_def synth_dispatch_defs)
    ultimately show ?thesis using synth_pending_process_out[of "s2\<lparr>ss_queue := q\<rparr>" p] by fastforce
  qed
  show ?thesis
  proof (cases "ss_speaker s")
    case None
    then show ?thesis using inv by (auto simp: synth_event_speak_complete_def)
  next
    case (Some x)
    show ?thesis
    proof (cases "msg_request_id x \<noteq> msg_request_id m \<or> ?stop")
      case True
      then show ?thesis using inv Some by (auto simp: synth_event_speak_complete_def)
    next
      case False
      then have "synth_event_speak_complete s m = Some ?fin"
        using Some m1 pq by (simp add: synth_event_speak_complete_def s2_def[symmetric] Let_def)
      then show ?thesis using main False by (cases ?fin) auto
    qed
  qed
qed

lemma synth_event_ok:
  assumes inv: "synth_inv s" and env: "synth_env s m" and t: "msg_type m = MRCP_MESSAGE_TYPE_EVENT"
  shows "\<exists>b s'. synth_state_update s m = Some (b, s') \<and> synth_inv s' \<and> (\<exists>out. sm_out s' = sm_out s @ out)"
proof -
  have r: "msg_ready m" using env t by (simp add: synth_env_def)
  have upd: "synth_state_update s m = synth_event_state_update s m" using t by (simp add: synth_state_update_def)
  consider "2 \<le> msg_method_id m" | "msg_method_id m = 0" | "msg_method_id m = 1" by linarith
  then show ?thesis
  proof cases
    case 1
    then show ?thesis using inv by (auto simp: upd synth_event_state_update_def SYNTHESIZER_EVENT_COUNT_def)
  next
    case 2
    then show ?thesis using inv
      by (auto simp: upd synth_event_state_update_def SYNTHESIZER_EVENT_COUNT_def synth_event_method_array_def
          synth_event_speech_marker_def synth_event_dispatch_def synth_inv_def split: option.split)
  next
    case 3
    then show ?thesis using synth_complete_ok[OF inv r]
      by (simp add: upd synth_event_state_update_def SYNTHESIZER_EVENT_COUNT_def synth_event_method_array_def)
  qed
qed

lemma synth_update_ok:
  assumes "synth_inv s" "synth_env s m"
  shows "\<exists>b s'. synth_state_update s m = Some (b, s') \<and> synth_inv s' \<and> (\<exists>out. sm_out s' = sm_out s @ out)"
proof (cases "msg_type m")
  case MRCP_MESSAGE_TYPE_UNKNOWN
  then show ?thesis using assms by (auto simp: synth_state_update_def)
next
  case MRCP_MESSAGE_TYPE_REQUEST
  show ?thesis
  proof (cases "msg_method_id m < SYNTHESIZER_METHOD_COUNT")
    case True
    then show ?thesis using synth_request_ok[OF assms MRCP_MESSAGE_TYPE_REQUEST] by blast
  next
    case False
    then show ?thesis using assms MRCP_MESSAGE_TYPE_REQUEST
      by (auto simp: synth_state_update_def synth_request_state_update_def)
  qed
next
  case MRCP_MESSAGE_TYPE_RESPONSE
  then show ?thesis using synth_response_ok[OF assms] by blast
next
  case MRCP_MESSAGE_TYPE_EVENT
  then show ?thesis using synth_event_ok[OF assms] by blast
qed

lemma synth_deactivate_ok:
  "synth_inv s \<Longrightarrow> synth_inv (snd (synth_deactivate s)) \<and> (\<exists>out. sm_out (snd (synth_deactivate s)) = sm_out s @ out)"
  by (auto simp: synth_deactivate_def synth_state_deactivate_def synth_request_dispatch_def synth_inv_def
      split: option.split)

interpretation synth: resource_sm synth_state_update synth_deactivate sm_out synth_inv synth_env synth_known_request
proof unfold_locales
  fix s :: "'x synth_sm" and m :: "'x synth_message" and b s'
  assume inv: "synth_inv s"
  show "synth_inv (snd (synth_deactivate s)) \<and> (\<exists>out. sm_out (snd (synth_deactivate s)) = sm_out s @ out)"
    by (rule synth_deactivate_ok[OF inv])
  assume env: "synth_env s m"
  show "\<exists>b s'. synth_state_update s m = Some (b, s') \<and> synth_inv s' \<and> (\<exists>out. sm_out s' = sm_out s @ out)"
    by (rule synth_update_ok[OF inv env])
  assume "synth_known_request m" and u: "synth_state_update s m = Some (b, s')"
  then show "length (sm_out s') = Suc (length (sm_out s))"
    using synth_request_ok[OF inv env] by (auto simp: synth_known_request_def)
qed

lemma synth_create_inv: "synth_inv (mrcp_synth_state_machine_create d e vt)"
  by (simp add: synth_inv_def mrcp_synth_state_machine_create_def)

section \<open>Reachable states\<close>

inductive synth_reach :: "'x synth_sm \<Rightarrow> bool" where
  synth_reach_create: "synth_reach (mrcp_synth_state_machine_create d e vt)"
| synth_reach_update: "synth_reach s \<Longrightarrow> synth_env s m \<Longrightarrow> synth_state_update s m = Some (b, s') \<Longrightarrow> synth_reach s'"
| synth_reach_deactivate: "synth_reach s \<Longrightarrow> synth_reach (snd (synth_deactivate s))"

lemma synth_reach_inv: "synth_reach s \<Longrightarrow> synth_inv s"
proof (induction rule: synth_reach.induct)
  case (synth_reach_update s m b s')
  then show ?case using synth.update_safe[of s m] by auto
qed (auto simp: synth_create_inv synth.deactivate_safe)

text \<open>After the end of the speech, the first pending request goes to the engine.\<close>

lemma synth_complete_next:
  assumes r: "msg_ready m" and act: "sm_active s"
    and x: "ss_speaker s = Some x" and i: "msg_request_id x = msg_request_id m"
    and ns: "\<not> (case sm_active_request s of Some req \<Rightarrow> msg_method_id req = SYNTHESIZER_STOP
      \<or> msg_method_id req = SYNTHESIZER_BARGE_IN_OCCURRED | None \<Rightarrow> False)"
  shows "\<exists>m' s'. synth_event_speak_complete s m = Some (True, s')
    \<and> msg_start_line m' = msg_start_line m
    \<and> ss_state s' = SYNTHESIZER_STATE_IDLE \<and> ss_speaker s' = None \<and> ss_queue s' = tl (ss_queue s)
    \<and> sm_out s' = sm_out s @ Dispatched m' # map Dispatched (take 1 (ss_queue s))
    \<and> (ss_queue s = [] \<longrightarrow> sm_active_request s' = sm_active_request s)
    \<and> sm_active s' \<and> sm_properties s' = sm_properties s
    \<and> (ss_queue s \<noteq> [] \<longrightarrow> sm_active_request s' = Some (hd (ss_queue s)) \<and> ss_is_pending s')"
proof -
  obtain m1 where m1: "synth_default_cause m = Some m1" "msg_start_line m1 = msg_start_line m"
    using synth_default_cause_ready[OF r] by blast
  show ?thesis
    using x i ns act m1
    by (cases "ss_queue s") (auto simp: synth_event_speak_complete_def synth_pending_process_def
        synth_dispatch_defs split: option.splits intro!: exI[of _ m1])
qed

lemma synth_complete_update:
  "msg_type e = MRCP_MESSAGE_TYPE_EVENT \<Longrightarrow> msg_method_id e = SYNTHESIZER_SPEAK_COMPLETE \<Longrightarrow>
    synth_state_update s e = synth_event_speak_complete s e"
  by (simp add: synth_state_update_def synth_event_state_update_def SYNTHESIZER_EVENT_COUNT_def
      synth_event_method_array_def)

section \<open>The queue of pending requests\<close>

text \<open>
  A synthesizer at work on a speech, playing or paused. A SPEAK request is then kept with the
  parameters it inherits and answered with PENDING.
\<close>

definition synth_busy :: "'x synth_sm \<Rightarrow> bool" where
  "synth_busy s \<longleftrightarrow> synth_inv s \<and> sm_active s \<and> ss_speaker s \<noteq> None \<and> \<not> ss_is_pending s
     \<and> \<not> (case sm_active_request s of Some req \<Rightarrow> msg_method_id req = SYNTHESIZER_STOP
          \<or> msg_method_id req = SYNTHESIZER_BARGE_IN_OCCURRED | None \<Rightarrow> False)
     \<and> list_all (\<lambda>q. msg_type q = MRCP_MESSAGE_TYPE_REQUEST) (ss_queue s)"

definition synth_queued :: "'x synth_sm \<Rightarrow> 'x synth_message \<Rightarrow> 'x synth_message" where
  "synth_queued s m =
     set_start_line (\<lambda>sl. sl\<lparr>sl_request_state := MRCP_REQUEST_STATE_PENDING\<rparr>) (inherit_properties (sm_properties s) m)"

fun synth_fits :: "'x synth_sm \<Rightarrow> 'x synth_message pending_job \<Rightarrow> bool" where
  "synth_fits s (Ask m) \<longleftrightarrow> msg_type m = MRCP_MESSAGE_TYPE_REQUEST \<and> msg_method_id m = SYNTHESIZER_SPEAK"
| "synth_fits s (Serve e r) \<longleftrightarrow> ss_queue s \<noteq> []
     \<and> msg_ready e \<and> msg_type e = MRCP_MESSAGE_TYPE_EVENT \<and> msg_method_id e = SYNTHESIZER_SPEAK_COMPLETE
     \<and> map_option (\<lambda>x. msg_request_id x) (ss_speaker s) = Some (msg_request_id e)
     \<and> msg_type r = MRCP_MESSAGE_TYPE_RESPONSE \<and> msg_method_id r = SYNTHESIZER_SPEAK
     \<and> msg_request_state r = MRCP_REQUEST_STATE_INPROGRESS
     \<and> (case synth_state_update s e of None \<Rightarrow> True
        | Some (b, s') \<Rightarrow> map_option (\<lambda>q. msg_request_id q) (sm_active_request s') = Some (msg_request_id r))"

text \<open>What the client is sent; the response that follows the event becomes a SPEECH-MARKER.\<close>

fun synth_view :: "'x synth_message pending_job \<Rightarrow> client_view list" where
  "synth_view (Ask m) = [(MRCP_MESSAGE_TYPE_RESPONSE, SYNTHESIZER_SPEAK, msg_request_id m, MRCP_REQUEST_STATE_PENDING)]"
| "synth_view (Serve e r) =
     [(MRCP_MESSAGE_TYPE_EVENT, SYNTHESIZER_SPEAK_COMPLETE, msg_request_id e, msg_request_state e),
      (MRCP_MESSAGE_TYPE_EVENT, SYNTHESIZER_SPEECH_MARKER, msg_request_id r, MRCP_REQUEST_STATE_INPROGRESS)]"

lemma synth_ask:
  assumes "synth_busy s" and "synth_fits s (Ask m)"
  shows "\<exists>s' out. messages_run synth_state_update s [m] = Some s' \<and> synth_busy s'
    \<and> ss_queue s' = ss_queue s @ [synth_queued s m] \<and> ss_speaker s' = ss_speaker s \<and> synth_queued s' = synth_queued s
    \<and> sm_out s' = sm_out s @ out \<and> to_engine out = [] \<and> to_client out = synth_view (Ask m)"
proof -
  let ?r = "set_start_line (\<lambda>sl. sl\<lparr>sl_request_state := MRCP_REQUEST_STATE_PENDING\<rparr>)
    (mrcp_response_create (Some (synth_queued s m)))"
  let ?s = "snd (synth_response_dispatch (s\<lparr>ss_queue := ss_queue s @ [synth_queued s m]\<rparr>) ?r)"
  have 1: "messages_run synth_state_update s [m] = Some ?s"
    using assms by (simp add: synth_busy_def synth_request_defs synth_queued_def synth_dispatch_defs)
  have m: "msg_type (synth_queued s m) = MRCP_MESSAGE_TYPE_REQUEST \<and> msg_method_id (synth_queued s m) = SYNTHESIZER_SPEAK"
    using assms(2) by (simp add: synth_queued_def)
  then have 2: "synth_busy ?s"
    using assms(1) by (auto simp: synth_busy_def synth_inv_def synth_dispatch_defs synth_queued_def)
  have q: "synth_queued ?s = synth_queued s"
    by (rule ext) (simp add: synth_queued_def synth_response_dispatch_def Let_def)
  show ?thesis
    using assms 2 q by (intro exI[of _ ?s] exI[of _ "[Dispatched ?r]"] conjI 1)
      (simp_all add: synth_busy_def synth_response_dispatch_def Let_def synth_queued_def)
qed

lemma synth_serve:
  assumes busy: "synth_busy s" and fits: "synth_fits s (Serve e r)"
  shows "\<exists>s' out p. messages_run synth_state_update s [e, r] = Some s' \<and> synth_busy s'
    \<and> ss_queue s = p # ss_queue s' \<and> ss_speaker s' = Some p \<and> synth_queued s' = synth_queued s
    \<and> sm_out s' = sm_out s @ out \<and> to_engine out = [p] \<and> to_client out = synth_view (Serve e r)"
proof -
  obtain p ps where q: "ss_queue s = p # ps" using fits by (cases "ss_queue s") auto
  obtain x where x: "ss_speaker s = Some x" "msg_request_id x = msg_request_id e" using fits by auto
  obtain e' s1 where s1: "synth_event_speak_complete s e = Some (True, s1)"
    "msg_start_line e' = msg_start_line e" "ss_queue s1 = ps" "sm_out s1 = sm_out s @ [Dispatched e', Dispatched p]"
    "sm_active_request s1 = Some p" "ss_is_pending s1" "sm_properties s1 = sm_properties s" "sm_active s1"
    using synth_complete_next[of e s x] busy fits x q by (auto simp: synth_busy_def)
  have u1: "synth_state_update s e = Some (True, s1)"
    using fits s1(1) synth_complete_update[of e s] by simp
  have r: "msg_request_id p = msg_request_id r" "msg_type r = MRCP_MESSAGE_TYPE_RESPONSE"
    "msg_method_id r = SYNTHESIZER_SPEAK" "msg_request_state r = MRCP_REQUEST_STATE_INPROGRESS"
    using fits u1 s1(5) by simp_all
  let ?v = "set_start_line (\<lambda>sl. sl\<lparr>sl_request_state := MRCP_REQUEST_STATE_INPROGRESS\<rparr>)
    (mrcp_event_create (Some p) SYNTHESIZER_SPEECH_MARKER)"
  let ?s = "s1\<lparr>ss_speaker := Some p, ss_state := SYNTHESIZER_STATE_SPEAKING, ss_is_pending := False,
    sm_out := sm_out s1 @ [Dispatched ?v]\<rparr>"
  have u2: "\<exists>b. synth_state_update s1 r = Some (b, ?s)"
    using r s1(5,6,8) by (simp add: synth_state_update_def synth_response_state_update_def
        SYNTHESIZER_METHOD_COUNT_def synth_response_method_array_def synth_response_speak_def synth_dispatch_defs)
  have p: "msg_type p = MRCP_MESSAGE_TYPE_REQUEST" "msg_method_id p = SYNTHESIZER_SPEAK"
    using busy q by (simp_all add: synth_busy_def synth_inv_def)
  have "synth_busy ?s"
    using busy q s1 p by (simp add: synth_busy_def synth_inv_def)
  moreover have "synth_queued ?s = synth_queued s"
    by (rule ext) (simp add: synth_queued_def s1(7))
  ultimately show ?thesis
    using u1 u2 q s1 p r fits
    by (intro exI[of _ ?s] exI[of _ "[Dispatched e', Dispatched p, Dispatched ?v]"] exI[of _ p]) auto
qed

interpretation synth_pending: pending_server synth_state_update synth_busy ss_queue ss_speaker sm_out synth_queued
    synth_fits synth_view
  by unfold_locales (fact synth_ask synth_serve)+

section \<open>Properties\<close>

definition sample_synth :: "synth_state \<Rightarrow> (synth_header mrcp_message) option \<Rightarrow> (synth_header mrcp_message) option
    \<Rightarrow> (synth_header mrcp_message) list \<Rightarrow> unit synth_sm" where
  "sample_synth st act x q =
     (mrcp_synth_state_machine_create (\<lambda>_. True) True
       (plain_vtable \<lparr>synth_completion_cause = 0, synth_kill_on_barge_in = True\<rparr>))
       \<lparr>ss_state := st, sm_active_request := act, ss_speaker := x, ss_queue := q\<rparr>"

lemma sample_synth_simps [simp]:
  "ss_state (sample_synth st act x q) = st" "sm_active_request (sample_synth st act x q) = act"
  "ss_speaker (sample_synth st act x q) = x" "ss_queue (sample_synth st act x q) = q"
  "sm_active (sample_synth st act x q)" "sm_out (sample_synth st act x q) = []"
  "\<not> ss_is_pending (sample_synth st act x q)"
  by (simp_all add: sample_synth_def mrcp_synth_state_machine_create_def)

abbreviation (input) "sample_speak \<equiv> \<lparr>synth_completion_cause = 0, synth_kill_on_barge_in = True\<rparr>"

text \<open>
  C17: A synthesizer handles every request, event, deactivation and every response other than a
  late one to PAUSE, RESUME or CONTROL without dereferencing a null pointer, in every state it
  can reach, and keeps its invariant.
\<close>

theorem synth_no_fault:
  assumes "synth_reach s" and "synth_env s m"
  shows "\<exists>b s'. synth_state_update s m = Some (b, s') \<and> synth_reach s'
    \<and> (ss_state s' = SYNTHESIZER_STATE_IDLE \<longleftrightarrow> ss_speaker s' = None)
    \<and> list_all (\<lambda>q. msg_method_id q = SYNTHESIZER_SPEAK
        \<and> msg_request_state q = MRCP_REQUEST_STATE_PENDING) (ss_queue s')"
  using synth.update_safe[OF synth_reach_inv[OF assms(1)] assms(2)] synth_reach_update[OF assms]
  by (auto simp: synth_inv_def)

lemma synth_no_fault_witness:
  "\<exists>b s'. synth_state_update (mrcp_synth_state_machine_create (\<lambda>_. True) True (plain_vtable sample_speak))
      (plain_request sample_speak SYNTHESIZER_SPEAK 1) = Some (b, s') \<and> synth_reach s'"
  using synth_no_fault[OF synth_reach_create, of "\<lambda>_. True" True "plain_vtable sample_speak"
      "plain_request sample_speak SYNTHESIZER_SPEAK 1"]
  by (auto simp: synth_env_def)

text \<open>
  C19: The end of a speech while the response to PAUSE, RESUME or CONTROL is awaited leaves the
  machine without a speaker. When no SPEAK request is pending and the engine then answers the
  request with success, the handler reads the identifier of the missing speaker through a null
  pointer; when one is pending, it is the request that is awaited from then on, and the late
  response is refused.
\<close>

theorem synth_late_response_fault:
  assumes "sm_active s" and "ss_speaker s = Some x"
    and "list_all (\<lambda>q. msg_request_id q \<noteq> msg_request_id req) (ss_queue s)"
    and "sm_active_request s = Some req"
    and "msg_method_id req = SYNTHESIZER_PAUSE \<or> msg_method_id req = SYNTHESIZER_RESUME
      \<or> msg_method_id req = SYNTHESIZER_CONTROL"
    and "msg_type e = MRCP_MESSAGE_TYPE_EVENT" and "msg_method_id e = SYNTHESIZER_SPEAK_COMPLETE"
    and "msg_request_id e = msg_request_id x" and "msg_ready e"
    and "msg_type r = MRCP_MESSAGE_TYPE_RESPONSE" and "msg_method_id r = msg_method_id req"
    and "msg_request_id r = msg_request_id req" and "msg_status_code r = MRCP_STATUS_CODE_SUCCESS"
  shows "\<exists>s'. synth_state_update s e = Some (True, s')
    \<and> synth_state_update s' r = (if ss_queue s = [] then None else Some (False, s'))"
proof -
  have ns: "\<not> (case sm_active_request s of Some req \<Rightarrow> msg_method_id req = SYNTHESIZER_STOP
      \<or> msg_method_id req = SYNTHESIZER_BARGE_IN_OCCURRED | None \<Rightarrow> False)"
    using assms(4,5) by auto
  obtain s' where s': "synth_event_speak_complete s e = Some (True, s')" "ss_speaker s' = None"
    "sm_active_request s' = (if ss_queue s = [] then Some req else Some (hd (ss_queue s)))"
    using synth_complete_next[OF assms(9,1,2) assms(8)[symmetric] ns] assms(4) by auto
  have "synth_state_update s' r = (if ss_queue s = [] then None else Some (False, s'))"
  proof (cases "ss_queue s")
    case Nil
    then show ?thesis using assms(5,10-13) s'(2,3)
      by (auto simp: synth_state_update_def synth_response_state_update_def SYNTHESIZER_METHOD_COUNT_def
        synth_response_method_array_def synth_response_pause_def synth_response_resume_def synth_response_control_def)
  next
    case (Cons p ps)
    then show ?thesis using assms(3,10,12) s'(3)
      by (simp add: synth_state_update_def synth_response_state_update_def)
  qed
  then show ?thesis using s'(1) synth_complete_update[OF assms(6,7)] by auto
qed

lemma synth_late_response_fault_witness:
  "\<exists>s'. synth_state_update (sample_synth SYNTHESIZER_STATE_SPEAKING (Some (plain_request sample_speak SYNTHESIZER_PAUSE 2))
        (Some (plain_request sample_speak SYNTHESIZER_SPEAK 1)) [])
      (plain_event sample_speak SYNTHESIZER_SPEAK_COMPLETE 1) = Some (True, s')
    \<and> synth_state_update s' (plain_response sample_speak SYNTHESIZER_PAUSE 2) = None"
  using synth_late_response_fault[of "sample_synth SYNTHESIZER_STATE_SPEAKING
        (Some (plain_request sample_speak SYNTHESIZER_PAUSE 2)) (Some (plain_request sample_speak SYNTHESIZER_SPEAK 1)) []"
      "plain_request sample_speak SYNTHESIZER_SPEAK 1" "plain_request sample_speak SYNTHESIZER_PAUSE 2"
      "plain_event sample_speak SYNTHESIZER_SPEAK_COMPLETE 1" "plain_response sample_speak SYNTHESIZER_PAUSE 2"]
  by (simp add: plain_response_def)

text \<open>
  C18: Pending SPEAK requests are served first in, first out. During a speech every further SPEAK
  is answered with PENDING and put behind the queue. SPEAK-COMPLETE hands the oldest pending
  request to the engine; when the engine starts it, the client is told by a SPEECH-MARKER event
  under the identifier of the request, not by a second response. For any sequence of such
  requests and completions, each of the latter with its response before the next request, the
  requests that waited at first followed by those made since are the requests handed to the
  engine followed by those that still wait, in order.
\<close>

theorem synth_pending_fifo:
  assumes "synth_busy s" and "ss_speaker s = Some x" and "jobs_fit synth_state_update synth_fits s js"
  shows "\<exists>s' out. messages_run synth_state_update s (concat (map job_messages js)) = Some s' \<and> synth_busy s'
    \<and> sm_out s' = sm_out s @ out
    \<and> ss_queue s @ map (synth_queued s) (asked js) = to_engine out @ ss_queue s'
    \<and> length (to_engine out) = served js
    \<and> ss_speaker s' = Some (last (x # to_engine out))
    \<and> to_client out = concat (map synth_view js)"
  using assms by (rule synth_pending.fifo)

lemma synth_pending_fifo_witness:
  "\<exists>s' out. messages_run synth_state_update (sample_synth SYNTHESIZER_STATE_PAUSED None
        (Some (plain_request sample_speak SYNTHESIZER_SPEAK 1)) [])
      [plain_request sample_speak SYNTHESIZER_SPEAK 2, plain_request sample_speak SYNTHESIZER_SPEAK 3,
       plain_event sample_speak SYNTHESIZER_SPEAK_COMPLETE 1, plain_started sample_speak SYNTHESIZER_SPEAK 2]
      = Some s' \<and> sm_out s' = out \<and> map (\<lambda>m. msg_request_id m) (to_engine out) = [2]
    \<and> map (\<lambda>m. msg_request_id m) (ss_queue s') = [3]"
proof -
  let ?s = "sample_synth SYNTHESIZER_STATE_PAUSED None (Some (plain_request sample_speak SYNTHESIZER_SPEAK 1)) []"
  let ?js = "[Ask (plain_request sample_speak SYNTHESIZER_SPEAK 2), Ask (plain_request sample_speak SYNTHESIZER_SPEAK 3),
    Serve (plain_event sample_speak SYNTHESIZER_SPEAK_COMPLETE 1) (plain_started sample_speak SYNTHESIZER_SPEAK 2)]"
  have busy: "synth_busy ?s" by (simp add: synth_busy_def synth_inv_def)
  obtain h where "mrcp_resource_header_prepare (plain_event sample_speak SYNTHESIZER_SPEAK_COMPLETE 1) = Some h"
    using ready_prepare(2)[OF plain_response_ready(3), of sample_speak SYNTHESIZER_SPEAK_COMPLETE 1] by blast
  then have fit: "jobs_fit synth_state_update synth_fits ?s ?js"
    by (simp add: synth_request_defs synth_complete_update synth_event_speak_complete_def synth_default_cause_def
        synth_dispatch_defs synth_pending_process_def synth_response_state_update_def synth_response_method_array_def
        synth_response_speak_def synth_event_state_update_def synth_event_method_array_def SYNTHESIZER_EVENT_COUNT_def)
  obtain s' out where 1: "messages_run synth_state_update ?s (concat (map job_messages ?js)) = Some s'"
    "sm_out s' = sm_out ?s @ out" "ss_queue ?s @ map (synth_queued ?s) (asked ?js) = to_engine out @ ss_queue s'"
    "length (to_engine out) = served ?js"
    using synth_pending_fifo[OF busy _ fit, of "plain_request sample_speak SYNTHESIZER_SPEAK 1"] by auto
  then obtain p where p: "to_engine out = [p]" by (auto simp: length_Suc_conv)
  then have "p = synth_queued ?s (plain_request sample_speak SYNTHESIZER_SPEAK 2)"
    "ss_queue s' = [synth_queued ?s (plain_request sample_speak SYNTHESIZER_SPEAK 3)]"
    using 1(3) by simp_all
  then show ?thesis using 1(1,2) p by (intro exI[of _ s'] exI[of _ out]) (simp add: synth_queued_def)
qed

text \<open>
  As long as its owner keeps its part, a synthesizer in any state it can reach handles any
  sequence of known requests, and hands exactly one output for each of them to its owner: a
  message or, when it is being deactivated, the end of the deactivation.
\<close>

theorem synth_requests_outputs:
  assumes "synth_reach s" and "synth.env_run s (map Some ms)" and "list_all synth_known_request ms"
  shows "\<exists>s'. synth.run s (map Some ms) = Some s' \<and> length (sm_out s') = length (sm_out s) + length ms"
  by (rule synth.requests_outputs[OF synth_reach_inv[OF assms(1)] assms(2,3)])

lemma synth_requests_outputs_witness:
  "\<exists>s'. synth.run (mrcp_synth_state_machine_create (\<lambda>_. True) True (plain_vtable sample_speak))
      (map Some [plain_request sample_speak SYNTHESIZER_SPEAK 1, plain_request sample_speak SYNTHESIZER_PAUSE 2]) = Some s'
    \<and> length (sm_out s') = 2"
proof -
  let ?s = "mrcp_synth_state_machine_create (\<lambda>_. True) True (plain_vtable sample_speak)"
  let ?ms = "[plain_request sample_speak SYNTHESIZER_SPEAK 1, plain_request sample_speak SYNTHESIZER_PAUSE 2]"
  have "synth.env_run ?s (map Some ?ms)" by (simp add: synth_env_def split: option.split prod.split)
  moreover have "sm_out ?s = []" by (simp add: mrcp_synth_state_machine_create_def)
  ultimately show ?thesis
    using synth_requests_outputs[OF synth_reach_create, of "\<lambda>_. True" True "plain_vtable sample_speak" ?ms]
    by (simp add: synth_known_request_def SYNTHESIZER_METHOD_COUNT_def numeral_2_eq_2 del: synth.env_run.simps synth.run.simps)
qed

end
