(* ===== verification/Recorder_SM.thy ===== *)
theory Recorder_SM
  imports State_Machine
begin

text \<open>
  \<open>libs/mrcp-engine/src/mrcp_recorder_state_machine.c\<close>: the state machine of the recorder
  resource. Of the recorder header the machine touches the completion cause only; the other
  members are the extension \<open>'x\<close> of the record.
\<close>

record recorder_header =
  recorder_completion_cause :: nat

type_synonym 'x recorder_message = "'x recorder_header_scheme mrcp_message"

abbreviation (input) RECORDER_SET_PARAMS :: nat where "RECORDER_SET_PARAMS \<equiv> 0"
abbreviation (input) RECORDER_GET_PARAMS :: nat where "RECORDER_GET_PARAMS \<equiv> 1"
abbreviation (input) RECORDER_RECORD :: nat where "RECORDER_RECORD \<equiv> 2"
abbreviation (input) RECORDER_STOP :: nat where "RECORDER_STOP \<equiv> 3"
abbreviation (input) RECORDER_START_INPUT_TIMERS :: nat where "RECORDER_START_INPUT_TIMERS \<equiv> 4"
abbreviation (input) RECORDER_START_OF_INPUT :: nat where "RECORDER_START_OF_INPUT \<equiv> 0"
abbreviation (input) RECORDER_RECORD_COMPLETE :: nat where "RECORDER_RECORD_COMPLETE \<equiv> 1"
abbreviation (input) RECORDER_HEADER_COMPLETION_CAUSE :: nat where "RECORDER_HEADER_COMPLETION_CAUSE \<equiv> 2"
abbreviation (input) RECORDER_COMPLETION_CAUSE_SUCCESS_SILENCE :: nat where "RECORDER_COMPLETION_CAUSE_SUCCESS_SILENCE \<equiv> 0"
definition RECORDER_METHOD_COUNT :: nat where "RECORDER_METHOD_COUNT = 5"
definition RECORDER_EVENT_COUNT :: nat where "RECORDER_EVENT_COUNT = 2"

datatype recorder_state = RECORDER_STATE_IDLE | RECORDER_STATE_RECORDING

record 'x recorder_sm = "'x recorder_header_scheme state_machine" +
  cs_state :: recorder_state
  cs_record :: "'x recorder_header_scheme mrcp_message option"

type_synonym 'x recorder_method = "'x recorder_sm \<Rightarrow> 'x recorder_message \<Rightarrow> ('x recorder_sm) outcome"

definition recorder_request_dispatch :: "'x recorder_sm \<Rightarrow> 'x recorder_message \<Rightarrow> bool \<times> 'x recorder_sm" where
  "recorder_request_dispatch s m =
     (sm_on_dispatch s m, s\<lparr>sm_active_request := Some m, sm_out := sm_out s @ [Dispatched m]\<rparr>)"

definition recorder_response_dispatch :: "'x recorder_sm \<Rightarrow> 'x recorder_message \<Rightarrow> bool \<times> 'x recorder_sm" where
  "recorder_response_dispatch s m =
     (let s1 = s\<lparr>sm_active_request := None\<rparr> in
      if \<not> sm_active s1 then (sm_on_deactivate s1, s1\<lparr>sm_out := sm_out s1 @ [Deactivated]\<rparr>)
      else (sm_on_dispatch s1 m, s1\<lparr>sm_out := sm_out s1 @ [Dispatched m]\<rparr>))"

definition recorder_event_dispatch :: "'x recorder_sm \<Rightarrow> 'x recorder_message \<Rightarrow> bool \<times> 'x recorder_sm" where
  "recorder_event_dispatch s m =
     (if \<not> sm_active s then (False, s)
      else (sm_on_dispatch s m, s\<lparr>sm_out := sm_out s @ [Dispatched m]\<rparr>))"

definition recorder_state_change :: "'x recorder_sm \<Rightarrow> recorder_state \<Rightarrow> 'x recorder_sm" where
  "recorder_state_change s st =
     (let s1 = s\<lparr>cs_state := st\<rparr> in
      if st = RECORDER_STATE_IDLE then s1\<lparr>cs_record := None\<rparr> else s1)"

definition recorder_request_set_params :: "'x recorder_method" where
  "recorder_request_set_params s m =
     Some (recorder_request_dispatch
       (s\<lparr>sm_properties := mrcp_header_fields_set (sm_properties s) (msg_header m)\<rparr>) m)"

definition recorder_response_set_params :: "'x recorder_method" where
  "recorder_response_set_params s m = Some (recorder_response_dispatch s m)"

definition recorder_request_get_params :: "'x recorder_method" where
  "recorder_request_get_params s m = Some (recorder_request_dispatch s m)"

definition recorder_response_get_params :: "'x recorder_method" where
  "recorder_response_get_params s m =
     (case sm_active_request s of
        None \<Rightarrow> None
      | Some req \<Rightarrow>
          Some (recorder_response_dispatch s
            (m\<lparr>msg_header := mrcp_header_fields_get (msg_header m) (sm_properties s) (msg_header req)\<rparr>)))"

definition recorder_request_record :: "'x recorder_method" where
  "recorder_request_record s m0 =
     (let m = inherit_properties (sm_properties s) m0 in
      if cs_state s = RECORDER_STATE_RECORDING then Some (recorder_response_dispatch s (method_not_valid m))
      else Some (recorder_request_dispatch s m))"

definition recorder_response_record :: "'x recorder_method" where
  "recorder_response_record s m =
     (let s1 = (if msg_request_state m = MRCP_REQUEST_STATE_INPROGRESS
                then recorder_state_change (s\<lparr>cs_record := sm_active_request s\<rparr>) RECORDER_STATE_RECORDING
                else s)
      in Some (recorder_response_dispatch s1 m))"

definition recorder_request_stop :: "'x recorder_method" where
  "recorder_request_stop s m =
     (if cs_state s = RECORDER_STATE_RECORDING then Some (recorder_request_dispatch s m)
      else Some (recorder_response_dispatch s (mrcp_response_create (Some m))))"

definition recorder_response_stop :: "'x recorder_method" where
  "recorder_response_stop s m = do {
     x \<leftarrow> cs_record s;
     m1 \<leftarrow> response_id_report (msg_request_id x) m;
     Some (recorder_response_dispatch (recorder_state_change s RECORDER_STATE_IDLE) m1)
   }"

definition recorder_request_start_timers :: "'x recorder_method" where
  "recorder_request_start_timers s m =
     (if cs_state s = RECORDER_STATE_RECORDING then Some (recorder_request_dispatch s m)
      else Some (recorder_response_dispatch s (method_not_valid m)))"

definition recorder_response_start_timers :: "'x recorder_method" where
  "recorder_response_start_timers s m = Some (recorder_response_dispatch s m)"

definition recorder_event_start_of_input :: "'x recorder_method" where
  "recorder_event_start_of_input s m =
     (case cs_record s of
        None \<Rightarrow> Some (False, s)
      | Some x \<Rightarrow>
          if msg_request_id x \<noteq> msg_request_id m then Some (False, s)
          else Some (recorder_event_dispatch s
            (set_start_line (\<lambda>sl. sl\<lparr>sl_request_state := MRCP_REQUEST_STATE_INPROGRESS\<rparr>) m)))"

definition recorder_default_cause :: "'x recorder_message \<Rightarrow> 'x recorder_message option" where
  "recorder_default_cause m =
     (if \<not> mrcp_resource_header_property_check m RECORDER_HEADER_COMPLETION_CAUSE then do {
        _ \<leftarrow> mrcp_resource_header_prepare m;
        Some (snd (mrcp_resource_header_property_add
          (resource_header_write (\<lambda>h. h\<lparr>recorder_completion_cause := RECORDER_COMPLETION_CAUSE_SUCCESS_SILENCE\<rparr>) m)
          RECORDER_HEADER_COMPLETION_CAUSE))
      } else Some m)"

definition recorder_event_record_complete :: "'x recorder_method" where
  "recorder_event_record_complete s m =
     (case cs_record s of
        None \<Rightarrow> Some (False, s)
      | Some x \<Rightarrow>
          if msg_request_id x \<noteq> msg_request_id m then Some (False, s)
          else if (case sm_active_request s of
                     Some req \<Rightarrow> msg_method_id req = RECORDER_STOP | None \<Rightarrow> False)
          then Some (False, s)
          else do {
            m1 \<leftarrow> recorder_default_cause m;
            Some (recorder_event_dispatch (recorder_state_change s RECORDER_STATE_IDLE) m1)
          })"

definition recorder_request_method_array :: "'x recorder_method option list" where
  "recorder_request_method_array =
     [Some recorder_request_set_params, Some recorder_request_get_params,
      Some recorder_request_record, Some recorder_request_stop,
      Some recorder_request_start_timers]"

definition recorder_response_method_array :: "'x recorder_method option list" where
  "recorder_response_method_array =
     [Some recorder_response_set_params, Some recorder_response_get_params,
      Some recorder_response_record, Some recorder_response_stop,
      Some recorder_response_start_timers]"

definition recorder_event_method_array :: "'x recorder_method option list" where
  "recorder_event_method_array = [Some recorder_event_start_of_input, Some recorder_event_record_complete]"

definition recorder_request_state_update :: "'x recorder_method" where
  "recorder_request_state_update s m =
     (if RECORDER_METHOD_COUNT \<le> msg_method_id m then Some (False, s)
      else case recorder_request_method_array ! msg_method_id m of
             Some f \<Rightarrow> f s m
           | None \<Rightarrow> Some (recorder_request_dispatch s m))"

definition recorder_response_state_update :: "'x recorder_method" where
  "recorder_response_state_update s m =
     (case sm_active_request s of
        None \<Rightarrow> Some (False, s)
      | Some req \<Rightarrow>
          if msg_request_id req \<noteq> msg_request_id m then Some (False, s)
          else if RECORDER_METHOD_COUNT \<le> msg_method_id m then Some (False, s)
          else case recorder_response_method_array ! msg_method_id m of
                 Some f \<Rightarrow> f s m
               | None \<Rightarrow> Some (recorder_response_dispatch s m))"

definition recorder_event_state_update :: "'x recorder_method" where
  "recorder_event_state_update s m =
     (if RECORDER_EVENT_COUNT \<le> msg_method_id m then Some (False, s)
      else case recorder_event_method_array ! msg_method_id m of
             Some f \<Rightarrow> f s m
           | None \<Rightarrow> Some (recorder_event_dispatch s m))"

definition recorder_state_update :: "'x recorder_method" where
  "recorder_state_update s m =
     (case msg_type m of
        MRCP_MESSAGE_TYPE_REQUEST \<Rightarrow> recorder_request_state_update s m
      | MRCP_MESSAGE_TYPE_RESPONSE \<Rightarrow> recorder_response_state_update s m
      | MRCP_MESSAGE_TYPE_EVENT \<Rightarrow> recorder_event_state_update s m
      | MRCP_MESSAGE_TYPE_UNKNOWN \<Rightarrow> Some (False, s))"

definition recorder_state_deactivate :: "'x recorder_sm \<Rightarrow> bool \<times> 'x recorder_sm" where
  "recorder_state_deactivate s =
     (if cs_state s \<noteq> RECORDER_STATE_RECORDING then (False, s)
      else case cs_record s of
             None \<Rightarrow> (False, s)
           | Some src \<Rightarrow> recorder_request_dispatch s (deactivate_request src RECORDER_STOP))"

definition recorder_deactivate :: "'x recorder_sm \<Rightarrow> bool \<times> 'x recorder_sm" where
  "recorder_deactivate s = recorder_state_deactivate (s\<lparr>sm_active := False\<rparr>)"

definition mrcp_recorder_state_machine_create ::
  "('x recorder_message \<Rightarrow> bool) \<Rightarrow> bool \<Rightarrow> 'x recorder_header_scheme header_vtable \<Rightarrow> 'x recorder_sm" where
  "mrcp_recorder_state_machine_create on_dispatch on_deactivate vt =
     \<lparr>sm_active = True, sm_active_request = None,
      sm_properties = mrcp_message_header_create (Some generic_header_vtable) (Some vt),
      sm_out = [], sm_on_dispatch = on_dispatch, sm_on_deactivate = on_deactivate,
      cs_state = RECORDER_STATE_IDLE, cs_record = None\<rparr>"

section \<open>The invariant\<close>

text \<open>
  There is a recording exactly in the recording state, and a STOP request waits for its response
  only there.
\<close>

definition recorder_inv :: "'x recorder_sm \<Rightarrow> bool" where
  "recorder_inv s \<longleftrightarrow>
     (cs_state s = RECORDER_STATE_RECORDING \<longleftrightarrow> cs_record s \<noteq> None)
     \<and> (\<forall>req. sm_active_request s = Some req \<and> msg_method_id req = RECORDER_STOP \<longrightarrow> cs_record s \<noteq> None)"

definition recorder_env :: "'x recorder_sm \<Rightarrow> 'x recorder_message \<Rightarrow> bool" where
  "recorder_env s m \<longleftrightarrow>
     (case msg_type m of
        MRCP_MESSAGE_TYPE_REQUEST \<Rightarrow> msg_has_resource m
      | MRCP_MESSAGE_TYPE_RESPONSE \<Rightarrow> msg_ready m
          \<and> (\<forall>req. sm_active_request s = Some req \<and> msg_request_id req = msg_request_id m \<longrightarrow>
                 msg_method_id req = msg_method_id m)
      | MRCP_MESSAGE_TYPE_EVENT \<Rightarrow> msg_ready m
      | MRCP_MESSAGE_TYPE_UNKNOWN \<Rightarrow> True)"

definition recorder_known_request :: "'x recorder_message \<Rightarrow> bool" where
  "recorder_known_request m \<longleftrightarrow> msg_type m = MRCP_MESSAGE_TYPE_REQUEST \<and> msg_method_id m < RECORDER_METHOD_COUNT"

lemma recorder_default_cause_ready:
  assumes "msg_ready m"
  shows "\<exists>m'. recorder_default_cause m = Some m' \<and> msg_ready m' \<and> msg_start_line m' = msg_start_line m"
proof -
  obtain h where "mrcp_resource_header_prepare m = Some h" using ready_prepare(2)[OF assms] by blast
  then show ?thesis using assms by (simp add: recorder_default_cause_def)
qed

lemmas recorder_dispatch_defs = recorder_request_dispatch_def recorder_response_dispatch_def
  recorder_event_dispatch_def recorder_state_change_def Let_def

lemma recorder_request_update:
  "msg_type m = MRCP_MESSAGE_TYPE_REQUEST \<Longrightarrow> msg_method_id m < RECORDER_METHOD_COUNT \<Longrightarrow>
    recorder_state_update s m = (case recorder_request_method_array ! msg_method_id m of
      Some f \<Rightarrow> f s m | None \<Rightarrow> Some (recorder_request_dispatch s m))"
  by (simp add: recorder_state_update_def recorder_request_state_update_def)

lemma recorder_response_update:
  "msg_type m = MRCP_MESSAGE_TYPE_RESPONSE \<Longrightarrow> msg_method_id m < RECORDER_METHOD_COUNT \<Longrightarrow>
    sm_active_request s = Some req \<Longrightarrow> msg_request_id req = msg_request_id m \<Longrightarrow>
    recorder_state_update s m = (case recorder_response_method_array ! msg_method_id m of
      Some f \<Rightarrow> f s m | None \<Rightarrow> Some (recorder_response_dispatch s m))"
  by (simp add: recorder_state_update_def recorder_response_state_update_def)

lemma recorder_request_ok:
  assumes inv: "recorder_inv s" and t: "msg_type m = MRCP_MESSAGE_TYPE_REQUEST"
    and c: "msg_method_id m < RECORDER_METHOD_COUNT"
  shows "\<exists>b s' o'. recorder_state_update s m = Some (b, s') \<and> recorder_inv s' \<and> sm_out s' = sm_out s @ [o']
    \<and> (sm_active s \<longrightarrow> answered m (sm_active_request s') o')"
proof -
  have i: "msg_method_id m \<in> {0, 1, 2, 3, 4}"
    using c by (intro method_below_5) (simp add: RECORDER_METHOD_COUNT_def)
  show ?thesis
    using i inv t c
    by (cases "cs_state s") (auto simp: recorder_request_update recorder_request_method_array_def
      recorder_request_set_params_def
      recorder_request_get_params_def
      recorder_request_record_def
      recorder_request_stop_def
      recorder_request_start_timers_def
      recorder_dispatch_defs recorder_inv_def answered_dispatched method_not_valid_def)
qed

lemma recorder_response_ok:
  assumes inv: "recorder_inv s" and env: "recorder_env s m" and t: "msg_type m = MRCP_MESSAGE_TYPE_RESPONSE"
  shows "\<exists>b s'. recorder_state_update s m = Some (b, s') \<and> recorder_inv s' \<and> (\<exists>out. sm_out s' = sm_out s @ out)"
proof (cases "\<exists>req. sm_active_request s = Some req \<and> msg_request_id req = msg_request_id m
    \<and> msg_method_id m < RECORDER_METHOD_COUNT")
  case False
  then show ?thesis using t inv
    by (auto simp: recorder_state_update_def recorder_response_state_update_def not_less split: option.split)
next
  case True
  then obtain req where req: "sm_active_request s = Some req" "msg_request_id req = msg_request_id m"
    and c: "msg_method_id m < RECORDER_METHOD_COUNT" by blast
  have r: "msg_ready m" and meth: "msg_method_id req = msg_method_id m"
    using env t req by (simp_all add: recorder_env_def)
  have i: "msg_method_id m \<in> {0, 1, 2, 3, 4}"
    using c by (intro method_below_5) (simp add: RECORDER_METHOD_COUNT_def)
  note upd = recorder_response_update[OF t c req]
  show ?thesis
  proof (cases "msg_method_id m = RECORDER_STOP")
    case True
    then obtain x where x: "cs_record s = Some x" using inv req meth by (auto simp: recorder_inv_def)
    obtain m1 where "response_id_report (msg_request_id x) m = Some m1"
      using id_report_ready[OF r, of "msg_request_id x"] by blast
    then show ?thesis
      using x True inv by (auto simp: upd recorder_response_method_array_def recorder_response_stop_def
          recorder_dispatch_defs recorder_inv_def)
  next
    case False
    then show ?thesis
      using i inv req meth
      by (auto simp: upd recorder_response_method_array_def
      recorder_response_set_params_def
      recorder_response_get_params_def
      recorder_response_record_def
      recorder_response_start_timers_def
      recorder_dispatch_defs recorder_inv_def)
  qed
qed

lemma recorder_event_ok:
  assumes inv: "recorder_inv s" and env: "recorder_env s m" and t: "msg_type m = MRCP_MESSAGE_TYPE_EVENT"
  shows "\<exists>b s'. recorder_state_update s m = Some (b, s') \<and> recorder_inv s' \<and> (\<exists>out. sm_out s' = sm_out s @ out)"
proof -
  have r: "msg_ready m" using env t by (simp add: recorder_env_def)
  obtain m1 where m1: "recorder_default_cause m = Some m1" using recorder_default_cause_ready[OF r] by blast
  have upd: "recorder_state_update s m = recorder_event_state_update s m" using t by (simp add: recorder_state_update_def)
  consider "2 \<le> msg_method_id m" | "msg_method_id m = 0" | "msg_method_id m = 1" by linarith
  then show ?thesis
  proof cases
    case 1
    then show ?thesis using inv by (auto simp: upd recorder_event_state_update_def RECORDER_EVENT_COUNT_def)
  next
    case 2
    then show ?thesis using inv
      by (auto simp: upd recorder_event_state_update_def RECORDER_EVENT_COUNT_def recorder_event_method_array_def
          recorder_event_start_of_input_def recorder_event_dispatch_def recorder_inv_def split: option.split)
  next
    case 3
    then show ?thesis using inv m1
      by (auto simp: upd recorder_event_state_update_def RECORDER_EVENT_COUNT_def recorder_event_method_array_def
          recorder_event_record_complete_def recorder_dispatch_defs recorder_inv_def split: option.split)
  qed
qed

lemma recorder_update_ok:
  assumes "recorder_inv s" "recorder_env s m"
  shows "\<exists>b s'. recorder_state_update s m = Some (b, s') \<and> recorder_inv s' \<and> (\<exists>out. sm_out s' = sm_out s @ out)"
proof (cases "msg_type m")
  case MRCP_MESSAGE_TYPE_UNKNOWN
  then show ?thesis using assms by (auto simp: recorder_state_update_def)
next
  case MRCP_MESSAGE_TYPE_REQUEST
  show ?thesis
  proof (cases "msg_method_id m < RECORDER_METHOD_COUNT")
    case True
    then show ?thesis using recorder_request_ok[OF assms(1) MRCP_MESSAGE_TYPE_REQUEST] by blast
  next
    case False
    then show ?thesis using assms MRCP_MESSAGE_TYPE_REQUEST
      by (auto simp: recorder_state_update_def recorder_request_state_update_def)
  qed
next
  case MRCP_MESSAGE_TYPE_RESPONSE
  then show ?thesis using recorder_response_ok[OF assms] by blast
next
  case MRCP_MESSAGE_TYPE_EVENT
  then show ?thesis using recorder_event_ok[OF assms] by blast
qed

lemma recorder_deactivate_ok:
  "recorder_inv s \<Longrightarrow> recorder_inv (snd (recorder_deactivate s))
    \<and> (\<exists>out. sm_out (snd (recorder_deactivate s)) = sm_out s @ out)"
  by (auto simp: recorder_deactivate_def recorder_state_deactivate_def recorder_request_dispatch_def recorder_inv_def
      split: option.split)

interpretation recorder: resource_sm recorder_state_update recorder_deactivate sm_out recorder_inv recorder_env recorder_known_request
proof unfold_locales
  fix s :: "'x recorder_sm" and m :: "'x recorder_message" and b s'
  assume inv: "recorder_inv s"
  show "recorder_inv (snd (recorder_deactivate s)) \<and> (\<exists>out. sm_out (snd (recorder_deactivate s)) = sm_out s @ out)"
    by (rule recorder_deactivate_ok[OF inv])
  assume env: "recorder_env s m"
  show "\<exists>b s'. recorder_state_update s m = Some (b, s') \<and> recorder_inv s' \<and> (\<exists>out. sm_out s' = sm_out s @ out)"
    by (rule recorder_update_ok[OF inv env])
  assume "recorder_known_request m" and u: "recorder_state_update s m = Some (b, s')"
  then show "length (sm_out s') = Suc (length (sm_out s))"
    using recorder_request_ok[OF inv, of m] by (auto simp: recorder_known_request_def)
qed

lemma recorder_create_inv: "recorder_inv (mrcp_recorder_state_machine_create d e vt)"
  by (simp add: recorder_inv_def mrcp_recorder_state_machine_create_def)

section \<open>Reachable states\<close>

inductive recorder_reach :: "'x recorder_sm \<Rightarrow> bool" where
  recorder_reach_create: "recorder_reach (mrcp_recorder_state_machine_create d e vt)"
| recorder_reach_update: "recorder_reach s \<Longrightarrow> recorder_env s m \<Longrightarrow> recorder_state_update s m = Some (b, s') \<Longrightarrow> recorder_reach s'"
| recorder_reach_deactivate: "recorder_reach s \<Longrightarrow> recorder_reach (snd (recorder_deactivate s))"

lemma recorder_reach_inv: "recorder_reach s \<Longrightarrow> recorder_inv s"
proof (induction rule: recorder_reach.induct)
  case (recorder_reach_update s m b s')
  then show ?case using recorder.update_safe[of s m] by auto
qed (auto simp: recorder_create_inv recorder.deactivate_safe)

section \<open>Properties\<close>

definition sample_recorder :: "recorder_state \<Rightarrow> (recorder_header mrcp_message) option
    \<Rightarrow> (recorder_header mrcp_message) option \<Rightarrow> unit recorder_sm" where
  "sample_recorder st act x =
     (mrcp_recorder_state_machine_create (\<lambda>_. True) True (plain_vtable \<lparr>recorder_completion_cause = 0\<rparr>))
       \<lparr>cs_state := st, sm_active_request := act, cs_record := x\<rparr>"

lemma sample_recorder_simps [simp]:
  "cs_state (sample_recorder st act x) = st" "sm_active_request (sample_recorder st act x) = act"
  "cs_record (sample_recorder st act x) = x"
  "sm_active (sample_recorder st act x)" "sm_out (sample_recorder st act x) = []"
  by (simp_all add: sample_recorder_def mrcp_recorder_state_machine_create_def)

abbreviation (input) "sample_record \<equiv> \<lparr>recorder_completion_cause = 0\<rparr>"

text \<open>
  C24: A recorder never dereferences a null pointer, whatever requests, responses, events and
  deactivations arrive, and answers every known request while it is active: it is handed to the
  engine, or a response is sent at once.
\<close>

theorem recorder_no_fault:
  assumes "recorder_reach s" and "recorder_env s m"
  shows "\<exists>b s'. recorder_state_update s m = Some (b, s') \<and> recorder_reach s'
    \<and> (cs_state s' = RECORDER_STATE_RECORDING \<longleftrightarrow> cs_record s' \<noteq> None)
    \<and> (recorder_known_request m \<and> sm_active s \<longrightarrow>
         (\<exists>out. sm_out s' = sm_out s @ [out] \<and> answered m (sm_active_request s') out))"
proof -
  obtain b s' where s': "recorder_state_update s m = Some (b, s')" "recorder_inv s'"
    using recorder.update_safe[OF recorder_reach_inv[OF assms(1)] assms(2)] by blast
  moreover have "recorder_reach s'" by (rule recorder_reach_update[OF assms s'(1)])
  ultimately show ?thesis
    using recorder_request_ok[OF recorder_reach_inv[OF assms(1)], of m]
    by (auto simp: recorder_inv_def recorder_known_request_def)
qed

lemma recorder_no_fault_witness:
  "\<exists>b s' out. recorder_state_update (mrcp_recorder_state_machine_create (\<lambda>_. True) True (plain_vtable sample_record))
      (plain_request sample_record RECORDER_RECORD 1) = Some (b, s') \<and> sm_out s' = [out]"
  using recorder_no_fault[OF recorder_reach_create, of "\<lambda>_. True" True "plain_vtable sample_record"
      "plain_request sample_record RECORDER_RECORD 1"]
  by (auto simp: recorder_env_def recorder_known_request_def RECORDER_METHOD_COUNT_def mrcp_recorder_state_machine_create_def)

text \<open>
  There is one recording at a time. While a recording is in progress a RECORD request is
  answered with status 402 (method not valid) and changes neither the recording nor the state; a
  STOP request goes to the engine, and its response ends the recording and reports the
  identifier of the stopped request in Active-Request-Id-List.
\<close>

theorem recorder_one_recording:
  assumes "sm_active s" and "cs_state s = RECORDER_STATE_RECORDING" and "cs_record s = Some x"
    and "msg_type m = MRCP_MESSAGE_TYPE_REQUEST" and "msg_method_id m = RECORDER_RECORD"
    and "msg_type st = MRCP_MESSAGE_TYPE_REQUEST" and "msg_method_id st = RECORDER_STOP"
    and "msg_type r = MRCP_MESSAGE_TYPE_RESPONSE" and "msg_method_id r = RECORDER_STOP"
    and "msg_request_id r = msg_request_id st" and "response_fresh r" and "msg_request_id x < 10 ^ 9"
  shows "\<exists>b1 s1 rej b2 s2 b3 s3 r'. recorder_state_update s m = Some (b1, s1)
    \<and> sm_out s1 = sm_out s @ [Dispatched rej] \<and> msg_request_id rej = msg_request_id m
    \<and> msg_type rej = MRCP_MESSAGE_TYPE_RESPONSE \<and> msg_status_code rej = MRCP_STATUS_CODE_METHOD_NOT_VALID
    \<and> cs_state s1 = RECORDER_STATE_RECORDING \<and> cs_record s1 = Some x
    \<and> recorder_state_update s1 st = Some (b2, s2) \<and> sm_out s2 = sm_out s1 @ [Dispatched st]
    \<and> recorder_state_update s2 r = Some (b3, s3) \<and> sm_out s3 = sm_out s2 @ [Dispatched r']
    \<and> cs_state s3 = RECORDER_STATE_IDLE \<and> cs_record s3 = None
    \<and> map_option hf_value (msg_field r' GENERIC_HEADER_ACTIVE_REQUEST_ID_LIST) = Some (show_nat (unat (msg_request_id x)))"
proof -
  let ?m = "inherit_properties (sm_properties s) m"
  obtain r' where r': "response_id_report (msg_request_id x) r = Some r'"
    "map_option hf_value (msg_field r' GENERIC_HEADER_ACTIVE_REQUEST_ID_LIST) = Some (show_nat (unat (msg_request_id x)))"
    using id_report_fresh[OF assms(11,12)] by blast
  let ?s1 = "snd (recorder_response_dispatch s (method_not_valid ?m))"
  let ?s2 = "snd (recorder_request_dispatch ?s1 st)"
  have 1: "recorder_state_update s m = Some (recorder_response_dispatch s (method_not_valid ?m))"
    using assms(2,4,5) by (simp add: recorder_request_update RECORDER_METHOD_COUNT_def
        recorder_request_method_array_def recorder_request_record_def Let_def)
  have s1: "sm_out ?s1 = sm_out s @ [Dispatched (method_not_valid ?m)]" "cs_state ?s1 = RECORDER_STATE_RECORDING"
    "cs_record ?s1 = Some x" "sm_active ?s1"
    using assms(1,2,3) by (simp_all add: recorder_dispatch_defs)
  have 2: "recorder_state_update ?s1 st = Some (recorder_request_dispatch ?s1 st)"
    using assms(6,7) s1 by (simp add: recorder_request_update RECORDER_METHOD_COUNT_def
        recorder_request_method_array_def recorder_request_stop_def)
  have 3: "\<exists>b3 s3. recorder_state_update ?s2 r = Some (b3, s3) \<and> sm_out s3 = sm_out ?s2 @ [Dispatched r']
      \<and> cs_state s3 = RECORDER_STATE_IDLE \<and> cs_record s3 = None"
    using assms(1,3,8,9,10) r'(1) by (simp add: recorder_response_update RECORDER_METHOD_COUNT_def
        recorder_response_method_array_def recorder_response_stop_def recorder_dispatch_defs)
  have rej: "msg_request_id (method_not_valid ?m) = msg_request_id m"
    "msg_type (method_not_valid ?m) = MRCP_MESSAGE_TYPE_RESPONSE"
    "msg_status_code (method_not_valid ?m) = MRCP_STATUS_CODE_METHOD_NOT_VALID"
    by (simp_all add: method_not_valid_def)
  have d: "recorder_response_dispatch s (method_not_valid ?m) = (fst (recorder_response_dispatch s (method_not_valid ?m)), ?s1)"
    "recorder_request_dispatch ?s1 st = (fst (recorder_request_dispatch ?s1 st), ?s2)" by simp_all
  have s2: "sm_out ?s2 = sm_out ?s1 @ [Dispatched st]" by (simp add: recorder_request_dispatch_def)
  show ?thesis
    using 1 2 3 s1 s2 rej r'(2) by (metis d)
qed

lemma recorder_one_recording_witness:
  "\<exists>b1 s1 rej b2 s2 b3 s3. recorder_state_update (sample_recorder RECORDER_STATE_RECORDING None
        (Some (plain_request sample_record RECORDER_RECORD 1))) (plain_request sample_record RECORDER_RECORD 2) = Some (b1, s1)
    \<and> sm_out s1 = [Dispatched rej]
    \<and> recorder_state_update s1 (plain_request sample_record RECORDER_STOP 3) = Some (b2, s2)
    \<and> recorder_state_update s2 (plain_response sample_record RECORDER_STOP 3) = Some (b3, s3)
    \<and> cs_state s3 = RECORDER_STATE_IDLE"
  using recorder_one_recording[of "sample_recorder RECORDER_STATE_RECORDING None
        (Some (plain_request sample_record RECORDER_RECORD 1))" "plain_request sample_record RECORDER_RECORD 1"
      "plain_request sample_record RECORDER_RECORD 2" "plain_request sample_record RECORDER_STOP 3"
      "plain_response sample_record RECORDER_STOP 3"]
  by simp blast

end
