(* ===== verification/Verifier_SM.thy ===== *)
theory Verifier_SM
  imports State_Machine
begin

text \<open>
  \<open>libs/mrcp-engine/src/mrcp_verifier_state_machine.c\<close>: the state machine of the verifier
  resource. Of the verifier header the machine touches the completion cause only; the other
  members are the extension \<open>'x\<close> of the record.
\<close>

record verifier_header =
  verifier_completion_cause :: nat

type_synonym 'x verifier_message = "'x verifier_header_scheme mrcp_message"

abbreviation (input) VERIFIER_SET_PARAMS :: nat where "VERIFIER_SET_PARAMS \<equiv> 0"
abbreviation (input) VERIFIER_GET_PARAMS :: nat where "VERIFIER_GET_PARAMS \<equiv> 1"
abbreviation (input) VERIFIER_START_SESSION :: nat where "VERIFIER_START_SESSION \<equiv> 2"
abbreviation (input) VERIFIER_END_SESSION :: nat where "VERIFIER_END_SESSION \<equiv> 3"
abbreviation (input) VERIFIER_QUERY_VOICEPRINT :: nat where "VERIFIER_QUERY_VOICEPRINT \<equiv> 4"
abbreviation (input) VERIFIER_DELETE_VOICEPRINT :: nat where "VERIFIER_DELETE_VOICEPRINT \<equiv> 5"
abbreviation (input) VERIFIER_VERIFY :: nat where "VERIFIER_VERIFY \<equiv> 6"
abbreviation (input) VERIFIER_VERIFY_FROM_BUFFER :: nat where "VERIFIER_VERIFY_FROM_BUFFER \<equiv> 7"
abbreviation (input) VERIFIER_VERIFY_ROLLBACK :: nat where "VERIFIER_VERIFY_ROLLBACK \<equiv> 8"
abbreviation (input) VERIFIER_STOP :: nat where "VERIFIER_STOP \<equiv> 9"
abbreviation (input) VERIFIER_CLEAR_BUFFER :: nat where "VERIFIER_CLEAR_BUFFER \<equiv> 10"
abbreviation (input) VERIFIER_START_INPUT_TIMERS :: nat where "VERIFIER_START_INPUT_TIMERS \<equiv> 11"
abbreviation (input) VERIFIER_GET_INTERMIDIATE_RESULT :: nat where "VERIFIER_GET_INTERMIDIATE_RESULT \<equiv> 12"
abbreviation (input) VERIFIER_START_OF_INPUT :: nat where "VERIFIER_START_OF_INPUT \<equiv> 0"
abbreviation (input) VERIFIER_VERIFICATION_COMPLETE :: nat where "VERIFIER_VERIFICATION_COMPLETE \<equiv> 1"
abbreviation (input) VERIFIER_HEADER_COMPLETION_CAUSE :: nat where "VERIFIER_HEADER_COMPLETION_CAUSE \<equiv> 15"
abbreviation (input) VERIFIER_COMPLETION_CAUSE_SUCCESS :: nat where "VERIFIER_COMPLETION_CAUSE_SUCCESS \<equiv> 0"
definition VERIFIER_METHOD_COUNT :: nat where "VERIFIER_METHOD_COUNT = 13"
definition VERIFIER_EVENT_COUNT :: nat where "VERIFIER_EVENT_COUNT = 2"

datatype verifier_state = VERIFIER_STATE_IDLE | VERIFIER_STATE_OPENED | VERIFIER_STATE_VERIFYING

record 'x verifier_sm = "'x verifier_header_scheme state_machine" +
  vs_state :: verifier_state
  vs_verify :: "'x verifier_header_scheme mrcp_message option"

type_synonym 'x verifier_method = "'x verifier_sm \<Rightarrow> 'x verifier_message \<Rightarrow> ('x verifier_sm) outcome"

definition verifier_request_dispatch :: "'x verifier_sm \<Rightarrow> 'x verifier_message \<Rightarrow> bool \<times> 'x verifier_sm" where
  "verifier_request_dispatch s m =
     (sm_on_dispatch s m, s\<lparr>sm_active_request := Some m, sm_out := sm_out s @ [Dispatched m]\<rparr>)"

definition verifier_response_dispatch :: "'x verifier_sm \<Rightarrow> 'x verifier_message \<Rightarrow> bool \<times> 'x verifier_sm" where
  "verifier_response_dispatch s m =
     (let s1 = s\<lparr>sm_active_request := None\<rparr> in
      if \<not> sm_active s1 then (sm_on_deactivate s1, s1\<lparr>sm_out := sm_out s1 @ [Deactivated]\<rparr>)
      else (sm_on_dispatch s1 m, s1\<lparr>sm_out := sm_out s1 @ [Dispatched m]\<rparr>))"

definition verifier_event_dispatch :: "'x verifier_sm \<Rightarrow> 'x verifier_message \<Rightarrow> bool \<times> 'x verifier_sm" where
  "verifier_event_dispatch s m =
     (if \<not> sm_active s then (False, s)
      else (sm_on_dispatch s m, s\<lparr>sm_out := sm_out s @ [Dispatched m]\<rparr>))"

definition verifier_state_change :: "'x verifier_sm \<Rightarrow> verifier_state \<Rightarrow> 'x verifier_sm" where
  "verifier_state_change s st =
     (let s1 = s\<lparr>vs_state := st\<rparr> in
      if st = VERIFIER_STATE_IDLE then s1\<lparr>vs_verify := None\<rparr> else s1)"

definition verifier_request_set_params :: "'x verifier_method" where
  "verifier_request_set_params s m =
     Some (verifier_request_dispatch
       (s\<lparr>sm_properties := mrcp_header_fields_set (sm_properties s) (msg_header m)\<rparr>) m)"

definition verifier_response_set_params :: "'x verifier_method" where
  "verifier_response_set_params s m = Some (verifier_response_dispatch s m)"

definition verifier_request_get_params :: "'x verifier_method" where
  "verifier_request_get_params s m = Some (verifier_request_dispatch s m)"

definition verifier_response_get_params :: "'x verifier_method" where
  "verifier_response_get_params s m =
     (case sm_active_request s of
        None \<Rightarrow> None
      | Some req \<Rightarrow>
          Some (verifier_response_dispatch s
            (m\<lparr>msg_header := mrcp_header_fields_get (msg_header m) (sm_properties s) (msg_header req)\<rparr>)))"

definition verifier_request_start_session :: "'x verifier_method" where
  "verifier_request_start_session s m =
     (if vs_state s = VERIFIER_STATE_VERIFYING then Some (verifier_response_dispatch s (method_not_valid m))
      else Some (verifier_request_dispatch s m))"

definition verifier_response_start_session :: "'x verifier_method" where
  "verifier_response_start_session s m = Some (verifier_response_dispatch (verifier_state_change s VERIFIER_STATE_OPENED) m)"

definition verifier_request_end_session :: "'x verifier_method" where
  "verifier_request_end_session s m =
     (if vs_state s = VERIFIER_STATE_IDLE then Some (verifier_response_dispatch s (method_not_valid m))
      else Some (verifier_request_dispatch s m))"

definition verifier_response_end_session :: "'x verifier_method" where
  "verifier_response_end_session s m = Some (verifier_response_dispatch (verifier_state_change s VERIFIER_STATE_IDLE) m)"

definition verifier_request_query_voiceprint :: "'x verifier_method" where
  "verifier_request_query_voiceprint s m =
     (if vs_state s = VERIFIER_STATE_IDLE then Some (verifier_response_dispatch s (method_not_valid m))
      else Some (verifier_request_dispatch s m))"

definition verifier_response_query_voiceprint :: "'x verifier_method" where
  "verifier_response_query_voiceprint s m = Some (verifier_response_dispatch s m)"

definition verifier_request_delete_voiceprint :: "'x verifier_method" where
  "verifier_request_delete_voiceprint s m =
     (if vs_state s = VERIFIER_STATE_IDLE then Some (verifier_response_dispatch s (method_not_valid m))
      else Some (verifier_request_dispatch s m))"

definition verifier_response_delete_voiceprint :: "'x verifier_method" where
  "verifier_response_delete_voiceprint s m = Some (verifier_response_dispatch s m)"

text \<open>The response to VERIFY starts the verification whatever its status.\<close>

definition verifier_request_verify :: "'x verifier_method" where
  "verifier_request_verify s m =
     (if vs_state s = VERIFIER_STATE_IDLE \<or> vs_state s = VERIFIER_STATE_VERIFYING then Some (verifier_response_dispatch s (method_not_valid m))
      else Some (verifier_request_dispatch (s\<lparr>vs_verify := Some m\<rparr>) m))"

definition verifier_response_verify :: "'x verifier_method" where
  "verifier_response_verify s m = Some (verifier_response_dispatch (verifier_state_change s VERIFIER_STATE_VERIFYING) m)"

definition verifier_request_verify_from_buffer :: "'x verifier_method" where
  "verifier_request_verify_from_buffer s m =
     (if vs_state s = VERIFIER_STATE_IDLE \<or> vs_state s = VERIFIER_STATE_VERIFYING then Some (verifier_response_dispatch s (method_not_valid m))
      else Some (verifier_request_dispatch (s\<lparr>vs_verify := Some m\<rparr>) m))"

definition verifier_response_verify_from_buffer :: "'x verifier_method" where
  "verifier_response_verify_from_buffer s m = Some (verifier_response_dispatch (verifier_state_change s VERIFIER_STATE_VERIFYING) m)"

definition verifier_request_verify_rollback :: "'x verifier_method" where
  "verifier_request_verify_rollback s m = Some (verifier_request_dispatch s m)"

definition verifier_response_verify_rollback :: "'x verifier_method" where
  "verifier_response_verify_rollback s m = Some (verifier_response_dispatch s m)"

definition verifier_request_stop :: "'x verifier_method" where
  "verifier_request_stop s m =
     (if vs_state s = VERIFIER_STATE_IDLE then Some (verifier_response_dispatch s (method_not_valid m))
      else if vs_state s = VERIFIER_STATE_OPENED then
        Some (verifier_response_dispatch s (mrcp_response_create (Some m)))
      else Some (verifier_request_dispatch s m))"

definition verifier_response_stop :: "'x verifier_method" where
  "verifier_response_stop s m = do {
     x \<leftarrow> vs_verify s;
     m1 \<leftarrow> response_id_report (msg_request_id x) m;
     Some (verifier_response_dispatch (verifier_state_change s VERIFIER_STATE_OPENED) m1)
   }"

definition verifier_request_clear_buffer :: "'x verifier_method" where
  "verifier_request_clear_buffer s m = Some (verifier_request_dispatch s m)"

definition verifier_response_clear_buffer :: "'x verifier_method" where
  "verifier_response_clear_buffer s m = Some (verifier_response_dispatch s m)"

definition verifier_request_start_input_timers :: "'x verifier_method" where
  "verifier_request_start_input_timers s m =
     (if vs_state s = VERIFIER_STATE_IDLE \<or> vs_state s = VERIFIER_STATE_VERIFYING then Some (verifier_response_dispatch s (method_not_valid m))
      else Some (verifier_request_dispatch s m))"

definition verifier_response_start_input_timers :: "'x verifier_method" where
  "verifier_response_start_input_timers s m = Some (verifier_response_dispatch s m)"

definition verifier_request_get_intermidiate_result :: "'x verifier_method" where
  "verifier_request_get_intermidiate_result s m =
     (if vs_state s \<noteq> VERIFIER_STATE_VERIFYING then Some (verifier_response_dispatch s (method_not_valid m))
      else Some (verifier_request_dispatch s m))"

definition verifier_response_get_intermidiate_result :: "'x verifier_method" where
  "verifier_response_get_intermidiate_result s m = Some (verifier_response_dispatch s m)"

definition verifier_event_start_of_input :: "'x verifier_method" where
  "verifier_event_start_of_input s m =
     (case vs_verify s of
        None \<Rightarrow> Some (False, s)
      | Some x \<Rightarrow>
          if msg_request_id x \<noteq> msg_request_id m then Some (False, s)
          else Some (verifier_event_dispatch s
            (set_start_line (\<lambda>sl. sl\<lparr>sl_request_state := MRCP_REQUEST_STATE_INPROGRESS\<rparr>) m)))"

definition verifier_default_cause :: "'x verifier_message \<Rightarrow> 'x verifier_message option" where
  "verifier_default_cause m =
     (if \<not> mrcp_resource_header_property_check m VERIFIER_HEADER_COMPLETION_CAUSE then do {
        _ \<leftarrow> mrcp_resource_header_prepare m;
        Some (snd (mrcp_resource_header_property_add
          (resource_header_write (\<lambda>h. h\<lparr>verifier_completion_cause := VERIFIER_COMPLETION_CAUSE_SUCCESS\<rparr>) m)
          VERIFIER_HEADER_COMPLETION_CAUSE))
      } else Some m)"

definition verifier_event_verification_complete :: "'x verifier_method" where
  "verifier_event_verification_complete s m =
     (case vs_verify s of
        None \<Rightarrow> Some (False, s)
      | Some x \<Rightarrow>
          if msg_request_id x \<noteq> msg_request_id m then Some (False, s)
          else if (case sm_active_request s of
                     Some req \<Rightarrow> msg_method_id req = VERIFIER_STOP | None \<Rightarrow> False)
          then Some (False, s)
          else do {
            m1 \<leftarrow> verifier_default_cause m;
            Some (verifier_event_dispatch (verifier_state_change s VERIFIER_STATE_OPENED) m1)
          })"

definition verifier_request_method_array :: "'x verifier_method option list" where
  "verifier_request_method_array =
     [Some verifier_request_set_params, Some verifier_request_get_params,
      Some verifier_request_start_session, Some verifier_request_end_session,
      Some verifier_request_query_voiceprint, Some verifier_request_delete_voiceprint,
      Some verifier_request_verify, Some verifier_request_verify_from_buffer,
      Some verifier_request_verify_rollback, Some verifier_request_stop,
      Some verifier_request_clear_buffer, Some verifier_request_start_input_timers,
      Some verifier_request_get_intermidiate_result]"

definition verifier_response_method_array :: "'x verifier_method option list" where
  "verifier_response_method_array =
     [Some verifier_response_set_params, Some verifier_response_get_params,
      Some verifier_response_start_session, Some verifier_response_end_session,
      Some verifier_response_query_voiceprint, Some verifier_response_delete_voiceprint,
      Some verifier_response_verify, Some verifier_response_verify_from_buffer,
      Some verifier_response_verify_rollback, Some verifier_response_stop,
      Some verifier_response_clear_buffer, Some verifier_response_start_input_timers,
      Some verifier_response_get_intermidiate_result]"

definition verifier_event_method_array :: "'x verifier_method option list" where
  "verifier_event_method_array = [Some verifier_event_start_of_input, Some verifier_event_verification_complete]"

definition verifier_request_state_update :: "'x verifier_method" where
  "verifier_request_state_update s m =
     (if VERIFIER_METHOD_COUNT \<le> msg_method_id m then Some (False, s)
      else case verifier_request_method_array ! msg_method_id m of
             Some f \<Rightarrow> f s m
           | None \<Rightarrow> Some (verifier_request_dispatch s m))"

definition verifier_response_state_update :: "'x verifier_method" where
  "verifier_response_state_update s m =
     (case sm_active_request s of
        None \<Rightarrow> Some (False, s)
      | Some req \<Rightarrow>
          if msg_request_id req \<noteq> msg_request_id m then Some (False, s)
          else if VERIFIER_METHOD_COUNT \<le> msg_method_id m then Some (False, s)
          else case verifier_response_method_array ! msg_method_id m of
                 Some f \<Rightarrow> f s m
               | None \<Rightarrow> Some (verifier_response_dispatch s m))"

definition verifier_event_state_update :: "'x verifier_method" where
  "verifier_event_state_update s m =
     (if VERIFIER_EVENT_COUNT \<le> msg_method_id m then Some (False, s)
      else case verifier_event_method_array ! msg_method_id m of
             Some f \<Rightarrow> f s m
           | None \<Rightarrow> Some (verifier_event_dispatch s m))"

definition verifier_state_update :: "'x verifier_method" where
  "verifier_state_update s m =
     (case msg_type m of
        MRCP_MESSAGE_TYPE_REQUEST \<Rightarrow> verifier_request_state_update s m
      | MRCP_MESSAGE_TYPE_RESPONSE \<Rightarrow> verifier_response_state_update s m
      | MRCP_MESSAGE_TYPE_EVENT \<Rightarrow> verifier_event_state_update s m
      | MRCP_MESSAGE_TYPE_UNKNOWN \<Rightarrow> Some (False, s))"

definition verifier_state_deactivate :: "'x verifier_sm \<Rightarrow> bool \<times> 'x verifier_sm" where
  "verifier_state_deactivate s =
     (if vs_state s \<noteq> VERIFIER_STATE_VERIFYING then (False, s)
      else case vs_verify s of
             None \<Rightarrow> (False, s)
           | Some src \<Rightarrow> verifier_request_dispatch s (deactivate_request src VERIFIER_STOP))"

definition verifier_deactivate :: "'x verifier_sm \<Rightarrow> bool \<times> 'x verifier_sm" where
  "verifier_deactivate s = verifier_state_deactivate (s\<lparr>sm_active := False\<rparr>)"

definition mrcp_verifier_state_machine_create ::
  "('x verifier_message \<Rightarrow> bool) \<Rightarrow> bool \<Rightarrow> 'x verifier_header_scheme header_vtable \<Rightarrow> 'x verifier_sm" where
  "mrcp_verifier_state_machine_create on_dispatch on_deactivate vt =
     \<lparr>sm_active = True, sm_active_request = None,
      sm_properties = mrcp_message_header_create (Some generic_header_vtable) (Some vt),
      sm_out = [], sm_on_dispatch = on_dispatch, sm_on_deactivate = on_deactivate,
      vs_state = VERIFIER_STATE_IDLE, vs_verify = None\<rparr>"

section \<open>The invariant\<close>

text \<open>
  There is no VERIFY request in the idle state, and there is one while verifying and while the
  response to VERIFY, VERIFY-FROM-BUFFER or STOP is awaited. The last one stays in the opened
  state.
\<close>

definition verifier_inv :: "'x verifier_sm \<Rightarrow> bool" where
  "verifier_inv s \<longleftrightarrow>
     (vs_state s = VERIFIER_STATE_IDLE \<longrightarrow> vs_verify s = None)
     \<and> (vs_state s = VERIFIER_STATE_VERIFYING \<longrightarrow> vs_verify s \<noteq> None)
     \<and> (\<forall>req. sm_active_request s = Some req
          \<and> (msg_method_id req = VERIFIER_VERIFY \<or> msg_method_id req = VERIFIER_VERIFY_FROM_BUFFER
             \<or> msg_method_id req = VERIFIER_STOP) \<longrightarrow> vs_verify s \<noteq> None)"

definition verifier_env :: "'x verifier_sm \<Rightarrow> 'x verifier_message \<Rightarrow> bool" where
  "verifier_env s m \<longleftrightarrow>
     (case msg_type m of
        MRCP_MESSAGE_TYPE_REQUEST \<Rightarrow> msg_has_resource m
      | MRCP_MESSAGE_TYPE_RESPONSE \<Rightarrow> msg_ready m
          \<and> (\<forall>req. sm_active_request s = Some req \<and> msg_request_id req = msg_request_id m \<longrightarrow>
                 msg_method_id req = msg_method_id m)
      | MRCP_MESSAGE_TYPE_EVENT \<Rightarrow> msg_ready m
      | MRCP_MESSAGE_TYPE_UNKNOWN \<Rightarrow> True)"

definition verifier_known_request :: "'x verifier_message \<Rightarrow> bool" where
  "verifier_known_request m \<longleftrightarrow> msg_type m = MRCP_MESSAGE_TYPE_REQUEST \<and> msg_method_id m < VERIFIER_METHOD_COUNT"

lemma verifier_default_cause_ready:
  assumes "msg_ready m"
  shows "\<exists>m'. verifier_default_cause m = Some m' \<and> msg_ready m' \<and> msg_start_line m' = msg_start_line m"
proof -
  obtain h where "mrcp_resource_header_prepare m = Some h" using ready_prepare(2)[OF assms] by blast
  then show ?thesis using assms by (simp add: verifier_default_cause_def)
qed

lemmas verifier_dispatch_defs = verifier_request_dispatch_def verifier_response_dispatch_def
  verifier_event_dispatch_def verifier_state_change_def Let_def

lemma verifier_request_update:
  "msg_type m = MRCP_MESSAGE_TYPE_REQUEST \<Longrightarrow> msg_method_id m < VERIFIER_METHOD_COUNT \<Longrightarrow>
    verifier_state_update s m = (case verifier_request_method_array ! msg_method_id m of
      Some f \<Rightarrow> f s m | None \<Rightarrow> Some (verifier_request_dispatch s m))"
  by (simp add: verifier_state_update_def verifier_request_state_update_def)

lemma verifier_response_update:
  "msg_type m = MRCP_MESSAGE_TYPE_RESPONSE \<Longrightarrow> msg_method_id m < VERIFIER_METHOD_COUNT \<Longrightarrow>
    sm_active_request s = Some req \<Longrightarrow> msg_request_id req = msg_request_id m \<Longrightarrow>
    verifier_state_update s m = (case verifier_response_method_array ! msg_method_id m of
      Some f \<Rightarrow> f s m | None \<Rightarrow> Some (verifier_response_dispatch s m))"
  by (simp add: verifier_state_update_def verifier_response_state_update_def)

lemma verifier_request_ok:
  assumes inv: "verifier_inv s" and t: "msg_type m = MRCP_MESSAGE_TYPE_REQUEST"
    and c: "msg_method_id m < VERIFIER_METHOD_COUNT"
  shows "\<exists>b s' o'. verifier_state_update s m = Some (b, s') \<and> verifier_inv s' \<and> sm_out s' = sm_out s @ [o']
    \<and> (sm_active s \<longrightarrow> answered m (sm_active_request s') o')"
proof -
  have i: "msg_method_id m \<in> {0, 1, 2, 3, 4, 5, 6, 7, 8, 9, 10, 11, 12}"
    using c by (intro method_below_13) (simp add: VERIFIER_METHOD_COUNT_def)
  show ?thesis
    using i inv t c
    by (cases "vs_state s") (auto simp: verifier_request_update verifier_request_method_array_def
      verifier_request_set_params_def
      verifier_request_get_params_def
      verifier_request_start_session_def
      verifier_request_end_session_def
      verifier_request_query_voiceprint_def
      verifier_request_delete_voiceprint_def
      verifier_request_verify_def
      verifier_request_verify_from_buffer_def
      verifier_request_verify_rollback_def
      verifier_request_stop_def
      verifier_request_clear_buffer_def
      verifier_request_start_input_timers_def
      verifier_request_get_intermidiate_result_def
      verifier_dispatch_defs verifier_inv_def answered_dispatched method_not_valid_def)
qed

lemma verifier_response_ok:
  assumes inv: "verifier_inv s" and env: "verifier_env s m" and t: "msg_type m = MRCP_MESSAGE_TYPE_RESPONSE"
  shows "\<exists>b s'. verifier_state_update s m = Some (b, s') \<and> verifier_inv s' \<and> (\<exists>out. sm_out s' = sm_out s @ out)"
proof (cases "\<exists>req. sm_active_request s = Some req \<and> msg_request_id req = msg_request_id m
    \<and> msg_method_id m < VERIFIER_METHOD_COUNT")
  case False
  then show ?thesis using t inv
    by (auto simp: verifier_state_update_def verifier_response_state_update_def not_less split: option.split)
next
  case True
  then obtain req where req: "sm_active_request s = Some req" "msg_request_id req = msg_request_id m"
    and c: "msg_method_id m < VERIFIER_METHOD_COUNT" by blast
  have r: "msg_ready m" and meth: "msg_method_id req = msg_method_id m"
    using env t req by (simp_all add: verifier_env_def)
  have i: "msg_method_id m \<in> {0, 1, 2, 3, 4, 5, 6, 7, 8, 9, 10, 11, 12}"
    using c by (intro method_below_13) (simp add: VERIFIER_METHOD_COUNT_def)
  note upd = verifier_response_update[OF t c req]
  show ?thesis
  proof (cases "msg_method_id m = VERIFIER_STOP")
    case True
    then obtain x where x: "vs_verify s = Some x" using inv req meth by (auto simp: verifier_inv_def)
    obtain m1 where "response_id_report (msg_request_id x) m = Some m1"
      using id_report_ready[OF r, of "msg_request_id x"] by blast
    then show ?thesis
      using x True inv by (auto simp: upd verifier_response_method_array_def verifier_response_stop_def
          verifier_dispatch_defs verifier_inv_def)
  next
    case False
    then show ?thesis
      using i inv req meth
      by (auto simp: upd verifier_response_method_array_def
      verifier_response_set_params_def
      verifier_response_get_params_def
      verifier_response_start_session_def
      verifier_response_end_session_def
      verifier_response_query_voiceprint_def
      verifier_response_delete_voiceprint_def
      verifier_response_verify_def
      verifier_response_verify_from_buffer_def
      verifier_response_verify_rollback_def
      verifier_response_clear_buffer_def
      verifier_response_start_input_timers_def
      verifier_response_get_intermidiate_result_def
      verifier_dispatch_defs verifier_inv_def)
  qed
qed

lemma verifier_event_ok:
  assumes inv: "verifier_inv s" and env: "verifier_env s m" and t: "msg_type m = MRCP_MESSAGE_TYPE_EVENT"
  shows "\<exists>b s'. verifier_state_update s m = Some (b, s') \<and> verifier_inv s' \<and> (\<exists>out. sm_out s' = sm_out s @ out)"
proof -
  have r: "msg_ready m" using env t by (simp add: verifier_env_def)
  obtain m1 where m1: "verifier_default_cause m = Some m1" using verifier_default_cause_ready[OF r] by blast
  have upd: "verifier_state_update s m = verifier_event_state_update s m" using t by (simp add: verifier_state_update_def)
  consider "2 \<le> msg_method_id m" | "msg_method_id m = 0" | "msg_method_id m = 1" by linarith
  then show ?thesis
  proof cases
    case 1
    then show ?thesis using inv by (auto simp: upd verifier_event_state_update_def VERIFIER_EVENT_COUNT_def)
  next
    case 2
    then show ?thesis using inv
      by (auto simp: upd verifier_event_state_update_def VERIFIER_EVENT_COUNT_def verifier_event_method_array_def
          verifier_event_start_of_input_def verifier_event_dispatch_def verifier_inv_def split: option.split)
  next
    case 3
    then show ?thesis using inv m1
      by (auto simp: upd verifier_event_state_update_def VERIFIER_EVENT_COUNT_def verifier_event_method_array_def
          verifier_event_verification_complete_def verifier_dispatch_defs verifier_inv_def split: option.split)
  qed
qed

lemma verifier_update_ok:
  assumes "verifier_inv s" "verifier_env s m"
  shows "\<exists>b s'. verifier_state_update s m = Some (b, s') \<and> verifier_inv s' \<and> (\<exists>out. sm_out s' = sm_out s @ out)"
proof (cases "msg_type m")
  case MRCP_MESSAGE_TYPE_UNKNOWN
  then show ?thesis using assms by (auto simp: verifier_state_update_def)
next
  case MRCP_MESSAGE_TYPE_REQUEST
  show ?thesis
  proof (cases "msg_method_id m < VERIFIER_METHOD_COUNT")
    case True
    then show ?thesis using verifier_request_ok[OF assms(1) MRCP_MESSAGE_TYPE_REQUEST] by blast
  next
    case False
    then show ?thesis using assms MRCP_MESSAGE_TYPE_REQUEST
      by (auto simp: verifier_state_update_def verifier_request_state_update_def)
  qed
next
  case MRCP_MESSAGE_TYPE_RESPONSE
  then show ?thesis using verifier_response_ok[OF assms] by blast
next
  case MRCP_MESSAGE_TYPE_EVENT
  then show ?thesis using verifier_event_ok[OF assms] by blast
qed

lemma verifier_deactivate_ok:
  "verifier_inv s \<Longrightarrow> verifier_inv (snd (verifier_deactivate s))
    \<and> (\<exists>out. sm_out (snd (verifier_deactivate s)) = sm_out s @ out)"
  by (auto simp: verifier_deactivate_def verifier_state_deactivate_def verifier_request_dispatch_def verifier_inv_def
      split: option.split)

interpretation verifier: resource_sm verifier_state_update verifier_deactivate sm_out verifier_inv verifier_env verifier_known_request
proof unfold_locales
  fix s :: "'x verifier_sm" and m :: "'x verifier_message" and b s'
  assume inv: "verifier_inv s"
  show "verifier_inv (snd (verifier_deactivate s)) \<and> (\<exists>out. sm_out (snd (verifier_deactivate s)) = sm_out s @ out)"
    by (rule verifier_deactivate_ok[OF inv])
  assume env: "verifier_env s m"
  show "\<exists>b s'. verifier_state_update s m = Some (b, s') \<and> verifier_inv s' \<and> (\<exists>out. sm_out s' = sm_out s @ out)"
    by (rule verifier_update_ok[OF inv env])
  assume "verifier_known_request m" and u: "verifier_state_update s m = Some (b, s')"
  then show "length (sm_out s') = Suc (length (sm_out s))"
    using verifier_request_ok[OF inv, of m] by (auto simp: verifier_known_request_def)
qed

lemma verifier_create_inv: "verifier_inv (mrcp_verifier_state_machine_create d e vt)"
  by (simp add: verifier_inv_def mrcp_verifier_state_machine_create_def)

section \<open>Reachable states\<close>

inductive verifier_reach :: "'x verifier_sm \<Rightarrow> bool" where
  verifier_reach_create: "verifier_reach (mrcp_verifier_state_machine_create d e vt)"
| verifier_reach_update: "verifier_reach s \<Longrightarrow> verifier_env s m \<Longrightarrow> verifier_state_update s m = Some (b, s') \<Longrightarrow> verifier_reach s'"
| verifier_reach_deactivate: "verifier_reach s \<Longrightarrow> verifier_reach (snd (verifier_deactivate s))"

lemma verifier_reach_inv: "verifier_reach s \<Longrightarrow> verifier_inv s"
proof (induction rule: verifier_reach.induct)
  case (verifier_reach_update s m b s')
  then show ?case using verifier.update_safe[of s m] by auto
qed (auto simp: verifier_create_inv verifier.deactivate_safe)

section \<open>Properties\<close>

definition sample_verifier :: "verifier_state \<Rightarrow> (verifier_header mrcp_message) option
    \<Rightarrow> (verifier_header mrcp_message) option \<Rightarrow> unit verifier_sm" where
  "sample_verifier st act x =
     (mrcp_verifier_state_machine_create (\<lambda>_. True) True (plain_vtable \<lparr>verifier_completion_cause = 0\<rparr>))
       \<lparr>vs_state := st, sm_active_request := act, vs_verify := x\<rparr>"

lemma sample_verifier_simps [simp]:
  "vs_state (sample_verifier st act x) = st" "sm_active_request (sample_verifier st act x) = act"
  "vs_verify (sample_verifier st act x) = x"
  "sm_active (sample_verifier st act x)" "sm_out (sample_verifier st act x) = []"
  by (simp_all add: sample_verifier_def mrcp_verifier_state_machine_create_def)

abbreviation (input) "sample_verify \<equiv> \<lparr>verifier_completion_cause = 0\<rparr>"

text \<open>
  C23: A verifier never dereferences a null pointer, whatever requests, responses, events and
  deactivations arrive, and answers every known request while it is active: it is handed to the
  engine, or a response is sent at once.
\<close>

theorem verifier_no_fault:
  assumes "verifier_reach s" and "verifier_env s m"
  shows "\<exists>b s'. verifier_state_update s m = Some (b, s') \<and> verifier_reach s'
    \<and> (vs_state s' = VERIFIER_STATE_VERIFYING \<longrightarrow> vs_verify s' \<noteq> None)
    \<and> (verifier_known_request m \<and> sm_active s \<longrightarrow>
         (\<exists>out. sm_out s' = sm_out s @ [out] \<and> answered m (sm_active_request s') out))"
proof -
  obtain b s' where s': "verifier_state_update s m = Some (b, s')" "verifier_inv s'"
    using verifier.update_safe[OF verifier_reach_inv[OF assms(1)] assms(2)] by blast
  moreover have "verifier_reach s'" by (rule verifier_reach_update[OF assms s'(1)])
  ultimately show ?thesis
    using verifier_request_ok[OF verifier_reach_inv[OF assms(1)], of m]
    by (auto simp: verifier_inv_def verifier_known_request_def)
qed

lemma verifier_no_fault_witness:
  "\<exists>b s' out. verifier_state_update (mrcp_verifier_state_machine_create (\<lambda>_. True) True (plain_vtable sample_verify))
      (plain_request sample_verify VERIFIER_START_SESSION 1) = Some (b, s') \<and> sm_out s' = [out]"
  using verifier_no_fault[OF verifier_reach_create, of "\<lambda>_. True" True "plain_vtable sample_verify"
      "plain_request sample_verify VERIFIER_START_SESSION 1"]
  by (auto simp: verifier_env_def verifier_known_request_def VERIFIER_METHOD_COUNT_def mrcp_verifier_state_machine_create_def)

text \<open>
  A VERIFY request the engine refuses still takes the verifier to the verifying state: the
  response's status is not looked at, and every later VERIFY request is answered with status 402
  (method not valid).
\<close>

theorem verifier_refused_verifying:
  assumes "sm_active s" and "vs_state s = VERIFIER_STATE_OPENED"
    and "msg_type m = MRCP_MESSAGE_TYPE_REQUEST" and "msg_method_id m = VERIFIER_VERIFY"
    and "msg_type r = MRCP_MESSAGE_TYPE_RESPONSE" and "msg_method_id r = VERIFIER_VERIFY"
    and "msg_request_id r = msg_request_id m" and "msg_status_code r = MRCP_STATUS_CODE_METHOD_FAILED"
    and "msg_type m2 = MRCP_MESSAGE_TYPE_REQUEST" and "msg_method_id m2 = VERIFIER_VERIFY"
  shows "\<exists>b1 s1 b2 s2 b3 s3 rej. verifier_state_update s m = Some (b1, s1) \<and> sm_out s1 = sm_out s @ [Dispatched m]
    \<and> verifier_state_update s1 r = Some (b2, s2) \<and> sm_out s2 = sm_out s1 @ [Dispatched r]
    \<and> vs_state s2 = VERIFIER_STATE_VERIFYING
    \<and> verifier_state_update s2 m2 = Some (b3, s3) \<and> sm_out s3 = sm_out s2 @ [Dispatched rej]
    \<and> msg_request_id rej = msg_request_id m2 \<and> msg_status_code rej = MRCP_STATUS_CODE_METHOD_NOT_VALID"
proof -
  define s1 where "s1 = snd (verifier_request_dispatch (s\<lparr>vs_verify := Some m\<rparr>) m)"
  define s2 where "s2 = snd (verifier_response_dispatch (verifier_state_change s1 VERIFIER_STATE_VERIFYING) r)"
  define s3 where "s3 = snd (verifier_response_dispatch s2 (method_not_valid m2))"
  have a: "sm_active s1" "sm_active_request s1 = Some m" "sm_out s1 = sm_out s @ [Dispatched m]"
    using assms(1) by (simp_all add: s1_def verifier_dispatch_defs)
  have b: "sm_active s2" "vs_state s2 = VERIFIER_STATE_VERIFYING" "sm_out s2 = sm_out s1 @ [Dispatched r]"
    using a(1) by (simp_all add: s2_def verifier_dispatch_defs)
  have c: "sm_out s3 = sm_out s2 @ [Dispatched (method_not_valid m2)]"
    using b(1) by (simp add: s3_def verifier_dispatch_defs)
  have 1: "\<exists>b1. verifier_state_update s m = Some (b1, s1)"
    using assms(2,3,4) by (simp add: verifier_request_update VERIFIER_METHOD_COUNT_def
        verifier_request_method_array_def verifier_request_verify_def s1_def verifier_request_dispatch_def)
  have 2: "\<exists>b2. verifier_state_update s1 r = Some (b2, s2)"
    using assms(5,6,7) a(1,2) by (simp add: verifier_response_update VERIFIER_METHOD_COUNT_def
        verifier_response_method_array_def verifier_response_verify_def s2_def verifier_dispatch_defs)
  have 3: "\<exists>b3. verifier_state_update s2 m2 = Some (b3, s3)"
    using assms(9,10) b(1,2) by (simp add: verifier_request_update VERIFIER_METHOD_COUNT_def
        verifier_request_method_array_def verifier_request_verify_def s3_def verifier_response_dispatch_def Let_def)
  have "msg_request_id (method_not_valid m2) = msg_request_id m2"
    "msg_status_code (method_not_valid m2) = MRCP_STATUS_CODE_METHOD_NOT_VALID"
    by (simp_all add: method_not_valid_def)
  then show ?thesis using 1 2 3 a(3) b(2,3) c by blast
qed

lemma verifier_refused_verifying_witness:
  "\<exists>b1 s1 b2 s2. verifier_state_update (sample_verifier VERIFIER_STATE_OPENED None None)
        (plain_request sample_verify VERIFIER_VERIFY 1) = Some (b1, s1)
    \<and> verifier_state_update s1 (set_start_line (\<lambda>sl. sl\<lparr>sl_status_code := MRCP_STATUS_CODE_METHOD_FAILED\<rparr>)
        (plain_response sample_verify VERIFIER_VERIFY 1)) = Some (b2, s2)
    \<and> vs_state s2 = VERIFIER_STATE_VERIFYING"
  using verifier_refused_verifying[of "sample_verifier VERIFIER_STATE_OPENED None None"
      "plain_request sample_verify VERIFIER_VERIFY 1"
      "set_start_line (\<lambda>sl. sl\<lparr>sl_status_code := MRCP_STATUS_CODE_METHOD_FAILED\<rparr>) (plain_response sample_verify VERIFIER_VERIFY 1)"
      "plain_request sample_verify VERIFIER_VERIFY 2"]
  by simp blast

text \<open>
  The completion of a verification does not clear the request: a second VERIFICATION-COMPLETE
  event for it is sent to the client as well.
\<close>

theorem verifier_complete_twice:
  assumes "sm_active s" and "sm_active_request s = None"
    and "vs_verify s = Some x" and "msg_type e = MRCP_MESSAGE_TYPE_EVENT"
    and "msg_method_id e = VERIFIER_VERIFICATION_COMPLETE" and "msg_request_id e = msg_request_id x" and "msg_ready e"
  shows "\<exists>b1 s1 b2 s2 e'. verifier_state_update s e = Some (b1, s1) \<and> vs_state s1 = VERIFIER_STATE_OPENED
    \<and> sm_out s1 = sm_out s @ [Dispatched e'] \<and> msg_start_line e' = msg_start_line e
    \<and> verifier_state_update s1 e = Some (b2, s2) \<and> sm_out s2 = sm_out s1 @ [Dispatched e']"
proof -
  obtain e' where e': "verifier_default_cause e = Some e'" "msg_start_line e' = msg_start_line e"
    using verifier_default_cause_ready[OF assms(7)] by blast
  let ?d = "\<lambda>s. verifier_event_dispatch (verifier_state_change s VERIFIER_STATE_OPENED) e'"
  have upd: "verifier_state_update t e = Some (?d t)"
    if "vs_verify t = Some x" "sm_active_request t = None" for t
    using that assms(4,5,6) e'(1)
    by (simp add: verifier_state_update_def verifier_event_state_update_def VERIFIER_EVENT_COUNT_def
        verifier_event_method_array_def verifier_event_verification_complete_def)
  have d: "vs_verify (snd (?d t)) = vs_verify t" "sm_active_request (snd (?d t)) = sm_active_request t"
    "sm_active (snd (?d t)) = sm_active t" "vs_state (snd (?d t)) = VERIFIER_STATE_OPENED"
    "sm_active t \<Longrightarrow> sm_out (snd (?d t)) = sm_out t @ [Dispatched e']" for t
    by (simp_all add: verifier_dispatch_defs)
  show ?thesis
    using upd[of s] upd[of "snd (?d s)"] assms(1-3) e'(2) d by (metis prod.collapse)
qed

lemma verifier_complete_twice_witness:
  "\<exists>b1 s1 b2 s2 e'. verifier_state_update (sample_verifier VERIFIER_STATE_VERIFYING None
        (Some (plain_request sample_verify VERIFIER_VERIFY 1))) (plain_event sample_verify VERIFIER_VERIFICATION_COMPLETE 1) = Some (b1, s1)
    \<and> verifier_state_update s1 (plain_event sample_verify VERIFIER_VERIFICATION_COMPLETE 1) = Some (b2, s2)
    \<and> sm_out s2 = [Dispatched e', Dispatched e']"
  using verifier_complete_twice[of "sample_verifier VERIFIER_STATE_VERIFYING None
        (Some (plain_request sample_verify VERIFIER_VERIFY 1))" "plain_request sample_verify VERIFIER_VERIFY 1"
      "plain_event sample_verify VERIFIER_VERIFICATION_COMPLETE 1"]
  by auto

end
