(* ===== verification/Text_Message.thy ===== *)
theory Text_Message
  imports Header_Section
begin

text \<open>
  \<open>libs/apr-toolkit/src/apt_text_message.c\<close>: header fields and sections as text, and the
  parser and generator that drive the handlers of a protocol over a stream that arrives in
  segments. Both protocols the code has, MRCP and RTSP, run through it.
\<close>

section \<open>Header fields and sections\<close>

text \<open>The continuation lines of a value: lines that start with white space.\<close>

lemma line_read_rest:
  "apt_text_line_read s = (ok, line, s') \<Longrightarrow> length (ts_rest s') \<le> length (ts_rest s)"
  by (cases ok) (auto simp: apt_text_line_read_def split: prod.splits option.splits dest!: line_read_advance)

lemma white_spaces_skip_rest [simp]:
  "ts_rest (apt_text_white_spaces_skip s) = dropWhile apt_text_is_wsp (ts_rest s)"
  by (simp add: apt_text_white_spaces_skip_def dropWhile_eq_drop)

function folded_lines_read :: "text_stream \<Rightarrow> string \<Rightarrow> string \<times> text_stream" where
  "folded_lines_read s acc =
     (case ts_rest s of
        [] \<Rightarrow> (acc, s)
      | c # _ \<Rightarrow>
          if \<not> apt_text_is_wsp c then (acc, s)
          else (let (ok, line, s2) = apt_text_line_read (apt_text_white_spaces_skip (ts_advance 1 s))
                in folded_lines_read s2 (if ok then acc @ line else acc)))"
  by auto
termination
proof (relation "measure (\<lambda>(s, acc). length (ts_rest s))")
  fix s :: text_stream and c cs p ok q line s2
  assume "ts_rest s = c # cs" and "p = apt_text_line_read (apt_text_white_spaces_skip (ts_advance 1 s))"
    and "(ok, q) = p" and "(line, s2) = q"
  then have "length (ts_rest s2) \<le> length (dropWhile apt_text_is_wsp cs)"
    using line_read_rest[of "apt_text_white_spaces_skip (ts_advance 1 s)" ok line s2] by simp
  also have "\<dots> \<le> length cs" by (rule length_dropWhile_le)
  finally show "((s2, if ok then acc @ line else acc), s, acc) \<in> measure (\<lambda>(s, acc). length (ts_rest s))" for acc
    using \<open>ts_rest s = c # cs\<close> by simp
qed simp

declare folded_lines_read.simps [simp del]

definition apt_header_field_parse :: "text_stream \<Rightarrow> header_field option \<times> text_stream" where
  "apt_header_field_parse s =
     (let (ok, pair, s1) = apt_text_header_read s in
      if \<not> ok then (None, s1)
      else let (folded, s2) = (if pair_name pair \<noteq> [] then folded_lines_read s1 [] else ([], s1))
           in (Some \<lparr>hf_name = pair_name pair, hf_value = pair_value pair @ folded,
                     hf_id = UNKNOWN_HEADER_FIELD_ID\<rparr>, s2))"

definition apt_header_field_generate :: "header_field \<Rightarrow> out_stream \<Rightarrow> bool \<times> out_stream" where
  "apt_header_field_generate f s = apt_text_name_value_insert s (hf_name f) (hf_value f)"

text \<open>The parser reads on until the empty line or the end of the stream.\<close>

lemma header_read_rest:
  "apt_text_header_read s = (ok, pair, s') \<Longrightarrow>
    length (ts_rest s') < length (ts_rest s) \<or> \<not> ok \<and> s' = s\<lparr>ts_eos := True\<rparr>"
  by (auto simp: apt_text_header_read_def split: prod.splits option.splits dest!: header_scan_advance)

lemma folded_lines_rest:
  "folded_lines_read s acc = (v, s') \<Longrightarrow> length (ts_rest s') \<le> length (ts_rest s)"
proof (induction s acc rule: folded_lines_read.induct)
  case (1 s acc)
  show ?case
  proof (cases "ts_rest s")
    case Nil
    with "1.prems" show ?thesis by (subst (asm) folded_lines_read.simps) simp
  next
    case (Cons c cs)
    show ?thesis
    proof (cases "apt_text_is_wsp c")
      case False
      with Cons "1.prems" show ?thesis by (subst (asm) folded_lines_read.simps) simp
    next
      case True
      obtain ok line s2 where r: "apt_text_line_read (apt_text_white_spaces_skip (ts_advance 1 s)) = (ok, line, s2)"
        by (cases "apt_text_line_read (apt_text_white_spaces_skip (ts_advance 1 s))") auto
      have "folded_lines_read s2 (if ok then acc @ line else acc) = (v, s')"
        using "1.prems" Cons True r by (subst (asm) folded_lines_read.simps) simp
      then have "length (ts_rest s') \<le> length (ts_rest s2)"
        using "1.IH"[OF Cons _ r[symmetric] refl refl] True by simp
      also have "\<dots> \<le> length (dropWhile apt_text_is_wsp cs)"
        using line_read_rest[OF r] Cons by simp
      also have "\<dots> \<le> length cs" by (rule length_dropWhile_le)
      finally show ?thesis using Cons by simp
    qed
  qed
qed

lemma header_field_parse_rest:
  assumes "apt_header_field_parse s = (r, s')"
  shows "length (ts_rest s') < length (ts_rest s) \<or> r = None \<and> s' = s\<lparr>ts_eos := True\<rparr>"
proof -
  obtain ok pair s1 where rd: "apt_text_header_read s = (ok, pair, s1)"
    by (cases "apt_text_header_read s") auto
  show ?thesis
    using assms header_read_rest[OF rd] folded_lines_rest[of s1 "[]"]
    by (auto simp: apt_header_field_parse_def rd split: if_splits prod.splits)
qed

function apt_header_section_parse ::
  "header_section \<Rightarrow> text_stream \<Rightarrow> bool \<times> header_section \<times> text_stream" where
  "apt_header_section_parse h s =
     (case apt_header_field_parse s of
        (Some f, s1) \<Rightarrow>
          if hf_name f \<noteq> [] then
            (let h1 = snd (apt_header_section_field_add h f)
             in if apt_text_is_eos s1 then (False, h1, s1) else apt_header_section_parse h1 s1)
          else (True, h, s1)
      | (None, s1) \<Rightarrow> if apt_text_is_eos s1 then (False, h, s1) else apt_header_section_parse h s1)"
  by auto
termination
  by (relation "measure (\<lambda>(h, s). length (ts_rest s))")
    (auto simp: apt_text_is_eos_def dest!: header_field_parse_rest[OF sym])

declare apt_header_section_parse.simps [simp del]

text \<open>The results of the fields are not looked at.\<close>

definition apt_header_section_generate :: "header_section \<Rightarrow> out_stream \<Rightarrow> bool \<times> out_stream" where
  "apt_header_section_generate h s =
     apt_text_eol_insert (fold (\<lambda>f s. snd (apt_header_field_generate f s)) (section_fields h) s)"

section \<open>The parser\<close>

datatype apt_message_status = APT_MESSAGE_STATUS_COMPLETE | APT_MESSAGE_STATUS_INCOMPLETE | APT_MESSAGE_STATUS_INVALID

datatype apt_message_stage = APT_MESSAGE_STAGE_START_LINE | APT_MESSAGE_STAGE_HEADER | APT_MESSAGE_STAGE_BODY

text \<open>
  The handlers of a protocol, and where a message has its header section and its body: the
  \<open>header\<close> and \<open>body\<close> pointers of the context point into the message. \<open>on_start\<close> returns the
  message it has created; \<open>on_header_complete\<close> sets \<open>body->length\<close> to the number of bytes
  expected, the third result. Both vtables of the code have these two and no
  \<open>on_body_complete\<close>.
\<close>

record ('o, 'm) message_parser_vtable =
  pv_on_start :: "'o \<Rightarrow> text_stream \<Rightarrow> 'm option \<times> text_stream"
  pv_on_header_complete :: "'o \<Rightarrow> 'm \<Rightarrow> bool \<times> 'm \<times> nat"
  pv_header :: "'m \<Rightarrow> header_section"
  pv_header_set :: "header_section \<Rightarrow> 'm \<Rightarrow> 'm"
  pv_body :: "'m \<Rightarrow> string"
  pv_body_set :: "string \<Rightarrow> 'm \<Rightarrow> 'm"

text \<open>The bytes of the body read so far are the body of the message.\<close>

record ('o, 'm) message_parser =
  mp_vtable :: "('o, 'm) message_parser_vtable"
  mp_obj :: 'o
  mp_message :: "'m option"
  mp_content_length :: nat
  mp_stage :: apt_message_stage
  mp_skip_lf :: bool

definition apt_message_parser_create :: "'o \<Rightarrow> ('o, 'm) message_parser_vtable \<Rightarrow> ('o, 'm) message_parser" where
  "apt_message_parser_create obj vtable =
     \<lparr>mp_vtable = vtable, mp_obj = obj, mp_message = None, mp_content_length = 0,
      mp_stage = APT_MESSAGE_STAGE_START_LINE, mp_skip_lf = False\<rparr>"

text \<open>The test reads the byte before the position: a fault when there is none.\<close>

definition apt_crlf_segmentation_test ::
  "('o, 'm) message_parser \<Rightarrow> text_stream \<Rightarrow> ('o, 'm) message_parser option" where
  "apt_crlf_segmentation_test p s =
     (if ts_rest s = [] then
        if ts_done s = [] then None
        else Some (if last (ts_done s) = cr then p\<lparr>mp_skip_lf := True\<rparr> else p)
      else Some p)"

definition apt_message_body_read ::
  "('o, 'm) message_parser \<Rightarrow> 'm \<Rightarrow> text_stream \<Rightarrow> bool \<times> 'm \<times> text_stream" where
  "apt_message_body_read p m s =
     (let body = pv_body (mp_vtable p) m;
          stream_length = length (ts_rest s);
          required_length = size_t (int (mp_content_length p) - int (length body));
          n = (if stream_length < required_length then stream_length else required_length)
      in (\<not> stream_length < required_length,
          pv_body_set (mp_vtable p) (body @ take n (ts_rest s)) m, ts_advance n s))"

text \<open>
  One call of \<open>apt_message_parser_run\<close>. Each stage goes on to the next or leaves the loop, so
  the loop never comes round. A null context, and a body buffer of \<open>content_length + 1 = 0\<close>
  bytes that is terminated at \<open>content_length\<close>, are faults.
\<close>

type_synonym ('o, 'm) parser_result =
  "(apt_message_status \<times> 'm option \<times> ('o, 'm) message_parser \<times> text_stream) option"

definition parser_run_body :: "('o, 'm) message_parser \<Rightarrow> text_stream \<Rightarrow> ('o, 'm) parser_result" where
  "parser_run_body p s = do {
     m \<leftarrow> mp_message p;
     let (ok, m1, s1) = apt_message_body_read p m s;
     let p1 = p\<lparr>mp_message := Some m1\<rparr>;
     if \<not> ok then Some (APT_MESSAGE_STATUS_INCOMPLETE, None, p1, s1)
     else Some (APT_MESSAGE_STATUS_COMPLETE, Some m1, p1\<lparr>mp_stage := APT_MESSAGE_STAGE_START_LINE\<rparr>, s1)
   }"

definition parser_run_header :: "('o, 'm) message_parser \<Rightarrow> text_stream \<Rightarrow> ('o, 'm) parser_result" where
  "parser_run_header p s = do {
     m \<leftarrow> mp_message p;
     let (res, h, s1) = apt_header_section_parse (pv_header (mp_vtable p) m) s;
     let m1 = pv_header_set (mp_vtable p) h m;
     p1 \<leftarrow> apt_crlf_segmentation_test (p\<lparr>mp_message := Some m1\<rparr>) s1;
     if \<not> res then Some (APT_MESSAGE_STATUS_INCOMPLETE, None, p1, s1)
     else do {
       let (ok, m2, body_length) = pv_on_header_complete (mp_vtable p) (mp_obj p) m1;
       let p2 = p1\<lparr>mp_message := Some m2\<rparr>;
       if \<not> ok then Some (APT_MESSAGE_STATUS_INVALID, None, p2, s1)
       else if body_length \<noteq> 0 then
         if wrap64 (body_length + 1) = 0 then None
         else parser_run_body (p2\<lparr>mp_content_length := body_length,
             mp_message := Some (pv_body_set (mp_vtable p) [] m2), mp_stage := APT_MESSAGE_STAGE_BODY\<rparr>) s1
       else Some (APT_MESSAGE_STATUS_COMPLETE, Some m2, p2\<lparr>mp_stage := APT_MESSAGE_STAGE_START_LINE\<rparr>, s1)
     }
   }"

definition parser_run_start :: "('o, 'm) message_parser \<Rightarrow> text_stream \<Rightarrow> ('o, 'm) parser_result" where
  "parser_run_start p s =
     (case pv_on_start (mp_vtable p) (mp_obj p) s of
        (None, s1) \<Rightarrow>
          Some (if apt_text_is_eos s1 then APT_MESSAGE_STATUS_INCOMPLETE else APT_MESSAGE_STATUS_INVALID, None, p, s1)
      | (Some m, s1) \<Rightarrow> do {
          p1 \<leftarrow> apt_crlf_segmentation_test (p\<lparr>mp_message := Some m\<rparr>) s1;
          parser_run_header (p1\<lparr>mp_stage := APT_MESSAGE_STAGE_HEADER\<rparr>) s1
        })"

definition apt_message_parser_run :: "('o, 'm) message_parser \<Rightarrow> text_stream \<Rightarrow> ('o, 'm) parser_result" where
  "apt_message_parser_run p s =
     (let (p0, s0) = (if mp_skip_lf p then (p\<lparr>mp_skip_lf := False\<rparr>, apt_text_char_skip s lf) else (p, s))
      in case mp_stage p0 of
           APT_MESSAGE_STAGE_START_LINE \<Rightarrow> parser_run_start p0 s0
         | APT_MESSAGE_STAGE_HEADER \<Rightarrow> parser_run_header p0 s0
         | APT_MESSAGE_STAGE_BODY \<Rightarrow> parser_run_body p0 s0)"

definition apt_message_parser_object_get :: "('o, 'm) message_parser \<Rightarrow> 'o" where
  "apt_message_parser_object_get p = mp_obj p"

section \<open>The generator\<close>

text \<open>
  \<open>on_start\<close> sets the header and the body of the context whenever it succeeds. A write outside
  the buffer is a fault. What \<open>on_header_complete\<close> returns is not looked at.
\<close>

record 'm message_generator_vtable =
  gv_on_start :: "'m \<Rightarrow> out_stream \<Rightarrow> (bool \<times> 'm \<times> out_stream) option"
  gv_on_header_complete :: "('m \<Rightarrow> out_stream \<Rightarrow> bool \<times> 'm \<times> out_stream) option"
  gv_header :: "'m \<Rightarrow> header_section"
  gv_body :: "'m \<Rightarrow> string"
  gv_body_set :: "string \<Rightarrow> 'm \<Rightarrow> 'm"

text \<open>
  The message of the context is known by its address. While a body is written its length
  member counts the bytes written, so the message has the part that was written as its body;
  \<open>mg_buffer\<close> is what the buffer of the body holds.
\<close>

record 'm message_generator =
  mg_vtable :: "'m message_generator_vtable"
  mg_message :: "nat option"
  mg_buffer :: string
  mg_content_length :: nat
  mg_stage :: apt_message_stage

definition apt_message_generator_create :: "'m message_generator_vtable \<Rightarrow> 'm message_generator" where
  "apt_message_generator_create vtable =
     \<lparr>mg_vtable = vtable, mg_message = None, mg_buffer = [], mg_content_length = 0,
      mg_stage = APT_MESSAGE_STAGE_START_LINE\<rparr>"

definition os_eos :: "out_stream \<Rightarrow> bool" where
  "os_eos s \<longleftrightarrow> os_size s \<le> length (os_text s)"

definition apt_message_generator_break :: "out_stream \<Rightarrow> apt_message_status" where
  "apt_message_generator_break s =
     (if os_eos s then APT_MESSAGE_STATUS_INCOMPLETE else APT_MESSAGE_STATUS_INVALID)"

definition apt_message_body_write ::
  "'m message_generator \<Rightarrow> 'm \<Rightarrow> out_stream \<Rightarrow> bool \<times> 'm \<times> out_stream" where
  "apt_message_body_write g m s =
     (let written = length (gv_body (mg_vtable g) m) in
      if written < mg_content_length g then
        (let stream_length = os_size s - length (os_text s);
             required_length = mg_content_length g - written;
             n = (if stream_length < required_length then stream_length else required_length)
         in (\<not> stream_length < required_length,
             gv_body_set (mg_vtable g) (take (written + n) (mg_buffer g)) m,
             os_write (take n (drop written (mg_buffer g))) s))
      else (True, m, s))"

type_synonym 'm generator_result =
  "(apt_message_status \<times> 'm \<times> 'm message_generator \<times> out_stream) option"

definition generator_run_body :: "'m message_generator \<Rightarrow> 'm \<Rightarrow> out_stream \<Rightarrow> 'm generator_result" where
  "generator_run_body g m s =
     (if mg_stage g = APT_MESSAGE_STAGE_BODY then
        (let (ok, m1, s1) = apt_message_body_write g m s in
         if \<not> ok then Some (apt_message_generator_break s1, m1, g, s1)
         else Some (APT_MESSAGE_STATUS_COMPLETE, m1, g\<lparr>mg_stage := APT_MESSAGE_STAGE_START_LINE\<rparr>, s1))
      else Some (APT_MESSAGE_STATUS_COMPLETE, m, g, s))"

definition generator_run_start :: "'m message_generator \<Rightarrow> 'm \<Rightarrow> out_stream \<Rightarrow> 'm generator_result" where
  "generator_run_start g m s = do {
     (ok, m1, s1) \<leftarrow> gv_on_start (mg_vtable g) m s;
     if \<not> ok then Some (apt_message_generator_break s1, m1, g, s1)
     else do {
       let (ok2, s2) = apt_header_section_generate (gv_header (mg_vtable g) m1) s1;
       if \<not> ok2 then Some (apt_message_generator_break s2, m1, g, s2)
       else do {
         let (m2, s3) = (case gv_on_header_complete (mg_vtable g) of
            None \<Rightarrow> (m1, s2)
          | Some f \<Rightarrow> (let (_, m2, s3) = f m1 s2 in (m2, s3)));
         let body = gv_body (mg_vtable g) m2;
         let g1 = g\<lparr>mg_stage := APT_MESSAGE_STAGE_START_LINE, mg_content_length := length body\<rparr>;
         if body \<noteq> [] then
           generator_run_body (g1\<lparr>mg_buffer := body, mg_stage := APT_MESSAGE_STAGE_BODY\<rparr>)
             (gv_body_set (mg_vtable g) [] m2) s3
         else generator_run_body g1 m2 s3
       }
     }
   }"

text \<open>A message is an address and a value; \<open>None\<close> is the null pointer.\<close>

definition apt_message_generator_run ::
  "'m message_generator \<Rightarrow> nat option \<Rightarrow> 'm \<Rightarrow> out_stream \<Rightarrow> 'm generator_result" where
  "apt_message_generator_run g a m s =
     (if a = None then Some (APT_MESSAGE_STATUS_INVALID, m, g, s)
      else (let g1 = (if a \<noteq> mg_message g
                      then g\<lparr>mg_stage := APT_MESSAGE_STAGE_START_LINE, mg_message := a\<rparr> else g)
            in if mg_stage g1 = APT_MESSAGE_STAGE_START_LINE then generator_run_start g1 m s
               else generator_run_body g1 m s))"

section \<open>The text of a header section\<close>

definition field_ok :: "header_field \<Rightarrow> bool" where
  "field_ok f \<longleftrightarrow> header_name_ok (hf_name f) \<and> no_eol (hf_value f)
     \<and> (hf_value f = [] \<or> \<not> apt_text_is_wsp (hd (hf_value f)))"

definition field_line :: "header_field \<Rightarrow> string" where
  "field_line f = hf_name f @ [CHR '':'', sp] @ hf_value f"

definition fields_text :: "header_field list \<Rightarrow> string" where
  "fields_text fs = concat (map (\<lambda>f. field_line f @ [cr, lf]) fs) @ [cr, lf]"

lemma fields_text_simps [simp]:
  "fields_text [] = [cr, lf]"
  "fields_text (f # fs) = field_line f @ cr # lf # fields_text fs"
  by (simp_all add: fields_text_def)

text \<open>Fields read from a stream have no identifier yet.\<close>

definition raw_field :: "header_field \<Rightarrow> header_field" where
  "raw_field f = f\<lparr>hf_id := UNKNOWN_HEADER_FIELD_ID\<rparr>"

definition field_pair :: "header_field \<Rightarrow> string \<times> string" where
  "field_pair f = (hf_name f, hf_value f)"

lemma field_pair_raw [simp]: "field_pair (raw_field f) = field_pair f"
  by (simp add: field_pair_def raw_field_def)

definition fields_added :: "header_field list \<Rightarrow> header_section \<Rightarrow> header_section" where
  "fields_added fs h = fold (\<lambda>f h. snd (apt_header_section_field_add h (raw_field f))) fs h"

lemma fields_added_simps [simp]:
  "fields_added [] h = h"
  "fields_added (f # fs) h = fields_added fs (snd (apt_header_section_field_add h (raw_field f)))"
  by (simp_all add: fields_added_def)

lemma fields_added_append: "fields_added (fs @ gs) h = fields_added gs (fields_added fs h)"
  by (simp add: fields_added_def)

lemma fields_added_section:
  assumes "length (sec_arr h) \<le> UNKNOWN_HEADER_FIELD_ID"
  shows "section_fields (fields_added fs h) = section_fields h @ map raw_field fs"
    and "sec_arr (fields_added fs h) = sec_arr h"
  using assms by (induction fs arbitrary: h)
    (auto simp: apt_header_section_field_add_def ring_insert_tail_def section_fields_def raw_field_def)

lemma field_line_no_eol: "field_ok f \<Longrightarrow> no_eol (field_line f)"
  by (simp add: field_ok_def field_line_def header_name_ok_def)

lemma field_line_start:
  assumes "field_ok f"
  shows "field_line f \<noteq> []" "\<not> apt_text_is_wsp (hd (field_line f))"
  using assms by (cases "hf_name f"; simp add: field_ok_def field_line_def header_name_ok_def)+

text \<open>Generation: with room for it, the text of the section.\<close>

lemma fields_generate_text:
  assumes "length (os_text s) + length (concat (map (\<lambda>f. field_line f @ [cr, lf]) fs)) < os_size s"
  shows "fold (\<lambda>f s. snd (apt_header_field_generate f s)) fs s
    = os_write (concat (map (\<lambda>f. field_line f @ [cr, lf]) fs)) s"
  using assms
proof (induction fs arbitrary: s)
  case Nil
  then show ?case by (simp add: os_write_def)
next
  case (Cons f fs)
  have "apt_header_field_generate f s = (True, os_write (field_line f @ [cr, lf]) s)"
    using name_value_insert_text[of s "hf_name f" "hf_value f"] Cons.prems
    by (simp add: apt_header_field_generate_def field_line_def)
  then show ?case using Cons by simp
qed

lemma section_generate_text:
  assumes "length (os_text s) + length (fields_text (section_fields h)) < os_size s"
  shows "apt_header_section_generate h s = (True, os_write (fields_text (section_fields h)) s)"
  using assms fields_generate_text[of s "section_fields h"]
  by (simp add: apt_header_section_generate_def apt_text_eol_insert_def fields_text_def)

text \<open>Parsing one line, in full, up to its carriage return, and in part.\<close>

lemma field_value_start: "field_ok f \<Longrightarrow> dropWhile apt_text_is_wsp (sp # hf_value f) = hf_value f"
  by (cases "hf_value f") (auto simp: field_ok_def)

lemma header_read_line:
  assumes "field_ok f" "ts_rest s = field_line f @ cr # lf # rest"
  shows "apt_text_header_read s = (True, \<lparr>pair_name = hf_name f, pair_value = hf_value f\<rparr>,
    ts_advance (length (field_line f) + 2) s)"
  using header_read_field[of "hf_name f" "sp # hf_value f" s rest] assms field_value_start[OF assms(1)]
  by (simp add: field_ok_def field_line_def)

lemma header_read_line_cr:
  assumes f: "field_ok f" and s: "ts_rest s = field_line f @ [cr]"
  shows "apt_text_header_read s = (True, \<lparr>pair_name = hf_name f, pair_value = hf_value f\<rparr>,
    ts_advance (length (field_line f) + 1) s)"
proof -
  let ?n = "hf_name f" and ?v = "sp # hf_value f"
  have n: "header_name_ok ?n" and v: "no_eol ?v" using f by (auto simp: field_ok_def)
  have "header_scan (ts_rest s) 0 \<lparr>hs_nb = None, hs_nl = 0, hs_vb = None\<rparr>
    = header_scan (?v @ [cr]) (length ?n + 1) \<lparr>hs_nb = Some ?n, hs_nl = length ?n, hs_vb = None\<rparr>"
    using header_scan_name_start[of ?n "?v @ [cr]" 0] n by (simp add: s field_line_def header_name_ok_def)
  also have "\<dots> = (\<lparr>hs_nb = Some ?n, hs_nl = length ?n,
       hs_vb = (case dropWhile apt_text_is_wsp ?v of [] \<Rightarrow> None | w \<Rightarrow> Some w)\<rparr>, Some (length ?n + length ?v + 2))"
    using header_scan_value_start[OF v, of "length ?n" "[cr]" "length ?n + 1" ?n] n
    by (simp add: header_name_ok_def)
  finally show ?thesis using n unfolding field_value_start[OF f]
    by (cases "hf_value f") (simp_all add: apt_text_header_read_def header_scan_name_def header_scan_value_def
        header_name_ok_def field_line_def)
qed

lemma header_scan_no_eol: "no_eol cs \<Longrightarrow> snd (header_scan cs k h) = None"
  by (induction cs arbitrary: k h) auto

lemma header_read_partial:
  assumes "no_eol (ts_rest s)"
  shows "\<exists>pair. apt_text_header_read s = (False, pair, s\<lparr>ts_eos := True\<rparr>)"
  using header_scan_no_eol[OF assms, of 0 "\<lparr>hs_nb = None, hs_nl = 0, hs_vb = None\<rparr>"]
  by (cases "header_scan (ts_rest s) 0 \<lparr>hs_nb = None, hs_nl = 0, hs_vb = None\<rparr>")
    (simp add: apt_text_header_read_def)

lemma folded_none:
  "ts_rest s = [] \<or> \<not> apt_text_is_wsp (hd (ts_rest s)) \<Longrightarrow> folded_lines_read s acc = (acc, s)"
  by (subst folded_lines_read.simps) (auto split: list.splits)

lemma field_parse_line:
  assumes "field_ok f" "ts_rest s = field_line f @ cr # lf # rest" "rest = [] \<or> \<not> apt_text_is_wsp (hd rest)"
  shows "apt_header_field_parse s = (Some (raw_field f), ts_advance (length (field_line f) + 2) s)"
  using assms folded_none[of "ts_advance (length (field_line f) + 2) s" "[]"]
  by (simp add: apt_header_field_parse_def header_read_line raw_field_def field_ok_def header_name_ok_def)

lemma field_parse_line_cr:
  assumes "field_ok f" "ts_rest s = field_line f @ [cr]"
  shows "apt_header_field_parse s = (Some (raw_field f), ts_advance (length (field_line f) + 1) s)"
  using assms folded_none[of "ts_advance (length (field_line f) + 1) s" "[]"]
  by (simp add: apt_header_field_parse_def header_read_line_cr raw_field_def field_ok_def header_name_ok_def)

lemma field_parse_partial:
  "no_eol (ts_rest s) \<Longrightarrow> apt_header_field_parse s = (None, s\<lparr>ts_eos := True\<rparr>)"
  using header_read_partial[of s] by (auto simp: apt_header_field_parse_def)

lemma field_parse_end:
  assumes "ts_rest s = cr # rest" "rest = [] \<or> hd rest = lf"
  shows "apt_header_field_parse s = (Some \<lparr>hf_name = [], hf_value = [], hf_id = UNKNOWN_HEADER_FIELD_ID\<rparr>,
    ts_advance (if rest = [] then 1 else 2) s)"
  using assms by (cases rest) (simp_all add: apt_header_field_parse_def apt_text_header_read_def
      header_scan_name_def header_scan_value_def)

section \<open>Parsing a section that arrives in parts\<close>

lemma split_prefix:
  assumes "x @ y = a @ b"
  obtains (short) z where "a = x @ z" "y = z @ b" "z \<noteq> []" | (long) z where "x = a @ z" "z @ y = b"
proof -
  from assms obtain us where "x = a @ us \<and> us @ y = b \<or> x @ us = a \<and> y = us @ b"
    by (auto simp: append_eq_append_conv2)
  then show ?thesis using short[of us] long[of us] long[of "[]"] by (cases "us = []") auto
qed

lemma no_eol_prefix: "no_eol (x @ y) \<Longrightarrow> no_eol x"
  by simp

lemma fields_text_hd: "list_all field_ok fs \<Longrightarrow> \<not> apt_text_is_wsp (hd (fields_text fs @ z))"
  using field_line_start by (cases fs) (auto simp: apt_text_is_wsp_def cr_def sp_def htab_def hd_append)

lemma fields_text_start:
  "list_all field_ok fs \<Longrightarrow> x @ y = fields_text fs \<Longrightarrow> x = [] \<or> \<not> apt_text_is_wsp (hd x)"
  using fields_text_hd[of fs "[]"] by (metis append_Nil2 hd_append2)

text \<open>
  The outcome of reading a part \<open>x\<close> of a section when \<open>y\<close> is still to come: \<open>fa\<close> are the
  fields read, \<open>c\<close> the bytes consumed and \<open>u\<close> those left for the next call.
\<close>

lemma section_parse_part:
  assumes "list_all field_ok fs" "x @ y = fields_text fs" "y \<noteq> []" "ts_rest s = x" "\<not> ts_eos s"
  shows "\<exists>fa fb c u eos. fs = fa @ fb \<and> x = c @ u \<and>
    (let s' = \<lparr>ts_done = ts_done s @ c, ts_rest = u, ts_eos = eos\<rparr> in
      (apt_header_section_parse h s = (False, fields_added fa h, s') \<and> apt_text_is_eos s'
         \<and> u @ y = fields_text fb \<and> (c = [] \<or> last c = lf)) \<or>
      (apt_header_section_parse h s = (False, fields_added fa h, s')
         \<and> u = [] \<and> c \<noteq> [] \<and> last c = cr \<and> y = lf # fields_text fb) \<or>
      (apt_header_section_parse h s = (True, fields_added fs h, s')
         \<and> u = [] \<and> c \<noteq> [] \<and> last c = cr \<and> y = [lf] \<and> \<not> eos))"
  using assms
proof (induction fs arbitrary: x s h)
  case Nil
  show ?case
  proof (cases x)
    case Nil
    then have "apt_header_section_parse h s = (False, h, s\<lparr>ts_eos := True\<rparr>)"
      using Nil.prems field_parse_partial[of s]
      by (subst apt_header_section_parse.simps) (simp add: apt_text_is_eos_def)
    then show ?thesis using Nil Nil.prems
      by (intro exI[of _ "[]"] exI[of _ "True"]) (simp add: apt_text_is_eos_def)
  next
    case (Cons a x')
    then have x: "x = [cr]" "y = [lf]" using Nil.prems by (auto simp: append_eq_Cons_conv)
    then have "apt_header_section_parse h s = (True, h, ts_advance 1 s)"
      using Nil.prems field_parse_end[of s "[]"] by (subst apt_header_section_parse.simps) simp
    then show ?thesis using x Nil.prems
      by (intro exI[of _ "[]"] exI[of _ x] exI[of _ False]) (simp add: ts_advance_def)
  qed
next
  case (Cons f fs)
  have f: "field_ok f" and fs: "list_all field_ok fs" using Cons.prems by auto
  let ?L = "field_line f"
  let ?h = "snd (apt_header_section_field_add h (raw_field f))"
  have name: "hf_name (raw_field f) \<noteq> []" using f by (simp add: raw_field_def field_ok_def header_name_ok_def)
  have xy: "x @ y = (?L @ [cr, lf]) @ fields_text fs" using Cons.prems by simp
  from xy show ?case
  proof (cases rule: split_prefix)
    case (long x')
    let ?s = "ts_advance (length ?L + 2) s"
    have r: "ts_rest s = ?L @ cr # lf # x'" using long Cons.prems by simp
    have "apt_header_field_parse s = (Some (raw_field f), ?s)"
      using field_parse_line[OF f r] fields_text_start[OF fs long(2)] by simp
    then have p: "apt_header_section_parse h s =
        (if x' = [] then (False, ?h, ?s) else apt_header_section_parse ?h ?s)"
      using name r Cons.prems(5) by (subst apt_header_section_parse.simps) (simp add: apt_text_is_eos_def Let_def)
    show ?thesis
    proof (cases "x' = []")
      case True
      with p r long Cons.prems show ?thesis
        by (intro exI[of _ "[f]"] exI[of _ fs] exI[of _ "?L @ [cr, lf]"] exI[of _ "[]"] exI[of _ False])
          (simp add: apt_text_is_eos_def ts_advance_def)
    next
      case False
      have "ts_rest ?s = x'" "\<not> ts_eos ?s" "ts_done ?s = ts_done s @ ?L @ [cr, lf]" using r Cons.prems by simp_all
      from Cons.IH[OF fs long(2) Cons.prems(3) this(1,2), of ?h] this(3) p False long
      show ?thesis
        apply (elim exE)
        subgoal for fa fb c u eos
          by (rule exI[of _ "f # fa"], rule exI[of _ fb], rule exI[of _ "?L @ [cr, lf] @ c"], rule exI[of _ u],
              rule exI[of _ eos]) (auto simp: Let_def)
        done
    qed
  next
    case (short z)
    show ?thesis
    proof (cases "length x \<le> length ?L")
      case True
      then obtain w where "?L = x @ w" using short(1) by (auto simp: append_eq_append_conv2)
      then have "no_eol x" using field_line_no_eol[OF f] by simp
      then have "apt_header_section_parse h s = (False, h, s\<lparr>ts_eos := True\<rparr>)"
        using Cons.prems field_parse_partial[of s]
        by (subst apt_header_section_parse.simps) (simp add: apt_text_is_eos_def)
      then show ?thesis using Cons.prems
        by (intro exI[of _ "[]"] exI[of _ "f # fs"] exI[of _ x] exI[of _ True]) (auto simp: apt_text_is_eos_def)
    next
      case False
      then have x: "x = ?L @ [cr]" "z = [lf]"
        using short(1,3) by (auto simp: append_eq_append_conv2 Cons_eq_append_conv)
      have r: "ts_rest s = ?L @ [cr]" using x Cons.prems by simp
      have "apt_header_section_parse h s = (False, ?h, ts_advance (length ?L + 1) s)"
        using name r field_parse_line_cr[OF f r]
        by (subst apt_header_section_parse.simps) (simp add: apt_text_is_eos_def Let_def)
      then show ?thesis using x r short Cons.prems
        by (intro exI[of _ "[f]"] exI[of _ fs] exI[of _ x] exI[of _ "[]"] exI[of _ False])
          (simp add: ts_advance_def)
    qed
  qed
qed

text \<open>The whole section, with whatever follows it.\<close>

lemma section_parse_whole:
  assumes "list_all field_ok fs" "ts_rest s = fields_text fs @ z" "\<not> ts_eos s"
  shows "apt_header_section_parse h s = (True, fields_added fs h, ts_advance (length (fields_text fs)) s)"
  using assms
proof (induction fs arbitrary: s h)
  case Nil
  then show ?case using field_parse_end[of s "lf # z"]
    by (subst apt_header_section_parse.simps) simp
next
  case (Cons f fs)
  have f: "field_ok f" and fs: "list_all field_ok fs" using Cons.prems by auto
  let ?s = "ts_advance (length (field_line f) + 2) s"
  have r: "ts_rest s = field_line f @ cr # lf # fields_text fs @ z" using Cons.prems by simp
  have "fields_text fs @ z = [] \<or> \<not> apt_text_is_wsp (hd (fields_text fs @ z))"
    using fields_text_hd[OF fs, of z] by simp
  from field_parse_line[OF f r this]
  have "apt_header_section_parse h s =
      apt_header_section_parse (snd (apt_header_section_field_add h (raw_field f))) ?s"
    using f r Cons.prems(3) by (subst apt_header_section_parse.simps)
      (simp add: apt_text_is_eos_def Let_def raw_field_def field_ok_def header_name_ok_def fields_text_def)
  then show ?case using Cons.IH[OF fs, of ?s] r Cons.prems(3) by (simp add: ts_advance_def)
qed

section \<open>What a parser expects on the wire\<close>

definition message_text :: "string \<Rightarrow> header_field list \<Rightarrow> string \<Rightarrow> string" where
  "message_text l fs b = l @ [cr, lf] @ fields_text fs @ b"

text \<open>
  The message \<open>M\<close> that results when the fields \<open>fs\<close> are added to \<open>m\<close> and the body \<open>b\<close> is read.
\<close>

definition header_completes ::
  "('o, 'm) message_parser_vtable \<Rightarrow> 'o \<Rightarrow> 'm \<Rightarrow> header_field list \<Rightarrow> string \<Rightarrow> 'm \<Rightarrow> bool" where
  "header_completes vt obj m fs b M \<longleftrightarrow> (\<exists>m2.
     pv_on_header_complete vt obj (pv_header_set vt (fields_added fs (pv_header vt m)) m) = (True, m2, length b)
     \<and> M = (if b = [] then m2 else pv_body_set vt b m2))"

definition body_small :: "string \<Rightarrow> bool" where
  "body_small b \<longleftrightarrow> length b + 1 < 2 ^ 64"

text \<open>A sequence of messages, one behind the other.\<close>

inductive message_stream ::
  "('o, 'm) message_parser_vtable \<Rightarrow> 'o \<Rightarrow> (string \<Rightarrow> 'm option) \<Rightarrow> string \<Rightarrow> 'm list \<Rightarrow> bool"
  for vt obj start_of where
  stream_end: "message_stream vt obj start_of [] []"
| stream_message: "no_eol l \<Longrightarrow> start_of l = Some m \<Longrightarrow> list_all field_ok fs \<Longrightarrow> body_small b \<Longrightarrow>
    header_completes vt obj m fs b M \<Longrightarrow> message_stream vt obj start_of W Ms \<Longrightarrow>
    message_stream vt obj start_of (message_text l fs b @ W) (M # Ms)"

text \<open>
  A parser in any stage: \<open>W\<close> is what is still to come and \<open>Ms\<close> are the messages it contains.
  A parser that has seen the carriage return of a split end of line waits for the line feed.
\<close>

definition stage_expects ::
  "(string \<Rightarrow> 'm option) \<Rightarrow> ('o, 'm) message_parser \<Rightarrow> string \<Rightarrow> 'm list \<Rightarrow> bool" where
  "stage_expects start_of p W Ms \<longleftrightarrow> (case mp_stage p of
     APT_MESSAGE_STAGE_START_LINE \<Rightarrow> message_stream (mp_vtable p) (mp_obj p) start_of W Ms
   | APT_MESSAGE_STAGE_HEADER \<Rightarrow> (\<exists>m fs b M W' Ms'. mp_message p = Some m \<and> list_all field_ok fs \<and> body_small b
       \<and> header_completes (mp_vtable p) (mp_obj p) m fs b M \<and> W = fields_text fs @ b @ W' \<and> Ms = M # Ms'
       \<and> message_stream (mp_vtable p) (mp_obj p) start_of W' Ms')
   | APT_MESSAGE_STAGE_BODY \<Rightarrow> (\<exists>m b W' Ms'. mp_message p = Some m \<and> b \<noteq> []
       \<and> mp_content_length p = length (pv_body (mp_vtable p) m) + length b \<and> mp_content_length p < 2 ^ 64
       \<and> W = b @ W' \<and> Ms = pv_body_set (mp_vtable p) (pv_body (mp_vtable p) m @ b) m # Ms'
       \<and> message_stream (mp_vtable p) (mp_obj p) start_of W' Ms'))"

lemma stage_expects_skip [simp]: "stage_expects start_of (p\<lparr>mp_skip_lf := v\<rparr>) W Ms = stage_expects start_of p W Ms"
  by (simp add: stage_expects_def cong: apt_message_stage.case_cong)

definition expects ::
  "(string \<Rightarrow> 'm option) \<Rightarrow> ('o, 'm) message_parser \<Rightarrow> string \<Rightarrow> 'm list \<Rightarrow> bool" where
  "expects start_of p W Ms \<longleftrightarrow>
     (if mp_skip_lf p then (\<exists>W'. W = lf # W' \<and> stage_expects start_of p W' Ms) else stage_expects start_of p W Ms)"

text \<open>
  The loop in which the four connection handlers of the code run the parser over what was
  received: until the end of the stream, or until the handler of the messages says stop. Each
  round takes fuel.
\<close>

fun receive_loop ::
  "nat \<Rightarrow> ('h \<Rightarrow> apt_message_status \<Rightarrow> 'm option \<Rightarrow> bool \<times> 'h) \<Rightarrow> 'h \<Rightarrow> ('o, 'm) message_parser \<Rightarrow> text_stream
    \<Rightarrow> (bool \<times> 'h \<times> ('o, 'm) message_parser \<times> text_stream) option" where
  "receive_loop 0 handler h p s = None"
| "receive_loop (Suc n) handler h p s = do {
     (status, m, p1, s1) \<leftarrow> apt_message_parser_run p s;
     let (ok, h1) = handler h status m;
     if \<not> ok then Some (False, h1, p1, s1)
     else if apt_text_is_eos s1 then Some (True, h1, p1, s1)
     else receive_loop n handler h1 p1 s1
   }"

text \<open>What a handler makes of messages that arrive one after the other, and whether it goes on.\<close>

fun deliver ::
  "('h \<Rightarrow> apt_message_status \<Rightarrow> 'm option \<Rightarrow> bool \<times> 'h) \<Rightarrow> 'm list \<Rightarrow> 'h \<Rightarrow> 'h" where
  "deliver handler [] h = h"
| "deliver handler (M # Ms) h = deliver handler Ms (snd (handler h APT_MESSAGE_STATUS_COMPLETE (Some M)))"

fun accepts ::
  "('h \<Rightarrow> apt_message_status \<Rightarrow> 'm option \<Rightarrow> bool \<times> 'h) \<Rightarrow> 'h \<Rightarrow> 'm list \<Rightarrow> bool" where
  "accepts handler h [] = True"
| "accepts handler h (M # Ms) \<longleftrightarrow> fst (handler h APT_MESSAGE_STATUS_COMPLETE (Some M))
     \<and> accepts handler (snd (handler h APT_MESSAGE_STATUS_COMPLETE (Some M))) Ms"

lemma deliver_append: "deliver handler (Ms @ Ms') h = deliver handler Ms' (deliver handler Ms h)"
  by (induction Ms arbitrary: h) simp_all

lemma accepts_append:
  "accepts handler h (Ms @ Ms') \<longleftrightarrow> accepts handler h Ms \<and> accepts handler (deliver handler Ms h) Ms'"
  by (induction Ms arbitrary: h) simp_all

text \<open>
  What a protocol promises: its messages start with a line, and the header and the body of a
  message are members that can be read and set.
\<close>

locale message_protocol =
  fixes vt :: "('o, 'm) message_parser_vtable" and obj :: 'o and start_of :: "string \<Rightarrow> 'm option"
  assumes on_start: "pv_on_start vt obj s =
      (let (ok, line, s1) = apt_text_line_read s in (if ok then start_of line else None, s1))"
    and header_get_set [simp]: "pv_header vt (pv_header_set vt h m) = h"
    and header_set_set [simp]: "pv_header_set vt h (pv_header_set vt h' m) = pv_header_set vt h m"
    and body_get_set [simp]: "pv_body vt (pv_body_set vt b m) = b"
    and body_set_set [simp]: "pv_body_set vt b (pv_body_set vt b' m) = pv_body_set vt b m"
begin

definition own :: "('o, 'm) message_parser \<Rightarrow> bool" where
  "own p \<longleftrightarrow> mp_vtable p = vt \<and> mp_obj p = obj"

text \<open>
  The result of a run over \<open>x\<close> when \<open>y\<close> is to follow: either all of it is used up but for the
  rest of an incomplete line, or the next message is complete.
\<close>

definition run_result ::
  "string \<Rightarrow> string \<Rightarrow> 'm list \<Rightarrow> ('o, 'm) parser_result \<Rightarrow> bool" where
  "run_result x y Ms r \<longleftrightarrow> (\<exists>st M p' s' c. r = Some (st, M, p', s') \<and> own p' \<and> x = c @ ts_rest s' \<and>
     (st = APT_MESSAGE_STATUS_INCOMPLETE \<and> M = None \<and> apt_text_is_eos s' \<and> expects start_of p' (ts_rest s' @ y) Ms
        \<and> (y = [] \<longrightarrow> Ms = [])
      \<or> (\<exists>M' Ms'. st = APT_MESSAGE_STATUS_COMPLETE \<and> M = Some M' \<and> \<not> ts_eos s' \<and> Ms = M' # Ms' \<and> c \<noteq> []
          \<and> expects start_of p' (ts_rest s' @ y) Ms')))"

lemma completes_step:
  assumes "header_completes vt obj m (fa @ fb) b M"
  shows "header_completes vt obj (pv_header_set vt (fields_added fa (pv_header vt m)) m) fb b M"
  using assms by (simp add: header_completes_def fields_added_append)

lemma run_body:
  assumes "own p" "mp_stage p = APT_MESSAGE_STAGE_BODY" "stage_expects start_of p (x @ y) Ms"
    and "ts_rest s = x" "\<not> ts_eos s"
  shows "\<exists>p' s' m. own p' \<and> mp_skip_lf p' = mp_skip_lf p \<and>
     (parser_run_body p s = Some (APT_MESSAGE_STATUS_INCOMPLETE, None, p', s') \<and> ts_rest s' = [] \<and> y \<noteq> []
        \<and> stage_expects start_of p' y Ms
      \<or> (\<exists>Ms' b. parser_run_body p s = Some (APT_MESSAGE_STATUS_COMPLETE, Some m, p', s') \<and> x = b @ ts_rest s'
          \<and> b \<noteq> [] \<and> Ms = m # Ms' \<and> \<not> ts_eos s' \<and> stage_expects start_of p' (ts_rest s' @ y) Ms'))"
proof -
  obtain m b W' Ms' where w: "mp_message p = Some m" "b \<noteq> []" "x @ y = b @ W'"
      "mp_content_length p = length (pv_body vt m) + length b" "mp_content_length p < 2 ^ 64"
      "Ms = pv_body_set vt (pv_body vt m @ b) m # Ms'" "message_stream vt obj start_of W' Ms'"
    using assms(1-3) by (auto simp: stage_expects_def own_def)
  have req: "size_t (int (mp_content_length p) - int (length (pv_body vt m))) = length b"
    using w(4,5) by (simp add: size_t_id)
  from w(3) show ?thesis
  proof (cases rule: split_prefix)
    case (short z)
    let ?m = "pv_body_set vt (pv_body vt m @ x) m"
    have "parser_run_body p s = Some (APT_MESSAGE_STATUS_INCOMPLETE, None, p\<lparr>mp_message := Some ?m\<rparr>, ts_advance (length x) s)"
      using assms w(1) req short
      by (simp add: parser_run_body_def apt_message_body_read_def own_def Let_def)
    moreover have "stage_expects start_of (p\<lparr>mp_message := Some ?m\<rparr>) y Ms"
      using assms(1,2) w short by (auto simp: stage_expects_def own_def)
    ultimately show ?thesis using assms short
      by (intro exI[of _ "p\<lparr>mp_message := Some ?m\<rparr>"] exI[of _ "ts_advance (length x) s"]) (simp add: own_def)
  next
    case (long z)
    let ?m = "pv_body_set vt (pv_body vt m @ b) m"
    let ?p = "p\<lparr>mp_message := Some ?m, mp_stage := APT_MESSAGE_STAGE_START_LINE\<rparr>"
    have "parser_run_body p s = Some (APT_MESSAGE_STATUS_COMPLETE, Some ?m, ?p, ts_advance (length b) s)"
      using assms w(1) req long
      by (simp add: parser_run_body_def apt_message_body_read_def own_def Let_def)
    moreover have "stage_expects start_of ?p (z @ y) Ms'"
      using assms(1) w long by (simp add: stage_expects_def own_def)
    ultimately show ?thesis using assms w long
      by (intro exI[of _ ?p] exI[of _ "ts_advance (length b) s"] exI[of _ ?m]) (simp add: own_def)
  qed
qed

text \<open>The header has been read; \<open>x\<close> is left of the stream.\<close>

definition after_header :: "('o, 'm) message_parser \<Rightarrow> 'm \<Rightarrow> text_stream \<Rightarrow> ('o, 'm) parser_result" where
  "after_header p m1 s1 =
     (let (ok, m2, body_length) = pv_on_header_complete (mp_vtable p) (mp_obj p) m1;
          p2 = p\<lparr>mp_message := Some m2\<rparr>
      in if \<not> ok then Some (APT_MESSAGE_STATUS_INVALID, None, p2, s1)
         else if body_length \<noteq> 0 then
           if wrap64 (body_length + 1) = 0 then None
           else parser_run_body (p2\<lparr>mp_content_length := body_length,
               mp_message := Some (pv_body_set (mp_vtable p) [] m2), mp_stage := APT_MESSAGE_STAGE_BODY\<rparr>) s1
         else Some (APT_MESSAGE_STATUS_COMPLETE, Some m2, p2\<lparr>mp_stage := APT_MESSAGE_STAGE_START_LINE\<rparr>, s1))"

lemma run_header_unfold:
  assumes "own p" "mp_message p = Some m"
    and "apt_header_section_parse (pv_header vt m) s = (res, h, s1)"
    and "apt_crlf_segmentation_test (p\<lparr>mp_message := Some (pv_header_set vt h m)\<rparr>) s1 = Some p1"
  shows "parser_run_header p s =
    (if res then after_header p1 (pv_header_set vt h m) s1 else Some (APT_MESSAGE_STATUS_INCOMPLETE, None, p1, s1))"
proof -
  have "mp_vtable p1 = mp_vtable p" "mp_obj p1 = mp_obj p"
    using assms(4) by (auto simp: apt_crlf_segmentation_test_def split: if_splits)
  with assms show ?thesis by (simp add: parser_run_header_def after_header_def own_def Let_def split: prod.split)
qed

lemma run_after_header:
  assumes p: "own p" "mp_stage p = APT_MESSAGE_STAGE_HEADER"
    and m: "header_completes vt obj m fs b M" "body_small b"
    and W: "x @ y = b @ W'" "message_stream vt obj start_of W' Ms'"
    and s: "ts_rest s = x" "\<not> ts_eos s"
  shows "\<exists>p' s'. own p' \<and> mp_skip_lf p' = mp_skip_lf p \<and>
     (after_header p (pv_header_set vt (fields_added fs (pv_header vt m)) m) s
          = Some (APT_MESSAGE_STATUS_INCOMPLETE, None, p', s') \<and> ts_rest s' = [] \<and> y \<noteq> []
        \<and> stage_expects start_of p' y (M # Ms')
      \<or> (\<exists>b'. after_header p (pv_header_set vt (fields_added fs (pv_header vt m)) m) s
            = Some (APT_MESSAGE_STATUS_COMPLETE, Some M, p', s') \<and> x = b' @ ts_rest s'
          \<and> \<not> ts_eos s' \<and> stage_expects start_of p' (ts_rest s' @ y) Ms'))"
proof -
  let ?m = "pv_header_set vt (fields_added fs (pv_header vt m)) m"
  obtain m2 where m2: "pv_on_header_complete vt obj ?m = (True, m2, length b)"
      "M = (if b = [] then m2 else pv_body_set vt b m2)"
    using m(1) by (auto simp: header_completes_def)
  show ?thesis
  proof (cases "b = []")
    case True
    let ?p = "p\<lparr>mp_message := Some m2, mp_stage := APT_MESSAGE_STAGE_START_LINE\<rparr>"
    have "after_header p ?m s = Some (APT_MESSAGE_STATUS_COMPLETE, Some M, ?p, s)"
      using p m2 True by (simp add: after_header_def own_def)
    moreover have "stage_expects start_of ?p (x @ y) Ms'"
      using p W True by (simp add: stage_expects_def own_def)
    ultimately show ?thesis using p s by (intro exI[of _ ?p] exI[of _ s]) (auto simp: own_def)
  next
    case False
    let ?p = "p\<lparr>mp_content_length := length b, mp_message := Some (pv_body_set vt [] m2),
        mp_stage := APT_MESSAGE_STAGE_BODY\<rparr>"
    have "wrap64 (length b + 1) \<noteq> 0" using m(2) by (simp add: wrap64_def body_small_def)
    then have r: "after_header p ?m s = parser_run_body ?p s"
      using p m2 False by (simp add: after_header_def own_def)
    have e: "own ?p" "mp_stage ?p = APT_MESSAGE_STAGE_BODY" using p by (simp_all add: own_def)
    have w: "stage_expects start_of ?p (x @ y) (M # Ms')"
      using p m m2 W False by (auto simp: stage_expects_def own_def body_small_def)
    from run_body[OF e w s] show ?thesis unfolding r
      apply (elim exE conjE)
      subgoal for p' s' m'
        by (rule exI[of _ p'], rule exI[of _ s']) auto
      done
  qed
qed

lemma crlf_test_lf:
  "ts_rest s \<noteq> [] \<or> ts_done s \<noteq> [] \<and> last (ts_done s) = lf \<Longrightarrow> apt_crlf_segmentation_test p s = Some p"
  by (auto simp: apt_crlf_segmentation_test_def)

lemma crlf_test_cr:
  "ts_rest s = [] \<Longrightarrow> ts_done s \<noteq> [] \<Longrightarrow> last (ts_done s) = cr \<Longrightarrow>
    apt_crlf_segmentation_test p s = Some (p\<lparr>mp_skip_lf := True\<rparr>)"
  by (simp add: apt_crlf_segmentation_test_def)

text \<open>A run in the header stage that has nothing to read.\<close>

lemma run_header_empty:
  assumes p: "own p" "mp_stage p = APT_MESSAGE_STAGE_HEADER" "mp_message p = Some m"
    and s: "ts_rest s = []" "ts_done s \<noteq> []"
    and W: "stage_expects start_of p W Ms"
  shows "\<exists>p'. parser_run_header p s = Some (APT_MESSAGE_STATUS_INCOMPLETE, None, p', s\<lparr>ts_eos := True\<rparr>) \<and> own p'
    \<and> stage_expects start_of p' W Ms \<and> mp_skip_lf p' = (mp_skip_lf p \<or> last (ts_done s) = cr)"
proof -
  let ?m = "pv_header_set vt (pv_header vt m) m"
  let ?p = "p\<lparr>mp_message := Some ?m, mp_skip_lf := mp_skip_lf p \<or> last (ts_done s) = cr\<rparr>"
  have "apt_header_section_parse (pv_header vt m) s = (False, pv_header vt m, s\<lparr>ts_eos := True\<rparr>)"
    using s field_parse_partial[of s] by (subst apt_header_section_parse.simps) (simp add: apt_text_is_eos_def)
  then have "parser_run_header p s = Some (APT_MESSAGE_STATUS_INCOMPLETE, None, ?p, s\<lparr>ts_eos := True\<rparr>)"
    using run_header_unfold[OF p(1,3), of s False _ _ ?p] s by (simp add: apt_crlf_segmentation_test_def)
  moreover have "stage_expects start_of ?p W Ms"
    using W p completes_step[of m "[]"] by (fastforce simp: stage_expects_def own_def)
  ultimately show ?thesis using p by (intro exI[of _ ?p]) (simp add: own_def)
qed

lemma stage_expects_header:
  assumes "own p" "mp_stage p = APT_MESSAGE_STAGE_HEADER" "mp_message p = Some m" "list_all field_ok fs"
    "body_small b" "header_completes vt obj m fs b M" "message_stream vt obj start_of W Ms"
  shows "stage_expects start_of p (fields_text fs @ b @ W) (M # Ms)"
  using assms by (auto simp: stage_expects_def own_def)

lemma expects_no_skip: "\<not> mp_skip_lf p \<Longrightarrow> stage_expects start_of p W Ms \<Longrightarrow> expects start_of p W Ms"
  by (simp add: expects_def)

lemma expects_skip: "mp_skip_lf p \<Longrightarrow> stage_expects start_of p W Ms \<Longrightarrow> expects start_of p (lf # W) Ms"
  by (simp add: expects_def)

lemma run_result_incomplete:
  assumes "own p'" "x = c @ ts_rest s'" "apt_text_is_eos s'" "expects start_of p' (ts_rest s' @ y) Ms" "y \<noteq> [] \<or> Ms = []"
  shows "run_result x y Ms (Some (APT_MESSAGE_STATUS_INCOMPLETE, None, p', s'))"
  using assms by (auto simp: run_result_def)

lemma run_result_complete:
  assumes "own p'" "x = c @ ts_rest s'" "c \<noteq> []" "\<not> ts_eos s'" "expects start_of p' (ts_rest s' @ y) Ms'"
  shows "run_result x y (M # Ms') (Some (APT_MESSAGE_STATUS_COMPLETE, Some M, p', s'))"
  using assms by (auto simp: run_result_def)

lemma run_result_append:
  assumes "run_result x y Ms r"
  shows "run_result (c @ x) y Ms r"
  using assms unfolding run_result_def
  apply (elim exE conjE)
  subgoal for st M p' s' c'
    by (rule exI[of _ st], rule exI[of _ M], rule exI[of _ p'], rule exI[of _ s'], rule exI[of _ "c @ c'"]) auto
  done

text \<open>What follows the header, as the result of the whole run.\<close>

lemma run_result_header:
  assumes p: "own p" "mp_stage p = APT_MESSAGE_STAGE_HEADER"
    and m: "header_completes vt obj m fs b M" "body_small b"
    and W: "x @ y' = b @ W'" "message_stream vt obj start_of W' Ms'"
    and s: "ts_rest s = x" "\<not> ts_eos s" and c: "c \<noteq> []"
    and y: "y = (if mp_skip_lf p then lf # y' else y')" "mp_skip_lf p \<longrightarrow> x = []"
  shows "run_result (c @ x) y (M # Ms') (after_header p (pv_header_set vt (fields_added fs (pv_header vt m)) m) s)"
  using run_after_header[OF p m W s]
proof (elim exE conjE disjE)
  fix p' s'
  assume r: "own p'" "mp_skip_lf p' = mp_skip_lf p" "ts_rest s' = []" "y' \<noteq> []" "stage_expects start_of p' y' (M # Ms')"
    "after_header p (pv_header_set vt (fields_added fs (pv_header vt m)) m) s = Some (APT_MESSAGE_STATUS_INCOMPLETE, None, p', s')"
  have "expects start_of p' (ts_rest s' @ y) (M # Ms')" using r y by (simp add: expects_def)
  then show ?thesis using r y by (auto simp: apt_text_is_eos_def intro!: run_result_incomplete)
next
  fix p' s' b'
  assume r: "own p'" "mp_skip_lf p' = mp_skip_lf p" "x = b' @ ts_rest s'" "\<not> ts_eos s'"
    "stage_expects start_of p' (ts_rest s' @ y') Ms'"
    "after_header p (pv_header_set vt (fields_added fs (pv_header vt m)) m) s = Some (APT_MESSAGE_STATUS_COMPLETE, Some M, p', s')"
  have "expects start_of p' (ts_rest s' @ y) Ms'" using r y by (auto simp: expects_def)
  then show ?thesis using r c by (auto intro!: run_result_complete[where c = "c @ b'"])
qed

lemma run_header:
  assumes p: "own p" "mp_stage p = APT_MESSAGE_STAGE_HEADER" "\<not> mp_skip_lf p"
    and e: "stage_expects start_of p (x @ y) Ms" and s: "ts_rest s = x" "\<not> ts_eos s" "x \<noteq> []"
  shows "run_result x y Ms (parser_run_header p s)"
proof -
  obtain m fs b M W' Ms' where m: "mp_message p = Some m" and fs: "list_all field_ok fs" and b: "body_small b"
    and M: "header_completes vt obj m fs b M" and W: "x @ y = fields_text fs @ b @ W'" and Ms: "Ms = M # Ms'"
    and st: "message_stream vt obj start_of W' Ms'"
    using e p by (auto simp: stage_expects_def own_def)
  let ?set = "\<lambda>fa. pv_header_set vt (fields_added fa (pv_header vt m)) m"
  let ?p = "\<lambda>fa. p\<lparr>mp_message := Some (?set fa)\<rparr>"
  from W show ?thesis
  proof (cases rule: split_prefix)
    case (long z)
    let ?s = "ts_advance (length (fields_text fs)) s"
    have sp: "apt_header_section_parse (pv_header vt m) s = (True, fields_added fs (pv_header vt m), ?s)"
      by (rule section_parse_whole[OF fs]) (use s long in auto)
    have "apt_crlf_segmentation_test (?p fs) ?s = Some (?p fs)"
      by (rule crlf_test_lf) (use s long in \<open>simp add: fields_text_def\<close>)
    from run_header_unfold[OF p(1) m sp this]
    have r: "parser_run_header p s = after_header (?p fs) (?set fs) ?s" by simp
    show ?thesis unfolding r Ms long(1)
      by (rule run_result_header[of "?p fs" m fs b M z y W'])
        (use p M b long st s in \<open>auto simp: own_def fields_text_def\<close>)
  next
    case (short z)
    from section_parse_part[OF fs short(1)[symmetric] short(3) s(1,2), of "pv_header vt m"]
    obtain fa fb c u eos where fab: "fs = fa @ fb" "x = c @ u" and
      alt: "let s' = \<lparr>ts_done = ts_done s @ c, ts_rest = u, ts_eos = eos\<rparr> in
        (apt_header_section_parse (pv_header vt m) s = (False, fields_added fa (pv_header vt m), s') \<and> apt_text_is_eos s'
           \<and> u @ z = fields_text fb \<and> (c = [] \<or> last c = lf)) \<or>
        (apt_header_section_parse (pv_header vt m) s = (False, fields_added fa (pv_header vt m), s')
           \<and> u = [] \<and> c \<noteq> [] \<and> last c = cr \<and> z = lf # fields_text fb) \<or>
        (apt_header_section_parse (pv_header vt m) s = (True, fields_added fs (pv_header vt m), s')
           \<and> u = [] \<and> c \<noteq> [] \<and> last c = cr \<and> z = [lf] \<and> \<not> eos)"
      by blast
    let ?s = "\<lparr>ts_done = ts_done s @ c, ts_rest = u, ts_eos = eos\<rparr>"
    have part: "stage_expects start_of (?p fa) (fields_text fb @ b @ W') Ms"
      unfolding Ms using p b st fs completes_step M
      by (intro stage_expects_header[of "?p fa"]) (auto simp: own_def fab)
    from alt consider
        (lines) "apt_header_section_parse (pv_header vt m) s = (False, fields_added fa (pv_header vt m), ?s)"
        "apt_text_is_eos ?s" "u @ z = fields_text fb" "c = [] \<or> last c = lf"
      | (split) "apt_header_section_parse (pv_header vt m) s = (False, fields_added fa (pv_header vt m), ?s)"
        "u = []" "c \<noteq> []" "last c = cr" "z = lf # fields_text fb"
      | (last) "apt_header_section_parse (pv_header vt m) s = (True, fields_added fs (pv_header vt m), ?s)"
        "u = []" "c \<noteq> []" "last c = cr" "z = [lf]" "\<not> eos"
      by (auto simp: Let_def)
    then show ?thesis
    proof cases
      case lines
      note a = this
      have "apt_crlf_segmentation_test (?p fa) ?s = Some (?p fa)"
        by (rule crlf_test_lf) (use a(4) fab s in auto)
      from run_header_unfold[OF p(1) m a(1) this]
      have r: "parser_run_header p s = Some (APT_MESSAGE_STATUS_INCOMPLETE, None, ?p fa, ?s)" by simp
      have "ts_rest ?s @ y = fields_text fb @ b @ W'" using a(3) short(2) by (simp flip: a(3))
      then have "expects start_of (?p fa) (ts_rest ?s @ y) Ms" using part p by (simp add: expects_def)
      then show ?thesis unfolding r using p a fab short
        by (intro run_result_incomplete) (auto simp: own_def)
    next
      case split
      note a = this
      let ?q = "(?p fa)\<lparr>mp_skip_lf := True\<rparr>"
      have "apt_crlf_segmentation_test (?p fa) ?s = Some ?q" by (rule crlf_test_cr) (use a in auto)
      from run_header_unfold[OF p(1) m a(1) this]
      have r: "parser_run_header p s = Some (APT_MESSAGE_STATUS_INCOMPLETE, None, ?q, ?s)" by simp
      have "stage_expects start_of ?q (fields_text fb @ b @ W') Ms" using part by simp
      then have "expects start_of ?q (ts_rest ?s @ y) Ms" using a short by (simp add: expects_def)
      then show ?thesis unfolding r using p a fab short
        by (intro run_result_incomplete) (auto simp: own_def apt_text_is_eos_def)
    next
      case last
      note a = this
      let ?q = "(?p fs)\<lparr>mp_skip_lf := True\<rparr>"
      have "apt_crlf_segmentation_test (?p fs) ?s = Some ?q" by (rule crlf_test_cr) (use a in auto)
      from run_header_unfold[OF p(1) m a(1) this]
      have r: "parser_run_header p s = after_header ?q (?set fs) ?s" by simp
      show ?thesis unfolding r Ms fab(2)
        by (rule run_result_header[of ?q m fs b M u "b @ W'" W'])
          (use p M b a short st in \<open>auto simp: own_def\<close>)
    qed
  qed
qed

lemma line_read_partial: "no_eol (ts_rest s) \<Longrightarrow> apt_text_line_read s = (False, ts_rest s, s\<lparr>ts_eos := True\<rparr>)"
  by (simp add: apt_text_line_read_def line_scan_text)

lemma line_scan_cr: "no_eol l \<Longrightarrow> line_scan (l @ [cr]) acc = (acc @ l, Some (length acc + length l + 1))"
  by (induction l arbitrary: acc) auto

lemma line_read_cr:
  "no_eol l \<Longrightarrow> ts_rest s = l @ [cr] \<Longrightarrow> apt_text_line_read s = (True, l, ts_advance (length l + 1) s)"
  by (simp add: apt_text_line_read_def line_scan_cr)

lemma run_start_line:
  assumes "own p" "start_of l = Some m" "apt_text_line_read s = (True, l, s1)"
    and "apt_crlf_segmentation_test (p\<lparr>mp_message := Some m\<rparr>) s1 = Some p1"
  shows "parser_run_start p s = parser_run_header (p1\<lparr>mp_stage := APT_MESSAGE_STAGE_HEADER\<rparr>) s1"
  using assms by (simp add: parser_run_start_def own_def on_start)

lemma run_start:
  assumes p: "own p" "mp_stage p = APT_MESSAGE_STAGE_START_LINE" "\<not> mp_skip_lf p"
    and e: "stage_expects start_of p (x @ y) Ms" and s: "ts_rest s = x" "\<not> ts_eos s"
  shows "run_result x y Ms (parser_run_start p s)"
proof -
  have partial: "run_result x y Ms (parser_run_start p s)" if "no_eol x" "y \<noteq> [] \<or> Ms = []"
  proof -
    have "parser_run_start p s = Some (APT_MESSAGE_STATUS_INCOMPLETE, None, p, s\<lparr>ts_eos := True\<rparr>)"
      using p s that line_read_partial[of s] by (simp add: parser_run_start_def own_def on_start apt_text_is_eos_def)
    moreover have "expects start_of p (x @ y) Ms" using e p by (simp add: expects_def)
    ultimately show ?thesis using p s that
      by (auto simp: apt_text_is_eos_def intro!: run_result_incomplete)
  qed
  have "message_stream vt obj start_of (x @ y) Ms" using e p by (simp add: stage_expects_def own_def)
  then show ?thesis
  proof (cases rule: message_stream.cases)
    case stream_end
    then show ?thesis using partial by simp
  next
    case (stream_message l m fs b M W Ms')
    have W: "x @ y = (l @ [cr, lf]) @ fields_text fs @ b @ W"
      using stream_message(1) by (simp add: message_text_def)
    let ?p = "p\<lparr>mp_message := Some m, mp_stage := APT_MESSAGE_STAGE_HEADER\<rparr>"
    have header: "stage_expects start_of ?p (fields_text fs @ b @ W) Ms"
      unfolding stream_message(2) using p stream_message
      by (intro stage_expects_header[of ?p]) (auto simp: own_def)
    from W show ?thesis
    proof (cases rule: split_prefix)
      case (long z)
      let ?s = "ts_advance (length l + 2) s"
      have rd: "apt_text_line_read s = (True, l, ?s)"
        using line_read_crlf[OF stream_message(3), of s z] s long by simp
      have "apt_crlf_segmentation_test (p\<lparr>mp_message := Some m\<rparr>) ?s = Some (p\<lparr>mp_message := Some m\<rparr>)"
        by (rule crlf_test_lf) (use s long in simp)
      from run_start_line[OF p(1) stream_message(4) rd this]
      have r: "parser_run_start p s = parser_run_header ?p ?s" by simp
      show ?thesis
      proof (cases "z = []")
        case False
        have "run_result z y Ms (parser_run_header ?p ?s)"
          by (rule run_header) (use p s long False header in \<open>auto simp: own_def\<close>)
        then show ?thesis unfolding r long(1) by (rule run_result_append)
      next
        case True
        from run_header_empty[of ?p m ?s "fields_text fs @ b @ W" Ms]
        obtain p' where "parser_run_header ?p ?s = Some (APT_MESSAGE_STATUS_INCOMPLETE, None, p', ?s\<lparr>ts_eos := True\<rparr>)"
          "own p'" "stage_expects start_of p' (fields_text fs @ b @ W) Ms" "\<not> mp_skip_lf p'"
          using header p s long True by (auto simp: own_def)
        then show ?thesis using r s long True
          by (auto simp: apt_text_is_eos_def expects_def fields_text_def intro!: run_result_incomplete)
      qed
    next
      case (short z)
      show ?thesis
      proof (cases "length x \<le> length l")
        case True
        then obtain w where "l = x @ w" using short(1) by (auto simp: append_eq_append_conv2)
        then have "no_eol x" using stream_message(3) by simp
        then show ?thesis using partial short by simp
      next
        case False
        then have x: "x = l @ [cr]" "z = [lf]"
          using short(1,3) by (auto simp: append_eq_append_conv2 Cons_eq_append_conv)
        let ?s = "ts_advance (length l + 1) s" and ?q = "p\<lparr>mp_message := Some m, mp_skip_lf := True\<rparr>"
        let ?r = "p\<lparr>mp_message := Some m, mp_skip_lf := True, mp_stage := APT_MESSAGE_STAGE_HEADER\<rparr>"
        have rd: "apt_text_line_read s = (True, l, ?s)" using line_read_cr stream_message(3) s x by simp
        have "apt_crlf_segmentation_test (p\<lparr>mp_message := Some m\<rparr>) ?s = Some ?q"
          using crlf_test_cr[of ?s "p\<lparr>mp_message := Some m\<rparr>"] s x by simp
        from run_start_line[OF p(1) stream_message(4) rd this]
        have r: "parser_run_start p s = parser_run_header ?r ?s" by simp
        have header': "stage_expects start_of ?r (fields_text fs @ b @ W) Ms"
          unfolding stream_message(2) using p stream_message
          by (intro stage_expects_header[of ?r]) (auto simp: own_def)
        from run_header_empty[of ?r m ?s "fields_text fs @ b @ W" Ms]
        obtain p' where "parser_run_header ?r ?s
            = Some (APT_MESSAGE_STATUS_INCOMPLETE, None, p', ?s\<lparr>ts_eos := True\<rparr>)"
          "own p'" "stage_expects start_of p' (fields_text fs @ b @ W) Ms" "mp_skip_lf p'"
          using header' p s x by (auto simp: own_def)
        then show ?thesis using r s x short
          by (auto simp: apt_text_is_eos_def expects_def intro!: run_result_incomplete)
      qed
    qed
  qed
qed

text \<open>Any run, on a segment that is not empty.\<close>

lemma parser_run_result:
  assumes p: "own p" and e: "expects start_of p (x @ y) Ms"
    and s: "ts_rest s = x" "\<not> ts_eos s" "x \<noteq> []"
  shows "run_result x y Ms (apt_message_parser_run p s)"
proof -
  have main: "run_result x' y Ms (case mp_stage q of
        APT_MESSAGE_STAGE_START_LINE \<Rightarrow> parser_run_start q t
      | APT_MESSAGE_STAGE_HEADER \<Rightarrow> parser_run_header q t
      | APT_MESSAGE_STAGE_BODY \<Rightarrow> parser_run_body q t)"
    if q: "own q" "\<not> mp_skip_lf q" "stage_expects start_of q (x' @ y) Ms" "ts_rest t = x'" "\<not> ts_eos t"
      "x' \<noteq> [] \<or> ts_done t \<noteq> [] \<and> last (ts_done t) = lf" for q x' t
  proof (cases "mp_stage q")
    case APT_MESSAGE_STAGE_START_LINE
    then show ?thesis using run_start[of q x' y Ms t] q by simp
  next
    case APT_MESSAGE_STAGE_HEADER
    show ?thesis
    proof (cases "x' = []")
      case False
      then show ?thesis using run_header[of q x' y Ms t] q APT_MESSAGE_STAGE_HEADER by simp
    next
      case True
      obtain m where "mp_message q = Some m"
        using q APT_MESSAGE_STAGE_HEADER by (auto simp: stage_expects_def)
      from run_header_empty[OF q(1) APT_MESSAGE_STAGE_HEADER this, of t "x' @ y" Ms] True q
      obtain p' where r: "parser_run_header q t = Some (APT_MESSAGE_STATUS_INCOMPLETE, None, p', t\<lparr>ts_eos := True\<rparr>)"
        "own p'" "stage_expects start_of p' y Ms" "\<not> mp_skip_lf p'"
        by auto
      have "y \<noteq> [] \<or> Ms = []" using r(3) q True APT_MESSAGE_STAGE_HEADER
        by (auto simp: stage_expects_def fields_text_def)
      then show ?thesis using r True q APT_MESSAGE_STAGE_HEADER
        by (auto simp: apt_text_is_eos_def expects_def intro!: run_result_incomplete)
    qed
  next
    case APT_MESSAGE_STAGE_BODY
    from run_body[OF q(1) this q(3,4,5)] show ?thesis unfolding APT_MESSAGE_STAGE_BODY
      using q(2) by (auto simp: apt_text_is_eos_def expects_def intro!: run_result_incomplete run_result_complete)
  qed
  show ?thesis
  proof (cases "mp_skip_lf p")
    case False
    then show ?thesis using main[of p x s] p e s by (simp add: apt_message_parser_run_def expects_def)
  next
    case True
    then obtain x' where x: "x = lf # x'" using e s by (cases x) (auto simp: expects_def)
    let ?q = "p\<lparr>mp_skip_lf := False\<rparr>" and ?t = "ts_advance (Suc 0) s"
    have "run_result x' y Ms (apt_message_parser_run p s)"
      using main[of ?q x' ?t] p e s x True
      by (simp add: apt_message_parser_run_def expects_def apt_text_char_skip_def own_def)
    then show ?thesis using run_result_append[of x' y Ms _ "[lf]"] x by simp
  qed
qed

lemma expects_nil: "expects start_of p [] Ms \<Longrightarrow> Ms = []"
  by (auto simp: expects_def stage_expects_def fields_text_def message_text_def
      elim: message_stream.cases split: if_splits apt_message_stage.splits)

text \<open>A whole message, with whatever is behind it, is read in one run.\<close>

lemma parser_run_message:
  assumes p: "own p" "mp_stage p = APT_MESSAGE_STAGE_START_LINE" "\<not> mp_skip_lf p"
    and m: "no_eol l" "start_of l = Some m" "list_all field_ok fs" "body_small b" "header_completes vt obj m fs b M"
    and s: "ts_rest s = message_text l fs b @ z" "\<not> ts_eos s"
  shows "\<exists>p'. apt_message_parser_run p s
      = Some (APT_MESSAGE_STATUS_COMPLETE, Some M, p', ts_advance (length (message_text l fs b)) s)
    \<and> own p' \<and> mp_stage p' = APT_MESSAGE_STAGE_START_LINE \<and> \<not> mp_skip_lf p'"
proof -
  let ?s1 = "ts_advance (length l + 2) s"
  let ?s2 = "ts_advance (length (fields_text fs)) ?s1"
  have r1: "ts_rest ?s1 = fields_text fs @ b @ z" "\<not> ts_eos ?s1"
    using s by (simp_all add: message_text_def)
  have line: "apt_text_line_read s = (True, l, ?s1)"
    by (rule line_read_crlf[OF m(1)]) (use s(1) in \<open>simp add: message_text_def\<close>)
  have t1: "apt_crlf_segmentation_test (p\<lparr>mp_message := Some m\<rparr>) ?s1 = Some (p\<lparr>mp_message := Some m\<rparr>)"
    by (rule crlf_test_lf) (use r1(1) in \<open>simp add: fields_text_def\<close>)
  let ?p1 = "p\<lparr>mp_message := Some m, mp_stage := APT_MESSAGE_STAGE_HEADER\<rparr>"
  let ?m1 = "pv_header_set vt (fields_added fs (pv_header vt m)) m"
  have start: "apt_message_parser_run p s = parser_run_header ?p1 ?s1"
    using run_start_line[OF p(1) m(2) line t1] p(2,3) by (simp add: apt_message_parser_run_def)
  have own1: "own ?p1" "mp_message ?p1 = Some m" using p(1) by (simp_all add: own_def)
  have sec: "apt_header_section_parse (pv_header vt m) ?s1 = (True, fields_added fs (pv_header vt m), ?s2)"
    by (rule section_parse_whole[OF m(3) r1])
  have d2: "ts_done ?s2 = ts_done ?s1 @ fields_text fs" "ts_rest ?s2 = b @ z" "\<not> ts_eos ?s2" using r1 by simp_all
  have lf2: "fields_text fs \<noteq> [] \<and> last (fields_text fs) = lf" by (simp add: fields_text_def)
  let ?p2 = "?p1\<lparr>mp_message := Some ?m1\<rparr>"
  have t2: "apt_crlf_segmentation_test ?p2 ?s2 = Some ?p2"
    by (rule crlf_test_lf) (use d2(1) lf2 in simp)
  have head: "parser_run_header ?p1 ?s1 = after_header ?p2 ?m1 ?s2"
    using run_header_unfold[OF own1 sec t2] by simp
  obtain m2 where m2: "pv_on_header_complete vt obj ?m1 = (True, m2, length b)"
      "M = (if b = [] then m2 else pv_body_set vt b m2)"
    using m(5) by (auto simp: header_completes_def)
  have total: "ts_advance (length (message_text l fs b)) s = ts_advance (length b) ?s2"
    using s(1) by (simp add: ts_advance_def message_text_def)
  show ?thesis
  proof (cases "b = []")
    case True
    have "after_header ?p2 ?m1 ?s2 = Some (APT_MESSAGE_STATUS_COMPLETE, Some M,
        ?p2\<lparr>mp_message := Some m2, mp_stage := APT_MESSAGE_STAGE_START_LINE\<rparr>, ?s2)"
      using p(1) m2 True by (simp add: after_header_def own_def)
    then show ?thesis using start head total True p(1,3)
      by (intro exI[of _ "?p2\<lparr>mp_message := Some m2, mp_stage := APT_MESSAGE_STAGE_START_LINE\<rparr>"])
        (simp add: own_def ts_advance_def)
  next
    case False
    let ?p3 = "?p2\<lparr>mp_content_length := length b, mp_message := Some (pv_body_set vt [] m2),
        mp_stage := APT_MESSAGE_STAGE_BODY\<rparr>"
    let ?p4 = "?p3\<lparr>mp_message := Some M, mp_stage := APT_MESSAGE_STAGE_START_LINE\<rparr>"
    have small: "wrap64 (length b + 1) \<noteq> 0" "size_t (int (length b)) = length b"
      using m(4) size_t_id[of "length b"] by (simp_all add: wrap64_def body_small_def)
    have "after_header ?p2 ?m1 ?s2 = parser_run_body ?p3 ?s2"
      using p(1) m2 False small(1) by (simp add: after_header_def own_def)
    also have "\<dots> = Some (APT_MESSAGE_STATUS_COMPLETE, Some M, ?p4, ts_advance (length b) ?s2)"
      using p(1) m2 False small(2) d2(2)
      by (simp add: parser_run_body_def apt_message_body_read_def own_def Let_def)
    finally show ?thesis using start head total p(1,3)
      by (intro exI[of _ ?p4]) (simp add: own_def)
  qed
qed

text \<open>
  All messages the data completes reach the handler, in order, as long as it accepts them, and
  the parser is ready for the rest; fuel above the length of the data is enough.
\<close>

lemma receive_loop_result:
  assumes "own p" "expects start_of p (x @ y) Ms" "ts_rest s = x" "\<not> ts_eos s" "x \<noteq> []" "length x < n"
    and incomplete: "\<And>h. handler h APT_MESSAGE_STATUS_INCOMPLETE None = (True, h)"
    and complete: "accepts handler h Ms"
  shows "\<exists>p' s' c Ms1 Ms2. receive_loop n handler h p s = Some (True, deliver handler Ms1 h, p', s') \<and> own p'
    \<and> Ms = Ms1 @ Ms2 \<and> x = c @ ts_rest s' \<and> expects start_of p' (ts_rest s' @ y) Ms2 \<and> (y = [] \<longrightarrow> Ms2 = [])"
  using assms(1-6) complete
proof (induction n arbitrary: p x s Ms h)
  case 0
  then show ?case by simp
next
  case (Suc n)
  from parser_run_result[OF Suc.prems(1-5)] obtain st M p' s' c where
    r: "apt_message_parser_run p s = Some (st, M, p', s')" "own p'" "x = c @ ts_rest s'" and
    alt: "st = APT_MESSAGE_STATUS_INCOMPLETE \<and> M = None \<and> apt_text_is_eos s'
        \<and> expects start_of p' (ts_rest s' @ y) Ms \<and> (y = [] \<longrightarrow> Ms = [])
      \<or> (\<exists>M' Ms'. st = APT_MESSAGE_STATUS_COMPLETE \<and> M = Some M' \<and> \<not> ts_eos s' \<and> Ms = M' # Ms' \<and> c \<noteq> []
          \<and> expects start_of p' (ts_rest s' @ y) Ms')"
    unfolding run_result_def by blast
  from alt show ?case
  proof (elim disjE conjE exE)
    assume "st = APT_MESSAGE_STATUS_INCOMPLETE" "M = None" "apt_text_is_eos s'"
      "expects start_of p' (ts_rest s' @ y) Ms" "y = [] \<longrightarrow> Ms = []"
    then show ?thesis using r incomplete
      by (intro exI[of _ p'] exI[of _ s'] exI[of _ c] exI[of _ "[]"] exI[of _ Ms]) simp
  next
    fix M' Ms'
    assume c: "st = APT_MESSAGE_STATUS_COMPLETE" "M = Some M'" "\<not> ts_eos s'" "Ms = M' # Ms'" "c \<noteq> []"
      "expects start_of p' (ts_rest s' @ y) Ms'"
    obtain h2 where h: "handler h APT_MESSAGE_STATUS_COMPLETE (Some M') = (True, h2)" and later: "accepts handler h2 Ms'"
      using Suc.prems(7) c by (cases "handler h APT_MESSAGE_STATUS_COMPLETE (Some M')") auto
    show ?thesis
    proof (cases "ts_rest s' = []")
      case True
      then show ?thesis using r c h expects_nil[of p' Ms']
        by (intro exI[of _ p'] exI[of _ s'] exI[of _ c] exI[of _ "[M']"] exI[of _ Ms']) (auto simp: apt_text_is_eos_def)
    next
      case False
      have "length (ts_rest s') < n" using Suc.prems(6) r(3) c(5) by (cases c) auto
      have step: "receive_loop (Suc n) handler h p s = receive_loop n handler h2 p' s'"
        using r c h False by (simp add: apt_text_is_eos_def)
      from Suc.IH[OF r(2) c(6) refl c(3) False \<open>length (ts_rest s') < n\<close> later]
      obtain p2 s2 c2 Ms1 Ms2 where "receive_loop n handler h2 p' s' = Some (True, deliver handler Ms1 h2, p2, s2)"
        "own p2" "Ms' = Ms1 @ Ms2" "ts_rest s' = c2 @ ts_rest s2" "expects start_of p2 (ts_rest s2 @ y) Ms2"
        "y = [] \<longrightarrow> Ms2 = []"
        by blast
      then have "receive_loop (Suc n) handler h p s = Some (True, deliver handler (M' # Ms1) h, p2, s2) \<and> own p2
          \<and> Ms = (M' # Ms1) @ Ms2 \<and> x = (c @ c2) @ ts_rest s2 \<and> expects start_of p2 (ts_rest s2 @ y) Ms2
          \<and> (y = [] \<longrightarrow> Ms2 = [])"
        unfolding step using r(3) c(4) h by simp
      then show ?thesis by blast
    qed
  qed
qed

end

end
