(* ===== verification/Resource_Factory.thy ===== *)
theory Resource_Factory
  imports Mrcp_Message
begin

text \<open>
  \<open>libs/mrcp/control/src/mrcp_resource_factory.c\<close>: the resources a server or a client knows,
  by number and by name. The array and the hash table are filled together.
\<close>

record 'r mrcp_resource_factory =
  rf_array :: "'r mrcp_resource option list"
  rf_hash :: "string \<Rightarrow> 'r mrcp_resource option"

abbreviation rf_count :: "'r mrcp_resource_factory \<Rightarrow> nat" where
  "rf_count f \<equiv> length (rf_array f)"

definition mrcp_resource_factory_create :: "nat \<Rightarrow> 'r mrcp_resource_factory option" where
  "mrcp_resource_factory_create count =
     (if count = 0 then None
      else Some \<lparr>rf_array = replicate count None, rf_hash = (\<lambda>_. None)\<rparr>)"

definition mrcp_resource_factory_destroy :: "'r mrcp_resource_factory \<Rightarrow> 'r mrcp_resource_factory" where
  "mrcp_resource_factory_destroy f = f\<lparr>rf_array := []\<rparr>"

text \<open>The function pointers of a resource of the model are always there.\<close>

definition mrcp_resource_validate :: "'r mrcp_resource \<Rightarrow> bool" where
  "mrcp_resource_validate r \<longleftrightarrow> res_method_count r \<noteq> 0 \<and> res_event_count r \<noteq> 0 \<and> res_name r \<noteq> []"

definition mrcp_resource_register ::
  "'r mrcp_resource_factory \<Rightarrow> 'r mrcp_resource option \<Rightarrow> bool \<times> 'r mrcp_resource_factory" where
  "mrcp_resource_register f resource =
     (case resource of
        None \<Rightarrow> (False, f)
      | Some r \<Rightarrow>
          if rf_count f \<le> res_id r then (False, f)
          else if rf_array f ! res_id r \<noteq> None then (False, f)
          else if \<not> mrcp_resource_validate r then (False, f)
          else (True, f\<lparr>rf_array := (rf_array f)[res_id r := Some r], rf_hash := (rf_hash f)(res_name r \<mapsto> r)\<rparr>))"

definition mrcp_resource_get :: "'r mrcp_resource_factory \<Rightarrow> nat \<Rightarrow> 'r mrcp_resource option" where
  "mrcp_resource_get f i = (if rf_count f \<le> i then None else rf_array f ! i)"

definition mrcp_resource_find :: "'r mrcp_resource_factory \<Rightarrow> string \<Rightarrow> 'r mrcp_resource option" where
  "mrcp_resource_find f name = (if name = [] then None else rf_hash f name)"

section \<open>What is registered\<close>

text \<open>Every resource found by name is the one registered under its number, and has that name.\<close>

definition factory_wf :: "'r mrcp_resource_factory \<Rightarrow> bool" where
  "factory_wf f \<longleftrightarrow> (\<forall>name r. rf_hash f name = Some r \<longrightarrow>
     res_name r = name \<and> mrcp_resource_get f (res_id r) = Some r \<and> mrcp_resource_validate r)"

lemma factory_create_wf: "mrcp_resource_factory_create n = Some f \<Longrightarrow> factory_wf f"
  by (auto simp: mrcp_resource_factory_create_def factory_wf_def split: if_splits)

lemma register_wf:
  assumes "factory_wf f"
  shows "factory_wf (snd (mrcp_resource_register f r))"
proof (cases r)
  case (Some x)
  have taken: "rf_hash f name = Some ra \<Longrightarrow> rf_array f ! res_id ra \<noteq> None" for name ra
    using assms by (fastforce simp: factory_wf_def mrcp_resource_get_def split: if_splits)
  then show ?thesis using assms Some
    by (auto simp: mrcp_resource_register_def factory_wf_def mrcp_resource_get_def nth_list_update
        split: if_splits dest: taken)
qed (use assms in \<open>simp add: mrcp_resource_register_def\<close>)

lemma register_get:
  assumes "mrcp_resource_register f (Some r) = (True, f')"
  shows "mrcp_resource_get f' i = (if i = res_id r then Some r else mrcp_resource_get f i)"
    and "mrcp_resource_find f' name = (if name = res_name r then Some r else mrcp_resource_find f name)"
  using assms by (auto simp: mrcp_resource_register_def mrcp_resource_get_def mrcp_resource_find_def
      mrcp_resource_validate_def split: if_splits)

lemma find_name:
  assumes "factory_wf f" "mrcp_resource_find f name = Some r"
  shows "res_name r = name" "name \<noteq> []"
  using assms by (auto simp: mrcp_resource_find_def factory_wf_def split: if_splits)

end
