(* ===== verification/Mrcp_Stream.thy ===== *)
theory Mrcp_Stream
  imports Text_Message Resource_Factory
begin

text \<open>
  \<open>libs/mrcp/control/src/mrcp_stream.c\<close>: the handlers with which the generic parser and
  generator read and write MRCP messages.
\<close>

record 'r mrcp_parser =
  par_factory :: "'r mrcp_resource_factory"
  par_resource :: "'r mrcp_resource option"

definition msg_section :: "'r mrcp_message \<Rightarrow> header_section" where
  "msg_section m = mh_section (msg_header m)"

definition msg_section_set :: "header_section \<Rightarrow> 'r mrcp_message \<Rightarrow> 'r mrcp_message" where
  "msg_section_set h m = m\<lparr>msg_header := (msg_header m)\<lparr>mh_section := h\<rparr>\<rparr>"

definition msg_body_set :: "string \<Rightarrow> 'r mrcp_message \<Rightarrow> 'r mrcp_message" where
  "msg_body_set b m = m\<lparr>msg_body := b\<rparr>"

text \<open>
  The message a start line begins; the number in the method id of a new message is whatever
  the memory holds, zero in the model. A message of the first version of the protocol has no
  channel identifier and takes the resource set for the parser.
\<close>

definition mrcp_message_start :: "'r mrcp_parser \<Rightarrow> string \<Rightarrow> 'r mrcp_message option" where
  "mrcp_message_start p line =
     (let m = mrcp_message_create 0;
          (ok, sl) = mrcp_start_line_parse (msg_start_line m) line;
          m1 = m\<lparr>msg_start_line := sl\<rparr>
      in if \<not> ok then None
         else if sl_version sl = MRCP_VERSION_1 then
           (case par_resource p of
              None \<Rightarrow> None
            | Some r \<Rightarrow>
                (let (ok2, m2) = mrcp_message_resource_set
                       (m1\<lparr>msg_channel_id := (msg_channel_id m1)\<lparr>ch_resource_name := res_name r\<rparr>\<rparr>) (Some r)
                 in if ok2 then Some m2 else None))
         else Some m1)"

definition mrcp_parser_on_start ::
  "'r mrcp_parser \<Rightarrow> text_stream \<Rightarrow> 'r mrcp_message option \<times> text_stream" where
  "mrcp_parser_on_start p s =
     (let (ok, line, s1) = apt_text_line_read s in (if ok then mrcp_message_start p line else None, s1))"

text \<open>The third result is the number of bytes of the body to be read.\<close>

definition mrcp_parser_on_header_complete ::
  "'r mrcp_parser \<Rightarrow> 'r mrcp_message \<Rightarrow> bool \<times> 'r mrcp_message \<times> nat" where
  "mrcp_parser_on_header_complete p m =
     (let (ok, m1) =
        (if sl_version (msg_start_line m) = MRCP_VERSION_2 then
           (let (found, ch, h) = mrcp_channel_id_parse (msg_channel_id m) (msg_header m);
                m1 = m\<lparr>msg_channel_id := ch, msg_header := h\<rparr>
            in if \<not> found then (False, m1)
               else (case mrcp_resource_find (par_factory p) (ch_resource_name ch) of
                       None \<Rightarrow> (False, m1)
                     | Some r \<Rightarrow> mrcp_message_resource_set m1 (Some r)))
         else (True, m))
      in if \<not> ok then (False, m1, length (msg_body m1))
         else
           (let m2 = m1\<lparr>msg_header := mrcp_header_fields_parse (msg_header m1)\<rparr>
            in if mrcp_generic_header_property_check m2 GENERIC_HEADER_CONTENT_LENGTH then
                 (case mrcp_generic_header_get m2 of
                    Some g \<Rightarrow> if content_length g \<noteq> 0 then (True, m2, content_length g)
                              else (True, m2, length (msg_body m2))
                  | None \<Rightarrow> (True, m2, length (msg_body m2)))
               else (True, m2, length (msg_body m2))))"

definition mrcp_parser_vtable :: "('r mrcp_parser, 'r mrcp_message) message_parser_vtable" where
  "mrcp_parser_vtable =
     \<lparr>pv_on_start = mrcp_parser_on_start, pv_on_header_complete = mrcp_parser_on_header_complete,
      pv_header = msg_section, pv_header_set = msg_section_set, pv_body = msg_body, pv_body_set = msg_body_set\<rparr>"

definition mrcp_parser_create ::
  "'r mrcp_resource_factory \<Rightarrow> ('r mrcp_parser, 'r mrcp_message) message_parser" where
  "mrcp_parser_create f = apt_message_parser_create \<lparr>par_factory = f, par_resource = None\<rparr> mrcp_parser_vtable"

definition mrcp_parser_resource_set ::
  "('r mrcp_parser, 'r mrcp_message) message_parser \<Rightarrow> string option
    \<Rightarrow> ('r mrcp_parser, 'r mrcp_message) message_parser" where
  "mrcp_parser_resource_set p name =
     (case name of
        None \<Rightarrow> p
      | Some n \<Rightarrow> p\<lparr>mp_obj := (mp_obj p)\<lparr>par_resource := mrcp_resource_find (par_factory (mp_obj p)) n\<rparr>\<rparr>)"

definition mrcp_parser_run ::
  "('r mrcp_parser, 'r mrcp_message) message_parser \<Rightarrow> text_stream \<Rightarrow> ('r mrcp_parser, 'r mrcp_message) parser_result" where
  "mrcp_parser_run p s = apt_message_parser_run p s"

section \<open>Generation\<close>

text \<open>The channel identifier is written without looking whether there was room for it.\<close>

definition mrcp_generator_on_start :: "'r mrcp_message \<Rightarrow> out_stream \<Rightarrow> (bool \<times> 'r mrcp_message \<times> out_stream) option" where
  "mrcp_generator_on_start m s =
     (let (ok, m1) = mrcp_message_validate m in
      if \<not> ok then Some (False, m1, s)
      else do {
        (ok2, sl, s1) \<leftarrow> mrcp_start_line_generate (msg_start_line m1) s;
        let m2 = m1\<lparr>msg_start_line := sl\<rparr>;
        if \<not> ok2 then Some (False, m2, s1)
        else if sl_version sl = MRCP_VERSION_2 then
          Some (True, m2, snd (mrcp_channel_id_generate (msg_channel_id m2) s1))
        else Some (True, m2, s1)
      })"

definition mrcp_generator_on_header_complete ::
  "'r mrcp_message \<Rightarrow> out_stream \<Rightarrow> bool \<times> 'r mrcp_message \<times> out_stream" where
  "mrcp_generator_on_header_complete m s =
     (let (ok, sl, s1) = mrcp_start_line_finalize (msg_start_line m) (length (msg_body m)) s
      in (ok, m\<lparr>msg_start_line := sl\<rparr>, s1))"

definition mrcp_generator_vtable :: "'r mrcp_message message_generator_vtable" where
  "mrcp_generator_vtable =
     \<lparr>gv_on_start = mrcp_generator_on_start, gv_on_header_complete = Some mrcp_generator_on_header_complete,
      gv_header = msg_section, gv_body = msg_body, gv_body_set = msg_body_set\<rparr>"

definition mrcp_generator_create :: "'r mrcp_message message_generator" where
  "mrcp_generator_create = apt_message_generator_create mrcp_generator_vtable"

definition mrcp_generator_run ::
  "'r mrcp_message message_generator \<Rightarrow> nat option \<Rightarrow> 'r mrcp_message \<Rightarrow> out_stream \<Rightarrow> 'r mrcp_message generator_result" where
  "mrcp_generator_run g a m s = apt_message_generator_run g a m s"

text \<open>The whole message but its body, in one call.\<close>

definition mrcp_message_generate :: "'r mrcp_message \<Rightarrow> out_stream \<Rightarrow> (bool \<times> 'r mrcp_message \<times> out_stream) option" where
  "mrcp_message_generate m s = do {
     (ok, m1, s1) \<leftarrow> mrcp_generator_on_start m s;
     if \<not> ok then Some (False, m1, s1)
     else (let (ok2, s2) = apt_header_section_generate (msg_section m1) s1
           in if \<not> ok2 then Some (False, m1, s2) else Some (mrcp_generator_on_header_complete m1 s2))
   }"

section \<open>MRCP is a protocol of messages\<close>

interpretation mrcp: message_protocol mrcp_parser_vtable p "mrcp_message_start p"
  for p :: "'r mrcp_parser"
  by unfold_locales (simp_all add: mrcp_parser_vtable_def mrcp_parser_on_start_def msg_section_def
      msg_section_set_def msg_body_set_def)

section \<open>A message on the wire\<close>

text \<open>The header field that carries the channel identifier; the generator writes it first.\<close>

definition channel_field :: "mrcp_channel_id \<Rightarrow> header_field" where
  "channel_field ch = apt_header_field_create MRCP_CHANNEL_ID
     (apt_id_resource_generate (ch_session_id ch) (ch_resource_name ch) (CHR ''@''))"

text \<open>The fields say how long the body is: each content length, and there is one with a body.\<close>

definition content_length_ok :: "header_field list \<Rightarrow> string \<Rightarrow> bool" where
  "content_length_ok fs b \<longleftrightarrow> list_all (\<lambda>f. is_content_length f \<longrightarrow> hf_value f = show_nat (length b)) fs
     \<and> (b \<noteq> [] \<longrightarrow> list_ex is_content_length fs)"

definition method_known :: "'r mrcp_resource \<Rightarrow> mrcp_start_line \<Rightarrow> bool" where
  "method_known r sl =
     (let is_entry = (\<lambda>table count. sl_method_id sl < count
            \<and> apt_string_table_id_find (take count table) (sl_method_name sl) = sl_method_id sl)
      in case sl_message_type sl of
           MRCP_MESSAGE_TYPE_REQUEST \<Rightarrow> is_entry (res_method_table r (sl_version sl)) (res_method_count r)
         | MRCP_MESSAGE_TYPE_EVENT \<Rightarrow> is_entry (res_event_table r (sl_version sl)) (res_event_count r)
         | _ \<Rightarrow> True)"

text \<open>
  A version 2 message a peer with these resources can read: no line ends in its texts, a body
  length that is told, a resource and a method that are known.
\<close>

definition message_wire_ok :: "'r mrcp_resource_factory \<Rightarrow> 'r mrcp_message \<Rightarrow> bool" where
  "message_wire_ok f m \<longleftrightarrow>
     (let sl = msg_start_line m; ch = msg_channel_id m; fs = section_fields (msg_section m)
      in sl_version sl = MRCP_VERSION_2 \<and> start_line_ok sl \<and> no_eol (sl_method_name sl)
       \<and> CHR ''@'' \<notin> set (ch_session_id ch) \<and> field_ok (channel_field ch) \<and> list_all field_ok fs
       \<and> content_length_ok fs (msg_body m) \<and> length (msg_body m) < 2 ^ 63
       \<and> (case mrcp_resource_find f (ch_resource_name ch) of
            None \<Rightarrow> False
          | Some r \<Rightarrow> method_known r sl \<and>
              (case res_header_vtable r MRCP_VERSION_2 of
                 None \<Rightarrow> False
               | Some vt \<Rightarrow> list_all (\<lambda>f. is_content_length f \<longrightarrow> \<not> vtable_knows vt (hf_name f)) fs)))"

text \<open>What of a message its text tells the receiver.\<close>

definition same_message :: "'r mrcp_message \<Rightarrow> 'r mrcp_message \<Rightarrow> bool" where
  "same_message m M \<longleftrightarrow>
     (let sl = msg_start_line m; sl' = msg_start_line M; t = sl_message_type sl
      in sl_message_type sl' = t \<and> sl_version sl' = sl_version sl \<and> sl_request_id sl' = sl_request_id sl
       \<and> (t = MRCP_MESSAGE_TYPE_RESPONSE \<longrightarrow> sl_status_code sl' = sl_status_code sl)
       \<and> (t \<noteq> MRCP_MESSAGE_TYPE_RESPONSE \<longrightarrow>
            sl_method_name sl' = sl_method_name sl \<and> sl_method_id sl' = sl_method_id sl)
       \<and> (t \<noteq> MRCP_MESSAGE_TYPE_REQUEST \<longrightarrow> sl_request_state sl' = sl_request_state sl)
       \<and> msg_channel_id M = msg_channel_id m \<and> msg_body M = msg_body m
       \<and> map field_pair (section_fields (msg_section M)) = map field_pair (section_fields (msg_section m)))"

subsection \<open>Reading it\<close>

lemma content_length_fold:
  assumes "content_length_ok fs b" "length b < 2 ^ 63"
  shows "fold (\<lambda>f c. if is_content_length f \<and> hf_value f \<noteq> [] then apt_size_value_parse (hf_value f) else c) fs c
    = (if list_ex is_content_length fs then length b else c)"
proof -
  have v: "apt_size_value_parse (show_nat (length b)) = length b"
    using size_roundtrip[OF assms(2)] by (simp add: apt_size_value_generate_def)
  have "list_all (\<lambda>f. is_content_length f \<longrightarrow> hf_value f = show_nat (length b)) fs"
    using assms by (simp add: content_length_ok_def)
  then show ?thesis by (induction fs arbitrary: c) (auto simp: v)
qed

lemma content_length_raw [simp]: "is_content_length (raw_field f) = is_content_length f"
  by (simp add: is_content_length_def raw_field_def)

lemma content_length_ok_raw [simp]: "content_length_ok (map raw_field fs) b = content_length_ok fs b"
  by (simp add: content_length_ok_def list_all_iff list_ex_iff) (simp add: raw_field_def)

lemma fields_added_wf: "section_wf h \<Longrightarrow> section_wf (fields_added fs h)"
  by (induction fs arbitrary: h) (simp_all add: field_add_wf)

lemma field_text_pair: "map field_text r = map field_text r' \<Longrightarrow> map field_pair (map snd r) = map field_pair (map snd r')"
proof -
  have "map field_pair (map snd r) = map snd (map field_text r)" for r :: "(nat \<times> header_field) list"
    by (simp add: field_pair_def field_text_def)
  then show "map field_text r = map field_text r' \<Longrightarrow> map field_pair (map snd r) = map field_pair (map snd r')"
    by metis
qed

lemma channel_id_parse_first:
  assumes "sec_ring (mh_section h) = (a, raw_field (channel_field ch)) # rest" "CHR ''@'' \<notin> set (ch_session_id ch)"
  shows "mrcp_channel_id_parse ch0 h
    = (True, ch, h\<lparr>mh_section := apt_header_section_field_remove (mh_section h) (a, raw_field (channel_field ch))\<rparr>)"
proof -
  let ?v = "apt_id_resource_generate (ch_session_id ch) (ch_resource_name ch) (CHR ''@'')"
  have v: "?v \<noteq> []" by (simp add: apt_id_resource_generate_def)
  have eq: "strncaseeq (length MRCP_CHANNEL_ID) MRCP_CHANNEL_ID MRCP_CHANNEL_ID" by (simp add: MRCP_CHANNEL_ID_def)
  have "apt_id_resource_parse ?v (length ?v) (CHR ''@'') = Some (ch_session_id ch, ch_resource_name ch)"
    using id_resource_roundtrip[OF assms(2), of "ch_resource_name ch" "[]"] by simp
  then show ?thesis using assms(1) v eq
    by (simp add: mrcp_channel_id_parse_def raw_field_def channel_field_def apt_header_field_create_def)
qed

text \<open>The section when the header is complete, with the channel identifier and without it.\<close>

lemma received_section:
  assumes "sec = fields_added (f # fs) apt_header_section_init"
  shows "\<exists>a rest. sec_ring sec = (a, raw_field f) # rest \<and> map snd rest = map raw_field fs \<and> sec_arr sec = []
    \<and> section_wf sec \<and> apt_header_section_field_remove sec (a, raw_field f) = sec\<lparr>sec_ring := rest\<rparr>
    \<and> section_wf (sec\<lparr>sec_ring := rest\<rparr>)"
proof -
  have wf: "section_wf sec" using assms fields_added_wf by (metis section_init_wf)
  have "section_fields sec = map raw_field (f # fs)" and arr: "sec_arr sec = []"
    unfolding assms using fields_added_section[of apt_header_section_init "f # fs"]
    by (simp_all add: apt_header_section_init_def section_fields_def)
  then obtain a rest where r: "sec_ring sec = (a, raw_field f) # rest" "map snd rest = map raw_field fs"
    by (auto simp: section_fields_def map_eq_Cons_conv)
  have "filter (\<lambda>x. fst x \<noteq> a) rest = rest"
    using wf r(1) by (auto simp: section_wf_def filter_id_conv)
  then have rm: "apt_header_section_field_remove sec (a, raw_field f) = sec\<lparr>sec_ring := rest\<rparr>"
    using r arr by (simp add: apt_header_section_field_remove_def raw_field_def)
  have "section_wf (sec\<lparr>sec_ring := rest\<rparr>)" using wf r(1) arr by (auto simp: section_wf_def)
  then show ?thesis using r arr wf rm by blast
qed

text \<open>The resource of a message that was received, by its name.\<close>

lemma resource_set_received:
  assumes "res_header_vtable r MRCP_VERSION_2 = Some vt" "sl_version (msg_start_line m) = MRCP_VERSION_2"
    and known: "method_known r sl" and sl: "sl_message_type (msg_start_line m) = sl_message_type sl"
    and name: "sl_message_type sl \<noteq> MRCP_MESSAGE_TYPE_RESPONSE \<Longrightarrow> sl_method_name (msg_start_line m) = sl_method_name sl"
    and v: "sl_version sl = MRCP_VERSION_2" and t: "sl_message_type sl \<noteq> MRCP_MESSAGE_TYPE_UNKNOWN"
  shows "\<exists>i. mrcp_message_resource_set m (Some r) = (True,
      m\<lparr>msg_resource := Some r, msg_header := \<lparr>mh_generic = Some (generic_header_vtable, mrcp_generic_header_init),
          mh_resource = Some (vt, vt_allocate vt),
          mh_section = (mh_section (msg_header m))\<lparr>sec_arr := replicate (16 + length (vt_field_table vt)) None\<rparr>\<rparr>,
        msg_start_line := (msg_start_line m)\<lparr>sl_method_id := i\<rparr>\<rparr>)
    \<and> (sl_message_type sl \<noteq> MRCP_MESSAGE_TYPE_RESPONSE \<longrightarrow> i = sl_method_id sl)"
proof -
  have al: "msg_header_alloc r (m\<lparr>msg_resource := Some r\<rparr>) = m\<lparr>msg_resource := Some r, msg_header :=
      \<lparr>mh_generic = Some (generic_header_vtable, mrcp_generic_header_init), mh_resource = Some (vt, vt_allocate vt),
        mh_section = (mh_section (msg_header m))\<lparr>sec_arr := replicate (16 + length (vt_field_table vt)) None\<rparr>\<rparr>\<rparr>"
    using assms(1,2) by (simp add: msg_header_alloc_def mrcp_message_header_data_alloc_def
        mrcp_generic_header_vtable_get_def generic_header_vtable_def apt_header_section_array_alloc_def)
  have self: "sl0\<lparr>sl_method_id := sl_method_id sl0\<rparr> = sl0" for sl0 :: mrcp_start_line by simp
  show ?thesis
    using known sl name v t assms(2)
    by (cases "sl_message_type sl")
      (auto simp: mrcp_message_resource_set_def al method_known_def set_start_line_def Let_def
        intro: exI[of _ "sl_method_id (msg_start_line m)"])
qed

lemma content_length_init: "content_length mrcp_generic_header_init = 0"
  by (simp add: mrcp_generic_header_init_def)

lemma fields_parse_body_length:
  assumes "mh_generic h = Some (generic_header_vtable, mrcp_generic_header_init)" "mh_resource h = Some (vt, d)"
    and "\<And>f. f \<in> set (section_fields (mh_section h)) \<Longrightarrow> is_content_length f \<Longrightarrow> \<not> vtable_knows vt (hf_name f)"
    and none: "list_all (\<lambda>x. x = None) (sec_arr (mh_section h))" and arr: "8 < length (sec_arr (mh_section h))"
    and cl: "content_length_ok (section_fields (mh_section h)) b" "length b < 2 ^ 63"
  shows "\<exists>g. mh_generic (mrcp_header_fields_parse h) = Some (generic_header_vtable, g)
    \<and> content_length g = (if list_ex is_content_length (section_fields (mh_section h)) then length b else 0)
    \<and> apt_header_section_field_check (mh_section (mrcp_header_fields_parse h)) GENERIC_HEADER_CONTENT_LENGTH
      = list_ex is_content_length (section_fields (mh_section h))"
proof -
  have empty: "\<not> apt_header_section_field_check (mh_section h) GENERIC_HEADER_CONTENT_LENGTH"
    using none arr by (simp add: apt_header_section_field_check_def list_all_length)
  have sec: "mh_generic (mrcp_header_fields_parse h) = mh_generic (fst (header_fields_parse_loop h (sec_ring (mh_section h))))"
    "apt_header_section_field_check (mh_section (mrcp_header_fields_parse h)) i
      = apt_header_section_field_check (mh_section (fst (header_fields_parse_loop h (sec_ring (mh_section h))))) i" for i
    by (simp_all add: mrcp_header_fields_parse_def split_beta apt_header_section_field_check_def)
  have k: "\<And>f. f \<in> set (map snd (sec_ring (mh_section h))) \<Longrightarrow> is_content_length f \<Longrightarrow> \<not> vtable_knows vt (hf_name f)"
    using assms(3) by (simp add: section_fields_def)
  have "\<exists>g d'. mh_generic (fst (header_fields_parse_loop h (sec_ring (mh_section h)))) = Some (generic_header_vtable, g)
    \<and> mh_resource (fst (header_fields_parse_loop h (sec_ring (mh_section h)))) = Some (vt, d')
    \<and> content_length g = fold (\<lambda>f c. if is_content_length f \<and> hf_value f \<noteq> [] then apt_size_value_parse (hf_value f) else c)
        (map snd (sec_ring (mh_section h))) (content_length mrcp_generic_header_init)
    \<and> apt_header_section_field_check (mh_section (fst (header_fields_parse_loop h (sec_ring (mh_section h)))))
        GENERIC_HEADER_CONTENT_LENGTH
      = (apt_header_section_field_check (mh_section h) GENERIC_HEADER_CONTENT_LENGTH
         \<or> list_ex is_content_length (map snd (sec_ring (mh_section h))))"
    by (rule parse_loop_content_length[OF assms(1,2) _ arr]) (rule k)
  then show ?thesis using content_length_fold[OF cl, of 0] empty
    unfolding sec section_fields_def content_length_init by (elim exE conjE) (intro exI conjI, auto)
qed

lemma header_complete_received:
  assumes ok: "message_wire_ok f m" and obj: "par_factory obj = f"
    and m0: "msg_start_line m0 = parsed_line l (msg_start_line m) sl0"
      "mh_section (msg_header m0) = fields_added (channel_field (msg_channel_id m) # section_fields (msg_section m)) apt_header_section_init"
      "msg_body m0 = []"
  shows "\<exists>M. mrcp_parser_on_header_complete obj m0 = (True, M, length (msg_body m)) \<and> msg_body M = []
    \<and> same_message m (msg_body_set (msg_body m) M)
    \<and> msg_resource M = mrcp_resource_find f (ch_resource_name (msg_channel_id m))"
proof -
  let ?sl = "msg_start_line m" and ?ch = "msg_channel_id m" and ?fs = "section_fields (msg_section m)"
    and ?b = "msg_body m" and ?sec = "mh_section (msg_header m0)"
  obtain r vt where r: "mrcp_resource_find f (ch_resource_name ?ch) = Some r" "method_known r ?sl"
      "res_header_vtable r MRCP_VERSION_2 = Some vt"
      "list_all (\<lambda>f. is_content_length f \<longrightarrow> \<not> vtable_knows vt (hf_name f)) ?fs"
    using ok by (auto simp: message_wire_ok_def Let_def split: option.splits)
  have v: "sl_version ?sl = MRCP_VERSION_2" and slok: "start_line_ok ?sl" and at: "CHR ''@'' \<notin> set (ch_session_id ?ch)"
    and cl: "content_length_ok ?fs ?b" "length ?b < 2 ^ 63"
    using ok by (auto simp: message_wire_ok_def Let_def)
  have t: "sl_message_type ?sl \<noteq> MRCP_MESSAGE_TYPE_UNKNOWN" using slok by (auto simp: start_line_ok_def)
  obtain a rest where sec: "sec_ring ?sec = (a, raw_field (channel_field ?ch)) # rest" "map snd rest = map raw_field ?fs"
      "apt_header_section_field_remove ?sec (a, raw_field (channel_field ?ch)) = ?sec\<lparr>sec_ring := rest\<rparr>"
      "section_wf (?sec\<lparr>sec_ring := rest\<rparr>)"
    using received_section[OF m0(2)] by blast
  let ?m1 = "m0\<lparr>msg_channel_id := ?ch, msg_header := (msg_header m0)\<lparr>mh_section := ?sec\<lparr>sec_ring := rest\<rparr>\<rparr>\<rparr>"
  have chan: "mrcp_channel_id_parse (msg_channel_id m0) (msg_header m0)
      = (True, ?ch, (msg_header m0)\<lparr>mh_section := ?sec\<lparr>sec_ring := rest\<rparr>\<rparr>)"
    using channel_id_parse_first[OF sec(1) at] sec(3) by simp
  have line: "sl_version (msg_start_line m0) = MRCP_VERSION_2" "sl_message_type (msg_start_line m0) = sl_message_type ?sl"
      "sl_message_type ?sl \<noteq> MRCP_MESSAGE_TYPE_RESPONSE \<Longrightarrow> sl_method_name (msg_start_line m0) = sl_method_name ?sl"
    using v by (simp_all add: m0 parsed_line_def Let_def)
  let ?h = "\<lparr>mh_generic = Some (generic_header_vtable, mrcp_generic_header_init), mh_resource = Some (vt, vt_allocate vt),
      mh_section = (?sec\<lparr>sec_ring := rest\<rparr>)\<lparr>sec_arr := replicate (16 + length (vt_field_table vt)) None\<rparr>\<rparr>"
  obtain i where set: "mrcp_message_resource_set ?m1 (Some r) = (True, ?m1\<lparr>msg_resource := Some r, msg_header := ?h,
        msg_start_line := (msg_start_line m0)\<lparr>sl_method_id := i\<rparr>\<rparr>)"
      "sl_message_type ?sl \<noteq> MRCP_MESSAGE_TYPE_RESPONSE \<longrightarrow> i = sl_method_id ?sl"
    using resource_set_received[of r vt ?m1 ?sl, OF r(3) _ r(2) _ _ v t] line by auto
  have hwf: "section_wf (mh_section ?h)" "list_all (\<lambda>x. x = None) (sec_arr (mh_section ?h))"
    using sec(4) by (auto simp: section_wf_def list_all_iff)
  let ?h2 = "mrcp_header_fields_parse ?h"
  have pairs: "map field_pair (section_fields (mh_section ?h2)) = map field_pair ?fs"
  proof -
    have "map field_pair (section_fields (mh_section ?h2)) = map field_pair (map snd rest)"
      unfolding section_fields_def using fields_parse_wf[OF hwf] by (intro field_text_pair) simp
    then show ?thesis using sec(2) by simp
  qed
  have known: "\<And>g. g \<in> set (section_fields (mh_section ?h)) \<Longrightarrow> is_content_length g \<Longrightarrow> \<not> vtable_knows vt (hf_name g)"
    using r(4) sec(2) by (auto simp: list_all_iff raw_field_def is_content_length_def section_fields_def)
  have ex: "list_ex is_content_length (section_fields (mh_section ?h)) = list_ex is_content_length ?fs"
    using sec(2) by (simp add: section_fields_def list_ex_iff)
  have "content_length_ok (section_fields (mh_section ?h)) ?b" unfolding section_fields_def[of "mh_section ?h"] using sec(2) cl by simp
  from fields_parse_body_length[OF _ _ _ hwf(2) _ this cl(2)] known
  obtain g' where g: "mh_generic ?h2 = Some (generic_header_vtable, g')"
      "content_length g' = (if list_ex is_content_length ?fs then length ?b else 0)"
      "apt_header_section_field_check (mh_section ?h2) GENERIC_HEADER_CONTENT_LENGTH = list_ex is_content_length ?fs"
    unfolding ex by auto
  let ?M = "?m1\<lparr>msg_resource := Some r, msg_start_line := (msg_start_line m0)\<lparr>sl_method_id := i\<rparr>, msg_header := ?h2\<rparr>"
  have len: "?b \<noteq> [] \<Longrightarrow> list_ex is_content_length ?fs" using cl by (simp add: content_length_ok_def)
  have done_: "mrcp_parser_on_header_complete obj m0 = (True, ?M, length ?b)"
    using chan r(1) set(1) line(1) g len m0(3)
    by (auto simp: mrcp_parser_on_header_complete_def obj mrcp_generic_header_property_check_def
        mrcp_generic_header_get_def Let_def)
  have same: "same_message m (msg_body_set ?b ?M)"
    using set(2) pairs v by (auto simp: same_message_def Let_def m0(1) parsed_line_def msg_section_def msg_body_set_def)
  show ?thesis using done_ same m0(3) r(1) by (intro exI[of _ ?M]) simp
qed

text \<open>The text of a message whose start line says \<open>l\<close>, and the message a parser makes of it.\<close>

definition message_wire :: "nat \<Rightarrow> 'r mrcp_message \<Rightarrow> string" where
  "message_wire l m = message_text (join_sp (start_line_fields (show_nat l) (msg_start_line m)))
     (channel_field (msg_channel_id m) # section_fields (msg_section m)) (msg_body m)"

lemma message_start_received:
  assumes "start_line_ok sl" "sl_version sl = MRCP_VERSION_2" "l < 2 ^ 63"
  shows "mrcp_message_start p (join_sp (start_line_fields (show_nat l) sl))
    = Some ((mrcp_message_create 0)\<lparr>msg_start_line := parsed_line l sl (mrcp_start_line_init 0)\<rparr>)"
  using start_line_parse_fields[OF assms(1,3), of "mrcp_start_line_init 0"] assms(2)
  by (simp add: mrcp_message_start_def mrcp_message_create_def parsed_line_def Let_def)

lemma message_wire_completes:
  fixes m :: "'r mrcp_message"
  assumes ok: "message_wire_ok f m" and obj: "par_factory obj = f" and l: "l < 2 ^ 63"
  shows "\<exists>M m0. same_message m M \<and> msg_resource M = mrcp_resource_find f (ch_resource_name (msg_channel_id m))
    \<and> no_eol (join_sp (start_line_fields (show_nat l) (msg_start_line m)))
    \<and> mrcp_message_start obj (join_sp (start_line_fields (show_nat l) (msg_start_line m))) = Some m0
    \<and> list_all field_ok (channel_field (msg_channel_id m) # section_fields (msg_section m)) \<and> body_small (msg_body m)
    \<and> header_completes mrcp_parser_vtable obj m0 (channel_field (msg_channel_id m) # section_fields (msg_section m))
        (msg_body m) M"
proof -
  let ?fs = "channel_field (msg_channel_id m) # section_fields (msg_section m)"
  let ?m0 = "(mrcp_message_create 0 :: 'r mrcp_message)\<lparr>msg_start_line := parsed_line l (msg_start_line m) (mrcp_start_line_init 0)\<rparr>"
  let ?m1 = "msg_section_set (fields_added ?fs (msg_section ?m0)) ?m0"
  have sl: "start_line_ok (msg_start_line m)" "sl_version (msg_start_line m) = MRCP_VERSION_2"
      "no_eol (sl_method_name (msg_start_line m))" and fs: "list_all field_ok ?fs"
      and b: "length (msg_body m) < 2 ^ 63"
    using ok by (auto simp: message_wire_ok_def Let_def)
  have m1: "msg_start_line ?m1 = parsed_line l (msg_start_line m) (mrcp_start_line_init 0)"
      "mh_section (msg_header ?m1) = fields_added ?fs apt_header_section_init" "msg_body ?m1 = []"
    by (simp_all add: msg_section_set_def msg_section_def mrcp_message_create_def mrcp_message_header_init_def
        del: fields_added_simps)
  obtain M where M: "mrcp_parser_on_header_complete obj ?m1 = (True, M, length (msg_body m))" "msg_body M = []"
      "same_message m (msg_body_set (msg_body m) M)"
      "msg_resource M = mrcp_resource_find f (ch_resource_name (msg_channel_id m))"
    using header_complete_received[OF ok obj m1] by blast
  let ?M = "msg_body_set (msg_body m) M"
  have id: "msg_body_set [] M = M" using M(2) by (simp add: msg_body_set_def)
  show ?thesis
  proof (intro exI conjI)
    show "header_completes mrcp_parser_vtable obj ?m0 ?fs (msg_body m) ?M"
      unfolding header_completes_def using M(1) id by (auto simp: mrcp_parser_vtable_def)
    show "no_eol (join_sp (start_line_fields (show_nat l) (msg_start_line m)))" by (rule no_eol_fields[OF sl(1,3)]) simp
    show "msg_resource ?M = mrcp_resource_find f (ch_resource_name (msg_channel_id m))" using M(4) by (simp add: msg_body_set_def)
    show "body_small (msg_body m)" using b by (simp add: body_small_def)
  qed (rule M(3) message_start_received[OF sl(1,2) l] fs)+
qed

lemma message_wire_received:
  assumes "message_wire_ok f m" and "par_factory obj = f" and "l < 2 ^ 63"
  shows "\<exists>M. same_message m M \<and> msg_resource M = mrcp_resource_find f (ch_resource_name (msg_channel_id m))
    \<and> (\<forall>W Ms. message_stream mrcp_parser_vtable obj (mrcp_message_start obj) W Ms \<longrightarrow>
        message_stream mrcp_parser_vtable obj (mrcp_message_start obj) (message_wire l m @ W) (M # Ms))"
  using message_wire_completes[OF assms] unfolding message_wire_def by (blast intro: stream_message)

text \<open>Generation: the header in the buffer, then the body.\<close>

lemma field_line_channel:
  "field_line (channel_field ch) = MRCP_CHANNEL_ID @ [CHR '':'', sp]
     @ apt_id_resource_generate (ch_session_id ch) (ch_resource_name ch) (CHR ''@'')"
  by (simp add: field_line_def channel_field_def apt_header_field_create_def)

definition message_head_size :: "'r mrcp_message \<Rightarrow> nat" where
  "message_head_size m = length (sl_method_name (msg_start_line m))
     + length (fields_text (channel_field (msg_channel_id m) # section_fields (msg_section m)))"

lemma generator_head:
  fixes m :: "'r mrcp_message"
  assumes val: "mrcp_message_validate m = (True, mv)" and ok: "message_wire_ok f mv" and s: "os_text s = []"
    and size: "message_head_size mv + length (msg_body mv) < 999900" "message_head_size mv + 64 < os_size s"
  shows "\<exists>l m1 s1 s2 s3. mrcp_generator_on_start m s = Some (True, m1, s1)
    \<and> apt_header_section_generate (msg_section m1) s1 = (True, s2)
    \<and> mrcp_generator_on_header_complete m1 s2
      = (True, mv\<lparr>msg_start_line := (msg_start_line mv)\<lparr>sl_length := l\<rparr>\<rparr>, s3)
    \<and> os_text s3 @ msg_body mv = message_wire l mv \<and> l = length (message_wire l mv) \<and> l < 2 ^ 63
    \<and> os_size s \<le> message_head_size mv + 52 + (os_size s3 - length (os_text s3))
    \<and> length (os_text s3) \<le> os_size s3"
proof -
  let ?sl = "msg_start_line mv" and ?ch = "msg_channel_id mv" and ?fs = "section_fields (msg_section mv)"
  let ?cl = "field_line (channel_field ?ch) @ [cr, lf]" and ?h = "fields_text (channel_field ?ch # section_fields (msg_section mv))"
  have w: "sl_version ?sl = MRCP_VERSION_2" "start_line_ok ?sl" "no_eol (sl_method_name ?sl)"
    using ok by (auto simp: message_wire_ok_def Let_def)
  have h: "?h = ?cl @ fields_text ?fs" by simp
  have room: "start_line_room ?sl s" using size s by (simp add: start_line_room_def message_head_size_def del: fields_text_simps)
  obtain wt l s3 where g: "mrcp_start_line_generate ?sl s = Some (True, ?sl\<lparr>sl_length := 9\<rparr>, os_write wt s)"
      "length wt \<le> length (sl_method_name ?sl) + 52"
      "mrcp_start_line_finalize (?sl\<lparr>sl_length := 9\<rparr>) (length (msg_body mv)) (os_write ?h (os_write wt s))
        = (True, ?sl\<lparr>sl_length := l\<rparr>, s3)"
      "os_text s3 = join_sp (start_line_fields (show_nat l) ?sl) @ [cr, lf] @ ?h"
      "l = length (os_text s3) + length (msg_body mv)" "l < 2 ^ 63" "os_size s \<le> os_size s3 + 6"
      "length (os_text s3) + os_size s \<le> length wt + length ?h + os_size s3"
    using start_line_v2_written[OF w(2,1,3) s room, of ?h "length (msg_body mv)"] size
    unfolding message_head_size_def by blast
  let ?m1 = "mv\<lparr>msg_start_line := ?sl\<lparr>sl_length := 9\<rparr>\<rparr>" and ?s1 = "os_write ?cl (os_write wt s)"
  have chan: "mrcp_channel_id_generate ?ch (os_write wt s) = (True, ?s1)"
    using channel_id_text[of "os_write wt s" ?ch] size(2) g(2) s
    by (simp add: field_line_channel message_head_size_def fields_text_def apt_id_resource_generate_def MRCP_CHANNEL_ID_def)
  have start: "mrcp_generator_on_start m s = Some (True, ?m1, ?s1)"
    using val g(1) chan w(1) by (simp add: mrcp_generator_on_start_def Let_def)
  have sec: "apt_header_section_generate (msg_section ?m1) ?s1 = (True, os_write (fields_text ?fs) ?s1)"
    using section_generate_text[of ?s1 "msg_section ?m1"] size(2) g(2) s
    by (simp add: message_head_size_def msg_section_def)
  have eq: "os_write (fields_text ?fs) ?s1 = os_write ?h (os_write wt s)" unfolding h by simp
  have fin: "mrcp_generator_on_header_complete ?m1 (os_write (fields_text ?fs) ?s1)
      = (True, mv\<lparr>msg_start_line := ?sl\<lparr>sl_length := l\<rparr>\<rparr>, s3)"
    unfolding mrcp_generator_on_header_complete_def eq using g(3) by simp
  have tx: "os_text s3 @ msg_body mv = message_wire l mv" using g(4) by (simp add: message_wire_def message_text_def)
  show ?thesis
  proof (intro exI conjI)
    show "l = length (message_wire l mv)" unfolding tx[symmetric] using g(5) by simp
    show "os_size s \<le> message_head_size mv + 52 + (os_size s3 - length (os_text s3))"
      "length (os_text s3) \<le> os_size s3"
      using g(2,8) size(2) unfolding message_head_size_def by linarith+
  qed (rule start sec fin tx g(6))+
qed

text \<open>A generator that was just created writes the whole message in one run.\<close>

lemma generator_run_message:
  fixes m :: "'r mrcp_message"
  assumes val: "mrcp_message_validate m = (True, mv)" and ok: "message_wire_ok f mv" and s: "os_text s = []"
    and size: "message_head_size mv + length (msg_body mv) < 999900"
      "message_head_size mv + length (msg_body mv) + 64 < os_size s"
  shows "\<exists>l g s1. mrcp_generator_run mrcp_generator_create (Some a) m s
      = Some (APT_MESSAGE_STATUS_COMPLETE, mv\<lparr>msg_start_line := (msg_start_line mv)\<lparr>sl_length := l\<rparr>\<rparr>, g, s1)
    \<and> os_text s1 = message_wire l mv \<and> l = length (os_text s1) \<and> l < 2 ^ 63 \<and> mg_stage g = APT_MESSAGE_STAGE_START_LINE"
proof -
  obtain l m1 s1 s2 s3 where g: "mrcp_generator_on_start m s = Some (True, m1, s1)"
    "apt_header_section_generate (msg_section m1) s1 = (True, s2)"
    "mrcp_generator_on_header_complete m1 s2 = (True, mv\<lparr>msg_start_line := (msg_start_line mv)\<lparr>sl_length := l\<rparr>\<rparr>, s3)"
    "os_text s3 @ msg_body mv = message_wire l mv" "l = length (message_wire l mv)" "l < 2 ^ 63"
    "os_size s \<le> message_head_size mv + 52 + (os_size s3 - length (os_text s3))" "length (os_text s3) \<le> os_size s3"
    using generator_head[OF val ok s] size by fastforce
  have room: "length (msg_body mv) \<le> os_size s3 - length (os_text s3)" using g(7) size(2) by linarith
  have body: "msg_body_set (msg_body mv) (msg_body_set [] M) = M" if "msg_body M = msg_body mv" for M :: "'r mrcp_message"
    using that by (simp add: msg_body_set_def)
  show ?thesis
    using g room body
    by (auto simp: mrcp_generator_run_def apt_message_generator_run_def mrcp_generator_create_def
        apt_message_generator_create_def generator_run_start_def generator_run_body_def apt_message_body_write_def
        mrcp_generator_vtable_def Let_def msg_body_set_def)
qed

section \<open>Properties\<close>

text \<open>
  C6: A message survives the trip. The generator writes a version 2 message whole, with its own
  length in the start line, and a parser that knows its resource makes a message of the text
  with the same type, request identifier, method, status and state, the same channel, header
  fields and body.
\<close>

theorem mrcp_message_roundtrip:
  fixes m :: "'r mrcp_message"
  assumes "mrcp_message_validate m = (True, mv)" and "message_wire_ok f mv" and "os_text s = []"
    and "message_head_size mv + length (msg_body mv) < 999900"
    and "message_head_size mv + length (msg_body mv) + 64 < os_size s"
  shows "\<exists>mg g s1 M p t. mrcp_generator_run mrcp_generator_create (Some a) m s
      = Some (APT_MESSAGE_STATUS_COMPLETE, mg, g, s1) \<and> sl_length (msg_start_line mg) = length (os_text s1)
    \<and> mrcp_parser_run (mrcp_parser_create f) (apt_text_stream_of (os_text s1))
      = Some (APT_MESSAGE_STATUS_COMPLETE, Some M, p, t)
    \<and> same_message mv M \<and> msg_resource M = mrcp_resource_find f (ch_resource_name (msg_channel_id mv))"
proof -
  let ?p = "mrcp_parser_create f" and ?obj = "\<lparr>par_factory = f, par_resource = None\<rparr>"
  obtain l g s1 where w: "mrcp_generator_run mrcp_generator_create (Some a) m s
      = Some (APT_MESSAGE_STATUS_COMPLETE, mv\<lparr>msg_start_line := (msg_start_line mv)\<lparr>sl_length := l\<rparr>\<rparr>, g, s1)"
      "os_text s1 = message_wire l mv" "l = length (os_text s1)" "l < 2 ^ 63"
    using generator_run_message[OF assms] by blast
  obtain M where M: "same_message mv M" "msg_resource M = mrcp_resource_find f (ch_resource_name (msg_channel_id mv))"
      "message_stream mrcp_parser_vtable ?obj (mrcp_message_start ?obj) (message_wire l mv @ []) [M]"
    using message_wire_received[OF assms(2), of ?obj l] w(4) stream_end by fastforce
  have own: "mrcp.own ?obj ?p" by (simp add: mrcp.own_def mrcp_parser_create_def apt_message_parser_create_def)
  have ex: "expects (mrcp_message_start ?obj) ?p (os_text s1 @ []) [M]"
    using M(3) by (simp add: w(2) expects_def stage_expects_def mrcp_parser_create_def apt_message_parser_create_def)
  have ne: "os_text s1 \<noteq> []" by (simp add: w(2) message_wire_def message_text_def)
  have "mrcp.run_result ?obj (os_text s1) [] [M] (apt_message_parser_run ?p (apt_text_stream_of (os_text s1)))"
    by (rule mrcp.parser_run_result[OF own ex]) (use ne in \<open>simp_all add: apt_text_stream_of_def\<close>)
  then obtain p t where "mrcp_parser_run ?p (apt_text_stream_of (os_text s1))
      = Some (APT_MESSAGE_STATUS_COMPLETE, Some M, p, t)"
    unfolding mrcp.run_result_def mrcp_parser_run_def by auto
  with w(1,3) M(1,2) show ?thesis by fastforce
qed

definition sample_resource :: "unit mrcp_resource" where
  "sample_resource = \<lparr>res_id = 0, res_name = ''speechsynth'', res_method_count = 1, res_event_count = 1,
     res_method_table = (\<lambda>v. [\<lparr>st_value = ''SPEAK'', st_key = 0\<rparr>]),
     res_event_table = (\<lambda>v. [\<lparr>st_value = ''SPEECH-MARKER'', st_key = 0\<rparr>]),
     res_header_vtable = (\<lambda>v. Some \<lparr>vt_allocate = (), vt_parse_field = (\<lambda>_ _ _. (False, ())),
       vt_generate_field = (\<lambda>_ _. None), vt_duplicate_field = (\<lambda>_ _ _ _. (False, ())), vt_field_table = []\<rparr>)\<rparr>"

definition sample_factory :: "unit mrcp_resource_factory" where
  "sample_factory = snd (mrcp_resource_register \<lparr>rf_array = [None], rf_hash = (\<lambda>_. None)\<rparr> (Some sample_resource))"

definition sample_speak :: "unit mrcp_message" where
  "sample_speak = \<lparr>msg_start_line = (mrcp_start_line_init 0)\<lparr>sl_message_type := MRCP_MESSAGE_TYPE_REQUEST,
       sl_version := MRCP_VERSION_2, sl_request_id := 7, sl_method_name := ''SPEAK''\<rparr>,
     msg_channel_id = \<lparr>ch_session_id = ''32AECB'', ch_resource_name = ''speechsynth''\<rparr>,
     msg_header = \<lparr>mh_generic = Some (generic_header_vtable, mrcp_generic_header_init\<lparr>content_length := 2\<rparr>),
       mh_resource = None,
       mh_section = \<lparr>sec_ring = [(0, \<lparr>hf_name = ''Content-Length'', hf_value = ''2'', hf_id = 8\<rparr>)],
         sec_arr = (replicate 16 None)[8 := Some 0], sec_next = 1\<rparr>\<rparr>,
     msg_body = ''Hi'', msg_resource = None\<rparr>"

lemma sample_factory_find: "mrcp_resource_find sample_factory ''speechsynth'' = Some sample_resource"
  by (simp add: sample_factory_def mrcp_resource_register_def mrcp_resource_validate_def sample_resource_def
      mrcp_resource_find_def)

lemma sample_speak_ok:
  "mrcp_message_validate sample_speak = (True, sample_speak)" "message_wire_ok sample_factory sample_speak"
  "message_head_size sample_speak + length (msg_body sample_speak) < 999900"
proof -
  show "mrcp_message_validate sample_speak = (True, sample_speak)"
    by (simp add: mrcp_message_validate_def sample_speak_def mrcp_generic_header_prepare_def mrcp_generic_header_get_def
        mrcp_generic_header_property_check_def apt_header_section_field_check_def)
  let ?cl = "\<lparr>hf_name = ''Content-Length'', hf_value = ''2'', hf_id = 8\<rparr>"
  note chars = sp_def cr_def lf_def htab_def nul_def is_digit_def is_space_def apt_text_is_wsp_def tolower_def
  have cl: "is_content_length ?cl"
    using id_find_name[OF generic_table_wf, of 8] by (simp add: is_content_length_def generic_header_string_table_def)
  have two: "show_nat (Suc (Suc 0)) = ''2''" by (simp add: show_nat.simps digit_chars flip: numeral_2_eq_2)
  have chan: "field_ok (channel_field (msg_channel_id sample_speak))" "field_ok ?cl"
    by (simp_all add: field_ok_def channel_field_def apt_header_field_create_def apt_id_resource_generate_def
        MRCP_CHANNEL_ID_def header_name_ok_def sample_speak_def chars)
  have known: "method_known sample_resource (msg_start_line sample_speak)"
    unfolding sample_resource_def sample_speak_def mrcp_start_line_init_def by code_simp
  have sl: "start_line_ok (msg_start_line sample_speak)" "no_eol (sl_method_name (msg_start_line sample_speak))"
    by (simp_all add: sample_speak_def mrcp_start_line_init_def start_line_ok_def method_name_ok_def MRCP_NAME_def chars)
  have parts: "section_fields (msg_section sample_speak) = [?cl]" "msg_body sample_speak = ''Hi''"
    "ch_resource_name (msg_channel_id sample_speak) = ''speechsynth''" "CHR ''@'' \<notin> set (ch_session_id (msg_channel_id sample_speak))"
    "sl_version (msg_start_line sample_speak) = MRCP_VERSION_2"
    by (simp_all add: sample_speak_def msg_section_def section_fields_def)
  have vt: "\<exists>vt. res_header_vtable sample_resource MRCP_VERSION_2 = Some vt \<and> vt_field_table vt = []"
    by (simp add: sample_resource_def)
  show "message_wire_ok sample_factory sample_speak"
    using vt by (auto simp: message_wire_ok_def parts sample_factory_find known sl chan content_length_ok_def cl two
        vtable_knows_def)
  show "message_head_size sample_speak + length (msg_body sample_speak) < 999900"
    by (simp add: message_head_size_def sample_speak_def fields_text_def field_line_def channel_field_def
        apt_header_field_create_def apt_id_resource_generate_def MRCP_CHANNEL_ID_def msg_section_def section_fields_def)
qed

lemma mrcp_message_roundtrip_witness:
  "\<exists>mg g s1 M p t. mrcp_generator_run mrcp_generator_create (Some 1) sample_speak (apt_text_stream_init 1000)
      = Some (APT_MESSAGE_STATUS_COMPLETE, mg, g, s1)
    \<and> mrcp_parser_run (mrcp_parser_create sample_factory) (apt_text_stream_of (os_text s1))
      = Some (APT_MESSAGE_STATUS_COMPLETE, Some M, p, t)
    \<and> same_message sample_speak M \<and> msg_resource M = Some sample_resource"
proof -
  have s: "os_text (apt_text_stream_init 1000) = []"
    "message_head_size sample_speak + length (msg_body sample_speak) + 64 < os_size (apt_text_stream_init 1000)"
    "ch_resource_name (msg_channel_id sample_speak) = ''speechsynth''"
    by (simp_all add: apt_text_stream_init_def message_head_size_def sample_speak_def fields_text_def field_line_def
        channel_field_def apt_header_field_create_def apt_id_resource_generate_def MRCP_CHANNEL_ID_def
        msg_section_def section_fields_def)
  show ?thesis
    using mrcp_message_roundtrip[OF sample_speak_ok(1,2) s(1) sample_speak_ok(3) s(2), of 1]
    unfolding s(3) sample_factory_find by blast
qed

end
