(* ===== verification/Control_Descriptor.thy ===== *)
theory Control_Descriptor
  imports String_Table
begin

text \<open>
  \<open>libs/mrcpv2-transport/src/mrcp_control_descriptor.c\<close>: the description of a control channel
  that client and server offer and answer, and the names its values have in SDP.
\<close>

definition MRCP_PROTO_COUNT :: nat where "MRCP_PROTO_COUNT = 2"
definition MRCP_ATTRIB_COUNT :: nat where "MRCP_ATTRIB_COUNT = 5"
definition MRCP_SETUP_TYPE_COUNT :: nat where "MRCP_SETUP_TYPE_COUNT = 2"
definition MRCP_CONNECTION_TYPE_COUNT :: nat where "MRCP_CONNECTION_TYPE_COUNT = 2"

abbreviation (input) MRCP_PROTO_TCP :: nat where "MRCP_PROTO_TCP \<equiv> 0"
abbreviation (input) MRCP_SETUP_TYPE_ACTIVE :: nat where "MRCP_SETUP_TYPE_ACTIVE \<equiv> 0"
abbreviation (input) MRCP_SETUP_TYPE_PASSIVE :: nat where "MRCP_SETUP_TYPE_PASSIVE \<equiv> 1"
abbreviation (input) MRCP_CONNECTION_TYPE_NEW :: nat where "MRCP_CONNECTION_TYPE_NEW \<equiv> 0"
abbreviation (input) MRCP_CONNECTION_TYPE_EXISTING :: nat where "MRCP_CONNECTION_TYPE_EXISTING \<equiv> 1"

definition TCP_DISCARD_PORT :: u16 where "TCP_DISCARD_PORT = 9"

record mrcp_control_descriptor =
  cd_ip :: string
  cd_port :: u16
  cd_proto :: nat
  cd_setup_type :: nat
  cd_connection_type :: nat
  cd_resource_name :: string
  cd_session_id :: string
  cd_cmid_arr :: "nat list"
  cd_id :: nat

definition mrcp_proto_type_table :: str_table where
  "mrcp_proto_type_table =
     [\<lparr>st_value = ''TCP/MRCPv2'', st_key = 4\<rparr>, \<lparr>st_value = ''TCP/TLS/MRCPv2'', st_key = 4\<rparr>]"

definition mrcp_attrib_table :: str_table where
  "mrcp_attrib_table =
     [\<lparr>st_value = ''setup'', st_key = 0\<rparr>, \<lparr>st_value = ''connection'', st_key = 1\<rparr>,
      \<lparr>st_value = ''resource'', st_key = 0\<rparr>, \<lparr>st_value = ''channel'', st_key = 1\<rparr>,
      \<lparr>st_value = ''cmid'', st_key = 1\<rparr>]"

definition mrcp_setup_value_table :: str_table where
  "mrcp_setup_value_table = [\<lparr>st_value = ''active'', st_key = 0\<rparr>, \<lparr>st_value = ''passive'', st_key = 0\<rparr>]"

definition mrcp_connection_value_table :: str_table where
  "mrcp_connection_value_table = [\<lparr>st_value = ''new'', st_key = 0\<rparr>, \<lparr>st_value = ''existing'', st_key = 0\<rparr>]"

definition mrcp_proto_get :: "nat \<Rightarrow> string option" where
  "mrcp_proto_get i = apt_string_table_str_get mrcp_proto_type_table i"

definition mrcp_proto_find :: "string \<Rightarrow> nat" where
  "mrcp_proto_find v = apt_string_table_id_find mrcp_proto_type_table v"

definition mrcp_attrib_str_get :: "nat \<Rightarrow> string option" where
  "mrcp_attrib_str_get i = apt_string_table_str_get mrcp_attrib_table i"

definition mrcp_attrib_id_find :: "string \<Rightarrow> nat" where
  "mrcp_attrib_id_find v = apt_string_table_id_find mrcp_attrib_table v"

definition mrcp_setup_type_get :: "nat \<Rightarrow> string option" where
  "mrcp_setup_type_get i = apt_string_table_str_get mrcp_setup_value_table i"

definition mrcp_setup_type_find :: "string \<Rightarrow> nat" where
  "mrcp_setup_type_find v = apt_string_table_id_find mrcp_setup_value_table v"

definition mrcp_connection_type_get :: "nat \<Rightarrow> string option" where
  "mrcp_connection_type_get i = apt_string_table_str_get mrcp_connection_value_table i"

definition mrcp_connection_type_find :: "string \<Rightarrow> nat" where
  "mrcp_connection_type_find v = apt_string_table_id_find mrcp_connection_value_table v"

definition mrcp_control_descriptor_create :: mrcp_control_descriptor where
  "mrcp_control_descriptor_create =
     \<lparr>cd_ip = [], cd_port = 0, cd_proto = MRCP_PROTO_COUNT, cd_setup_type = MRCP_SETUP_TYPE_COUNT,
      cd_connection_type = MRCP_CONNECTION_TYPE_COUNT, cd_resource_name = [], cd_session_id = [],
      cd_cmid_arr = [], cd_id = 0\<rparr>"

definition mrcp_control_offer_create :: mrcp_control_descriptor where
  "mrcp_control_offer_create = mrcp_control_descriptor_create
     \<lparr>cd_proto := MRCP_PROTO_TCP, cd_port := TCP_DISCARD_PORT, cd_setup_type := MRCP_SETUP_TYPE_ACTIVE,
      cd_connection_type := MRCP_CONNECTION_TYPE_EXISTING\<rparr>"

definition mrcp_control_answer_create :: "mrcp_control_descriptor option \<Rightarrow> mrcp_control_descriptor" where
  "mrcp_control_answer_create offer =
     (case offer of None \<Rightarrow> mrcp_control_descriptor_create | Some d \<Rightarrow> d)\<lparr>cd_setup_type := MRCP_SETUP_TYPE_PASSIVE\<rparr>"

definition mrcp_control_offer_copy :: "mrcp_control_descriptor option \<Rightarrow> mrcp_control_descriptor" where
  "mrcp_control_offer_copy offer =
     (case offer of None \<Rightarrow> mrcp_control_descriptor_create | Some d \<Rightarrow> d)"

text \<open>Neither the connection type nor the session identifier is compared.\<close>

definition mrcp_control_descriptors_compare ::
  "mrcp_control_descriptor option \<Rightarrow> mrcp_control_descriptor option \<Rightarrow> bool" where
  "mrcp_control_descriptors_compare d1 d2 =
     (case (d1, d2) of
        (Some a, Some b) \<Rightarrow>
          if \<not> apt_strings_compare (cd_ip a) (cd_ip b) then False
          else if cd_port a \<noteq> cd_port b then False
          else if cd_proto a \<noteq> cd_proto b then False
          else if cd_setup_type a \<noteq> cd_setup_type b then False
          else if \<not> apt_strings_compare (cd_resource_name a) (cd_resource_name b) then False
          else if length (cd_cmid_arr a) \<noteq> length (cd_cmid_arr b) then False
          else if list_ex (\<lambda>(x, y). x \<noteq> y) (zip (cd_cmid_arr a) (cd_cmid_arr b)) then False
          else cd_id a = cd_id b
      | _ \<Rightarrow> False)"

definition mrcp_cmid_add :: "nat list \<Rightarrow> nat \<Rightarrow> nat list" where
  "mrcp_cmid_add arr cmid = arr @ [cmid]"

definition mrcp_cmid_find :: "nat list \<Rightarrow> nat \<Rightarrow> bool" where
  "mrcp_cmid_find arr cmid = list_ex (\<lambda>x. x = cmid) arr"

section \<open>The names and the descriptors\<close>

lemma control_tables_wf:
  "table_wf mrcp_proto_type_table" "table_wf mrcp_attrib_table"
  "table_wf mrcp_setup_value_table" "table_wf mrcp_connection_value_table"
  by (simp_all add: table_wf_def mrcp_proto_type_table_def mrcp_attrib_table_def mrcp_setup_value_table_def
      mrcp_connection_value_table_def nul_def tolower_def)

lemma zip_all_eq: "length xs = length ys \<Longrightarrow> (\<not> list_ex (\<lambda>(x, y). x \<noteq> y) (zip xs ys)) = (xs = ys)"
  by (induction xs ys rule: list_induct2) auto

lemma strings_compare_refl: "apt_strings_compare a a"
  by (simp add: apt_strings_compare_def)

text \<open>
  Every value an attribute of a control descriptor can have is found again under the name it
  has in SDP, and names outside the tables give the unknown value.
\<close>

theorem control_names_roundtrip:
  "(i < MRCP_PROTO_COUNT \<longrightarrow> map_option mrcp_proto_find (mrcp_proto_get i) = Some i)
    \<and> (i < MRCP_ATTRIB_COUNT \<longrightarrow> map_option mrcp_attrib_id_find (mrcp_attrib_str_get i) = Some i)
    \<and> (i < MRCP_SETUP_TYPE_COUNT \<longrightarrow> map_option mrcp_setup_type_find (mrcp_setup_type_get i) = Some i)
    \<and> (i < MRCP_CONNECTION_TYPE_COUNT \<longrightarrow> map_option mrcp_connection_type_find (mrcp_connection_type_get i) = Some i)"
proof -
  have len: "length mrcp_proto_type_table = MRCP_PROTO_COUNT" "length mrcp_attrib_table = MRCP_ATTRIB_COUNT"
    "length mrcp_setup_value_table = MRCP_SETUP_TYPE_COUNT"
    "length mrcp_connection_value_table = MRCP_CONNECTION_TYPE_COUNT"
    by (simp_all add: mrcp_proto_type_table_def mrcp_attrib_table_def mrcp_setup_value_table_def
        mrcp_connection_value_table_def MRCP_PROTO_COUNT_def MRCP_ATTRIB_COUNT_def MRCP_SETUP_TYPE_COUNT_def
        MRCP_CONNECTION_TYPE_COUNT_def)
  have t: "i < length t \<Longrightarrow> table_wf t \<Longrightarrow> map_option (apt_string_table_id_find t) (apt_string_table_str_get t i) = Some i" for t
    by (simp add: apt_string_table_str_get_def id_find_name)
  show ?thesis
    using t[of mrcp_proto_type_table] t[of mrcp_attrib_table] t[of mrcp_setup_value_table]
      t[of mrcp_connection_value_table] control_tables_wf
    by (simp add: len mrcp_proto_find_def mrcp_proto_get_def mrcp_attrib_id_find_def mrcp_attrib_str_get_def
        mrcp_setup_type_find_def mrcp_setup_type_get_def mrcp_connection_type_find_def mrcp_connection_type_get_def
        mrcp_proto_find_def[abs_def] mrcp_attrib_id_find_def[abs_def] mrcp_setup_type_find_def[abs_def]
        mrcp_connection_type_find_def[abs_def])
qed

lemma control_names_roundtrip_witness:
  "map_option mrcp_setup_type_find (mrcp_setup_type_get 1) = Some 1"
  using control_names_roundtrip[of 1] by (simp add: MRCP_SETUP_TYPE_COUNT_def)

end
