(* ===== verification/Mrcp_Connection.thy ===== *)
theory Mrcp_Connection
  imports Mrcp_Stream Control_Descriptor "HOL-Library.AList"
begin

text \<open>
  \<open>libs/mrcpv2-transport/src/mrcp_connection.c\<close>: the TCP connections over which the control
  channels of MRCPv2 run, and the part of the receive handlers that client and server have in
  common. Connections and channels refer to each other, so both are kept by address. The
  hash tables are association lists; nothing here depends on the order a walk has.
\<close>

text \<open>A timer of the poller: \<open>None\<close> when there is none, else whether it is set, and to what.\<close>

type_synonym conn_timer = "u32 option option"

definition conn_timer_set :: "u32 \<Rightarrow> conn_timer \<Rightarrow> conn_timer" where
  "conn_timer_set timeout t = map_option (\<lambda>old. if timeout = 0 then old else Some timeout) t"

definition conn_timer_kill :: "conn_timer \<Rightarrow> conn_timer" where
  "conn_timer_kill t = map_option (\<lambda>_. None) t"

abbreviation timer_running :: "conn_timer \<Rightarrow> bool" where
  "timer_running t \<equiv> (\<exists>n. t = Some (Some n))"

record 'r mrcp_control_channel =
  cc_connection :: "nat option"
  cc_active_request :: "'r mrcp_message option"
  cc_request_timer :: conn_timer
  cc_removed :: bool
  cc_identifier :: string

record 'r mrcp_connection =
  con_sock :: bool
  con_remote_ip :: string
  con_remote_port :: u16
  con_access_count :: nat
  con_use_count :: nat
  con_channel_table :: "(string \<times> nat) list"
  con_rx_buffer_size :: nat
  con_rx_stream :: text_stream
  con_parser :: "('r mrcp_parser, 'r mrcp_message) message_parser option"
  con_tx_buffer_size :: nat
  con_generator :: "'r mrcp_message message_generator option"
  con_inactivity_timer :: conn_timer
  con_termination_timer :: conn_timer

definition MRCP_STREAM_BUFFER_SIZE :: nat where "MRCP_STREAM_BUFFER_SIZE = 1024"

text \<open>What an agent tells the user of its channels, and what it writes to a connection.\<close>

datatype 'r connection_event =
    On_Add nat mrcp_control_descriptor bool
  | On_Modify nat mrcp_control_descriptor bool
  | On_Remove nat bool
  | On_Receive nat "'r mrcp_message"
  | On_Disconnect nat
  | Socket_Send nat string

text \<open>
  The part of an agent both sides have: the channels and the connections in memory, the list of
  its connections, and the events so far. An address that is not in use any more is freed.
\<close>

record 'r connection_agent =
  ag_connections :: "nat \<Rightarrow> 'r mrcp_connection option"
  ag_channels :: "nat \<Rightarrow> 'r mrcp_control_channel option"
  ag_list :: "nat list"
  ag_next :: nat
  ag_events :: "'r connection_event list"
  ag_factory :: "'r mrcp_resource_factory"
  ag_tx_buffer_size :: nat
  ag_rx_buffer_size :: nat

definition raise_event ::
  "'r connection_event \<Rightarrow> ('r, 'a) connection_agent_scheme \<Rightarrow> ('r, 'a) connection_agent_scheme" where
  "raise_event e a = a\<lparr>ag_events := ag_events a @ [e]\<rparr>"

definition con_set ::
  "nat \<Rightarrow> 'r mrcp_connection \<Rightarrow> ('r, 'a) connection_agent_scheme \<Rightarrow> ('r, 'a) connection_agent_scheme" where
  "con_set c con a = a\<lparr>ag_connections := (ag_connections a)(c \<mapsto> con)\<rparr>"

definition chan_set ::
  "nat \<Rightarrow> 'r mrcp_control_channel \<Rightarrow> ('r, 'a) connection_agent_scheme \<Rightarrow> ('r, 'a) connection_agent_scheme" where
  "chan_set ch chan a = a\<lparr>ag_channels := (ag_channels a)(ch \<mapsto> chan)\<rparr>"

lemma raise_event_simps [simp]:
  "ag_connections (raise_event e a) = ag_connections a" "ag_channels (raise_event e a) = ag_channels a"
  "ag_list (raise_event e a) = ag_list a" "ag_next (raise_event e a) = ag_next a"
  "ag_events (raise_event e a) = ag_events a @ [e]"
  by (simp_all add: raise_event_def)

lemma con_set_simps [simp]:
  "ag_connections (con_set c con a) = (ag_connections a)(c \<mapsto> con)" "ag_channels (con_set c con a) = ag_channels a"
  "ag_list (con_set c con a) = ag_list a" "ag_next (con_set c con a) = ag_next a"
  "ag_events (con_set c con a) = ag_events a"
  by (simp_all add: con_set_def)

lemma chan_set_simps [simp]:
  "ag_connections (chan_set ch chan a) = ag_connections a" "ag_channels (chan_set ch chan a) = (ag_channels a)(ch \<mapsto> chan)"
  "ag_list (chan_set ch chan a) = ag_list a" "ag_next (chan_set ch chan a) = ag_next a"
  "ag_events (chan_set ch chan a) = ag_events a"
  by (simp_all add: chan_set_def)

definition mrcp_connection_create :: "'r mrcp_connection" where
  "mrcp_connection_create =
     \<lparr>con_sock = False, con_remote_ip = [], con_remote_port = 0, con_access_count = 0, con_use_count = 0,
      con_channel_table = [], con_rx_buffer_size = 0, con_rx_stream = apt_text_stream_of [], con_parser = None,
      con_tx_buffer_size = 0, con_generator = None, con_inactivity_timer = None, con_termination_timer = None\<rparr>"

text \<open>A timer that still runs would use the freed connection: a fault.\<close>

definition mrcp_connection_destroy ::
  "nat \<Rightarrow> ('r, 'a) connection_agent_scheme \<Rightarrow> ('r, 'a) connection_agent_scheme option" where
  "mrcp_connection_destroy c a = do {
     con \<leftarrow> ag_connections a c;
     if timer_running (con_inactivity_timer con) \<or> timer_running (con_termination_timer con) then None
     else Some (a\<lparr>ag_connections := (ag_connections a)(c := None)\<rparr>)
   }"

definition mrcp_connection_channel_add ::
  "nat \<Rightarrow> nat \<Rightarrow> ('r, 'a) connection_agent_scheme \<Rightarrow> ('r, 'a) connection_agent_scheme option" where
  "mrcp_connection_channel_add c ch a = do {
     con \<leftarrow> ag_connections a c;
     chan \<leftarrow> ag_channels a ch;
     Some (chan_set ch (chan\<lparr>cc_connection := Some c\<rparr>)
       (con_set c (con\<lparr>con_channel_table := AList.update (cc_identifier chan) ch (con_channel_table con),
           con_access_count := con_access_count con + 1, con_use_count := con_use_count con + 1\<rparr>) a))
   }"

definition mrcp_connection_channel_find :: "'r mrcp_connection \<Rightarrow> string \<Rightarrow> nat option" where
  "mrcp_connection_channel_find con identifier = map_of (con_channel_table con) identifier"

definition mrcp_connection_channel_remove ::
  "nat \<Rightarrow> nat \<Rightarrow> ('r, 'a) connection_agent_scheme \<Rightarrow> ('r, 'a) connection_agent_scheme option" where
  "mrcp_connection_channel_remove c ch a = do {
     con \<leftarrow> ag_connections a c;
     chan \<leftarrow> ag_channels a ch;
     Some (chan_set ch (chan\<lparr>cc_connection := None\<rparr>)
       (con_set c (con\<lparr>con_channel_table := AList.delete (cc_identifier chan) (con_channel_table con),
           con_access_count := (if con_access_count con = 0 then 2 ^ 64 - 1 else con_access_count con - 1)\<rparr>) a))
   }"

definition mrcp_connection_disconnect_raise ::
  "nat \<Rightarrow> ('r, 'a) connection_agent_scheme \<Rightarrow> ('r, 'a) connection_agent_scheme option" where
  "mrcp_connection_disconnect_raise c a = do {
     con \<leftarrow> ag_connections a c;
     Some (fold (\<lambda>e. raise_event (On_Disconnect (snd e))) (con_channel_table con) a)
   }"

section \<open>Receiving\<close>

text \<open>
  \<open>apr_socket_recv\<close> puts at most as much of the data that is there as the buffer has room for
  behind what was kept from before.
\<close>

definition connection_recv :: "nat \<Rightarrow> text_stream \<Rightarrow> string \<Rightarrow> string \<times> text_stream" where
  "connection_recv n s data =
     (let d = take (n - length (ts_done s)) data
      in (d, apt_text_stream_reset (s\<lparr>ts_rest := d\<rparr>)))"

definition stream_scrolled :: "text_stream \<Rightarrow> text_stream" where
  "stream_scrolled s =
     (let (_, buf, n) = apt_text_stream_scroll s in s\<lparr>ts_done := take n buf, ts_rest := []\<rparr>)"

text \<open>A handler that can fault, as a handler of the loop: the state after a fault is \<open>None\<close>.\<close>

definition loop_handler ::
  "('s \<Rightarrow> apt_message_status \<Rightarrow> 'm option \<Rightarrow> (bool \<times> 's) option)
    \<Rightarrow> 's option \<Rightarrow> apt_message_status \<Rightarrow> 'm option \<Rightarrow> bool \<times> 's option" where
  "loop_handler f h status m =
     (case Option.bind h (\<lambda>a. f a status m) of None \<Rightarrow> (True, None) | Some (ok, a) \<Rightarrow> (ok, Some a))"

text \<open>
  The loop over the data received. When the handler says stop, the stream is left where it is
  and not scrolled.
\<close>

definition connection_run ::
  "(('r, 'a) connection_agent_scheme \<Rightarrow> apt_message_status \<Rightarrow> 'r mrcp_message option
      \<Rightarrow> (bool \<times> ('r, 'a) connection_agent_scheme) option)
    \<Rightarrow> nat \<Rightarrow> text_stream \<Rightarrow> ('r, 'a) connection_agent_scheme
    \<Rightarrow> (bool \<times> ('r, 'a) connection_agent_scheme) option" where
  "connection_run handler c s a = do {
     con \<leftarrow> ag_connections a c;
     p \<leftarrow> con_parser con;
     (ok, h, p1, s1) \<leftarrow> receive_loop (2 * length (ts_rest s) + 2) (loop_handler handler) (Some a) p s;
     a1 \<leftarrow> h;
     con1 \<leftarrow> ag_connections a1 c;
     Some (ok, con_set c (con1\<lparr>con_parser := Some p1,
         con_rx_stream := (if ok then stream_scrolled s1 else s1)\<rparr>) a1)
   }"

section \<open>Sending\<close>

text \<open>
  The loop that fills the transmit buffer and sends it until the generator is done. \<open>send\<close> is
  what \<open>apr_socket_send\<close> returns for the bytes given to it. Each round takes fuel.
\<close>

fun send_loop ::
  "nat \<Rightarrow> (string \<Rightarrow> bool) \<Rightarrow> nat \<Rightarrow> nat \<Rightarrow> 'r mrcp_message message_generator \<Rightarrow> 'r mrcp_message \<Rightarrow> bool
    \<Rightarrow> (bool \<times> 'r mrcp_message message_generator \<times> string list) option" where
  "send_loop 0 send tx_size address g m status = None"
| "send_loop (Suc n) send tx_size address g m status = do {
     (result, m1, g1, s) \<leftarrow> mrcp_generator_run g (Some address) m (apt_text_stream_init tx_size);
     let (status1, sent) =
       (if result \<noteq> APT_MESSAGE_STATUS_INVALID then (status \<or> send (os_text s), [os_text s]) else (status, []));
     if result = APT_MESSAGE_STATUS_INCOMPLETE then
       do { (status2, g2, more) \<leftarrow> send_loop n send tx_size address g1 m1 status1; Some (status2, g2, sent @ more) }
     else Some (status1, g1, sent)
   }"

section \<open>A message is sent in pieces\<close>

lemma generator_body_round:
  assumes g: "mg_vtable g = mrcp_generator_vtable" "mg_stage g = APT_MESSAGE_STAGE_BODY" "mg_buffer g = b"
      "mg_content_length g = length b"
    and m: "msg_body m = take k b" "k < length b" and s: "length (os_text s) < os_size s"
  shows "generator_run_body g m s = (let n = min (os_size s - length (os_text s)) (length b - k) in
    if os_size s - length (os_text s) < length b - k
    then Some (APT_MESSAGE_STATUS_INCOMPLETE, msg_body_set (take (k + n) b) m, g, os_write (take n (drop k b)) s)
    else Some (APT_MESSAGE_STATUS_COMPLETE, msg_body_set b m, g\<lparr>mg_stage := APT_MESSAGE_STAGE_START_LINE\<rparr>,
      os_write (drop k b) s))"
  using assms
  by (auto simp: generator_run_body_def apt_message_body_write_def Let_def mrcp_generator_vtable_def
      apt_message_generator_break_def os_eos_def min_def)

lemma send_body:
  assumes "mg_vtable g = mrcp_generator_vtable" "mg_stage g = APT_MESSAGE_STAGE_BODY" "mg_buffer g = b"
      "mg_content_length g = length b" "mg_message g = Some address"
    and "msg_body m = take k b" "k < length b" "0 < tx" "length b - k < n"
  shows "\<exists>status1 g1 sent. send_loop n send tx address g m status = Some (status1, g1, sent)
    \<and> concat sent = drop k b \<and> mg_stage g1 = APT_MESSAGE_STAGE_START_LINE \<and> mg_vtable g1 = mrcp_generator_vtable"
  using assms
proof (induction n arbitrary: g m k status)
  case 0
  then show ?case by simp
next
  case (Suc n)
  let ?s = "apt_text_stream_init tx"
  have s: "os_text ?s = []" "os_size ?s = tx" by (simp_all add: apt_text_stream_init_def)
  have run: "mrcp_generator_run g (Some address) m ?s = generator_run_body g m ?s"
    using Suc.prems(2,5) by (simp add: mrcp_generator_run_def apt_message_generator_run_def)
  note round = generator_body_round[OF Suc.prems(1-4,6,7), of ?s, unfolded s]
  show ?case
  proof (cases "tx < length b - k")
    case False
    then have "mrcp_generator_run g (Some address) m ?s = Some (APT_MESSAGE_STATUS_COMPLETE, msg_body_set b m,
        g\<lparr>mg_stage := APT_MESSAGE_STAGE_START_LINE\<rparr>, os_write (drop k b) ?s)"
      using run round Suc.prems(8) by (simp add: Let_def)
    then show ?thesis using s Suc.prems(1) by simp
  next
    case True
    let ?m = "msg_body_set (take (k + tx) b) m"
    have r: "mrcp_generator_run g (Some address) m ?s
        = Some (APT_MESSAGE_STATUS_INCOMPLETE, ?m, g, os_write (take tx (drop k b)) ?s)"
      using run round Suc.prems(8) True by (simp add: Let_def min_def)
    have m: "msg_body ?m = take (k + tx) b" "k + tx < length b" "length b - (k + tx) < n"
      using True Suc.prems(8,9) by (auto simp: msg_body_set_def)
    obtain status1 g1 sent where ih: "send_loop n send tx address g ?m (status \<or> send (take tx (drop k b))) = Some (status1, g1, sent)"
      "concat sent = drop (k + tx) b" "mg_stage g1 = APT_MESSAGE_STAGE_START_LINE" "mg_vtable g1 = mrcp_generator_vtable"
      using Suc.IH[OF Suc.prems(1-5) m(1,2) Suc.prems(8) m(3)] by blast
    have "take tx (drop k b) @ drop (k + tx) b = drop k b"
      by (metis append_take_drop_id drop_drop add.commute)
    then show ?thesis using r ih s by simp
  qed
qed

text \<open>A message whose head fits into the buffer, whatever the length of its body.\<close>

definition sendable :: "'r mrcp_resource_factory \<Rightarrow> nat \<Rightarrow> 'r mrcp_message \<Rightarrow> bool" where
  "sendable f tx m \<longleftrightarrow>
     (let (ok, mv) = mrcp_message_validate m
      in ok \<and> message_wire_ok f mv \<and> message_head_size mv + length (msg_body mv) < 999900
         \<and> message_head_size mv + 64 < tx)"

lemma validate_body: "msg_body (snd (mrcp_message_validate m)) = msg_body m"
  by (simp add: mrcp_message_validate_def mrcp_generic_header_property_add_def header_property_add_def
      generic_header_write_def split_beta split: option.split)

lemma send_message:
  assumes ok: "sendable f tx m" and g: "mg_vtable g = mrcp_generator_vtable" "mg_stage g = APT_MESSAGE_STAGE_START_LINE"
  shows "\<exists>l status1 g1 sent. send_loop (length (msg_body m) + 2) send tx address g m status = Some (status1, g1, sent)
    \<and> concat sent = message_wire l (snd (mrcp_message_validate m)) \<and> l = length (concat sent) \<and> l < 2 ^ 63
    \<and> mg_stage g1 = APT_MESSAGE_STAGE_START_LINE \<and> mg_vtable g1 = mrcp_generator_vtable"
proof -
  obtain mv where val: "mrcp_message_validate m = (True, mv)" and w: "message_wire_ok f mv"
      "message_head_size mv + length (msg_body mv) < 999900" "message_head_size mv + 64 < tx"
    using ok by (cases "mrcp_message_validate m") (auto simp: sendable_def)
  have bm: "msg_body mv = msg_body m" using validate_body[of m] val by simp
  let ?s = "apt_text_stream_init tx"
  have s: "os_text ?s = []" "os_size ?s = tx" by (simp_all add: apt_text_stream_init_def)
  obtain l m1 s1 s2 s3 where h: "mrcp_generator_on_start m ?s = Some (True, m1, s1)"
    "apt_header_section_generate (msg_section m1) s1 = (True, s2)"
    "mrcp_generator_on_header_complete m1 s2 = (True, mv\<lparr>msg_start_line := (msg_start_line mv)\<lparr>sl_length := l\<rparr>\<rparr>, s3)"
    "os_text s3 @ msg_body mv = message_wire l mv" "l = length (message_wire l mv)" "l < 2 ^ 63"
    "tx \<le> message_head_size mv + 52 + (os_size s3 - length (os_text s3))"
    using generator_head[OF val w(1) s(1) w(2)] w(3) unfolding s(2) by blast
  have room: "length (os_text s3) < os_size s3" using h(7) w(3) by linarith
  let ?mg = "mv\<lparr>msg_start_line := (msg_start_line mv)\<lparr>sl_length := l\<rparr>\<rparr>"
  let ?g0 = "g\<lparr>mg_stage := APT_MESSAGE_STAGE_START_LINE, mg_message := Some address\<rparr>"
  let ?g1 = "?g0\<lparr>mg_content_length := length (msg_body m)\<rparr>"
  have g0: "(if Some address \<noteq> mg_message g then ?g0 else g) = ?g0" using g(2) by simp
  show ?thesis
  proof (cases "msg_body m = []")
    case True
    have "mrcp_generator_run g (Some address) m ?s = Some (APT_MESSAGE_STATUS_COMPLETE, ?mg, ?g1, s3)"
      unfolding mrcp_generator_run_def apt_message_generator_run_def Let_def g0
      using g(1) h(1-3) True bm by (simp add: generator_run_start_def generator_run_body_def mrcp_generator_vtable_def Let_def)
    then show ?thesis using h(4-6) True bm g val by auto
  next
    case False
    let ?g2 = "?g1\<lparr>mg_buffer := msg_body m, mg_stage := APT_MESSAGE_STAGE_BODY\<rparr>"
    have run: "mrcp_generator_run g (Some address) m ?s = generator_run_body ?g2 (msg_body_set [] ?mg) s3"
      unfolding mrcp_generator_run_def apt_message_generator_run_def Let_def g0
      using g(1) h(1-3) False bm by (simp add: generator_run_start_def mrcp_generator_vtable_def Let_def)
    have k: "msg_body (msg_body_set [] ?mg) = take 0 (msg_body m)" "0 < length (msg_body m)"
      using False by (simp_all add: msg_body_set_def)
    note round = generator_body_round[of ?g2 "msg_body m" "msg_body_set [] ?mg" 0 s3, OF _ _ _ _ k room]
    let ?n = "os_size s3 - length (os_text s3)"
    show ?thesis
    proof (cases "?n < length (msg_body m)")
      case fits: False
      then have r: "mrcp_generator_run g (Some address) m ?s = Some (APT_MESSAGE_STATUS_COMPLETE,
          msg_body_set (msg_body m) (msg_body_set [] ?mg), ?g2\<lparr>mg_stage := APT_MESSAGE_STAGE_START_LINE\<rparr>,
          os_write (msg_body m) s3)"
        using run round g by (simp add: Let_def)
      show ?thesis using r h(4-6) bm g val by simp
    next
      case True
      let ?m2 = "msg_body_set (take ?n (msg_body m)) (msg_body_set [] ?mg)"
      have r: "mrcp_generator_run g (Some address) m ?s
          = Some (APT_MESSAGE_STATUS_INCOMPLETE, ?m2, ?g2, os_write (take ?n (msg_body m)) s3)"
        using run round g True by (simp add: Let_def min_def)
      have m2: "msg_body ?m2 = take ?n (msg_body m)" by (simp add: msg_body_set_def)
      define k where "k = length (msg_body m) + 1"
      have n: "0 < tx" "length (msg_body m) - ?n < k" and k: "length (msg_body m) + 2 = Suc k"
        using w(3) by (simp_all add: k_def)
      obtain status1 g1 sent where b: "send_loop k send tx address ?g2 ?m2
          (status \<or> send (os_text s3 @ take ?n (msg_body m))) = Some (status1, g1, sent)"
        "concat sent = drop ?n (msg_body m)" "mg_stage g1 = APT_MESSAGE_STAGE_START_LINE" "mg_vtable g1 = mrcp_generator_vtable"
        using send_body[of ?g2 "msg_body m" address ?m2 ?n tx k send, OF _ _ _ _ _ m2 True n] g(1)
        by fastforce
      have "os_text s3 @ take ?n (msg_body m) @ drop ?n (msg_body m) = message_wire l mv" using h(4) bm by simp
      then show ?thesis unfolding k using r b h(5,6) val by (intro exI[of _ l]) simp
    qed
  qed
qed

section \<open>Messages that arrive in segments\<close>

lemma stream_scrolled_done [simp]: "ts_done (stream_scrolled s) = ts_rest s" "ts_rest (stream_scrolled s) = []"
  by (auto simp: stream_scrolled_def apt_text_stream_scroll_def Let_def split: list.splits)

lemma loop_handler_incomplete:
  assumes "\<And>a. handler a APT_MESSAGE_STATUS_INCOMPLETE None = Some (True, a)"
  shows "loop_handler handler h APT_MESSAGE_STATUS_INCOMPLETE None = (True, h)"
  using assms by (cases h) (simp_all add: loop_handler_def)

text \<open>One call of a receive handler, on a connection that expects messages.\<close>

lemma connection_run_result:
  assumes con: "ag_connections a c = Some con" "con_parser con = Some p" and p: "mrcp.own obj p"
    and e: "expects (mrcp_message_start obj) p (x @ y) Ms" and s: "ts_rest s = x" "\<not> ts_eos s" "x \<noteq> []"
    and incomplete: "\<And>a. handler a APT_MESSAGE_STATUS_INCOMPLETE None = Some (True, a)"
    and acc: "accepts (loop_handler handler) (Some a) Ms"
    and keeps: "\<And>Ms1 Ms2. Ms = Ms1 @ Ms2 \<Longrightarrow> \<exists>a1 con1. deliver (loop_handler handler) Ms1 (Some a) = Some a1
      \<and> ag_connections a1 c = Some con1"
  shows "\<exists>Ms1 Ms2 a1 con1 p1 s1. Ms = Ms1 @ Ms2 \<and> deliver (loop_handler handler) Ms1 (Some a) = Some a1
    \<and> ag_connections a1 c = Some con1
    \<and> connection_run handler c s a = Some (True, con_set c (con1\<lparr>con_parser := Some p1, con_rx_stream := s1\<rparr>) a1)
    \<and> mrcp.own obj p1 \<and> expects (mrcp_message_start obj) p1 (ts_done s1 @ y) Ms2 \<and> (y = [] \<longrightarrow> Ms2 = [])"
proof -
  have n: "length x < 2 * length (ts_rest s) + 2" using s(1) by simp
  have inc: "\<And>h. loop_handler handler h APT_MESSAGE_STATUS_INCOMPLETE None = (True, h)"
    by (rule loop_handler_incomplete) (rule incomplete)
  from mrcp.receive_loop_result[OF p e s n inc acc]
  obtain p1 s1 u Ms1 Ms2 where r: "receive_loop (2 * length (ts_rest s) + 2) (loop_handler handler) (Some a) p s
      = Some (True, deliver (loop_handler handler) Ms1 (Some a), p1, s1)" "mrcp.own obj p1" "Ms = Ms1 @ Ms2"
      "x = u @ ts_rest s1" "expects (mrcp_message_start obj) p1 (ts_rest s1 @ y) Ms2" "y = [] \<longrightarrow> Ms2 = []"
    by blast
  obtain a1 con1 where a1: "deliver (loop_handler handler) Ms1 (Some a) = Some a1" "ag_connections a1 c = Some con1"
    using keeps[OF r(3)] by blast
  show ?thesis
  proof (intro exI conjI)
    show "connection_run handler c s a
        = Some (True, con_set c (con1\<lparr>con_parser := Some p1, con_rx_stream := stream_scrolled s1\<rparr>) a1)"
      using con r(1) a1 by (simp add: connection_run_def del: receive_loop.simps add_2_eq_Suc')
    show "expects (mrcp_message_start obj) p1 (ts_done (stream_scrolled s1) @ y) Ms2" using r(5) by simp
  qed (rule r(3) a1 r(2) r(6))+
qed

lemma message_stream_parser:
  "message_stream mrcp_parser_vtable \<lparr>par_factory = f, par_resource = None\<rparr>
      (mrcp_message_start \<lparr>par_factory = f, par_resource = None\<rparr>) W Ms
    \<Longrightarrow> expects (mrcp_message_start \<lparr>par_factory = f, par_resource = None\<rparr>) (mrcp_parser_create f) W Ms"
  by (simp add: expects_def stage_expects_def mrcp_parser_create_def apt_message_parser_create_def)

text \<open>The text of messages that were sent, one behind the other, is a stream of such messages.\<close>

lemma message_wires_stream:
  assumes "list_all2 (\<lambda>w m. message_wire_ok f m \<and> (\<exists>l < 2 ^ 63. w = message_wire l m)) ws ms" "par_factory obj = f"
  shows "\<exists>Ms. message_stream mrcp_parser_vtable obj (mrcp_message_start obj) (concat ws) Ms \<and> list_all2 same_message ms Ms"
  using assms(1)
proof (induction ws ms rule: list_all2_induct)
  case Nil
  show ?case by (intro exI[of _ "[]"]) (simp add: stream_end)
next
  case (Cons w ws m ms)
  then obtain Ms l where Ms: "message_stream mrcp_parser_vtable obj (mrcp_message_start obj) (concat ws) Ms"
      "list_all2 same_message ms Ms" and l: "message_wire_ok f m" "l < 2 ^ 63" "w = message_wire l m" by blast
  then obtain M where "same_message m M"
    "message_stream mrcp_parser_vtable obj (mrcp_message_start obj) (message_wire l m @ concat ws) (M # Ms)"
    using message_wire_received[OF l(1) assms(2) l(2)] by blast
  then show ?case using Ms l by (intro exI[of _ "M # Ms"]) simp
qed

text \<open>Messages sent one after the other by one connection, each with its address.\<close>

fun send_all ::
  "nat \<Rightarrow> 'r mrcp_message message_generator \<Rightarrow> (nat \<times> 'r mrcp_message) list \<Rightarrow> string list option" where
  "send_all tx g [] = Some []"
| "send_all tx g ((address, m) # ms) = do {
     (_, g1, sent) \<leftarrow> send_loop (length (msg_body m) + 2) (\<lambda>_. True) tx address g m False;
     rest \<leftarrow> send_all tx g1 ms;
     Some (sent @ rest)
   }"

abbreviation validated :: "'r mrcp_message \<Rightarrow> 'r mrcp_message" where
  "validated m \<equiv> snd (mrcp_message_validate m)"

lemma send_all_wires:
  assumes "list_all (\<lambda>(address, m). sendable f tx m) ms"
    and "mg_vtable g = mrcp_generator_vtable" "mg_stage g = APT_MESSAGE_STAGE_START_LINE"
  shows "\<exists>sent ws. send_all tx g ms = Some sent \<and> concat sent = concat ws
    \<and> list_all2 (\<lambda>w m. message_wire_ok f m \<and> (\<exists>l < 2 ^ 63. w = message_wire l m)) ws (map (validated \<circ> snd) ms)"
  using assms
proof (induction ms arbitrary: g)
  case Nil
  then show ?case by (intro exI[of _ "[]"]) simp
next
  case (Cons am ms)
  obtain address m where am: "am = (address, m)" by (cases am)
  have ok: "sendable f tx m" using Cons.prems(1) am by simp
  then have wire: "message_wire_ok f (validated m)" by (auto simp: sendable_def)
  obtain l status1 g1 sent where s: "send_loop (length (msg_body m) + 2) (\<lambda>_. True) tx address g m False = Some (status1, g1, sent)"
    "concat sent = message_wire l (validated m)" "l < 2 ^ 63"
    "mg_stage g1 = APT_MESSAGE_STAGE_START_LINE" "mg_vtable g1 = mrcp_generator_vtable"
    using send_message[OF ok Cons.prems(2,3), of "\<lambda>_. True" address False] by blast
  have "list_all (\<lambda>(address, m). sendable f tx m) ms" using Cons.prems(1) by simp
  from Cons.IH[OF this s(5,4)] obtain rest ws where "send_all tx g1 ms = Some rest" "concat rest = concat ws"
    "list_all2 (\<lambda>w m. message_wire_ok f m \<and> (\<exists>l < 2 ^ 63. w = message_wire l m)) ws (map (validated \<circ> snd) ms)"
    by blast
  moreover have "\<exists>k < 2 ^ 63. message_wire l (validated m) = message_wire k (validated m)" using s(3) by blast
  ultimately have "send_all tx g (am # ms) = Some (sent @ rest) \<and> concat (sent @ rest) = concat (message_wire l (validated m) # ws)
      \<and> list_all2 (\<lambda>w m. message_wire_ok f m \<and> (\<exists>l < 2 ^ 63. w = message_wire l m)) (message_wire l (validated m) # ws)
        (map (validated \<circ> snd) (am # ms))"
    using s wire am by (simp del: send_loop.simps add: comp_def)
  then show ?case by blast
qed

end
