(* ===== verification/Mrcp_Server_Connection.thy ===== *)
theory Mrcp_Server_Connection
  imports Mrcp_Connection
begin

text \<open>
  \<open>libs/mrcpv2-transport/src/mrcp_server_connection.c\<close>: the agent that accepts the connections
  of the clients, tells to which of its channels a message belongs, and sends the responses and
  events of the channels.
\<close>

record 'r mrcp_server_agent = "'r connection_agent" +
  sa_pending_channel_table :: "(string \<times> nat) list"
  sa_force_new_connection :: bool
  sa_max_shared_use_count :: nat
  sa_inactivity_timeout :: u32
  sa_termination_timeout :: u32
  sa_port :: u16

section \<open>The agent and its channels\<close>

text \<open>The listening socket and the task of the agent belong to the operating system.\<close>

definition mrcp_server_connection_agent_create ::
  "string option \<Rightarrow> u16 \<Rightarrow> bool \<Rightarrow> 'r mrcp_resource_factory \<Rightarrow> 'r mrcp_server_agent option" where
  "mrcp_server_connection_agent_create listen_ip listen_port force_new_connection factory =
     (case listen_ip of
        None \<Rightarrow> None
      | Some _ \<Rightarrow> Some
          \<lparr>ag_connections = (\<lambda>_. None), ag_channels = (\<lambda>_. None), ag_list = [], ag_next = 0, ag_events = [],
           ag_factory = factory, ag_tx_buffer_size = MRCP_STREAM_BUFFER_SIZE,
           ag_rx_buffer_size = MRCP_STREAM_BUFFER_SIZE,
           sa_pending_channel_table = [], sa_force_new_connection = force_new_connection,
           sa_max_shared_use_count = 100, sa_inactivity_timeout = 600000, sa_termination_timeout = 3000,
           sa_port = listen_port\<rparr>)"

definition mrcp_server_connection_resource_factory_set ::
  "'r mrcp_server_agent \<Rightarrow> 'r mrcp_resource_factory \<Rightarrow> 'r mrcp_server_agent" where
  "mrcp_server_connection_resource_factory_set a f = a\<lparr>ag_factory := f\<rparr>"

definition mrcp_server_connection_rx_size_set :: "'r mrcp_server_agent \<Rightarrow> nat \<Rightarrow> 'r mrcp_server_agent" where
  "mrcp_server_connection_rx_size_set a n =
     a\<lparr>ag_rx_buffer_size := (if n < MRCP_STREAM_BUFFER_SIZE then MRCP_STREAM_BUFFER_SIZE else n)\<rparr>"

definition mrcp_server_connection_tx_size_set :: "'r mrcp_server_agent \<Rightarrow> nat \<Rightarrow> 'r mrcp_server_agent" where
  "mrcp_server_connection_tx_size_set a n =
     a\<lparr>ag_tx_buffer_size := (if n < MRCP_STREAM_BUFFER_SIZE then MRCP_STREAM_BUFFER_SIZE else n)\<rparr>"

definition mrcp_server_connection_max_shared_use_set :: "'r mrcp_server_agent \<Rightarrow> nat \<Rightarrow> 'r mrcp_server_agent" where
  "mrcp_server_connection_max_shared_use_set a n = a\<lparr>sa_max_shared_use_count := n\<rparr>"

text \<open>The product is taken in 32 bits.\<close>

definition mrcp_server_connection_timeout_set :: "'r mrcp_server_agent \<Rightarrow> nat \<Rightarrow> 'r mrcp_server_agent" where
  "mrcp_server_connection_timeout_set a n = a\<lparr>sa_inactivity_timeout := of_nat n * 1000\<rparr>"

definition mrcp_server_connection_term_timeout_set :: "'r mrcp_server_agent \<Rightarrow> nat \<Rightarrow> 'r mrcp_server_agent" where
  "mrcp_server_connection_term_timeout_set a n = a\<lparr>sa_termination_timeout := of_nat n * 1000\<rparr>"

text \<open>\<open>ch\<close> is the address the pool gives; the identifier is not set yet.\<close>

definition mrcp_server_control_channel_create :: "nat \<Rightarrow> 'r mrcp_server_agent \<Rightarrow> 'r mrcp_server_agent" where
  "mrcp_server_control_channel_create ch a =
     chan_set ch \<lparr>cc_connection = None, cc_active_request = None, cc_request_timer = None, cc_removed = False,
                  cc_identifier = []\<rparr> a"

definition mrcp_server_control_channel_destroy ::
  "nat \<Rightarrow> 'r mrcp_server_agent \<Rightarrow> 'r mrcp_server_agent option" where
  "mrcp_server_control_channel_destroy ch a = do {
     chan \<leftarrow> ag_channels a ch;
     (case cc_connection chan of
        None \<Rightarrow> Some a
      | Some c \<Rightarrow> if cc_removed chan then mrcp_connection_destroy c (chan_set ch (chan\<lparr>cc_connection := None\<rparr>) a)
                  else Some a)
   }"

text \<open>A message of a channel that waits for a connection assigns it to the connection.\<close>

definition message_identifier :: "'r mrcp_message \<Rightarrow> string" where
  "message_identifier m =
     apt_id_resource_generate (ch_session_id (msg_channel_id m)) (ch_resource_name (msg_channel_id m)) (CHR ''@'')"

definition mrcp_connection_channel_associate ::
  "nat \<Rightarrow> 'r mrcp_message \<Rightarrow> 'r mrcp_server_agent \<Rightarrow> (nat option \<times> 'r mrcp_server_agent) option" where
  "mrcp_connection_channel_associate c m a = do {
     con \<leftarrow> ag_connections a c;
     let identifier = message_identifier m;
     (case mrcp_connection_channel_find con identifier of
        Some ch \<Rightarrow> Some (Some ch, a)
      | None \<Rightarrow>
          (case map_of (sa_pending_channel_table a) identifier of
             None \<Rightarrow> Some (None, a)
           | Some ch \<Rightarrow> do {
               a1 \<leftarrow> mrcp_connection_channel_add c ch
                 (a\<lparr>sa_pending_channel_table := AList.delete identifier (sa_pending_channel_table a)\<rparr>);
               Some (Some ch, a1)
             }))
   }"

fun connection_find_from ::
  "(nat \<Rightarrow> 'r mrcp_connection option) \<Rightarrow> string \<Rightarrow> nat list \<Rightarrow> nat option option" where
  "connection_find_from cons ip [] = Some None"
| "connection_find_from cons ip (c # cs) = do {
     con \<leftarrow> cons c;
     if apt_string_compare (con_remote_ip con) ip then Some (Some c) else connection_find_from cons ip cs
   }"

definition mrcp_connection_find :: "'r mrcp_server_agent \<Rightarrow> string \<Rightarrow> nat option option" where
  "mrcp_connection_find a ip = connection_find_from (ag_connections a) ip (ag_list a)"

definition mrcp_connection_add :: "nat \<Rightarrow> 'r mrcp_server_agent \<Rightarrow> 'r mrcp_server_agent option" where
  "mrcp_connection_add c a = do {
     con \<leftarrow> ag_connections a c;
     Some (con_set c (con\<lparr>con_inactivity_timer := conn_timer_set (sa_inactivity_timeout a) (con_inactivity_timer con)\<rparr>)
       (a\<lparr>ag_list := ag_list a @ [c]\<rparr>))
   }"

definition mrcp_connection_remove :: "nat \<Rightarrow> 'r mrcp_server_agent \<Rightarrow> 'r mrcp_server_agent option" where
  "mrcp_connection_remove c a = do {
     con \<leftarrow> ag_connections a c;
     Some (con_set c (con\<lparr>con_inactivity_timer := conn_timer_kill (con_inactivity_timer con)\<rparr>)
       (a\<lparr>ag_list := remove1 c (ag_list a)\<rparr>))
   }"

section \<open>Connections come and go\<close>

text \<open>
  What the system calls of \<open>accept\<close> return: whether there is a connection, its address, and
  whether the pollset takes it.
\<close>

definition mrcp_server_agent_connection_accept ::
  "bool \<Rightarrow> (string \<times> u16) option \<Rightarrow> bool \<Rightarrow> 'r mrcp_server_agent \<Rightarrow> (bool \<times> 'r mrcp_server_agent) option" where
  "mrcp_server_agent_connection_accept accepted addr pollset a =
     (if \<not> accepted then Some (False, a)
      else case addr of
        None \<Rightarrow> Some (False, a)
      | Some (ip, port) \<Rightarrow>
          if sa_pending_channel_table a = [] then Some (False, a)
          else if \<not> pollset then Some (False, a)
          else
            (let c = ag_next a;
                 con = mrcp_connection_create
                   \<lparr>con_sock := True, con_remote_ip := ip, con_remote_port := port,
                    con_parser := Some (mrcp_parser_create (ag_factory a)),
                    con_generator := Some mrcp_generator_create,
                    con_tx_buffer_size := ag_tx_buffer_size a, con_rx_buffer_size := ag_rx_buffer_size a,
                    con_inactivity_timer := (if sa_inactivity_timeout a \<noteq> 0 then Some None else None)\<rparr>
             in do {
               a1 \<leftarrow> mrcp_connection_add c (con_set c con (a\<lparr>ag_next := Suc c\<rparr>));
               Some (True, a1)
             }))"

definition mrcp_server_agent_connection_close ::
  "nat \<Rightarrow> bool \<Rightarrow> 'r mrcp_server_agent \<Rightarrow> (bool \<times> 'r mrcp_server_agent) option" where
  "mrcp_server_agent_connection_close c timedout a = do {
     con \<leftarrow> ag_connections a c;
     a1 \<leftarrow> mrcp_connection_remove c (con_set c (con\<lparr>con_sock := False\<rparr>) a);
     con1 \<leftarrow> ag_connections a1 c;
     if con_access_count con1 \<noteq> 0 then
       if timedout then do { a2 \<leftarrow> mrcp_connection_disconnect_raise c a1; Some (True, a2) }
       else if sa_termination_timeout a1 \<noteq> 0 then
         Some (True, con_set c (con1\<lparr>con_termination_timer :=
             conn_timer_set (sa_termination_timeout a1) (Some None)\<rparr>) a1)
       else Some (True, a1)
     else do { a2 \<leftarrow> mrcp_connection_destroy c a1; Some (True, a2) }
   }"

text \<open>A timer that fires is no longer set.\<close>

definition mrcp_server_inactivity_timer_proc :: "nat \<Rightarrow> 'r mrcp_server_agent \<Rightarrow> 'r mrcp_server_agent option" where
  "mrcp_server_inactivity_timer_proc c a = do {
     con \<leftarrow> ag_connections a c;
     (_, a1) \<leftarrow> mrcp_server_agent_connection_close c True
       (con_set c (con\<lparr>con_inactivity_timer := conn_timer_kill (con_inactivity_timer con)\<rparr>) a);
     Some a1
   }"

definition mrcp_server_termination_timer_proc :: "nat \<Rightarrow> 'r mrcp_server_agent \<Rightarrow> 'r mrcp_server_agent option" where
  "mrcp_server_termination_timer_proc c a = do {
     con \<leftarrow> ag_connections a c;
     mrcp_connection_disconnect_raise c
       (con_set c (con\<lparr>con_termination_timer := conn_timer_kill (con_termination_timer con)\<rparr>) a)
   }"

section \<open>Requests of the user\<close>

definition mrcp_server_agent_channel_add ::
  "nat \<Rightarrow> mrcp_control_descriptor \<Rightarrow> 'r mrcp_server_agent \<Rightarrow> 'r mrcp_server_agent option" where
  "mrcp_server_agent_channel_add ch offer a = do {
     chan \<leftarrow> ag_channels a ch;
     let answer = mrcp_control_answer_create (Some offer);
     let identifier = apt_id_resource_generate (cd_session_id offer) (cd_resource_name offer) (CHR ''@'');
     let answer1 = (if cd_port offer \<noteq> 0 then answer\<lparr>cd_port := sa_port a\<rparr> else answer);
     answer2 \<leftarrow>
       (if cd_connection_type offer = MRCP_CONNECTION_TYPE_EXISTING then
          if sa_force_new_connection a then Some (answer1\<lparr>cd_connection_type := MRCP_CONNECTION_TYPE_NEW\<rparr>)
          else do {
            found \<leftarrow> mrcp_connection_find a (cd_ip offer);
            (case found of
               None \<Rightarrow> Some (answer1\<lparr>cd_connection_type := MRCP_CONNECTION_TYPE_NEW\<rparr>)
             | Some c \<Rightarrow> do {
                 con \<leftarrow> ag_connections a c;
                 if sa_max_shared_use_count a \<noteq> 0 \<and> sa_max_shared_use_count a \<le> con_use_count con
                 then Some (answer1\<lparr>cd_connection_type := MRCP_CONNECTION_TYPE_NEW\<rparr>) else Some answer1
               })
          }
        else Some answer1);
     let a1 = chan_set ch (chan\<lparr>cc_identifier := identifier\<rparr>) a;
     Some (raise_event (On_Add ch answer2 True)
       (a1\<lparr>sa_pending_channel_table := AList.update identifier ch (sa_pending_channel_table a1)\<rparr>))
   }"

definition mrcp_server_agent_channel_modify ::
  "nat \<Rightarrow> mrcp_control_descriptor \<Rightarrow> 'r mrcp_server_agent \<Rightarrow> 'r mrcp_server_agent option" where
  "mrcp_server_agent_channel_modify ch offer a =
     (let answer = mrcp_control_answer_create (Some offer);
          answer1 = (if cd_port offer \<noteq> 0 then answer\<lparr>cd_port := sa_port a\<rparr> else answer)
      in Some (raise_event (On_Modify ch answer1 True) a))"

definition mrcp_server_agent_channel_remove :: "nat \<Rightarrow> 'r mrcp_server_agent \<Rightarrow> 'r mrcp_server_agent option" where
  "mrcp_server_agent_channel_remove ch a = do {
     chan \<leftarrow> ag_channels a ch;
     a1 \<leftarrow> (case cc_connection chan of
       Some c \<Rightarrow> do {
         a1 \<leftarrow> mrcp_connection_channel_remove c ch a;
         con1 \<leftarrow> ag_connections a1 c;
         chan1 \<leftarrow> ag_channels a1 ch;
         if con_access_count con1 = 0 \<and> \<not> con_sock con1 then
           Some (con_set c (con1\<lparr>con_termination_timer := conn_timer_kill (con_termination_timer con1)\<rparr>)
             (chan_set ch (chan1\<lparr>cc_connection := Some c, cc_removed := True\<rparr>) a1))
         else Some a1
       }
     | None \<Rightarrow> Some (a\<lparr>sa_pending_channel_table := AList.delete (cc_identifier chan) (sa_pending_channel_table a)\<rparr>));
     Some (raise_event (On_Remove ch True) a1)
   }"

section \<open>Messages\<close>

text \<open>The body is sent in as many rounds as it takes; one byte of it for each is enough.\<close>

definition mrcp_server_agent_messsage_send ::
  "(string \<Rightarrow> bool) \<Rightarrow> nat option \<Rightarrow> nat \<Rightarrow> 'r mrcp_message \<Rightarrow> 'r mrcp_server_agent
    \<Rightarrow> (bool \<times> 'r mrcp_server_agent) option" where
  "mrcp_server_agent_messsage_send send c_opt address m a =
     (case c_opt of
        None \<Rightarrow> Some (False, a)
      | Some c \<Rightarrow> do {
          con \<leftarrow> ag_connections a c;
          if \<not> con_sock con then Some (False, a)
          else do {
            g \<leftarrow> con_generator con;
            (status, g1, sent) \<leftarrow> send_loop (length (msg_body m) + 2) send (con_tx_buffer_size con) address g m False;
            Some (status, fold (\<lambda>d. raise_event (Socket_Send c d)) sent
              (con_set c (con\<lparr>con_generator := Some g1\<rparr>) a))
          }
        })"

text \<open>
  \<open>address\<close> is the address of the response to a message that could not be parsed. The parser
  never gives such a message to the handler.
\<close>

definition mrcp_server_message_handler ::
  "(string \<Rightarrow> bool) \<Rightarrow> nat \<Rightarrow> nat \<Rightarrow> 'r mrcp_server_agent \<Rightarrow> apt_message_status \<Rightarrow> 'r mrcp_message option
    \<Rightarrow> (bool \<times> 'r mrcp_server_agent) option" where
  "mrcp_server_message_handler send address c a status message =
     (case status of
        APT_MESSAGE_STATUS_COMPLETE \<Rightarrow> do {
          m \<leftarrow> message;
          (found, a1) \<leftarrow> mrcp_connection_channel_associate c m a;
          (case found of
             None \<Rightarrow> Some (True, a1)
           | Some ch \<Rightarrow> do {
               con \<leftarrow> ag_connections a1 c;
               Some (True, raise_event (On_Receive ch m)
                 (con_set c (con\<lparr>con_inactivity_timer :=
                     conn_timer_set (sa_inactivity_timeout a1) (con_inactivity_timer con)\<rparr>) a1))
             })
        }
      | APT_MESSAGE_STATUS_INVALID \<Rightarrow>
          (case message of
             None \<Rightarrow> Some (True, a)
           | Some m \<Rightarrow>
               if msg_resource m = None then Some (True, a)
               else do {
                 (_, a1) \<leftarrow> mrcp_server_agent_messsage_send send (Some c) address
                   (set_start_line (\<lambda>sl. sl\<lparr>sl_status_code := 408\<rparr>) (mrcp_response_create (Some m))) a;
                 Some (True, a1)
               })
      | APT_MESSAGE_STATUS_INCOMPLETE \<Rightarrow> Some (True, a))"

text \<open>The descriptor of a connection, with the data that can be received from it.\<close>

definition mrcp_server_poller_signal_process ::
  "(string \<Rightarrow> bool) \<Rightarrow> nat \<Rightarrow> nat \<Rightarrow> string \<Rightarrow> 'r mrcp_server_agent \<Rightarrow> (bool \<times> 'r mrcp_server_agent) option" where
  "mrcp_server_poller_signal_process send address c data a = do {
     con \<leftarrow> ag_connections a c;
     if \<not> con_sock con then Some (False, a)
     else
       (let (d, s) = connection_recv (con_rx_buffer_size con) (con_rx_stream con) data
        in if d = [] then mrcp_server_agent_connection_close c False a
           else connection_run (mrcp_server_message_handler send address c) c s a)
   }"

text \<open>The messages of the task. Sending uses the connection the channel has by then.\<close>

datatype 'r connection_task_msg =
    CONNECTION_TASK_MSG_ADD_CHANNEL nat mrcp_control_descriptor
  | CONNECTION_TASK_MSG_MODIFY_CHANNEL nat mrcp_control_descriptor
  | CONNECTION_TASK_MSG_REMOVE_CHANNEL nat
  | CONNECTION_TASK_MSG_SEND_MESSAGE nat nat "'r mrcp_message"

definition mrcp_server_agent_msg_process ::
  "(string \<Rightarrow> bool) \<Rightarrow> 'r connection_task_msg \<Rightarrow> 'r mrcp_server_agent \<Rightarrow> 'r mrcp_server_agent option" where
  "mrcp_server_agent_msg_process send msg a =
     (case msg of
        CONNECTION_TASK_MSG_ADD_CHANNEL ch offer \<Rightarrow> mrcp_server_agent_channel_add ch offer a
      | CONNECTION_TASK_MSG_MODIFY_CHANNEL ch offer \<Rightarrow> mrcp_server_agent_channel_modify ch offer a
      | CONNECTION_TASK_MSG_REMOVE_CHANNEL ch \<Rightarrow> mrcp_server_agent_channel_remove ch a
      | CONNECTION_TASK_MSG_SEND_MESSAGE ch address m \<Rightarrow> do {
          chan \<leftarrow> ag_channels a ch;
          (_, a1) \<leftarrow> mrcp_server_agent_messsage_send send (cc_connection chan) address m a;
          Some a1
        })"

section \<open>The life of connections and channels\<close>

text \<open>
  What can happen to the agent, but for sending: the system reports a new connection, a message
  was received on a connection or its peer has closed it, a timer fires, and the user creates,
  adds, modifies, removes and destroys channels.
\<close>

datatype 'r server_input =
    In_Accept bool "(string \<times> u16) option" bool
  | In_Message nat "'r mrcp_message"
  | In_Closed nat
  | In_Inactivity nat
  | In_Termination nat
  | In_Create nat
  | In_Add nat mrcp_control_descriptor
  | In_Modify nat mrcp_control_descriptor
  | In_Remove nat
  | In_Destroy nat

fun server_step :: "'r server_input \<Rightarrow> 'r mrcp_server_agent \<Rightarrow> 'r mrcp_server_agent option" where
  "server_step (In_Accept ok addr pollset) a = map_option snd (mrcp_server_agent_connection_accept ok addr pollset a)"
| "server_step (In_Message c m) a =
     map_option snd (mrcp_server_message_handler (\<lambda>_. True) 0 c a APT_MESSAGE_STATUS_COMPLETE (Some m))"
| "server_step (In_Closed c) a = map_option snd (mrcp_server_poller_signal_process (\<lambda>_. True) 0 c [] a)"
| "server_step (In_Inactivity c) a = mrcp_server_inactivity_timer_proc c a"
| "server_step (In_Termination c) a = mrcp_server_termination_timer_proc c a"
| "server_step (In_Create ch) a = Some (mrcp_server_control_channel_create ch a)"
| "server_step (In_Add ch offer) a = mrcp_server_agent_channel_add ch offer a"
| "server_step (In_Modify ch offer) a = mrcp_server_agent_channel_modify ch offer a"
| "server_step (In_Remove ch) a = mrcp_server_agent_channel_remove ch a"
| "server_step (In_Destroy ch) a = mrcp_server_control_channel_destroy ch a"

text \<open>
  The order the system and the user keep: messages come from open connections, only timers that
  are set fire, a channel is created once, added once while it is new, and removed once.
\<close>

fun input_allowed :: "'r mrcp_server_agent \<Rightarrow> 'r server_input \<Rightarrow> bool" where
  "input_allowed a (In_Message c m) = (case ag_connections a c of None \<Rightarrow> False | Some con \<Rightarrow> con_sock con)"
| "input_allowed a (In_Closed c) = (case ag_connections a c of None \<Rightarrow> False | Some con \<Rightarrow> con_sock con)"
| "input_allowed a (In_Inactivity c) =
     (case ag_connections a c of None \<Rightarrow> False | Some con \<Rightarrow> timer_running (con_inactivity_timer con))"
| "input_allowed a (In_Termination c) =
     (case ag_connections a c of None \<Rightarrow> False | Some con \<Rightarrow> timer_running (con_termination_timer con))"
| "input_allowed a (In_Create ch) = (ag_channels a ch = None)"
| "input_allowed a (In_Add ch offer) =
     (case ag_channels a ch of None \<Rightarrow> False
      | Some chan \<Rightarrow> cc_connection chan = None \<and> \<not> cc_removed chan \<and> ch \<notin> snd ` set (sa_pending_channel_table a))"
| "input_allowed a (In_Modify ch offer) = (ag_channels a ch \<noteq> None)"
| "input_allowed a (In_Remove ch) = (case ag_channels a ch of None \<Rightarrow> False | Some chan \<Rightarrow> \<not> cc_removed chan)"
| "input_allowed a (In_Destroy ch) = (ag_channels a ch \<noteq> None)"
| "input_allowed a (In_Accept ok addr pollset) = True"

text \<open>The channel has the connection and is not removed from it.\<close>

definition member_of :: "('r, 'a) connection_agent_scheme \<Rightarrow> nat \<Rightarrow> string \<Rightarrow> nat \<Rightarrow> bool" where
  "member_of a c identifier ch \<longleftrightarrow> (\<exists>chan. ag_channels a ch = Some chan \<and> cc_connection chan = Some c
     \<and> \<not> cc_removed chan \<and> cc_identifier chan = identifier)"

definition last_of :: "('r, 'a) connection_agent_scheme \<Rightarrow> nat \<Rightarrow> nat \<Rightarrow> bool" where
  "last_of a c ch \<longleftrightarrow> (\<exists>chan. ag_channels a ch = Some chan \<and> cc_connection chan = Some c \<and> cc_removed chan)"

definition connection_ok :: "'r mrcp_server_agent \<Rightarrow> nat \<Rightarrow> 'r mrcp_connection \<Rightarrow> bool" where
  "connection_ok a c con \<longleftrightarrow>
     distinct (map fst (con_channel_table con)) \<and> con_access_count con = length (con_channel_table con)
     \<and> (\<forall>i ch. map_of (con_channel_table con) i = Some ch \<longleftrightarrow> member_of a c i ch)
     \<and> (c \<in> set (ag_list a) \<longleftrightarrow> con_sock con) \<and> c < ag_next a
     \<and> (timer_running (con_inactivity_timer con) \<longrightarrow> con_sock con)
     \<and> (timer_running (con_termination_timer con) \<longrightarrow> \<not> con_sock con \<and> con_channel_table con \<noteq> [])
     \<and> (\<not> con_sock con \<longrightarrow> con_channel_table con \<noteq> [] \<or> (\<exists>ch. last_of a c ch))
     \<and> (\<forall>ch ch'. last_of a c ch \<longrightarrow> last_of a c ch' \<longrightarrow> ch' = ch)
     \<and> (\<forall>ch. last_of a c ch \<longrightarrow> \<not> con_sock con \<and> con_channel_table con = [])"

definition server_inv :: "'r mrcp_server_agent \<Rightarrow> bool" where
  "server_inv a \<longleftrightarrow>
     (\<forall>c con. ag_connections a c = Some con \<longrightarrow> connection_ok a c con)
     \<and> distinct (ag_list a) \<and> (\<forall>c \<in> set (ag_list a). ag_connections a c \<noteq> None)
     \<and> (\<forall>ch chan c. ag_channels a ch = Some chan \<longrightarrow> cc_connection chan = Some c \<longrightarrow> ag_connections a c \<noteq> None)
     \<and> distinct (map fst (sa_pending_channel_table a))
     \<and> (\<forall>i ch. (i, ch) \<in> set (sa_pending_channel_table a) \<longrightarrow>
          (\<exists>chan. ag_channels a ch = Some chan \<and> cc_connection chan = None \<and> \<not> cc_removed chan
             \<and> cc_identifier chan = i))"

inductive server_reach :: "'r mrcp_server_agent \<Rightarrow> bool" where
  reach_create: "mrcp_server_connection_agent_create ip port force f = Some a \<Longrightarrow> server_reach a"
| reach_step: "server_reach a \<Longrightarrow> input_allowed a i \<Longrightarrow> server_step i a = Some a' \<Longrightarrow> server_reach a'"

lemma pending_table_simps [simp]:
  "sa_pending_channel_table (raise_event e a) = sa_pending_channel_table a"
  "sa_pending_channel_table (con_set c con a) = sa_pending_channel_table a"
  "sa_pending_channel_table (chan_set ch chan a) = sa_pending_channel_table a"
  by (simp_all add: raise_event_def con_set_def chan_set_def)

lemma member_of_raise [simp]:
  "member_of (raise_event e a) = member_of a" "last_of (raise_event e a) = last_of a"
  "member_of (con_set c con a) = member_of a" "last_of (con_set c con a) = last_of a"
  by (auto simp: member_of_def last_of_def fun_eq_iff)

lemma connection_ok_raise [simp]: "connection_ok (raise_event e a) = connection_ok a"
  by (simp add: connection_ok_def fun_eq_iff)

lemma server_inv_raise [simp]: "server_inv (raise_event e a) = server_inv a"
  by (simp add: server_inv_def)

text \<open>Replacing a connection that keeps what the invariant says of it.\<close>

lemma server_inv_con_set:
  assumes "server_inv a" "ag_connections a c = Some con" "connection_ok a c con'"
  shows "server_inv (con_set c con' a)"
proof -
  have "connection_ok (con_set c con' a) c' x = connection_ok a c' x" for c' x
    by (simp add: connection_ok_def)
  then show ?thesis using assms by (auto simp: server_inv_def)
qed

lemma create_inv: "mrcp_server_connection_agent_create ip port force f = Some a \<Longrightarrow> server_inv a"
  by (auto simp: mrcp_server_connection_agent_create_def server_inv_def split: option.splits)

lemma fold_raise [simp]:
  "ag_connections (fold (\<lambda>x. raise_event (f x)) t a) = ag_connections a"
  "server_inv (fold (\<lambda>x. raise_event (f x)) t b) = server_inv b"
proof -
  show "ag_connections (fold (\<lambda>x. raise_event (f x)) t a) = ag_connections a" by (induction t arbitrary: a) simp_all
  show "server_inv (fold (\<lambda>x. raise_event (f x)) t b) = server_inv b" by (induction t arbitrary: b) simp_all
qed

lemma disconnect_raise_inv:
  assumes "mrcp_connection_disconnect_raise c a = Some a'"
  shows "server_inv a' = server_inv a" "ag_connections a' = ag_connections a"
  using assms by (auto simp: mrcp_connection_disconnect_raise_def bind_eq_Some_conv)

lemma member_of_update [simp]:
  "member_of (a\<lparr>ag_list := l\<rparr>) = member_of a" "last_of (a\<lparr>ag_list := l\<rparr>) = last_of a"
  "member_of (a\<lparr>ag_connections := f\<rparr>) = member_of a" "last_of (a\<lparr>ag_connections := f\<rparr>) = last_of a"
  "member_of (a\<lparr>ag_next := n\<rparr>) = member_of a" "last_of (a\<lparr>ag_next := n\<rparr>) = last_of a"
  "member_of (b\<lparr>sa_pending_channel_table := t\<rparr>) = member_of b"
  "last_of (b\<lparr>sa_pending_channel_table := t\<rparr>) = last_of b"
  by (simp_all add: member_of_def last_of_def fun_eq_iff)

lemma server_invD:
  assumes "server_inv a"
  shows "ag_connections a c = Some con \<Longrightarrow> connection_ok a c con"
    and "distinct (ag_list a)" and "c \<in> set (ag_list a) \<Longrightarrow> \<exists>con. ag_connections a c = Some con"
    and "ag_channels a ch = Some chan \<Longrightarrow> cc_connection chan = Some c \<Longrightarrow> \<exists>con. ag_connections a c = Some con"
    and "distinct (map fst (sa_pending_channel_table a))"
    and "(i, ch) \<in> set (sa_pending_channel_table a) \<Longrightarrow> \<exists>chan. ag_channels a ch = Some chan
      \<and> cc_connection chan = None \<and> \<not> cc_removed chan \<and> cc_identifier chan = i"
  using assms unfolding server_inv_def by blast+

lemma no_members:
  assumes "connection_ok a c con" "con_sock con" "con_channel_table con = []" "ag_channels a ch = Some chan"
  shows "cc_connection chan \<noteq> Some c"
proof
  assume "cc_connection chan = Some c"
  then have "member_of a c (cc_identifier chan) ch \<or> last_of a c ch" using assms(4) by (auto simp: member_of_def last_of_def)
  then show False using assms(1-3) by (auto simp: connection_ok_def)
qed

lemma server_inv_closed:
  assumes inv: "server_inv a" and c: "ag_connections a c = Some con" "con_sock con"
    and con': "con' = con\<lparr>con_sock := False, con_inactivity_timer := conn_timer_kill (con_inactivity_timer con),
      con_termination_timer := t\<rparr>"
    and ne: "con_channel_table con \<noteq> []"
  shows "server_inv (con_set c con' (a\<lparr>ag_list := remove1 c (ag_list a)\<rparr>))"
proof -
  let ?a = "con_set c con' (a\<lparr>ag_list := remove1 c (ag_list a)\<rparr>)"
  have ok: "connection_ok ?a c' x" if "connection_ok a c' x" "c' \<noteq> c" for c' x
    using that server_invD(2)[OF inv] by (simp add: connection_ok_def)
  have "connection_ok ?a c con'"
    using server_invD(1)[OF inv c(1)] server_invD(2)[OF inv] c(2) ne
    by (auto simp: connection_ok_def con' conn_timer_kill_def)
  then show ?thesis using ok inv c(1) by (auto simp: server_inv_def distinct_remove1 dest: notin_set_remove1)
qed

lemma server_inv_freed:
  assumes inv: "server_inv a" and c: "ag_connections a c = Some con" "con_sock con" and ne: "con_channel_table con = []"
  shows "server_inv (a\<lparr>ag_list := remove1 c (ag_list a), ag_connections := (ag_connections a)(c := None)\<rparr>)"
proof -
  let ?a = "a\<lparr>ag_list := remove1 c (ag_list a), ag_connections := (ag_connections a)(c := None)\<rparr>"
  have ok: "connection_ok ?a c' x" if "connection_ok a c' x" "c' \<noteq> c" for c' x
    using that server_invD(2)[OF inv] by (simp add: connection_ok_def)
  have "cc_connection chan \<noteq> Some c" if "ag_channels a ch = Some chan" for ch chan
    using no_members[OF server_invD(1)[OF inv c(1)] c(2) ne that] .
  then show ?thesis using ok inv by (fastforce simp: server_inv_def distinct_remove1 dest: notin_set_remove1)
qed

lemma close_inv:
  assumes inv: "server_inv a" and c: "ag_connections a c = Some con" "con_sock con"
  shows "\<exists>a'. mrcp_server_agent_connection_close c timedout a = Some (True, a') \<and> server_inv a'"
proof -
  let ?con = "con\<lparr>con_sock := False, con_inactivity_timer := conn_timer_kill (con_inactivity_timer con)\<rparr>"
  let ?a = "con_set c ?con (a\<lparr>ag_list := remove1 c (ag_list a)\<rparr>)"
  have rm: "mrcp_connection_remove c (con_set c (con\<lparr>con_sock := False\<rparr>) a) = Some ?a"
    by (simp add: mrcp_connection_remove_def con_set_def)
  have ok: "connection_ok a c con" by (rule server_invD(1)[OF inv c(1)])
  have acc: "con_access_count con = length (con_channel_table con)" using ok by (simp add: connection_ok_def)
  have inv_t: "server_inv (con_set c (?con\<lparr>con_termination_timer := t\<rparr>) (a\<lparr>ag_list := remove1 c (ag_list a)\<rparr>))"
    if "con_channel_table con \<noteq> []" for t
    by (rule server_inv_closed[OF inv c refl that, of t, simplified]) 
  show ?thesis
  proof (cases "con_channel_table con = []")
    case True
    have nt: "\<not> timer_running (con_termination_timer con)" using ok c(2) by (auto simp: connection_ok_def)
    have "mrcp_connection_destroy c ?a
        = Some (a\<lparr>ag_list := remove1 c (ag_list a), ag_connections := (ag_connections a)(c := None)\<rparr>)"
      using nt by (auto simp: mrcp_connection_destroy_def con_set_def conn_timer_kill_def)
    then show ?thesis using True acc rm server_inv_freed[OF inv c True] c(1)
      by (simp add: mrcp_server_agent_connection_close_def)
  next
    case False
    have same: "?con = ?con\<lparr>con_termination_timer := con_termination_timer con\<rparr>" by simp
    have i0: "server_inv ?a" using inv_t[OF False, of "con_termination_timer con"] by simp
    have set: "con_set c x ?a = con_set c x (a\<lparr>ag_list := remove1 c (ag_list a)\<rparr>)" for x by (simp add: con_set_def)
    show ?thesis
    proof (cases timedout)
      case True
      obtain a' where r: "mrcp_connection_disconnect_raise c ?a = Some a'"
        by (simp add: mrcp_connection_disconnect_raise_def)
      have "server_inv a'" using disconnect_raise_inv(1)[OF r] i0 by simp
      then show ?thesis using True False acc rm c(1) r
        by (simp add: mrcp_server_agent_connection_close_def)
    next
      case no: False
      show ?thesis using no False acc rm c(1) i0 inv_t[OF False]
        by (simp add: mrcp_server_agent_connection_close_def set)
    qed
  qed
qed

lemma connection_ok_transfer:
  assumes ok: "connection_ok a c x" and "member_of b c = member_of a c" "last_of b c = last_of a c"
    and "c \<in> set (ag_list b) \<longleftrightarrow> c \<in> set (ag_list a)" and n: "ag_next a \<le> ag_next b"
  shows "connection_ok b c x"
proof -
  have "c < ag_next b" using ok n by (simp add: connection_ok_def)
  then show ?thesis using ok unfolding connection_ok_def assms(2-4) by blast
qed

lemma server_invI:
  assumes "\<And>c con. ag_connections a c = Some con \<Longrightarrow> connection_ok a c con" and "distinct (ag_list a)"
    and "\<And>c. c \<in> set (ag_list a) \<Longrightarrow> ag_connections a c \<noteq> None"
    and "\<And>ch chan c. ag_channels a ch = Some chan \<Longrightarrow> cc_connection chan = Some c \<Longrightarrow> ag_connections a c \<noteq> None"
    and "distinct (map fst (sa_pending_channel_table a))"
    and "\<And>i ch. (i, ch) \<in> set (sa_pending_channel_table a) \<Longrightarrow> \<exists>chan. ag_channels a ch = Some chan
      \<and> cc_connection chan = None \<and> \<not> cc_removed chan \<and> cc_identifier chan = i"
  shows "server_inv a"
  using assms unfolding server_inv_def by blast

text \<open>Tables under a key that is new, and without one.\<close>

lemma table_update_new:
  assumes "map_of t i = None"
  shows "length (AList.update i ch t) = Suc (length t)" "AList.update i ch t \<noteq> []"
    and "distinct (map fst t) \<Longrightarrow> distinct (map fst (AList.update i ch t))"
proof -
  have k: "map fst (AList.update i ch t) = map fst t @ [i]"
    using assms by (simp add: update_keys map_of_eq_None_iff)
  show "length (AList.update i ch t) = Suc (length t)" using arg_cong[OF k, of length] by simp
  then show "AList.update i ch t \<noteq> []" by (cases "AList.update i ch t") simp_all
  show "distinct (map fst t) \<Longrightarrow> distinct (map fst (AList.update i ch t))" by (rule distinct_update)
qed

lemma table_delete_in:
  "(j, ch) \<in> set (AList.delete i t) \<longleftrightarrow> (j, ch) \<in> set t \<and> j \<noteq> i"
  by (auto simp: AList.delete_eq)

lemma mark_off [simp]:
  "ag_connections (a\<lparr>ag_next := n\<rparr>) = ag_connections a" "ag_channels (a\<lparr>ag_next := n\<rparr>) = ag_channels a"
  by simp_all

lemma accept_inv:
  assumes inv: "server_inv a"
  shows "\<exists>ok a'. mrcp_server_agent_connection_accept accepted addr pollset a = Some (ok, a') \<and> server_inv a'"
proof (cases "accepted \<and> addr \<noteq> None \<and> sa_pending_channel_table a \<noteq> [] \<and> pollset")
  case False
  then show ?thesis using inv
    by (auto simp: mrcp_server_agent_connection_accept_def split: option.split)
next
  case True
  then obtain ip port where addr: "addr = Some (ip, port)" by auto
  let ?c = "ag_next a"
  let ?con = "mrcp_connection_create\<lparr>con_sock := True, con_remote_ip := ip, con_remote_port := port,
      con_parser := Some (mrcp_parser_create (ag_factory a)), con_generator := Some mrcp_generator_create,
      con_tx_buffer_size := ag_tx_buffer_size a, con_rx_buffer_size := ag_rx_buffer_size a,
      con_inactivity_timer := (if sa_inactivity_timeout a \<noteq> 0 then Some None else None)\<rparr>"
  let ?con' = "?con\<lparr>con_inactivity_timer := conn_timer_set (sa_inactivity_timeout a) (con_inactivity_timer ?con)\<rparr>"
  let ?a = "a\<lparr>ag_next := Suc ?c, ag_list := ag_list a @ [?c], ag_connections := (ag_connections a)(?c \<mapsto> ?con')\<rparr>"
  have fresh: "ag_connections a ?c = None"
    using server_invD(1)[OF inv, of ?c] by (cases "ag_connections a ?c") (auto simp: connection_ok_def)
  then have none: "\<not> member_of a ?c i ch" "\<not> last_of a ?c ch" "?c \<notin> set (ag_list a)" for i ch
    using server_invD(3,4)[OF inv] by (fastforce simp: member_of_def last_of_def)+
  have r: "mrcp_server_agent_connection_accept accepted addr pollset a = Some (True, ?a)"
    using True addr by (simp add: mrcp_server_agent_connection_accept_def mrcp_connection_add_def con_set_def Let_def)
  have ok: "connection_ok ?a c x" if "connection_ok a c x" "c \<noteq> ?c" for c x
    by (rule connection_ok_transfer[OF that(1)]) (use that(2) in simp_all)
  have new: "connection_ok ?a ?c ?con'"
    using none by (simp add: connection_ok_def mrcp_connection_create_def)
  have "server_inv ?a"
  proof (rule server_invI)
    fix c x assume "ag_connections ?a c = Some x"
    then show "connection_ok ?a c x" using ok[of c x] new server_invD(1)[OF inv, of c x] by (cases "c = ?c") simp_all
  next
    show "distinct (ag_list ?a)" using server_invD(2)[OF inv] none(3) by simp
  next
    fix c assume "c \<in> set (ag_list ?a)"
    then show "ag_connections ?a c \<noteq> None" using server_invD(3)[OF inv, of c] by auto
  next
    fix ch chan c assume "ag_channels ?a ch = Some chan" "cc_connection chan = Some c"
    then show "ag_connections ?a c \<noteq> None" using server_invD(4)[OF inv, of ch chan c] by auto
  qed (use server_invD(5,6)[OF inv] in simp_all)
  then show ?thesis using r by blast
qed

text \<open>A channel that waits for a connection gets it.\<close>

lemma channel_add_inv:
  assumes inv: "server_inv a" and c: "ag_connections a c = Some con" "con_sock con"
    and p: "(i, ch) \<in> set (sa_pending_channel_table a)" and new: "map_of (con_channel_table con) i = None"
  shows "\<exists>a'. mrcp_connection_channel_add c ch
      (a\<lparr>sa_pending_channel_table := AList.delete i (sa_pending_channel_table a)\<rparr>) = Some a' \<and> server_inv a'
    \<and> (\<exists>con'. ag_connections a' c = Some con' \<and> con_sock con')"
proof -
  obtain chan where chan: "ag_channels a ch = Some chan" "cc_connection chan = None" "\<not> cc_removed chan" "cc_identifier chan = i"
    using server_invD(6)[OF inv p] by blast
  let ?con = "con\<lparr>con_channel_table := AList.update i ch (con_channel_table con),
      con_access_count := con_access_count con + 1, con_use_count := con_use_count con + 1\<rparr>"
  let ?a = "chan_set ch (chan\<lparr>cc_connection := Some c\<rparr>) (con_set c ?con
      (a\<lparr>sa_pending_channel_table := AList.delete i (sa_pending_channel_table a)\<rparr>))"
  have r: "mrcp_connection_channel_add c ch (a\<lparr>sa_pending_channel_table := AList.delete i (sa_pending_channel_table a)\<rparr>) = Some ?a"
    using c chan by (simp add: mrcp_connection_channel_add_def)
  have mem: "member_of ?a c' j ch' \<longleftrightarrow> (if ch' = ch then c' = c \<and> j = i else member_of a c' j ch')" for c' j ch'
    using chan by (auto simp: member_of_def)
  have no: "\<not> member_of a c' j ch" for c' j using chan by (auto simp: member_of_def)
  have last: "last_of ?a = last_of a" using chan by (auto simp: last_of_def fun_eq_iff)
  have ok: "connection_ok a c con" by (rule server_invD(1)[OF inv c(1)])
  note t = table_update_new[OF new, of ch]
  have own: "connection_ok ?a c ?con"
  proof -
    have "map_of (AList.update i ch (con_channel_table con)) j = Some ch' \<longleftrightarrow> member_of ?a c j ch'" for j ch'
      using ok no new unfolding mem by (auto simp: connection_ok_def update_conv')
    then show ?thesis using ok c(2) t unfolding connection_ok_def last by simp
  qed
  have others: "connection_ok ?a c' x" if "connection_ok a c' x" "c' \<noteq> c" for c' x
    using that no unfolding connection_ok_def mem last by auto
  have pend: "\<exists>chan. ag_channels ?a ch' = Some chan \<and> cc_connection chan = None \<and> \<not> cc_removed chan \<and> cc_identifier chan = j"
    if "(j, ch') \<in> set (AList.delete i (sa_pending_channel_table a))" for j ch'
  proof -
    have j: "(j, ch') \<in> set (sa_pending_channel_table a)" "j \<noteq> i" using that by (auto simp: table_delete_in)
    then have "ch' \<noteq> ch" using server_invD(6)[OF inv j(1)] chan by auto
    then show ?thesis using server_invD(6)[OF inv j(1)] by simp
  qed
  have "server_inv ?a"
  proof (rule server_invI)
    fix c' x assume "ag_connections ?a c' = Some x"
    then show "connection_ok ?a c' x" using own others[of c' x] server_invD(1)[OF inv, of c' x]
      by (cases "c' = c") simp_all
  next
    fix c' assume "c' \<in> set (ag_list ?a)"
    then show "ag_connections ?a c' \<noteq> None" using server_invD(3)[OF inv, of c'] by auto
  next
    fix ch' x c' assume "ag_channels ?a ch' = Some x" "cc_connection x = Some c'"
    then show "ag_connections ?a c' \<noteq> None" using server_invD(4)[OF inv, of ch' x c'] by (auto split: if_splits)
  next
    fix j ch' assume "(j, ch') \<in> set (sa_pending_channel_table ?a)"
    then show "\<exists>chan. ag_channels ?a ch' = Some chan \<and> cc_connection chan = None \<and> \<not> cc_removed chan \<and> cc_identifier chan = j"
      using pend[of j ch'] by simp
  qed (use server_invD(2,5)[OF inv] in \<open>simp_all add: distinct_delete\<close>)
  then show ?thesis using r c(2) by auto
qed

lemma timer_set_ok:
  assumes "connection_ok a c con" "con_sock con"
  shows "connection_ok a c (con\<lparr>con_inactivity_timer := t\<rparr>)"
  using assms by (simp add: connection_ok_def)

lemma message_inv:
  assumes inv: "server_inv a" and c: "ag_connections a c = Some con" "con_sock con"
  shows "\<exists>a'. mrcp_server_message_handler send address c a APT_MESSAGE_STATUS_COMPLETE (Some m) = Some (True, a')
    \<and> server_inv a'"
proof -
  let ?i = "message_identifier m"
  have "\<exists>found a1 con1. mrcp_connection_channel_associate c m a = Some (found, a1) \<and> server_inv a1
      \<and> ag_connections a1 c = Some con1 \<and> con_sock con1"
  proof (cases "map_of (con_channel_table con) ?i")
    case (Some ch)
    then show ?thesis using inv c by (simp add: mrcp_connection_channel_associate_def mrcp_connection_channel_find_def)
  next
    case None
    show ?thesis
    proof (cases "map_of (sa_pending_channel_table a) ?i")
      case new: None
      show ?thesis using inv c None new
        by (simp add: mrcp_connection_channel_associate_def mrcp_connection_channel_find_def)
    next
      case (Some ch)
      then obtain a1 con1 where "mrcp_connection_channel_add c ch
          (a\<lparr>sa_pending_channel_table := AList.delete ?i (sa_pending_channel_table a)\<rparr>) = Some a1" "server_inv a1"
          "ag_connections a1 c = Some con1" "con_sock con1"
        using channel_add_inv[OF inv c map_of_SomeD[OF Some] None] by blast
      then show ?thesis using c None Some
        by (simp add: mrcp_connection_channel_associate_def mrcp_connection_channel_find_def)
    qed
  qed
  then obtain found a1 con1 where r: "mrcp_connection_channel_associate c m a = Some (found, a1)" "server_inv a1"
    "ag_connections a1 c = Some con1" "con_sock con1" by blast
  have "server_inv (con_set c (con1\<lparr>con_inactivity_timer := t\<rparr>) a1)" for t
    by (rule server_inv_con_set[OF r(2,3) timer_set_ok[OF server_invD(1)[OF r(2,3)] r(4)]])
  then show ?thesis using r by (cases found) (simp_all add: mrcp_server_message_handler_def)
qed

lemma termination_inv:
  assumes inv: "server_inv a" and c: "ag_connections a c = Some con"
  shows "\<exists>a'. mrcp_server_termination_timer_proc c a = Some a' \<and> server_inv a'"
proof -
  let ?a = "con_set c (con\<lparr>con_termination_timer := conn_timer_kill (con_termination_timer con)\<rparr>) a"
  have "connection_ok a c (con\<lparr>con_termination_timer := conn_timer_kill (con_termination_timer con)\<rparr>)"
    using server_invD(1)[OF inv c] by (simp add: connection_ok_def conn_timer_kill_def)
  then have i: "server_inv ?a" by (rule server_inv_con_set[OF inv c])
  obtain a' where r: "mrcp_connection_disconnect_raise c ?a = Some a'"
    by (simp add: mrcp_connection_disconnect_raise_def)
  then show ?thesis using c i disconnect_raise_inv(1)[OF r] by (simp add: mrcp_server_termination_timer_proc_def)
qed

lemma inactivity_inv:
  assumes inv: "server_inv a" and c: "ag_connections a c = Some con" "timer_running (con_inactivity_timer con)"
  shows "\<exists>a'. mrcp_server_inactivity_timer_proc c a = Some a' \<and> server_inv a'"
proof -
  let ?con = "con\<lparr>con_inactivity_timer := conn_timer_kill (con_inactivity_timer con)\<rparr>"
  have ok: "connection_ok a c con" by (rule server_invD(1)[OF inv c(1)])
  then have s: "con_sock con" using c(2) by (simp add: connection_ok_def)
  have "server_inv (con_set c ?con a)" by (rule server_inv_con_set[OF inv c(1) timer_set_ok[OF ok s]])
  from close_inv[OF this, of c ?con True] s obtain a' where
    "mrcp_server_agent_connection_close c True (con_set c ?con a) = Some (True, a')" "server_inv a'"
    by auto
  then show ?thesis using c(1) by (simp add: mrcp_server_inactivity_timer_proc_def)
qed

text \<open>A channel that has no connection can be created and change its identifier.\<close>

lemma chan_set_inv:
  assumes inv: "server_inv a" and old: "\<And>chan. ag_channels a ch = Some chan \<Longrightarrow> cc_connection chan = None"
    and new: "cc_connection chan = None" and p: "\<And>i. (i, ch) \<notin> set (sa_pending_channel_table a)"
  shows "server_inv (chan_set ch chan a)"
proof -
  have m: "member_of (chan_set ch chan a) = member_of a" "last_of (chan_set ch chan a) = last_of a"
    using old new by (auto simp: member_of_def last_of_def fun_eq_iff)
  show ?thesis
  proof (rule server_invI)
    fix c x assume "ag_connections (chan_set ch chan a) c = Some x"
    then show "connection_ok (chan_set ch chan a) c x"
      using server_invD(1)[OF inv, of c x] connection_ok_transfer[of a c x "chan_set ch chan a"] by (simp add: m)
  next
    fix c assume "c \<in> set (ag_list (chan_set ch chan a))"
    then show "ag_connections (chan_set ch chan a) c \<noteq> None" using server_invD(3)[OF inv, of c] by auto
  next
    fix ch' x c assume "ag_channels (chan_set ch chan a) ch' = Some x" "cc_connection x = Some c"
    then show "ag_connections (chan_set ch chan a) c \<noteq> None"
      using server_invD(4)[OF inv, of ch' x c] new by (auto split: if_splits)
  next
    fix j ch' assume j: "(j, ch') \<in> set (sa_pending_channel_table (chan_set ch chan a))"
    then have "ch' \<noteq> ch" using p by auto
    then show "\<exists>x. ag_channels (chan_set ch chan a) ch' = Some x \<and> cc_connection x = None \<and> \<not> cc_removed x \<and> cc_identifier x = j"
      using server_invD(6)[OF inv, of j ch'] j by simp
  qed (use server_invD(2,5)[OF inv] in simp_all)
qed

lemma pend_update_inv:
  assumes inv: "server_inv a" and "ag_channels a ch = Some chan" "cc_connection chan = None" "\<not> cc_removed chan"
    "cc_identifier chan = i"
  shows "server_inv (a\<lparr>sa_pending_channel_table := AList.update i ch (sa_pending_channel_table a)\<rparr>)"
proof (rule server_invI)
  let ?a = "a\<lparr>sa_pending_channel_table := AList.update i ch (sa_pending_channel_table a)\<rparr>"
  fix c x assume "ag_connections ?a c = Some x"
  then show "connection_ok ?a c x" using server_invD(1)[OF inv, of c x] connection_ok_transfer[of a c x ?a] by simp
next
  let ?a = "a\<lparr>sa_pending_channel_table := AList.update i ch (sa_pending_channel_table a)\<rparr>"
  fix j ch' assume "(j, ch') \<in> set (sa_pending_channel_table ?a)"
  then have "map_of (AList.update i ch (sa_pending_channel_table a)) j = Some ch'"
    using distinct_update[OF server_invD(5)[OF inv]] by simp
  then have "j = i \<and> ch' = ch \<or> (j, ch') \<in> set (sa_pending_channel_table a)"
    by (auto simp: update_conv' dest: map_of_SomeD split: if_splits)
  then show "\<exists>x. ag_channels ?a ch' = Some x \<and> cc_connection x = None \<and> \<not> cc_removed x \<and> cc_identifier x = j"
    using server_invD(6)[OF inv, of j ch'] assms(2-5) by auto
qed (use server_invD(2-5)[OF inv] in \<open>auto simp: distinct_update\<close>)

lemma pend_delete_inv:
  assumes inv: "server_inv a"
  shows "server_inv (a\<lparr>sa_pending_channel_table := AList.delete i (sa_pending_channel_table a)\<rparr>)"
proof (rule server_invI)
  let ?a = "a\<lparr>sa_pending_channel_table := AList.delete i (sa_pending_channel_table a)\<rparr>"
  fix c x assume "ag_connections ?a c = Some x"
  then show "connection_ok ?a c x" using server_invD(1)[OF inv, of c x] connection_ok_transfer[of a c x ?a] by simp
qed (use server_invD(2-6)[OF inv] in \<open>auto simp: distinct_delete table_delete_in\<close>)

lemma sets_collapse:
  "con_set c p (chan_set ch q (chan_set ch x (con_set c z a))) = chan_set ch q (con_set c p a)"
  by (simp add: con_set_def chan_set_def)

lemma add_inv:
  assumes inv: "server_inv a" and ch: "ag_channels a ch = Some chan" "cc_connection chan = None" "\<not> cc_removed chan"
    and new: "ch \<notin> snd ` set (sa_pending_channel_table a)"
  shows "\<exists>a'. mrcp_server_agent_channel_add ch offer a = Some a' \<and> server_inv a'"
proof -
  let ?i = "apt_id_resource_generate (cd_session_id offer) (cd_resource_name offer) (CHR ''@'')"
  let ?chan = "chan\<lparr>cc_identifier := ?i\<rparr>"
  have "\<exists>r. connection_find_from (ag_connections a) ip cs = Some r \<and> (\<forall>c. r = Some c \<longrightarrow> c \<in> set cs)"
    if "\<forall>c \<in> set cs. ag_connections a c \<noteq> None" for ip cs
    using that by (induction cs) auto
  then obtain r where r: "mrcp_connection_find a (cd_ip offer) = Some r" "\<And>c. r = Some c \<Longrightarrow> \<exists>con. ag_connections a c = Some con"
    using server_invD(3)[OF inv] unfolding mrcp_connection_find_def by fastforce
  let ?a = "chan_set ch ?chan a"
  have p: "(i, ch) \<notin> set (sa_pending_channel_table a)" for i using new by force
  have "server_inv ?a" by (rule chan_set_inv[OF inv _ _ p]) (use ch in simp_all)
  then have i: "server_inv (?a\<lparr>sa_pending_channel_table := AList.update ?i ch (sa_pending_channel_table ?a)\<rparr>)"
    by (rule pend_update_inv[where chan = ?chan]) (use ch in simp_all)
  show ?thesis
  proof (cases r)
    case None
    then show ?thesis using r(1) ch i by (simp add: mrcp_server_agent_channel_add_def Let_def)
  next
    case (Some c)
    then obtain con where "ag_connections a c = Some con" using r(2) by blast
    then show ?thesis using r(1) Some ch i by (simp add: mrcp_server_agent_channel_add_def Let_def)
  qed
qed

lemma remove_inv:
  assumes inv: "server_inv a" and ch: "ag_channels a ch = Some chan" "\<not> cc_removed chan"
  shows "\<exists>a'. mrcp_server_agent_channel_remove ch a = Some a' \<and> server_inv a'"
proof (cases "cc_connection chan")
  case None
  then show ?thesis using ch pend_delete_inv[OF inv] by (simp add: mrcp_server_agent_channel_remove_def)
next
  case (Some c)
  obtain con where con: "ag_connections a c = Some con" using server_invD(4)[OF inv ch(1) Some] by blast
  let ?i = "cc_identifier chan" and ?t = "con_channel_table con"
  have ok: "connection_ok a c con" by (rule server_invD(1)[OF inv con])
  have mem: "member_of a c ?i ch" using ch Some by (simp add: member_of_def)
  then have key: "map_of ?t ?i = Some ch" and d: "distinct (map fst ?t)" and acc: "con_access_count con = length ?t"
    using ok by (simp_all add: connection_ok_def)
  then have ne: "?t \<noteq> []" by auto
  have nolast: "\<not> last_of a c ch'" for ch' using ok ne by (auto simp: connection_ok_def)
  let ?t' = "AList.delete ?i ?t"
  have len: "length ?t' = length ?t - 1"
  proof -
    have "map fst ?t' = removeAll ?i (map fst ?t)" by (rule delete_keys)
    moreover have "?i \<in> set (map fst ?t)" using map_of_SomeD[OF key] by force
    ultimately have "length (map fst ?t') = length (map fst ?t) - 1"
      using d by (simp add: distinct_remove1_removeAll[symmetric] length_remove1)
    then show ?thesis by simp
  qed
  let ?con = "con\<lparr>con_channel_table := ?t', con_access_count := length ?t'\<rparr>"
  have rm: "mrcp_connection_channel_remove c ch a
      = Some (chan_set ch (chan\<lparr>cc_connection := None\<rparr>) (con_set c ?con a))"
    using con ch(1) ne acc len by (simp add: mrcp_connection_channel_remove_def)
  have memb: "map_of ?t' j = Some ch' \<longleftrightarrow> ch' \<noteq> ch \<and> member_of a c j ch'" for j ch'
  proof -
    have "map_of ?t' j = Some ch' \<longleftrightarrow> j \<noteq> ?i \<and> member_of a c j ch'"
      using ok by (simp add: delete_conv' connection_ok_def)
    moreover have "(j \<noteq> ?i) = (ch' \<noteq> ch)" if m: "member_of a c j ch'"
    proof -
      have "map_of ?t j = Some ch'" using ok m by (simp add: connection_ok_def)
      then show ?thesis using key m ch(1) by (auto simp: member_of_def)
    qed
    ultimately show ?thesis by blast
  qed
  have final: "server_inv (chan_set ch chan' (con_set c con' a))"
    if chan': "cc_connection chan' = (if b then Some c else None)" "cc_removed chan' = b"
      and own: "connection_ok (chan_set ch chan' (con_set c con' a)) c con'" for chan' con' b
  proof (rule server_invI)
    let ?a = "chan_set ch chan' (con_set c con' a)"
    fix c' x assume x: "ag_connections ?a c' = Some x"
    show "connection_ok ?a c' x"
    proof (cases "c' = c")
      case True
      then show ?thesis using x own by simp
    next
      case False
      have m: "member_of ?a c' = member_of a c'" "last_of ?a c' = last_of a c'"
        using chan' ch(1) Some False by (auto simp: member_of_def last_of_def fun_eq_iff)
      show ?thesis
        by (rule connection_ok_transfer[OF server_invD(1)[OF inv, of c' x]]) (use x False m in simp_all)
    qed
  next
    let ?a = "chan_set ch chan' (con_set c con' a)"
    fix j ch' assume j: "(j, ch') \<in> set (sa_pending_channel_table ?a)"
    then have "ch' \<noteq> ch" using server_invD(6)[OF inv, of j ch'] ch(1) Some by auto
    then show "\<exists>x. ag_channels ?a ch' = Some x \<and> cc_connection x = None \<and> \<not> cc_removed x \<and> cc_identifier x = j"
      using server_invD(6)[OF inv, of j ch'] j by simp
  qed (use server_invD(2-5)[OF inv] chan' in \<open>auto split: if_splits\<close>)
  show ?thesis
  proof (cases "?t' = [] \<and> \<not> con_sock con")
    case True
    let ?con' = "?con\<lparr>con_termination_timer := conn_timer_kill (con_termination_timer con)\<rparr>"
    let ?chan' = "chan\<lparr>cc_connection := Some c, cc_removed := True\<rparr>"
    let ?a = "chan_set ch ?chan' (con_set c ?con' a)"
    have m: "member_of ?a c j ch' \<longleftrightarrow> ch' \<noteq> ch \<and> member_of a c j ch'" "last_of ?a c ch' \<longleftrightarrow> ch' = ch" for j ch'
      using nolast by (auto simp: member_of_def last_of_def)
    have nm: "\<not> (ch' \<noteq> ch \<and> member_of a c j ch')" for j ch' using memb[of j ch'] True by simp
    have "connection_ok ?a c ?con'"
      using ok True nm unfolding connection_ok_def m
      by (simp add: conn_timer_kill_def)
    then have "server_inv ?a" by (intro final[where b = True]) simp_all
    then show ?thesis using rm ch Some True
      by (simp add: mrcp_server_agent_channel_remove_def sets_collapse)
  next
    case False
    let ?chan' = "chan\<lparr>cc_connection := None\<rparr>"
    let ?a = "chan_set ch ?chan' (con_set c ?con a)"
    have m: "member_of ?a c j ch' \<longleftrightarrow> ch' \<noteq> ch \<and> member_of a c j ch'" "last_of ?a c ch' \<longleftrightarrow> False" for j ch'
      using nolast by (auto simp: member_of_def last_of_def)
    have "connection_ok ?a c ?con"
      using ok False ne d unfolding connection_ok_def m
      by (simp add: memb distinct_delete del: map_of_eq_Some_iff) blast
    then have "server_inv ?a" by (intro final[where b = False]) (use ch in simp_all)
    then show ?thesis using rm ch Some False by (auto simp: mrcp_server_agent_channel_remove_def)
  qed
qed

lemma destroy_inv:
  assumes inv: "server_inv a" and ch: "ag_channels a ch = Some chan"
  shows "\<exists>a'. mrcp_server_control_channel_destroy ch a = Some a' \<and> server_inv a'"
proof (cases "cc_removed chan \<and> cc_connection chan \<noteq> None")
  case False
  then show ?thesis using inv ch by (cases "cc_connection chan") (simp_all add: mrcp_server_control_channel_destroy_def)
next
  case True
  then obtain c where c: "cc_connection chan = Some c" and r: "cc_removed chan" by auto
  obtain con where con: "ag_connections a c = Some con" using server_invD(4)[OF inv ch c] by blast
  have ok: "connection_ok a c con" by (rule server_invD(1)[OF inv con])
  have "last_of a c ch" using ch c r by (simp add: last_of_def)
  then have o: "\<not> con_sock con" "con_channel_table con = []" "\<And>ch'. last_of a c ch' \<Longrightarrow> ch' = ch"
    using ok by (auto simp: connection_ok_def)
  have run: "\<not> timer_running (con_inactivity_timer con)" "\<not> timer_running (con_termination_timer con)"
    using ok o(1,2) by (simp_all add: connection_ok_def)
  let ?chan = "chan\<lparr>cc_connection := None\<rparr>"
  let ?a = "(chan_set ch ?chan a)\<lparr>ag_connections := (ag_connections a)(c := None)\<rparr>"
  have step: "mrcp_server_control_channel_destroy ch a = Some ?a"
    using ch c r con run by (simp add: mrcp_server_control_channel_destroy_def mrcp_connection_destroy_def)
  have unused: "cc_connection x \<noteq> Some c" if "ag_channels a ch' = Some x" "ch' \<noteq> ch" for ch' x
  proof
    assume "cc_connection x = Some c"
    then have "member_of a c (cc_identifier x) ch' \<or> last_of a c ch'" using that(1) by (auto simp: member_of_def last_of_def)
    then show False using o that(2) ok by (auto simp: connection_ok_def)
  qed
  have "server_inv ?a"
  proof (rule server_invI)
    fix c' x assume x: "ag_connections ?a c' = Some x"
    then have "c' \<noteq> c" by auto
    then have m: "member_of ?a c' = member_of a c'" "last_of ?a c' = last_of a c'"
      using ch c by (auto simp: member_of_def last_of_def fun_eq_iff chan_set_def)
    show "connection_ok ?a c' x"
      by (rule connection_ok_transfer[OF server_invD(1)[OF inv, of c' x]]) (use x \<open>c' \<noteq> c\<close> m in simp_all)
  next
    fix c' assume c': "c' \<in> set (ag_list ?a)"
    have "c \<notin> set (ag_list a)" using ok o(1) by (simp add: connection_ok_def)
    then show "ag_connections ?a c' \<noteq> None" using c' server_invD(3)[OF inv, of c'] by auto
  next
    fix ch' x c' assume "ag_channels ?a ch' = Some x" "cc_connection x = Some c'"
    then show "ag_connections ?a c' \<noteq> None"
      using server_invD(4)[OF inv, of ch' x c'] unused[of ch' x] by (auto split: if_splits)
  next
    fix j ch' assume j: "(j, ch') \<in> set (sa_pending_channel_table ?a)"
    then have "ch' \<noteq> ch" using server_invD(6)[OF inv, of j ch'] ch c by auto
    then show "\<exists>x. ag_channels ?a ch' = Some x \<and> cc_connection x = None \<and> \<not> cc_removed x \<and> cc_identifier x = j"
      using server_invD(6)[OF inv, of j ch'] j by simp
  qed (use server_invD(2,5)[OF inv] in simp_all)
  then show ?thesis using step by blast
qed

lemma server_step_inv:
  assumes inv: "server_inv a" and i: "input_allowed a i"
  shows "\<exists>a'. server_step i a = Some a' \<and> server_inv a'"
proof (cases i)
  case (In_Accept ok addr pollset)
  then show ?thesis using accept_inv[OF inv, of ok addr pollset] by auto
next
  case (In_Message c m)
  then obtain con where c: "ag_connections a c = Some con" "con_sock con" using i by (auto split: option.splits)
  from message_inv[OF inv c, of "\<lambda>_. True" 0 m] show ?thesis using In_Message by auto
next
  case (In_Closed c)
  then obtain con where c: "ag_connections a c = Some con" "con_sock con" using i by (auto split: option.splits)
  from close_inv[OF inv c, of False] show ?thesis using In_Closed c
    by (auto simp: mrcp_server_poller_signal_process_def connection_recv_def)
next
  case (In_Inactivity c)
  then show ?thesis using inactivity_inv[OF inv, of c] i by (auto split: option.splits)
next
  case (In_Termination c)
  then show ?thesis using termination_inv[OF inv, of c] i by (auto split: option.splits)
next
  case (In_Create ch)
  have "(j, ch) \<notin> set (sa_pending_channel_table a)" for j using server_invD(6)[OF inv, of j ch] In_Create i by auto
  then show ?thesis using chan_set_inv[OF inv, of ch] In_Create i by (simp add: mrcp_server_control_channel_create_def)
next
  case (In_Add ch offer)
  then show ?thesis using add_inv[OF inv, of ch _ offer] i by (auto split: option.splits)
next
  case (In_Modify ch offer)
  then show ?thesis using inv by (simp add: mrcp_server_agent_channel_modify_def Let_def)
next
  case (In_Remove ch)
  then show ?thesis using remove_inv[OF inv, of ch] i by (auto split: option.splits)
next
  case (In_Destroy ch)
  then show ?thesis using destroy_inv[OF inv, of ch] i by auto
qed

lemma server_reach_inv: "server_reach a \<Longrightarrow> server_inv a"
  by (induction rule: server_reach.induct) (use create_inv server_step_inv in \<open>fastforce+\<close>)

section \<open>Properties\<close>

text \<open>
  C7: The connections of a server are freed neither too early nor too late. In any state the
  agent can reach, every input the system and the user may give is handled without touching a
  connection that was freed and without freeing one a timer would still use; a connection that
  is closed is kept just as long as a channel refers to it; and the count of its users is the
  number of its channels.
\<close>

theorem server_connection_lifetime:
  assumes "server_reach a"
  shows "(input_allowed a i \<longrightarrow> (\<exists>a'. server_step i a = Some a' \<and> server_reach a'))
    \<and> (ag_connections a c = Some con \<longrightarrow>
         con_access_count con = length (con_channel_table con) \<and> (con_sock con \<longleftrightarrow> c \<in> set (ag_list a))
         \<and> (con_sock con \<or> (\<exists>ch chan. ag_channels a ch = Some chan \<and> cc_connection chan = Some c)))
    \<and> (ag_channels a ch = Some chan \<longrightarrow> cc_connection chan = Some c \<longrightarrow> ag_connections a c \<noteq> None)"
proof (intro conjI impI)
  have inv: "server_inv a" by (rule server_reach_inv[OF assms])
  show "\<exists>a'. server_step i a = Some a' \<and> server_reach a'" if "input_allowed a i"
    using server_step_inv[OF inv that] reach_step[OF assms that] by blast
  show "ag_connections a c \<noteq> None" if "ag_channels a ch = Some chan" "cc_connection chan = Some c"
    using server_invD(4)[OF inv that] by auto
  assume con: "ag_connections a c = Some con"
  have ok: "connection_ok a c con" by (rule server_invD(1)[OF inv con])
  show "con_access_count con = length (con_channel_table con)" "con_sock con \<longleftrightarrow> c \<in> set (ag_list a)"
    using ok by (simp_all add: connection_ok_def)
  show "con_sock con \<or> (\<exists>ch chan. ag_channels a ch = Some chan \<and> cc_connection chan = Some c)"
  proof (cases "con_channel_table con = []")
    case True
    then show ?thesis using ok by (auto simp: connection_ok_def last_of_def)
  next
    case False
    then obtain j ch' where "map_of (con_channel_table con) j = Some ch'"
      by (metis map_of_eq_empty_iff not_None_eq)
    then have "member_of a c j ch'" using ok by (simp add: connection_ok_def)
    then show ?thesis by (auto simp: member_of_def)
  qed
qed

lemma server_connection_lifetime_witness:
  "\<exists>a a'. server_reach (a :: unit mrcp_server_agent) \<and> input_allowed a (In_Create 3) \<and> server_step (In_Create 3) a = Some a'"
proof -
  obtain a :: "unit mrcp_server_agent" where a: "mrcp_server_connection_agent_create (Some ''0.0.0.0'') 1544 False sample_factory = Some a"
    by (simp add: mrcp_server_connection_agent_create_def)
  have i: "input_allowed a (In_Create 3)" using a by (auto simp: mrcp_server_connection_agent_create_def)
  show ?thesis using server_connection_lifetime[OF reach_create[OF a], of "In_Create 3"] reach_create[OF a] i by blast
qed

section \<open>What a server receives\<close>

text \<open>Segments of data, and whether the receive buffer takes each of them whole.\<close>

fun server_receive :: "nat \<Rightarrow> string list \<Rightarrow> 'r mrcp_server_agent \<Rightarrow> 'r mrcp_server_agent option" where
  "server_receive c [] a = Some a"
| "server_receive c (d # ds) a = do {
     (_, a1) \<leftarrow> mrcp_server_poller_signal_process (\<lambda>_. True) 0 c d a;
     server_receive c ds a1
   }"

fun segments_fit :: "nat \<Rightarrow> string list \<Rightarrow> 'r mrcp_server_agent \<Rightarrow> bool" where
  "segments_fit c [] a = True"
| "segments_fit c (d # ds) a \<longleftrightarrow>
     (case ag_connections a c of
        None \<Rightarrow> False
      | Some con \<Rightarrow> d \<noteq> [] \<and> length (ts_done (con_rx_stream con)) + length d \<le> con_rx_buffer_size con)
     \<and> (case mrcp_server_poller_signal_process (\<lambda>_. True) 0 c d a of
          None \<Rightarrow> True
        | Some (_, a1) \<Rightarrow> segments_fit c ds a1)"

text \<open>The event with which a message of a known channel reaches the user.\<close>

definition receive_event :: "'r mrcp_connection \<Rightarrow> 'r mrcp_message \<Rightarrow> 'r connection_event" where
  "receive_event con m = On_Receive (the (mrcp_connection_channel_find con (message_identifier m))) m"

definition channel_known :: "'r mrcp_connection \<Rightarrow> 'r mrcp_message \<Rightarrow> bool" where
  "channel_known con m \<longleftrightarrow> mrcp_connection_channel_find con (message_identifier m) \<noteq> None"

lemma list_all2_transfer:
  assumes "list_all2 R xs ys" "list_all P xs" and "\<And>x y. R x y \<Longrightarrow> P x \<Longrightarrow> Q y"
  shows "list_all Q ys"
  using assms(1,2) by (induction rule: list_all2_induct) (auto intro: assms(3))

lemma channel_known_update [simp]:
  "channel_known (con\<lparr>con_inactivity_timer := t\<rparr>) = channel_known con"
  "channel_known (con\<lparr>con_parser := p, con_rx_stream := s\<rparr>) = channel_known con"
  "receive_event (con\<lparr>con_inactivity_timer := t\<rparr>) = receive_event con"
  "receive_event (con\<lparr>con_parser := p, con_rx_stream := s\<rparr>) = receive_event con"
  by (simp_all add: channel_known_def receive_event_def mrcp_connection_channel_find_def fun_eq_iff)

lemma server_deliver:
  assumes "ag_connections a c = Some con" "list_all (channel_known con) Ms"
  shows "\<exists>a1 t. deliver (loop_handler (mrcp_server_message_handler send address c)) Ms (Some a) = Some a1
    \<and> accepts (loop_handler (mrcp_server_message_handler send address c)) (Some a) Ms
    \<and> ag_connections a1 c = Some (con\<lparr>con_inactivity_timer := t\<rparr>)
    \<and> ag_events a1 = ag_events a @ map (receive_event con) Ms"
  using assms
proof (induction Ms arbitrary: a con)
  case Nil
  then show ?case by (auto intro: exI[of _ "con_inactivity_timer con"])
next
  case (Cons M Ms)
  obtain ch where ch: "mrcp_connection_channel_find con (message_identifier M) = Some ch"
    using Cons.prems(2) by (auto simp: channel_known_def)
  let ?con = "con\<lparr>con_inactivity_timer := conn_timer_set (sa_inactivity_timeout a) (con_inactivity_timer con)\<rparr>"
  let ?a = "raise_event (On_Receive ch M) (con_set c ?con a)"
  have h: "loop_handler (mrcp_server_message_handler send address c) (Some a) APT_MESSAGE_STATUS_COMPLETE (Some M)
      = (True, Some ?a)"
    using Cons.prems(1) ch by (simp add: loop_handler_def mrcp_server_message_handler_def mrcp_connection_channel_associate_def)
  have a1: "ag_connections ?a c = Some ?con" "list_all (channel_known ?con) Ms" using Cons.prems(2) by simp_all
  from Cons.IH[OF a1] show ?case using h ch by (auto simp: receive_event_def)
qed

lemma server_receive_segment:
  assumes con: "ag_connections a c = Some con" "con_sock con" "con_parser con = Some p" and p: "mrcp.own obj p"
    and e: "expects (mrcp_message_start obj) p (ts_done (con_rx_stream con) @ d @ y) Ms"
    and d: "d \<noteq> []" "length (ts_done (con_rx_stream con)) + length d \<le> con_rx_buffer_size con"
    and known: "list_all (channel_known con) Ms"
  shows "\<exists>Ms1 Ms2 a1 con1 p1. mrcp_server_poller_signal_process send address c d a = Some (True, a1)
    \<and> Ms = Ms1 @ Ms2 \<and> ag_events a1 = ag_events a @ map (receive_event con) Ms1
    \<and> ag_connections a1 c = Some con1 \<and> con_sock con1 \<and> con_parser con1 = Some p1 \<and> mrcp.own obj p1
    \<and> channel_known con1 = channel_known con \<and> receive_event con1 = receive_event con
    \<and> expects (mrcp_message_start obj) p1 (ts_done (con_rx_stream con1) @ y) Ms2 \<and> (y = [] \<longrightarrow> Ms2 = [])"
proof -
  let ?w = "ts_done (con_rx_stream con)" and ?H = "mrcp_server_message_handler send address c"
  let ?s = "\<lparr>ts_done = [], ts_rest = ?w @ d, ts_eos = False\<rparr>"
  have rx: "connection_recv (con_rx_buffer_size con) (con_rx_stream con) d = (d, ?s)"
    using d(2) by (simp add: connection_recv_def apt_text_stream_reset_def)
  have keeps: "\<exists>a1 con1. deliver (loop_handler ?H) Ms1 (Some a) = Some a1 \<and> ag_connections a1 c = Some con1"
    if "Ms = Ms1 @ Ms2" for Ms1 Ms2
    using server_deliver[OF con(1), of Ms1 send address] known that by auto
  have acc: "accepts (loop_handler ?H) (Some a) Ms" using server_deliver[OF con(1) known, of send address] by blast
  have inc: "\<And>a. ?H a APT_MESSAGE_STATUS_INCOMPLETE None = Some (True, a)" by (simp add: mrcp_server_message_handler_def)
  have e': "expects (mrcp_message_start obj) p ((?w @ d) @ y) Ms" using e by simp
  have ne: "?w @ d \<noteq> []" using d(1) by simp
  have s: "ts_rest ?s = ?w @ d" "\<not> ts_eos ?s" by simp_all
  have "\<exists>Ms1 Ms2 a1 con1 p1 s1. Ms = Ms1 @ Ms2 \<and> deliver (loop_handler ?H) Ms1 (Some a) = Some a1
    \<and> ag_connections a1 c = Some con1
    \<and> connection_run ?H c ?s a = Some (True, con_set c (con1\<lparr>con_parser := Some p1, con_rx_stream := s1\<rparr>) a1)
    \<and> mrcp.own obj p1 \<and> expects (mrcp_message_start obj) p1 (ts_done s1 @ y) Ms2 \<and> (y = [] \<longrightarrow> Ms2 = [])"
    by (rule connection_run_result[OF con(1,3) p e' s ne]) (rule inc, rule acc, rule keeps)
  then obtain Ms1 Ms2 a1 con1 p1 s1 where r: "Ms = Ms1 @ Ms2" "deliver (loop_handler ?H) Ms1 (Some a) = Some a1"
    "ag_connections a1 c = Some con1"
    "connection_run ?H c ?s a = Some (True, con_set c (con1\<lparr>con_parser := Some p1, con_rx_stream := s1\<rparr>) a1)"
    "mrcp.own obj p1" "expects (mrcp_message_start obj) p1 (ts_done s1 @ y) Ms2" "y = [] \<longrightarrow> Ms2 = []"
    by (elim exE conjE) (rule that)
  obtain t where t: "con1 = con\<lparr>con_inactivity_timer := t\<rparr>" "ag_events a1 = ag_events a @ map (receive_event con) Ms1"
    using server_deliver[OF con(1), of Ms1 send address] known r(1-3) by auto
  let ?con1 = "con1\<lparr>con_parser := Some p1, con_rx_stream := s1\<rparr>"
  let ?a1 = "con_set c ?con1 a1"
  show ?thesis
  proof (intro exI conjI)
    show "mrcp_server_poller_signal_process send address c d a = Some (True, ?a1)"
      using con d(1) rx r(4) by (simp add: mrcp_server_poller_signal_process_def)
    show "ag_connections ?a1 c = Some ?con1" by simp
    show "expects (mrcp_message_start obj) p1 (ts_done (con_rx_stream ?con1) @ y) Ms2" using r(6) by simp
    show "channel_known ?con1 = channel_known con" "receive_event ?con1 = receive_event con" by (simp_all only: t(1) channel_known_update)
  qed (use t r(1,5,7) con(2) in \<open>simp_all\<close>)
qed

lemma server_receive_segments:
  assumes "ag_connections a c = Some con" "con_sock con" "con_parser con = Some p" "mrcp.own obj p"
    and "expects (mrcp_message_start obj) p (ts_done (con_rx_stream con) @ concat ds) Ms" "ds = [] \<longrightarrow> Ms = []"
    and "segments_fit c ds a" "list_all (channel_known con) Ms"
  shows "\<exists>a1. server_receive c ds a = Some a1 \<and> ag_events a1 = ag_events a @ map (receive_event con) Ms"
  using assms
proof (induction ds arbitrary: a con p Ms)
  case Nil
  then show ?case by simp
next
  case (Cons d ds)
  have d: "d \<noteq> []" "length (ts_done (con_rx_stream con)) + length d \<le> con_rx_buffer_size con"
    using Cons.prems(1,7) by simp_all
  have e: "expects (mrcp_message_start obj) p (ts_done (con_rx_stream con) @ d @ concat ds) Ms" using Cons.prems(5) by simp
  from server_receive_segment[OF Cons.prems(1-4) e d Cons.prems(8), of "\<lambda>_. True" 0]
  obtain Ms1 Ms2 a1 con1 p1 where r: "mrcp_server_poller_signal_process (\<lambda>_. True) 0 c d a = Some (True, a1)"
    "Ms = Ms1 @ Ms2" "ag_events a1 = ag_events a @ map (receive_event con) Ms1"
    "ag_connections a1 c = Some con1" "con_sock con1" "con_parser con1 = Some p1" "mrcp.own obj p1"
    "channel_known con1 = channel_known con" "receive_event con1 = receive_event con"
    "expects (mrcp_message_start obj) p1 (ts_done (con_rx_stream con1) @ concat ds) Ms2" "concat ds = [] \<longrightarrow> Ms2 = []"
    by blast
  have "segments_fit c ds a1" using Cons.prems(7) r(1) by (simp split: option.splits)
  moreover have "list_all (channel_known con1) Ms2" using Cons.prems(8) r(2,8) by simp
  moreover have "ds = [] \<longrightarrow> Ms2 = []" using r(11) by simp
  ultimately obtain a2 where "server_receive c ds a1 = Some a2" "ag_events a2 = ag_events a1 @ map (receive_event con1) Ms2"
    using Cons.IH[OF r(4-7,10)] by blast
  then show ?case using r by simp
qed

text \<open>
  C5: Messages arrive as they were sent. A client sends messages one behind the other, each of
  them in as many pieces as its transmit buffer asks for; the network cuts and joins the bytes
  into any segments the receive buffer of the server has room for. If the connection knows the
  channels of the messages, the user of the server is handed exactly these messages, in order
  and once, each for its channel.
\<close>

theorem messages_sent_are_received:
  assumes "list_all (\<lambda>(address, m). sendable f tx m) ms"
    and "send_all tx mrcp_generator_create ms = Some sent" and "concat ds = concat sent"
    and "ag_connections a c = Some con" and "con_sock con" and "con_parser con = Some (mrcp_parser_create f)"
    and "con_rx_stream con = apt_text_stream_of []" and "segments_fit c ds a"
    and "list_all (channel_known con) (map (validated \<circ> snd) ms)"
  shows "\<exists>Ms a1. list_all2 same_message (map (validated \<circ> snd) ms) Ms \<and> server_receive c ds a = Some a1
    \<and> ag_events a1 = ag_events a @ map (receive_event con) Ms"
proof -
  let ?obj = "\<lparr>par_factory = f, par_resource = None\<rparr>"
  have g: "mg_vtable (mrcp_generator_create :: 'a mrcp_message message_generator) = mrcp_generator_vtable"
    "mg_stage (mrcp_generator_create :: 'a mrcp_message message_generator) = APT_MESSAGE_STAGE_START_LINE"
    by (simp_all add: mrcp_generator_create_def apt_message_generator_create_def)
  obtain ws where ws: "concat sent = concat ws"
    "list_all2 (\<lambda>w m. message_wire_ok f m \<and> (\<exists>l < 2 ^ 63. w = message_wire l m)) ws (map (validated \<circ> snd) ms)"
    using send_all_wires[OF assms(1) g] assms(2) by auto
  obtain Ms where Ms: "message_stream mrcp_parser_vtable ?obj (mrcp_message_start ?obj) (concat ds) Ms"
    "list_all2 same_message (map (validated \<circ> snd) ms) Ms"
    using message_wires_stream[OF ws(2), of ?obj] ws(1) assms(3) by auto
  have id: "same_message m M \<Longrightarrow> message_identifier M = message_identifier m" for m M
    by (simp add: same_message_def message_identifier_def Let_def)
  have known: "list_all (channel_known con) Ms"
    by (rule list_all2_transfer[OF Ms(2) assms(9)]) (simp add: channel_known_def id)
  have own: "mrcp.own ?obj (mrcp_parser_create f)"
    by (simp add: mrcp.own_def mrcp_parser_create_def apt_message_parser_create_def)
  have e: "expects (mrcp_message_start ?obj) (mrcp_parser_create f) (ts_done (con_rx_stream con) @ concat ds) Ms"
    using message_stream_parser[OF Ms(1)] assms(7) by (simp add: apt_text_stream_of_def)
  have "ds = [] \<longrightarrow> Ms = []" using Ms(1) by (auto elim: message_stream.cases simp: message_text_def)
  from server_receive_segments[OF assms(4-6) own e this assms(8) known] Ms(2) show ?thesis by blast
qed

lemma sample_speak_sendable: "sendable sample_factory 1024 sample_speak"
proof -
  have "message_head_size sample_speak + 64 < 1024"
    by (simp add: message_head_size_def sample_speak_def fields_text_def field_line_def channel_field_def
        apt_header_field_create_def apt_id_resource_generate_def MRCP_CHANNEL_ID_def msg_section_def section_fields_def)
  then show ?thesis using sample_speak_ok by (simp add: sendable_def)
qed

lemma messages_sent_are_received_witness:
  "\<exists>sent con a a1 Ms. send_all 1024 mrcp_generator_create [(1, sample_speak)] = Some sent
    \<and> list_all2 same_message [sample_speak] Ms \<and> server_receive 0 [concat sent] a = Some a1
    \<and> ag_events a1 = ag_events a @ map (receive_event con) Ms"
proof -
  let ?ms = "[(1, sample_speak)]"
  have ok: "list_all (\<lambda>(address, m). sendable sample_factory 1024 m) ?ms" using sample_speak_sendable by simp
  obtain a0 :: "unit mrcp_server_agent" where "mrcp_server_connection_agent_create (Some ''0.0.0.0'') 1544 False sample_factory = Some a0"
    by (simp add: mrcp_server_connection_agent_create_def)
  have g: "mg_vtable (mrcp_generator_create :: unit mrcp_message message_generator) = mrcp_generator_vtable"
    "mg_stage (mrcp_generator_create :: unit mrcp_message message_generator) = APT_MESSAGE_STAGE_START_LINE"
    by (simp_all add: mrcp_generator_create_def apt_message_generator_create_def)
  obtain sent ws where sent: "send_all 1024 mrcp_generator_create ?ms = Some sent" "concat sent = concat ws"
    "list_all2 (\<lambda>w m. message_wire_ok sample_factory m \<and> (\<exists>l < 2 ^ 63. w = message_wire l m)) ws [sample_speak]"
    using send_all_wires[OF ok g] sample_speak_ok(1) by auto
  have ne: "concat sent \<noteq> []" using sent(2,3) by (auto simp: list_all2_Cons2 message_wire_def message_text_def)
  let ?con = "(mrcp_connection_create :: unit mrcp_connection)\<lparr>con_sock := True, con_parser := Some (mrcp_parser_create sample_factory),
    con_rx_buffer_size := length (concat sent), con_channel_table := [(message_identifier sample_speak, 5)]\<rparr>"
  let ?a = "con_set 0 ?con a0"
  have c: "ag_connections ?a 0 = Some ?con" "con_sock ?con" "con_parser ?con = Some (mrcp_parser_create sample_factory)"
    "con_rx_stream ?con = apt_text_stream_of []" "concat [concat sent] = concat sent"
    by (simp_all add: mrcp_connection_create_def)
  have fit: "segments_fit 0 [concat sent] ?a"
    using ne by (simp add: mrcp_connection_create_def apt_text_stream_of_def split: option.split prod.split)
  have known: "list_all (channel_known ?con) (map (validated \<circ> snd) ?ms)"
    using sample_speak_ok(1) by (simp add: channel_known_def mrcp_connection_channel_find_def)
  have v: "map (validated \<circ> snd) ?ms = [sample_speak]" using sample_speak_ok(1) by simp
  obtain Ms a1 where "list_all2 same_message [sample_speak] Ms" "server_receive 0 [concat sent] ?a = Some a1"
    "ag_events a1 = ag_events ?a @ map (receive_event ?con) Ms"
    using messages_sent_are_received[OF ok sent(1) c(5) c(1-4) fit known, unfolded v] by blast
  with sent(1) show ?thesis by blast
qed

end
