(* ===== verification/Mrcp_Client_Connection.thy ===== *)
theory Mrcp_Client_Connection
  imports Mrcp_Connection
begin

text \<open>
  \<open>libs/mrcpv2-transport/src/mrcp_client_connection.c\<close>: the agent that connects a client to
  its servers, sends the requests of its channels, and gives each request one answer: the
  response of the server, or a failure when the time is up or the connection is lost.
\<close>

record 'r mrcp_client_agent = "'r connection_agent" +
  ca_request_timeout :: u32
  ca_offer_new_connection :: bool

definition mrcp_client_connection_agent_create ::
  "bool \<Rightarrow> 'r mrcp_resource_factory \<Rightarrow> 'r mrcp_client_agent" where
  "mrcp_client_connection_agent_create offer_new_connection factory =
     \<lparr>ag_connections = (\<lambda>_. None), ag_channels = (\<lambda>_. None), ag_list = [], ag_next = 0, ag_events = [],
      ag_factory = factory, ag_tx_buffer_size = MRCP_STREAM_BUFFER_SIZE,
      ag_rx_buffer_size = MRCP_STREAM_BUFFER_SIZE,
      ca_request_timeout = 0, ca_offer_new_connection = offer_new_connection\<rparr>"

definition mrcp_client_connection_resource_factory_set ::
  "'r mrcp_client_agent \<Rightarrow> 'r mrcp_resource_factory \<Rightarrow> 'r mrcp_client_agent" where
  "mrcp_client_connection_resource_factory_set a f = a\<lparr>ag_factory := f\<rparr>"

definition mrcp_client_connection_rx_size_set :: "'r mrcp_client_agent \<Rightarrow> nat \<Rightarrow> 'r mrcp_client_agent" where
  "mrcp_client_connection_rx_size_set a n =
     a\<lparr>ag_rx_buffer_size := (if n < MRCP_STREAM_BUFFER_SIZE then MRCP_STREAM_BUFFER_SIZE else n)\<rparr>"

definition mrcp_client_connection_tx_size_set :: "'r mrcp_client_agent \<Rightarrow> nat \<Rightarrow> 'r mrcp_client_agent" where
  "mrcp_client_connection_tx_size_set a n =
     a\<lparr>ag_tx_buffer_size := (if n < MRCP_STREAM_BUFFER_SIZE then MRCP_STREAM_BUFFER_SIZE else n)\<rparr>"

definition mrcp_client_connection_timeout_set :: "'r mrcp_client_agent \<Rightarrow> nat \<Rightarrow> 'r mrcp_client_agent" where
  "mrcp_client_connection_timeout_set a n = a\<lparr>ca_request_timeout := of_nat n\<rparr>"

section \<open>Channels and connections\<close>

definition mrcp_client_control_channel_create :: "nat \<Rightarrow> 'r mrcp_client_agent \<Rightarrow> 'r mrcp_client_agent" where
  "mrcp_client_control_channel_create ch a =
     chan_set ch \<lparr>cc_connection = None, cc_active_request = None, cc_request_timer = Some None, cc_removed = False,
                  cc_identifier = []\<rparr> a"

definition mrcp_client_control_channel_destroy ::
  "nat \<Rightarrow> 'r mrcp_client_agent \<Rightarrow> 'r mrcp_client_agent option" where
  "mrcp_client_control_channel_destroy ch a = do {
     chan \<leftarrow> ag_channels a ch;
     (case cc_connection chan of
        None \<Rightarrow> Some a
      | Some c \<Rightarrow> if cc_removed chan then mrcp_connection_destroy c (chan_set ch (chan\<lparr>cc_connection := None\<rparr>) a)
                  else Some a)
   }"

text \<open>
  \<open>resolve\<close> is what the resolver makes of an address, \<open>connected\<close> whether the socket could be
  created and connected, \<open>pollset\<close> whether the pollset takes it.
\<close>

definition mrcp_client_agent_connection_create ::
  "(string \<Rightarrow> string option) \<Rightarrow> bool \<Rightarrow> bool \<Rightarrow> mrcp_control_descriptor \<Rightarrow> 'r mrcp_client_agent
    \<Rightarrow> nat option \<times> 'r mrcp_client_agent" where
  "mrcp_client_agent_connection_create resolve connected pollset descriptor a =
     (case resolve (cd_ip descriptor) of
        None \<Rightarrow> (None, a)
      | Some ip \<Rightarrow>
          if \<not> connected then (None, a)
          else if \<not> pollset then (None, a)
          else
            (let c = ag_next a;
                 con = mrcp_connection_create
                   \<lparr>con_sock := True, con_remote_ip := ip, con_remote_port := cd_port descriptor,
                    con_parser := Some (mrcp_parser_create (ag_factory a)),
                    con_generator := Some mrcp_generator_create,
                    con_tx_buffer_size := ag_tx_buffer_size a, con_rx_buffer_size := ag_rx_buffer_size a\<rparr>
             in (Some c, con_set c con (a\<lparr>ag_next := Suc c, ag_list := ag_list a @ [c]\<rparr>))))"

text \<open>A connection whose peer has gone is still in the list, and found.\<close>

fun client_connection_find_from ::
  "(nat \<Rightarrow> 'r mrcp_connection option) \<Rightarrow> (string \<Rightarrow> string option) \<Rightarrow> mrcp_control_descriptor \<Rightarrow> nat list
    \<Rightarrow> nat option option" where
  "client_connection_find_from cons resolve d [] = Some None"
| "client_connection_find_from cons resolve d (c # cs) = do {
     con \<leftarrow> cons c;
     if resolve (cd_ip d) = Some (con_remote_ip con) \<and> cd_port d = con_remote_port con then Some (Some c)
     else client_connection_find_from cons resolve d cs
   }"

definition mrcp_client_agent_connection_find ::
  "(string \<Rightarrow> string option) \<Rightarrow> mrcp_control_descriptor \<Rightarrow> 'r mrcp_client_agent \<Rightarrow> nat option option" where
  "mrcp_client_agent_connection_find resolve descriptor a =
     client_connection_find_from (ag_connections a) resolve descriptor (ag_list a)"

definition mrcp_client_agent_connection_remove ::
  "nat \<Rightarrow> 'r mrcp_client_agent \<Rightarrow> 'r mrcp_client_agent option" where
  "mrcp_client_agent_connection_remove c a = do {
     con \<leftarrow> ag_connections a c;
     Some (con_set c (con\<lparr>con_sock := False\<rparr>) (a\<lparr>ag_list := remove1 c (ag_list a)\<rparr>))
   }"

definition mrcp_client_agent_channel_add ::
  "nat \<Rightarrow> mrcp_control_descriptor \<Rightarrow> 'r mrcp_client_agent \<Rightarrow> 'r mrcp_client_agent option" where
  "mrcp_client_agent_channel_add ch descriptor a =
     (let t = (if ca_offer_new_connection a \<or> ag_list a = [] then MRCP_CONNECTION_TYPE_NEW
               else MRCP_CONNECTION_TYPE_EXISTING)
      in Some (raise_event (On_Add ch (descriptor\<lparr>cd_connection_type := t\<rparr>) True) a))"

definition mrcp_client_agent_channel_modify ::
  "(string \<Rightarrow> string option) \<Rightarrow> bool \<Rightarrow> bool \<Rightarrow> nat \<Rightarrow> mrcp_control_descriptor \<Rightarrow> 'r mrcp_client_agent
    \<Rightarrow> 'r mrcp_client_agent option" where
  "mrcp_client_agent_channel_modify resolve connected pollset ch d a = do {
     chan \<leftarrow> ag_channels a ch;
     if cd_port d = 0 \<or> cc_connection chan \<noteq> None then Some (raise_event (On_Modify ch d True) a)
     else do {
       let identifier = apt_id_resource_generate (cd_session_id d) (cd_resource_name d) (CHR ''@'');
       let a1 = chan_set ch (chan\<lparr>cc_identifier := identifier\<rparr>) a;
       found \<leftarrow> (if cd_connection_type d = MRCP_CONNECTION_TYPE_EXISTING
         then mrcp_client_agent_connection_find resolve d a1 else Some None);
       let (c_opt, a2) = (case found of
           Some c \<Rightarrow> (Some c, a1)
         | None \<Rightarrow> mrcp_client_agent_connection_create resolve connected pollset d a1);
       (case c_opt of
          None \<Rightarrow> Some (raise_event (On_Modify ch (d\<lparr>cd_port := 0\<rparr>) False) a2)
        | Some c \<Rightarrow> do {
            a3 \<leftarrow> mrcp_connection_channel_add c ch a2;
            let d1 = (if cd_connection_type d = MRCP_CONNECTION_TYPE_NEW
                      then d\<lparr>cd_connection_type := MRCP_CONNECTION_TYPE_EXISTING\<rparr> else d);
            Some (raise_event (On_Modify ch d1 True) a3)
          })
     }
   }"

definition mrcp_client_agent_channel_remove :: "nat \<Rightarrow> 'r mrcp_client_agent \<Rightarrow> 'r mrcp_client_agent option" where
  "mrcp_client_agent_channel_remove ch a = do {
     chan \<leftarrow> ag_channels a ch;
     a1 \<leftarrow> (case cc_connection chan of
       None \<Rightarrow> Some a
     | Some c \<Rightarrow> do {
         a1 \<leftarrow> mrcp_connection_channel_remove c ch a;
         con1 \<leftarrow> ag_connections a1 c;
         if con_access_count con1 = 0 then do {
           a2 \<leftarrow> mrcp_client_agent_connection_remove c a1;
           chan2 \<leftarrow> ag_channels a2 ch;
           Some (chan_set ch (chan2\<lparr>cc_connection := Some c, cc_removed := True\<rparr>) a2)
         } else Some a1
       });
     Some (raise_event (On_Remove ch True) a1)
   }"

section \<open>Requests and responses\<close>

text \<open>The answer the client makes up for a request that gets none.\<close>

definition request_cancelled :: "'r mrcp_message \<Rightarrow> 'r mrcp_message" where
  "request_cancelled m =
     set_start_line (\<lambda>sl. sl\<lparr>sl_status_code := MRCP_STATUS_CODE_METHOD_FAILED\<rparr>) (mrcp_response_create (Some m))"

definition mrcp_client_agent_request_cancel ::
  "nat \<Rightarrow> 'r mrcp_message \<Rightarrow> 'r mrcp_client_agent \<Rightarrow> 'r mrcp_client_agent" where
  "mrcp_client_agent_request_cancel ch m a = raise_event (On_Receive ch (request_cancelled m)) a"

text \<open>A channel loses its connection.\<close>

definition channel_disconnect :: "nat \<Rightarrow> 'r mrcp_client_agent \<Rightarrow> 'r mrcp_client_agent option" where
  "channel_disconnect ch a = do {
     chan \<leftarrow> ag_channels a ch;
     (case cc_active_request chan of
        Some m \<Rightarrow> Some (chan_set ch (chan\<lparr>cc_active_request := None,
            cc_request_timer := conn_timer_kill (cc_request_timer chan)\<rparr>) (mrcp_client_agent_request_cancel ch m a))
      | None \<Rightarrow> Some (raise_event (On_Disconnect ch) a))
   }"

fun disconnect_channels :: "nat list \<Rightarrow> 'r mrcp_client_agent \<Rightarrow> 'r mrcp_client_agent option" where
  "disconnect_channels [] a = Some a"
| "disconnect_channels (ch # chs) a = Option.bind (channel_disconnect ch a) (disconnect_channels chs)"

definition mrcp_client_agent_disconnect_raise :: "nat \<Rightarrow> 'r mrcp_client_agent \<Rightarrow> 'r mrcp_client_agent option" where
  "mrcp_client_agent_disconnect_raise c a = do {
     con \<leftarrow> ag_connections a c;
     disconnect_channels (map snd (con_channel_table con)) a
   }"

definition mrcp_client_agent_messsage_send ::
  "(string \<Rightarrow> bool) \<Rightarrow> nat \<Rightarrow> nat \<Rightarrow> 'r mrcp_message \<Rightarrow> 'r mrcp_client_agent
    \<Rightarrow> (bool \<times> 'r mrcp_client_agent) option" where
  "mrcp_client_agent_messsage_send send ch address m a = do {
     chan \<leftarrow> ag_channels a ch;
     (case cc_connection chan of
        None \<Rightarrow> Some (False, mrcp_client_agent_request_cancel ch m a)
      | Some c \<Rightarrow> do {
          con \<leftarrow> ag_connections a c;
          if \<not> con_sock con then Some (False, mrcp_client_agent_request_cancel ch m a)
          else do {
            g \<leftarrow> con_generator con;
            (status, g1, sent) \<leftarrow> send_loop (length (msg_body m) + 2) send (con_tx_buffer_size con) address g m False;
            let a1 = fold (\<lambda>d. raise_event (Socket_Send c d)) sent (con_set c (con\<lparr>con_generator := Some g1\<rparr>) a);
            if status then
              Some (True, chan_set ch (chan\<lparr>cc_active_request := Some m,
                  cc_request_timer := conn_timer_set (ca_request_timeout a) (cc_request_timer chan)\<rparr>) a1)
            else Some (False, mrcp_client_agent_request_cancel ch m a1)
          }
        })
   }"

text \<open>A response nobody waits for ends the handling of what was received.\<close>

definition mrcp_client_message_handler ::
  "nat \<Rightarrow> 'r mrcp_client_agent \<Rightarrow> apt_message_status \<Rightarrow> 'r mrcp_message option
    \<Rightarrow> (bool \<times> 'r mrcp_client_agent) option" where
  "mrcp_client_message_handler c a status message =
     (if status = APT_MESSAGE_STATUS_COMPLETE then do {
        m \<leftarrow> message;
        con \<leftarrow> ag_connections a c;
        let identifier = apt_id_resource_generate (ch_session_id (msg_channel_id m))
              (ch_resource_name (msg_channel_id m)) (CHR ''@'');
        (case mrcp_connection_channel_find con identifier of
           None \<Rightarrow> Some (True, a)
         | Some ch \<Rightarrow> do {
             chan \<leftarrow> ag_channels a ch;
             if msg_type m = MRCP_MESSAGE_TYPE_RESPONSE then
               (case cc_active_request chan of
                  None \<Rightarrow> Some (False, a)
                | Some r \<Rightarrow>
                    if msg_request_id r \<noteq> msg_request_id m then Some (False, a)
                    else Some (True, raise_event (On_Receive ch m)
                      (chan_set ch (chan\<lparr>cc_active_request := None,
                          cc_request_timer := conn_timer_kill (cc_request_timer chan)\<rparr>) a)))
             else Some (True, raise_event (On_Receive ch m) a)
           })
      }
      else Some (True, a))"

definition mrcp_client_poller_signal_process ::
  "nat \<Rightarrow> string \<Rightarrow> 'r mrcp_client_agent \<Rightarrow> (bool \<times> 'r mrcp_client_agent) option" where
  "mrcp_client_poller_signal_process c data a = do {
     con \<leftarrow> ag_connections a c;
     if \<not> con_sock con then Some (False, a)
     else
       (let (d, s) = connection_recv (con_rx_buffer_size con) (con_rx_stream con) data
        in if d = [] then do {
             a1 \<leftarrow> mrcp_client_agent_disconnect_raise c (con_set c (con\<lparr>con_sock := False\<rparr>) a);
             Some (True, a1)
           }
           else connection_run (mrcp_client_message_handler c) c s a)
   }"

text \<open>The time of a request is up.\<close>

definition mrcp_client_timer_proc :: "nat \<Rightarrow> 'r mrcp_client_agent \<Rightarrow> 'r mrcp_client_agent option" where
  "mrcp_client_timer_proc ch a = do {
     chan \<leftarrow> ag_channels a ch;
     let chan1 = chan\<lparr>cc_request_timer := conn_timer_kill (cc_request_timer chan)\<rparr>;
     (case cc_active_request chan of
        None \<Rightarrow> Some (chan_set ch chan1 a)
      | Some m \<Rightarrow> Some (chan_set ch (chan1\<lparr>cc_active_request := None\<rparr>) (mrcp_client_agent_request_cancel ch m a)))
   }"

datatype 'r client_task_msg =
    CLIENT_TASK_MSG_ADD_CHANNEL nat mrcp_control_descriptor
  | CLIENT_TASK_MSG_MODIFY_CHANNEL nat mrcp_control_descriptor
  | CLIENT_TASK_MSG_REMOVE_CHANNEL nat
  | CLIENT_TASK_MSG_SEND_MESSAGE nat nat "'r mrcp_message"

definition mrcp_client_agent_msg_process ::
  "(string \<Rightarrow> string option) \<Rightarrow> bool \<Rightarrow> bool \<Rightarrow> (string \<Rightarrow> bool) \<Rightarrow> 'r client_task_msg \<Rightarrow> 'r mrcp_client_agent
    \<Rightarrow> 'r mrcp_client_agent option" where
  "mrcp_client_agent_msg_process resolve connected pollset send msg a =
     (case msg of
        CLIENT_TASK_MSG_ADD_CHANNEL ch d \<Rightarrow> mrcp_client_agent_channel_add ch d a
      | CLIENT_TASK_MSG_MODIFY_CHANNEL ch d \<Rightarrow> mrcp_client_agent_channel_modify resolve connected pollset ch d a
      | CLIENT_TASK_MSG_REMOVE_CHANNEL ch \<Rightarrow> mrcp_client_agent_channel_remove ch a
      | CLIENT_TASK_MSG_SEND_MESSAGE ch address m \<Rightarrow>
          map_option snd (mrcp_client_agent_messsage_send send ch address m a))"

section \<open>A response nobody waits for\<close>

text \<open>
  The connection is between two messages of its peer, and at the start of its receive buffer
  stands \<open>W\<close>.
\<close>

definition between_messages :: "'r mrcp_parser \<Rightarrow> string \<Rightarrow> 'r mrcp_connection \<Rightarrow> bool" where
  "between_messages obj W con \<longleftrightarrow> con_sock con \<and> ts_done (con_rx_stream con) = W
     \<and> (\<exists>p. con_parser con = Some p \<and> mrcp.own obj p \<and> mp_stage p = APT_MESSAGE_STAGE_START_LINE \<and> \<not> mp_skip_lf p)"

text \<open>The channel of a response does not wait for it.\<close>

definition unexpected :: "'r mrcp_client_agent \<Rightarrow> nat \<Rightarrow> 'r mrcp_message \<Rightarrow> bool" where
  "unexpected a c m \<longleftrightarrow> msg_type m = MRCP_MESSAGE_TYPE_RESPONSE \<and>
     (\<exists>con ch chan. ag_connections a c = Some con
       \<and> mrcp_connection_channel_find con (apt_id_resource_generate (ch_session_id (msg_channel_id m))
           (ch_resource_name (msg_channel_id m)) (CHR ''@'')) = Some ch
       \<and> ag_channels a ch = Some chan
       \<and> (case cc_active_request chan of None \<Rightarrow> True | Some r \<Rightarrow> msg_request_id r \<noteq> msg_request_id m))"

lemma unexpected_handled:
  assumes "unexpected a c m" "same_message m M"
  shows "mrcp_client_message_handler c a APT_MESSAGE_STATUS_COMPLETE (Some M) = Some (False, a)"
  using assms by (auto simp: unexpected_def same_message_def Let_def mrcp_client_message_handler_def split: option.splits)

lemma client_stays:
  assumes ok: "message_wire_ok f m" "par_factory obj = f" "l < 2 ^ 63" and un: "unexpected a c m"
    and con: "ag_connections a c = Some con" "between_messages obj W con"
    and d: "d \<noteq> []" "W @ d = message_wire l m @ z" "length W + length d \<le> con_rx_buffer_size con"
  shows "\<exists>a1 con1. mrcp_client_poller_signal_process c d a = Some (False, a1) \<and> ag_events a1 = ag_events a
    \<and> ag_connections a1 c = Some con1 \<and> between_messages obj (message_wire l m) con1
    \<and> con_rx_buffer_size con1 = con_rx_buffer_size con \<and> unexpected a1 c m"
proof -
  let ?s = "\<lparr>ts_done = [], ts_rest = W @ d, ts_eos = False\<rparr>"
  obtain p where p: "con_parser con = Some p" "mrcp.own obj p" "mp_stage p = APT_MESSAGE_STAGE_START_LINE"
      "\<not> mp_skip_lf p" and w: "con_sock con" "ts_done (con_rx_stream con) = W"
    using con(2) by (auto simp: between_messages_def)
  obtain M m0 where M: "same_message m M"
    "no_eol (join_sp (start_line_fields (show_nat l) (msg_start_line m)))"
    "mrcp_message_start obj (join_sp (start_line_fields (show_nat l) (msg_start_line m))) = Some m0"
    "list_all field_ok (channel_field (msg_channel_id m) # section_fields (msg_section m))" "body_small (msg_body m)"
    "header_completes mrcp_parser_vtable obj m0 (channel_field (msg_channel_id m) # section_fields (msg_section m)) (msg_body m) M"
    using message_wire_completes[OF ok] by blast
  let ?t = "ts_advance (length (message_wire l m)) ?s"
  have rest: "ts_rest ?s = message_text (join_sp (start_line_fields (show_nat l) (msg_start_line m)))
      (channel_field (msg_channel_id m) # section_fields (msg_section m)) (msg_body m) @ z" "\<not> ts_eos ?s"
    using d(2) by (simp_all add: message_wire_def)
  obtain p1 where r: "apt_message_parser_run p ?s = Some (APT_MESSAGE_STATUS_COMPLETE, Some M, p1, ?t)"
    "mrcp.own obj p1" "mp_stage p1 = APT_MESSAGE_STAGE_START_LINE" "\<not> mp_skip_lf p1"
    using mrcp.parser_run_message[OF p(2-4) M(2-6) rest] unfolding message_wire_def by blast
  let ?con = "con\<lparr>con_parser := Some p1, con_rx_stream := ?t\<rparr>"
  have h: "loop_handler (mrcp_client_message_handler c) (Some a) APT_MESSAGE_STATUS_COMPLETE (Some M) = (False, Some a)"
    using unexpected_handled[OF un M(1)] by (simp add: loop_handler_def)
  have run: "connection_run (mrcp_client_message_handler c) c ?s a = Some (False, con_set c ?con a)"
    using con(1) p(1) r(1) h by (simp add: connection_run_def)
  have rx: "connection_recv (con_rx_buffer_size con) (con_rx_stream con) d = (d, ?s)"
    using d(3) w(2) by (simp add: connection_recv_def apt_text_stream_reset_def)
  have step: "mrcp_client_poller_signal_process c d a = Some (False, con_set c ?con a)"
    using con(1) w(1) d(1) rx run by (simp add: mrcp_client_poller_signal_process_def)
  have "between_messages obj (message_wire l m) ?con" using w(1) r(2-4) d(2) by (simp add: between_messages_def ts_advance_def)
  moreover have "unexpected (con_set c ?con a) c m"
    using un con(1) by (auto simp: unexpected_def mrcp_connection_channel_find_def)
  ultimately show ?thesis using step by (intro exI[of _ "con_set c ?con a"] exI[of _ ?con]) simp
qed

fun client_receive :: "nat \<Rightarrow> string list \<Rightarrow> 'r mrcp_client_agent \<Rightarrow> 'r mrcp_client_agent option" where
  "client_receive c [] a = Some a"
| "client_receive c (d # ds) a = do {
     (_, a1) \<leftarrow> mrcp_client_poller_signal_process c d a;
     client_receive c ds a1
   }"

lemma client_stuck:
  assumes ok: "message_wire_ok f m" "par_factory obj = f" "l < 2 ^ 63"
    and "unexpected a c m" "ag_connections a c = Some con" "between_messages obj (message_wire l m) con"
    and "list_all (\<lambda>d. d \<noteq> [] \<and> length (message_wire l m) + length d \<le> con_rx_buffer_size con) ds"
  shows "\<exists>a1. client_receive c ds a = Some a1 \<and> ag_events a1 = ag_events a"
  using assms(4-7)
proof (induction ds arbitrary: a con)
  case Nil
  then show ?case by simp
next
  case (Cons d ds)
  have d: "d \<noteq> []" "length (message_wire l m) + length d \<le> con_rx_buffer_size con" using Cons.prems(4) by simp_all
  from client_stays[OF ok Cons.prems(1-3) d(1) refl d(2)] obtain a1 con1 where
    s: "mrcp_client_poller_signal_process c d a = Some (False, a1)" "ag_events a1 = ag_events a"
    "ag_connections a1 c = Some con1" "between_messages obj (message_wire l m) con1"
    "con_rx_buffer_size con1 = con_rx_buffer_size con" "unexpected a1 c m" by blast
  have "list_all (\<lambda>d. d \<noteq> [] \<and> length (message_wire l m) + length d \<le> con_rx_buffer_size con1) ds"
    using Cons.prems(4) s(5) by simp
  from Cons.IH[OF s(6,3,4) this] show ?case using s(1,2) by simp
qed

section \<open>Properties\<close>

text \<open>
  C20: A response nobody waits for, for example one that comes after the time of its request was
  up, blocks its connection. The handler leaves without scrolling the receive buffer, so the
  response is read again with every later segment, and whatever the segments hold, the user of
  the client is told nothing of it.
\<close>

theorem client_unexpected_response_blocks:
  assumes "message_wire_ok f m" and "par_factory obj = f" and "l < 2 ^ 63" and "unexpected a c m"
    and "ag_connections a c = Some con" and "between_messages obj [] con"
    and "length (message_wire l m @ z) \<le> con_rx_buffer_size con"
    and "list_all (\<lambda>d. d \<noteq> [] \<and> length (message_wire l m) + length d \<le> con_rx_buffer_size con) ds"
  shows "\<exists>a1. client_receive c ((message_wire l m @ z) # ds) a = Some a1 \<and> ag_events a1 = ag_events a"
proof -
  have ne: "message_wire l m @ z \<noteq> []" by (simp add: message_wire_def message_text_def)
  from client_stays[OF assms(1-6) ne, of z] assms(7) obtain a1 con1 where
    s: "mrcp_client_poller_signal_process c (message_wire l m @ z) a = Some (False, a1)" "ag_events a1 = ag_events a"
    "ag_connections a1 c = Some con1" "between_messages obj (message_wire l m) con1"
    "con_rx_buffer_size con1 = con_rx_buffer_size con" "unexpected a1 c m" by auto
  show ?thesis using client_stuck[OF assms(1-3) s(6,3,4), of ds] assms(8) s(1,2,5) by simp
qed

section \<open>One answer for each request\<close>

datatype 'r client_input =
    Ci_Message nat "'r mrcp_message"
  | Ci_Closed nat
  | Ci_Timeout nat
  | Ci_Send nat nat "'r mrcp_message" "string \<Rightarrow> bool"

fun client_step :: "'r client_input \<Rightarrow> 'r mrcp_client_agent \<Rightarrow> 'r mrcp_client_agent option" where
  "client_step (Ci_Message c m) a =
     map_option snd (mrcp_client_message_handler c a APT_MESSAGE_STATUS_COMPLETE (Some m))"
| "client_step (Ci_Closed c) a = map_option snd (mrcp_client_poller_signal_process c [] a)"
| "client_step (Ci_Timeout ch) a = mrcp_client_timer_proc ch a"
| "client_step (Ci_Send ch address m send) a = map_option snd (mrcp_client_agent_messsage_send send ch address m a)"

definition active_of :: "'r mrcp_client_agent \<Rightarrow> nat \<Rightarrow> 'r mrcp_message option" where
  "active_of a ch = Option.bind (ag_channels a ch) cc_active_request"

text \<open>The responses the user of a channel is handed, and the requests sent on it.\<close>

fun responses :: "nat \<Rightarrow> 'r connection_event list \<Rightarrow> 'r mrcp_message list" where
  "responses ch [] = []"
| "responses ch (On_Receive ch' m # es) =
     (if ch' = ch \<and> msg_type m = MRCP_MESSAGE_TYPE_RESPONSE then m # responses ch es else responses ch es)"
| "responses ch (_ # es) = responses ch es"

fun requests :: "nat \<Rightarrow> 'r client_input list \<Rightarrow> 'r mrcp_message list" where
  "requests ch [] = []"
| "requests ch (Ci_Send ch' address m send # is) = (if ch' = ch then m # requests ch is else requests ch is)"
| "requests ch (_ # is) = requests ch is"

text \<open>The user sends a request only when the one before has its answer.\<close>

definition may_send :: "'r mrcp_client_agent \<Rightarrow> 'r client_input \<Rightarrow> bool" where
  "may_send a i \<longleftrightarrow> (case i of Ci_Send ch address m send \<Rightarrow> active_of a ch = None | _ \<Rightarrow> True)"

inductive client_run :: "'r mrcp_client_agent \<Rightarrow> 'r client_input list \<Rightarrow> 'r mrcp_client_agent \<Rightarrow> bool" for a where
  client_run_nil: "client_run a [] a"
| client_run_step: "client_run a is a1 \<Longrightarrow> may_send a1 i \<Longrightarrow> client_step i a1 = Some a2 \<Longrightarrow> client_run a (is @ [i]) a2"

lemma responses_append [simp]: "responses ch (es @ es') = responses ch es @ responses ch es'"
  by (induction ch es rule: responses.induct) simp_all

lemma requests_append [simp]: "requests ch (is @ is') = requests ch is @ requests ch is'"
  by (induction ch "is" rule: requests.induct) simp_all

lemma responses_sends [simp]: "responses ch (map (Socket_Send c) ds) = []"
  by (induction ds) simp_all

lemma fold_sends [simp]:
  "ag_events (fold (\<lambda>d. raise_event (Socket_Send c d)) ds a) = ag_events a @ map (Socket_Send c) ds"
  "ag_channels (fold (\<lambda>d. raise_event (Socket_Send c d)) ds a) = ag_channels a"
  by (induction ds arbitrary: a) simp_all

lemma request_cancelled_facts [simp]:
  "msg_type (request_cancelled m) = MRCP_MESSAGE_TYPE_RESPONSE" "msg_request_id (request_cancelled m) = msg_request_id m"
  by (simp_all add: request_cancelled_def set_start_line_def)

text \<open>
  What a step does for one channel: the responses it hands over and the request that is left
  make up the request there was and the ones that were sent.
\<close>

definition pend_ids :: "'r mrcp_message option \<Rightarrow> u32 list" where
  "pend_ids r = (case r of None \<Rightarrow> [] | Some m \<Rightarrow> [msg_request_id m])"

definition balanced :: "nat \<Rightarrow> 'r mrcp_client_agent \<Rightarrow> 'r mrcp_message list \<Rightarrow> 'r mrcp_client_agent \<Rightarrow> bool" where
  "balanced ch a rs a' \<longleftrightarrow> (\<exists>es. ag_events a' = ag_events a @ es
     \<and> map msg_request_id (responses ch es) @ pend_ids (active_of a' ch)
       = pend_ids (active_of a ch) @ map msg_request_id rs)"

lemma balanced_refl: "balanced ch a [] a"
  by (simp add: balanced_def)

lemma balanced_same:
  "ag_events a' = ag_events a @ es \<Longrightarrow> responses ch es = [] \<Longrightarrow> active_of a' ch = active_of a ch \<Longrightarrow> balanced ch a [] a'"
  by (auto simp: balanced_def)

lemma balanced_trans:
  assumes "balanced ch a rs a1" "balanced ch a1 rs' a2" shows "balanced ch a (rs @ rs') a2"
proof -
  obtain es es' where "ag_events a1 = ag_events a @ es" "ag_events a2 = ag_events a1 @ es'"
    "map msg_request_id (responses ch es) @ pend_ids (active_of a1 ch) = pend_ids (active_of a ch) @ map msg_request_id rs"
    "map msg_request_id (responses ch es') @ pend_ids (active_of a2 ch) = pend_ids (active_of a1 ch) @ map msg_request_id rs'"
    using assms by (auto simp: balanced_def)
  then have "ag_events a2 = ag_events a @ es @ es'"
    "map msg_request_id (responses ch (es @ es')) @ pend_ids (active_of a2 ch)
      = pend_ids (active_of a ch) @ map msg_request_id (rs @ rs')"
    by simp_all
  then show ?thesis unfolding balanced_def by blast
qed

lemma active_of_simps [simp]:
  "active_of (raise_event e a) = active_of a" "active_of (con_set c con a) = active_of a"
  "active_of (chan_set ch chan a) ch' = (if ch' = ch then cc_active_request chan else active_of a ch')"
  by (auto simp: active_of_def fun_eq_iff)

lemma channel_disconnect_balanced:
  assumes "channel_disconnect ch' a = Some a'" shows "balanced ch a [] a'"
proof -
  obtain chan where c: "ag_channels a ch' = Some chan" using assms by (auto simp: channel_disconnect_def bind_eq_Some_conv)
  then have act: "active_of a ch' = cc_active_request chan" by (simp add: active_of_def)
  show ?thesis
  proof (cases "cc_active_request chan")
    case None
    then show ?thesis using assms c
      by (auto simp: channel_disconnect_def intro!: balanced_same)
  next
    case (Some m)
    then show ?thesis using assms c act
      by (auto simp: channel_disconnect_def mrcp_client_agent_request_cancel_def balanced_def pend_ids_def)
  qed
qed

lemma disconnect_channels_balanced: "disconnect_channels chs a = Some a' \<Longrightarrow> balanced ch a [] a'"
proof (induction chs arbitrary: a)
  case Nil
  then show ?case by (simp add: balanced_refl)
next
  case (Cons x xs)
  then obtain a1 where "channel_disconnect x a = Some a1" "disconnect_channels xs a1 = Some a'"
    by (auto simp: bind_eq_Some_conv)
  then show ?case using balanced_trans[OF channel_disconnect_balanced Cons.IH, of x a a1] by fastforce
qed

lemma client_step_balanced:
  assumes "client_step i a = Some a'" "may_send a i"
  shows "balanced ch a (requests ch [i]) a'"
proof (cases i)
  case (Ci_Message c m)
  then obtain ok where "mrcp_client_message_handler c a APT_MESSAGE_STATUS_COMPLETE (Some m) = Some (ok, a')"
    using assms(1) by auto
  then obtain con where con: "ag_connections a c = Some con"
    by (auto simp: mrcp_client_message_handler_def bind_eq_Some_conv)
  note h = \<open>mrcp_client_message_handler c a APT_MESSAGE_STATUS_COMPLETE (Some m) = Some (ok, a')\<close>
  let ?f = "mrcp_connection_channel_find con (apt_id_resource_generate (ch_session_id (msg_channel_id m))
      (ch_resource_name (msg_channel_id m)) (CHR ''@''))"
  show ?thesis
  proof (cases ?f)
    case None
    then show ?thesis using h con Ci_Message by (simp add: mrcp_client_message_handler_def balanced_refl)
  next
    case (Some ch')
    then obtain chan where chan: "ag_channels a ch' = Some chan"
      using h con by (auto simp: mrcp_client_message_handler_def bind_eq_Some_conv)
    then have act: "active_of a ch' = cc_active_request chan" by (simp add: active_of_def)
    show ?thesis using h con Some chan act Ci_Message
      by (cases "cc_active_request chan")
        (auto simp: mrcp_client_message_handler_def balanced_refl balanced_def pend_ids_def split: if_splits)
  qed
next
  case (Ci_Closed c)
  then obtain ok where h: "mrcp_client_poller_signal_process c [] a = Some (ok, a')" using assms(1) by auto
  then obtain con where con: "ag_connections a c = Some con"
    by (auto simp: mrcp_client_poller_signal_process_def bind_eq_Some_conv)
  show ?thesis
  proof (cases "con_sock con")
    case False
    then show ?thesis using h con Ci_Closed by (simp add: mrcp_client_poller_signal_process_def balanced_refl)
  next
    case True
    let ?a = "con_set c (con\<lparr>con_sock := False\<rparr>) a"
    have "disconnect_channels (map snd (con_channel_table con)) ?a = Some a'"
      using h con True by (auto simp: mrcp_client_poller_signal_process_def connection_recv_def
          mrcp_client_agent_disconnect_raise_def bind_eq_Some_conv)
    then have "balanced ch ?a [] a'" by (rule disconnect_channels_balanced)
    then show ?thesis using Ci_Closed by (simp add: balanced_def)
  qed
next
  case (Ci_Timeout ch')
  then obtain chan where chan: "ag_channels a ch' = Some chan"
    using assms(1) by (auto simp: mrcp_client_timer_proc_def bind_eq_Some_conv)
  then have act: "active_of a ch' = cc_active_request chan" by (simp add: active_of_def)
  show ?thesis using assms(1) chan act Ci_Timeout
    by (cases "cc_active_request chan")
      (auto simp: mrcp_client_timer_proc_def mrcp_client_agent_request_cancel_def balanced_def pend_ids_def Let_def)
next
  case (Ci_Send ch' address m send)
  then obtain ok where h: "mrcp_client_agent_messsage_send send ch' address m a = Some (ok, a')" using assms(1) by auto
  have idle: "active_of a ch' = None" using assms(2) Ci_Send by (simp add: may_send_def)
  have cancel: "balanced ch a (requests ch [i]) (mrcp_client_agent_request_cancel ch' m a)"
    using idle Ci_Send by (auto simp: mrcp_client_agent_request_cancel_def balanced_def pend_ids_def)
  obtain chan where chan: "ag_channels a ch' = Some chan"
    using h by (auto simp: mrcp_client_agent_messsage_send_def bind_eq_Some_conv)
  show ?thesis
  proof (cases "cc_connection chan")
    case None
    then show ?thesis using h chan cancel by (simp add: mrcp_client_agent_messsage_send_def)
  next
    case (Some c)
    then obtain con where con: "ag_connections a c = Some con"
      using h chan by (auto simp: mrcp_client_agent_messsage_send_def bind_eq_Some_conv)
    show ?thesis
    proof (cases "con_sock con")
      case False
      then show ?thesis using h chan Some con cancel by (simp add: mrcp_client_agent_messsage_send_def)
    next
      case True
      then obtain g status g1 sent where s: "con_generator con = Some g"
        "send_loop (length (msg_body m) + 2) send (con_tx_buffer_size con) address g m False = Some (status, g1, sent)"
        using h chan Some con by (auto simp: mrcp_client_agent_messsage_send_def bind_eq_Some_conv)
      let ?a1 = "fold (\<lambda>d. raise_event (Socket_Send c d)) sent (con_set c (con\<lparr>con_generator := Some g1\<rparr>) a)"
      have same: "active_of ?a1 = active_of a" by (simp add: active_of_def fun_eq_iff)
      have a': "a' = (if status then chan_set ch' (chan\<lparr>cc_active_request := Some m,
            cc_request_timer := conn_timer_set (ca_request_timeout a) (cc_request_timer chan)\<rparr>) ?a1
          else mrcp_client_agent_request_cancel ch' m ?a1)"
        using h chan Some con True s by (simp add: mrcp_client_agent_messsage_send_def Let_def split: if_splits del: send_loop.simps)
      show ?thesis unfolding a' balanced_def using idle Ci_Send same
        by (auto simp: mrcp_client_agent_request_cancel_def pend_ids_def)
    qed
  qed
qed

text \<open>
  C8: Each request of a client has exactly one answer, as long as the user of a channel sends one
  request at a time (\<open>may_send\<close>; \<open>mrcp_client_session.c\<close> queues the others). Whatever order messages, lost
  connections and timeouts come in, the responses the user of a channel is handed answer the
  requests sent on it one for one and in order; only the request that is still active has none
  yet.
\<close>

theorem client_requests_answered_once:
  assumes "client_run a is a'" and "active_of a ch = None"
  shows "\<exists>es. ag_events a' = ag_events a @ es
    \<and> map msg_request_id (responses ch es) @ pend_ids (active_of a' ch) = map msg_request_id (requests ch is)"
proof -
  have "balanced ch a (requests ch is) a'"
    using assms(1)
  proof (induction rule: client_run.induct)
    case client_run_nil
    then show ?case by (simp add: balanced_refl)
  next
    case (client_run_step "is" a1 i a2)
    then show ?case using balanced_trans[OF client_run_step.IH client_step_balanced[OF client_run_step.hyps(3,2)]] by simp
  qed
  then show ?thesis using assms(2) by (simp add: balanced_def pend_ids_def)
qed

definition sample_client :: "unit mrcp_client_agent" where
  "sample_client = mrcp_client_control_channel_create 3 (mrcp_client_connection_agent_create False sample_factory)"

text \<open>A request on a channel without a connection is answered at once.\<close>

lemma client_requests_answered_once_witness:
  "\<exists>a' es. client_run sample_client [Ci_Send 3 1 sample_speak (\<lambda>_. True)] a' \<and> ag_events a' = ag_events sample_client @ es
    \<and> map msg_request_id (responses 3 es) @ pend_ids (active_of a' 3) = [7]"
proof -
  let ?i = "Ci_Send 3 1 sample_speak (\<lambda>_. True)"
  have chan: "active_of sample_client 3 = None" "\<exists>a'. client_step ?i sample_client = Some a'"
    by (auto simp: sample_client_def mrcp_client_control_channel_create_def active_of_def
        mrcp_client_agent_messsage_send_def)
  then obtain a' where a': "client_step ?i sample_client = Some a'" by blast
  have may: "may_send sample_client ?i" using chan(1) by (simp add: may_send_def)
  have "client_run sample_client [?i] a'" using client_run_step[OF client_run_nil may a'] by simp
  from client_requests_answered_once[OF this chan(1)] this show ?thesis
    by (auto simp: sample_speak_def)
qed

definition sample_answer :: "unit mrcp_message" where
  "sample_answer = \<lparr>msg_start_line = (mrcp_start_line_init 0)\<lparr>sl_message_type := MRCP_MESSAGE_TYPE_RESPONSE,
       sl_version := MRCP_VERSION_2, sl_request_id := 7, sl_status_code := 200,
       sl_request_state := MRCP_REQUEST_STATE_COMPLETE\<rparr>,
     msg_channel_id = \<lparr>ch_session_id = ''32AECB'', ch_resource_name = ''speechsynth''\<rparr>,
     msg_header = mrcp_message_header_init, msg_body = [], msg_resource = None\<rparr>"

lemma sample_answer_ok: "message_wire_ok sample_factory sample_answer"
proof -
  note chars = sp_def cr_def lf_def htab_def apt_text_is_wsp_def
  have chan: "field_ok (channel_field (msg_channel_id sample_answer))"
    by (simp add: field_ok_def channel_field_def apt_header_field_create_def apt_id_resource_generate_def
        MRCP_CHANNEL_ID_def header_name_ok_def sample_answer_def chars)
  have sl: "start_line_ok (msg_start_line sample_answer)" "no_eol (sl_method_name (msg_start_line sample_answer))"
    "method_known sample_resource (msg_start_line sample_answer)"
    by (simp_all add: sample_answer_def mrcp_start_line_init_def start_line_ok_def method_known_def)
  have parts: "section_fields (msg_section sample_answer) = []" "msg_body sample_answer = []"
    "ch_resource_name (msg_channel_id sample_answer) = ''speechsynth''"
    "CHR ''@'' \<notin> set (ch_session_id (msg_channel_id sample_answer))"
    "sl_version (msg_start_line sample_answer) = MRCP_VERSION_2"
    by (simp_all add: sample_answer_def msg_section_def section_fields_def mrcp_message_header_init_def apt_header_section_init_def)
  have vt: "\<exists>vt. res_header_vtable sample_resource MRCP_VERSION_2 = Some vt"
    by (simp add: sample_resource_def)
  show ?thesis
    using vt by (auto simp: message_wire_ok_def parts sample_factory_find sl chan content_length_ok_def)
qed

text \<open>Its channel is there, but no request is active on it.\<close>

lemma client_unexpected_response_blocks_witness:
  "\<exists>a a1. client_receive 0 [message_wire 90 sample_answer, ''x''] a = Some (a1 :: unit mrcp_client_agent)
    \<and> ag_events a1 = ag_events a"
proof -
  let ?W = "message_wire 90 sample_answer" and ?obj = "\<lparr>par_factory = sample_factory, par_resource = None\<rparr>"
  let ?con = "(mrcp_connection_create :: unit mrcp_connection)\<lparr>con_sock := True, con_parser := Some (mrcp_parser_create sample_factory),
    con_rx_buffer_size := length ?W + 1, con_channel_table := [(''32AECB@speechsynth'', 3)]\<rparr>"
  let ?a = "con_set 0 ?con sample_client"
  have un: "unexpected ?a 0 sample_answer"
    by (simp add: unexpected_def sample_answer_def mrcp_connection_channel_find_def apt_id_resource_generate_def
        sample_client_def mrcp_client_control_channel_create_def)
  have btw: "between_messages ?obj [] ?con"
    by (simp add: between_messages_def mrcp_connection_create_def apt_text_stream_of_def mrcp.own_def mrcp_parser_create_def
        apt_message_parser_create_def)
  have "\<exists>a1. client_receive 0 ((?W @ []) # [''x'']) ?a = Some a1 \<and> ag_events a1 = ag_events ?a"
    by (rule client_unexpected_response_blocks[OF sample_answer_ok _ _ un _ btw]) simp_all
  then show ?thesis unfolding append_Nil2 by (elim exE) (rule exI)+
qed

end
