(* ===== verification/Float32.thy ===== *)
theory Float32
  imports Text_Stream "HOL-Library.Log_Nat"
begin

text \<open>
  Numbers of the C types \<open>float\<close> and \<open>double\<close>, and their decimal text
  (\<open>apt_float_value_parse\<close>, \<open>apt_float_value_generate\<close> of \<open>apt_text_stream.c\<close>). A number is a
  pair of integers \<open>(m, e)\<close> and means \<open>m * 2 ^ e\<close>; every operation rounds to the nearest
  number of the precision of its type, halves to even, as IEEE 754 does. Infinities, not-a-number
  and the hexadecimal form are left out: what is read from a header is a decimal number, and
  those below \<open>2 ^ 24\<close> are printed exactly.
\<close>

section \<open>Rounding\<close>

type_synonym fp = "int \<times> int"

definition round_half_even :: "nat \<Rightarrow> nat \<Rightarrow> nat" where
  "round_half_even n d =
     (let q = n div d; r = n mod d
      in if 2 * r < d then q else if d < 2 * r then q + 1 else if even q then q else q + 1)"

text \<open>\<open>n / (d * 2 ^ e)\<close> as a fraction of natural numbers.\<close>

definition scaled :: "nat \<Rightarrow> nat \<Rightarrow> int \<Rightarrow> nat \<times> nat" where
  "scaled n d e = (if 0 \<le> e then (n, d * 2 ^ nat e) else (n * 2 ^ nat (- e), d))"

text \<open>The exponent with which \<open>n / d\<close> has \<open>p\<close> bits, but not less than \<open>emin\<close>.\<close>

definition fp_exponent :: "nat \<Rightarrow> int \<Rightarrow> nat \<Rightarrow> nat \<Rightarrow> int" where
  "fp_exponent p emin n d =
     (let e = bitlen (int n) - bitlen (int d) - int p;
          (a, b) = scaled n d e
      in max emin (if 2 ^ p * b \<le> a then e + 1 else e))"

definition fp_round :: "nat \<Rightarrow> int \<Rightarrow> int \<Rightarrow> nat \<Rightarrow> fp" where
  "fp_round p emin n d =
     (if n = 0 then (0, 0)
      else (let e = fp_exponent p emin (nat \<bar>n\<bar>) d; (a, b) = scaled (nat \<bar>n\<bar>) d e
            in (sgn n * int (round_half_even a b), e)))"

text \<open>A number as a fraction again.\<close>

definition fp_num :: "fp \<Rightarrow> int" where
  "fp_num x = (if 0 \<le> snd x then fst x * 2 ^ nat (snd x) else fst x)"

definition fp_den :: "fp \<Rightarrow> nat" where
  "fp_den x = (if 0 \<le> snd x then 1 else 2 ^ nat (- snd x))"

definition to_float :: "int \<Rightarrow> nat \<Rightarrow> fp" where
  "to_float n d = fp_round 24 (- 149) n d"

definition to_double :: "int \<Rightarrow> nat \<Rightarrow> fp" where
  "to_double n d = fp_round 53 (- 1074) n d"

definition float_add :: "fp \<Rightarrow> fp \<Rightarrow> fp" where
  "float_add x y = to_float (fp_num x * int (fp_den y) + fp_num y * int (fp_den x)) (fp_den x * fp_den y)"

definition float_mult :: "fp \<Rightarrow> nat \<Rightarrow> fp" where
  "float_mult x n = to_float (fp_num x * int n) (fp_den x)"

definition float_div :: "fp \<Rightarrow> nat \<Rightarrow> fp" where
  "float_div x n = to_float (fp_num x) (fp_den x * n)"

text \<open>The conversion to an unsigned integer drops the fraction. It is defined from 0 on.\<close>

definition float_to_size :: "fp \<Rightarrow> nat" where
  "float_to_size x = nat (fp_num x) div fp_den x"

section \<open>Text\<close>

definition exponent_val :: "string \<Rightarrow> int" where
  "exponent_val s =
     (case s of
        [] \<Rightarrow> 0
      | c # cs \<Rightarrow>
          if c = CHR ''e'' \<or> c = CHR ''E'' then
            (case cs of
               [] \<Rightarrow> 0
             | d # ds \<Rightarrow>
                 if d = CHR ''-'' then - int (digits_val (takeWhile is_digit ds))
                 else if d = CHR ''+'' then int (digits_val (takeWhile is_digit ds))
                 else int (digits_val (takeWhile is_digit cs)))
          else 0)"

text \<open>The number at the start of the text, as sign, digits and the power of ten.\<close>

definition decimal_read :: "string \<Rightarrow> nat \<times> int" where
  "decimal_read s =
     (let ip = takeWhile is_digit s;
          r = dropWhile is_digit s;
          (fp, r2) = (case r of
              [] \<Rightarrow> ([], r)
            | c # cs \<Rightarrow> if c = CHR ''.'' then (takeWhile is_digit cs, dropWhile is_digit cs) else ([], r))
      in if ip = [] \<and> fp = [] then (0, 0)
         else (digits_val (ip @ fp), exponent_val r2 - int (length fp)))"

definition atof :: "string \<Rightarrow> fp" where
  "atof s =
     (let t = dropWhile is_space s;
          (neg, u) = (case t of
              [] \<Rightarrow> (False, t)
            | c # cs \<Rightarrow> if c = CHR ''-'' then (True, cs) else if c = CHR ''+'' then (False, cs) else (False, t));
          (n, x) = decimal_read u;
          n1 = (if 0 \<le> x then n * 10 ^ nat x else n);
          d = (if 0 \<le> x then 1 else 10 ^ nat (- x))
      in to_double (if neg then - int n1 else int n1) d)"

definition apt_float_value_parse :: "string \<Rightarrow> fp" where
  "apt_float_value_parse s =
     (if s = [] then (0, 0) else to_float (fp_num (atof s)) (fp_den (atof s)))"

text \<open>The nearest multiple of a millionth, halves up, as \<open>apr_psprintf\<close> prints it for \<open>%f\<close>.\<close>

definition fp_micro :: "fp \<Rightarrow> nat" where
  "fp_micro x = (2 * 10 ^ 6 * nat \<bar>fp_num x\<bar> + fp_den x) div (2 * fp_den x)"

definition pad6 :: "nat \<Rightarrow> string" where
  "pad6 n = replicate (6 - length (show_nat n)) (CHR ''0'') @ show_nat n"

definition micro_text :: "nat \<Rightarrow> string" where
  "micro_text k = show_nat (k div 10 ^ 6) @ CHR ''.'' # pad6 (k mod 10 ^ 6)"

text \<open>Zeros at the end are removed, but for the one behind the point.\<close>

fun zeros_trim :: "string \<Rightarrow> string" where
  "zeros_trim (c # d # r) = (if c = CHR ''0'' \<and> d \<noteq> CHR ''.'' then zeros_trim (d # r) else c # d # r)"
| "zeros_trim r = r"

definition apt_float_value_generate :: "fp \<Rightarrow> string" where
  "apt_float_value_generate x =
     rev (zeros_trim (rev ((if fp_num x < 0 then [CHR ''-''] else []) @ micro_text (fp_micro x))))"

section \<open>Percent values of the first protocol version\<close>

definition apt_size_value_parse_as_float :: "string \<Rightarrow> fp" where
  "apt_size_value_parse_as_float s = float_div (to_float (int (apt_size_value_parse s)) 1) 100"

definition apt_size_value_generate_from_float :: "fp \<Rightarrow> string" where
  "apt_size_value_generate_from_float x =
     apt_size_value_generate (float_to_size (float_mult (float_add x (to_float 1 1000)) 100))"

section \<open>The error of rounding\<close>

definition fp_val :: "fp \<Rightarrow> real" where
  "fp_val x = of_int (fst x) * 2 powi snd x"

lemma fp_den_pos [simp]: "0 < fp_den x"
  by (simp add: fp_den_def)

lemma fp_val_ratio: "fp_val x = of_int (fp_num x) / of_nat (fp_den x)"
  by (auto simp: fp_val_def fp_num_def fp_den_def power_int_def field_simps)

lemma half_even_error:
  assumes "0 < d"
  shows "\<bar>real (round_half_even n d) - real n / real d\<bar> \<le> 1 / 2"
proof -
  let ?q = "n div d" and ?r = "n mod d"
  have n: "real n = real d * real ?q + real ?r"
    by (metis mult_div_mod_eq of_nat_add of_nat_mult)
  have r: "real ?r < real d" using assms by simp
  have x: "real n / real d = real ?q + real ?r / real d" using assms by (simp add: n add_divide_distrib)
  have lo: "2 * ?r < d \<Longrightarrow> real ?r / real d \<le> 1 / 2" and hi: "d < 2 * ?r \<Longrightarrow> 1 / 2 \<le> real ?r / real d"
    and eq: "\<not> 2 * ?r < d \<Longrightarrow> \<not> d < 2 * ?r \<Longrightarrow> real ?r / real d = 1 / 2" and up: "real ?r / real d \<le> 1"
      "0 \<le> real ?r / real d"
    using assms r by (simp_all add: field_simps)
  show ?thesis unfolding round_half_even_def Let_def x using lo hi eq up by auto
qed

lemma abs_scale: "0 < w \<Longrightarrow> \<bar>y - z / w\<bar> * w = \<bar>y * w - z\<bar>" for w y z :: real
proof -
  assume w: "0 < w"
  then have "\<bar>y - z / w\<bar> * w = \<bar>(y - z / w) * w\<bar>" by (simp add: abs_mult)
  then show ?thesis using w by (simp add: left_diff_distrib)
qed

lemma scaled_ratio: "0 < d \<Longrightarrow> real (fst (scaled n d e)) / real (snd (scaled n d e)) = real n / real d / 2 powi e"
  by (auto simp: scaled_def power_int_def field_simps)

lemma scaled_den: "0 < d \<Longrightarrow> 0 < snd (scaled n d e)"
  by (simp add: scaled_def)

lemma bitlen_real:
  assumes "0 < n"
  shows "2 powi (bitlen (int n) - 1) \<le> real n" "real n < 2 powi bitlen (int n)"
proof -
  have b: "2 ^ nat (bitlen (int n) - 1) \<le> int n" "int n < 2 ^ nat (bitlen (int n))" "0 < bitlen (int n)"
    using bitlen_bounds[of "int n"] bitlen_eq_zero_iff[of "int n"] bitlen_nonneg[of "int n"] assms by simp_all
  have "2 ^ nat (bitlen (int n) - 1) \<le> n" "n < 2 ^ nat (bitlen (int n))"
    using b(1,2) by (metis of_nat_le_iff of_nat_numeral of_nat_power, metis of_nat_less_iff of_nat_numeral of_nat_power)
  then show "2 powi (bitlen (int n) - 1) \<le> real n" "real n < 2 powi bitlen (int n)"
    using b(3) by (simp_all add: power_int_def)
qed

lemma exponent_small:
  assumes "0 < n" "0 < d" "emin < fp_exponent p emin n d"
  shows "2 powi (fp_exponent p emin n d + int p - 1) \<le> real n / real d"
proof -
  let ?e = "bitlen (int n) - bitlen (int d) - int p" and ?x = "real n / real d"
  let ?c = "2 ^ p * snd (scaled n d ?e) \<le> fst (scaled n d ?e)"
  have f: "fp_exponent p emin n d = (if ?c then ?e + 1 else ?e)"
    using assms(3) by (auto simp: fp_exponent_def Let_def split_beta max_def split: if_splits)
  have low: "2 powi (?e + int p - 1) \<le> ?x"
  proof -
    have "(2 :: real) powi (?e + int p - 1) = 2 powi (bitlen (int n) - 1) / 2 powi bitlen (int d)"
      by (simp add: power_int_diff)
    also have "\<dots> \<le> real n / 2 powi bitlen (int d)"
      using bitlen_real(1)[OF assms(1)] by (simp add: divide_right_mono)
    also have "\<dots> \<le> ?x"
      using bitlen_real(2)[OF assms(2)] assms(2) by (intro divide_left_mono) auto
    finally show ?thesis .
  qed
  show ?thesis
  proof (cases ?c)
    case False
    then show ?thesis using low f by simp
  next
    case True
    have "real (2 ^ p) * real (snd (scaled n d ?e)) \<le> real (fst (scaled n d ?e))"
      using True by (metis of_nat_le_iff of_nat_mult)
    then have "2 ^ p \<le> real (fst (scaled n d ?e)) / real (snd (scaled n d ?e))"
      using scaled_den[OF assms(2), of n ?e] by (simp add: field_simps)
    then have "2 ^ p \<le> ?x / 2 powi ?e" by (simp add: scaled_ratio[OF assms(2)])
    then have "2 powi int p * 2 powi ?e \<le> ?x / 2 powi ?e * 2 powi ?e" by (intro mult_right_mono) simp_all
    then have "2 powi int p * 2 powi ?e \<le> ?x" by simp
    moreover have "(2 :: real) powi (?e + int p) = 2 powi ?e * 2 powi int p" by (rule power_int_add) simp
    ultimately have "2 powi (?e + int p) \<le> ?x" by (simp only: mult.commute)
    moreover have "fp_exponent p emin n d + int p - 1 = ?e + int p" using f True by simp
    ultimately show ?thesis by simp
  qed
qed

text \<open>Half a unit in the last place, or of the smallest number there is.\<close>

lemma fp_round_error:
  assumes "0 < d"
  shows "\<bar>fp_val (fp_round p emin n d) - of_int n / real d\<bar>
    \<le> max (2 powi (emin - 1)) (\<bar>of_int n / real d\<bar> * 2 powi (- int p))"
proof (cases "n = 0")
  case True
  then show ?thesis by (simp add: fp_round_def fp_val_def)
next
  case False
  let ?a = "nat \<bar>n\<bar>" and ?x = "real (nat \<bar>n\<bar>) / real d"
  let ?e = "fp_exponent p emin ?a d"
  let ?m = "round_half_even (fst (scaled ?a d ?e)) (snd (scaled ?a d ?e))"
  have a: "0 < ?a" using False by simp
  have n: "of_int n = of_int (sgn n) * real ?a" by (cases "n < 0") (auto simp: sgn_if)
  have v: "fp_val (fp_round p emin n d) = of_int (sgn n) * (real ?m * 2 powi ?e)"
    using False by (simp add: fp_round_def fp_val_def Let_def split_beta)
  have "\<bar>real ?m - ?x / 2 powi ?e\<bar> \<le> 1 / 2"
    using half_even_error[OF scaled_den[OF assms, of ?a ?e], of "fst (scaled ?a d ?e)"]
    by (simp add: scaled_ratio[OF assms])
  then have "\<bar>real ?m - ?x / 2 powi ?e\<bar> * 2 powi ?e \<le> 1 / 2 * 2 powi ?e" by (intro mult_right_mono) auto
  moreover have "\<bar>real ?m - ?x / 2 powi ?e\<bar> * 2 powi ?e = \<bar>real ?m * 2 powi ?e - ?x\<bar>"
    by (rule abs_scale) simp
  moreover have "1 / 2 * (2 :: real) powi ?e = 2 powi (?e - 1)" by (simp add: power_int_diff)
  ultimately have err: "\<bar>real ?m * 2 powi ?e - ?x\<bar> \<le> 2 powi (?e - 1)" by (simp only:)
  have b: "2 powi (?e - 1) \<le> max (2 powi (emin - 1)) (?x * 2 powi (- int p))"
  proof (cases "emin < ?e")
    case True
    from exponent_small[OF a assms True] have "2 powi (?e + int p - 1) * 2 powi (- int p) \<le> ?x * 2 powi (- int p)"
      by (intro mult_right_mono) auto
    moreover have "(2 :: real) powi (?e + int p - 1) * 2 powi (- int p) = 2 powi (?e - 1)"
      by (simp flip: power_int_add)
    ultimately show ?thesis by (metis le_max_iff_disj)
  next
    case False
    moreover have "emin \<le> ?e" by (simp add: fp_exponent_def Let_def split_beta)
    ultimately show ?thesis by simp
  qed
  have s: "\<bar>of_int (sgn n) :: real\<bar> = 1" using False by (simp add: sgn_if)
  have "fp_val (fp_round p emin n d) - of_int n / real d = of_int (sgn n) * (real ?m * 2 powi ?e - ?x)"
    unfolding v n by (simp add: right_diff_distrib)
  then have "\<bar>fp_val (fp_round p emin n d) - of_int n / real d\<bar> = \<bar>real ?m * 2 powi ?e - ?x\<bar>"
    by (simp add: abs_mult s)
  moreover have "\<bar>of_int n / real d\<bar> = ?x" by simp
  ultimately show ?thesis using err b by (simp only:)
qed

lemma fp_round_nonneg: "0 \<le> n \<Longrightarrow> 0 \<le> fp_num (fp_round p emin n d)"
  by (simp add: fp_round_def fp_num_def Let_def split_beta sgn_if)

lemma to_float_error:
  assumes "0 < d" "n = 0 \<or> 1 \<le> \<bar>of_int n / real d\<bar> * 2 ^ 100"
  shows "\<bar>fp_val (to_float n d) - of_int n / real d\<bar> \<le> \<bar>of_int n / real d\<bar> / 16777216"
proof (cases "n = 0")
  case True
  then show ?thesis by (simp add: to_float_def fp_round_def fp_val_def)
next
  case False
  let ?x = "\<bar>of_int n / real d\<bar>"
  have "1 / 2 ^ 100 \<le> ?x" using assms(2) False by (simp add: field_simps)
  then have "1 / 2 ^ 100 * (2 :: real) powi (- int 24) \<le> ?x * 2 powi (- int 24)" by (rule mult_right_mono) simp
  moreover have "(2 :: real) powi (- 149 - 1) \<le> 2 powi (- 124)" by (rule power_int_increasing) simp_all
  moreover have "(2 :: real) powi (- 124) = 1 / 2 ^ 100 * 2 powi (- int 24)" by (simp add: power_int_minus)
  ultimately have "(2 :: real) powi (- 149 - 1) \<le> ?x * 2 powi (- int 24)" by linarith
  moreover have pw: "(2 :: real) powi (- int 24) = 1 / 16777216" by (simp add: power_int_minus)
  ultimately have "(2 :: real) powi (- 149 - 1) \<le> ?x / 16777216" by simp
  then show ?thesis
    using fp_round_error[OF assms(1), of 24 "- 149" n] pw by (simp add: to_float_def)
qed

lemma le_max_sum: "a \<le> a' \<Longrightarrow> e \<le> max a b \<Longrightarrow> b = b' \<Longrightarrow> 0 \<le> a' \<Longrightarrow> 0 \<le> b' \<Longrightarrow> e \<le> a' + b'"
  for a e :: real
  by linarith

lemma to_double_error:
  assumes "0 < d"
  shows "\<bar>fp_val (to_double n d) - of_int n / real d\<bar> \<le> 1 / 2 ^ 100 + \<bar>of_int n / real d\<bar> / 2 ^ 53"
proof -
  have "(2 :: real) powi (- 1074 - 1) \<le> 2 powi (- 100)" by (rule power_int_increasing) simp_all
  moreover have "(2 :: real) powi (- 100) = 1 / 2 ^ 100" by (simp add: power_int_minus field_simps)
  ultimately have "(2 :: real) powi (- 1074 - 1) \<le> 1 / 2 ^ 100" by linarith
  have pw: "(2 :: real) powi (- int 53) = 1 / 2 ^ 53" by (simp add: power_int_minus field_simps)
  from le_max_sum[OF \<open>2 powi (- 1074 - 1) \<le> 1 / 2 ^ 100\<close> fp_round_error[OF assms, of 53 "- 1074" n]] show ?thesis
    unfolding to_double_def pw by simp
qed

section \<open>Percent values\<close>

lemma float_add_val: "fp_val x + fp_val y
    = of_int (fp_num x * int (fp_den y) + fp_num y * int (fp_den x)) / real (fp_den x * fp_den y)"
  by (simp add: fp_val_ratio field_simps)

lemma float_div_val: "0 < n \<Longrightarrow> fp_val x / real n = of_int (fp_num x) / real (fp_den x * n)"
  by (simp add: fp_val_ratio)

lemma float_mult_val: "fp_val x * real n = of_int (fp_num x * int n) / real (fp_den x)"
  by (simp add: fp_val_ratio)

lemma float_to_size_bounds:
  assumes "real k \<le> fp_val x" "fp_val x < real k + 1"
  shows "float_to_size x = k"
proof -
  have k: "real k * real (fp_den x) \<le> of_int (fp_num x)" "of_int (fp_num x) < (real k + 1) * real (fp_den x)"
    using assms by (simp_all add: fp_val_ratio field_simps)
  have "0 \<le> real k * real (fp_den x)" by simp
  with k(1) have nn: "0 \<le> fp_num x" by linarith
  have "real (k * fp_den x) \<le> real (nat (fp_num x))" "real (nat (fp_num x)) < real (Suc k * fp_den x)"
    using k nn by (simp_all add: algebra_simps)
  then have "k * fp_den x \<le> nat (fp_num x)" "nat (fp_num x) < Suc k * fp_den x" by linarith+
  then show ?thesis unfolding float_to_size_def by (intro div_nat_eqI) (simp_all add: mult.commute)
qed

lemma percent_value:
  assumes "k \<le> 100000"
  shows "float_to_size (float_mult (float_add (float_div (to_float (int k) 1) 100) (to_float 1 1000)) 100) = k"
proof -
  define x1 where "x1 = to_float (int k) 1"
  define x2 where "x2 = float_div x1 100"
  define c where "c = to_float 1 1000"
  define y where "y = float_add x2 c"
  define z where "z = float_mult y 100"
  have e1: "\<bar>fp_val x1 - real k\<bar> \<le> real k / 16777216"
    using to_float_error[of 1 "int k"] by (cases "k = 0") (auto simp: x1_def)
  have small: "of_int (fp_num v) = (0 :: real) \<or> 1 \<le> \<bar>fp_val v\<bar> * 2 ^ 90 \<Longrightarrow> 0 < d \<Longrightarrow> d \<le> 1000 \<Longrightarrow>
      fp_num v = 0 \<or> 1 \<le> \<bar>of_int (fp_num v) / real (fp_den v * d)\<bar> * 2 ^ 100" for v d
  proof (elim disjE)
    assume a: "1 \<le> \<bar>fp_val v\<bar> * 2 ^ 90" and d: "0 < d" "d \<le> 1000"
    have "1 \<le> \<bar>fp_val v\<bar> / real d * 2 ^ 100"
    proof -
      have "real d * 1 \<le> 1000 * (\<bar>fp_val v\<bar> * 2 ^ 90)" using a d by (intro mult_mono) auto
      also have "\<dots> \<le> \<bar>fp_val v\<bar> * 2 ^ 100" by simp
      finally show ?thesis using d by (simp add: field_simps)
    qed
    then show ?thesis by (simp add: fp_val_ratio abs_divide mult.assoc)
  qed simp
  have k1: "k = 0 \<or> 1 \<le> real k" by (cases k) auto
  have v1: "of_int (fp_num x1) = (0 :: real) \<or> 1 \<le> \<bar>fp_val x1\<bar> * 2 ^ 90"
  proof (cases "k = 0")
    case True
    then show ?thesis by (simp add: x1_def to_float_def fp_round_def fp_num_def)
  next
    case False
    then have "1 / 2 \<le> fp_val x1" using e1 k1 by linarith
    then show ?thesis by simp
  qed
  have e2: "\<bar>fp_val x2 - fp_val x1 / 100\<bar> \<le> \<bar>fp_val x1 / 100\<bar> / 16777216"
    using to_float_error[of "fp_den x1 * 100" "fp_num x1"] small[OF v1, of 100]
    by (simp add: x2_def float_div_def float_div_val[of 100 x1, simplified])
  have ec: "\<bar>fp_val c - 1 / 1000\<bar> \<le> 1 / 1000 / 16777216"
    using to_float_error[of 1000 1] by (simp add: c_def)
  have pos1: "0 \<le> fp_val x1" using e1 k1 assms by linarith
  have pos2: "0 \<le> fp_val x2" using e2 pos1 by linarith
  have posc: "1 / 2000 \<le> fp_val c" using ec by linarith
  have sum: "1 / 2000 \<le> fp_val x2 + fp_val c" using pos2 posc by linarith
  have ey: "\<bar>fp_val y - (fp_val x2 + fp_val c)\<bar> \<le> (fp_val x2 + fp_val c) / 16777216"
    using to_float_error[of "fp_den x2 * fp_den c" "fp_num x2 * int (fp_den c) + fp_num c * int (fp_den x2)"] sum
    by (simp add: y_def float_add_def float_add_val[symmetric, simplified])
  have posy: "1 / 4000 \<le> fp_val y" using ey[unfolded abs_le_iff] sum by (simp add: field_simps)
  have ez: "\<bar>fp_val z - fp_val y * 100\<bar> \<le> fp_val y * 100 / 16777216"
    using to_float_error[of "fp_den y" "fp_num y * 100"] posy
    by (simp add: z_def float_mult_def float_mult_val[of y 100, symmetric, simplified])
  have k: "0 \<le> real k" "real k \<le> 100000" using assms by simp_all
  have a1: "fp_val x1 \<le> real k + real k / 16777216" "real k - real k / 16777216 \<le> fp_val x1" using e1 by linarith+
  have a2: "fp_val x2 \<le> fp_val x1 / 100 + fp_val x1 / 100 / 16777216" "fp_val x1 / 100 - fp_val x1 / 100 / 16777216 \<le> fp_val x2"
    using e2 pos1 by linarith+
  have ac: "fp_val c \<le> 1 / 1000 + 1 / 1000 / 16777216" "1 / 1000 - 1 / 1000 / 16777216 \<le> fp_val c"
    using ec by linarith+
  have ay: "fp_val y \<le> fp_val x2 + fp_val c + (fp_val x2 / 16777216 + fp_val c / 16777216)"
      "fp_val x2 + fp_val c - (fp_val x2 / 16777216 + fp_val c / 16777216) \<le> fp_val y"
    using ey unfolding abs_le_iff add_divide_distrib by linarith+
  have az: "fp_val z \<le> fp_val y * 100 + fp_val y * 100 / 16777216" "fp_val y * 100 - fp_val y * 100 / 16777216 \<le> fp_val z"
    using ez unfolding abs_le_iff by linarith+
  have "real k \<le> fp_val z" using a1 a2 ac ay az k by linarith
  moreover have "fp_val z < real k + 1" using a1 a2 ac ay az k by linarith
  ultimately have "float_to_size z = k" by (rule float_to_size_bounds)
  then show ?thesis by (simp add: z_def y_def c_def x2_def x1_def)
qed

lemma percent_roundtrip:
  assumes "k \<le> 100000"
  shows "apt_size_value_generate_from_float (apt_size_value_parse_as_float (apt_size_value_generate k))
    = apt_size_value_generate k"
  using percent_value[OF assms] assms
  by (simp add: apt_size_value_generate_from_float_def apt_size_value_parse_as_float_def size_roundtrip)

section \<open>Numbers as text\<close>

lemma digits_val_append: "digits_val (xs @ ys) = digits_val xs * 10 ^ length ys + digits_val ys"
proof (induction ys rule: rev_induct)
  case Nil
  then show ?case by simp
next
  case (snoc y ys)
  have "digits_val (xs @ ys @ [y]) = 10 * digits_val (xs @ ys) + digit_val y"
    by (metis append_assoc digits_val_snoc)
  then show ?case using snoc.IH by (simp add: digits_val_snoc algebra_simps)
qed

lemma digits_val_zeros [simp]: "digits_val (replicate n (CHR ''0'')) = 0"
proof (induction n)
  case 0
  then show ?case by simp
next
  case (Suc n)
  have "replicate (Suc n) (CHR ''0'') = replicate n (CHR ''0'') @ [CHR ''0'']" by (simp flip: replicate_append_same)
  then show ?case using Suc.IH by (simp only: digits_val_snoc) (simp add: digit_val_def)
qed

lemma pad6_facts:
  assumes "n < 10 ^ 6"
  shows "length (pad6 n) = 6" "digits_val (pad6 n) = n" "list_all is_digit (pad6 n)"
proof -
  have "length (show_nat n) \<le> 6" using length_show_nat_le[of 6 n] assms by simp
  then show "length (pad6 n) = 6" by (simp add: pad6_def)
  show "digits_val (pad6 n) = n" by (simp add: pad6_def digits_val_append)
  have "is_digit (CHR ''0'')" by (simp add: is_digit_def)
  then show "list_all is_digit (pad6 n)" by (auto simp: pad6_def list_all_iff show_nat_digits)
qed

lemma point_not_digit [simp]: "\<not> is_digit (CHR ''.'')"
  by (simp add: is_digit_def)

text \<open>What is left of the digits behind the point when the zeros at the end are gone.\<close>

lemma zeros_trim_digits:
  assumes "list_all is_digit fs" "fs \<noteq> []"
  shows "\<exists>gs j. rev (zeros_trim (rev (ip @ CHR ''.'' # fs))) = ip @ CHR ''.'' # gs
    \<and> fs = gs @ replicate j (CHR ''0'') \<and> gs \<noteq> []"
  using assms
proof (induction fs rule: rev_induct)
  case Nil
  then show ?case by simp
next
  case (snoc c hs)
  show ?case
  proof (cases "c = CHR ''0'' \<and> hs \<noteq> []")
    case False
    have "zeros_trim (rev (ip @ CHR ''.'' # hs @ [c])) = rev (ip @ CHR ''.'' # hs @ [c])"
      using False by (cases "rev hs") auto
    then show ?thesis by (intro exI[of _ "hs @ [c]"] exI[of _ 0]) simp
  next
    case True
    have hs: "list_all is_digit hs" using snoc.prems(1) by simp
    obtain d r where r: "rev hs = d # r" using True by (cases "rev hs") auto
    then have "d \<in> set hs" by (metis list.set_intros(1) set_rev)
    then have d: "d \<noteq> CHR ''.''" using snoc.prems(1) by (auto simp: list_all_iff)
    have t: "zeros_trim (rev (ip @ CHR ''.'' # hs @ [c])) = zeros_trim (rev (ip @ CHR ''.'' # hs))"
      using True r d by simp
    obtain gs j where "rev (zeros_trim (rev (ip @ CHR ''.'' # hs))) = ip @ CHR ''.'' # gs"
      "hs = gs @ replicate j (CHR ''0'')" "gs \<noteq> []"
      using snoc.IH[OF hs] True by blast
    moreover have "hs @ [c] = gs @ replicate (Suc j) (CHR ''0'')"
      using calculation(2) True by (simp add: replicate_append_same)
    ultimately show ?thesis using t by metis
  qed
qed

definition micro_digits :: "nat \<Rightarrow> string" where
  "micro_digits k = rev (zeros_trim (rev (micro_text k)))"

lemma micro_digits_shape:
  obtains gs where "micro_digits k = show_nat (k div 10 ^ 6) @ CHR ''.'' # gs" "list_all is_digit gs" "gs \<noteq> []"
    "length gs \<le> 6" "digits_val (show_nat (k div 10 ^ 6) @ gs) * 10 ^ (6 - length gs) = k"
proof -
  let ?f = "pad6 (k mod 10 ^ 6)"
  have f: "length ?f = 6" "digits_val ?f = k mod 10 ^ 6" "list_all is_digit ?f"
    using pad6_facts[of "k mod 10 ^ 6"] by simp_all
  then have "?f \<noteq> []" by force
  from zeros_trim_digits[OF f(3) this] obtain gs j where g:
    "micro_digits k = show_nat (k div 10 ^ 6) @ CHR ''.'' # gs" "?f = gs @ replicate j (CHR ''0'')" "gs \<noteq> []"
    unfolding micro_digits_def micro_text_def by blast
  have len: "length gs + j = 6" using f(1) g(2) by (metis length_append length_replicate)
  have "digits_val gs * 10 ^ j = k mod 10 ^ 6" using f(2) g(2) by (simp add: digits_val_append)
  then have "digits_val (show_nat (k div 10 ^ 6) @ gs) * 10 ^ j = k div 10 ^ 6 * 10 ^ (length gs + j) + k mod 10 ^ 6"
    by (simp add: digits_val_append power_add algebra_simps)
  also have "\<dots> = k" by (simp only: len) simp
  finally have "digits_val (show_nat (k div 10 ^ 6) @ gs) * 10 ^ (6 - length gs) = k" using len by (metis add_diff_cancel_left')
  moreover have "list_all is_digit gs" using f(3) g(2) by simp
  ultimately show ?thesis using that g len by auto
qed

lemma micro_digits_nonempty: "micro_digits k \<noteq> []"
proof -
  obtain gs where "micro_digits k = show_nat (k div 10 ^ 6) @ CHR ''.'' # gs" by (rule micro_digits_shape)
  then show ?thesis by simp
qed

lemma atof_micro_digits:
  obtains D L where "atof (micro_digits k) = to_double (int D) (10 ^ L)" "real D / 10 ^ L = real k / 10 ^ 6"
proof -
  obtain gs where g: "micro_digits k = show_nat (k div 10 ^ 6) @ CHR ''.'' # gs" "list_all is_digit gs" "gs \<noteq> []"
    "length gs \<le> 6" "digits_val (show_nat (k div 10 ^ 6) @ gs) * 10 ^ (6 - length gs) = k"
    by (rule micro_digits_shape)
  let ?ip = "show_nat (k div 10 ^ 6)" and ?D = "digits_val (show_nat (k div 10 ^ 6) @ gs)"
  obtain c cs where c: "?ip = c # cs" by (cases ?ip) auto
  then have "is_digit c" using show_nat_digits[of c "k div 10 ^ 6"] by simp
  note nc = is_digit_not_special[OF this]
  have tw: "takeWhile is_digit (?ip @ CHR ''.'' # gs) = ?ip" by (rule takeWhile_show_nat) simp
  have dw: "dropWhile is_digit (?ip @ CHR ''.'' # gs) = CHR ''.'' # gs"
    using tw by (metis append_same_eq same_append_eq takeWhile_dropWhile_id)
  have gs: "takeWhile is_digit gs = gs" "dropWhile is_digit gs = []"
    using g(2) by (simp_all add: list_all_iff)
  have rd: "decimal_read (?ip @ CHR ''.'' # gs) = (?D, - int (length gs))"
    unfolding decimal_read_def Let_def tw dw by (simp add: gs exponent_val_def)
  have start: "dropWhile is_space (?ip @ CHR ''.'' # gs) = ?ip @ CHR ''.'' # gs" unfolding c using nc by simp
  have "0 < length gs" using g(3) by simp
  then have "atof (micro_digits k) = to_double (int ?D) (10 ^ length gs)"
    using rd unfolding atof_def g(1) start Let_def unfolding c by (simp add: nc)
  moreover have "real ?D / 10 ^ length gs = real k / 10 ^ 6"
  proof -
    have "real ?D * 10 ^ (6 - length gs) = real k" using g(5) by (metis of_nat_mult of_nat_numeral of_nat_power)
    then have "real k / 10 ^ 6 = real ?D * 10 ^ (6 - length gs) / (10 ^ (6 - length gs) * 10 ^ length gs)"
      using g(4) by (simp flip: power_add)
    then show ?thesis by simp
  qed
  ultimately show ?thesis using that by blast
qed

lemma fp_micro_near:
  assumes "\<bar>fp_val x - real k / 1000000\<bar> < 1 / 2000000" "0 \<le> fp_num x"
  shows "fp_micro x = k"
proof -
  let ?n = "real (nat (fp_num x))" and ?d = "real (fp_den x)"
  have v: "fp_val x = ?n / ?d" using assms(2) by (simp add: fp_val_ratio)
  have d: "0 < ?d" by simp
  have "2 * real k - 1 < 2000000 * (?n / ?d)" "2000000 * (?n / ?d) < 2 * real k + 1"
    using assms(1) unfolding v abs_less_iff by linarith+
  then have "(2 * real k - 1) * ?d < 2000000 * ?n" "2000000 * ?n < (2 * real k + 1) * ?d"
    using d by (simp_all add: field_simps)
  then have "real (2 * fp_den x * k) < real (2 * 10 ^ 6 * nat (fp_num x) + fp_den x)"
    "real (2 * 10 ^ 6 * nat (fp_num x) + fp_den x) < real (2 * fp_den x * Suc k)"
    by (simp_all add: algebra_simps)
  then have "2 * fp_den x * k < 2 * 10 ^ 6 * nat (fp_num x) + fp_den x"
    "2 * 10 ^ 6 * nat (fp_num x) + fp_den x < 2 * fp_den x * Suc k" by linarith+
  then show ?thesis using assms(2) unfolding fp_micro_def
    by (intro div_nat_eqI) (simp_all add: mult.commute mult.left_commute)
qed

lemma micro_digits_read:
  assumes "k \<le> 8 * 10 ^ 6"
  shows "fp_micro (apt_float_value_parse (micro_digits k)) = k" "0 \<le> fp_num (apt_float_value_parse (micro_digits k))"
proof -
  obtain D L where a: "atof (micro_digits k) = to_double (int D) (10 ^ L)" "real D / 10 ^ L = real k / 10 ^ 6"
    by (rule atof_micro_digits)
  let ?a = "to_double (int D) (10 ^ L)" and ?x = "real k / 10 ^ 6"
  have p: "apt_float_value_parse (micro_digits k) = to_float (fp_num ?a) (fp_den ?a)"
    by (simp add: apt_float_value_parse_def a(1) micro_digits_nonempty)
  have na: "0 \<le> fp_num ?a" by (simp add: to_double_def fp_round_nonneg)
  then show nn: "0 \<le> fp_num (apt_float_value_parse (micro_digits k))"
    by (simp add: p to_float_def fp_round_nonneg)
  have x: "0 \<le> ?x" "?x \<le> 8" "k \<noteq> 0 \<Longrightarrow> 1 / 10 ^ 6 \<le> ?x" using assms by (auto simp: field_simps)
  have e1: "\<bar>fp_val ?a - ?x\<bar> \<le> 1 / 2 ^ 100 + ?x / 2 ^ 53"
    using to_double_error[of "10 ^ L" "int D"] a(2) x(1) by simp
  show "fp_micro (apt_float_value_parse (micro_digits k)) = k"
  proof (cases "k = 0")
    case True
    then have "D = 0" using a(2) by simp
    then have z: "apt_float_value_parse (micro_digits k) = (0, 0)"
      unfolding p by (simp add: to_double_def to_float_def fp_round_def fp_num_def)
    show ?thesis unfolding z using True by (simp add: fp_num_def fp_den_def fp_micro_def)
  next
    case False
    have low: "1 / 10 ^ 7 \<le> fp_val ?a" and up: "fp_val ?a \<le> ?x + 1 / 2 ^ 100 + ?x / 2 ^ 53"
      using e1 x(3)[OF False] x(1,2) by (simp_all add: abs_le_iff) 
    have "\<bar>fp_val (to_float (fp_num ?a) (fp_den ?a)) - fp_val ?a\<bar> \<le> \<bar>fp_val ?a\<bar> / 16777216"
      using to_float_error[of "fp_den ?a" "fp_num ?a"] low by (simp add: fp_val_ratio)
    then have "\<bar>fp_val (apt_float_value_parse (micro_digits k)) - real k / 1000000\<bar> < 1 / 2000000"
      using e1 up low x(1,2) unfolding p abs_le_iff abs_less_iff by simp
    then show ?thesis by (rule fp_micro_near[OF _ nn])
  qed
qed

text \<open>
  A number printed from a \<open>float\<close> between 0 and 8 has as many digits as survive: reading it and
  printing it again gives the same text.
\<close>

lemma float_text_roundtrip:
  assumes "0 \<le> fp_num x" "fp_micro x \<le> 8 * 10 ^ 6"
  shows "apt_float_value_generate (apt_float_value_parse (apt_float_value_generate x)) = apt_float_value_generate x"
proof -
  have g: "apt_float_value_generate x = micro_digits (fp_micro x)"
    using assms(1) by (simp add: apt_float_value_generate_def micro_digits_def)
  show ?thesis
    unfolding g using micro_digits_read[OF assms(2)] by (simp add: apt_float_value_generate_def micro_digits_def)
qed

lemma float_text_nonempty: "apt_float_value_generate x \<noteq> []" if "0 \<le> fp_num x"
proof -
  have "apt_float_value_generate x = micro_digits (fp_micro x)"
    using that by (simp add: apt_float_value_generate_def micro_digits_def)
  then show ?thesis by (simp add: micro_digits_nonempty)
qed

text \<open>A number whose text is exact.\<close>

definition float_ok :: "fp \<Rightarrow> bool" where
  "float_ok x \<longleftrightarrow> 0 \<le> fp_num x \<and> fp_micro x \<le> 8 * 10 ^ 6"

lemma float_ok_text: "float_ok x
    \<Longrightarrow> apt_float_value_generate (apt_float_value_parse (apt_float_value_generate x)) = apt_float_value_generate x"
  by (simp add: float_ok_def float_text_roundtrip)

lemma float_text_shape:
  assumes "float_ok x"
  obtains c cs where "apt_float_value_generate x = c # cs" "is_digit c" "c \<noteq> CHR ''+''" "c \<noteq> CHR ''-''"
proof -
  obtain gs where "apt_float_value_generate x = show_nat (fp_micro x div 10 ^ 6) @ CHR ''.'' # gs"
    using assms micro_digits_shape[of "fp_micro x"]
    by (metis apt_float_value_generate_def float_ok_def leD micro_digits_def self_append_conv2)
  moreover obtain c cs where c: "show_nat (fp_micro x div 10 ^ 6) = c # cs" by (cases "show_nat (fp_micro x div 10 ^ 6)") auto
  moreover have "is_digit c" using c show_nat_digits[of c "fp_micro x div 10 ^ 6"] by simp
  ultimately show ?thesis using that is_digit_not_special[of c] by auto
qed

lemma float_ok_nonempty: "float_ok x \<Longrightarrow> apt_float_value_generate x \<noteq> []"
  by (metis float_text_shape list.discI)

lemma percent_text_nonempty [simp]: "apt_size_value_generate_from_float x \<noteq> []"
  by (simp add: apt_size_value_generate_from_float_def apt_size_value_generate_def)

end
