(* ===== verification/Header_Codec.thy ===== *)
theory Header_Codec
  imports Mrcp_Header Float32
begin

text \<open>
  What the headers of the four resources have in common (\<open>libs/mrcp/resources/src\<close>): the fields
  a sender writes are the fields the receiver has. The interface \<open>header_codec\<close> extends
  \<open>header_iface\<close> by the laws of a single field; the lemma on whole headers is proved inside it.
\<close>

text \<open>The fields a header gives for a list of identifiers, and a header that takes in fields.\<close>

definition fields_sent :: "'d header_vtable \<Rightarrow> 'd \<Rightarrow> nat list \<Rightarrow> header_field list" where
  "fields_sent vt d is = List.map_filter (\<lambda>i. mrcp_header_field_value_generate (Some (vt, d)) i False) is"

definition fields_received :: "'d header_vtable \<Rightarrow> 'd \<Rightarrow> header_field list \<Rightarrow> 'd" where
  "fields_received vt d fs =
     fold (\<lambda>f d. snd (the (fst (snd (mrcp_header_field_value_parse (Some (vt, d)) f))))) fs d"

text \<open>Setting a boolean from its text leaves it as it is when the text is neither true nor false.\<close>

definition bool_set :: "string \<Rightarrow> bool \<Rightarrow> bool" where
  "bool_set v b = (case apt_boolean_value_parse v of None \<Rightarrow> b | Some b1 \<Rightarrow> b1)"

text \<open>A number in a variable of an enumeration type has 32 bits.\<close>

definition enum_of :: "nat \<Rightarrow> nat" where
  "enum_of n = n mod 2 ^ 32"

text \<open>A value whose generation may fail; the value of a field is empty at first.\<close>

definition text_or_empty :: "string option \<Rightarrow> string" where
  "text_or_empty v = (case v of None \<Rightarrow> [] | Some v1 \<Rightarrow> v1)"

lemma bool_set_generate [simp]: "bool_set (apt_boolean_value_generate b) b1 = b"
  by (simp add: bool_set_def boolean_roundtrip)

lemma completion_cause_read:
  assumes "apt_completion_cause_generate t c = Some v" "length t \<le> 1000"
  shows "enum_of (apt_size_value_parse v) = c"
proof -
  have c: "c < length t" using assms(1)
    by (auto simp: apt_completion_cause_generate_def apt_string_table_str_get_def split: if_splits)
  then have v: "v = pad3 c @ sp # st_value (t ! c)" using assms completion_cause_text[of t c] by simp
  have c1: "c < 1000" using c assms(2) by simp
  have len: "length (pad3 c) = 3" using length_show_nat_le[of 3 c] c1 by (simp add: pad3_length)
  have dv: "digits_val (pad3 c) = c" by (simp add: pad3_def digits_val_append)
  have ds: "list_all is_digit (pad3 c)"
    by (auto simp: pad3_def list_all_iff is_digit_def show_nat_digits[unfolded is_digit_def])
  obtain d ds' where p: "pad3 c = d # ds'" using len by (cases "pad3 c") auto
  then have "is_digit d" using ds by simp
  note nd = is_digit_not_special[OF this]
  have tw: "takeWhile is_digit (pad3 c @ sp # r) = pad3 c" for r
    using ds by (simp add: takeWhile_append2 list_all_iff is_digit_def sp_def)
  have drop: "dropWhile is_space v = v" using nd by (simp add: v p)
  have "atol v = clamp_long (int (digits_val (takeWhile is_digit v)))"
    unfolding atol_def Let_def drop using nd by (simp add: v p)
  also have "\<dots> = int c" unfolding v tw dv using c1 by (simp add: clamp_long_def)
  finally show ?thesis using c1 by (simp add: v p apt_size_value_parse_def enum_of_def)
qed

locale header_codec = header_iface vt for vt :: "'d header_vtable" +
  fixes ok :: "'d \<Rightarrow> bool"
  assumes generates: "ok d \<Longrightarrow> i < length (vt_field_table vt) \<Longrightarrow> \<exists>v. vt_generate_field vt d i = Some v"
    and generate_parse: "ok d \<Longrightarrow> i < length (vt_field_table vt) \<Longrightarrow> vt_generate_field vt d i = Some v \<Longrightarrow> v \<noteq> []
      \<Longrightarrow> vt_generate_field vt (snd (vt_parse_field vt e i v)) i = Some v"
    and generate_duplicate: "ok d \<Longrightarrow> i < length (vt_field_table vt) \<Longrightarrow> vt_generate_field vt d i = Some v \<Longrightarrow> v \<noteq> []
      \<Longrightarrow> vt_generate_field vt (snd (vt_duplicate_field vt e (Some d) i v)) i = Some v"
    and parse_other: "i < length (vt_field_table vt) \<Longrightarrow> j < length (vt_field_table vt) \<Longrightarrow> i \<noteq> j
      \<Longrightarrow> vt_generate_field vt (snd (vt_parse_field vt e j v)) i = vt_generate_field vt e i"
begin

lemma field_received:
  assumes ok: "ok d" and i: "i < length (vt_field_table vt)" and v: "vt_generate_field vt d i = Some v" "v \<noteq> []"
    and f: "mrcp_header_field_value_generate (Some (vt, d)) i False = Some f"
  shows "mrcp_header_field_value_parse (Some (vt, e)) f
      = (True, Some (vt, snd (vt_parse_field vt e i v)), f\<lparr>hf_id := i\<rparr>)"
proof -
  have g: "hf_name f = st_value (vt_field_table vt ! i)" "hf_value f = v"
    using f v(1) i by (auto simp: mrcp_header_field_value_generate_def apt_string_table_str_get_def Let_def)
  have n: "apt_string_table_id_find (vt_field_table vt) (hf_name f) = i" using id_find_name[OF table i] g(1) by simp
  have "fst (vt_parse_field vt e i v)" using parse_known[OF i] .
  then show ?thesis using n i g(2) v(2)
    by (simp add: mrcp_header_field_value_parse_def Let_def split_beta)
qed

text \<open>
  Every field that was sent has the text it had at the sender, and the fields that were not sent
  are left alone.
\<close>

lemma fields_transfer:
  assumes ok: "ok d" and "distinct is" and "\<forall>i \<in> set is. i < length (vt_field_table vt)"
    and "\<forall>i \<in> set is. \<exists>v. v \<noteq> [] \<and> vt_generate_field vt d i = Some v" and j: "j < length (vt_field_table vt)"
  shows "vt_generate_field vt (fields_received vt e (fields_sent vt d is)) j
    = vt_generate_field vt (if j \<in> set is then d else e) j"
  using assms(2-4)
proof (induction "is" arbitrary: e)
  case Nil
  then show ?case by (simp add: fields_received_def fields_sent_def map_filter_def)
next
  case (Cons i "is")
  obtain v where v: "v \<noteq> []" "vt_generate_field vt d i = Some v" using Cons.prems(3) by auto
  obtain f where f: "mrcp_header_field_value_generate (Some (vt, d)) i False = Some f"
    using v(2) by (auto simp: mrcp_header_field_value_generate_def Let_def)
  have i: "i < length (vt_field_table vt)" using Cons.prems(2) by simp
  let ?e = "snd (vt_parse_field vt e i v)"
  have r: "fields_received vt e (fields_sent vt d (i # is)) = fields_received vt ?e (fields_sent vt d is)"
    using f field_received[OF ok i v(2,1) f] by (simp add: fields_received_def fields_sent_def map_filter_def)
  have ih: "vt_generate_field vt (fields_received vt ?e (fields_sent vt d is)) j
      = vt_generate_field vt (if j \<in> set is then d else ?e) j"
    using Cons.IH[of ?e] Cons.prems by simp
  show ?case
  proof (cases "j = i")
    case True
    then show ?thesis using r ih Cons.prems(1) generate_parse[OF ok i v(2,1)] v(2) by simp
  next
    case False
    then show ?thesis using r ih parse_other[OF j i False] by simp
  qed
qed

lemma header_transfer:
  assumes ok: "ok d" and "distinct is"
    and l: "list_all (\<lambda>i. i < length (vt_field_table vt) \<and> vt_generate_field vt d i \<noteq> Some []) is"
    and "j < length (vt_field_table vt)"
  shows "vt_generate_field vt (fields_received vt e (fields_sent vt d is)) j
    = vt_generate_field vt (if j \<in> set is then d else e) j"
proof (rule fields_transfer[OF ok assms(2) _ _ assms(4)])
  show "\<forall>i \<in> set is. i < length (vt_field_table vt)" using l by (simp add: list_all_iff)
  show "\<forall>i \<in> set is. \<exists>v. v \<noteq> [] \<and> vt_generate_field vt d i = Some v"
  proof
    fix i assume "i \<in> set is"
    then have i: "i < length (vt_field_table vt)" "vt_generate_field vt d i \<noteq> Some []" using l by (simp_all add: list_all_iff)
    obtain v where v: "vt_generate_field vt d i = Some v" using generates[OF ok i(1)] by (elim exE)
    then have "v \<noteq> []" using i(2) by auto
    then show "\<exists>v. v \<noteq> [] \<and> vt_generate_field vt d i = Some v" using v by (intro exI conjI)
  qed
qed

end

text \<open>
  The values behind the texts. A field is written when its value has a text; \<open>arrives\<close> relates
  the value that was sent to the one the receiver has.
\<close>

locale header_values = header_codec vt ok for vt :: "'d header_vtable" and ok :: "'d \<Rightarrow> bool" +
  fixes val :: "'d \<Rightarrow> nat \<Rightarrow> 'v"
    and written :: "'v \<Rightarrow> bool"
    and arrives :: "'v \<Rightarrow> 'v \<Rightarrow> bool"
  assumes written_text: "ok d \<Longrightarrow> i < length (vt_field_table vt) \<Longrightarrow> written (val d i)
      \<Longrightarrow> vt_generate_field vt d i \<noteq> Some []"
    and parse_value: "ok d \<Longrightarrow> i < length (vt_field_table vt) \<Longrightarrow> vt_generate_field vt d i = Some v \<Longrightarrow> v \<noteq> []
      \<Longrightarrow> written (val d i) \<Longrightarrow> arrives (val d i) (val (snd (vt_parse_field vt e i v)) i)"
    and parse_value_other: "i < length (vt_field_table vt) \<Longrightarrow> j < length (vt_field_table vt) \<Longrightarrow> i \<noteq> j
      \<Longrightarrow> val (snd (vt_parse_field vt e j v)) i = val e i"
begin

lemma values_transfer:
  assumes ok: "ok d" and "distinct is"
    and "list_all (\<lambda>i. i < length (vt_field_table vt) \<and> written (val d i)) is"
    and j: "j < length (vt_field_table vt)"
  shows "if j \<in> set is then arrives (val d j) (val (fields_received vt e (fields_sent vt d is)) j)
    else val (fields_received vt e (fields_sent vt d is)) j = val e j"
  using assms(2,3)
proof (induction "is" arbitrary: e)
  case Nil
  then show ?case by (simp add: fields_received_def fields_sent_def map_filter_def)
next
  case (Cons i "is")
  have i: "i < length (vt_field_table vt)" and w: "written (val d i)" using Cons.prems(2) by simp_all
  obtain v where v: "vt_generate_field vt d i = Some v" using generates[OF ok i] by (elim exE)
  have ne: "v \<noteq> []" using written_text[OF ok i w] v by auto
  obtain f where f: "mrcp_header_field_value_generate (Some (vt, d)) i False = Some f"
    using v by (auto simp: mrcp_header_field_value_generate_def Let_def)
  let ?e = "snd (vt_parse_field vt e i v)"
  have r: "fields_received vt e (fields_sent vt d (i # is)) = fields_received vt ?e (fields_sent vt d is)"
    using f field_received[OF ok i v ne f] by (simp add: fields_received_def fields_sent_def map_filter_def)
  note ih = Cons.IH[of ?e]
  show ?case
  proof (cases "j = i")
    case True
    then show ?thesis using r ih Cons.prems parse_value[OF ok i v ne w] by simp
  next
    case False
    then show ?thesis using r ih Cons.prems parse_value_other[OF j i False] by simp
  qed
qed

end

end
