(* ===== verification/Recog_Header.thy ===== *)
theory Recog_Header
  imports Recog_SM Header_Codec
begin

text \<open>
  \<open>libs/mrcp/resources/src/mrcp_recog_header.c\<close>: the header fields of the recognizer in both
  versions of the protocol. The record extends the part of the header the state machine works
  with. The first version writes three of the fractions as percent values, and has other names
  for some fields and completion causes.
\<close>

abbreviation (input) RECOGNIZER_HEADER_CONFIDENCE_THRESHOLD :: nat where "RECOGNIZER_HEADER_CONFIDENCE_THRESHOLD \<equiv> 0"
abbreviation (input) RECOGNIZER_HEADER_SENSITIVITY_LEVEL :: nat where "RECOGNIZER_HEADER_SENSITIVITY_LEVEL \<equiv> 1"
abbreviation (input) RECOGNIZER_HEADER_SPEED_VS_ACCURACY :: nat where "RECOGNIZER_HEADER_SPEED_VS_ACCURACY \<equiv> 2"
abbreviation (input) RECOGNIZER_HEADER_N_BEST_LIST_LENGTH :: nat where "RECOGNIZER_HEADER_N_BEST_LIST_LENGTH \<equiv> 3"
abbreviation (input) RECOGNIZER_HEADER_NO_INPUT_TIMEOUT :: nat where "RECOGNIZER_HEADER_NO_INPUT_TIMEOUT \<equiv> 4"
abbreviation (input) RECOGNIZER_HEADER_RECOGNITION_TIMEOUT :: nat where "RECOGNIZER_HEADER_RECOGNITION_TIMEOUT \<equiv> 5"
abbreviation (input) RECOGNIZER_HEADER_WAVEFORM_URI :: nat where "RECOGNIZER_HEADER_WAVEFORM_URI \<equiv> 6"
abbreviation (input) RECOGNIZER_HEADER_RECOGNIZER_CONTEXT_BLOCK :: nat where "RECOGNIZER_HEADER_RECOGNIZER_CONTEXT_BLOCK \<equiv> 8"
abbreviation (input) RECOGNIZER_HEADER_START_INPUT_TIMERS :: nat where "RECOGNIZER_HEADER_START_INPUT_TIMERS \<equiv> 9"
abbreviation (input) RECOGNIZER_HEADER_SPEECH_COMPLETE_TIMEOUT :: nat where "RECOGNIZER_HEADER_SPEECH_COMPLETE_TIMEOUT \<equiv> 10"
abbreviation (input) RECOGNIZER_HEADER_SPEECH_INCOMPLETE_TIMEOUT :: nat where "RECOGNIZER_HEADER_SPEECH_INCOMPLETE_TIMEOUT \<equiv> 11"
abbreviation (input) RECOGNIZER_HEADER_DTMF_INTERDIGIT_TIMEOUT :: nat where "RECOGNIZER_HEADER_DTMF_INTERDIGIT_TIMEOUT \<equiv> 12"
abbreviation (input) RECOGNIZER_HEADER_DTMF_TERM_TIMEOUT :: nat where "RECOGNIZER_HEADER_DTMF_TERM_TIMEOUT \<equiv> 13"
abbreviation (input) RECOGNIZER_HEADER_DTMF_TERM_CHAR :: nat where "RECOGNIZER_HEADER_DTMF_TERM_CHAR \<equiv> 14"
abbreviation (input) RECOGNIZER_HEADER_FAILED_URI :: nat where "RECOGNIZER_HEADER_FAILED_URI \<equiv> 15"
abbreviation (input) RECOGNIZER_HEADER_FAILED_URI_CAUSE :: nat where "RECOGNIZER_HEADER_FAILED_URI_CAUSE \<equiv> 16"
abbreviation (input) RECOGNIZER_HEADER_SAVE_WAVEFORM :: nat where "RECOGNIZER_HEADER_SAVE_WAVEFORM \<equiv> 17"
abbreviation (input) RECOGNIZER_HEADER_NEW_AUDIO_CHANNEL :: nat where "RECOGNIZER_HEADER_NEW_AUDIO_CHANNEL \<equiv> 18"
abbreviation (input) RECOGNIZER_HEADER_SPEECH_LANGUAGE :: nat where "RECOGNIZER_HEADER_SPEECH_LANGUAGE \<equiv> 19"
abbreviation (input) RECOGNIZER_HEADER_INPUT_TYPE :: nat where "RECOGNIZER_HEADER_INPUT_TYPE \<equiv> 20"
abbreviation (input) RECOGNIZER_HEADER_INPUT_WAVEFORM_URI :: nat where "RECOGNIZER_HEADER_INPUT_WAVEFORM_URI \<equiv> 21"
abbreviation (input) RECOGNIZER_HEADER_COMPLETION_REASON :: nat where "RECOGNIZER_HEADER_COMPLETION_REASON \<equiv> 22"
abbreviation (input) RECOGNIZER_HEADER_MEDIA_TYPE :: nat where "RECOGNIZER_HEADER_MEDIA_TYPE \<equiv> 23"
abbreviation (input) RECOGNIZER_HEADER_VER_BUFFER_UTTERANCE :: nat where "RECOGNIZER_HEADER_VER_BUFFER_UTTERANCE \<equiv> 24"
abbreviation (input) RECOGNIZER_HEADER_RECOGNITION_MODE :: nat where "RECOGNIZER_HEADER_RECOGNITION_MODE \<equiv> 25"
abbreviation (input) RECOGNIZER_HEADER_CANCEL_IF_QUEUE :: nat where "RECOGNIZER_HEADER_CANCEL_IF_QUEUE \<equiv> 26"
abbreviation (input) RECOGNIZER_HEADER_HOTWORD_MAX_DURATION :: nat where "RECOGNIZER_HEADER_HOTWORD_MAX_DURATION \<equiv> 27"
abbreviation (input) RECOGNIZER_HEADER_HOTWORD_MIN_DURATION :: nat where "RECOGNIZER_HEADER_HOTWORD_MIN_DURATION \<equiv> 28"
abbreviation (input) RECOGNIZER_HEADER_INTERPRET_TEXT :: nat where "RECOGNIZER_HEADER_INTERPRET_TEXT \<equiv> 29"
abbreviation (input) RECOGNIZER_HEADER_DTMF_BUFFER_TIME :: nat where "RECOGNIZER_HEADER_DTMF_BUFFER_TIME \<equiv> 30"
abbreviation (input) RECOGNIZER_HEADER_CLEAR_DTMF_BUFFER :: nat where "RECOGNIZER_HEADER_CLEAR_DTMF_BUFFER \<equiv> 31"
abbreviation (input) RECOGNIZER_HEADER_EARLY_NO_MATCH :: nat where "RECOGNIZER_HEADER_EARLY_NO_MATCH \<equiv> 32"
abbreviation (input) RECOGNIZER_HEADER_NUM_MIN_CONSISTENT_PRONUNCIATIONS :: nat where "RECOGNIZER_HEADER_NUM_MIN_CONSISTENT_PRONUNCIATIONS \<equiv> 33"
abbreviation (input) RECOGNIZER_HEADER_CONSISTENCY_THRESHOLD :: nat where "RECOGNIZER_HEADER_CONSISTENCY_THRESHOLD \<equiv> 34"
abbreviation (input) RECOGNIZER_HEADER_CLASH_THRESHOLD :: nat where "RECOGNIZER_HEADER_CLASH_THRESHOLD \<equiv> 35"
abbreviation (input) RECOGNIZER_HEADER_PERSONAL_GRAMMAR_URI :: nat where "RECOGNIZER_HEADER_PERSONAL_GRAMMAR_URI \<equiv> 36"
abbreviation (input) RECOGNIZER_HEADER_ENROLL_UTTERANCE :: nat where "RECOGNIZER_HEADER_ENROLL_UTTERANCE \<equiv> 37"
abbreviation (input) RECOGNIZER_HEADER_PHRASE_ID :: nat where "RECOGNIZER_HEADER_PHRASE_ID \<equiv> 38"
abbreviation (input) RECOGNIZER_HEADER_PHRASE_NL :: nat where "RECOGNIZER_HEADER_PHRASE_NL \<equiv> 39"
abbreviation (input) RECOGNIZER_HEADER_WEIGHT :: nat where "RECOGNIZER_HEADER_WEIGHT \<equiv> 40"
abbreviation (input) RECOGNIZER_HEADER_SAVE_BEST_WAVEFORM :: nat where "RECOGNIZER_HEADER_SAVE_BEST_WAVEFORM \<equiv> 41"
abbreviation (input) RECOGNIZER_HEADER_NEW_PHRASE_ID :: nat where "RECOGNIZER_HEADER_NEW_PHRASE_ID \<equiv> 42"
abbreviation (input) RECOGNIZER_HEADER_CONFUSABLE_PHRASES_URI :: nat where "RECOGNIZER_HEADER_CONFUSABLE_PHRASES_URI \<equiv> 43"
abbreviation (input) RECOGNIZER_HEADER_ABORT_PHRASE_ENROLLMENT :: nat where "RECOGNIZER_HEADER_ABORT_PHRASE_ENROLLMENT \<equiv> 44"

record mrcp_recog_header = recog_header +
  recog_confidence_threshold :: fp
  recog_sensitivity_level :: fp
  recog_speed_vs_accuracy :: fp
  recog_n_best_list_length :: nat
  recog_no_input_timeout :: nat
  recog_recognition_timeout :: nat
  recog_waveform_uri :: string
  recog_recognizer_context_block :: string
  recog_start_input_timers :: bool
  recog_speech_complete_timeout :: nat
  recog_speech_incomplete_timeout :: nat
  recog_dtmf_interdigit_timeout :: nat
  recog_dtmf_term_timeout :: nat
  recog_dtmf_term_char :: char
  recog_failed_uri :: string
  recog_failed_uri_cause :: string
  recog_save_waveform :: bool
  recog_new_audio_channel :: bool
  recog_speech_language :: string
  recog_input_type :: string
  recog_input_waveform_uri :: string
  recog_completion_reason :: string
  recog_media_type :: string
  recog_ver_buffer_utterance :: bool
  recog_recognition_mode :: string
  recog_cancel_if_queue :: bool
  recog_hotword_max_duration :: nat
  recog_hotword_min_duration :: nat
  recog_interpret_text :: string
  recog_dtmf_buffer_time :: nat
  recog_clear_dtmf_buffer :: bool
  recog_early_no_match :: bool
  recog_num_min_consistent_pronunciations :: nat
  recog_consistency_threshold :: fp
  recog_clash_threshold :: fp
  recog_personal_grammar_uri :: string
  recog_enroll_utterance :: bool
  recog_phrase_id :: string
  recog_phrase_nl :: string
  recog_weight :: fp
  recog_save_best_waveform :: bool
  recog_new_phrase_id :: string
  recog_confusable_phrases_uri :: string
  recog_abort_phrase_enrollment :: bool

definition v1_recog_header_string_table :: str_table where
  "v1_recog_header_string_table =
     [\<lparr>st_value = ''Confidence-Threshold'', st_key = 16\<rparr>,
      \<lparr>st_value = ''Sensitivity-Level'', st_key = 14\<rparr>,
      \<lparr>st_value = ''Speed-Vs-Accuracy'', st_key = 4\<rparr>,
      \<lparr>st_value = ''N-Best-List-Length'', st_key = 1\<rparr>,
      \<lparr>st_value = ''No-Input-Timeout'', st_key = 2\<rparr>,
      \<lparr>st_value = ''Recognition-Timeout'', st_key = 19\<rparr>,
      \<lparr>st_value = ''Waveform-Url'', st_key = 4\<rparr>,
      \<lparr>st_value = ''Completion-Cause'', st_key = 16\<rparr>,
      \<lparr>st_value = ''Recognizer-Context-Block'', st_key = 16\<rparr>,
      \<lparr>st_value = ''Recognizer-Start-Timers'', st_key = 18\<rparr>,
      \<lparr>st_value = ''Speech-Complete-Timeout'', st_key = 7\<rparr>,
      \<lparr>st_value = ''Speech-Incomplete-Timeout'', st_key = 12\<rparr>,
      \<lparr>st_value = ''DTMF-Interdigit-Timeout'', st_key = 10\<rparr>,
      \<lparr>st_value = ''DTMF-Term-Timeout'', st_key = 14\<rparr>,
      \<lparr>st_value = ''DTMF-Term-Char'', st_key = 14\<rparr>,
      \<lparr>st_value = ''Failed-Uri'', st_key = 10\<rparr>,
      \<lparr>st_value = ''Failed-Uri-Cause'', st_key = 16\<rparr>,
      \<lparr>st_value = ''Save-Waveform'', st_key = 5\<rparr>,
      \<lparr>st_value = ''New-Audio-Channel'', st_key = 17\<rparr>,
      \<lparr>st_value = ''Speech-Language'', st_key = 8\<rparr>,
      \<lparr>st_value = ''Input-Type'', st_key = 10\<rparr>,
      \<lparr>st_value = ''Input-Waveform-Uri'', st_key = 6\<rparr>,
      \<lparr>st_value = ''Completion-Reason'', st_key = 17\<rparr>,
      \<lparr>st_value = ''Media-Type'', st_key = 0\<rparr>,
      \<lparr>st_value = ''Ver-Buffer-Utterance'', st_key = 0\<rparr>,
      \<lparr>st_value = ''Recognition-Mode'', st_key = 16\<rparr>,
      \<lparr>st_value = ''Cancel-If-Queue'', st_key = 3\<rparr>,
      \<lparr>st_value = ''Hotword-Max-Duration'', st_key = 10\<rparr>,
      \<lparr>st_value = ''Hotword-Min-Duration'', st_key = 20\<rparr>,
      \<lparr>st_value = ''Interpret-Text'', st_key = 12\<rparr>,
      \<lparr>st_value = ''DTMF-Buffer-Time'', st_key = 16\<rparr>,
      \<lparr>st_value = ''Clear-DTMF-Buffer'', st_key = 11\<rparr>,
      \<lparr>st_value = ''Early-No-Match'', st_key = 4\<rparr>,
      \<lparr>st_value = ''Num-Min-Consistent-Pronunciations'', st_key = 1\<rparr>,
      \<lparr>st_value = ''Consistency-Threshold'', st_key = 16\<rparr>,
      \<lparr>st_value = ''Clash-Threshold'', st_key = 2\<rparr>,
      \<lparr>st_value = ''Personal-Grammar-URI'', st_key = 9\<rparr>,
      \<lparr>st_value = ''Enroll-Utterance'', st_key = 10\<rparr>,
      \<lparr>st_value = ''Phrase-ID'', st_key = 8\<rparr>,
      \<lparr>st_value = ''Phrase-NL'', st_key = 9\<rparr>,
      \<lparr>st_value = ''Weight'', st_key = 3\<rparr>,
      \<lparr>st_value = ''Save-Best-Waveform'', st_key = 10\<rparr>,
      \<lparr>st_value = ''New-Phrase-ID'', st_key = 4\<rparr>,
      \<lparr>st_value = ''Confusable-Phrases-URI'', st_key = 4\<rparr>,
      \<lparr>st_value = ''Abort-Phrase-Enrollment'', st_key = 0\<rparr>]"

definition v2_recog_header_string_table :: str_table where
  "v2_recog_header_string_table =
     [\<lparr>st_value = ''Confidence-Threshold'', st_key = 16\<rparr>,
      \<lparr>st_value = ''Sensitivity-Level'', st_key = 14\<rparr>,
      \<lparr>st_value = ''Speed-Vs-Accuracy'', st_key = 4\<rparr>,
      \<lparr>st_value = ''N-Best-List-Length'', st_key = 1\<rparr>,
      \<lparr>st_value = ''No-Input-Timeout'', st_key = 2\<rparr>,
      \<lparr>st_value = ''Recognition-Timeout'', st_key = 19\<rparr>,
      \<lparr>st_value = ''Waveform-Uri'', st_key = 4\<rparr>,
      \<lparr>st_value = ''Completion-Cause'', st_key = 16\<rparr>,
      \<lparr>st_value = ''Recognizer-Context-Block'', st_key = 7\<rparr>,
      \<lparr>st_value = ''Start-Input-Timers'', st_key = 18\<rparr>,
      \<lparr>st_value = ''Speech-Complete-Timeout'', st_key = 7\<rparr>,
      \<lparr>st_value = ''Speech-Incomplete-Timeout'', st_key = 12\<rparr>,
      \<lparr>st_value = ''DTMF-Interdigit-Timeout'', st_key = 10\<rparr>,
      \<lparr>st_value = ''DTMF-Term-Timeout'', st_key = 14\<rparr>,
      \<lparr>st_value = ''DTMF-Term-Char'', st_key = 14\<rparr>,
      \<lparr>st_value = ''Failed-Uri'', st_key = 10\<rparr>,
      \<lparr>st_value = ''Failed-Uri-Cause'', st_key = 16\<rparr>,
      \<lparr>st_value = ''Save-Waveform'', st_key = 5\<rparr>,
      \<lparr>st_value = ''New-Audio-Channel'', st_key = 17\<rparr>,
      \<lparr>st_value = ''Speech-Language'', st_key = 8\<rparr>,
      \<lparr>st_value = ''Input-Type'', st_key = 10\<rparr>,
      \<lparr>st_value = ''Input-Waveform-Uri'', st_key = 6\<rparr>,
      \<lparr>st_value = ''Completion-Reason'', st_key = 13\<rparr>,
      \<lparr>st_value = ''Media-Type'', st_key = 0\<rparr>,
      \<lparr>st_value = ''Ver-Buffer-Utterance'', st_key = 0\<rparr>,
      \<lparr>st_value = ''Recognition-Mode'', st_key = 16\<rparr>,
      \<lparr>st_value = ''Cancel-If-Queue'', st_key = 3\<rparr>,
      \<lparr>st_value = ''Hotword-Max-Duration'', st_key = 10\<rparr>,
      \<lparr>st_value = ''Hotword-Min-Duration'', st_key = 20\<rparr>,
      \<lparr>st_value = ''Interpret-Text'', st_key = 12\<rparr>,
      \<lparr>st_value = ''DTMF-Buffer-Time'', st_key = 16\<rparr>,
      \<lparr>st_value = ''Clear-DTMF-Buffer'', st_key = 11\<rparr>,
      \<lparr>st_value = ''Early-No-Match'', st_key = 4\<rparr>,
      \<lparr>st_value = ''Num-Min-Consistent-Pronunciations'', st_key = 1\<rparr>,
      \<lparr>st_value = ''Consistency-Threshold'', st_key = 16\<rparr>,
      \<lparr>st_value = ''Clash-Threshold'', st_key = 15\<rparr>,
      \<lparr>st_value = ''Personal-Grammar-URI'', st_key = 9\<rparr>,
      \<lparr>st_value = ''Enroll-Utterance'', st_key = 10\<rparr>,
      \<lparr>st_value = ''Phrase-ID'', st_key = 8\<rparr>,
      \<lparr>st_value = ''Phrase-NL'', st_key = 9\<rparr>,
      \<lparr>st_value = ''Weight'', st_key = 3\<rparr>,
      \<lparr>st_value = ''Save-Best-Waveform'', st_key = 10\<rparr>,
      \<lparr>st_value = ''New-Phrase-ID'', st_key = 4\<rparr>,
      \<lparr>st_value = ''Confusable-Phrases-URI'', st_key = 4\<rparr>,
      \<lparr>st_value = ''Abort-Phrase-Enrollment'', st_key = 0\<rparr>]"

definition v1_recog_completion_cause_string_table :: str_table where
  "v1_recog_completion_cause_string_table =
     [\<lparr>st_value = ''success'', st_key = 1\<rparr>,
      \<lparr>st_value = ''no-match'', st_key = 8\<rparr>,
      \<lparr>st_value = ''no-input-timeout'', st_key = 3\<rparr>,
      \<lparr>st_value = ''recognition-timeout'', st_key = 0\<rparr>,
      \<lparr>st_value = ''gram-load-failure'', st_key = 7\<rparr>,
      \<lparr>st_value = ''gram-comp-failure'', st_key = 5\<rparr>,
      \<lparr>st_value = ''error'', st_key = 0\<rparr>,
      \<lparr>st_value = ''speech-too-early'', st_key = 1\<rparr>,
      \<lparr>st_value = ''too-much-speech-timeout'', st_key = 0\<rparr>,
      \<lparr>st_value = ''uri-failure'', st_key = 0\<rparr>,
      \<lparr>st_value = ''language-unsupported'', st_key = 0\<rparr>,
      \<lparr>st_value = ''cancelled'', st_key = 0\<rparr>,
      \<lparr>st_value = ''semantics-failure'', st_key = 2\<rparr>,
      \<lparr>st_value = ''partial-match'', st_key = 13\<rparr>,
      \<lparr>st_value = ''partial-match-maxtime'', st_key = 13\<rparr>,
      \<lparr>st_value = ''no-match-maxtime'', st_key = 9\<rparr>,
      \<lparr>st_value = ''gram-definition-failure'', st_key = 5\<rparr>]"

definition v2_recog_completion_cause_string_table :: str_table where
  "v2_recog_completion_cause_string_table =
     [\<lparr>st_value = ''success'', st_key = 7\<rparr>,
      \<lparr>st_value = ''no-match'', st_key = 4\<rparr>,
      \<lparr>st_value = ''no-input-timeout'', st_key = 3\<rparr>,
      \<lparr>st_value = ''hotword-maxtime'', st_key = 0\<rparr>,
      \<lparr>st_value = ''grammar-load-failure'', st_key = 8\<rparr>,
      \<lparr>st_value = ''grammar-compilation-failure'', st_key = 8\<rparr>,
      \<lparr>st_value = ''recognizer-error'', st_key = 0\<rparr>,
      \<lparr>st_value = ''speech-too-early'', st_key = 1\<rparr>,
      \<lparr>st_value = ''success-maxtime'', st_key = 15\<rparr>,
      \<lparr>st_value = ''uri-failure'', st_key = 0\<rparr>,
      \<lparr>st_value = ''language-unsupported'', st_key = 0\<rparr>,
      \<lparr>st_value = ''cancelled'', st_key = 0\<rparr>,
      \<lparr>st_value = ''semantics-failure'', st_key = 2\<rparr>,
      \<lparr>st_value = ''partial-match'', st_key = 13\<rparr>,
      \<lparr>st_value = ''partial-match-maxtime'', st_key = 13\<rparr>,
      \<lparr>st_value = ''no-match-maxtime'', st_key = 9\<rparr>,
      \<lparr>st_value = ''grammar-definition-failure'', st_key = 9\<rparr>]"

definition mrcp_recog_header_init :: mrcp_recog_header where
  "mrcp_recog_header_init =
     \<lparr>recog_completion_cause = 17, recog_confidence_threshold = (0, 0),
      recog_sensitivity_level = (0, 0), recog_speed_vs_accuracy = (0, 0),
      recog_n_best_list_length = 0, recog_no_input_timeout = 0, recog_recognition_timeout = 0,
      recog_waveform_uri = [], recog_recognizer_context_block = [],
      recog_start_input_timers = False, recog_speech_complete_timeout = 0,
      recog_speech_incomplete_timeout = 0, recog_dtmf_interdigit_timeout = 0,
      recog_dtmf_term_timeout = 0, recog_dtmf_term_char = nul, recog_failed_uri = [],
      recog_failed_uri_cause = [], recog_save_waveform = False, recog_new_audio_channel = False,
      recog_speech_language = [], recog_input_type = [], recog_input_waveform_uri = [],
      recog_completion_reason = [], recog_media_type = [], recog_ver_buffer_utterance = False,
      recog_recognition_mode = [], recog_cancel_if_queue = False, recog_hotword_max_duration = 0,
      recog_hotword_min_duration = 0, recog_interpret_text = [], recog_dtmf_buffer_time = 0,
      recog_clear_dtmf_buffer = False, recog_early_no_match = False,
      recog_num_min_consistent_pronunciations = 0, recog_consistency_threshold = (0, 0),
      recog_clash_threshold = (0, 0), recog_personal_grammar_uri = [],
      recog_enroll_utterance = False, recog_phrase_id = [], recog_phrase_nl = [],
      recog_weight = (0, 0), recog_save_best_waveform = False, recog_new_phrase_id = [],
      recog_confusable_phrases_uri = [], recog_abort_phrase_enrollment = False\<rparr>"

text \<open>The fields both versions write alike.\<close>

definition mrcp_recog_header_parse :: "mrcp_recog_header \<Rightarrow> nat \<Rightarrow> string \<Rightarrow> bool \<times> mrcp_recog_header" where
  "mrcp_recog_header_parse h i v =
     (if i = RECOGNIZER_HEADER_N_BEST_LIST_LENGTH then (True, h\<lparr>recog_n_best_list_length := apt_size_value_parse v\<rparr>)
      else if i = RECOGNIZER_HEADER_NO_INPUT_TIMEOUT then (True, h\<lparr>recog_no_input_timeout := apt_size_value_parse v\<rparr>)
      else if i = RECOGNIZER_HEADER_RECOGNITION_TIMEOUT then (True, h\<lparr>recog_recognition_timeout := apt_size_value_parse v\<rparr>)
      else if i = RECOGNIZER_HEADER_WAVEFORM_URI then (True, h\<lparr>recog_waveform_uri := v\<rparr>)
      else if i = RECOGNIZER_HEADER_COMPLETION_CAUSE then (True, h\<lparr>recog_completion_cause := enum_of (apt_size_value_parse v)\<rparr>)
      else if i = RECOGNIZER_HEADER_RECOGNIZER_CONTEXT_BLOCK then (True, h\<lparr>recog_recognizer_context_block := v\<rparr>)
      else if i = RECOGNIZER_HEADER_START_INPUT_TIMERS then (True, h\<lparr>recog_start_input_timers := bool_set v (recog_start_input_timers h)\<rparr>)
      else if i = RECOGNIZER_HEADER_SPEECH_COMPLETE_TIMEOUT then (True, h\<lparr>recog_speech_complete_timeout := apt_size_value_parse v\<rparr>)
      else if i = RECOGNIZER_HEADER_SPEECH_INCOMPLETE_TIMEOUT then (True, h\<lparr>recog_speech_incomplete_timeout := apt_size_value_parse v\<rparr>)
      else if i = RECOGNIZER_HEADER_DTMF_INTERDIGIT_TIMEOUT then (True, h\<lparr>recog_dtmf_interdigit_timeout := apt_size_value_parse v\<rparr>)
      else if i = RECOGNIZER_HEADER_DTMF_TERM_TIMEOUT then (True, h\<lparr>recog_dtmf_term_timeout := apt_size_value_parse v\<rparr>)
      else if i = RECOGNIZER_HEADER_DTMF_TERM_CHAR then (True, h\<lparr>recog_dtmf_term_char := (case v of [] \<Rightarrow> nul | c # _ \<Rightarrow> c)\<rparr>)
      else if i = RECOGNIZER_HEADER_FAILED_URI then (True, h\<lparr>recog_failed_uri := v\<rparr>)
      else if i = RECOGNIZER_HEADER_FAILED_URI_CAUSE then (True, h\<lparr>recog_failed_uri_cause := v\<rparr>)
      else if i = RECOGNIZER_HEADER_SAVE_WAVEFORM then (True, h\<lparr>recog_save_waveform := bool_set v (recog_save_waveform h)\<rparr>)
      else if i = RECOGNIZER_HEADER_NEW_AUDIO_CHANNEL then (True, h\<lparr>recog_new_audio_channel := bool_set v (recog_new_audio_channel h)\<rparr>)
      else if i = RECOGNIZER_HEADER_SPEECH_LANGUAGE then (True, h\<lparr>recog_speech_language := v\<rparr>)
      else if i = RECOGNIZER_HEADER_INPUT_TYPE then (True, h\<lparr>recog_input_type := v\<rparr>)
      else if i = RECOGNIZER_HEADER_MEDIA_TYPE then (True, h\<lparr>recog_media_type := v\<rparr>)
      else if i = RECOGNIZER_HEADER_INPUT_WAVEFORM_URI then (True, h\<lparr>recog_input_waveform_uri := v\<rparr>)
      else if i = RECOGNIZER_HEADER_COMPLETION_REASON then (True, h\<lparr>recog_completion_reason := v\<rparr>)
      else if i = RECOGNIZER_HEADER_VER_BUFFER_UTTERANCE then (True, h\<lparr>recog_ver_buffer_utterance := bool_set v (recog_ver_buffer_utterance h)\<rparr>)
      else if i = RECOGNIZER_HEADER_RECOGNITION_MODE then (True, h\<lparr>recog_recognition_mode := v\<rparr>)
      else if i = RECOGNIZER_HEADER_CANCEL_IF_QUEUE then (True, h\<lparr>recog_cancel_if_queue := bool_set v (recog_cancel_if_queue h)\<rparr>)
      else if i = RECOGNIZER_HEADER_HOTWORD_MAX_DURATION then (True, h\<lparr>recog_hotword_max_duration := apt_size_value_parse v\<rparr>)
      else if i = RECOGNIZER_HEADER_HOTWORD_MIN_DURATION then (True, h\<lparr>recog_hotword_min_duration := apt_size_value_parse v\<rparr>)
      else if i = RECOGNIZER_HEADER_INTERPRET_TEXT then (True, h\<lparr>recog_interpret_text := v\<rparr>)
      else if i = RECOGNIZER_HEADER_DTMF_BUFFER_TIME then (True, h\<lparr>recog_dtmf_buffer_time := apt_size_value_parse v\<rparr>)
      else if i = RECOGNIZER_HEADER_CLEAR_DTMF_BUFFER then (True, h\<lparr>recog_clear_dtmf_buffer := bool_set v (recog_clear_dtmf_buffer h)\<rparr>)
      else if i = RECOGNIZER_HEADER_EARLY_NO_MATCH then (True, h\<lparr>recog_early_no_match := bool_set v (recog_early_no_match h)\<rparr>)
      else if i = RECOGNIZER_HEADER_NUM_MIN_CONSISTENT_PRONUNCIATIONS then (True, h\<lparr>recog_num_min_consistent_pronunciations := apt_size_value_parse v\<rparr>)
      else if i = RECOGNIZER_HEADER_CONSISTENCY_THRESHOLD then (True, h\<lparr>recog_consistency_threshold := apt_float_value_parse v\<rparr>)
      else if i = RECOGNIZER_HEADER_CLASH_THRESHOLD then (True, h\<lparr>recog_clash_threshold := apt_float_value_parse v\<rparr>)
      else if i = RECOGNIZER_HEADER_PERSONAL_GRAMMAR_URI then (True, h\<lparr>recog_personal_grammar_uri := v\<rparr>)
      else if i = RECOGNIZER_HEADER_ENROLL_UTTERANCE then (True, h\<lparr>recog_enroll_utterance := bool_set v (recog_enroll_utterance h)\<rparr>)
      else if i = RECOGNIZER_HEADER_PHRASE_ID then (True, h\<lparr>recog_phrase_id := v\<rparr>)
      else if i = RECOGNIZER_HEADER_PHRASE_NL then (True, h\<lparr>recog_phrase_nl := v\<rparr>)
      else if i = RECOGNIZER_HEADER_WEIGHT then (True, h\<lparr>recog_weight := apt_float_value_parse v\<rparr>)
      else if i = RECOGNIZER_HEADER_SAVE_BEST_WAVEFORM then (True, h\<lparr>recog_save_best_waveform := bool_set v (recog_save_best_waveform h)\<rparr>)
      else if i = RECOGNIZER_HEADER_NEW_PHRASE_ID then (True, h\<lparr>recog_new_phrase_id := v\<rparr>)
      else if i = RECOGNIZER_HEADER_CONFUSABLE_PHRASES_URI then (True, h\<lparr>recog_confusable_phrases_uri := v\<rparr>)
      else if i = RECOGNIZER_HEADER_ABORT_PHRASE_ENROLLMENT then (True, h\<lparr>recog_abort_phrase_enrollment := bool_set v (recog_abort_phrase_enrollment h)\<rparr>)
      else (False, h))"

definition mrcp_recog_header_generate :: "mrcp_recog_header \<Rightarrow> nat \<Rightarrow> string" where
  "mrcp_recog_header_generate h i =
     (if i = RECOGNIZER_HEADER_N_BEST_LIST_LENGTH then apt_size_value_generate (recog_n_best_list_length h)
      else if i = RECOGNIZER_HEADER_NO_INPUT_TIMEOUT then apt_size_value_generate (recog_no_input_timeout h)
      else if i = RECOGNIZER_HEADER_RECOGNITION_TIMEOUT then apt_size_value_generate (recog_recognition_timeout h)
      else if i = RECOGNIZER_HEADER_WAVEFORM_URI then recog_waveform_uri h
      else if i = RECOGNIZER_HEADER_RECOGNIZER_CONTEXT_BLOCK then recog_recognizer_context_block h
      else if i = RECOGNIZER_HEADER_START_INPUT_TIMERS then apt_boolean_value_generate (recog_start_input_timers h)
      else if i = RECOGNIZER_HEADER_SPEECH_COMPLETE_TIMEOUT then apt_size_value_generate (recog_speech_complete_timeout h)
      else if i = RECOGNIZER_HEADER_SPEECH_INCOMPLETE_TIMEOUT then apt_size_value_generate (recog_speech_incomplete_timeout h)
      else if i = RECOGNIZER_HEADER_DTMF_INTERDIGIT_TIMEOUT then apt_size_value_generate (recog_dtmf_interdigit_timeout h)
      else if i = RECOGNIZER_HEADER_DTMF_TERM_TIMEOUT then apt_size_value_generate (recog_dtmf_term_timeout h)
      else if i = RECOGNIZER_HEADER_DTMF_TERM_CHAR then [recog_dtmf_term_char h]
      else if i = RECOGNIZER_HEADER_FAILED_URI then recog_failed_uri h
      else if i = RECOGNIZER_HEADER_FAILED_URI_CAUSE then recog_failed_uri_cause h
      else if i = RECOGNIZER_HEADER_SAVE_WAVEFORM then apt_boolean_value_generate (recog_save_waveform h)
      else if i = RECOGNIZER_HEADER_NEW_AUDIO_CHANNEL then apt_boolean_value_generate (recog_new_audio_channel h)
      else if i = RECOGNIZER_HEADER_SPEECH_LANGUAGE then recog_speech_language h
      else if i = RECOGNIZER_HEADER_INPUT_TYPE then recog_input_type h
      else if i = RECOGNIZER_HEADER_INPUT_WAVEFORM_URI then recog_input_waveform_uri h
      else if i = RECOGNIZER_HEADER_COMPLETION_REASON then recog_completion_reason h
      else if i = RECOGNIZER_HEADER_MEDIA_TYPE then recog_media_type h
      else if i = RECOGNIZER_HEADER_VER_BUFFER_UTTERANCE then apt_boolean_value_generate (recog_ver_buffer_utterance h)
      else if i = RECOGNIZER_HEADER_RECOGNITION_MODE then recog_recognition_mode h
      else if i = RECOGNIZER_HEADER_CANCEL_IF_QUEUE then apt_boolean_value_generate (recog_cancel_if_queue h)
      else if i = RECOGNIZER_HEADER_HOTWORD_MAX_DURATION then apt_size_value_generate (recog_hotword_max_duration h)
      else if i = RECOGNIZER_HEADER_HOTWORD_MIN_DURATION then apt_size_value_generate (recog_hotword_min_duration h)
      else if i = RECOGNIZER_HEADER_INTERPRET_TEXT then recog_interpret_text h
      else if i = RECOGNIZER_HEADER_DTMF_BUFFER_TIME then apt_size_value_generate (recog_dtmf_buffer_time h)
      else if i = RECOGNIZER_HEADER_CLEAR_DTMF_BUFFER then apt_boolean_value_generate (recog_clear_dtmf_buffer h)
      else if i = RECOGNIZER_HEADER_EARLY_NO_MATCH then apt_boolean_value_generate (recog_early_no_match h)
      else if i = RECOGNIZER_HEADER_NUM_MIN_CONSISTENT_PRONUNCIATIONS then apt_size_value_generate (recog_num_min_consistent_pronunciations h)
      else if i = RECOGNIZER_HEADER_CONSISTENCY_THRESHOLD then apt_float_value_generate (recog_consistency_threshold h)
      else if i = RECOGNIZER_HEADER_CLASH_THRESHOLD then apt_float_value_generate (recog_clash_threshold h)
      else if i = RECOGNIZER_HEADER_PERSONAL_GRAMMAR_URI then recog_personal_grammar_uri h
      else if i = RECOGNIZER_HEADER_ENROLL_UTTERANCE then apt_boolean_value_generate (recog_enroll_utterance h)
      else if i = RECOGNIZER_HEADER_PHRASE_ID then recog_phrase_id h
      else if i = RECOGNIZER_HEADER_PHRASE_NL then recog_phrase_nl h
      else if i = RECOGNIZER_HEADER_WEIGHT then apt_float_value_generate (recog_weight h)
      else if i = RECOGNIZER_HEADER_SAVE_BEST_WAVEFORM then apt_boolean_value_generate (recog_save_best_waveform h)
      else if i = RECOGNIZER_HEADER_NEW_PHRASE_ID then recog_new_phrase_id h
      else if i = RECOGNIZER_HEADER_CONFUSABLE_PHRASES_URI then recog_confusable_phrases_uri h
      else if i = RECOGNIZER_HEADER_ABORT_PHRASE_ENROLLMENT then apt_boolean_value_generate (recog_abort_phrase_enrollment h)
      else [])"

definition mrcp_recog_header_duplicate ::
  "mrcp_recog_header \<Rightarrow> mrcp_recog_header option \<Rightarrow> nat \<Rightarrow> string \<Rightarrow> bool \<times> mrcp_recog_header" where
  "mrcp_recog_header_duplicate h src0 i v =
     (case src0 of None \<Rightarrow> (False, h) | Some src \<Rightarrow>
      if i = RECOGNIZER_HEADER_CONFIDENCE_THRESHOLD then (True, h\<lparr>recog_confidence_threshold := recog_confidence_threshold src\<rparr>)
      else if i = RECOGNIZER_HEADER_SENSITIVITY_LEVEL then (True, h\<lparr>recog_sensitivity_level := recog_sensitivity_level src\<rparr>)
      else if i = RECOGNIZER_HEADER_SPEED_VS_ACCURACY then (True, h\<lparr>recog_speed_vs_accuracy := recog_speed_vs_accuracy src\<rparr>)
      else if i = RECOGNIZER_HEADER_N_BEST_LIST_LENGTH then (True, h\<lparr>recog_n_best_list_length := recog_n_best_list_length src\<rparr>)
      else if i = RECOGNIZER_HEADER_NO_INPUT_TIMEOUT then (True, h\<lparr>recog_no_input_timeout := recog_no_input_timeout src\<rparr>)
      else if i = RECOGNIZER_HEADER_RECOGNITION_TIMEOUT then (True, h\<lparr>recog_recognition_timeout := recog_recognition_timeout src\<rparr>)
      else if i = RECOGNIZER_HEADER_WAVEFORM_URI then (True, h\<lparr>recog_waveform_uri := v\<rparr>)
      else if i = RECOGNIZER_HEADER_COMPLETION_CAUSE then (True, h\<lparr>recog_completion_cause := recog_completion_cause src\<rparr>)
      else if i = RECOGNIZER_HEADER_RECOGNIZER_CONTEXT_BLOCK then (True, h\<lparr>recog_recognizer_context_block := v\<rparr>)
      else if i = RECOGNIZER_HEADER_START_INPUT_TIMERS then (True, h\<lparr>recog_start_input_timers := recog_start_input_timers src\<rparr>)
      else if i = RECOGNIZER_HEADER_SPEECH_COMPLETE_TIMEOUT then (True, h\<lparr>recog_speech_complete_timeout := recog_speech_complete_timeout src\<rparr>)
      else if i = RECOGNIZER_HEADER_SPEECH_INCOMPLETE_TIMEOUT then (True, h\<lparr>recog_speech_incomplete_timeout := recog_speech_incomplete_timeout src\<rparr>)
      else if i = RECOGNIZER_HEADER_DTMF_INTERDIGIT_TIMEOUT then (True, h\<lparr>recog_dtmf_interdigit_timeout := recog_dtmf_interdigit_timeout src\<rparr>)
      else if i = RECOGNIZER_HEADER_DTMF_TERM_TIMEOUT then (True, h\<lparr>recog_dtmf_term_timeout := recog_dtmf_term_timeout src\<rparr>)
      else if i = RECOGNIZER_HEADER_DTMF_TERM_CHAR then (True, h\<lparr>recog_dtmf_term_char := recog_dtmf_term_char src\<rparr>)
      else if i = RECOGNIZER_HEADER_FAILED_URI then (True, h\<lparr>recog_failed_uri := v\<rparr>)
      else if i = RECOGNIZER_HEADER_FAILED_URI_CAUSE then (True, h\<lparr>recog_failed_uri_cause := v\<rparr>)
      else if i = RECOGNIZER_HEADER_SAVE_WAVEFORM then (True, h\<lparr>recog_save_waveform := recog_save_waveform src\<rparr>)
      else if i = RECOGNIZER_HEADER_NEW_AUDIO_CHANNEL then (True, h\<lparr>recog_new_audio_channel := recog_new_audio_channel src\<rparr>)
      else if i = RECOGNIZER_HEADER_SPEECH_LANGUAGE then (True, h\<lparr>recog_speech_language := v\<rparr>)
      else if i = RECOGNIZER_HEADER_INPUT_TYPE then (True, h\<lparr>recog_input_type := v\<rparr>)
      else if i = RECOGNIZER_HEADER_INPUT_WAVEFORM_URI then (True, h\<lparr>recog_input_waveform_uri := v\<rparr>)
      else if i = RECOGNIZER_HEADER_COMPLETION_REASON then (True, h\<lparr>recog_completion_reason := v\<rparr>)
      else if i = RECOGNIZER_HEADER_MEDIA_TYPE then (True, h\<lparr>recog_media_type := v\<rparr>)
      else if i = RECOGNIZER_HEADER_VER_BUFFER_UTTERANCE then (True, h\<lparr>recog_ver_buffer_utterance := recog_ver_buffer_utterance src\<rparr>)
      else if i = RECOGNIZER_HEADER_RECOGNITION_MODE then (True, h\<lparr>recog_recognition_mode := v\<rparr>)
      else if i = RECOGNIZER_HEADER_CANCEL_IF_QUEUE then (True, h\<lparr>recog_cancel_if_queue := recog_cancel_if_queue src\<rparr>)
      else if i = RECOGNIZER_HEADER_HOTWORD_MAX_DURATION then (True, h\<lparr>recog_hotword_max_duration := recog_hotword_max_duration src\<rparr>)
      else if i = RECOGNIZER_HEADER_HOTWORD_MIN_DURATION then (True, h\<lparr>recog_hotword_min_duration := recog_hotword_min_duration src\<rparr>)
      else if i = RECOGNIZER_HEADER_INTERPRET_TEXT then (True, h\<lparr>recog_interpret_text := v\<rparr>)
      else if i = RECOGNIZER_HEADER_DTMF_BUFFER_TIME then (True, h\<lparr>recog_dtmf_buffer_time := recog_dtmf_buffer_time src\<rparr>)
      else if i = RECOGNIZER_HEADER_CLEAR_DTMF_BUFFER then (True, h\<lparr>recog_clear_dtmf_buffer := recog_clear_dtmf_buffer src\<rparr>)
      else if i = RECOGNIZER_HEADER_EARLY_NO_MATCH then (True, h\<lparr>recog_early_no_match := recog_early_no_match src\<rparr>)
      else if i = RECOGNIZER_HEADER_NUM_MIN_CONSISTENT_PRONUNCIATIONS then (True, h\<lparr>recog_num_min_consistent_pronunciations := recog_num_min_consistent_pronunciations src\<rparr>)
      else if i = RECOGNIZER_HEADER_CONSISTENCY_THRESHOLD then (True, h\<lparr>recog_consistency_threshold := recog_consistency_threshold src\<rparr>)
      else if i = RECOGNIZER_HEADER_CLASH_THRESHOLD then (True, h\<lparr>recog_clash_threshold := recog_clash_threshold src\<rparr>)
      else if i = RECOGNIZER_HEADER_PERSONAL_GRAMMAR_URI then (True, h\<lparr>recog_personal_grammar_uri := v\<rparr>)
      else if i = RECOGNIZER_HEADER_ENROLL_UTTERANCE then (True, h\<lparr>recog_enroll_utterance := recog_enroll_utterance src\<rparr>)
      else if i = RECOGNIZER_HEADER_PHRASE_ID then (True, h\<lparr>recog_phrase_id := v\<rparr>)
      else if i = RECOGNIZER_HEADER_PHRASE_NL then (True, h\<lparr>recog_phrase_nl := v\<rparr>)
      else if i = RECOGNIZER_HEADER_WEIGHT then (True, h\<lparr>recog_weight := recog_weight src\<rparr>)
      else if i = RECOGNIZER_HEADER_SAVE_BEST_WAVEFORM then (True, h\<lparr>recog_save_best_waveform := recog_save_best_waveform src\<rparr>)
      else if i = RECOGNIZER_HEADER_NEW_PHRASE_ID then (True, h\<lparr>recog_new_phrase_id := v\<rparr>)
      else if i = RECOGNIZER_HEADER_CONFUSABLE_PHRASES_URI then (True, h\<lparr>recog_confusable_phrases_uri := v\<rparr>)
      else if i = RECOGNIZER_HEADER_ABORT_PHRASE_ENROLLMENT then (True, h\<lparr>recog_abort_phrase_enrollment := recog_abort_phrase_enrollment src\<rparr>)
      else (False, h))"

definition mrcp_v1_recog_header_parse :: "mrcp_recog_header \<Rightarrow> nat \<Rightarrow> string \<Rightarrow> bool \<times> mrcp_recog_header" where
  "mrcp_v1_recog_header_parse h i v =
     (if i = RECOGNIZER_HEADER_CONFIDENCE_THRESHOLD then (True, h\<lparr>recog_confidence_threshold := apt_size_value_parse_as_float v\<rparr>)
      else if i = RECOGNIZER_HEADER_SENSITIVITY_LEVEL then (True, h\<lparr>recog_sensitivity_level := apt_size_value_parse_as_float v\<rparr>)
      else if i = RECOGNIZER_HEADER_SPEED_VS_ACCURACY then (True, h\<lparr>recog_speed_vs_accuracy := apt_size_value_parse_as_float v\<rparr>)
      else mrcp_recog_header_parse h i v)"

definition mrcp_v1_recog_header_generate :: "mrcp_recog_header \<Rightarrow> nat \<Rightarrow> string option" where
  "mrcp_v1_recog_header_generate h i =
     (if i = RECOGNIZER_HEADER_CONFIDENCE_THRESHOLD then Some (apt_size_value_generate_from_float (recog_confidence_threshold h))
      else if i = RECOGNIZER_HEADER_SENSITIVITY_LEVEL then Some (apt_size_value_generate_from_float (recog_sensitivity_level h))
      else if i = RECOGNIZER_HEADER_SPEED_VS_ACCURACY then Some (apt_size_value_generate_from_float (recog_speed_vs_accuracy h))
      else if i = RECOGNIZER_HEADER_COMPLETION_CAUSE then apt_completion_cause_generate v1_recog_completion_cause_string_table (recog_completion_cause h)
      else Some (mrcp_recog_header_generate h i))"

definition mrcp_v2_recog_header_parse :: "mrcp_recog_header \<Rightarrow> nat \<Rightarrow> string \<Rightarrow> bool \<times> mrcp_recog_header" where
  "mrcp_v2_recog_header_parse h i v =
     (if i = RECOGNIZER_HEADER_CONFIDENCE_THRESHOLD then (True, h\<lparr>recog_confidence_threshold := apt_float_value_parse v\<rparr>)
      else if i = RECOGNIZER_HEADER_SENSITIVITY_LEVEL then (True, h\<lparr>recog_sensitivity_level := apt_float_value_parse v\<rparr>)
      else if i = RECOGNIZER_HEADER_SPEED_VS_ACCURACY then (True, h\<lparr>recog_speed_vs_accuracy := apt_float_value_parse v\<rparr>)
      else mrcp_recog_header_parse h i v)"

definition mrcp_v2_recog_header_generate :: "mrcp_recog_header \<Rightarrow> nat \<Rightarrow> string option" where
  "mrcp_v2_recog_header_generate h i =
     (if i = RECOGNIZER_HEADER_CONFIDENCE_THRESHOLD then Some (apt_float_value_generate (recog_confidence_threshold h))
      else if i = RECOGNIZER_HEADER_SENSITIVITY_LEVEL then Some (apt_float_value_generate (recog_sensitivity_level h))
      else if i = RECOGNIZER_HEADER_SPEED_VS_ACCURACY then Some (apt_float_value_generate (recog_speed_vs_accuracy h))
      else if i = RECOGNIZER_HEADER_COMPLETION_CAUSE then apt_completion_cause_generate v2_recog_completion_cause_string_table (recog_completion_cause h)
      else Some (mrcp_recog_header_generate h i))"

definition v1_recog_header_vtable :: "mrcp_recog_header header_vtable" where
  "v1_recog_header_vtable =
     \<lparr>vt_allocate = mrcp_recog_header_init, vt_parse_field = mrcp_v1_recog_header_parse,
      vt_generate_field = mrcp_v1_recog_header_generate, vt_duplicate_field = mrcp_recog_header_duplicate,
      vt_field_table = v1_recog_header_string_table\<rparr>"

definition v2_recog_header_vtable :: "mrcp_recog_header header_vtable" where
  "v2_recog_header_vtable =
     \<lparr>vt_allocate = mrcp_recog_header_init, vt_parse_field = mrcp_v2_recog_header_parse,
      vt_generate_field = mrcp_v2_recog_header_generate, vt_duplicate_field = mrcp_recog_header_duplicate,
      vt_field_table = v2_recog_header_string_table\<rparr>"

definition mrcp_recog_header_vtable_get :: "mrcp_version \<Rightarrow> mrcp_recog_header header_vtable" where
  "mrcp_recog_header_vtable_get version =
     (if version = MRCP_VERSION_1 then v1_recog_header_vtable else v2_recog_header_vtable)"

definition mrcp_recog_completion_cause_get :: "nat \<Rightarrow> mrcp_version \<Rightarrow> string option" where
  "mrcp_recog_completion_cause_get cause version =
     apt_string_table_str_get (if version = MRCP_VERSION_1 then v1_recog_completion_cause_string_table
       else v2_recog_completion_cause_string_table) cause"

section \<open>The laws of the header\<close>

text \<open>Numbers in the range of \<open>long\<close>, fractions in the range in which their text is exact.\<close>

definition recog_common_ok :: "mrcp_recog_header \<Rightarrow> bool" where
  "recog_common_ok h \<longleftrightarrow>
     recog_n_best_list_length h < 2 ^ 63
     \<and> recog_no_input_timeout h < 2 ^ 63
     \<and> recog_recognition_timeout h < 2 ^ 63
     \<and> recog_speech_complete_timeout h < 2 ^ 63
     \<and> recog_speech_incomplete_timeout h < 2 ^ 63
     \<and> recog_dtmf_interdigit_timeout h < 2 ^ 63
     \<and> recog_dtmf_term_timeout h < 2 ^ 63
     \<and> recog_hotword_max_duration h < 2 ^ 63
     \<and> recog_hotword_min_duration h < 2 ^ 63
     \<and> recog_dtmf_buffer_time h < 2 ^ 63
     \<and> recog_num_min_consistent_pronunciations h < 2 ^ 63
     \<and> float_ok (recog_consistency_threshold h)
     \<and> float_ok (recog_clash_threshold h)
     \<and> float_ok (recog_weight h)"

text \<open>Per version: the percent value is at most 100000, or the fraction as above.\<close>

definition percent_ok :: "fp \<Rightarrow> bool" where
  "percent_ok x \<longleftrightarrow> float_to_size (float_mult (float_add x (to_float 1 1000)) 100) \<le> 100000"

definition recog_header_ok :: "mrcp_version \<Rightarrow> mrcp_recog_header \<Rightarrow> bool" where
  "recog_header_ok version h \<longleftrightarrow> recog_common_ok h \<and> recog_completion_cause h < 17
     \<and> list_all (if version = MRCP_VERSION_1 then percent_ok else float_ok)
         [recog_confidence_threshold h, recog_sensitivity_level h, recog_speed_vs_accuracy h]"

lemma percent_ok_text: "percent_ok x \<Longrightarrow>
    apt_size_value_generate_from_float (apt_size_value_parse_as_float (apt_size_value_generate_from_float x))
      = apt_size_value_generate_from_float x"
  using percent_roundtrip by (simp add: percent_ok_def apt_size_value_generate_from_float_def)

lemma recog_table_lengths [simp]:
  "length v1_recog_header_string_table = 45" "length v2_recog_header_string_table = 45"
  by (simp_all add: v1_recog_header_string_table_def v2_recog_header_string_table_def)

lemma recog_cause_table_lengths:
  "length v1_recog_completion_cause_string_table = 17" "length v2_recog_completion_cause_string_table = 17"
  by (simp_all add: v1_recog_completion_cause_string_table_def v2_recog_completion_cause_string_table_def)

lemma recog_v1_table_wf: "table_wf v1_recog_header_string_table"
  by (simp add: table_wf_def v1_recog_header_string_table_def nul_def tolower_def)

lemma recog_v2_table_wf: "table_wf v2_recog_header_string_table"
  by (simp add: table_wf_def v2_recog_header_string_table_def nul_def tolower_def)

lemma recog_ids: "(i :: nat) < 45 \<Longrightarrow> i \<in> {0, 1, 2} \<or> i = 7 \<or> i \<in> {3, 4, 5, 6, 8, 9, 10, 11, 12, 13, 14, 15, 16, 17, 18, 19, 20, 21, 22, 23, 24, 25, 26, 27, 28, 29, 30, 31, 32, 33, 34, 35, 36, 37, 38, 39, 40, 41, 42, 43, 44}"
  by simp arith

lemma recog_parse_cause:
  "mrcp_recog_header_parse h 7 v = (True, h\<lparr>recog_completion_cause := enum_of (apt_size_value_parse v)\<rparr>)"
  by (simp add: mrcp_recog_header_parse_def)

lemma recog_common_known:
  "i \<in> {3, 4, 5, 6, 8, 9, 10, 11, 12, 13, 14, 15, 16, 17, 18, 19, 20, 21, 22, 23, 24, 25, 26, 27, 28, 29, 30, 31, 32, 33, 34, 35, 36, 37, 38, 39, 40, 41, 42, 43, 44} \<Longrightarrow> fst (mrcp_recog_header_parse h i v) \<and> fst (mrcp_recog_header_duplicate h (Some e) i v)"
  by (elim insertE emptyE) (simp_all add: mrcp_recog_header_parse_def mrcp_recog_header_duplicate_def)

lemma recog_common_roundtrip:
  assumes "recog_common_ok d" "i \<in> {3, 4, 5, 6, 8, 9, 10, 11, 12, 13, 14, 15, 16, 17, 18, 19, 20, 21, 22, 23, 24, 25, 26, 27, 28, 29, 30, 31, 32, 33, 34, 35, 36, 37, 38, 39, 40, 41, 42, 43, 44}"
  shows "mrcp_recog_header_generate (snd (mrcp_recog_header_parse e i (mrcp_recog_header_generate d i))) i
    = mrcp_recog_header_generate d i"
  using assms(2,1)
  by (elim insertE emptyE)
    (simp_all add: mrcp_recog_header_parse_def mrcp_recog_header_generate_def recog_common_ok_def size_roundtrip
      float_ok_text)

lemma recog_common_duplicate:
  assumes "i \<in> {3, 4, 5, 6, 8, 9, 10, 11, 12, 13, 14, 15, 16, 17, 18, 19, 20, 21, 22, 23, 24, 25, 26, 27, 28, 29, 30, 31, 32, 33, 34, 35, 36, 37, 38, 39, 40, 41, 42, 43, 44}"
  shows "mrcp_recog_header_generate (snd (mrcp_recog_header_duplicate e (Some d) i (mrcp_recog_header_generate d i))) i
    = mrcp_recog_header_generate d i"
  using assms
  by (elim insertE emptyE) (simp_all add: mrcp_recog_header_duplicate_def mrcp_recog_header_generate_def)

lemma recog_common_other:
  assumes "j \<in> {3, 4, 5, 6, 8, 9, 10, 11, 12, 13, 14, 15, 16, 17, 18, 19, 20, 21, 22, 23, 24, 25, 26, 27, 28, 29, 30, 31, 32, 33, 34, 35, 36, 37, 38, 39, 40, 41, 42, 43, 44}"
  shows "(i \<noteq> j \<longrightarrow> mrcp_recog_header_generate (snd (mrcp_recog_header_parse e j v)) i = mrcp_recog_header_generate e i)
    \<and> recog_confidence_threshold (snd (mrcp_recog_header_parse e j v)) = recog_confidence_threshold e
    \<and> recog_sensitivity_level (snd (mrcp_recog_header_parse e j v)) = recog_sensitivity_level e
    \<and> recog_speed_vs_accuracy (snd (mrcp_recog_header_parse e j v)) = recog_speed_vs_accuracy e
    \<and> recog_completion_cause (snd (mrcp_recog_header_parse e j v)) = recog_completion_cause e"
  using assms
  by (elim insertE emptyE) (simp_all add: mrcp_recog_header_parse_def mrcp_recog_header_generate_def)

lemma recog_fraction_update [simp]:
  "mrcp_recog_header_generate (h\<lparr>recog_confidence_threshold := x\<rparr>) i = mrcp_recog_header_generate h i"
  "mrcp_recog_header_generate (h\<lparr>recog_sensitivity_level := x\<rparr>) i = mrcp_recog_header_generate h i"
  "mrcp_recog_header_generate (h\<lparr>recog_speed_vs_accuracy := x\<rparr>) i = mrcp_recog_header_generate h i"
  "mrcp_recog_header_generate (h\<lparr>recog_completion_cause := c\<rparr>) i = mrcp_recog_header_generate h i"
  by (simp_all add: mrcp_recog_header_generate_def)


lemma recog_v1_known:
  assumes "i < 45"
  shows "fst (mrcp_v1_recog_header_parse h i v) \<and> fst (mrcp_recog_header_duplicate h (Some e) i v)"
  using recog_ids[OF assms] recog_common_known[of i h v e]
  by (elim disjE insertE emptyE)
    (simp_all add: mrcp_v1_recog_header_parse_def mrcp_recog_header_duplicate_def recog_parse_cause)

lemma recog_v1_generate_parse:
  assumes ok: "recog_header_ok MRCP_VERSION_1 d" and i: "i < 45" and v: "mrcp_v1_recog_header_generate d i = Some v"
  shows "mrcp_v1_recog_header_generate (snd (mrcp_v1_recog_header_parse e i v)) i = Some v"
proof -
  consider (fraction) "i \<in> {0, 1, 2}" | (cause) "i = 7" | (common) "i \<in> {3, 4, 5, 6, 8, 9, 10, 11, 12, 13, 14, 15, 16, 17, 18, 19, 20, 21, 22, 23, 24, 25, 26, 27, 28, 29, 30, 31, 32, 33, 34, 35, 36, 37, 38, 39, 40, 41, 42, 43, 44}"
    using recog_ids[OF i] by blast
  then show ?thesis
  proof cases
    case fraction
    then show ?thesis using ok v
      by (auto simp: mrcp_v1_recog_header_parse_def mrcp_v1_recog_header_generate_def recog_header_ok_def
          percent_ok_text float_ok_text)
  next
    case cause
    then show ?thesis using v completion_cause_read[of v1_recog_completion_cause_string_table _ v]
      by (auto simp: mrcp_v1_recog_header_parse_def mrcp_v1_recog_header_generate_def recog_parse_cause
          recog_cause_table_lengths)
  next
    case common
    then have "i \<notin> {0, 1, 2, 7}" by auto
    then show ?thesis using v ok recog_common_roundtrip[OF _ common, of d e]
      by (auto simp: mrcp_v1_recog_header_parse_def mrcp_v1_recog_header_generate_def recog_header_ok_def)
  qed
qed

lemma recog_v1_generate_duplicate:
  assumes i: "i < 45" and v: "mrcp_v1_recog_header_generate d i = Some v"
  shows "mrcp_v1_recog_header_generate (snd (mrcp_recog_header_duplicate e (Some d) i v)) i = Some v"
proof -
  consider (first) "i \<in> {0, 1, 2, 7}" | (common) "i \<in> {3, 4, 5, 6, 8, 9, 10, 11, 12, 13, 14, 15, 16, 17, 18, 19, 20, 21, 22, 23, 24, 25, 26, 27, 28, 29, 30, 31, 32, 33, 34, 35, 36, 37, 38, 39, 40, 41, 42, 43, 44}"
    using recog_ids[OF i] by blast
  then show ?thesis
  proof cases
    case first
    then show ?thesis using v
      by (auto simp: mrcp_recog_header_duplicate_def mrcp_v1_recog_header_generate_def)
  next
    case common
    then have "i \<notin> {0, 1, 2, 7}" by auto
    then show ?thesis using v recog_common_duplicate[OF common, of e d]
      by (auto simp: mrcp_v1_recog_header_generate_def)
  qed
qed

lemma recog_v1_parse_other:
  assumes j: "j < 45" and i: "i \<noteq> j"
  shows "mrcp_v1_recog_header_generate (snd (mrcp_v1_recog_header_parse e j v)) i
    = mrcp_v1_recog_header_generate e i"
proof -
  consider (first) "j \<in> {0, 1, 2, 7}" | (common) "j \<in> {3, 4, 5, 6, 8, 9, 10, 11, 12, 13, 14, 15, 16, 17, 18, 19, 20, 21, 22, 23, 24, 25, 26, 27, 28, 29, 30, 31, 32, 33, 34, 35, 36, 37, 38, 39, 40, 41, 42, 43, 44}"
    using recog_ids[OF j] by blast
  then show ?thesis
  proof cases
    case first
    then show ?thesis using i
      by (auto simp: mrcp_v1_recog_header_parse_def mrcp_v1_recog_header_generate_def recog_parse_cause)
  next
    case common
    then have "j \<notin> {0, 1, 2}" by auto
    then show ?thesis using i recog_common_other[OF common, of i e v]
      by (simp add: mrcp_v1_recog_header_parse_def mrcp_v1_recog_header_generate_def)
  qed
qed

lemma recog_v1_generates:
  assumes "recog_header_ok MRCP_VERSION_1 h"
  shows "\<exists>v. mrcp_v1_recog_header_generate h i = Some v"
  using assms completion_cause_text[of v1_recog_completion_cause_string_table "recog_completion_cause h"]
  by (auto simp: mrcp_v1_recog_header_generate_def recog_header_ok_def recog_cause_table_lengths)

interpretation recog_v1: header_codec v1_recog_header_vtable "recog_header_ok MRCP_VERSION_1"
  by unfold_locales
    (simp_all add: v1_recog_header_vtable_def recog_v1_table_wf recog_v1_known
      recog_v1_generates recog_v1_generate_parse recog_v1_generate_duplicate recog_v1_parse_other)

lemma recog_v2_known:
  assumes "i < 45"
  shows "fst (mrcp_v2_recog_header_parse h i v) \<and> fst (mrcp_recog_header_duplicate h (Some e) i v)"
  using recog_ids[OF assms] recog_common_known[of i h v e]
  by (elim disjE insertE emptyE)
    (simp_all add: mrcp_v2_recog_header_parse_def mrcp_recog_header_duplicate_def recog_parse_cause)

lemma recog_v2_generate_parse:
  assumes ok: "recog_header_ok MRCP_VERSION_2 d" and i: "i < 45" and v: "mrcp_v2_recog_header_generate d i = Some v"
  shows "mrcp_v2_recog_header_generate (snd (mrcp_v2_recog_header_parse e i v)) i = Some v"
proof -
  consider (fraction) "i \<in> {0, 1, 2}" | (cause) "i = 7" | (common) "i \<in> {3, 4, 5, 6, 8, 9, 10, 11, 12, 13, 14, 15, 16, 17, 18, 19, 20, 21, 22, 23, 24, 25, 26, 27, 28, 29, 30, 31, 32, 33, 34, 35, 36, 37, 38, 39, 40, 41, 42, 43, 44}"
    using recog_ids[OF i] by blast
  then show ?thesis
  proof cases
    case fraction
    then show ?thesis using ok v
      by (auto simp: mrcp_v2_recog_header_parse_def mrcp_v2_recog_header_generate_def recog_header_ok_def
          percent_ok_text float_ok_text)
  next
    case cause
    then show ?thesis using v completion_cause_read[of v2_recog_completion_cause_string_table _ v]
      by (auto simp: mrcp_v2_recog_header_parse_def mrcp_v2_recog_header_generate_def recog_parse_cause
          recog_cause_table_lengths)
  next
    case common
    then have "i \<notin> {0, 1, 2, 7}" by auto
    then show ?thesis using v ok recog_common_roundtrip[OF _ common, of d e]
      by (auto simp: mrcp_v2_recog_header_parse_def mrcp_v2_recog_header_generate_def recog_header_ok_def)
  qed
qed

lemma recog_v2_generate_duplicate:
  assumes i: "i < 45" and v: "mrcp_v2_recog_header_generate d i = Some v"
  shows "mrcp_v2_recog_header_generate (snd (mrcp_recog_header_duplicate e (Some d) i v)) i = Some v"
proof -
  consider (first) "i \<in> {0, 1, 2, 7}" | (common) "i \<in> {3, 4, 5, 6, 8, 9, 10, 11, 12, 13, 14, 15, 16, 17, 18, 19, 20, 21, 22, 23, 24, 25, 26, 27, 28, 29, 30, 31, 32, 33, 34, 35, 36, 37, 38, 39, 40, 41, 42, 43, 44}"
    using recog_ids[OF i] by blast
  then show ?thesis
  proof cases
    case first
    then show ?thesis using v
      by (auto simp: mrcp_recog_header_duplicate_def mrcp_v2_recog_header_generate_def)
  next
    case common
    then have "i \<notin> {0, 1, 2, 7}" by auto
    then show ?thesis using v recog_common_duplicate[OF common, of e d]
      by (auto simp: mrcp_v2_recog_header_generate_def)
  qed
qed

lemma recog_v2_parse_other:
  assumes j: "j < 45" and i: "i \<noteq> j"
  shows "mrcp_v2_recog_header_generate (snd (mrcp_v2_recog_header_parse e j v)) i
    = mrcp_v2_recog_header_generate e i"
proof -
  consider (first) "j \<in> {0, 1, 2, 7}" | (common) "j \<in> {3, 4, 5, 6, 8, 9, 10, 11, 12, 13, 14, 15, 16, 17, 18, 19, 20, 21, 22, 23, 24, 25, 26, 27, 28, 29, 30, 31, 32, 33, 34, 35, 36, 37, 38, 39, 40, 41, 42, 43, 44}"
    using recog_ids[OF j] by blast
  then show ?thesis
  proof cases
    case first
    then show ?thesis using i
      by (auto simp: mrcp_v2_recog_header_parse_def mrcp_v2_recog_header_generate_def recog_parse_cause)
  next
    case common
    then have "j \<notin> {0, 1, 2}" by auto
    then show ?thesis using i recog_common_other[OF common, of i e v]
      by (simp add: mrcp_v2_recog_header_parse_def mrcp_v2_recog_header_generate_def)
  qed
qed

lemma recog_v2_generates:
  assumes "recog_header_ok MRCP_VERSION_2 h"
  shows "\<exists>v. mrcp_v2_recog_header_generate h i = Some v"
  using assms completion_cause_text[of v2_recog_completion_cause_string_table "recog_completion_cause h"]
  by (auto simp: mrcp_v2_recog_header_generate_def recog_header_ok_def recog_cause_table_lengths)

interpretation recog_v2: header_codec v2_recog_header_vtable "recog_header_ok MRCP_VERSION_2"
  by unfold_locales
    (simp_all add: v2_recog_header_vtable_def recog_v2_table_wf recog_v2_known
      recog_v2_generates recog_v2_generate_parse recog_v2_generate_duplicate recog_v2_parse_other)

section \<open>The values of the fields\<close>

text \<open>
  The value of each field of a header, told apart by what its text can carry: a level is a percent
  value in version 1 and a fraction in version 2.
\<close>

datatype recog_value = R_Text string | R_Number nat | R_Truth bool | R_Letter char | R_Fraction fp | R_Level fp

definition recog_value :: "mrcp_recog_header \<Rightarrow> nat \<Rightarrow> recog_value" where
  "recog_value h i =
     (if i = RECOGNIZER_HEADER_CONFIDENCE_THRESHOLD then R_Level (recog_confidence_threshold h)
      else if i = RECOGNIZER_HEADER_SENSITIVITY_LEVEL then R_Level (recog_sensitivity_level h)
      else if i = RECOGNIZER_HEADER_SPEED_VS_ACCURACY then R_Level (recog_speed_vs_accuracy h)
      else if i = RECOGNIZER_HEADER_COMPLETION_CAUSE then R_Number (recog_completion_cause h)
      else if i = RECOGNIZER_HEADER_N_BEST_LIST_LENGTH then R_Number (recog_n_best_list_length h)
      else if i = RECOGNIZER_HEADER_NO_INPUT_TIMEOUT then R_Number (recog_no_input_timeout h)
      else if i = RECOGNIZER_HEADER_RECOGNITION_TIMEOUT then R_Number (recog_recognition_timeout h)
      else if i = RECOGNIZER_HEADER_WAVEFORM_URI then R_Text (recog_waveform_uri h)
      else if i = RECOGNIZER_HEADER_RECOGNIZER_CONTEXT_BLOCK then R_Text (recog_recognizer_context_block h)
      else if i = RECOGNIZER_HEADER_START_INPUT_TIMERS then R_Truth (recog_start_input_timers h)
      else if i = RECOGNIZER_HEADER_SPEECH_COMPLETE_TIMEOUT then R_Number (recog_speech_complete_timeout h)
      else if i = RECOGNIZER_HEADER_SPEECH_INCOMPLETE_TIMEOUT then R_Number (recog_speech_incomplete_timeout h)
      else if i = RECOGNIZER_HEADER_DTMF_INTERDIGIT_TIMEOUT then R_Number (recog_dtmf_interdigit_timeout h)
      else if i = RECOGNIZER_HEADER_DTMF_TERM_TIMEOUT then R_Number (recog_dtmf_term_timeout h)
      else if i = RECOGNIZER_HEADER_DTMF_TERM_CHAR then R_Letter (recog_dtmf_term_char h)
      else if i = RECOGNIZER_HEADER_FAILED_URI then R_Text (recog_failed_uri h)
      else if i = RECOGNIZER_HEADER_FAILED_URI_CAUSE then R_Text (recog_failed_uri_cause h)
      else if i = RECOGNIZER_HEADER_SAVE_WAVEFORM then R_Truth (recog_save_waveform h)
      else if i = RECOGNIZER_HEADER_NEW_AUDIO_CHANNEL then R_Truth (recog_new_audio_channel h)
      else if i = RECOGNIZER_HEADER_SPEECH_LANGUAGE then R_Text (recog_speech_language h)
      else if i = RECOGNIZER_HEADER_INPUT_TYPE then R_Text (recog_input_type h)
      else if i = RECOGNIZER_HEADER_INPUT_WAVEFORM_URI then R_Text (recog_input_waveform_uri h)
      else if i = RECOGNIZER_HEADER_COMPLETION_REASON then R_Text (recog_completion_reason h)
      else if i = RECOGNIZER_HEADER_MEDIA_TYPE then R_Text (recog_media_type h)
      else if i = RECOGNIZER_HEADER_VER_BUFFER_UTTERANCE then R_Truth (recog_ver_buffer_utterance h)
      else if i = RECOGNIZER_HEADER_RECOGNITION_MODE then R_Text (recog_recognition_mode h)
      else if i = RECOGNIZER_HEADER_CANCEL_IF_QUEUE then R_Truth (recog_cancel_if_queue h)
      else if i = RECOGNIZER_HEADER_HOTWORD_MAX_DURATION then R_Number (recog_hotword_max_duration h)
      else if i = RECOGNIZER_HEADER_HOTWORD_MIN_DURATION then R_Number (recog_hotword_min_duration h)
      else if i = RECOGNIZER_HEADER_INTERPRET_TEXT then R_Text (recog_interpret_text h)
      else if i = RECOGNIZER_HEADER_DTMF_BUFFER_TIME then R_Number (recog_dtmf_buffer_time h)
      else if i = RECOGNIZER_HEADER_CLEAR_DTMF_BUFFER then R_Truth (recog_clear_dtmf_buffer h)
      else if i = RECOGNIZER_HEADER_EARLY_NO_MATCH then R_Truth (recog_early_no_match h)
      else if i = RECOGNIZER_HEADER_NUM_MIN_CONSISTENT_PRONUNCIATIONS then R_Number (recog_num_min_consistent_pronunciations h)
      else if i = RECOGNIZER_HEADER_CONSISTENCY_THRESHOLD then R_Fraction (recog_consistency_threshold h)
      else if i = RECOGNIZER_HEADER_CLASH_THRESHOLD then R_Fraction (recog_clash_threshold h)
      else if i = RECOGNIZER_HEADER_PERSONAL_GRAMMAR_URI then R_Text (recog_personal_grammar_uri h)
      else if i = RECOGNIZER_HEADER_ENROLL_UTTERANCE then R_Truth (recog_enroll_utterance h)
      else if i = RECOGNIZER_HEADER_PHRASE_ID then R_Text (recog_phrase_id h)
      else if i = RECOGNIZER_HEADER_PHRASE_NL then R_Text (recog_phrase_nl h)
      else if i = RECOGNIZER_HEADER_WEIGHT then R_Fraction (recog_weight h)
      else if i = RECOGNIZER_HEADER_SAVE_BEST_WAVEFORM then R_Truth (recog_save_best_waveform h)
      else if i = RECOGNIZER_HEADER_NEW_PHRASE_ID then R_Text (recog_new_phrase_id h)
      else if i = RECOGNIZER_HEADER_CONFUSABLE_PHRASES_URI then R_Text (recog_confusable_phrases_uri h)
      else if i = RECOGNIZER_HEADER_ABORT_PHRASE_ENROLLMENT then R_Truth (recog_abort_phrase_enrollment h)
      else R_Text [])"

text \<open>
  An empty string has no field on the wire. Texts, numbers, booleans and letters arrive as they
  are; of a fraction six digits arrive, of a level in version 1 the nearest percent.
\<close>

definition level_text :: "mrcp_version \<Rightarrow> fp \<Rightarrow> string" where
  "level_text version x =
     (if version = MRCP_VERSION_1 then apt_size_value_generate_from_float x else apt_float_value_generate x)"

fun recog_arrives :: "mrcp_version \<Rightarrow> recog_value \<Rightarrow> recog_value \<Rightarrow> bool" where
  "recog_arrives version (R_Fraction x) v \<longleftrightarrow>
     (\<exists>y. v = R_Fraction y \<and> apt_float_value_generate y = apt_float_value_generate x)"
| "recog_arrives version (R_Level x) v \<longleftrightarrow> (\<exists>y. v = R_Level y \<and> level_text version y = level_text version x)"
| "recog_arrives version u v \<longleftrightarrow> v = u"

lemma size_text_nonempty [simp]: "apt_size_value_generate n \<noteq> []" "apt_boolean_value_generate b \<noteq> []"
  by (simp_all add: apt_size_value_generate_def apt_boolean_value_generate_def)

lemma recog_common_written:
  assumes "recog_common_ok d" "i \<in> {3, 4, 5, 6, 8, 9, 10, 11, 12, 13, 14, 15, 16, 17, 18, 19, 20, 21, 22, 23, 24, 25, 26, 27, 28, 29, 30, 31, 32, 33, 34, 35, 36, 37, 38, 39, 40, 41, 42, 43, 44}" "recog_value d i \<noteq> R_Text []"
  shows "mrcp_recog_header_generate d i \<noteq> []"
  using assms(2,1,3)
  by (elim insertE emptyE)
    (simp_all add: recog_value_def mrcp_recog_header_generate_def recog_common_ok_def float_ok_nonempty)

lemma recog_common_arrives:
  assumes "recog_common_ok d" "i \<in> {3, 4, 5, 6, 8, 9, 10, 11, 12, 13, 14, 15, 16, 17, 18, 19, 20, 21, 22, 23, 24, 25, 26, 27, 28, 29, 30, 31, 32, 33, 34, 35, 36, 37, 38, 39, 40, 41, 42, 43, 44}"
  shows "recog_arrives version (recog_value d i)
    (recog_value (snd (mrcp_recog_header_parse e i (mrcp_recog_header_generate d i))) i)"
  using assms(2,1)
  by (elim insertE emptyE)
    (simp_all add: recog_value_def mrcp_recog_header_parse_def mrcp_recog_header_generate_def recog_common_ok_def
      size_roundtrip float_ok_text)

lemma recog_common_values:
  assumes "j \<in> {3, 4, 5, 6, 8, 9, 10, 11, 12, 13, 14, 15, 16, 17, 18, 19, 20, 21, 22, 23, 24, 25, 26, 27, 28, 29, 30, 31, 32, 33, 34, 35, 36, 37, 38, 39, 40, 41, 42, 43, 44}" "i \<noteq> j"
  shows "recog_value (snd (mrcp_recog_header_parse e j v)) i = recog_value e i"
  using assms
  by (elim insertE emptyE) (simp_all add: mrcp_recog_header_parse_def recog_value_def)

lemma recog_first_values:
  "i \<noteq> 0 \<Longrightarrow> recog_value (h\<lparr>recog_confidence_threshold := x\<rparr>) i = recog_value h i"
  "i \<noteq> 1 \<Longrightarrow> recog_value (h\<lparr>recog_sensitivity_level := x\<rparr>) i = recog_value h i"
  "i \<noteq> 2 \<Longrightarrow> recog_value (h\<lparr>recog_speed_vs_accuracy := x\<rparr>) i = recog_value h i"
  "i \<noteq> 7 \<Longrightarrow> recog_value (h\<lparr>recog_completion_cause := c\<rparr>) i = recog_value h i"
  by (simp_all add: recog_value_def)

lemma recog_first_value:
  "recog_value h 0 = R_Level (recog_confidence_threshold h)" "recog_value h 1 = R_Level (recog_sensitivity_level h)"
  "recog_value h 2 = R_Level (recog_speed_vs_accuracy h)" "recog_value h 7 = R_Number (recog_completion_cause h)"
  by (simp_all add: recog_value_def)

lemma cause_text_nonempty: "apt_completion_cause_generate t c = Some v \<Longrightarrow> length t \<le> 1000 \<Longrightarrow> v \<noteq> []"
  using completion_cause_text[of t c]
  by (cases "c < length t") (auto simp: apt_completion_cause_generate_def apt_string_table_str_get_def split: if_splits)

lemma recog_cases:
  assumes "(i :: nat) < 45"
  obtains "i = 0" | "i = 1" | "i = 2" | "i = 7" | (common) "i \<in> {3, 4, 5, 6, 8, 9, 10, 11, 12, 13, 14, 15, 16, 17, 18, 19, 20, 21, 22, 23, 24, 25, 26, 27, 28, 29, 30, 31, 32, 33, 34, 35, 36, 37, 38, 39, 40, 41, 42, 43, 44}" "i \<notin> {0, 1, 2, 7}"
  using recog_ids[OF assms] by blast

lemma recog_v1_written:
  assumes ok: "recog_header_ok MRCP_VERSION_1 d" and i: "i < 45" and w: "recog_value d i \<noteq> R_Text []"
  shows "mrcp_v1_recog_header_generate d i \<noteq> Some []"
proof (rule recog_cases[OF i])
  assume "i \<in> {3, 4, 5, 6, 8, 9, 10, 11, 12, 13, 14, 15, 16, 17, 18, 19, 20, 21, 22, 23, 24, 25, 26, 27, 28, 29, 30, 31, 32, 33, 34, 35, 36, 37, 38, 39, 40, 41, 42, 43, 44}" "i \<notin> {0, 1, 2, 7}"
  then show ?thesis using recog_common_written[OF _ _ w] ok
    by (auto simp: mrcp_v1_recog_header_generate_def recog_header_ok_def)
qed (use ok cause_text_nonempty[of v1_recog_completion_cause_string_table "recog_completion_cause d" "[]"] in
    \<open>auto simp: mrcp_v1_recog_header_generate_def recog_header_ok_def recog_cause_table_lengths float_ok_nonempty\<close>)

lemma recog_v1_arrives:
  assumes ok: "recog_header_ok MRCP_VERSION_1 d" and i: "i < 45" and v: "mrcp_v1_recog_header_generate d i = Some v"
  shows "recog_arrives MRCP_VERSION_1 (recog_value d i) (recog_value (snd (mrcp_v1_recog_header_parse e i v)) i)"
proof (rule recog_cases[OF i])
  assume c: "i \<in> {3, 4, 5, 6, 8, 9, 10, 11, 12, 13, 14, 15, 16, 17, 18, 19, 20, 21, 22, 23, 24, 25, 26, 27, 28, 29, 30, 31, 32, 33, 34, 35, 36, 37, 38, 39, 40, 41, 42, 43, 44}" "i \<notin> {0, 1, 2, 7}"
  then show ?thesis using recog_common_arrives[OF _ c(1), of d MRCP_VERSION_1 e] ok v
    by (auto simp: mrcp_v1_recog_header_generate_def mrcp_v1_recog_header_parse_def recog_header_ok_def)
qed (use ok v completion_cause_read[of v1_recog_completion_cause_string_table "recog_completion_cause d" v] in
    \<open>auto simp: mrcp_v1_recog_header_generate_def mrcp_v1_recog_header_parse_def recog_header_ok_def
      recog_cause_table_lengths recog_first_value recog_first_value[simplified] level_text_def percent_ok_text
      float_ok_text recog_parse_cause\<close>)

lemma recog_v1_values:
  assumes j: "j < 45" and i: "i \<noteq> j"
  shows "recog_value (snd (mrcp_v1_recog_header_parse e j v)) i = recog_value e i"
proof (rule recog_cases[OF j])
  assume c: "j \<in> {3, 4, 5, 6, 8, 9, 10, 11, 12, 13, 14, 15, 16, 17, 18, 19, 20, 21, 22, 23, 24, 25, 26, 27, 28, 29, 30, 31, 32, 33, 34, 35, 36, 37, 38, 39, 40, 41, 42, 43, 44}" "j \<notin> {0, 1, 2, 7}"
  then show ?thesis using recog_common_values[OF c(1) i] by (simp add: mrcp_v1_recog_header_parse_def)
qed (use i in \<open>simp_all add: mrcp_v1_recog_header_parse_def recog_first_values recog_first_values[simplified]
    recog_parse_cause\<close>)

interpretation recog_v1_values: header_values v1_recog_header_vtable "recog_header_ok MRCP_VERSION_1" recog_value
    "\<lambda>v. v \<noteq> R_Text []" "recog_arrives MRCP_VERSION_1"
  by unfold_locales (simp_all add: v1_recog_header_vtable_def recog_v1_written recog_v1_arrives recog_v1_values)

lemma recog_v2_written:
  assumes ok: "recog_header_ok MRCP_VERSION_2 d" and i: "i < 45" and w: "recog_value d i \<noteq> R_Text []"
  shows "mrcp_v2_recog_header_generate d i \<noteq> Some []"
proof (rule recog_cases[OF i])
  assume "i \<in> {3, 4, 5, 6, 8, 9, 10, 11, 12, 13, 14, 15, 16, 17, 18, 19, 20, 21, 22, 23, 24, 25, 26, 27, 28, 29, 30, 31, 32, 33, 34, 35, 36, 37, 38, 39, 40, 41, 42, 43, 44}" "i \<notin> {0, 1, 2, 7}"
  then show ?thesis using recog_common_written[OF _ _ w] ok
    by (auto simp: mrcp_v2_recog_header_generate_def recog_header_ok_def)
qed (use ok cause_text_nonempty[of v2_recog_completion_cause_string_table "recog_completion_cause d" "[]"] in
    \<open>auto simp: mrcp_v2_recog_header_generate_def recog_header_ok_def recog_cause_table_lengths float_ok_nonempty\<close>)

lemma recog_v2_arrives:
  assumes ok: "recog_header_ok MRCP_VERSION_2 d" and i: "i < 45" and v: "mrcp_v2_recog_header_generate d i = Some v"
  shows "recog_arrives MRCP_VERSION_2 (recog_value d i) (recog_value (snd (mrcp_v2_recog_header_parse e i v)) i)"
proof (rule recog_cases[OF i])
  assume c: "i \<in> {3, 4, 5, 6, 8, 9, 10, 11, 12, 13, 14, 15, 16, 17, 18, 19, 20, 21, 22, 23, 24, 25, 26, 27, 28, 29, 30, 31, 32, 33, 34, 35, 36, 37, 38, 39, 40, 41, 42, 43, 44}" "i \<notin> {0, 1, 2, 7}"
  then show ?thesis using recog_common_arrives[OF _ c(1), of d MRCP_VERSION_2 e] ok v
    by (auto simp: mrcp_v2_recog_header_generate_def mrcp_v2_recog_header_parse_def recog_header_ok_def)
qed (use ok v completion_cause_read[of v2_recog_completion_cause_string_table "recog_completion_cause d" v] in
    \<open>auto simp: mrcp_v2_recog_header_generate_def mrcp_v2_recog_header_parse_def recog_header_ok_def
      recog_cause_table_lengths recog_first_value recog_first_value[simplified] level_text_def percent_ok_text
      float_ok_text recog_parse_cause\<close>)

lemma recog_v2_values:
  assumes j: "j < 45" and i: "i \<noteq> j"
  shows "recog_value (snd (mrcp_v2_recog_header_parse e j v)) i = recog_value e i"
proof (rule recog_cases[OF j])
  assume c: "j \<in> {3, 4, 5, 6, 8, 9, 10, 11, 12, 13, 14, 15, 16, 17, 18, 19, 20, 21, 22, 23, 24, 25, 26, 27, 28, 29, 30, 31, 32, 33, 34, 35, 36, 37, 38, 39, 40, 41, 42, 43, 44}" "j \<notin> {0, 1, 2, 7}"
  then show ?thesis using recog_common_values[OF c(1) i] by (simp add: mrcp_v2_recog_header_parse_def)
qed (use i in \<open>simp_all add: mrcp_v2_recog_header_parse_def recog_first_values recog_first_values[simplified]
    recog_parse_cause\<close>)

interpretation recog_v2_values: header_values v2_recog_header_vtable "recog_header_ok MRCP_VERSION_2" recog_value
    "\<lambda>v. v \<noteq> R_Text []" "recog_arrives MRCP_VERSION_2"
  by unfold_locales (simp_all add: v2_recog_header_vtable_def recog_v2_written recog_v2_arrives recog_v2_values)

section \<open>A header arrives as it was sent\<close>



end
