(* ===== verification/Synth_Header.thy ===== *)
theory Synth_Header
  imports Synth_SM Header_Codec
begin

text \<open>
  \<open>libs/mrcp/resources/src/mrcp_synth_header.c\<close>: the header fields of the synthesizer. The record
  extends the part of the header the state machine works with. The unions for the length of
  speech and for the prosody, each with its type, are datatypes.
\<close>

abbreviation (input) SYNTHESIZER_HEADER_JUMP_SIZE :: nat where "SYNTHESIZER_HEADER_JUMP_SIZE \<equiv> 0"
abbreviation (input) SYNTHESIZER_HEADER_SPEAKER_PROFILE :: nat where "SYNTHESIZER_HEADER_SPEAKER_PROFILE \<equiv> 2"
abbreviation (input) SYNTHESIZER_HEADER_COMPLETION_REASON :: nat where "SYNTHESIZER_HEADER_COMPLETION_REASON \<equiv> 4"
abbreviation (input) SYNTHESIZER_HEADER_VOICE_GENDER :: nat where "SYNTHESIZER_HEADER_VOICE_GENDER \<equiv> 5"
abbreviation (input) SYNTHESIZER_HEADER_VOICE_AGE :: nat where "SYNTHESIZER_HEADER_VOICE_AGE \<equiv> 6"
abbreviation (input) SYNTHESIZER_HEADER_VOICE_VARIANT :: nat where "SYNTHESIZER_HEADER_VOICE_VARIANT \<equiv> 7"
abbreviation (input) SYNTHESIZER_HEADER_VOICE_NAME :: nat where "SYNTHESIZER_HEADER_VOICE_NAME \<equiv> 8"
abbreviation (input) SYNTHESIZER_HEADER_PROSODY_VOLUME :: nat where "SYNTHESIZER_HEADER_PROSODY_VOLUME \<equiv> 9"
abbreviation (input) SYNTHESIZER_HEADER_PROSODY_RATE :: nat where "SYNTHESIZER_HEADER_PROSODY_RATE \<equiv> 10"
abbreviation (input) SYNTHESIZER_HEADER_SPEECH_MARKER :: nat where "SYNTHESIZER_HEADER_SPEECH_MARKER \<equiv> 11"
abbreviation (input) SYNTHESIZER_HEADER_SPEECH_LANGUAGE :: nat where "SYNTHESIZER_HEADER_SPEECH_LANGUAGE \<equiv> 12"
abbreviation (input) SYNTHESIZER_HEADER_FETCH_HINT :: nat where "SYNTHESIZER_HEADER_FETCH_HINT \<equiv> 13"
abbreviation (input) SYNTHESIZER_HEADER_AUDIO_FETCH_HINT :: nat where "SYNTHESIZER_HEADER_AUDIO_FETCH_HINT \<equiv> 14"
abbreviation (input) SYNTHESIZER_HEADER_FAILED_URI :: nat where "SYNTHESIZER_HEADER_FAILED_URI \<equiv> 15"
abbreviation (input) SYNTHESIZER_HEADER_FAILED_URI_CAUSE :: nat where "SYNTHESIZER_HEADER_FAILED_URI_CAUSE \<equiv> 16"
abbreviation (input) SYNTHESIZER_HEADER_SPEAK_RESTART :: nat where "SYNTHESIZER_HEADER_SPEAK_RESTART \<equiv> 17"
abbreviation (input) SYNTHESIZER_HEADER_SPEAK_LENGTH :: nat where "SYNTHESIZER_HEADER_SPEAK_LENGTH \<equiv> 18"
abbreviation (input) SYNTHESIZER_HEADER_LOAD_LEXICON :: nat where "SYNTHESIZER_HEADER_LOAD_LEXICON \<equiv> 19"
abbreviation (input) SYNTHESIZER_HEADER_LEXICON_SEARCH_ORDER :: nat where "SYNTHESIZER_HEADER_LEXICON_SEARCH_ORDER \<equiv> 20"

definition synth_header_string_table :: str_table where
  "synth_header_string_table =
     [\<lparr>st_value = ''Jump-Size'', st_key = 0\<rparr>,
      \<lparr>st_value = ''Kill-On-Barge-In'', st_key = 0\<rparr>,
      \<lparr>st_value = ''Speaker-Profile'', st_key = 8\<rparr>,
      \<lparr>st_value = ''Completion-Cause'', st_key = 16\<rparr>,
      \<lparr>st_value = ''Completion-Reason'', st_key = 13\<rparr>,
      \<lparr>st_value = ''Voice-Gender'', st_key = 6\<rparr>,
      \<lparr>st_value = ''Voice-Age'', st_key = 6\<rparr>,
      \<lparr>st_value = ''Voice-Variant'', st_key = 6\<rparr>,
      \<lparr>st_value = ''Voice-Name'', st_key = 8\<rparr>,
      \<lparr>st_value = ''Prosody-Volume'', st_key = 8\<rparr>,
      \<lparr>st_value = ''Prosody-Rate'', st_key = 12\<rparr>,
      \<lparr>st_value = ''Speech-Marker'', st_key = 7\<rparr>,
      \<lparr>st_value = ''Speech-Language'', st_key = 7\<rparr>,
      \<lparr>st_value = ''Fetch-Hint'', st_key = 2\<rparr>,
      \<lparr>st_value = ''Audio-Fetch-Hint'', st_key = 0\<rparr>,
      \<lparr>st_value = ''Failed-Uri'', st_key = 10\<rparr>,
      \<lparr>st_value = ''Failed-Uri_Cause'', st_key = 10\<rparr>,
      \<lparr>st_value = ''Speak-Restart'', st_key = 13\<rparr>,
      \<lparr>st_value = ''Speak-Length'', st_key = 6\<rparr>,
      \<lparr>st_value = ''Load-Lexicon'', st_key = 2\<rparr>,
      \<lparr>st_value = ''Lexicon-Search-Order'', st_key = 2\<rparr>]"

definition speech_unit_string_table :: str_table where
  "speech_unit_string_table =
     [\<lparr>st_value = ''Second'', st_key = 2\<rparr>,
      \<lparr>st_value = ''Word'', st_key = 0\<rparr>,
      \<lparr>st_value = ''Sentence'', st_key = 2\<rparr>,
      \<lparr>st_value = ''Paragraph'', st_key = 0\<rparr>]"

definition voice_gender_string_table :: str_table where
  "voice_gender_string_table =
     [\<lparr>st_value = ''male'', st_key = 0\<rparr>,
      \<lparr>st_value = ''female'', st_key = 0\<rparr>,
      \<lparr>st_value = ''neutral'', st_key = 0\<rparr>]"

definition prosody_volume_string_table :: str_table where
  "prosody_volume_string_table =
     [\<lparr>st_value = ''silent'', st_key = 1\<rparr>,
      \<lparr>st_value = ''x-soft'', st_key = 2\<rparr>,
      \<lparr>st_value = ''soft'', st_key = 3\<rparr>,
      \<lparr>st_value = ''medium'', st_key = 0\<rparr>,
      \<lparr>st_value = ''loud'', st_key = 0\<rparr>,
      \<lparr>st_value = ''x-loud'', st_key = 5\<rparr>,
      \<lparr>st_value = ''default'', st_key = 0\<rparr>]"

definition prosody_rate_string_table :: str_table where
  "prosody_rate_string_table =
     [\<lparr>st_value = ''x-slow'', st_key = 3\<rparr>,
      \<lparr>st_value = ''slow'', st_key = 0\<rparr>,
      \<lparr>st_value = ''medium'', st_key = 0\<rparr>,
      \<lparr>st_value = ''fast'', st_key = 0\<rparr>,
      \<lparr>st_value = ''x-fast'', st_key = 4\<rparr>,
      \<lparr>st_value = ''default'', st_key = 0\<rparr>]"

definition synth_completion_cause_string_table :: str_table where
  "synth_completion_cause_string_table =
     [\<lparr>st_value = ''normal'', st_key = 0\<rparr>,
      \<lparr>st_value = ''barge-in'', st_key = 0\<rparr>,
      \<lparr>st_value = ''parse-failure'', st_key = 0\<rparr>,
      \<lparr>st_value = ''uri-failure'', st_key = 0\<rparr>,
      \<lparr>st_value = ''error'', st_key = 0\<rparr>,
      \<lparr>st_value = ''language-unsupported'', st_key = 4\<rparr>,
      \<lparr>st_value = ''lexicon-load-failure'', st_key = 1\<rparr>,
      \<lparr>st_value = ''cancelled'', st_key = 0\<rparr>]"

section \<open>Length of speech and prosody\<close>

definition apt_string_table_value_parse :: "str_table \<Rightarrow> string \<Rightarrow> nat" where
  "apt_string_table_value_parse t v = apt_string_table_id_find t v"

definition apt_string_table_value_pgenerate :: "str_table \<Rightarrow> nat \<Rightarrow> string option" where
  "apt_string_table_value_pgenerate t i = apt_string_table_str_get t i"

datatype speech_length =
    Length_Text string
  | Length_Positive nat nat
  | Length_Negative nat nat
  | Length_Unknown

datatype prosody_volume =
    Volume_Label nat
  | Volume_Numeric fp
  | Volume_Relative fp
  | Volume_Unknown

datatype prosody_rate =
    Rate_Label nat
  | Rate_Relative fp
  | Rate_Unknown

definition mrcp_prosody_param_rate_parse :: "prosody_rate \<Rightarrow> string \<Rightarrow> bool \<times> prosody_rate" where
  "mrcp_prosody_param_rate_parse rate v =
     (case v of
        [] \<Rightarrow> (False, rate)
      | c # _ \<Rightarrow>
          if is_digit c then (True, Rate_Relative (apt_float_value_parse v))
          else (True, Rate_Label (apt_string_table_value_parse prosody_rate_string_table v)))"

text \<open>
  A label out of the table leaves the value empty. A type that was never set is written as the
  number the memory happens to hold, zero in the model.
\<close>

definition mrcp_prosody_rate_generate :: "prosody_rate \<Rightarrow> string" where
  "mrcp_prosody_rate_generate rate =
     (case rate of
        Rate_Label l \<Rightarrow> text_or_empty (apt_string_table_value_pgenerate prosody_rate_string_table l)
      | Rate_Relative x \<Rightarrow> apt_float_value_generate x
      | Rate_Unknown \<Rightarrow> apt_float_value_generate (0, 0))"

definition mrcp_prosody_param_volume_parse :: "prosody_volume \<Rightarrow> string \<Rightarrow> bool \<times> prosody_volume" where
  "mrcp_prosody_param_volume_parse volume v =
     (case v of
        [] \<Rightarrow> (False, volume)
      | c # _ \<Rightarrow>
          if c = CHR ''+'' \<or> c = CHR ''-'' then (True, Volume_Relative (apt_float_value_parse v))
          else if is_digit c then (True, Volume_Numeric (apt_float_value_parse v))
          else (True, Volume_Label (apt_string_table_value_parse prosody_volume_string_table v)))"

definition mrcp_prosody_volume_generate :: "prosody_volume \<Rightarrow> string" where
  "mrcp_prosody_volume_generate volume =
     (case volume of
        Volume_Label l \<Rightarrow> text_or_empty (apt_string_table_value_pgenerate prosody_volume_string_table l)
      | Volume_Numeric x \<Rightarrow> apt_float_value_generate x
      | Volume_Relative x \<Rightarrow> apt_float_value_generate x
      | Volume_Unknown \<Rightarrow> apt_float_value_generate (0, 0))"

text \<open>
  The type is set before the number is read; when there is none, the number is what it was, or
  what the memory holds, zero in the model.
\<close>

definition speech_numeric :: "speech_length \<Rightarrow> nat \<times> nat" where
  "speech_numeric l =
     (case l of Length_Positive n u \<Rightarrow> (n, u) | Length_Negative n u \<Rightarrow> (n, u) | _ \<Rightarrow> (0, 0))"

definition mrcp_speech_length_value_parse :: "speech_length \<Rightarrow> string \<Rightarrow> bool \<times> speech_length" where
  "mrcp_speech_length_value_parse l v =
     (case v of
        [] \<Rightarrow> (False, l)
      | c # cs \<Rightarrow>
          if c \<noteq> CHR ''+'' \<and> c \<noteq> CHR ''-'' then (True, Length_Text v)
          else
            let mk = (if c = CHR ''+'' then Length_Positive else Length_Negative);
                (n0, u0) = speech_numeric l;
                (ok, _, buf, s) = apt_text_field_read (ts_advance 1 (apt_text_stream_of v)) sp True
            in if \<not> ok then (False, mk n0 u0)
               else
                 let n = apt_size_value_parse buf;
                     (ok2, unit, _, _) = apt_text_field_read s sp True
                 in if \<not> ok2 then (False, mk n u0)
                    else (True, mk n (apt_string_table_value_parse speech_unit_string_table unit)))"

definition numeric_length_text :: "char \<Rightarrow> nat \<Rightarrow> nat \<Rightarrow> string option" where
  "numeric_length_text c n u =
     (case apt_string_table_str_get speech_unit_string_table u of
        None \<Rightarrow> None
      | Some name \<Rightarrow> Some (c # show_nat n @ sp # name))"

definition mrcp_speech_length_generate :: "speech_length \<Rightarrow> string option" where
  "mrcp_speech_length_generate l =
     (case l of
        Length_Text tag \<Rightarrow> Some tag
      | Length_Positive n u \<Rightarrow> numeric_length_text (CHR ''+'') n u
      | Length_Negative n u \<Rightarrow> numeric_length_text (CHR ''-'') n u
      | Length_Unknown \<Rightarrow> numeric_length_text (CHR ''-'') 0 0)"

section \<open>The header\<close>

record mrcp_synth_header = synth_header +
  synth_jump_size :: speech_length
  synth_speaker_profile :: string
  synth_completion_reason :: string
  synth_voice_gender :: nat
  synth_voice_age :: nat
  synth_voice_variant :: nat
  synth_voice_name :: string
  synth_prosody_volume :: prosody_volume
  synth_prosody_rate :: prosody_rate
  synth_speech_marker :: string
  synth_speech_language :: string
  synth_fetch_hint :: string
  synth_audio_fetch_hint :: string
  synth_failed_uri :: string
  synth_failed_uri_cause :: string
  synth_speak_restart :: bool
  synth_speak_length :: speech_length
  synth_load_lexicon :: bool
  synth_lexicon_search_order :: string

definition mrcp_synth_header_init :: mrcp_synth_header where
  "mrcp_synth_header_init =
     \<lparr>synth_completion_cause = 8, synth_kill_on_barge_in = False,
      synth_jump_size = Length_Unknown, synth_speaker_profile = [], synth_completion_reason = [],
      synth_voice_gender = 3, synth_voice_age = 0, synth_voice_variant = 0,
      synth_voice_name = [], synth_prosody_volume = Volume_Unknown,
      synth_prosody_rate = Rate_Unknown, synth_speech_marker = [], synth_speech_language = [],
      synth_fetch_hint = [], synth_audio_fetch_hint = [], synth_failed_uri = [],
      synth_failed_uri_cause = [], synth_speak_restart = False,
      synth_speak_length = Length_Unknown, synth_load_lexicon = False,
      synth_lexicon_search_order = []\<rparr>"

definition mrcp_synth_header_parse :: "mrcp_synth_header \<Rightarrow> nat \<Rightarrow> string \<Rightarrow> bool \<times> mrcp_synth_header" where
  "mrcp_synth_header_parse h i v =
     (if i = SYNTHESIZER_HEADER_JUMP_SIZE then (True, h\<lparr>synth_jump_size := snd (mrcp_speech_length_value_parse (synth_jump_size h) v)\<rparr>)
      else if i = SYNTHESIZER_HEADER_KILL_ON_BARGE_IN then (True, h\<lparr>synth_kill_on_barge_in := bool_set v (synth_kill_on_barge_in h)\<rparr>)
      else if i = SYNTHESIZER_HEADER_SPEAKER_PROFILE then (True, h\<lparr>synth_speaker_profile := v\<rparr>)
      else if i = SYNTHESIZER_HEADER_COMPLETION_CAUSE then (True, h\<lparr>synth_completion_cause := enum_of (apt_size_value_parse v)\<rparr>)
      else if i = SYNTHESIZER_HEADER_COMPLETION_REASON then (True, h\<lparr>synth_completion_reason := v\<rparr>)
      else if i = SYNTHESIZER_HEADER_VOICE_GENDER then (True, h\<lparr>synth_voice_gender := apt_string_table_value_parse voice_gender_string_table v\<rparr>)
      else if i = SYNTHESIZER_HEADER_VOICE_AGE then (True, h\<lparr>synth_voice_age := apt_size_value_parse v\<rparr>)
      else if i = SYNTHESIZER_HEADER_VOICE_VARIANT then (True, h\<lparr>synth_voice_variant := apt_size_value_parse v\<rparr>)
      else if i = SYNTHESIZER_HEADER_VOICE_NAME then (True, h\<lparr>synth_voice_name := v\<rparr>)
      else if i = SYNTHESIZER_HEADER_PROSODY_VOLUME then (True, h\<lparr>synth_prosody_volume := snd (mrcp_prosody_param_volume_parse (synth_prosody_volume h) v)\<rparr>)
      else if i = SYNTHESIZER_HEADER_PROSODY_RATE then (True, h\<lparr>synth_prosody_rate := snd (mrcp_prosody_param_rate_parse (synth_prosody_rate h) v)\<rparr>)
      else if i = SYNTHESIZER_HEADER_SPEECH_MARKER then (True, h\<lparr>synth_speech_marker := v\<rparr>)
      else if i = SYNTHESIZER_HEADER_SPEECH_LANGUAGE then (True, h\<lparr>synth_speech_language := v\<rparr>)
      else if i = SYNTHESIZER_HEADER_FETCH_HINT then (True, h\<lparr>synth_fetch_hint := v\<rparr>)
      else if i = SYNTHESIZER_HEADER_AUDIO_FETCH_HINT then (True, h\<lparr>synth_audio_fetch_hint := v\<rparr>)
      else if i = SYNTHESIZER_HEADER_FAILED_URI then (True, h\<lparr>synth_failed_uri := v\<rparr>)
      else if i = SYNTHESIZER_HEADER_FAILED_URI_CAUSE then (True, h\<lparr>synth_failed_uri_cause := v\<rparr>)
      else if i = SYNTHESIZER_HEADER_SPEAK_RESTART then (True, h\<lparr>synth_speak_restart := bool_set v (synth_speak_restart h)\<rparr>)
      else if i = SYNTHESIZER_HEADER_SPEAK_LENGTH then (True, h\<lparr>synth_speak_length := snd (mrcp_speech_length_value_parse (synth_speak_length h) v)\<rparr>)
      else if i = SYNTHESIZER_HEADER_LOAD_LEXICON then (True, h\<lparr>synth_load_lexicon := bool_set v (synth_load_lexicon h)\<rparr>)
      else if i = SYNTHESIZER_HEADER_LEXICON_SEARCH_ORDER then (True, h\<lparr>synth_lexicon_search_order := v\<rparr>)
      else (False, h))"

definition mrcp_synth_header_generate :: "mrcp_synth_header \<Rightarrow> nat \<Rightarrow> string option" where
  "mrcp_synth_header_generate h i =
     (if i = SYNTHESIZER_HEADER_JUMP_SIZE then Some (text_or_empty (mrcp_speech_length_generate (synth_jump_size h)))
      else if i = SYNTHESIZER_HEADER_KILL_ON_BARGE_IN then Some (apt_boolean_value_generate (synth_kill_on_barge_in h))
      else if i = SYNTHESIZER_HEADER_SPEAKER_PROFILE then Some (synth_speaker_profile h)
      else if i = SYNTHESIZER_HEADER_COMPLETION_CAUSE then Some (text_or_empty (apt_completion_cause_generate synth_completion_cause_string_table (synth_completion_cause h)))
      else if i = SYNTHESIZER_HEADER_COMPLETION_REASON then Some (synth_completion_reason h)
      else if i = SYNTHESIZER_HEADER_VOICE_GENDER then Some (text_or_empty (apt_string_table_value_pgenerate voice_gender_string_table (synth_voice_gender h)))
      else if i = SYNTHESIZER_HEADER_VOICE_AGE then Some (apt_size_value_generate (synth_voice_age h))
      else if i = SYNTHESIZER_HEADER_VOICE_VARIANT then Some (apt_size_value_generate (synth_voice_variant h))
      else if i = SYNTHESIZER_HEADER_VOICE_NAME then Some (synth_voice_name h)
      else if i = SYNTHESIZER_HEADER_PROSODY_VOLUME then Some (mrcp_prosody_volume_generate (synth_prosody_volume h))
      else if i = SYNTHESIZER_HEADER_PROSODY_RATE then Some (mrcp_prosody_rate_generate (synth_prosody_rate h))
      else if i = SYNTHESIZER_HEADER_SPEECH_MARKER then Some (synth_speech_marker h)
      else if i = SYNTHESIZER_HEADER_SPEECH_LANGUAGE then Some (synth_speech_language h)
      else if i = SYNTHESIZER_HEADER_FETCH_HINT then Some (synth_fetch_hint h)
      else if i = SYNTHESIZER_HEADER_AUDIO_FETCH_HINT then Some (synth_audio_fetch_hint h)
      else if i = SYNTHESIZER_HEADER_FAILED_URI then Some (synth_failed_uri h)
      else if i = SYNTHESIZER_HEADER_FAILED_URI_CAUSE then Some (synth_failed_uri_cause h)
      else if i = SYNTHESIZER_HEADER_SPEAK_RESTART then Some (apt_boolean_value_generate (synth_speak_restart h))
      else if i = SYNTHESIZER_HEADER_SPEAK_LENGTH then Some (text_or_empty (mrcp_speech_length_generate (synth_speak_length h)))
      else if i = SYNTHESIZER_HEADER_LOAD_LEXICON then Some (apt_boolean_value_generate (synth_load_lexicon h))
      else if i = SYNTHESIZER_HEADER_LEXICON_SEARCH_ORDER then Some (synth_lexicon_search_order h)
      else Some [])"

definition mrcp_synth_header_duplicate ::
  "mrcp_synth_header \<Rightarrow> mrcp_synth_header option \<Rightarrow> nat \<Rightarrow> string \<Rightarrow> bool \<times> mrcp_synth_header" where
  "mrcp_synth_header_duplicate h src0 i v =
     (case src0 of None \<Rightarrow> (False, h) | Some src \<Rightarrow>
      if i = SYNTHESIZER_HEADER_JUMP_SIZE then (True, h\<lparr>synth_jump_size := synth_jump_size src\<rparr>)
      else if i = SYNTHESIZER_HEADER_KILL_ON_BARGE_IN then (True, h\<lparr>synth_kill_on_barge_in := synth_kill_on_barge_in src\<rparr>)
      else if i = SYNTHESIZER_HEADER_SPEAKER_PROFILE then (True, h\<lparr>synth_speaker_profile := v\<rparr>)
      else if i = SYNTHESIZER_HEADER_COMPLETION_CAUSE then (True, h\<lparr>synth_completion_cause := synth_completion_cause src\<rparr>)
      else if i = SYNTHESIZER_HEADER_COMPLETION_REASON then (True, h\<lparr>synth_completion_reason := v\<rparr>)
      else if i = SYNTHESIZER_HEADER_VOICE_GENDER then (True, h\<lparr>synth_voice_gender := synth_voice_gender src\<rparr>)
      else if i = SYNTHESIZER_HEADER_VOICE_AGE then (True, h\<lparr>synth_voice_age := synth_voice_age src\<rparr>)
      else if i = SYNTHESIZER_HEADER_VOICE_VARIANT then (True, h\<lparr>synth_voice_variant := synth_voice_variant src\<rparr>)
      else if i = SYNTHESIZER_HEADER_VOICE_NAME then (True, h\<lparr>synth_voice_name := v\<rparr>)
      else if i = SYNTHESIZER_HEADER_PROSODY_VOLUME then (True, h\<lparr>synth_prosody_volume := synth_prosody_volume src\<rparr>)
      else if i = SYNTHESIZER_HEADER_PROSODY_RATE then (True, h\<lparr>synth_prosody_rate := synth_prosody_rate src\<rparr>)
      else if i = SYNTHESIZER_HEADER_SPEECH_MARKER then (True, h\<lparr>synth_speech_marker := v\<rparr>)
      else if i = SYNTHESIZER_HEADER_SPEECH_LANGUAGE then (True, h\<lparr>synth_speech_language := v\<rparr>)
      else if i = SYNTHESIZER_HEADER_FETCH_HINT then (True, h\<lparr>synth_fetch_hint := v\<rparr>)
      else if i = SYNTHESIZER_HEADER_AUDIO_FETCH_HINT then (True, h\<lparr>synth_audio_fetch_hint := v\<rparr>)
      else if i = SYNTHESIZER_HEADER_FAILED_URI then (True, h\<lparr>synth_failed_uri := v\<rparr>)
      else if i = SYNTHESIZER_HEADER_FAILED_URI_CAUSE then (True, h\<lparr>synth_failed_uri_cause := v\<rparr>)
      else if i = SYNTHESIZER_HEADER_SPEAK_RESTART then (True, h\<lparr>synth_speak_restart := synth_speak_restart src\<rparr>)
      else if i = SYNTHESIZER_HEADER_SPEAK_LENGTH then (True, h\<lparr>synth_speak_length := synth_speak_length src\<rparr>)
      else if i = SYNTHESIZER_HEADER_LOAD_LEXICON then (True, h\<lparr>synth_load_lexicon := synth_load_lexicon src\<rparr>)
      else if i = SYNTHESIZER_HEADER_LEXICON_SEARCH_ORDER then (True, h\<lparr>synth_lexicon_search_order := v\<rparr>)
      else (False, h))"

definition synth_header_vtable :: "mrcp_synth_header header_vtable" where
  "synth_header_vtable =
     \<lparr>vt_allocate = mrcp_synth_header_init, vt_parse_field = mrcp_synth_header_parse,
      vt_generate_field = mrcp_synth_header_generate, vt_duplicate_field = mrcp_synth_header_duplicate,
      vt_field_table = synth_header_string_table\<rparr>"

definition mrcp_synth_header_vtable_get :: "mrcp_version \<Rightarrow> mrcp_synth_header header_vtable" where
  "mrcp_synth_header_vtable_get version = synth_header_vtable"

definition mrcp_synth_completion_cause_get :: "nat \<Rightarrow> mrcp_version \<Rightarrow> string option" where
  "mrcp_synth_completion_cause_get cause version = apt_string_table_str_get synth_completion_cause_string_table cause"

section \<open>The laws of the parts\<close>

lemma synth_tables_wf:
  "table_wf synth_header_string_table" "table_wf speech_unit_string_table" "table_wf voice_gender_string_table"
  "table_wf prosody_volume_string_table" "table_wf prosody_rate_string_table"
  by (simp_all add: table_wf_def synth_header_string_table_def speech_unit_string_table_def
      voice_gender_string_table_def prosody_volume_string_table_def prosody_rate_string_table_def nul_def tolower_def)

text \<open>The name of an entry is found again, and starts with a letter.\<close>

lemma label_roundtrip:
  assumes "table_wf t" "apt_string_table_value_pgenerate t i = Some v"
  shows "apt_string_table_value_parse t v = i"
  using assms id_find_name[OF assms(1), of i]
  by (auto simp: apt_string_table_value_pgenerate_def apt_string_table_value_parse_def apt_string_table_str_get_def
      split: if_splits)

definition name_ok :: "string \<Rightarrow> bool" where
  "name_ok v \<longleftrightarrow> v \<noteq> [] \<and> sp \<notin> set v \<and> \<not> is_digit (hd v) \<and> hd v \<noteq> CHR ''+'' \<and> hd v \<noteq> CHR ''-''"

lemma label_names:
  "apt_string_table_value_pgenerate prosody_volume_string_table i = Some v \<Longrightarrow> name_ok v"
  "apt_string_table_value_pgenerate prosody_rate_string_table i = Some v \<Longrightarrow> name_ok v"
  "apt_string_table_str_get speech_unit_string_table i = Some v \<Longrightarrow> name_ok v"
proof -
  have "list_all (\<lambda>it. name_ok (st_value it)) prosody_volume_string_table"
    "list_all (\<lambda>it. name_ok (st_value it)) prosody_rate_string_table"
    "list_all (\<lambda>it. name_ok (st_value it)) speech_unit_string_table"
    by (simp_all add: prosody_volume_string_table_def prosody_rate_string_table_def speech_unit_string_table_def
        name_ok_def is_digit_def sp_def)
  then show "apt_string_table_value_pgenerate prosody_volume_string_table i = Some v \<Longrightarrow> name_ok v"
    "apt_string_table_value_pgenerate prosody_rate_string_table i = Some v \<Longrightarrow> name_ok v"
    "apt_string_table_str_get speech_unit_string_table i = Some v \<Longrightarrow> name_ok v"
    by (auto simp: apt_string_table_value_pgenerate_def apt_string_table_str_get_def list_all_length split: if_splits)
qed

definition speech_length_ok :: "speech_length \<Rightarrow> bool" where
  "speech_length_ok l \<longleftrightarrow>
     (case l of
        Length_Text tag \<Rightarrow> tag = [] \<or> hd tag \<noteq> CHR ''+'' \<and> hd tag \<noteq> CHR ''-''
      | Length_Positive n _ \<Rightarrow> n < 2 ^ 63
      | Length_Negative n _ \<Rightarrow> n < 2 ^ 63
      | Length_Unknown \<Rightarrow> True)"

lemma numeric_length_read:
  assumes "numeric_length_text c n u = Some v" "c = CHR ''+'' \<or> c = CHR ''-''" "n < 2 ^ 63"
  shows "mrcp_speech_length_value_parse l v = (True, (if c = CHR ''+'' then Length_Positive else Length_Negative) n u)"
proof -
  obtain name where name: "apt_string_table_str_get speech_unit_string_table u = Some name" "v = c # show_nat n @ sp # name"
    using assms(1) by (auto simp: numeric_length_text_def split: option.splits)
  have ok: "name_ok name" by (rule label_names(3)[OF name(1)])
  let ?s = "ts_advance 1 (apt_text_stream_of v)"
  have r: "ts_rest ?s = show_nat n @ sp # name" by (simp add: apt_text_stream_of_def name(2) ts_advance_def)
  let ?s1 = "ts_advance (length (show_nat n) + 1) ?s"
  have f1: "apt_text_field_read ?s sp True = (True, show_nat n, show_nat n @ sp # name, ?s1)"
    by (rule field_read_sp[OF r]) simp_all
  have r1: "ts_rest ?s1 = name" using r by (simp add: ts_advance_def)
  have f2: "apt_text_field_read ?s1 sp True = (True, name, name, ts_advance (length name) ?s1)"
    by (rule field_read_last[OF r1]) (use ok in \<open>simp_all add: name_ok_def\<close>)
  have n: "apt_size_value_parse (show_nat n @ sp # name) = n"
    using atol_show_nat_append[of "sp # name" n] assms(3)
    by (simp add: apt_size_value_parse_def is_digit_def sp_def)
  have u: "apt_string_table_value_parse speech_unit_string_table name = u"
    using label_roundtrip[OF synth_tables_wf(2)] name(1) by (simp add: apt_string_table_value_pgenerate_def)
  show ?thesis using assms(2) f1 f2 n u unfolding mrcp_speech_length_value_parse_def name(2)
    by (auto simp: Let_def split_beta)
qed

lemma speech_length_roundtrip:
  assumes "speech_length_ok l" "mrcp_speech_length_generate l = Some v" "v \<noteq> []"
  shows "mrcp_speech_length_generate (snd (mrcp_speech_length_value_parse e v)) = Some v"
proof (cases l)
  case (Length_Text tag)
  then show ?thesis using assms
    by (cases v) (auto simp: mrcp_speech_length_generate_def speech_length_ok_def mrcp_speech_length_value_parse_def)
qed (use assms numeric_length_read[of "CHR ''+''" _ _ v e] numeric_length_read[of "CHR ''-''" _ _ v e] in
    \<open>auto simp: mrcp_speech_length_generate_def speech_length_ok_def\<close>)

definition prosody_rate_ok :: "prosody_rate \<Rightarrow> bool" where
  "prosody_rate_ok r \<longleftrightarrow> (case r of Rate_Relative x \<Rightarrow> float_ok x | _ \<Rightarrow> True)"

definition prosody_volume_ok :: "prosody_volume \<Rightarrow> bool" where
  "prosody_volume_ok v \<longleftrightarrow> (case v of Volume_Numeric x \<Rightarrow> float_ok x | Volume_Relative x \<Rightarrow> float_ok x | _ \<Rightarrow> True)"

lemma zero_float_ok: "float_ok (0, 0)"
  by (simp add: float_ok_def fp_num_def fp_micro_def fp_den_def)

lemma float_rate_read: "float_ok x \<Longrightarrow>
    snd (mrcp_prosody_param_rate_parse e (apt_float_value_generate x))
      = Rate_Relative (apt_float_value_parse (apt_float_value_generate x))"
  by (rule float_text_shape[of x]) (simp_all add: mrcp_prosody_param_rate_parse_def)

lemma float_volume_read: "float_ok x \<Longrightarrow>
    snd (mrcp_prosody_param_volume_parse e (apt_float_value_generate x))
      = Volume_Numeric (apt_float_value_parse (apt_float_value_generate x))"
  by (rule float_text_shape[of x]) (simp_all add: mrcp_prosody_param_volume_parse_def)

lemma prosody_rate_roundtrip:
  assumes "prosody_rate_ok r" "mrcp_prosody_rate_generate r = v" "v \<noteq> []"
  shows "mrcp_prosody_rate_generate (snd (mrcp_prosody_param_rate_parse e v)) = v"
proof (cases r)
  case (Rate_Label l)
  then obtain w where w: "apt_string_table_value_pgenerate prosody_rate_string_table l = Some w" "v = w"
    using assms(2,3) by (auto simp: mrcp_prosody_rate_generate_def text_or_empty_def split: option.splits)
  have "name_ok v" using label_names(2)[OF w(1)] w(2) by simp
  then have "snd (mrcp_prosody_param_rate_parse e v) = Rate_Label (apt_string_table_value_parse prosody_rate_string_table v)"
    by (cases v) (simp_all add: mrcp_prosody_param_rate_parse_def name_ok_def)
  then show ?thesis using label_roundtrip[OF synth_tables_wf(5) w(1)] w
    by (simp add: mrcp_prosody_rate_generate_def text_or_empty_def)
qed (use assms zero_float_ok in \<open>auto simp: mrcp_prosody_rate_generate_def prosody_rate_ok_def float_rate_read float_ok_text\<close>)

lemma prosody_volume_roundtrip:
  assumes "prosody_volume_ok r" "mrcp_prosody_volume_generate r = v" "v \<noteq> []"
  shows "mrcp_prosody_volume_generate (snd (mrcp_prosody_param_volume_parse e v)) = v"
proof (cases r)
  case (Volume_Label l)
  then obtain w where w: "apt_string_table_value_pgenerate prosody_volume_string_table l = Some w" "v = w"
    using assms(2,3) by (auto simp: mrcp_prosody_volume_generate_def text_or_empty_def split: option.splits)
  have "name_ok v" using label_names(1)[OF w(1)] w(2) by simp
  then have "snd (mrcp_prosody_param_volume_parse e v) = Volume_Label (apt_string_table_value_parse prosody_volume_string_table v)"
    by (cases v) (simp_all add: mrcp_prosody_param_volume_parse_def name_ok_def)
  then show ?thesis using label_roundtrip[OF synth_tables_wf(4) w(1)] w
    by (simp add: mrcp_prosody_volume_generate_def text_or_empty_def)
qed (use assms zero_float_ok in
    \<open>auto simp: mrcp_prosody_volume_generate_def prosody_volume_ok_def float_volume_read float_ok_text\<close>)

section \<open>The laws of the header\<close>

definition synth_header_ok :: "mrcp_synth_header \<Rightarrow> bool" where
  "synth_header_ok h \<longleftrightarrow> synth_voice_age h < 2 ^ 63 \<and> synth_voice_variant h < 2 ^ 63
     \<and> speech_length_ok (synth_jump_size h) \<and> speech_length_ok (synth_speak_length h)
     \<and> prosody_volume_ok (synth_prosody_volume h) \<and> prosody_rate_ok (synth_prosody_rate h)"

lemma synth_table_length [simp]: "length synth_header_string_table = 21"
  by (simp add: synth_header_string_table_def)

lemma synth_cause_table_length: "length synth_completion_cause_string_table = 8"
  by (simp add: synth_completion_cause_string_table_def)

lemma synth_ids: "(i :: nat) < 21 \<Longrightarrow> i \<in> {0, 1, 2, 3, 4, 5, 6, 7, 8, 9, 10, 11, 12, 13, 14, 15, 16, 17, 18, 19, 20}"
  by simp arith

lemma synth_parse_known: "i < 21 \<Longrightarrow> fst (mrcp_synth_header_parse h i v)"
  by (drule synth_ids) (auto simp: mrcp_synth_header_parse_def)

lemma synth_duplicate_known: "i < 21 \<Longrightarrow> fst (mrcp_synth_header_duplicate h (Some e) i v)"
  by (drule synth_ids) (auto simp: mrcp_synth_header_duplicate_def)

lemma text_or_empty_some: "text_or_empty t = v \<Longrightarrow> v \<noteq> [] \<Longrightarrow> t = Some v"
  by (auto simp: text_or_empty_def split: option.splits)

lemma synth_cause_text:
  assumes "text_or_empty (apt_completion_cause_generate synth_completion_cause_string_table c) = v" "v \<noteq> []"
  shows "enum_of (apt_size_value_parse v) = c"
  using text_or_empty_some[OF assms] by (rule completion_cause_read) (simp add: synth_cause_table_length)

lemma synth_length_text:
  assumes "text_or_empty (mrcp_speech_length_generate l) = v" "v \<noteq> []" "speech_length_ok l"
  shows "text_or_empty (mrcp_speech_length_generate (snd (mrcp_speech_length_value_parse e v))) = v"
  using speech_length_roundtrip[OF assms(3) text_or_empty_some[OF assms(1,2)] assms(2)] by (simp add: text_or_empty_def)

lemma synth_gender_text:
  assumes "text_or_empty (apt_string_table_value_pgenerate voice_gender_string_table l) = v" "v \<noteq> []"
  shows "apt_string_table_value_parse voice_gender_string_table v = l"
  by (rule label_roundtrip[OF synth_tables_wf(3) text_or_empty_some[OF assms]])

lemma synth_generate_parse:
  assumes "synth_header_ok d" "i < 21" "mrcp_synth_header_generate d i = Some v" "v \<noteq> []"
  shows "mrcp_synth_header_generate (snd (mrcp_synth_header_parse e i v)) i = Some v"
  using synth_ids[OF assms(2)] assms(1,3,4)
  by (elim insertE emptyE)
    (auto simp: mrcp_synth_header_parse_def mrcp_synth_header_generate_def synth_header_ok_def size_roundtrip
      synth_cause_text synth_length_text synth_gender_text prosody_rate_roundtrip prosody_volume_roundtrip)

lemma synth_generate_duplicate:
  assumes "i < 21" "mrcp_synth_header_generate d i = Some v"
  shows "mrcp_synth_header_generate (snd (mrcp_synth_header_duplicate e (Some d) i v)) i = Some v"
  using synth_ids[OF assms(1)] assms(2)
  by (elim insertE emptyE) (auto simp: mrcp_synth_header_duplicate_def mrcp_synth_header_generate_def)

lemma synth_parse_other:
  assumes "j < 21" "i \<noteq> j"
  shows "mrcp_synth_header_generate (snd (mrcp_synth_header_parse e j v)) i = mrcp_synth_header_generate e i"
  using synth_ids[OF assms(1)] assms(2)
  by (elim insertE emptyE) (simp_all add: mrcp_synth_header_parse_def mrcp_synth_header_generate_def)

lemma synth_generates: "\<exists>v. mrcp_synth_header_generate h i = Some v"
  by (simp add: mrcp_synth_header_generate_def)

interpretation synth: header_codec synth_header_vtable synth_header_ok
  by unfold_locales
    (simp_all add: synth_header_vtable_def synth_tables_wf synth_parse_known synth_duplicate_known
      synth_generates synth_generate_parse synth_generate_duplicate synth_parse_other)

section \<open>The values of the fields\<close>

datatype synth_value =
    S_Text string
  | S_Number nat
  | S_Truth bool
  | S_Cause nat
  | S_Gender nat
  | S_Length speech_length
  | S_Volume prosody_volume
  | S_Rate prosody_rate

definition synth_value :: "mrcp_synth_header \<Rightarrow> nat \<Rightarrow> synth_value" where
  "synth_value h i =
     (if i = SYNTHESIZER_HEADER_JUMP_SIZE then S_Length (synth_jump_size h)
      else if i = SYNTHESIZER_HEADER_KILL_ON_BARGE_IN then S_Truth (synth_kill_on_barge_in h)
      else if i = SYNTHESIZER_HEADER_SPEAKER_PROFILE then S_Text (synth_speaker_profile h)
      else if i = SYNTHESIZER_HEADER_COMPLETION_CAUSE then S_Cause (synth_completion_cause h)
      else if i = SYNTHESIZER_HEADER_COMPLETION_REASON then S_Text (synth_completion_reason h)
      else if i = SYNTHESIZER_HEADER_VOICE_GENDER then S_Gender (synth_voice_gender h)
      else if i = SYNTHESIZER_HEADER_VOICE_AGE then S_Number (synth_voice_age h)
      else if i = SYNTHESIZER_HEADER_VOICE_VARIANT then S_Number (synth_voice_variant h)
      else if i = SYNTHESIZER_HEADER_VOICE_NAME then S_Text (synth_voice_name h)
      else if i = SYNTHESIZER_HEADER_PROSODY_VOLUME then S_Volume (synth_prosody_volume h)
      else if i = SYNTHESIZER_HEADER_PROSODY_RATE then S_Rate (synth_prosody_rate h)
      else if i = SYNTHESIZER_HEADER_SPEECH_MARKER then S_Text (synth_speech_marker h)
      else if i = SYNTHESIZER_HEADER_SPEECH_LANGUAGE then S_Text (synth_speech_language h)
      else if i = SYNTHESIZER_HEADER_FETCH_HINT then S_Text (synth_fetch_hint h)
      else if i = SYNTHESIZER_HEADER_AUDIO_FETCH_HINT then S_Text (synth_audio_fetch_hint h)
      else if i = SYNTHESIZER_HEADER_FAILED_URI then S_Text (synth_failed_uri h)
      else if i = SYNTHESIZER_HEADER_FAILED_URI_CAUSE then S_Text (synth_failed_uri_cause h)
      else if i = SYNTHESIZER_HEADER_SPEAK_RESTART then S_Truth (synth_speak_restart h)
      else if i = SYNTHESIZER_HEADER_SPEAK_LENGTH then S_Length (synth_speak_length h)
      else if i = SYNTHESIZER_HEADER_LOAD_LEXICON then S_Truth (synth_load_lexicon h)
      else if i = SYNTHESIZER_HEADER_LEXICON_SEARCH_ORDER then S_Text (synth_lexicon_search_order h)
      else S_Text [])"

text \<open>The values with a text: those that are not empty and whose labels and units have names.\<close>

fun synth_written :: "synth_value \<Rightarrow> bool" where
  "synth_written (S_Text v) \<longleftrightarrow> v \<noteq> []"
| "synth_written (S_Cause c) \<longleftrightarrow> c < 8"
| "synth_written (S_Gender g) \<longleftrightarrow> g < 3"
| "synth_written (S_Length l) \<longleftrightarrow>
     (case l of Length_Text tag \<Rightarrow> tag \<noteq> [] | Length_Positive n u \<Rightarrow> u < 4 | Length_Negative n u \<Rightarrow> u < 4
      | Length_Unknown \<Rightarrow> True)"
| "synth_written (S_Volume v) \<longleftrightarrow> (case v of Volume_Label l \<Rightarrow> l < 7 | _ \<Rightarrow> True)"
| "synth_written (S_Rate r) \<longleftrightarrow> (case r of Rate_Label l \<Rightarrow> l < 6 | _ \<Rightarrow> True)"
| "synth_written _ \<longleftrightarrow> True"

text \<open>
  What arrives: the value itself, with these exceptions. Of a fraction six digits arrive. A
  relative change of the volume arrives as a volume. A length that was never set arrives as minus
  zero seconds, an unset volume or rate as zero.
\<close>

definition same_text :: "fp \<Rightarrow> fp \<Rightarrow> bool" where
  "same_text x y \<longleftrightarrow> apt_float_value_generate x = apt_float_value_generate y"

fun synth_arrives :: "synth_value \<Rightarrow> synth_value \<Rightarrow> bool" where
  "synth_arrives (S_Length l) v \<longleftrightarrow> v = S_Length (if l = Length_Unknown then Length_Negative 0 0 else l)"
| "synth_arrives (S_Volume u) v \<longleftrightarrow>
     (case u of
        Volume_Label l \<Rightarrow> v = S_Volume (Volume_Label l)
      | Volume_Numeric x \<Rightarrow> \<exists>y. v = S_Volume (Volume_Numeric y) \<and> same_text x y
      | Volume_Relative x \<Rightarrow> \<exists>y. v = S_Volume (Volume_Numeric y) \<and> same_text x y
      | Volume_Unknown \<Rightarrow> \<exists>y. v = S_Volume (Volume_Numeric y) \<and> same_text (0, 0) y)"
| "synth_arrives (S_Rate u) v \<longleftrightarrow>
     (case u of
        Rate_Label l \<Rightarrow> v = S_Rate (Rate_Label l)
      | Rate_Relative x \<Rightarrow> \<exists>y. v = S_Rate (Rate_Relative y) \<and> same_text x y
      | Rate_Unknown \<Rightarrow> \<exists>y. v = S_Rate (Rate_Relative y) \<and> same_text (0, 0) y)"
| "synth_arrives u v \<longleftrightarrow> v = u"

lemma label_written:
  assumes "table_wf t" "i < length t"
  shows "text_or_empty (apt_string_table_value_pgenerate t i) \<noteq> []"
  using assms by (auto simp: table_wf_def apt_string_table_value_pgenerate_def apt_string_table_str_get_def
      text_or_empty_def list_all_length)

lemma synth_label_counts: "length prosody_volume_string_table = 7" "length prosody_rate_string_table = 6"
  "length voice_gender_string_table = 3" "length speech_unit_string_table = 4"
  by (simp_all add: prosody_volume_string_table_def prosody_rate_string_table_def voice_gender_string_table_def
      speech_unit_string_table_def)

lemma synth_size_texts [simp]: "apt_size_value_generate n \<noteq> []" "apt_boolean_value_generate b \<noteq> []"
  by (simp_all add: apt_size_value_generate_def apt_boolean_value_generate_def)

lemma numeric_written: "u < 4 \<Longrightarrow> text_or_empty (numeric_length_text c n u) \<noteq> []"
  by (simp add: numeric_length_text_def apt_string_table_str_get_def synth_label_counts text_or_empty_def)

lemma length_written: "synth_written (S_Length l) \<Longrightarrow> text_or_empty (mrcp_speech_length_generate l) \<noteq> []"
  by (cases l) (simp_all add: mrcp_speech_length_generate_def numeric_written, simp add: text_or_empty_def)

lemma volume_written: "synth_written (S_Volume v) \<Longrightarrow> prosody_volume_ok v \<Longrightarrow> mrcp_prosody_volume_generate v \<noteq> []"
  by (cases v) (simp_all add: mrcp_prosody_volume_generate_def prosody_volume_ok_def synth_label_counts
      label_written[OF synth_tables_wf(4)] float_ok_nonempty zero_float_ok)

lemma rate_written: "synth_written (S_Rate v) \<Longrightarrow> prosody_rate_ok v \<Longrightarrow> mrcp_prosody_rate_generate v \<noteq> []"
  by (cases v) (simp_all add: mrcp_prosody_rate_generate_def prosody_rate_ok_def synth_label_counts
      label_written[OF synth_tables_wf(5)] float_ok_nonempty zero_float_ok)

lemma cause_written: "c < 8 \<Longrightarrow> text_or_empty (apt_completion_cause_generate synth_completion_cause_string_table c) \<noteq> []"
  using completion_cause_text[of synth_completion_cause_string_table c] synth_cause_table_length
  by (simp add: text_or_empty_def)

lemma gender_written: "g < 3 \<Longrightarrow> text_or_empty (apt_string_table_value_pgenerate voice_gender_string_table g) \<noteq> []"
  by (simp add: label_written[OF synth_tables_wf(3)] synth_label_counts)

lemma synth_text_written:
  assumes "synth_header_ok d" "i < 21" "synth_written (synth_value d i)"
  shows "mrcp_synth_header_generate d i \<noteq> Some []"
  using synth_ids[OF assms(2)] assms(1,3)
  by (elim insertE emptyE)
    (simp_all add: synth_value_def mrcp_synth_header_generate_def synth_header_ok_def length_written
      volume_written rate_written cause_written gender_written del: synth_written.simps(4-6))

lemma length_arrives:
  assumes "text_or_empty (mrcp_speech_length_generate l) = v" "v \<noteq> []" "speech_length_ok l"
  shows "snd (mrcp_speech_length_value_parse e v) = (if l = Length_Unknown then Length_Negative 0 0 else l)"
proof -
  note g = text_or_empty_some[OF assms(1,2)]
  show ?thesis
  proof (cases l)
    case (Length_Text tag)
    then show ?thesis using assms g
      by (cases v) (auto simp: mrcp_speech_length_generate_def speech_length_ok_def mrcp_speech_length_value_parse_def)
  qed (use g assms(3) numeric_length_read[of "CHR ''+''" _ _ v e] numeric_length_read[of "CHR ''-''" _ _ v e] in
      \<open>auto simp: mrcp_speech_length_generate_def speech_length_ok_def\<close>)
qed

lemma volume_arrives:
  assumes "prosody_volume_ok r" "mrcp_prosody_volume_generate r \<noteq> []"
  shows "synth_arrives (S_Volume r) (S_Volume (snd (mrcp_prosody_param_volume_parse e (mrcp_prosody_volume_generate r))))"
proof (cases r)
  case (Volume_Label l)
  then obtain w where w: "apt_string_table_value_pgenerate prosody_volume_string_table l = Some w"
    using assms(2) by (auto simp: mrcp_prosody_volume_generate_def text_or_empty_def split: option.splits)
  then have "name_ok w" by (rule label_names(1))
  then have "snd (mrcp_prosody_param_volume_parse e w) = Volume_Label (apt_string_table_value_parse prosody_volume_string_table w)"
    by (cases w) (simp_all add: mrcp_prosody_param_volume_parse_def name_ok_def)
  then show ?thesis using label_roundtrip[OF synth_tables_wf(4) w] w Volume_Label
    by (simp add: mrcp_prosody_volume_generate_def text_or_empty_def)
qed (use assms zero_float_ok in
    \<open>auto simp: mrcp_prosody_volume_generate_def prosody_volume_ok_def float_volume_read float_ok_text same_text_def\<close>)

lemma rate_arrives:
  assumes "prosody_rate_ok r" "mrcp_prosody_rate_generate r \<noteq> []"
  shows "synth_arrives (S_Rate r) (S_Rate (snd (mrcp_prosody_param_rate_parse e (mrcp_prosody_rate_generate r))))"
proof (cases r)
  case (Rate_Label l)
  then obtain w where w: "apt_string_table_value_pgenerate prosody_rate_string_table l = Some w"
    using assms(2) by (auto simp: mrcp_prosody_rate_generate_def text_or_empty_def split: option.splits)
  then have "name_ok w" by (rule label_names(2))
  then have "snd (mrcp_prosody_param_rate_parse e w) = Rate_Label (apt_string_table_value_parse prosody_rate_string_table w)"
    by (cases w) (simp_all add: mrcp_prosody_param_rate_parse_def name_ok_def)
  then show ?thesis using label_roundtrip[OF synth_tables_wf(5) w] w Rate_Label
    by (simp add: mrcp_prosody_rate_generate_def text_or_empty_def)
qed (use assms zero_float_ok in
    \<open>auto simp: mrcp_prosody_rate_generate_def prosody_rate_ok_def float_rate_read float_ok_text same_text_def\<close>)

lemma synth_value_arrives:
  assumes "synth_header_ok d" "i < 21" "mrcp_synth_header_generate d i = Some v" "v \<noteq> []"
  shows "synth_arrives (synth_value d i) (synth_value (snd (mrcp_synth_header_parse e i v)) i)"
  using synth_ids[OF assms(2)] assms(1,3,4)
  by (elim insertE emptyE)
    (auto simp: mrcp_synth_header_parse_def mrcp_synth_header_generate_def synth_value_def synth_header_ok_def
      size_roundtrip synth_cause_text synth_gender_text length_arrives
      simp del: synth_arrives.simps(2,3) intro: volume_arrives rate_arrives)

lemma synth_value_other:
  assumes "j < 21" "i \<noteq> j"
  shows "synth_value (snd (mrcp_synth_header_parse e j v)) i = synth_value e i"
  using synth_ids[OF assms(1)] assms(2)
  by (elim insertE emptyE) (simp_all add: mrcp_synth_header_parse_def synth_value_def)

interpretation synth_values: header_values synth_header_vtable synth_header_ok synth_value synth_written synth_arrives
  by unfold_locales
    (simp_all add: synth_header_vtable_def synth_text_written synth_value_arrives synth_value_other)

section \<open>Properties\<close>



text \<open>
  A relative change of the volume is received as an absolute volume. The generator writes it
  without the sign by which the parser tells the two apart.
\<close>

theorem relative_volume_received_numeric:
  assumes "float_ok x"
  shows "\<exists>y. mrcp_prosody_param_volume_parse e (mrcp_prosody_volume_generate (Volume_Relative x)) = (True, Volume_Numeric y)
    \<and> apt_float_value_generate y = apt_float_value_generate x"
proof -
  obtain c cs where "apt_float_value_generate x = c # cs" "is_digit c" "c \<noteq> CHR ''+''" "c \<noteq> CHR ''-''"
    by (rule float_text_shape[OF assms])
  then show ?thesis using float_ok_text[OF assms]
    by (simp add: mrcp_prosody_volume_generate_def mrcp_prosody_param_volume_parse_def)
qed

lemma relative_volume_received_numeric_witness:
  "\<exists>y. mrcp_prosody_param_volume_parse Volume_Unknown (mrcp_prosody_volume_generate (Volume_Relative (5, 0)))
    = (True, Volume_Numeric y)"
  using relative_volume_received_numeric[of "(5, 0)" Volume_Unknown]
  by (auto simp: float_ok_def fp_num_def fp_micro_def fp_den_def)

end
