(* ===== verification/Recorder_Header.thy ===== *)
theory Recorder_Header
  imports Recorder_SM Header_Codec
begin

text \<open>
  \<open>libs/mrcp/resources/src/mrcp_recorder_header.c\<close>: the header fields of the recorder. The record
  extends the part of the header the state machine works with.
\<close>

abbreviation (input) RECORDER_HEADER_SENSITIVITY_LEVEL :: nat where "RECORDER_HEADER_SENSITIVITY_LEVEL \<equiv> 0"
abbreviation (input) RECORDER_HEADER_NO_INPUT_TIMEOUT :: nat where "RECORDER_HEADER_NO_INPUT_TIMEOUT \<equiv> 1"
abbreviation (input) RECORDER_HEADER_COMPLETION_REASON :: nat where "RECORDER_HEADER_COMPLETION_REASON \<equiv> 3"
abbreviation (input) RECORDER_HEADER_FAILED_URI :: nat where "RECORDER_HEADER_FAILED_URI \<equiv> 4"
abbreviation (input) RECORDER_HEADER_FAILED_URI_CAUSE :: nat where "RECORDER_HEADER_FAILED_URI_CAUSE \<equiv> 5"
abbreviation (input) RECORDER_HEADER_RECORD_URI :: nat where "RECORDER_HEADER_RECORD_URI \<equiv> 6"
abbreviation (input) RECORDER_HEADER_MEDIA_TYPE :: nat where "RECORDER_HEADER_MEDIA_TYPE \<equiv> 7"
abbreviation (input) RECORDER_HEADER_MAX_TIME :: nat where "RECORDER_HEADER_MAX_TIME \<equiv> 8"
abbreviation (input) RECORDER_HEADER_TRIM_LENGTH :: nat where "RECORDER_HEADER_TRIM_LENGTH \<equiv> 9"
abbreviation (input) RECORDER_HEADER_FINAL_SILENCE :: nat where "RECORDER_HEADER_FINAL_SILENCE \<equiv> 10"
abbreviation (input) RECORDER_HEADER_CAPTURE_ON_SPEECH :: nat where "RECORDER_HEADER_CAPTURE_ON_SPEECH \<equiv> 11"
abbreviation (input) RECORDER_HEADER_VER_BUFFER_UTTERANCE :: nat where "RECORDER_HEADER_VER_BUFFER_UTTERANCE \<equiv> 12"
abbreviation (input) RECORDER_HEADER_START_INPUT_TIMERS :: nat where "RECORDER_HEADER_START_INPUT_TIMERS \<equiv> 13"
abbreviation (input) RECORDER_HEADER_NEW_AUDIO_CHANNEL :: nat where "RECORDER_HEADER_NEW_AUDIO_CHANNEL \<equiv> 14"

record mrcp_recorder_header = recorder_header +
  recorder_sensitivity_level :: fp
  recorder_no_input_timeout :: nat
  recorder_completion_reason :: string
  recorder_failed_uri :: string
  recorder_failed_uri_cause :: string
  recorder_record_uri :: string
  recorder_media_type :: string
  recorder_max_time :: nat
  recorder_trim_length :: nat
  recorder_final_silence :: nat
  recorder_capture_on_speech :: bool
  recorder_ver_buffer_utterance :: bool
  recorder_start_input_timers :: bool
  recorder_new_audio_channel :: bool

definition recorder_header_string_table :: str_table where
  "recorder_header_string_table =
     [\<lparr>st_value = ''Sensitivity-Level'', st_key = 3\<rparr>,
      \<lparr>st_value = ''No-Input-Timeout'', st_key = 2\<rparr>,
      \<lparr>st_value = ''Completion-Cause'', st_key = 16\<rparr>,
      \<lparr>st_value = ''Completion-Reason'', st_key = 11\<rparr>,
      \<lparr>st_value = ''Failed-Uri'', st_key = 10\<rparr>,
      \<lparr>st_value = ''Failed-Uri-Cause'', st_key = 16\<rparr>,
      \<lparr>st_value = ''Record-Uri'', st_key = 0\<rparr>,
      \<lparr>st_value = ''Media-Type'', st_key = 2\<rparr>,
      \<lparr>st_value = ''Max-Time'', st_key = 2\<rparr>,
      \<lparr>st_value = ''Trim-Length'', st_key = 0\<rparr>,
      \<lparr>st_value = ''Final-Silence'', st_key = 1\<rparr>,
      \<lparr>st_value = ''Capture-On-Speech'', st_key = 2\<rparr>,
      \<lparr>st_value = ''Ver-Buffer-Utterance'', st_key = 0\<rparr>,
      \<lparr>st_value = ''Start-Input-Timers'', st_key = 1\<rparr>,
      \<lparr>st_value = ''New-Audio-Channel'', st_key = 2\<rparr>]"

definition recorder_completion_cause_string_table :: str_table where
  "recorder_completion_cause_string_table =
     [\<lparr>st_value = ''success-silence'', st_key = 8\<rparr>,
      \<lparr>st_value = ''success-maxtime'', st_key = 8\<rparr>,
      \<lparr>st_value = ''no-input-timeout'', st_key = 0\<rparr>,
      \<lparr>st_value = ''uri-failure'', st_key = 0\<rparr>,
      \<lparr>st_value = ''error'', st_key = 0\<rparr>]"

definition mrcp_recorder_header_init :: mrcp_recorder_header where
  "mrcp_recorder_header_init =
     \<lparr>recorder_completion_cause = 5, recorder_sensitivity_level = (0, 0),
      recorder_no_input_timeout = 0, recorder_completion_reason = [], recorder_failed_uri = [],
      recorder_failed_uri_cause = [], recorder_record_uri = [], recorder_media_type = [],
      recorder_max_time = 0, recorder_trim_length = 0, recorder_final_silence = 0,
      recorder_capture_on_speech = False, recorder_ver_buffer_utterance = False,
      recorder_start_input_timers = False, recorder_new_audio_channel = False\<rparr>"

definition mrcp_recorder_header_parse :: "mrcp_recorder_header \<Rightarrow> nat \<Rightarrow> string \<Rightarrow> bool \<times> mrcp_recorder_header" where
  "mrcp_recorder_header_parse h i v =
     (if i = RECORDER_HEADER_SENSITIVITY_LEVEL then (True, h\<lparr>recorder_sensitivity_level := apt_float_value_parse v\<rparr>)
      else if i = RECORDER_HEADER_NO_INPUT_TIMEOUT then (True, h\<lparr>recorder_no_input_timeout := apt_size_value_parse v\<rparr>)
      else if i = RECORDER_HEADER_COMPLETION_CAUSE then (True, h\<lparr>recorder_completion_cause := enum_of (apt_size_value_parse v)\<rparr>)
      else if i = RECORDER_HEADER_COMPLETION_REASON then (True, h\<lparr>recorder_completion_reason := v\<rparr>)
      else if i = RECORDER_HEADER_FAILED_URI then (True, h\<lparr>recorder_failed_uri := v\<rparr>)
      else if i = RECORDER_HEADER_FAILED_URI_CAUSE then (True, h\<lparr>recorder_failed_uri_cause := v\<rparr>)
      else if i = RECORDER_HEADER_RECORD_URI then (True, h\<lparr>recorder_record_uri := v\<rparr>)
      else if i = RECORDER_HEADER_MEDIA_TYPE then (True, h\<lparr>recorder_media_type := v\<rparr>)
      else if i = RECORDER_HEADER_MAX_TIME then (True, h\<lparr>recorder_max_time := apt_size_value_parse v\<rparr>)
      else if i = RECORDER_HEADER_TRIM_LENGTH then (True, h\<lparr>recorder_trim_length := apt_size_value_parse v\<rparr>)
      else if i = RECORDER_HEADER_FINAL_SILENCE then (True, h\<lparr>recorder_final_silence := apt_size_value_parse v\<rparr>)
      else if i = RECORDER_HEADER_CAPTURE_ON_SPEECH then (True, h\<lparr>recorder_capture_on_speech := bool_set v (recorder_capture_on_speech h)\<rparr>)
      else if i = RECORDER_HEADER_VER_BUFFER_UTTERANCE then (True, h\<lparr>recorder_ver_buffer_utterance := bool_set v (recorder_ver_buffer_utterance h)\<rparr>)
      else if i = RECORDER_HEADER_START_INPUT_TIMERS then (True, h\<lparr>recorder_start_input_timers := bool_set v (recorder_start_input_timers h)\<rparr>)
      else if i = RECORDER_HEADER_NEW_AUDIO_CHANNEL then (True, h\<lparr>recorder_new_audio_channel := bool_set v (recorder_new_audio_channel h)\<rparr>)
      else (False, h))"

definition mrcp_recorder_header_generate :: "mrcp_recorder_header \<Rightarrow> nat \<Rightarrow> string option" where
  "mrcp_recorder_header_generate h i =
     (if i = RECORDER_HEADER_SENSITIVITY_LEVEL then Some (apt_float_value_generate (recorder_sensitivity_level h))
      else if i = RECORDER_HEADER_NO_INPUT_TIMEOUT then Some (apt_size_value_generate (recorder_no_input_timeout h))
      else if i = RECORDER_HEADER_COMPLETION_CAUSE then Some (text_or_empty (apt_completion_cause_generate recorder_completion_cause_string_table (recorder_completion_cause h)))
      else if i = RECORDER_HEADER_COMPLETION_REASON then Some (recorder_completion_reason h)
      else if i = RECORDER_HEADER_FAILED_URI then Some (recorder_failed_uri h)
      else if i = RECORDER_HEADER_FAILED_URI_CAUSE then Some (recorder_failed_uri_cause h)
      else if i = RECORDER_HEADER_RECORD_URI then Some (recorder_record_uri h)
      else if i = RECORDER_HEADER_MEDIA_TYPE then Some (recorder_media_type h)
      else if i = RECORDER_HEADER_MAX_TIME then Some (apt_size_value_generate (recorder_max_time h))
      else if i = RECORDER_HEADER_TRIM_LENGTH then Some (apt_size_value_generate (recorder_trim_length h))
      else if i = RECORDER_HEADER_FINAL_SILENCE then Some (apt_size_value_generate (recorder_final_silence h))
      else if i = RECORDER_HEADER_CAPTURE_ON_SPEECH then Some (apt_boolean_value_generate (recorder_capture_on_speech h))
      else if i = RECORDER_HEADER_VER_BUFFER_UTTERANCE then Some (apt_boolean_value_generate (recorder_ver_buffer_utterance h))
      else if i = RECORDER_HEADER_START_INPUT_TIMERS then Some (apt_boolean_value_generate (recorder_start_input_timers h))
      else if i = RECORDER_HEADER_NEW_AUDIO_CHANNEL then Some (apt_boolean_value_generate (recorder_new_audio_channel h))
      else Some [])"

definition mrcp_recorder_header_duplicate ::
  "mrcp_recorder_header \<Rightarrow> mrcp_recorder_header option \<Rightarrow> nat \<Rightarrow> string \<Rightarrow> bool \<times> mrcp_recorder_header" where
  "mrcp_recorder_header_duplicate h src0 i v =
     (case src0 of None \<Rightarrow> (False, h) | Some src \<Rightarrow>
      if i = RECORDER_HEADER_SENSITIVITY_LEVEL then (True, h\<lparr>recorder_sensitivity_level := recorder_sensitivity_level src\<rparr>)
      else if i = RECORDER_HEADER_NO_INPUT_TIMEOUT then (True, h\<lparr>recorder_no_input_timeout := recorder_no_input_timeout src\<rparr>)
      else if i = RECORDER_HEADER_COMPLETION_CAUSE then (True, h\<lparr>recorder_completion_cause := recorder_completion_cause src\<rparr>)
      else if i = RECORDER_HEADER_COMPLETION_REASON then (True, h\<lparr>recorder_completion_reason := v\<rparr>)
      else if i = RECORDER_HEADER_FAILED_URI then (True, h\<lparr>recorder_failed_uri := v\<rparr>)
      else if i = RECORDER_HEADER_FAILED_URI_CAUSE then (True, h\<lparr>recorder_failed_uri_cause := v\<rparr>)
      else if i = RECORDER_HEADER_RECORD_URI then (True, h\<lparr>recorder_record_uri := v\<rparr>)
      else if i = RECORDER_HEADER_MEDIA_TYPE then (True, h\<lparr>recorder_media_type := v\<rparr>)
      else if i = RECORDER_HEADER_MAX_TIME then (True, h\<lparr>recorder_max_time := recorder_max_time src\<rparr>)
      else if i = RECORDER_HEADER_TRIM_LENGTH then (True, h\<lparr>recorder_trim_length := recorder_trim_length src\<rparr>)
      else if i = RECORDER_HEADER_FINAL_SILENCE then (True, h\<lparr>recorder_final_silence := recorder_final_silence src\<rparr>)
      else if i = RECORDER_HEADER_CAPTURE_ON_SPEECH then (True, h\<lparr>recorder_capture_on_speech := recorder_capture_on_speech src\<rparr>)
      else if i = RECORDER_HEADER_VER_BUFFER_UTTERANCE then (True, h\<lparr>recorder_ver_buffer_utterance := recorder_ver_buffer_utterance src\<rparr>)
      else if i = RECORDER_HEADER_START_INPUT_TIMERS then (True, h\<lparr>recorder_start_input_timers := recorder_start_input_timers src\<rparr>)
      else if i = RECORDER_HEADER_NEW_AUDIO_CHANNEL then (True, h\<lparr>recorder_new_audio_channel := recorder_new_audio_channel src\<rparr>)
      else (False, h))"

definition recorder_header_vtable :: "mrcp_recorder_header header_vtable" where
  "recorder_header_vtable =
     \<lparr>vt_allocate = mrcp_recorder_header_init, vt_parse_field = mrcp_recorder_header_parse,
      vt_generate_field = mrcp_recorder_header_generate, vt_duplicate_field = mrcp_recorder_header_duplicate,
      vt_field_table = recorder_header_string_table\<rparr>"

definition mrcp_recorder_header_vtable_get :: "mrcp_version \<Rightarrow> mrcp_recorder_header header_vtable" where
  "mrcp_recorder_header_vtable_get version = recorder_header_vtable"

definition mrcp_recorder_completion_cause_get :: "nat \<Rightarrow> mrcp_version \<Rightarrow> string option" where
  "mrcp_recorder_completion_cause_get cause version = apt_string_table_str_get recorder_completion_cause_string_table cause"

section \<open>The laws of a header\<close>

text \<open>
  Numbers in the range of \<open>long\<close>, fractions in the range in which their text is exact, and a
  completion cause of the table.
\<close>

definition recorder_header_ok :: "mrcp_recorder_header \<Rightarrow> bool" where
  "recorder_header_ok h \<longleftrightarrow>
     recorder_no_input_timeout h < 2 ^ 63
     \<and> recorder_max_time h < 2 ^ 63
     \<and> recorder_trim_length h < 2 ^ 63
     \<and> recorder_final_silence h < 2 ^ 63
     \<and> float_ok (recorder_sensitivity_level h)
     \<and> recorder_completion_cause h < 5"

lemma recorder_table_length [simp]: "length recorder_header_string_table = 15"
  by (simp add: recorder_header_string_table_def)

lemma recorder_cause_table_length: "length recorder_completion_cause_string_table = 5"
  by (simp add: recorder_completion_cause_string_table_def)

lemma recorder_table_wf: "table_wf recorder_header_string_table"
  by (simp add: table_wf_def recorder_header_string_table_def nul_def tolower_def)

lemma recorder_ids: "(i :: nat) < 15 \<Longrightarrow> i \<in> {0, 1, 2, 3, 4, 5, 6, 7, 8, 9, 10, 11, 12, 13, 14}"
  by simp arith

lemma recorder_parse_known: "i < 15 \<Longrightarrow> fst (mrcp_recorder_header_parse h i v)"
  by (drule recorder_ids) (auto simp: mrcp_recorder_header_parse_def)

lemma recorder_duplicate_known: "i < 15 \<Longrightarrow> fst (mrcp_recorder_header_duplicate h (Some e) i v)"
  by (drule recorder_ids) (auto simp: mrcp_recorder_header_duplicate_def)

lemma recorder_cause_text:
  assumes "recorder_completion_cause h < 5"
  shows "\<exists>v. apt_completion_cause_generate recorder_completion_cause_string_table (recorder_completion_cause h) = Some v
    \<and> enum_of (apt_size_value_parse v) = recorder_completion_cause h"
  using assms completion_cause_text[of recorder_completion_cause_string_table "recorder_completion_cause h"]
    completion_cause_read[of recorder_completion_cause_string_table "recorder_completion_cause h"]
  by (simp add: recorder_cause_table_length)

lemma recorder_generate_parse:
  assumes "recorder_header_ok d" "i < 15" "mrcp_recorder_header_generate d i = Some v" "v \<noteq> []"
  shows "mrcp_recorder_header_generate (snd (mrcp_recorder_header_parse e i v)) i = Some v"
  using recorder_ids[OF assms(2)] assms(1,3,4) recorder_cause_text[of d]
  by (elim insertE emptyE)
    (auto simp: mrcp_recorder_header_parse_def mrcp_recorder_header_generate_def recorder_header_ok_def size_roundtrip
      text_or_empty_def float_ok_text)

lemma recorder_generate_duplicate:
  assumes "i < 15" "mrcp_recorder_header_generate d i = Some v"
  shows "mrcp_recorder_header_generate (snd (mrcp_recorder_header_duplicate e (Some d) i v)) i = Some v"
  using recorder_ids[OF assms(1)] assms(2)
  by (elim insertE emptyE) (auto simp: mrcp_recorder_header_duplicate_def mrcp_recorder_header_generate_def)

lemma recorder_parse_other:
  assumes "j < 15" "i \<noteq> j"
  shows "mrcp_recorder_header_generate (snd (mrcp_recorder_header_parse e j v)) i = mrcp_recorder_header_generate e i"
  using recorder_ids[OF assms(1)] assms(2)
  by (elim insertE emptyE) (simp_all add: mrcp_recorder_header_parse_def mrcp_recorder_header_generate_def)

lemma recorder_generates: "\<exists>v. mrcp_recorder_header_generate h i = Some v"
  by (simp add: mrcp_recorder_header_generate_def)

interpretation recorder: header_codec recorder_header_vtable recorder_header_ok
  by unfold_locales
    (simp_all add: recorder_header_vtable_def recorder_table_wf recorder_parse_known recorder_duplicate_known
      recorder_generates recorder_generate_parse recorder_generate_duplicate recorder_parse_other)

end
