(* ===== verification/Verifier_Header.thy ===== *)
theory Verifier_Header
  imports Verifier_SM Header_Codec
begin

text \<open>
  \<open>libs/mrcp/resources/src/mrcp_verifier_header.c\<close>: the header fields of the verifier. The record
  extends the part of the header the state machine works with.
\<close>

abbreviation (input) VERIFIER_HEADER_REPOSITORY_URI :: nat where "VERIFIER_HEADER_REPOSITORY_URI \<equiv> 0"
abbreviation (input) VERIFIER_HEADER_VOICEPRINT_IDENTIFIER :: nat where "VERIFIER_HEADER_VOICEPRINT_IDENTIFIER \<equiv> 1"
abbreviation (input) VERIFIER_HEADER_VERIFICATION_MODE :: nat where "VERIFIER_HEADER_VERIFICATION_MODE \<equiv> 2"
abbreviation (input) VERIFIER_HEADER_ADAPT_MODEL :: nat where "VERIFIER_HEADER_ADAPT_MODEL \<equiv> 3"
abbreviation (input) VERIFIER_HEADER_ABORT_MODEL :: nat where "VERIFIER_HEADER_ABORT_MODEL \<equiv> 4"
abbreviation (input) VERIFIER_HEADER_MIN_VERIFICATION_SCORE :: nat where "VERIFIER_HEADER_MIN_VERIFICATION_SCORE \<equiv> 5"
abbreviation (input) VERIFIER_HEADER_NUM_MIN_VERIFICATION_PHRASES :: nat where "VERIFIER_HEADER_NUM_MIN_VERIFICATION_PHRASES \<equiv> 6"
abbreviation (input) VERIFIER_HEADER_NUM_MAX_VERIFICATION_PHRASES :: nat where "VERIFIER_HEADER_NUM_MAX_VERIFICATION_PHRASES \<equiv> 7"
abbreviation (input) VERIFIER_HEADER_NO_INPUT_TIMEOUT :: nat where "VERIFIER_HEADER_NO_INPUT_TIMEOUT \<equiv> 8"
abbreviation (input) VERIFIER_HEADER_SAVE_WAVEFORM :: nat where "VERIFIER_HEADER_SAVE_WAVEFORM \<equiv> 9"
abbreviation (input) VERIFIER_HEADER_MEDIA_TYPE :: nat where "VERIFIER_HEADER_MEDIA_TYPE \<equiv> 10"
abbreviation (input) VERIFIER_HEADER_WAVEFORM_URI :: nat where "VERIFIER_HEADER_WAVEFORM_URI \<equiv> 11"
abbreviation (input) VERIFIER_HEADER_VOICEPRINT_EXISTS :: nat where "VERIFIER_HEADER_VOICEPRINT_EXISTS \<equiv> 12"
abbreviation (input) VERIFIER_HEADER_VER_BUFFER_UTTERANCE :: nat where "VERIFIER_HEADER_VER_BUFFER_UTTERANCE \<equiv> 13"
abbreviation (input) VERIFIER_HEADER_INPUT_WAVEFORM_URI :: nat where "VERIFIER_HEADER_INPUT_WAVEFORM_URI \<equiv> 14"
abbreviation (input) VERIFIER_HEADER_COMPLETION_REASON :: nat where "VERIFIER_HEADER_COMPLETION_REASON \<equiv> 16"
abbreviation (input) VERIFIER_HEADER_SPEECH_COMPLETE_TIMEOUT :: nat where "VERIFIER_HEADER_SPEECH_COMPLETE_TIMEOUT \<equiv> 17"
abbreviation (input) VERIFIER_HEADER_NEW_AUDIO_CHANNEL :: nat where "VERIFIER_HEADER_NEW_AUDIO_CHANNEL \<equiv> 18"
abbreviation (input) VERIFIER_HEADER_ABORT_VERIFICATION :: nat where "VERIFIER_HEADER_ABORT_VERIFICATION \<equiv> 19"
abbreviation (input) VERIFIER_HEADER_START_INPUT_TIMERS :: nat where "VERIFIER_HEADER_START_INPUT_TIMERS \<equiv> 20"

record mrcp_verifier_header = verifier_header +
  verifier_repository_uri :: string
  verifier_voiceprint_identifier :: string
  verifier_verification_mode :: string
  verifier_adapt_model :: bool
  verifier_abort_model :: bool
  verifier_min_verification_score :: fp
  verifier_num_min_verification_phrases :: nat
  verifier_num_max_verification_phrases :: nat
  verifier_no_input_timeout :: nat
  verifier_save_waveform :: bool
  verifier_media_type :: string
  verifier_waveform_uri :: string
  verifier_voiceprint_exists :: bool
  verifier_ver_buffer_utterance :: bool
  verifier_input_waveform_uri :: string
  verifier_completion_reason :: string
  verifier_speech_complete_timeout :: nat
  verifier_new_audio_channel :: bool
  verifier_abort_verification :: bool
  verifier_start_input_timers :: bool

definition verifier_header_string_table :: str_table where
  "verifier_header_string_table =
     [\<lparr>st_value = ''Repository-URI'', st_key = 0\<rparr>,
      \<lparr>st_value = ''Voiceprint-Identifier'', st_key = 12\<rparr>,
      \<lparr>st_value = ''Verification-Mode'', st_key = 6\<rparr>,
      \<lparr>st_value = ''Adapt-Model'', st_key = 1\<rparr>,
      \<lparr>st_value = ''Abort-Model'', st_key = 11\<rparr>,
      \<lparr>st_value = ''Min-Verification-Score'', st_key = 1\<rparr>,
      \<lparr>st_value = ''Num-Min-Verification-Phrases'', st_key = 6\<rparr>,
      \<lparr>st_value = ''Num-Max-Verification-Phrases'', st_key = 5\<rparr>,
      \<lparr>st_value = ''No-Input-Timeout'', st_key = 2\<rparr>,
      \<lparr>st_value = ''Save-Waveform'', st_key = 4\<rparr>,
      \<lparr>st_value = ''Media-Type'', st_key = 2\<rparr>,
      \<lparr>st_value = ''Waveform-URI'', st_key = 0\<rparr>,
      \<lparr>st_value = ''Voiceprint-Exists'', st_key = 11\<rparr>,
      \<lparr>st_value = ''Ver-Buffer-Utterance'', st_key = 4\<rparr>,
      \<lparr>st_value = ''Input-Waveform-URI'', st_key = 0\<rparr>,
      \<lparr>st_value = ''Completion-Cause'', st_key = 11\<rparr>,
      \<lparr>st_value = ''Completion-Reason'', st_key = 15\<rparr>,
      \<lparr>st_value = ''Speech-Complete-Timeout'', st_key = 1\<rparr>,
      \<lparr>st_value = ''New-Audio-Channel'', st_key = 2\<rparr>,
      \<lparr>st_value = ''Abort-Verification'', st_key = 6\<rparr>,
      \<lparr>st_value = ''Start-Input-Timers'', st_key = 1\<rparr>]"

definition verifier_completion_cause_string_table :: str_table where
  "verifier_completion_cause_string_table =
     [\<lparr>st_value = ''success'', st_key = 2\<rparr>,
      \<lparr>st_value = ''error'', st_key = 0\<rparr>,
      \<lparr>st_value = ''no-input-timeout'', st_key = 0\<rparr>,
      \<lparr>st_value = ''too-much-speech-timeout'', st_key = 0\<rparr>,
      \<lparr>st_value = ''speech-too-early'', st_key = 9\<rparr>,
      \<lparr>st_value = ''buffer-empty'', st_key = 0\<rparr>,
      \<lparr>st_value = ''out-of-sequence'', st_key = 0\<rparr>,
      \<lparr>st_value = ''repository-uri-failure'', st_key = 15\<rparr>,
      \<lparr>st_value = ''repository-uri-missing'', st_key = 15\<rparr>,
      \<lparr>st_value = ''voiceprint-id-missing'', st_key = 14\<rparr>,
      \<lparr>st_value = ''voiceprint-id-not-exist'', st_key = 14\<rparr>,
      \<lparr>st_value = ''speech-not-usable'', st_key = 7\<rparr>]"

definition mrcp_verifier_header_init :: mrcp_verifier_header where
  "mrcp_verifier_header_init =
     \<lparr>verifier_completion_cause = 12, verifier_repository_uri = [],
      verifier_voiceprint_identifier = [], verifier_verification_mode = [],
      verifier_adapt_model = False, verifier_abort_model = False,
      verifier_min_verification_score = (0, 0), verifier_num_min_verification_phrases = 0,
      verifier_num_max_verification_phrases = 0, verifier_no_input_timeout = 0,
      verifier_save_waveform = False, verifier_media_type = [], verifier_waveform_uri = [],
      verifier_voiceprint_exists = False, verifier_ver_buffer_utterance = False,
      verifier_input_waveform_uri = [], verifier_completion_reason = [],
      verifier_speech_complete_timeout = 0, verifier_new_audio_channel = False,
      verifier_abort_verification = False, verifier_start_input_timers = False\<rparr>"

definition mrcp_verifier_header_parse :: "mrcp_verifier_header \<Rightarrow> nat \<Rightarrow> string \<Rightarrow> bool \<times> mrcp_verifier_header" where
  "mrcp_verifier_header_parse h i v =
     (if i = VERIFIER_HEADER_REPOSITORY_URI then (True, h\<lparr>verifier_repository_uri := v\<rparr>)
      else if i = VERIFIER_HEADER_VOICEPRINT_IDENTIFIER then (True, h\<lparr>verifier_voiceprint_identifier := v\<rparr>)
      else if i = VERIFIER_HEADER_VERIFICATION_MODE then (True, h\<lparr>verifier_verification_mode := v\<rparr>)
      else if i = VERIFIER_HEADER_ADAPT_MODEL then (True, h\<lparr>verifier_adapt_model := bool_set v (verifier_adapt_model h)\<rparr>)
      else if i = VERIFIER_HEADER_ABORT_MODEL then (True, h\<lparr>verifier_abort_model := bool_set v (verifier_abort_model h)\<rparr>)
      else if i = VERIFIER_HEADER_MIN_VERIFICATION_SCORE then (True, h\<lparr>verifier_min_verification_score := apt_float_value_parse v\<rparr>)
      else if i = VERIFIER_HEADER_NUM_MIN_VERIFICATION_PHRASES then (True, h\<lparr>verifier_num_min_verification_phrases := apt_size_value_parse v\<rparr>)
      else if i = VERIFIER_HEADER_NUM_MAX_VERIFICATION_PHRASES then (True, h\<lparr>verifier_num_max_verification_phrases := apt_size_value_parse v\<rparr>)
      else if i = VERIFIER_HEADER_NO_INPUT_TIMEOUT then (True, h\<lparr>verifier_no_input_timeout := apt_size_value_parse v\<rparr>)
      else if i = VERIFIER_HEADER_SAVE_WAVEFORM then (True, h\<lparr>verifier_save_waveform := bool_set v (verifier_save_waveform h)\<rparr>)
      else if i = VERIFIER_HEADER_MEDIA_TYPE then (True, h\<lparr>verifier_media_type := v\<rparr>)
      else if i = VERIFIER_HEADER_WAVEFORM_URI then (True, h\<lparr>verifier_waveform_uri := v\<rparr>)
      else if i = VERIFIER_HEADER_VOICEPRINT_EXISTS then (True, h\<lparr>verifier_voiceprint_exists := bool_set v (verifier_voiceprint_exists h)\<rparr>)
      else if i = VERIFIER_HEADER_VER_BUFFER_UTTERANCE then (True, h\<lparr>verifier_ver_buffer_utterance := bool_set v (verifier_ver_buffer_utterance h)\<rparr>)
      else if i = VERIFIER_HEADER_INPUT_WAVEFORM_URI then (True, h\<lparr>verifier_input_waveform_uri := v\<rparr>)
      else if i = VERIFIER_HEADER_COMPLETION_CAUSE then (True, h\<lparr>verifier_completion_cause := enum_of (apt_size_value_parse v)\<rparr>)
      else if i = VERIFIER_HEADER_COMPLETION_REASON then (True, h\<lparr>verifier_completion_reason := v\<rparr>)
      else if i = VERIFIER_HEADER_SPEECH_COMPLETE_TIMEOUT then (True, h\<lparr>verifier_speech_complete_timeout := apt_size_value_parse v\<rparr>)
      else if i = VERIFIER_HEADER_NEW_AUDIO_CHANNEL then (True, h\<lparr>verifier_new_audio_channel := bool_set v (verifier_new_audio_channel h)\<rparr>)
      else if i = VERIFIER_HEADER_ABORT_VERIFICATION then (True, h\<lparr>verifier_abort_verification := bool_set v (verifier_abort_verification h)\<rparr>)
      else if i = VERIFIER_HEADER_START_INPUT_TIMERS then (True, h\<lparr>verifier_start_input_timers := bool_set v (verifier_start_input_timers h)\<rparr>)
      else (False, h))"

definition mrcp_verifier_header_generate :: "mrcp_verifier_header \<Rightarrow> nat \<Rightarrow> string option" where
  "mrcp_verifier_header_generate h i =
     (if i = VERIFIER_HEADER_REPOSITORY_URI then Some (verifier_repository_uri h)
      else if i = VERIFIER_HEADER_VOICEPRINT_IDENTIFIER then Some (verifier_voiceprint_identifier h)
      else if i = VERIFIER_HEADER_VERIFICATION_MODE then Some (verifier_verification_mode h)
      else if i = VERIFIER_HEADER_ADAPT_MODEL then Some (apt_boolean_value_generate (verifier_adapt_model h))
      else if i = VERIFIER_HEADER_ABORT_MODEL then Some (apt_boolean_value_generate (verifier_abort_model h))
      else if i = VERIFIER_HEADER_MIN_VERIFICATION_SCORE then Some (apt_float_value_generate (verifier_min_verification_score h))
      else if i = VERIFIER_HEADER_NUM_MIN_VERIFICATION_PHRASES then Some (apt_size_value_generate (verifier_num_min_verification_phrases h))
      else if i = VERIFIER_HEADER_NUM_MAX_VERIFICATION_PHRASES then Some (apt_size_value_generate (verifier_num_max_verification_phrases h))
      else if i = VERIFIER_HEADER_NO_INPUT_TIMEOUT then Some (apt_size_value_generate (verifier_no_input_timeout h))
      else if i = VERIFIER_HEADER_SAVE_WAVEFORM then Some (apt_boolean_value_generate (verifier_save_waveform h))
      else if i = VERIFIER_HEADER_MEDIA_TYPE then Some (verifier_media_type h)
      else if i = VERIFIER_HEADER_WAVEFORM_URI then Some (verifier_waveform_uri h)
      else if i = VERIFIER_HEADER_VOICEPRINT_EXISTS then Some (apt_boolean_value_generate (verifier_voiceprint_exists h))
      else if i = VERIFIER_HEADER_VER_BUFFER_UTTERANCE then Some (apt_boolean_value_generate (verifier_ver_buffer_utterance h))
      else if i = VERIFIER_HEADER_INPUT_WAVEFORM_URI then Some (verifier_input_waveform_uri h)
      else if i = VERIFIER_HEADER_COMPLETION_CAUSE then Some (text_or_empty (apt_completion_cause_generate verifier_completion_cause_string_table (verifier_completion_cause h)))
      else if i = VERIFIER_HEADER_COMPLETION_REASON then Some (verifier_completion_reason h)
      else if i = VERIFIER_HEADER_SPEECH_COMPLETE_TIMEOUT then Some (apt_size_value_generate (verifier_speech_complete_timeout h))
      else if i = VERIFIER_HEADER_NEW_AUDIO_CHANNEL then Some (apt_boolean_value_generate (verifier_new_audio_channel h))
      else if i = VERIFIER_HEADER_ABORT_VERIFICATION then Some (apt_boolean_value_generate (verifier_abort_verification h))
      else if i = VERIFIER_HEADER_START_INPUT_TIMERS then Some (apt_boolean_value_generate (verifier_start_input_timers h))
      else Some [])"

definition mrcp_verifier_header_duplicate ::
  "mrcp_verifier_header \<Rightarrow> mrcp_verifier_header option \<Rightarrow> nat \<Rightarrow> string \<Rightarrow> bool \<times> mrcp_verifier_header" where
  "mrcp_verifier_header_duplicate h src0 i v =
     (case src0 of None \<Rightarrow> (False, h) | Some src \<Rightarrow>
      if i = VERIFIER_HEADER_REPOSITORY_URI then (True, h\<lparr>verifier_repository_uri := v\<rparr>)
      else if i = VERIFIER_HEADER_VOICEPRINT_IDENTIFIER then (True, h\<lparr>verifier_voiceprint_identifier := v\<rparr>)
      else if i = VERIFIER_HEADER_VERIFICATION_MODE then (True, h\<lparr>verifier_verification_mode := v\<rparr>)
      else if i = VERIFIER_HEADER_ADAPT_MODEL then (True, h\<lparr>verifier_adapt_model := verifier_adapt_model src\<rparr>)
      else if i = VERIFIER_HEADER_ABORT_MODEL then (True, h\<lparr>verifier_abort_model := verifier_abort_model src\<rparr>)
      else if i = VERIFIER_HEADER_MIN_VERIFICATION_SCORE then (True, h\<lparr>verifier_min_verification_score := verifier_min_verification_score src\<rparr>)
      else if i = VERIFIER_HEADER_NUM_MIN_VERIFICATION_PHRASES then (True, h\<lparr>verifier_num_min_verification_phrases := verifier_num_min_verification_phrases src\<rparr>)
      else if i = VERIFIER_HEADER_NUM_MAX_VERIFICATION_PHRASES then (True, h\<lparr>verifier_num_max_verification_phrases := verifier_num_max_verification_phrases src\<rparr>)
      else if i = VERIFIER_HEADER_NO_INPUT_TIMEOUT then (True, h\<lparr>verifier_no_input_timeout := verifier_no_input_timeout src\<rparr>)
      else if i = VERIFIER_HEADER_SAVE_WAVEFORM then (True, h\<lparr>verifier_save_waveform := verifier_save_waveform src\<rparr>)
      else if i = VERIFIER_HEADER_MEDIA_TYPE then (True, h\<lparr>verifier_media_type := v\<rparr>)
      else if i = VERIFIER_HEADER_WAVEFORM_URI then (True, h\<lparr>verifier_waveform_uri := v\<rparr>)
      else if i = VERIFIER_HEADER_VOICEPRINT_EXISTS then (True, h\<lparr>verifier_voiceprint_exists := verifier_voiceprint_exists src\<rparr>)
      else if i = VERIFIER_HEADER_VER_BUFFER_UTTERANCE then (True, h\<lparr>verifier_ver_buffer_utterance := verifier_ver_buffer_utterance src\<rparr>)
      else if i = VERIFIER_HEADER_INPUT_WAVEFORM_URI then (True, h\<lparr>verifier_input_waveform_uri := v\<rparr>)
      else if i = VERIFIER_HEADER_COMPLETION_CAUSE then (True, h\<lparr>verifier_completion_cause := verifier_completion_cause src\<rparr>)
      else if i = VERIFIER_HEADER_COMPLETION_REASON then (True, h\<lparr>verifier_completion_reason := v\<rparr>)
      else if i = VERIFIER_HEADER_SPEECH_COMPLETE_TIMEOUT then (True, h\<lparr>verifier_speech_complete_timeout := verifier_speech_complete_timeout src\<rparr>)
      else if i = VERIFIER_HEADER_NEW_AUDIO_CHANNEL then (True, h\<lparr>verifier_new_audio_channel := verifier_new_audio_channel src\<rparr>)
      else if i = VERIFIER_HEADER_ABORT_VERIFICATION then (True, h\<lparr>verifier_abort_verification := verifier_abort_verification src\<rparr>)
      else if i = VERIFIER_HEADER_START_INPUT_TIMERS then (True, h\<lparr>verifier_start_input_timers := verifier_start_input_timers src\<rparr>)
      else (False, h))"

definition verifier_header_vtable :: "mrcp_verifier_header header_vtable" where
  "verifier_header_vtable =
     \<lparr>vt_allocate = mrcp_verifier_header_init, vt_parse_field = mrcp_verifier_header_parse,
      vt_generate_field = mrcp_verifier_header_generate, vt_duplicate_field = mrcp_verifier_header_duplicate,
      vt_field_table = verifier_header_string_table\<rparr>"

definition mrcp_verifier_header_vtable_get :: "mrcp_version \<Rightarrow> mrcp_verifier_header header_vtable" where
  "mrcp_verifier_header_vtable_get version = verifier_header_vtable"

definition mrcp_verifier_completion_cause_get :: "nat \<Rightarrow> mrcp_version \<Rightarrow> string option" where
  "mrcp_verifier_completion_cause_get cause version = apt_string_table_str_get verifier_completion_cause_string_table cause"

section \<open>The laws of a header\<close>

text \<open>
  Numbers in the range of \<open>long\<close>, fractions in the range in which their text is exact, and a
  completion cause of the table.
\<close>

definition verifier_header_ok :: "mrcp_verifier_header \<Rightarrow> bool" where
  "verifier_header_ok h \<longleftrightarrow>
     verifier_num_min_verification_phrases h < 2 ^ 63
     \<and> verifier_num_max_verification_phrases h < 2 ^ 63
     \<and> verifier_no_input_timeout h < 2 ^ 63
     \<and> verifier_speech_complete_timeout h < 2 ^ 63
     \<and> float_ok (verifier_min_verification_score h)
     \<and> verifier_completion_cause h < 12"

lemma verifier_table_length [simp]: "length verifier_header_string_table = 21"
  by (simp add: verifier_header_string_table_def)

lemma verifier_cause_table_length: "length verifier_completion_cause_string_table = 12"
  by (simp add: verifier_completion_cause_string_table_def)

lemma verifier_table_wf: "table_wf verifier_header_string_table"
  by (simp add: table_wf_def verifier_header_string_table_def nul_def tolower_def)

lemma verifier_ids: "(i :: nat) < 21 \<Longrightarrow> i \<in> {0, 1, 2, 3, 4, 5, 6, 7, 8, 9, 10, 11, 12, 13, 14, 15, 16, 17, 18, 19, 20}"
  by simp arith

lemma verifier_parse_known: "i < 21 \<Longrightarrow> fst (mrcp_verifier_header_parse h i v)"
  by (drule verifier_ids) (auto simp: mrcp_verifier_header_parse_def)

lemma verifier_duplicate_known: "i < 21 \<Longrightarrow> fst (mrcp_verifier_header_duplicate h (Some e) i v)"
  by (drule verifier_ids) (auto simp: mrcp_verifier_header_duplicate_def)

lemma verifier_cause_text:
  assumes "verifier_completion_cause h < 12"
  shows "\<exists>v. apt_completion_cause_generate verifier_completion_cause_string_table (verifier_completion_cause h) = Some v
    \<and> enum_of (apt_size_value_parse v) = verifier_completion_cause h"
  using assms completion_cause_text[of verifier_completion_cause_string_table "verifier_completion_cause h"]
    completion_cause_read[of verifier_completion_cause_string_table "verifier_completion_cause h"]
  by (simp add: verifier_cause_table_length)

lemma verifier_generate_parse:
  assumes "verifier_header_ok d" "i < 21" "mrcp_verifier_header_generate d i = Some v" "v \<noteq> []"
  shows "mrcp_verifier_header_generate (snd (mrcp_verifier_header_parse e i v)) i = Some v"
  using verifier_ids[OF assms(2)] assms(1,3,4) verifier_cause_text[of d]
  by (elim insertE emptyE)
    (auto simp: mrcp_verifier_header_parse_def mrcp_verifier_header_generate_def verifier_header_ok_def size_roundtrip
      text_or_empty_def float_ok_text)

lemma verifier_generate_duplicate:
  assumes "i < 21" "mrcp_verifier_header_generate d i = Some v"
  shows "mrcp_verifier_header_generate (snd (mrcp_verifier_header_duplicate e (Some d) i v)) i = Some v"
  using verifier_ids[OF assms(1)] assms(2)
  by (elim insertE emptyE) (auto simp: mrcp_verifier_header_duplicate_def mrcp_verifier_header_generate_def)

lemma verifier_parse_other:
  assumes "j < 21" "i \<noteq> j"
  shows "mrcp_verifier_header_generate (snd (mrcp_verifier_header_parse e j v)) i = mrcp_verifier_header_generate e i"
  using verifier_ids[OF assms(1)] assms(2)
  by (elim insertE emptyE) (simp_all add: mrcp_verifier_header_parse_def mrcp_verifier_header_generate_def)

lemma verifier_generates: "\<exists>v. mrcp_verifier_header_generate h i = Some v"
  by (simp add: mrcp_verifier_header_generate_def)

interpretation verifier: header_codec verifier_header_vtable verifier_header_ok
  by unfold_locales
    (simp_all add: verifier_header_vtable_def verifier_table_wf verifier_parse_known verifier_duplicate_known
      verifier_generates verifier_generate_parse verifier_generate_duplicate verifier_parse_other)

end
