(* ===== verification/Resource_Loader.thy ===== *)
theory Resource_Loader
  imports Resource_Factory Recog_Header Synth_Header Recorder_Header Verifier_Header
begin

text \<open>
  The resources of \<open>libs/mrcp/resources/src/mrcp_*_resource.c\<close> and the loader that registers them
  (\<open>libs/mrcp/control/src/mrcp_resource_loader.c\<close>). The header of a message is of the type of its
  resource; a message of the model carries the sum of the four types, and the functions of a
  resource work on its part. Given the data of another resource, which the code would misread,
  they work on fresh data.
\<close>

section \<open>Methods and events\<close>

definition v1_recog_method_string_table :: str_table where
  "v1_recog_method_string_table =
     [\<lparr>st_value = ''SET-PARAMS'', st_key = 10\<rparr>,
      \<lparr>st_value = ''GET-PARAMS'', st_key = 10\<rparr>,
      \<lparr>st_value = ''DEFINE-GRAMMAR'', st_key = 2\<rparr>,
      \<lparr>st_value = ''RECOGNIZE'', st_key = 7\<rparr>,
      \<lparr>st_value = ''INTERPRET'', st_key = 0\<rparr>,
      \<lparr>st_value = ''GET-RESULT'', st_key = 6\<rparr>,
      \<lparr>st_value = ''RECOGNITION-START-TIMERS'', st_key = 7\<rparr>,
      \<lparr>st_value = ''STOP'', st_key = 2\<rparr>,
      \<lparr>st_value = ''START-PHRASE-ENROLLMENT'', st_key = 2\<rparr>,
      \<lparr>st_value = ''ENROLLMENT-ROLLBACK'', st_key = 2\<rparr>,
      \<lparr>st_value = ''END-PHRASE-ENROLLMENT'', st_key = 5\<rparr>,
      \<lparr>st_value = ''MODIFY-PHRASE'', st_key = 0\<rparr>,
      \<lparr>st_value = ''DELETE-PHRASE'', st_key = 2\<rparr>]"

definition v2_recog_method_string_table :: str_table where
  "v2_recog_method_string_table =
     [\<lparr>st_value = ''SET-PARAMS'', st_key = 10\<rparr>,
      \<lparr>st_value = ''GET-PARAMS'', st_key = 10\<rparr>,
      \<lparr>st_value = ''DEFINE-GRAMMAR'', st_key = 2\<rparr>,
      \<lparr>st_value = ''RECOGNIZE'', st_key = 0\<rparr>,
      \<lparr>st_value = ''INTERPRET'', st_key = 0\<rparr>,
      \<lparr>st_value = ''GET-RESULT'', st_key = 6\<rparr>,
      \<lparr>st_value = ''START-INPUT-TIMERS'', st_key = 7\<rparr>,
      \<lparr>st_value = ''STOP'', st_key = 2\<rparr>,
      \<lparr>st_value = ''START-PHRASE-ENROLLMENT'', st_key = 6\<rparr>,
      \<lparr>st_value = ''ENROLLMENT-ROLLBACK'', st_key = 2\<rparr>,
      \<lparr>st_value = ''END-PHRASE-ENROLLMENT'', st_key = 5\<rparr>,
      \<lparr>st_value = ''MODIFY-PHRASE'', st_key = 0\<rparr>,
      \<lparr>st_value = ''DELETE-PHRASE'', st_key = 2\<rparr>]"

definition v1_recog_event_string_table :: str_table where
  "v1_recog_event_string_table =
     [\<lparr>st_value = ''START-OF-SPEECH'', st_key = 0\<rparr>,
      \<lparr>st_value = ''RECOGNITION-COMPLETE'', st_key = 0\<rparr>,
      \<lparr>st_value = ''INTERPRETATION-COMPLETE'', st_key = 0\<rparr>]"

definition v2_recog_event_string_table :: str_table where
  "v2_recog_event_string_table =
     [\<lparr>st_value = ''START-OF-INPUT'', st_key = 0\<rparr>,
      \<lparr>st_value = ''RECOGNITION-COMPLETE'', st_key = 0\<rparr>,
      \<lparr>st_value = ''INTERPRETATION-COMPLETE'', st_key = 0\<rparr>]"

definition synth_method_string_table :: str_table where
  "synth_method_string_table =
     [\<lparr>st_value = ''SET-PARAMS'', st_key = 10\<rparr>,
      \<lparr>st_value = ''GET-PARAMS'', st_key = 0\<rparr>,
      \<lparr>st_value = ''SPEAK'', st_key = 1\<rparr>,
      \<lparr>st_value = ''STOP'', st_key = 1\<rparr>,
      \<lparr>st_value = ''PAUSE'', st_key = 0\<rparr>,
      \<lparr>st_value = ''RESUME'', st_key = 0\<rparr>,
      \<lparr>st_value = ''BARGE-IN-OCCURRED'', st_key = 0\<rparr>,
      \<lparr>st_value = ''CONTROL'', st_key = 0\<rparr>,
      \<lparr>st_value = ''DEFINE-LEXICON'', st_key = 0\<rparr>]"

definition synth_event_string_table :: str_table where
  "synth_event_string_table =
     [\<lparr>st_value = ''SPEECH-MARKER'', st_key = 3\<rparr>,
      \<lparr>st_value = ''SPEAK-COMPLETE'', st_key = 3\<rparr>]"

definition recorder_method_string_table :: str_table where
  "recorder_method_string_table =
     [\<lparr>st_value = ''SET-PARAMS'', st_key = 10\<rparr>,
      \<lparr>st_value = ''GET-PARAMS'', st_key = 0\<rparr>,
      \<lparr>st_value = ''RECORD'', st_key = 0\<rparr>,
      \<lparr>st_value = ''STOP'', st_key = 2\<rparr>,
      \<lparr>st_value = ''START-INPUT-TIMERS'', st_key = 2\<rparr>]"

definition recorder_event_string_table :: str_table where
  "recorder_event_string_table =
     [\<lparr>st_value = ''START-OF-INPUT'', st_key = 0\<rparr>,
      \<lparr>st_value = ''RECORD-COMPLETE'', st_key = 0\<rparr>]"

definition verifier_method_string_table :: str_table where
  "verifier_method_string_table =
     [\<lparr>st_value = ''SET-PARAMS'', st_key = 10\<rparr>,
      \<lparr>st_value = ''GET-PARAMS'', st_key = 10\<rparr>,
      \<lparr>st_value = ''START-SESSION'', st_key = 8\<rparr>,
      \<lparr>st_value = ''END-SESSION'', st_key = 0\<rparr>,
      \<lparr>st_value = ''QUERY-VOICEPRINT'', st_key = 0\<rparr>,
      \<lparr>st_value = ''DELETE-VOICEPRINT'', st_key = 0\<rparr>,
      \<lparr>st_value = ''VERIFY'', st_key = 6\<rparr>,
      \<lparr>st_value = ''VERIFY-FROM-BUFFER'', st_key = 7\<rparr>,
      \<lparr>st_value = ''VERIFY-ROLLBACK'', st_key = 7\<rparr>,
      \<lparr>st_value = ''STOP'', st_key = 2\<rparr>,
      \<lparr>st_value = ''CLEAR-BUFFER'', st_key = 0\<rparr>,
      \<lparr>st_value = ''START-INPUT-TIMERS'', st_key = 6\<rparr>,
      \<lparr>st_value = ''GET-INTERMEDIATE-RESULT'', st_key = 4\<rparr>]"

definition verifier_event_string_table :: str_table where
  "verifier_event_string_table =
     [\<lparr>st_value = ''START-OF-INPUT'', st_key = 0\<rparr>,
      \<lparr>st_value = ''VERIFICATION-COMPLETE'', st_key = 0\<rparr>]"

definition recog_method_string_table_get :: "mrcp_version \<Rightarrow> str_table" where
  "recog_method_string_table_get version =
     (if version = MRCP_VERSION_1 then v1_recog_method_string_table else v2_recog_method_string_table)"

definition recog_event_string_table_get :: "mrcp_version \<Rightarrow> str_table" where
  "recog_event_string_table_get version =
     (if version = MRCP_VERSION_1 then v1_recog_event_string_table else v2_recog_event_string_table)"

definition synth_method_string_table_get :: "mrcp_version \<Rightarrow> str_table" where
  "synth_method_string_table_get version = synth_method_string_table"

definition synth_event_string_table_get :: "mrcp_version \<Rightarrow> str_table" where
  "synth_event_string_table_get version = synth_event_string_table"

definition recorder_method_string_table_get :: "mrcp_version \<Rightarrow> str_table" where
  "recorder_method_string_table_get version = recorder_method_string_table"

definition recorder_event_string_table_get :: "mrcp_version \<Rightarrow> str_table" where
  "recorder_event_string_table_get version = recorder_event_string_table"

definition verifier_method_string_table_get :: "mrcp_version \<Rightarrow> str_table" where
  "verifier_method_string_table_get version = verifier_method_string_table"

definition verifier_event_string_table_get :: "mrcp_version \<Rightarrow> str_table" where
  "verifier_event_string_table_get version = verifier_event_string_table"

section \<open>The header of any resource\<close>

datatype resource_header =
    Recog_Data mrcp_recog_header
  | Synth_Data mrcp_synth_header
  | Recorder_Data mrcp_recorder_header
  | Verifier_Data mrcp_verifier_header

definition recog_data :: "resource_header \<Rightarrow> mrcp_recog_header" where
  "recog_data d = (case d of Recog_Data h \<Rightarrow> h | _ \<Rightarrow> mrcp_recog_header_init)"

definition synth_data :: "resource_header \<Rightarrow> mrcp_synth_header" where
  "synth_data d = (case d of Synth_Data h \<Rightarrow> h | _ \<Rightarrow> mrcp_synth_header_init)"

definition recorder_data :: "resource_header \<Rightarrow> mrcp_recorder_header" where
  "recorder_data d = (case d of Recorder_Data h \<Rightarrow> h | _ \<Rightarrow> mrcp_recorder_header_init)"

definition verifier_data :: "resource_header \<Rightarrow> mrcp_verifier_header" where
  "verifier_data d = (case d of Verifier_Data h \<Rightarrow> h | _ \<Rightarrow> mrcp_verifier_header_init)"

definition vtable_lift :: "('d \<Rightarrow> resource_header) \<Rightarrow> (resource_header \<Rightarrow> 'd) \<Rightarrow> 'd header_vtable
    \<Rightarrow> resource_header header_vtable" where
  "vtable_lift mk prj vt =
     \<lparr>vt_allocate = mk (vt_allocate vt),
      vt_parse_field = (\<lambda>d i v. let (ok, h) = vt_parse_field vt (prj d) i v in (ok, mk h)),
      vt_generate_field = (\<lambda>d i. vt_generate_field vt (prj d) i),
      vt_duplicate_field = (\<lambda>d src i v.
        let (ok, h) = vt_duplicate_field vt (prj d) (map_option prj src) i v in (ok, mk h)),
      vt_field_table = vt_field_table vt\<rparr>"

section \<open>Resources\<close>

abbreviation (input) MRCP_SYNTHESIZER_RESOURCE :: nat where "MRCP_SYNTHESIZER_RESOURCE \<equiv> 0"
abbreviation (input) MRCP_RECOGNIZER_RESOURCE :: nat where "MRCP_RECOGNIZER_RESOURCE \<equiv> 1"
abbreviation (input) MRCP_RECORDER_RESOURCE :: nat where "MRCP_RECORDER_RESOURCE \<equiv> 2"
abbreviation (input) MRCP_VERIFIER_RESOURCE :: nat where "MRCP_VERIFIER_RESOURCE \<equiv> 3"

definition MRCP_RESOURCE_TYPE_COUNT :: nat where "MRCP_RESOURCE_TYPE_COUNT = 4"

text \<open>The null pointers of a fresh resource are tables and a header without entries.\<close>

definition mrcp_resource_create :: "'r mrcp_resource" where
  "mrcp_resource_create =
     \<lparr>res_id = 0, res_name = [], res_method_count = 0, res_event_count = 0,
      res_method_table = (\<lambda>_. []), res_event_table = (\<lambda>_. []), res_header_vtable = (\<lambda>_. None)\<rparr>"

definition mrcp_recog_resource_create :: "resource_header mrcp_resource" where
  "mrcp_recog_resource_create = mrcp_resource_create
     \<lparr>res_method_count := RECOGNIZER_METHOD_COUNT, res_event_count := RECOGNIZER_EVENT_COUNT,
      res_method_table := recog_method_string_table_get, res_event_table := recog_event_string_table_get,
      res_header_vtable := (\<lambda>version. Some (vtable_lift Recog_Data recog_data (mrcp_recog_header_vtable_get version)))\<rparr>"

definition mrcp_synth_resource_create :: "resource_header mrcp_resource" where
  "mrcp_synth_resource_create = mrcp_resource_create
     \<lparr>res_method_count := SYNTHESIZER_METHOD_COUNT, res_event_count := SYNTHESIZER_EVENT_COUNT,
      res_method_table := synth_method_string_table_get, res_event_table := synth_event_string_table_get,
      res_header_vtable := (\<lambda>version. Some (vtable_lift Synth_Data synth_data (mrcp_synth_header_vtable_get version)))\<rparr>"

definition mrcp_recorder_resource_create :: "resource_header mrcp_resource" where
  "mrcp_recorder_resource_create = mrcp_resource_create
     \<lparr>res_method_count := RECORDER_METHOD_COUNT, res_event_count := RECORDER_EVENT_COUNT,
      res_method_table := recorder_method_string_table_get, res_event_table := recorder_event_string_table_get,
      res_header_vtable := (\<lambda>version. Some (vtable_lift Recorder_Data recorder_data (mrcp_recorder_header_vtable_get version)))\<rparr>"

definition mrcp_verifier_resource_create :: "resource_header mrcp_resource" where
  "mrcp_verifier_resource_create = mrcp_resource_create
     \<lparr>res_method_count := VERIFIER_METHOD_COUNT, res_event_count := VERIFIER_EVENT_COUNT,
      res_method_table := verifier_method_string_table_get, res_event_table := verifier_event_string_table_get,
      res_header_vtable := (\<lambda>version. Some (vtable_lift Verifier_Data verifier_data (mrcp_verifier_header_vtable_get version)))\<rparr>"

section \<open>Loader\<close>

definition mrcp_resource_string_table :: str_table where
  "mrcp_resource_string_table =
     [\<lparr>st_value = ''speechsynth'', st_key = 6\<rparr>,
      \<lparr>st_value = ''speechrecog'', st_key = 6\<rparr>,
      \<lparr>st_value = ''recorder'', st_key = 0\<rparr>,
      \<lparr>st_value = ''speakverify'', st_key = 3\<rparr>]"

record mrcp_resource_loader =
  ld_factory :: "resource_header mrcp_resource_factory"

definition mrcp_resource_create_by_id :: "nat \<Rightarrow> resource_header mrcp_resource option" where
  "mrcp_resource_create_by_id i =
     (let resource =
        (if i = MRCP_SYNTHESIZER_RESOURCE then Some mrcp_synth_resource_create
         else if i = MRCP_RECOGNIZER_RESOURCE then Some mrcp_recog_resource_create
         else if i = MRCP_RECORDER_RESOURCE then Some mrcp_recorder_resource_create
         else if i = MRCP_VERIFIER_RESOURCE then Some mrcp_verifier_resource_create
         else None)
      in case resource of None \<Rightarrow> None | Some r \<Rightarrow> Some (r\<lparr>res_id := i\<rparr>))"

definition loader_register :: "mrcp_resource_loader \<Rightarrow> resource_header mrcp_resource \<Rightarrow> bool \<times> mrcp_resource_loader" where
  "loader_register l r =
     (let (ok, f) = mrcp_resource_register (ld_factory l) (Some r) in (ok, l\<lparr>ld_factory := f\<rparr>))"

definition mrcp_resource_load_by_id :: "mrcp_resource_loader \<Rightarrow> nat \<Rightarrow> bool \<times> mrcp_resource_loader" where
  "mrcp_resource_load_by_id l i =
     (case (mrcp_resource_create_by_id i, apt_string_table_str_get mrcp_resource_string_table i) of
        (Some r, Some name) \<Rightarrow> loader_register l (r\<lparr>res_name := name\<rparr>)
      | _ \<Rightarrow> (False, l))"

definition mrcp_resource_load :: "mrcp_resource_loader \<Rightarrow> string \<Rightarrow> bool \<times> mrcp_resource_loader" where
  "mrcp_resource_load l name =
     (case mrcp_resource_create_by_id (apt_string_table_id_find mrcp_resource_string_table name) of
        None \<Rightarrow> (False, l)
      | Some r \<Rightarrow> loader_register l (r\<lparr>res_name := name\<rparr>))"

definition mrcp_resources_load :: "mrcp_resource_loader \<Rightarrow> bool \<times> mrcp_resource_loader" where
  "mrcp_resources_load l =
     (True, fold (\<lambda>i l. snd (mrcp_resource_load_by_id l i)) [0..<MRCP_RESOURCE_TYPE_COUNT] l)"

definition mrcp_resource_loader_create :: "bool \<Rightarrow> mrcp_resource_loader option" where
  "mrcp_resource_loader_create load_all_resources =
     (case mrcp_resource_factory_create MRCP_RESOURCE_TYPE_COUNT of
        None \<Rightarrow> None
      | Some f \<Rightarrow>
          let l = \<lparr>ld_factory = f\<rparr>
          in Some (if load_all_resources then snd (mrcp_resources_load l) else l))"

definition mrcp_resource_factory_get :: "mrcp_resource_loader \<Rightarrow> resource_header mrcp_resource_factory" where
  "mrcp_resource_factory_get l = ld_factory l"

section \<open>The laws of the headers\<close>

lemma vtable_lift_iface:
  assumes "header_iface vt"
  shows "header_iface (vtable_lift mk prj vt)"
  by unfold_locales
    (auto simp: vtable_lift_def Let_def split_beta header_iface.table[OF assms]
      header_iface.parse_known[OF assms] header_iface.duplicate_known[OF assms])

lemma vtable_lift_codec:
  assumes h: "header_codec vt ok" and p: "\<And>h. prj (mk h) = h"
  shows "header_codec (vtable_lift mk prj vt) (\<lambda>d. ok (prj d))"
proof (rule header_codec.intro)
  show "header_iface (vtable_lift mk prj vt)"
    using h by (intro vtable_lift_iface) (simp add: header_codec_def)
  show "header_codec_axioms (vtable_lift mk prj vt) (\<lambda>d. ok (prj d))"
    by unfold_locales
      (auto simp: vtable_lift_def Let_def split_beta p
        intro: header_codec.generates[OF h] header_codec.generate_parse[OF h]
          header_codec.generate_duplicate[OF h] header_codec.parse_other[OF h])
qed

lemma data_simps [simp]: "recog_data (Recog_Data h1) = h1" "synth_data (Synth_Data h2) = h2"
  "recorder_data (Recorder_Data h3) = h3" "verifier_data (Verifier_Data h4) = h4"
  by (simp_all add: recog_data_def synth_data_def recorder_data_def verifier_data_def)

interpretation recog_v1_data: header_codec "vtable_lift Recog_Data recog_data v1_recog_header_vtable"
  "\<lambda>d. recog_header_ok MRCP_VERSION_1 (recog_data d)"
  by (rule vtable_lift_codec[OF recog_v1.header_codec_axioms]) simp

interpretation recog_v2_data: header_codec "vtable_lift Recog_Data recog_data v2_recog_header_vtable"
  "\<lambda>d. recog_header_ok MRCP_VERSION_2 (recog_data d)"
  by (rule vtable_lift_codec[OF recog_v2.header_codec_axioms]) simp

interpretation synth_data: header_codec "vtable_lift Synth_Data synth_data synth_header_vtable"
  "\<lambda>d. synth_header_ok (synth_data d)"
  by (rule vtable_lift_codec[OF synth.header_codec_axioms]) simp

interpretation recorder_data: header_codec "vtable_lift Recorder_Data recorder_data recorder_header_vtable"
  "\<lambda>d. recorder_header_ok (recorder_data d)"
  by (rule vtable_lift_codec[OF recorder.header_codec_axioms]) simp

interpretation verifier_data: header_codec "vtable_lift Verifier_Data verifier_data verifier_header_vtable"
  "\<lambda>d. verifier_header_ok (verifier_data d)"
  by (rule vtable_lift_codec[OF verifier.header_codec_axioms]) simp

section \<open>Tables\<close>

text \<open>The tables of a resource have as many entries as it counts, each found by its name.\<close>

definition tables_match :: "'r mrcp_resource \<Rightarrow> bool" where
  "tables_match r \<longleftrightarrow> (\<forall>version.
     table_wf (res_method_table r version) \<and> length (res_method_table r version) = res_method_count r
     \<and> table_wf (res_event_table r version) \<and> length (res_event_table r version) = res_event_count r)"

lemma recog_tables_match: "tables_match (mrcp_recog_resource_create\<lparr>res_id := i, res_name := n\<rparr>)"
  by (simp add: tables_match_def mrcp_recog_resource_create_def mrcp_resource_create_def table_wf_def
      recog_method_string_table_get_def recog_event_string_table_get_def v1_recog_method_string_table_def
      v2_recog_method_string_table_def v1_recog_event_string_table_def v2_recog_event_string_table_def
      RECOGNIZER_METHOD_COUNT_def RECOGNIZER_EVENT_COUNT_def nul_def tolower_def)

lemma synth_tables_match: "tables_match (mrcp_synth_resource_create\<lparr>res_id := i, res_name := n\<rparr>)"
  by (simp add: tables_match_def mrcp_synth_resource_create_def mrcp_resource_create_def table_wf_def
      synth_method_string_table_get_def synth_event_string_table_get_def synth_method_string_table_def
      synth_event_string_table_def SYNTHESIZER_METHOD_COUNT_def SYNTHESIZER_EVENT_COUNT_def nul_def tolower_def)

lemma recorder_tables_match: "tables_match (mrcp_recorder_resource_create\<lparr>res_id := i, res_name := n\<rparr>)"
  by (simp add: tables_match_def mrcp_recorder_resource_create_def mrcp_resource_create_def table_wf_def
      recorder_method_string_table_get_def recorder_event_string_table_get_def recorder_method_string_table_def
      recorder_event_string_table_def RECORDER_METHOD_COUNT_def RECORDER_EVENT_COUNT_def nul_def tolower_def)

lemma verifier_tables_match: "tables_match (mrcp_verifier_resource_create\<lparr>res_id := i, res_name := n\<rparr>)"
  by (simp add: tables_match_def mrcp_verifier_resource_create_def mrcp_resource_create_def table_wf_def
      verifier_method_string_table_get_def verifier_event_string_table_get_def verifier_method_string_table_def
      verifier_event_string_table_def VERIFIER_METHOD_COUNT_def VERIFIER_EVENT_COUNT_def nul_def tolower_def)

section \<open>Loading\<close>

text \<open>The resource that is loaded for an identifier.\<close>

definition loaded_resource :: "nat \<Rightarrow> resource_header mrcp_resource" where
  "loaded_resource i = (the (mrcp_resource_create_by_id i))\<lparr>res_name := st_value (mrcp_resource_string_table ! i)\<rparr>"

lemma resource_id_cases:
  assumes "i < MRCP_RESOURCE_TYPE_COUNT"
  obtains "i = 0" | "i = 1" | "i = 2" | "i = 3"
  using assms by (fastforce simp: MRCP_RESOURCE_TYPE_COUNT_def)

lemma created_by_id:
  "mrcp_resource_create_by_id 0 = Some (mrcp_synth_resource_create\<lparr>res_id := 0\<rparr>)"
  "mrcp_resource_create_by_id 1 = Some (mrcp_recog_resource_create\<lparr>res_id := 1\<rparr>)"
  "mrcp_resource_create_by_id 2 = Some (mrcp_recorder_resource_create\<lparr>res_id := 2\<rparr>)"
  "mrcp_resource_create_by_id 3 = Some (mrcp_verifier_resource_create\<lparr>res_id := 3\<rparr>)"
  by (simp_all add: mrcp_resource_create_by_id_def)

lemma loaded:
  "loaded_resource 0 = mrcp_synth_resource_create\<lparr>res_id := 0, res_name := ''speechsynth''\<rparr>"
  "loaded_resource 1 = mrcp_recog_resource_create\<lparr>res_id := 1, res_name := ''speechrecog''\<rparr>"
  "loaded_resource 2 = mrcp_recorder_resource_create\<lparr>res_id := 2, res_name := ''recorder''\<rparr>"
  "loaded_resource 3 = mrcp_verifier_resource_create\<lparr>res_id := 3, res_name := ''speakverify''\<rparr>"
  by (simp_all only: loaded_resource_def created_by_id option.sel) (simp_all add: mrcp_resource_string_table_def)

lemma resource_counts:
  "res_method_count mrcp_synth_resource_create = 9" "res_event_count mrcp_synth_resource_create = 2"
  "res_method_count mrcp_recog_resource_create = 13" "res_event_count mrcp_recog_resource_create = 3"
  "res_method_count mrcp_recorder_resource_create = 5" "res_event_count mrcp_recorder_resource_create = 2"
  "res_method_count mrcp_verifier_resource_create = 13" "res_event_count mrcp_verifier_resource_create = 2"
  by (simp_all add: mrcp_synth_resource_create_def mrcp_recog_resource_create_def mrcp_recorder_resource_create_def
      mrcp_verifier_resource_create_def SYNTHESIZER_METHOD_COUNT_def SYNTHESIZER_EVENT_COUNT_def
      RECOGNIZER_METHOD_COUNT_def RECOGNIZER_EVENT_COUNT_def RECORDER_METHOD_COUNT_def RECORDER_EVENT_COUNT_def
      VERIFIER_METHOD_COUNT_def VERIFIER_EVENT_COUNT_def)

lemma loaded_resource_valid:
  assumes "i < MRCP_RESOURCE_TYPE_COUNT"
  shows "mrcp_resource_validate (loaded_resource i)" "res_id (loaded_resource i) = i"
    "res_name (loaded_resource i) = st_value (mrcp_resource_string_table ! i)" "tables_match (loaded_resource i)"
proof -
  show "mrcp_resource_validate (loaded_resource i)" "res_id (loaded_resource i) = i"
    by (rule resource_id_cases[OF assms];
        hypsubst; simp only: loaded; simp add: mrcp_resource_validate_def resource_counts)+
  show "res_name (loaded_resource i) = st_value (mrcp_resource_string_table ! i)"
    by (simp add: loaded_resource_def)
  show "tables_match (loaded_resource i)"
    by (rule resource_id_cases[OF assms]; hypsubst;
        simp only: loaded synth_tables_match recog_tables_match recorder_tables_match verifier_tables_match)
qed

lemma load_by_id:
  assumes "i < MRCP_RESOURCE_TYPE_COUNT"
  shows "mrcp_resource_load_by_id l i = loader_register l (loaded_resource i)"
  by (rule resource_id_cases[OF assms]; hypsubst; simp only: mrcp_resource_load_by_id_def loaded_resource_def created_by_id;
      simp add: apt_string_table_str_get_def mrcp_resource_string_table_def)

lemma resource_table_wf: "table_wf mrcp_resource_string_table" "length mrcp_resource_string_table = MRCP_RESOURCE_TYPE_COUNT"
  by (simp_all add: table_wf_def mrcp_resource_string_table_def MRCP_RESOURCE_TYPE_COUNT_def nul_def tolower_def)

lemma loader_register_wf:
  "factory_wf (ld_factory l) \<Longrightarrow> factory_wf (ld_factory (snd (loader_register l r)))"
  using register_wf[of "ld_factory l" "Some r"] by (simp add: loader_register_def split_beta)

lemma resource_ids: "[0..<MRCP_RESOURCE_TYPE_COUNT] = [0, 1, 2, 3]"
  by (simp add: MRCP_RESOURCE_TYPE_COUNT_def upt_rec)

lemma resources_load_steps:
  "snd (mrcp_resources_load l) = snd (loader_register (snd (loader_register (snd (loader_register
     (snd (loader_register l (loaded_resource 0))) (loaded_resource 1))) (loaded_resource 2))) (loaded_resource 3))"
  unfolding mrcp_resources_load_def resource_ids
  using load_by_id[of 0] load_by_id[of 1] load_by_id[of 2] load_by_id[of 3] by (simp add: MRCP_RESOURCE_TYPE_COUNT_def)

lemma loader_create_all:
  "\<exists>l. mrcp_resource_loader_create True = Some l \<and> factory_wf (ld_factory l)
    \<and> rf_array (ld_factory l) = map (\<lambda>i. Some (loaded_resource i)) [0..<MRCP_RESOURCE_TYPE_COUNT]
    \<and> (\<forall>i < MRCP_RESOURCE_TYPE_COUNT.
        mrcp_resource_find (ld_factory l) (res_name (loaded_resource i)) = Some (loaded_resource i))"
proof -
  let ?f = "\<lparr>rf_array = [None, None, None, None], rf_hash = \<lambda>_. None\<rparr> :: resource_header mrcp_resource_factory"
  let ?l = "snd (mrcp_resources_load \<lparr>ld_factory = ?f\<rparr>)"
  note v = loaded_resource_valid[of 0] loaded_resource_valid[of 1] loaded_resource_valid[of 2] loaded_resource_valid[of 3]
  have c: "mrcp_resource_factory_create MRCP_RESOURCE_TYPE_COUNT = Some ?f"
    by (simp add: mrcp_resource_factory_create_def MRCP_RESOURCE_TYPE_COUNT_def eval_nat_numeral)
  have "factory_wf (ld_factory ?l)"
    unfolding resources_load_steps using factory_create_wf[OF c] by (intro loader_register_wf) simp
  moreover have "rf_array (ld_factory ?l) = map (\<lambda>i. Some (loaded_resource i)) [0..<MRCP_RESOURCE_TYPE_COUNT]"
    unfolding resources_load_steps resource_ids using v
    by (simp add: loader_register_def mrcp_resource_register_def MRCP_RESOURCE_TYPE_COUNT_def)
  moreover have "mrcp_resource_find (ld_factory ?l) (res_name (loaded_resource i)) = Some (loaded_resource i)"
    if "i < MRCP_RESOURCE_TYPE_COUNT" for i
    unfolding resources_load_steps
    by (rule resource_id_cases[OF that]; insert v; simp add: loader_register_def
        mrcp_resource_register_def MRCP_RESOURCE_TYPE_COUNT_def mrcp_resource_find_def mrcp_resource_string_table_def)
  ultimately show ?thesis by (auto simp: mrcp_resource_loader_create_def c)
qed

section \<open>What the loader provides\<close>

text \<open>The resources of the protocol: names, methods and events in the order of their identifiers.\<close>

definition protocol_resources :: "string list" where
  "protocol_resources = [''speechsynth'', ''speechrecog'', ''recorder'', ''speakverify'']"

definition protocol_methods :: "mrcp_version \<Rightarrow> nat \<Rightarrow> string list" where
  "protocol_methods version i =
     [[''SET-PARAMS'', ''GET-PARAMS'', ''SPEAK'', ''STOP'', ''PAUSE'', ''RESUME'', ''BARGE-IN-OCCURRED'', ''CONTROL'',
       ''DEFINE-LEXICON''],
      [''SET-PARAMS'', ''GET-PARAMS'', ''DEFINE-GRAMMAR'', ''RECOGNIZE'', ''INTERPRET'', ''GET-RESULT'',
       (if version = MRCP_VERSION_1 then ''RECOGNITION-START-TIMERS'' else ''START-INPUT-TIMERS''), ''STOP'',
       ''START-PHRASE-ENROLLMENT'', ''ENROLLMENT-ROLLBACK'', ''END-PHRASE-ENROLLMENT'', ''MODIFY-PHRASE'', ''DELETE-PHRASE''],
      [''SET-PARAMS'', ''GET-PARAMS'', ''RECORD'', ''STOP'', ''START-INPUT-TIMERS''],
      [''SET-PARAMS'', ''GET-PARAMS'', ''START-SESSION'', ''END-SESSION'', ''QUERY-VOICEPRINT'', ''DELETE-VOICEPRINT'',
       ''VERIFY'', ''VERIFY-FROM-BUFFER'', ''VERIFY-ROLLBACK'', ''STOP'', ''CLEAR-BUFFER'', ''START-INPUT-TIMERS'',
       ''GET-INTERMEDIATE-RESULT'']] ! i"

definition protocol_events :: "mrcp_version \<Rightarrow> nat \<Rightarrow> string list" where
  "protocol_events version i =
     [[''SPEECH-MARKER'', ''SPEAK-COMPLETE''],
      [(if version = MRCP_VERSION_1 then ''START-OF-SPEECH'' else ''START-OF-INPUT''), ''RECOGNITION-COMPLETE'',
       ''INTERPRETATION-COMPLETE''],
      [''START-OF-INPUT'', ''RECORD-COMPLETE''],
      [''START-OF-INPUT'', ''VERIFICATION-COMPLETE'']] ! i"

definition protocol_header :: "mrcp_version \<Rightarrow> nat \<Rightarrow> resource_header header_vtable" where
  "protocol_header version i =
     [vtable_lift Synth_Data synth_data synth_header_vtable,
      vtable_lift Recog_Data recog_data
        (if version = MRCP_VERSION_1 then v1_recog_header_vtable else v2_recog_header_vtable),
      vtable_lift Recorder_Data recorder_data recorder_header_vtable,
      vtable_lift Verifier_Data verifier_data verifier_header_vtable] ! i"

lemma loaded_methods:
  assumes "i < MRCP_RESOURCE_TYPE_COUNT"
  shows "map st_value (res_method_table (loaded_resource i) version) = protocol_methods version i"
  by (rule resource_id_cases[OF assms]; hypsubst; simp only: loaded; simp add: protocol_methods_def
      mrcp_synth_resource_create_def mrcp_recog_resource_create_def mrcp_recorder_resource_create_def
      mrcp_verifier_resource_create_def synth_method_string_table_get_def recog_method_string_table_get_def
      recorder_method_string_table_get_def verifier_method_string_table_get_def synth_method_string_table_def
      v1_recog_method_string_table_def v2_recog_method_string_table_def recorder_method_string_table_def
      verifier_method_string_table_def)

lemma loaded_events:
  assumes "i < MRCP_RESOURCE_TYPE_COUNT"
  shows "map st_value (res_event_table (loaded_resource i) version) = protocol_events version i"
  by (rule resource_id_cases[OF assms]; hypsubst; simp only: loaded; simp add: protocol_events_def
      mrcp_synth_resource_create_def mrcp_recog_resource_create_def mrcp_recorder_resource_create_def
      mrcp_verifier_resource_create_def synth_event_string_table_get_def recog_event_string_table_get_def
      recorder_event_string_table_get_def verifier_event_string_table_get_def synth_event_string_table_def
      v1_recog_event_string_table_def v2_recog_event_string_table_def recorder_event_string_table_def
      verifier_event_string_table_def)

lemma loaded_header:
  assumes "i < MRCP_RESOURCE_TYPE_COUNT"
  shows "res_header_vtable (loaded_resource i) version = Some (protocol_header version i)"
    and "header_iface (protocol_header version i)"
proof -
  show "res_header_vtable (loaded_resource i) version = Some (protocol_header version i)"
    by (rule resource_id_cases[OF assms]; hypsubst; simp only: loaded; simp add: protocol_header_def
        mrcp_synth_resource_create_def mrcp_recog_resource_create_def mrcp_recorder_resource_create_def
        mrcp_verifier_resource_create_def mrcp_synth_header_vtable_get_def mrcp_recog_header_vtable_get_def
        mrcp_recorder_header_vtable_get_def mrcp_verifier_header_vtable_get_def)
  show "header_iface (protocol_header version i)"
    by (rule resource_id_cases[OF assms]; hypsubst; simp add: protocol_header_def
        synth_data.header_iface_axioms recog_v1_data.header_iface_axioms recog_v2_data.header_iface_axioms
        recorder_data.header_iface_axioms verifier_data.header_iface_axioms)
qed

lemma id_find_names:
  assumes "table_wf tbl" and "map st_value tbl = names" and "m < length names"
  shows "apt_string_table_id_find tbl (names ! m) = m"
  using id_find_name[OF assms(1), of m] assms(2,3) by auto

text \<open>
  C29: The loader registers the four resources of the protocol. The synthesizer, the recognizer, the
  recorder and the verifier are found under their identifiers and under their names; each has
  its own methods and events, found by their names under their identifiers, with the names of the
  version of the protocol where the versions differ, and the functions of its own header, those of
  the version for the recognizer.
\<close>

theorem loader_resources:
  assumes "i < MRCP_RESOURCE_TYPE_COUNT"
  shows "\<exists>l r. mrcp_resource_loader_create True = Some l
    \<and> mrcp_resource_get (mrcp_resource_factory_get l) i = Some r
    \<and> mrcp_resource_find (mrcp_resource_factory_get l) (protocol_resources ! i) = Some r
    \<and> res_id r = i
    \<and> (\<forall>version. map st_value (res_method_table r version) = protocol_methods version i
        \<and> map st_value (res_event_table r version) = protocol_events version i
        \<and> res_header_vtable r version = Some (protocol_header version i)
        \<and> header_iface (protocol_header version i)
        \<and> (\<forall>m < length (protocol_methods version i).
              apt_string_table_id_find (res_method_table r version) (protocol_methods version i ! m) = m)
        \<and> (\<forall>e < length (protocol_events version i).
              apt_string_table_id_find (res_event_table r version) (protocol_events version i ! e) = e))"
proof -
  let ?r = "loaded_resource i"
  obtain l where l: "mrcp_resource_loader_create True = Some l"
      "rf_array (ld_factory l) = map (\<lambda>i. Some (loaded_resource i)) [0..<MRCP_RESOURCE_TYPE_COUNT]"
      "mrcp_resource_find (ld_factory l) (res_name ?r) = Some ?r"
    using loader_create_all assms by blast
  have "mrcp_resource_get (ld_factory l) i = Some ?r" using l(2) assms by (simp add: mrcp_resource_get_def)
  moreover have "res_name ?r = protocol_resources ! i"
    by (rule resource_id_cases[OF assms]; hypsubst; simp only: loaded; simp add: protocol_resources_def)
  moreover have "table_wf (res_method_table ?r version)" "table_wf (res_event_table ?r version)" for version
    using loaded_resource_valid(4)[OF assms] by (simp_all add: tables_match_def)
  ultimately show ?thesis using l(1,3) loaded_resource_valid(2)[OF assms]
      loaded_methods[OF assms] loaded_events[OF assms] loaded_header[OF assms]
    by (intro exI[of _ l] exI[of _ ?r]) (simp add: mrcp_resource_factory_get_def id_find_names)
qed

lemma loader_resources_witness:
  "\<exists>l r. mrcp_resource_loader_create True = Some l
    \<and> mrcp_resource_find (mrcp_resource_factory_get l) ''speechrecog'' = Some r \<and> res_id r = 1
    \<and> apt_string_table_id_find (res_method_table r MRCP_VERSION_1) ''RECOGNITION-START-TIMERS'' = 6"
proof -
  obtain l r where "mrcp_resource_loader_create True = Some l"
    "mrcp_resource_find (mrcp_resource_factory_get l) (protocol_resources ! 1) = Some r" "res_id r = 1"
    "\<forall>m < length (protocol_methods MRCP_VERSION_1 1).
       apt_string_table_id_find (res_method_table r MRCP_VERSION_1) (protocol_methods MRCP_VERSION_1 1 ! m) = m"
    using loader_resources[of 1] by (auto simp: MRCP_RESOURCE_TYPE_COUNT_def)
  moreover from this(4)[rule_format, of 6]
  have "apt_string_table_id_find (res_method_table r MRCP_VERSION_1) ''RECOGNITION-START-TIMERS'' = 6"
    by (simp add: protocol_methods_def)
  ultimately show ?thesis by (auto simp: protocol_resources_def)
qed

text \<open>A resource loaded by name is registered with the letters of that name.\<close>

lemma resource_load_by_name:
  assumes "map tolower name = map tolower (st_value (mrcp_resource_string_table ! i))" "nul \<notin> set name"
    "i < MRCP_RESOURCE_TYPE_COUNT" "mrcp_resource_get (ld_factory l) i = None" "MRCP_RESOURCE_TYPE_COUNT \<le> rf_count (ld_factory l)"
  shows "\<exists>l1. mrcp_resource_load l name = (True, l1) \<and> mrcp_resource_find (ld_factory l1) name = Some ((loaded_resource i)\<lparr>res_name := name\<rparr>)"
proof -
  have "apt_string_table_id_find mrcp_resource_string_table name = i"
    using id_find_case[OF _ assms(1)[symmetric] _ assms(2)] id_find_name[OF resource_table_wf(1), of i] resource_table_wf assms(3)
    by (auto simp: table_wf_def list_all_iff)
  moreover have "mrcp_resource_create_by_id i \<noteq> None"
    by (rule resource_id_cases[OF assms(3)]; simp only: created_by_id; simp)
  moreover have "name \<noteq> []"
    using assms(1,3) by (auto elim!: resource_id_cases simp: mrcp_resource_string_table_def)
  ultimately show ?thesis using assms(3-5) loaded_resource_valid(1,2)[OF assms(3)]
    by (auto simp: mrcp_resource_load_def loader_register_def mrcp_resource_register_def mrcp_resource_get_def
        mrcp_resource_validate_def loaded_resource_def mrcp_resource_find_def Let_def)
qed

end
