(* ===== verification/Rtsp_Start_Line.thy ===== *)
theory Rtsp_Start_Line
  imports Start_Line
begin

text \<open>
  \<open>libs/uni-rtsp/src/rtsp_start_line.c\<close>: the request line and the status line of an RTSP message.
  The union of the two with its tag is one datatype.
\<close>

abbreviation (input) RTSP_VERSION_UNKNOWN :: nat where "RTSP_VERSION_UNKNOWN \<equiv> 0"
abbreviation (input) RTSP_VERSION_1 :: nat where "RTSP_VERSION_1 \<equiv> 1"

datatype rtsp_message_type = RTSP_MESSAGE_TYPE_UNKNOWN | RTSP_MESSAGE_TYPE_REQUEST | RTSP_MESSAGE_TYPE_RESPONSE

abbreviation (input) RTSP_METHOD_SETUP :: nat where "RTSP_METHOD_SETUP \<equiv> 0"
abbreviation (input) RTSP_METHOD_ANNOUNCE :: nat where "RTSP_METHOD_ANNOUNCE \<equiv> 1"
abbreviation (input) RTSP_METHOD_TEARDOWN :: nat where "RTSP_METHOD_TEARDOWN \<equiv> 2"
abbreviation (input) RTSP_METHOD_DESCRIBE :: nat where "RTSP_METHOD_DESCRIBE \<equiv> 3"
abbreviation (input) RTSP_METHOD_OPTIONS :: nat where "RTSP_METHOD_OPTIONS \<equiv> 4"

definition RTSP_METHOD_COUNT :: nat where "RTSP_METHOD_COUNT = 5"

abbreviation (input) RTSP_STATUS_CODE_OK :: nat where "RTSP_STATUS_CODE_OK \<equiv> 200"
abbreviation (input) RTSP_STATUS_CODE_BAD_REQUEST :: nat where "RTSP_STATUS_CODE_BAD_REQUEST \<equiv> 400"
abbreviation (input) RTSP_STATUS_CODE_NOT_FOUND :: nat where "RTSP_STATUS_CODE_NOT_FOUND \<equiv> 404"
abbreviation (input) RTSP_STATUS_CODE_METHOD_NOT_ALLOWED :: nat where "RTSP_STATUS_CODE_METHOD_NOT_ALLOWED \<equiv> 405"
abbreviation (input) RTSP_STATUS_CODE_NOT_ACCEPTABLE :: nat where "RTSP_STATUS_CODE_NOT_ACCEPTABLE \<equiv> 406"
abbreviation (input) RTSP_STATUS_CODE_REQUEST_TIMEOUT :: nat where "RTSP_STATUS_CODE_REQUEST_TIMEOUT \<equiv> 408"
abbreviation (input) RTSP_STATUS_CODE_SESSION_NOT_FOUND :: nat where "RTSP_STATUS_CODE_SESSION_NOT_FOUND \<equiv> 454"
abbreviation (input) RTSP_STATUS_CODE_INTERNAL_SERVER_ERROR :: nat where "RTSP_STATUS_CODE_INTERNAL_SERVER_ERROR \<equiv> 500"
abbreviation (input) RTSP_STATUS_CODE_NOT_IMPLEMENTED :: nat where "RTSP_STATUS_CODE_NOT_IMPLEMENTED \<equiv> 501"

record rtsp_request_line =
  rq_method_name :: string
  rq_method_id :: nat
  rq_url :: string
  rq_resource_name :: "string option"
  rq_version :: nat

record rtsp_status_line =
  rl_version :: nat
  rl_status_code :: nat
  rl_reason :: string

datatype rtsp_start_line =
    Rtsp_Unknown_Line
  | Rtsp_Request_Line rtsp_request_line
  | Rtsp_Status_Line rtsp_status_line

definition rtsp_request_line_init :: rtsp_request_line where
  "rtsp_request_line_init = \<lparr>rq_method_name = [], rq_method_id = RTSP_METHOD_COUNT, rq_url = [],
     rq_resource_name = None, rq_version = RTSP_VERSION_1\<rparr>"

definition rtsp_status_line_init :: rtsp_status_line where
  "rtsp_status_line_init = \<lparr>rl_version = RTSP_VERSION_1, rl_status_code = RTSP_STATUS_CODE_OK, rl_reason = []\<rparr>"

definition rtsp_start_line_init :: "rtsp_message_type \<Rightarrow> rtsp_start_line" where
  "rtsp_start_line_init message_type =
     (case message_type of
        RTSP_MESSAGE_TYPE_REQUEST \<Rightarrow> Rtsp_Request_Line rtsp_request_line_init
      | RTSP_MESSAGE_TYPE_RESPONSE \<Rightarrow> Rtsp_Status_Line rtsp_status_line_init
      | RTSP_MESSAGE_TYPE_UNKNOWN \<Rightarrow> Rtsp_Unknown_Line)"

definition RTSP_NAME :: string where "RTSP_NAME = ''RTSP''"

definition rtsp_method_string_table :: str_table where
  "rtsp_method_string_table =
     [\<lparr>st_value = ''SETUP'', st_key = 0\<rparr>,
      \<lparr>st_value = ''ANNOUNCE'', st_key = 0\<rparr>,
      \<lparr>st_value = ''TEARDOWN'', st_key = 0\<rparr>,
      \<lparr>st_value = ''DESCRIBE'', st_key = 0\<rparr>,
      \<lparr>st_value = ''OPTIONS'', st_key = 0\<rparr>]"

definition rtsp_reason_string_table :: str_table where
  "rtsp_reason_string_table =
     [\<lparr>st_value = ''OK'', st_key = 0\<rparr>,
      \<lparr>st_value = ''Created'', st_key = 0\<rparr>,
      \<lparr>st_value = ''Bad Request'', st_key = 0\<rparr>,
      \<lparr>st_value = ''Unauthorized'', st_key = 0\<rparr>,
      \<lparr>st_value = ''Not Found'', st_key = 4\<rparr>,
      \<lparr>st_value = ''Method Not Allowed'', st_key = 0\<rparr>,
      \<lparr>st_value = ''Not Acceptable'', st_key = 4\<rparr>,
      \<lparr>st_value = ''Proxy Auth Required'', st_key = 0\<rparr>,
      \<lparr>st_value = ''Request Timeout'', st_key = 0\<rparr>,
      \<lparr>st_value = ''Session Not Found'', st_key = 2\<rparr>,
      \<lparr>st_value = ''Internal Server Error'', st_key = 0\<rparr>,
      \<lparr>st_value = ''Not Implemented'', st_key = 5\<rparr>,
      \<lparr>st_value = ''Service Unavailable'', st_key = 2\<rparr>]"

section \<open>Parsing\<close>

text \<open>The part behind the last slash, if there is one.\<close>

definition resource_of_url :: "string \<Rightarrow> string option" where
  "resource_of_url url =
     (if CHR ''/'' \<in> set url then Some (rev (takeWhile (\<lambda>c. c \<noteq> CHR ''/'') (rev url))) else None)"

definition rtsp_resource_uri_parse :: "string \<Rightarrow> rtsp_request_line \<Rightarrow> bool \<times> rtsp_request_line" where
  "rtsp_resource_uri_parse field l =
     (if field = [] then (False, l)
      else
        let url = (if last field = CHR ''/'' then butlast field else field)
        in (True, l\<lparr>rq_url := url, rq_resource_name := resource_of_url url\<rparr>))"

definition rtsp_version_parse :: "string \<Rightarrow> string \<Rightarrow> nat" where
  "rtsp_version_parse field buf =
     (if length field \<le> length RTSP_NAME \<or> \<not> strncaseeq (length RTSP_NAME) buf RTSP_NAME
      then RTSP_VERSION_UNKNOWN
      else case drop (length RTSP_NAME) buf of
             c # d # _ \<Rightarrow> if c = CHR ''/'' \<and> d = CHR ''1'' then RTSP_VERSION_1 else RTSP_VERSION_UNKNOWN
           | _ \<Rightarrow> RTSP_VERSION_UNKNOWN)"

definition rtsp_status_code_parse :: "string \<Rightarrow> nat" where
  "rtsp_status_code_parse buf = apt_size_value_parse buf mod 2 ^ 32"

definition rtsp_status_line_parse :: "text_stream \<Rightarrow> string \<Rightarrow> string \<Rightarrow> bool \<times> rtsp_status_line" where
  "rtsp_status_line_parse line field buf =
     (let l = rtsp_status_line_init\<lparr>rl_version := rtsp_version_parse field buf\<rparr> in
      case apt_text_field_read line sp True of
        (False, _, _, _) \<Rightarrow> (False, l)
      | (True, _, buf2, line2) \<Rightarrow>
          let l2 = l\<lparr>rl_status_code := rtsp_status_code_parse buf2\<rparr> in
          case apt_text_field_read line2 sp True of
            (False, _, _, _) \<Rightarrow> (False, l2)
          | (True, field3, _, _) \<Rightarrow> (True, l2\<lparr>rl_reason := field3\<rparr>))"

definition rtsp_request_line_parse :: "text_stream \<Rightarrow> string \<Rightarrow> bool \<times> rtsp_request_line" where
  "rtsp_request_line_parse line field =
     (let l = rtsp_request_line_init\<lparr>rq_method_name := field,
                rq_method_id := apt_string_table_id_find rtsp_method_string_table field\<rparr> in
      case apt_text_field_read line sp True of
        (False, _, _, _) \<Rightarrow> (False, l)
      | (True, field2, _, line2) \<Rightarrow>
          let (_, l2) = rtsp_resource_uri_parse field2 l in
          case apt_text_field_read line2 sp True of
            (False, _, _, _) \<Rightarrow> (False, l2)
          | (True, field3, buf3, _) \<Rightarrow> (True, l2\<lparr>rq_version := rtsp_version_parse field3 buf3\<rparr>))"

definition rtsp_start_line_parse :: "rtsp_start_line \<Rightarrow> string \<Rightarrow> bool \<times> rtsp_start_line" where
  "rtsp_start_line_parse l str =
     (case apt_text_field_read (apt_text_stream_of str) sp True of
        (False, _, _, _) \<Rightarrow> (False, l)
      | (True, field, buf, line) \<Rightarrow>
          if take (length RTSP_NAME) buf = RTSP_NAME
          then apsnd Rtsp_Status_Line (rtsp_status_line_parse line field buf)
          else apsnd Rtsp_Request_Line (rtsp_request_line_parse line field))"

section \<open>Generation\<close>

text \<open>The version is an enumeration whose value is written as a number.\<close>

definition rtsp_version_generate :: "nat \<Rightarrow> out_stream \<Rightarrow> (bool \<times> out_stream) option" where
  "rtsp_version_generate v s =
     (if os_size s \<le> length (os_text s) + length RTSP_NAME + 1 then Some (False, s)
      else do {
        (ok, s1) \<leftarrow> apt_text_size_value_insert (os_write (RTSP_NAME @ [CHR ''/'']) s) v;
        if \<not> ok then Some (False, s1)
        else if os_size s1 \<le> length (os_text s1) + 2 then Some (False, s1)
        else Some (True, os_write [CHR ''.'', CHR ''0''] s1)
      })"

definition rtsp_status_code_generate :: "nat \<Rightarrow> out_stream \<Rightarrow> (bool \<times> out_stream) option" where
  "rtsp_status_code_generate c s = apt_text_size_value_insert s c"

definition rtsp_request_line_generate ::
  "rtsp_request_line \<Rightarrow> out_stream \<Rightarrow> (bool \<times> rtsp_request_line \<times> out_stream) option" where
  "rtsp_request_line_generate l0 s =
     (case apt_string_table_str_get rtsp_method_string_table (rq_method_id l0) of
        None \<Rightarrow> Some (False, l0, s)
      | Some name \<Rightarrow>
          let l = l0\<lparr>rq_method_name := name\<rparr>;
              (ok1, s1) = apt_text_string_insert s name
          in if \<not> ok1 then Some (False, l, s1) else
          let (ok2, s2) = apt_text_space_insert s1
          in if \<not> ok2 then Some (False, l, s2) else
          let (ok3, s3) = apt_text_string_insert s2 (rq_url l)
          in if \<not> ok3 then Some (False, l, s3) else
          let (ok4, s4) = apt_text_space_insert s3
          in if \<not> ok4 then Some (False, l, s4) else do {
            (ok5, s5) \<leftarrow> rtsp_version_generate (rq_version l) s4;
            Some (ok5, l, s5)
          })"

definition rtsp_status_line_generate :: "rtsp_status_line \<Rightarrow> out_stream \<Rightarrow> (bool \<times> out_stream) option" where
  "rtsp_status_line_generate l s = do {
     (ok1, s1) \<leftarrow> rtsp_version_generate (rl_version l) s;
     if \<not> ok1 then Some (False, s1) else
     let (ok2, s2) = apt_text_space_insert s1
     in if \<not> ok2 then Some (False, s2) else do {
       (ok3, s3) \<leftarrow> rtsp_status_code_generate (rl_status_code l) s2;
       if \<not> ok3 then Some (False, s3) else
       let (ok4, s4) = apt_text_space_insert s3
       in if \<not> ok4 then Some (False, s4) else Some (apt_text_string_insert s4 (rl_reason l))
     }
   }"

definition rtsp_start_line_generate ::
  "rtsp_start_line \<Rightarrow> out_stream \<Rightarrow> (bool \<times> rtsp_start_line \<times> out_stream) option" where
  "rtsp_start_line_generate l s = do {
     (status, l1, s1) \<leftarrow>
       (case l of
          Rtsp_Unknown_Line \<Rightarrow> Some (False, l, s)
        | Rtsp_Request_Line r \<Rightarrow> do {
            (ok, r1, t) \<leftarrow> rtsp_request_line_generate r s;
            Some (ok, Rtsp_Request_Line r1, t)
          }
        | Rtsp_Status_Line r \<Rightarrow> do {
            (ok, t) \<leftarrow> rtsp_status_line_generate r s;
            Some (ok, l, t)
          });
     if \<not> status then Some (False, l1, s1)
     else let (ok, s2) = apt_text_eol_insert s1 in Some (ok, l1, s2)
   }"

definition rtsp_reason_phrase_get :: "nat \<Rightarrow> string option" where
  "rtsp_reason_phrase_get reason = apt_string_table_str_get rtsp_reason_string_table reason"

section \<open>The text of a line\<close>

text \<open>
  Lines that can be read back: a known method and an address without a space that does not end
  in a slash, or a status with a reason.
\<close>

definition rtsp_line_ok :: "rtsp_start_line \<Rightarrow> bool" where
  "rtsp_line_ok l =
     (case l of
        Rtsp_Unknown_Line \<Rightarrow> False
      | Rtsp_Request_Line r \<Rightarrow> rq_method_id r < RTSP_METHOD_COUNT \<and> rq_url r \<noteq> [] \<and> sp \<notin> set (rq_url r)
          \<and> no_eol (rq_url r) \<and> last (rq_url r) \<noteq> CHR ''/'' \<and> rq_version r = RTSP_VERSION_1
      | Rtsp_Status_Line r \<Rightarrow> rl_version r = RTSP_VERSION_1 \<and> rl_status_code r < 2 ^ 32
          \<and> rl_reason r \<noteq> [] \<and> hd (rl_reason r) \<noteq> sp \<and> no_eol (rl_reason r))"

definition rtsp_line_text :: "rtsp_start_line \<Rightarrow> string" where
  "rtsp_line_text l =
     (case l of
        Rtsp_Unknown_Line \<Rightarrow> []
      | Rtsp_Request_Line r \<Rightarrow>
          join_sp [st_value (rtsp_method_string_table ! rq_method_id r), rq_url r, ''RTSP/1.0'']
      | Rtsp_Status_Line r \<Rightarrow> join_sp [''RTSP/1.0'', show_nat (rl_status_code r), rl_reason r])"

text \<open>What the receiver makes of it: the name of the resource is known, of the reason the first word.\<close>

definition rtsp_line_received :: "rtsp_start_line \<Rightarrow> rtsp_start_line" where
  "rtsp_line_received l =
     (case l of
        Rtsp_Unknown_Line \<Rightarrow> l
      | Rtsp_Request_Line r \<Rightarrow> Rtsp_Request_Line (r\<lparr>rq_method_name := st_value (rtsp_method_string_table ! rq_method_id r),
          rq_resource_name := resource_of_url (rq_url r)\<rparr>)
      | Rtsp_Status_Line r \<Rightarrow> Rtsp_Status_Line (r\<lparr>rl_reason := takeWhile (\<lambda>c. c \<noteq> sp) (rl_reason r)\<rparr>))"

lemma rtsp_method_table_wf: "table_wf rtsp_method_string_table" "length rtsp_method_string_table = RTSP_METHOD_COUNT"
  by (simp_all add: table_wf_def rtsp_method_string_table_def RTSP_METHOD_COUNT_def nul_def tolower_def)

lemma rtsp_method_name:
  assumes "i < RTSP_METHOD_COUNT"
  shows "sp_field (st_value (rtsp_method_string_table ! i))"
    "take 4 (st_value (rtsp_method_string_table ! i) @ r) \<noteq> ''RTSP''"
    "no_eol (st_value (rtsp_method_string_table ! i))"
    "length (st_value (rtsp_method_string_table ! i)) \<le> 8"
proof -
  have "i = 0 \<or> i = 1 \<or> i = 2 \<or> i = 3 \<or> i = 4" using assms by (auto simp: RTSP_METHOD_COUNT_def)
  then show "sp_field (st_value (rtsp_method_string_table ! i))"
    "take 4 (st_value (rtsp_method_string_table ! i) @ r) \<noteq> ''RTSP''"
    "no_eol (st_value (rtsp_method_string_table ! i))"
    "length (st_value (rtsp_method_string_table ! i)) \<le> 8"
    by (auto simp: rtsp_method_string_table_def sp_field_def sp_def cr_def lf_def)
qed

lemma rtsp_version_text: "sp_field ''RTSP/1.0''" "take 4 (''RTSP/1.0'' @ r) = ''RTSP''"
    "rtsp_version_parse ''RTSP/1.0'' (''RTSP/1.0'' @ r) = RTSP_VERSION_1"
  by (simp_all add: sp_field_def sp_def rtsp_version_parse_def RTSP_NAME_def eval_nat_numeral)

lemma rtsp_name_length: "length RTSP_NAME = 4"
  by (simp add: RTSP_NAME_def)

lemma field_read_any:
  assumes "ts_rest s = f" "f \<noteq> []" "hd f \<noteq> sp"
  shows "\<exists>s'. apt_text_field_read s sp True = (True, takeWhile (\<lambda>c. c \<noteq> sp) f, f, s')"
  using field_read_takeWhile[of s sp] assms by (cases f) auto

lemma rtsp_line_parse:
  assumes "rtsp_line_ok l"
  shows "rtsp_start_line_parse l0 (rtsp_line_text l) = (True, rtsp_line_received l)"
proof (cases l)
  case (Rtsp_Request_Line r)
  let ?m = "st_value (rtsp_method_string_table ! rq_method_id r)" and ?s = "apt_text_stream_of (rtsp_line_text l)"
  have ok: "rq_method_id r < RTSP_METHOD_COUNT" "sp_field (rq_url r)" "last (rq_url r) \<noteq> CHR ''/''" "rq_version r = 1"
    using assms Rtsp_Request_Line by (simp_all add: rtsp_line_ok_def sp_field_def)
  have rest: "ts_rest ?s = join_sp [?m, rq_url r, ''RTSP/1.0'']"
    by (simp add: rtsp_line_text_def Rtsp_Request_Line apt_text_stream_of_def)
  obtain s1 where 1: "apt_text_field_read ?s sp True = (True, ?m, ?m @ sp # join_sp [rq_url r, ''RTSP/1.0''], s1)"
      "ts_rest s1 = join_sp [rq_url r, ''RTSP/1.0'']"
    using read_join_more[OF rest rtsp_method_name(1)[OF ok(1)]] by blast
  obtain s2 where 2: "apt_text_field_read s1 sp True = (True, rq_url r, rq_url r @ sp # join_sp [''RTSP/1.0''], s2)"
      "ts_rest s2 = join_sp [''RTSP/1.0'']"
    using read_join_more[OF 1(2) ok(2)] by blast
  obtain s3 where 3: "apt_text_field_read s2 sp True = (True, ''RTSP/1.0'', ''RTSP/1.0'', s3)"
    using read_join_last[OF 2(2) rtsp_version_text(1)] by blast
  have id: "apt_string_table_id_find rtsp_method_string_table ?m = rq_method_id r"
    using id_find_name[OF rtsp_method_table_wf(1)] ok(1) by (simp add: rtsp_method_table_wf)
  have ne: "rq_url r \<noteq> []" using ok(2) by (simp add: sp_field_def)
  have other: "take (length RTSP_NAME) (?m @ sp # join_sp [rq_url r, ''RTSP/1.0'']) \<noteq> RTSP_NAME"
    using rtsp_method_name(2)[OF ok(1)] rtsp_name_length by (metis RTSP_NAME_def)
  show ?thesis
    using ok ne rtsp_version_text(3)[of "[]"]
    by (simp add: rtsp_start_line_parse_def 1[unfolded Rtsp_Request_Line] 2 3 other[simplified] rtsp_request_line_parse_def id rtsp_resource_uri_parse_def
        Let_def rtsp_line_received_def Rtsp_Request_Line rtsp_request_line_init_def)
next
  case (Rtsp_Status_Line r)
  let ?s = "apt_text_stream_of (rtsp_line_text l)" and ?c = "show_nat (rl_status_code r)"
  have ok: "rl_version r = 1" "rl_status_code r < 2 ^ 32" "rl_reason r \<noteq> []" "hd (rl_reason r) \<noteq> sp"
    using assms Rtsp_Status_Line by (simp_all add: rtsp_line_ok_def)
  have rest: "ts_rest ?s = join_sp [''RTSP/1.0'', ?c, rl_reason r]"
    by (simp add: rtsp_line_text_def Rtsp_Status_Line apt_text_stream_of_def)
  obtain s1 where 1: "apt_text_field_read ?s sp True = (True, ''RTSP/1.0'', ''RTSP/1.0'' @ sp # join_sp [?c, rl_reason r], s1)"
      "ts_rest s1 = join_sp [?c, rl_reason r]"
    using read_join_more[OF rest rtsp_version_text(1)] by blast
  obtain s2 where 2: "apt_text_field_read s1 sp True = (True, ?c, ?c @ sp # join_sp [rl_reason r], s2)"
      "ts_rest s2 = join_sp [rl_reason r]"
    using read_join_more[OF 1(2) sp_field_show] by blast
  obtain s3 where 3: "apt_text_field_read s2 sp True = (True, takeWhile (\<lambda>c. c \<noteq> sp) (rl_reason r), rl_reason r, s3)"
    using field_read_any[of s2 "rl_reason r"] 2(2) ok by auto
  have code: "rtsp_status_code_parse (?c @ sp # join_sp [rl_reason r]) = rl_status_code r"
    using size_value_parse_show[of "rl_status_code r" "sp # join_sp [rl_reason r]"] ok(2)
    by (simp add: rtsp_status_code_parse_def)
  show ?thesis
    using ok rtsp_version_text(2,3) code
    by (simp add: rtsp_start_line_parse_def 1[unfolded Rtsp_Status_Line] 2 3 RTSP_NAME_def rtsp_status_line_parse_def
        Let_def rtsp_line_received_def Rtsp_Status_Line rtsp_status_line_init_def)
qed (use assms in \<open>simp add: rtsp_line_ok_def\<close>)

lemma rtsp_version_write:
  assumes "length (os_text s) + 8 < os_size s"
  shows "rtsp_version_generate 1 s = Some (True, os_write ''RTSP/1.0'' s)"
proof -
  have one: "show_nat 1 = ''1''" by (simp add: show_nat.simps digit_chars)
  show ?thesis using assms by (simp add: rtsp_version_generate_def RTSP_NAME_def size_value_insert_ok one[simplified])
qed

lemma rtsp_line_write:
  assumes ok: "rtsp_line_ok l" and room: "length (os_text s) + length (rtsp_line_text l) + 4 < os_size s"
  shows "\<exists>l1. rtsp_start_line_generate l s = Some (True, l1, os_write (rtsp_line_text l @ [cr, lf]) s)
    \<and> rtsp_line_text l1 = rtsp_line_text l"
proof (cases l)
  case (Rtsp_Request_Line r)
  let ?m = "st_value (rtsp_method_string_table ! rq_method_id r)"
  have r: "rq_method_id r < RTSP_METHOD_COUNT" "rq_version r = 1" using ok Rtsp_Request_Line by (simp_all add: rtsp_line_ok_def)
  have name: "apt_string_table_str_get rtsp_method_string_table (rq_method_id r) = Some ?m"
    using r(1) by (simp add: apt_string_table_str_get_def rtsp_method_table_wf)
  show ?thesis
    using room r rtsp_version_write[of "os_write (?m @ sp # rq_url r @ [sp]) s"] ok
    by (auto simp: Rtsp_Request_Line rtsp_start_line_generate_def rtsp_request_line_generate_def name
        rtsp_line_text_def apt_text_string_insert_def apt_text_space_insert_def apt_text_char_insert_def
        apt_text_eol_insert_def rtsp_line_ok_def sp_field_def dest!: rtsp_method_name(1))
next
  case (Rtsp_Status_Line r)
  have r: "rl_version r = 1" "rl_reason r \<noteq> []" using ok Rtsp_Status_Line by (simp_all add: rtsp_line_ok_def)
  show ?thesis
    using room r
    by (auto simp: Rtsp_Status_Line rtsp_start_line_generate_def rtsp_status_line_generate_def
        rtsp_line_text_def apt_text_string_insert_def apt_text_space_insert_def apt_text_char_insert_def
        apt_text_eol_insert_def rtsp_version_write[simplified] rtsp_status_code_generate_def size_value_insert_ok)
qed (use ok in \<open>simp add: rtsp_line_ok_def\<close>)

text \<open>
  A start line of RTSP that was written is read back with its method, address and version,
  or its version and status code. Of the reason of a response only the first word is read.
\<close>

theorem rtsp_start_line_roundtrip:
  assumes "rtsp_line_ok l" and "length (os_text s) + length (rtsp_line_text l) + 4 < os_size s"
  shows "\<exists>l1 line. rtsp_start_line_generate l s = Some (True, l1, os_write (line @ [cr, lf]) s)
    \<and> rtsp_start_line_parse l0 line = (True, rtsp_line_received l)"
  using rtsp_line_write[OF assms] rtsp_line_parse[OF assms(1)] by blast

lemma rtsp_start_line_roundtrip_witness:
  "\<exists>l1 line. rtsp_start_line_generate (Rtsp_Status_Line \<lparr>rl_version = 1, rl_status_code = 404, rl_reason = ''Not Found''\<rparr>)
      (apt_text_stream_init 100) = Some (True, l1, os_write (line @ [cr, lf]) (apt_text_stream_init 100))
    \<and> rtsp_start_line_parse Rtsp_Unknown_Line line
      = (True, Rtsp_Status_Line \<lparr>rl_version = 1, rl_status_code = 404, rl_reason = ''Not''\<rparr>)"
proof -
  let ?l = "Rtsp_Status_Line \<lparr>rl_version = 1, rl_status_code = 404, rl_reason = ''Not Found''\<rparr>"
  have "rtsp_line_ok ?l" by (simp add: rtsp_line_ok_def sp_def cr_def lf_def)
  moreover have "length (os_text (apt_text_stream_init 100)) + length (rtsp_line_text ?l) + 4 < os_size (apt_text_stream_init 100)"
    using length_show_nat_le[of 3 404] by (simp add: rtsp_line_text_def apt_text_stream_init_def)
  moreover have "rtsp_line_received ?l = Rtsp_Status_Line \<lparr>rl_version = 1, rl_status_code = 404, rl_reason = ''Not''\<rparr>"
    by (simp add: rtsp_line_received_def sp_def)
  ultimately show ?thesis using rtsp_start_line_roundtrip[of ?l "apt_text_stream_init 100" Rtsp_Unknown_Line] by simp
qed

end
