(* ===== verification/Rtsp_Message.thy ===== *)
theory Rtsp_Message
  imports Rtsp_Start_Line Header_Section
begin

text \<open>
  \<open>libs/uni-rtsp/src/rtsp_header.c\<close> and \<open>rtsp_message.c\<close>: the header of an RTSP message with its
  transport, parsed and generated, and the messages themselves.
\<close>

section \<open>Header\<close>

abbreviation (input) RTSP_TRANSPORT_RTP :: nat where "RTSP_TRANSPORT_RTP \<equiv> 0"
abbreviation (input) RTSP_PROFILE_AVP :: nat where "RTSP_PROFILE_AVP \<equiv> 0"
abbreviation (input) RTSP_PROFILE_NONE :: nat where "RTSP_PROFILE_NONE \<equiv> 2"
abbreviation (input) RTSP_LOWER_TRANSPORT_UDP :: nat where "RTSP_LOWER_TRANSPORT_UDP \<equiv> 0"
abbreviation (input) RTSP_LOWER_TRANSPORT_NONE :: nat where "RTSP_LOWER_TRANSPORT_NONE \<equiv> 2"
abbreviation (input) RTSP_DELIVERY_UNICAST :: nat where "RTSP_DELIVERY_UNICAST \<equiv> 0"
abbreviation (input) RTSP_DELIVERY_MULTICAST :: nat where "RTSP_DELIVERY_MULTICAST \<equiv> 1"
abbreviation (input) RTSP_DELIVERY_NONE :: nat where "RTSP_DELIVERY_NONE \<equiv> 2"
abbreviation (input) RTSP_TRANSPORT_ATTRIB_CLIENT_PORT :: nat where "RTSP_TRANSPORT_ATTRIB_CLIENT_PORT \<equiv> 0"
abbreviation (input) RTSP_TRANSPORT_ATTRIB_SERVER_PORT :: nat where "RTSP_TRANSPORT_ATTRIB_SERVER_PORT \<equiv> 1"
abbreviation (input) RTSP_TRANSPORT_ATTRIB_SOURCE :: nat where "RTSP_TRANSPORT_ATTRIB_SOURCE \<equiv> 2"
abbreviation (input) RTSP_TRANSPORT_ATTRIB_DESTINATION :: nat where "RTSP_TRANSPORT_ATTRIB_DESTINATION \<equiv> 3"
abbreviation (input) RTSP_TRANSPORT_ATTRIB_UNICAST :: nat where "RTSP_TRANSPORT_ATTRIB_UNICAST \<equiv> 4"
abbreviation (input) RTSP_TRANSPORT_ATTRIB_MULTICAST :: nat where "RTSP_TRANSPORT_ATTRIB_MULTICAST \<equiv> 5"
abbreviation (input) RTSP_TRANSPORT_ATTRIB_MODE :: nat where "RTSP_TRANSPORT_ATTRIB_MODE \<equiv> 6"
abbreviation (input) RTSP_TRANSPORT_ATTRIB_NONE :: nat where "RTSP_TRANSPORT_ATTRIB_NONE \<equiv> 7"
abbreviation (input) RTSP_HEADER_FIELD_CSEQ :: nat where "RTSP_HEADER_FIELD_CSEQ \<equiv> 0"
abbreviation (input) RTSP_HEADER_FIELD_TRANSPORT :: nat where "RTSP_HEADER_FIELD_TRANSPORT \<equiv> 1"
abbreviation (input) RTSP_HEADER_FIELD_SESSION_ID :: nat where "RTSP_HEADER_FIELD_SESSION_ID \<equiv> 2"
abbreviation (input) RTSP_HEADER_FIELD_RTP_INFO :: nat where "RTSP_HEADER_FIELD_RTP_INFO \<equiv> 3"
abbreviation (input) RTSP_HEADER_FIELD_CONTENT_TYPE :: nat where "RTSP_HEADER_FIELD_CONTENT_TYPE \<equiv> 4"
abbreviation (input) RTSP_HEADER_FIELD_CONTENT_LENGTH :: nat where "RTSP_HEADER_FIELD_CONTENT_LENGTH \<equiv> 5"
abbreviation (input) RTSP_CONTENT_TYPE_SDP :: nat where "RTSP_CONTENT_TYPE_SDP \<equiv> 0"
abbreviation (input) RTSP_CONTENT_TYPE_MRCP :: nat where "RTSP_CONTENT_TYPE_MRCP \<equiv> 1"
abbreviation (input) RTSP_CONTENT_TYPE_NONE :: nat where "RTSP_CONTENT_TYPE_NONE \<equiv> 2"

definition RTSP_HEADER_FIELD_COUNT :: nat where "RTSP_HEADER_FIELD_COUNT = 6"

record rtsp_port_range =
  pr_min :: u16
  pr_max :: u16

record rtsp_transport =
  tr_protocol :: nat
  tr_profile :: nat
  tr_lower_protocol :: nat
  tr_delivery :: nat
  tr_client_port_range :: rtsp_port_range
  tr_server_port_range :: rtsp_port_range
  tr_source :: string
  tr_destination :: string
  tr_mode :: string

record rtsp_header =
  rh_cseq :: nat
  rh_transport :: rtsp_transport
  rh_session_id :: string
  rh_rtp_info :: string
  rh_content_type :: nat
  rh_content_length :: nat
  rh_section :: header_section

definition rtsp_port_range_init :: rtsp_port_range where
  "rtsp_port_range_init = \<lparr>pr_min = 0, pr_max = 0\<rparr>"

definition rtsp_port_range_is_valid :: "rtsp_port_range \<Rightarrow> bool" where
  "rtsp_port_range_is_valid r \<longleftrightarrow> \<not> (pr_min r = 0 \<and> pr_max r = 0)"

text \<open>The initialiser leaves the delivery alone; memory from the pool starts with \<open>d\<close> there.\<close>

definition rtsp_transport_init :: "nat \<Rightarrow> rtsp_transport" where
  "rtsp_transport_init d =
     \<lparr>tr_protocol = RTSP_TRANSPORT_RTP, tr_profile = RTSP_PROFILE_NONE, tr_lower_protocol = RTSP_LOWER_TRANSPORT_NONE,
      tr_delivery = d, tr_client_port_range = rtsp_port_range_init, tr_server_port_range = rtsp_port_range_init,
      tr_source = [], tr_destination = [], tr_mode = []\<rparr>"

definition rtsp_header_init :: "nat \<Rightarrow> rtsp_header" where
  "rtsp_header_init d =
     \<lparr>rh_cseq = 0, rh_transport = rtsp_transport_init d, rh_session_id = [], rh_rtp_info = [],
      rh_content_type = RTSP_CONTENT_TYPE_NONE, rh_content_length = 0,
      rh_section = snd (apt_header_section_array_alloc apt_header_section_init RTSP_HEADER_FIELD_COUNT)\<rparr>"

definition rtsp_header_string_table :: str_table where
  "rtsp_header_string_table =
     [\<lparr>st_value = ''CSeq'', st_key = 1\<rparr>,
      \<lparr>st_value = ''Transport'', st_key = 0\<rparr>,
      \<lparr>st_value = ''Session'', st_key = 0\<rparr>,
      \<lparr>st_value = ''RTP-Info'', st_key = 0\<rparr>,
      \<lparr>st_value = ''Content-Type'', st_key = 8\<rparr>,
      \<lparr>st_value = ''Content-Length'', st_key = 8\<rparr>]"

definition rtsp_content_type_string_table :: str_table where
  "rtsp_content_type_string_table =
     [\<lparr>st_value = ''application/sdp'', st_key = 12\<rparr>,
      \<lparr>st_value = ''application/mrcp'', st_key = 12\<rparr>]"

definition rtsp_transport_string_table :: str_table where
  "rtsp_transport_string_table =
     [\<lparr>st_value = ''RTP'', st_key = 0\<rparr>]"

definition rtsp_lower_transport_string_table :: str_table where
  "rtsp_lower_transport_string_table =
     [\<lparr>st_value = ''UDP'', st_key = 0\<rparr>,
      \<lparr>st_value = ''TCP'', st_key = 0\<rparr>]"

definition rtsp_profile_string_table :: str_table where
  "rtsp_profile_string_table =
     [\<lparr>st_value = ''AVP'', st_key = 0\<rparr>,
      \<lparr>st_value = ''SAVP'', st_key = 0\<rparr>]"

definition rtsp_transport_attrib_string_table :: str_table where
  "rtsp_transport_attrib_string_table =
     [\<lparr>st_value = ''client_port'', st_key = 0\<rparr>,
      \<lparr>st_value = ''server_port'', st_key = 2\<rparr>,
      \<lparr>st_value = ''source'', st_key = 2\<rparr>,
      \<lparr>st_value = ''destination'', st_key = 0\<rparr>,
      \<lparr>st_value = ''unicast'', st_key = 0\<rparr>,
      \<lparr>st_value = ''multicast'', st_key = 1\<rparr>,
      \<lparr>st_value = ''mode'', st_key = 2\<rparr>]"

section \<open>Parsing\<close>

definition rtsp_port_range_parse :: "rtsp_port_range \<Rightarrow> text_stream \<Rightarrow> bool \<times> rtsp_port_range" where
  "rtsp_port_range_parse r s =
     (case apt_text_field_read s (CHR ''-'') True of
        (False, _, _, _) \<Rightarrow> (False, r)
      | (True, _, buf, s1) \<Rightarrow>
          let r1 = r\<lparr>pr_min := of_nat (apt_size_value_parse buf)\<rparr> in
          case apt_text_field_read s1 (CHR '';'') True of
            (True, _, buf2, _) \<Rightarrow> (True, r1\<lparr>pr_max := of_nat (apt_size_value_parse buf2)\<rparr>)
          | (False, _, _, _) \<Rightarrow> (True, r1))"

definition rtsp_transport_attrib_value_parse :: "string \<Rightarrow> text_stream \<Rightarrow> bool \<times> string" where
  "rtsp_transport_attrib_value_parse v s =
     (case apt_text_field_read s (CHR '';'') True of
        (False, _, _, _) \<Rightarrow> (False, v)
      | (True, field, _, _) \<Rightarrow> (True, field))"

text \<open>The ports of the server are read into the range of the client.\<close>

definition rtsp_transport_attrib_parse :: "rtsp_transport \<Rightarrow> string \<Rightarrow> bool \<times> rtsp_transport" where
  "rtsp_transport_attrib_parse t field =
     (case apt_text_field_read (apt_text_stream_of field) (CHR ''='') True of
        (False, _, _, _) \<Rightarrow> (False, t)
      | (True, name, _, s) \<Rightarrow>
          let attrib = apt_string_table_id_find rtsp_transport_attrib_string_table name in
          (True,
           if attrib = RTSP_TRANSPORT_ATTRIB_CLIENT_PORT then
             t\<lparr>tr_client_port_range := snd (rtsp_port_range_parse (tr_client_port_range t) s)\<rparr>
           else if attrib = RTSP_TRANSPORT_ATTRIB_SERVER_PORT then
             t\<lparr>tr_client_port_range := snd (rtsp_port_range_parse (tr_client_port_range t) s)\<rparr>
           else if attrib = RTSP_TRANSPORT_ATTRIB_SOURCE then
             t\<lparr>tr_source := snd (rtsp_transport_attrib_value_parse (tr_source t) s)\<rparr>
           else if attrib = RTSP_TRANSPORT_ATTRIB_DESTINATION then
             t\<lparr>tr_destination := snd (rtsp_transport_attrib_value_parse (tr_destination t) s)\<rparr>
           else if attrib = RTSP_TRANSPORT_ATTRIB_UNICAST then t\<lparr>tr_delivery := RTSP_DELIVERY_UNICAST\<rparr>
           else if attrib = RTSP_TRANSPORT_ATTRIB_MULTICAST then t\<lparr>tr_delivery := RTSP_DELIVERY_MULTICAST\<rparr>
           else if attrib = RTSP_TRANSPORT_ATTRIB_MODE then
             t\<lparr>tr_mode := snd (rtsp_transport_attrib_value_parse (tr_mode t) s)\<rparr>
           else t))"

definition rtsp_transport_protocol_parse :: "rtsp_transport \<Rightarrow> string \<Rightarrow> bool \<times> rtsp_transport" where
  "rtsp_transport_protocol_parse t0 v =
     (let t = t0\<lparr>tr_protocol := RTSP_TRANSPORT_RTP, tr_profile := RTSP_PROFILE_AVP,
                tr_lower_protocol := RTSP_LOWER_TRANSPORT_UDP\<rparr> in
      case apt_text_field_read (apt_text_stream_of v) (CHR ''/'') True of
        (False, _, _, _) \<Rightarrow> (False, t)
      | (True, field, _, s) \<Rightarrow>
          let t1 = t\<lparr>tr_protocol := apt_string_table_id_find rtsp_transport_string_table field\<rparr> in
          if length rtsp_transport_string_table \<le> tr_protocol t1 then (False, t1)
          else case apt_text_field_read s (CHR ''/'') True of
            (False, _, _, _) \<Rightarrow> (False, t1)
          | (True, field2, _, s2) \<Rightarrow>
              let t2 = t1\<lparr>tr_profile := apt_string_table_id_find rtsp_profile_string_table field2\<rparr> in
              if length rtsp_profile_string_table \<le> tr_profile t2 then (False, t2)
              else case apt_text_field_read s2 (CHR ''/'') True of
                (False, _, _, _) \<Rightarrow> (True, t2)
              | (True, field3, _, _) \<Rightarrow>
                  let t3 = t2\<lparr>tr_lower_protocol := apt_string_table_id_find rtsp_lower_transport_string_table field3\<rparr>
                  in (tr_lower_protocol t3 < length rtsp_lower_transport_string_table, t3))"

text \<open>The loop over the attributes; each field that is read is not empty.\<close>

function transport_attribs_loop :: "text_stream \<Rightarrow> rtsp_transport \<Rightarrow> rtsp_transport" where
  "transport_attribs_loop s t =
     (case apt_text_field_read s (CHR '';'') True of
        (True, field, _, s1) \<Rightarrow> transport_attribs_loop s1 (snd (rtsp_transport_attrib_parse t field))
      | (False, _, _, _) \<Rightarrow> t)"
  by pat_completeness auto

termination
  by (relation "measure (\<lambda>(s, t). length (ts_rest s))") (auto dest!: field_read_shorter[OF sym])

declare transport_attribs_loop.simps [simp del]

definition rtsp_transport_parse :: "rtsp_transport \<Rightarrow> string \<Rightarrow> bool \<times> rtsp_transport" where
  "rtsp_transport_parse t v =
     (case apt_text_field_read (apt_text_stream_of v) (CHR '';'') True of
        (False, _, _, _) \<Rightarrow> (False, t)
      | (True, field, _, s) \<Rightarrow>
          let (ok, t1) = rtsp_transport_protocol_parse t field
          in if \<not> ok then (False, t1) else (True, transport_attribs_loop s t1))"

definition rtsp_session_id_parse :: "string \<Rightarrow> string" where
  "rtsp_session_id_parse v = takeWhile (\<lambda>c. c \<noteq> CHR '';'') v"

text \<open>Values that are not empty; the null buffer is the empty one.\<close>

definition rtsp_header_field_value_parse :: "rtsp_header \<Rightarrow> nat \<Rightarrow> string \<Rightarrow> bool \<times> rtsp_header" where
  "rtsp_header_field_value_parse h i v =
     (if i = RTSP_HEADER_FIELD_CSEQ then (True, h\<lparr>rh_cseq := apt_size_value_parse v\<rparr>)
      else if i = RTSP_HEADER_FIELD_TRANSPORT then
        (let (ok, t) = rtsp_transport_parse (rh_transport h) v in (ok, h\<lparr>rh_transport := t\<rparr>))
      else if i = RTSP_HEADER_FIELD_SESSION_ID then (True, h\<lparr>rh_session_id := rtsp_session_id_parse v\<rparr>)
      else if i = RTSP_HEADER_FIELD_RTP_INFO then (True, h\<lparr>rh_rtp_info := v\<rparr>)
      else if i = RTSP_HEADER_FIELD_CONTENT_TYPE then
        (True, h\<lparr>rh_content_type := apt_string_table_id_find rtsp_content_type_string_table v\<rparr>)
      else if i = RTSP_HEADER_FIELD_CONTENT_LENGTH then (True, h\<lparr>rh_content_length := apt_size_value_parse v\<rparr>)
      else (False, h))"

text \<open>A field gets its identifier by its name; a value of a known field is taken into the header.\<close>

definition rtsp_field_parse :: "rtsp_header \<Rightarrow> header_field \<Rightarrow> rtsp_header \<times> header_field" where
  "rtsp_field_parse h f =
     (let f1 = f\<lparr>hf_id := apt_string_table_id_find rtsp_header_string_table (hf_name f)\<rparr>
      in (if hf_value f1 \<noteq> [] then snd (rtsp_header_field_value_parse h (hf_id f1) (hf_value f1)) else h, f1))"

definition rtsp_header_field_add :: "rtsp_header \<Rightarrow> header_field \<Rightarrow> bool \<times> rtsp_header" where
  "rtsp_header_field_add h f =
     (let (h1, f1) = rtsp_field_parse h f;
          (ok, sec) = apt_header_section_field_add (rh_section h1) f1
      in (ok, h1\<lparr>rh_section := sec\<rparr>))"

fun rtsp_fields_parse_loop ::
  "rtsp_header \<Rightarrow> (nat \<times> header_field) list \<Rightarrow> rtsp_header \<times> (nat \<times> header_field) list" where
  "rtsp_fields_parse_loop h [] = (h, [])"
| "rtsp_fields_parse_loop h ((a, f) # rest) =
     (let (h1, f1) = rtsp_field_parse h f;
          h2 = h1\<lparr>rh_section := snd (apt_header_section_field_set (rh_section h1) (a, f1))\<rparr>;
          (h3, rest') = rtsp_fields_parse_loop h2 rest
      in (h3, (a, f1) # rest'))"

definition rtsp_header_fields_parse :: "rtsp_header \<Rightarrow> rtsp_header" where
  "rtsp_header_fields_parse h =
     (let (h', ring) = rtsp_fields_parse_loop h (sec_ring (rh_section h))
      in h'\<lparr>rh_section := (rh_section h')\<lparr>sec_ring := ring\<rparr>\<rparr>)"

section \<open>Generation\<close>

definition rtsp_port_range_generate :: "nat \<Rightarrow> rtsp_port_range \<Rightarrow> out_stream \<Rightarrow> (bool \<times> out_stream) option" where
  "rtsp_port_range_generate attrib r s =
     (case apt_string_table_str_get rtsp_transport_attrib_string_table attrib of
        None \<Rightarrow> Some (False, s)
      | Some name \<Rightarrow> do {
          (_, s1) \<leftarrow> apt_text_size_value_insert
            (snd (apt_text_char_insert (snd (apt_text_string_insert s name)) (CHR ''=''))) (unat (pr_min r));
          if pr_min r < pr_max r then do {
            (_, s2) \<leftarrow> apt_text_size_value_insert (snd (apt_text_char_insert s1 (CHR ''-''))) (unat (pr_max r));
            Some (True, s2)
          } else Some (True, s1)
        })"

definition transport_range_generate :: "nat \<Rightarrow> rtsp_port_range \<Rightarrow> out_stream \<Rightarrow> out_stream option" where
  "transport_range_generate attrib r s =
     (if rtsp_port_range_is_valid r
      then map_option snd (rtsp_port_range_generate attrib r (snd (apt_text_char_insert s (CHR '';''))))
      else Some s)"

text \<open>
  The text of a transport; \<open>None\<close> inside when there is no text for it. What does not fit into
  256 bytes is left out.
\<close>

definition rtsp_transport_generate :: "rtsp_transport \<Rightarrow> string option option" where
  "rtsp_transport_generate t =
     (case (apt_string_table_str_get rtsp_transport_string_table (tr_protocol t),
            apt_string_table_str_get rtsp_profile_string_table (tr_profile t)) of
        (Some protocol, Some profile) \<Rightarrow>
          let s0 = apt_text_stream_init 256;
              s1 = snd (apt_text_string_insert s0 protocol);
              s2 = snd (apt_text_char_insert s1 (CHR ''/''));
              s3 = snd (apt_text_string_insert s2 profile);
              attrib = (if tr_delivery t = RTSP_DELIVERY_UNICAST then RTSP_TRANSPORT_ATTRIB_UNICAST
                        else if tr_delivery t = RTSP_DELIVERY_MULTICAST then RTSP_TRANSPORT_ATTRIB_MULTICAST
                        else RTSP_TRANSPORT_ATTRIB_NONE);
              rest = (\<lambda>s. do {
                s5 \<leftarrow> transport_range_generate RTSP_TRANSPORT_ATTRIB_CLIENT_PORT (tr_client_port_range t) s;
                s6 \<leftarrow> transport_range_generate RTSP_TRANSPORT_ATTRIB_SERVER_PORT (tr_server_port_range t) s5;
                Some (Some (os_text
                  (if tr_mode t \<noteq> [] then
                     (case apt_string_table_str_get rtsp_transport_attrib_string_table RTSP_TRANSPORT_ATTRIB_MODE of
                        None \<Rightarrow> s6
                      | Some name \<Rightarrow>
                          snd (apt_text_string_insert (snd (apt_text_char_insert (snd (apt_text_string_insert
                            (snd (apt_text_char_insert s6 (CHR '';''))) name)) (CHR ''=''))) (tr_mode t)))
                   else s6)))
              })
          in if tr_delivery t \<noteq> RTSP_DELIVERY_NONE then
               (case apt_string_table_str_get rtsp_transport_attrib_string_table attrib of
                  None \<Rightarrow> Some None
                | Some delivery \<Rightarrow>
                    rest (snd (apt_text_string_insert (snd (apt_text_char_insert s3 (CHR '';''))) delivery)))
             else rest s3
      | _ \<Rightarrow> Some None)"

text \<open>The value of a field; \<open>Some None\<close> leaves the value of the field as it is.\<close>

definition rtsp_header_field_value_generate :: "rtsp_header \<Rightarrow> nat \<Rightarrow> string option option" where
  "rtsp_header_field_value_generate h i =
     (if i = RTSP_HEADER_FIELD_CSEQ then Some (Some (apt_size_value_generate (rh_cseq h)))
      else if i = RTSP_HEADER_FIELD_TRANSPORT then rtsp_transport_generate (rh_transport h)
      else if i = RTSP_HEADER_FIELD_SESSION_ID then Some (Some (rh_session_id h))
      else if i = RTSP_HEADER_FIELD_RTP_INFO then Some (Some (rh_rtp_info h))
      else if i = RTSP_HEADER_FIELD_CONTENT_TYPE then
        Some (apt_string_table_str_get rtsp_content_type_string_table (rh_content_type h))
      else if i = RTSP_HEADER_FIELD_CONTENT_LENGTH then Some (Some (apt_size_value_generate (rh_content_length h)))
      else Some None)"

definition rtsp_header_property_add :: "rtsp_header \<Rightarrow> nat \<Rightarrow> (bool \<times> rtsp_header) option" where
  "rtsp_header_property_add h i = do {
     v \<leftarrow> rtsp_header_field_value_generate h i;
     case apt_header_section_field_get (rh_section h) i of
       Some a \<Rightarrow> Some (True, (case v of
           None \<Rightarrow> h
         | Some v1 \<Rightarrow> h\<lparr>rh_section := set_field_value a v1 (rh_section h)\<rparr>))
     | None \<Rightarrow>
         (case apt_string_table_str_get rtsp_header_string_table i of
            None \<Rightarrow> Some (False, h)
          | Some name \<Rightarrow>
              let f = apt_header_field_alloc\<lparr>hf_name := name, hf_value := (case v of None \<Rightarrow> [] | Some v1 \<Rightarrow> v1),
                        hf_id := i\<rparr>;
                  (ok, sec) = apt_header_section_field_insert (rh_section h) f
              in Some (ok, h\<lparr>rh_section := sec\<rparr>))
   }"

definition rtsp_header_property_remove :: "rtsp_header \<Rightarrow> nat \<Rightarrow> bool \<times> rtsp_header" where
  "rtsp_header_property_remove h i =
     (case apt_header_section_field_get (rh_section h) i of
        None \<Rightarrow> (False, h)
      | Some a \<Rightarrow>
          (case section_field_at (rh_section h) a of
             None \<Rightarrow> (False, h)
           | Some f \<Rightarrow> (True, h\<lparr>rh_section := apt_header_section_field_remove (rh_section h) (a, f)\<rparr>)))"

definition rtsp_header_property_check :: "rtsp_header \<Rightarrow> nat \<Rightarrow> bool" where
  "rtsp_header_property_check h i = apt_header_section_field_check (rh_section h) i"

section \<open>Messages\<close>

record rtsp_message =
  rm_start_line :: rtsp_start_line
  rm_header :: rtsp_header
  rm_body :: string

definition rtsp_message_init :: "rtsp_message_type \<Rightarrow> nat \<Rightarrow> rtsp_message" where
  "rtsp_message_init message_type d =
     \<lparr>rm_start_line = rtsp_start_line_init message_type, rm_header = rtsp_header_init d, rm_body = []\<rparr>"

definition rtsp_message_create :: "rtsp_message_type \<Rightarrow> nat \<Rightarrow> rtsp_message" where
  "rtsp_message_create message_type d = rtsp_message_init message_type d"

definition rtsp_request_create :: "nat \<Rightarrow> rtsp_message" where
  "rtsp_request_create d =
     (rtsp_message_create RTSP_MESSAGE_TYPE_REQUEST d)
       \<lparr>rm_start_line := Rtsp_Request_Line (rtsp_request_line_init\<lparr>rq_version := RTSP_VERSION_1\<rparr>)\<rparr>"

text \<open>
  A response takes the version of the request line; the callers pass requests, and a message
  of another type, whose union has no request line, is read as version zero.
\<close>

definition request_version :: "rtsp_message \<Rightarrow> nat" where
  "request_version m = (case rm_start_line m of Rtsp_Request_Line r \<Rightarrow> rq_version r | _ \<Rightarrow> RTSP_VERSION_UNKNOWN)"

definition rtsp_response_create ::
  "nat \<Rightarrow> rtsp_message \<Rightarrow> nat \<Rightarrow> nat \<Rightarrow> rtsp_message option" where
  "rtsp_response_create d request status_code reason =
     (let m0 = rtsp_message_create RTSP_MESSAGE_TYPE_RESPONSE d;
          m1 = m0\<lparr>rm_start_line := Rtsp_Status_Line (rtsp_status_line_init\<lparr>rl_version := request_version request,
                 rl_status_code := status_code,
                 rl_reason := (case rtsp_reason_phrase_get reason of None \<Rightarrow> [] | Some r \<Rightarrow> r)\<rparr>)\<rparr>
      in do {
        m2 \<leftarrow> (if rtsp_header_property_check (rm_header request) RTSP_HEADER_FIELD_CSEQ then do {
                 (_, h) \<leftarrow> rtsp_header_property_add ((rm_header m1)\<lparr>rh_cseq := rh_cseq (rm_header request)\<rparr>)
                   RTSP_HEADER_FIELD_CSEQ;
                 Some (m1\<lparr>rm_header := h\<rparr>)
               } else Some m1);
        Some (if rtsp_header_property_check (rm_header request) RTSP_HEADER_FIELD_TRANSPORT
                 \<and> tr_mode (rh_transport (rm_header request)) \<noteq> []
              then m2\<lparr>rm_header := (rm_header m2)\<lparr>rh_transport := (rh_transport (rm_header m2))
                     \<lparr>tr_mode := tr_mode (rh_transport (rm_header request))\<rparr>\<rparr>\<rparr>
              else m2)
      })"

section \<open>Transport\<close>

lemma rtsp_tables_wf:
  "table_wf rtsp_header_string_table" "table_wf rtsp_content_type_string_table" "table_wf rtsp_transport_string_table"
  "table_wf rtsp_lower_transport_string_table" "table_wf rtsp_profile_string_table"
  "table_wf rtsp_transport_attrib_string_table"
  by (simp_all add: table_wf_def rtsp_header_string_table_def rtsp_content_type_string_table_def
      rtsp_transport_string_table_def rtsp_lower_transport_string_table_def rtsp_profile_string_table_def
      rtsp_transport_attrib_string_table_def nul_def tolower_def)

lemma spaces_skip_none: "hd (ts_rest s) \<noteq> sp \<Longrightarrow> apt_text_spaces_skip s = s"
  by (cases "ts_rest s") (simp_all add: apt_text_spaces_skip_def ts_advance_def)

lemma field_read_sep:
  assumes "ts_rest s = f @ c # rest" "f \<noteq> []" "hd f \<noteq> sp" "c \<notin> set f"
  shows "\<exists>s1. apt_text_field_read s c True = (True, f, f @ c # rest, s1) \<and> ts_rest s1 = rest"
proof -
  have "apt_text_spaces_skip s = s" using assms(1-3) by (intro spaces_skip_none) simp
  then show ?thesis using assms by (auto simp: apt_text_field_read_def Let_def)
qed

lemma field_read_end:
  assumes "ts_rest s = f" "f \<noteq> []" "hd f \<noteq> sp" "c \<notin> set f"
  shows "\<exists>s1. apt_text_field_read s c True = (True, f, f, s1) \<and> ts_rest s1 = []"
proof -
  have "apt_text_spaces_skip s = s" using assms(1-3) by (intro spaces_skip_none) simp
  then show ?thesis using assms by (auto simp: apt_text_field_read_def Let_def)
qed

text \<open>The attributes of a transport, each behind a semicolon.\<close>

definition attribs_text :: "string list \<Rightarrow> string" where
  "attribs_text fs = concat (map (\<lambda>f. CHR '';'' # f) fs)"

definition attrib_ok :: "string \<Rightarrow> bool" where
  "attrib_ok f \<longleftrightarrow> f \<noteq> [] \<and> hd f \<noteq> sp \<and> CHR '';'' \<notin> set f"

lemma attribs_loop_text:
  assumes "list_all attrib_ok fs" "ts_rest s = drop 1 (attribs_text fs)"
  shows "transport_attribs_loop s t = fold (\<lambda>f t. snd (rtsp_transport_attrib_parse t f)) fs t"
  using assms
proof (induction fs arbitrary: s t)
  case Nil
  then show ?case by (simp add: transport_attribs_loop.simps attribs_text_def field_read_empty)
next
  case (Cons f fs)
  have f: "f \<noteq> []" "hd f \<noteq> sp" "CHR '';'' \<notin> set f" using Cons.prems(1) by (auto simp: attrib_ok_def)
  have "\<exists>b s1. apt_text_field_read s (CHR '';'') True = (True, f, b, s1) \<and> ts_rest s1 = drop 1 (attribs_text fs)"
  proof (cases fs)
    case Nil
    then show ?thesis using field_read_end[OF _ f, of s] Cons.prems(2) by (auto simp: attribs_text_def)
  next
    case (Cons g gs)
    then show ?thesis using field_read_sep[OF _ f, of s] Cons.prems(2) \<open>ts_rest s = _\<close> by (auto simp: attribs_text_def)
  qed
  then obtain b s1 where r: "apt_text_field_read s (CHR '';'') True = (True, f, b, s1)"
    "ts_rest s1 = drop 1 (attribs_text fs)" by blast
  show ?case using Cons.IH[OF _ r(2)] Cons.prems(1) by (subst transport_attribs_loop.simps) (simp add: r(1))
qed

definition port_text :: "rtsp_port_range \<Rightarrow> string" where
  "port_text r = show_nat (unat (pr_min r)) @ (if pr_min r < pr_max r then CHR ''-'' # show_nat (unat (pr_max r)) else [])"

text \<open>A range whose upper end is not written leaves the upper end the receiver had.\<close>

definition range_received :: "rtsp_port_range \<Rightarrow> rtsp_port_range \<Rightarrow> rtsp_port_range" where
  "range_received r r0 = (if pr_min r < pr_max r then r else r0\<lparr>pr_min := pr_min r\<rparr>)"

lemma show_nat_facts: "hd (show_nat n) \<noteq> sp" "CHR ''-'' \<notin> set (show_nat n)" "CHR '';'' \<notin> set (show_nat n)"
    "CHR ''='' \<notin> set (show_nat n)"
proof -
  have "is_digit (hd (show_nat n))" by (rule show_nat_digits[of _ n]) simp
  then show "hd (show_nat n) \<noteq> sp" by (auto simp: is_digit_def sp_def)
qed (auto simp: is_digit_def dest!: show_nat_digits)

lemma port_value: "apt_size_value_parse (show_nat (unat (p :: u16)) @ CHR ''-'' # r) = unat p"
    "apt_size_value_parse (show_nat (unat p)) = unat p"
proof -
  have "unat p < 2 ^ 63" using unsigned_less[of p, where 'a = nat] by simp
  moreover from this have "size_t (int (unat p)) = unat p" by (intro size_t_id) simp
  ultimately show "apt_size_value_parse (show_nat (unat p) @ CHR ''-'' # r) = unat p"
    "apt_size_value_parse (show_nat (unat p)) = unat p"
    using atol_show_nat_append[of "CHR ''-'' # r" "unat p"] atol_show_nat_append[of "[]" "unat p"]
    by (simp_all add: apt_size_value_parse_def is_digit_def)
qed

lemma port_range_text:
  assumes "ts_rest s = port_text r"
  shows "rtsp_port_range_parse r0 s = (True, range_received r r0)"
proof (cases "pr_min r < pr_max r")
  case True
  let ?a = "show_nat (unat (pr_min r))" and ?b = "show_nat (unat (pr_max r))"
  obtain s1 where 1: "apt_text_field_read s (CHR ''-'') True = (True, ?a, ?a @ CHR ''-'' # ?b, s1)" "ts_rest s1 = ?b"
    using field_read_sep[of s ?a "CHR ''-''" ?b] assms True by (auto simp: port_text_def show_nat_facts)
  obtain s2 where 2: "apt_text_field_read s1 (CHR '';'') True = (True, ?b, ?b, s2)"
    using field_read_end[of s1 ?b "CHR '';''"] 1(2) by (auto simp: show_nat_facts)
  show ?thesis using True by (simp add: rtsp_port_range_parse_def 1 2 Let_def port_value range_received_def)
next
  case False
  let ?a = "show_nat (unat (pr_min r))"
  obtain s1 where 1: "apt_text_field_read s (CHR ''-'') True = (True, ?a, ?a, s1)" "ts_rest s1 = []"
    using field_read_end[of s ?a "CHR ''-''"] assms False by (auto simp: port_text_def show_nat_facts)
  show ?thesis using False
    by (simp add: rtsp_port_range_parse_def 1 field_read_empty[OF 1(2)] Let_def port_value range_received_def)
qed

abbreviation (input) attrib_name :: "nat \<Rightarrow> string" where
  "attrib_name i \<equiv> st_value (rtsp_transport_attrib_string_table ! i)"

lemma attrib_names:
  "attrib_name 0 = ''client_port''" "attrib_name (Suc 0) = ''server_port''" "attrib_name 4 = ''unicast''"
  "attrib_name 5 = ''multicast''" "attrib_name 6 = ''mode''"
  by (simp_all add: rtsp_transport_attrib_string_table_def)

lemma attrib_id: "i < 7 \<Longrightarrow> apt_string_table_id_find rtsp_transport_attrib_string_table (attrib_name i) = i"
  by (rule id_find_name[OF rtsp_tables_wf(6)]) (simp add: rtsp_transport_attrib_string_table_def)

lemma attrib_read:
  assumes "CHR ''='' \<notin> set n" "n \<noteq> []" "hd n \<noteq> sp"
  shows "\<exists>s1. apt_text_field_read (apt_text_stream_of (n @ CHR ''='' # v)) (CHR ''='') True = (True, n, n @ CHR ''='' # v, s1)
      \<and> ts_rest s1 = v"
    "\<exists>s1. apt_text_field_read (apt_text_stream_of n) (CHR ''='') True = (True, n, n, s1)"
  using field_read_sep[of "apt_text_stream_of (n @ CHR ''='' # v)" n "CHR ''=''" v]
    field_read_end[of "apt_text_stream_of n" n "CHR ''=''"] assms
  by (auto simp: apt_text_stream_of_def)

lemma attrib_parse_ports:
  "snd (rtsp_transport_attrib_parse t (''client_port='' @ port_text r))
    = t\<lparr>tr_client_port_range := range_received r (tr_client_port_range t)\<rparr>"
  "snd (rtsp_transport_attrib_parse t (''server_port='' @ port_text r))
    = t\<lparr>tr_client_port_range := range_received r (tr_client_port_range t)\<rparr>"
proof -
  have "snd (rtsp_transport_attrib_parse t (n @ CHR ''='' # port_text r))
      = t\<lparr>tr_client_port_range := range_received r (tr_client_port_range t)\<rparr>"
    if n: "CHR ''='' \<notin> set n" "n \<noteq> []" "hd n \<noteq> sp"
      and i: "apt_string_table_id_find rtsp_transport_attrib_string_table n < 2" for n
  proof -
    obtain s1 where "apt_text_field_read (apt_text_stream_of (n @ CHR ''='' # port_text r)) (CHR ''='') True
        = (True, n, n @ CHR ''='' # port_text r, s1)" "ts_rest s1 = port_text r"
      using attrib_read(1)[OF n] by blast
    then show ?thesis using port_range_text[of s1 r] i by (auto simp: rtsp_transport_attrib_parse_def Let_def less_2_cases_iff)
  qed
  from this[of "''client_port''"] this[of "''server_port''"] attrib_id[of 0] attrib_id[of 1]
  show "snd (rtsp_transport_attrib_parse t (''client_port='' @ port_text r))
      = t\<lparr>tr_client_port_range := range_received r (tr_client_port_range t)\<rparr>"
    "snd (rtsp_transport_attrib_parse t (''server_port='' @ port_text r))
      = t\<lparr>tr_client_port_range := range_received r (tr_client_port_range t)\<rparr>"
    by (simp_all add: attrib_names sp_def)
qed

lemma attrib_parse_delivery:
  "snd (rtsp_transport_attrib_parse t ''unicast'') = t\<lparr>tr_delivery := RTSP_DELIVERY_UNICAST\<rparr>"
  "snd (rtsp_transport_attrib_parse t ''multicast'') = t\<lparr>tr_delivery := RTSP_DELIVERY_MULTICAST\<rparr>"
  using attrib_read(2)[of "''unicast''"] attrib_read(2)[of "''multicast''"] attrib_id[of 4] attrib_id[of 5]
  by (auto simp: rtsp_transport_attrib_parse_def Let_def attrib_names sp_def)

lemma attrib_parse_mode:
  assumes "attrib_ok v"
  shows "snd (rtsp_transport_attrib_parse t (''mode='' @ v)) = t\<lparr>tr_mode := v\<rparr>"
proof -
  have v: "v \<noteq> []" "hd v \<noteq> sp" "CHR '';'' \<notin> set v" using assms by (auto simp: attrib_ok_def)
  obtain s1 where s1: "apt_text_field_read (apt_text_stream_of (''mode'' @ CHR ''='' # v)) (CHR ''='') True
      = (True, ''mode'', ''mode'' @ CHR ''='' # v, s1)" "ts_rest s1 = v"
    using attrib_read(1)[of "''mode''" v] by (auto simp: sp_def)
  obtain s2 where s2: "apt_text_field_read s1 (CHR '';'') True = (True, v, v, s2)"
    using field_read_end[OF s1(2) v] by blast
  show ?thesis using s1(1) s2 attrib_id[of 6]
    by (simp add: rtsp_transport_attrib_parse_def rtsp_transport_attrib_value_parse_def Let_def attrib_names)
qed

text \<open>Transports whose text fits, and what becomes of them at the receiver.\<close>

definition rtsp_transport_ok :: "rtsp_transport \<Rightarrow> bool" where
  "rtsp_transport_ok t \<longleftrightarrow> tr_protocol t = RTSP_TRANSPORT_RTP \<and> tr_profile t < 2 \<and> tr_delivery t \<le> 2
     \<and> (tr_mode t \<noteq> [] \<longrightarrow> attrib_ok (tr_mode t)) \<and> length (tr_mode t) \<le> 100"

definition transport_attribs :: "rtsp_transport \<Rightarrow> string list" where
  "transport_attribs t =
     (if tr_delivery t = RTSP_DELIVERY_UNICAST then [''unicast'']
      else if tr_delivery t = RTSP_DELIVERY_MULTICAST then [''multicast''] else [])
     @ (if rtsp_port_range_is_valid (tr_client_port_range t) then [''client_port='' @ port_text (tr_client_port_range t)] else [])
     @ (if rtsp_port_range_is_valid (tr_server_port_range t) then [''server_port='' @ port_text (tr_server_port_range t)] else [])
     @ (if tr_mode t \<noteq> [] then [''mode='' @ tr_mode t] else [])"

definition profile_text :: "rtsp_transport \<Rightarrow> string" where
  "profile_text t = (if tr_profile t = 0 then ''RTP/AVP'' else ''RTP/SAVP'')"

text \<open>The client's range is the last range that was written, be it that of the server.\<close>

definition transport_received :: "rtsp_transport \<Rightarrow> rtsp_transport \<Rightarrow> rtsp_transport" where
  "transport_received t t0 =
     (let r1 = (if rtsp_port_range_is_valid (tr_client_port_range t)
                then range_received (tr_client_port_range t) (tr_client_port_range t0) else tr_client_port_range t0);
          r2 = (if rtsp_port_range_is_valid (tr_server_port_range t) then range_received (tr_server_port_range t) r1 else r1)
      in t0\<lparr>tr_protocol := tr_protocol t, tr_profile := tr_profile t, tr_lower_protocol := RTSP_LOWER_TRANSPORT_UDP,
            tr_delivery := (if tr_delivery t = RTSP_DELIVERY_NONE then tr_delivery t0 else tr_delivery t),
            tr_client_port_range := r2, tr_mode := (if tr_mode t = [] then tr_mode t0 else tr_mode t)\<rparr>)"

lemma port_text_ok: "CHR '';'' \<notin> set (port_text r)"
  by (simp add: port_text_def show_nat_facts)

lemma transport_attribs_ok: "rtsp_transport_ok t \<Longrightarrow> list_all attrib_ok (transport_attribs t)"
  by (auto simp: transport_attribs_def rtsp_transport_ok_def attrib_ok_def port_text_ok sp_def)

lemma protocol_parse:
  assumes "tr_protocol t = 0" "tr_profile t < 2"
  shows "rtsp_transport_protocol_parse t0 (profile_text t) = (True, t0\<lparr>tr_protocol := 0, tr_profile := tr_profile t,
      tr_lower_protocol := RTSP_LOWER_TRANSPORT_UDP\<rparr>)"
proof -
  let ?p = "if tr_profile t = 0 then ''AVP'' else ''SAVP''"
  have p: "?p \<noteq> []" "hd ?p \<noteq> sp" "CHR ''/'' \<notin> set ?p" by (simp_all add: sp_def)
  have t: "profile_text t = ''RTP'' @ CHR ''/'' # ?p" by (simp add: profile_text_def)
  have ids: "apt_string_table_id_find rtsp_transport_string_table ''RTP'' = 0"
    "apt_string_table_id_find rtsp_profile_string_table ?p = tr_profile t"
    using id_find_name[OF rtsp_tables_wf(3), of 0] id_find_name[OF rtsp_tables_wf(5), of "tr_profile t"] assms(2)
    by (auto simp: rtsp_transport_string_table_def rtsp_profile_string_table_def less_2_cases_iff)
  obtain s1 where 1: "apt_text_field_read (apt_text_stream_of (profile_text t)) (CHR ''/'') True
      = (True, ''RTP'', ''RTP'' @ CHR ''/'' # ?p, s1)" "ts_rest s1 = ?p"
    using field_read_sep[of "apt_text_stream_of (profile_text t)" "''RTP''" "CHR ''/''" ?p]
    by (auto simp: t apt_text_stream_of_def sp_def)
  obtain s2 where 2: "apt_text_field_read s1 (CHR ''/'') True = (True, ?p, ?p, s2)" "ts_rest s2 = []"
    using field_read_end[OF 1(2) p] by blast
  show ?thesis using assms(2)
    by (simp only: rtsp_transport_protocol_parse_def 1(1) 2(1) Let_def prod.case bool.case ids rtsp_transport.select_convs
        rtsp_transport.update_convs field_read_empty[OF 2(2)])
      (simp add: rtsp_transport_string_table_def rtsp_profile_string_table_def ids)
qed

lemma transport_text_parse:
  assumes "rtsp_transport_ok t"
  shows "rtsp_transport_parse t0 (profile_text t @ attribs_text (transport_attribs t)) = (True, transport_received t t0)"
proof -
  let ?x = "profile_text t @ attribs_text (transport_attribs t)"
  have p: "profile_text t \<noteq> []" "hd (profile_text t) \<noteq> sp" "CHR '';'' \<notin> set (profile_text t)"
    by (simp_all add: profile_text_def sp_def)
  have "\<exists>b s1. apt_text_field_read (apt_text_stream_of ?x) (CHR '';'') True = (True, profile_text t, b, s1)
      \<and> ts_rest s1 = drop 1 (attribs_text (transport_attribs t))"
  proof (cases "transport_attribs t")
    case Nil
    then show ?thesis using field_read_end[OF _ p, of "apt_text_stream_of ?x"]
      by (auto simp: attribs_text_def apt_text_stream_of_def)
  next
    case (Cons a as)
    then show ?thesis using field_read_sep[OF _ p, of "apt_text_stream_of ?x"]
      by (auto simp: attribs_text_def apt_text_stream_of_def)
  qed
  then obtain b s1 where r: "apt_text_field_read (apt_text_stream_of ?x) (CHR '';'') True = (True, profile_text t, b, s1)"
      "ts_rest s1 = drop 1 (attribs_text (transport_attribs t))" by blast
  have "tr_protocol t = 0" "tr_profile t < 2" "tr_delivery t = 0 \<or> tr_delivery t = 1 \<or> tr_delivery t = 2"
    "tr_mode t \<noteq> [] \<Longrightarrow> attrib_ok (tr_mode t)"
    using assms by (auto simp: rtsp_transport_ok_def)
  note t = this
  let ?t1 = "t0\<lparr>tr_protocol := 0, tr_profile := tr_profile t, tr_lower_protocol := RTSP_LOWER_TRANSPORT_UDP\<rparr>"
  have "transport_attribs_loop s1 ?t1 = transport_received t t0"
    using t(3) t(1,2) attrib_parse_mode[OF t(4)] unfolding attribs_loop_text[OF transport_attribs_ok[OF assms] r(2)]
    by (auto simp: transport_attribs_def attrib_parse_ports attrib_parse_delivery transport_received_def Let_def
        simp del: append_Cons)
  then show ?thesis by (simp add: rtsp_transport_parse_def r(1) protocol_parse[OF t(1,2)])
qed

lemma string_insert_ok:
  "length (os_text s) + length b < os_size s \<Longrightarrow> apt_text_string_insert s b = (True, os_write b s)"
  by (cases s) (auto simp: apt_text_string_insert_def os_write_def)

lemma char_insert_ok: "length (os_text s) + 1 < os_size s \<Longrightarrow> apt_text_char_insert s c = (True, os_write [c] s)"
  by (simp add: apt_text_char_insert_def)

lemma port_digits: "length (show_nat (unat (p :: u16))) \<le> 5"
proof -
  have "unat p < 10 ^ 5" using unsigned_less[of p, where 'a = nat] by simp
  then show ?thesis using length_show_nat_le[of 5 "unat p"] by simp
qed

lemma range_generate_text:
  assumes "a < 2" "length (os_text s) + 30 < os_size s"
  shows "transport_range_generate a r s = Some (if rtsp_port_range_is_valid r
    then os_write (CHR '';'' # attrib_name a @ CHR ''='' # port_text r) s else s)"
proof -
  have n: "apt_string_table_str_get rtsp_transport_attrib_string_table a = Some (attrib_name a)"
    "length (attrib_name a) = 11"
    using assms(1) by (auto simp: apt_string_table_str_get_def rtsp_transport_attrib_string_table_def less_2_cases_iff)
  show ?thesis
    using assms(2) n port_digits[of "pr_min r"] port_digits[of "pr_max r"]
    by (auto simp: transport_range_generate_def rtsp_port_range_generate_def string_insert_ok char_insert_ok
        size_value_insert_ok port_text_def)
qed

lemma port_text_length: "length (port_text r) \<le> 11"
  using port_digits[of "pr_min r"] port_digits[of "pr_max r"] by (simp add: port_text_def)

lemma transport_generate_text:
  assumes ok: "rtsp_transport_ok t"
  shows "rtsp_transport_generate t = Some (Some (profile_text t @ attribs_text (transport_attribs t)))"
proof -
  have t: "tr_protocol t = 0" "tr_profile t < 2" "tr_delivery t = 0 \<or> tr_delivery t = 1 \<or> tr_delivery t = 2"
    "length (tr_mode t) \<le> 100" using assms by (auto simp: rtsp_transport_ok_def)
  define profile where "profile = (if tr_profile t = 0 then ''AVP'' else ''SAVP'')"
  define c where "c = (if rtsp_port_range_is_valid (tr_client_port_range t)
      then CHR '';'' # ''client_port'' @ CHR ''='' # port_text (tr_client_port_range t) else [])"
  define v where "v = (if rtsp_port_range_is_valid (tr_server_port_range t)
      then CHR '';'' # ''server_port'' @ CHR ''='' # port_text (tr_server_port_range t) else [])"
  let ?d = "if tr_delivery t = 0 then '';unicast'' else if tr_delivery t = 1 then '';multicast'' else []"
  let ?m = "if tr_mode t \<noteq> [] then '';mode='' @ tr_mode t else []"
  have names: "apt_string_table_str_get rtsp_transport_string_table 0 = Some ''RTP''"
    "apt_string_table_str_get rtsp_profile_string_table (tr_profile t) = Some profile"
    "apt_string_table_str_get rtsp_transport_attrib_string_table 4 = Some ''unicast''"
    "apt_string_table_str_get rtsp_transport_attrib_string_table 5 = Some ''multicast''"
    "apt_string_table_str_get rtsp_transport_attrib_string_table 6 = Some ''mode''"
    using t(2) by (auto simp: apt_string_table_str_get_def rtsp_transport_string_table_def rtsp_profile_string_table_def
        rtsp_transport_attrib_string_table_def less_2_cases_iff profile_def)
  have range: "transport_range_generate 0 (tr_client_port_range t) s = Some (os_write c s)"
    "transport_range_generate (Suc 0) (tr_server_port_range t) s = Some (os_write v s)"
    if "length (os_text s) + 30 < os_size s" for s
    using range_generate_text[of 0 s] range_generate_text[of 1 s] that by (simp_all add: attrib_names os_write_def c_def v_def)
  have len: "length c \<le> 24" "length v \<le> 24" "length profile \<le> 4"
    using port_text_length by (simp_all add: le_imp_less_Suc c_def v_def profile_def)
  have whole: "profile_text t @ attribs_text (transport_attribs t) = ''RTP/'' @ profile @ ?d @ c @ v @ ?m"
    using t(3) by (auto simp: profile_text_def attribs_text_def transport_attribs_def c_def v_def profile_def)
  show ?thesis
    unfolding whole rtsp_transport_generate_def t(1) names
    using t(3) len t(4)
    by (elim disjE) (auto simp: string_insert_ok char_insert_ok apt_text_stream_init_def range names)
qed

text \<open>
  C28: What is read back of the transport of an RTSP message that was written. The protocol, the
  profile, the delivery and the mode are, a delivery or a mode that is not set leaving what the
  receiver had. The lower transport, the source and the destination are not written: the receiver
  takes UDP and keeps its own source and destination. The ports all go to the receiver's range
  of the client, and its range of the server stays what it was: the lower end is that of the last
  range written, the server's where there is one, and the upper end the last upper end written,
  which a range of a single port does not have.
\<close>

theorem rtsp_transport_roundtrip:
  assumes "rtsp_transport_ok t"
  shows "\<exists>v t1. rtsp_transport_generate t = Some (Some v) \<and> rtsp_transport_parse t0 v = (True, t1)
    \<and> tr_protocol t1 = tr_protocol t \<and> tr_profile t1 = tr_profile t
    \<and> tr_delivery t1 = (if tr_delivery t = RTSP_DELIVERY_NONE then tr_delivery t0 else tr_delivery t)
    \<and> tr_mode t1 = (if tr_mode t = [] then tr_mode t0 else tr_mode t)
    \<and> tr_lower_protocol t1 = RTSP_LOWER_TRANSPORT_UDP
    \<and> tr_source t1 = tr_source t0 \<and> tr_destination t1 = tr_destination t0
    \<and> tr_server_port_range t1 = tr_server_port_range t0
    \<and> pr_min (tr_client_port_range t1) =
        (if rtsp_port_range_is_valid (tr_server_port_range t) then pr_min (tr_server_port_range t)
         else if rtsp_port_range_is_valid (tr_client_port_range t) then pr_min (tr_client_port_range t)
         else pr_min (tr_client_port_range t0))
    \<and> pr_max (tr_client_port_range t1) =
        (if pr_min (tr_server_port_range t) < pr_max (tr_server_port_range t) then pr_max (tr_server_port_range t)
         else if pr_min (tr_client_port_range t) < pr_max (tr_client_port_range t) then pr_max (tr_client_port_range t)
         else pr_max (tr_client_port_range t0))"
proof (intro exI conjI)
  let ?r = "tr_client_port_range (transport_received t t0)"
  have valid: "pr_min r < pr_max r \<Longrightarrow> rtsp_port_range_is_valid r" for r
    by (auto simp: rtsp_port_range_is_valid_def)
  show "pr_min ?r = (if rtsp_port_range_is_valid (tr_server_port_range t) then pr_min (tr_server_port_range t)
         else if rtsp_port_range_is_valid (tr_client_port_range t) then pr_min (tr_client_port_range t)
         else pr_min (tr_client_port_range t0))"
    by (simp add: transport_received_def range_received_def Let_def)
  show "pr_max ?r = (if pr_min (tr_server_port_range t) < pr_max (tr_server_port_range t) then pr_max (tr_server_port_range t)
         else if pr_min (tr_client_port_range t) < pr_max (tr_client_port_range t) then pr_max (tr_client_port_range t)
         else pr_max (tr_client_port_range t0))"
    using valid by (simp add: transport_received_def range_received_def Let_def)
qed (rule transport_generate_text[OF assms(1)] transport_text_parse[OF assms(1)] | simp add: transport_received_def Let_def)+

lemma rtsp_transport_roundtrip_witness:
  "\<exists>v t1. rtsp_transport_generate ((rtsp_transport_init 0)\<lparr>tr_profile := 0, tr_client_port_range := \<lparr>pr_min = 5000, pr_max = 5001\<rparr>,
      tr_server_port_range := \<lparr>pr_min = 6000, pr_max = 6001\<rparr>, tr_mode := ''play''\<rparr>) = Some (Some v)
    \<and> rtsp_transport_parse (rtsp_transport_init 0) v = (True, t1)
    \<and> tr_client_port_range t1 = \<lparr>pr_min = 6000, pr_max = 6001\<rparr> \<and> tr_server_port_range t1 = \<lparr>pr_min = 0, pr_max = 0\<rparr>"
  using rtsp_transport_roundtrip[of "(rtsp_transport_init 0)\<lparr>tr_profile := 0, tr_client_port_range := \<lparr>pr_min = 5000, pr_max = 5001\<rparr>,
      tr_server_port_range := \<lparr>pr_min = 6000, pr_max = 6001\<rparr>, tr_mode := ''play''\<rparr>" "rtsp_transport_init 0"]
  by (auto simp: rtsp_transport_ok_def rtsp_transport_init_def attrib_ok_def sp_def rtsp_port_range_is_valid_def
      rtsp_port_range_init_def)

section \<open>Fields of a header\<close>

lemma map_of_ring_insert: "fst e \<notin> fst ` set r \<Longrightarrow> map_of (ring_insert_ordered e r) = (map_of r)(fst e \<mapsto> snd e)"
proof (induction r)
  case (Cons a r)
  then show ?case by (cases a; cases e) (auto simp: fun_upd_twist)
qed simp

lemma insert_value:
  assumes wf: "section_wf h" and new: "apt_header_section_field_get h (hf_id f) = None"
    and i: "hf_id f < length (sec_arr h)" and j: "j < length (sec_arr h)"
  shows "fst (apt_header_section_field_insert h f)"
    and "section_value (snd (apt_header_section_field_insert h f)) j
      = (if j = hf_id f then Some (hf_value f) else section_value h j)"
proof -
  have fresh: "sec_next h \<notin> fst ` set (sec_ring h)" using wf by (auto simp: section_wf_def)
  have old: "sec_arr h ! j = Some a \<Longrightarrow> a \<noteq> sec_next h" for a
    using section_wf_arr[OF wf j] fresh by force
  show "fst (apt_header_section_field_insert h f)"
    using new by (simp add: apt_header_section_field_insert_def apt_header_section_field_get_def split: if_splits)
  show "section_value (snd (apt_header_section_field_insert h f)) j
      = (if j = hf_id f then Some (hf_value f) else section_value h j)"
    using new i j fresh old
    by (cases "sec_arr h ! j") (auto simp: section_value_def section_lookup_def apt_header_section_field_insert_def
        apt_header_section_field_get_def section_field_at_def nth_list_update map_of_ring_insert split: if_splits)
qed

lemma insert_arr_length [simp]: "length (sec_arr (snd (apt_header_section_field_insert h f))) = length (sec_arr h)"
  by (simp add: apt_header_section_field_insert_def ring_insert_tail_def)

definition rtsp_header_wf :: "rtsp_header \<Rightarrow> bool" where
  "rtsp_header_wf h \<longleftrightarrow> section_wf (rh_section h) \<and> length (sec_arr (rh_section h)) = RTSP_HEADER_FIELD_COUNT"

lemma rtsp_header_init_wf: "rtsp_header_wf (rtsp_header_init d)"
  using array_alloc_wf[OF section_init_wf, of RTSP_HEADER_FIELD_COUNT]
  by (simp add: rtsp_header_wf_def rtsp_header_init_def apt_header_section_array_alloc_def RTSP_HEADER_FIELD_COUNT_def)

text \<open>Adding a property writes or rewrites its field and leaves the others alone.\<close>

lemma property_add_value:
  assumes wf: "rtsp_header_wf h" and i: "i < RTSP_HEADER_FIELD_COUNT"
    and v: "rtsp_header_field_value_generate h i = Some (Some v)"
  shows "\<exists>h1. rtsp_header_property_add h i = Some (True, h1) \<and> rtsp_header_wf h1
    \<and> (\<forall>j < RTSP_HEADER_FIELD_COUNT. section_value (rh_section h1) j = (if j = i then Some v else section_value (rh_section h) j))
    \<and> h1 = h\<lparr>rh_section := rh_section h1\<rparr>"
proof (cases "apt_header_section_field_get (rh_section h) i")
  case (Some a)
  have w: "section_wf (rh_section h)" using wf by (simp add: rtsp_header_wf_def)
  show ?thesis
    using Some v wf set_field_value_wf[OF w, of a v] set_field_value_lookup[OF w Some, of v]
    by (intro exI[of _ "h\<lparr>rh_section := set_field_value a v (rh_section h)\<rparr>"])
      (simp add: rtsp_header_property_add_def rtsp_header_wf_def)
next
  case None
  let ?f = "apt_header_field_alloc\<lparr>hf_name := st_value (rtsp_header_string_table ! i), hf_value := v, hf_id := i\<rparr>"
  have name: "apt_string_table_str_get rtsp_header_string_table i = Some (st_value (rtsp_header_string_table ! i))"
    using i by (simp add: apt_string_table_str_get_def rtsp_header_string_table_def RTSP_HEADER_FIELD_COUNT_def)
  have w: "section_wf (rh_section h)" "length (sec_arr (rh_section h)) = RTSP_HEADER_FIELD_COUNT"
    using wf by (simp_all add: rtsp_header_wf_def)
  have ok: "fst (apt_header_section_field_insert (rh_section h) ?f)"
    using insert_value(1)[OF w(1), of ?f i] None i w(2) by simp
  show ?thesis
    using None v name ok field_insert_wf[OF w(1), of ?f] insert_value(2)[OF w(1), of ?f] i w(2)
    by (intro exI[of _ "h\<lparr>rh_section := snd (apt_header_section_field_insert (rh_section h) ?f)\<rparr>"])
      (simp add: rtsp_header_property_add_def Let_def split_beta rtsp_header_wf_def)
qed

lemma check_value: "rtsp_header_wf h \<Longrightarrow> rtsp_header_property_check h i \<longleftrightarrow> section_value (rh_section h) i \<noteq> None"
  using lookup_none_get[of "rh_section h" i]
  by (auto simp: rtsp_header_wf_def rtsp_header_property_check_def apt_header_section_field_check_def
      apt_header_section_field_get_def split: if_splits)

text \<open>
  The response to an RTSP request has the version of the request, the status code and the
  reason asked for, and its only field is the sequence number of the request, by which the
  client finds what it answers.
\<close>

theorem rtsp_response_fields:
  assumes "rm_start_line request = Rtsp_Request_Line l" and "rtsp_header_property_check (rm_header request) RTSP_HEADER_FIELD_CSEQ"
    and "i < RTSP_HEADER_FIELD_COUNT"
  shows "\<exists>r. rtsp_response_create d request code reason = Some r
    \<and> rm_start_line r = Rtsp_Status_Line \<lparr>rl_version = rq_version l, rl_status_code = code,
        rl_reason = (case rtsp_reason_phrase_get reason of None \<Rightarrow> [] | Some t \<Rightarrow> t)\<rparr>
    \<and> rm_body r = [] \<and> rh_cseq (rm_header r) = rh_cseq (rm_header request) \<and> rtsp_header_wf (rm_header r)
    \<and> section_value (rh_section (rm_header r)) i
      = (if i = RTSP_HEADER_FIELD_CSEQ then Some (show_nat (rh_cseq (rm_header request))) else None)"
proof -
  let ?h = "(rtsp_header_init d)\<lparr>rh_cseq := rh_cseq (rm_header request)\<rparr>"
  have wf: "rtsp_header_wf ?h" using rtsp_header_init_wf[of d] by (simp add: rtsp_header_wf_def)
  have none: "section_value (rh_section (rtsp_header_init d)) i = None"
    using assms(3) by (simp add: section_value_def section_lookup_def apt_header_section_field_get_def rtsp_header_init_def
        apt_header_section_array_alloc_def RTSP_HEADER_FIELD_COUNT_def)
  obtain h1 where h1: "rtsp_header_property_add ?h RTSP_HEADER_FIELD_CSEQ = Some (True, h1)" "rtsp_header_wf h1"
      "section_value (rh_section h1) i = (if i = 0 then Some (show_nat (rh_cseq (rm_header request))) else None)"
      "h1 = ?h\<lparr>rh_section := rh_section h1\<rparr>"
    using property_add_value[OF wf, of 0 "show_nat (rh_cseq (rm_header request))"] assms(3) none
    by (auto simp: rtsp_header_field_value_generate_def apt_size_value_generate_def RTSP_HEADER_FIELD_COUNT_def)
  have c: "rh_cseq h1 = rh_cseq (rm_header request)" by (subst h1(4)) simp
  have w: "rtsp_header_wf (h1\<lparr>rh_transport := t\<rparr>)" for t using h1(2) by (simp add: rtsp_header_wf_def)
  show ?thesis
    using assms(1,2) h1(1-3) c w
    by (auto simp: rtsp_response_create_def rtsp_message_create_def rtsp_message_init_def request_version_def
        rtsp_status_line_init_def Let_def)
qed

lemma rtsp_response_fields_witness:
  "\<exists>request r. rm_start_line request = Rtsp_Request_Line rtsp_request_line_init
    \<and> rtsp_response_create 0 request 404 4 = Some r
    \<and> section_value (rh_section (rm_header r)) RTSP_HEADER_FIELD_CSEQ = Some (show_nat 7)"
proof -
  let ?h = "(rtsp_header_init 0)\<lparr>rh_cseq := 7\<rparr>"
  have wf: "rtsp_header_wf ?h" using rtsp_header_init_wf[of 0] by (simp add: rtsp_header_wf_def)
  obtain h1 where h1: "rtsp_header_property_add ?h 0 = Some (True, h1)" "rtsp_header_wf h1"
      "section_value (rh_section h1) 0 = Some (show_nat 7)" "h1 = ?h\<lparr>rh_section := rh_section h1\<rparr>"
    using property_add_value[OF wf, of 0 "show_nat 7"]
    by (auto simp: rtsp_header_field_value_generate_def apt_size_value_generate_def RTSP_HEADER_FIELD_COUNT_def)
  let ?m = "(rtsp_request_create 0)\<lparr>rm_start_line := Rtsp_Request_Line rtsp_request_line_init, rm_header := h1\<rparr>"
  have c: "rh_cseq h1 = 7" by (subst h1(4)) simp
  have "rtsp_header_property_check (rm_header ?m) RTSP_HEADER_FIELD_CSEQ" using h1(2,3) check_value by simp
  then obtain r where "rtsp_response_create 0 ?m 404 4 = Some r"
      "section_value (rh_section (rm_header r)) 0 = Some (show_nat (rh_cseq (rm_header ?m)))"
    using rtsp_response_fields[of ?m rtsp_request_line_init 0 0 404 4] by (auto simp: RTSP_HEADER_FIELD_COUNT_def)
  then show ?thesis using c by (intro exI[of _ ?m] exI[of _ r]) simp
qed

end
