(* ===== verification/Rtsp_Stream.thy ===== *)
theory Rtsp_Stream
  imports Rtsp_Message Text_Message
begin

text \<open>
  \<open>libs/uni-rtsp/src/rtsp_stream.c\<close>: the handlers with which the generic parser and generator
  read and write RTSP messages. The parser and the generator keep no data of their own.
\<close>

definition rtsp_section :: "rtsp_message \<Rightarrow> header_section" where
  "rtsp_section m = rh_section (rm_header m)"

definition rtsp_section_set :: "header_section \<Rightarrow> rtsp_message \<Rightarrow> rtsp_message" where
  "rtsp_section_set h m = m\<lparr>rm_header := (rm_header m)\<lparr>rh_section := h\<rparr>\<rparr>"

definition rtsp_body_set :: "string \<Rightarrow> rtsp_message \<Rightarrow> rtsp_message" where
  "rtsp_body_set b m = m\<lparr>rm_body := b\<rparr>"

text \<open>The delivery of a new message is whatever the memory holds, zero in the model.\<close>

definition rtsp_message_start :: "string \<Rightarrow> rtsp_message option" where
  "rtsp_message_start line =
     (let m = rtsp_message_create RTSP_MESSAGE_TYPE_UNKNOWN 0;
          (ok, l) = rtsp_start_line_parse (rm_start_line m) line
      in if ok then Some (m\<lparr>rm_start_line := l\<rparr>) else None)"

definition rtsp_parser_on_start :: "unit \<Rightarrow> text_stream \<Rightarrow> rtsp_message option \<times> text_stream" where
  "rtsp_parser_on_start p s =
     (let (ok, line, s1) = apt_text_line_read s in (if ok then rtsp_message_start line else None, s1))"

definition rtsp_parser_on_header_complete :: "unit \<Rightarrow> rtsp_message \<Rightarrow> bool \<times> rtsp_message \<times> nat" where
  "rtsp_parser_on_header_complete p m =
     (let m1 = m\<lparr>rm_header := rtsp_header_fields_parse (rm_header m)\<rparr>
      in (True, m1,
          if rtsp_header_property_check (rm_header m1) RTSP_HEADER_FIELD_CONTENT_LENGTH
          then rh_content_length (rm_header m1) else length (rm_body m1)))"

definition rtsp_parser_vtable :: "(unit, rtsp_message) message_parser_vtable" where
  "rtsp_parser_vtable =
     \<lparr>pv_on_start = rtsp_parser_on_start, pv_on_header_complete = rtsp_parser_on_header_complete,
      pv_header = rtsp_section, pv_header_set = rtsp_section_set, pv_body = rm_body, pv_body_set = rtsp_body_set\<rparr>"

definition rtsp_parser_create :: "(unit, rtsp_message) message_parser" where
  "rtsp_parser_create = apt_message_parser_create () rtsp_parser_vtable"

definition rtsp_parser_run ::
  "(unit, rtsp_message) message_parser \<Rightarrow> text_stream \<Rightarrow> (unit, rtsp_message) parser_result" where
  "rtsp_parser_run p s = apt_message_parser_run p s"

definition rtsp_generator_on_start :: "rtsp_message \<Rightarrow> out_stream \<Rightarrow> (bool \<times> rtsp_message \<times> out_stream) option" where
  "rtsp_generator_on_start m s = do {
     (ok, l, s1) \<leftarrow> rtsp_start_line_generate (rm_start_line m) s;
     Some (ok, m\<lparr>rm_start_line := l\<rparr>, s1)
   }"

definition rtsp_generator_vtable :: "rtsp_message message_generator_vtable" where
  "rtsp_generator_vtable =
     \<lparr>gv_on_start = rtsp_generator_on_start, gv_on_header_complete = None,
      gv_header = rtsp_section, gv_body = rm_body, gv_body_set = rtsp_body_set\<rparr>"

definition rtsp_generator_create :: "rtsp_message message_generator" where
  "rtsp_generator_create = apt_message_generator_create rtsp_generator_vtable"

definition rtsp_generator_run ::
  "rtsp_message message_generator \<Rightarrow> nat option \<Rightarrow> rtsp_message \<Rightarrow> out_stream \<Rightarrow> rtsp_message generator_result" where
  "rtsp_generator_run g a m s = apt_message_generator_run g a m s"

section \<open>RTSP is a protocol of messages\<close>

interpretation rtsp: message_protocol rtsp_parser_vtable "()" rtsp_message_start
  by unfold_locales (simp_all add: rtsp_parser_vtable_def rtsp_parser_on_start_def rtsp_section_def
      rtsp_section_set_def rtsp_body_set_def)

section \<open>A message on the wire\<close>

definition is_rtsp_length :: "header_field \<Rightarrow> bool" where
  "is_rtsp_length f \<longleftrightarrow> apt_string_table_id_find rtsp_header_string_table (hf_name f) = RTSP_HEADER_FIELD_CONTENT_LENGTH"

text \<open>Messages that can be told from their text: the fields say how long the body is.\<close>

definition rtsp_wire_ok :: "rtsp_message \<Rightarrow> bool" where
  "rtsp_wire_ok m \<longleftrightarrow>
     (let fs = section_fields (rtsp_section m) in
      rtsp_line_ok (rm_start_line m) \<and> list_all field_ok fs \<and> length (rm_body m) < 2 ^ 63
      \<and> list_all (\<lambda>f. is_rtsp_length f \<longrightarrow> hf_value f = show_nat (length (rm_body m))) fs
      \<and> (rm_body m \<noteq> [] \<longrightarrow> list_ex is_rtsp_length fs))"

definition rtsp_wire :: "rtsp_message \<Rightarrow> string" where
  "rtsp_wire m = message_text (rtsp_line_text (rm_start_line m)) (section_fields (rtsp_section m)) (rm_body m)"

text \<open>What the receiver has of a message.\<close>

definition same_rtsp :: "rtsp_message \<Rightarrow> rtsp_message \<Rightarrow> bool" where
  "same_rtsp m M \<longleftrightarrow> rm_start_line M = rtsp_line_received (rm_start_line m) \<and> rm_body M = rm_body m
     \<and> map field_pair (section_fields (rtsp_section M)) = map field_pair (section_fields (rtsp_section m))"

lemma field_parse_length:
  "rh_content_length (fst (rtsp_field_parse h f)) = (if is_rtsp_length f \<and> hf_value f \<noteq> []
      then apt_size_value_parse (hf_value f) else rh_content_length h)"
  "rh_section (fst (rtsp_field_parse h f)) = rh_section h"
  "field_pair (snd (rtsp_field_parse h f)) = field_pair f"
  "hf_id (snd (rtsp_field_parse h f)) = 5 \<longleftrightarrow> is_rtsp_length f"
  by (auto simp: rtsp_field_parse_def rtsp_header_field_value_parse_def is_rtsp_length_def Let_def field_pair_def split_beta)

lemma fields_parse_loop_facts:
  assumes "5 < length (sec_arr (rh_section h))"
  shows "rh_content_length (fst (rtsp_fields_parse_loop h rest))
      = fold (\<lambda>f c. if is_rtsp_length f \<and> hf_value f \<noteq> [] then apt_size_value_parse (hf_value f) else c)
          (map snd rest) (rh_content_length h)
    \<and> rtsp_header_property_check (fst (rtsp_fields_parse_loop h rest)) 5
      = (rtsp_header_property_check h 5 \<or> list_ex is_rtsp_length (map snd rest))
    \<and> map (field_pair \<circ> snd) (snd (rtsp_fields_parse_loop h rest)) = map (field_pair \<circ> snd) rest"
  using assms
proof (induction h rest rule: rtsp_fields_parse_loop.induct)
  case (1 h)
  then show ?case by simp
next
  case (2 h a f rest)
  obtain h1 f1 where p: "rtsp_field_parse h f = (h1, f1)" by fastforce
  let ?h2 = "h1\<lparr>rh_section := snd (apt_header_section_field_set (rh_section h1) (a, f1))\<rparr>"
  note q = field_parse_length[of h f, unfolded p fst_conv snd_conv]
  have l: "5 < length (sec_arr (rh_section ?h2))" using "2.prems" q(2) by (simp add: apt_header_section_field_set_def)
  have c: "rtsp_header_property_check ?h2 5 = (rtsp_header_property_check h 5 \<or> is_rtsp_length f)"
    using "2.prems" q(2,4) by (auto simp: rtsp_header_property_check_def apt_header_section_field_check_def
        apt_header_section_field_set_def nth_list_update)
  show ?case using "2.IH"[OF p[symmetric] refl refl l] c q by (simp add: p split_beta Let_def)
qed

lemma length_fold:
  assumes "list_all (\<lambda>f. is_rtsp_length f \<longrightarrow> hf_value f = show_nat n) fs" "n < 2 ^ 63"
  shows "fold (\<lambda>f c. if is_rtsp_length f \<and> hf_value f \<noteq> [] then apt_size_value_parse (hf_value f) else c) fs c
    = (if list_ex is_rtsp_length fs then n else c)"
proof -
  have v: "apt_size_value_parse (show_nat n) = n"
    using size_roundtrip[OF assms(2)] by (simp add: apt_size_value_generate_def)
  show ?thesis using assms(1) by (induction fs arbitrary: c) (auto simp: v)
qed

lemma is_rtsp_length_raw [simp]: "is_rtsp_length (raw_field f) = is_rtsp_length f" "hf_value (raw_field f) = hf_value f"
  by (simp_all add: is_rtsp_length_def raw_field_def)

lemma init_section: "sec_arr (rh_section (rtsp_header_init d)) = replicate 6 None"
    "section_fields (rh_section (rtsp_header_init d)) = []" "\<not> rtsp_header_property_check (rtsp_header_init d) 5"
  by (simp_all add: rtsp_header_init_def apt_header_section_array_alloc_def RTSP_HEADER_FIELD_COUNT_def
      apt_header_section_init_def section_fields_def rtsp_header_property_check_def apt_header_section_field_check_def)

lemma rtsp_completes:
  assumes ok: "rtsp_wire_ok m" and start: "rtsp_message_start line = Some m0" and l: "rm_start_line m0 = rtsp_line_received (rm_start_line m)"
  shows "\<exists>M. header_completes rtsp_parser_vtable () m0 (section_fields (rtsp_section m)) (rm_body m) M \<and> same_rtsp m M"
proof -
  let ?fs = "section_fields (rtsp_section m)" and ?b = "rm_body m"
  have m0: "rm_header m0 = rtsp_header_init 0" "rm_body m0 = []"
    using start by (auto simp: rtsp_message_start_def rtsp_message_create_def rtsp_message_init_def Let_def split: prod.splits if_splits)
  let ?sec = "fields_added ?fs (rtsp_section m0)"
  let ?h = "(rm_header m0)\<lparr>rh_section := ?sec\<rparr>"
  let ?M = "m0\<lparr>rm_header := rtsp_header_fields_parse ?h\<rparr>"
  have arr: "sec_arr ?sec = replicate 6 None" "section_fields ?sec = map raw_field ?fs"
    using fields_added_section[of "rtsp_section m0" ?fs] m0(1) init_section
    by (simp_all add: rtsp_section_def UNKNOWN_HEADER_FIELD_ID_def)
  have chk0: "\<not> rtsp_header_property_check ?h 5"
    using arr by (simp add: rtsp_header_property_check_def apt_header_section_field_check_def)
  have len0: "rh_content_length ?h = 0" by (simp add: m0 rtsp_header_init_def)
  have a5: "5 < length (sec_arr (rh_section ?h))" using arr by simp
  have v: "list_all (\<lambda>f. is_rtsp_length f \<longrightarrow> hf_value f = show_nat (length ?b)) (map raw_field ?fs)"
    "length ?b < 2 ^ 63" using ok by (auto simp: rtsp_wire_ok_def Let_def list_all_iff)
  have ring: "map snd (sec_ring (rh_section ?h)) = map raw_field ?fs" using arr(2) by (simp add: section_fields_def)
  have ex: "list_ex is_rtsp_length (map raw_field ?fs) = list_ex is_rtsp_length ?fs" by (simp add: list_ex_iff)
  let ?p = "rtsp_fields_parse_loop ?h (sec_ring (rh_section ?h))"
  note loop = fields_parse_loop_facts[OF a5, of "sec_ring (rh_section ?h)", unfolded ring len0 length_fold[OF v] ex]
  have res: "rh_content_length (rtsp_header_fields_parse ?h) = rh_content_length (fst ?p)"
    "rtsp_header_property_check (rtsp_header_fields_parse ?h) 5 = rtsp_header_property_check (fst ?p) 5"
    "sec_ring (rh_section (rtsp_header_fields_parse ?h)) = snd ?p"
    by (simp_all add: rtsp_header_fields_parse_def split_beta rtsp_header_property_check_def apt_header_section_field_check_def)
  have f: "rh_content_length (rtsp_header_fields_parse ?h) = (if list_ex is_rtsp_length ?fs then length ?b else 0)"
    "rtsp_header_property_check (rtsp_header_fields_parse ?h) 5 = list_ex is_rtsp_length ?fs"
    using loop chk0 unfolding res by blast+
  have f3: "map field_pair (section_fields (rh_section (rtsp_header_fields_parse ?h))) = map field_pair ?fs"
  proof -
    have "map field_pair (section_fields (rh_section (rtsp_header_fields_parse ?h))) = map (field_pair \<circ> snd) (snd ?p)"
      by (simp add: section_fields_def[of "rh_section (rtsp_header_fields_parse ?h)"] res(3))
    also have "\<dots> = map field_pair (map snd (sec_ring (rh_section ?h)))" using loop by simp
    also have "\<dots> = map field_pair ?fs" unfolding ring by simp
    finally show ?thesis .
  qed
  have b: "?b \<noteq> [] \<Longrightarrow> list_ex is_rtsp_length ?fs" using ok by (auto simp: rtsp_wire_ok_def Let_def)
  have fin: "rtsp_parser_on_header_complete () (rtsp_section_set ?sec m0) = (True, ?M, length ?b)"
    using f(1,2) b m0(2) by (auto simp: rtsp_parser_on_header_complete_def rtsp_section_set_def Let_def)
  show ?thesis
  proof (intro exI conjI)
    show "header_completes rtsp_parser_vtable () m0 ?fs ?b (rtsp_body_set ?b ?M)"
      unfolding header_completes_def using fin m0(2)
      by (intro exI[of _ ?M]) (auto simp: rtsp_parser_vtable_def rtsp_body_set_def)
    show "same_rtsp m (rtsp_body_set ?b ?M)"
      using f3 l by (simp add: same_rtsp_def rtsp_body_set_def rtsp_section_def)
  qed
qed

lemma rtsp_start_received:
  assumes "rtsp_line_ok l"
  shows "\<exists>m0. rtsp_message_start (rtsp_line_text l) = Some m0 \<and> rm_start_line m0 = rtsp_line_received l"
  using rtsp_line_parse[OF assms] by (simp add: rtsp_message_start_def Let_def)

lemma rtsp_line_no_eol: "rtsp_line_ok l \<Longrightarrow> no_eol (rtsp_line_text l)"
proof -
  have "no_eol (show_nat n)" for n using show_nat_no_sep[of n] by (simp add: no_eol_def)
  moreover have "no_eol ''RTSP/1.0''" by (simp add: cr_def lf_def)
  ultimately show "rtsp_line_ok l \<Longrightarrow> no_eol (rtsp_line_text l)"
    using rtsp_method_name(3) by (cases l) (auto simp: rtsp_line_ok_def rtsp_line_text_def)
qed

lemma rtsp_wire_received:
  assumes "rtsp_wire_ok m"
  shows "\<exists>M. same_rtsp m M \<and> (\<forall>W Ms. message_stream rtsp_parser_vtable () rtsp_message_start W Ms
    \<longrightarrow> message_stream rtsp_parser_vtable () rtsp_message_start (rtsp_wire m @ W) (M # Ms))"
proof -
  have ok: "rtsp_line_ok (rm_start_line m)" "list_all field_ok (section_fields (rtsp_section m))" "length (rm_body m) < 2 ^ 63"
    using assms by (auto simp: rtsp_wire_ok_def Let_def)
  obtain m0 where m0: "rtsp_message_start (rtsp_line_text (rm_start_line m)) = Some m0"
      "rm_start_line m0 = rtsp_line_received (rm_start_line m)"
    using rtsp_start_received[OF ok(1)] by blast
  obtain M where M: "header_completes rtsp_parser_vtable () m0 (section_fields (rtsp_section m)) (rm_body m) M" "same_rtsp m M"
    using rtsp_completes[OF assms m0] by blast
  have small: "body_small (rm_body m)" using ok(3) by (simp add: body_small_def)
  show ?thesis
    using stream_message[where start_of = rtsp_message_start, OF rtsp_line_no_eol[OF ok(1)] m0(1) ok(2) small M(1)] M(2) by (auto simp: rtsp_wire_def)
qed

text \<open>A sequence of messages, one behind the other.\<close>

lemma rtsp_wires_received:
  assumes "list_all rtsp_wire_ok ms"
  shows "\<exists>Ms. list_all2 same_rtsp ms Ms \<and> message_stream rtsp_parser_vtable () rtsp_message_start (concat (map rtsp_wire ms)) Ms"
  using assms
proof (induction ms)
  case Nil
  then show ?case by (auto intro: stream_end)
next
  case (Cons m ms)
  then show ?case using rtsp_wire_received[of m] by fastforce
qed

section \<open>Generation\<close>

lemma rtsp_generator_run_message:
  assumes ok: "rtsp_wire_ok m" and s: "os_text s = []" and room: "length (rtsp_wire m) + 4 < os_size s"
  shows "\<exists>m1 g s1. rtsp_generator_run rtsp_generator_create (Some a) m s = Some (APT_MESSAGE_STATUS_COMPLETE, m1, g, s1)
    \<and> os_text s1 = rtsp_wire m \<and> mg_stage g = APT_MESSAGE_STAGE_START_LINE"
proof -
  let ?l = "rm_start_line m"
  have l: "rtsp_line_ok ?l" using ok by (simp add: rtsp_wire_ok_def Let_def)
  obtain l1 where l1: "rtsp_start_line_generate ?l s = Some (True, l1, os_write (rtsp_line_text ?l @ [cr, lf]) s)"
    using rtsp_line_write[OF l, of s] room s by (auto simp: rtsp_wire_def message_text_def)
  let ?s1 = "os_write (rtsp_line_text ?l @ [cr, lf]) s" and ?m1 = "m\<lparr>rm_start_line := l1\<rparr>"
  have sec: "apt_header_section_generate (rtsp_section ?m1) ?s1
      = (True, os_write (fields_text (section_fields (rtsp_section m))) ?s1)"
    using section_generate_text[of ?s1 "rtsp_section m"] room s by (simp add: rtsp_wire_def message_text_def rtsp_section_def)
  have room2: "length (rm_body m) \<le> os_size s - length (rtsp_line_text ?l @ [cr, lf] @ fields_text (section_fields (rtsp_section m)))"
    using room by (simp add: rtsp_wire_def message_text_def)
  show ?thesis
    using l1 sec room2 s
    by (auto simp: rtsp_generator_run_def apt_message_generator_run_def rtsp_generator_create_def rtsp_wire_def message_text_def
        apt_message_generator_create_def generator_run_start_def generator_run_body_def apt_message_body_write_def
        rtsp_generator_vtable_def rtsp_generator_on_start_def Let_def rtsp_body_set_def)
qed

text \<open>
  C27: An RTSP message that was written is read back, whatever is behind it on the connection: one run
  of the parser makes one message of the text the generator wrote, leaves exactly what is behind
  it, and is ready for the next start line. The message has the same names and values of the
  header fields and the same body. A request has the method, the address and the version of the
  one written, with the name of its method and the resource of its address filled in; a response
  has the version and the status code, and of the reason phrase the first word.
\<close>

theorem rtsp_message_roundtrip:
  assumes "rtsp_wire_ok m" and "os_text s = []" and "length (rtsp_wire m) + 4 < os_size s"
  shows "\<exists>m1 g s1 M p t. rtsp_generator_run rtsp_generator_create (Some a) m s = Some (APT_MESSAGE_STATUS_COMPLETE, m1, g, s1)
    \<and> rtsp_parser_run rtsp_parser_create (apt_text_stream_of (os_text s1 @ z)) = Some (APT_MESSAGE_STATUS_COMPLETE, Some M, p, t)
    \<and> ts_rest t = z \<and> mp_stage p = APT_MESSAGE_STAGE_START_LINE \<and> \<not> mp_skip_lf p
    \<and> rm_body M = rm_body m
    \<and> map field_pair (section_fields (rtsp_section M)) = map field_pair (section_fields (rtsp_section m))
    \<and> (case rm_start_line m of
         Rtsp_Unknown_Line \<Rightarrow> False
       | Rtsp_Request_Line r \<Rightarrow> rm_start_line M = Rtsp_Request_Line (r\<lparr>
           rq_method_name := st_value (rtsp_method_string_table ! rq_method_id r), rq_resource_name := resource_of_url (rq_url r)\<rparr>)
       | Rtsp_Status_Line r \<Rightarrow> rm_start_line M = Rtsp_Status_Line (r\<lparr>rl_reason := takeWhile (\<lambda>c. c \<noteq> sp) (rl_reason r)\<rparr>))"
proof -
  let ?l = "rm_start_line m" and ?t = "apt_text_stream_of (rtsp_wire m @ z)"
  have ok: "rtsp_line_ok ?l" "list_all field_ok (section_fields (rtsp_section m))" "body_small (rm_body m)"
    using assms(1) by (auto simp: rtsp_wire_ok_def Let_def body_small_def)
  obtain m1 g s1 where w: "rtsp_generator_run rtsp_generator_create (Some a) m s = Some (APT_MESSAGE_STATUS_COMPLETE, m1, g, s1)"
      "os_text s1 = rtsp_wire m"
    using rtsp_generator_run_message[OF assms] by blast
  obtain m0 where m0: "rtsp_message_start (rtsp_line_text ?l) = Some m0" "rm_start_line m0 = rtsp_line_received ?l"
    using rtsp_start_received[OF ok(1)] by blast
  obtain M where M: "header_completes rtsp_parser_vtable () m0 (section_fields (rtsp_section m)) (rm_body m) M" "same_rtsp m M"
    using rtsp_completes[OF assms(1) m0] by blast
  have own: "rtsp.own rtsp_parser_create" "mp_stage rtsp_parser_create = APT_MESSAGE_STAGE_START_LINE"
    "\<not> mp_skip_lf rtsp_parser_create"
    by (simp_all add: rtsp.own_def rtsp_parser_create_def apt_message_parser_create_def)
  have t: "ts_rest ?t = message_text (rtsp_line_text ?l) (section_fields (rtsp_section m)) (rm_body m) @ z" "\<not> ts_eos ?t"
    by (simp_all add: apt_text_stream_of_def rtsp_wire_def)
  obtain p where p: "apt_message_parser_run rtsp_parser_create ?t = Some (APT_MESSAGE_STATUS_COMPLETE, Some M, p,
      ts_advance (length (message_text (rtsp_line_text ?l) (section_fields (rtsp_section m)) (rm_body m))) ?t)"
      "mp_stage p = APT_MESSAGE_STAGE_START_LINE" "\<not> mp_skip_lf p"
    using rtsp.parser_run_message[OF own rtsp_line_no_eol[OF ok(1)] m0(1) ok(2,3) M(1) t] by blast
  have "ts_rest (ts_advance (length (message_text (rtsp_line_text ?l) (section_fields (rtsp_section m)) (rm_body m))) ?t) = z"
    by (simp add: ts_advance_def t(1))
  moreover have "?l \<noteq> Rtsp_Unknown_Line" using ok(1) by (auto simp: rtsp_line_ok_def)
  ultimately show ?thesis using w p M(2)
    by (cases ?l) (auto simp: rtsp_parser_run_def same_rtsp_def rtsp_line_received_def)
qed

definition sample_setup :: rtsp_message where
  "sample_setup = \<lparr>rm_start_line = Rtsp_Request_Line (rtsp_request_line_init\<lparr>rq_method_id := 0, rq_url := ''rtsp://h/media/speechsynth''\<rparr>),
     rm_header = (rtsp_header_init 0)\<lparr>rh_section := ring_insert_tail (rh_section (rtsp_header_init 0))
       \<lparr>hf_name = ''CSeq'', hf_value = ''1'', hf_id = 0\<rparr>\<rparr>, rm_body = []\<rparr>"

lemma rtsp_message_roundtrip_witness:
  "\<exists>m1 g s1 M p t. rtsp_generator_run rtsp_generator_create (Some 1) sample_setup (apt_text_stream_init 1000)
      = Some (APT_MESSAGE_STATUS_COMPLETE, m1, g, s1)
    \<and> rtsp_parser_run rtsp_parser_create (apt_text_stream_of (os_text s1 @ ''RTSP/1.0'')) = Some (APT_MESSAGE_STATUS_COMPLETE, Some M, p, t)
    \<and> ts_rest t = ''RTSP/1.0'' \<and> rm_body M = []"
proof -
  note chars = sp_def cr_def lf_def htab_def nul_def apt_text_is_wsp_def
  have f: "section_fields (rtsp_section sample_setup) = [\<lparr>hf_name = ''CSeq'', hf_value = ''1'', hf_id = 0\<rparr>]"
    using init_section(2)[of 0] by (simp add: sample_setup_def rtsp_section_def ring_insert_tail_def section_fields_def)
  have c: "\<not> is_rtsp_length \<lparr>hf_name = ''CSeq'', hf_value = ''1'', hf_id = 0\<rparr>"
    using id_find_name[OF rtsp_tables_wf(1), of 0] by (simp add: is_rtsp_length_def rtsp_header_string_table_def)
  have fok: "field_ok \<lparr>hf_name = ''CSeq'', hf_value = ''1'', hf_id = 0\<rparr>"
    by (simp add: field_ok_def header_name_ok_def chars)
  have ok: "rtsp_wire_ok sample_setup"
    using c fok unfolding rtsp_wire_ok_def f
    by (simp add: sample_setup_def rtsp_line_ok_def RTSP_METHOD_COUNT_def rtsp_request_line_init_def chars)
  have room: "length (rtsp_wire sample_setup) + 4 < os_size (apt_text_stream_init 1000)"
    using rtsp_method_name(4)[of 0] unfolding rtsp_wire_def message_text_def f
    by (simp add: sample_setup_def rtsp_line_text_def apt_text_stream_init_def fields_text_def field_line_def
        RTSP_METHOD_COUNT_def rtsp_request_line_init_def)
  have body: "rm_body sample_setup = []" by (simp add: sample_setup_def)
  have "os_text (apt_text_stream_init 1000) = []" by (simp add: apt_text_stream_init_def)
  from rtsp_message_roundtrip[OF ok this room, of 1 "''RTSP/1.0''"] show ?thesis
    unfolding body by (elim exE conjE) (intro exI conjI; assumption)
qed

end
