(* ===== verification/Mpf_Codec.thy ===== *)
theory Mpf_Codec
  imports String_Table
begin

text \<open>
  \<open>libs/mpf/src/mpf_codec_descriptor.c\<close>, \<open>mpf_named_event.c\<close>, \<open>mpf_codec_manager.c\<close> and the
  inline functions of \<open>mpf_codec_descriptor.h\<close> and \<open>mpf_codec.h\<close>: what a codec is, the lists of
  codecs that two sides negotiate, and the codecs a manager knows. A pointer to a descriptor
  of a list is the position of the descriptor.
\<close>

unbundle bit_operations_syntax

section \<open>Descriptors\<close>

abbreviation (input) RTP_PT_PCMU :: u8 where "RTP_PT_PCMU \<equiv> 0"
abbreviation (input) RTP_PT_PCMA :: u8 where "RTP_PT_PCMA \<equiv> 8"
abbreviation (input) RTP_PT_DYNAMIC :: u8 where "RTP_PT_DYNAMIC \<equiv> 96"
abbreviation (input) RTP_PT_UNKNOWN :: u8 where "RTP_PT_UNKNOWN \<equiv> 128"
abbreviation (input) MPF_SAMPLE_RATE_NONE :: int where "MPF_SAMPLE_RATE_NONE \<equiv> 0"
abbreviation (input) MPF_SAMPLE_RATE_8000 :: int where "MPF_SAMPLE_RATE_8000 \<equiv> 1"
abbreviation (input) MPF_SAMPLE_RATE_16000 :: int where "MPF_SAMPLE_RATE_16000 \<equiv> 2"
abbreviation (input) MPF_SAMPLE_RATE_32000 :: int where "MPF_SAMPLE_RATE_32000 \<equiv> 4"
abbreviation (input) MPF_SAMPLE_RATE_48000 :: int where "MPF_SAMPLE_RATE_48000 \<equiv> 8"

definition CODEC_FRAME_TIME_BASE :: nat where "CODEC_FRAME_TIME_BASE = 10"

definition BYTES_PER_SAMPLE :: nat where "BYTES_PER_SAMPLE = 2"

definition MPF_SAMPLE_RATE_SUPPORTED :: int where
  "MPF_SAMPLE_RATE_SUPPORTED =
     MPF_SAMPLE_RATE_8000 OR MPF_SAMPLE_RATE_16000 OR MPF_SAMPLE_RATE_32000 OR MPF_SAMPLE_RATE_48000"

record codec_descriptor =
  cd_payload_type :: u8
  cd_name :: string
  cd_sampling_rate :: u16
  cd_channel_count :: u8
  cd_format :: string
  cd_enabled :: bool

record codec_attribs =
  ca_name :: string
  ca_bits_per_sample :: u8
  ca_sample_rates :: int

record codec_capabilities =
  cc_attribs :: "codec_attribs list"
  cc_allow_named_events :: bool

record codec_list =
  cl_descriptors :: "codec_descriptor list"
  cl_primary :: "nat option"
  cl_event :: "nat option"

record codec_frame =
  cf_buffer :: "u8 list"
  cf_size :: nat

definition mpf_codec_descriptor_init :: codec_descriptor where
  "mpf_codec_descriptor_init =
     \<lparr>cd_payload_type = 0, cd_name = [], cd_sampling_rate = 0, cd_channel_count = 0, cd_format = [], cd_enabled = True\<rparr>"

definition mpf_codec_frame_size_calculate :: "codec_descriptor \<Rightarrow> codec_attribs \<Rightarrow> nat" where
  "mpf_codec_frame_size_calculate d a =
     unat (cd_channel_count d) * unat (ca_bits_per_sample a) * CODEC_FRAME_TIME_BASE * unat (cd_sampling_rate d)
       div 1000 div 8"

definition mpf_codec_frame_samples_calculate :: "codec_descriptor \<Rightarrow> nat" where
  "mpf_codec_frame_samples_calculate d =
     unat (cd_channel_count d) * CODEC_FRAME_TIME_BASE * unat (cd_sampling_rate d) div 1000"

definition mpf_codec_linear_frame_size_calculate :: "u16 \<Rightarrow> u8 \<Rightarrow> nat" where
  "mpf_codec_linear_frame_size_calculate sampling_rate channel_count =
     unat channel_count * BYTES_PER_SAMPLE * CODEC_FRAME_TIME_BASE * unat sampling_rate div 1000"

definition mpf_codec_list_init :: codec_list where
  "mpf_codec_list_init = \<lparr>cl_descriptors = [], cl_primary = None, cl_event = None\<rparr>"

definition mpf_codec_list_copy :: "codec_list \<Rightarrow> codec_list \<Rightarrow> codec_list" where
  "mpf_codec_list_copy l src = l\<lparr>cl_descriptors := cl_descriptors src\<rparr>"

text \<open>Adding returns the position of the new descriptor, which the caller fills.\<close>

definition mpf_codec_list_add :: "codec_list \<Rightarrow> nat \<times> codec_list" where
  "mpf_codec_list_add l =
     (length (cl_descriptors l), l\<lparr>cl_descriptors := cl_descriptors l @ [mpf_codec_descriptor_init]\<rparr>)"

definition mpf_codec_list_is_empty :: "codec_list \<Rightarrow> bool" where
  "mpf_codec_list_is_empty l \<longleftrightarrow> cl_descriptors l = []"

definition mpf_codec_list_descriptor_get :: "codec_list \<Rightarrow> nat \<Rightarrow> codec_descriptor option" where
  "mpf_codec_list_descriptor_get l i = (if length (cl_descriptors l) \<le> i then None else Some (cl_descriptors l ! i))"

definition lpcm_attribs :: codec_attribs where
  "lpcm_attribs = \<lparr>ca_name = ''LPCM'', ca_bits_per_sample = 16,
     ca_sample_rates = MPF_SAMPLE_RATE_8000 OR MPF_SAMPLE_RATE_16000 OR MPF_SAMPLE_RATE_32000 OR MPF_SAMPLE_RATE_48000\<rparr>"

definition mpf_sample_rate_mask_get :: "u16 \<Rightarrow> int" where
  "mpf_sample_rate_mask_get sampling_rate =
     (if sampling_rate = 8000 then MPF_SAMPLE_RATE_8000
      else if sampling_rate = 16000 then MPF_SAMPLE_RATE_16000
      else if sampling_rate = 32000 then MPF_SAMPLE_RATE_32000
      else if sampling_rate = 48000 then MPF_SAMPLE_RATE_48000
      else MPF_SAMPLE_RATE_NONE)"

definition mpf_sampling_rate_check :: "u16 \<Rightarrow> int \<Rightarrow> bool" where
  "mpf_sampling_rate_check sampling_rate rates \<longleftrightarrow> (mpf_sample_rate_mask_get sampling_rate AND rates) \<noteq> 0"

definition mpf_codec_lpcm_descriptor_create :: "u16 \<Rightarrow> u8 \<Rightarrow> codec_descriptor" where
  "mpf_codec_lpcm_descriptor_create sampling_rate channel_count =
     mpf_codec_descriptor_init\<lparr>cd_payload_type := RTP_PT_UNKNOWN, cd_name := ca_name lpcm_attribs,
       cd_sampling_rate := sampling_rate, cd_channel_count := channel_count\<rparr>"

text \<open>The first attributes with the sampling rate of the descriptor; names do not matter.\<close>

definition mpf_codec_capabilities_attribs_find :: "codec_capabilities \<Rightarrow> codec_descriptor \<Rightarrow> codec_attribs option" where
  "mpf_codec_capabilities_attribs_find c d =
     find (\<lambda>a. mpf_sampling_rate_check (cd_sampling_rate d) (ca_sample_rates a)) (cc_attribs c)"

definition mpf_codec_descriptor_create_by_capabilities ::
  "codec_capabilities option \<Rightarrow> codec_descriptor option \<Rightarrow> codec_descriptor" where
  "mpf_codec_descriptor_create_by_capabilities capabilities peer =
     (case (capabilities, peer) of
        (Some c, Some p) \<Rightarrow>
          (case mpf_codec_capabilities_attribs_find c p of
             None \<Rightarrow> mpf_codec_lpcm_descriptor_create 8000 1
           | Some a \<Rightarrow>
               if \<not> apt_string_compare (cd_name p) (ca_name a)
               then p\<lparr>cd_payload_type := RTP_PT_UNKNOWN, cd_name := ca_name a\<rparr> else p)
      | _ \<Rightarrow> mpf_codec_lpcm_descriptor_create 8000 1)"

definition mpf_codec_descriptors_match :: "codec_descriptor \<Rightarrow> codec_descriptor \<Rightarrow> bool" where
  "mpf_codec_descriptors_match d1 d2 =
     (if cd_payload_type d1 < RTP_PT_DYNAMIC \<and> cd_payload_type d2 < RTP_PT_DYNAMIC
      then cd_payload_type d1 = cd_payload_type d2
      else apt_string_compare (cd_name d1) (cd_name d2)
        \<and> cd_sampling_rate d1 = cd_sampling_rate d2 \<and> cd_channel_count d1 = cd_channel_count d2)"

definition mpf_codec_lpcm_descriptor_match :: "codec_descriptor \<Rightarrow> bool" where
  "mpf_codec_lpcm_descriptor_match d = apt_string_compare (cd_name d) (ca_name lpcm_attribs)"

definition mpf_codec_capabilities_add :: "codec_capabilities \<Rightarrow> int \<Rightarrow> string \<Rightarrow> codec_capabilities" where
  "mpf_codec_capabilities_add c sample_rates codec_name =
     c\<lparr>cc_attribs := cc_attribs c @ [\<lparr>ca_name = codec_name, ca_bits_per_sample = 0, ca_sample_rates = sample_rates\<rparr>]\<rparr>"

definition mpf_codec_default_capabilities_add :: "codec_capabilities \<Rightarrow> codec_capabilities" where
  "mpf_codec_default_capabilities_add c = mpf_codec_capabilities_add c MPF_SAMPLE_RATE_8000 (ca_name lpcm_attribs)"

definition mpf_codec_capabilities_init :: codec_capabilities where
  "mpf_codec_capabilities_init = \<lparr>cc_attribs = [], cc_allow_named_events = True\<rparr>"

definition mpf_codec_capabilities_merge :: "codec_capabilities \<Rightarrow> codec_capabilities \<Rightarrow> codec_capabilities" where
  "mpf_codec_capabilities_merge c src =
     (let c1 = (if \<not> cc_allow_named_events c \<and> cc_allow_named_events src
                then c\<lparr>cc_allow_named_events := cc_allow_named_events src\<rparr> else c)
      in c1\<lparr>cc_attribs := cc_attribs c1 @ cc_attribs src\<rparr>)"

definition mpf_codec_capabilities_validate :: "codec_capabilities \<Rightarrow> codec_capabilities" where
  "mpf_codec_capabilities_validate c = (if cc_attribs c = [] then mpf_codec_default_capabilities_add c else c)"

text \<open>A static payload type fills the descriptor from the codec; otherwise name and rate decide.\<close>

definition mpf_codec_descriptor_match_by_attribs ::
  "codec_descriptor \<Rightarrow> codec_descriptor option \<Rightarrow> codec_attribs \<Rightarrow> bool \<times> codec_descriptor" where
  "mpf_codec_descriptor_match_by_attribs d static_descriptor a =
     (if cd_payload_type d < RTP_PT_DYNAMIC then
        (case static_descriptor of
           Some s \<Rightarrow>
             if cd_payload_type s = cd_payload_type d
             then (True, d\<lparr>cd_name := cd_name s, cd_sampling_rate := cd_sampling_rate s, cd_channel_count := cd_channel_count s\<rparr>)
             else (False, d)
         | None \<Rightarrow> (False, d))
      else (apt_string_compare (ca_name a) (cd_name d) \<and> mpf_sampling_rate_check (cd_sampling_rate d) (ca_sample_rates a), d))"

section \<open>Named events\<close>

definition TEL_EVENT_NAME :: string where "TEL_EVENT_NAME = ''telephone-event''"

definition TEL_EVENT_FMTP :: string where "TEL_EVENT_FMTP = ''0-15''"

definition mpf_event_descriptor_create :: "u16 \<Rightarrow> codec_descriptor" where
  "mpf_event_descriptor_create sampling_rate =
     mpf_codec_descriptor_init\<lparr>cd_payload_type := 101, cd_name := TEL_EVENT_NAME, cd_sampling_rate := sampling_rate,
       cd_channel_count := 1, cd_format := TEL_EVENT_FMTP\<rparr>"

definition mpf_event_descriptor_check :: "codec_descriptor \<Rightarrow> bool" where
  "mpf_event_descriptor_check d = apt_string_compare (cd_name d) TEL_EVENT_NAME"

definition mpf_dtmf_char_to_event_id :: "char \<Rightarrow> nat" where
  "mpf_dtmf_char_to_event_id c =
     (let n = of_char c :: nat in
      if of_char (CHR ''0'') \<le> n \<and> n \<le> of_char (CHR ''9'') then n - of_char (CHR ''0'')
      else if n = of_char (CHR ''*'') then 10
      else if n = of_char (CHR ''#'') then 11
      else if of_char (CHR ''A'') \<le> n \<and> n \<le> of_char (CHR ''D'') then 12 + n - of_char (CHR ''A'')
      else 255)"

definition mpf_event_id_to_dtmf_char :: "nat \<Rightarrow> char" where
  "mpf_event_id_to_dtmf_char event_id =
     (if event_id \<le> 9 then char_of (of_char (CHR ''0'') + event_id)
      else if event_id = 10 then CHR ''*''
      else if event_id = 11 then CHR ''#''
      else if event_id \<le> 15 then char_of (of_char (CHR ''A'') + event_id - 12)
      else nul)"

text \<open>The digits, the asterisk, the hash and the letters A to D are the sixteen events.\<close>

lemma dtmf_event_of_char:
  assumes "event_id \<le> 15"
  shows "mpf_dtmf_char_to_event_id (mpf_event_id_to_dtmf_char event_id) = event_id"
  using assms by (simp add: le_Suc_eq numeral_eq_Suc)
    (elim disjE; simp add: mpf_dtmf_char_to_event_id_def mpf_event_id_to_dtmf_char_def)

lemma dtmf_char_of_event:
  assumes "mpf_dtmf_char_to_event_id c \<noteq> 255"
  shows "mpf_event_id_to_dtmf_char (mpf_dtmf_char_to_event_id c) = c"
proof -
  have e: "(of_char a = (of_char b :: nat)) = (a = b)" for a b by simp
  have "of_char c = (42 :: nat) \<Longrightarrow> c = CHR ''*''" "of_char c = (35 :: nat) \<Longrightarrow> c = CHR ''#''"
    by (subst e[symmetric], simp)+
  moreover have "char_of (of_char c :: nat) = c" by simp
  ultimately show ?thesis
    using assms by (auto simp: mpf_dtmf_char_to_event_id_def mpf_event_id_to_dtmf_char_def Let_def simp del: char_of_char split: if_splits)
qed

section \<open>Lists of codecs\<close>

definition mpf_codec_list_descriptor_find :: "codec_list \<Rightarrow> codec_descriptor \<Rightarrow> nat option" where
  "mpf_codec_list_descriptor_find l d =
     find (\<lambda>i. mpf_codec_descriptors_match d (cl_descriptors l ! i)) [0..<length (cl_descriptors l)]"

fun list_match_loop :: "codec_capabilities \<Rightarrow> codec_descriptor list \<Rightarrow> bool \<times> codec_descriptor list" where
  "list_match_loop c [] = (False, [])"
| "list_match_loop c (d # ds) =
     (let (status, ds') = list_match_loop c ds in
      if \<not> cd_enabled d then (status, d # ds')
      else if mpf_codec_capabilities_attribs_find c d \<noteq> None then (True, d # ds')
      else (status, d\<lparr>cd_enabled := False\<rparr> # ds'))"

definition mpf_codec_list_match :: "codec_list \<Rightarrow> codec_capabilities option \<Rightarrow> bool \<times> codec_list" where
  "mpf_codec_list_match l capabilities =
     (case capabilities of
        None \<Rightarrow> (False, l)
      | Some c \<Rightarrow> (let (status, ds) = list_match_loop c (cl_descriptors l) in (status, l\<lparr>cl_descriptors := ds\<rparr>)))"

definition descriptor_enable :: "nat \<Rightarrow> bool \<Rightarrow> codec_list \<Rightarrow> codec_list" where
  "descriptor_enable i b l = l\<lparr>cl_descriptors := (cl_descriptors l)[i := (cl_descriptors l ! i)\<lparr>cd_enabled := b\<rparr>]\<rparr>"

text \<open>One round of the first loop of the intersection, for the descriptor at \<open>i\<close> of the first list.\<close>

definition intersect_step :: "nat \<Rightarrow> codec_list \<times> codec_list \<Rightarrow> codec_list \<times> codec_list" where
  "intersect_step i = (\<lambda>(l1, l2).
     let d1 = cl_descriptors l1 ! i in
     if \<not> cd_enabled d1 then (l1, l2)
     else if mpf_event_descriptor_check d1 then
       (if cl_event l1 \<noteq> None then (descriptor_enable i False l1, l2)
        else
          (case mpf_codec_list_descriptor_find l2 d1 of
             Some j \<Rightarrow>
               if cd_enabled (cl_descriptors l2 ! j)
               then ((descriptor_enable i True l1)\<lparr>cl_event := Some i\<rparr>, l2\<lparr>cl_event := Some j\<rparr>)
               else (descriptor_enable i False l1, l2)
           | None \<Rightarrow> (descriptor_enable i False l1, l2)))
     else
       (if cl_primary l1 \<noteq> None then (descriptor_enable i False l1, l2)
        else
          (case mpf_codec_list_descriptor_find l2 d1 of
             Some j \<Rightarrow>
               if cd_enabled (cl_descriptors l2 ! j)
               then ((descriptor_enable i True l1)\<lparr>cl_primary := Some i\<rparr>, l2\<lparr>cl_primary := Some j\<rparr>)
               else (descriptor_enable i False l1, l2)
           | None \<Rightarrow> (descriptor_enable i False l1, l2))))"

definition mpf_codec_lists_intersect :: "codec_list \<Rightarrow> codec_list \<Rightarrow> bool \<times> codec_list \<times> codec_list" where
  "mpf_codec_lists_intersect list1 list2 =
     (let (l1, l2) = fold intersect_step [0..<length (cl_descriptors list1)]
            (list1\<lparr>cl_primary := None, cl_event := None\<rparr>, list2\<lparr>cl_primary := None, cl_event := None\<rparr>);
          l2' = l2\<lparr>cl_descriptors := map (\<lambda>i. (cl_descriptors l2 ! i)\<lparr>cd_enabled :=
                     Some i = cl_primary l2 \<or> Some i = cl_event l2\<rparr>) [0..<length (cl_descriptors l2)]\<rparr>
      in (case cl_primary l1 of None \<Rightarrow> False | Some i \<Rightarrow> cd_enabled (cl_descriptors l1 ! i), l1, l2'))"

text \<open>The two indices of the comparison stand at the descriptors that are left.\<close>

function lists_compare_loop :: "codec_descriptor list \<Rightarrow> codec_descriptor list \<Rightarrow> bool" where
  "lists_compare_loop ds1 ds2 =
     (case (dropWhile (\<lambda>d. \<not> cd_enabled d) ds1, dropWhile (\<lambda>d. \<not> cd_enabled d) ds2) of
        (d1 # rest1, d2 # rest2) \<Rightarrow> if mpf_codec_descriptors_match d1 d2 then lists_compare_loop rest1 rest2 else False
      | (rest1, rest2) \<Rightarrow> rest1 = [] \<and> rest2 = [])"
  by pat_completeness auto
termination
proof (relation "measure (\<lambda>(ds1, ds2). length ds1)", goal_cases)
  case (2 ds1 ds2 p q d1 rest1 d2 rest2)
  then have "dropWhile (\<lambda>d. \<not> cd_enabled d) ds1 = d1 # rest1" by simp
  then have "length (d1 # rest1) \<le> length ds1" by (metis length_dropWhile_le)
  then show ?case by simp
qed simp

declare lists_compare_loop.simps [simp del]

definition mpf_codec_lists_compare :: "codec_list \<Rightarrow> codec_list \<Rightarrow> bool" where
  "mpf_codec_lists_compare l1 l2 = lists_compare_loop (cl_descriptors l1) (cl_descriptors l2)"

section \<open>Codecs\<close>

text \<open>
  The codecs keep no state, so opening and closing are their results; a method that is null is
  \<open>None\<close>. Encoding and decoding read one frame and write another; \<open>None\<close> as their result is an
  access outside a buffer.
\<close>

record codec_vtable =
  cv_open :: "bool option"
  cv_close :: "bool option"
  cv_encode :: "(codec_frame \<Rightarrow> codec_frame \<Rightarrow> (bool \<times> codec_frame) option) option"
  cv_decode :: "(codec_frame \<Rightarrow> codec_frame \<Rightarrow> (bool \<times> codec_frame) option) option"
  cv_dissect :: "(u8 list \<Rightarrow> nat \<Rightarrow> codec_frame \<Rightarrow> (bool \<times> u8 list \<times> nat \<times> codec_frame) option) option"
  cv_initialize :: "(codec_frame \<Rightarrow> (bool \<times> codec_frame) option) option"

record codec =
  co_vtable :: codec_vtable
  co_attribs :: codec_attribs
  co_static_descriptor :: "codec_descriptor option"

definition mpf_codec_create :: "codec_vtable \<Rightarrow> codec_attribs \<Rightarrow> codec_descriptor option \<Rightarrow> codec" where
  "mpf_codec_create vtable attribs descriptor =
     \<lparr>co_vtable = vtable, co_attribs = attribs, co_static_descriptor = descriptor\<rparr>"

definition mpf_codec_clone :: "codec \<Rightarrow> codec" where
  "mpf_codec_clone src = \<lparr>co_vtable = co_vtable src, co_attribs = co_attribs src, co_static_descriptor = co_static_descriptor src\<rparr>"

definition mpf_codec_open :: "codec \<Rightarrow> bool" where
  "mpf_codec_open c = (case cv_open (co_vtable c) of None \<Rightarrow> True | Some rv \<Rightarrow> rv)"

definition mpf_codec_close :: "codec \<Rightarrow> bool" where
  "mpf_codec_close c = (case cv_close (co_vtable c) of None \<Rightarrow> True | Some rv \<Rightarrow> rv)"

definition mpf_codec_encode :: "codec \<Rightarrow> codec_frame \<Rightarrow> codec_frame \<Rightarrow> (bool \<times> codec_frame) option" where
  "mpf_codec_encode c frame_in frame_out =
     (case cv_encode (co_vtable c) of None \<Rightarrow> Some (True, frame_out) | Some f \<Rightarrow> f frame_in frame_out)"

definition mpf_codec_decode :: "codec \<Rightarrow> codec_frame \<Rightarrow> codec_frame \<Rightarrow> (bool \<times> codec_frame) option" where
  "mpf_codec_decode c frame_in frame_out =
     (case cv_decode (co_vtable c) of None \<Rightarrow> Some (True, frame_out) | Some f \<Rightarrow> f frame_in frame_out)"

definition mpf_codec_dissect ::
  "codec \<Rightarrow> u8 list \<Rightarrow> nat \<Rightarrow> codec_frame \<Rightarrow> (bool \<times> u8 list \<times> nat \<times> codec_frame) option" where
  "mpf_codec_dissect c buffer len frame =
     (case cv_dissect (co_vtable c) of
        Some f \<Rightarrow> f buffer len frame
      | None \<Rightarrow>
          if cf_size frame \<le> len \<and> cf_size frame \<noteq> 0 then
            (let n = cf_size frame in
             if n \<le> length buffer \<and> n \<le> length (cf_buffer frame)
             then Some (True, drop n buffer, len - n, frame\<lparr>cf_buffer := take n buffer @ drop n (cf_buffer frame)\<rparr>)
             else None)
          else Some (False, buffer, len, frame))"

definition mpf_codec_initialize :: "codec \<Rightarrow> codec_frame \<Rightarrow> (bool \<times> codec_frame) option" where
  "mpf_codec_initialize c frame_out =
     (case cv_initialize (co_vtable c) of
        Some f \<Rightarrow> f frame_out
      | None \<Rightarrow>
          if cf_size frame_out \<le> length (cf_buffer frame_out)
          then Some (True, frame_out\<lparr>cf_buffer := replicate (cf_size frame_out) 0 @ drop (cf_size frame_out) (cf_buffer frame_out)\<rparr>)
          else None)"

section \<open>Manager of the codecs\<close>

record codec_manager =
  cm_codecs :: "codec list"
  cm_event_descriptor :: "codec_descriptor option"

definition mpf_codec_manager_create :: codec_manager where
  "mpf_codec_manager_create = \<lparr>cm_codecs = [], cm_event_descriptor = Some (mpf_event_descriptor_create 8000)\<rparr>"

definition mpf_codec_manager_codec_register :: "codec_manager \<Rightarrow> codec option \<Rightarrow> bool \<times> codec_manager" where
  "mpf_codec_manager_codec_register m codec =
     (case codec of
        None \<Rightarrow> (False, m)
      | Some c \<Rightarrow> if ca_name (co_attribs c) = [] then (False, m) else (True, m\<lparr>cm_codecs := cm_codecs m @ [c]\<rparr>))"

text \<open>The descriptor is completed by the codec that matches.\<close>

fun codec_get_loop :: "codec list \<Rightarrow> codec_descriptor \<Rightarrow> codec option \<times> codec_descriptor" where
  "codec_get_loop [] d = (None, d)"
| "codec_get_loop (c # cs) d =
     (let (match, d1) = mpf_codec_descriptor_match_by_attribs d (co_static_descriptor c) (co_attribs c)
      in if match then (Some (mpf_codec_clone c), d1) else codec_get_loop cs d1)"

definition mpf_codec_manager_codec_get ::
  "codec_manager \<Rightarrow> codec_descriptor option \<Rightarrow> codec option \<times> codec_descriptor option" where
  "mpf_codec_manager_codec_get m descriptor =
     (case descriptor of
        None \<Rightarrow> (None, None)
      | Some d \<Rightarrow> (let (c, d1) = codec_get_loop (cm_codecs m) d in (c, Some d1)))"

definition mpf_codec_manager_codec_list_get :: "codec_manager \<Rightarrow> bool \<times> codec_list" where
  "mpf_codec_manager_codec_list_get m =
     (True, mpf_codec_list_init\<lparr>cl_descriptors :=
        List.map_filter co_static_descriptor (cm_codecs m)
        @ (case cm_event_descriptor m of None \<Rightarrow> [] | Some e \<Rightarrow> [e])\<rparr>)"

definition mpf_codec_manager_codec_find :: "codec_manager \<Rightarrow> string \<Rightarrow> codec option" where
  "mpf_codec_manager_codec_find m name = find (\<lambda>c. apt_string_compare (ca_name (co_attribs c)) name) (cm_codecs m)"

text \<open>The next word behind separators, and what is left behind it.\<close>

definition apr_strtok :: "string \<Rightarrow> string \<Rightarrow> (string \<times> string) option" where
  "apr_strtok str seps =
     (let s = dropWhile (\<lambda>c. c \<in> set seps) str in
      if s = [] then None
      else (let token = takeWhile (\<lambda>c. c \<notin> set seps) s in Some (token, drop (Suc (length token)) s)))"

definition codec_attributes_parse :: "string \<Rightarrow> codec_descriptor \<Rightarrow> codec_descriptor" where
  "codec_attributes_parse s d =
     (case apr_strtok s ''/'' of
        None \<Rightarrow> d
      | Some (str, s1) \<Rightarrow>
          let d1 = d\<lparr>cd_payload_type := word_of_int (atol str)\<rparr> in
          (case apr_strtok s1 ''/'' of
             None \<Rightarrow> d1
           | Some (str1, s2) \<Rightarrow>
               let d2 = d1\<lparr>cd_sampling_rate := word_of_int (atol str1)\<rparr> in
               (case apr_strtok s2 ''/'' of
                  None \<Rightarrow> d2
                | Some (str2, s3) \<Rightarrow> d2\<lparr>cd_channel_count := word_of_int (atol str2)\<rparr>)))"

definition mpf_codec_manager_codec_parse :: "codec_manager \<Rightarrow> codec_list \<Rightarrow> string \<Rightarrow> bool \<times> codec_list" where
  "mpf_codec_manager_codec_parse m l codec_desc_str =
     (case apr_strtok codec_desc_str ''/'' of
        None \<Rightarrow> (True, l)
      | Some (name, rest) \<Rightarrow>
          (let add = (\<lambda>d. (let (i, l1) = mpf_codec_list_add l
                           in (True, l1\<lparr>cl_descriptors := (cl_descriptors l1)[i := codec_attributes_parse rest d]\<rparr>))) in
           case mpf_codec_manager_codec_find m name of
             Some c \<Rightarrow>
               (case co_static_descriptor c of
                  Some s \<Rightarrow> add (mpf_codec_descriptor_init\<lparr>cd_name := name, cd_payload_type := cd_payload_type s,
                              cd_sampling_rate := cd_sampling_rate s, cd_channel_count := cd_channel_count s\<rparr>)
                | None \<Rightarrow> add (mpf_codec_descriptor_init\<lparr>cd_name := name, cd_payload_type := RTP_PT_DYNAMIC,
                              cd_sampling_rate := 8000, cd_channel_count := 1\<rparr>))
           | None \<Rightarrow>
               (case cm_event_descriptor m of
                  Some e \<Rightarrow> if apt_string_compare (cd_name e) name then add e else (False, l)
                | None \<Rightarrow> (False, l))))"

lemma strtok_shorter: "apr_strtok s seps = Some (t, rest) \<Longrightarrow> length rest < length s"
proof -
  assume a: "apr_strtok s seps = Some (t, rest)"
  let ?s = "dropWhile (\<lambda>c. c \<in> set seps) s"
  from a have "?s \<noteq> []" "rest = drop (Suc (length t)) ?s" by (auto simp: apr_strtok_def Let_def split: if_splits)
  then have "length rest < length ?s" by (cases ?s) auto
  then show ?thesis using length_dropWhile_le[of "\<lambda>c. c \<in> set seps" s] by simp
qed

function codec_list_load_loop :: "codec_manager \<Rightarrow> codec_list \<Rightarrow> string \<Rightarrow> codec_list" where
  "codec_list_load_loop m l str =
     (case apr_strtok str '' '' of
        None \<Rightarrow> l
      | Some (codec_desc_str, rest) \<Rightarrow>
          codec_list_load_loop m (snd (mpf_codec_manager_codec_parse m l codec_desc_str)) rest)"
  by pat_completeness auto
termination by (relation "measure (\<lambda>(m, l, str). length str)") (auto dest: strtok_shorter)

declare codec_list_load_loop.simps [simp del]

definition mpf_codec_manager_codec_list_load :: "codec_manager \<Rightarrow> codec_list \<Rightarrow> string \<Rightarrow> bool \<times> codec_list" where
  "mpf_codec_manager_codec_list_load m l str = (True, codec_list_load_loop m l str)"

section \<open>Comparison and intersection\<close>

lemma dropWhile_filter_cases:
  "(dropWhile (\<lambda>d. \<not> P d) xs = [] \<and> filter P xs = [])
    \<or> (\<exists>x ys. dropWhile (\<lambda>d. \<not> P d) xs = x # ys \<and> filter P xs = x # filter P ys)"
  by (induction xs) auto

lemma lists_compare_loop_filter:
  "lists_compare_loop ds1 ds2 \<longleftrightarrow> list_all2 mpf_codec_descriptors_match (filter cd_enabled ds1) (filter cd_enabled ds2)"
proof (induction ds1 ds2 rule: lists_compare_loop.induct)
  case (1 ds1 ds2)
  show ?case
    using dropWhile_filter_cases[of cd_enabled ds1] dropWhile_filter_cases[of cd_enabled ds2]
    by (subst lists_compare_loop.simps) (auto simp: 1 simp del: dropWhile_eq_Nil_conv filter_empty_conv)
qed

text \<open>
  C36: Two lists of codecs compare as equal exactly when their enabled descriptors match one for one and
  in order; descriptors that are not enabled do not count.
\<close>

theorem codec_lists_compare_enabled:
  "mpf_codec_lists_compare l1 l2 \<longleftrightarrow>
    list_all2 mpf_codec_descriptors_match (filter cd_enabled (cl_descriptors l1)) (filter cd_enabled (cl_descriptors l2))"
  by (simp add: mpf_codec_lists_compare_def lists_compare_loop_filter)

text \<open>What the other side has for a descriptor, and the first descriptor both sides have.\<close>

definition codec_answer :: "codec_list \<Rightarrow> codec_descriptor \<Rightarrow> nat option" where
  "codec_answer l2 d =
     (case mpf_codec_list_descriptor_find l2 d of
        None \<Rightarrow> None | Some j \<Rightarrow> if cd_enabled (cl_descriptors l2 ! j) then Some j else None)"

lemma disabled_same: "\<not> cd_enabled d \<Longrightarrow> d\<lparr>cd_enabled := False\<rparr> = d"
  by (cases d) simp

text \<open>The state of the first loop before round \<open>k\<close>.\<close>

definition agrees :: "bool \<Rightarrow> codec_descriptor list \<Rightarrow> codec_list \<Rightarrow> nat \<Rightarrow> bool" where
  "agrees event ds l2 i \<longleftrightarrow> cd_enabled (ds ! i) \<and> mpf_event_descriptor_check (ds ! i) = event
     \<and> codec_answer l2 (ds ! i) \<noteq> None"

definition first_agreed :: "bool \<Rightarrow> codec_descriptor list \<Rightarrow> codec_list \<Rightarrow> nat \<Rightarrow> nat option" where
  "first_agreed event ds l2 k = find (agrees event ds l2) [0..<k]"

lemma first_agreed_less: "first_agreed event ds l2 k = Some i \<Longrightarrow> i < k \<and> agrees event ds l2 i"
  by (auto simp: first_agreed_def find_Some_iff)

definition chosen :: "codec_descriptor list \<Rightarrow> codec_list \<Rightarrow> nat \<Rightarrow> nat \<Rightarrow> bool" where
  "chosen ds l2 k i \<longleftrightarrow> Some i = first_agreed False ds l2 k \<or> Some i = first_agreed True ds l2 k"

definition intersect_state :: "codec_list \<Rightarrow> codec_list \<Rightarrow> nat \<Rightarrow> codec_list \<times> codec_list" where
  "intersect_state l1 l2 k =
     (let ds = cl_descriptors l1; answer = (\<lambda>i. codec_answer l2 (ds ! i)) in
      (l1\<lparr>cl_descriptors := map (\<lambda>i. if i < k then (ds ! i)\<lparr>cd_enabled := chosen ds l2 k i\<rparr> else ds ! i) [0..<length ds],
          cl_primary := first_agreed False ds l2 k, cl_event := first_agreed True ds l2 k\<rparr>,
       l2\<lparr>cl_primary := Option.bind (first_agreed False ds l2 k) answer,
          cl_event := Option.bind (first_agreed True ds l2 k) answer\<rparr>))"

lemma first_agreed_Suc:
  "first_agreed e ds l2 (Suc k) = (case first_agreed e ds l2 k of
     None \<Rightarrow> if agrees e ds l2 k then Some k else None | Some i \<Rightarrow> Some i)"
  by (simp add: first_agreed_def find_append split: option.split)

lemma chosen_Suc: "i < k \<Longrightarrow> chosen ds l2 (Suc k) i = chosen ds l2 k i"
  unfolding chosen_def first_agreed_Suc by (auto split: option.splits dest: first_agreed_less)

lemma enable_round:
  assumes "k < length ds"
  shows "(map (\<lambda>i. if i < k then (ds ! i)\<lparr>cd_enabled := chosen ds l2 k i\<rparr> else ds ! i) [0..<length ds])
      [k := (ds ! k)\<lparr>cd_enabled := chosen ds l2 (Suc k) k\<rparr>]
    = map (\<lambda>i. if i < Suc k then (ds ! i)\<lparr>cd_enabled := chosen ds l2 (Suc k) i\<rparr> else ds ! i) [0..<length ds]"
  using assms by (intro nth_equalityI) (auto simp: nth_list_update chosen_Suc less_Suc_eq)

lemma find_ignores_choice [simp]:
  "mpf_codec_list_descriptor_find (l\<lparr>cl_primary := p\<rparr>) d = mpf_codec_list_descriptor_find l d"
  "mpf_codec_list_descriptor_find (l\<lparr>cl_event := p\<rparr>) d = mpf_codec_list_descriptor_find l d"
  by (simp_all add: mpf_codec_list_descriptor_find_def)

lemma answer_cases:
  obtains "codec_answer l2 d = None" "case mpf_codec_list_descriptor_find l2 d of
      Some j \<Rightarrow> \<not> cd_enabled (cl_descriptors l2 ! j) | None \<Rightarrow> True"
  | j where "codec_answer l2 d = Some j" "mpf_codec_list_descriptor_find l2 d = Some j" "cd_enabled (cl_descriptors l2 ! j)"
  by (cases "mpf_codec_list_descriptor_find l2 d") (auto simp: codec_answer_def split: if_splits)

lemma intersect_round:
  assumes "k < length (cl_descriptors l1)"
  shows "intersect_step k (intersect_state l1 l2 k) = intersect_state l1 l2 (Suc k)"
proof -
  let ?ds = "cl_descriptors l1" and ?p = "\<lambda>e. first_agreed e (cl_descriptors l1) l2"
  have d: "map (\<lambda>i. if i < k then (?ds ! i)\<lparr>cd_enabled := chosen ?ds l2 k i\<rparr> else ?ds ! i) [0..<length ?ds] ! k = ?ds ! k"
    using assms by simp
  note r = enable_round[OF assms, of l2]
  have p: "?p e (Suc k) = (case ?p e k of None \<Rightarrow> if agrees e ?ds l2 k then Some k else None | Some i \<Rightarrow> Some i)" for e
    by (rule first_agreed_Suc)
  have n: "?p e k \<noteq> Some k" for e using first_agreed_less[of e ?ds l2 k k] by auto
  have n2: "?p False k = Some a \<Longrightarrow> (a = k) = False" "?p True k = Some a \<Longrightarrow> (a = k) = False" for a using n by auto
  have same: "map (\<lambda>i. if i < k then (?ds ! i)\<lparr>cd_enabled := chosen ?ds l2 k i\<rparr> else ?ds ! i) [0..<length ?ds]
      = map (\<lambda>i. if i < Suc k then (?ds ! i)\<lparr>cd_enabled := chosen ?ds l2 (Suc k) i\<rparr> else ?ds ! i) [0..<length ?ds]"
    if "\<not> cd_enabled (?ds ! k)"
  proof -
    have "\<not> chosen ?ds l2 (Suc k) k" using that n unfolding chosen_def p by (auto simp: agrees_def split: option.splits)
    then show ?thesis using r disabled_same[OF that] d assms by (simp add: list_update_same_conv[THEN iffD2])
  qed
  show ?thesis
  proof (cases "cd_enabled (?ds ! k)")
    case False
    then have "?p e (Suc k) = ?p e k" for e unfolding p by (auto simp: agrees_def split: option.splits)
    then show ?thesis using False same assms by (simp add: intersect_step_def intersect_state_def Let_def)
  next
    case True
    show ?thesis
    proof (cases "mpf_event_descriptor_check (?ds ! k)")
      case ev: True
      then have p0: "?p False (Suc k) = ?p False k" unfolding p by (auto simp: agrees_def split: option.splits)
      have c: "chosen ?ds l2 (Suc k) k = (?p True (Suc k) = Some k)" using n[of False] p0 by (auto simp: chosen_def)
      show ?thesis
        using True ev r assms
        by (cases rule: answer_cases[of l2 "?ds ! k"]; cases "?p True k")
          (auto simp: intersect_step_def intersect_state_def Let_def descriptor_enable_def p p0 c agrees_def n n2 split: option.splits)
    next
      case ev: False
      then have p0: "?p True (Suc k) = ?p True k" unfolding p by (auto simp: agrees_def split: option.splits)
      have c: "chosen ?ds l2 (Suc k) k = (?p False (Suc k) = Some k)" using n[of True] p0 by (auto simp: chosen_def)
      show ?thesis
        using True ev r assms
        by (cases rule: answer_cases[of l2 "?ds ! k"]; cases "?p False k")
          (auto simp: intersect_step_def intersect_state_def Let_def descriptor_enable_def p p0 c agrees_def n n2 split: option.splits)
    qed
  qed
qed

lemma intersect_rounds:
  "k \<le> length (cl_descriptors l1) \<Longrightarrow>
    fold intersect_step [0..<k] (l1\<lparr>cl_primary := None, cl_event := None\<rparr>, l2\<lparr>cl_primary := None, cl_event := None\<rparr>)
    = intersect_state l1 l2 k"
proof (induction k)
  case 0
  have "map ((!) (cl_descriptors l1)) [0..<length (cl_descriptors l1)] = cl_descriptors l1" by (rule map_nth)
  then show ?case by (simp add: intersect_state_def first_agreed_def Let_def)
next
  case (Suc k)
  then show ?case by (simp add: intersect_round)
qed

lemma agreed_answer:
  "rel_option (\<lambda>i j. i < length (cl_descriptors l1) \<and> j < length (cl_descriptors l2)
      \<and> mpf_codec_descriptors_match (cl_descriptors l1 ! i) (cl_descriptors l2 ! j))
    (first_agreed e (cl_descriptors l1) l2 (length (cl_descriptors l1)))
    (Option.bind (first_agreed e (cl_descriptors l1) l2 (length (cl_descriptors l1)))
       (\<lambda>i. codec_answer l2 (cl_descriptors l1 ! i)))"
proof (cases "first_agreed e (cl_descriptors l1) l2 (length (cl_descriptors l1))")
  case (Some i)
  then have i: "i < length (cl_descriptors l1)" "agrees e (cl_descriptors l1) l2 i"
    using first_agreed_less by blast+
  then obtain j where j: "codec_answer l2 (cl_descriptors l1 ! i) = Some j" by (auto simp: agrees_def)
  then have "mpf_codec_list_descriptor_find l2 (cl_descriptors l1 ! i) = Some j"
    by (auto simp: codec_answer_def split: option.splits if_splits)
  then have "j < length (cl_descriptors l2)" "mpf_codec_descriptors_match (cl_descriptors l1 ! i) (cl_descriptors l2 ! j)"
    by (auto simp: mpf_codec_list_descriptor_find_def find_Some_iff)
  with Some i(1) j show ?thesis by simp
qed simp

text \<open>
  C35: Intersecting two lists of codecs agrees on at most one codec and one named event. The codec is
  the first enabled descriptor of the first list for which the second list answers with an
  enabled one; the descriptors agreed on match, are enabled on both sides, and all others are
  disabled. The intersection succeeds exactly when there is a codec.
\<close>

theorem codec_lists_intersect_agreement:
  fixes l1 l2 :: codec_list
  defines "p1 \<equiv> first_agreed False (cl_descriptors l1) l2 (length (cl_descriptors l1))"
    and "e1 \<equiv> first_agreed True (cl_descriptors l1) l2 (length (cl_descriptors l1))"
    and "answer \<equiv> \<lambda>i. codec_answer l2 (cl_descriptors l1 ! i)"
  shows "mpf_codec_lists_intersect l1 l2 =
      (p1 \<noteq> None,
       l1\<lparr>cl_descriptors := map (\<lambda>i. (cl_descriptors l1 ! i)\<lparr>cd_enabled := Some i = p1 \<or> Some i = e1\<rparr>)
            [0..<length (cl_descriptors l1)], cl_primary := p1, cl_event := e1\<rparr>,
       l2\<lparr>cl_descriptors := map (\<lambda>j. (cl_descriptors l2 ! j)\<lparr>cd_enabled := Some j = Option.bind p1 answer \<or> Some j = Option.bind e1 answer\<rparr>)
            [0..<length (cl_descriptors l2)], cl_primary := Option.bind p1 answer, cl_event := Option.bind e1 answer\<rparr>)
    \<and> rel_option (\<lambda>i j. i < length (cl_descriptors l1) \<and> j < length (cl_descriptors l2)
        \<and> mpf_codec_descriptors_match (cl_descriptors l1 ! i) (cl_descriptors l2 ! j)) p1 (Option.bind p1 answer)
    \<and> rel_option (\<lambda>i j. i < length (cl_descriptors l1) \<and> j < length (cl_descriptors l2)
        \<and> mpf_codec_descriptors_match (cl_descriptors l1 ! i) (cl_descriptors l2 ! j)) e1 (Option.bind e1 answer)"
proof (intro conjI)
  let ?n = "length (cl_descriptors l1)"
  have m: "map (\<lambda>i. if i < ?n then (cl_descriptors l1 ! i)\<lparr>cd_enabled := chosen (cl_descriptors l1) l2 ?n i\<rparr> else cl_descriptors l1 ! i)
        [0..<?n] = map (\<lambda>i. (cl_descriptors l1 ! i)\<lparr>cd_enabled := Some i = p1 \<or> Some i = e1\<rparr>) [0..<?n]"
    by (simp add: chosen_def p1_def e1_def)
  have on: "i < ?n \<and> (Some i = p1 \<or> Some i = e1)" if "p1 = Some i" for i
    using that first_agreed_less[of False "cl_descriptors l1" l2 ?n i] by (auto simp: p1_def)
  show "mpf_codec_lists_intersect l1 l2 =
      (p1 \<noteq> None,
       l1\<lparr>cl_descriptors := map (\<lambda>i. (cl_descriptors l1 ! i)\<lparr>cd_enabled := Some i = p1 \<or> Some i = e1\<rparr>)
            [0..<length (cl_descriptors l1)], cl_primary := p1, cl_event := e1\<rparr>,
       l2\<lparr>cl_descriptors := map (\<lambda>j. (cl_descriptors l2 ! j)\<lparr>cd_enabled := Some j = Option.bind p1 answer \<or> Some j = Option.bind e1 answer\<rparr>)
            [0..<length (cl_descriptors l2)], cl_primary := Option.bind p1 answer, cl_event := Option.bind e1 answer\<rparr>)"
    unfolding mpf_codec_lists_intersect_def intersect_rounds[OF order_refl] intersect_state_def m Let_def
      p1_def[symmetric] e1_def[symmetric] answer_def[symmetric]
    using on by (auto split: option.split)
qed (use agreed_answer[of l1 l2 False] agreed_answer[of l1 l2 True] in \<open>simp_all add: p1_def e1_def answer_def\<close>)

section \<open>Codecs from a configuration\<close>

text \<open>A list of codecs as it is written in a configuration, and what is read from it.\<close>

definition codec_text :: "codec_descriptor \<Rightarrow> string" where
  "codec_text d = cd_name d @ ''/'' @ show_nat (unat (cd_payload_type d)) @ ''/''
     @ show_nat (unat (cd_sampling_rate d)) @ ''/'' @ show_nat (unat (cd_channel_count d))"

definition codec_list_text :: "codec_descriptor list \<Rightarrow> string" where
  "codec_list_text ds = concat (map (\<lambda>d. codec_text d @ '' '') ds)"

definition codec_name_ok :: "codec_manager \<Rightarrow> string \<Rightarrow> bool" where
  "codec_name_ok m name \<longleftrightarrow> name \<noteq> [] \<and> CHR '' '' \<notin> set name \<and> CHR ''/'' \<notin> set name
     \<and> mpf_codec_manager_codec_find m name \<noteq> None"

lemma strtok_sep:
  assumes "t \<noteq> []" "\<forall>c\<in>set t. c \<notin> set seps" "c \<in> set seps"
  shows "apr_strtok (t @ c # rest) seps = Some (t, rest)"
proof -
  have "dropWhile (\<lambda>c. c \<in> set seps) (t @ c # rest) = t @ c # rest"
    using assms(1,2) by (cases t) auto
  then show ?thesis using assms by (simp add: apr_strtok_def takeWhile_append2 Let_def)
qed

lemma strtok_end:
  assumes "t \<noteq> []" "\<forall>c\<in>set t. c \<notin> set seps"
  shows "apr_strtok t seps = Some (t, [])"
proof -
  have "dropWhile (\<lambda>c. c \<in> set seps) t = t" using assms by (cases t) auto
  then show ?thesis using assms by (simp add: apr_strtok_def Let_def takeWhile_eq_all_conv[THEN iffD2])
qed

lemma show_nat_no_codec_sep: "c \<in> set (show_nat n) \<Longrightarrow> c \<noteq> CHR ''/'' \<and> c \<noteq> CHR '' ''"
  by (auto simp: is_digit_def dest!: show_nat_digits)

lemma word_of_shown:
  fixes w :: "'a::len word"
  assumes "LENGTH('a) \<le> 16"
  shows "word_of_int (atol (show_nat (unat w))) = w"
proof -
  have "unat w < 2 ^ LENGTH('a)" by (rule unsigned_less)
  also have "(2::nat) ^ LENGTH('a) \<le> 2 ^ 63" using assms by (intro power_increasing) auto
  finally have "atol (show_nat (unat w)) = int (unat w)" using atol_show_nat_append[of "[]" "unat w"] by simp
  then show ?thesis by simp
qed

lemma attributes_parse_text:
  "codec_attributes_parse (show_nat (unat (cd_payload_type d)) @ ''/'' @ show_nat (unat (cd_sampling_rate d)) @ ''/''
      @ show_nat (unat (cd_channel_count d))) d0
    = d0\<lparr>cd_payload_type := cd_payload_type d, cd_sampling_rate := cd_sampling_rate d, cd_channel_count := cd_channel_count d\<rparr>"
proof -
  have sep: "\<forall>c\<in>set (show_nat n). c \<notin> set ''/''" for n using show_nat_no_codec_sep by auto
  show ?thesis
    using strtok_sep[OF _ sep, of _ "CHR ''/''"] strtok_end[OF _ sep]
    by (simp add: codec_attributes_parse_def word_of_shown)
qed

lemma codec_parse_text:
  assumes "codec_name_ok m (cd_name d)"
  shows "mpf_codec_manager_codec_parse m l (codec_text d)
    = (True, l\<lparr>cl_descriptors := cl_descriptors l @ [d\<lparr>cd_format := [], cd_enabled := True\<rparr>]\<rparr>)"
proof -
  have n: "cd_name d \<noteq> []" "\<forall>c\<in>set (cd_name d). c \<notin> set ''/''"
    using assms by (auto simp: codec_name_ok_def)
  obtain c where c: "mpf_codec_manager_codec_find m (cd_name d) = Some c" using assms by (auto simp: codec_name_ok_def)
  have "apr_strtok (codec_text d) ''/'' = Some (cd_name d, show_nat (unat (cd_payload_type d)) @ ''/''
      @ show_nat (unat (cd_sampling_rate d)) @ ''/'' @ show_nat (unat (cd_channel_count d)))"
    using strtok_sep[OF n, of "CHR ''/''"] by (simp add: codec_text_def)
  then show ?thesis
    using c attributes_parse_text[of d]
    by (cases d) (auto simp: mpf_codec_manager_codec_parse_def mpf_codec_list_add_def mpf_codec_descriptor_init_def Let_def split: option.split)
qed

text \<open>A configured list of codecs the manager knows is read as it was written.\<close>

lemma codec_list_load_text:
  assumes "list_all (\<lambda>d. codec_name_ok m (cd_name d)) ds"
  shows "mpf_codec_manager_codec_list_load m l (codec_list_text ds)
    = (True, l\<lparr>cl_descriptors := cl_descriptors l @ map (\<lambda>d. d\<lparr>cd_format := [], cd_enabled := True\<rparr>) ds\<rparr>)"
  using assms unfolding mpf_codec_manager_codec_list_load_def
proof (induction ds arbitrary: l)
  case Nil
  then show ?case by (simp add: codec_list_load_loop.simps codec_list_text_def apr_strtok_def)
next
  case (Cons d ds)
  have ok: "codec_name_ok m (cd_name d)" using Cons.prems by simp
  have "\<forall>c\<in>set (codec_text d). c \<notin> set '' ''"
    using ok show_nat_no_codec_sep by (auto simp: codec_text_def codec_name_ok_def)
  then have "apr_strtok (codec_list_text (d # ds)) '' '' = Some (codec_text d, codec_list_text ds)"
    using strtok_sep[of "codec_text d" "'' ''" "CHR '' ''"] by (simp add: codec_list_text_def codec_text_def)
  then show ?case using Cons codec_parse_text[OF ok]
    by (subst codec_list_load_loop.simps) simp
qed

end
