(* ===== verification/G711.thy ===== *)
theory G711
  imports Mpf_Codec
begin

text \<open>
  \<open>libs/mpf/codecs/g711/g711.h\<close>, \<open>g711.c\<close>, \<open>mpf_codec_g711.c\<close> and \<open>mpf_codec_linear.c\<close>: samples as
  u-law and A-law bytes, and the codecs PCMU, PCMA and L16 over frames. An \<open>int\<close> of C is an
  integer, since nothing overflows for 16-bit samples; a sample is a 16-bit word in host order,
  two bytes with the low one first. \<open>top_bit\<close> and \<open>bottom_bit\<close> are the portable versions.
\<close>

section \<open>Samples\<close>

definition top_bit :: "u32 \<Rightarrow> int" where
  "top_bit bits0 =
     (if bits0 = 0 then -1
      else
        let (bits1, i1) = (if bits0 AND 0xFFFF0000 \<noteq> 0 then (bits0 AND 0xFFFF0000, 0 + 16) else (bits0, 0));
            (bits2, i2) = (if bits1 AND 0xFF00FF00 \<noteq> 0 then (bits1 AND 0xFF00FF00, i1 + 8) else (bits1, i1));
            (bits3, i3) = (if bits2 AND 0xF0F0F0F0 \<noteq> 0 then (bits2 AND 0xF0F0F0F0, i2 + 4) else (bits2, i2));
            (bits4, i4) = (if bits3 AND 0xCCCCCCCC \<noteq> 0 then (bits3 AND 0xCCCCCCCC, i3 + 2) else (bits3, i3));
            (bits5, i5) = (if bits4 AND 0xAAAAAAAA \<noteq> 0 then (bits4 AND 0xAAAAAAAA, i4 + 1) else (bits4, i4))
        in i5)"

definition bottom_bit :: "u32 \<Rightarrow> int" where
  "bottom_bit bits0 =
     (if bits0 = 0 then -1
      else
        let (bits1, i1) = (if bits0 AND 0x0000FFFF \<noteq> 0 then (bits0 AND 0x0000FFFF, 32 - 16) else (bits0, 32));
            (bits2, i2) = (if bits1 AND 0x00FF00FF \<noteq> 0 then (bits1 AND 0x00FF00FF, i1 - 8) else (bits1, i1));
            (bits3, i3) = (if bits2 AND 0x0F0F0F0F \<noteq> 0 then (bits2 AND 0x0F0F0F0F, i2 - 4) else (bits2, i2));
            (bits4, i4) = (if bits3 AND 0x33333333 \<noteq> 0 then (bits3 AND 0x33333333, i3 - 2) else (bits3, i3));
            (bits5, i5) = (if bits4 AND 0x55555555 \<noteq> 0 then (bits4 AND 0x55555555, i4 - 1) else (bits4, i4))
        in i5)"

definition ULAW_BIAS :: int where "ULAW_BIAS = 0x84"

definition ALAW_AMI_MASK :: int where "ALAW_AMI_MASK = 0x55"

definition linear_to_ulaw :: "int \<Rightarrow> u8" where
  "linear_to_ulaw linear =
     (let (l, m) = (if linear < 0 then (ULAW_BIAS - linear - 1, 0x7F) else (ULAW_BIAS + linear, 0xFF));
          seg = top_bit (word_of_int (l OR 0xFF)) - 7
      in if 8 \<le> seg then word_of_int (0x7F XOR m)
         else word_of_int ((push_bit 4 seg OR (drop_bit (nat (seg + 3)) l AND 0xF)) XOR m))"

definition ulaw_to_linear :: "u8 \<Rightarrow> i16" where
  "ulaw_to_linear ulaw =
     (let u = uint (NOT ulaw);
          t = push_bit (nat (drop_bit 4 (u AND 0x70))) (push_bit 3 (u AND 0x0F) + ULAW_BIAS)
      in word_of_int (if u AND 0x80 \<noteq> 0 then ULAW_BIAS - t else t - ULAW_BIAS))"

definition linear_to_alaw :: "int \<Rightarrow> u8" where
  "linear_to_alaw linear =
     (let (l, m) = (if 0 \<le> linear then (linear, ALAW_AMI_MASK OR 0x80) else (- linear - 1, ALAW_AMI_MASK));
          seg = top_bit (word_of_int (l OR 0xFF)) - 7
      in if 8 \<le> seg \<and> 0 \<le> l then word_of_int (0x7F XOR m)
         else word_of_int ((push_bit 4 seg OR (drop_bit (if seg \<noteq> 0 then nat (seg + 3) else 4) l AND 0x0F)) XOR m))"

definition alaw_to_linear :: "u8 \<Rightarrow> i16" where
  "alaw_to_linear alaw =
     (let a = uint alaw XOR ALAW_AMI_MASK;
          i = push_bit 4 (a AND 0x0F);
          seg = drop_bit 4 (a AND 0x70);
          i1 = (if seg \<noteq> 0 then push_bit (nat (seg - 1)) (i + 0x108) else i + 8)
      in word_of_int (if a AND 0x80 \<noteq> 0 then i1 else - i1))"

definition ulaw_to_alaw_table :: "u8 list" where
  "ulaw_to_alaw_table =
     [42, 43, 40, 41, 46, 47, 44, 45, 34, 35, 32, 33, 38, 39, 36, 37,
      58, 59, 56, 57, 62, 63, 60, 61, 50, 51, 48, 49, 54, 55, 52, 53,
      10, 11, 8, 9, 14, 15, 12, 13, 2, 3, 0, 1, 6, 7, 4, 26,
      27, 24, 25, 30, 31, 28, 29, 18, 19, 16, 17, 22, 23, 20, 21, 106,
      104, 105, 110, 111, 108, 109, 98, 99, 96, 97, 102, 103, 100, 101, 122, 120,
      126, 127, 124, 125, 114, 115, 112, 113, 118, 119, 116, 117, 75, 73, 79, 77,
      66, 67, 64, 65, 70, 71, 68, 69, 90, 91, 88, 89, 94, 95, 92, 93,
      82, 82, 83, 83, 80, 80, 81, 81, 86, 86, 87, 87, 84, 84, 85, 85,
      170, 171, 168, 169, 174, 175, 172, 173, 162, 163, 160, 161, 166, 167, 164, 165,
      186, 187, 184, 185, 190, 191, 188, 189, 178, 179, 176, 177, 182, 183, 180, 181,
      138, 139, 136, 137, 142, 143, 140, 141, 130, 131, 128, 129, 134, 135, 132, 154,
      155, 152, 153, 158, 159, 156, 157, 146, 147, 144, 145, 150, 151, 148, 149, 234,
      232, 233, 238, 239, 236, 237, 226, 227, 224, 225, 230, 231, 228, 229, 250, 248,
      254, 255, 252, 253, 242, 243, 240, 241, 246, 247, 244, 245, 203, 201, 207, 205,
      194, 195, 192, 193, 198, 199, 196, 197, 218, 219, 216, 217, 222, 223, 220, 221,
      210, 210, 211, 211, 208, 208, 209, 209, 214, 214, 215, 215, 212, 212, 213, 213]"

definition alaw_to_ulaw_table :: "u8 list" where
  "alaw_to_ulaw_table =
     [42, 43, 40, 41, 46, 47, 44, 45, 34, 35, 32, 33, 38, 39, 36, 37,
      57, 58, 55, 56, 61, 62, 59, 60, 49, 50, 47, 48, 53, 54, 51, 52,
      10, 11, 8, 9, 14, 15, 12, 13, 2, 3, 0, 1, 6, 7, 4, 5,
      26, 27, 24, 25, 30, 31, 28, 29, 18, 19, 16, 17, 22, 23, 20, 21,
      98, 99, 96, 97, 102, 103, 100, 101, 93, 93, 92, 92, 95, 95, 94, 94,
      116, 118, 112, 114, 124, 126, 120, 122, 106, 107, 104, 105, 110, 111, 108, 109,
      72, 73, 70, 71, 76, 77, 74, 75, 64, 65, 63, 63, 68, 69, 66, 67,
      86, 87, 84, 85, 90, 91, 88, 89, 79, 79, 78, 78, 82, 83, 80, 81,
      170, 171, 168, 169, 174, 175, 172, 173, 162, 163, 160, 161, 166, 167, 164, 165,
      185, 186, 183, 184, 189, 190, 187, 188, 177, 178, 175, 176, 181, 182, 179, 180,
      138, 139, 136, 137, 142, 143, 140, 141, 130, 131, 128, 129, 134, 135, 132, 133,
      154, 155, 152, 153, 158, 159, 156, 157, 146, 147, 144, 145, 150, 151, 148, 149,
      226, 227, 224, 225, 230, 231, 228, 229, 221, 221, 220, 220, 223, 223, 222, 222,
      244, 246, 240, 242, 252, 254, 248, 250, 234, 235, 232, 233, 238, 239, 236, 237,
      200, 201, 198, 199, 204, 205, 202, 203, 192, 193, 191, 191, 196, 197, 194, 195,
      214, 215, 212, 213, 218, 219, 216, 217, 207, 207, 206, 206, 210, 211, 208, 209]"

definition alaw_to_ulaw :: "u8 \<Rightarrow> u8" where
  "alaw_to_ulaw alaw = alaw_to_ulaw_table ! unat alaw"

definition ulaw_to_alaw :: "u8 \<Rightarrow> u8" where
  "ulaw_to_alaw ulaw = ulaw_to_alaw_table ! unat ulaw"

section \<open>Segments\<close>

text \<open>\<open>bits\<close> holds the highest bit \<open>k\<close>, and only bits that agree with it above bit \<open>b\<close>.\<close>

definition top_left :: "nat \<Rightarrow> nat \<Rightarrow> u32 \<Rightarrow> bool" where
  "top_left k b w \<longleftrightarrow> k < 32 \<and> bit w k \<and> (\<forall>j. bit w j \<longrightarrow> j \<le> k \<and> j div 2 ^ b = k div 2 ^ b)"

lemma half_eq: "x div 2 = y div 2 \<Longrightarrow> odd x \<longleftrightarrow> odd y \<Longrightarrow> x = y" for x y :: nat
  by presburger

lemma half_odd: "odd x \<Longrightarrow> x \<le> y \<Longrightarrow> x div 2 = y div 2 \<Longrightarrow> odd y" for x y :: nat
  by presburger

lemma top_left_step:
  assumes t: "top_left k (Suc b) w" and m: "\<And>j. j < 32 \<Longrightarrow> bit m j = odd (j div 2 ^ b)"
  shows "w AND m \<noteq> 0 \<longleftrightarrow> odd (k div 2 ^ b)"
    "top_left k b (if w AND m \<noteq> 0 then w AND m else w)"
proof -
  have k: "k < 32" "bit w k" using t by (auto simp: top_left_def)
  have h: "x div 2 ^ Suc b = x div 2 ^ b div 2" for x :: nat by (simp only: power_Suc2 div_mult2_eq)
  have j: "bit w j \<Longrightarrow> j < 32 \<and> j \<le> k \<and> j div 2 ^ b div 2 = k div 2 ^ b div 2" for j
  proof -
    assume "bit w j"
    then have "j \<le> k" "j div 2 ^ Suc b = k div 2 ^ Suc b" using t unfolding top_left_def by blast+
    then show ?thesis using k(1) unfolding h by simp
  qed
  have le: "bit w j \<Longrightarrow> j div 2 ^ b \<le> k div 2 ^ b" for j using j div_le_mono by blast
  have par: "j div 2 ^ b = k div 2 ^ b" if "bit w j" "odd (j div 2 ^ b) \<longleftrightarrow> odd (k div 2 ^ b)" for j
    by (rule half_eq[OF j[OF that(1), THEN conjunct2, THEN conjunct2] that(2)])
  have up: "odd (j div 2 ^ b) \<Longrightarrow> odd (k div 2 ^ b)" if "bit w j" for j
    by (rule half_odd[OF _ le[OF that] j[OF that, THEN conjunct2, THEN conjunct2]])
  show e: "w AND m \<noteq> 0 \<longleftrightarrow> odd (k div 2 ^ b)"
  proof
    assume "w AND m \<noteq> 0"
    then obtain j where "bit (w AND m) j" by (metis bit_eq_iff bit_0_eq bot_apply bot_bool_def)
    then have "bit w j" "bit m j" by (simp_all add: bit_and_iff)
    then show "odd (k div 2 ^ b)" using up m j by blast
  next
    assume "odd (k div 2 ^ b)"
    then have "bit (w AND m) k" using k m by (simp add: bit_and_iff)
    then show "w AND m \<noteq> 0" by auto
  qed
  show "top_left k b (if w AND m \<noteq> 0 then w AND m else w)"
    unfolding e using k j par up m by (auto simp: top_left_def bit_and_iff)
qed

lemma all_less_32: "(\<forall>j<32. P j) \<longleftrightarrow> list_all P [0..<32]"
  by (auto simp: list_all_iff)

lemma top_masks:
  "j < 32 \<Longrightarrow> bit (0xFFFF0000 :: u32) j = odd (j div 2 ^ 4)" "j < 32 \<Longrightarrow> bit (0xFF00FF00 :: u32) j = odd (j div 2 ^ 3)"
  "j < 32 \<Longrightarrow> bit (0xF0F0F0F0 :: u32) j = odd (j div 2 ^ 2)" "j < 32 \<Longrightarrow> bit (0xCCCCCCCC :: u32) j = odd (j div 2 ^ 1)"
  "j < 32 \<Longrightarrow> bit (0xAAAAAAAA :: u32) j = odd (j div 2 ^ 0)"
proof -
  have "\<forall>j<32. bit (0xFFFF0000 :: u32) j = odd (j div 2 ^ 4)" unfolding all_less_32 by code_simp
  then show "j < 32 \<Longrightarrow> bit (0xFFFF0000 :: u32) j = odd (j div 2 ^ 4)" by blast
  have "\<forall>j<32. bit (0xFF00FF00 :: u32) j = odd (j div 2 ^ 3)" unfolding all_less_32 by code_simp
  then show "j < 32 \<Longrightarrow> bit (0xFF00FF00 :: u32) j = odd (j div 2 ^ 3)" by blast
  have "\<forall>j<32. bit (0xF0F0F0F0 :: u32) j = odd (j div 2 ^ 2)" unfolding all_less_32 by code_simp
  then show "j < 32 \<Longrightarrow> bit (0xF0F0F0F0 :: u32) j = odd (j div 2 ^ 2)" by blast
  have "\<forall>j<32. bit (0xCCCCCCCC :: u32) j = odd (j div 2 ^ 1)" unfolding all_less_32 by code_simp
  then show "j < 32 \<Longrightarrow> bit (0xCCCCCCCC :: u32) j = odd (j div 2 ^ 1)" by blast
  have "\<forall>j<32. bit (0xAAAAAAAA :: u32) j = odd (j div 2 ^ 0)" unfolding all_less_32 by code_simp
  then show "j < 32 \<Longrightarrow> bit (0xAAAAAAAA :: u32) j = odd (j div 2 ^ 0)" by blast
qed

lemma binary_digits:
  assumes "k < 32"
  shows "(if odd (k div 16) then 16 else 0) + (if odd (k div 8) then 8 else 0) + (if odd (k div 4) then 4 else 0)
    + (if odd (k div 2) then 2 else 0) + (if odd k then 1 else 0) = int k"
proof -
  have "\<forall>k<32. (if odd (k div 16) then 16 else 0) + (if odd (k div 8) then 8 else 0) + (if odd (k div 4) then 4 else 0)
    + (if odd (k div 2) then 2 else 0) + (if odd k then 1 else 0) = int k"
    unfolding all_less_32 by code_simp
  then show ?thesis using assms by blast
qed

lemma top_round:
  assumes "top_left k (Suc b) w" "\<And>j. j < 32 \<Longrightarrow> bit m j = odd (j div 2 ^ b)"
  shows "\<exists>w1. (if w AND m \<noteq> 0 then (w AND m, i + c) else (w, i)) = (w1, i + (if odd (k div 2 ^ b) then c else 0 :: int))
    \<and> top_left k b w1"
  using top_left_step[OF assms] by auto

text \<open>\<open>top_bit\<close> is the position of the highest set bit.\<close>

lemma top_bit_highest:
  assumes "k < 32" "bit w k" "\<And>j. bit w j \<Longrightarrow> j \<le> k"
  shows "top_bit w = int k"
proof -
  have nz: "w \<noteq> 0" using assms(2) by auto
  have e: "5 = Suc 4" "4 = Suc 3" "3 = Suc 2" "2 = Suc 1" "1 = Suc 0" by simp_all
  have "j div 2 ^ 5 = k div 2 ^ 5" if "bit w j" for j using assms(1) assms(3)[OF that] by simp
  then have 0: "top_left k 5 w" using assms unfolding top_left_def by simp
  obtain w1 where 1: "(if w AND 0xFFFF0000 \<noteq> 0 then (w AND 0xFFFF0000, 0 + 16) else (w, 0))
      = (w1, 0 + (if odd (k div 2 ^ 4) then 16 else 0 :: int))" "top_left k 4 w1"
    using top_round[OF 0[unfolded e(1)] top_masks(1)] by metis
  obtain w2 where 2: "(if w1 AND 0xFF00FF00 \<noteq> 0 then (w1 AND 0xFF00FF00, i + 8) else (w1, i))
      = (w2, i + (if odd (k div 2 ^ 3) then 8 else 0 :: int))" "top_left k 3 w2" for i
    using top_left_step[OF 1(2)[unfolded e(2)] top_masks(2)] by (cases "odd (k div 2 ^ 3)") (auto intro: that)
  obtain w3 where 3: "(if w2 AND 0xF0F0F0F0 \<noteq> 0 then (w2 AND 0xF0F0F0F0, i + 4) else (w2, i))
      = (w3, i + (if odd (k div 2 ^ 2) then 4 else 0 :: int))" "top_left k 2 w3" for i
    using top_left_step[OF 2(2)[unfolded e(3)] top_masks(3)] by (cases "odd (k div 2 ^ 2)") (auto intro: that)
  obtain w4 where 4: "(if w3 AND 0xCCCCCCCC \<noteq> 0 then (w3 AND 0xCCCCCCCC, i + 2) else (w3, i))
      = (w4, i + (if odd (k div 2 ^ 1) then 2 else 0 :: int))" "top_left k 1 w4" for i
    using top_left_step[OF 3(2)[unfolded e(4)] top_masks(4)] by (cases "odd (k div 2 ^ 1)") (auto intro: that)
  obtain w5 where 5: "(if w4 AND 0xAAAAAAAA \<noteq> 0 then (w4 AND 0xAAAAAAAA, i + 1) else (w4, i))
      = (w5, i + (if odd (k div 2 ^ 0) then 1 else 0 :: int))" for i
    using top_left_step[OF 4(2)[unfolded e(5)] top_masks(5)] by (cases "odd (k div 2 ^ 0)") (auto intro: that)
  show ?thesis
    unfolding top_bit_def if_not_P[OF nz] 1 Let_def prod.case 2 3 4 5
    using binary_digits[OF assms(1)] by simp
qed

section \<open>Codes\<close>

text \<open>The seven low bits before the sign and the inversion, and the value they stand for.\<close>

definition ulaw_code :: "int \<Rightarrow> int" where
  "ulaw_code y =
     (let seg = top_bit (word_of_int (y OR 0xFF)) - 7
      in if 8 \<le> seg then 0x7F else push_bit 4 seg OR (drop_bit (nat (seg + 3)) y AND 0xF))"

definition alaw_code :: "int \<Rightarrow> int" where
  "alaw_code y =
     (let seg = top_bit (word_of_int (y OR 0xFF)) - 7
      in if 8 \<le> seg then 0x7F else push_bit 4 seg OR (drop_bit (if seg \<noteq> 0 then nat (seg + 3) else 4) y AND 0xF))"

lemma linear_to_ulaw_code:
  "linear_to_ulaw x = (if x < 0 then word_of_int (ulaw_code (131 - x) XOR 0x7F) else word_of_int (ulaw_code (132 + x) XOR 0xFF))"
  by (simp add: linear_to_ulaw_def ulaw_code_def ULAW_BIAS_def Let_def)

lemma linear_to_alaw_code:
  "linear_to_alaw x = (if x < 0 then word_of_int (alaw_code (- x - 1) XOR 0x55) else word_of_int (alaw_code x XOR 0xD5))"
proof -
  have "0x55 OR 0x80 = (0xD5 :: int)" by simp
  then show ?thesis by (simp add: linear_to_alaw_def alaw_code_def ALAW_AMI_MASK_def Let_def)
qed

lemma ulaw_values:
  "list_all (\<lambda>c. sint (ulaw_to_linear (word_of_int (c XOR 0xFF))) = (2 * (c mod 16) + 33) * 2 ^ nat (c div 16 + 2) - 132) [0..127]"
  "list_all (\<lambda>c. sint (ulaw_to_linear (word_of_int (c XOR 0x7F))) = 132 - (2 * (c mod 16) + 33) * 2 ^ nat (c div 16 + 2)) [0..127]"
  by code_simp+

lemma alaw_values:
  "list_all (\<lambda>c. sint (alaw_to_linear (word_of_int (c XOR 0xD5))) =
      (if c < 16 then 16 * c + 8 else (2 * (c mod 16) + 33) * 2 ^ nat (c div 16 + 2))) [0..127]"
  "list_all (\<lambda>c. sint (alaw_to_linear (word_of_int (c XOR 0x55))) =
      - (if c < 16 then 16 * c + 8 else (2 * (c mod 16) + 33) * 2 ^ nat (c div 16 + 2))) [0..127]"
  by code_simp+

lemma int_bit_highest:
  assumes "2 ^ k \<le> y" "y < 2 ^ Suc k"
  shows "bit (y :: int) k" "bit y j \<Longrightarrow> j \<le> k"
proof -
  have "y div 2 ^ k = 1" using assms by (intro int_div_pos_eq[of _ _ _ "y - 2 ^ k"]) auto
  then show "bit y k" by (simp add: bit_iff_odd)
  show "j \<le> k" if "bit y j"
  proof (rule ccontr)
    assume "\<not> j \<le> k"
    then have "(2 :: int) ^ Suc k \<le> 2 ^ j" by (intro power_increasing) auto
    then have "y div 2 ^ j = 0" using assms by (intro div_pos_pos_trivial) (auto intro: order_trans[of 0 "2 ^ k"])
    with that show False by (simp add: bit_iff_odd)
  qed
qed

lemma bit_255: "bit (255 :: int) j \<longleftrightarrow> j < 8"
proof -
  have "(255 :: int) = mask 8" by (simp add: mask_eq_exp_minus_1)
  show ?thesis unfolding \<open>(255 :: int) = mask 8\<close> bit_mask_iff by simp
qed

lemma segment_top:
  assumes "2 ^ (s + 7) \<le> y \<or> s = 0" "0 \<le> y" "y < 2 ^ (s + 8)" "s \<le> 8"
  shows "top_bit (word_of_int (y OR 0xFF)) - 7 = int s"
proof -
  have b: "bit (word_of_int (y OR 255) :: u32) j \<longleftrightarrow> j < 32 \<and> (bit y j \<or> j < 8)" for j
    by (simp add: bit_word_of_int_iff bit_or_iff bit_255)
  have "bit y j \<Longrightarrow> j \<le> s + 7" for j
  proof (cases "2 ^ (s + 7) \<le> y")
    case True
    then show "bit y j \<Longrightarrow> j \<le> s + 7" using int_bit_highest(2)[of "s + 7" y j] assms(3) by (simp add: eval_nat_numeral)
  next
    case False
    then have s: "s = 0" "y < 128" using assms(1) by auto
    have "y div 2 ^ j = 0" if "7 < j"
    proof -
      have "(128 :: int) \<le> 2 ^ j" using that power_increasing[of 7 j "2 :: int"] by simp
      then show ?thesis using s assms(2) by (intro div_pos_pos_trivial) auto
    qed
    then show "bit y j \<Longrightarrow> j \<le> s + 7" using s by (cases "7 < j") (auto simp: bit_iff_odd)
  qed
  moreover have "bit y (s + 7) \<or> s + 7 < 8"
    using int_bit_highest(1)[of "s + 7" y] assms(1,3) by (auto simp: eval_nat_numeral)
  ultimately have "top_bit (word_of_int (y OR 255)) = int (s + 7)"
    using assms(4) by (intro top_bit_highest) (auto simp: b)
  then show ?thesis by simp
qed

lemma code_text:
  assumes "0 \<le> q" "q < 16"
  shows "push_bit 4 s OR q = 16 * s + (q :: int)"
proof -
  have "take_bit 4 q = q" using assms by (simp add: take_bit_int_eq_self)
  then have "\<not> bit (push_bit 4 s) n \<or> \<not> bit q n" for n
    by (metis bit_push_bit_iff_int bit_take_bit_iff not_le)
  then have "push_bit 4 s + q = push_bit 4 s OR q" by (rule disjunctive_add)
  then show ?thesis by (simp add: push_bit_eq_mult)
qed

lemma and_15: "x AND 0xF = x mod (16 :: int)"
proof -
  have "(15 :: int) = mask 4" by (simp add: mask_eq_exp_minus_1)
  show ?thesis unfolding \<open>(15 :: int) = mask 4\<close> take_bit_eq_mask[symmetric] take_bit_eq_mod by simp
qed

lemma interval_div:
  fixes y P :: int
  assumes "0 < P" "16 * P \<le> y" "y < 32 * P"
  shows "16 \<le> y div P" "y div P < 32" "(y div P) * P \<le> y" "y < (y div P + 1) * P"
proof -
  have m: "y = (y div P) * P + y mod P" "0 \<le> y mod P" "y mod P < P" using assms(1) by simp_all
  show l: "(y div P) * P \<le> y" "y < (y div P + 1) * P" using m by (simp_all only: distrib_right)
  show "16 \<le> y div P" using zdiv_mono1[OF assms(2,1)] assms(1) by simp
  show "y div P < 32"
  proof (rule ccontr)
    assume "\<not> y div P < 32"
    then have "32 * P \<le> (y div P) * P" using assms(1) by (intro mult_right_mono) auto
    with l assms(3) show False by simp
  qed
qed

lemma segment_exists:
  assumes "128 \<le> y" "y < 2 ^ 15"
  shows "\<exists>s<8. 2 ^ (s + 7) \<le> y \<and> y < (2 :: int) ^ (s + 8)"
proof -
  consider "y < 256" | "256 \<le> y" "y < 512" | "512 \<le> y" "y < 1024" | "1024 \<le> y" "y < 2048" | "2048 \<le> y" "y < 4096"
    | "4096 \<le> y" "y < 8192" | "8192 \<le> y" "y < 16384" | "16384 \<le> y" by linarith
  then show ?thesis
    by cases (use assms in \<open>force intro: exI[of _ 0] exI[of _ 1] exI[of _ 2] exI[of _ 3] exI[of _ 4] exI[of _ 5] exI[of _ 6] exI[of _ 7]\<close>)+
qed

lemma code_segment:
  assumes "s < 8" "2 ^ (s + 7) \<le> y" "y < 2 ^ (s + 8)"
  shows "\<exists>q. 0 \<le> q \<and> q < 16 \<and> (q + 16) * 2 ^ (s + 3) \<le> y \<and> y < (q + 17) * 2 ^ (s + 3)
    \<and> push_bit 4 (int s) OR (drop_bit (s + 3) y AND 0xF) = 16 * int s + q"
proof -
  let ?P = "2 ^ (s + 3) :: int"
  have e: "(2 :: int) ^ (s + 7) = 16 * ?P" "(2 :: int) ^ (s + 8) = 32 * ?P" by (simp_all add: power_add)
  note i = interval_div[of ?P y, OF _ assms(2)[unfolded e] assms(3)[unfolded e]]
  let ?q = "y div ?P - 16"
  have q: "0 \<le> ?q" "?q < 16" using i by simp_all
  have "(y div ?P) mod 16 = ?q" using q by (metis add.commute diff_add_cancel mod_add_self2 mod_pos_pos_trivial)
  then have "drop_bit (s + 3) y AND 0xF = ?q" by (simp only: and_15 drop_bit_eq_div)
  then show ?thesis using q i code_text[OF q, of "int s"] by (intro exI[of _ ?q]) (auto simp: add.commute)
qed

lemma ulaw_code_segment:
  assumes "132 \<le> y" "y < 2 ^ 15"
  shows "\<exists>s q. s < 8 \<and> 0 \<le> q \<and> q < 16 \<and> ulaw_code y = 16 * int s + q
    \<and> 2 ^ (s + 7) \<le> y \<and> (q + 16) * 2 ^ (s + 3) \<le> y \<and> y < (q + 17) * 2 ^ (s + 3)"
proof -
  obtain s where s: "s < 8" "2 ^ (s + 7) \<le> y" "y < 2 ^ (s + 8)" using segment_exists[of y] assms by auto
  have t: "top_bit (word_of_int (y OR 0xFF)) - 7 = int s" using s assms by (intro segment_top) auto
  have n: "nat (int s + 3) = s + 3" by simp
  from code_segment[OF s] s show ?thesis by (simp only: ulaw_code_def Let_def t n) fastforce
qed

lemma alaw_code_segment:
  assumes "0 \<le> y" "y < 2 ^ 15"
  shows "(y < 256 \<and> alaw_code y = y div 16)
    \<or> (\<exists>s q. 0 < s \<and> s < 8 \<and> 0 \<le> q \<and> q < 16 \<and> alaw_code y = 16 * int s + q
        \<and> 2 ^ (s + 7) \<le> y \<and> (q + 16) * 2 ^ (s + 3) \<le> y \<and> y < (q + 17) * 2 ^ (s + 3))"
proof (cases "y < 256")
  case True
  have t: "top_bit (word_of_int (y OR 0xFF)) - 7 = int 0" using True assms by (intro segment_top) auto
  have "y div 16 < 16" using True by simp
  then have "y div 16 mod 16 = y div 16" using assms by (intro mod_pos_pos_trivial) auto
  then have "alaw_code y = y div 16"
    by (simp add: alaw_code_def t[simplified] Let_def and_15 drop_bit_eq_div)
  with True show ?thesis by blast
next
  case False
  then obtain s where s: "s < 8" "2 ^ (s + 7) \<le> y" "y < 2 ^ (s + 8)" using segment_exists[of y] assms by auto
  have s0: "0 < s" using s False by (cases s) auto
  have t: "top_bit (word_of_int (y OR 0xFF)) - 7 = int s" using s assms by (intro segment_top) auto
  have n: "nat (int s + 3) = s + 3" by simp
  obtain q where q: "0 \<le> q" "q < 16" "(q + 16) * 2 ^ (s + 3) \<le> y" "y < (q + 17) * 2 ^ (s + 3)"
      "push_bit 4 (int s) OR (drop_bit (s + 3) y AND 0xF) = 16 * int s + q"
    using code_segment[OF s] by blast
  have "alaw_code y = 16 * int s + q" using s s0 q(5) by (simp only: alaw_code_def Let_def t n) simp
  with q(1-4) have "\<exists>q. 0 \<le> q \<and> q < 16 \<and> alaw_code y = 16 * int s + q
      \<and> (q + 16) * 2 ^ (s + 3) \<le> y \<and> y < (q + 17) * 2 ^ (s + 3)" by blast
  with s s0 show ?thesis by blast
qed

text \<open>A value in the middle of its interval is off by at most half the interval.\<close>

lemma middle_error:
  fixes y P q :: int
  assumes "(q + 16) * (2 * P) \<le> y" "y < (q + 17) * (2 * P)"
  shows "\<bar>(2 * q + 33) * P - y\<bar> \<le> P" "\<bar>(2 * q + 33) * P - y - 1\<bar> \<le> P"
  using assms by (auto simp: algebra_simps abs_le_iff)

lemma values_at:
  assumes "s < 8" "0 \<le> q" "q < 16"
  shows "(16 * int s + q) \<in> set [0..127]" "(16 * int s + q) mod 16 = q" "nat ((16 * int s + q) div 16 + 2) = s + 2"
  using assms by (auto simp: nat_add_distrib)

lemma segment_error:
  assumes "s < 8" "0 \<le> q" "q < 16" "2 ^ (s + 7) \<le> y" "(q + 16) * 2 ^ (s + 3) \<le> y" "y < (q + 17) * 2 ^ (s + 3)"
  shows "32 * \<bar>(2 * q + 33) * 2 ^ (s + 2) - y\<bar> \<le> (y :: int)" "32 * \<bar>(2 * q + 33) * 2 ^ (s + 2) - y - 1\<bar> \<le> y"
proof -
  let ?P = "2 ^ (s + 2) :: int"
  have e: "(2 :: int) ^ (s + 3) = 2 * ?P" "(2 :: int) ^ (s + 7) = 32 * ?P" by (simp_all add: power_add)
  note m = middle_error[OF assms(5)[unfolded e] assms(6)[unfolded e]]
  show "32 * \<bar>(2 * q + 33) * ?P - y\<bar> \<le> y" "32 * \<bar>(2 * q + 33) * ?P - y - 1\<bar> \<le> y"
    using order_trans[OF mult_left_mono[OF m(1), of 32] assms(4)[unfolded e]]
      order_trans[OF mult_left_mono[OF m(2), of 32] assms(4)[unfolded e]] by simp_all
qed

lemma ulaw_error:
  assumes "132 \<le> y" "y \<le> 2 ^ 15 + 131"
  defines "T \<equiv> (2 * (ulaw_code y mod 16) + 33) * 2 ^ nat (ulaw_code y div 16 + 2)"
  shows "ulaw_code y \<in> set [0..127]" "32 * \<bar>T - y\<bar> \<le> y" "32 * \<bar>T - y - 1\<bar> \<le> y"
proof (atomize (full), cases "y < 2 ^ 15")
  case True
  obtain s q where sq: "s < 8" "0 \<le> q" "q < 16" "ulaw_code y = 16 * int s + q"
      "2 ^ (s + 7) \<le> y" "(q + 16) * 2 ^ (s + 3) \<le> y" "y < (q + 17) * 2 ^ (s + 3)"
    using ulaw_code_segment[OF assms(1) True] by blast
  note v = values_at[OF sq(1-3)]
  show "ulaw_code y \<in> set [0..127] \<and> 32 * \<bar>T - y\<bar> \<le> y \<and> 32 * \<bar>T - y - 1\<bar> \<le> y"
    using segment_error[OF sq(1-3,5-7)] v(1) unfolding T_def sq(4) v(2,3) by blast
next
  case False
  have t: "top_bit (word_of_int (y OR 0xFF)) - 7 = int 8" using False assms by (intro segment_top) auto
  have c: "ulaw_code y = 127" unfolding ulaw_code_def Let_def t by simp
  have "T = 32256" unfolding T_def c by simp
  then show "ulaw_code y \<in> set [0..127] \<and> 32 * \<bar>T - y\<bar> \<le> y \<and> 32 * \<bar>T - y - 1\<bar> \<le> y"
    using False assms(2) unfolding c by auto
qed

lemma alaw_error:
  assumes "0 \<le> y" "y < 2 ^ 15"
  defines "T \<equiv> (if alaw_code y < 16 then 16 * alaw_code y + 8
    else (2 * (alaw_code y mod 16) + 33) * 2 ^ nat (alaw_code y div 16 + 2))"
  shows "alaw_code y \<in> set [0..127]" "32 * \<bar>T - y\<bar> \<le> max 256 y" "32 * \<bar>T - y - 1\<bar> \<le> max 256 y"
proof (atomize (full), cases "y < 256 \<and> alaw_code y = y div 16")
  case True
  moreover have "y div 16 < 16" using conjunct1[OF True] by simp
  ultimately have "T = 16 * (y div 16) + 8" by (simp add: T_def)
  then show "alaw_code y \<in> set [0..127] \<and> 32 * \<bar>T - y\<bar> \<le> max 256 y \<and> 32 * \<bar>T - y - 1\<bar> \<le> max 256 y"
    using True assms(1) by (auto simp: max_def)
next
  case False
  then obtain s q where sq: "0 < s" "s < 8" "0 \<le> q" "q < 16" "alaw_code y = 16 * int s + q"
      "2 ^ (s + 7) \<le> y" "(q + 16) * 2 ^ (s + 3) \<le> y" "y < (q + 17) * 2 ^ (s + 3)"
    using alaw_code_segment[OF assms(1,2)] by blast
  note v = values_at[OF sq(2-4)]
  have "\<not> 16 * int s + q < 16" using sq(1,3) by simp
  then have "32 * \<bar>T - y\<bar> \<le> y" "32 * \<bar>T - y - 1\<bar> \<le> y"
    using segment_error[OF sq(2-4,6-8)] unfolding T_def sq(5) v(2,3) by simp_all
  then show "alaw_code y \<in> set [0..127] \<and> 32 * \<bar>T - y\<bar> \<le> max 256 y \<and> 32 * \<bar>T - y - 1\<bar> \<le> max 256 y"
    using v(1) unfolding sq(5) by linarith
qed

lemma error_ulaw_alaw:
  fixes x :: i16
  shows "32 * \<bar>sint (ulaw_to_linear (linear_to_ulaw (sint x))) - sint x\<bar> \<le> \<bar>sint x\<bar> + 132
    \<and> 32 * \<bar>sint (alaw_to_linear (linear_to_alaw (sint x))) - sint x\<bar> \<le> max 256 \<bar>sint x\<bar>"
proof -
  have x: "- (2 ^ 15) \<le> sint x" "sint x < 2 ^ 15"
    using sint_greater_eq[of x] sint_less[of x] by simp_all
  show ?thesis
  proof (cases "sint x < 0")
    case True
    have u: "132 \<le> 131 - sint x" "131 - sint x \<le> 2 ^ 15 + 131" and a: "0 \<le> - sint x - 1" "- sint x - 1 < 2 ^ 15"
      using True x by simp_all
    note U = ulaw_error[OF u] and A = alaw_error[OF a]
    obtain T where T: "sint (ulaw_to_linear (linear_to_ulaw (sint x))) = 132 - T"
        "32 * \<bar>T - (131 - sint x) - 1\<bar> \<le> 131 - sint x"
      using ulaw_values(2)[unfolded list_all_iff, rule_format, OF U(1)] U(3)
      unfolding linear_to_ulaw_code if_P[OF True] by blast
    obtain S where S: "sint (alaw_to_linear (linear_to_alaw (sint x))) = - S"
        "32 * \<bar>S - (- sint x - 1) - 1\<bar> \<le> max 256 (- sint x - 1)"
      using alaw_values(2)[unfolded list_all_iff, rule_format, OF A(1)] A(3)
      unfolding linear_to_alaw_code if_P[OF True] by blast
    show ?thesis using T S True by (simp add: max_def abs_if split: if_splits)
  next
    case False
    have u: "132 \<le> 132 + sint x" "132 + sint x \<le> 2 ^ 15 + 131" and a: "0 \<le> sint x"
      using False x by simp_all
    note U = ulaw_error[OF u] and A = alaw_error[OF a x(2)]
    obtain T where T: "sint (ulaw_to_linear (linear_to_ulaw (sint x))) = T - 132"
        "32 * \<bar>T - (132 + sint x)\<bar> \<le> 132 + sint x"
      using ulaw_values(1)[unfolded list_all_iff, rule_format, OF U(1)] U(2)
      unfolding linear_to_ulaw_code if_not_P[OF False] by blast
    obtain S where S: "sint (alaw_to_linear (linear_to_alaw (sint x))) = S" "32 * \<bar>S - sint x\<bar> \<le> max 256 (sint x)"
      using alaw_values(1)[unfolded list_all_iff, rule_format, OF A(1)] A(2)
      unfolding linear_to_alaw_code if_not_P[OF False] by blast
    show ?thesis using T S False by (simp add: max_def abs_if split: if_splits)
  qed
qed

text \<open>
  C37: A sample that is encoded as u-law and decoded is off by at most a 32nd of its size plus the
  bias of 132; as A-law by at most a 32nd of its size, and by at most eight when it is small.
\<close>

theorem g711_error_bound:
  fixes x :: i16
  shows "32 * \<bar>sint (ulaw_to_linear (linear_to_ulaw (sint x))) - sint x\<bar> \<le> \<bar>sint x\<bar> + 132
    \<and> 32 * \<bar>sint (alaw_to_linear (linear_to_alaw (sint x))) - sint x\<bar> \<le> max 256 \<bar>sint x\<bar>"
  by (rule error_ulaw_alaw)

text \<open>
  C38: Every A-law byte is decoded to a sample that is encoded to the same byte, and so is every u-law
  byte but the negative zero, which becomes the positive one.
\<close>

theorem g711_bytes_roundtrip:
  "linear_to_alaw (sint (alaw_to_linear a)) = a
    \<and> linear_to_ulaw (sint (ulaw_to_linear u)) = (if u = 0x7F then 0xFF else u)"
proof -
  have "list_all (\<lambda>i. linear_to_alaw (sint (alaw_to_linear (word_of_int i))) = word_of_int i) [0..255]"
    by code_simp
  moreover have "list_all (\<lambda>i. linear_to_ulaw (sint (ulaw_to_linear (word_of_int i))) =
      (if i = 0x7F then 0xFF else word_of_int i)) [0..255]"
    by code_simp
  moreover have r: "uint w \<in> set [0..255]" for w :: u8 using uint_lt2p[of w] by simp
  have e: "uint w = 0x7F \<longleftrightarrow> w = 0x7F" for w :: u8
    using word_eq_iff_unsigned[where 'a = int, of w "0x7F"] by simp
  ultimately show ?thesis using r[of a] r[of u] e[of u] unfolding list_all_iff by (metis word_of_int_uint)
qed

section \<open>Codecs\<close>

text \<open>A sample in a buffer, and the two bytes of a sample.\<close>

definition i16_at :: "u8 list \<Rightarrow> nat \<Rightarrow> i16" where
  "i16_at buf i = word_cat (buf ! (2 * i + 1)) (buf ! (2 * i))"

definition i16_bytes :: "i16 \<Rightarrow> u8 list" where
  "i16_bytes w = [ucast w, ucast (drop_bit 8 w)]"

definition samples_encode :: "(int \<Rightarrow> u8) \<Rightarrow> codec_frame \<Rightarrow> codec_frame \<Rightarrow> (bool \<times> codec_frame) option" where
  "samples_encode f frame_in frame_out =
     (let n = cf_size frame_in div 2 in
      if 2 * n \<le> length (cf_buffer frame_in) \<and> n \<le> length (cf_buffer frame_out)
      then Some (True, frame_out\<lparr>cf_size := n,
        cf_buffer := map (\<lambda>i. f (sint (i16_at (cf_buffer frame_in) i))) [0..<n] @ drop n (cf_buffer frame_out)\<rparr>)
      else None)"

definition samples_decode :: "(u8 \<Rightarrow> i16) \<Rightarrow> codec_frame \<Rightarrow> codec_frame \<Rightarrow> (bool \<times> codec_frame) option" where
  "samples_decode f frame_in frame_out =
     (let n = cf_size frame_in in
      if n \<le> length (cf_buffer frame_in) \<and> 2 * n \<le> length (cf_buffer frame_out)
      then Some (True, frame_out\<lparr>cf_size := n * 2,
        cf_buffer := concat (map (\<lambda>b. i16_bytes (f b)) (take n (cf_buffer frame_in))) @ drop (2 * n) (cf_buffer frame_out)\<rparr>)
      else None)"

definition silence_fill :: "u8 \<Rightarrow> codec_frame \<Rightarrow> (bool \<times> codec_frame) option" where
  "silence_fill b frame_out =
     (if cf_size frame_out \<le> length (cf_buffer frame_out)
      then Some (True, frame_out\<lparr>cf_buffer := replicate (cf_size frame_out) b @ drop (cf_size frame_out) (cf_buffer frame_out)\<rparr>)
      else None)"

definition g711u_encode :: "codec_frame \<Rightarrow> codec_frame \<Rightarrow> (bool \<times> codec_frame) option" where
  "g711u_encode = samples_encode linear_to_ulaw"

definition g711u_decode :: "codec_frame \<Rightarrow> codec_frame \<Rightarrow> (bool \<times> codec_frame) option" where
  "g711u_decode = samples_decode ulaw_to_linear"

definition g711u_init :: "codec_frame \<Rightarrow> (bool \<times> codec_frame) option" where
  "g711u_init = silence_fill (linear_to_ulaw 0)"

definition g711a_encode :: "codec_frame \<Rightarrow> codec_frame \<Rightarrow> (bool \<times> codec_frame) option" where
  "g711a_encode = samples_encode linear_to_alaw"

definition g711a_decode :: "codec_frame \<Rightarrow> codec_frame \<Rightarrow> (bool \<times> codec_frame) option" where
  "g711a_decode = samples_decode alaw_to_linear"

definition g711a_init :: "codec_frame \<Rightarrow> (bool \<times> codec_frame) option" where
  "g711a_init = silence_fill (linear_to_alaw 0)"

definition g711u_vtable :: codec_vtable where
  "g711u_vtable = \<lparr>cv_open = Some True, cv_close = Some True, cv_encode = Some g711u_encode,
     cv_decode = Some g711u_decode, cv_dissect = None, cv_initialize = Some g711u_init\<rparr>"

definition g711a_vtable :: codec_vtable where
  "g711a_vtable = \<lparr>cv_open = Some True, cv_close = Some True, cv_encode = Some g711a_encode,
     cv_decode = Some g711a_decode, cv_dissect = None, cv_initialize = Some g711a_init\<rparr>"

definition g711u_descriptor :: codec_descriptor where
  "g711u_descriptor = \<lparr>cd_payload_type = RTP_PT_PCMU, cd_name = ''PCMU'', cd_sampling_rate = 8000,
     cd_channel_count = 1, cd_format = [], cd_enabled = True\<rparr>"

definition g711a_descriptor :: codec_descriptor where
  "g711a_descriptor = \<lparr>cd_payload_type = RTP_PT_PCMA, cd_name = ''PCMA'', cd_sampling_rate = 8000,
     cd_channel_count = 1, cd_format = [], cd_enabled = True\<rparr>"

definition g711u_attribs :: codec_attribs where
  "g711u_attribs = \<lparr>ca_name = ''PCMU'', ca_bits_per_sample = 8, ca_sample_rates =
     MPF_SAMPLE_RATE_8000 OR MPF_SAMPLE_RATE_16000 OR MPF_SAMPLE_RATE_32000 OR MPF_SAMPLE_RATE_48000\<rparr>"

definition g711a_attribs :: codec_attribs where
  "g711a_attribs = \<lparr>ca_name = ''PCMA'', ca_bits_per_sample = 8, ca_sample_rates =
     MPF_SAMPLE_RATE_8000 OR MPF_SAMPLE_RATE_16000 OR MPF_SAMPLE_RATE_32000 OR MPF_SAMPLE_RATE_48000\<rparr>"

definition mpf_codec_g711u_create :: codec where
  "mpf_codec_g711u_create = mpf_codec_create g711u_vtable g711u_attribs (Some g711u_descriptor)"

definition mpf_codec_g711a_create :: codec where
  "mpf_codec_g711a_create = mpf_codec_create g711a_vtable g711a_attribs (Some g711a_descriptor)"

text \<open>L16 swaps the bytes of each sample, in both directions.\<close>

definition htons :: "i16 \<Rightarrow> i16" where
  "htons w = word_cat (ucast w :: u8) (ucast (drop_bit 8 w) :: u8)"

definition l16_swap :: "codec_frame \<Rightarrow> codec_frame \<Rightarrow> (bool \<times> codec_frame) option" where
  "l16_swap frame_in frame_out =
     (let n = cf_size frame_in div 2 in
      if 2 * n \<le> length (cf_buffer frame_in) \<and> 2 * n \<le> length (cf_buffer frame_out)
      then Some (True, frame_out\<lparr>cf_size := cf_size frame_in,
        cf_buffer := concat (map (\<lambda>i. i16_bytes (htons (i16_at (cf_buffer frame_in) i))) [0..<n])
          @ drop (2 * n) (cf_buffer frame_out)\<rparr>)
      else None)"

definition l16_encode :: "codec_frame \<Rightarrow> codec_frame \<Rightarrow> (bool \<times> codec_frame) option" where
  "l16_encode = l16_swap"

definition l16_decode :: "codec_frame \<Rightarrow> codec_frame \<Rightarrow> (bool \<times> codec_frame) option" where
  "l16_decode = l16_swap"

definition l16_vtable :: codec_vtable where
  "l16_vtable = \<lparr>cv_open = Some True, cv_close = Some True, cv_encode = Some l16_encode,
     cv_decode = Some l16_decode, cv_dissect = None, cv_initialize = None\<rparr>"

definition l16_attribs :: codec_attribs where
  "l16_attribs = \<lparr>ca_name = ''L16'', ca_bits_per_sample = 16, ca_sample_rates =
     MPF_SAMPLE_RATE_8000 OR MPF_SAMPLE_RATE_16000 OR MPF_SAMPLE_RATE_32000 OR MPF_SAMPLE_RATE_48000\<rparr>"

definition mpf_codec_l16_create :: codec where
  "mpf_codec_l16_create = mpf_codec_create l16_vtable l16_attribs None"

section \<open>Frames\<close>

lemma i16_of_bytes: "word_cat (ucast (drop_bit 8 w) :: u8) (ucast w :: u8) = (w :: i16)"
  by (rule bit_word_eqI) (auto simp: bit_simps)

lemma i16_at_bytes:
  assumes "i < length ws"
  shows "i16_at (concat (map i16_bytes ws) @ r) i = ws ! i"
  using assms
proof (induction ws arbitrary: i)
  case (Cons w ws)
  then show ?case by (cases i) (auto simp: i16_at_def i16_bytes_def i16_of_bytes)
qed simp

lemma length_bytes [simp]: "length (concat (map i16_bytes ws)) = 2 * length ws"
  by (induction ws) (simp_all add: i16_bytes_def)

lemma length_bytes_of [simp]: "length (concat (map (\<lambda>x. i16_bytes (h x)) xs)) = 2 * length xs"
    "length (concat (map (i16_bytes \<circ> h) xs)) = 2 * length xs"
  by (induction xs) (simp_all add: i16_bytes_def)

lemma htons_htons: "htons (htons w) = w"
  by (rule bit_word_eqI) (auto simp: htons_def bit_simps)

definition frame_samples :: "codec_frame \<Rightarrow> i16 list" where
  "frame_samples f = map (i16_at (cf_buffer f)) [0..<cf_size f div 2]"

definition frame_ok :: "codec_frame \<Rightarrow> bool" where
  "frame_ok f \<longleftrightarrow> even (cf_size f) \<and> cf_size f \<le> length (cf_buffer f)"

text \<open>
  What the rest of the media path relies on in a codec: a frame of \<open>n\<close> samples becomes one of
  \<open>n * width\<close> bytes, from which samples close to them come back.
\<close>

locale frame_codec =
  fixes c :: codec and width :: nat and near :: "i16 \<Rightarrow> i16 \<Rightarrow> bool"
  assumes encode: "frame_ok f \<Longrightarrow> width * (cf_size f div 2) \<le> length (cf_buffer out) \<Longrightarrow>
      \<exists>e. mpf_codec_encode c f out = Some (True, e) \<and> cf_size e = width * (cf_size f div 2)
        \<and> length (cf_buffer e) = length (cf_buffer out)"
    and decode: "mpf_codec_encode c f out = Some (True, e) \<Longrightarrow> frame_ok f \<Longrightarrow> cf_size f \<le> length (cf_buffer g) \<Longrightarrow>
      take (cf_size e) (cf_buffer e') = take (cf_size e) (cf_buffer e) \<Longrightarrow> cf_size e' = cf_size e \<Longrightarrow>
      cf_size e \<le> length (cf_buffer e') \<Longrightarrow>
      \<exists>d. mpf_codec_decode c e' g = Some (True, d) \<and> cf_size d = cf_size f \<and> length (cf_buffer d) = length (cf_buffer g)
        \<and> list_all2 near (frame_samples f) (frame_samples d)"
begin

lemma transfer:
  assumes "frame_ok f" "width * (cf_size f div 2) \<le> length (cf_buffer out)" "cf_size f \<le> length (cf_buffer g)"
  shows "\<exists>e d. mpf_codec_encode c f out = Some (True, e) \<and> mpf_codec_decode c e g = Some (True, d)
    \<and> cf_size d = cf_size f \<and> list_all2 near (frame_samples f) (frame_samples d)"
proof -
  obtain e where e: "mpf_codec_encode c f out = Some (True, e)" "cf_size e = width * (cf_size f div 2)"
      "length (cf_buffer e) = length (cf_buffer out)"
    using encode[OF assms(1,2)] by blast
  with assms(2) show ?thesis using decode[OF e(1) assms(1,3) refl refl] by auto
qed

end

lemma frame_samples_bytes:
  assumes "cf_size f = 2 * length ws" "cf_buffer f = concat (map i16_bytes ws) @ r"
  shows "frame_samples f = ws"
  using assms by (intro nth_equalityI) (simp_all add: frame_samples_def i16_at_bytes)

lemma samples_codec:
  assumes c: "cv_encode (co_vtable c) = Some (samples_encode enc)" "cv_decode (co_vtable c) = Some (samples_decode dec)"
    and near: "\<And>x. near x (dec (enc (sint x)))"
  shows "frame_codec c 1 near"
proof
  fix f out :: codec_frame
  assume f: "frame_ok f" and room: "1 * (cf_size f div 2) \<le> length (cf_buffer out)"
  have n: "2 * (cf_size f div 2) = cf_size f" using f by (simp add: frame_ok_def)
  show "\<exists>e. mpf_codec_encode c f out = Some (True, e) \<and> cf_size e = 1 * (cf_size f div 2)
      \<and> length (cf_buffer e) = length (cf_buffer out)"
    using f room n by (simp add: mpf_codec_encode_def c samples_encode_def Let_def frame_ok_def)
next
  fix f out e e' g :: codec_frame
  assume e: "mpf_codec_encode c f out = Some (True, e)" and f: "frame_ok f" and g: "cf_size f \<le> length (cf_buffer g)"
    and e': "take (cf_size e) (cf_buffer e') = take (cf_size e) (cf_buffer e)" "cf_size e' = cf_size e" "cf_size e \<le> length (cf_buffer e')"
  let ?n = "cf_size f div 2" and ?ws = "map (\<lambda>x. dec (enc (sint x))) (frame_samples f)"
  have n: "2 * ?n = cf_size f" using f by (simp add: frame_ok_def)
  have es: "cf_size e = ?n" "take ?n (cf_buffer e) = map (\<lambda>i. enc (sint (i16_at (cf_buffer f) i))) [0..<?n]"
    using e by (auto simp: mpf_codec_encode_def c samples_encode_def Let_def split: if_splits)
  have b: "map (\<lambda>b. i16_bytes (dec b)) (take (cf_size e') (cf_buffer e')) = map i16_bytes ?ws"
  proof -
    have "take (cf_size e') (cf_buffer e') = map (\<lambda>i. enc (sint (i16_at (cf_buffer f) i))) [0..<?n]"
      using e'(1,2) es by simp
    then show ?thesis by (simp add: frame_samples_def comp_def)
  qed
  let ?d = "g\<lparr>cf_size := ?n * 2, cf_buffer := concat (map i16_bytes ?ws) @ drop (2 * ?n) (cf_buffer g)\<rparr>"
  have d: "mpf_codec_decode c e' g = Some (True, ?d)"
    using e' es(1) g n unfolding mpf_codec_decode_def c samples_decode_def Let_def option.case b
    by simp
  have "frame_samples ?d = ?ws" by (rule frame_samples_bytes) (simp_all add: frame_samples_def)
  then have "list_all2 near (frame_samples f) (frame_samples ?d)" by (simp add: list_all2_conv_all_nth near)
  then show "\<exists>d. mpf_codec_decode c e' g = Some (True, d) \<and> cf_size d = cf_size f \<and> length (cf_buffer d) = length (cf_buffer g)
      \<and> list_all2 near (frame_samples f) (frame_samples d)"
    using d g n by (intro exI[of _ ?d]) (simp add: frame_samples_def)
qed

definition near_ulaw :: "i16 \<Rightarrow> i16 \<Rightarrow> bool" where
  "near_ulaw x y \<longleftrightarrow> 32 * \<bar>sint y - sint x\<bar> \<le> \<bar>sint x\<bar> + 132"

definition near_alaw :: "i16 \<Rightarrow> i16 \<Rightarrow> bool" where
  "near_alaw x y \<longleftrightarrow> 32 * \<bar>sint y - sint x\<bar> \<le> max 256 \<bar>sint x\<bar>"

interpretation pcmu: frame_codec mpf_codec_g711u_create 1 near_ulaw
proof (rule samples_codec)
  show "near_ulaw x (ulaw_to_linear (linear_to_ulaw (sint x)))" for x
    using error_ulaw_alaw[of x] by (simp add: near_ulaw_def)
qed (simp_all add: mpf_codec_g711u_create_def mpf_codec_create_def g711u_vtable_def g711u_encode_def g711u_decode_def)

interpretation pcma: frame_codec mpf_codec_g711a_create 1 near_alaw
proof (rule samples_codec)
  show "near_alaw x (alaw_to_linear (linear_to_alaw (sint x)))" for x
    using error_ulaw_alaw[of x] by (simp add: near_alaw_def)
qed (simp_all add: mpf_codec_g711a_create_def mpf_codec_create_def g711a_vtable_def g711a_encode_def g711a_decode_def)

lemma l16_swap_twice:
  assumes e: "l16_swap f out = Some (True, e)" and f: "frame_ok f" "cf_size f \<le> length (cf_buffer g)"
    and e': "take (cf_size e) (cf_buffer e') = take (cf_size e) (cf_buffer e)" "cf_size e' = cf_size e" "cf_size e \<le> length (cf_buffer e')"
  shows "\<exists>d. l16_swap e' g = Some (True, d) \<and> cf_size d = cf_size f \<and> length (cf_buffer d) = length (cf_buffer g)
    \<and> frame_samples f = frame_samples d"
proof -
  let ?n = "cf_size f div 2" and ?ws = "map htons (frame_samples f)"
  have n: "2 * ?n = cf_size f" using f by (simp add: frame_ok_def)
  have l: "length ?ws = ?n" by (simp add: frame_samples_def)
  have es: "cf_size e = cf_size f" "cf_buffer e = concat (map i16_bytes ?ws) @ drop (2 * ?n) (cf_buffer out)"
    using e by (auto simp: l16_swap_def Let_def frame_samples_def comp_def split: if_splits)
  have t: "cf_buffer e' = concat (map i16_bytes ?ws) @ drop (cf_size f) (cf_buffer e')"
    using e'(1) append_take_drop_id[of "cf_size f" "cf_buffer e'"] n l by (simp add: es del: map_map)
  have "map (i16_at (cf_buffer e')) [0..<?n] = ?ws"
    using l i16_at_bytes[of _ ?ws "drop (cf_size f) (cf_buffer e')", folded t] by (intro nth_equalityI) auto
  then have s: "map (\<lambda>i. i16_bytes (htons (i16_at (cf_buffer e') i))) [0..<?n] = map i16_bytes (frame_samples f)"
  proof -
    assume m: "map (i16_at (cf_buffer e')) [0..<?n] = ?ws"
    have "map (\<lambda>i. i16_bytes (htons (i16_at (cf_buffer e') i))) [0..<?n]
        = map (\<lambda>x. i16_bytes (htons x)) (map (i16_at (cf_buffer e')) [0..<?n])" by simp
    also have "\<dots> = map i16_bytes (frame_samples f)" unfolding m by (simp add: htons_htons)
    finally show ?thesis .
  qed
  let ?d = "g\<lparr>cf_size := cf_size f, cf_buffer := concat (map i16_bytes (frame_samples f)) @ drop (2 * ?n) (cf_buffer g)\<rparr>"
  have "l16_swap e' g = Some (True, ?d)"
    using e'(3) f(2) n unfolding l16_swap_def Let_def e'(2) es(1) s by simp
  moreover have "frame_samples f = frame_samples ?d"
    by (rule frame_samples_bytes[symmetric]) (use n in \<open>simp_all add: frame_samples_def\<close>)
  ultimately show ?thesis using f(2) n by (intro exI[of _ ?d]) (simp add: frame_samples_def)
qed

interpretation l16: frame_codec mpf_codec_l16_create 2 "(=)"
proof
  fix f out :: codec_frame
  assume "frame_ok f" and "2 * (cf_size f div 2) \<le> length (cf_buffer out)"
  then show "\<exists>e. mpf_codec_encode mpf_codec_l16_create f out = Some (True, e) \<and> cf_size e = 2 * (cf_size f div 2)
      \<and> length (cf_buffer e) = length (cf_buffer out)"
    by (simp add: mpf_codec_encode_def mpf_codec_l16_create_def mpf_codec_create_def l16_vtable_def l16_encode_def
        l16_swap_def Let_def frame_ok_def comp_def)
next
  fix f out e e' g :: codec_frame
  assume "mpf_codec_encode mpf_codec_l16_create f out = Some (True, e)" "frame_ok f" "cf_size f \<le> length (cf_buffer g)"
    "take (cf_size e) (cf_buffer e') = take (cf_size e) (cf_buffer e)" "cf_size e' = cf_size e" "cf_size e \<le> length (cf_buffer e')"
  then show "\<exists>d. mpf_codec_decode mpf_codec_l16_create e' g = Some (True, d) \<and> cf_size d = cf_size f
      \<and> length (cf_buffer d) = length (cf_buffer g) \<and> list_all2 (=) (frame_samples f) (frame_samples d)"
    using l16_swap_twice[of f out e g e'] by (simp add: mpf_codec_encode_def mpf_codec_decode_def mpf_codec_l16_create_def
        mpf_codec_create_def l16_vtable_def l16_encode_def l16_decode_def list.rel_eq)
qed

end
