(* ===== verification/Mpf_Frame.thy ===== *)
theory Mpf_Frame
  imports Mpf_Codec
begin

text \<open>
  \<open>libs/mpf/include/mpf_frame.h\<close> and \<open>mpf_named_event.h\<close>: media frames with their audio and their
  named event. The type of a frame is a set of bits.
\<close>

abbreviation (input) MEDIA_FRAME_TYPE_NONE :: int where "MEDIA_FRAME_TYPE_NONE \<equiv> 0"
abbreviation (input) MEDIA_FRAME_TYPE_AUDIO :: int where "MEDIA_FRAME_TYPE_AUDIO \<equiv> 1"
abbreviation (input) MEDIA_FRAME_TYPE_EVENT :: int where "MEDIA_FRAME_TYPE_EVENT \<equiv> 4"

datatype mpf_frame_marker =
  MPF_MARKER_NONE | MPF_MARKER_START_OF_EVENT | MPF_MARKER_END_OF_EVENT | MPF_MARKER_NEW_SEGMENT

record named_event =
  ne_event_id :: u8
  ne_edge :: bool
  ne_volume :: "6 word"
  ne_duration :: u16

record mpf_frame =
  mf_type :: int
  mf_marker :: mpf_frame_marker
  mf_codec_frame :: codec_frame
  mf_event_frame :: named_event

definition is_audio :: "mpf_frame \<Rightarrow> bool" where
  "is_audio f \<longleftrightarrow> mf_type f AND MEDIA_FRAME_TYPE_AUDIO \<noteq> 0"

definition is_event :: "mpf_frame \<Rightarrow> bool" where
  "is_event f \<longleftrightarrow> mf_type f AND MEDIA_FRAME_TYPE_EVENT \<noteq> 0"

definition event_zero :: named_event where
  "event_zero = \<lparr>ne_event_id = 0, ne_edge = False, ne_volume = 0, ne_duration = 0\<rparr>"

lemma frame_type_bits: "is_audio f \<longleftrightarrow> bit (mf_type f) 0" "is_event f \<longleftrightarrow> bit (mf_type f) 2"
  using and_exp_eq_0_iff_not_bit[of "mf_type f" 0] and_exp_eq_0_iff_not_bit[of "mf_type f" 2]
  by (simp_all add: is_audio_def is_event_def)

text \<open>What a reader gets from a frame.\<close>

definition frame_audio :: "mpf_frame \<Rightarrow> u8 list option" where
  "frame_audio f = (if is_audio f then Some (take (cf_size (mf_codec_frame f)) (cf_buffer (mf_codec_frame f))) else None)"

end
