(* ===== verification/Jitter_Buffer.thy ===== *)
theory Jitter_Buffer
  imports Mpf_Frame "HOL-Library.Signed_Division"
begin

text \<open>
  \<open>libs/mpf/src/mpf_jitter_buffer.c\<close>: the buffer that puts the packets of an RTP stream back in
  order. Timestamps are 32-bit words;
  a signed 32-bit integer is the same word, read by \<open>sint\<close>. A number of frames is an
  \<open>apr_size_t\<close>. Division by zero and accesses outside a buffer are \<open>None\<close>.
\<close>

section \<open>The buffer\<close>

record jb_config =
  jc_min_playout_delay :: u32
  jc_initial_playout_delay :: u32
  jc_max_playout_delay :: u32
  jc_adaptive :: bool
  jc_time_skew_detection :: bool

text \<open>The last update of an event is the copy in the buffer itself or in one of its frames.\<close>

datatype event_ref = Event_Base | Event_Frame nat

datatype jb_result = JB_OK | JB_DISCARD_NOT_ALLIGNED | JB_DISCARD_TOO_LATE | JB_DISCARD_TOO_EARLY

record jitter_buffer =
  jb_config :: jb_config
  jb_codec :: codec
  jb_frames :: "mpf_frame list"
  jb_frame_count :: nat
  jb_frame_ts :: u32
  jb_frame_size :: nat
  jb_playout_delay_ts :: u32
  jb_max_playout_delay_ts :: u32
  jb_write_sync :: bool
  jb_write_ts_offset :: u32
  jb_write_ts :: u32
  jb_read_ts :: u32
  jb_min_length_ts :: u32
  jb_max_length_ts :: u32
  jb_measurment_count :: u32
  jb_event_write_base_ts :: u32
  jb_event_write_base :: named_event
  jb_event_write_update :: "event_ref option"

definition mpf_jb_config_init :: jb_config where
  "mpf_jb_config_init = \<lparr>jc_min_playout_delay = 0, jc_initial_playout_delay = 0, jc_max_playout_delay = 0,
     jc_adaptive = False, jc_time_skew_detection = True\<rparr>"

definition jb_config_validate :: "jb_config \<Rightarrow> jb_config" where
  "jb_config_validate c0 =
     (let c1 = (if jc_initial_playout_delay c0 < jc_min_playout_delay c0
                then c0\<lparr>jc_min_playout_delay := jc_initial_playout_delay c0\<rparr> else c0);
          c2 = (if jc_max_playout_delay c1 < jc_initial_playout_delay c1
                then c1\<lparr>jc_max_playout_delay := 2 * jc_initial_playout_delay c1\<rparr> else c1)
      in if jc_max_playout_delay c2 = 0 then c2\<lparr>jc_max_playout_delay := 600\<rparr> else c2)"

text \<open>The memory of a frame starts with \<open>fill\<close> in its bytes and \<open>e\<close> as its event.\<close>

definition mpf_jitter_buffer_create ::
  "u8 \<Rightarrow> named_event \<Rightarrow> jb_config option \<Rightarrow> codec_descriptor \<Rightarrow> codec \<Rightarrow> jitter_buffer" where
  "mpf_jitter_buffer_create fill e config descriptor codec =
     (let c1 = jb_config_validate (case config of None \<Rightarrow> mpf_jb_config_init | Some c \<Rightarrow> c);
          frame_ts = word_of_nat (mpf_codec_frame_samples_calculate descriptor);
          frame_size = mpf_codec_frame_size_calculate descriptor (co_attribs codec);
          frame_count = unat (jc_max_playout_delay c1 div 10);
          c2 = (if jc_initial_playout_delay c1 mod 10 \<noteq> 0
                then c1\<lparr>jc_initial_playout_delay := jc_initial_playout_delay c1 + (10 - jc_initial_playout_delay c1 mod 10)\<rparr>
                else c1)
      in \<lparr>jb_config = c2, jb_codec = codec,
          jb_frames = replicate frame_count \<lparr>mf_type = MEDIA_FRAME_TYPE_NONE, mf_marker = MPF_MARKER_NONE,
            mf_codec_frame = \<lparr>cf_buffer = replicate frame_size fill, cf_size = 0\<rparr>, mf_event_frame = e\<rparr>,
          jb_frame_count = frame_count, jb_frame_ts = frame_ts, jb_frame_size = frame_size,
          jb_playout_delay_ts = frame_ts * jc_initial_playout_delay c2 div 10,
          jb_max_playout_delay_ts = frame_ts * jc_max_playout_delay c2 div 10,
          jb_write_sync = True, jb_write_ts_offset = 0, jb_write_ts = 0, jb_read_ts = 0,
          jb_min_length_ts = 0, jb_max_length_ts = 0, jb_measurment_count = 0,
          jb_event_write_base_ts = 0, jb_event_write_base = event_zero, jb_event_write_update = None\<rparr>)"

definition mpf_jitter_buffer_restart :: "jitter_buffer \<Rightarrow> jitter_buffer" where
  "mpf_jitter_buffer_restart jb =
     (let jb1 = jb\<lparr>jb_write_sync := True, jb_write_ts_offset := 0, jb_write_ts := jb_read_ts jb,
            jb_event_write_base_ts := 0, jb_event_write_base := event_zero, jb_event_write_update := None\<rparr>
      in if jc_adaptive (jb_config jb1) \<and> jb_playout_delay_ts jb1 = jb_max_playout_delay_ts jb1
         then jb1\<lparr>jb_playout_delay_ts := jb_frame_ts jb1 * jc_initial_playout_delay (jb_config jb1) div 10\<rparr>
         else jb1)"

text \<open>The index of the frame for a timestamp.\<close>

definition mpf_jitter_buffer_frame_get :: "jitter_buffer \<Rightarrow> u32 \<Rightarrow> nat option" where
  "mpf_jitter_buffer_frame_get jb ts =
     (if jb_frame_ts jb = 0 \<or> jb_frame_count jb = 0 then None
      else Some (unat ts div unat (jb_frame_ts jb) mod jb_frame_count jb))"

definition mpf_jitter_buffer_stat_update :: "jitter_buffer \<Rightarrow> jitter_buffer" where
  "mpf_jitter_buffer_stat_update jb =
     (let jb1 = (if jb_measurment_count jb = 50 then
                   (let mean = jb_min_length_ts jb + word_of_int (sint (jb_max_length_ts jb - jb_min_length_ts jb) sdiv 2)
                    in jb\<lparr>jb_min_length_ts := mean, jb_max_length_ts := mean, jb_measurment_count := 0\<rparr>)
                 else jb);
          length_ts = jb_write_ts jb1 - jb_read_ts jb1;
          jb2 = (if sint (jb_max_length_ts jb1) < sint length_ts then jb1\<lparr>jb_max_length_ts := length_ts\<rparr>
                 else if sint length_ts < sint (jb_min_length_ts jb1) then jb1\<lparr>jb_min_length_ts := length_ts\<rparr>
                 else jb1)
      in jb2\<lparr>jb_measurment_count := jb_measurment_count jb2 + 1\<rparr>)"

definition mpf_jitter_buffer_frame_allign :: "jitter_buffer \<Rightarrow> u32 \<Rightarrow> u32" where
  "mpf_jitter_buffer_frame_allign jb ts =
     (if ts mod jb_frame_ts jb \<noteq> 0 then ts - ts mod jb_frame_ts jb else ts)"

definition mpf_jitter_buffer_write_prepare :: "jitter_buffer \<Rightarrow> u32 \<Rightarrow> (u32 \<times> jitter_buffer) option" where
  "mpf_jitter_buffer_write_prepare jb ts =
     (let jb1 = (if jb_write_sync jb then
                   (let jb' = jb\<lparr>jb_write_ts_offset := ts - jb_read_ts jb, jb_write_sync := False\<rparr>
                    in if jc_time_skew_detection (jb_config jb')
                       then jb'\<lparr>jb_min_length_ts := jb_playout_delay_ts jb', jb_max_length_ts := jb_playout_delay_ts jb',
                              jb_measurment_count := 0\<rparr>
                       else jb')
                 else jb);
          write_ts = ts - jb_write_ts_offset jb1 + jb_playout_delay_ts jb1
      in if jb_frame_ts jb1 = 0 then None else Some (mpf_jitter_buffer_frame_allign jb1 write_ts, jb1))"

text \<open>
  A packet that is too late: the timestamp it is written at and the state, or \<open>None\<close> inside when
  it is discarded.
\<close>

definition late_write :: "jitter_buffer \<Rightarrow> u32 \<Rightarrow> u32 \<Rightarrow> (u32 \<times> jitter_buffer) option \<times> jitter_buffer" where
  "late_write jb ts write_ts0 =
     (let delta0 = jb_read_ts jb - write_ts0;
          skew = jc_time_skew_detection (jb_config jb);
          delta1 = (if skew \<and> jb_playout_delay_ts jb + delta0 < jb_max_length_ts jb - jb_min_length_ts jb
                    then mpf_jitter_buffer_frame_allign jb (jb_max_length_ts jb - jb_min_length_ts jb - jb_playout_delay_ts jb)
                    else delta0);
          (delta2, write_ts1, jb1) =
            (if skew \<and> 0 < sint (jb_max_length_ts jb) \<and> jb_max_length_ts jb < jb_playout_delay_ts jb then
               (let skew_ts = mpf_jitter_buffer_frame_allign jb (jb_playout_delay_ts jb - jb_max_length_ts jb);
                    jb' = jb\<lparr>jb_write_ts_offset := jb_write_ts_offset jb - skew_ts,
                            jb_min_length_ts := jb_min_length_ts jb + skew_ts,
                            jb_max_length_ts := jb_max_length_ts jb + skew_ts\<rparr>
                in (if skew_ts < delta1 then delta1 - skew_ts else 0,
                    ts - jb_write_ts_offset jb' + jb_playout_delay_ts jb', jb'))
             else (delta1, write_ts0, jb))
      in if delta2 \<noteq> 0 then
           (if \<not> jc_adaptive (jb_config jb1) then (None, jb1)
            else if jb_max_playout_delay_ts jb1 < jb_playout_delay_ts jb1 + delta2 then (None, jb1)
            else
              (let jb2 = jb1\<lparr>jb_playout_delay_ts := jb_playout_delay_ts jb1 + delta2\<rparr>;
                   jb3 = (if skew then jb2\<lparr>jb_min_length_ts := jb_min_length_ts jb2 + delta2,
                                          jb_max_length_ts := jb_max_length_ts jb2 + delta2\<rparr> else jb2)
               in (Some (write_ts1 + delta2, jb3), jb3)))
         else (Some (write_ts1, jb1), jb1))"

text \<open>The frames of a packet go to the frames of the buffer one by one.\<close>

fun write_frames :: "nat \<Rightarrow> u8 list \<Rightarrow> nat \<Rightarrow> u32 \<Rightarrow> jitter_buffer \<Rightarrow> (u32 \<times> jitter_buffer) option" where
  "write_frames 0 buffer len write_ts jb = Some (write_ts, jb)"
| "write_frames (Suc available) buffer len write_ts jb =
     (if len = 0 then Some (write_ts, jb)
      else do {
        i \<leftarrow> mpf_jitter_buffer_frame_get jb write_ts;
        let frame = (mf_codec_frame (jb_frames jb ! i))\<lparr>cf_size := jb_frame_size jb\<rparr>;
        (ok, buffer1, len1, frame1) \<leftarrow> mpf_codec_dissect (jb_codec jb) buffer len frame;
        let media_frame = (jb_frames jb ! i)\<lparr>mf_codec_frame := frame1\<rparr>;
        if \<not> ok then Some (write_ts, jb\<lparr>jb_frames := (jb_frames jb)[i := media_frame]\<rparr>)
        else write_frames available buffer1 len1 (write_ts + jb_frame_ts jb)
          (jb\<lparr>jb_frames := (jb_frames jb)[i := media_frame\<lparr>mf_type := mf_type media_frame OR MEDIA_FRAME_TYPE_AUDIO\<rparr>]\<rparr>)
      })"

definition mpf_jitter_buffer_write ::
  "jitter_buffer \<Rightarrow> u8 list \<Rightarrow> nat \<Rightarrow> u32 \<Rightarrow> bool \<Rightarrow> (jb_result \<times> jitter_buffer) option" where
  "mpf_jitter_buffer_write jb0 buffer len ts marker = do {
     let jb1 = (if marker \<and> jb_write_ts jb0 \<le> jb_read_ts jb0 then jb0\<lparr>jb_write_sync := True\<rparr> else jb0);
     (write_ts, jb2) \<leftarrow> mpf_jitter_buffer_write_prepare jb1 ts;
     let (placed, jb3) =
       (if jb_read_ts jb2 \<le> write_ts then (Some (write_ts, jb2), jb2)
        else if write_ts < jb_write_ts jb2 then (None, jb2)
        else late_write jb2 ts write_ts);
     case placed of
       None \<Rightarrow> Some (JB_DISCARD_TOO_LATE, jb3)
     | Some (write_ts1, jb4) \<Rightarrow>
         let available = size_t (int (jb_frame_count jb4) - int (unat ((write_ts1 - jb_read_ts jb4) div jb_frame_ts jb4))) in
         if available = 0 then Some (JB_DISCARD_TOO_EARLY, jb4)
         else do {
           (write_ts2, jb5) \<leftarrow> write_frames available buffer len write_ts1 jb4;
           Some (JB_OK, if jb_write_ts jb5 < write_ts2 then jb5\<lparr>jb_write_ts := write_ts2\<rparr> else jb5)
         }
   }"

text \<open>What the reference to the last update of an event stands for.\<close>

definition event_update :: "jitter_buffer \<Rightarrow> named_event option" where
  "event_update jb = map_option (\<lambda>r. case r of Event_Base \<Rightarrow> jb_event_write_base jb
     | Event_Frame i \<Rightarrow> mf_event_frame (jb_frames jb ! i)) (jb_event_write_update jb)"

definition event_begin :: "jitter_buffer \<Rightarrow> named_event \<Rightarrow> u32 \<Rightarrow> jitter_buffer" where
  "event_begin jb ev write_ts =
     jb\<lparr>jb_event_write_base := ev, jb_event_write_update := Some Event_Base, jb_event_write_base_ts := write_ts\<rparr>"

text \<open>Whether a new event begins, and the buffer after a new segment of a long one.\<close>

definition event_detect :: "jitter_buffer \<Rightarrow> named_event \<Rightarrow> u32 \<Rightarrow> bool \<Rightarrow> bool \<times> jitter_buffer" where
  "event_detect jb ev write_ts marker =
     (if marker then (True, jb)
      else
        (case event_update jb of
           None \<Rightarrow> (True, jb)
         | Some u \<Rightarrow>
             if ne_event_id (jb_event_write_base jb) \<noteq> ne_event_id ev then (True, jb)
             else if jb_event_write_base_ts jb \<noteq> write_ts then
               (if jb_event_write_base_ts jb + ucast (ne_duration u) + 4 * jb_frame_ts jb < write_ts then (True, jb)
                else (False, event_begin jb ev write_ts))
             else (False, jb)))"

text \<open>An event at \<open>write_ts\<close>: its frame, its marker, and the write position behind it.\<close>

definition event_place ::
  "jitter_buffer \<Rightarrow> named_event \<Rightarrow> u32 \<Rightarrow> bool \<Rightarrow> (jb_result \<times> jitter_buffer) option" where
  "event_place jb ev write_ts marker = do {
     i \<leftarrow> mpf_jitter_buffer_frame_get jb write_ts;
     let f = jb_frames jb ! i;
     let f1 = f\<lparr>mf_event_frame := ev, mf_type := mf_type f OR MEDIA_FRAME_TYPE_EVENT,
                mf_marker := (if marker then MPF_MARKER_START_OF_EVENT
                              else if ne_edge ev then MPF_MARKER_END_OF_EVENT else mf_marker f)\<rparr>;
     let jb1 = jb\<lparr>jb_frames := (jb_frames jb)[i := f1], jb_event_write_update := Some (Event_Frame i)\<rparr>;
     let write_ts1 = write_ts + jb_frame_ts jb1;
     Some (JB_OK, if jb_write_ts jb1 < write_ts1 then jb1\<lparr>jb_write_ts := write_ts1\<rparr> else jb1)
   }"

text \<open>An event that is neither too late nor too early is placed, a late one by a longer delay.\<close>

definition event_store ::
  "jitter_buffer \<Rightarrow> named_event \<Rightarrow> u32 \<Rightarrow> bool \<Rightarrow> (jb_result \<times> jitter_buffer) option" where
  "event_store jb ev write_ts marker =
     (if write_ts < jb_read_ts jb then
        (let delta = jb_read_ts jb - write_ts in
         if \<not> jc_adaptive (jb_config jb) then Some (JB_DISCARD_TOO_LATE, jb)
         else if jb_max_playout_delay_ts jb < jb_playout_delay_ts jb + delta then Some (JB_DISCARD_TOO_LATE, jb)
         else
           (let jb1 = jb\<lparr>jb_playout_delay_ts := jb_playout_delay_ts jb + delta\<rparr>;
                jb2 = (if marker then jb1\<lparr>jb_event_write_base_ts := write_ts + delta\<rparr> else jb1)
            in event_place jb2 ev (write_ts + delta) marker))
      else if jb_frame_count jb \<le> unat ((write_ts - jb_read_ts jb) div jb_frame_ts jb)
      then Some (JB_DISCARD_TOO_EARLY, jb)
      else event_place jb ev write_ts marker)"

definition mpf_jitter_buffer_event_write ::
  "jitter_buffer \<Rightarrow> named_event \<Rightarrow> u32 \<Rightarrow> bool \<Rightarrow> (jb_result \<times> jitter_buffer) option" where
  "mpf_jitter_buffer_event_write jb0 ev ts marker0 = do {
     (write_ts0, jb1) \<leftarrow> mpf_jitter_buffer_write_prepare jb0 ts;
     let (marker, jb2) = event_detect jb1 ev write_ts0 marker0;
     (ignore, write_ts, jb3) \<leftarrow>
       (if marker then Some (False, write_ts0, event_begin jb2 ev write_ts0)
        else do {
          u \<leftarrow> event_update jb2;
          Some (ne_duration ev < ne_duration u
                  \<or> ne_duration ev = ne_duration u \<and> (ne_edge u \<or> ne_edge u = ne_edge ev),
                write_ts0 + ucast (ne_duration u), jb2)
        });
     if ignore then Some (JB_OK, jb3)
     else event_store jb3 ev write_ts marker
   }"

text \<open>Reading fills a frame of the caller; a copy that does not fit is a fault.\<close>

definition mpf_jitter_buffer_read :: "jitter_buffer \<Rightarrow> mpf_frame \<Rightarrow> (mpf_frame \<times> jitter_buffer) option" where
  "mpf_jitter_buffer_read jb media_frame = do {
     i \<leftarrow> mpf_jitter_buffer_frame_get jb (jb_read_ts jb);
     let src = jb_frames jb ! i;
     f \<leftarrow> (if jb_read_ts jb < jb_write_ts jb then
            (let f1 = media_frame\<lparr>mf_type := mf_type src, mf_marker := mf_marker src\<rparr>;
                 n = cf_size (mf_codec_frame src)
             in if is_audio f1 \<and> (length (cf_buffer (mf_codec_frame src)) < n \<or> length (cf_buffer (mf_codec_frame f1)) < n)
                then None
                else
                  (let f2 = (if is_audio f1 then f1\<lparr>mf_codec_frame :=
                          \<lparr>cf_buffer = take n (cf_buffer (mf_codec_frame src)) @ drop n (cf_buffer (mf_codec_frame f1)),
                           cf_size = n\<rparr>\<rparr> else f1)
                   in Some (if is_event f2 then f2\<lparr>mf_event_frame := mf_event_frame src\<rparr> else f2)))
          else Some (media_frame\<lparr>mf_type := MEDIA_FRAME_TYPE_NONE, mf_marker := MPF_MARKER_NONE\<rparr>));
     let jb1 = jb\<lparr>jb_frames := (jb_frames jb)[i := src\<lparr>mf_type := MEDIA_FRAME_TYPE_NONE, mf_marker := MPF_MARKER_NONE\<rparr>],
                  jb_read_ts := jb_read_ts jb + jb_frame_ts jb\<rparr>;
     Some (f, if jc_time_skew_detection (jb_config jb1) then mpf_jitter_buffer_stat_update jb1 else jb1)
   }"

definition mpf_jitter_buffer_playout_delay_get :: "jitter_buffer \<Rightarrow> u32 option" where
  "mpf_jitter_buffer_playout_delay_get jb =
     (if \<not> jc_adaptive (jb_config jb) then Some (jc_initial_playout_delay (jb_config jb))
      else if jb_frame_ts jb = 0 then None
      else Some (jb_playout_delay_ts jb * 10 div jb_frame_ts jb))"

section \<open>Well-formed buffers\<close>

text \<open>A frame of the buffer: its memory, and its size once it holds audio.\<close>

definition jb_frame_ok :: "nat \<Rightarrow> mpf_frame \<Rightarrow> bool" where
  "jb_frame_ok n f \<longleftrightarrow> length (cf_buffer (mf_codec_frame f)) = n \<and> (is_audio f \<longrightarrow> cf_size (mf_codec_frame f) = n)"

definition jb_ok :: "jitter_buffer \<Rightarrow> bool" where
  "jb_ok jb \<longleftrightarrow> jb_frame_ts jb \<noteq> 0 \<and> 0 < jb_frame_count jb \<and> jb_frame_count jb < 2 ^ 32 \<and> 0 < jb_frame_size jb
     \<and> length (jb_frames jb) = jb_frame_count jb \<and> cv_dissect (co_vtable (jb_codec jb)) = None
     \<and> list_all (jb_frame_ok (jb_frame_size jb)) (jb_frames jb)
     \<and> (\<forall>i. jb_event_write_update jb = Some (Event_Frame i) \<longrightarrow> i < jb_frame_count jb)"

lemma jb_okD:
  assumes "jb_ok jb"
  shows "jb_frame_ts jb \<noteq> 0" "0 < unat (jb_frame_ts jb)" "0 < jb_frame_count jb" "0 < jb_frame_size jb"
    "length (jb_frames jb) = jb_frame_count jb" "cv_dissect (co_vtable (jb_codec jb)) = None" "jb_frame_count jb < 2 ^ 32"
    "i < jb_frame_count jb \<Longrightarrow> jb_frame_ok (jb_frame_size jb) (jb_frames jb ! i)"
  using assms by (auto simp: jb_ok_def list_all_length unat_gt_0)

text \<open>Operations that leave the frames, the sizes and the events alone.\<close>

lemma jb_ok_fields:
  "jb_ok (jb\<lparr>jb_write_sync := b\<rparr>) = jb_ok jb" "jb_ok (jb\<lparr>jb_write_ts_offset := t\<rparr>) = jb_ok jb"
  "jb_ok (jb\<lparr>jb_write_ts := t\<rparr>) = jb_ok jb" "jb_ok (jb\<lparr>jb_read_ts := t\<rparr>) = jb_ok jb"
  "jb_ok (jb\<lparr>jb_min_length_ts := t\<rparr>) = jb_ok jb" "jb_ok (jb\<lparr>jb_max_length_ts := t\<rparr>) = jb_ok jb"
  "jb_ok (jb\<lparr>jb_measurment_count := t\<rparr>) = jb_ok jb" "jb_ok (jb\<lparr>jb_playout_delay_ts := t\<rparr>) = jb_ok jb"
  "jb_ok (jb\<lparr>jb_event_write_base_ts := t\<rparr>) = jb_ok jb" "jb_ok (jb\<lparr>jb_event_write_base := e\<rparr>) = jb_ok jb"
  by (simp_all add: jb_ok_def)

lemma jb_ok_frame:
  assumes "jb_ok jb" "jb_frame_ok (jb_frame_size jb) f"
  shows "jb_ok (jb\<lparr>jb_frames := (jb_frames jb)[i := f]\<rparr>)"
  using assms set_update_subset_insert[of "jb_frames jb" i f] by (auto simp: jb_ok_def list_all_iff)

lemma frame_get_ok:
  assumes "jb_ok jb"
  obtains i where "mpf_jitter_buffer_frame_get jb ts = Some i" "i < jb_frame_count jb"
  using jb_okD[OF assms] by (auto simp: mpf_jitter_buffer_frame_get_def)

lemma prepare_ok:
  assumes "jb_ok jb"
  shows "\<exists>t jb1. mpf_jitter_buffer_write_prepare jb ts = Some (t, jb1) \<and> jb_ok jb1"
  using assms jb_okD(1)[OF assms] by (auto simp: mpf_jitter_buffer_write_prepare_def Let_def jb_ok_fields)

lemma late_write_ok:
  assumes "jb_ok jb"
  shows "jb_ok (snd (late_write jb ts t)) \<and> (case fst (late_write jb ts t) of None \<Rightarrow> True | Some (t1, jb1) \<Rightarrow> jb_ok jb1)"
  using assms by (simp add: late_write_def Let_def jb_ok_fields split: prod.split)

text \<open>One round of the loop that stores the frames of a packet.\<close>

definition frame_filled :: "nat \<Rightarrow> u8 list \<Rightarrow> mpf_frame \<Rightarrow> mpf_frame" where
  "frame_filled n bytes f =
     f\<lparr>mf_codec_frame := \<lparr>cf_buffer = bytes, cf_size = n\<rparr>, mf_type := mf_type f OR MEDIA_FRAME_TYPE_AUDIO\<rparr>"

lemma codec_frame_set: "cf\<lparr>cf_size := n, cf_buffer := b\<rparr> = \<lparr>cf_buffer = b, cf_size = n\<rparr>"
  by (cases cf) simp

lemma write_frames_round:
  assumes "jb_ok jb" "len \<le> length buffer" "jb_frame_size jb \<le> len" "mpf_jitter_buffer_frame_get jb t = Some i" "i < jb_frame_count jb"
  shows "write_frames (Suc a) buffer len t jb = write_frames a (drop (jb_frame_size jb) buffer) (len - jb_frame_size jb)
    (t + jb_frame_ts jb) (jb\<lparr>jb_frames := (jb_frames jb)[i := frame_filled (jb_frame_size jb) (take (jb_frame_size jb) buffer) (jb_frames jb ! i)]\<rparr>)"
  using assms jb_okD(8)[OF assms(1,5)] jb_okD(4,6)[OF assms(1)]
  by (simp add: mpf_codec_dissect_def Let_def jb_frame_ok_def frame_filled_def codec_frame_set)

lemma write_frames_ok:
  assumes "jb_ok jb" "len \<le> length buffer"
  shows "\<exists>t1 jb1. write_frames a buffer len t jb = Some (t1, jb1) \<and> jb_ok jb1"
  using assms
proof (induction a arbitrary: buffer len t jb)
  case 0
  then show ?case by simp
next
  case (Suc a)
  obtain i where i: "mpf_jitter_buffer_frame_get jb t = Some i" "i < jb_frame_count jb"
    using frame_get_ok[OF Suc.prems(1)] by blast
  let ?n = "jb_frame_size jb" and ?f = "jb_frames jb ! i"
  consider "len = 0" | "len \<noteq> 0" "len < ?n" | "?n \<le> len" by linarith
  then show ?case
  proof cases
    case 3
    have g: "jb_frame_ok ?n (frame_filled ?n (take ?n buffer) ?f)"
      using 3 Suc.prems(2) by (simp add: jb_frame_ok_def frame_filled_def)
    show ?thesis unfolding write_frames_round[OF Suc.prems 3 i]
      using Suc.IH[OF jb_ok_frame[OF Suc.prems(1) g], of "len - ?n" "drop ?n buffer"] Suc.prems(2) by simp
  next
    case 2
    have g: "jb_frame_ok ?n (?f\<lparr>mf_codec_frame := (mf_codec_frame ?f)\<lparr>cf_size := ?n\<rparr>\<rparr>)"
      using jb_okD(8)[OF Suc.prems(1) i(2)] by (simp add: jb_frame_ok_def)
    show ?thesis using 2 i jb_ok_frame[OF Suc.prems(1) g] jb_okD(6)[OF Suc.prems(1)]
      by (simp add: mpf_codec_dissect_def Let_def)
  qed (use Suc.prems in simp)
qed

lemma write_ok:
  assumes "jb_ok jb" "len \<le> length buffer"
  shows "\<exists>r jb1. mpf_jitter_buffer_write jb buffer len ts marker = Some (r, jb1) \<and> jb_ok jb1"
proof -
  let ?jb = "if marker \<and> jb_write_ts jb \<le> jb_read_ts jb then jb\<lparr>jb_write_sync := True\<rparr> else jb"
  have "jb_ok ?jb" using assms(1) by (simp add: jb_ok_fields)
  then obtain t jb2 where p: "mpf_jitter_buffer_write_prepare ?jb ts = Some (t, jb2)" "jb_ok jb2"
    using prepare_ok[of ?jb ts] by blast
  obtain placed jb3 where l: "(if jb_read_ts jb2 \<le> t then (Some (t, jb2), jb2)
      else if t < jb_write_ts jb2 then (None, jb2) else late_write jb2 ts t) = (placed, jb3)" by fastforce
  have o: "jb_ok jb3" "\<And>t1 jb4. placed = Some (t1, jb4) \<Longrightarrow> jb_ok jb4"
    using l p(2) late_write_ok[OF p(2), of ts t] by (auto split: if_splits option.splits)
  show ?thesis
  proof (cases placed)
    case None
    then show ?thesis using o(1) by (simp add: mpf_jitter_buffer_write_def Let_def p(1) l)
  next
    case (Some x)
    obtain t1 jb4 where x: "x = (t1, jb4)" by fastforce
    have 4: "jb_ok jb4" using o(2) Some x by blast
    show ?thesis
    proof (cases "size_t (int (jb_frame_count jb4) - int (unat ((t1 - jb_read_ts jb4) div jb_frame_ts jb4))) = 0")
      case True
      then show ?thesis using 4 by (simp add: mpf_jitter_buffer_write_def Let_def p(1) l Some x)
    next
      case False
      obtain t2 jb5 where w: "write_frames (size_t (int (jb_frame_count jb4) - int (unat ((t1 - jb_read_ts jb4) div jb_frame_ts jb4))))
          buffer len t1 jb4 = Some (t2, jb5)" "jb_ok jb5"
        using write_frames_ok[OF 4 assms(2)] by blast
      then show ?thesis using False by (simp add: mpf_jitter_buffer_write_def Let_def p(1) l Some x jb_ok_fields)
    qed
  qed
qed

lemma event_place_ok:
  assumes "jb_ok jb"
  shows "\<exists>r jb1. event_place jb ev t marker = Some (r, jb1) \<and> jb_ok jb1"
proof -
  obtain i where i: "mpf_jitter_buffer_frame_get jb t = Some i" "i < jb_frame_count jb"
    using frame_get_ok[OF assms] by blast
  let ?f = "jb_frames jb ! i"
  have f: "jb_frame_ok (jb_frame_size jb) (?f\<lparr>mf_event_frame := ev, mf_type := mf_type ?f OR 4, mf_marker := m\<rparr>)" for m
    using jb_okD(8)[OF assms i(2)] by (simp add: jb_frame_ok_def frame_type_bits bit_or_iff)
  have "jb_ok (jb\<lparr>jb_frames := (jb_frames jb)[i := ?f\<lparr>mf_event_frame := ev, mf_type := mf_type ?f OR 4, mf_marker := m\<rparr>],
      jb_event_write_update := Some (Event_Frame i)\<rparr>)" for m
    using jb_ok_frame[OF assms f[of m], of i] i(2) by (simp add: jb_ok_def)
  then show ?thesis by (simp add: event_place_def i(1) Let_def jb_ok_fields)
qed

lemma event_begin_ok: "jb_ok jb \<Longrightarrow> jb_ok (event_begin jb ev t)"
  by (simp add: event_begin_def jb_ok_def)

lemma event_store_ok:
  assumes "jb_ok jb"
  shows "\<exists>r jb1. event_store jb ev t marker = Some (r, jb1) \<and> jb_ok jb1"
  using assms event_place_ok[of jb] event_place_ok[of "jb\<lparr>jb_playout_delay_ts := x\<rparr>" for x]
    event_place_ok[of "jb\<lparr>jb_playout_delay_ts := x, jb_event_write_base_ts := y\<rparr>" for x y]
  by (simp add: event_store_def Let_def jb_ok_fields)

lemma event_write_ok:
  assumes "jb_ok jb"
  shows "\<exists>r jb1. mpf_jitter_buffer_event_write jb ev ts marker = Some (r, jb1) \<and> jb_ok jb1"
proof -
  obtain t jb1 where p: "mpf_jitter_buffer_write_prepare jb ts = Some (t, jb1)" "jb_ok jb1"
    using prepare_ok[OF assms] by blast
  obtain new jb2 where d: "event_detect jb1 ev t marker = (new, jb2)" by fastforce
  have 2: "jb_ok jb2" "new \<or> event_update jb2 \<noteq> None"
    using d p(2) event_begin_ok[OF p(2)]
    by (auto simp: event_detect_def event_update_def event_begin_def split: if_splits option.splits)
  show ?thesis
  proof (cases new)
    case True
    have "mpf_jitter_buffer_event_write jb ev ts marker = event_store (event_begin jb2 ev t) ev t True"
      using True by (simp add: mpf_jitter_buffer_event_write_def p(1) d)
    then show ?thesis using event_store_ok[OF event_begin_ok[OF 2(1)]] by metis
  next
    case False
    then obtain u where u: "event_update jb2 = Some u" using 2(2) by blast
    let ?ignore = "ne_duration ev < ne_duration u \<or> ne_duration ev = ne_duration u \<and> (ne_edge u \<or> ne_edge u = ne_edge ev)"
    have "mpf_jitter_buffer_event_write jb ev ts marker
        = (if ?ignore then Some (JB_OK, jb2) else event_store jb2 ev (t + ucast (ne_duration u)) False)"
      using False u by (simp add: mpf_jitter_buffer_event_write_def p(1) d)
    then show ?thesis using event_store_ok[OF 2(1)] 2(1) by (cases ?ignore) auto
  qed
qed

lemma read_ok:
  assumes "jb_ok jb" "jb_frame_size jb \<le> length (cf_buffer (mf_codec_frame mf))"
  shows "\<exists>f jb1. mpf_jitter_buffer_read jb mf = Some (f, jb1) \<and> jb_ok jb1
    \<and> length (cf_buffer (mf_codec_frame f)) = length (cf_buffer (mf_codec_frame mf))"
proof -
  obtain i where i: "mpf_jitter_buffer_frame_get jb (jb_read_ts jb) = Some i" "i < jb_frame_count jb"
    using frame_get_ok[OF assms(1)] by blast
  let ?f = "jb_frames jb ! i"
  have f: "length (cf_buffer (mf_codec_frame ?f)) = jb_frame_size jb" "is_audio ?f \<Longrightarrow> cf_size (mf_codec_frame ?f) = jb_frame_size jb"
    using jb_okD(8)[OF assms(1) i(2)] by (auto simp: jb_frame_ok_def)
  have "jb_frame_ok (jb_frame_size jb) (?f\<lparr>mf_type := 0, mf_marker := MPF_MARKER_NONE\<rparr>)"
    using f by (simp add: jb_frame_ok_def frame_type_bits)
  then have ok: "jb_ok (jb\<lparr>jb_frames := (jb_frames jb)[i := ?f\<lparr>mf_type := 0, mf_marker := MPF_MARKER_NONE\<rparr>],
      jb_read_ts := t\<rparr>)" for t
    using jb_ok_frame[OF assms(1)] by (simp add: jb_ok_fields)
  have stat: "jb_ok (mpf_jitter_buffer_stat_update jb1) = jb_ok jb1" for jb1
    by (simp add: mpf_jitter_buffer_stat_update_def Let_def jb_ok_fields)
  have a: "is_audio (mf\<lparr>mf_type := mf_type ?f, mf_marker := m\<rparr>) = is_audio ?f" for m by (simp add: is_audio_def)
  show ?thesis
    using i(1) f assms(2) ok by (auto simp: mpf_jitter_buffer_read_def Let_def a stat)
qed

lemma create_ok:
  assumes "0 < mpf_codec_frame_samples_calculate d" "0 < mpf_codec_frame_size_calculate d (co_attribs c)"
    and "case config of None \<Rightarrow> True | Some k \<Rightarrow> 10 \<le> jc_max_playout_delay k \<and> jc_initial_playout_delay k \<le> jc_max_playout_delay k"
    and "cv_dissect (co_vtable c) = None"
  shows "jb_ok (mpf_jitter_buffer_create fill e config d c)"
proof -
  let ?c = "jb_config_validate (case config of None \<Rightarrow> mpf_jb_config_init | Some k \<Rightarrow> k)"
  have m: "10 \<le> jc_max_playout_delay ?c"
    using assms(3) by (auto simp: jb_config_validate_def Let_def mpf_jb_config_init_def split: option.splits)
  have "unat (10 :: u32) div 10 \<le> unat (jc_max_playout_delay ?c) div 10"
    using m by (intro div_le_mono) (simp add: word_le_nat_alt)
  then have n: "0 < unat (jc_max_playout_delay ?c div 10)" by (simp add: unat_div)
  have "unat (cd_channel_count d) < 2 ^ 8" "unat (cd_sampling_rate d) < 2 ^ 16"
    using unsigned_less[of "cd_channel_count d", where 'a = nat] unsigned_less[of "cd_sampling_rate d", where 'a = nat] by simp_all
  then have "unat (cd_channel_count d) * CODEC_FRAME_TIME_BASE * unat (cd_sampling_rate d) \<le> 2 ^ 8 * 10 * 2 ^ 16"
    unfolding CODEC_FRAME_TIME_BASE_def by (intro mult_le_mono) auto
  then have "mpf_codec_frame_samples_calculate d \<le> 2 ^ 8 * 10 * 2 ^ 16 div 1000"
    unfolding mpf_codec_frame_samples_calculate_def by (rule div_le_mono)
  then have s: "(word_of_nat (mpf_codec_frame_samples_calculate d) :: u32) \<noteq> 0"
    using assms(1) by (simp add: word_of_nat_eq_0_iff nat_dvd_not_less)
  have "unat (jc_max_playout_delay ?c div 10) < 2 ^ 32" using unsigned_less[of "jc_max_playout_delay ?c div 10", where 'a = nat] by simp
  then show ?thesis using n s assms(2,4)
    by (simp add: mpf_jitter_buffer_create_def Let_def jb_ok_def jb_frame_ok_def is_audio_def list_all_iff)
qed

text \<open>
  C13: In a well-formed jitter buffer writing, storing an event and reading always return, touch no
  memory outside the buffers, and leave the buffer well-formed, whatever the timestamp.
\<close>

theorem jitter_buffer_well_formed:
  assumes "jb_ok jb" and "len \<le> length buffer" and "jb_frame_size jb \<le> length (cf_buffer (mf_codec_frame mf))"
  shows "(\<exists>r jb1. mpf_jitter_buffer_write jb buffer len ts marker = Some (r, jb1) \<and> jb_ok jb1)
    \<and> (\<exists>r jb1. mpf_jitter_buffer_event_write jb ev ts marker = Some (r, jb1) \<and> jb_ok jb1)
    \<and> (\<exists>f jb1. mpf_jitter_buffer_read jb mf = Some (f, jb1) \<and> jb_ok jb1)
    \<and> jb_ok (mpf_jitter_buffer_restart jb)"
proof (intro conjI)
  show "jb_ok (mpf_jitter_buffer_restart jb)"
    using assms(1) by (simp add: mpf_jitter_buffer_restart_def Let_def jb_ok_def)
  show "\<exists>f jb1. mpf_jitter_buffer_read jb mf = Some (f, jb1) \<and> jb_ok jb1" using read_ok[OF assms(1,3)] by blast
qed (use write_ok[OF assms(1,2)] event_write_ok[OF assms(1)] in auto)

section \<open>Slots\<close>

text \<open>
  The buffer as a sequence of slots: slot \<open>r\<close> is read next, \<open>w\<close> is the first one behind all
  that were written, and \<open>m\<close> says what each slot holds. The timestamps of the slots stay below
  \<open>2 ^ 32\<close>.
\<close>

abbreviation (input) jb_unit :: "jitter_buffer \<Rightarrow> nat" where
  "jb_unit jb \<equiv> unat (jb_frame_ts jb)"

definition slot_holds :: "jitter_buffer \<Rightarrow> nat \<Rightarrow> u8 list option \<Rightarrow> bool" where
  "slot_holds jb s x \<longleftrightarrow>
     (let f = jb_frames jb ! (s mod jb_frame_count jb) in
      case x of
        None \<Rightarrow> mf_type f = MEDIA_FRAME_TYPE_NONE
      | Some bytes \<Rightarrow> mf_type f = MEDIA_FRAME_TYPE_AUDIO \<and> mf_codec_frame f = \<lparr>cf_buffer = bytes, cf_size = jb_frame_size jb\<rparr>)"

definition window_holds :: "jitter_buffer \<Rightarrow> nat \<Rightarrow> (nat \<Rightarrow> u8 list option) \<Rightarrow> bool" where
  "window_holds jb r m \<longleftrightarrow> (\<forall>s. r \<le> s \<and> s < r + jb_frame_count jb \<longrightarrow> slot_holds jb s (m s))"

definition jb_slots :: "jitter_buffer \<Rightarrow> nat \<Rightarrow> nat \<Rightarrow> (nat \<Rightarrow> u8 list option) \<Rightarrow> bool" where
  "jb_slots jb r w m \<longleftrightarrow> jb_ok jb \<and> unat (jb_read_ts jb) = r * jb_unit jb \<and> unat (jb_write_ts jb) = w * jb_unit jb
     \<and> w \<le> r + jb_frame_count jb \<and> window_holds jb r m \<and> (\<forall>s. w \<le> s \<longrightarrow> m s = None)"

lemma slot_index:
  assumes "jb_ok jb" "unat t = s * jb_unit jb"
  shows "mpf_jitter_buffer_frame_get jb t = Some (s mod jb_frame_count jb)"
  using jb_okD[OF assms(1)] assms(2) by (simp add: mpf_jitter_buffer_frame_get_def)

lemma slot_add:
  assumes "unat t = s * jb_unit jb" "Suc s * jb_unit jb < 2 ^ 32"
  shows "unat (t + jb_frame_ts jb) = Suc s * jb_unit jb"
proof -
  have "unat (t + jb_frame_ts jb) = (unat t + jb_unit jb) mod 2 ^ 32" by (simp only: unat_word_ariths) simp
  also have "unat t + jb_unit jb = Suc s * jb_unit jb" unfolding assms(1) by simp
  finally show ?thesis using assms(2) by (simp only: mod_less)
qed

lemma window_update:
  assumes "jb_ok jb" "window_holds jb r m" "r \<le> s" "s < r + jb_frame_count jb" "length bytes = jb_frame_size jb"
  defines "i \<equiv> s mod jb_frame_count jb"
  defines "jb1 \<equiv> jb\<lparr>jb_frames := (jb_frames jb)[i := frame_filled (jb_frame_size jb) bytes (jb_frames jb ! i)]\<rparr>"
  shows "jb_ok jb1" "window_holds jb1 r (m(s := Some bytes))"
proof -
  have i: "i < jb_frame_count jb" using jb_okD(3)[OF assms(1)] by (simp add: i_def)
  have "jb_frame_ok (jb_frame_size jb) (frame_filled (jb_frame_size jb) bytes (jb_frames jb ! i))"
    using assms(5) by (simp add: jb_frame_ok_def frame_filled_def)
  then show "jb_ok jb1" using jb_ok_frame[OF assms(1)] by (simp add: jb1_def)
  have "slot_holds jb s (m s)" using assms(2-4) by (simp add: window_holds_def)
  then have "mf_type (jb_frames jb ! i) OR 1 = 1" by (auto simp: slot_holds_def Let_def i_def split: option.splits)
  then have "slot_holds jb1 s (Some bytes)"
    using i jb_okD(5)[OF assms(1)] by (simp add: slot_holds_def jb1_def i_def frame_filled_def)
  moreover have "slot_holds jb1 t (m t)" if "r \<le> t" "t < r + jb_frame_count jb" "t \<noteq> s" for t
  proof -
    have "t mod jb_frame_count jb \<noteq> i" using window_mod[OF that(1,2) assms(3,4)] that(3) by (auto simp: i_def)
    then have "slot_holds jb1 t (m t) = slot_holds jb t (m t)"
      by (simp add: slot_holds_def jb1_def Let_def split: option.split)
    then show ?thesis using assms(2) that(1,2) by (simp add: window_holds_def)
  qed
  ultimately show "window_holds jb1 r (m(s := Some bytes))"
    unfolding window_holds_def by (simp add: jb1_def)
qed

lemma write_frames_empty [simp]: "write_frames a buffer 0 t jb = Some (t, jb)"
  by (cases a) simp_all

text \<open>The slots after the frames \<open>fs\<close> are written from slot \<open>s\<close> on.\<close>

definition slots_written :: "nat \<Rightarrow> u8 list list \<Rightarrow> (nat \<Rightarrow> u8 list option) \<Rightarrow> nat \<Rightarrow> u8 list option" where
  "slots_written s fs m = (\<lambda>i. if s \<le> i \<and> i < s + length fs then Some (fs ! (i - s)) else m i)"

lemma slots_written_Cons: "slots_written s (f # fs) m = slots_written (Suc s) fs (m(s := Some f))"
proof
  fix i
  show "slots_written s (f # fs) m i = slots_written (Suc s) fs (m(s := Some f)) i"
    by (cases "i = s") (auto simp: slots_written_def nth_Cons' Suc_diff_Suc)
qed

lemma slots_written_Nil [simp]: "slots_written s [] m = m"
  by (rule ext) (auto simp: slots_written_def)

lemma write_frames_slots:
  assumes "jb_ok jb" "window_holds jb r m" "unat t = s * jb_unit jb" "r \<le> s" "s + length fs \<le> r + jb_frame_count jb"
    "(s + length fs) * jb_unit jb < 2 ^ 32" "list_all (\<lambda>f. length f = jb_frame_size jb) fs" "length fs \<le> a"
  shows "\<exists>t1 frs. write_frames a (concat fs) (length (concat fs)) t jb = Some (t1, jb\<lparr>jb_frames := frs\<rparr>)
    \<and> unat t1 = (s + length fs) * jb_unit jb \<and> jb_ok (jb\<lparr>jb_frames := frs\<rparr>)
    \<and> window_holds (jb\<lparr>jb_frames := frs\<rparr>) r (slots_written s fs m)"
  using assms
proof (induction fs arbitrary: jb m t s a)
  case Nil
  then show ?case by (intro exI[of _ t] exI[of _ "jb_frames jb"]) simp
next
  case (Cons f fs)
  obtain a' where a: "a = Suc a'" using Cons.prems(8) by (cases a) auto
  let ?n = "jb_frame_size jb" and ?i = "s mod jb_frame_count jb"
  have f: "length f = ?n" and s: "s < r + jb_frame_count jb" using Cons.prems by auto
  let ?jb = "jb\<lparr>jb_frames := (jb_frames jb)[?i := frame_filled ?n f (jb_frames jb ! ?i)]\<rparr>"
  note u = window_update[OF Cons.prems(1,2,4) s f]
  have i: "?i < jb_frame_count jb" using jb_okD(3)[OF Cons.prems(1)] by simp
  have round: "write_frames a (concat (f # fs)) (length (concat (f # fs))) t jb
      = write_frames a' (concat fs) (length (concat fs)) (t + jb_frame_ts jb) ?jb"
    using write_frames_round[OF Cons.prems(1) _ _ slot_index[OF Cons.prems(1,3)] i, of "length (concat (f # fs))" "concat (f # fs)" a'] f
    by (simp add: a)
  have "Suc s * jb_unit jb \<le> (s + length (f # fs)) * jb_unit jb" by (intro mult_right_mono) auto
  then have t: "unat (t + jb_frame_ts jb) = Suc s * jb_unit jb" using Cons.prems(6) by (intro slot_add[OF Cons.prems(3)]) (rule le_less_trans)
  show ?case
    using Cons.IH[of ?jb "m(s := Some f)" "t + jb_frame_ts jb" "Suc s" a'] u t Cons.prems a
    unfolding round slots_written_Cons by fastforce
qed

lemma allign_unat:
  assumes "jb_frame_ts jb \<noteq> 0"
  shows "unat (mpf_jitter_buffer_frame_allign jb x) = unat x div jb_unit jb * jb_unit jb"
proof -
  have "unat (x - x mod jb_frame_ts jb) = unat x - unat x mod jb_unit jb"
    by (subst unat_sub) (simp_all add: unat_mod word_le_nat_alt)
  moreover have "unat x mod jb_unit jb = 0" if "x mod jb_frame_ts jb = 0" using that by (metis unat_0 unat_mod)
  ultimately show ?thesis
    using minus_mod_eq_div_mult[of "unat x" "jb_unit jb"]
    by (cases "x mod jb_frame_ts jb = 0") (simp_all add: mpf_jitter_buffer_frame_allign_def)
qed

text \<open>The slot of a timestamp once the buffer is synchronised.\<close>

definition slot_of :: "jitter_buffer \<Rightarrow> u32 \<Rightarrow> nat" where
  "slot_of jb ts = unat (ts - jb_write_ts_offset jb + jb_playout_delay_ts jb) div jb_unit jb"

text \<open>A synchronised buffer, with the slots it holds; the packets of one stream have an offset.\<close>

lemma prepare_slot:
  assumes "jb_ok jb" "\<not> jb_write_sync jb"
  shows "\<exists>t. mpf_jitter_buffer_write_prepare jb ts = Some (t, jb) \<and> unat t = slot_of jb ts * jb_unit jb"
  using assms jb_okD(1)[OF assms(1)] allign_unat
  by (simp add: mpf_jitter_buffer_write_prepare_def Let_def slot_of_def)

lemma available_slots:
  assumes "jb_ok jb" "unat t = s * jb_unit jb" "unat (jb_read_ts jb) = r * jb_unit jb" "r \<le> s"
  shows "jb_read_ts jb \<le> t" "unat ((t - jb_read_ts jb) div jb_frame_ts jb) = s - r"
proof -
  show le: "jb_read_ts jb \<le> t" using assms(2-4) by (simp add: word_le_nat_alt)
  have "unat (t - jb_read_ts jb) = (s - r) * jb_unit jb"
    using assms(2,3) unat_sub[OF le] by (simp add: diff_mult_distrib)
  then show "unat ((t - jb_read_ts jb) div jb_frame_ts jb) = s - r"
    using jb_okD(2)[OF assms(1)] by (simp add: unat_div)
qed

lemma write_slot:
  assumes slots: "jb_slots jb r w m" and sync: "\<not> jb_write_sync jb" and s: "r \<le> slot_of jb ts"
    and fs: "fs \<noteq> []" "list_all (\<lambda>f. length f = jb_frame_size jb) fs" "slot_of jb ts + length fs \<le> r + jb_frame_count jb"
    and lim: "(r + jb_frame_count jb) * jb_unit jb < 2 ^ 32"
  shows "\<exists>jb1 frs t. mpf_jitter_buffer_write jb (concat fs) (length (concat fs)) ts False = Some (JB_OK, jb1)
    \<and> jb1 = jb\<lparr>jb_frames := frs, jb_write_ts := t\<rparr>
    \<and> jb_slots jb1 r (max w (slot_of jb ts + length fs)) (slots_written (slot_of jb ts) fs m)"
proof -
  let ?s = "slot_of jb ts" and ?c = "jb_frame_count jb" and ?u = "jb_unit jb"
  have ok: "jb_ok jb" and rd: "unat (jb_read_ts jb) = r * ?u" and wr: "unat (jb_write_ts jb) = w * ?u"
    and w: "w \<le> r + ?c" "window_holds jb r m" "\<And>i. w \<le> i \<Longrightarrow> m i = None"
    using slots by (auto simp: jb_slots_def)
  obtain t where t: "mpf_jitter_buffer_write_prepare jb ts = Some (t, jb)" "unat t = ?s * ?u"
    using prepare_slot[OF ok sync] by blast
  note av = available_slots[OF ok t(2) rd s]
  have n: "0 < length fs" using fs(1) by simp
  have e: "int ?c - int (?s - r) = int (?c - (?s - r))" using fs(3) s by simp
  have "?c - (?s - r) < 2 ^ 64" using le_less_trans[OF diff_le_self jb_okD(7)[OF ok]] by (rule less_trans) simp
  then have a: "size_t (int ?c - int (unat ((t - jb_read_ts jb) div jb_frame_ts jb))) = ?c - (?s - r)"
    unfolding av(2) e by (rule size_t_id)
  then have a': "size_t (int ?c - uint ((t - jb_read_ts jb) div jb_frame_ts jb)) = ?c - (?s - r)" by simp
  have a0: "?c - (?s - r) \<noteq> 0" "length fs \<le> ?c - (?s - r)" using fs(3) s n by linarith+
  have "(?s + length fs) * ?u \<le> (r + ?c) * ?u" using fs(3) by (intro mult_right_mono) auto
  then have l: "(?s + length fs) * ?u < 2 ^ 32" using lim by (rule le_less_trans)
  obtain t1 frs where wf: "write_frames (?c - (?s - r)) (concat fs) (length (concat fs)) t jb = Some (t1, jb\<lparr>jb_frames := frs\<rparr>)"
      "unat t1 = (?s + length fs) * ?u" "jb_ok (jb\<lparr>jb_frames := frs\<rparr>)"
      "window_holds (jb\<lparr>jb_frames := frs\<rparr>) r (slots_written ?s fs m)"
    using write_frames_slots[OF ok w(2) t(2) s fs(3) l fs(2) a0(2)] by blast
  let ?t = "if jb_write_ts jb < t1 then t1 else jb_write_ts jb"
  let ?jb = "jb\<lparr>jb_frames := frs, jb_write_ts := ?t\<rparr>"
  have same: "(jb\<lparr>jb_frames := frs\<rparr>)\<lparr>jb_write_ts := jb_write_ts jb\<rparr> = jb\<lparr>jb_frames := frs\<rparr>" by (cases jb) simp
  have res: "mpf_jitter_buffer_write jb (concat fs) (length (concat fs)) ts False = Some (JB_OK, ?jb)"
    unfolding mpf_jitter_buffer_write_def Let_def using a0(1)
    by (simp add: t(1) av(1) a' wf(1) same)
  have u: "0 < ?u" by (rule jb_okD(2)[OF ok])
  have "unat ?t = max w (?s + length fs) * ?u"
    using wr wf(2) u by (auto simp: word_less_nat_alt max_def)
  moreover have "slots_written ?s fs m i = None" if "max w (?s + length fs) \<le> i" for i
    using that w(3) by (simp add: slots_written_def)
  moreover have "slot_holds ?jb i x = slot_holds (jb\<lparr>jb_frames := frs\<rparr>) i x" for i x
    by (simp add: slot_holds_def Let_def split: option.split)
  then have "window_holds ?jb r (slots_written ?s fs m)" using wf(4) by (simp add: window_holds_def)
  moreover have "jb_ok ?jb" using wf(3) by (simp add: jb_ok_fields)
  ultimately have "jb_slots ?jb r (max w (?s + length fs)) (slots_written ?s fs m)"
    using rd w(1) fs(3) by (simp add: jb_slots_def)
  with res show ?thesis by blast
qed

text \<open>What stays the same over reads and writes of a stream.\<close>

definition jb_stream :: "jitter_buffer \<Rightarrow> bool \<times> u32 \<times> u32 \<times> u32 \<times> nat \<times> nat" where
  "jb_stream jb = (jb_write_sync jb, jb_write_ts_offset jb, jb_playout_delay_ts jb, jb_frame_ts jb, jb_frame_count jb, jb_frame_size jb)"

lemma slot_of_stream: "jb_stream jb1 = jb_stream jb \<Longrightarrow> slot_of jb1 ts = slot_of jb ts"
  by (simp add: jb_stream_def slot_of_def)

lemma stat_update_fields:
  "jb_frames (mpf_jitter_buffer_stat_update jb) = jb_frames jb"
  "jb_frame_count (mpf_jitter_buffer_stat_update jb) = jb_frame_count jb"
  "jb_frame_ts (mpf_jitter_buffer_stat_update jb) = jb_frame_ts jb"
  "jb_frame_size (mpf_jitter_buffer_stat_update jb) = jb_frame_size jb"
  "jb_read_ts (mpf_jitter_buffer_stat_update jb) = jb_read_ts jb"
  "jb_write_ts (mpf_jitter_buffer_stat_update jb) = jb_write_ts jb"
  "jb_stream (mpf_jitter_buffer_stat_update jb) = jb_stream jb"
  "jb_ok (mpf_jitter_buffer_stat_update jb) = jb_ok jb"
  by (simp_all add: mpf_jitter_buffer_stat_update_def Let_def jb_stream_def jb_ok_fields)

lemma stat_update_slots: "jb_slots (mpf_jitter_buffer_stat_update jb) r w m = jb_slots jb r w m"
  by (simp add: jb_slots_def window_holds_def slot_holds_def stat_update_fields Let_def cong: option.case_cong)

lemma read_slot:
  assumes slots: "jb_slots jb r w m" and len: "jb_frame_size jb \<le> length (cf_buffer (mf_codec_frame mf))"
    and lim: "Suc r * jb_unit jb < 2 ^ 32"
  shows "\<exists>f jb1. mpf_jitter_buffer_read jb mf = Some (f, jb1) \<and> frame_audio f = m r
    \<and> length (cf_buffer (mf_codec_frame f)) = length (cf_buffer (mf_codec_frame mf))
    \<and> jb_slots jb1 (Suc r) w m \<and> jb_stream jb1 = jb_stream jb"
proof -
  let ?c = "jb_frame_count jb" and ?u = "jb_unit jb"
  have ok: "jb_ok jb" and rd: "unat (jb_read_ts jb) = r * ?u" and wr: "unat (jb_write_ts jb) = w * ?u"
    and w: "w \<le> r + ?c" "window_holds jb r m" "\<And>i. w \<le> i \<Longrightarrow> m i = None"
    using slots by (auto simp: jb_slots_def)
  have c: "0 < ?c" "0 < ?u" by (rule jb_okD[OF ok])+
  define i where "i = r mod ?c"
  have i: "i < ?c" using c(1) by (simp add: i_def)
  let ?f = "jb_frames jb ! i" and ?clear = "\<lambda>f. f\<lparr>mf_type := 0, mf_marker := MPF_MARKER_NONE\<rparr>"
  define jb1 where "jb1 = jb\<lparr>jb_frames := (jb_frames jb)[i := ?clear ?f], jb_read_ts := jb_read_ts jb + jb_frame_ts jb\<rparr>"
  have h: "slot_holds jb r (m r)" using w(2) c(1) by (simp add: window_holds_def)
  have fo: "jb_frame_ok (jb_frame_size jb) ?f" using jb_okD(8)[OF ok i] .
  have gt: "jb_read_ts jb < jb_write_ts jb \<longleftrightarrow> r < w" using rd wr c(2) by (simp add: word_less_nat_alt)
  have "\<exists>f. mpf_jitter_buffer_read jb mf = Some (f, if jc_time_skew_detection (jb_config jb1) then mpf_jitter_buffer_stat_update jb1 else jb1)
      \<and> frame_audio f = m r \<and> length (cf_buffer (mf_codec_frame f)) = length (cf_buffer (mf_codec_frame mf))"
    using h fo len w(3)[of r] slot_index[OF ok rd]
    by (auto simp: mpf_jitter_buffer_read_def Let_def gt jb1_def i_def[symmetric] slot_holds_def jb_frame_ok_def
        frame_audio_def is_audio_def is_event_def split: option.splits)
  moreover have "jb_slots jb1 (Suc r) w m"
  proof -
    have "jb_ok jb1" using jb_ok_frame[OF ok, of "?clear ?f" i] fo
      by (simp add: jb1_def jb_ok_fields jb_frame_ok_def is_audio_def)
    moreover have "unat (jb_read_ts jb1) = Suc r * ?u" using slot_add[OF rd lim] by (simp add: jb1_def)
    moreover have "window_holds jb1 (Suc r) m" unfolding window_holds_def
    proof (intro allI impI)
      fix s assume s: "Suc r \<le> s \<and> s < Suc r + jb_frame_count jb1"
      show "slot_holds jb1 s (m s)"
      proof (cases "s = r + ?c")
        case True
        then show ?thesis using w(1) w(3)[of s] i jb_okD(5)[OF ok] by (simp add: slot_holds_def jb1_def i_def)
      next
        case False
        then have s': "r \<le> s" "s < r + ?c" "s \<noteq> r" using s by (auto simp: jb1_def)
        then have "s mod ?c \<noteq> i" using window_mod[of r s ?c r] c(1) by (auto simp: i_def)
        then have "slot_holds jb1 s (m s) = slot_holds jb s (m s)"
          by (simp add: slot_holds_def jb1_def Let_def split: option.split)
        then show ?thesis using w(2) s' by (simp add: window_holds_def)
      qed
    qed
    ultimately show ?thesis using wr w by (simp add: jb_slots_def jb1_def)
  qed
  moreover have "jb_stream jb1 = jb_stream jb" by (simp add: jb_stream_def jb1_def)
  ultimately show ?thesis by (auto simp: stat_update_slots stat_update_fields)
qed

section \<open>Playing a stream\<close>

text \<open>
  The packets of a stream and the reads of the player, in the order they reach the buffer. A packet
  is the list of its frames; the player reuses one frame for all its reads.
\<close>

datatype jb_op = JB_Write u32 "u8 list list" | JB_Read

fun jb_run :: "jb_op list \<Rightarrow> mpf_frame \<Rightarrow> jitter_buffer \<Rightarrow> (mpf_frame list \<times> jitter_buffer) option" where
  "jb_run [] mf jb = Some ([], jb)"
| "jb_run (JB_Write ts fs # ops) mf jb = do {
     (r, jb1) \<leftarrow> mpf_jitter_buffer_write jb (concat fs) (length (concat fs)) ts False;
     jb_run ops mf jb1
   }"
| "jb_run (JB_Read # ops) mf jb = do {
     (f, jb1) \<leftarrow> mpf_jitter_buffer_read jb mf;
     (frames, jb2) \<leftarrow> jb_run ops f jb1;
     Some (f # frames, jb2)
   }"

text \<open>The specification: a line of slots, where a packet takes its place by its timestamp.\<close>

fun playout :: "(u32 \<Rightarrow> nat) \<Rightarrow> jb_op list \<Rightarrow> nat \<Rightarrow> (nat \<Rightarrow> u8 list option) \<Rightarrow> u8 list option list" where
  "playout slot [] r m = []"
| "playout slot (JB_Write ts fs # ops) r m = playout slot ops r (slots_written (slot ts) fs m)"
| "playout slot (JB_Read # ops) r m = m r # playout slot ops (Suc r) m"

text \<open>Packets of whole frames of \<open>n\<close> bytes that are neither late nor too early for \<open>c\<close> frames.\<close>

fun in_time :: "(u32 \<Rightarrow> nat) \<Rightarrow> nat \<Rightarrow> nat \<Rightarrow> jb_op list \<Rightarrow> nat \<Rightarrow> bool" where
  "in_time slot n c [] r = True"
| "in_time slot n c (JB_Write ts fs # ops) r =
     (r \<le> slot ts \<and> slot ts + length fs \<le> r + c \<and> fs \<noteq> [] \<and> list_all (\<lambda>f. length f = n) fs \<and> in_time slot n c ops r)"
| "in_time slot n c (JB_Read # ops) r = in_time slot n c ops (Suc r)"

abbreviation (input) reads :: "jb_op list \<Rightarrow> nat" where
  "reads ops \<equiv> count_list ops JB_Read"

lemma run_slots:
  assumes "jb_slots jb r w m" "\<not> jb_write_sync jb" "in_time (slot_of jb) (jb_frame_size jb) (jb_frame_count jb) ops r"
    and "jb_frame_size jb \<le> length (cf_buffer (mf_codec_frame mf))"
    and "(r + reads ops + jb_frame_count jb) * jb_unit jb < 2 ^ 32"
  shows "\<exists>frames jb1. jb_run ops mf jb = Some (frames, jb1) \<and> map frame_audio frames = playout (slot_of jb) ops r m"
  using assms
proof (induction ops arbitrary: jb r w m mf)
  case Nil
  then show ?case by simp
next
  case (Cons op ops)
  have same: "slot_of jb1 = slot_of jb" "jb_frame_size jb1 = jb_frame_size jb" "jb_frame_count jb1 = jb_frame_count jb"
      "jb_frame_ts jb1 = jb_frame_ts jb" "jb_write_sync jb1 = jb_write_sync jb" if "jb_stream jb1 = jb_stream jb" for jb1
    using that slot_of_stream[OF that] by (auto simp: jb_stream_def)
  have lim: "x * jb_unit jb < 2 ^ 32" if "x \<le> r + reads (op # ops) + jb_frame_count jb" for x
    using le_less_trans[OF mult_right_mono[OF that] Cons.prems(5)] by simp
  show ?case
  proof (cases op)
    case (JB_Write ts fs)
    obtain jb1 frs t where w: "mpf_jitter_buffer_write jb (concat fs) (length (concat fs)) ts False = Some (JB_OK, jb1)"
        "jb1 = jb\<lparr>jb_frames := frs, jb_write_ts := t\<rparr>"
        "jb_slots jb1 r (max w (slot_of jb ts + length fs)) (slots_written (slot_of jb ts) fs m)"
      using write_slot[OF Cons.prems(1,2), of ts fs] Cons.prems(3) lim[of "r + jb_frame_count jb"]
      by (auto simp: JB_Write)
    have "jb_stream jb1 = jb_stream jb" by (simp add: w(2) jb_stream_def)
    note s = same[OF this]
    show ?thesis using Cons.IH[OF w(3), of mf] Cons.prems(2-5) w(1) by (simp add: JB_Write s)
  next
    case JB_Read
    have c: "0 < jb_frame_count jb" using Cons.prems(1) jb_okD(3) by (auto simp: jb_slots_def)
    obtain f jb1 where w: "mpf_jitter_buffer_read jb mf = Some (f, jb1)" "frame_audio f = m r"
        "length (cf_buffer (mf_codec_frame f)) = length (cf_buffer (mf_codec_frame mf))"
        "jb_slots jb1 (Suc r) w m" "jb_stream jb1 = jb_stream jb"
      using read_slot[OF Cons.prems(1,4) lim[of "Suc r"]] c by (auto simp: JB_Read)
    note s = same[OF w(5)]
    show ?thesis using Cons.IH[OF w(4), of f] Cons.prems(2-5) w(1-3) by (fastforce simp: JB_Read s)
  qed
qed

text \<open>The first packet synchronises a buffer.\<close>

definition jb_synced :: "jitter_buffer \<Rightarrow> u32 \<Rightarrow> jitter_buffer" where
  "jb_synced jb ts =
     (let jb1 = jb\<lparr>jb_write_ts_offset := ts - jb_read_ts jb, jb_write_sync := False\<rparr>
      in if jc_time_skew_detection (jb_config jb)
         then jb1\<lparr>jb_min_length_ts := jb_playout_delay_ts jb, jb_max_length_ts := jb_playout_delay_ts jb, jb_measurment_count := 0\<rparr>
         else jb1)"

lemma write_synced:
  assumes "jb_write_sync jb"
  shows "mpf_jitter_buffer_write jb b len ts False = mpf_jitter_buffer_write (jb_synced jb ts) b len ts False"
proof -
  have "mpf_jitter_buffer_write_prepare jb ts = mpf_jitter_buffer_write_prepare (jb_synced jb ts) ts"
    using assms by (simp add: mpf_jitter_buffer_write_prepare_def jb_synced_def Let_def)
  then show ?thesis by (simp add: mpf_jitter_buffer_write_def)
qed

lemma synced_fields:
  "jb_write_sync (jb_synced jb ts) = False" "jb_frame_ts (jb_synced jb ts) = jb_frame_ts jb"
  "jb_frame_count (jb_synced jb ts) = jb_frame_count jb" "jb_frame_size (jb_synced jb ts) = jb_frame_size jb"
  "jb_frames (jb_synced jb ts) = jb_frames jb" "jb_read_ts (jb_synced jb ts) = jb_read_ts jb"
  "jb_write_ts (jb_synced jb ts) = jb_write_ts jb" "jb_ok (jb_synced jb ts) = jb_ok jb"
  by (simp_all add: jb_synced_def Let_def jb_ok_fields)

lemma synced_slots: "jb_slots (jb_synced jb ts) r w m = jb_slots jb r w m"
  by (simp add: jb_slots_def window_holds_def slot_holds_def synced_fields Let_def cong: option.case_cong)

lemma synced_slot_of:
  "slot_of (jb_synced jb ts0) ts = unat (ts - (ts0 - jb_read_ts jb) + jb_playout_delay_ts jb) div jb_unit jb"
  by (simp add: slot_of_def jb_synced_def Let_def)

lemma create_slots:
  assumes "jb_ok (mpf_jitter_buffer_create fill e config d c)"
  shows "jb_slots (mpf_jitter_buffer_create fill e config d c) 0 0 (\<lambda>_. None)"
  using assms by (simp add: jb_slots_def window_holds_def slot_holds_def Let_def jb_ok_def)
    (simp add: mpf_jitter_buffer_create_def Let_def)

text \<open>The slot of a packet of a stream that began at \<open>ts0\<close> with an empty buffer.\<close>

definition stream_slot :: "jitter_buffer \<Rightarrow> u32 \<Rightarrow> u32 \<Rightarrow> nat" where
  "stream_slot jb ts0 ts = unat (ts - ts0 + jb_playout_delay_ts jb) div unat (jb_frame_ts jb)"

text \<open>
  C9: A new buffer plays a stream in the order of its timestamps: as long as no packet is late or
  too early, the frames the player reads are those of a line of slots, in which the first packet
  stands the playout delay behind the start, each packet as far behind it as its timestamp says
  whatever the order the packets arrive in, and a slot no packet fills is silent.
\<close>

theorem jitter_buffer_playout:
  assumes "0 < mpf_codec_frame_samples_calculate d" and "0 < mpf_codec_frame_size_calculate d (co_attribs c)"
    and "cv_dissect (co_vtable c) = None"
    and "case config of None \<Rightarrow> True | Some k \<Rightarrow> 10 \<le> jc_max_playout_delay k \<and> jc_initial_playout_delay k \<le> jc_max_playout_delay k"
    and "jb = mpf_jitter_buffer_create fill e config d c"
    and "in_time (stream_slot jb ts0) (jb_frame_size jb) (jb_frame_count jb) (JB_Write ts0 fs0 # ops) 0"
    and "jb_frame_size jb \<le> length (cf_buffer (mf_codec_frame mf))"
    and "(reads ops + jb_frame_count jb) * jb_unit jb < 2 ^ 32"
  shows "\<exists>frames jb1. jb_run (JB_Write ts0 fs0 # ops) mf jb = Some (frames, jb1)
    \<and> map frame_audio frames = playout (stream_slot jb ts0) (JB_Write ts0 fs0 # ops) 0 (\<lambda>_. None)"
proof -
  have ok: "jb_ok jb" using create_ok[OF assms(1,2,4,3)] by (simp add: assms(5))
  let ?jb = "jb_synced jb ts0"
  have r: "jb_read_ts jb = 0" "jb_write_sync jb" by (simp_all add: assms(5) mpf_jitter_buffer_create_def Let_def)
  have slot: "slot_of ?jb = stream_slot jb ts0" by (rule ext) (simp add: synced_slot_of stream_slot_def r)
  have slots: "jb_slots ?jb 0 0 (\<lambda>_. None)" using create_slots ok by (simp add: synced_slots assms(5))
  have "jb_run (JB_Write ts0 fs0 # ops) mf jb = jb_run (JB_Write ts0 fs0 # ops) mf ?jb"
    using write_synced[OF r(2)] by simp
  then show ?thesis
    using run_slots[OF slots, of "JB_Write ts0 fs0 # ops" mf] assms(6-8) by (simp add: slot synced_fields)
qed

lemma playout_length: "length (playout slot ops r m) = reads ops"
  by (induction slot ops r m rule: playout.induct) simp_all

text \<open>What stands in a slot is played when the slot is reached, unless another packet takes the slot.\<close>

lemma playout_slot:
  assumes "r \<le> i" "i < r + reads ops"
    and "\<And>ts fs. JB_Write ts fs \<in> set ops \<Longrightarrow> i < slot ts \<or> slot ts + length fs \<le> i"
  shows "playout slot ops r m ! (i - r) = m i"
  using assms
proof (induction slot ops r m rule: playout.induct)
  case (2 slot ts fs ops r m)
  have "slots_written (slot ts) fs m i = m i" using 2(4)[of ts fs] by (auto simp: slots_written_def)
  then show ?case using 2 by simp
next
  case (3 slot ops r m)
  then show ?case by (cases "i = r") (auto simp: nth_Cons' Suc_diff_Suc)
qed simp

text \<open>
  C10: A packet that is written in time is played: each of its frames is what the player gets after
  as many reads as its slot is ahead, provided that every packet written meanwhile is in time as
  well, no earlier than the player and within the capacity of the buffer, and none is written to
  the same slot. (A packet further ahead than the capacity may overwrite the slot.)
\<close>

theorem jitter_buffer_packet_played:
  assumes "jb_slots jb r w m" and "\<not> jb_write_sync jb"
    and "in_time (slot_of jb) (jb_frame_size jb) (jb_frame_count jb) (JB_Write ts fs # ops) r"
    and "jb_frame_size jb \<le> length (cf_buffer (mf_codec_frame mf))"
    and "(r + reads ops + jb_frame_count jb) * jb_unit jb < 2 ^ 32"
    and "k < length fs" and "slot_of jb ts + k < r + reads ops"
    and "\<forall>op \<in> set ops. case op of JB_Read \<Rightarrow> True
         | JB_Write ts1 fs1 \<Rightarrow> slot_of jb ts + k < slot_of jb ts1 \<or> slot_of jb ts1 + length fs1 \<le> slot_of jb ts + k"
  shows "\<exists>frames jb1. jb_run (JB_Write ts fs # ops) mf jb = Some (frames, jb1) \<and> length frames = reads ops
    \<and> frame_audio (frames ! (slot_of jb ts + k - r)) = Some (fs ! k)"
proof -
  let ?i = "slot_of jb ts + k"
  obtain frames jb1 where f: "jb_run (JB_Write ts fs # ops) mf jb = Some (frames, jb1)"
      "map frame_audio frames = playout (slot_of jb) ops r (slots_written (slot_of jb ts) fs m)"
    using run_slots[OF assms(1-4)] assms(5) by auto
  have len: "length frames = reads ops" using arg_cong[OF f(2), of length] by (simp add: playout_length)
  have i: "r \<le> ?i" "?i - r < length frames" using assms(3,7) by (auto simp: len)
  have "frame_audio (frames ! (?i - r)) = map frame_audio frames ! (?i - r)" using i(2) by simp
  also have "\<dots> = slots_written (slot_of jb ts) fs m ?i" unfolding f(2)
    using assms(7,8) by (intro playout_slot[OF i(1)]) fastforce+
  also have "\<dots> = Some (fs ! k)" using assms(6) by (simp add: slots_written_def)
  finally show ?thesis using f(1) len by blast
qed

lemma too_early_available:
  assumes "jb_ok jb" "jb_frame_count jb \<le> n" "n < 2 ^ 32"
  shows "size_t (int (jb_frame_count jb) - int n) = (if n = jb_frame_count jb then 0 else 2 ^ 64 - (n - jb_frame_count jb))"
proof (cases "n = jb_frame_count jb")
  case False
  have "int (jb_frame_count jb) - int n + 2 ^ 64 = int (2 ^ 64 - (n - jb_frame_count jb))" using assms(2,3) by simp
  moreover have "size_t (int (jb_frame_count jb) - int n) = size_t (int (jb_frame_count jb) - int n + 2 ^ 64)"
    by (simp add: size_t_def)
  ultimately show ?thesis using False assms(2) size_t_id[of "2 ^ 64 - (n - jb_frame_count jb)"] by simp
qed (simp add: size_t_def)

text \<open>
  C16: A packet that is exactly the capacity of the buffer ahead is discarded as too early, but one
  that is further ahead is accepted: the number of available frames is unsigned and wraps, so the
  packet overwrites the slot at its position modulo the capacity, whatever waits there to be played.
\<close>

theorem jitter_buffer_too_early:
  assumes "jb_slots jb r w m" and "\<not> jb_write_sync jb" and "r + jb_frame_count jb \<le> slot_of jb ts"
    and "length f = jb_frame_size jb"
  shows "if slot_of jb ts = r + jb_frame_count jb
    then mpf_jitter_buffer_write jb f (length f) ts False = Some (JB_DISCARD_TOO_EARLY, jb)
    else \<exists>jb1. mpf_jitter_buffer_write jb f (length f) ts False = Some (JB_OK, jb1)
      \<and> cf_buffer (mf_codec_frame (jb_frames jb1 ! (slot_of jb ts mod jb_frame_count jb))) = f"
proof -
  let ?s = "slot_of jb ts" and ?c = "jb_frame_count jb"
  have ok: "jb_ok jb" and rd: "unat (jb_read_ts jb) = r * jb_unit jb" using assms(1) by (auto simp: jb_slots_def)
  obtain t where t: "mpf_jitter_buffer_write_prepare jb ts = Some (t, jb)" "unat t = ?s * jb_unit jb"
    using prepare_slot[OF ok assms(2)] by blast
  have rs: "r \<le> ?s" using assms(3) by simp
  note av = available_slots[OF ok t(2) rd rs]
  have "unat ((t - jb_read_ts jb) div jb_frame_ts jb) < 2 ^ 32"
    using unsigned_less[of "(t - jb_read_ts jb) div jb_frame_ts jb", where 'a = nat] by simp
  then have lt: "?s - r < 2 ^ 32" unfolding av(2) .
  have le: "?c \<le> ?s - r" using assms(3) by simp
  have a: "size_t (int ?c - uint ((t - jb_read_ts jb) div jb_frame_ts jb))
      = (if ?s - r = ?c then 0 else 2 ^ 64 - (?s - r - ?c))"
    using too_early_available[OF ok le lt] unfolding av(2)[symmetric] by simp
  show ?thesis
  proof (cases "?s = r + ?c")
    case True
    then show ?thesis unfolding mpf_jitter_buffer_write_def Let_def
      by (simp add: t(1) av(1) a)
  next
    case False
    then have n: "?s - r \<noteq> ?c" using rs by simp
    obtain a' where a': "2 ^ 64 - (?s - r - ?c) = Suc a'"
      using lt by (cases "2 ^ 64 - (?s - r - ?c)") auto
    then have a2: "size_t (int ?c - uint ((t - jb_read_ts jb) div jb_frame_ts jb)) = Suc a'" using a n by simp
    have i: "?s mod ?c < ?c" using jb_okD(3)[OF ok] by simp
    let ?fr = "frame_filled (jb_frame_size jb) f (jb_frames jb ! (?s mod ?c))"
    have w: "write_frames (Suc a') f (length f) t jb
        = Some (t + jb_frame_ts jb, jb\<lparr>jb_frames := (jb_frames jb)[?s mod ?c := ?fr]\<rparr>)"
      using write_frames_round[OF ok _ _ slot_index[OF ok t(2)] i, of "length f" f a'] assms(4) by simp
    have "cf_buffer (mf_codec_frame ((jb_frames jb)[?s mod ?c := ?fr] ! (?s mod ?c))) = f"
      using i jb_okD(5)[OF ok] by (simp add: frame_filled_def)
    then show ?thesis using False unfolding mpf_jitter_buffer_write_def Let_def
      by (simp add: t(1) av(1) a2 w del: write_frames.simps)
  qed
qed

section \<open>A small stream\<close>

text \<open>Frames of two samples and two bytes, four of them, with a playout delay of one frame.\<close>

definition small_codec :: codec where
  "small_codec = mpf_codec_create
     \<lparr>cv_open = None, cv_close = None, cv_encode = None, cv_decode = None, cv_dissect = None, cv_initialize = None\<rparr>
     \<lparr>ca_name = ''PCMU'', ca_bits_per_sample = 8, ca_sample_rates = 1\<rparr> None"

definition small_descriptor :: codec_descriptor where
  "small_descriptor = mpf_codec_descriptor_init\<lparr>cd_sampling_rate := 200, cd_channel_count := 1\<rparr>"

definition small_config :: jb_config where
  "small_config = \<lparr>jc_min_playout_delay = 0, jc_initial_playout_delay = 10, jc_max_playout_delay = 40,
     jc_adaptive = False, jc_time_skew_detection = False\<rparr>"

definition small_jb :: jitter_buffer where
  "small_jb = mpf_jitter_buffer_create 0 event_zero (Some small_config) small_descriptor small_codec"

definition small_frame :: mpf_frame where
  "small_frame = \<lparr>mf_type = 0, mf_marker = MPF_MARKER_NONE, mf_codec_frame = \<lparr>cf_buffer = [9, 9], cf_size = 0\<rparr>,
     mf_event_frame = event_zero\<rparr>"

lemma small_sizes:
  "mpf_codec_frame_samples_calculate small_descriptor = 2"
  "mpf_codec_frame_size_calculate small_descriptor (co_attribs small_codec) = 2"
  "cv_dissect (co_vtable small_codec) = None"
  by (simp_all add: small_codec_def small_descriptor_def mpf_codec_create_def mpf_codec_frame_samples_calculate_def
      mpf_codec_frame_size_calculate_def CODEC_FRAME_TIME_BASE_def)

lemma small_fields:
  "jb_frame_size small_jb = 2" "jb_frame_count small_jb = 4" "jb_frame_ts small_jb = 2" "jb_playout_delay_ts small_jb = 2"
  by (simp_all add: small_jb_def mpf_jitter_buffer_create_def Let_def small_sizes small_config_def jb_config_validate_def)

lemma small_ok: "jb_ok small_jb"
  unfolding small_jb_def by (rule create_ok) (simp_all add: small_sizes small_config_def)

theorem jitter_buffer_well_formed_witness:
  "(\<exists>r jb1. mpf_jitter_buffer_write small_jb [1, 2, 3] 3 7 True = Some (r, jb1) \<and> jb_ok jb1)
    \<and> (\<exists>r jb1. mpf_jitter_buffer_event_write small_jb event_zero 7 True = Some (r, jb1) \<and> jb_ok jb1)
    \<and> (\<exists>f jb1. mpf_jitter_buffer_read small_jb small_frame = Some (f, jb1) \<and> jb_ok jb1)
    \<and> jb_ok (mpf_jitter_buffer_restart small_jb)"
  using jitter_buffer_well_formed[OF small_ok, of "Suc (Suc (Suc 0))" "[1, 2, 3]" small_frame 7 True event_zero]
  by (auto simp: small_fields small_frame_def numeral_3_eq_3)

theorem jitter_buffer_playout_witness:
  "\<exists>frames jb1. jb_run [JB_Write 100 [[1, 2]], JB_Write 104 [[5, 6]], JB_Read, JB_Write 102 [[3, 4]], JB_Read, JB_Read, JB_Read, JB_Read]
      small_frame small_jb = Some (frames, jb1)
    \<and> map frame_audio frames = [None, Some [1, 2], Some [3, 4], Some [5, 6], None]"
proof -
  have c: "case Some small_config of None \<Rightarrow> True
      | Some k \<Rightarrow> 10 \<le> jc_max_playout_delay k \<and> jc_initial_playout_delay k \<le> jc_max_playout_delay k"
    by (simp add: small_config_def)
  show ?thesis
    using jitter_buffer_playout[OF _ _ _ c small_jb_def, of 100 "[[1, 2]]"
        "[JB_Write 104 [[5, 6]], JB_Read, JB_Write 102 [[3, 4]], JB_Read, JB_Read, JB_Read, JB_Read]" small_frame]
    by (simp add: small_sizes small_fields stream_slot_def small_frame_def slots_written_def)
qed

theorem jitter_buffer_packet_played_witness:
  "\<exists>frames jb1. jb_run [JB_Write 102 [[1, 2], [3, 4]], JB_Read, JB_Write 100 [[8, 8]], JB_Read, JB_Read, JB_Read]
      small_frame (jb_synced small_jb 100) = Some (frames, jb1)
    \<and> length frames = 4 \<and> frame_audio (frames ! 3) = Some [3, 4]"
proof -
  have s: "jb_slots (jb_synced small_jb 100) 0 0 (\<lambda>_. None)"
    unfolding synced_slots small_jb_def by (rule create_slots) (use small_ok in \<open>simp add: small_jb_def\<close>)
  have r: "jb_read_ts small_jb = 0" by (simp add: small_jb_def mpf_jitter_buffer_create_def Let_def)
  have four: "4 = Suc (Suc (Suc (Suc 0)))" by simp
  show ?thesis unfolding four
    using jitter_buffer_packet_played[OF s, of 102 "[[1, 2], [3, 4]]"
        "[JB_Read, JB_Write 100 [[8, 8]], JB_Read, JB_Read, JB_Read]" small_frame 1]
    by (simp add: synced_fields synced_slot_of small_fields small_frame_def r)
qed

theorem jitter_buffer_too_early_witness:
  "mpf_jitter_buffer_write (jb_synced small_jb 100) [1, 2] 2 106 False = Some (JB_DISCARD_TOO_EARLY, jb_synced small_jb 100)
    \<and> (\<exists>jb1. mpf_jitter_buffer_write (jb_synced small_jb 100) [1, 2] 2 108 False = Some (JB_OK, jb1)
      \<and> cf_buffer (mf_codec_frame (jb_frames jb1 ! 1)) = [1, 2])"
proof -
  have s: "jb_slots (jb_synced small_jb 100) 0 0 (\<lambda>_. None)"
    unfolding synced_slots small_jb_def by (rule create_slots) (use small_ok in \<open>simp add: small_jb_def\<close>)
  have r: "jb_read_ts small_jb = 0" by (simp add: small_jb_def mpf_jitter_buffer_create_def Let_def)
  have slot: "slot_of (jb_synced small_jb 100) 106 = 4" "slot_of (jb_synced small_jb 100) 108 = 5"
    by (simp_all add: synced_slot_of small_fields r)
  show ?thesis
    using jitter_buffer_too_early[OF s, of 106 "[1, 2]"] jitter_buffer_too_early[OF s, of 108 "[1, 2]"]
    by (simp add: synced_fields slot small_fields numeral_2_eq_2)
qed

end
