(* ===== verification/Media_Buffer.thy ===== *)
theory Media_Buffer
  imports Mpf_Frame
begin

text \<open>
  \<open>libs/mpf/src/mpf_frame_buffer.c\<close> and \<open>libs/mpf/src/mpf_buffer.c\<close>: two buffers between a
  producer and a consumer of audio, one of frames of a fixed size in an array, one of chunks of any
  size in a list. The mutex makes each operation one step. The loops of the code may run for ever as
  far as their definitions say; \<open>None\<close> is a loop that does not end or an access outside a buffer.
\<close>

section \<open>The frame buffer\<close>

record frame_buffer =
  fb_frames :: "mpf_frame list"
  fb_frame_count :: nat
  fb_frame_size :: nat
  fb_write_pos :: nat
  fb_read_pos :: nat

text \<open>The memory of a frame starts with \<open>fill\<close> in its bytes and \<open>e\<close> as its event.\<close>

definition mpf_frame_buffer_create :: "u8 \<Rightarrow> named_event \<Rightarrow> nat \<Rightarrow> nat \<Rightarrow> frame_buffer" where
  "mpf_frame_buffer_create fill e frame_size frame_count =
     \<lparr>fb_frames = replicate frame_count \<lparr>mf_type = MEDIA_FRAME_TYPE_NONE, mf_marker = MPF_MARKER_NONE,
        mf_codec_frame = \<lparr>cf_buffer = replicate frame_size fill, cf_size = 0\<rparr>, mf_event_frame = e\<rparr>,
      fb_frame_count = frame_count, fb_frame_size = frame_size, fb_write_pos = 0, fb_read_pos = 0\<rparr>"

definition mpf_frame_buffer_restart :: "frame_buffer \<Rightarrow> frame_buffer" where
  "mpf_frame_buffer_restart b = b\<lparr>fb_write_pos := fb_read_pos b\<rparr>"

definition mpf_frame_buffer_frame_get :: "frame_buffer \<Rightarrow> nat \<Rightarrow> nat option" where
  "mpf_frame_buffer_frame_get b pos = (if fb_frame_count b = 0 then None else Some (pos mod fb_frame_count b))"

text \<open>The first \<open>n\<close> bytes of a memory are overwritten.\<close>

definition mem_copy :: "nat \<Rightarrow> u8 list \<Rightarrow> u8 list \<Rightarrow> u8 list option" where
  "mem_copy n dest src = (if length src < n \<or> length dest < n then None else Some (take n src @ drop n dest))"

partial_function (option) frame_write_loop :: "int \<Rightarrow> u8 list \<Rightarrow> nat \<Rightarrow> frame_buffer \<Rightarrow> (nat \<times> frame_buffer) option" where
  "frame_write_loop ty data n b =
     (if size_t (int (fb_write_pos b) - int (fb_read_pos b)) < fb_frame_count b \<and> fb_frame_size b \<le> n then do {
        i \<leftarrow> mpf_frame_buffer_frame_get b (fb_write_pos b);
        let f = fb_frames b ! i;
        bytes \<leftarrow> mem_copy (fb_frame_size b) (cf_buffer (mf_codec_frame f)) data;
        frame_write_loop ty (drop (fb_frame_size b) data) (n - fb_frame_size b)
          (b\<lparr>fb_frames := (fb_frames b)[i := f\<lparr>mf_type := ty, mf_codec_frame := \<lparr>cf_buffer = bytes, cf_size = fb_frame_size b\<rparr>\<rparr>],
             fb_write_pos := size_t (int (fb_write_pos b) + 1)\<rparr>)
      } else Some (n, b))"

definition mpf_frame_buffer_write :: "frame_buffer \<Rightarrow> mpf_frame \<Rightarrow> (bool \<times> frame_buffer) option" where
  "mpf_frame_buffer_write b frame = do {
     (n, b1) \<leftarrow> frame_write_loop (mf_type frame) (cf_buffer (mf_codec_frame frame)) (cf_size (mf_codec_frame frame)) b;
     Some (n = 0, b1)
   }"

definition mpf_frame_buffer_read :: "frame_buffer \<Rightarrow> mpf_frame \<Rightarrow> (mpf_frame \<times> frame_buffer) option" where
  "mpf_frame_buffer_read b media_frame =
     (if fb_read_pos b < fb_write_pos b then do {
        i \<leftarrow> mpf_frame_buffer_frame_get b (fb_read_pos b);
        let src = fb_frames b ! i;
        let f1 = media_frame\<lparr>mf_type := mf_type src, mf_marker := mf_marker src\<rparr>;
        let n = cf_size (mf_codec_frame src);
        f2 \<leftarrow> (if is_audio f1 then do {
                 bytes \<leftarrow> mem_copy n (cf_buffer (mf_codec_frame f1)) (cf_buffer (mf_codec_frame src));
                 Some (f1\<lparr>mf_codec_frame := \<lparr>cf_buffer = bytes, cf_size = n\<rparr>\<rparr>)
               } else Some f1);
        Some (if is_event f2 then f2\<lparr>mf_event_frame := mf_event_frame src\<rparr> else f2,
              b\<lparr>fb_frames := (fb_frames b)[i := src\<lparr>mf_type := MEDIA_FRAME_TYPE_NONE, mf_marker := MPF_MARKER_NONE\<rparr>],
                fb_read_pos := size_t (int (fb_read_pos b) + 1)\<rparr>)
      } else Some (media_frame\<lparr>mf_type := MEDIA_FRAME_TYPE_NONE, mf_marker := MPF_MARKER_NONE\<rparr>, b))"

section \<open>The buffer of chunks\<close>

record media_chunk =
  ck_type :: int
  ck_data :: "u8 list"

record media_buffer =
  bf_chunks :: "media_chunk list"
  bf_cur_chunk :: "media_chunk option"
  bf_remaining_chunk_size :: nat
  bf_size :: nat

definition mpf_buffer_create :: media_buffer where
  "mpf_buffer_create = \<lparr>bf_chunks = [], bf_cur_chunk = None, bf_remaining_chunk_size = 0, bf_size = 0\<rparr>"

definition mpf_buffer_restart :: "media_buffer \<Rightarrow> media_buffer" where
  "mpf_buffer_restart b = b\<lparr>bf_chunks := []\<rparr>"

definition mpf_buffer_chunk_write :: "media_chunk \<Rightarrow> media_buffer \<Rightarrow> media_buffer" where
  "mpf_buffer_chunk_write c b = b\<lparr>bf_chunks := bf_chunks b @ [c]\<rparr>"

definition mpf_buffer_chunk_read :: "media_buffer \<Rightarrow> media_chunk option \<times> media_buffer" where
  "mpf_buffer_chunk_read b = (case bf_chunks b of [] \<Rightarrow> (None, b) | c # cs \<Rightarrow> (Some c, b\<lparr>bf_chunks := cs\<rparr>))"

definition mpf_buffer_audio_write :: "media_buffer \<Rightarrow> u8 list \<Rightarrow> nat \<Rightarrow> media_buffer option" where
  "mpf_buffer_audio_write b data n =
     (if length data < n then None
      else Some ((mpf_buffer_chunk_write \<lparr>ck_type = MEDIA_FRAME_TYPE_AUDIO, ck_data = take n data\<rparr> b)
             \<lparr>bf_size := size_t (int (bf_size b) + int n)\<rparr>))"

definition mpf_buffer_event_write :: "media_buffer \<Rightarrow> int \<Rightarrow> media_buffer" where
  "mpf_buffer_event_write b event_type = mpf_buffer_chunk_write \<lparr>ck_type = event_type, ck_data = []\<rparr> b"

text \<open>\<open>n\<close> bytes of \<open>src\<close> from \<open>j\<close> on are copied into a frame from \<open>i\<close> on.\<close>

definition frame_copy :: "nat \<Rightarrow> nat \<Rightarrow> nat \<Rightarrow> u8 list \<Rightarrow> mpf_frame \<Rightarrow> mpf_frame option" where
  "frame_copy n i j src f =
     (let dest = cf_buffer (mf_codec_frame f) in
      if length src < j + n \<or> length dest < i + n then None
      else Some (f\<lparr>mf_codec_frame := (mf_codec_frame f)\<lparr>cf_buffer := take i dest @ take n (drop j src) @ drop (i + n) dest\<rparr>\<rparr>))"

text \<open>The chunk that is read from: the current one or the next.\<close>

definition chunk_current :: "media_buffer \<Rightarrow> (media_chunk \<times> media_buffer) option" where
  "chunk_current b =
     (case bf_cur_chunk b of
        Some c \<Rightarrow> Some (c, b)
      | None \<Rightarrow>
          (case mpf_buffer_chunk_read b of
             (None, b1) \<Rightarrow> None
           | (Some c, b1) \<Rightarrow> Some (c, b1\<lparr>bf_cur_chunk := Some c, bf_remaining_chunk_size := length (ck_data c)\<rparr>)))"

partial_function (option) frame_read_loop :: "nat \<Rightarrow> mpf_frame \<Rightarrow> media_buffer \<Rightarrow> (nat \<times> mpf_frame \<times> media_buffer) option" where
  "frame_read_loop n f b =
     (case chunk_current b of
        None \<Rightarrow> Some (n, f, b)
      | Some (c, b1) \<Rightarrow> do {
          let f1 = f\<lparr>mf_type := mf_type f OR ck_type c\<rparr>;
          let k = (if n < bf_remaining_chunk_size b1 then n else bf_remaining_chunk_size b1);
          f2 \<leftarrow> frame_copy k (cf_size (mf_codec_frame f1) - n) (length (ck_data c) - bf_remaining_chunk_size b1) (ck_data c) f1;
          let b2 = (if n < bf_remaining_chunk_size b1
                    then b1\<lparr>bf_remaining_chunk_size := bf_remaining_chunk_size b1 - k, bf_size := size_t (int (bf_size b1) - int k)\<rparr>
                    else b1\<lparr>bf_size := size_t (int (bf_size b1) - int k), bf_remaining_chunk_size := 0, bf_cur_chunk := None\<rparr>);
          if n - k = 0 then Some (0, f2, b2) else frame_read_loop (n - k) f2 b2
        })"

definition mpf_buffer_frame_read :: "media_buffer \<Rightarrow> mpf_frame \<Rightarrow> (mpf_frame \<times> media_buffer) option" where
  "mpf_buffer_frame_read b media_frame = do {
     (n, f, b1) \<leftarrow> frame_read_loop (cf_size (mf_codec_frame media_frame)) media_frame b;
     f1 \<leftarrow> (if n \<noteq> 0 then frame_copy n (cf_size (mf_codec_frame f) - n) 0 (replicate n 0) f else Some f);
     Some (f1, b1)
   }"

definition mpf_buffer_get_size :: "media_buffer \<Rightarrow> nat" where
  "mpf_buffer_get_size b = bf_size b"

section \<open>Reading from the chunks\<close>

text \<open>The bytes that wait to be read, and what holds of a buffer that was never restarted.\<close>

definition bf_content :: "media_buffer \<Rightarrow> u8 list" where
  "bf_content b = (case bf_cur_chunk b of None \<Rightarrow> [] | Some c \<Rightarrow> drop (length (ck_data c) - bf_remaining_chunk_size b) (ck_data c))
     @ concat (map ck_data (bf_chunks b))"

definition bf_ok :: "media_buffer \<Rightarrow> bool" where
  "bf_ok b \<longleftrightarrow> (\<forall>c. bf_cur_chunk b = Some c \<longrightarrow> bf_remaining_chunk_size b \<le> length (ck_data c))
     \<and> bf_size b = length (bf_content b) \<and> length (bf_content b) < 2 ^ 64"

definition bf_waiting :: "media_buffer \<Rightarrow> nat" where
  "bf_waiting b = length (bf_chunks b) + (case bf_cur_chunk b of None \<Rightarrow> 0 | Some _ \<Rightarrow> 1)"

text \<open>What is in the buffer when a chunk is being read.\<close>

lemma chunk_current_ok:
  assumes "bf_ok b"
  shows "case chunk_current b of
      None \<Rightarrow> bf_content b = [] \<and> bf_cur_chunk b = None
    | Some (c, b1) \<Rightarrow> bf_ok b1 \<and> bf_cur_chunk b1 = Some c \<and> bf_content b1 = bf_content b \<and> bf_waiting b1 \<le> Suc (bf_waiting b)
        \<and> length (bf_chunks b1) < bf_waiting b"
proof (cases "bf_cur_chunk b")
  case None
  then show ?thesis using assms
    by (cases "bf_chunks b") (auto simp: chunk_current_def mpf_buffer_chunk_read_def bf_ok_def bf_content_def bf_waiting_def)
next
  case (Some c)
  then show ?thesis using assms by (simp add: chunk_current_def bf_waiting_def)
qed

lemma size_t_diff: "k \<le> n \<Longrightarrow> n < 2 ^ 64 \<Longrightarrow> size_t (int n - int k) = n - k"
  using size_t_id[of "n - k"] by (simp add: of_nat_diff)

text \<open>One round of the loop, in the three ways it can go on.\<close>

lemma frame_copy_some:
  assumes "j + n \<le> length src" "i + n \<le> length (cf_buffer (mf_codec_frame f))"
  shows "frame_copy n i j src f = Some (f\<lparr>mf_codec_frame := (mf_codec_frame f)
    \<lparr>cf_buffer := take i (cf_buffer (mf_codec_frame f)) @ take n (drop j src) @ drop (i + n) (cf_buffer (mf_codec_frame f))\<rparr>\<rparr>)"
  using assms by (simp add: frame_copy_def Let_def)

lemma drop_length_append: "drop (length p + m) (p @ x) = drop m x"
  by simp

lemma frame_read_loop_content:
  assumes "bf_ok b" "n \<le> cf_size (mf_codec_frame f)" "cf_size (mf_codec_frame f) \<le> length (cf_buffer (mf_codec_frame f))"
  shows "\<exists>f1 b1. frame_read_loop n f b = Some (n - length (bf_content b), f1, b1)
    \<and> cf_size (mf_codec_frame f1) = cf_size (mf_codec_frame f) \<and> bf_ok b1 \<and> bf_content b1 = drop n (bf_content b)
    \<and> cf_buffer (mf_codec_frame f1) = take (cf_size (mf_codec_frame f) - n) (cf_buffer (mf_codec_frame f)) @ take n (bf_content b)
        @ drop (cf_size (mf_codec_frame f) - n + min n (length (bf_content b))) (cf_buffer (mf_codec_frame f))"
  using assms
proof (induction "bf_waiting b" arbitrary: b n f rule: less_induct)
  case less
  let ?size = "cf_size (mf_codec_frame f)" and ?buf = "cf_buffer (mf_codec_frame f)"
  show ?case
  proof (cases "chunk_current b")
    case None
    then have "bf_content b = []" using chunk_current_ok[OF less.prems(1)] by simp
    then show ?thesis using None less.prems by (subst frame_read_loop.simps) simp
  next
    case (Some p)
    obtain c b1 where p: "p = (c, b1)" by fastforce
    have b1: "bf_ok b1" "bf_cur_chunk b1 = Some c" "bf_content b1 = bf_content b" "length (bf_chunks b1) < bf_waiting b"
      using chunk_current_ok[OF less.prems(1)] by (simp_all add: Some p)
    let ?r = "bf_remaining_chunk_size b1"
    define j where "j = length (ck_data c) - ?r"
    define rest where "rest = drop j (ck_data c)"
    define tail where "tail = concat (map ck_data (bf_chunks b1))"
    have r: "?r \<le> length (ck_data c)" "length rest = ?r" "j + ?r = length (ck_data c)"
      using b1(1,2) by (simp_all add: bf_ok_def rest_def j_def)
    have content: "bf_content b = rest @ tail" using b1(2,3) by (simp add: bf_content_def rest_def tail_def j_def)
    have size: "bf_size b1 = length rest + length tail" "length rest + length tail < 2 ^ 64"
      using b1(1,3) content by (simp_all add: bf_ok_def)
    let ?f = "\<lambda>bytes. f\<lparr>mf_type := mf_type f OR ck_type c, mf_codec_frame := (mf_codec_frame f)\<lparr>cf_buffer := bytes\<rparr>\<rparr>"
    show ?thesis
    proof (cases "n < ?r")
      case True
      let ?b = "b1\<lparr>bf_remaining_chunk_size := ?r - n, bf_size := size_t (int (bf_size b1) - int n)\<rparr>"
      let ?bytes = "take (?size - n) ?buf @ take n rest @ drop ?size ?buf"
      have cp: "frame_copy n (?size - n) j (ck_data c) (f\<lparr>mf_type := mf_type f OR ck_type c\<rparr>) = Some (?f ?bytes)"
        using frame_copy_some[of j n "ck_data c" "?size - n" "f\<lparr>mf_type := mf_type f OR ck_type c\<rparr>"] True r less.prems
        by (simp add: rest_def)
      have eq: "frame_read_loop n f b = Some (0, ?f ?bytes, ?b)"
        using True cp by (subst frame_read_loop.simps) (simp add: Some p Let_def j_def[symmetric])
      have "length (ck_data c) - (?r - n) = j + n" using True r by linarith
      then have "bf_content ?b = drop n rest @ tail"
        using True r b1(2) by (simp add: bf_content_def tail_def rest_def add.commute)
      then have cont: "bf_content ?b = drop n (bf_content b)" using True r by (simp add: content)
      have "bf_size ?b = length (bf_content ?b)" unfolding cont content
        using True r size size_t_diff[of n "length (rest @ tail)"] by simp
      moreover have "length (bf_content ?b) < 2 ^ 64" unfolding cont content using size by simp
      moreover have "bf_cur_chunk ?b = Some d \<Longrightarrow> bf_remaining_chunk_size ?b \<le> length (ck_data d)" for d using b1(2) r(1) by simp
      ultimately have "bf_ok ?b" unfolding bf_ok_def by blast
      then show ?thesis using eq cont True r less.prems by (simp add: content min_def)
    next
      case False
      let ?b = "b1\<lparr>bf_size := size_t (int (bf_size b1) - int ?r), bf_remaining_chunk_size := 0, bf_cur_chunk := None\<rparr>"
      let ?bytes = "take (?size - n) ?buf @ rest @ drop (?size - n + ?r) ?buf"
      have cp: "frame_copy ?r (?size - n) j (ck_data c) (f\<lparr>mf_type := mf_type f OR ck_type c\<rparr>) = Some (?f ?bytes)"
        using frame_copy_some[of j ?r "ck_data c" "?size - n" "f\<lparr>mf_type := mf_type f OR ck_type c\<rparr>"] False r less.prems
        by (simp add: rest_def)
      have cont: "bf_content ?b = tail" by (simp add: bf_content_def tail_def)
      have "bf_size ?b = length (bf_content ?b)" unfolding cont
        using r(2) size size_t_diff[of ?r "length (rest @ tail)"] by simp
      moreover have "length (bf_content ?b) < 2 ^ 64" unfolding cont using size by simp
      ultimately have ok: "bf_ok ?b" unfolding bf_ok_def by simp
      have len: "length ?bytes = length ?buf" using False r less.prems by simp
      show ?thesis
      proof (cases "n = ?r")
        case True
        have "frame_read_loop n f b = Some (0, ?f ?bytes, ?b)"
          using True cp by (subst frame_read_loop.simps) (simp add: Some p Let_def j_def[symmetric])
        then show ?thesis using True ok cont r less.prems by (simp add: content)
      next
        case ne: False
        have eq: "frame_read_loop n f b = frame_read_loop (n - ?r) (?f ?bytes) ?b"
          using False ne cp by (subst frame_read_loop.simps) (simp add: Some p Let_def j_def[symmetric])
        have w: "bf_waiting ?b < bf_waiting b" using b1(4) by (simp add: bf_waiting_def)
        have off: "?size - (n - ?r) = ?size - n + ?r" using False less.prems(2) by simp
        let ?P = "take (?size - n) ?buf @ rest" and ?m = "min (n - ?r) (length tail)"
        have lp: "length ?P = ?size - n + ?r" using r(2) False less.prems(2,3) by simp
        have split: "?bytes = ?P @ drop (?size - n + ?r) ?buf" by simp
        have pre: "take (?size - n + ?r) ?bytes = ?P" unfolding split using lp by (metis append_eq_conv_conj)
        have d: "drop (?size - n + ?r + ?m) ?bytes = drop ?m (drop (?size - n + ?r) ?buf)"
          using drop_length_append[of ?P ?m "drop (?size - n + ?r) ?buf"] unfolding lp split .
        have e: "?m + (?size - n + ?r) = ?size - n + min n (?r + length tail)" using False by linarith
        have post: "drop (?size - n + ?r + ?m) ?bytes = drop (?size - n + min n (?r + length tail)) ?buf"
          unfolding d drop_drop e ..
        obtain bytes where bytes: "bytes = ?bytes" by blast
        have le: "n - ?r \<le> ?size" using less.prems(2) by linarith
        obtain f1 b2 where f1: "frame_read_loop (n - ?r) (?f bytes) ?b = Some (n - ?r - length tail, f1, b2)"
            "cf_size (mf_codec_frame f1) = ?size" "bf_ok b2" "bf_content b2 = drop (n - ?r) tail"
            "cf_buffer (mf_codec_frame f1) = take (?size - n + ?r) bytes @ take (n - ?r) tail @ drop (?size - n + ?r + ?m) bytes"
          using less.hyps[OF w ok, of "n - ?r" "?f bytes"] le less.prems(2,3) len[folded bytes] False unfolding cont
          by (auto simp: off)
        note f1 = f1(1)[unfolded bytes] f1(2-4) f1(5)[unfolded bytes pre post]
        show ?thesis using f1 False r(2) unfolding eq by (simp add: content)
      qed
    qed
  qed
qed

text \<open>
  C14: Reading from the buffer of chunks ends, whatever chunks wait and however short they are: the
  frame is filled with the next bytes in order, and with zeros where there are not enough, the bytes
  read are gone from the buffer and its size says how many are left.
\<close>

theorem media_buffer_read_ends:
  assumes "bf_ok b" and "cf_size (mf_codec_frame f) \<le> length (cf_buffer (mf_codec_frame f))"
  shows "\<exists>f1 b1. mpf_buffer_frame_read b f = Some (f1, b1) \<and> bf_ok b1
    \<and> bf_content b1 = drop (cf_size (mf_codec_frame f)) (bf_content b)
    \<and> cf_buffer (mf_codec_frame f1) = take (cf_size (mf_codec_frame f)) (bf_content b @ replicate (cf_size (mf_codec_frame f)) 0)
        @ drop (cf_size (mf_codec_frame f)) (cf_buffer (mf_codec_frame f))"
proof -
  let ?n = "cf_size (mf_codec_frame f)" and ?buf = "cf_buffer (mf_codec_frame f)" and ?l = "length (bf_content b)"
  obtain f1 b1 where f1: "frame_read_loop ?n f b = Some (?n - ?l, f1, b1)" "cf_size (mf_codec_frame f1) = ?n" "bf_ok b1"
      "bf_content b1 = drop ?n (bf_content b)" "cf_buffer (mf_codec_frame f1) = take ?n (bf_content b) @ drop (min ?n ?l) ?buf"
    using frame_read_loop_content[OF assms(1) order.refl assms(2)] by auto
  show ?thesis
  proof (cases "?n \<le> ?l")
    case True
    then show ?thesis using f1 by (simp add: mpf_buffer_frame_read_def min_def)
  next
    case False
    then have "frame_copy (?n - ?l) ?l 0 (replicate (?n - ?l) 0) f1 = Some (f1\<lparr>mf_codec_frame := (mf_codec_frame f1)
        \<lparr>cf_buffer := bf_content b @ replicate (?n - ?l) 0 @ drop ?n ?buf\<rparr>\<rparr>)"
      using frame_copy_some[of 0 "?n - ?l" "replicate (?n - ?l) 0" ?l f1] f1(5) assms(2) by (simp add: min_def)
    then show ?thesis using False f1 by (simp add: mpf_buffer_frame_read_def)
  qed
qed

lemma media_buffer_restart_keeps_chunk:
  "bf_content (mpf_buffer_restart b) = (case bf_cur_chunk b of None \<Rightarrow> [] | Some c \<Rightarrow> drop (length (ck_data c) - bf_remaining_chunk_size b) (ck_data c))"
  "mpf_buffer_get_size (mpf_buffer_restart b) = mpf_buffer_get_size b"
  by (simp_all add: bf_content_def mpf_buffer_restart_def mpf_buffer_get_size_def split: option.split)

lemma chunk_audio_ok:
  assumes "bf_ok b" "n \<le> length data" "length (bf_content b) + n < 2 ^ 64"
  shows "\<exists>b1. mpf_buffer_audio_write b data n = Some b1 \<and> bf_ok b1 \<and> bf_content b1 = bf_content b @ take n data"
proof -
  have "size_t (int (bf_size b) + int n) = length (bf_content b) + n"
    using assms(1,3) size_t_id[of "length (bf_content b) + n"] by (simp add: bf_ok_def)
  then show ?thesis using assms
    by (cases "bf_cur_chunk b") (auto simp: mpf_buffer_audio_write_def mpf_buffer_chunk_write_def bf_ok_def bf_content_def)
qed

lemma chunk_event_ok:
  assumes "bf_ok b"
  shows "bf_ok (mpf_buffer_event_write b t)" "bf_content (mpf_buffer_event_write b t) = bf_content b"
  using assms by (cases "bf_cur_chunk b"; simp add: mpf_buffer_event_write_def mpf_buffer_chunk_write_def bf_ok_def bf_content_def)+

section \<open>The frame buffer as a queue\<close>

text \<open>The frames in a sequence of bytes.\<close>

function byte_frames :: "nat \<Rightarrow> u8 list \<Rightarrow> u8 list list" where
  "byte_frames n bs = (if n = 0 \<or> length bs < n then [] else take n bs # byte_frames n (drop n bs))"
  by pat_completeness auto
termination
  by (relation "measure (\<lambda>(n, bs). length bs)") auto

declare byte_frames.simps [simp del]

lemma byte_frames_size: "n * length (byte_frames n bs) \<le> length bs"
proof (induction n bs rule: byte_frames.induct)
  case (1 n bs)
  then show ?case by (subst byte_frames.simps) auto
qed

definition fb_ok :: "frame_buffer \<Rightarrow> bool" where
  "fb_ok b \<longleftrightarrow> 0 < fb_frame_count b \<and> 0 < fb_frame_size b \<and> length (fb_frames b) = fb_frame_count b
     \<and> fb_read_pos b \<le> fb_write_pos b \<and> fb_write_pos b \<le> fb_read_pos b + fb_frame_count b \<and> fb_write_pos b < 2 ^ 64
     \<and> (\<forall>f \<in> set (fb_frames b). length (cf_buffer (mf_codec_frame f)) = fb_frame_size b)
     \<and> (\<forall>p. fb_read_pos b \<le> p \<and> p < fb_write_pos b \<longrightarrow>
          cf_size (mf_codec_frame (fb_frames b ! (p mod fb_frame_count b))) = fb_frame_size b)"

definition fb_entry :: "frame_buffer \<Rightarrow> nat \<Rightarrow> int \<times> u8 list" where
  "fb_entry b p = (let f = fb_frames b ! (p mod fb_frame_count b) in (mf_type f, cf_buffer (mf_codec_frame f)))"

definition fb_queue :: "frame_buffer \<Rightarrow> (int \<times> u8 list) list" where
  "fb_queue b = map (fb_entry b) [fb_read_pos b..<fb_write_pos b]"

lemma fb_okD:
  assumes "fb_ok b"
  shows "0 < fb_frame_count b" "0 < fb_frame_size b" "length (fb_frames b) = fb_frame_count b"
    "fb_read_pos b \<le> fb_write_pos b" "fb_write_pos b \<le> fb_read_pos b + fb_frame_count b" "fb_write_pos b < 2 ^ 64"
    "i < fb_frame_count b \<Longrightarrow> length (cf_buffer (mf_codec_frame (fb_frames b ! i))) = fb_frame_size b"
    "fb_read_pos b \<le> p \<Longrightarrow> p < fb_write_pos b \<Longrightarrow> cf_size (mf_codec_frame (fb_frames b ! (p mod fb_frame_count b))) = fb_frame_size b"
  using assms by (auto simp: fb_ok_def)

lemma frame_create_ok:
  assumes "0 < n" "0 < k"
  shows "fb_ok (mpf_frame_buffer_create fill e n k)" "fb_queue (mpf_frame_buffer_create fill e n k) = []"
  using assms by (simp_all add: mpf_frame_buffer_create_def fb_ok_def fb_queue_def)

text \<open>One frame is stored behind the others.\<close>

lemma frame_stored:
  fixes ty :: int
  assumes "fb_ok b" "fb_write_pos b < fb_read_pos b + fb_frame_count b" "length bytes = fb_frame_size b" "Suc (fb_write_pos b) < 2 ^ 64"
  defines "i \<equiv> fb_write_pos b mod fb_frame_count b"
  defines "b1 \<equiv> b\<lparr>fb_frames := (fb_frames b)[i := (fb_frames b ! i)\<lparr>mf_type := ty, mf_codec_frame := \<lparr>cf_buffer = bytes, cf_size = fb_frame_size b\<rparr>\<rparr>],
    fb_write_pos := Suc (fb_write_pos b)\<rparr>"
  shows "fb_ok b1" "fb_queue b1 = fb_queue b @ [(ty, bytes)]"
proof -
  note d = fb_okD[OF assms(1)]
  let ?f = "(fb_frames b ! i)\<lparr>mf_type := ty, mf_codec_frame := \<lparr>cf_buffer = bytes, cf_size = fb_frame_size b\<rparr>\<rparr>"
  have i: "i < fb_frame_count b" using d(1) by (simp add: i_def)
  have other: "fb_frames b1 ! (p mod fb_frame_count b) = fb_frames b ! (p mod fb_frame_count b)"
    if "fb_read_pos b \<le> p" "p < fb_write_pos b" for p
  proof -
    have "i \<noteq> p mod fb_frame_count b"
      using window_mod[of "fb_read_pos b" p "fb_frame_count b" "fb_write_pos b"] that assms(2) d(4) by (auto simp: i_def)
    then show ?thesis by (simp add: b1_def)
  qed
  have new: "fb_frames b1 ! (fb_write_pos b mod fb_frame_count b) = ?f" using i d(3) by (simp add: b1_def i_def)
  have fields: "fb_frame_count b1 = fb_frame_count b" "fb_frame_size b1 = fb_frame_size b" "fb_read_pos b1 = fb_read_pos b"
      "fb_write_pos b1 = Suc (fb_write_pos b)" "length (fb_frames b1) = fb_frame_count b"
    using d(3) by (simp_all add: b1_def)
  have "length (cf_buffer (mf_codec_frame f)) = fb_frame_size b" if "f \<in> set (fb_frames b1)" for f
    using that set_update_subset_insert[of "fb_frames b" i ?f] assms(1,3) by (auto simp: b1_def fb_ok_def)
  moreover have "cf_size (mf_codec_frame (fb_frames b1 ! (p mod fb_frame_count b))) = fb_frame_size b"
    if "fb_read_pos b \<le> p" "p < Suc (fb_write_pos b)" for p
    using that other[of p] new d(8)[of p] by (cases "p = fb_write_pos b") simp_all
  ultimately show "fb_ok b1" using d(1-5) assms(2,4) by (simp add: fb_ok_def fields)
  have "fb_entry b1 p = fb_entry b p" if "p \<in> set [fb_read_pos b..<fb_write_pos b]" for p
    using other[of p] that by (simp add: fb_entry_def fields)
  moreover have "fb_entry b1 (fb_write_pos b) = (ty, bytes)" using new by (simp add: fb_entry_def fields)
  ultimately show "fb_queue b1 = fb_queue b @ [(ty, bytes)]" using d(4) by (simp add: fb_queue_def fields)
qed

lemma frame_write_loop_queue:
  assumes "fb_ok b" "n \<le> length data" "fb_write_pos b + n < 2 ^ 64"
  shows "\<exists>b1 cs. frame_write_loop ty data n b = Some (n - fb_frame_size b * length cs, b1)
    \<and> cs = take (fb_frame_count b - length (fb_queue b)) (byte_frames (fb_frame_size b) (take n data))
    \<and> fb_ok b1 \<and> fb_queue b1 = fb_queue b @ map (Pair ty) cs \<and> fb_frame_size b1 = fb_frame_size b
    \<and> fb_frame_count b1 = fb_frame_count b \<and> fb_write_pos b1 \<le> fb_write_pos b + n"
  using assms
proof (induction n arbitrary: data b rule: less_induct)
  case (less n)
  note d = fb_okD[OF less.prems(1)]
  let ?s = "fb_frame_size b" and ?c = "fb_frame_count b"
  have len: "length (fb_queue b) = fb_write_pos b - fb_read_pos b" by (simp add: fb_queue_def)
  have used: "size_t (int (fb_write_pos b) - int (fb_read_pos b)) = fb_write_pos b - fb_read_pos b"
    by (rule size_t_diff) (use d in auto)
  show ?case
  proof (cases "fb_write_pos b - fb_read_pos b < ?c \<and> ?s \<le> n")
    case False
    then have e: "take (?c - length (fb_queue b)) (byte_frames ?s (take n data)) = []"
      using less.prems(2) by (auto simp: len byte_frames.simps[of ?s "take n data"] min_def)
    have "frame_write_loop ty data n b = Some (n, b)" using False by (subst frame_write_loop.simps) (auto simp: used)
    then show ?thesis using less.prems(1) e by (intro exI[of _ b] exI[of _ "[]"]) simp
  next
    case True
    let ?i = "fb_write_pos b mod ?c"
    let ?b = "b\<lparr>fb_frames := (fb_frames b)[?i := (fb_frames b ! ?i)\<lparr>mf_type := ty, mf_codec_frame := \<lparr>cf_buffer = take ?s data, cf_size = ?s\<rparr>\<rparr>],
      fb_write_pos := Suc (fb_write_pos b)\<rparr>"
    have room: "fb_write_pos b < fb_read_pos b + ?c" using True d(4) by linarith
    have pos: "Suc (fb_write_pos b) < 2 ^ 64" using less.prems(3) True d(2) by linarith
    have l: "length (take ?s data) = ?s" using True less.prems(2) by simp
    note st = frame_stored[OF less.prems(1) room l pos, of ty]
    have inc: "size_t (int (fb_write_pos b) + 1) = Suc (fb_write_pos b)" using size_t_id[OF pos] by (simp add: add.commute)
    have cp: "mem_copy ?s (cf_buffer (mf_codec_frame (fb_frames b ! ?i))) data = Some (take ?s data)"
      using True less.prems(2) d(1) d(7)[of ?i] by (simp add: mem_copy_def)
    have eq: "frame_write_loop ty data n b = frame_write_loop ty (drop ?s data) (n - ?s) ?b"
      using True d(1) cp by (subst frame_write_loop.simps) (simp add: used mpf_frame_buffer_frame_get_def Let_def inc)
    have dec: "n - ?s < n" "n - ?s \<le> length (drop ?s data)" "fb_write_pos ?b + (n - ?s) < 2 ^ 64"
      using True d(2) less.prems(2,3) by simp_all
    obtain b1 cs where ih: "frame_write_loop ty (drop ?s data) (n - ?s) ?b = Some (n - ?s - ?s * length cs, b1)"
        "cs = take (?c - length (fb_queue ?b)) (byte_frames ?s (take (n - ?s) (drop ?s data)))"
        "fb_ok b1" "fb_queue b1 = fb_queue ?b @ map (Pair ty) cs" "fb_frame_size b1 = ?s" "fb_frame_count b1 = ?c"
        "fb_write_pos b1 \<le> Suc (fb_write_pos b) + (n - ?s)"
      using less.IH[OF dec(1) st(1) dec(2,3)] by auto
    have split: "byte_frames ?s (take n data) = take ?s data # byte_frames ?s (take (n - ?s) (drop ?s data))"
      using True less.prems(2) d(2) by (subst byte_frames.simps) (simp add: min_def drop_take)
    have "?c - length (fb_queue b) = Suc (?c - length (fb_queue ?b))" using True st(2) len by (simp add: Suc_diff_Suc)
    then have cs: "take (?c - length (fb_queue b)) (byte_frames ?s (take n data)) = take ?s data # cs"
      by (simp add: split ih(2))
    have "fb_write_pos b1 \<le> fb_write_pos b + n" using ih(7) True d(2) by linarith
    then show ?thesis using ih st(2) by (simp add: eq cs)
  qed
qed

lemma frame_read_queue:
  assumes "fb_ok b" "fb_frame_size b \<le> length (cf_buffer (mf_codec_frame mf))"
  shows "\<exists>f b1. mpf_frame_buffer_read b mf = Some (f, b1) \<and> fb_ok b1 \<and> fb_queue b1 = tl (fb_queue b)
    \<and> (mf_type f, frame_audio f) = (case fb_queue b of [] \<Rightarrow> (0, None) | (ty, bytes) # _ \<Rightarrow> (ty, if bit ty 0 then Some bytes else None))
    \<and> length (cf_buffer (mf_codec_frame f)) = length (cf_buffer (mf_codec_frame mf)) \<and> fb_frame_size b1 = fb_frame_size b
    \<and> fb_frame_count b1 = fb_frame_count b \<and> fb_write_pos b1 = fb_write_pos b"
proof (cases "fb_read_pos b < fb_write_pos b")
  case False
  then have "fb_queue b = []" by (simp add: fb_queue_def)
  then show ?thesis using False assms by (simp add: mpf_frame_buffer_read_def frame_audio_def is_audio_def)
next
  case True
  note d = fb_okD[OF assms(1)]
  let ?c = "fb_frame_count b"
  define i where "i = fb_read_pos b mod ?c"
  define src where "src = fb_frames b ! i"
  have i: "i < ?c" using d(1) by (simp add: i_def)
  have src: "length (cf_buffer (mf_codec_frame src)) = fb_frame_size b" "cf_size (mf_codec_frame src) = fb_frame_size b"
    using d(7)[OF i] d(8)[OF order.refl True] by (simp_all add: src_def i_def)
  define b1 where "b1 = b\<lparr>fb_frames := (fb_frames b)[i := src\<lparr>mf_type := 0, mf_marker := MPF_MARKER_NONE\<rparr>], fb_read_pos := Suc (fb_read_pos b)\<rparr>"
  have inc: "size_t (int (fb_read_pos b) + 1) = Suc (fb_read_pos b)"
    using size_t_id[of "Suc (fb_read_pos b)"] True d(6) by (simp add: add.commute)
  have fields: "fb_frame_count b1 = ?c" "fb_frame_size b1 = fb_frame_size b" "fb_read_pos b1 = Suc (fb_read_pos b)"
      "fb_write_pos b1 = fb_write_pos b" "length (fb_frames b1) = ?c"
    using d(3) by (simp_all add: b1_def)
  have other: "fb_frames b1 ! (p mod ?c) = fb_frames b ! (p mod ?c)" if "fb_read_pos b < p" "p < fb_write_pos b" for p
  proof -
    have "i \<noteq> p mod ?c"
      using window_mod[of "fb_read_pos b" p ?c "fb_read_pos b"] that d(1,5) by (auto simp: i_def)
    then show ?thesis by (simp add: b1_def)
  qed
  have queue: "fb_queue b = fb_entry b (fb_read_pos b) # fb_queue b1"
  proof -
    have "fb_queue b1 = map (fb_entry b) [Suc (fb_read_pos b)..<fb_write_pos b]"
      unfolding fb_queue_def fields by (rule map_cong) (use other in \<open>auto simp: fb_entry_def fields\<close>)
    then show ?thesis using True by (simp add: fb_queue_def upt_conv_Cons)
  qed
  have "length (cf_buffer (mf_codec_frame f)) = fb_frame_size b" if "f \<in> set (fb_frames b1)" for f
    using that set_update_subset_insert[of "fb_frames b" i "src\<lparr>mf_type := 0, mf_marker := MPF_MARKER_NONE\<rparr>"] assms(1) src(1)
    by (auto simp: b1_def fb_ok_def)
  moreover have "cf_size (mf_codec_frame (fb_frames b1 ! (p mod ?c))) = fb_frame_size b" if "Suc (fb_read_pos b) \<le> p" "p < fb_write_pos b" for p
    using that other[of p] d(8)[of p] by simp
  ultimately have ok: "fb_ok b1" using d(1-6) True by (simp add: fb_ok_def fields)
  have entry: "fb_entry b (fb_read_pos b) = (mf_type src, cf_buffer (mf_codec_frame src))" by (simp add: fb_entry_def src_def i_def Let_def)
  have cp: "mem_copy (fb_frame_size b) (cf_buffer (mf_codec_frame mf)) (cf_buffer (mf_codec_frame src))
      = Some (cf_buffer (mf_codec_frame src) @ drop (fb_frame_size b) (cf_buffer (mf_codec_frame mf)))"
    using src(1) assms(2) by (simp add: mem_copy_def)
  have audio: "is_audio (mf\<lparr>mf_type := mf_type src, mf_marker := m\<rparr>) = bit (mf_type src) 0" for m by (simp add: frame_type_bits)
  have get: "mpf_frame_buffer_frame_get b (fb_read_pos b) = Some i" using d(1) by (simp add: mpf_frame_buffer_frame_get_def i_def)
  have "\<exists>f. mpf_frame_buffer_read b mf = Some (f, b1) \<and> (mf_type f, frame_audio f) = (mf_type src, if bit (mf_type src) 0 then Some (cf_buffer (mf_codec_frame src)) else None)
      \<and> length (cf_buffer (mf_codec_frame f)) = length (cf_buffer (mf_codec_frame mf))"
    using True assms(2) src by (auto simp: mpf_frame_buffer_read_def get Let_def src_def[symmetric] audio cp inc b1_def frame_audio_def frame_type_bits)
  then show ?thesis using ok queue entry fields by auto
qed

text \<open>The specification: a bounded queue of frames with their types.\<close>

datatype fb_op = FB_Write mpf_frame | FB_Read

fun fb_run :: "fb_op list \<Rightarrow> mpf_frame \<Rightarrow> frame_buffer \<Rightarrow> ((bool + (int \<times> u8 list option)) list \<times> frame_buffer) option" where
  "fb_run [] mf b = Some ([], b)"
| "fb_run (FB_Write f # ops) mf b = do {
     (r, b1) \<leftarrow> mpf_frame_buffer_write b f;
     (rs, b2) \<leftarrow> fb_run ops mf b1;
     Some (Inl r # rs, b2)
   }"
| "fb_run (FB_Read # ops) mf b = do {
     (f, b1) \<leftarrow> mpf_frame_buffer_read b mf;
     (rs, b2) \<leftarrow> fb_run ops f b1;
     Some (Inr (mf_type f, frame_audio f) # rs, b2)
   }"

definition frame_bytes :: "mpf_frame \<Rightarrow> u8 list" where
  "frame_bytes f = take (cf_size (mf_codec_frame f)) (cf_buffer (mf_codec_frame f))"

fun queue_run :: "nat \<Rightarrow> nat \<Rightarrow> fb_op list \<Rightarrow> (int \<times> u8 list) list \<Rightarrow> (bool + (int \<times> u8 list option)) list" where
  "queue_run n k [] q = []"
| "queue_run n k (FB_Write f # ops) q =
     (let cs = take (k - length q) (byte_frames n (frame_bytes f))
      in Inl (cf_size (mf_codec_frame f) = n * length cs) # queue_run n k ops (q @ map (Pair (mf_type f)) cs))"
| "queue_run n k (FB_Read # ops) [] = Inr (0, None) # queue_run n k ops []"
| "queue_run n k (FB_Read # ops) ((ty, bytes) # q) = Inr (ty, if bit ty 0 then Some bytes else None) # queue_run n k ops q"

fun bytes_written :: "fb_op list \<Rightarrow> nat" where
  "bytes_written [] = 0"
| "bytes_written (FB_Write f # ops) = cf_size (mf_codec_frame f) + bytes_written ops"
| "bytes_written (FB_Read # ops) = bytes_written ops"

lemma frame_write_queue:
  assumes "fb_ok b" "cf_size (mf_codec_frame f) \<le> length (cf_buffer (mf_codec_frame f))" "fb_write_pos b + cf_size (mf_codec_frame f) < 2 ^ 64"
  defines "cs \<equiv> take (fb_frame_count b - length (fb_queue b)) (byte_frames (fb_frame_size b) (frame_bytes f))"
  shows "\<exists>b1. mpf_frame_buffer_write b f = Some (cf_size (mf_codec_frame f) = fb_frame_size b * length cs, b1)
    \<and> fb_ok b1 \<and> fb_queue b1 = fb_queue b @ map (Pair (mf_type f)) cs \<and> fb_frame_size b1 = fb_frame_size b
    \<and> fb_frame_count b1 = fb_frame_count b \<and> fb_write_pos b1 \<le> fb_write_pos b + cf_size (mf_codec_frame f)"
proof -
  let ?n = "cf_size (mf_codec_frame f)"
  have "length cs \<le> length (byte_frames (fb_frame_size b) (frame_bytes f))" by (simp add: cs_def)
  then have "fb_frame_size b * length cs \<le> length (frame_bytes f)"
    using byte_frames_size[of "fb_frame_size b" "frame_bytes f"] mult_le_mono2 order_trans by blast
  then have "fb_frame_size b * length cs \<le> ?n" by (simp add: frame_bytes_def)
  then have z: "(?n - fb_frame_size b * length cs = 0) = (?n = fb_frame_size b * length cs)" by linarith
  show ?thesis
    using frame_write_loop_queue[OF assms(1-3), of "mf_type f"] z
    by (auto simp: mpf_frame_buffer_write_def cs_def[unfolded frame_bytes_def, symmetric])
qed

text \<open>
  C15: The frame buffer is a bounded queue: for any sequence of writes and reads every operation
  returns, a write stores as many whole frames as there is room for and says whether that was all,
  and a read returns the oldest frame with its type and audio, or no frame when the queue is
  empty. (The marker and the event of a frame are not kept.)
\<close>

theorem frame_buffer_refines_queue:
  assumes "fb_ok b" and "fb_frame_size b \<le> length (cf_buffer (mf_codec_frame mf))"
    and "\<forall>op \<in> set ops. case op of FB_Read \<Rightarrow> True | FB_Write f \<Rightarrow> cf_size (mf_codec_frame f) \<le> length (cf_buffer (mf_codec_frame f))"
    and "fb_write_pos b + bytes_written ops < 2 ^ 64"
  shows "\<exists>b1. fb_run ops mf b = Some (queue_run (fb_frame_size b) (fb_frame_count b) ops (fb_queue b), b1) \<and> fb_ok b1"
  using assms
proof (induction ops arbitrary: b mf)
  case Nil
  then show ?case by simp
next
  case (Cons op ops)
  show ?case
  proof (cases op)
    case (FB_Write f)
    obtain b1 where b1: "mpf_frame_buffer_write b f = Some (cf_size (mf_codec_frame f) = fb_frame_size b
          * length (take (fb_frame_count b - length (fb_queue b)) (byte_frames (fb_frame_size b) (frame_bytes f))), b1)"
        "fb_ok b1" "fb_queue b1 = fb_queue b @ map (Pair (mf_type f)) (take (fb_frame_count b - length (fb_queue b)) (byte_frames (fb_frame_size b) (frame_bytes f)))"
        "fb_frame_size b1 = fb_frame_size b" "fb_frame_count b1 = fb_frame_count b" "fb_write_pos b1 \<le> fb_write_pos b + cf_size (mf_codec_frame f)"
      using frame_write_queue[OF Cons.prems(1), of f] Cons.prems(3,4) by (auto simp: FB_Write)
    show ?thesis using Cons.IH[OF b1(2), of mf] Cons.prems b1 by (auto simp: FB_Write Let_def)
  next
    case FB_Read
    obtain f b1 where b1: "mpf_frame_buffer_read b mf = Some (f, b1)" "fb_ok b1" "fb_queue b1 = tl (fb_queue b)"
        "(mf_type f, frame_audio f) = (case fb_queue b of [] \<Rightarrow> (0, None) | (ty, bytes) # _ \<Rightarrow> (ty, if bit ty 0 then Some bytes else None))"
        "length (cf_buffer (mf_codec_frame f)) = length (cf_buffer (mf_codec_frame mf))" "fb_frame_size b1 = fb_frame_size b"
        "fb_frame_count b1 = fb_frame_count b" "fb_write_pos b1 = fb_write_pos b"
      using frame_read_queue[OF Cons.prems(1,2)] by blast
    have r: "queue_run n k (FB_Read # ops) (fb_queue b) = Inr (mf_type f, frame_audio f) # queue_run n k ops (fb_queue b1)" for n k
      unfolding b1(3,4) by (cases "fb_queue b") auto
    show ?thesis using Cons.IH[OF b1(2), of f] Cons.prems b1(1,5-8) unfolding FB_Read r by (auto simp: FB_Read)
  qed
qed

text \<open>The event of a frame is not stored; what is read later is what the memory held before.\<close>

lemma frame_write_keeps_events:
  assumes "0 < fb_frame_size b" "frame_write_loop ty data n b = Some (m, b1)"
  shows "map mf_event_frame (fb_frames b1) = map mf_event_frame (fb_frames b)"
  using assms
proof (induction n arbitrary: data b rule: less_induct)
  case (less n)
  have same: "map mf_event_frame (xs[i := (xs ! i)\<lparr>mf_type := t, mf_codec_frame := cf\<rparr>]) = map mf_event_frame xs" for xs i t cf
    by (cases "i < length xs") (simp_all add: map_update list_update_same_conv list_update_beyond)
  show ?case
  proof (cases "size_t (int (fb_write_pos b) - int (fb_read_pos b)) < fb_frame_count b \<and> fb_frame_size b \<le> n")
    case True
    then have dec: "n - fb_frame_size b < n" using less.prems(1) by linarith
    show ?thesis using less.prems True
      by (subst (asm) frame_write_loop.simps) (auto simp: Let_def same split: bind_splits dest!: less.IH[OF dec, rotated])
  next
    case False
    then show ?thesis using less.prems(2) by (subst (asm) frame_write_loop.simps) auto
  qed
qed

section \<open>Small buffers\<close>

definition sample_frame :: "u8 list \<Rightarrow> nat \<Rightarrow> mpf_frame" where
  "sample_frame bytes n = \<lparr>mf_type = 1, mf_marker = MPF_MARKER_NONE, mf_codec_frame = \<lparr>cf_buffer = bytes, cf_size = n\<rparr>,
     mf_event_frame = event_zero\<rparr>"

theorem media_buffer_read_ends_witness:
  "\<exists>f1 b1. mpf_buffer_frame_read \<lparr>bf_chunks = [\<lparr>ck_type = 1, ck_data = [1, 2]\<rparr>, \<lparr>ck_type = 4, ck_data = []\<rparr>, \<lparr>ck_type = 1, ck_data = [3]\<rparr>],
        bf_cur_chunk = None, bf_remaining_chunk_size = 0, bf_size = 3\<rparr> (sample_frame [9, 9, 9, 9, 9] 4) = Some (f1, b1)
    \<and> cf_buffer (mf_codec_frame f1) = [1, 2, 3, 0, 9] \<and> bf_content b1 = []"
proof -
  let ?b = "\<lparr>bf_chunks = [\<lparr>ck_type = 1, ck_data = [1, 2]\<rparr>, \<lparr>ck_type = 4, ck_data = []\<rparr>, \<lparr>ck_type = 1, ck_data = [3]\<rparr>],
        bf_cur_chunk = None, bf_remaining_chunk_size = 0, bf_size = 3\<rparr>"
  have c: "bf_content ?b = [1, 2, 3]" by (simp add: bf_content_def)
  have "bf_ok ?b" by (simp add: bf_ok_def c)
  moreover have "take 4 ([1, 2, 3] @ replicate 4 (0 :: u8)) = [1, 2, 3, 0]" "drop 4 [1, 2, 3 :: u8] = []" by code_simp+
  ultimately show ?thesis
    using media_buffer_read_ends[of ?b "sample_frame [9, 9, 9, 9, 9] 4"] unfolding c by (auto simp: sample_frame_def)
qed

theorem frame_buffer_refines_queue_witness:
  "\<exists>b1. fb_run [FB_Write (sample_frame [1, 2, 3, 4, 5] 5), FB_Read, FB_Read, FB_Read] (sample_frame [9, 9] 0)
      (mpf_frame_buffer_create 0 event_zero 2 4) = Some ([Inl False, Inr (1, Some [1, 2]), Inr (1, Some [3, 4]), Inr (0, None)], b1)"
proof -
  let ?b = "mpf_frame_buffer_create 0 event_zero 2 4"
  have ok: "fb_ok ?b" "fb_queue ?b = []" by (simp_all add: frame_create_ok)
  have f: "fb_frame_size ?b = 2" "fb_frame_count ?b = 4" "fb_write_pos ?b = 0" by (simp_all add: mpf_frame_buffer_create_def)
  have c: "byte_frames 2 [1, 2, 3, 4, 5] = [[1, 2], [3, 4]]" by (simp add: byte_frames.simps)
  show ?thesis
    using frame_buffer_refines_queue[OF ok(1), of "sample_frame [9, 9] 0" "[FB_Write (sample_frame [1, 2, 3, 4, 5] 5), FB_Read, FB_Read, FB_Read]"]
    by (auto simp: ok(2) f c sample_frame_def frame_bytes_def Let_def simp del: fb_run.simps)
qed

end
