(* ===== verification/Media_Context.thy ===== *)
theory Media_Context
  imports Prelude
begin

unbundle bit_operations_syntax

text \<open>
  \<open>libs/mpf/src/mpf_context.c\<close>: the media context, in which terminations are associated with each
  other, and the topology of bridges, multipliers and mixers that is built from the associations.
  A context holds a matrix with an item for each pair of slots, and for each slot its termination
  and two counters of eight bits. Terminations and contexts are known by their addresses.
\<close>

section \<open>Data\<close>

abbreviation (input) STREAM_DIRECTION_NONE :: int where "STREAM_DIRECTION_NONE \<equiv> 0"
abbreviation (input) STREAM_DIRECTION_SEND :: int where "STREAM_DIRECTION_SEND \<equiv> 1"
abbreviation (input) STREAM_DIRECTION_RECEIVE :: int where "STREAM_DIRECTION_RECEIVE \<equiv> 2"

text \<open>Of a termination the context uses its slot and the direction of its audio stream, if it has one.\<close>

record mpf_termination =
  tm_slot :: nat
  tm_audio_direction :: "int option"

record header_item =
  hi_termination :: "nat option"
  hi_tx_count :: u8
  hi_rx_count :: u8

text \<open>The objects of a topology, by the terminations whose streams they connect.\<close>

datatype mpf_object =
  Bridge nat nat
| Multiplier nat "nat list"
| Mixer "nat list" nat

record media_context =
  mc_capacity :: nat
  mc_count :: nat
  mc_header :: "header_item list"
  mc_matrix :: "bool list list"
  mc_objects :: "mpf_object list"

record media_factory =
  fa_ring :: "nat list"
  fa_contexts :: "nat \<Rightarrow> media_context"
  fa_terminations :: "nat \<Rightarrow> mpf_termination"

text \<open>An item of the matrix, and the two updates of an item with its counters.\<close>

abbreviation (input) term_at :: "media_context \<Rightarrow> nat \<Rightarrow> nat option" where
  "term_at c i \<equiv> hi_termination (mc_header c ! i)"

definition matrix_on :: "media_context \<Rightarrow> nat \<Rightarrow> nat \<Rightarrow> bool" where
  "matrix_on c i j = mc_matrix c ! i ! j"

definition matrix_set :: "nat \<Rightarrow> nat \<Rightarrow> bool \<Rightarrow> media_context \<Rightarrow> media_context" where
  "matrix_set i j b c = c\<lparr>mc_matrix := (mc_matrix c)[i := (mc_matrix c ! i)[j := b]]\<rparr>"

definition header_update :: "nat \<Rightarrow> (header_item \<Rightarrow> header_item) \<Rightarrow> media_context \<Rightarrow> media_context" where
  "header_update i f c = c\<lparr>mc_header := (mc_header c)[i := f (mc_header c ! i)]\<rparr>"

definition item_on :: "nat \<Rightarrow> nat \<Rightarrow> media_context \<Rightarrow> media_context" where
  "item_on i j c =
     header_update j (\<lambda>h. h\<lparr>hi_rx_count := hi_rx_count h + 1\<rparr>)
       (header_update i (\<lambda>h. h\<lparr>hi_tx_count := hi_tx_count h + 1\<rparr>) (matrix_set i j True c))"

definition item_off :: "nat \<Rightarrow> nat \<Rightarrow> media_context \<Rightarrow> media_context" where
  "item_off i j c =
     (if matrix_on c i j then
        header_update j (\<lambda>h. h\<lparr>hi_rx_count := hi_rx_count h - 1\<rparr>)
          (header_update i (\<lambda>h. h\<lparr>hi_tx_count := hi_tx_count h - 1\<rparr>) (matrix_set i j False c))
      else c)"

section \<open>Operations\<close>

definition mpf_context_factory_create :: "media_factory \<Rightarrow> media_factory" where
  "mpf_context_factory_create f = f\<lparr>fa_ring := []\<rparr>"

definition mpf_context_create :: "nat \<Rightarrow> media_context" where
  "mpf_context_create max_termination_count =
     \<lparr>mc_capacity = max_termination_count, mc_count = 0,
      mc_header = replicate max_termination_count \<lparr>hi_termination = None, hi_tx_count = 0, hi_rx_count = 0\<rparr>,
      mc_matrix = replicate max_termination_count (replicate max_termination_count False), mc_objects = []\<rparr>"

definition stream_direction_compatibility_check :: "mpf_termination \<Rightarrow> mpf_termination \<Rightarrow> bool" where
  "stream_direction_compatibility_check t1 t2 \<longleftrightarrow>
     (case (tm_audio_direction t1, tm_audio_direction t2) of
        (Some source, Some sink) \<Rightarrow>
          (source AND STREAM_DIRECTION_RECEIVE) = STREAM_DIRECTION_RECEIVE \<and> (sink AND STREAM_DIRECTION_SEND) = STREAM_DIRECTION_SEND
      | _ \<Rightarrow> False)"

definition mpf_context_termination_add :: "nat \<Rightarrow> nat \<Rightarrow> media_factory \<Rightarrow> bool \<times> media_factory" where
  "mpf_context_termination_add a t f =
     (let c = fa_contexts f a in
      case find (\<lambda>i. term_at c i = None) [0..<mc_capacity c] of
        None \<Rightarrow> (False, f)
      | Some i \<Rightarrow>
          (let c1 = header_update i (\<lambda>_. \<lparr>hi_termination = Some t, hi_tx_count = 0, hi_rx_count = 0\<rparr>) c
           in (True, f\<lparr>fa_ring := (if mc_count c = 0 then fa_ring f @ [a] else fa_ring f),
                 fa_contexts := (fa_contexts f)(a := c1\<lparr>mc_count := mc_count c + 1\<rparr>),
                 fa_terminations := (fa_terminations f)(t := (fa_terminations f t)\<lparr>tm_slot := i\<rparr>)\<rparr>)))"

text \<open>All items of a slot are cleared; the loop ends when it has seen all terminations.\<close>

fun subtract_loop :: "nat \<Rightarrow> nat list \<Rightarrow> nat \<Rightarrow> media_context \<Rightarrow> media_context" where
  "subtract_loop i [] k c = c"
| "subtract_loop i (j # js) k c =
     (if mc_count c \<le> k then c
      else if term_at c j = None then subtract_loop i js k c
      else subtract_loop i js (Suc k) (item_off j i (item_off i j c)))"

definition mpf_context_termination_subtract :: "nat \<Rightarrow> nat \<Rightarrow> media_factory \<Rightarrow> bool \<times> media_factory" where
  "mpf_context_termination_subtract a t f =
     (let c = fa_contexts f a; i = tm_slot (fa_terminations f t) in
      if mc_capacity c \<le> i \<or> term_at c i \<noteq> Some t then (False, f)
      else
        (let c1 = header_update i (\<lambda>h. h\<lparr>hi_termination := None\<rparr>) (subtract_loop i [0..<mc_capacity c] 0 c);
             c2 = c1\<lparr>mc_count := size_t (int (mc_count c1) - 1)\<rparr>
         in (True, f\<lparr>fa_ring := (if mc_count c2 = 0 then remove1 a (fa_ring f) else fa_ring f),
               fa_contexts := (fa_contexts f)(a := c2),
               fa_terminations := (fa_terminations f)(t := (fa_terminations f t)\<lparr>tm_slot := size_t (-1)\<rparr>)\<rparr>)))"

text \<open>The slots of two terminations of a context.\<close>

definition both_slots :: "media_context \<Rightarrow> (nat \<Rightarrow> mpf_termination) \<Rightarrow> nat \<Rightarrow> nat \<Rightarrow> (nat \<times> nat) option" where
  "both_slots c ts t1 t2 =
     (let i = tm_slot (ts t1); j = tm_slot (ts t2) in
      if mc_capacity c \<le> i \<or> mc_capacity c \<le> j then None
      else if term_at c i \<noteq> Some t1 \<or> term_at c j \<noteq> Some t2 then None
      else Some (i, j))"

definition mpf_context_association_add ::
  "(nat \<Rightarrow> mpf_termination) \<Rightarrow> nat \<Rightarrow> nat \<Rightarrow> media_context \<Rightarrow> bool \<times> media_context" where
  "mpf_context_association_add ts t1 t2 c =
     (case both_slots c ts t1 t2 of
        None \<Rightarrow> (False, c)
      | Some (i, j) \<Rightarrow>
          (let c1 = (if \<not> matrix_on c i j \<and> stream_direction_compatibility_check (ts t1) (ts t2) then item_on i j c else c);
               c2 = (if \<not> matrix_on c1 j i \<and> stream_direction_compatibility_check (ts t2) (ts t1) then item_on j i c1 else c1)
           in (True, c2)))"

definition mpf_context_association_remove ::
  "(nat \<Rightarrow> mpf_termination) \<Rightarrow> nat \<Rightarrow> nat \<Rightarrow> media_context \<Rightarrow> bool \<times> media_context" where
  "mpf_context_association_remove ts t1 t2 c =
     (case both_slots c ts t1 t2 of
        None \<Rightarrow> (False, c)
      | Some (i, j) \<Rightarrow> (True, item_off j i (item_off i j c)))"

definition mpf_context_topology_destroy :: "media_context \<Rightarrow> mpf_object list \<times> media_context" where
  "mpf_context_topology_destroy c = (mc_objects c, c\<lparr>mc_objects := []\<rparr>)"

fun reset_row :: "nat \<Rightarrow> nat list \<Rightarrow> media_context \<Rightarrow> media_context" where
  "reset_row i [] c = c"
| "reset_row i (j # js) c =
     (if term_at c j = None then reset_row i js c
      else reset_row i js (item_off j i (item_off i j c)))"

fun reset_loop :: "nat list \<Rightarrow> nat \<Rightarrow> media_context \<Rightarrow> media_context" where
  "reset_loop [] k c = c"
| "reset_loop (i # is) k c =
     (if mc_count c \<le> k then c
      else if term_at c i = None then reset_loop is k c
      else if hi_tx_count (mc_header c ! i) = 0 \<and> hi_rx_count (mc_header c ! i) = 0 then reset_loop is (Suc k) c
      else reset_loop is (Suc k) (reset_row i [i..<mc_capacity c] c))"

definition mpf_context_associations_reset :: "media_context \<Rightarrow> media_context" where
  "mpf_context_associations_reset c = reset_loop [0..<mc_capacity c] 0 (snd (mpf_context_topology_destroy c))"

text \<open>
  Whether an object can be created between the streams is an argument. An array of streams that is
  not filled up to its size is \<open>None\<close>.
\<close>

fun bridge_loop :: "(mpf_object \<Rightarrow> bool) \<Rightarrow> nat \<Rightarrow> nat list \<Rightarrow> media_context \<Rightarrow> mpf_object option" where
  "bridge_loop creates i [] c = None"
| "bridge_loop creates i (j # js) c =
     (case term_at c j of
        None \<Rightarrow> bridge_loop creates i js c
      | Some t2 \<Rightarrow>
          if \<not> matrix_on c i j then bridge_loop creates i js c
          else if 1 < hi_rx_count (mc_header c ! j) then None
          else (case term_at c i of
                  None \<Rightarrow> bridge_loop creates i js c
                | Some t1 \<Rightarrow> if creates (Bridge t1 t2) then Some (Bridge t1 t2) else None))"

definition mpf_context_bridge_create :: "(mpf_object \<Rightarrow> bool) \<Rightarrow> media_context \<Rightarrow> nat \<Rightarrow> mpf_object option" where
  "mpf_context_bridge_create creates c i = bridge_loop creates i [0..<mc_capacity c] c"

fun streams_collect :: "(nat \<Rightarrow> bool) \<Rightarrow> media_context \<Rightarrow> nat list \<Rightarrow> nat \<Rightarrow> nat list" where
  "streams_collect on c [] n = []"
| "streams_collect on c (j # js) n =
     (if n = 0 then []
      else (case term_at c j of
              None \<Rightarrow> streams_collect on c js n
            | Some t \<Rightarrow> if on j then t # streams_collect on c js (n - 1) else streams_collect on c js n))"

definition mpf_context_multiplier_create ::
  "(mpf_object \<Rightarrow> bool) \<Rightarrow> media_context \<Rightarrow> nat \<Rightarrow> mpf_object option option" where
  "mpf_context_multiplier_create creates c i =
     (let n = unat (hi_tx_count (mc_header c ! i)); sinks = streams_collect (matrix_on c i) c [0..<mc_capacity c] n in
      case term_at c i of
        None \<Rightarrow> None
      | Some t \<Rightarrow> if length sinks < n then None
                  else Some (if creates (Multiplier t sinks) then Some (Multiplier t sinks) else None))"

definition mpf_context_mixer_create ::
  "(mpf_object \<Rightarrow> bool) \<Rightarrow> media_context \<Rightarrow> nat \<Rightarrow> mpf_object option option" where
  "mpf_context_mixer_create creates c j =
     (let n = unat (hi_rx_count (mc_header c ! j)); sources = streams_collect (\<lambda>i. matrix_on c i j) c [0..<mc_capacity c] n in
      case term_at c j of
        None \<Rightarrow> None
      | Some t \<Rightarrow> if length sources < n then None
                  else Some (if creates (Mixer sources t) then Some (Mixer sources t) else None))"

definition mpf_context_object_add :: "mpf_object option \<Rightarrow> media_context \<Rightarrow> bool \<times> media_context" where
  "mpf_context_object_add ob c =
     (case ob of None \<Rightarrow> (False, c) | Some b \<Rightarrow> (True, c\<lparr>mc_objects := mc_objects c @ [b]\<rparr>))"

text \<open>One slot of the topology, and the loop over the slots.\<close>

definition topology_slot :: "(mpf_object \<Rightarrow> bool) \<Rightarrow> nat \<Rightarrow> media_context \<Rightarrow> media_context option" where
  "topology_slot creates i c = do {
     let tx = hi_tx_count (mc_header c ! i);
     c1 \<leftarrow> (if 0 < tx then do {
              ob \<leftarrow> (if tx = 1 then Some (mpf_context_bridge_create creates c i)
                     else mpf_context_multiplier_create creates c i);
              Some (snd (mpf_context_object_add ob c))
            } else Some c);
     if 1 < hi_rx_count (mc_header c1 ! i) then do {
       ob \<leftarrow> mpf_context_mixer_create creates c1 i;
       Some (snd (mpf_context_object_add ob c1))
     } else Some c1
   }"

fun topology_loop :: "(mpf_object \<Rightarrow> bool) \<Rightarrow> nat list \<Rightarrow> nat \<Rightarrow> media_context \<Rightarrow> media_context option" where
  "topology_loop creates [] k c = Some c"
| "topology_loop creates (i # is) k c =
     (if mc_count c \<le> k then Some c
      else if term_at c i = None then topology_loop creates is k c
      else do { c1 \<leftarrow> topology_slot creates i c; topology_loop creates is (Suc k) c1 })"

definition mpf_context_topology_apply :: "(mpf_object \<Rightarrow> bool) \<Rightarrow> media_context \<Rightarrow> media_context option" where
  "mpf_context_topology_apply creates c =
     topology_loop creates [0..<mc_capacity c] 0 (snd (mpf_context_topology_destroy c))"

text \<open>The terminations of a context are subtracted one by one; the output names them.\<close>

fun destroy_loop :: "nat \<Rightarrow> nat list \<Rightarrow> media_factory \<Rightarrow> nat list \<times> media_factory" where
  "destroy_loop a [] f = ([], f)"
| "destroy_loop a (i # is) f =
     (case term_at (fa_contexts f a) i of
        None \<Rightarrow> destroy_loop a is f
      | Some t \<Rightarrow> (let (ts, f1) = destroy_loop a is (snd (mpf_context_termination_subtract a t f)) in (t # ts, f1)))"

definition mpf_context_destroy :: "nat \<Rightarrow> media_factory \<Rightarrow> nat list \<times> media_factory" where
  "mpf_context_destroy a f = destroy_loop a [0..<mc_capacity (fa_contexts f a)] f"

definition mpf_context_process :: "media_context \<Rightarrow> mpf_object list" where
  "mpf_context_process c = mc_objects c"

definition mpf_context_factory_process :: "media_factory \<Rightarrow> mpf_object list" where
  "mpf_context_factory_process f = concat (map (\<lambda>a. mpf_context_process (fa_contexts f a)) (fa_ring f))"

section \<open>Consistency of a context\<close>

definition ctx_shape :: "media_context \<Rightarrow> bool" where
  "ctx_shape c \<longleftrightarrow> length (mc_header c) = mc_capacity c \<and> length (mc_matrix c) = mc_capacity c
     \<and> (\<forall>i < mc_capacity c. length (mc_matrix c ! i) = mc_capacity c)"

definition out_slots :: "media_context \<Rightarrow> nat \<Rightarrow> nat set" where
  "out_slots c i = {j. j < mc_capacity c \<and> matrix_on c i j}"

definition in_slots :: "media_context \<Rightarrow> nat \<Rightarrow> nat set" where
  "in_slots c j = {i. i < mc_capacity c \<and> matrix_on c i j}"

definition used_slots :: "media_context \<Rightarrow> nat set" where
  "used_slots c = {i. i < mc_capacity c \<and> term_at c i \<noteq> None}"

text \<open>The counters are those of the matrix, modulo 256.\<close>

definition ctx_counts :: "media_context \<Rightarrow> bool" where
  "ctx_counts c \<longleftrightarrow> (\<forall>i < mc_capacity c. hi_tx_count (mc_header c ! i) = of_nat (card (out_slots c i))
     \<and> hi_rx_count (mc_header c ! i) = of_nat (card (in_slots c i)))"

definition ctx_ok :: "(nat \<Rightarrow> mpf_termination) \<Rightarrow> media_context \<Rightarrow> bool" where
  "ctx_ok ts c \<longleftrightarrow> ctx_shape c \<and> ctx_counts c \<and> mc_capacity c < 2 ^ 64 \<and> mc_count c = card (used_slots c)
     \<and> (\<forall>i < mc_capacity c. \<forall>t. term_at c i = Some t \<longrightarrow> tm_slot (ts t) = i)
     \<and> (\<forall>i < mc_capacity c. \<forall>j < mc_capacity c. matrix_on c i j \<longrightarrow> i \<in> used_slots c \<and> j \<in> used_slots c)"

lemma finite_slots [simp]: "finite (out_slots c i)" "finite (in_slots c i)" "finite (used_slots c)"
  by (simp_all add: out_slots_def in_slots_def used_slots_def)

lemma header_update_fields [simp]:
  "mc_capacity (header_update i f c) = mc_capacity c" "mc_count (header_update i f c) = mc_count c"
  "mc_objects (header_update i f c) = mc_objects c" "mc_matrix (header_update i f c) = mc_matrix c"
  "length (mc_header (header_update i f c)) = length (mc_header c)" "matrix_on (header_update i f c) = matrix_on c"
  by (auto simp: header_update_def matrix_on_def fun_eq_iff)

lemma header_update_at:
  "i < length (mc_header c) \<Longrightarrow> mc_header (header_update i f c) ! j = (if j = i then f (mc_header c ! i) else mc_header c ! j)"
  by (simp add: header_update_def nth_list_update)

lemma matrix_set_fields [simp]:
  "mc_capacity (matrix_set i j b c) = mc_capacity c" "mc_count (matrix_set i j b c) = mc_count c"
  "mc_objects (matrix_set i j b c) = mc_objects c" "mc_header (matrix_set i j b c) = mc_header c"
  by (simp_all add: matrix_set_def)

lemma matrix_set_on:
  assumes "ctx_shape c" "i < mc_capacity c" "j < mc_capacity c"
  shows "matrix_on (matrix_set i j b c) k l = (if k = i \<and> l = j then b else matrix_on c k l)"
  using assms by (auto simp: matrix_on_def matrix_set_def ctx_shape_def nth_list_update)

lemma matrix_set_shape: "ctx_shape c \<Longrightarrow> ctx_shape (matrix_set i j b c)"
  by (cases "i < mc_capacity c") (auto simp: ctx_shape_def matrix_set_def nth_list_update)

lemma header_update_shape: "ctx_shape (header_update i f c) = ctx_shape c"
  by (simp add: ctx_shape_def)

text \<open>The two updates of an item: what they leave alone, the matrix, and the counters.\<close>

lemma item_fields [simp]:
  "mc_capacity (item_on i j c) = mc_capacity c" "mc_count (item_on i j c) = mc_count c" "mc_objects (item_on i j c) = mc_objects c"
  "mc_capacity (item_off i j c) = mc_capacity c" "mc_count (item_off i j c) = mc_count c" "mc_objects (item_off i j c) = mc_objects c"
  by (simp_all add: item_on_def item_off_def)

lemma item_shape:
  assumes "ctx_shape c"
  shows "ctx_shape (item_on i j c)" "ctx_shape (item_off i j c)"
  using assms by (simp_all add: item_on_def item_off_def header_update_shape matrix_set_shape)

lemma item_matrix:
  assumes "ctx_shape c" "i < mc_capacity c" "j < mc_capacity c"
  shows "matrix_on (item_on i j c) k l = (k = i \<and> l = j \<or> matrix_on c k l)"
    "matrix_on (item_off i j c) k l = (\<not> (k = i \<and> l = j) \<and> matrix_on c k l)"
  using matrix_set_on[OF assms] by (auto simp: item_on_def item_off_def)

lemma item_term:
  assumes "ctx_shape c" "i < mc_capacity c" "j < mc_capacity c"
  shows "term_at (item_on i j c) k = term_at c k" "term_at (item_off i j c) k = term_at c k"
  using assms by (auto simp: item_on_def item_off_def header_update_at ctx_shape_def)

lemma item_on_slots:
  assumes "ctx_shape c" "i < mc_capacity c" "j < mc_capacity c"
  shows "out_slots (item_on i j c) k = (if k = i then insert j (out_slots c k) else out_slots c k)"
    "in_slots (item_on i j c) k = (if k = j then insert i (in_slots c k) else in_slots c k)"
  using assms item_matrix[OF assms] by (auto simp: out_slots_def in_slots_def)

lemma item_off_slots:
  assumes "ctx_shape c" "i < mc_capacity c" "j < mc_capacity c"
  shows "out_slots (item_off i j c) k = (if k = i then out_slots c k - {j} else out_slots c k)"
    "in_slots (item_off i j c) k = (if k = j then in_slots c k - {i} else in_slots c k)"
  using assms item_matrix[OF assms] by (auto simp: out_slots_def in_slots_def)

lemma item_on_counts:
  assumes "ctx_shape c" "i < mc_capacity c" "j < mc_capacity c" "\<not> matrix_on c i j" "ctx_counts c"
  shows "ctx_counts (item_on i j c)"
proof -
  have n: "j \<notin> out_slots c i" "i \<notin> in_slots c j" using assms(4) by (simp_all add: out_slots_def in_slots_def)
  have l: "length (mc_header c) = mc_capacity c" using assms(1) by (simp add: ctx_shape_def)
  show ?thesis using assms(2,3,5) n l
    unfolding ctx_counts_def item_on_slots[OF assms(1-3)] item_fields
    by (auto simp: item_on_def header_update_at)
qed

lemma item_off_counts:
  assumes "ctx_shape c" "i < mc_capacity c" "j < mc_capacity c" "ctx_counts c"
  shows "ctx_counts (item_off i j c)"
proof (cases "matrix_on c i j")
  case True
  have n: "j \<in> out_slots c i" "i \<in> in_slots c j" using True assms(2,3) by (simp_all add: out_slots_def in_slots_def)
  have p: "0 < card (out_slots c i)" "0 < card (in_slots c j)" using n by (auto simp: card_gt_0_iff)
  have l: "length (mc_header c) = mc_capacity c" using assms(1) by (simp add: ctx_shape_def)
  show ?thesis using assms(2-4) n l p True
    unfolding ctx_counts_def item_off_slots[OF assms(1-3)] item_fields
    by (auto simp: item_off_def header_update_at of_nat_diff)
next
  case False
  then show ?thesis using assms(4) by (simp add: item_off_def)
qed

lemma ctx_okD:
  assumes "ctx_ok ts c"
  shows "ctx_shape c" "ctx_counts c" "mc_count c = card (used_slots c)" "mc_capacity c < 2 ^ 64"
    "i < mc_capacity c \<Longrightarrow> term_at c i = Some t \<Longrightarrow> tm_slot (ts t) = i"
    "i < mc_capacity c \<Longrightarrow> j < mc_capacity c \<Longrightarrow> matrix_on c i j \<Longrightarrow> i \<in> used_slots c \<and> j \<in> used_slots c"
  using assms by (auto simp: ctx_ok_def)

lemma item_used:
  assumes "ctx_shape c" "i < mc_capacity c" "j < mc_capacity c"
  shows "used_slots (item_on i j c) = used_slots c" "used_slots (item_off i j c) = used_slots c"
  using item_term[OF assms] by (simp_all add: used_slots_def)

lemma item_on_ok:
  assumes "ctx_ok ts c" "i \<in> used_slots c" "j \<in> used_slots c" "\<not> matrix_on c i j"
  shows "ctx_ok ts (item_on i j c)"
proof -
  have s: "ctx_shape c" "i < mc_capacity c" "j < mc_capacity c" using assms by (auto simp: ctx_ok_def used_slots_def)
  show ?thesis using assms item_shape(1)[OF s(1)] item_on_counts[OF s assms(4)]
    unfolding ctx_ok_def item_used[OF s] item_term[OF s] item_matrix[OF s] item_fields by auto
qed

lemma item_off_ok:
  assumes "ctx_ok ts c" "i < mc_capacity c" "j < mc_capacity c"
  shows "ctx_ok ts (item_off i j c)"
proof -
  have s: "ctx_shape c" "i < mc_capacity c" "j < mc_capacity c" using assms by (auto simp: ctx_ok_def)
  show ?thesis using assms(1) item_shape(2)[OF s(1)] item_off_counts[OF s]
    unfolding ctx_ok_def item_used[OF s] item_term[OF s] item_matrix[OF s] item_fields by auto
qed

text \<open>
  What clearing some items leaves: the same slots, and a matrix without the items.
\<close>

definition cleared :: "(nat \<Rightarrow> mpf_termination) \<Rightarrow> (nat \<Rightarrow> nat \<Rightarrow> bool) \<Rightarrow> media_context \<Rightarrow> media_context \<Rightarrow> bool" where
  "cleared ts P c c1 \<longleftrightarrow> ctx_ok ts c1 \<and> mc_capacity c1 = mc_capacity c \<and> mc_count c1 = mc_count c \<and> mc_objects c1 = mc_objects c
     \<and> (\<forall>i. term_at c1 i = term_at c i)
     \<and> (\<forall>a < mc_capacity c. \<forall>b < mc_capacity c. matrix_on c1 a b = (matrix_on c a b \<and> \<not> P a b))"

lemma cleared_used: "cleared ts P c c1 \<Longrightarrow> used_slots c1 = used_slots c"
  by (simp add: cleared_def used_slots_def)

lemma cleared_trans: "cleared ts P c c1 \<Longrightarrow> cleared ts Q c1 c2 \<Longrightarrow> cleared ts (\<lambda>a b. P a b \<or> Q a b) c c2"
  by (auto simp: cleared_def)

lemma cleared_cong:
  assumes "cleared ts P c c1" "\<And>a b. a < mc_capacity c \<Longrightarrow> b < mc_capacity c \<Longrightarrow> matrix_on c a b \<Longrightarrow> P a b = Q a b"
  shows "cleared ts Q c c1"
  using assms by (auto simp: cleared_def)

lemma cleared_refl: "ctx_ok ts c \<Longrightarrow> cleared ts (\<lambda>_ _. False) c c"
  by (simp add: cleared_def)

text \<open>The two items of a pair of slots.\<close>

definition pair_of :: "nat \<Rightarrow> nat \<Rightarrow> nat \<Rightarrow> nat \<Rightarrow> bool" where
  "pair_of i j a b \<longleftrightarrow> a = i \<and> b = j \<or> a = j \<and> b = i"

lemma pair_off_cleared:
  assumes "ctx_ok ts c" "i < mc_capacity c" "j < mc_capacity c"
  shows "cleared ts (pair_of i j) c (item_off j i (item_off i j c))"
proof -
  let ?c = "item_off i j c"
  have 1: "ctx_ok ts ?c" by (rule item_off_ok[OF assms])
  have s: "ctx_shape c" "ctx_shape ?c" using ctx_okD(1)[OF assms(1)] ctx_okD(1)[OF 1] .
  show ?thesis
    using item_off_ok[OF 1, of j i] assms item_matrix(2)[OF s(1) assms(2,3)] item_matrix(2)[OF s(2), of j i]
      item_term(2)[OF s(1) assms(2,3)] item_term(2)[OF s(2), of j i]
    by (auto simp: cleared_def pair_of_def)
qed

lemma subtract_loop_cleared:
  assumes "ctx_ok ts c" "i < mc_capacity c" "set js \<subseteq> {..<mc_capacity c}" "distinct js"
    "k + card (used_slots c \<inter> set js) = mc_count c"
  shows "cleared ts (\<lambda>a b. \<exists>j \<in> set js. pair_of i j a b) c (subtract_loop i js k c)"
  using assms
proof (induction js arbitrary: k c)
  case Nil
  then show ?case using cleared_refl by simp
next
  case (Cons j js)
  note ok = Cons.prems(1)
  have off: "\<not> matrix_on c a b" if "pair_of i x a b" "x < mc_capacity c" "x \<notin> used_slots c" for x a b
    using ctx_okD(6)[OF ok, of a b] that Cons.prems(2) by (auto simp: pair_of_def)
  have j: "j < mc_capacity c" "set js \<subseteq> {..<mc_capacity c}" using Cons.prems(3) by auto
  consider (stop) "mc_count c \<le> k" | (free) "k < mc_count c" "j \<notin> used_slots c" | (used) "k < mc_count c" "j \<in> used_slots c" by linarith
  then show ?case
  proof cases
    case stop
    then have "card (used_slots c \<inter> set (j # js)) = 0" using Cons.prems(5) by linarith
    then have "used_slots c \<inter> set (j # js) = {}" by (metis card_0_eq finite_Int finite_slots(3))
    then have "\<not> (\<exists>x \<in> set (j # js). pair_of i x a b)" if "matrix_on c a b" for a b
      using off[of _ a b] that Cons.prems(3) by blast
    then show ?thesis using stop cleared_cong[OF cleared_refl[OF ok], of "\<lambda>a b. \<exists>x \<in> set (j # js). pair_of i x a b"]
      by simp
  next
    case free
    then have t: "term_at c j = None" using j by (simp add: used_slots_def)
    have "used_slots c \<inter> set (j # js) = used_slots c \<inter> set js" using free(2) by auto
    then have "cleared ts (\<lambda>a b. \<exists>j \<in> set js. pair_of i j a b) c (subtract_loop i js k c)"
      using Cons.IH[OF ok Cons.prems(2) j(2), of k] Cons.prems(4,5) by simp
    then show ?thesis using free(1) t off[OF _ j(1) free(2)] by (auto elim!: cleared_cong)
  next
    case used
    then have t: "term_at c j \<noteq> None" by (simp add: used_slots_def)
    let ?c = "item_off j i (item_off i j c)"
    have 1: "cleared ts (pair_of i j) c ?c" by (rule pair_off_cleared[OF ok Cons.prems(2) j(1)])
    have "used_slots c \<inter> set (j # js) = insert j (used_slots c \<inter> set js)" using used(2) by auto
    then have k: "Suc k + card (used_slots ?c \<inter> set js) = mc_count ?c"
      using Cons.prems(4,5) cleared_used[OF 1] by simp
    have "cleared ts (\<lambda>a b. \<exists>j \<in> set js. pair_of i j a b) ?c (subtract_loop i js (Suc k) ?c)"
      using Cons.IH[OF _ _ _ _ k] 1 Cons.prems(2,4) j(2) by (simp add: cleared_def)
    from cleared_trans[OF 1 this] show ?thesis using used(1) t by (auto elim!: cleared_cong)
  qed
qed

lemma reset_row_cleared:
  assumes "ctx_ok ts c" "i < mc_capacity c" "set js \<subseteq> {..<mc_capacity c}"
  shows "cleared ts (\<lambda>a b. \<exists>j \<in> set js. pair_of i j a b) c (reset_row i js c)"
  using assms
proof (induction js arbitrary: c)
  case Nil
  then show ?case using cleared_refl by simp
next
  case (Cons j js)
  note ok = Cons.prems(1)
  have j: "j < mc_capacity c" "set js \<subseteq> {..<mc_capacity c}" using Cons.prems(3) by auto
  show ?case
  proof (cases "term_at c j = None")
    case True
    then have "j \<notin> used_slots c" by (simp add: used_slots_def)
    then have "\<not> (pair_of i j a b)" if "matrix_on c a b" "a < mc_capacity c" "b < mc_capacity c" for a b
      using ctx_okD(6)[OF ok, of a b] that by (auto simp: pair_of_def)
    then show ?thesis using True Cons.IH[OF ok Cons.prems(2) j(2)] by (auto elim!: cleared_cong)
  next
    case False
    let ?c = "item_off j i (item_off i j c)"
    have 1: "cleared ts (pair_of i j) c ?c" by (rule pair_off_cleared[OF ok Cons.prems(2) j(1)])
    have "cleared ts (\<lambda>a b. \<exists>j \<in> set js. pair_of i j a b) ?c (reset_row i js ?c)"
      using Cons.IH[of ?c] 1 Cons.prems(2) j(2) by (simp add: cleared_def)
    from cleared_trans[OF 1 this] show ?thesis using False by (auto elim!: cleared_cong)
  qed
qed

lemma card_small:
  assumes "mc_capacity c \<le> 255"
  shows "unat (of_nat (card (out_slots c i)) :: u8) = card (out_slots c i)"
    "unat (of_nat (card (in_slots c i)) :: u8) = card (in_slots c i)"
proof -
  have "card (out_slots c i) \<le> card {..<mc_capacity c}" "card (in_slots c i) \<le> card {..<mc_capacity c}"
    by (intro card_mono; auto simp: out_slots_def in_slots_def)+
  then show "unat (of_nat (card (out_slots c i)) :: u8) = card (out_slots c i)"
    "unat (of_nat (card (in_slots c i)) :: u8) = card (in_slots c i)"
    using assms by (simp_all add: unat_of_nat)
qed

lemma counts_unat:
  assumes "ctx_ok ts c" "mc_capacity c \<le> 255" "i < mc_capacity c"
  shows "unat (hi_tx_count (mc_header c ! i)) = card (out_slots c i)" "unat (hi_rx_count (mc_header c ! i)) = card (in_slots c i)"
  using ctx_okD(2)[OF assms(1)] assms(3) card_small[OF assms(2)] by (simp_all add: ctx_counts_def)

lemma reset_loop_cleared:
  assumes "ctx_ok ts c" "mc_capacity c \<le> 255" "m \<le> mc_capacity c" "k = card (used_slots c \<inter> {..<m})"
    "\<And>a b. a < mc_capacity c \<Longrightarrow> b < mc_capacity c \<Longrightarrow> matrix_on c a b \<Longrightarrow> m \<le> a \<and> m \<le> b"
  shows "cleared ts (\<lambda>_ _. True) c (reset_loop [m..<mc_capacity c] k c)"
  using assms
proof (induction "mc_capacity c - m" arbitrary: m k c)
  case 0
  then have "m = mc_capacity c" by simp
  then have "\<not> (\<exists>a b. a < mc_capacity c \<and> b < mc_capacity c \<and> matrix_on c a b)" using "0.prems"(5) by fastforce
  then show ?case using \<open>m = mc_capacity c\<close> by (auto intro: cleared_cong[OF cleared_refl[OF "0.prems"(1)]])
next
  case (Suc n)
  note ok = Suc.prems(1)
  have m: "m < mc_capacity c" using Suc.hyps(2) by simp
  have upt: "[m..<mc_capacity c] = m # [Suc m..<mc_capacity c]" using m by (rule upt_conv_Cons)
  have next_k: "card (used_slots c \<inter> {..<Suc m}) = (if m \<in> used_slots c then Suc k else k)"
    using Suc.prems(4) by (simp add: lessThan_Suc)
  have step: "cleared ts (\<lambda>_ _. True) c (reset_loop [Suc m..<mc_capacity c] k' c1)"
    if c1: "cleared ts P c c1" and P: "\<And>a b. matrix_on c a b \<Longrightarrow> a < mc_capacity c \<Longrightarrow> b < mc_capacity c \<Longrightarrow> a = m \<or> b = m \<Longrightarrow> P a b"
      and k': "k' = card (used_slots c \<inter> {..<Suc m})" for P c1 k'
  proof -
    have eq: "mc_capacity c1 = mc_capacity c" "used_slots c1 = used_slots c" using c1 cleared_used[OF c1] by (simp_all add: cleared_def)
    have on: "Suc m \<le> a \<and> Suc m \<le> b" if "a < mc_capacity c1" "b < mc_capacity c1" "matrix_on c1 a b" for a b
    proof -
      have "matrix_on c a b" "\<not> P a b" using c1 that by (auto simp: cleared_def)
      then show ?thesis using Suc.prems(5)[of a b] P[of a b] that(1,2) eq(1) by force
    qed
    have "cleared ts (\<lambda>_ _. True) c1 (reset_loop [Suc m..<mc_capacity c1] k' c1)"
      using Suc.hyps(1)[of c1 "Suc m" k'] Suc.hyps(2) on c1 Suc.prems(2) m eq k' by (simp add: cleared_def)
    from cleared_trans[OF c1 this] show ?thesis unfolding eq(1) by (rule cleared_cong) simp
  qed
  have free: "\<not> (a = m \<or> b = m)" if "matrix_on c a b" "a < mc_capacity c" "b < mc_capacity c" "m \<notin> used_slots c" for a b
    using ctx_okD(6)[OF ok, of a b] that by auto
  consider (stop) "mc_count c \<le> k" | (unused) "k < mc_count c" "m \<notin> used_slots c"
    | (zero) "k < mc_count c" "m \<in> used_slots c" "hi_tx_count (mc_header c ! m) = 0 \<and> hi_rx_count (mc_header c ! m) = 0"
    | (used) "k < mc_count c" "m \<in> used_slots c" "\<not> (hi_tx_count (mc_header c ! m) = 0 \<and> hi_rx_count (mc_header c ! m) = 0)" by linarith
  then show ?case
  proof cases
    case stop
    have "card (used_slots c) \<le> card (used_slots c \<inter> {..<m})" using stop ctx_okD(3)[OF ok] Suc.prems(4) by simp
    then have "used_slots c \<inter> {..<m} = used_slots c" by (intro card_seteq) auto
    then have "\<not> matrix_on c a b" if "a < mc_capacity c" "b < mc_capacity c" for a b
      using Suc.prems(5)[OF that] ctx_okD(6)[OF ok that] by (metis IntD2 lessThan_iff not_less)
    then show ?thesis using stop unfolding upt by (auto intro: cleared_cong[OF cleared_refl[OF ok]])
  next
    case unused
    then have "term_at c m = None" using m by (simp add: used_slots_def)
    then show ?thesis unfolding upt using step[OF cleared_refl[OF ok], of k] unused next_k free[OF _ _ _ unused(2)] by auto
  next
    case zero
    have "card (out_slots c m) = 0" "card (in_slots c m) = 0"
      using counts_unat[OF ok Suc.prems(2) m] zero(3) by simp_all
    then have "out_slots c m = {}" "in_slots c m = {}" by (simp_all only: card_0_eq finite_slots)
    then have "\<not> (a = m \<or> b = m)" if "matrix_on c a b" "a < mc_capacity c" "b < mc_capacity c" for a b
      using that by (auto simp: out_slots_def in_slots_def)
    then show ?thesis unfolding upt using step[OF cleared_refl[OF ok], of "Suc k"] zero next_k by (force simp: used_slots_def)
  next
    case used
    have r: "cleared ts (\<lambda>a b. \<exists>j \<in> set [m..<mc_capacity c]. pair_of m j a b) c (reset_row m [m..<mc_capacity c] c)"
      by (rule reset_row_cleared[OF ok m]) auto
    have "\<exists>j \<in> set [m..<mc_capacity c]. pair_of m j a b" if "matrix_on c a b" "a < mc_capacity c" "b < mc_capacity c" "a = m \<or> b = m" for a b
      using Suc.prems(5)[OF that(2,3,1)] that by (auto simp: pair_of_def)
    then have "cleared ts (\<lambda>_ _. True) c (reset_loop [Suc m..<mc_capacity c] (Suc k) (reset_row m [m..<mc_capacity c] c))"
      using next_k used(2) by (intro step[OF r]) simp_all
    then show ?thesis using used by (subst upt) (auto simp: used_slots_def)
  qed
qed

section \<open>The graph of a context\<close>

text \<open>
  What a context promises: a set of terminations of bounded size, and the directed associations
  between them.
\<close>

definition ctx_members :: "media_context \<Rightarrow> nat set" where
  "ctx_members c = {t. \<exists>i < mc_capacity c. term_at c i = Some t}"

definition ctx_edges :: "media_context \<Rightarrow> (nat \<times> nat) set" where
  "ctx_edges c = {(t, u). \<exists>i < mc_capacity c. \<exists>j < mc_capacity c.
     term_at c i = Some t \<and> term_at c j = Some u \<and> matrix_on c i j}"

definition ctx_graph :: "media_context \<Rightarrow> nat set \<times> (nat \<times> nat) set" where
  "ctx_graph c = (ctx_members c, ctx_edges c)"

lemma members_slot:
  assumes "ctx_ok ts c" "t \<in> ctx_members c"
  shows "tm_slot (ts t) < mc_capacity c" "term_at c (tm_slot (ts t)) = Some t"
  using assms ctx_okD(5)[OF assms(1)] by (auto simp: ctx_members_def)

lemma edges_slots:
  assumes "ctx_ok ts c" "t \<in> ctx_members c" "u \<in> ctx_members c"
  shows "(t, u) \<in> ctx_edges c \<longleftrightarrow> matrix_on c (tm_slot (ts t)) (tm_slot (ts u))"
  using members_slot[OF assms(1)] assms(2,3) ctx_okD(5)[OF assms(1)] by (auto simp: ctx_edges_def)

lemma edges_members: "(t, u) \<in> ctx_edges c \<Longrightarrow> t \<in> ctx_members c \<and> u \<in> ctx_members c"
  by (auto simp: ctx_edges_def ctx_members_def)

lemma card_members:
  assumes "ctx_ok ts c"
  shows "card (ctx_members c) = mc_count c"
proof -
  have "inj_on (\<lambda>t. tm_slot (ts t)) (ctx_members c)"
    by (rule inj_onI) (metis members_slot(2)[OF assms] option.inject)
  moreover have "(\<lambda>t. tm_slot (ts t)) ` ctx_members c = used_slots c"
    using members_slot[OF assms] ctx_okD(5)[OF assms] by (fastforce simp: used_slots_def ctx_members_def image_iff)
  ultimately have "card (used_slots c) = card (ctx_members c)" using card_image by metis
  then show ?thesis using ctx_okD(3)[OF assms] by simp
qed

lemma both_slots_members:
  assumes "ctx_ok ts c"
  shows "both_slots c ts t u = (if t \<in> ctx_members c \<and> u \<in> ctx_members c then Some (tm_slot (ts t), tm_slot (ts u)) else None)"
proof (cases "t \<in> ctx_members c \<and> u \<in> ctx_members c")
  case True
  then show ?thesis using members_slot[OF assms, of t] members_slot[OF assms, of u] by (simp add: both_slots_def Let_def)
next
  case False
  then show ?thesis by (auto simp: both_slots_def Let_def ctx_members_def not_le)
qed

text \<open>Clearing items removes the edges of their terminations.\<close>

lemma cleared_members: "cleared ts P c c1 \<Longrightarrow> ctx_members c1 = ctx_members c"
  by (simp add: cleared_def ctx_members_def)

lemma cleared_edges:
  assumes "ctx_ok ts c" "cleared ts P c c1"
  shows "ctx_edges c1 = {(t, u) \<in> ctx_edges c. \<not> P (tm_slot (ts t)) (tm_slot (ts u))}"
proof -
  have ok: "ctx_ok ts c1" using assms(2) by (simp add: cleared_def)
  have "(t, u) \<in> ctx_edges c1 \<longleftrightarrow> (t, u) \<in> ctx_edges c \<and> \<not> P (tm_slot (ts t)) (tm_slot (ts u))" for t u
  proof (cases "t \<in> ctx_members c \<and> u \<in> ctx_members c")
    case True
    then show ?thesis using edges_slots[OF assms(1)] edges_slots[OF ok] members_slot(1)[OF assms(1)] assms(2)
        cleared_members[OF assms(2)] by (auto simp: cleared_def)
  next
    case False
    then show ?thesis using edges_members cleared_members[OF assms(2)] by blast
  qed
  then show ?thesis by auto
qed

lemma item_on_graph:
  assumes "ctx_ok ts c" "t \<in> ctx_members c" "u \<in> ctx_members c" "\<not> matrix_on c (tm_slot (ts t)) (tm_slot (ts u))"
  defines "c1 \<equiv> item_on (tm_slot (ts t)) (tm_slot (ts u)) c"
  shows "ctx_ok ts c1" "ctx_members c1 = ctx_members c" "ctx_edges c1 = insert (t, u) (ctx_edges c)"
proof -
  note s = ctx_okD(1)[OF assms(1)] members_slot(1)[OF assms(1,2)] members_slot(1)[OF assms(1,3)]
  have u: "tm_slot (ts t) \<in> used_slots c" "tm_slot (ts u) \<in> used_slots c"
    using members_slot[OF assms(1,2)] members_slot[OF assms(1,3)] by (simp_all add: used_slots_def)
  show "ctx_ok ts c1" unfolding c1_def by (rule item_on_ok[OF assms(1) u assms(4)])
  show m: "ctx_members c1 = ctx_members c" using item_term(1)[OF s] by (simp add: c1_def ctx_members_def)
  have slot: "tm_slot (ts x) = tm_slot (ts y) \<longleftrightarrow> x = y" if "x \<in> ctx_members c" "y \<in> ctx_members c" for x y
    using members_slot(2)[OF assms(1)] that by (metis option.inject)
  have "(x, y) \<in> ctx_edges c1 \<longleftrightarrow> (x, y) \<in> insert (t, u) (ctx_edges c)" for x y
  proof (cases "x \<in> ctx_members c \<and> y \<in> ctx_members c")
    case True
    then show ?thesis using edges_slots[OF assms(1)] edges_slots[OF \<open>ctx_ok ts c1\<close>] item_matrix(1)[OF s] slot assms(2,3) m
      by (auto simp: c1_def)
  next
    case False
    then show ?thesis using edges_members m assms(2,3) by blast
  qed
  then show "ctx_edges c1 = insert (t, u) (ctx_edges c)" by auto
qed

section \<open>Operations and the graph\<close>

definition compatible :: "(nat \<Rightarrow> mpf_termination) \<Rightarrow> nat \<Rightarrow> nat \<Rightarrow> bool" where
  "compatible ts t u = stream_direction_compatibility_check (ts t) (ts u)"

datatype ctx_op = CAdd nat | CSubtract nat | CAssociate nat nat | CDissociate nat nat | CReset

fun graph_step :: "nat \<Rightarrow> (nat \<Rightarrow> nat \<Rightarrow> bool) \<Rightarrow> ctx_op \<Rightarrow> nat set \<times> (nat \<times> nat) set \<Rightarrow> bool \<times> nat set \<times> (nat \<times> nat) set" where
  "graph_step n cmp (CAdd t) (M, E) = (if card M < n then (True, insert t M, E) else (False, M, E))"
| "graph_step n cmp (CSubtract t) (M, E) = (if t \<in> M then (True, M - {t}, {(x, y) \<in> E. x \<noteq> t \<and> y \<noteq> t}) else (False, M, E))"
| "graph_step n cmp (CAssociate t u) (M, E) =
     (if t \<in> M \<and> u \<in> M then (True, M, E \<union> {(x, y) \<in> {(t, u), (u, t)}. cmp x y}) else (False, M, E))"
| "graph_step n cmp (CDissociate t u) (M, E) =
     (if t \<in> M \<and> u \<in> M then (True, M, E - {(t, u), (u, t)}) else (False, M, E))"
| "graph_step n cmp CReset (M, E) = (True, M, {})"

definition ctx_apply :: "nat \<Rightarrow> (media_context \<Rightarrow> bool \<times> media_context) \<Rightarrow> media_factory \<Rightarrow> bool \<times> media_factory" where
  "ctx_apply a f fa = (let (r, c) = f (fa_contexts fa a) in (r, fa\<lparr>fa_contexts := (fa_contexts fa)(a := c)\<rparr>))"

fun ctx_step :: "nat \<Rightarrow> ctx_op \<Rightarrow> media_factory \<Rightarrow> bool \<times> media_factory" where
  "ctx_step a (CAdd t) fa = mpf_context_termination_add a t fa"
| "ctx_step a (CSubtract t) fa = mpf_context_termination_subtract a t fa"
| "ctx_step a (CAssociate t u) fa = ctx_apply a (mpf_context_association_add (fa_terminations fa) t u) fa"
| "ctx_step a (CDissociate t u) fa = ctx_apply a (mpf_context_association_remove (fa_terminations fa) t u) fa"
| "ctx_step a CReset fa = ctx_apply a (\<lambda>c. (True, mpf_context_associations_reset c)) fa"

lemma association_add_graph:
  fixes t u :: nat
  assumes "ctx_ok ts c"
  defines "r \<equiv> mpf_context_association_add ts t u c"
  shows "ctx_ok ts (snd r)" "mc_capacity (snd r) = mc_capacity c"
    "(fst r, ctx_graph (snd r)) = graph_step (mc_capacity c) (compatible ts) (CAssociate t u) (ctx_graph c)"
proof -
  have "ctx_ok ts (snd r) \<and> mc_capacity (snd r) = mc_capacity c
    \<and> (fst r, ctx_graph (snd r)) = graph_step (mc_capacity c) (compatible ts) (CAssociate t u) (ctx_graph c)"
  proof (cases "t \<in> ctx_members c \<and> u \<in> ctx_members c")
    case True
    let ?i = "tm_slot (ts t)" and ?j = "tm_slot (ts u)"
    let ?on = "\<lambda>x y c. if \<not> matrix_on c (tm_slot (ts x)) (tm_slot (ts y)) \<and> compatible ts x y
      then item_on (tm_slot (ts x)) (tm_slot (ts y)) c else c"
    have on: "ctx_ok ts (?on x y c) \<and> mc_capacity (?on x y c) = mc_capacity c \<and> ctx_members (?on x y c) = ctx_members c
        \<and> ctx_edges (?on x y c) = ctx_edges c \<union> {p \<in> {(x, y)}. compatible ts (fst p) (snd p)}"
      if "ctx_ok ts c" "x \<in> ctx_members c" "y \<in> ctx_members c" for x y c
      using item_on_graph[OF that] edges_slots[OF that] that(1) by auto
    let ?c1 = "?on t u c"
    have "r = (True, ?on u t ?c1)"
      using True by (simp add: r_def mpf_context_association_add_def both_slots_members[OF assms(1)] compatible_def Let_def)
    then show ?thesis using True on[OF assms(1), of t u] on[of ?c1 u t] by (auto simp: ctx_graph_def)
  next
    case False
    then have "r = (False, c)" by (auto simp: r_def mpf_context_association_add_def both_slots_members[OF assms(1)])
    then show ?thesis using False assms(1) by (auto simp: ctx_graph_def)
  qed
  then show "ctx_ok ts (snd r)" "mc_capacity (snd r) = mc_capacity c"
    "(fst r, ctx_graph (snd r)) = graph_step (mc_capacity c) (compatible ts) (CAssociate t u) (ctx_graph c)" by blast+
qed

lemma association_remove_graph:
  fixes t u :: nat
  assumes "ctx_ok ts c"
  defines "r \<equiv> mpf_context_association_remove ts t u c"
  shows "ctx_ok ts (snd r)" "mc_capacity (snd r) = mc_capacity c"
    "(fst r, ctx_graph (snd r)) = graph_step (mc_capacity c) (compatible ts) (CDissociate t u) (ctx_graph c)"
proof -
  have "ctx_ok ts (snd r) \<and> mc_capacity (snd r) = mc_capacity c
    \<and> (fst r, ctx_graph (snd r)) = graph_step (mc_capacity c) (compatible ts) (CDissociate t u) (ctx_graph c)"
  proof (cases "t \<in> ctx_members c \<and> u \<in> ctx_members c")
    case True
    let ?i = "tm_slot (ts t)" and ?j = "tm_slot (ts u)"
    let ?c = "item_off ?j ?i (item_off ?i ?j c)"
    have cl: "cleared ts (pair_of ?i ?j) c ?c"
      using pair_off_cleared[OF assms(1)] members_slot(1)[OF assms(1)] True by blast
    have slot: "tm_slot (ts x) = tm_slot (ts y) \<longleftrightarrow> x = y" if "x \<in> ctx_members c" "y \<in> ctx_members c" for x y
      using members_slot(2)[OF assms(1)] that by (metis option.inject)
    have "ctx_edges ?c = ctx_edges c - {(t, u), (u, t)}"
      unfolding cleared_edges[OF assms(1) cl] using slot True edges_members[of _ _ c] by (fastforce simp: pair_of_def)
    moreover have "r = (True, ?c)"
      using True by (simp add: r_def mpf_context_association_remove_def both_slots_members[OF assms(1)])
    ultimately show ?thesis using True cl cleared_members[OF cl] by (auto simp: ctx_graph_def cleared_def)
  next
    case False
    then have "r = (False, c)" by (auto simp: r_def mpf_context_association_remove_def both_slots_members[OF assms(1)])
    then show ?thesis using False assms(1) by (auto simp: ctx_graph_def)
  qed
  then show "ctx_ok ts (snd r)" "mc_capacity (snd r) = mc_capacity c"
    "(fst r, ctx_graph (snd r)) = graph_step (mc_capacity c) (compatible ts) (CDissociate t u) (ctx_graph c)" by blast+
qed

lemma objects_irrelevant [simp]:
  "ctx_ok ts (c\<lparr>mc_objects := x\<rparr>) = ctx_ok ts c" "ctx_graph (c\<lparr>mc_objects := x\<rparr>) = ctx_graph c"
  "used_slots (c\<lparr>mc_objects := x\<rparr>) = used_slots c" "matrix_on (c\<lparr>mc_objects := x\<rparr>) = matrix_on c"
proof -
  show m: "matrix_on (c\<lparr>mc_objects := x\<rparr>) = matrix_on c" by (auto simp: matrix_on_def fun_eq_iff)
  show u: "used_slots (c\<lparr>mc_objects := x\<rparr>) = used_slots c" by (simp add: used_slots_def)
  show "ctx_ok ts (c\<lparr>mc_objects := x\<rparr>) = ctx_ok ts c" "ctx_graph (c\<lparr>mc_objects := x\<rparr>) = ctx_graph c"
    using m u by (simp_all add: ctx_ok_def ctx_shape_def ctx_counts_def out_slots_def in_slots_def ctx_graph_def ctx_members_def ctx_edges_def)
qed

lemma associations_reset_graph:
  assumes "ctx_ok ts c" "mc_capacity c \<le> 255"
  shows "ctx_ok ts (mpf_context_associations_reset c)" "mc_capacity (mpf_context_associations_reset c) = mc_capacity c"
    "ctx_graph (mpf_context_associations_reset c) = (ctx_members c, {})"
proof -
  let ?c = "c\<lparr>mc_objects := []\<rparr>"
  have ok: "ctx_ok ts ?c" using assms(1) by simp
  have "\<not> matrix_on ?c a b" if "a < 0" for a b using that by simp
  then have "cleared ts (\<lambda>_ _. True) ?c (reset_loop [0..<mc_capacity ?c] 0 ?c)"
    using reset_loop_cleared[OF ok, of 0 0] assms(2) by simp
  moreover have "reset_loop [0..<mc_capacity ?c] 0 ?c = mpf_context_associations_reset c"
    by (simp add: mpf_context_associations_reset_def mpf_context_topology_destroy_def)
  ultimately have cl: "cleared ts (\<lambda>_ _. True) ?c (mpf_context_associations_reset c)" by simp
  have g: "ctx_members ?c = ctx_members c" using objects_irrelevant(2)[of "[]" c] by (simp add: ctx_graph_def)
  show "ctx_ok ts (mpf_context_associations_reset c)" "mc_capacity (mpf_context_associations_reset c) = mc_capacity c"
    using cl by (auto simp: cleared_def)
  show "ctx_graph (mpf_context_associations_reset c) = (ctx_members c, {})"
    using cleared_edges[OF ok cl] cleared_members[OF cl] g by (simp add: ctx_graph_def)
qed

text \<open>A context of a factory: it is in the ring as long as it has terminations.\<close>

definition fa_ok :: "nat \<Rightarrow> media_factory \<Rightarrow> bool" where
  "fa_ok a f \<longleftrightarrow> ctx_ok (fa_terminations f) (fa_contexts f a)
     \<and> count_list (fa_ring f) a = (if mc_count (fa_contexts f a) = 0 then 0 else 1)"

lemma find_free:
  assumes "ctx_ok ts c"
  shows "case find (\<lambda>i. term_at c i = None) [0..<mc_capacity c] of
      None \<Rightarrow> card (ctx_members c) = mc_capacity c
    | Some i \<Rightarrow> i < mc_capacity c \<and> term_at c i = None \<and> card (ctx_members c) < mc_capacity c"
proof (cases "find (\<lambda>i. term_at c i = None) [0..<mc_capacity c]")
  case None
  then have "used_slots c = {..<mc_capacity c}" by (auto simp: find_None_iff used_slots_def)
  then show ?thesis using None card_members[OF assms] ctx_okD(3)[OF assms] by simp
next
  case (Some i)
  then have i: "i < mc_capacity c" "term_at c i = None" using find_SomeD[of _ "[0..<mc_capacity c]" i] by fastforce+
  then have "used_slots c \<subseteq> {..<mc_capacity c}" "i \<in> {..<mc_capacity c}" "i \<notin> used_slots c" by (auto simp: used_slots_def)
  then have "used_slots c \<subset> {..<mc_capacity c}" by blast
  then have "card (used_slots c) < mc_capacity c" using psubset_card_mono[of "{..<mc_capacity c}"] by simp
  then show ?thesis using Some i card_members[OF assms] ctx_okD(3)[OF assms] by simp
qed

text \<open>A new termination in a free slot.\<close>

lemma slot_filled:
  assumes "ctx_ok ts c" "i < mc_capacity c" "term_at c i = None" "t \<notin> ctx_members c"
  defines "c1 \<equiv> header_update i (\<lambda>_. \<lparr>hi_termination = Some t, hi_tx_count = 0, hi_rx_count = 0\<rparr>) c\<lparr>mc_count := mc_count c + 1\<rparr>"
  shows "ctx_ok (ts(t := (ts t)\<lparr>tm_slot := i\<rparr>)) c1" "ctx_graph c1 = (insert t (ctx_members c), ctx_edges c)"
proof -
  have l: "length (mc_header c) = mc_capacity c" using ctx_okD(1)[OF assms(1)] by (simp add: ctx_shape_def)
  have m: "matrix_on c1 = matrix_on c" by (auto simp: c1_def matrix_on_def header_update_def fun_eq_iff)
  have h: "mc_header c1 ! k = (if k = i then \<lparr>hi_termination = Some t, hi_tx_count = 0, hi_rx_count = 0\<rparr> else mc_header c ! k)" for k
    using assms(2) l by (simp add: c1_def header_update_at)
  have cap: "mc_capacity c1 = mc_capacity c" "ctx_shape c1 = ctx_shape c" by (simp_all add: c1_def ctx_shape_def)
  have free: "i \<notin> used_slots c" using assms(3) by (simp add: used_slots_def)
  have off: "\<not> matrix_on c i b" "\<not> matrix_on c b i" if "b < mc_capacity c" for b
    using ctx_okD(6)[OF assms(1)] assms(2) that free by blast+
  have slots: "out_slots c1 k = out_slots c k" "in_slots c1 k = in_slots c k" for k by (simp_all add: out_slots_def in_slots_def cap m)
  have empty: "out_slots c i = {}" "in_slots c i = {}" using off by (auto simp: out_slots_def in_slots_def)
  have u: "used_slots c1 = insert i (used_slots c)" using assms(2) by (auto simp: used_slots_def cap h)
  have counts: "ctx_counts c1" using ctx_okD(2)[OF assms(1)] empty by (auto simp: ctx_counts_def cap slots h)
  have count: "mc_count c1 = card (used_slots c1)" using ctx_okD(3)[OF assms(1)] free u by (simp add: c1_def)
  have tm: "term_at c1 k = Some x \<longleftrightarrow> k = i \<and> x = t \<or> term_at c k = Some x" for k x using assms(3) by (auto simp: h)
  have "tm_slot ((ts(t := (ts t)\<lparr>tm_slot := i\<rparr>)) x) = k" if "k < mc_capacity c" "term_at c1 k = Some x" for k x
  proof (cases "x = t")
    case True
    then show ?thesis using that assms(4) by (auto simp: tm ctx_members_def)
  next
    case False
    then show ?thesis using that ctx_okD(5)[OF assms(1), of k x] by (simp add: tm)
  qed
  moreover have "a \<in> used_slots c1 \<and> b \<in> used_slots c1" if "a < mc_capacity c" "b < mc_capacity c" "matrix_on c1 a b" for a b
    using ctx_okD(6)[OF assms(1) that(1,2)] that(3) by (simp add: m u)
  ultimately show "ctx_ok (ts(t := (ts t)\<lparr>tm_slot := i\<rparr>)) c1"
    unfolding ctx_ok_def cap using counts count ctx_okD(1,4)[OF assms(1)] by blast
  have "ctx_members c1 = insert t (ctx_members c)" using assms(2) by (auto simp: ctx_members_def cap tm)
  moreover have "ctx_edges c1 = ctx_edges c" using off by (auto simp: ctx_edges_def cap tm m)
  ultimately show "ctx_graph c1 = (insert t (ctx_members c), ctx_edges c)" by (simp add: ctx_graph_def)
qed

lemma compatible_slot: "compatible (ts(t := (ts t)\<lparr>tm_slot := s\<rparr>)) = compatible ts"
  by (simp add: compatible_def stream_direction_compatibility_check_def fun_eq_iff split: option.split)

lemma termination_add_graph:
  fixes a t :: nat
  assumes "fa_ok a f" "t \<notin> ctx_members (fa_contexts f a)"
  defines "r \<equiv> mpf_context_termination_add a t f"
  shows "fa_ok a (snd r)" "mc_capacity (fa_contexts (snd r) a) = mc_capacity (fa_contexts f a)"
    "compatible (fa_terminations (snd r)) = compatible (fa_terminations f)"
    "(fst r, ctx_graph (fa_contexts (snd r) a))
      = graph_step (mc_capacity (fa_contexts f a)) (compatible (fa_terminations f)) (CAdd t) (ctx_graph (fa_contexts f a))"
proof -
  let ?c = "fa_contexts f a" and ?ts = "fa_terminations f"
  have ok: "ctx_ok ?ts ?c" using assms(1) by (simp add: fa_ok_def)
  show "compatible (fa_terminations (snd r)) = compatible ?ts"
    by (simp add: r_def mpf_context_termination_add_def Let_def compatible_slot split: option.split)
  have "fa_ok a (snd r) \<and> mc_capacity (fa_contexts (snd r) a) = mc_capacity ?c
    \<and> (fst r, ctx_graph (fa_contexts (snd r) a)) = graph_step (mc_capacity ?c) (compatible ?ts) (CAdd t) (ctx_graph ?c)"
  proof (cases "find (\<lambda>i. term_at ?c i = None) [0..<mc_capacity ?c]")
    case None
    then have "r = (False, f)" by (simp add: r_def mpf_context_termination_add_def Let_def)
    then show ?thesis using find_free[OF ok] None assms(1) by (simp add: ctx_graph_def)
  next
    case (Some i)
    have i: "i < mc_capacity ?c" "term_at ?c i = None" "card (ctx_members ?c) < mc_capacity ?c"
      using find_free[OF ok] Some by simp_all
    note s = slot_filled[OF ok i(1,2) assms(2)]
    show ?thesis using Some i s assms(1)
      by (simp add: r_def mpf_context_termination_add_def Let_def fa_ok_def ctx_graph_def count_list_append)
  qed
  then show "fa_ok a (snd r)" "mc_capacity (fa_contexts (snd r) a) = mc_capacity ?c"
    "(fst r, ctx_graph (fa_contexts (snd r) a)) = graph_step (mc_capacity ?c) (compatible ?ts) (CAdd t) (ctx_graph ?c)" by blast+
qed

text \<open>A termination leaves its slot.\<close>

lemma slot_cleared:
  assumes "ctx_ok ts c" "t \<in> ctx_members c"
  defines "i \<equiv> tm_slot (ts t)"
  defines "c1 \<equiv> header_update i (\<lambda>h. h\<lparr>hi_termination := None\<rparr>) (subtract_loop i [0..<mc_capacity c] 0 c)"
  defines "c2 \<equiv> c1\<lparr>mc_count := size_t (int (mc_count c1) - 1)\<rparr>"
  shows "ctx_ok (ts(t := (ts t)\<lparr>tm_slot := s\<rparr>)) c2" "mc_capacity c2 = mc_capacity c" "mc_count c = Suc (mc_count c2)"
    "ctx_graph c2 = (ctx_members c - {t}, {(x, y) \<in> ctx_edges c. x \<noteq> t \<and> y \<noteq> t})"
proof -
  let ?n = "mc_capacity c" and ?l = "subtract_loop i [0..<mc_capacity c] 0 c"
  have i: "i < ?n" "term_at c i = Some t" using members_slot[OF assms(1,2)] by (simp_all add: i_def)
  have "used_slots c \<inter> set [0..<?n] = used_slots c" by (auto simp: used_slots_def)
  then have cl: "cleared ts (\<lambda>a b. \<exists>j \<in> set [0..<?n]. pair_of i j a b) c ?l"
    using ctx_okD(3)[OF assms(1)] by (intro subtract_loop_cleared[OF assms(1) i(1)]) auto
  have ok: "ctx_ok ts ?l" and cap: "mc_capacity ?l = ?n" and count: "mc_count ?l = mc_count c"
    using cl by (simp_all add: cleared_def)
  have on: "matrix_on ?l a b = (matrix_on c a b \<and> a \<noteq> i \<and> b \<noteq> i)" if "a < ?n" "b < ?n" for a b
    using cl that i(1) by (auto simp: cleared_def pair_of_def)
  have cap2: "mc_capacity c2 = ?n" "ctx_shape c2" using ctx_okD(1)[OF ok] by (simp_all add: c2_def c1_def cap ctx_shape_def)
  then show "mc_capacity c2 = mc_capacity c" by simp
  have l: "length (mc_header ?l) = ?n" using ctx_okD(1)[OF ok] cap by (simp add: ctx_shape_def)
  have m: "matrix_on c2 = matrix_on ?l" by (auto simp: c2_def c1_def matrix_on_def header_update_def fun_eq_iff)
  have h: "mc_header c2 ! k = (if k = i then (mc_header ?l ! i)\<lparr>hi_termination := None\<rparr> else mc_header ?l ! k)" for k
    using i(1) l by (simp add: c2_def c1_def header_update_at)
  have tl: "term_at ?l k = term_at c k" for k using cl by (simp add: cleared_def)
  have tm: "term_at c2 k = Some x \<longleftrightarrow> k \<noteq> i \<and> term_at c k = Some x" for k x by (simp add: h tl)
  have u: "used_slots c2 = used_slots c - {i}" by (auto simp: used_slots_def cap2 h tl)
  have ui: "i \<in> used_slots c" using i by (simp add: used_slots_def)
  have "mc_count c \<noteq> 0" using ctx_okD(3)[OF assms(1)] ui by (auto simp: card_eq_0_iff)
  moreover have "mc_count c < 2 ^ 64"
  proof -
    have "card (used_slots c) \<le> card {..<?n}" by (rule card_mono) (auto simp: used_slots_def)
    then show ?thesis using ctx_okD(3,4)[OF assms(1)] by simp
  qed
  ultimately have "mc_count c2 = mc_count c - 1"
    using size_t_id[of "mc_count c - 1"] by (simp add: c2_def c1_def count of_nat_diff)
  then show count2: "mc_count c = Suc (mc_count c2)" using \<open>mc_count c \<noteq> 0\<close> by simp
  have slots: "out_slots c2 k = out_slots ?l k" "in_slots c2 k = in_slots ?l k" for k
    by (simp_all add: out_slots_def in_slots_def cap2 cap m)
  have counts: "ctx_counts c2" using ctx_okD(2)[OF ok] by (auto simp: ctx_counts_def cap2 cap slots h)
  have card: "mc_count c2 = card (used_slots c2)" using count2 ctx_okD(3)[OF assms(1)] u ui by simp
  have "tm_slot ((ts(t := (ts t)\<lparr>tm_slot := s\<rparr>)) x) = k" if "k < ?n" "term_at c2 k = Some x" for k x
  proof -
    have k: "k \<noteq> i" "term_at c k = Some x" using that(2) by (simp_all add: tm)
    then have "tm_slot (ts x) = k" using ctx_okD(5)[OF assms(1) that(1)] by simp
    then show ?thesis using k(1) by (auto simp: i_def)
  qed
  moreover have "a \<in> used_slots c2 \<and> b \<in> used_slots c2" if "a < ?n" "b < ?n" "matrix_on c2 a b" for a b
    using ctx_okD(6)[OF assms(1) that(1,2)] on[OF that(1,2)] that(3) by (simp add: m u)
  ultimately show "ctx_ok (ts(t := (ts t)\<lparr>tm_slot := s\<rparr>)) c2"
    unfolding ctx_ok_def cap2(1) using cap2(2) counts card ctx_okD(4)[OF assms(1)] by blast
  have it: "term_at c k = Some t \<longleftrightarrow> k = i" if "k < ?n" for k
    using i(2) ctx_okD(5)[OF assms(1) that] by (auto simp: i_def)
  have tm2: "term_at c2 k = Some x \<longleftrightarrow> term_at c k = Some x \<and> x \<noteq> t" if "k < ?n" for k x using it[OF that] tm by auto
  then have "ctx_members c2 = ctx_members c - {t}" by (auto simp: ctx_members_def cap2)
  moreover have "(x, y) \<in> ctx_edges c2 \<longleftrightarrow> (x, y) \<in> ctx_edges c \<and> x \<noteq> t \<and> y \<noteq> t" for x y
  proof -
    have "matrix_on c2 k l = matrix_on c k l" if "k < ?n" "l < ?n" "term_at c k = Some x" "term_at c l = Some y" "x \<noteq> t" "y \<noteq> t" for k l
      using that i(2) on[OF that(1,2)] by (auto simp: m)
    then have "k < ?n \<and> l < ?n \<and> term_at c2 k = Some x \<and> term_at c2 l = Some y \<and> matrix_on c2 k l
        \<longleftrightarrow> k < ?n \<and> l < ?n \<and> term_at c k = Some x \<and> term_at c l = Some y \<and> matrix_on c k l \<and> x \<noteq> t \<and> y \<noteq> t" for k l
      using tm2 by metis
    then show ?thesis unfolding ctx_edges_def cap2 mem_Collect_eq prod.case by blast
  qed
  then have "ctx_edges c2 = {(x, y) \<in> ctx_edges c. x \<noteq> t \<and> y \<noteq> t}" by auto
  ultimately show "ctx_graph c2 = (ctx_members c - {t}, {(x, y) \<in> ctx_edges c. x \<noteq> t \<and> y \<noteq> t})"
    by (simp add: ctx_graph_def)
qed

lemma termination_subtract_graph:
  fixes a t :: nat
  assumes "fa_ok a f"
  defines "r \<equiv> mpf_context_termination_subtract a t f"
  shows "fa_ok a (snd r)" "mc_capacity (fa_contexts (snd r) a) = mc_capacity (fa_contexts f a)"
    "compatible (fa_terminations (snd r)) = compatible (fa_terminations f)"
    "(fst r, ctx_graph (fa_contexts (snd r) a))
      = graph_step (mc_capacity (fa_contexts f a)) (compatible (fa_terminations f)) (CSubtract t) (ctx_graph (fa_contexts f a))"
proof -
  let ?c = "fa_contexts f a" and ?ts = "fa_terminations f"
  have ok: "ctx_ok ?ts ?c" using assms(1) by (simp add: fa_ok_def)
  show "compatible (fa_terminations (snd r)) = compatible ?ts"
    by (simp add: r_def mpf_context_termination_subtract_def Let_def compatible_slot)
  have "fa_ok a (snd r) \<and> mc_capacity (fa_contexts (snd r) a) = mc_capacity ?c
    \<and> (fst r, ctx_graph (fa_contexts (snd r) a)) = graph_step (mc_capacity ?c) (compatible ?ts) (CSubtract t) (ctx_graph ?c)"
  proof (cases "t \<in> ctx_members ?c")
    case True
    note s = slot_cleared[OF ok True]
    have "\<not> (mc_capacity ?c \<le> tm_slot (?ts t) \<or> term_at ?c (tm_slot (?ts t)) \<noteq> Some t)"
      using members_slot[OF ok True] by simp
    moreover have "mc_count ?c \<noteq> 0" using s(3) by simp
    ultimately show ?thesis using s True assms(1)
      by (simp add: r_def mpf_context_termination_subtract_def Let_def fa_ok_def ctx_graph_def count_list_remove1)
  next
    case False
    then have "mc_capacity ?c \<le> tm_slot (?ts t) \<or> term_at ?c (tm_slot (?ts t)) \<noteq> Some t"
      by (auto simp: ctx_members_def not_le)
    then have "r = (False, f)" by (simp add: r_def mpf_context_termination_subtract_def Let_def)
    then show ?thesis using False assms(1) by (simp add: ctx_graph_def)
  qed
  then show "fa_ok a (snd r)" "mc_capacity (fa_contexts (snd r) a) = mc_capacity ?c"
    "(fst r, ctx_graph (fa_contexts (snd r) a)) = graph_step (mc_capacity ?c) (compatible ?ts) (CSubtract t) (ctx_graph ?c)" by blast+
qed

section \<open>Sequences of operations\<close>

fun ctx_run :: "nat \<Rightarrow> ctx_op list \<Rightarrow> media_factory \<Rightarrow> bool list \<times> media_factory" where
  "ctx_run a [] f = ([], f)"
| "ctx_run a (op # ops) f =
     (let (r, f1) = ctx_step a op f; (rs, f2) = ctx_run a ops f1 in (r # rs, f2))"

fun graph_run ::
  "nat \<Rightarrow> (nat \<Rightarrow> nat \<Rightarrow> bool) \<Rightarrow> ctx_op list \<Rightarrow> nat set \<times> (nat \<times> nat) set \<Rightarrow> bool list \<times> nat set \<times> (nat \<times> nat) set" where
  "graph_run n cmp [] G = ([], G)"
| "graph_run n cmp (op # ops) G =
     (let (r, G1) = graph_step n cmp op G; (rs, G2) = graph_run n cmp ops G1 in (r # rs, G2))"

text \<open>A termination that is in the context is not added again.\<close>

fun no_readd :: "nat \<Rightarrow> (nat \<Rightarrow> nat \<Rightarrow> bool) \<Rightarrow> ctx_op list \<Rightarrow> nat set \<times> (nat \<times> nat) set \<Rightarrow> bool" where
  "no_readd n cmp [] G = True"
| "no_readd n cmp (op # ops) G =
     ((case op of CAdd t \<Rightarrow> t \<notin> fst G | _ \<Rightarrow> True) \<and> no_readd n cmp ops (snd (graph_step n cmp op G)))"

lemma ctx_step_graph:
  assumes "fa_ok a f" "mc_capacity (fa_contexts f a) \<le> 255"
    and "case op of CAdd t \<Rightarrow> t \<notin> ctx_members (fa_contexts f a) | _ \<Rightarrow> True"
  defines "r \<equiv> ctx_step a op f"
  shows "fa_ok a (snd r) \<and> mc_capacity (fa_contexts (snd r) a) = mc_capacity (fa_contexts f a)
    \<and> compatible (fa_terminations (snd r)) = compatible (fa_terminations f)
    \<and> (fst r, ctx_graph (fa_contexts (snd r) a))
      = graph_step (mc_capacity (fa_contexts f a)) (compatible (fa_terminations f)) op (ctx_graph (fa_contexts f a))"
proof -
  have ok: "ctx_ok (fa_terminations f) (fa_contexts f a)" using assms(1) by (simp add: fa_ok_def)
  have count: "mc_count c = mc_count (fa_contexts f a)"
    if "ctx_ok (fa_terminations f) c" "ctx_members c = ctx_members (fa_contexts f a)" for c
    using card_members[OF that(1)] card_members[OF ok] that(2) by simp
  have apply_ok: "fa_ok a (snd (ctx_apply a g f))"
    if "ctx_ok (fa_terminations f) (snd (g (fa_contexts f a)))"
      "ctx_members (snd (g (fa_contexts f a))) = ctx_members (fa_contexts f a)" for g
    using that assms(1) count[OF that] by (cases "g (fa_contexts f a)") (simp add: ctx_apply_def fa_ok_def)
  show ?thesis
  proof (cases op)
    case (CAdd t)
    then show ?thesis using termination_add_graph[OF assms(1), of t] assms(3) by (simp add: r_def)
  next
    case (CSubtract t)
    then show ?thesis using termination_subtract_graph[OF assms(1), of t] by (simp add: r_def)
  next
    case (CAssociate t u)
    note g = association_add_graph[OF ok, of t u]
    have "ctx_members (snd (mpf_context_association_add (fa_terminations f) t u (fa_contexts f a))) = ctx_members (fa_contexts f a)"
      using arg_cong[OF g(3), of "\<lambda>p. fst (snd p)"] by (simp add: ctx_graph_def split: if_splits)
    from apply_ok[of "mpf_context_association_add (fa_terminations f) t u", OF g(1) this] show ?thesis
      using g(2,3) by (simp add: r_def CAssociate ctx_apply_def split: prod.splits)
  next
    case (CDissociate t u)
    note g = association_remove_graph[OF ok, of t u]
    have "ctx_members (snd (mpf_context_association_remove (fa_terminations f) t u (fa_contexts f a))) = ctx_members (fa_contexts f a)"
      using arg_cong[OF g(3), of "\<lambda>p. fst (snd p)"] by (simp add: ctx_graph_def split: if_splits)
    from apply_ok[of "mpf_context_association_remove (fa_terminations f) t u", OF g(1) this] show ?thesis
      using g(2,3) by (simp add: r_def CDissociate ctx_apply_def split: prod.splits)
  next
    case CReset
    note g = associations_reset_graph[OF ok assms(2)]
    have "ctx_members (mpf_context_associations_reset (fa_contexts f a)) = ctx_members (fa_contexts f a)"
      using arg_cong[OF g(3), of fst] by (simp add: ctx_graph_def)
    from apply_ok[of "\<lambda>c. (True, mpf_context_associations_reset c)"] this show ?thesis
      using g by (simp add: r_def CReset ctx_apply_def ctx_graph_def)
  qed
qed

lemma ctx_run_graph:
  assumes "fa_ok a f" and "mc_capacity (fa_contexts f a) \<le> 255"
    and "no_readd (mc_capacity (fa_contexts f a)) (compatible (fa_terminations f)) ops (ctx_graph (fa_contexts f a))"
  shows "\<exists>rs f1. ctx_run a ops f = (rs, f1) \<and> fa_ok a f1 \<and> mc_capacity (fa_contexts f1 a) = mc_capacity (fa_contexts f a)
    \<and> graph_run (mc_capacity (fa_contexts f a)) (compatible (fa_terminations f)) ops (ctx_graph (fa_contexts f a))
      = (rs, ctx_graph (fa_contexts f1 a))"
  using assms
proof (induction ops arbitrary: f)
  case Nil
  then show ?case by simp
next
  case (Cons op ops)
  let ?n = "mc_capacity (fa_contexts f a)" and ?cmp = "compatible (fa_terminations f)" and ?G = "ctx_graph (fa_contexts f a)"
  obtain r f1 where r: "ctx_step a op f = (r, f1)" by fastforce
  have "case op of CAdd t \<Rightarrow> t \<notin> ctx_members (fa_contexts f a) | _ \<Rightarrow> True"
    using Cons.prems(3) by (simp add: ctx_graph_def split: ctx_op.split_asm)
  from ctx_step_graph[OF Cons.prems(1,2) this] have s: "fa_ok a f1" "mc_capacity (fa_contexts f1 a) = ?n"
      "compatible (fa_terminations f1) = ?cmp" "graph_step ?n ?cmp op ?G = (r, ctx_graph (fa_contexts f1 a))"
    by (simp_all add: r)
  have "no_readd ?n ?cmp ops (ctx_graph (fa_contexts f1 a))" using Cons.prems(3) s(4) by simp
  then show ?case using Cons.IH[OF s(1)] Cons.prems(2) s r by fastforce
qed

lemma context_create_ok:
  assumes "n < 2 ^ 64"
  shows "ctx_ok ts (mpf_context_create n)" "mc_capacity (mpf_context_create n) = n" "mc_count (mpf_context_create n) = 0"
    "ctx_graph (mpf_context_create n) = ({}, {})"
proof -
  let ?c = "mpf_context_create n"
  have c: "mc_capacity ?c = n" "mc_count ?c = 0" "\<And>i. i < n \<Longrightarrow> mc_header ?c ! i = \<lparr>hi_termination = None, hi_tx_count = 0, hi_rx_count = 0\<rparr>"
    "\<And>i j. i < n \<Longrightarrow> j < n \<Longrightarrow> \<not> matrix_on ?c i j" "ctx_shape ?c"
    by (simp_all add: mpf_context_create_def matrix_on_def ctx_shape_def)
  then have e: "used_slots ?c = {}" "\<And>i. i < n \<Longrightarrow> out_slots ?c i = {} \<and> in_slots ?c i = {}"
    by (auto simp: used_slots_def out_slots_def in_slots_def)
  show "mc_capacity ?c = n" "mc_count ?c = 0" by (rule c)+
  show "ctx_ok ts ?c" using c e assms by (simp add: ctx_ok_def ctx_counts_def)
  show "ctx_graph ?c = ({}, {})" using c by (simp add: ctx_graph_def ctx_members_def ctx_edges_def)
qed

text \<open>
  C11: A new media context of at most 255 slots behaves as a graph, as long as no termination is
  added that it holds already (\<open>no_readd\<close>, which the code leaves to its caller): whatever terminations are added, subtracted,
  associated and dissociated, in any order, each operation succeeds exactly when it does on a set of
  terminations of that size and its directed associations, and leaves the same graph; the counters
  of all slots stay those of the matrix and the context is in the ring of its factory exactly while
  it holds terminations.
\<close>

theorem context_refines_graph:
  assumes "fa_contexts f a = mpf_context_create n" and "a \<notin> set (fa_ring f)" and "n \<le> 255"
    and "no_readd n (compatible (fa_terminations f)) ops ({}, {})"
  shows "\<exists>rs f1. ctx_run a ops f = (rs, f1) \<and> fa_ok a f1
    \<and> graph_run n (compatible (fa_terminations f)) ops ({}, {}) = (rs, ctx_graph (fa_contexts f1 a))"
proof -
  have n: "n < 2 ^ 64" using assms(3) by simp
  have "fa_ok a f" using assms(1,2) context_create_ok(1,3)[OF n] by (simp add: fa_ok_def)
  then show ?thesis using ctx_run_graph[of a f ops] assms context_create_ok(2,4)[OF n] by auto
qed

section \<open>The topology\<close>

text \<open>The associations an object carries, and how many objects carry one.\<close>

fun carries :: "mpf_object \<Rightarrow> nat \<Rightarrow> nat \<Rightarrow> bool" where
  "carries (Bridge t1 t2) t u = (t = t1 \<and> u = t2)"
| "carries (Multiplier t1 sinks) t u = (t = t1 \<and> u \<in> set sinks)"
| "carries (Mixer sources t2) t u = (t \<in> set sources \<and> u = t2)"

definition carried :: "mpf_object list \<Rightarrow> nat \<Rightarrow> nat \<Rightarrow> nat" where
  "carried obs t u = length (filter (\<lambda>b. carries b t u) obs)"

lemma carried_append [simp]: "carried (xs @ ys) t u = carried xs t u + carried ys t u"
  by (simp add: carried_def)

lemma carried_Nil [simp]: "carried [] t u = 0"
  by (simp add: carried_def)

lemma carried_one [simp]: "carried [b] t u = (if carries b t u then 1 else 0)"
  by (simp add: carried_def)

definition sink_slots :: "media_context \<Rightarrow> nat \<Rightarrow> nat list" where
  "sink_slots c i = filter (matrix_on c i) [0..<mc_capacity c]"

definition source_slots :: "media_context \<Rightarrow> nat \<Rightarrow> nat list" where
  "source_slots c j = filter (\<lambda>i. matrix_on c i j) [0..<mc_capacity c]"

abbreviation (input) term_of :: "media_context \<Rightarrow> nat \<Rightarrow> nat" where
  "term_of c i \<equiv> the (term_at c i)"

lemma slots_lists:
  "set (sink_slots c i) = out_slots c i" "length (sink_slots c i) = card (out_slots c i)"
  "set (source_slots c i) = in_slots c i" "length (source_slots c i) = card (in_slots c i)"
proof -
  show s: "set (sink_slots c i) = out_slots c i" "set (source_slots c i) = in_slots c i"
    by (auto simp: sink_slots_def source_slots_def out_slots_def in_slots_def)
  have "distinct (sink_slots c i)" "distinct (source_slots c i)" by (simp_all add: sink_slots_def source_slots_def)
  then show "length (sink_slots c i) = card (out_slots c i)" "length (source_slots c i) = card (in_slots c i)"
    using distinct_card s by metis+
qed

text \<open>The objects built for a slot.\<close>

definition slot_tx :: "media_context \<Rightarrow> nat \<Rightarrow> mpf_object list" where
  "slot_tx c i =
     (case sink_slots c i of
        [] \<Rightarrow> []
      | [j] \<Rightarrow> if 1 < card (in_slots c j) then [] else [Bridge (term_of c i) (term_of c j)]
      | _ \<Rightarrow> [Multiplier (term_of c i) (map (term_of c) (sink_slots c i))])"

definition slot_rx :: "media_context \<Rightarrow> nat \<Rightarrow> mpf_object list" where
  "slot_rx c i = (if 1 < card (in_slots c i) then [Mixer (map (term_of c) (source_slots c i)) (term_of c i)] else [])"

lemma streams_collect_all:
  assumes "\<forall>j \<in> set js. on j \<longrightarrow> term_at c j \<noteq> None" "length (filter on js) \<le> n"
  shows "streams_collect on c js n = map (term_of c) (filter on js)"
  using assms
proof (induction js arbitrary: n)
  case (Cons j js)
  then show ?case by (cases "n = 0") (auto simp: filter_empty_conv split: option.split)
qed simp

lemma bridge_loop_single:
  assumes "\<forall>j \<in> set js. matrix_on c i j \<longrightarrow> term_at c j \<noteq> None" "filter (matrix_on c i) js = [j]" "term_at c i \<noteq> None"
  shows "bridge_loop (\<lambda>_. True) i js c = (if 1 < hi_rx_count (mc_header c ! j) then None else Some (Bridge (term_of c i) (term_of c j)))"
  using assms
proof (induction js)
  case (Cons k js)
  then show ?case by (cases "matrix_on c i k") (auto split: option.split)
qed simp

lemma counts_gt:
  assumes "ctx_ok ts c" "mc_capacity c \<le> 255" "i < mc_capacity c"
  shows "1 < hi_rx_count (mc_header c ! i) \<longleftrightarrow> 1 < card (in_slots c i)"
    "0 < hi_tx_count (mc_header c ! i) \<longleftrightarrow> out_slots c i \<noteq> {}"
    "hi_tx_count (mc_header c ! i) = 1 \<longleftrightarrow> card (out_slots c i) = 1"
proof -
  note u = counts_unat[OF assms]
  show "1 < hi_rx_count (mc_header c ! i) \<longleftrightarrow> 1 < card (in_slots c i)" using u(2) by (simp add: word_less_nat_alt)
  show "0 < hi_tx_count (mc_header c ! i) \<longleftrightarrow> out_slots c i \<noteq> {}" using u(1) by (auto simp: word_less_nat_alt card_gt_0_iff)
  show "hi_tx_count (mc_header c ! i) = 1 \<longleftrightarrow> card (out_slots c i) = 1" using u(1) by (simp add: word_unat_eq_iff)
qed

lemma topology_slot_objects:
  assumes "ctx_ok ts c" "mc_capacity c \<le> 255" "i \<in> used_slots c"
  shows "topology_slot (\<lambda>_. True) i c = Some (c\<lparr>mc_objects := mc_objects c @ slot_tx c i @ slot_rx c i\<rparr>)"
proof -
  have i: "i < mc_capacity c" "term_at c i \<noteq> None" using assms(3) by (auto simp: used_slots_def)
  have used: "term_at c a \<noteq> None \<and> term_at c b \<noteq> None" if "a < mc_capacity c" "b < mc_capacity c" "matrix_on c a b" for a b
    using ctx_okD(6)[OF assms(1) that] by (simp add: used_slots_def)
  note g = counts_gt[OF assms(1,2)] and u = counts_unat[OF assms(1,2)]
  have mult: "mpf_context_multiplier_create (\<lambda>_. True) c i = Some (Some (Multiplier (term_of c i) (map (term_of c) (sink_slots c i))))"
    using streams_collect_all[of "[0..<mc_capacity c]" "matrix_on c i" c "card (out_slots c i)"] used[OF i(1)] i u(1)[OF i(1)]
      slots_lists(2)[of c i] by (auto simp: mpf_context_multiplier_create_def sink_slots_def)
  have mix: "mpf_context_mixer_create (\<lambda>_. True) c1 i = Some (Some (Mixer (map (term_of c) (source_slots c i)) (term_of c i)))"
    if "c1 = c\<lparr>mc_objects := x\<rparr>" for c1 x
    using streams_collect_all[of "[0..<mc_capacity c]" "\<lambda>k. matrix_on c k i" c1 "card (in_slots c i)"] used[OF _ i(1)] i u(2)[OF i(1)]
      slots_lists(4)[of c i] that by (auto simp: mpf_context_mixer_create_def source_slots_def)
  have bridge: "mpf_context_bridge_create (\<lambda>_. True) c i = (if 1 < card (in_slots c j) then None else Some (Bridge (term_of c i) (term_of c j)))"
    if "sink_slots c i = [j]" for j
  proof -
    have "j < mc_capacity c" using slots_lists(1)[of c i] that by (auto simp: out_slots_def)
    then show ?thesis
      using bridge_loop_single[of "[0..<mc_capacity c]" c i j] used[OF i(1)] that i(2) g(1)
      by (simp add: mpf_context_bridge_create_def sink_slots_def)
  qed
  consider (none) "sink_slots c i = []" | (one) j where "sink_slots c i = [j]" | (more) j k js where "sink_slots c i = j # k # js"
    by (metis list.exhaust)
  then have "(if 0 < hi_tx_count (mc_header c ! i) then do {
              ob \<leftarrow> (if hi_tx_count (mc_header c ! i) = 1 then Some (mpf_context_bridge_create (\<lambda>_. True) c i)
                     else mpf_context_multiplier_create (\<lambda>_. True) c i);
              Some (snd (mpf_context_object_add ob c))
            } else Some c) = Some (c\<lparr>mc_objects := mc_objects c @ slot_tx c i\<rparr>)" (is "?tx = _")
  proof cases
    case none
    then have "out_slots c i = {}" using slots_lists(1)[of c i] by simp
    then show ?thesis using none g(2)[OF i(1)] by (simp add: slot_tx_def)
  next
    case one
    then have "out_slots c i \<noteq> {}" "card (out_slots c i) = 1" using slots_lists(1,2)[of c i] by auto
    then show ?thesis using one g(2,3)[OF i(1)] bridge[OF one] by (simp add: slot_tx_def mpf_context_object_add_def)
  next
    case more
    then have "out_slots c i \<noteq> {}" "card (out_slots c i) \<noteq> 1" using slots_lists(1,2)[of c i] by auto
    then show ?thesis using more g(2,3)[OF i(1)] mult by (simp add: slot_tx_def mpf_context_object_add_def)
  qed
  then show ?thesis using mix g(1)[OF i(1)]
    by (simp add: topology_slot_def Let_def mpf_context_object_add_def slot_rx_def)
qed

lemma slots_objects [simp]:
  "sink_slots (c\<lparr>mc_objects := x\<rparr>) = sink_slots c" "source_slots (c\<lparr>mc_objects := x\<rparr>) = source_slots c"
  "in_slots (c\<lparr>mc_objects := x\<rparr>) = in_slots c"
  by (simp_all add: sink_slots_def source_slots_def in_slots_def fun_eq_iff)

lemma slot_objects [simp]: "slot_tx (c\<lparr>mc_objects := x\<rparr>) = slot_tx c" "slot_rx (c\<lparr>mc_objects := x\<rparr>) = slot_rx c"
  by (simp_all add: slot_tx_def slot_rx_def fun_eq_iff split: list.split)

lemma topology_loop_objects:
  assumes "ctx_ok ts c" "mc_capacity c \<le> 255" "set is \<subseteq> {..<mc_capacity c}" "distinct is"
    "k + card (used_slots c \<inter> set is) = mc_count c"
  shows "topology_loop (\<lambda>_. True) is k c = Some (c\<lparr>mc_objects := mc_objects c
    @ concat (map (\<lambda>i. slot_tx c i @ slot_rx c i) (filter (\<lambda>i. i \<in> used_slots c) is))\<rparr>)"
  using assms
proof (induction "is" arbitrary: k c)
  case Nil
  have "c\<lparr>mc_objects := mc_objects c\<rparr> = c" by (cases c) simp
  then show ?case by simp
next
  case (Cons i "is")
  have same: "c\<lparr>mc_objects := mc_objects c\<rparr> = c" by (cases c) simp
  show ?case
  proof (cases "mc_count c \<le> k")
    case True
    then have "card (used_slots c \<inter> set (i # is)) = 0" using Cons.prems(5) by linarith
    then have "used_slots c \<inter> set (i # is) = {}" by (metis card_0_eq finite_Int finite_slots(3))
    then have "filter (\<lambda>i. i \<in> used_slots c) (i # is) = []" by (auto simp: filter_empty_conv)
    then show ?thesis using True same by simp
  next
    case False
    show ?thesis
    proof (cases "i \<in> used_slots c")
      case True
      let ?c = "c\<lparr>mc_objects := mc_objects c @ slot_tx c i @ slot_rx c i\<rparr>"
      have "used_slots c \<inter> set (i # is) = insert i (used_slots c \<inter> set is)" using True by auto
      then have "Suc k + card (used_slots ?c \<inter> set is) = mc_count ?c" using Cons.prems(4,5) by simp
      moreover obtain z where "term_at c i = Some z" using True by (auto simp: used_slots_def)
      ultimately show ?thesis
        using Cons.IH[of ?c "Suc k"] Cons.prems False True topology_slot_objects[OF Cons.prems(1,2) True] by simp
    next
      case unused: False
      then have "term_at c i = None" using Cons.prems(3) by (simp add: used_slots_def)
      moreover have "used_slots c \<inter> set (i # is) = used_slots c \<inter> set is" using unused by auto
      ultimately show ?thesis using Cons.IH[of c k] Cons.prems False unused by simp
    qed
  qed
qed

lemma sum_list_single: "distinct xs \<Longrightarrow> sum_list (map (\<lambda>i. if i = a then (n :: nat) else 0) xs) = (if a \<in> set xs then n else 0)"
  by (induction xs) auto

lemma carried_concat: "carried (concat (map f xs)) t u = sum_list (map (\<lambda>i. carried (f i) t u) xs)"
  by (induction xs) simp_all

text \<open>What the objects of a slot carry.\<close>

lemma slot_carried:
  assumes ok: "ctx_ok ts c" and i: "i \<in> used_slots c"
  shows "carried (slot_tx c i) t u = (if (t, u) \<in> ctx_edges c \<and> i = tm_slot (ts t)
      \<and> (1 < card (out_slots c (tm_slot (ts t))) \<or> card (in_slots c (tm_slot (ts u))) \<le> 1) then 1 else 0)" (is ?tx)
    and "carried (slot_rx c i) t u = (if (t, u) \<in> ctx_edges c \<and> i = tm_slot (ts u) \<and> 1 < card (in_slots c i) then 1 else 0)" (is ?rx)
proof -
  obtain x where x: "i < mc_capacity c" "term_at c i = Some x" using i by (auto simp: used_slots_def)
  then have xm: "x \<in> ctx_members c" "tm_slot (ts x) = i" using ctx_okD(5)[OF ok x(1,2)] by (auto simp: ctx_members_def)
  have slot: "tm_slot (ts y) = j \<longleftrightarrow> y = z" if "j < mc_capacity c" "term_at c j = Some z" "y \<in> ctx_members c" for y z j
    using that(2) members_slot(2)[OF ok that(3)] ctx_okD(5)[OF ok that(1,2)] by (metis option.inject)
  have name: "\<exists>z. term_at c j = Some z" if "j \<in> out_slots c i \<or> j \<in> in_slots c i" for j
    using that x(1) ctx_okD(6)[OF ok, of i j] ctx_okD(6)[OF ok, of j i] by (auto simp: out_slots_def in_slots_def used_slots_def)
  have edge: "(t, u) \<in> ctx_edges c \<and> i = tm_slot (ts t) \<longleftrightarrow> t = x \<and> (\<exists>j \<in> out_slots c i. term_of c j = u)"
  proof
    assume a: "(t, u) \<in> ctx_edges c \<and> i = tm_slot (ts t)"
    then have m: "t \<in> ctx_members c" "u \<in> ctx_members c" using edges_members by blast+
    then have "t = x" using slot[OF x m(1)] a by simp
    moreover have "matrix_on c i (tm_slot (ts u))" using edges_slots[OF ok m] a by simp
    ultimately show "t = x \<and> (\<exists>j \<in> out_slots c i. term_of c j = u)"
      using members_slot[OF ok m(2)] by (intro conjI bexI[of _ "tm_slot (ts u)"]) (auto simp: out_slots_def)
  next
    assume a: "t = x \<and> (\<exists>j \<in> out_slots c i. term_of c j = u)"
    then obtain j where j: "j \<in> out_slots c i" "term_of c j = u" by blast
    then have "term_at c j = Some u" using name[of j] by auto
    then show "(t, u) \<in> ctx_edges c \<and> i = tm_slot (ts t)"
      using a x xm j(1) by (auto simp: ctx_edges_def out_slots_def)
  qed
  have edge_in: "(t, u) \<in> ctx_edges c \<and> i = tm_slot (ts u) \<longleftrightarrow> u = x \<and> (\<exists>j \<in> in_slots c i. term_of c j = t)"
  proof
    assume a: "(t, u) \<in> ctx_edges c \<and> i = tm_slot (ts u)"
    then have m: "t \<in> ctx_members c" "u \<in> ctx_members c" using edges_members by blast+
    then have "u = x" using slot[OF x m(2)] a by simp
    moreover have "matrix_on c (tm_slot (ts t)) i" using edges_slots[OF ok m] a by simp
    ultimately show "u = x \<and> (\<exists>j \<in> in_slots c i. term_of c j = t)"
      using members_slot[OF ok m(1)] by (intro conjI bexI[of _ "tm_slot (ts t)"]) (auto simp: in_slots_def)
  next
    assume a: "u = x \<and> (\<exists>j \<in> in_slots c i. term_of c j = t)"
    then obtain j where j: "j \<in> in_slots c i" "term_of c j = t" by blast
    then have "term_at c j = Some t" using name[of j] by auto
    then show "(t, u) \<in> ctx_edges c \<and> i = tm_slot (ts u)"
      using a x xm j(1) by (auto simp: ctx_edges_def in_slots_def)
  qed
  show ?rx using edge_in x slots_lists(3)[of c i] by (auto simp: slot_rx_def)
  consider (none) "sink_slots c i = []" | (one) j where "sink_slots c i = [j]" | (more) j k js where "sink_slots c i = j # k # js"
    by (metis list.exhaust)
  then show ?tx
  proof cases
    case none
    then have "out_slots c i = {}" using slots_lists(1)[of c i] by simp
    then show ?thesis using none edge by (auto simp: slot_tx_def)
  next
    case one
    then have o: "out_slots c i = {j}" using slots_lists(1)[of c i] by auto
    then obtain z where z: "term_at c j = Some z" "j < mc_capacity c" using name[of j] by (auto simp: out_slots_def)
    then have "tm_slot (ts z) = j" using ctx_okD(5)[OF ok] by blast
    then show ?thesis using one o edge x xm z by (auto simp: slot_tx_def)
  next
    case more
    then have "1 < card (out_slots c i)" using slots_lists(2)[of c i] by simp
    moreover have "set (map (term_of c) (sink_slots c i)) = term_of c ` out_slots c i" using slots_lists(1)[of c i] by simp
    ultimately show ?thesis using more edge x xm by (auto simp: slot_tx_def image_iff)
  qed
qed

definition out_degree :: "media_context \<Rightarrow> nat \<Rightarrow> nat" where
  "out_degree c t = card {u. (t, u) \<in> ctx_edges c}"

definition in_degree :: "media_context \<Rightarrow> nat \<Rightarrow> nat" where
  "in_degree c u = card {t. (t, u) \<in> ctx_edges c}"

lemma slot_degrees:
  assumes ok: "ctx_ok ts c" and t: "t \<in> ctx_members c"
  shows "card (out_slots c (tm_slot (ts t))) = out_degree c t" "card (in_slots c (tm_slot (ts t))) = in_degree c t"
proof -
  have inj: "inj_on (\<lambda>u. tm_slot (ts u)) (ctx_members c)"
    by (rule inj_onI) (metis members_slot(2)[OF ok] option.inject)
  have sub: "{u. (t, u) \<in> ctx_edges c} \<subseteq> ctx_members c" "{u. (u, t) \<in> ctx_edges c} \<subseteq> ctx_members c"
    using edges_members[of _ _ c] by blast+
  have name: "\<exists>u \<in> ctx_members c. tm_slot (ts u) = j" if "j < mc_capacity c" "j \<in> used_slots c" for j
    using that ctx_okD(5)[OF ok] by (fastforce simp: used_slots_def ctx_members_def)
  have "out_slots c (tm_slot (ts t)) = (\<lambda>u. tm_slot (ts u)) ` {u. (t, u) \<in> ctx_edges c}" (is "?o = ?f ` ?E")
  proof
    show "?o \<subseteq> ?f ` ?E"
    proof
      fix j assume j: "j \<in> ?o"
      then have "j \<in> used_slots c" using ctx_okD(6)[OF ok members_slot(1)[OF ok t], of j] by (auto simp: out_slots_def)
      then obtain u where u: "u \<in> ctx_members c" "tm_slot (ts u) = j" using name j by (auto simp: out_slots_def)
      then show "j \<in> ?f ` ?E" using edges_slots[OF ok t u(1)] j by (auto simp: out_slots_def)
    qed
    show "?f ` ?E \<subseteq> ?o" using edges_members[of t _ c] edges_slots[OF ok t] members_slot(1)[OF ok] by (auto simp: out_slots_def)
  qed
  then show "card (out_slots c (tm_slot (ts t))) = out_degree c t"
    using card_image[OF inj_on_subset[OF inj sub(1)]] by (simp add: out_degree_def)
  have "in_slots c (tm_slot (ts t)) = (\<lambda>u. tm_slot (ts u)) ` {u. (u, t) \<in> ctx_edges c}" (is "?o = ?f ` ?E")
  proof
    show "?o \<subseteq> ?f ` ?E"
    proof
      fix j assume j: "j \<in> ?o"
      then have "j \<in> used_slots c" using ctx_okD(6)[OF ok _ members_slot(1)[OF ok t], of j] by (auto simp: in_slots_def)
      then obtain u where u: "u \<in> ctx_members c" "tm_slot (ts u) = j" using name j by (auto simp: in_slots_def)
      then show "j \<in> ?f ` ?E" using edges_slots[OF ok u(1) t] j by (auto simp: in_slots_def)
    qed
    show "?f ` ?E \<subseteq> ?o" using edges_members[of _ t c] edges_slots[OF ok _ t] members_slot(1)[OF ok] by (auto simp: in_slots_def)
  qed
  then show "card (in_slots c (tm_slot (ts t))) = in_degree c t"
    using card_image[OF inj_on_subset[OF inj sub(2)]] by (simp add: in_degree_def)
qed

text \<open>
  C12: When every object can be created, the topology of a context carries its associations and
  nothing else, each exactly once, except those whose source has several sinks and whose sink has
  several sources: they are carried twice, by the multiplier of the source and by the mixer of the
  sink, so a conference of three reads each source more than once in a cycle.
\<close>

theorem topology_carries_associations:
  assumes "ctx_ok ts c" and "mc_capacity c \<le> 255"
  shows "\<exists>c1. mpf_context_topology_apply (\<lambda>_. True) c = Some c1 \<and> ctx_graph c1 = ctx_graph c
    \<and> (\<forall>t u. carried (mc_objects c1) t u =
         (if (t, u) \<notin> ctx_edges c then 0 else if 1 < out_degree c t \<and> 1 < in_degree c u then 2 else 1))"
proof -
  let ?c = "c\<lparr>mc_objects := []\<rparr>" and ?used = "filter (\<lambda>i. i \<in> used_slots c) [0..<mc_capacity c]"
  let ?obs = "concat (map (\<lambda>i. slot_tx c i @ slot_rx c i) ?used)"
  have used: "set ?used = used_slots c" by (auto simp: used_slots_def)
  have "used_slots c \<inter> set [0..<mc_capacity c] = used_slots c" by (auto simp: used_slots_def)
  then have "topology_loop (\<lambda>_. True) [0..<mc_capacity c] 0 ?c = Some (?c\<lparr>mc_objects := ?obs\<rparr>)"
    using topology_loop_objects[of ts ?c "[0..<mc_capacity c]" 0] assms ctx_okD(3)[OF assms(1)] by (auto simp: lessThan_atLeast0)
  then have ap: "mpf_context_topology_apply (\<lambda>_. True) c = Some (c\<lparr>mc_objects := ?obs\<rparr>)"
    by (simp add: mpf_context_topology_apply_def mpf_context_topology_destroy_def)
  have "carried ?obs t u = (if (t, u) \<notin> ctx_edges c then 0 else if 1 < out_degree c t \<and> 1 < in_degree c u then 2 else 1)" for t u
  proof -
    let ?a = "tm_slot (ts t)" and ?b = "tm_slot (ts u)"
    define A where "A = (if (t, u) \<in> ctx_edges c \<and> (1 < card (out_slots c ?a) \<or> card (in_slots c ?b) \<le> 1) then 1 else 0 :: nat)"
    define B where "B = (if (t, u) \<in> ctx_edges c \<and> 1 < card (in_slots c ?b) then 1 else 0 :: nat)"
    have one: "carried (slot_tx c i @ slot_rx c i) t u = (if i = ?a then A else 0) + (if i = ?b then B else 0)" if "i \<in> set ?used" for i
      using slot_carried[OF assms(1), of i t u] that used by (auto simp: A_def B_def)
    have "carried ?obs t u = sum_list (map (\<lambda>i. (if i = ?a then A else 0) + (if i = ?b then B else 0)) ?used)"
      unfolding carried_concat using one by (intro arg_cong[of _ _ sum_list] map_cong) auto
    also have "\<dots> = (if ?a \<in> set ?used then A else 0) + (if ?b \<in> set ?used then B else 0)"
      using sum_list_single[of ?used ?a A] sum_list_single[of ?used ?b B] by (simp add: sum_list_addf del: set_filter)
    finally have sum: "carried ?obs t u = (if ?a \<in> used_slots c then A else 0) + (if ?b \<in> used_slots c then B else 0)"
      unfolding used .
    show ?thesis
    proof (cases "(t, u) \<in> ctx_edges c")
      case True
      then have m: "t \<in> ctx_members c" "u \<in> ctx_members c" using edges_members by blast+
      then have s: "?a \<in> used_slots c" "?b \<in> used_slots c" using members_slot[OF assms(1)] by (auto simp: used_slots_def)
      show ?thesis using True s slot_degrees[OF assms(1) m(1)] slot_degrees[OF assms(1) m(2)]
        unfolding sum A_def B_def by auto
    next
      case False
      then show ?thesis unfolding sum A_def B_def by simp
    qed
  qed
  then show ?thesis unfolding ap by simp
qed

section \<open>The end of a factory\<close>

lemma subtract_ring:
  "fa_ring (snd (mpf_context_termination_subtract a t f)) = fa_ring f
    \<or> fa_ring (snd (mpf_context_termination_subtract a t f)) = remove1 a (fa_ring f)"
  by (simp add: mpf_context_termination_subtract_def Let_def)

lemma destroy_ring:
  "fa_ring (snd (mpf_context_destroy a f)) = fa_ring f \<or> length (fa_ring (snd (mpf_context_destroy a f))) < length (fa_ring f)"
proof -
  have "fa_ring (snd (destroy_loop a is f)) = fa_ring f \<or> length (fa_ring (snd (destroy_loop a is f))) < length (fa_ring f)" for "is"
  proof (induction "is" arbitrary: f)
    case (Cons i "is")
    show ?case
    proof (cases "term_at (fa_contexts f a) i")
      case (Some t)
      let ?f = "snd (mpf_context_termination_subtract a t f)"
      have "fa_ring ?f = fa_ring f \<or> length (fa_ring ?f) < length (fa_ring f)"
        using subtract_ring[of a t f] by (metis length_remove1 less_irrefl notin_set_remove1 nat_less_le remove1_idem diff_le_self One_nat_def diff_less length_pos_if_in_set zero_less_one)
      then show ?thesis using Cons.IH[of ?f] Some by (auto split: prod.split)
    qed (use Cons.IH in simp)
  qed simp
  then show ?thesis by (simp add: mpf_context_destroy_def)
qed

text \<open>The contexts of the ring are destroyed until it is empty; the output names their terminations.\<close>

function mpf_context_factory_destroy :: "media_factory \<Rightarrow> nat list \<times> media_factory" where
  "mpf_context_factory_destroy f =
     (case fa_ring f of
        [] \<Rightarrow> ([], f)
      | a # _ \<Rightarrow>
          (let (ts, f1) = mpf_context_destroy a f;
               (us, f2) = mpf_context_factory_destroy (f1\<lparr>fa_ring := remove1 a (fa_ring f1)\<rparr>)
           in (ts @ us, f2)))"
  by pat_completeness auto
termination
proof (relation "measure (\<lambda>f. length (fa_ring f))")
  fix f a r x ts f1
  assume a: "fa_ring f = a # r" "x = mpf_context_destroy a f" "(ts, f1) = x"
  then have "fa_ring f1 = fa_ring f \<or> length (fa_ring f1) < length (fa_ring f)" using destroy_ring[of a f] by (metis snd_conv)
  moreover have "length (remove1 a (fa_ring f1)) \<le> length (fa_ring f1)" by (simp add: length_remove1)
  ultimately show "(f1\<lparr>fa_ring := remove1 a (fa_ring f1)\<rparr>, f) \<in> measure (\<lambda>f. length (fa_ring f))"
    using a(1) by auto
qed simp

declare mpf_context_factory_destroy.simps [simp del]

lemma factory_destroy_ring: "fa_ring (snd (mpf_context_factory_destroy f)) = []"
proof (induction f rule: mpf_context_factory_destroy.induct)
  case (1 f)
  show ?case
  proof (cases "fa_ring f")
    case (Cons a r)
    obtain ts f1 where d: "mpf_context_destroy a f = (ts, f1)" by fastforce
    show ?thesis using 1[OF Cons d[symmetric] refl] by (subst mpf_context_factory_destroy.simps) (auto simp: Cons d split: prod.split)
  qed (subst mpf_context_factory_destroy.simps, simp)
qed

section \<open>A conference\<close>

text \<open>Three terminations that send and receive, in a context of five slots.\<close>

definition duplex_factory :: media_factory where
  "duplex_factory = \<lparr>fa_ring = [], fa_contexts = (\<lambda>_. mpf_context_create 5),
     fa_terminations = (\<lambda>_. \<lparr>tm_slot = 0, tm_audio_direction = Some 3\<rparr>)\<rparr>"

lemma duplex_compatible: "compatible (fa_terminations duplex_factory) = (\<lambda>_ _. True)"
  by (simp add: duplex_factory_def compatible_def stream_direction_compatibility_check_def fun_eq_iff)

theorem context_refines_graph_witness:
  "\<exists>f1. ctx_run 0 [CAdd 1, CAdd 2, CAssociate 1 2, CAssociate 1 7, CSubtract 1, CSubtract 1] duplex_factory
      = ([True, True, True, False, True, False], f1)
    \<and> fa_ok 0 f1 \<and> ctx_graph (fa_contexts f1 0) = ({2}, {})"
proof -
  let ?ops = "[CAdd 1, CAdd 2, CAssociate 1 2, CAssociate 1 7, CSubtract 1, CSubtract 1]"
  have c: "fa_contexts duplex_factory 0 = mpf_context_create 5" "0 \<notin> set (fa_ring duplex_factory)" by (simp_all add: duplex_factory_def)
  have "no_readd 5 (\<lambda>_ _. True) ?ops ({}, {})" by simp
  then have "\<exists>rs f1. ctx_run 0 ?ops duplex_factory = (rs, f1) \<and> fa_ok 0 f1
      \<and> graph_run 5 (\<lambda>_ _. True) ?ops ({}, {}) = (rs, ctx_graph (fa_contexts f1 0))"
    by (rule context_refines_graph[OF c, of ?ops, unfolded duplex_compatible, rotated]) simp
  then obtain rs f1 where r: "ctx_run 0 ?ops duplex_factory = (rs, f1)" "fa_ok 0 f1"
      "graph_run 5 (\<lambda>_ _. True) ?ops ({}, {}) = (rs, ctx_graph (fa_contexts f1 0))" by blast
  have "graph_run 5 (\<lambda>_ _. True) ?ops ({}, {}) = ([True, True, True, False, True, False], {2}, {})" by auto
  then show ?thesis using r by (auto simp del: ctx_run.simps graph_run.simps)
qed

definition sample_conference :: media_factory where
  "sample_conference = snd (ctx_run 0 [CAdd 1, CAdd 2, CAdd 3, CAssociate 1 2, CAssociate 1 3, CAssociate 2 3] duplex_factory)"

lemma sample_conference_ok:
  "ctx_ok (fa_terminations sample_conference) (fa_contexts sample_conference 0)"
  "mc_capacity (fa_contexts sample_conference 0) = 5"
  "ctx_edges (fa_contexts sample_conference 0) = {(1, 2), (2, 1), (1, 3), (3, 1), (2, 3), (3, 2)}"
proof -
  let ?ops = "[CAdd 1, CAdd 2, CAdd 3, CAssociate 1 2, CAssociate 1 3, CAssociate 2 3]"
  have c: "fa_contexts duplex_factory 0 = mpf_context_create 5" "0 \<notin> set (fa_ring duplex_factory)" by (simp_all add: duplex_factory_def)
  note k = context_create_ok[of 5]
  have "fa_ok 0 duplex_factory" using c k(1,3) by (simp add: fa_ok_def)
  moreover have "no_readd 5 (\<lambda>_ _. True) ?ops ({}, {})" by simp
  moreover have "mc_capacity (fa_contexts duplex_factory 0) = 5" "ctx_graph (fa_contexts duplex_factory 0) = ({}, {})"
    using c(1) k(2,4) by simp_all
  ultimately have "\<exists>rs f1. ctx_run 0 ?ops duplex_factory = (rs, f1) \<and> fa_ok 0 f1 \<and> mc_capacity (fa_contexts f1 0) = 5
      \<and> graph_run 5 (\<lambda>_ _. True) ?ops ({}, {}) = (rs, ctx_graph (fa_contexts f1 0))"
    using ctx_run_graph[of 0 duplex_factory ?ops] unfolding duplex_compatible by (simp del: ctx_run.simps graph_run.simps no_readd.simps)
  then obtain rs f1 where r: "ctx_run 0 ?ops duplex_factory = (rs, f1)" "fa_ok 0 f1" "mc_capacity (fa_contexts f1 0) = 5"
      "graph_run 5 (\<lambda>_ _. True) ?ops ({}, {}) = (rs, ctx_graph (fa_contexts f1 0))" by blast
  have f: "sample_conference = f1" using r(1) by (simp add: sample_conference_def)
  show "ctx_ok (fa_terminations sample_conference) (fa_contexts sample_conference 0)" using r(2) f by (simp add: fa_ok_def)
  have "graph_run 5 (\<lambda>_ _. True) ?ops ({}, {})
      = ([True, True, True, True, True, True], {1, 2, 3}, {(1, 2), (2, 1), (1, 3), (3, 1), (2, 3), (3, 2)})" by auto
  then show "ctx_edges (fa_contexts sample_conference 0) = {(1, 2), (2, 1), (1, 3), (3, 1), (2, 3), (3, 2)}"
    using r(4) f by (simp add: ctx_graph_def)
  show "mc_capacity (fa_contexts sample_conference 0) = 5" using r(3) f by simp
qed

theorem topology_carries_associations_witness:
  "\<exists>c1. mpf_context_topology_apply (\<lambda>_. True) (fa_contexts sample_conference 0) = Some c1 \<and> carried (mc_objects c1) 1 2 = 2"
proof -
  let ?c = "fa_contexts sample_conference 0"
  have "{u. (1, u) \<in> ctx_edges ?c} = {2, 3}" "{t. (t, 2) \<in> ctx_edges ?c} = {1, 3}" unfolding sample_conference_ok(3) by auto
  then have "1 < out_degree ?c 1" "1 < in_degree ?c 2" by (simp_all add: out_degree_def in_degree_def)
  then show ?thesis using topology_carries_associations[OF sample_conference_ok(1)]
    by (auto simp: sample_conference_ok(2,3))
qed

end
