(* ===== verification/Spec2Isabelle.thy ===== *)
theory Spec2Isabelle
  imports Cyclic_Queue Timer_Queue Recog_SM Synth_SM Recorder_SM Verifier_SM
    Mrcp_Server_Connection Mrcp_Client_Connection
    Resource_Loader Rtsp_Stream G711 Jitter_Buffer Media_Buffer Media_Context
begin

text \<open>
  A verification library for the UniMRCP code under \<open>src/unimrcp-1.6.0\<close>, an implementation of
  the Media Resource Control Protocol. Paths below are relative to \<open>src/unimrcp-1.6.0/libs\<close>.

  \<^bold>\<open>The program.\<close> A client asks a speech server for recognition, synthesis, recording and
  verification. A message from the transport is a start line, header fields and a body. The
  toolkit (\<open>apr-toolkit\<close>) reads and writes it: text streams, string tables and header sections.
  The message library (\<open>mrcp/message\<close>) gives it a structure and the numeric identifiers the
  rest of the code works with. The state machine of the resource (\<open>mrcp-engine\<close>) decides what
  happens to it: it is handed to the engine plugin, queued, or answered at once, and what the
  engine sends is handed to the client. Queues and timers of the toolkit drive the tasks
  these run in.

  \<^bold>\<open>Theories.\<close> Definitions carry the names of the C functions.
  \<^item> \<open>Prelude\<close>: machine integers, C strings and the C library functions used on them,
    the rule collections, the interface \<open>fifo\<close> of a queue.
  \<^item> \<open>Obj_List\<close> (\<open>apt_obj_list.c\<close>) and \<open>Cyclic_Queue\<close> (\<open>apt_cyclic_queue.c\<close>): the two queues;
    both interpret \<open>fifo\<close>. Accesses outside the array are \<open>None\<close>; a queue created for at
    least two elements is shown to refine a list and never to have one.
  \<^item> \<open>Timer_Queue\<close> (\<open>apt_timer_queue.c\<close>): a sorted ring of timers with 32-bit times. What
    is due when, what fires, and where the restart of the clock loses a timer.
  \<^item> \<open>String_Table\<close>, \<open>Text_Stream\<close>, \<open>Header_Section\<close>: the keyed search finds exactly the entry
    of the name; header lines, pair lists and values are read back as written; a section is a
    map from identifiers to fields, kept consistent by each operation.
  \<^item> \<open>Start_Line\<close> (\<open>mrcp_start_line.c\<close>): both protocol versions are parsed back as generated,
    with the length field completed afterwards in place.
  \<^item> \<open>Mrcp_Header\<close> (\<open>mrcp_header_accessor.c\<close>, \<open>mrcp_generic_header.c\<close>, \<open>mrcp_header.c\<close>): the
    interface \<open>header_iface\<close> of a header (parse, generate, duplicate), interpreted by the
    generic header; parsing, merging and inheriting the fields of messages.
  \<^item> \<open>Float32\<close>, \<open>Header_Codec\<close> and \<open>Recog_Header\<close>, \<open>Synth_Header\<close>, \<open>Recorder_Header\<close>,
    \<open>Verifier_Header\<close> (\<open>mrcp/resources/src/mrcp_*_header.c\<close>): the headers of the resources. Numbers
    of type \<open>float\<close> are pairs of mantissa and exponent, rounded as IEEE 754 says. The interface
    \<open>header_codec\<close> states that a value is read back as it was written and that other fields are
    left alone; each header interprets it, and the headers of recognizer and synthesizer also
    \<open>header_values\<close>, which says what arrives of the value behind a text: a fraction arrives with
    six digits, a percent value of version 1 as the nearest percent.
  \<^item> \<open>Mrcp_Message\<close> (\<open>mrcp_message.c\<close>): responses and events made from requests, validation.
  \<^item> \<open>Text_Message\<close> (\<open>apt_text_message.c\<close>): the parser and the generator of messages with
    their stages. The interface \<open>message_protocol\<close> is what a protocol supplies (start line,
    end of the header, access to header and body); inside it, a stream of bytes cut into any
    segments is shown to lead to the messages it holds.
  \<^item> \<open>Resource_Factory\<close> (\<open>mrcp_resource_factory.c\<close>) and \<open>Mrcp_Stream\<close> (\<open>mrcp_stream.c\<close>): the
    handlers for MRCP messages, which interpret \<open>message_protocol\<close>; a generated message is
    parsed back whole.
  \<^item> \<open>Resource_Loader\<close> (\<open>mrcp_resource_loader.c\<close>, \<open>mrcp_*_resource.c\<close>): the four resources with
    their methods, events and headers, compared with the names of the protocol, each registered
    and found by identifier and by name.
  \<^item> \<open>Rtsp_Start_Line\<close>, \<open>Rtsp_Message\<close>, \<open>Rtsp_Stream\<close> (\<open>uni-rtsp\<close>): the messages of RTSP, a second
    interpretation of \<open>message_protocol\<close>; a generated message is parsed back, and the ports of
    the server in a transport are shown to end up in the range of the client.
  \<^item> \<open>Control_Descriptor\<close>, \<open>Mrcp_Connection\<close>, \<open>Mrcp_Server_Connection\<close>,
    \<open>Mrcp_Client_Connection\<close> (\<open>mrcpv2-transport\<close>): the agents of both sides as functions from
    agent to agent, one for each message of the task, signal of the poller and timer.
    Connections and channels are kept by address; using one that was freed is \<open>None\<close>. On the
    server no reachable state has such a use, on the client each request has one answer, and
    messages sent by one side arrive at the user of the other.
  \<^item> \<open>Mpf_Codec\<close> (\<open>mpf_codec_descriptor.c\<close>, \<open>mpf_named_event.c\<close>, \<open>mpf_codec_manager.c\<close>) and
    \<open>G711\<close> (\<open>codecs/g711\<close>, \<open>mpf_codec_g711.c\<close>, \<open>mpf_codec_linear.c\<close>): what two sides agree on, and
    the samples of the codecs with their error. The interface \<open>frame_codec\<close> is what the media
    path relies on; PCMU, PCMA and L16 interpret it.
  \<^item> \<open>Media_Context\<close> (\<open>mpf_context.c\<close>): the terminations of a context with their associations, which
    refine a directed graph, and the topology built from it; a slot has at most 255 associations.
  \<^item> \<open>Mpf_Frame\<close> (\<open>mpf_frame.h\<close>) and \<open>Jitter_Buffer\<close> (\<open>mpf_jitter_buffer.c\<close>): the packets of a stream in any order,
    played as a line of slots; the wrap-around of the test for a packet that is too early.
  \<^item> \<open>Media_Buffer\<close> (\<open>mpf_frame_buffer.c\<close>, \<open>mpf_buffer.c\<close>): a bounded queue of frames and a list of
    chunks; their loops are \<open>partial_function\<close>s, shown to return.
  \<^item> \<open>State_Machine\<close> (\<open>mrcp_state_machine.h\<close>) and \<open>Recog_SM\<close>, \<open>Synth_SM\<close>, \<open>Recorder_SM\<close>,
    \<open>Verifier_SM\<close> (\<open>mrcp_*_state_machine.c\<close>): one definition per handler, composed through the
    method tables as in the code. The two callbacks append to a list of outputs; a null
    dereference is \<open>None\<close>. The interface \<open>resource_sm\<close> states that an environment which sends
    well-formed messages never sees a fault, that outputs are only appended and that known
    requests are answered; each machine interprets it with its invariant. The interface
    \<open>pending_server\<close> is the contract of a machine that queues requests: what is asked for goes
    behind the queue, what is served comes from its front. Inside it a run of any length is
    shown to serve first in, first out; recognizer and synthesizer interpret it.

  \<^bold>\<open>Lemmas.\<close> For each component an invariant and its preservation, the behaviour of each
  operation, and round trips for what is written and read. Where the code departs from what
  its comments or its callers expect, the theorem states what it does: the inverted emptiness
  test of the cyclic queue, the truncated identifier list, the lost timer, the lost response, the
  request that overtakes the queue, the null dereference of the synthesizer.

  \<^bold>\<open>Bounds and fuel.\<close> Integers whose overflow matters are words (\<open>u8\<close>, \<open>u32\<close>, \<open>i16\<close>) or have
  the wrap-around written out (\<open>size_t\<close>, \<open>wrap64\<close>). The loop of \<open>apt_timer_queue_advance\<close> takes
  fuel, since a timer procedure may set timers; with procedures that set none, one more than
  the number of timers is enough, and the theorem says so. The loop that removes queued
  requests takes the length of the list. The loop that receives takes twice the number of bytes
  and two, since each round reads a byte or ends; the loop that sends takes the length of the
  body and two, since each round after the first writes a byte of it. The theorems on messages
  sent and received show that both are enough. Fractions in a header are in the range in which
  their text is exact (below 8); infinities and not-a-number are left out.

  \<^bold>\<open>Not modelled.\<close> Memory pools and logging; allocation does not fail. Threads, locks and
  polling (\<open>apt_task.c\<close>, \<open>apt_poller_task.c\<close>), the tasks of the media engine and its RTP
  sockets, the tone processing in floating point, signalling, the sessions of client and server, plugins, dynamic loading. What a
  socket does is an argument: the bytes received, whether a send succeeds, the peer's address.
  A message that a state machine keeps is a value; the code keeps a pointer, and the
  owner does not change a message after it has handed it over, with one exception: the internal
  STOP of a deactivation shares the header of the active request, which only its channel
  identifier is taken from. The synthesizer's safety theorem leaves out a late response to
  PAUSE, RESUME or CONTROL, for which a separate theorem shows the fault.
\<close>

section \<open>Properties that span components\<close>

text \<open>
  C4: A parameter set by SET-PARAMS reaches the engine with every later RECOGNIZE request that
  does not carry the field itself, until the next SET-PARAMS: whatever other messages and
  deactivations come between the two, the request that is handed to the engine, or that is put
  behind the queue while a recognition runs, has the field with the value that was set, under
  its own start line. The identifiers of the fields of SET-PARAMS are distinct. A request
  that was queued before SET-PARAMS keeps what it inherited then.
\<close>

theorem set_params_inherited:
  assumes "recog_reach s" and "recog.env_run s (Some m1 # as)"
    and "msg_type m1 = MRCP_MESSAGE_TYPE_REQUEST" and "msg_method_id m1 = RECOGNIZER_SET_PARAMS"
    and "distinct (map hf_id (section_fields (mh_section (msg_header m1))))"
    and "field_values (msg_header m1) j = Some v"
    and "j < length (sec_arr (mh_section (sm_properties s)))"
    and "\<forall>m. Some m \<in> set as \<longrightarrow> \<not> recog_sets_params m"
    and "msg_type m2 = MRCP_MESSAGE_TYPE_REQUEST" and "msg_method_id m2 = RECOGNIZER_RECOGNIZE"
    and "msg_wf m2" and "j < length (sec_arr (mh_section (msg_header m2)))"
    and "section_value (mh_section (msg_header m2)) j = None"
  shows "\<exists>s2 b s3 r. recog.run s (Some m1 # as) = Some s2 \<and> recog_state_update s2 m2 = Some (b, s3)
    \<and> section_value (mh_section (msg_header r)) j = Some v
    \<and> (if rs_state s2 = RECOGNIZER_STATE_RECOGNIZING
       then rs_queue s3 = rs_queue s2 @ [r] \<and> msg_request_id r = msg_request_id m2
       else sm_out s3 = sm_out s2 @ [Dispatched r] \<and> msg_start_line r = msg_start_line m2)"
proof -
  let ?p = "mrcp_header_fields_set (sm_properties s) (msg_header m1)"
  let ?s1 = "snd (recog_request_dispatch (s\<lparr>sm_properties := ?p\<rparr>) m1)"
  let ?r = "inherit_properties ?p m2"
  have inv: "recog_inv s" using recog_reach_inv[OF assms(1)] .
  then have wf: "header_wf (sm_properties s)" by (simp add: recog_inv_def)
  have "section_value (mh_section ?p) j = Some v"
    using fields_set_value[OF _ assms(7,5)] wf assms(6) by (simp add: header_wf_def)
  moreover have "length (sec_arr (mh_section ?p)) = length (sec_arr (mh_section (sm_properties s)))"
    by (rule fields_set_arr)
  ultimately have pv: "field_values ?p j = Some v"
    using field_values_indexed[of ?p j] wf assms(7) by simp
  have rv: "section_value (mh_section (msg_header ?r)) j = Some v"
    using fields_inherit_value[OF _ assms(12)] assms(11,13) pv by (simp add: inherit_properties_def msg_wf_def)
  have 1: "recog_state_update s m1 = Some (fst (recog_request_dispatch (s\<lparr>sm_properties := ?p\<rparr>) m1), ?s1)"
    using recog_set_params_update[OF assms(3,4)] by simp
  obtain s2 where s2: "recog.run s (Some m1 # as) = Some s2"
    using recog.run_safe[OF inv assms(2)] by blast
  then have "recog.run ?s1 as = Some s2" using 1 by (simp add: split_beta)
  then have props: "sm_properties s2 = ?p"
    using recog_run_properties[of ?s1 as s2] assms(8) by (simp add: recog_request_dispatch_def)
  show ?thesis
  proof (cases "rs_state s2 = RECOGNIZER_STATE_RECOGNIZING")
    case False
    then show ?thesis
      using s2 rv props recog_recognize_update[OF assms(9,10) False]
      by (intro exI[of _ s2] exI[of _ "sm_on_dispatch s2 ?r"]
          exI[of _ "snd (recog_request_dispatch s2 ?r)"] exI[of _ ?r]) (simp add: recog_request_dispatch_def del: recog.run.simps)
  next
    case True
    let ?q = "set_start_line (\<lambda>sl. sl\<lparr>sl_request_state := MRCP_REQUEST_STATE_PENDING\<rparr>) ?r"
    obtain b s3 where "recog_state_update s2 m2 = Some (b, s3)" "rs_queue s3 = rs_queue s2 @ [?q]"
      using recog_recognize_queued[OF assms(9,10) True] props by auto
    moreover have "msg_header ?q = msg_header ?r" by (simp add: set_start_line_def)
    ultimately show ?thesis using s2 rv True by (intro exI[of _ s2] exI[of _ b] exI[of _ s3] exI[of _ ?q])
      (simp del: recog.run.simps)
  qed
qed

definition tagged_request :: "nat \<Rightarrow> u32 \<Rightarrow> recog_header mrcp_message" where
  "tagged_request k i = (plain_request \<lparr>recog_completion_cause = 0\<rparr> k i)
     \<lparr>msg_header := (msg_header (plain_request \<lparr>recog_completion_cause = 0\<rparr> k i))
       \<lparr>mh_section := \<lparr>sec_ring = [(0, \<lparr>hf_name = ''Logging-Tag'', hf_value = ''x'', hf_id = 10\<rparr>)],
          sec_arr = (replicate 16 None)[10 := Some 0], sec_next = 1\<rparr>\<rparr>\<rparr>"

lemma set_params_inherited_witness:
  "\<exists>s2 b s3 r. recog.run (mrcp_recog_state_machine_create (\<lambda>_. True) True (plain_vtable \<lparr>recog_completion_cause = 0\<rparr>))
        [Some (tagged_request RECOGNIZER_SET_PARAMS 1),
         Some (plain_request \<lparr>recog_completion_cause = 0\<rparr> RECOGNIZER_GET_PARAMS 3)] = Some s2
    \<and> recog_state_update s2 (plain_request \<lparr>recog_completion_cause = 0\<rparr> RECOGNIZER_RECOGNIZE 2) = Some (b, s3)
    \<and> section_value (mh_section (msg_header r)) 10 = Some ''x''
    \<and> (Dispatched r \<in> set (sm_out s3) \<or> r \<in> set (rs_queue s3))"
proof -
  let ?h = "\<lparr>recog_completion_cause = 0\<rparr>"
  let ?s = "mrcp_recog_state_machine_create (\<lambda>_. True) True (plain_vtable ?h)"
  have sec: "mh_section (msg_header (plain_request ?h k i)) = \<lparr>sec_ring = [], sec_arr = replicate 16 None, sec_next = 0\<rparr>" for k i
    by (simp add: plain_defs set_start_line_def mrcp_request_create_def mrcp_message_resource_set_by_id_def
        msg_header_alloc_def Let_def apt_string_table_str_get_def mrcp_message_create_def
        mrcp_message_header_data_alloc_def mrcp_generic_header_vtable_get_def mrcp_message_header_init_def
        apt_header_section_array_alloc_def apt_header_section_init_def generic_header_vtable_def)
  have s: "10 < length (sec_arr (mh_section (sm_properties ?s)))"
    by (simp add: mrcp_recog_state_machine_create_def mrcp_message_header_create_def plain_vtable_def
        mrcp_message_header_data_alloc_def mrcp_message_header_init_def apt_header_section_array_alloc_def
        apt_header_section_init_def generic_header_vtable_def)
  have m1: "msg_type (tagged_request RECOGNIZER_SET_PARAMS 1) = MRCP_MESSAGE_TYPE_REQUEST"
    "msg_method_id (tagged_request RECOGNIZER_SET_PARAMS 1) = RECOGNIZER_SET_PARAMS"
    "distinct (map hf_id (section_fields (mh_section (msg_header (tagged_request RECOGNIZER_SET_PARAMS 1)))))"
    "field_values (msg_header (tagged_request RECOGNIZER_SET_PARAMS 1)) 10 = Some ''x''"
    by (simp_all add: tagged_request_def section_fields_def field_values_def)
  have m2: "msg_wf (plain_request ?h RECOGNIZER_RECOGNIZE 2)"
    "10 < length (sec_arr (mh_section (msg_header (plain_request ?h RECOGNIZER_RECOGNIZE 2))))"
    "section_value (mh_section (msg_header (plain_request ?h RECOGNIZER_RECOGNIZE 2))) 10 = None"
    by (simp_all add: msg_wf_def sec section_wf_def section_value_def section_lookup_def apt_header_section_field_get_def)
  have res: "msg_has_resource (tagged_request RECOGNIZER_SET_PARAMS 1)"
    using plain_facts(4)[of ?h RECOGNIZER_SET_PARAMS 1]
    by (auto simp: tagged_request_def msg_has_resource_def split: option.splits)
  have env: "recog.env_run ?s [Some (tagged_request RECOGNIZER_SET_PARAMS 1), Some (plain_request ?h RECOGNIZER_GET_PARAMS 3)]"
    using res m1(1) by (simp add: recog_env_def split: option.split)
  have none: "\<forall>m. Some m \<in> set [Some (plain_request ?h RECOGNIZER_GET_PARAMS 3)] \<longrightarrow> \<not> recog_sets_params m"
    by (simp add: recog_sets_params_def)
  show ?thesis
    using set_params_inherited[OF recog_reach_create env m1 s none plain_facts(3) plain_facts(2) m2]
    by (elim exE conjE, intro exI conjI) (assumption | simp split: if_splits)+
qed

end
